(* ===== verification/Prelude.thy ===== *)
theory Prelude
  imports Main "HOL-Library.Sublist" "HOL-Library.Char_ord" "HOL-Library.List_Lexorder"
begin

text \<open>
  Shared vocabulary of the development: the result type of operations that can throw, the part of
  the JavaScript string library the modelled sources use, and generic list lemmas.

  A JavaScript string is a list of UTF-16 code units. It is modelled by \<^typ>\<open>string\<close>, so the
  model covers the strings whose code units are below 256 (ASCII and Latin-1); every function here
  is written for all of these, e.g. \<open>trim\<close> removes the no-break space 160 and \<open>toLowerCase\<close> maps
  the Latin-1 capitals. A JavaScript number that the source uses as an integer (ids, counters,
  millisecond timestamps) is an \<^typ>\<open>int\<close>; \<open>NaN\<close> and \<open>undefined\<close> are \<open>None\<close>.
\<close>

named_theorems js_defs \<open>definitions of the string helpers, unfolded to evaluate them\<close>
named_theorems table_simps \<open>rewriting of reads of a table after a write\<close>

section \<open>Results\<close>

datatype js_error = Error string

type_synonym 'a result = "js_error + 'a"

abbreviation throw :: "string \<Rightarrow> 'a result" where
  "throw msg \<equiv> Inl (Error msg)"

fun bind_result :: "'a result \<Rightarrow> ('a \<Rightarrow> 'b result) \<Rightarrow> 'b result" where
  "bind_result (Inl e) f = Inl e"
| "bind_result (Inr x) f = f x"

fun map_result :: "('a \<Rightarrow> 'b result) \<Rightarrow> 'a list \<Rightarrow> 'b list result" where
  "map_result f [] = Inr []"
| "map_result f (x # xs) = bind_result (f x) (\<lambda>y. bind_result (map_result f xs) (\<lambda>ys. Inr (y # ys)))"

lemma bind_result_Inr [simp]: "bind_result r f = Inr y \<longleftrightarrow> (\<exists>x. r = Inr x \<and> f x = Inr y)"
  by (cases r) auto

lemma bind_result_Inl: "bind_result r f = Inl e \<longleftrightarrow> r = Inl e \<or> (\<exists>x. r = Inr x \<and> f x = Inl e)"
  by (cases r) auto

lemma map_result_length: "map_result f xs = Inr ys \<Longrightarrow> length ys = length xs"
  by (induction xs arbitrary: ys) auto

lemma map_result_Inr_set:
  "map_result f xs = Inr ys \<Longrightarrow> y \<in> set ys \<Longrightarrow> \<exists>x \<in> set xs. f x = Inr y"
  by (induction xs arbitrary: ys) auto

text \<open>
  A method that writes to storage and may throw half-way: what it wrote stays, so it returns the
  state together with its result.
\<close>

type_synonym ('s, 'a) action = "'s \<Rightarrow> 's \<times> 'a result"

definition act_return :: "'a \<Rightarrow> ('s, 'a) action" where
  "act_return x s = (s, Inr x)"

definition act_throw :: "string \<Rightarrow> ('s, 'a) action" where
  "act_throw msg s = (s, throw msg)"

definition act_bind :: "('s, 'a) action \<Rightarrow> ('a \<Rightarrow> ('s, 'b) action) \<Rightarrow> ('s, 'b) action" where
  "act_bind m f s = (case m s of (s', Inl e) \<Rightarrow> (s', Inl e) | (s', Inr x) \<Rightarrow> f x s')"

text \<open>One statement that either changes the state or throws without changing it.\<close>

definition act_try :: "('s \<Rightarrow> 's result) \<Rightarrow> ('s, unit) action" where
  "act_try f s = (case f s of Inl e \<Rightarrow> (s, Inl e) | Inr s' \<Rightarrow> (s', Inr ()))"

definition act_modify :: "('s \<Rightarrow> 's) \<Rightarrow> ('s, unit) action" where
  "act_modify f s = (f s, Inr ())"

definition act_get :: "('s \<Rightarrow> 'a) \<Rightarrow> ('s, 'a) action" where
  "act_get f s = (s, Inr (f s))"

fun act_each :: "('a \<Rightarrow> ('s, unit) action) \<Rightarrow> 'a list \<Rightarrow> ('s, unit) action" where
  "act_each f [] s = (s, Inr ())"
| "act_each f (x # xs) s = act_bind (f x) (\<lambda>_. act_each f xs) s"

lemmas act_defs = act_return_def act_throw_def act_bind_def act_try_def act_modify_def act_get_def

text \<open>An action keeps an invariant when it does so on every path, the throwing ones included.\<close>

definition act_keeps :: "('s \<Rightarrow> bool) \<Rightarrow> ('s, 'a) action \<Rightarrow> bool" where
  "act_keeps I m \<longleftrightarrow> (\<forall>s. I s \<longrightarrow> I (fst (m s)))"

lemma keepsD: "act_keeps I m \<Longrightarrow> I s \<Longrightarrow> I (fst (m s))"
  by (simp add: act_keeps_def)

lemma keeps_return [simp]: "act_keeps I (act_return x)"
  and keeps_throw [simp]: "act_keeps I (act_throw msg)"
  and keeps_get [simp]: "act_keeps I (act_get f)"
  by (simp_all add: act_keeps_def act_defs)

lemma keeps_modify: "(\<And>s. I s \<Longrightarrow> I (f s)) \<Longrightarrow> act_keeps I (act_modify f)"
  by (simp add: act_keeps_def act_defs)

lemma keeps_try: "(\<And>s s'. I s \<Longrightarrow> f s = Inr s' \<Longrightarrow> I s') \<Longrightarrow> act_keeps I (act_try f)"
  by (auto simp: act_keeps_def act_defs split: sum.split)

lemma keeps_bind: "act_keeps I m \<Longrightarrow> (\<And>x. act_keeps I (f x)) \<Longrightarrow> act_keeps I (act_bind m f)"
  unfolding act_keeps_def act_bind_def
  by (fastforce split: prod.split sum.split)

lemma keeps_each: "(\<And>x. x \<in> set xs \<Longrightarrow> act_keeps I (f x)) \<Longrightarrow> act_keeps I (act_each f xs)"
proof (induction xs)
  case (Cons x xs)
  then have "act_keeps I (act_bind (f x) (\<lambda>_. act_each f xs))" by (intro keeps_bind) auto
  then show ?case by (simp add: act_keeps_def)
qed (simp add: act_keeps_def)

lemma keeps_if: "act_keeps I m \<Longrightarrow> act_keeps I n \<Longrightarrow> act_keeps I (if c then m else n)"
  by simp

section \<open>JSON values\<close>

text \<open>A parsed JSON value. A number is an integer, a non-integral number with its floor, or not
  finite; \<open>undefined\<close> is an absent key.\<close>

datatype js_number = IntNum int | FracNum int | NonFinite

datatype json = JNull | JBool bool | JNum js_number | JStr string | JArr "json list"
  | JObj "(string \<times> json) list"

definition json_get :: "json \<Rightarrow> string \<Rightarrow> json option" where
  "json_get v k = (case v of JObj kvs \<Rightarrow> map_of kvs k | _ \<Rightarrow> None)"

definition json_string :: "json option \<Rightarrow> string option" where
  "json_string v = (case v of Some (JStr s) \<Rightarrow> Some s | _ \<Rightarrow> None)"

text \<open>Whether a value read from a parsed document counts as true.\<close>

definition json_truthy :: "json option \<Rightarrow> bool" where
  "json_truthy v =
     (case v of None \<Rightarrow> False | Some JNull \<Rightarrow> False | Some (JBool b) \<Rightarrow> b
      | Some (JNum n) \<Rightarrow> n \<noteq> IntNum 0 | Some (JStr x) \<Rightarrow> x \<noteq> [] | Some _ \<Rightarrow> True)"

definition js_safe_integer :: "js_number \<Rightarrow> bool" where
  "js_safe_integer n = (case n of IntNum i \<Rightarrow> \<bar>i\<bar> \<le> 9007199254740991 | _ \<Rightarrow> False)"

text \<open>The nullish coalescing operator \<open>a ?? b\<close>.\<close>

definition coalesce :: "'a option \<Rightarrow> 'a \<Rightarrow> 'a" where
  "coalesce x d = (case x of None \<Rightarrow> d | Some v \<Rightarrow> v)"

lemma coalesce_simps [simp]: "coalesce None d = d" "coalesce (Some v) d = v"
  by (simp_all add: coalesce_def)

text \<open>A JavaScript string is falsy when it is absent or empty.\<close>

definition truthy :: "string option \<Rightarrow> bool" where
  "truthy s \<longleftrightarrow> s \<noteq> None \<and> s \<noteq> Some []"

section \<open>Strings\<close>

definition js_ws :: "char \<Rightarrow> bool" where
  "js_ws c \<longleftrightarrow> (let n = of_char c :: nat in n = 32 \<or> (9 \<le> n \<and> n \<le> 13) \<or> n = 160)"

definition js_trim_start :: "string \<Rightarrow> string" where
  "js_trim_start s = dropWhile js_ws s"

definition js_trim :: "string \<Rightarrow> string" where
  "js_trim s = rev (dropWhile js_ws (rev (dropWhile js_ws s)))"

definition js_lower_char :: "char \<Rightarrow> char" where
  "js_lower_char c =
     (let n = of_char c :: nat
      in if (65 \<le> n \<and> n \<le> 90) \<or> (192 \<le> n \<and> n \<le> 222 \<and> n \<noteq> 215) then char_of (n + 32) else c)"

definition js_lower :: "string \<Rightarrow> string" where
  "js_lower s = map js_lower_char s"

fun js_split :: "char \<Rightarrow> string \<Rightarrow> string list" where
  "js_split d [] = [[]]"
| "js_split d (c # cs) =
     (if c = d then [] # js_split d cs
      else (case js_split d cs of [] \<Rightarrow> [[c]] | p # ps \<Rightarrow> (c # p) # ps))"

fun js_join :: "string \<Rightarrow> string list \<Rightarrow> string" where
  "js_join sep [] = []"
| "js_join sep [x] = x"
| "js_join sep (x # y # ys) = x @ sep @ js_join sep (y # ys)"

definition is_digit :: "char \<Rightarrow> bool" where
  "is_digit c \<longleftrightarrow> (let n = of_char c :: nat in 48 \<le> n \<and> n \<le> 57)"

definition is_lower_az :: "char \<Rightarrow> bool" where
  "is_lower_az c \<longleftrightarrow> (let n = of_char c :: nat in 97 \<le> n \<and> n \<le> 122)"

definition is_upper_az :: "char \<Rightarrow> bool" where
  "is_upper_az c \<longleftrightarrow> (let n = of_char c :: nat in 65 \<le> n \<and> n \<le> 90)"

definition digit_char :: "nat \<Rightarrow> char" where
  "digit_char n = char_of (48 + n)"

definition digit_val :: "char \<Rightarrow> nat" where
  "digit_val c = of_char c - 48"

fun show_nat :: "nat \<Rightarrow> string" where
  "show_nat n = (if n < 10 then [digit_char n] else show_nat (n div 10) @ [digit_char (n mod 10)])"

declare show_nat.simps [simp del]

text \<open>\<open>String(n)\<close> of an integer.\<close>

definition show_int :: "int \<Rightarrow> string" where
  "show_int i = (if i < 0 then CHR ''-'' # show_nat (nat (- i)) else show_nat (nat i))"

definition digits_val :: "string \<Rightarrow> nat" where
  "digits_val ds = foldl (\<lambda>a c. a * 10 + digit_val c) 0 ds"

text \<open>\<open>parseInt(s, 10)\<close>: leading white space, an optional sign, the longest run of digits; \<open>NaN\<close>
  when there is none.\<close>

definition parse_int :: "string \<Rightarrow> int option" where
  "parse_int s =
     (let t = js_trim_start s;
          neg = (case t of c # _ \<Rightarrow> c = CHR ''-'' | [] \<Rightarrow> False);
          body = (case t of c # r \<Rightarrow> if c = CHR ''-'' \<or> c = CHR ''+'' then r else t | [] \<Rightarrow> []);
          ds = takeWhile is_digit body
      in if ds = [] then None
         else Some (if neg then - int (digits_val ds) else int (digits_val ds)))"

subsection \<open>Lemmas on strings\<close>

lemma js_split_not_Nil [simp]: "js_split d s \<noteq> []"
  by (induction s) (auto split: list.splits)

lemma js_join_js_split [simp]: "js_join [d] (js_split d s) = s"
proof (induction s)
  case (Cons c s)
  obtain p ps where "js_split d s = p # ps"
    using js_split_not_Nil by (meson neq_Nil_conv)
  with Cons show ?case by (cases ps) auto
qed simp

lemma js_split_no_sep: "d \<notin> set s \<Longrightarrow> js_split d s = [s]"
  by (induction s) auto

lemma js_split_append: "d \<notin> set x \<Longrightarrow> js_split d (x @ d # s) = x # js_split d s"
  by (induction x) auto

lemma js_split_at: "js_split d (a @ d # b) = js_split d a @ js_split d b"
proof (induction a)
  case (Cons c a)
  obtain p ps where "js_split d a = p # ps"
    using js_split_not_Nil by (meson neq_Nil_conv)
  with Cons show ?case by auto
qed simp

lemma js_split_js_join:
  "xs \<noteq> [] \<Longrightarrow> (\<And>x. x \<in> set xs \<Longrightarrow> d \<notin> set x) \<Longrightarrow> js_split d (js_join [d] xs) = xs"
  by (induction "[d]" xs rule: js_join.induct) (auto simp: js_split_no_sep js_split_append)

lemma js_split_parts_no_sep: "p \<in> set (js_split d s) \<Longrightarrow> d \<notin> set p"
proof (induction s arbitrary: p)
  case (Cons c s)
  then show ?case by (auto split: if_splits list.splits)
qed simp

lemma js_trim_eq_self:
  "s = [] \<or> (\<not> js_ws (hd s) \<and> \<not> js_ws (last s)) \<Longrightarrow> js_trim s = s"
proof -
  assume "s = [] \<or> (\<not> js_ws (hd s) \<and> \<not> js_ws (last s))"
  then have "dropWhile js_ws s = s" and "dropWhile js_ws (rev s) = rev s"
    by (auto simp: dropWhile_eq_self_iff hd_rev)
  then show ?thesis by (simp add: js_trim_def)
qed

lemma js_trim_Nil [simp]: "js_trim [] = []"
  by (simp add: js_trim_def)

lemma js_trim_ends:
  "js_trim s \<noteq> [] \<Longrightarrow> \<not> js_ws (hd (js_trim s)) \<and> \<not> js_ws (last (js_trim s))"
proof -
  assume ne: "js_trim s \<noteq> []"
  let ?u = "dropWhile js_ws s"
  from ne have last: "\<not> js_ws (last (js_trim s))"
    by (simp add: js_trim_def last_rev hd_dropWhile)
  have u: "?u = js_trim s @ rev (takeWhile js_ws (rev ?u))"
    unfolding js_trim_def by (metis rev_append rev_rev_ident takeWhile_dropWhile_id)
  with ne have "?u \<noteq> []" and "hd (js_trim s) = hd ?u"
    by (metis append_is_Nil_conv, metis hd_append2 ne)
  then have "\<not> js_ws (hd (js_trim s))" by (simp add: hd_dropWhile)
  with last show ?thesis by simp
qed

lemma js_trim_idem [simp]: "js_trim (js_trim s) = js_trim s"
  using js_trim_ends [of s] by (cases "js_trim s = []") (auto intro: js_trim_eq_self)

lemma js_trim_subset: "set (js_trim s) \<subseteq> set s"
proof
  fix x assume "x \<in> set (js_trim s)"
  then have "x \<in> set (rev (dropWhile js_ws s))"
    by (auto simp: js_trim_def dest: set_dropWhileD)
  then show "x \<in> set s" by (auto dest: set_dropWhileD)
qed

lemma digit_val_char [simp]: "n < 10 \<Longrightarrow> digit_val (digit_char n) = n"
  by (simp add: digit_val_def digit_char_def of_char_of)

lemma is_digit_char [simp]: "n < 10 \<Longrightarrow> is_digit (digit_char n)"
  by (simp add: is_digit_def digit_char_def of_char_of)

lemma show_nat_digits: "c \<in> set (show_nat n) \<Longrightarrow> is_digit c"
proof (induction n rule: show_nat.induct)
  case (1 n)
  then show ?case by (subst (asm) (2) show_nat.simps) (auto split: if_splits)
qed

lemma show_nat_not_Nil [simp]: "show_nat n \<noteq> []"
  by (subst show_nat.simps) simp

lemma digits_val_append: "digits_val (xs @ [c]) = digits_val xs * 10 + digit_val c"
  by (simp add: digits_val_def)

lemma digits_val_show [simp]: "digits_val (show_nat n) = n"
proof (induction n rule: show_nat.induct)
  case (1 n)
  show ?case
  proof (cases "n < 10")
    case True
    then show ?thesis by (subst show_nat.simps) (simp add: digits_val_def)
  next
    case False
    with 1 show ?thesis by (subst show_nat.simps) (simp add: digits_val_append)
  qed
qed

lemma is_digit_not_ws: "is_digit c \<Longrightarrow> \<not> js_ws c"
  by (auto simp: is_digit_def js_ws_def Let_def)

lemma is_digit_not_special:
  "is_digit c \<Longrightarrow> c \<noteq> CHR ''-'' \<and> c \<noteq> CHR ''+'' \<and> c \<noteq> CHR '':'' \<and> c \<noteq> CHR '','' \<and> c \<noteq> CHR 0x0A \<and> c \<noteq> CHR ''/''"
  by (auto simp: is_digit_def Let_def)

lemma show_int_chars: "c \<in> set (show_int i) \<Longrightarrow> is_digit c \<or> c = CHR ''-''"
  by (auto simp: show_int_def dest: show_nat_digits split: if_splits)

lemma show_int_not_Nil [simp]: "show_int i \<noteq> []"
  by (simp add: show_int_def)

lemma takeWhile_show_nat [simp]: "takeWhile is_digit (show_nat n) = show_nat n"
  by (auto simp: takeWhile_eq_all_conv dest: show_nat_digits)

lemma parse_int_show_int [simp]: "parse_int (show_int i) = Some i"
proof (cases "i < 0")
  case True
  have "\<not> js_ws (CHR ''-'')" by (simp add: js_ws_def)
  with True show ?thesis
    by (simp add: parse_int_def show_int_def js_trim_start_def)
next
  case False
  obtain c r where c: "show_nat (nat i) = c # r"
    by (meson neq_Nil_conv show_nat_not_Nil)
  then have "is_digit c" using show_nat_digits [of c "nat i"] by simp
  then have "\<not> js_ws c" "c \<noteq> CHR ''-''" "c \<noteq> CHR ''+''"
    using is_digit_not_ws is_digit_not_special by auto
  moreover have "is_digit c" and "takeWhile is_digit r = r"
    using show_nat_digits [of _ "nat i"] c by (auto simp: takeWhile_eq_all_conv)
  moreover have "digits_val (c # r) = nat i"
    using digits_val_show [of "nat i"] c by simp
  ultimately show ?thesis using False c
    by (simp add: parse_int_def show_int_def js_trim_start_def Let_def
        takeWhile_eq_all_conv [THEN iffD2])
qed

lemma show_int_inject [simp]: "show_int i = show_int j \<longleftrightarrow> i = j"
  by (metis option.inject parse_int_show_int)

section \<open>Lists\<close>

lemma filter_map_if_swap:
  "(\<And>x. x \<in> set xs \<Longrightarrow> P (f x) = P x) \<Longrightarrow> filter P (map f xs) = map f (filter P xs)"
  by (induction xs) auto

lemma find_Some_in: "find P xs = Some x \<Longrightarrow> x \<in> set xs \<and> P x"
  by (auto simp: find_Some_iff)

lemma find_None_all: "find P xs = None \<longleftrightarrow> (\<forall>x \<in> set xs. \<not> P x)"
  by (auto simp: find_None_iff)

lemma find_append: "find P (xs @ ys) = (case find P xs of None \<Rightarrow> find P ys | Some x \<Rightarrow> Some x)"
  by (induction xs) auto

lemma find_filter: "(\<And>x. P x \<Longrightarrow> Q x) \<Longrightarrow> find P (filter Q xs) = find P xs"
  by (induction xs) auto

lemma find_filter_none: "(\<And>x. P x \<Longrightarrow> \<not> Q x) \<Longrightarrow> find P (filter Q xs) = None"
  by (auto simp: find_None_iff)

lemma find_filter_eq:
  assumes "distinct (map k xs)"
  shows "find (\<lambda>r. k r = i) (filter Q xs)
       = (case find (\<lambda>r. k r = i) xs of Some r \<Rightarrow> if Q r then Some r else None | None \<Rightarrow> None)"
  using assms
proof (induction xs)
  case (Cons x xs)
  show ?case
  proof (cases "k x = i")
    case True
    with Cons.prems have "\<forall>y \<in> set xs. k y \<noteq> i" by (auto simp: image_iff)
    then have "find (\<lambda>r. k r = i) (filter Q xs) = None" by (auto simp: find_None_iff)
    with True show ?thesis by simp
  next
    case False
    with Cons show ?thesis by simp
  qed
qed simp

lemma distinct_map_filterI: "distinct (map f xs) \<Longrightarrow> distinct (map f (filter P xs))"
  by (induction xs) auto

end
