(* ===== verification/Base64.thy ===== *)
theory Base64
  imports Prelude "HOL-Library.Word"
begin

text \<open>
  \<open>shared/base64.ts\<close>: bytes to base64 and back, and the data-URL reader. A \<open>Uint8Array\<close> is a list of
  8-bit words. \<open>btoa\<close> and \<open>atob\<close> are written out from the web standard: \<open>atob\<close> drops ASCII white
  space, removes one or two trailing \<open>=\<close> of a string whose length is a multiple of four, and raises
  \<open>InvalidCharacterError\<close> on a length of the form 4k+1 or a character outside the alphabet.
\<close>

type_synonym bytes = "8 word list"

definition BYTE_STRING_CHUNK_SIZE :: nat where
  "BYTE_STRING_CHUNK_SIZE = 32768"

lemma chunk_size_pos [simp]: "0 < BYTE_STRING_CHUNK_SIZE"
  by (simp add: BYTE_STRING_CHUNK_SIZE_def)

definition fromCharCode :: "bytes \<Rightarrow> string" where
  "fromCharCode bs = map (\<lambda>b. char_of (unat b)) bs"

function byteViewToBinaryString :: "bytes \<Rightarrow> string" where
  "byteViewToBinaryString bs =
     (if bs = [] then []
      else fromCharCode (take BYTE_STRING_CHUNK_SIZE bs)
             @ byteViewToBinaryString (drop BYTE_STRING_CHUNK_SIZE bs))"
  by pat_completeness auto
termination
  by (relation "measure length") (auto simp: BYTE_STRING_CHUNK_SIZE_def)

declare byteViewToBinaryString.simps [simp del]

section \<open>\<open>btoa\<close> and \<open>atob\<close>\<close>

definition sextet_char :: "nat \<Rightarrow> char" where
  "sextet_char n =
     (if n < 26 then char_of (65 + n)
      else if n < 52 then char_of (71 + n)
      else if n < 62 then char_of (n - 4)
      else if n = 62 then CHR ''+'' else CHR ''/'')"

definition char_sextet :: "char \<Rightarrow> nat option" where
  "char_sextet c =
     (let n = of_char c :: nat in
      if 65 \<le> n \<and> n \<le> 90 then Some (n - 65)
      else if 97 \<le> n \<and> n \<le> 122 then Some (n - 71)
      else if 48 \<le> n \<and> n \<le> 57 then Some (n + 4)
      else if n = 43 then Some 62
      else if n = 47 then Some 63 else None)"

fun btoa :: "string \<Rightarrow> string" where
  "btoa [] = []"
| "btoa [x] = (let a = of_char x :: nat in
     [sextet_char (a div 4), sextet_char (a mod 4 * 16), CHR ''='', CHR ''=''])"
| "btoa [x, y] = (let a = of_char x :: nat; b = of_char y :: nat in
     [sextet_char (a div 4), sextet_char (a mod 4 * 16 + b div 16), sextet_char (b mod 16 * 4), CHR ''=''])"
| "btoa (x # y # z # r) = (let a = of_char x :: nat; b = of_char y :: nat; c = of_char z :: nat in
     sextet_char (a div 4) # sextet_char (a mod 4 * 16 + b div 16)
       # sextet_char (b mod 16 * 4 + c div 64) # sextet_char (c mod 64) # btoa r)"

fun sextets_string :: "nat list \<Rightarrow> string" where
  "sextets_string (a # b # c # d # r) =
     char_of (a * 4 + b div 16) # char_of (b mod 16 * 16 + c div 4) # char_of (c mod 4 * 64 + d)
       # sextets_string r"
| "sextets_string [a, b, c] = [char_of (a * 4 + b div 16), char_of (b mod 16 * 16 + c div 4)]"
| "sextets_string [a, b] = [char_of (a * 4 + b div 16)]"
| "sextets_string _ = []"

definition ascii_ws :: "char \<Rightarrow> bool" where
  "ascii_ws c \<longleftrightarrow> (let n = of_char c :: nat in n = 9 \<or> n = 10 \<or> n = 12 \<or> n = 13 \<or> n = 32)"

definition strip_padding :: "string \<Rightarrow> string" where
  "strip_padding s =
     (if length s mod 4 = 0
      then if suffix ''=='' s then butlast (butlast s)
           else if suffix ''='' s then butlast s else s
      else s)"

definition atob :: "string \<Rightarrow> string result" where
  "atob s =
     (let t = strip_padding (filter (\<lambda>c. \<not> ascii_ws c) s)
      in if length t mod 4 = 1 \<or> list_ex (\<lambda>c. char_sextet c = None) t
         then throw ''InvalidCharacterError''
         else Inr (sextets_string (map (\<lambda>c. the (char_sextet c)) t)))"

section \<open>The functions of the file\<close>

definition encodeBase64Bytes :: "bytes \<Rightarrow> string" where
  "encodeBase64Bytes value = btoa (byteViewToBinaryString value)"

definition decodeBase64Bytes :: "string \<Rightarrow> bytes result" where
  "decodeBase64Bytes value =
     bind_result (atob value) (\<lambda>binary. Inr (map (\<lambda>c. of_nat (of_char c)) binary))"

definition normalizeBase64Data :: "string \<Rightarrow> string" where
  "normalizeBase64Data value =
     (if CHR '','' \<in> set value then tl (dropWhile (\<lambda>c. c \<noteq> CHR '','') value) else value)"

text \<open>The regular expression \<open>^data:([^;,]+);base64,(.*)$\<close>, case-insensitive; the dot does not match
  a line terminator.\<close>

definition match_data_url :: "string \<Rightarrow> (string \<times> string) option" where
  "match_data_url value =
     (let rest = drop 5 value;
          mime = takeWhile (\<lambda>c. c \<noteq> CHR '';'' \<and> c \<noteq> CHR '','') rest;
          tail = dropWhile (\<lambda>c. c \<noteq> CHR '';'' \<and> c \<noteq> CHR '','') rest
      in if js_lower (take 5 value) = ''data:'' \<and> mime \<noteq> []
            \<and> js_lower (take 8 tail) = '';base64,''
            \<and> list_all (\<lambda>c. c \<noteq> CHR 0x0A \<and> c \<noteq> CHR 0x0D) (drop 8 tail)
         then Some (mime, drop 8 tail) else None)"

definition binaryDataFromBase64 :: "string \<Rightarrow> string \<Rightarrow> (bytes \<times> string) option result" where
  "binaryDataFromBase64 value mimeType =
     (let dataUrl = match_data_url value;
          base64 = (case dataUrl of Some (_, d) \<Rightarrow> d | None \<Rightarrow> normalizeBase64Data value);
          resolvedMimeType = (case dataUrl of Some (mt, _) \<Rightarrow> (if mt = [] then mimeType else mt)
                                            | None \<Rightarrow> mimeType)
      in bind_result (if base64 \<noteq> [] then decodeBase64Bytes base64 else Inr [])
           (\<lambda>bytes. Inr (if length bytes > 0 then Some (bytes, resolvedMimeType) else None)))"

definition binaryDataFromBytes :: "bytes \<Rightarrow> string \<Rightarrow> (bytes \<times> string) option" where
  "binaryDataFromBytes value mimeType = (if length value = 0 then None else Some (value, mimeType))"

section \<open>Lemmas\<close>

lemma chunks_are_whole: "byteViewToBinaryString bs = fromCharCode bs"
proof (induction bs rule: byteViewToBinaryString.induct)
  case (1 bs)
  show ?case
  proof (cases "bs = []")
    case False
    with 1 have "byteViewToBinaryString bs
      = fromCharCode (take BYTE_STRING_CHUNK_SIZE bs) @ fromCharCode (drop BYTE_STRING_CHUNK_SIZE bs)"
      by (subst byteViewToBinaryString.simps) simp
    then show ?thesis by (simp add: fromCharCode_def flip: map_append)
  qed (simp add: byteViewToBinaryString.simps fromCharCode_def)
qed

lemma char_code_bound: "(of_char c :: nat) < 256"
  by simp

lemma char_sextet_char [simp]: "n < 64 \<Longrightarrow> char_sextet (sextet_char n) = Some n"
  by (auto simp: sextet_char_def char_sextet_def of_char_of Let_def)

lemma sextet_char_safe:
  "n < 64 \<Longrightarrow> sextet_char n \<noteq> CHR ''='' \<and> sextet_char n \<noteq> CHR ''$'' \<and> sextet_char n \<noteq> CHR '':''
     \<and> \<not> ascii_ws (sextet_char n)"
  by (auto simp: sextet_char_def ascii_ws_def of_char_of Let_def char_of_eq_iff
      simp flip: of_char_eq_iff [where 'a = nat])

lemma sextet_bounds:
  "(of_char x :: nat) div 4 < 64" "(of_char x :: nat) mod 4 * 16 < 64"
  "(of_char x :: nat) mod 4 * 16 + of_char y div 16 < 64" "(of_char y :: nat) mod 16 * 4 < 64"
  "(of_char y :: nat) mod 16 * 4 + of_char z div 64 < 64" "(of_char z :: nat) mod 64 < 64"
proof -
  have "(of_char x :: nat) < 256" "(of_char y :: nat) < 256" "(of_char z :: nat) < 256" by simp_all
  then show "(of_char x :: nat) div 4 < 64" "(of_char x :: nat) mod 4 * 16 < 64"
    "(of_char x :: nat) mod 4 * 16 + of_char y div 16 < 64" "(of_char y :: nat) mod 16 * 4 < 64"
    "(of_char y :: nat) mod 16 * 4 + of_char z div 64 < 64" "(of_char z :: nat) mod 64 < 64"
    by linarith+
qed

text \<open>The encoder's output alphabet: \<open>P\<close> holds of all of it when it holds of \<open>=\<close> and the sextets.\<close>

lemma btoa_all:
  assumes "P (CHR ''='')" and "\<And>n. n < 64 \<Longrightarrow> P (sextet_char n)"
  shows "list_all P (btoa s)"
  by (induction s rule: btoa.induct)
    (simp_all only: btoa.simps Let_def list.pred_inject assms sextet_bounds HOL.simp_thms)

lemma btoa_safe:
  "list_all (\<lambda>c. c \<noteq> CHR ''$'' \<and> c \<noteq> CHR '':'' \<and> \<not> ascii_ws c) (btoa s)"
  by (rule btoa_all) (auto simp: sextet_char_safe, simp add: ascii_ws_def)

lemma btoa_length: "length (btoa s) mod 4 = 0"
  by (induction s rule: btoa.induct) (simp_all add: Let_def)

definition sextets :: "string \<Rightarrow> nat list" where
  "sextets t = map (\<lambda>c. the (char_sextet c)) t"

text \<open>The body of an encoding: what is left once the padding is off.\<close>

fun btoa_body :: "string \<Rightarrow> string" where
  "btoa_body [] = []"
| "btoa_body [x] = (let a = of_char x :: nat in [sextet_char (a div 4), sextet_char (a mod 4 * 16)])"
| "btoa_body [x, y] = (let a = of_char x :: nat; b = of_char y :: nat in
     [sextet_char (a div 4), sextet_char (a mod 4 * 16 + b div 16), sextet_char (b mod 16 * 4)])"
| "btoa_body (x # y # z # r) = (let a = of_char x :: nat; b = of_char y :: nat; c = of_char z :: nat in
     sextet_char (a div 4) # sextet_char (a mod 4 * 16 + b div 16)
       # sextet_char (b mod 16 * 4 + c div 64) # sextet_char (c mod 64) # btoa_body r)"

lemma btoa_pad:
  "btoa s = btoa_body s @ replicate ((3 - length s mod 3) mod 3) (CHR ''='')"
proof (induction s rule: btoa.induct)
  case (4 x y z r)
  have "length (x # y # z # r) mod 3 = length r mod 3" by simp
  with 4 show ?case by (simp add: Let_def)
qed (simp_all add: Let_def numeral_2_eq_2)

lemma body_all:
  assumes "\<And>n. n < 64 \<Longrightarrow> P (sextet_char n)"
  shows "list_all P (btoa_body s)"
  by (induction s rule: btoa_body.induct)
    (simp_all only: btoa_body.simps Let_def list.pred_inject assms sextet_bounds HOL.simp_thms)

lemma strip_btoa: "strip_padding (btoa s) = btoa_body s"
proof -
  have all: "list_all (\<lambda>c. c \<noteq> CHR ''='') (btoa_body s)"
    by (rule body_all) (simp add: sextet_char_safe)
  have no: "\<not> suffix ''='' (btoa_body s)"
    using all by (auto simp: suffix_def)
  have len: "(3 - length s mod 3) mod 3 < 3" by simp
  consider "(3 - length s mod 3) mod 3 = 0" | "(3 - length s mod 3) mod 3 = 1"
    | "(3 - length s mod 3) mod 3 = 2"
    using len by linarith
  then show ?thesis
  proof cases
    case 1
    then have "btoa s = btoa_body s" by (simp add: btoa_pad)
    moreover have "\<not> suffix ''=='' (btoa_body s)"
      using no by (metis append_Cons append_Nil suffix_order.trans suffixI)
    ultimately show ?thesis using no by (simp add: strip_padding_def btoa_length)
  next
    case 2
    then have b: "btoa s = btoa_body s @ ''=''" by (simp add: btoa_pad)
    have "\<not> suffix ''=='' (btoa_body s @ ''='')"
    proof
      assume "suffix ''=='' (btoa_body s @ ''='')"
      then obtain u where "btoa_body s @ ''='' = u @ ''==''" by (auto simp: suffix_def)
      then have "btoa_body s = u @ ''=''" by (metis append_Cons append_Nil append_assoc same_append_eq append_same_eq)
      with no show False by (auto simp: suffix_def)
    qed
    then show ?thesis using btoa_length [of s] unfolding b
      by (simp add: strip_padding_def suffix_def butlast_append)
  next
    case 3
    then have b: "btoa s = btoa_body s @ ''==''" by (simp add: btoa_pad numeral_2_eq_2)
    show ?thesis using btoa_length [of s] unfolding b
      by (simp add: strip_padding_def suffix_def butlast_append)
  qed
qed

lemma body_length: "length (btoa_body s) mod 4 \<noteq> 1"
  by (induction s rule: btoa_body.induct) (simp_all add: Let_def)

lemma char_of_eq: "char_of ((of_char x :: nat) div 4 * 4 + of_char x mod 4 * 16 div 16) = x"
  by simp

lemma sextets_body: "sextets_string (sextets (btoa_body s)) = s"
proof (induction s rule: btoa_body.induct)
  case (2 x)
  show ?case using sextet_bounds [of x] by (simp add: sextets_def Let_def)
next
  case (3 x y)
  have "(of_char y :: nat) < 256" by simp
  then have b: "(of_char y :: nat) div 16 < 16" by linarith
  have "((of_char x :: nat) mod 4 * 16 + of_char y div 16) div 16 = of_char x mod 4"
    and "((of_char x :: nat) mod 4 * 16 + of_char y div 16) mod 16 = of_char y div 16"
    and "(of_char y :: nat) mod 16 * 4 div 4 = of_char y mod 16"
    using b by simp_all
  then show ?case
    by (simp add: sextets_def Let_def sextet_bounds del: of_char_mod_256)
next
  case (4 x y z r)
  have "(of_char y :: nat) < 256" "(of_char z :: nat) < 256" by simp_all
  then have b: "(of_char y :: nat) div 16 < 16" "(of_char z :: nat) div 64 < 4" by linarith+
  have "((of_char x :: nat) mod 4 * 16 + of_char y div 16) div 16 = of_char x mod 4"
    and "((of_char x :: nat) mod 4 * 16 + of_char y div 16) mod 16 = of_char y div 16"
    and "((of_char y :: nat) mod 16 * 4 + of_char z div 64) div 4 = of_char y mod 16"
    and "((of_char y :: nat) mod 16 * 4 + of_char z div 64) mod 4 = of_char z div 64"
    using b by simp_all
  then show ?case using 4
    by (simp add: sextets_def Let_def sextet_bounds)
qed (simp add: sextets_def)

lemma filter_btoa: "filter (\<lambda>c. \<not> ascii_ws c) (btoa s) = btoa s"
  using btoa_safe [of s] by (simp add: filter_id_conv list_all_iff)

lemma atob_btoa [simp]: "atob (btoa s) = Inr s"
proof -
  have "list_all (\<lambda>c. char_sextet c \<noteq> None) (btoa_body s)"
    by (rule body_all) simp
  then have "\<not> list_ex (\<lambda>c. char_sextet c = None) (btoa_body s)"
    by (auto simp: list_ex_iff list_all_iff)
  then show ?thesis
    using body_length [of s] sextets_body [of s]
    by (simp add: atob_def filter_btoa strip_btoa sextets_def)
qed

lemma decode_encode: "decodeBase64Bytes (encodeBase64Bytes bs) = Inr bs"
proof -
  have "(word_of_nat (unat b mod 256) :: 8 word) = b" for b :: "8 word"
  proof -
    have "unat b < 2 ^ LENGTH(8)" by (rule unsigned_less)
    then show ?thesis by simp
  qed
  then have "map (\<lambda>x. (word_of_nat (unat x mod 256) :: 8 word)) bs = bs"
    by (simp add: map_idI)
  then show ?thesis
    by (simp add: decodeBase64Bytes_def encodeBase64Bytes_def chunks_are_whole fromCharCode_def
        comp_def)
qed

lemma encode_safe:
  "c \<in> set (encodeBase64Bytes bs) \<Longrightarrow> c \<noteq> CHR ''$'' \<and> c \<noteq> CHR '':'' \<and> \<not> ascii_ws c"
  using btoa_safe by (auto simp: encodeBase64Bytes_def list_all_iff)

lemma encode_Nil: "encodeBase64Bytes bs = [] \<longleftrightarrow> bs = []"
  by (metis btoa.simps(1) byteViewToBinaryString.simps decode_encode encodeBase64Bytes_def
      sum.inject(2))

text \<open>
  Base64 round trip: decoding what \<open>encodeBase64Bytes\<close> returns gives back the bytes, for every
  byte string, whatever the chunking; and \<open>binaryDataFromBase64\<close> reads a data URL built from the
  encoding as the bytes with the URL's media type, or as nothing for an empty payload.
\<close>

theorem base64_round_trip:
  assumes "mime \<noteq> []" and "CHR '';'' \<notin> set mime" and "CHR '','' \<notin> set mime"
  shows "decodeBase64Bytes (encodeBase64Bytes bs) = Inr bs
    \<and> binaryDataFromBase64 (''data:'' @ mime @ '';base64,'' @ encodeBase64Bytes bs) mt
        = Inr (if bs = [] then None else Some (bs, mime))"
proof -
  let ?d = "encodeBase64Bytes bs"
  have ok: "list_all (\<lambda>c. c \<noteq> CHR 0x0A \<and> c \<noteq> CHR 0x0D) ?d"
    using encode_safe by (fastforce simp: list_all_iff ascii_ws_def)
  have "takeWhile (\<lambda>c. c \<noteq> CHR '';'' \<and> c \<noteq> CHR '','') (mime @ '';base64,'' @ ?d) = mime"
    using assms by (subst takeWhile_append2) auto
  moreover have "dropWhile (\<lambda>c. c \<noteq> CHR '';'' \<and> c \<noteq> CHR '','') (mime @ '';base64,'' @ ?d)
      = '';base64,'' @ ?d"
    using assms by (subst dropWhile_append2) auto
  ultimately have "match_data_url (''data:'' @ mime @ '';base64,'' @ ?d) = Some (mime, ?d)"
    using assms ok by (simp add: match_data_url_def js_lower_def js_lower_char_def Let_def)
  then show ?thesis
    using assms encode_Nil [of bs] by (auto simp: binaryDataFromBase64_def decode_encode Let_def)
qed

theorem base64_round_trip_witness:
  "binaryDataFromBase64 (''data:'' @ ''text/plain'' @ '';base64,'' @ encodeBase64Bytes [104, 105]) ''''
     = Inr (Some ([104, 105], ''text/plain''))"
  using base64_round_trip [of "''text/plain''" "[104, 105]" "''''"] by simp

end
