(* ===== verification/AuthFiles.thy ===== *)
theory AuthFiles
  imports Base64
begin

text \<open>
  The classic account files: \<open>auth/passwd.ts\<close>, \<open>auth/group.ts\<close> and \<open>auth/shadow.ts\<close>. A parser splits the
  text into lines, skips blank and comment lines and lines with too few fields, and reads the rest
  field by field; a serializer writes one line per entry. The id type of a passwd and a group entry
  is a parameter: a parsed entry has \<^typ>\<open>int option\<close> ids (\<open>parseInt\<close> may return \<open>NaN\<close>), a stored one
  \<^typ>\<open>int\<close>. SHA-256 and PBKDF2 are parameters of the credential functions.
\<close>

record 'n passwd_entry =
  pw_username :: string
  pw_uid :: 'n
  pw_gid :: 'n
  pw_gecos :: string
  pw_home :: string
  pw_shell :: string

record 'n group_entry =
  gr_name :: string
  gr_gid :: 'n
  gr_members :: "string list"

record shadow_entry =
  sh_username :: string
  sh_hash :: string
  sh_lastchanged :: string
  sh_min :: string
  sh_max :: string
  sh_warn :: string
  sh_inactive :: string
  sh_expire :: string
  sh_reserved :: string

abbreviation nl :: char where "nl \<equiv> CHR 0x0A"
abbreviation colon :: char where "colon \<equiv> CHR '':''"

text \<open>The reading loop the three parsers share: split at newlines, trim, skip blank and comment
  lines, and let \<open>entry\<close> read the fields, which skips a line by returning nothing.\<close>

definition parse_lines :: "(string list \<Rightarrow> 'e option) \<Rightarrow> string \<Rightarrow> 'e list" where
  "parse_lines entry raw =
     List.map_filter
       (\<lambda>line. let trimmed = js_trim line
               in if trimmed = [] \<or> prefix ''#'' trimmed then None
                  else entry (js_split colon trimmed))
       (js_split nl raw)"

definition serialize_lines :: "('e \<Rightarrow> string list) \<Rightarrow> 'e list \<Rightarrow> string" where
  "serialize_lines cols es = js_join [nl] (map (\<lambda>e. js_join [colon] (cols e)) es) @ [nl]"

section \<open>\<open>passwd.ts\<close>\<close>

definition passwd_fields :: "string list \<Rightarrow> int option passwd_entry option" where
  "passwd_fields parts =
     (if length parts < 7 then None
      else Some \<lparr> pw_username = parts ! 0, pw_uid = parse_int (parts ! 2), pw_gid = parse_int (parts ! 3),
                  pw_gecos = parts ! 4, pw_home = parts ! 5, pw_shell = parts ! 6 \<rparr>)"

definition parsePasswd :: "string \<Rightarrow> int option passwd_entry list" where
  "parsePasswd raw = parse_lines passwd_fields raw"

definition serializePasswd :: "int passwd_entry list \<Rightarrow> string" where
  "serializePasswd entries = serialize_lines (\<lambda>e.
     [pw_username e, ''x'', show_int (pw_uid e), show_int (pw_gid e), pw_gecos e, pw_home e, pw_shell e])
     entries"

definition passwd_findByUsername :: "'n passwd_entry list \<Rightarrow> string \<Rightarrow> 'n passwd_entry option" where
  "passwd_findByUsername entries username = find (\<lambda>e. pw_username e = username) entries"

definition passwd_findByUid :: "'n passwd_entry list \<Rightarrow> 'n \<Rightarrow> 'n passwd_entry option" where
  "passwd_findByUid entries uid = find (\<lambda>e. pw_uid e = uid) entries"

definition passwd_nextUid :: "int passwd_entry list \<Rightarrow> int" where
  "passwd_nextUid entries =
     (let mx = foldl (\<lambda>m e. max m (pw_uid e)) 0 entries
      in if mx < 1000 then 1000 else mx + 1)"

section \<open>\<open>group.ts\<close>\<close>

definition group_fields :: "string list \<Rightarrow> int option group_entry option" where
  "group_fields parts =
     (if length parts < 4 then None
      else let memberStr = js_trim (parts ! 3)
           in Some \<lparr> gr_name = parts ! 0, gr_gid = parse_int (parts ! 2),
                     gr_members = (if memberStr \<noteq> [] then js_split (CHR '','') memberStr else []) \<rparr>)"

definition parseGroup :: "string \<Rightarrow> int option group_entry list" where
  "parseGroup raw = parse_lines group_fields raw"

definition serializeGroup :: "int group_entry list \<Rightarrow> string" where
  "serializeGroup entries = serialize_lines (\<lambda>e.
     [gr_name e, ''x'', show_int (gr_gid e), js_join '','' (gr_members e)]) entries"

definition group_findByName :: "'n group_entry list \<Rightarrow> string \<Rightarrow> 'n group_entry option" where
  "group_findByName entries name = find (\<lambda>e. gr_name e = name) entries"

definition group_findByGid :: "'n group_entry list \<Rightarrow> 'n \<Rightarrow> 'n group_entry option" where
  "group_findByGid entries gid = find (\<lambda>e. gr_gid e = gid) entries"

text \<open>\<open>Array.from(set).sort((a, b) => a - b)\<close> of a set filled in a loop.\<close>

definition group_resolveGids :: "int group_entry list \<Rightarrow> string \<Rightarrow> int \<Rightarrow> int list" where
  "group_resolveGids groups username primaryGid =
     sort (foldl (\<lambda>gids g. if username \<in> set (gr_members g) \<and> gr_gid g \<notin> set gids
                           then gids @ [gr_gid g] else gids) [primaryGid] groups)"

definition group_nextGid :: "int group_entry list \<Rightarrow> int" where
  "group_nextGid entries =
     (let mx = foldl (\<lambda>m e. max m (gr_gid e)) 0 entries
      in if mx < 100 then 100 else mx + 1)"

section \<open>\<open>shadow.ts\<close>\<close>

definition nth_or_empty :: "string list \<Rightarrow> nat \<Rightarrow> string" where
  "nth_or_empty parts i = (if i < length parts then parts ! i else [])"

definition shadow_fields :: "string list \<Rightarrow> shadow_entry option" where
  "shadow_fields parts =
     (if length parts < 2 then None
      else Some \<lparr> sh_username = parts ! 0, sh_hash = nth_or_empty parts 1,
                  sh_lastchanged = nth_or_empty parts 2, sh_min = nth_or_empty parts 3,
                  sh_max = nth_or_empty parts 4, sh_warn = nth_or_empty parts 5,
                  sh_inactive = nth_or_empty parts 6, sh_expire = nth_or_empty parts 7,
                  sh_reserved = nth_or_empty parts 8 \<rparr>)"

definition parseShadow :: "string \<Rightarrow> shadow_entry list" where
  "parseShadow raw = parse_lines shadow_fields raw"

definition serializeShadow :: "shadow_entry list \<Rightarrow> string" where
  "serializeShadow entries = serialize_lines (\<lambda>e.
     [sh_username e, sh_hash e, sh_lastchanged e, sh_min e, sh_max e, sh_warn e, sh_inactive e,
      sh_expire e, sh_reserved e]) entries"

definition shadow_findByUsername :: "shadow_entry list \<Rightarrow> string \<Rightarrow> shadow_entry option" where
  "shadow_findByUsername entries username = find (\<lambda>e. sh_username e = username) entries"

definition isLocked_hash :: "string \<Rightarrow> bool" where
  "isLocked_hash hash \<longleftrightarrow> hash = [] \<or> hash = ''!'' \<or> hash = ''*''"

definition isLocked :: "shadow_entry \<Rightarrow> bool" where
  "isLocked entry = isLocked_hash (sh_hash entry)"

definition days_since_epoch :: "int \<Rightarrow> string" where
  "days_since_epoch now = show_int (now div 86400000)"

definition makeShadowEntry :: "int \<Rightarrow> string \<Rightarrow> string \<Rightarrow> shadow_entry" where
  "makeShadowEntry now username hash =
     \<lparr> sh_username = username, sh_hash = hash, sh_lastchanged = days_since_epoch now,
       sh_min = ''0'', sh_max = ''99999'', sh_warn = ''7'', sh_inactive = [], sh_expire = [],
       sh_reserved = [] \<rparr>"

definition PBKDF2_ITERATIONS :: int where
  "PBKDF2_ITERATIONS = 100000"

text \<open>\<open>kdf password salt iterations\<close> stands for \<open>importKey\<close> and \<open>deriveBits\<close>, and may reject (an
  iteration count that is not a positive number); \<open>digest\<close> for SHA-256. The salt is the bytes
  \<open>getRandomValues\<close> returned.\<close>

type_synonym kdf = "string \<Rightarrow> bytes \<Rightarrow> int option \<Rightarrow> bytes result"
type_synonym digest = "string \<Rightarrow> bytes"

definition hex_digit :: "nat \<Rightarrow> char" where
  "hex_digit n = (if n < 10 then digit_char n else char_of (87 + n))"

definition toHex :: "bytes \<Rightarrow> string" where
  "toHex buf = concat (map (\<lambda>b. [hex_digit (unat b div 16), hex_digit (unat b mod 16)]) buf)"

definition hashPassword :: "kdf \<Rightarrow> string \<Rightarrow> bytes \<Rightarrow> int \<Rightarrow> string result" where
  "hashPassword kdf password salt iterations =
     bind_result (kdf password salt (Some iterations)) (\<lambda>derived.
       Inr (''$pbkdf2-sha512$'' @ show_int iterations @ ''$'' @ encodeBase64Bytes salt
            @ ''$'' @ encodeBase64Bytes derived))"

definition verifyPassword :: "kdf \<Rightarrow> string \<Rightarrow> string \<Rightarrow> bool result" where
  "verifyPassword kdf password storedHash =
     (let parts = js_split (CHR ''$'') storedHash in
      if length parts \<noteq> 5 \<or> parts ! 1 \<noteq> ''pbkdf2-sha512'' then Inr False
      else let iterations = parse_int (parts ! 2) in
        bind_result (decodeBase64Bytes (parts ! 3)) (\<lambda>salt.
        bind_result (kdf password salt iterations) (\<lambda>candidate.
        bind_result (decodeBase64Bytes (parts ! 4)) (\<lambda>stored.
          if length candidate \<noteq> length stored then Inr False else Inr (candidate = stored)))))"

definition hashToken :: "digest \<Rightarrow> string \<Rightarrow> string" where
  "hashToken sha token = ''$token-sha256$'' @ toHex (sha token)"

definition verifyTokenHash :: "digest \<Rightarrow> string \<Rightarrow> string \<Rightarrow> bool" where
  "verifyTokenHash sha token storedHash =
     (let candidateHash = hashToken sha token
      in if length candidateHash \<noteq> length storedHash then False else candidateHash = storedHash)"

definition verify_credential :: "kdf \<Rightarrow> digest \<Rightarrow> string \<Rightarrow> string \<Rightarrow> bool result" where
  "verify_credential kdf sha credential storedHash =
     (if isLocked_hash storedHash then Inr False
      else if prefix ''$pbkdf2-sha512$'' storedHash then verifyPassword kdf credential storedHash
      else if prefix ''$token-sha256$'' storedHash then Inr (verifyTokenHash sha credential storedHash)
      else Inr False)"

section \<open>Round trips of the files\<close>

text \<open>A list of fields survives its line when no field contains a separator, the first field does not
  make the line a comment or start with white space, and the last one does not end with white space.\<close>

definition line_ok :: "string list \<Rightarrow> bool" where
  "line_ok ps \<longleftrightarrow> length ps \<ge> 2 \<and> list_all (\<lambda>p. colon \<notin> set p \<and> nl \<notin> set p) ps
     \<and> (hd ps = [] \<or> \<not> js_ws (hd (hd ps)) \<and> hd (hd ps) \<noteq> CHR ''#'')
     \<and> (last ps = [] \<or> \<not> js_ws (last (last ps)))"

lemma colon_not_ws [simp]: "\<not> js_ws (CHR '':'')"
  by (simp add: js_ws_def)

lemma join_last:
  "ps \<noteq> [] \<Longrightarrow> last ps \<noteq> [] \<Longrightarrow> js_join s ps \<noteq> [] \<and> last (js_join s ps) = last (last ps)"
  by (induction s ps rule: js_join.induct) auto

lemma join_last_empty:
  "length ps \<ge> 2 \<Longrightarrow> last ps = [] \<Longrightarrow> last (js_join [d] ps) = d"
proof (induction "[d]" ps rule: js_join.induct)
  case (3 x y ys)
  then show ?case by (cases ys) (auto split: if_splits)
qed auto

lemma join_hd: "length ps \<ge> 2 \<Longrightarrow> hd (js_join [d] ps) = (if hd ps = [] then d else hd (hd ps))"
  by (cases "([d], ps)" rule: js_join.cases) auto

lemma join_not_Nil: "length ps \<ge> 2 \<Longrightarrow> js_join [d] ps \<noteq> []"
  by (cases "([d], ps)" rule: js_join.cases) auto

lemma join_set: "set (js_join s ps) \<subseteq> set s \<union> \<Union> (set ` set ps)"
  by (induction s ps rule: js_join.induct) auto

lemma line_ok_trim: "line_ok ps \<Longrightarrow> js_trim (js_join [colon] ps) = js_join [colon] ps"
proof (rule js_trim_eq_self)
  assume ok: "line_ok ps"
  then have len: "length ps \<ge> 2" and "ps \<noteq> []" by (auto simp: line_ok_def)
  then have "\<not> js_ws (last (js_join [colon] ps))"
    using ok join_last [of ps] join_last_empty [of ps colon]
    by (cases "last ps = []") (simp_all add: line_ok_def)
  moreover have "\<not> js_ws (hd (js_join [colon] ps))"
    using ok len by (auto simp: join_hd line_ok_def)
  ultimately show "js_join [colon] ps = [] \<or>
      (\<not> js_ws (hd (js_join [colon] ps)) \<and> \<not> js_ws (last (js_join [colon] ps)))" by simp
qed

lemma line_ok_not_comment: "line_ok ps \<Longrightarrow> \<not> prefix ''#'' (js_join [colon] ps)"
proof
  assume ok: "line_ok ps" and "prefix ''#'' (js_join [colon] ps)"
  then have "hd (js_join [colon] ps) = CHR ''#''" by (auto simp: prefix_def)
  with ok show False by (auto simp: line_ok_def join_hd split: if_splits)
qed

lemma line_ok_split: "line_ok ps \<Longrightarrow> js_split colon (js_join [colon] ps) = ps"
  by (rule js_split_js_join) (auto simp: line_ok_def list_all_iff)

lemma line_ok_no_nl: "line_ok ps \<Longrightarrow> nl \<notin> set (js_join [colon] ps)"
  using join_set [of "[colon]" ps] by (auto simp: line_ok_def list_all_iff)

text \<open>The round trip of every one of the three formats, from the round trip of one entry.\<close>

lemma parse_serialize_lines:
  assumes "\<And>e. e \<in> set es \<Longrightarrow> line_ok (cols e)"
    and "\<And>e. e \<in> set es \<Longrightarrow> entry (cols e) = Some (g e)"
  shows "parse_lines entry (serialize_lines cols es) = map g es"
proof -
  let ?ser = "\<lambda>e. js_join [colon] (cols e)"
  let ?read = "\<lambda>line. let trimmed = js_trim line
               in if trimmed = [] \<or> prefix ''#'' trimmed then None
                  else entry (js_split colon trimmed)"
  have read: "?read (?ser e) = Some (g e)" if "e \<in> set es" for e
  proof -
    from that assms have ok: "line_ok (cols e)" by simp
    then have "?ser e \<noteq> []" by (simp add: join_not_Nil line_ok_def)
    with ok that assms(2) show ?thesis
      by (simp add: line_ok_trim line_ok_not_comment line_ok_split)
  qed
  have "js_split nl (serialize_lines cols es) = (if es = [] then [[], []] else map ?ser es @ [[]])"
  proof (cases "es = []")
    case False
    have "js_split nl (js_join [nl] (map ?ser es) @ nl # []) = js_split nl (js_join [nl] (map ?ser es)) @ [[]]"
      by (simp add: js_split_at)
    moreover have "js_split nl (js_join [nl] (map ?ser es)) = map ?ser es"
      using False assms(1) by (intro js_split_js_join) (auto simp: line_ok_no_nl)
    ultimately show ?thesis using False by (simp add: serialize_lines_def)
  qed (simp add: serialize_lines_def)
  moreover have "List.map_filter ?read (map ?ser es @ [[]]) = map g es"
    using read by (induction es) (simp_all add: List.map_filter_simps Let_def)
  moreover have "List.map_filter ?read [[], []] = []"
    by (simp add: List.map_filter_simps Let_def)
  ultimately show ?thesis by (auto simp: parse_lines_def)
qed

lemma digits_field [simp]: "colon \<notin> set (show_int i)" "nl \<notin> set (show_int i)" "CHR ''$'' \<notin> set (show_int i)"
  by (auto dest!: show_int_chars simp: is_digit_def Let_def)

definition passwd_ok :: "'n passwd_entry \<Rightarrow> bool" where
  "passwd_ok e \<longleftrightarrow> line_ok [pw_username e, ''x'', ''0'', ''0'', pw_gecos e, pw_home e, pw_shell e]"

definition group_ok :: "'n group_entry \<Rightarrow> bool" where
  "group_ok e \<longleftrightarrow> line_ok [gr_name e, ''x'', ''0'', js_join '','' (gr_members e)]
     \<and> list_all (\<lambda>m. CHR '','' \<notin> set m) (gr_members e) \<and> gr_members e \<noteq> [[]]
     \<and> (gr_members e = [] \<or> hd (gr_members e) = [] \<or> \<not> js_ws (hd (hd (gr_members e))))"

definition shadow_ok :: "shadow_entry \<Rightarrow> bool" where
  "shadow_ok e \<longleftrightarrow> line_ok [sh_username e, sh_hash e, sh_lastchanged e, sh_min e, sh_max e,
     sh_warn e, sh_inactive e, sh_expire e, sh_reserved e]"

definition read_passwd :: "int passwd_entry \<Rightarrow> int option passwd_entry" where
  "read_passwd e = \<lparr> pw_username = pw_username e, pw_uid = Some (pw_uid e), pw_gid = Some (pw_gid e),
     pw_gecos = pw_gecos e, pw_home = pw_home e, pw_shell = pw_shell e \<rparr>"

definition read_group :: "int group_entry \<Rightarrow> int option group_entry" where
  "read_group e = \<lparr> gr_name = gr_name e, gr_gid = Some (gr_gid e), gr_members = gr_members e \<rparr>"

lemma parse_serialize_passwd:
  "list_all passwd_ok es \<Longrightarrow> parsePasswd (serializePasswd es) = map read_passwd es"
  unfolding parsePasswd_def serializePasswd_def
  by (rule parse_serialize_lines)
    (auto simp: passwd_ok_def list_all_iff line_ok_def passwd_fields_def read_passwd_def)

lemma group_members_read:
  assumes "group_ok e"
  shows "(let m = js_trim (js_join '','' (gr_members e)) in if m \<noteq> [] then js_split (CHR '','') m else [])
       = gr_members e"
proof (cases "gr_members e = []")
  case False
  let ?j = "js_join '','' (gr_members e)"
  have lst: "?j = [] \<or> \<not> js_ws (last ?j)"
    using assms by (auto simp: group_ok_def line_ok_def)
  have "\<not> js_ws (CHR '','')" by (simp add: js_ws_def)
  then have "?j = [] \<or> \<not> js_ws (hd ?j)"
    using assms False by (cases "('','', gr_members e)" rule: js_join.cases)
      (auto simp: group_ok_def hd_append)
  with lst have "js_trim ?j = ?j" by (intro js_trim_eq_self) auto
  moreover have "?j \<noteq> []"
    using assms False by (cases "('','', gr_members e)" rule: js_join.cases)
      (auto simp: group_ok_def)
  moreover have "js_split (CHR '','') ?j = gr_members e"
    using assms False by (intro js_split_js_join) (auto simp: group_ok_def list_all_iff)
  ultimately show ?thesis by simp
qed simp

lemma parse_serialize_group:
  "list_all group_ok es \<Longrightarrow> parseGroup (serializeGroup es) = map read_group es"
  unfolding parseGroup_def serializeGroup_def
proof (rule parse_serialize_lines)
  fix e assume es: "list_all group_ok es" "e \<in> set es"
  then have e: "group_ok e" by (auto simp: list_all_iff)
  then show "line_ok [gr_name e, ''x'', show_int (gr_gid e), js_join '','' (gr_members e)]"
    by (auto simp: group_ok_def line_ok_def)
  show "group_fields [gr_name e, ''x'', show_int (gr_gid e), js_join '','' (gr_members e)]
      = Some (read_group e)"
    using group_members_read [OF e] by (simp add: group_fields_def read_group_def Let_def)
qed

lemma shadow_entry_eta:
  "\<lparr> sh_username = sh_username e, sh_hash = sh_hash e, sh_lastchanged = sh_lastchanged e,
     sh_min = sh_min e, sh_max = sh_max e, sh_warn = sh_warn e, sh_inactive = sh_inactive e,
     sh_expire = sh_expire e, sh_reserved = sh_reserved e \<rparr> = e"
  by simp

lemma parse_serialize_shadow:
  "list_all shadow_ok es \<Longrightarrow> parseShadow (serializeShadow es) = es"
  unfolding parseShadow_def serializeShadow_def
  by (subst parse_serialize_lines [where g = "\<lambda>e. e"])
    (auto simp: shadow_ok_def list_all_iff shadow_fields_def nth_or_empty_def)

section \<open>Identifiers and credentials\<close>

lemma resolve_loop_set:
  "set (foldl (\<lambda>gids g. if u \<in> set (gr_members g) \<and> gr_gid g \<notin> set gids
                        then gids @ [gr_gid g] else gids) acc gs)
     = set acc \<union> {gr_gid g | g. g \<in> set gs \<and> u \<in> set (gr_members g)}"
  by (induction gs arbitrary: acc) auto

lemma resolve_loop_distinct:
  "distinct acc \<Longrightarrow> distinct (foldl (\<lambda>gids g. if u \<in> set (gr_members g) \<and> gr_gid g \<notin> set gids
                        then gids @ [gr_gid g] else gids) acc gs)"
  by (induction gs arbitrary: acc) auto

lemma resolveGids_set:
  "set (group_resolveGids gs u p) = insert p {gr_gid g | g. g \<in> set gs \<and> u \<in> set (gr_members g)}"
  by (simp add: group_resolveGids_def resolve_loop_set)

lemma resolveGids_distinct: "distinct (group_resolveGids gs u p)"
  by (simp add: group_resolveGids_def resolve_loop_distinct)

lemma hash_password_form:
  "js_split (CHR ''$'') (''$pbkdf2-sha512$'' @ show_int n @ ''$'' @ encodeBase64Bytes salt
      @ ''$'' @ encodeBase64Bytes d)
   = [[], ''pbkdf2-sha512'', show_int n, encodeBase64Bytes salt, encodeBase64Bytes d]"
proof -
  have "CHR ''$'' \<notin> set (encodeBase64Bytes bs)" for bs
    using encode_safe by blast
  then show ?thesis by (simp add: js_split_append js_split_no_sep)
qed

lemma verify_hashed_password:
  assumes "hashPassword kdf p salt n = Inr h"
  shows "verify_credential kdf sha q h
    = bind_result (kdf q salt (Some n)) (\<lambda>c. Inr (kdf p salt (Some n) = Inr c))"
proof -
  obtain d where d: "kdf p salt (Some n) = Inr d"
    and h: "h = ''$pbkdf2-sha512$'' @ show_int n @ ''$'' @ encodeBase64Bytes salt @ ''$'' @ encodeBase64Bytes d"
    using assms by (auto simp: hashPassword_def)
  have pre: "prefix ''$pbkdf2-sha512$'' h" "\<not> isLocked_hash h"
    by (auto simp: h isLocked_hash_def)
  have "verifyPassword kdf q h
    = bind_result (kdf q salt (Some n)) (\<lambda>c. if length c \<noteq> length d then Inr False else Inr (c = d))"
    unfolding verifyPassword_def h hash_password_form
    by (simp add: decode_encode numeral_2_eq_2 numeral_3_eq_3)
  also have "\<dots> = bind_result (kdf q salt (Some n)) (\<lambda>c. Inr (kdf p salt (Some n) = Inr c))"
    using d by (cases "kdf q salt (Some n)") auto
  finally show ?thesis using pre by (simp add: verify_credential_def)
qed

lemma hex_digit_code: "n < 16 \<Longrightarrow> of_char (hex_digit n) = (if n < 10 then 48 + n else 87 + n)"
  by (simp add: hex_digit_def digit_char_def of_char_of)

lemma hex_digit_inject: "m < 16 \<Longrightarrow> n < 16 \<Longrightarrow> hex_digit m = hex_digit n \<longleftrightarrow> m = n"
proof
  assume b: "m < 16" "n < 16" and "hex_digit m = hex_digit n"
  then have "(if m < 10 then 48 + m else 87 + m) = (if n < 10 then 48 + n else 87 + n)"
    by (simp flip: hex_digit_code)
  with b show "m = n" by (simp split: if_splits)
qed simp

lemma toHex_inject: "toHex xs = toHex ys \<longleftrightarrow> xs = ys"
proof (induction xs arbitrary: ys)
  case Nil
  show ?case by (cases ys) (simp_all add: toHex_def)
next
  case (Cons x xs)
  have bound: "unat b div 16 < 16" for b :: "8 word"
  proof -
    have "unat b < 2 ^ LENGTH(8)" by (rule unsigned_less)
    then show ?thesis by simp
  qed
  show ?case
  proof (cases ys)
    case (Cons y ys')
    have "unat x div 16 = unat y div 16 \<and> unat x mod 16 = unat y mod 16 \<longleftrightarrow> x = y"
      by (metis div_mult_mod_eq unsigned_word_eqI)
    then show ?thesis using Cons.IH [of ys'] bound
      by (auto simp: toHex_def Cons hex_digit_inject)
  qed (simp add: toHex_def)
qed

lemma hashToken_inject: "hashToken sha s = hashToken sha t \<longleftrightarrow> sha s = sha t"
  by (simp add: hashToken_def toHex_inject)

lemma verify_hashed_token: "verify_credential kdf sha q (hashToken sha t) = Inr (sha q = sha t)"
proof -
  have "\<not> prefix ''$pbkdf2-sha512$'' (hashToken sha t)" "prefix ''$token-sha256$'' (hashToken sha t)"
    "\<not> isLocked_hash (hashToken sha t)"
    by (simp_all add: hashToken_def isLocked_hash_def)
  moreover have "verifyTokenHash sha q (hashToken sha t) = (hashToken sha q = hashToken sha t)"
    by (auto simp: verifyTokenHash_def Let_def)
  ultimately show ?thesis by (simp add: verify_credential_def hashToken_inject)
qed

text \<open>
  The account files round-trip: parsing what a serializer wrote gives back the entries, in
  order, for passwd, group and shadow, whenever the fields carry no separator, the name does not
  make its line a comment or start with white space, and the last field does not end with white
  space.
\<close>

theorem account_files_round_trip:
  assumes "list_all passwd_ok ps" and "list_all group_ok gs" and "list_all shadow_ok ss"
  shows "parsePasswd (serializePasswd ps) = map read_passwd ps
    \<and> parseGroup (serializeGroup gs) = map read_group gs
    \<and> parseShadow (serializeShadow ss) = ss"
  using assms by (simp add: parse_serialize_passwd parse_serialize_group parse_serialize_shadow)

theorem account_files_round_trip_witness:
  "parsePasswd (serializePasswd
      [\<lparr> pw_username = ''sam'', pw_uid = 1000, pw_gid = 1000, pw_gecos = ''Sam'',
         pw_home = ''/home/sam'', pw_shell = ''/bin/init'' \<rparr>])
   = [\<lparr> pw_username = ''sam'', pw_uid = Some 1000, pw_gid = Some 1000, pw_gecos = ''Sam'',
        pw_home = ''/home/sam'', pw_shell = ''/bin/init'' \<rparr>]"
  using account_files_round_trip [of
      "[\<lparr> pw_username = ''sam'', pw_uid = 1000, pw_gid = 1000, pw_gecos = ''Sam'',
         pw_home = ''/home/sam'', pw_shell = ''/bin/init'' \<rparr>]"
      "[\<lparr> gr_name = ''users'', gr_gid = 100, gr_members = [''sam'', ''alice''] \<rparr>]"
      "[makeShadowEntry 86400000 ''sam'' ''!'']"]
  by (simp add: passwd_ok_def group_ok_def shadow_ok_def line_ok_def js_ws_def read_passwd_def
      makeShadowEntry_def days_since_epoch_def)

text \<open>
  Credentials: a stored password hash accepts exactly the credentials whose derived key equals
  the one of the password it was made from (so the password itself whenever the derivation
  succeeds), a token hash accepts exactly the credentials with the same digest, and a locked hash
  or one of an unknown scheme accepts nothing.
\<close>

theorem credentials_accept_exactly:
  assumes "hashPassword kdf p salt n = Inr h"
  shows "verify_credential kdf sha q h
      = bind_result (kdf q salt (Some n)) (\<lambda>c. Inr (kdf p salt (Some n) = Inr c))
    \<and> verify_credential kdf sha p h = Inr True
    \<and> verify_credential kdf sha q (hashToken sha t) = Inr (sha q = sha t)
    \<and> verify_credential kdf sha q ''!'' = Inr False"
proof -
  have "verify_credential kdf sha p h = Inr True"
    using assms verify_hashed_password [OF assms, of sha p] by (auto simp: hashPassword_def)
  then show ?thesis
    using verify_hashed_password [OF assms] verify_hashed_token
    by (simp add: verify_credential_def isLocked_hash_def)
qed

theorem credentials_accept_exactly_witness:
  "\<exists>h. hashPassword (\<lambda>p s n. Inr (map (\<lambda>c. of_nat (of_char c)) p @ s)) ''ab'' [7] 5 = Inr h
     \<and> verify_credential (\<lambda>p s n. Inr (map (\<lambda>c. of_nat (of_char c)) p @ s)) (\<lambda>_. []) ''ab'' h = Inr True"
proof -
  let ?kdf = "\<lambda>p s n. Inr (map (\<lambda>c. of_nat (of_char c)) p @ s) :: bytes result"
  obtain h where h: "hashPassword ?kdf ''ab'' [7] 5 = Inr h" by (simp add: hashPassword_def)
  from credentials_accept_exactly [OF h, of "\<lambda>_. []"] h show ?thesis by blast
qed

end
