(* ===== verification/Tables.thy ===== *)
theory Tables
  imports Prelude
begin

text \<open>
  The SQLite tables behind the stores of the kernel. A table is the list of its rows in rowid
  order; the operations are the statements the sources execute: \<open>INSERT\<close>, \<open>INSERT OR REPLACE\<close>
  (delete the row with the same primary key, then append), \<open>INSERT OR IGNORE\<close>, \<open>DELETE ... WHERE\<close>,
  \<open>UPDATE ... WHERE\<close>, \<open>SELECT ... WHERE\<close> and \<open>ORDER BY\<close>. A plain \<open>INSERT\<close> that violates the primary
  key raises SQLite's \<open>UNIQUE constraint failed\<close>.

  The locale \<open>keyed_store\<close> is the contract a key/value store keeps towards its clients: what a
  lookup returns after a write or a delete. Its lemmas hold for every store that is shown to be an
  instance; the last one is a refinement: any sequence of writes and deletes acts on the store as
  on a finite map.
\<close>

section \<open>Statements\<close>

definition sql_delete :: "('r \<Rightarrow> bool) \<Rightarrow> 'r list \<Rightarrow> 'r list" where
  "sql_delete P t = filter (\<lambda>r. \<not> P r) t"

definition sql_update :: "('r \<Rightarrow> bool) \<Rightarrow> ('r \<Rightarrow> 'r) \<Rightarrow> 'r list \<Rightarrow> 'r list" where
  "sql_update P f t = map (\<lambda>r. if P r then f r else r) t"

definition sql_replace :: "('r \<Rightarrow> 'k) \<Rightarrow> 'r \<Rightarrow> 'r list \<Rightarrow> 'r list" where
  "sql_replace key r t = filter (\<lambda>x. key x \<noteq> key r) t @ [r]"

definition sql_ignore :: "('r \<Rightarrow> 'k) \<Rightarrow> 'r \<Rightarrow> 'r list \<Rightarrow> 'r list" where
  "sql_ignore key r t = (if list_ex (\<lambda>x. key x = key r) t then t else t @ [r])"

definition sql_insert :: "('r \<Rightarrow> 'k) \<Rightarrow> 'r \<Rightarrow> 'r list \<Rightarrow> 'r list result" where
  "sql_insert key r t =
     (if list_ex (\<lambda>x. key x = key r) t then throw ''UNIQUE constraint failed'' else Inr (t @ [r]))"

definition sql_lookup :: "('r \<Rightarrow> 'k) \<Rightarrow> 'r list \<Rightarrow> 'k \<Rightarrow> 'r option" where
  "sql_lookup key t k = find (\<lambda>r. key r = k) t"

definition sql_count :: "('r \<Rightarrow> bool) \<Rightarrow> 'r list \<Rightarrow> nat" where
  "sql_count P t = length (filter P t)"

text \<open>The primary key constraint.\<close>

definition keyed :: "('r \<Rightarrow> 'k) \<Rightarrow> 'r list \<Rightarrow> bool" where
  "keyed key t \<longleftrightarrow> distinct (map key t)"

subsection \<open>Reads after writes\<close>

lemma keyed_Nil [simp]: "keyed key []"
  by (simp add: keyed_def)

lemma keyed_snoc [simp]: "keyed key (t @ [r]) \<longleftrightarrow> keyed key t \<and> (\<forall>x \<in> set t. key x \<noteq> key r)"
  by (force simp: keyed_def image_iff)

lemma update_simps [simp]:
  "sql_update P f [] = []" "sql_update P f (x # t) = (if P x then f x else x) # sql_update P f t"
  by (simp_all add: sql_update_def)

lemma keyed_delete [simp]: "keyed key t \<Longrightarrow> keyed key (sql_delete P t)"
  by (simp add: keyed_def sql_delete_def distinct_map_filterI)

lemma keyed_filter [simp]: "keyed key t \<Longrightarrow> keyed key (filter P t)"
  by (simp add: keyed_def distinct_map_filterI)

lemma keyed_update:
  assumes "keyed key t" and "\<And>r. key (f r) = key r"
  shows "keyed key (sql_update P f t)"
proof -
  have "map key (sql_update P f t) = map key t"
    using assms(2) by (simp add: sql_update_def)
  with assms(1) show ?thesis by (simp add: keyed_def)
qed

lemma keyed_replace [simp]: "keyed key t \<Longrightarrow> keyed key (sql_replace key r t)"
  by (auto simp: keyed_def sql_replace_def distinct_map_filterI)

lemma keyed_ignore [simp]: "keyed key t \<Longrightarrow> keyed key (sql_ignore key r t)"
  by (auto simp: keyed_def sql_ignore_def list_ex_iff)

lemma keyed_insert: "keyed key t \<Longrightarrow> sql_insert key r t = Inr t' \<Longrightarrow> keyed key t'"
  by (fastforce simp: keyed_def sql_insert_def list_ex_iff split: if_splits)

lemma keyed_unique: "keyed key t \<Longrightarrow> r \<in> set t \<Longrightarrow> r' \<in> set t \<Longrightarrow> key r = key r' \<Longrightarrow> r = r'"
  by (auto simp: keyed_def distinct_map inj_on_def)

lemma lookup_Nil [table_simps, simp]: "sql_lookup key [] k = None"
  by (simp add: sql_lookup_def)

lemma lookup_Some: "sql_lookup key t k = Some r \<Longrightarrow> r \<in> set t \<and> key r = k"
  unfolding sql_lookup_def by (drule find_Some_in) simp

lemma lookup_None: "sql_lookup key t k = None \<longleftrightarrow> (\<forall>r \<in> set t. key r \<noteq> k)"
  by (simp add: sql_lookup_def find_None_all)

lemma lookup_iff: "keyed key t \<Longrightarrow> sql_lookup key t k = Some r \<longleftrightarrow> r \<in> set t \<and> key r = k"
proof
  assume keyed: "keyed key t" and r: "r \<in> set t \<and> key r = k"
  then obtain r' where r': "sql_lookup key t k = Some r'"
    using lookup_None [of key t k] by (cases "sql_lookup key t k") auto
  with keyed r show "sql_lookup key t k = Some r"
    using keyed_unique [OF keyed] lookup_Some [OF r'] by auto
qed (rule lookup_Some)

lemma lookup_replace [table_simps]:
  "sql_lookup key (sql_replace key r t) k = (if k = key r then Some r else sql_lookup key t k)"
proof (cases "k = key r")
  case True
  then have "find (\<lambda>x. key x = k) (filter (\<lambda>x. key x \<noteq> key r) t) = None"
    by (intro find_filter_none) simp
  with True show ?thesis by (simp add: sql_lookup_def sql_replace_def find_append)
next
  case False
  then have "find (\<lambda>x. key x = k) (filter (\<lambda>x. key x \<noteq> key r) t) = find (\<lambda>x. key x = k) t"
    by (intro find_filter) simp
  with False show ?thesis
    by (simp add: sql_lookup_def sql_replace_def find_append split: option.split)
qed

lemma lookup_ignore [table_simps]:
  "sql_lookup key (sql_ignore key r t) k =
     (case sql_lookup key t k of Some x \<Rightarrow> Some x | None \<Rightarrow> if k = key r then Some r else None)"
proof (cases "list_ex (\<lambda>x. key x = key r) t")
  case True
  then have "sql_lookup key t (key r) \<noteq> None" by (auto simp: lookup_None list_ex_iff)
  with True show ?thesis by (auto simp: sql_ignore_def split: option.splits)
next
  case False
  then show ?thesis by (auto simp: sql_ignore_def sql_lookup_def find_append split: option.splits)
qed

lemma lookup_insert [table_simps]:
  "sql_insert key r t = Inr t' \<Longrightarrow>
     sql_lookup key t' k = (if k = key r then Some r else sql_lookup key t k)"
proof -
  assume ins: "sql_insert key r t = Inr t'"
  then have "t' = t @ [r]" and "sql_lookup key t (key r) = None"
    by (auto simp: sql_insert_def lookup_None list_ex_iff split: if_splits)
  then show ?thesis by (auto simp: sql_lookup_def find_append split: option.splits)
qed

lemma lookup_delete [table_simps]:
  "keyed key t \<Longrightarrow> sql_lookup key (sql_delete P t) k =
     (case sql_lookup key t k of Some r \<Rightarrow> if P r then None else Some r | None \<Rightarrow> None)"
  by (simp add: sql_lookup_def sql_delete_def keyed_def find_filter_eq split: option.splits)

lemma lookup_delete_key [table_simps]:
  "sql_lookup key (sql_delete (\<lambda>r. key r = i) t) k = (if k = i then None else sql_lookup key t k)"
proof (cases "k = i")
  case True
  then show ?thesis by (simp add: sql_lookup_def sql_delete_def find_filter_none)
next
  case False
  then have "find (\<lambda>r. key r = k) (filter (\<lambda>r. key r \<noteq> i) t) = find (\<lambda>r. key r = k) t"
    by (intro find_filter) simp
  with False show ?thesis by (simp add: sql_lookup_def sql_delete_def)
qed

lemma lookup_update [table_simps]:
  assumes "\<And>r. key (f r) = key r"
  shows "sql_lookup key (sql_update P f t) k =
     map_option (\<lambda>r. if P r then f r else r) (sql_lookup key t k)"
  unfolding sql_lookup_def sql_update_def
  by (induction t) (auto simp: assms)

lemma in_delete [simp]: "r \<in> set (sql_delete P t) \<longleftrightarrow> r \<in> set t \<and> \<not> P r"
  by (simp add: sql_delete_def)

lemma in_replace: "r \<in> set (sql_replace key x t) \<longleftrightarrow> r = x \<or> (r \<in> set t \<and> key r \<noteq> key x)"
  by (auto simp: sql_replace_def)

lemma in_ignore: "r \<in> set (sql_ignore key x t) \<Longrightarrow> r = x \<or> r \<in> set t"
  by (auto simp: sql_ignore_def split: if_splits)

lemma in_update: "r \<in> set (sql_update P f t) \<longleftrightarrow> (\<exists>x \<in> set t. r = (if P x then f x else x))"
  by (auto simp: sql_update_def)

lemma length_update [simp]: "length (sql_update P f t) = length t"
  by (simp add: sql_update_def)

lemmas sql_stmt_defs = sql_delete_def sql_update_def sql_replace_def sql_ignore_def
  sql_insert_def sql_lookup_def sql_count_def

section \<open>The contract of a key/value store\<close>

datatype ('k, 'r) store_op = Put 'r | Del 'k

locale keyed_store =
  fixes key :: "'r \<Rightarrow> 'k"
    and lookup :: "'s \<Rightarrow> 'k \<Rightarrow> 'r option"
    and put :: "'r \<Rightarrow> 's \<Rightarrow> 's"
    and del :: "'k \<Rightarrow> 's \<Rightarrow> 's"
    and inv :: "'s \<Rightarrow> bool"
  assumes lookup_put: "inv s \<Longrightarrow> lookup (put r s) k = (if k = key r then Some r else lookup s k)"
    and lookup_del: "inv s \<Longrightarrow> lookup (del i s) k = (if k = i then None else lookup s k)"
    and inv_put: "inv s \<Longrightarrow> inv (put r s)"
    and inv_del: "inv s \<Longrightarrow> inv (del i s)"
begin

fun run_op :: "('k, 'r) store_op \<Rightarrow> 's \<Rightarrow> 's" where
  "run_op (Put r) s = put r s"
| "run_op (Del k) s = del k s"

fun map_op :: "('k, 'r) store_op \<Rightarrow> ('k \<rightharpoonup> 'r) \<Rightarrow> ('k \<rightharpoonup> 'r)" where
  "map_op (Put r) m = m(key r \<mapsto> r)"
| "map_op (Del k) m = m(k := None)"

lemma put_get: "inv s \<Longrightarrow> lookup (put r s) (key r) = Some r"
  by (simp add: lookup_put)

lemma put_frame: "inv s \<Longrightarrow> k \<noteq> key r \<Longrightarrow> lookup (put r s) k = lookup s k"
  by (simp add: lookup_put)

lemma put_overwrites: "inv s \<Longrightarrow> key r = key r' \<Longrightarrow> lookup (put r (put r' s)) = lookup (put r s)"
  by (rule ext) (simp add: lookup_put inv_put)

lemma del_put: "inv s \<Longrightarrow> lookup (del (key r) (put r s)) = (lookup s)(key r := None)"
  by (rule ext) (simp add: lookup_put lookup_del inv_put)

lemma inv_run_op: "inv s \<Longrightarrow> inv (run_op oper s)"
  by (cases oper) (simp_all add: inv_put inv_del)

lemma run_op_refines: "inv s \<Longrightarrow> lookup (run_op oper s) = map_op oper (lookup s)"
  by (cases oper) (auto simp: lookup_put lookup_del fun_eq_iff)

theorem run_refines: "inv s \<Longrightarrow> lookup (fold run_op ops s) = fold map_op ops (lookup s)"
proof (induction ops arbitrary: s)
  case (Cons oper ops)
  then show ?case by (simp add: inv_run_op run_op_refines)
qed simp

lemma inv_run: "inv s \<Longrightarrow> inv (fold run_op ops s)"
  by (induction ops arbitrary: s) (simp_all add: inv_run_op)

end

text \<open>Every table with a primary key is a store, under \<open>INSERT OR REPLACE\<close> and \<open>DELETE\<close> by key.\<close>

lemma table_is_keyed_store:
  "keyed_store key (sql_lookup key) (sql_replace key) (\<lambda>k. sql_delete (\<lambda>r. key r = k)) (keyed key)"
  by unfold_locales (simp_all add: table_simps)

end
