(* ===== verification/AuthStore.thy ===== *)
theory AuthStore
  imports AuthFiles Tables
begin

text \<open>
  The kernel's account tables (\<open>kernel/auth-store.ts\<close>): passwd, shadow, groups, auth_tokens and
  personal_agents, with the constraints of \<open>kernel/schema\<close>: unique user names, uids, group names,
  gids, token ids and token hashes. A plain \<open>INSERT\<close> or an \<open>UPDATE\<close> that breaks one throws and
  changes nothing; the multi-statement operations are actions, since what they wrote before the
  throw stays. An \<open>await\<close> splits an operation: the state read after it is a second argument.
\<close>

datatype token_kind = KNode | KService | KUser
datatype token_role = RDriver | RService | RUser

record group_row =
  g_name :: string
  g_gid :: int
  g_members :: string

record token_row =
  t_id :: string
  t_uid :: int
  t_kind :: token_kind
  t_label :: "string option"
  t_hash :: string
  t_prefix :: string
  t_allowed_role :: "token_role option"
  t_allowed_device_id :: "string option"
  t_created_at :: int
  t_last_used_at :: "int option"
  t_expires_at :: "int option"
  t_revoked_at :: "int option"
  t_revoked_reason :: "string option"

record auth_db =
  db_passwd :: "int passwd_entry list"
  db_shadow :: "shadow_entry list"
  db_groups :: "group_row list"
  db_tokens :: "token_row list"
  db_agents :: "(int \<times> int) list"

record auth_identity =
  id_uid :: int
  id_gid :: int
  id_gids :: "int list"
  id_username :: string
  id_home :: string

datatype auth_result = AuthOk auth_identity | AuthFail string

section \<open>Personal agents\<close>

definition getPersonalAgentUid :: "auth_db \<Rightarrow> int \<Rightarrow> int option" where
  "getPersonalAgentUid db ownerUid = map_option snd (sql_lookup fst (db_agents db) ownerUid)"

definition setPersonalAgent :: "int \<Rightarrow> int \<Rightarrow> auth_db \<Rightarrow> auth_db" where
  "setPersonalAgent ownerUid agentUid db =
     db\<lparr> db_agents := sql_replace fst (ownerUid, agentUid) (db_agents db) \<rparr>"

definition isPersonalAgentUid :: "auth_db \<Rightarrow> int \<Rightarrow> bool" where
  "isPersonalAgentUid db uid \<longleftrightarrow> sql_count (\<lambda>r. snd r = uid) (db_agents db) > 0"

section \<open>passwd\<close>

definition getPasswdEntries :: "auth_db \<Rightarrow> int passwd_entry list" where
  "getPasswdEntries db = sort_key pw_uid (db_passwd db)"

definition getPasswdByUsername :: "auth_db \<Rightarrow> string \<Rightarrow> int passwd_entry option" where
  "getPasswdByUsername db username = sql_lookup pw_username (db_passwd db) username"

definition getPasswdByUid :: "auth_db \<Rightarrow> int \<Rightarrow> int passwd_entry option" where
  "getPasswdByUid db uid = sql_lookup pw_uid (db_passwd db) uid"

text \<open>SQLite binds \<open>NaN\<close> as NULL, which the NOT NULL columns reject.\<close>

definition addUser :: "int option passwd_entry \<Rightarrow> auth_db \<Rightarrow> auth_db result" where
  "addUser e db =
     (case (pw_uid e, pw_gid e) of
        (Some u, Some g) \<Rightarrow>
          if list_ex (\<lambda>x. pw_username x = pw_username e \<or> pw_uid x = u) (db_passwd db)
          then throw ''UNIQUE constraint failed''
          else Inr (db\<lparr> db_passwd := db_passwd db @ [\<lparr> pw_username = pw_username e, pw_uid = u,
                 pw_gid = g, pw_gecos = pw_gecos e, pw_home = pw_home e, pw_shell = pw_shell e \<rparr>] \<rparr>)
      | _ \<Rightarrow> throw ''NOT NULL constraint failed'')"

record user_patch =
  up_uid :: "int option"
  up_gid :: "int option"
  up_gecos :: "string option"
  up_home :: "string option"
  up_shell :: "string option"

definition updateUser :: "string \<Rightarrow> user_patch \<Rightarrow> auth_db \<Rightarrow> (auth_db \<times> bool) result" where
  "updateUser username p db =
     (case getPasswdByUsername db username of
        None \<Rightarrow> Inr (db, False)
      | Some ex \<Rightarrow>
          let uid = coalesce (up_uid p) (pw_uid ex) in
          if list_ex (\<lambda>x. pw_username x \<noteq> username \<and> pw_uid x = uid) (db_passwd db)
          then throw ''UNIQUE constraint failed''
          else Inr (db\<lparr> db_passwd := sql_update (\<lambda>x. pw_username x = username)
                 (\<lambda>x. x\<lparr> pw_uid := uid, pw_gid := coalesce (up_gid p) (pw_gid ex),
                         pw_gecos := coalesce (up_gecos p) (pw_gecos ex),
                         pw_home := coalesce (up_home p) (pw_home ex),
                         pw_shell := coalesce (up_shell p) (pw_shell ex) \<rparr>) (db_passwd db) \<rparr>, True))"

definition removeUser :: "string \<Rightarrow> auth_db \<Rightarrow> auth_db \<times> bool" where
  "removeUser username db =
     (case getPasswdByUsername db username of
        None \<Rightarrow> (db, False)
      | Some _ \<Rightarrow> (db\<lparr> db_passwd := sql_delete (\<lambda>x. pw_username x = username) (db_passwd db),
                      db_shadow := sql_delete (\<lambda>x. sh_username x = username) (db_shadow db) \<rparr>, True))"

section \<open>shadow\<close>

definition getShadowEntries :: "auth_db \<Rightarrow> shadow_entry list" where
  "getShadowEntries db = sort_key sh_username (db_shadow db)"

definition getShadowByUsername :: "auth_db \<Rightarrow> string \<Rightarrow> shadow_entry option" where
  "getShadowByUsername db username = sql_lookup sh_username (db_shadow db) username"

definition setShadow :: "shadow_entry \<Rightarrow> auth_db \<Rightarrow> auth_db" where
  "setShadow e db = db\<lparr> db_shadow := sql_replace sh_username e (db_shadow db) \<rparr>"

definition setPassword :: "int \<Rightarrow> string \<Rightarrow> string \<Rightarrow> auth_db \<Rightarrow> auth_db \<times> bool" where
  "setPassword now username hash db =
     (case getShadowByUsername db username of
        None \<Rightarrow> (db, False)
      | Some _ \<Rightarrow> (db\<lparr> db_shadow := sql_update (\<lambda>x. sh_username x = username)
             (\<lambda>x. x\<lparr> sh_hash := hash, sh_lastchanged := days_since_epoch now \<rparr>) (db_shadow db) \<rparr>, True))"

definition isSetupMode :: "auth_db \<Rightarrow> bool" where
  "isSetupMode db =
     (case getShadowByUsername db ''root'' of
        None \<Rightarrow> True
      | Some root \<Rightarrow>
          if \<not> isLocked root then False
          else \<not> list_ex (\<lambda>e. pw_uid e \<ge> 1000) (getPasswdEntries db))"

section \<open>groups\<close>

definition group_of_row :: "group_row \<Rightarrow> int group_entry" where
  "group_of_row r = \<lparr> gr_name = g_name r, gr_gid = g_gid r,
     gr_members = (if g_members r \<noteq> [] then js_split (CHR '','') (g_members r) else []) \<rparr>"

definition getGroupEntries :: "auth_db \<Rightarrow> int group_entry list" where
  "getGroupEntries db = map group_of_row (sort_key g_gid (db_groups db))"

definition getGroupByName :: "auth_db \<Rightarrow> string \<Rightarrow> int group_entry option" where
  "getGroupByName db name = map_option group_of_row (sql_lookup g_name (db_groups db) name)"

definition getGroupByGid :: "auth_db \<Rightarrow> int \<Rightarrow> int group_entry option" where
  "getGroupByGid db gid = map_option group_of_row (sql_lookup g_gid (db_groups db) gid)"

definition addGroup :: "int option group_entry \<Rightarrow> auth_db \<Rightarrow> auth_db result" where
  "addGroup e db =
     (case gr_gid e of
        None \<Rightarrow> throw ''NOT NULL constraint failed''
      | Some g \<Rightarrow>
          if list_ex (\<lambda>x. g_name x = gr_name e \<or> g_gid x = g) (db_groups db)
          then throw ''UNIQUE constraint failed''
          else Inr (db\<lparr> db_groups := db_groups db @
                 [\<lparr> g_name = gr_name e, g_gid = g, g_members = js_join '','' (gr_members e) \<rparr>] \<rparr>))"

definition updateGroupMembers :: "string \<Rightarrow> string list \<Rightarrow> auth_db \<Rightarrow> auth_db \<times> bool" where
  "updateGroupMembers name members db =
     (case getGroupByName db name of
        None \<Rightarrow> (db, False)
      | Some _ \<Rightarrow> (db\<lparr> db_groups := sql_update (\<lambda>x. g_name x = name)
                         (\<lambda>x. x\<lparr> g_members := js_join '','' members \<rparr>) (db_groups db) \<rparr>, True))"

definition removeGroup :: "string \<Rightarrow> auth_db \<Rightarrow> auth_db \<times> bool" where
  "removeGroup name db =
     (case getGroupByName db name of
        None \<Rightarrow> (db, False)
      | Some _ \<Rightarrow> (db\<lparr> db_groups := sql_delete (\<lambda>x. g_name x = name) (db_groups db) \<rparr>, True))"

text \<open>\<open>SELECT MAX(..)\<close> is NULL on no rows and skips NULLs.\<close>

definition sql_max :: "int list \<Rightarrow> int option" where
  "sql_max xs = (case xs of [] \<Rightarrow> None | x # r \<Rightarrow> Some (foldl max x r))"

definition maxAllocatedId :: "auth_db \<Rightarrow> int" where
  "maxAllocatedId db = coalesce (sql_max (List.map_filter (\<lambda>x. x)
     [sql_max (map pw_uid (db_passwd db)), sql_max (map g_gid (db_groups db))])) 0"

definition nextUid :: "auth_db \<Rightarrow> int" where
  "nextUid db = (let mx = maxAllocatedId db in if mx < 1000 then 1000 else mx + 1)"

definition nextGid :: "auth_db \<Rightarrow> int" where
  "nextGid db = (let mx = maxAllocatedId db in if mx < 100 then 100 else mx + 1)"

definition resolveGids :: "auth_db \<Rightarrow> string \<Rightarrow> int \<Rightarrow> int list" where
  "resolveGids db username primaryGid = group_resolveGids (getGroupEntries db) username primaryGid"

definition uidToName :: "auth_db \<Rightarrow> int \<Rightarrow> string" where
  "uidToName db uid = (case getPasswdByUid db uid of Some e \<Rightarrow> pw_username e | None \<Rightarrow> show_int uid)"

definition gidToName :: "auth_db \<Rightarrow> int \<Rightarrow> string" where
  "gidToName db gid = (case getGroupByGid db gid of Some e \<Rightarrow> gr_name e | None \<Rightarrow> show_int gid)"

section \<open>Bootstrap\<close>

definition isBootstrapped :: "auth_db \<Rightarrow> bool" where
  "isBootstrapped db \<longleftrightarrow> sql_count (\<lambda>_. True) (db_passwd db) > 0"

definition bootstrap :: "digest \<Rightarrow> int \<Rightarrow> string option \<Rightarrow> (auth_db, bool) action" where
  "bootstrap sha now rootToken =
     act_bind (act_get isBootstrapped) (\<lambda>seeded.
       if seeded then act_return False
       else
         act_bind (act_try (addUser \<lparr> pw_username = ''root'', pw_uid = Some 0, pw_gid = Some 0,
             pw_gecos = ''root'', pw_home = ''/root'', pw_shell = ''/bin/init'' \<rparr>)) (\<lambda>_.
         let hash = (case rootToken of Some t \<Rightarrow> (if t \<noteq> [] then hashToken sha t else ''!'')
                                     | None \<Rightarrow> ''!'')
         in
         act_bind (act_modify (setShadow (makeShadowEntry now ''root'' hash))) (\<lambda>_.
         act_bind (act_try (addGroup \<lparr> gr_name = ''root'', gr_gid = Some 0, gr_members = [''root''] \<rparr>)) (\<lambda>_.
         act_bind (act_try (addGroup \<lparr> gr_name = ''users'', gr_gid = Some 100, gr_members = [] \<rparr>)) (\<lambda>_.
         act_bind (act_try (addGroup \<lparr> gr_name = ''drivers'', gr_gid = Some 101, gr_members = [] \<rparr>)) (\<lambda>_.
         act_bind (act_try (addGroup \<lparr> gr_name = ''services'', gr_gid = Some 102, gr_members = [] \<rparr>)) (\<lambda>_.
         act_return True)))))))"

section \<open>Flat files\<close>

definition store_serializePasswd :: "auth_db \<Rightarrow> string" where
  "store_serializePasswd db = serializePasswd (getPasswdEntries db)"

definition store_serializeShadow :: "auth_db \<Rightarrow> string" where
  "store_serializeShadow db = serializeShadow (getShadowEntries db)"

definition store_serializeGroup :: "auth_db \<Rightarrow> string" where
  "store_serializeGroup db = serializeGroup (getGroupEntries db)"

definition importPasswd :: "string \<Rightarrow> (auth_db, unit) action" where
  "importPasswd raw = act_bind (act_modify (db_passwd_update (\<lambda>_. [])))
     (\<lambda>_. act_each (\<lambda>e. act_try (addUser e)) (parsePasswd raw))"

definition importShadow :: "string \<Rightarrow> (auth_db, unit) action" where
  "importShadow raw = act_bind (act_modify (db_shadow_update (\<lambda>_. [])))
     (\<lambda>_. act_each (\<lambda>e. act_modify (setShadow e)) (parseShadow raw))"

definition importGroup :: "string \<Rightarrow> (auth_db, unit) action" where
  "importGroup raw = act_bind (act_modify (db_groups_update (\<lambda>_. [])))
     (\<lambda>_. act_each (\<lambda>e. act_try (addGroup e)) (parseGroup raw))"

section \<open>Authentication\<close>

definition auth_identity_of :: "auth_db \<Rightarrow> int passwd_entry \<Rightarrow> auth_identity" where
  "auth_identity_of db user =
     \<lparr> id_uid = pw_uid user, id_gid = pw_gid user,
       id_gids = resolveGids db (pw_username user) (pw_gid user),
       id_username = pw_username user, id_home = pw_home user \<rparr>"

text \<open>\<open>db\<close> is the state when the call starts, \<open>db'\<close> the state when \<open>verify\<close> resolves.\<close>

definition authenticate ::
  "kdf \<Rightarrow> digest \<Rightarrow> auth_db \<Rightarrow> auth_db \<Rightarrow> string \<Rightarrow> string \<Rightarrow> auth_result result" where
  "authenticate kdf sha db db' username credential =
     (case getPasswdByUsername db username of
        None \<Rightarrow> Inr (AuthFail ''Unknown user'')
      | Some user \<Rightarrow>
          (case getShadowByUsername db username of
             None \<Rightarrow> Inr (AuthFail ''No credentials found'')
           | Some shadow \<Rightarrow>
               bind_result (verify_credential kdf sha credential (sh_hash shadow)) (\<lambda>valid.
                 if \<not> valid then Inr (AuthFail ''Authentication failed'')
                 else Inr (AuthOk (auth_identity_of db' user)))))"

text \<open>The checks on the token row, in the order of the code.\<close>

definition token_allows :: "int \<Rightarrow> token_role option \<Rightarrow> string option \<Rightarrow> token_row \<Rightarrow> bool" where
  "token_allows now role deviceId r =
     (if t_revoked_at r \<noteq> None then False
      else if (case t_expires_at r of Some e \<Rightarrow> e \<le> now | None \<Rightarrow> False) then False
      else if role \<noteq> None \<and> t_allowed_role r \<noteq> None \<and> t_allowed_role r \<noteq> role then False
      else if role = Some RDriver then
        (if \<not> truthy deviceId \<or> \<not> truthy (t_allowed_device_id r) then False
         else t_allowed_device_id r = deviceId)
      else if truthy deviceId \<and> truthy (t_allowed_device_id r) \<and> t_allowed_device_id r \<noteq> deviceId
        then False
      else True)"

definition authenticateToken ::
  "digest \<Rightarrow> int \<Rightarrow> auth_db \<Rightarrow> auth_db \<Rightarrow> string \<Rightarrow> string \<Rightarrow> token_role option \<Rightarrow> string option
     \<Rightarrow> auth_db \<times> auth_result" where
  "authenticateToken sha now db db' username token role deviceId =
     (case getPasswdByUsername db username of
        None \<Rightarrow> (db, AuthFail ''Unknown user'')
      | Some user \<Rightarrow>
          (case find (\<lambda>r. t_uid r = pw_uid user \<and> t_hash r = hashToken sha token) (db_tokens db') of
             None \<Rightarrow> (db', AuthFail ''Authentication failed'')
           | Some tokenRow \<Rightarrow>
               if \<not> token_allows now role deviceId tokenRow
               then (db', AuthFail ''Authentication failed'')
               else
                 (let db'' = db'\<lparr> db_tokens := sql_update (\<lambda>r. t_id r = t_id tokenRow)
                                   (\<lambda>r. r\<lparr> t_last_used_at := Some now \<rparr>) (db_tokens db') \<rparr>
                  in (db'', AuthOk (auth_identity_of db'' user)))))"

record token_input =
  ti_uid :: int
  ti_kind :: token_kind
  ti_label :: "string option"
  ti_allowed_role :: "token_role option"
  ti_allowed_device_id :: "string option"
  ti_expires_at :: "int option"

record issued_token =
  it_token_id :: string
  it_token :: string
  it_token_prefix :: string
  it_uid :: int
  it_kind :: token_kind
  it_label :: "string option"
  it_allowed_role :: token_role
  it_allowed_device_id :: "string option"
  it_created_at :: int
  it_expires_at :: "int option"

fun defaultRoleForKind :: "token_kind \<Rightarrow> token_role" where
  "defaultRoleForKind KNode = RDriver"
| "defaultRoleForKind KService = RService"
| "defaultRoleForKind KUser = RUser"

fun kind_name :: "token_kind \<Rightarrow> string" where
  "kind_name KNode = ''node''"
| "kind_name KService = ''service''"
| "kind_name KUser = ''user''"

definition generateTokenValue :: "token_kind \<Rightarrow> bytes \<Rightarrow> string" where
  "generateTokenValue kind rnd =
     (let base64 = rev (dropWhile (\<lambda>c. c = CHR ''='') (rev
            (map (\<lambda>c. if c = CHR ''+'' then CHR ''-'' else if c = CHR ''/'' then CHR ''_'' else c)
               (btoa (fromCharCode rnd)))))
      in ''gsv_'' @ kind_name kind @ ''_'' @ base64)"

text \<open>\<open>tokenId\<close> is \<open>crypto.randomUUID()\<close>, \<open>rnd\<close> the 24 random bytes; \<open>db'\<close> is the state after the digest.\<close>

definition issueToken ::
  "digest \<Rightarrow> int \<Rightarrow> string \<Rightarrow> bytes \<Rightarrow> auth_db \<Rightarrow> auth_db \<Rightarrow> token_input
     \<Rightarrow> (auth_db \<times> issued_token) result" where
  "issueToken sha now tokenId rnd db db' inp =
     (case getPasswdByUid db (ti_uid inp) of
        None \<Rightarrow> throw (''Unknown uid: '' @ show_int (ti_uid inp))
      | Some _ \<Rightarrow>
          (let rawToken = generateTokenValue (ti_kind inp) rnd;
               tokenPrefix = take 16 rawToken;
               tokenHash = hashToken sha rawToken;
               allowedRole = coalesce (ti_allowed_role inp) (defaultRoleForKind (ti_kind inp))
           in if allowedRole = RDriver \<and> \<not> truthy (ti_allowed_device_id inp)
              then throw ''allowedDeviceId is required for driver-bound tokens''
              else if list_ex (\<lambda>r. t_id r = tokenId \<or> t_hash r = tokenHash) (db_tokens db')
              then throw ''UNIQUE constraint failed''
              else Inr
                (db'\<lparr> db_tokens := db_tokens db' @
                   [\<lparr> t_id = tokenId, t_uid = ti_uid inp, t_kind = ti_kind inp, t_label = ti_label inp,
                      t_hash = tokenHash, t_prefix = tokenPrefix, t_allowed_role = Some allowedRole,
                      t_allowed_device_id = ti_allowed_device_id inp, t_created_at = now,
                      t_last_used_at = None, t_expires_at = ti_expires_at inp,
                      t_revoked_at = None, t_revoked_reason = None \<rparr>] \<rparr>,
                 \<lparr> it_token_id = tokenId, it_token = rawToken, it_token_prefix = tokenPrefix,
                   it_uid = ti_uid inp, it_kind = ti_kind inp, it_label = ti_label inp,
                   it_allowed_role = allowedRole, it_allowed_device_id = ti_allowed_device_id inp,
                   it_created_at = now, it_expires_at = ti_expires_at inp \<rparr>)))"

record token_record =
  tr_token_id :: string
  tr_uid :: int
  tr_kind :: token_kind
  tr_label :: "string option"
  tr_token_prefix :: string
  tr_allowed_role :: "token_role option"
  tr_allowed_device_id :: "string option"
  tr_created_at :: int
  tr_last_used_at :: "int option"
  tr_expires_at :: "int option"
  tr_revoked_at :: "int option"
  tr_revoked_reason :: "string option"

definition mapTokenRow :: "token_row \<Rightarrow> token_record" where
  "mapTokenRow r =
     \<lparr> tr_token_id = t_id r, tr_uid = t_uid r, tr_kind = t_kind r, tr_label = t_label r,
       tr_token_prefix = t_prefix r, tr_allowed_role = t_allowed_role r,
       tr_allowed_device_id = t_allowed_device_id r, tr_created_at = t_created_at r,
       tr_last_used_at = t_last_used_at r, tr_expires_at = t_expires_at r,
       tr_revoked_at = t_revoked_at r, tr_revoked_reason = t_revoked_reason r \<rparr>"

definition listTokens :: "int option \<Rightarrow> auth_db \<Rightarrow> token_record list" where
  "listTokens uid db =
     (case uid of
        Some u \<Rightarrow> map mapTokenRow (sort_key (\<lambda>r. - t_created_at r)
                    (filter (\<lambda>r. t_uid r = u) (db_tokens db)))
      | None \<Rightarrow> map mapTokenRow (sort_key (\<lambda>r. - t_created_at r) (db_tokens db)))"

definition revokeToken ::
  "int \<Rightarrow> string \<Rightarrow> string option \<Rightarrow> int option \<Rightarrow> auth_db \<Rightarrow> auth_db \<times> bool" where
  "revokeToken now tokenId reason uid db =
     (let hit = (\<lambda>r. t_id r = tokenId \<and> (case uid of Some u \<Rightarrow> t_uid r = u | None \<Rightarrow> True))
      in if \<not> list_ex hit (db_tokens db) then (db, False)
         else (db\<lparr> db_tokens := sql_update hit
                 (\<lambda>r. r\<lparr> t_revoked_at := Some now, t_revoked_reason := reason \<rparr>) (db_tokens db) \<rparr>, True))"

section \<open>The constraints hold in every reachable state\<close>

definition auth_inv :: "auth_db \<Rightarrow> bool" where
  "auth_inv db \<longleftrightarrow> keyed pw_username (db_passwd db) \<and> keyed pw_uid (db_passwd db)
     \<and> keyed sh_username (db_shadow db) \<and> keyed g_name (db_groups db) \<and> keyed g_gid (db_groups db)
     \<and> keyed t_id (db_tokens db) \<and> keyed t_hash (db_tokens db) \<and> keyed fst (db_agents db)"

definition empty_auth :: auth_db where
  "empty_auth = \<lparr> db_passwd = [], db_shadow = [], db_groups = [], db_tokens = [], db_agents = [] \<rparr>"

inductive auth_step :: "auth_db \<Rightarrow> auth_db \<Rightarrow> bool" where
  step_addUser: "addUser e db = Inr db' \<Longrightarrow> auth_step db db'"
| step_updateUser: "updateUser u p db = Inr (db', ok) \<Longrightarrow> auth_step db db'"
| step_removeUser: "auth_step db (fst (removeUser u db))"
| step_setShadow: "auth_step db (setShadow sh db)"
| step_setPassword: "auth_step db (fst (setPassword now u h db))"
| step_addGroup: "addGroup g db = Inr db' \<Longrightarrow> auth_step db db'"
| step_updateGroupMembers: "auth_step db (fst (updateGroupMembers n ms db))"
| step_removeGroup: "auth_step db (fst (removeGroup n db))"
| step_setPersonalAgent: "auth_step db (setPersonalAgent o1 a1 db)"
| step_bootstrap: "auth_step db (fst (bootstrap sha now rt db))"
| step_importPasswd: "auth_step db (fst (importPasswd raw db))"
| step_importShadow: "auth_step db (fst (importShadow raw db))"
| step_importGroup: "auth_step db (fst (importGroup raw db))"
| step_authenticateToken: "getPasswdByUsername db0 u \<noteq> None
     \<Longrightarrow> auth_step db (fst (authenticateToken sha now db0 db u t role dev))"
| step_issueToken: "issueToken sha now tid rnd db0 db inp = Inr (db', it) \<Longrightarrow> auth_step db db'"
| step_revokeToken: "auth_step db (fst (revokeToken now tid reason uid db))"

lemma addUser_inv: "auth_inv db \<Longrightarrow> addUser e db = Inr db' \<Longrightarrow> auth_inv db'"
  by (auto simp: auth_inv_def addUser_def list_ex_iff split: option.splits if_splits)

lemma addGroup_inv: "auth_inv db \<Longrightarrow> addGroup e db = Inr db' \<Longrightarrow> auth_inv db'"
  by (auto simp: auth_inv_def addGroup_def list_ex_iff split: option.splits if_splits)

lemma setShadow_inv: "auth_inv db \<Longrightarrow> auth_inv (setShadow e db)"
  by (simp add: auth_inv_def setShadow_def)

lemma keyed_update_unique:
  assumes "keyed key t" and "keyed k t" and "\<forall>r \<in> set t. k r \<noteq> i \<longrightarrow> key r \<noteq> v"
    and "\<And>r. key (f r) = v"
  shows "keyed key (sql_update (\<lambda>r. k r = i) f t)"
  using assms(1-3)
proof (induction t)
  case (Cons x t)
  have IH: "keyed key (sql_update (\<lambda>r. k r = i) f t)"
    using Cons by (auto simp: keyed_def)
  show ?case
  proof (cases "k x = i")
    case True
    then have "\<forall>r \<in> set t. k r \<noteq> i" using Cons.prems(2) by (auto simp: keyed_def image_iff)
    then have "sql_update (\<lambda>r. k r = i) f t = t" and "\<forall>r \<in> set t. key r \<noteq> v"
      using Cons.prems(3) by (auto simp: sql_update_def intro!: map_idI)
    then show ?thesis using IH True by (auto simp: keyed_def assms(4))
  next
    case False
    then have "key x \<notin> key ` set (sql_update (\<lambda>r. k r = i) f t)"
      using Cons.prems(1,3) by (auto simp: sql_update_def keyed_def assms(4))
    with False IH show ?thesis by (simp add: keyed_def)
  qed
qed simp

lemma updateUser_inv: "auth_inv db \<Longrightarrow> updateUser u p db = Inr (db', ok) \<Longrightarrow> auth_inv db'"
proof -
  assume inv: "auth_inv db" and up: "updateUser u p db = Inr (db', ok)"
  show "auth_inv db'"
  proof (cases "getPasswdByUsername db u")
    case (Some ex)
    let ?uid = "coalesce (up_uid p) (pw_uid ex)"
    from up Some have free: "\<forall>x \<in> set (db_passwd db). pw_username x \<noteq> u \<longrightarrow> pw_uid x \<noteq> ?uid"
      and db': "db' = db\<lparr> db_passwd := sql_update (\<lambda>x. pw_username x = u)
                 (\<lambda>x. x\<lparr> pw_uid := ?uid, pw_gid := coalesce (up_gid p) (pw_gid ex),
                         pw_gecos := coalesce (up_gecos p) (pw_gecos ex),
                         pw_home := coalesce (up_home p) (pw_home ex),
                         pw_shell := coalesce (up_shell p) (pw_shell ex) \<rparr>) (db_passwd db) \<rparr>"
      by (auto simp: updateUser_def Let_def list_ex_iff split: if_splits)
    let ?t = "db_passwd db'"
    have "keyed pw_uid ?t"
      using inv free unfolding db' auth_inv_def
      by (simp, intro keyed_update_unique [where v = ?uid]) auto
    moreover have "keyed pw_username ?t"
      using inv unfolding db' auth_inv_def by (simp add: keyed_update)
    ultimately show ?thesis using inv unfolding db' by (simp add: auth_inv_def)
  qed (use inv up in \<open>simp add: updateUser_def\<close>)
qed

lemma tokens_inv:
  assumes "auth_inv db" and "\<And>r. t_id (f r) = t_id r" and "\<And>r. t_hash (f r) = t_hash r"
  shows "auth_inv (db\<lparr> db_tokens := sql_update P f (db_tokens db) \<rparr>)"
  using assms by (auto simp: auth_inv_def intro!: keyed_update)

lemma act_try_user: "act_keeps auth_inv (act_try (addUser e))"
  and act_try_group: "act_keeps auth_inv (act_try (addGroup g))"
  by (auto intro!: keeps_try elim: addUser_inv addGroup_inv)

lemma bootstrap_keeps: "act_keeps auth_inv (bootstrap sha now rt)"
  unfolding bootstrap_def Let_def
  by (intro keeps_bind keeps_if act_try_user act_try_group keeps_modify setShadow_inv
      keeps_return keeps_get)

lemma import_keeps:
  "act_keeps auth_inv (importPasswd raw)" "act_keeps auth_inv (importShadow raw)"
  "act_keeps auth_inv (importGroup raw)"
  unfolding importPasswd_def importShadow_def importGroup_def
  by (intro keeps_bind keeps_each act_try_user act_try_group keeps_modify setShadow_inv;
      simp add: auth_inv_def)+

lemma auth_step_inv: "auth_step db db' \<Longrightarrow> auth_inv db \<Longrightarrow> auth_inv db'"
proof (induction rule: auth_step.induct)
  case (step_removeUser db u)
  then show ?case by (simp add: removeUser_def auth_inv_def split: option.splits)
next
  case (step_setPassword db now u h)
  then show ?case
    by (auto simp: setPassword_def auth_inv_def split: option.splits intro!: keyed_update)
next
  case (step_updateGroupMembers db n ms)
  then show ?case
    by (auto simp: updateGroupMembers_def auth_inv_def split: option.splits intro!: keyed_update)
next
  case (step_removeGroup db n)
  then show ?case by (simp add: removeGroup_def auth_inv_def split: option.splits)
next
  case (step_setPersonalAgent db o1 a1)
  then show ?case by (simp add: setPersonalAgent_def auth_inv_def)
next
  case (step_authenticateToken db0 u db sha now t role dev)
  then show ?case
    by (auto simp: authenticateToken_def Let_def intro!: tokens_inv split: option.splits)
next
  case (step_issueToken sha now tid rnd db0 db inp db' it)
  then show ?case
    by (auto simp: issueToken_def Let_def auth_inv_def list_ex_iff
        split: option.splits if_splits)
next
  case (step_revokeToken db now tid reason uid)
  then show ?case by (auto simp: revokeToken_def Let_def intro!: tokens_inv)
qed (auto elim: addUser_inv addGroup_inv updateUser_inv
     intro: setShadow_inv keepsD [OF bootstrap_keeps] keepsD [OF import_keeps(1)]
       keepsD [OF import_keeps(2)] keepsD [OF import_keeps(3)])

lemma auth_steps_inv: "auth_step\<^sup>*\<^sup>* db db' \<Longrightarrow> auth_inv db \<Longrightarrow> auth_inv db'"
  by (induction rule: rtranclp_induct) (auto intro: auth_step_inv)

lemma empty_auth_inv [simp]: "auth_inv empty_auth"
  by (simp add: auth_inv_def empty_auth_def)

section \<open>Fresh identifiers\<close>

lemma foldl_max_ge: "(x::int) \<le> foldl max x r \<and> (\<forall>y \<in> set r. y \<le> foldl max x r)"
proof (induction r arbitrary: x)
  case (Cons a r)
  from Cons [of "max x a"] show ?case by auto
qed simp

lemma sql_max_ge: "y \<in> set xs \<Longrightarrow> \<exists>m. sql_max xs = Some m \<and> y \<le> m"
  using foldl_max_ge by (auto simp: sql_max_def split: list.splits)

lemma maxAllocatedId_ge:
  assumes "y \<in> pw_uid ` set (db_passwd db) \<union> g_gid ` set (db_groups db)"
  shows "y \<le> maxAllocatedId db"
proof -
  let ?U = "sql_max (map pw_uid (db_passwd db))" and ?G = "sql_max (map g_gid (db_groups db))"
  let ?ms = "List.map_filter (\<lambda>x. x) [?U, ?G]"
  have ms: "set ?ms = {m. Some m \<in> {?U, ?G}}"
    by (auto simp: List.map_filter_def)
  obtain m where "Some m \<in> {?U, ?G}" and m: "y \<le> m"
    using assms sql_max_ge [of y "map pw_uid (db_passwd db)"] sql_max_ge [of y "map g_gid (db_groups db)"]
    by (metis (no_types, lifting) Un_iff insert_iff list.set_map)
  with ms have "m \<in> set ?ms" by blast
  from sql_max_ge [OF this] m show ?thesis by (auto simp: maxAllocatedId_def)
qed

section \<open>Tokens\<close>

text \<open>What \<open>token_allows\<close> decides, without the order of its tests.\<close>

lemma token_allows_iff:
  "token_allows now role dev r \<longleftrightarrow>
     t_revoked_at r = None
     \<and> (\<forall>e. t_expires_at r = Some e \<longrightarrow> now < e)
     \<and> (role = None \<or> t_allowed_role r = None \<or> t_allowed_role r = role)
     \<and> (if role = Some RDriver then truthy dev \<and> t_allowed_device_id r = dev
        else truthy dev \<and> truthy (t_allowed_device_id r) \<longrightarrow> t_allowed_device_id r = dev)"
  unfolding token_allows_def by (cases "t_expires_at r") auto

lemma find_token:
  assumes "auth_inv db"
  shows "find (\<lambda>r. t_uid r = u \<and> t_hash r = h) (db_tokens db) = Some r
     \<longleftrightarrow> r \<in> set (db_tokens db) \<and> t_uid r = u \<and> t_hash r = h"
proof
  assume "find (\<lambda>r. t_uid r = u \<and> t_hash r = h) (db_tokens db) = Some r"
  then show "r \<in> set (db_tokens db) \<and> t_uid r = u \<and> t_hash r = h" by (rule find_Some_in)
next
  assume r: "r \<in> set (db_tokens db) \<and> t_uid r = u \<and> t_hash r = h"
  then obtain r' where r': "find (\<lambda>r. t_uid r = u \<and> t_hash r = h) (db_tokens db) = Some r'"
    using find_None_all [of "\<lambda>r. t_uid r = u \<and> t_hash r = h" "db_tokens db"] by fastforce
  then have "r' \<in> set (db_tokens db)" "t_hash r' = h" using find_Some_in by force+
  with r assms have "r' = r" by (auto simp: auth_inv_def dest: keyed_unique)
  with r' show "find (\<lambda>r. t_uid r = u \<and> t_hash r = h) (db_tokens db) = Some r" by simp
qed

lemma authenticateToken_snd:
  "snd (authenticateToken sha now db db' u tok role dev) =
     (case getPasswdByUsername db u of
        None \<Rightarrow> AuthFail ''Unknown user''
      | Some user \<Rightarrow>
          (case find (\<lambda>r. t_uid r = pw_uid user \<and> t_hash r = hashToken sha tok) (db_tokens db') of
             None \<Rightarrow> AuthFail ''Authentication failed''
           | Some r \<Rightarrow> if token_allows now role dev r then AuthOk (auth_identity_of db' user)
                       else AuthFail ''Authentication failed''))"
  by (simp add: authenticateToken_def Let_def auth_identity_of_def resolveGids_def
      getGroupEntries_def split: option.splits)

text \<open>The account actions do not touch the tokens.\<close>

lemma tokens_kept:
  "db_tokens (fst (bootstrap sha now rt db)) = db_tokens db"
  "db_tokens (fst (importPasswd raw db)) = db_tokens db"
  "db_tokens (fst (importShadow raw db)) = db_tokens db"
  "db_tokens (fst (importGroup raw db)) = db_tokens db"
proof -
  let ?I = "\<lambda>s. db_tokens s = db_tokens db"
  have user: "act_keeps ?I (act_try (addUser e))" for e
    by (rule keeps_try) (auto simp: addUser_def split: option.splits if_splits)
  have group: "act_keeps ?I (act_try (addGroup g))" for g
    by (rule keeps_try) (auto simp: addGroup_def split: option.splits if_splits)
  have shadow: "act_keeps ?I (act_modify (setShadow e))" for e
    by (rule keeps_modify) (simp add: setShadow_def)
  have "act_keeps ?I (bootstrap sha now rt)"
    unfolding bootstrap_def Let_def
    by (intro keeps_bind keeps_if user group shadow keeps_return keeps_get)
  moreover have "act_keeps ?I (importPasswd raw)" "act_keeps ?I (importShadow raw)"
    "act_keeps ?I (importGroup raw)"
    unfolding importPasswd_def importShadow_def importGroup_def
    by (intro keeps_bind keeps_each user group shadow keeps_modify; simp)+
  ultimately show "?I (fst (bootstrap sha now rt db))" "?I (fst (importPasswd raw db))"
    "?I (fst (importShadow raw db))" "?I (fst (importGroup raw db))"
    by (auto dest: keepsD)
qed

definition revoked_hash :: "string \<Rightarrow> token_row list \<Rightarrow> bool" where
  "revoked_hash h ts \<longleftrightarrow> list_ex (\<lambda>r. t_hash r = h \<and> t_revoked_at r \<noteq> None) ts"

lemma revoked_update:
  assumes "revoked_hash h ts" and "\<And>r. t_hash (f r) = t_hash r"
    and "\<And>r. t_revoked_at r \<noteq> None \<Longrightarrow> t_revoked_at (f r) \<noteq> None"
  shows "revoked_hash h (sql_update P f ts)"
proof -
  from assms(1) obtain r where r: "r \<in> set ts" "t_hash r = h" "t_revoked_at r \<noteq> None"
    by (auto simp: revoked_hash_def list_ex_iff)
  let ?r = "if P r then f r else r"
  have "?r \<in> set (sql_update P f ts)" using r(1) by (auto simp: in_update)
  moreover have "t_hash ?r = h \<and> t_revoked_at ?r \<noteq> None" using r assms(2,3) by auto
  ultimately show ?thesis unfolding revoked_hash_def list_ex_iff by blast
qed

lemma revoked_persists_step:
  "auth_step db db' \<Longrightarrow> revoked_hash h (db_tokens db) \<Longrightarrow> revoked_hash h (db_tokens db')"
proof (induction rule: auth_step.induct)
  case (step_authenticateToken db0 u sha now db t role dev)
  then show ?case
    by (auto simp: authenticateToken_def Let_def intro!: revoked_update split: option.splits)
next
  case (step_revokeToken db now tid reason uid)
  then show ?case by (auto simp: revokeToken_def Let_def intro!: revoked_update)
next
  case (step_issueToken sha now tid rnd db0 db inp db' it)
  then show ?case
    by (auto simp: issueToken_def Let_def revoked_hash_def split: option.splits if_splits)
next
  case (step_updateUser u p db db' ok)
  then show ?case by (auto simp: updateUser_def Let_def split: option.splits if_splits)
qed (auto simp: tokens_kept addUser_def removeUser_def setShadow_def setPassword_def addGroup_def
      updateGroupMembers_def removeGroup_def setPersonalAgent_def split: option.splits if_splits)

lemma revoked_persists:
  "auth_step\<^sup>*\<^sup>* db db' \<Longrightarrow> revoked_hash h (db_tokens db) \<Longrightarrow> revoked_hash h (db_tokens db')"
  by (induction rule: rtranclp_induct) (auto intro: revoked_persists_step)

lemma revoked_never_allowed:
  assumes "auth_inv db" and "revoked_hash (hashToken sha tok) (db_tokens db)"
  shows "snd (authenticateToken sha now db0 db u tok role dev) \<in> {AuthFail ''Unknown user'', AuthFail ''Authentication failed''}"
proof -
  obtain r where r: "r \<in> set (db_tokens db)" "t_hash r = hashToken sha tok" "t_revoked_at r \<noteq> None"
    using assms(2) by (auto simp: revoked_hash_def list_ex_iff)
  have "\<not> token_allows now role dev r'"
    if "find (\<lambda>r. t_uid r = uid \<and> t_hash r = hashToken sha tok) (db_tokens db) = Some r'" for uid r'
  proof -
    from that have "r' \<in> set (db_tokens db)" "t_hash r' = hashToken sha tok"
      using find_token [OF assms(1)] by auto
    with r assms(1) have "r' = r" by (auto simp: auth_inv_def dest: keyed_unique)
    with r(3) show ?thesis by (simp add: token_allows_iff)
  qed
  then show ?thesis
    by (auto simp: authenticateToken_snd split: option.splits)
qed

section \<open>Properties\<close>



text \<open>
  Allocated ids are fresh: \<open>nextUid\<close> is at least 1000 and \<open>nextGid\<close> at least 100, and neither is
  the uid of a user or the gid of a group, so the new account and its private group never collide:
  adding a user under an unused name, and then the group of the same name, throws nothing.
\<close>

theorem allocated_ids_are_fresh:
  "nextUid db \<ge> 1000 \<and> nextGid db \<ge> 100
   \<and> nextUid db \<notin> pw_uid ` set (db_passwd db) \<union> g_gid ` set (db_groups db)
   \<and> nextGid db \<notin> pw_uid ` set (db_passwd db) \<union> g_gid ` set (db_groups db)
   \<and> (getPasswdByUsername db name = None \<and> getGroupByName db name = None \<longrightarrow>
        (\<exists>db'. addUser \<lparr> pw_username = name, pw_uid = Some (nextUid db), pw_gid = Some (nextUid db),
                        pw_gecos = gecos, pw_home = home, pw_shell = shell \<rparr> db = Inr db'
             \<and> (\<exists>db''. addGroup \<lparr> gr_name = name, gr_gid = Some (nextUid db), gr_members = ms \<rparr> db'
                  = Inr db'')))"
proof -
  let ?A = "pw_uid ` set (db_passwd db) \<union> g_gid ` set (db_groups db)"
  have uid: "nextUid db \<notin> ?A"
  proof
    assume "nextUid db \<in> ?A"
    from maxAllocatedId_ge [OF this] show False by (auto simp: nextUid_def Let_def split: if_splits)
  qed
  have gid: "nextGid db \<notin> ?A"
  proof
    assume "nextGid db \<in> ?A"
    from maxAllocatedId_ge [OF this] show False by (auto simp: nextGid_def Let_def split: if_splits)
  qed
  have "nextUid db \<ge> 1000 \<and> nextGid db \<ge> 100"
    by (auto simp: nextUid_def nextGid_def Let_def)
  moreover have "\<exists>db'. addUser \<lparr> pw_username = name, pw_uid = Some (nextUid db), pw_gid = Some (nextUid db),
                        pw_gecos = gecos, pw_home = home, pw_shell = shell \<rparr> db = Inr db'
             \<and> (\<exists>db''. addGroup \<lparr> gr_name = name, gr_gid = Some (nextUid db), gr_members = ms \<rparr> db'
                  = Inr db'')"
    if "getPasswdByUsername db name = None" "getGroupByName db name = None"
  proof -
    have "\<forall>x \<in> set (db_passwd db). pw_uid x \<noteq> nextUid db"
      and "\<forall>x \<in> set (db_groups db). g_gid x \<noteq> nextUid db"
      using uid by force+
    with that have "\<not> list_ex (\<lambda>x. pw_username x = name \<or> pw_uid x = nextUid db) (db_passwd db)"
      and "\<not> list_ex (\<lambda>x. g_name x = name \<or> g_gid x = nextUid db) (db_groups db)"
      by (simp_all add: getPasswdByUsername_def getGroupByName_def lookup_None list_ex_iff)
    then show ?thesis by (simp add: addUser_def addGroup_def)
  qed
  ultimately show ?thesis using uid gid by blast
qed

theorem allocated_ids_are_fresh_witness:
  "\<exists>db'. addUser \<lparr> pw_username = ''sam'', pw_uid = Some (nextUid empty_auth),
      pw_gid = Some (nextUid empty_auth), pw_gecos = '''', pw_home = ''/home/sam'', pw_shell = '''' \<rparr>
      empty_auth = Inr db'"
  using allocated_ids_are_fresh [of empty_auth "''sam''" "''''" "''/home/sam''" "''''" "[]"]
  by (auto simp: empty_auth_def getPasswdByUsername_def getGroupByName_def)

text \<open>
  C19. A token authenticates exactly when it should: in a consistent store a call for a known user
  succeeds if and only if the user owns a token with that digest that is not revoked, has not
  expired at the time of the call, is not bound to another role, and is bound to the given device
  (for a driver, which must name one) or not bound to a different one; the identity is that user's.
\<close>

theorem token_authenticates_iff:
  assumes "auth_inv db'" and "getPasswdByUsername db u = Some user"
  shows "snd (authenticateToken sha now db db' u tok role dev) = AuthOk i \<longleftrightarrow>
    i = auth_identity_of db' user
    \<and> (\<exists>r \<in> set (db_tokens db'). t_uid r = pw_uid user \<and> t_hash r = hashToken sha tok
         \<and> t_revoked_at r = None
         \<and> (\<forall>e. t_expires_at r = Some e \<longrightarrow> now < e)
         \<and> (role = None \<or> t_allowed_role r = None \<or> t_allowed_role r = role)
         \<and> (if role = Some RDriver then truthy dev \<and> t_allowed_device_id r = dev
            else truthy dev \<and> truthy (t_allowed_device_id r) \<longrightarrow> t_allowed_device_id r = dev))"
    (is "_ \<longleftrightarrow> i = ?id \<and> (\<exists>r \<in> ?T. ?own r \<and> ?hash r \<and> ?ok r)")
proof -
  let ?find = "find (\<lambda>r. t_uid r = pw_uid user \<and> t_hash r = hashToken sha tok) (db_tokens db')"
  have "snd (authenticateToken sha now db db' u tok role dev) = AuthOk i \<longleftrightarrow>
      i = ?id \<and> (\<exists>r. ?find = Some r \<and> token_allows now role dev r)"
    using assms(2) by (auto simp: authenticateToken_snd split: option.splits)
  also have "\<dots> \<longleftrightarrow> i = ?id \<and> (\<exists>r \<in> ?T. ?own r \<and> ?hash r \<and> ?ok r)"
    unfolding find_token [OF assms(1)] token_allows_iff by (simp add: Bex_def conj_ac)
  finally show ?thesis .
qed

text \<open>
  Revocation is final: once \<open>revokeToken\<close> has reported success for a token, that token
  authenticates no one in any state reachable by any further operations, whatever the user name,
  the time, the role and the device.
\<close>

theorem revocation_is_final:
  assumes "auth_inv db" and "r \<in> set (db_tokens db)" and "t_hash r = hashToken sha tok"
    and "revokeToken now0 (t_id r) reason uid db = (db1, True)"
    and "auth_step\<^sup>*\<^sup>* db1 db2"
  shows "\<nexists>i. snd (authenticateToken sha now db0 db2 u tok role dev) = AuthOk i"
proof -
  let ?hit = "\<lambda>x. t_id x = t_id r \<and> (case uid of Some u \<Rightarrow> t_uid x = u | None \<Rightarrow> True)"
  from assms(4) have db1: "db1 = fst (revokeToken now0 (t_id r) reason uid db)"
    and ex: "list_ex ?hit (db_tokens db)"
    by (auto simp: revokeToken_def Let_def split: if_splits)
  then obtain x where x: "x \<in> set (db_tokens db)" "?hit x" by (auto simp: list_ex_iff)
  with assms(1,2) have "x = r" by (auto simp: auth_inv_def dest: keyed_unique)
  with x(2) have hit: "?hit r" by blast
  let ?f = "\<lambda>r. r\<lparr> t_revoked_at := Some now0, t_revoked_reason := reason \<rparr>"
  have toks: "db_tokens db1 = sql_update ?hit ?f (db_tokens db)"
    using ex by (simp add: db1 revokeToken_def Let_def)
  have "?f r \<in> set (db_tokens db1)"
    using hit assms(2) unfolding toks in_update by (intro bexI [of _ r]) simp_all
  then have "revoked_hash (hashToken sha tok) (db_tokens db1)"
    using assms(3) unfolding revoked_hash_def list_ex_iff by (intro bexI [of _ "?f r"]) simp_all
  with assms(5) have "revoked_hash (hashToken sha tok) (db_tokens db2)"
    by (rule revoked_persists)
  moreover have "auth_inv db2"
    using assms(1,5) step_revokeToken auth_step_inv auth_steps_inv unfolding db1 by blast
  ultimately show ?thesis
    using revoked_never_allowed [of db2 sha tok now db0 u role dev] by auto
qed

text \<open>A store with one user and one token, for the concrete instances.\<close>

definition demo_user :: "int passwd_entry" where
  "demo_user = \<lparr> pw_username = ''sam'', pw_uid = 1000, pw_gid = 1000, pw_gecos = '''',
     pw_home = ''/home/sam'', pw_shell = ''/bin/init'' \<rparr>"

definition demo_token :: token_row where
  "demo_token = \<lparr> t_id = ''t1'', t_uid = 1000, t_kind = KUser, t_label = None,
     t_hash = hashToken (\<lambda>_. [1]) ''tok'', t_prefix = ''gsv_user'', t_allowed_role = Some RUser,
     t_allowed_device_id = None, t_created_at = 0, t_last_used_at = None, t_expires_at = Some 50,
     t_revoked_at = None, t_revoked_reason = None \<rparr>"

definition demo_auth :: auth_db where
  "demo_auth = \<lparr> db_passwd = [demo_user], db_shadow = [], db_groups = [], db_tokens = [demo_token],
     db_agents = [] \<rparr>"

lemma demo_inv: "auth_inv demo_auth"
  by (simp add: auth_inv_def demo_auth_def keyed_def)

lemma demo_passwd: "getPasswdByUsername demo_auth ''sam'' = Some demo_user"
  by (simp add: getPasswdByUsername_def demo_auth_def demo_user_def sql_lookup_def)

theorem token_authenticates_iff_witness:
  "snd (authenticateToken (\<lambda>_. [1]) 49 demo_auth demo_auth ''sam'' ''tok'' (Some RUser) None)
     = AuthOk (auth_identity_of demo_auth demo_user)
   \<and> snd (authenticateToken (\<lambda>_. [1]) 50 demo_auth demo_auth ''sam'' ''tok'' (Some RUser) None)
     \<noteq> AuthOk (auth_identity_of demo_auth demo_user)"
  using token_authenticates_iff [OF demo_inv demo_passwd, of "\<lambda>_. [1]"]
  by (simp add: demo_auth_def demo_token_def demo_user_def truthy_def)

theorem revocation_is_final_witness:
  "\<nexists>i. snd (authenticateToken (\<lambda>_. [1]) 10 demo_auth
       (fst (revokeToken 5 ''t1'' None None demo_auth)) ''sam'' ''tok'' (Some RUser) None) = AuthOk i"
proof (rule revocation_is_final)
  show "auth_inv demo_auth" by (rule demo_inv)
  show "demo_token \<in> set (db_tokens demo_auth)" by (simp add: demo_auth_def)
  show "t_hash demo_token = hashToken (\<lambda>_. [1]) ''tok''" by (simp add: demo_token_def)
  show "revokeToken 5 (t_id demo_token) None None demo_auth
      = (fst (revokeToken 5 ''t1'' None None demo_auth), True)"
    by (simp add: revokeToken_def demo_auth_def demo_token_def)
qed simp

text \<open>
  Issue, then authenticate: a token \<open>issueToken\<close> returns is accepted for its owner with the role
  it was issued for and the device it is bound to until it expires, in the state it was issued in.
\<close>

theorem issued_token_authenticates:
  assumes "auth_inv db" and "issueToken sha now tid rnd db0 db inp = Inr (db', it)"
    and "getPasswdByUsername db' u = Some user" and "pw_uid user = ti_uid inp"
    and "\<And>e. ti_expires_at inp = Some e \<Longrightarrow> later < e"
  shows "snd (authenticateToken sha later db' db' u (it_token it) (Some (it_allowed_role it))
           (ti_allowed_device_id inp))
       = AuthOk (auth_identity_of db' user)"
proof -
  have inv: "auth_inv db'"
    using auth_step_inv [OF step_issueToken [OF assms(2)] assms(1)] .
  let ?role = "it_allowed_role it"
  from assms(2) have "\<exists>r \<in> set (db_tokens db'). t_uid r = ti_uid inp \<and> t_hash r = hashToken sha (it_token it)
      \<and> t_revoked_at r = None \<and> t_expires_at r = ti_expires_at inp
      \<and> t_allowed_role r = Some ?role \<and> t_allowed_device_id r = ti_allowed_device_id inp
      \<and> (?role = RDriver \<longrightarrow> truthy (ti_allowed_device_id inp))"
    by (auto simp: issueToken_def Let_def split: option.splits if_splits)
  then obtain r where "r \<in> set (db_tokens db')" "t_uid r = pw_uid user"
    "t_hash r = hashToken sha (it_token it)" "t_revoked_at r = None" "t_expires_at r = ti_expires_at inp"
    "t_allowed_role r = Some ?role" "t_allowed_device_id r = ti_allowed_device_id inp"
    "?role = RDriver \<longrightarrow> truthy (ti_allowed_device_id inp)"
    using assms(4) by auto
  moreover have "find (\<lambda>x. t_uid x = pw_uid user \<and> t_hash x = hashToken sha (it_token it)) (db_tokens db')
      = Some r"
    using calculation find_token [OF inv] by blast
  ultimately show ?thesis
    using assms(3,5) by (simp add: authenticateToken_snd token_allows_iff)
qed

theorem issued_token_authenticates_witness:
  "\<exists>db' it. issueToken (\<lambda>t. map (\<lambda>c. of_nat (of_char c)) t) 1 ''t2'' [1, 2, 3] demo_auth demo_auth
      \<lparr> ti_uid = 1000, ti_kind = KNode, ti_label = None, ti_allowed_role = None,
        ti_allowed_device_id = Some ''mac'', ti_expires_at = Some 9 \<rparr> = Inr (db', it)
    \<and> snd (authenticateToken (\<lambda>t. map (\<lambda>c. of_nat (of_char c)) t) 8 db' db' ''sam'' (it_token it)
        (Some RDriver) (Some ''mac'')) = AuthOk (auth_identity_of db' demo_user)"
proof -
  let ?sha = "\<lambda>t. map (\<lambda>c. of_nat (of_char c)) t :: bytes"
  let ?inp = "\<lparr> ti_uid = 1000, ti_kind = KNode, ti_label = None, ti_allowed_role = None,
        ti_allowed_device_id = Some ''mac'', ti_expires_at = Some 9 \<rparr>"
  have user: "getPasswdByUid demo_auth 1000 = Some demo_user"
    by (simp add: getPasswdByUid_def demo_auth_def demo_user_def sql_lookup_def)
  have fresh: "\<not> list_ex (\<lambda>r. t_id r = ''t2''
      \<or> t_hash r = hashToken ?sha (generateTokenValue KNode [1, 2, 3])) (db_tokens demo_auth)"
    by (simp add: demo_auth_def demo_token_def hashToken_def toHex_def generateTokenValue_def)
  obtain db' it where issued: "issueToken ?sha 1 ''t2'' [1, 2, 3] demo_auth demo_auth ?inp = Inr (db', it)"
    and it: "it_allowed_role it = RDriver" and db': "db_passwd db' = db_passwd demo_auth"
    using user fresh by (simp add: issueToken_def Let_def truthy_def)
  have "getPasswdByUsername db' ''sam'' = Some demo_user"
    using demo_passwd db' by (simp add: getPasswdByUsername_def)
  from issued_token_authenticates [OF demo_inv issued this, of 8] issued it
  show ?thesis by (fastforce simp: demo_user_def)
qed

text \<open>
  An import is not atomic: a passwd file whose second line reuses a user name makes
  \<open>importPasswd\<close> throw after the old table is deleted and the first line inserted, so every previous
  account is gone.
\<close>

theorem import_passwd_is_not_atomic:
  "importPasswd (''a:x:1:1::/:'' @ [nl] @ ''a:x:2:2::/:'' @ [nl]) demo_auth
   = (demo_auth\<lparr> db_passwd := [\<lparr> pw_username = ''a'', pw_uid = 1, pw_gid = 1, pw_gecos = '''',
        pw_home = ''/'', pw_shell = '''' \<rparr>] \<rparr>,
      throw ''UNIQUE constraint failed'')"
  by code_simp

end
