(* ===== verification/Capabilities.thy ===== *)
theory Capabilities
  imports Tables
begin

text \<open>
  Group capabilities, \<open>gateway/src/kernel/capabilities.ts\<close>: the store \<open>CapabilityStore\<close> over the
  table \<open>group_capabilities\<close> (primary key gid and capability), the capability format
  \<open>isValidCapability\<close> and the matcher \<open>hasCapability\<close> that guards every system call.

  The locale \<open>capability_policy\<close> is what the dispatcher, the device registry, the targets and the
  scheduler rely on: a matcher that is monotone in the granted capabilities and denies by default.
\<close>

section \<open>Capability format\<close>

text \<open>One segment \<open>[a-z][a-z0-9]*\<close> of \<open>CAPABILITY_PATTERN\<close>.\<close>

definition cap_segment :: "string \<Rightarrow> bool" where
  "cap_segment s \<longleftrightarrow> (case s of [] \<Rightarrow> False
     | c # cs \<Rightarrow> is_lower_az c \<and> list_all (\<lambda>x. is_lower_az x \<or> is_digit x) cs)"

text \<open>\<open>CAPABILITY_PATTERN\<close>: the star alone, or at least two segments separated by dots of which
  the last may be a star. No segment contains a dot, so the pattern is decided on the split.\<close>

definition isValidCapability :: "string \<Rightarrow> bool" where
  "isValidCapability cap \<longleftrightarrow> cap = ''*'' \<or>
     (let ps = js_split (CHR ''.'') cap
      in 2 \<le> length ps \<and> list_all cap_segment (butlast ps)
         \<and> (cap_segment (last ps) \<or> last ps = ''*''))"

text \<open>\<open>hasCapability\<close>: the loop over the granted capabilities with its three early returns.\<close>

fun hasCapability :: "string list \<Rightarrow> string \<Rightarrow> bool" where
  "hasCapability [] syscall = False"
| "hasCapability (cap # caps) syscall =
     (if cap = ''*'' then True
      else if suffix ''.*'' cap \<and> prefix (butlast cap) syscall then True
      else if cap = syscall then True
      else hasCapability caps syscall)"

section \<open>The store\<close>

record cap_row =
  cap_gid :: int
  cap_name :: string

type_synonym cap_table = "cap_row list"

definition cap_key :: "cap_row \<Rightarrow> int \<times> string" where
  "cap_key r = (cap_gid r, cap_name r)"

definition DEFAULT_CAPABILITIES :: "(int \<times> string list) list" where
  "DEFAULT_CAPABILITIES =
    [(0, [''*'']),
     (100, [
       ''codemode.*'', ''fs.*'', ''shell.*'', ''net.fetch'', ''proc.*'', ''signal.*'',
       ''repo.apply'', ''repo.compare'', ''repo.create'', ''repo.delete'', ''repo.diff'',
       ''repo.import'', ''repo.list'', ''repo.log'', ''repo.read'', ''repo.refs'',
       ''repo.search'', ''repo.visibility.set'', ''sched.*'', ''ai.text.generate'',
       ''ai.image.generate'', ''ai.image.read'', ''ai.transcription.create'',
       ''ai.speech.create'', ''adapter.connect'', ''adapter.disconnect'', ''adapter.list'',
       ''adapter.send'', ''adapter.status'', ''sys.config.get'', ''sys.config.set'',
       ''sys.bootstrap'', ''sys.device.get'', ''sys.device.list'', ''sys.device.update'',
       ''sys.device.delete'', ''sys.oauth.device.poll'', ''sys.oauth.device.start'',
       ''sys.oauth.forget'', ''sys.oauth.list'', ''sys.oauth.start'', ''sys.mcp.add'',
       ''sys.mcp.call'', ''sys.mcp.list'', ''sys.mcp.refresh'', ''sys.mcp.remove'',
       ''sys.link'', ''sys.link.list'', ''sys.token.create'', ''sys.token.list'',
       ''sys.token.revoke'', ''sys.unlink'', ''sys.link.consume'', ''account.create'',
       ''account.list'']),
     (101, [''fs.*'', ''shell.*'']),
     (102, [''adapter.*''])]"

definition cap_add :: "int \<Rightarrow> string \<Rightarrow> cap_table \<Rightarrow> cap_table" where
  "cap_add gid cap t = sql_ignore cap_key \<lparr>cap_gid = gid, cap_name = cap\<rparr> t"

definition seed_caps :: "cap_table \<Rightarrow> cap_table" where
  "seed_caps t = fold (\<lambda>(gid, caps). fold (cap_add gid) caps) DEFAULT_CAPABILITIES t"

definition resolve_caps :: "int list \<Rightarrow> cap_table \<Rightarrow> string list" where
  "resolve_caps gids t =
     (if gids = [] then []
      else remdups (map cap_name (filter (\<lambda>r. cap_gid r \<in> set gids) t)))"

definition grant_cap :: "int \<Rightarrow> string \<Rightarrow> cap_table \<Rightarrow> cap_table \<times> unit result" where
  "grant_cap gid cap t =
     (if \<not> isValidCapability cap then (t, throw (''Invalid capability format: '' @ cap))
      else (cap_add gid cap t, Inr ()))"

definition revoke_cap :: "int \<Rightarrow> string \<Rightarrow> cap_table \<Rightarrow> cap_table \<times> unit result" where
  "revoke_cap gid cap t =
     (sql_delete (\<lambda>r. cap_gid r = gid \<and> cap_name r = cap) t, Inr ())"

definition list_caps :: "int option \<Rightarrow> cap_table \<Rightarrow> cap_row list" where
  "list_caps gid t =
     (case gid of
        Some g \<Rightarrow> sort_key cap_name (filter (\<lambda>r. cap_gid r = g) t)
      | None \<Rightarrow> sort_key cap_gid (sort_key cap_name t))"

section \<open>What a client may rely on\<close>

locale capability_policy =
  fixes allows :: "string list \<Rightarrow> string \<Rightarrow> bool"
  assumes deny_default: "\<not> allows [] sc"
    and allows_append: "allows (xs @ ys) sc \<longleftrightarrow> allows xs sc \<or> allows ys sc"
    and allows_set: "set xs = set ys \<Longrightarrow> allows xs sc = allows ys sc"
    and allows_star: "allows [''*''] sc"
    and allows_self: "allows [sc] sc"
begin

lemma allows_mono: "set xs \<subseteq> set ys \<Longrightarrow> allows xs sc \<Longrightarrow> allows ys sc"
  using allows_append [of xs ys sc] allows_set [of "xs @ ys" ys sc]
  by (metis set_append sup.absorb2)

lemma allows_member: "sc \<in> set caps \<Longrightarrow> allows caps sc"
  by (rule allows_mono [of "[sc]"]) (simp_all add: allows_self)

lemma allows_witness: "allows caps sc \<Longrightarrow> \<exists>c \<in> set caps. allows [c] sc"
proof (induction caps)
  case Nil
  then show ?case by (simp add: deny_default)
next
  case (Cons c cs)
  then show ?case using allows_append [of "[c]" cs sc] by auto
qed

lemma allows_iff: "allows caps sc \<longleftrightarrow> (\<exists>c \<in> set caps. allows [c] sc)"
  using allows_witness [of caps sc] allows_mono [of "[_]" caps sc] by auto

lemma superuser: "''*'' \<in> set caps \<Longrightarrow> allows caps sc"
  by (rule allows_mono [of "[''*'']"]) (simp_all add: allows_star)

end

definition cap_matches :: "string \<Rightarrow> string \<Rightarrow> bool" where
  "cap_matches c sc \<longleftrightarrow> c = ''*'' \<or> c = sc \<or> (suffix ''.*'' c \<and> prefix (butlast c) sc)"

lemma hasCapability_iff: "hasCapability caps sc \<longleftrightarrow> (\<exists>c \<in> set caps. cap_matches c sc)"
  by (induction caps) (auto simp: cap_matches_def)

interpretation cap_policy: capability_policy hasCapability
  by unfold_locales (auto simp: hasCapability_iff cap_matches_def)

section \<open>Lemmas\<close>

lemma cap_segment_no_dot: "cap_segment s \<Longrightarrow> CHR ''.'' \<notin> set s"
  by (auto simp: cap_segment_def list_all_iff is_lower_az_def is_digit_def split: list.splits)

lemma cap_segment_no_star: "cap_segment s \<Longrightarrow> CHR ''*'' \<notin> set s"
  by (auto simp: cap_segment_def list_all_iff is_lower_az_def is_digit_def split: list.splits)

lemma js_join_snoc:
  "xs \<noteq> [] \<Longrightarrow> js_join sep (xs @ [y]) = js_join sep xs @ sep @ y"
  by (induction sep xs rule: js_join.induct) auto

lemma js_split_prefix_iff:
  assumes "xs \<noteq> []" and "\<And>x. x \<in> set xs \<Longrightarrow> d \<notin> set x"
  shows "prefix (js_join [d] xs @ [d]) s \<longleftrightarrow> (\<exists>rest. rest \<noteq> [] \<and> js_split d s = xs @ rest)"
  using assms
proof (induction "[d]" xs arbitrary: s rule: js_join.induct)
  case 1
  then show ?case by simp
next
  case (2 x)
  show ?case
  proof
    assume "prefix (js_join [d] [x] @ [d]) s"
    then obtain r where "s = x @ d # r" by (auto simp: prefix_def)
    with 2 show "\<exists>rest. rest \<noteq> [] \<and> js_split d s = [x] @ rest"
      by (simp add: js_split_append)
  next
    assume "\<exists>rest. rest \<noteq> [] \<and> js_split d s = [x] @ rest"
    then obtain y ys where "js_split d s = x # y # ys" by (auto simp: neq_Nil_conv)
    then have "s = x @ [d] @ js_join [d] (y # ys)"
      using js_join_js_split [of d s] by simp
    then show "prefix (js_join [d] [x] @ [d]) s" by (simp add: prefix_def)
  qed
next
  case (3 x y ys)
  show ?case
  proof
    assume "prefix (js_join [d] (x # y # ys) @ [d]) s"
    then obtain s' where s: "s = x @ d # s'" and pre: "prefix (js_join [d] (y # ys) @ [d]) s'"
      by (auto simp: prefix_def)
    from 3 pre obtain rest where "rest \<noteq> []" "js_split d s' = (y # ys) @ rest" by auto
    with s 3 show "\<exists>rest. rest \<noteq> [] \<and> js_split d s = (x # y # ys) @ rest"
      by (auto simp: js_split_append)
  next
    assume "\<exists>rest. rest \<noteq> [] \<and> js_split d s = (x # y # ys) @ rest"
    then obtain rest where r: "rest \<noteq> []" "js_split d s = x # y # ys @ rest" by auto
    let ?s' = "js_join [d] (y # ys @ rest)"
    have s: "s = x @ [d] @ ?s'" using js_join_js_split [of d s] r by simp
    have "d \<notin> set p" if "p \<in> set (y # ys @ rest)" for p
      using js_split_parts_no_sep [of p d s] r that by auto
    then have "js_split d ?s' = y # ys @ rest" by (intro js_split_js_join) auto
    with 3 r have "prefix (js_join [d] (y # ys) @ [d]) ?s'" by auto
    with s show "prefix (js_join [d] (x # y # ys) @ [d]) s" by (auto simp: prefix_def)
  qed
qed

lemma suffix_dot_star: "suffix ''.*'' c \<longleftrightarrow> (\<exists>d. c = d @ ''.*'')"
  by (auto simp: suffix_def)

lemma js_split_wildcard_last: "suffix ''.*'' c \<Longrightarrow> last (js_split (CHR ''.'') c) = ''*''"
proof -
  assume "suffix ''.*'' c"
  then obtain d where "c = d @ ''.*''" by (auto simp: suffix_dot_star)
  then show ?thesis by (simp add: js_split_at)
qed

lemma valid_wildcard_domain:
  assumes "isValidCapability c" and "last (js_split (CHR ''.'') c) = ''*''" and "c \<noteq> ''*''"
  obtains dom where "js_split (CHR ''.'') c = dom @ [''*'']" and "dom \<noteq> []"
    and "list_all cap_segment dom"
proof
  let ?ps = "js_split (CHR ''.'') c"
  from assms have "2 \<le> length ?ps" and seg: "list_all cap_segment (butlast ?ps)"
    by (auto simp: isValidCapability_def Let_def)
  then show "js_split (CHR ''.'') c = butlast ?ps @ [''*'']"
    using assms(2) append_butlast_last_id [of ?ps] by simp
  show "butlast ?ps \<noteq> []" using \<open>2 \<le> length ?ps\<close>
    by (metis One_nat_def Suc_1 Suc_le_lessD diff_is_0_eq length_butlast length_greater_0_conv
        less_numeral_extra(3) list.size(3) not_less_eq zero_less_diff)
  show "list_all cap_segment (butlast ?ps)" by (rule seg)
qed

lemma cap_row_eta [simp]: "\<lparr>cap_gid = cap_gid r, cap_name = cap_name r\<rparr> = r"
  by (cases r) simp

lemma cap_add_in: "r \<in> set (cap_add g c t) \<longleftrightarrow> r \<in> set t \<or> r = \<lparr>cap_gid = g, cap_name = c\<rparr>"
  by (cases r) (auto simp: cap_add_def sql_ignore_def cap_key_def list_ex_iff)

lemma keyed_cap_add [simp]: "keyed cap_key t \<Longrightarrow> keyed cap_key (cap_add g c t)"
  by (simp add: cap_add_def)

lemma fold_cap_add_in:
  "r \<in> set (fold (cap_add g) cs t) \<longleftrightarrow> r \<in> set t \<or> (cap_gid r = g \<and> cap_name r \<in> set cs)"
  by (induction cs arbitrary: t; cases r) (auto simp: cap_add_in)

lemma keyed_fold_cap_add: "keyed cap_key t \<Longrightarrow> keyed cap_key (fold (cap_add g) cs t)"
  by (induction cs arbitrary: t) auto

lemma seed_fold_in:
  "r \<in> set (fold (\<lambda>(gid, caps). fold (cap_add gid) caps) ds t) \<longleftrightarrow>
     r \<in> set t \<or> (\<exists>(g, cs) \<in> set ds. cap_gid r = g \<and> cap_name r \<in> set cs)"
  by (induction ds arbitrary: t) (auto simp: fold_cap_add_in)

lemma seed_caps_in:
  "r \<in> set (seed_caps t) \<longleftrightarrow>
     r \<in> set t \<or> (\<exists>(g, cs) \<in> set DEFAULT_CAPABILITIES. cap_gid r = g \<and> cap_name r \<in> set cs)"
  by (simp add: seed_caps_def seed_fold_in)

lemma keyed_seed_fold:
  "keyed cap_key t \<Longrightarrow> keyed cap_key (fold (\<lambda>(gid, caps). fold (cap_add gid) caps) ds t)"
  by (induction ds arbitrary: t) (auto simp: keyed_fold_cap_add)

lemma resolve_caps_set:
  "set (resolve_caps gids t) = {c. \<exists>r \<in> set t. cap_gid r \<in> set gids \<and> cap_name r = c}"
  by (auto simp: resolve_caps_def)

text \<open>Every capability the code ships is well formed, evaluated by the simplifier.\<close>

lemma default_caps_valid:
  "list_all (\<lambda>(g, cs). list_all isValidCapability cs) DEFAULT_CAPABILITIES"
  by code_simp

text \<open>The table invariant: the primary key holds and every stored capability is well formed.\<close>

definition cap_table_ok :: "cap_table \<Rightarrow> bool" where
  "cap_table_ok t \<longleftrightarrow> keyed cap_key t \<and> (\<forall>r \<in> set t. isValidCapability (cap_name r))"

datatype cap_op = SeedCaps | GrantCap int string | RevokeCap int string

fun cap_step :: "cap_op \<Rightarrow> cap_table \<Rightarrow> cap_table" where
  "cap_step SeedCaps t = seed_caps t"
| "cap_step (GrantCap g c) t = fst (grant_cap g c t)"
| "cap_step (RevokeCap g c) t = fst (revoke_cap g c t)"

text \<open>The abstract authority: the set of granted pairs.\<close>

fun abs_cap_step :: "cap_op \<Rightarrow> (int \<times> string) set \<Rightarrow> (int \<times> string) set" where
  "abs_cap_step SeedCaps A = A \<union> {(g, c). \<exists>(h, cs) \<in> set DEFAULT_CAPABILITIES. g = h \<and> c \<in> set cs}"
| "abs_cap_step (GrantCap g c) A = (if isValidCapability c then insert (g, c) A else A)"
| "abs_cap_step (RevokeCap g c) A = A - {(g, c)}"

definition cap_abs :: "cap_table \<Rightarrow> (int \<times> string) set" where
  "cap_abs t = cap_key ` set t"

lemma cap_step_ok: "cap_table_ok t \<Longrightarrow> cap_table_ok (cap_step oper t)"
proof (cases oper)
  case SeedCaps
  assume ok: "cap_table_ok t"
  have "isValidCapability (cap_name r)" if "r \<in> set (seed_caps t)" for r
    using that ok default_caps_valid
    by (fastforce simp: seed_caps_in cap_table_ok_def list_all_iff)
  with ok SeedCaps show ?thesis
    by (auto simp: cap_table_ok_def seed_caps_def keyed_seed_fold)
qed (auto simp: cap_table_ok_def grant_cap_def revoke_cap_def cap_add_in)

lemma cap_run_ok: "cap_table_ok t \<Longrightarrow> cap_table_ok (fold cap_step ops t)"
  by (induction ops arbitrary: t) (simp_all add: cap_step_ok)

lemma in_cap_abs: "(g, c) \<in> cap_abs t \<longleftrightarrow> \<lparr>cap_gid = g, cap_name = c\<rparr> \<in> set t"
  by (auto simp: cap_abs_def cap_key_def image_iff intro: bexI [rotated])

lemma cap_step_abs: "cap_abs (cap_step oper t) = abs_cap_step oper (cap_abs t)"
  proof (cases oper)
  case SeedCaps
  show ?thesis
  proof (rule set_eqI, clarify)
    fix g c
    show "(g, c) \<in> cap_abs (cap_step oper t) \<longleftrightarrow> (g, c) \<in> abs_cap_step oper (cap_abs t)"
      by (simp add: SeedCaps in_cap_abs seed_caps_in)
  qed
qed (auto simp: in_cap_abs grant_cap_def revoke_cap_def cap_add_in)

lemma cap_run_abs: "cap_abs (fold cap_step ops t) = fold abs_cap_step ops (cap_abs t)"
  by (induction ops arbitrary: t) (simp_all add: cap_step_abs)

lemma hasCapability_resolve:
  "hasCapability (resolve_caps gids t) sc \<longleftrightarrow>
     (\<exists>(g, c) \<in> cap_abs t. g \<in> set gids \<and> cap_matches c sc)"
  by (fastforce simp: hasCapability_iff resolve_caps_set cap_abs_def cap_key_def)

lemma matches_by_segments:
  assumes "isValidCapability c"
  shows "cap_matches c sc \<longleftrightarrow> c = ''*'' \<or> c = sc \<or>
     (\<exists>dom rest. js_split (CHR ''.'') c = dom @ [''*''] \<and> rest \<noteq> []
        \<and> js_split (CHR ''.'') sc = dom @ rest)"
proof (cases "c \<noteq> ''*'' \<and> last (js_split (CHR ''.'') c) = ''*''")
  case True
  then obtain dom where dom: "js_split (CHR ''.'') c = dom @ [''*'']" "dom \<noteq> []"
      and seg: "list_all cap_segment dom"
    using valid_wildcard_domain [OF assms] by blast
  have c: "c = js_join ''.'' dom @ ''.*''"
    using js_join_js_split [of "CHR ''.''" c] dom by (simp add: js_join_snoc)
  have nodot: "CHR ''.'' \<notin> set x" if "x \<in> set dom" for x
    using seg that by (auto simp: list_all_iff cap_segment_no_dot)
  have "cap_matches c sc \<longleftrightarrow> c = sc \<or> prefix (js_join ''.'' dom @ ''.'') sc"
    using c True by (auto simp: cap_matches_def suffix_dot_star butlast_append)
  also have "prefix (js_join ''.'' dom @ ''.'') sc \<longleftrightarrow>
      (\<exists>rest. rest \<noteq> [] \<and> js_split (CHR ''.'') sc = dom @ rest)"
    by (rule js_split_prefix_iff [OF dom(2) nodot])
  finally show ?thesis using True dom(1) by auto
next
  case False
  then have "\<not> suffix ''.*'' c" if "c \<noteq> ''*''"
    using that js_split_wildcard_last [of c] by auto
  with False show ?thesis by (auto simp: cap_matches_def)
qed

section \<open>Properties\<close>

text \<open>C16. \<open>hasCapability\<close> decides access by whole dot-separated segments: with well-formed grants
  a call is allowed exactly when a grant is the star, is the call itself, or is a wildcard
  \<open>dom.*\<close> whose segments \<open>dom\<close> are a proper prefix of the call's segments. So \<open>fs.*\<close> never covers
  \<open>fsx.read\<close> or \<open>fs\<close>, and nested calls are covered.\<close>

theorem hasCapability_by_segments:
  assumes "list_all isValidCapability caps"
  shows "hasCapability caps sc \<longleftrightarrow>
    ''*'' \<in> set caps \<or> sc \<in> set caps \<or>
    (\<exists>c dom rest. c \<in> set caps \<and> js_split (CHR ''.'') c = dom @ [''*''] \<and> c \<noteq> ''*'' \<and> rest \<noteq> []
        \<and> js_split (CHR ''.'') sc = dom @ rest)"
proof -
  have "cap_matches c sc \<longleftrightarrow> c = ''*'' \<or> c = sc \<or>
     (c \<noteq> ''*'' \<and> (\<exists>dom rest. js_split (CHR ''.'') c = dom @ [''*''] \<and> rest \<noteq> []
        \<and> js_split (CHR ''.'') sc = dom @ rest))" if "c \<in> set caps" for c
    using assms that matches_by_segments [of c sc] by (auto simp: list_all_iff)
  then show ?thesis unfolding hasCapability_iff by blast
qed

theorem hasCapability_by_segments_witness:
  "\<not> hasCapability [''fs.*'', ''proc.list''] ''fsx.read''
   \<and> hasCapability [''fs.*'', ''proc.list''] ''fs.transfer.send''"
proof -
  have ok: "list_all isValidCapability [''fs.*'', ''proc.list'']" by code_simp
  have splits: "js_split (CHR ''.'') ''fs.*'' = [''fs'', ''*'']"
      "js_split (CHR ''.'') ''fsx.read'' = [''fsx'', ''read'']"
      "js_split (CHR ''.'') ''proc.list'' = [''proc'', ''list'']"
      "js_split (CHR ''.'') ''fs.transfer.send'' = [''fs'', ''transfer'', ''send'']"
    by code_simp+
  show ?thesis
    unfolding hasCapability_by_segments [OF ok]
    by (auto simp: splits Cons_eq_append_conv)
qed

text \<open>C17. The capability store implements a set of (group, capability) grants: starting from the
  empty table, any sequence of \<open>seed\<close>, \<open>grant\<close> and \<open>revoke\<close> keeps the primary key and the format
  of every stored capability, acts on the grants as the set operations do (an invalid grant is a
  no-op, a seed never removes), and a group member is authorised for exactly the calls a grant of
  one of his groups matches.\<close>

theorem capability_store_refines_grants:
  "cap_table_ok (fold cap_step ops [])
   \<and> cap_abs (fold cap_step ops []) = fold abs_cap_step ops {}
   \<and> (hasCapability (resolve_caps gids (fold cap_step ops [])) sc \<longleftrightarrow>
        (\<exists>(g, c) \<in> fold abs_cap_step ops {}. g \<in> set gids \<and> cap_matches c sc))"
proof -
  have abs: "cap_abs (fold cap_step ops []) = fold abs_cap_step ops {}"
    using cap_run_abs [of ops "[]"] by (simp add: cap_abs_def)
  have ok: "cap_table_ok (fold cap_step ops [])"
    by (rule cap_run_ok) (simp add: cap_table_ok_def)
  show ?thesis using abs ok by (simp only: hasCapability_resolve)
qed

end
