(* ===== verification/Accounts.thy ===== *)
theory Accounts
  imports AuthStore Capabilities
begin

text \<open>
  Account provisioning (\<open>kernel/accounts.ts\<close>) and the authorization rules of
  \<open>kernel/account-access.ts\<close> over the account and capability tables. \<open>createAccount\<close> is split at its
  \<open>await\<close>: \<open>createAccount_prepare\<close> is what runs before the password hash is computed,
  \<open>createAccount_commit\<close> what runs on the state found after it. Seeding the home directory in the
  object store, which follows the last write to the tables, is not modelled.
\<close>

record proc_identity =
  pi_uid :: int
  pi_gid :: int
  pi_gids :: "int list"
  pi_username :: string
  pi_home :: string
  pi_cwd :: string

record account_state =
  ac_auth :: auth_db
  ac_caps :: cap_table

datatype account_kind = AHuman | AAgent

section \<open>Names\<close>

definition ACCOUNT_USERNAME_RE :: "string \<Rightarrow> bool" where
  "ACCOUNT_USERNAME_RE s \<longleftrightarrow>
     (case s of [] \<Rightarrow> False
      | c # cs \<Rightarrow> (is_lower_az c \<or> c = CHR ''_'') \<and> length cs \<le> 31
          \<and> list_all (\<lambda>x. is_lower_az x \<or> is_digit x \<or> x = CHR ''_'' \<or> x = CHR ''-'') cs)"

definition MIN_PASSWORD_LENGTH :: nat where
  "MIN_PASSWORD_LENGTH = 8"

definition isUsernameAvailable :: "auth_db \<Rightarrow> string \<Rightarrow> bool" where
  "isUsernameAvailable db name \<longleftrightarrow>
     getPasswdByUsername db name = None \<and> getGroupByName db name = None"

definition normalizeAccountName :: "auth_db \<Rightarrow> json \<Rightarrow> string option" where
  "normalizeAccountName db v =
     (case v of
        JStr s \<Rightarrow>
          (let name = js_lower (js_trim s) in
           if \<not> ACCOUNT_USERNAME_RE name then None
           else if \<not> isUsernameAvailable db name then None
           else Some name)
      | _ \<Rightarrow> None)"

definition accountIdentity :: "auth_db \<Rightarrow> int passwd_entry \<Rightarrow> proc_identity" where
  "accountIdentity db e =
     \<lparr> pi_uid = pw_uid e, pi_gid = pw_gid e, pi_gids = resolveGids db (pw_username e) (pw_gid e),
       pi_username = pw_username e, pi_home = pw_home e, pi_cwd = pw_home e \<rparr>"

section \<open>Creating an account\<close>

record create_account_input =
  ca_kind :: account_kind
  ca_username :: string
  ca_gecos :: "string option"
  ca_password :: "string option"
  ca_ownerUid :: "int option"
  ca_shared :: "bool option"
  ca_crossMemberOwner :: "bool option"
  ca_personalAgentOf :: "int option"
  ca_capabilities :: "string list option"
  ca_accessGroupName :: "string option"

record create_account_plan =
  cp_owner :: "string option"
  cp_cross :: bool
  cp_hash :: string

definition createAccount_prepare ::
  "kdf \<Rightarrow> bytes \<Rightarrow> auth_db \<Rightarrow> create_account_input \<Rightarrow> create_account_plan result" where
  "createAccount_prepare kdf salt db inp =
     (let username = ca_username inp in
      if \<not> ACCOUNT_USERNAME_RE username
      then throw ''username must match ^[a-z_][a-z0-9_-]{0,31}$''
      else if getPasswdByUsername db username \<noteq> None
      then throw (''User already exists: '' @ username)
      else if truthy (ca_accessGroupName inp) \<and> getGroupByName db (the (ca_accessGroupName inp)) \<noteq> None
      then throw (''Access group already exists: '' @ the (ca_accessGroupName inp))
      else
        (let owner = (case ca_ownerUid inp of
                        Some o1 \<Rightarrow> map_option pw_username (getPasswdByUid db o1) | None \<Rightarrow> None);
             cross = coalesce (ca_crossMemberOwner inp) (ca_ownerUid inp \<noteq> None) \<and> owner \<noteq> None
         in case ca_kind inp of
              AHuman \<Rightarrow>
                if \<not> truthy (ca_password inp) \<or> length (the (ca_password inp)) < MIN_PASSWORD_LENGTH
                then throw (''password must be at least '' @ show_int (int MIN_PASSWORD_LENGTH) @ '' characters'')
                else bind_result (hashPassword kdf (the (ca_password inp)) salt PBKDF2_ITERATIONS)
                       (\<lambda>h. Inr \<lparr> cp_owner = owner, cp_cross = cross, cp_hash = h \<rparr>)
            | AAgent \<Rightarrow> Inr \<lparr> cp_owner = owner, cp_cross = cross, cp_hash = ''!'' \<rparr>))"

definition on_auth :: "(auth_db \<Rightarrow> auth_db result) \<Rightarrow> (account_state, unit) action" where
  "on_auth f = act_try (\<lambda>s. bind_result (f (ac_auth s)) (\<lambda>a. Inr (s\<lparr> ac_auth := a \<rparr>)))"

text \<open>Append a name to a group that exists and does not contain it.\<close>

definition join_group :: "string \<Rightarrow> string \<Rightarrow> auth_db \<Rightarrow> auth_db" where
  "join_group grp username db =
     (case getGroupByName db grp of
        None \<Rightarrow> db
      | Some g \<Rightarrow> if username \<in> set (gr_members g) then db
                  else fst (updateGroupMembers grp (gr_members g @ [username]) db))"

definition createAccount_commit ::
  "int \<Rightarrow> create_account_input \<Rightarrow> create_account_plan
     \<Rightarrow> (account_state, proc_identity \<times> int option) action" where
  "createAccount_commit now inp plan =
     (let username = ca_username inp; owner = coalesce (cp_owner plan) [] in
      act_bind (act_get (\<lambda>s. nextUid (ac_auth s))) (\<lambda>uid.
      act_bind (on_auth (addUser \<lparr> pw_username = username, pw_uid = Some uid, pw_gid = Some uid,
          pw_gecos = coalesce (ca_gecos inp) username, pw_home = ''/home/'' @ username,
          pw_shell = ''/bin/init'' \<rparr>)) (\<lambda>_.
      act_bind (on_auth (\<lambda>a. Inr (setShadow (makeShadowEntry now username (cp_hash plan)) a))) (\<lambda>_.
      act_bind (on_auth (\<lambda>a.
          if getGroupByName a username = None \<and> getGroupByGid a uid = None
          then addGroup \<lparr> gr_name = username, gr_gid = Some uid,
                          gr_members = (if cp_cross plan then [owner] else []) \<rparr> a
          else Inr a)) (\<lambda>_.
      act_bind (on_auth (\<lambda>a.
          Inr (if coalesce (ca_shared inp) True then join_group ''users'' username a else a))) (\<lambda>_.
      act_bind (on_auth (\<lambda>a. Inr (if cp_cross plan then join_group owner username a else a))) (\<lambda>_.
      act_bind (on_auth (\<lambda>a. Inr (case ca_personalAgentOf inp of
          Some h \<Rightarrow> setPersonalAgent h uid a | None \<Rightarrow> a))) (\<lambda>_.
      act_bind (act_modify (\<lambda>s. s\<lparr> ac_caps := fold (\<lambda>c t. fst (grant_cap uid c t))
          (coalesce (ca_capabilities inp) []) (ac_caps s) \<rparr>)) (\<lambda>_.
      act_bind (if truthy (ca_accessGroupName inp)
          then act_bind (act_get (\<lambda>s. nextGid (ac_auth s))) (\<lambda>g.
               act_bind (on_auth (addGroup \<lparr> gr_name = the (ca_accessGroupName inp), gr_gid = Some g,
                                           gr_members = [] \<rparr>)) (\<lambda>_. act_return (Some g)))
          else act_return None) (\<lambda>accessGid.
      act_get (\<lambda>s. (accountIdentity (ac_auth s) (the (getPasswdByUid (ac_auth s) uid)), accessGid))))))))))))"

definition createAccount ::
  "kdf \<Rightarrow> int \<Rightarrow> bytes \<Rightarrow> auth_db \<Rightarrow> create_account_input
     \<Rightarrow> (account_state, proc_identity \<times> int option) action" where
  "createAccount kdf now salt db inp s =
     (case createAccount_prepare kdf salt db inp of
        Inl e \<Rightarrow> (s, Inl e)
      | Inr plan \<Rightarrow> createAccount_commit now inp plan s)"

section \<open>Who may act as whom\<close>

definition canOwnerDelegateRunAs :: "auth_db \<Rightarrow> int \<Rightarrow> int passwd_entry \<Rightarrow> bool" where
  "canOwnerDelegateRunAs db ownerUid target =
     (let ownerName = map_option pw_username (getPasswdByUid db ownerUid) in
      if \<not> truthy ownerName then False
      else if getPersonalAgentUid db ownerUid = Some (pw_uid target) then True
      else case getGroupByGid db (pw_gid target) of
             Some g \<Rightarrow> gr_name g = pw_username target \<and> the ownerName \<in> set (gr_members g)
           | None \<Rightarrow> False)"

definition canOwnerRunAsAccount :: "auth_db \<Rightarrow> int \<Rightarrow> int passwd_entry \<Rightarrow> bool \<Rightarrow> bool" where
  "canOwnerRunAsAccount db ownerUid target isRoot =
     (if isRoot then True
      else if pw_uid target = ownerUid then True
      else canOwnerDelegateRunAs db ownerUid target)"

definition canOwnerAccessAccountHome :: "auth_db \<Rightarrow> int \<Rightarrow> string \<Rightarrow> string \<Rightarrow> bool \<Rightarrow> bool" where
  "canOwnerAccessAccountHome db ownerUid viewerUsername targetUsername isRoot =
     (if targetUsername = viewerUsername then True
      else if isRoot then True
      else case getPasswdByUsername db targetUsername of
             None \<Rightarrow> False
           | Some e \<Rightarrow> canOwnerRunAsAccount db ownerUid e False)"

fun collapse_slashes :: "string \<Rightarrow> string" where
  "collapse_slashes (CHR ''/'' # CHR ''/'' # r) = collapse_slashes (CHR ''/'' # r)"
| "collapse_slashes (c # r) = c # collapse_slashes r"
| "collapse_slashes [] = []"

definition homeUsernameFromPath :: "string \<Rightarrow> string option" where
  "homeUsernameFromPath path =
     (let c = collapse_slashes path;
          t = (if suffix ''/'' c then butlast c else c);
          normalized = (if t = [] then ''/'' else t);
          name = takeWhile (\<lambda>x. x \<noteq> CHR ''/'') (drop 6 normalized)
      in if prefix ''/home/'' normalized \<and> name \<noteq> [] then Some name else None)"

section \<open>Lemmas\<close>

lemma username_chars:
  "ACCOUNT_USERNAME_RE u \<Longrightarrow> u \<noteq> [] \<and> CHR '','' \<notin> set u \<and> colon \<notin> set u"
proof -
  assume re: "ACCOUNT_USERNAME_RE u"
  have "\<not> is_lower_az (CHR '','')" "\<not> is_digit (CHR '','')" "\<not> is_lower_az colon" "\<not> is_digit colon"
    by (simp_all add: is_lower_az_def is_digit_def)
  with re show ?thesis
    by (auto simp: ACCOUNT_USERNAME_RE_def list_all_iff split: list.splits)
qed

lemma members_round_trip:
  assumes "list_all (\<lambda>m. CHR '','' \<notin> set m) ms" and "ms \<noteq> [[]]"
  shows "(if js_join '','' ms \<noteq> [] then js_split (CHR '','') (js_join '','' ms) else []) = ms"
proof (cases "ms = []")
  case False
  have "js_join '','' ms \<noteq> []"
    using assms False by (cases "('','', ms)" rule: js_join.cases) auto
  with assms False show ?thesis by (simp add: js_split_js_join list_all_iff)
qed simp

lemma group_members_no_comma: "list_all (\<lambda>m. CHR '','' \<notin> set m) (gr_members (group_of_row r))"
  by (auto simp: group_of_row_def list_all_iff dest: js_split_parts_no_sep)

lemma stored_members:
  "list_all (\<lambda>m. CHR '','' \<notin> set m) ms \<Longrightarrow> ms \<noteq> [[]] \<Longrightarrow>
     gr_members (group_of_row (r\<lparr> g_members := js_join '','' ms \<rparr>)) = ms"
  using members_round_trip [of ms] by (simp add: group_of_row_def split: if_split_asm)

lemma group_of_row_sel [simp]: "gr_name (group_of_row r) = g_name r" "gr_gid (group_of_row r) = g_gid r"
  by (simp_all add: group_of_row_def)

lemma join_group_frame [simp]:
  "db_passwd (join_group n u db) = db_passwd db" "db_shadow (join_group n u db) = db_shadow db"
  "db_agents (join_group n u db) = db_agents db" "db_tokens (join_group n u db) = db_tokens db"
  "map g_name (db_groups (join_group n u db)) = map g_name (db_groups db)"
  "map g_gid (db_groups (join_group n u db)) = map g_gid (db_groups db)"
  by (auto simp: join_group_def updateGroupMembers_def sql_update_def split: option.splits)

lemma join_group_inv: "auth_inv db \<Longrightarrow> auth_inv (join_group n u db)"
  by (simp add: auth_inv_def keyed_def)

lemma join_group_member:
  assumes "CHR '','' \<notin> set u" and "u \<noteq> []" and "getGroupByGid db gid = Some g"
    and "m \<in> set (gr_members g)" and inv: "auth_inv db"
  shows "\<exists>g'. getGroupByGid (join_group n u db) gid = Some g' \<and> gr_name g' = gr_name g
    \<and> m \<in> set (gr_members g')"
proof -
  obtain r where r: "sql_lookup g_gid (db_groups db) gid = Some r" and g: "g = group_of_row r"
    using assms(3) by (auto simp: getGroupByGid_def)
  show ?thesis
  proof (cases "\<exists>x. getGroupByName db n = Some (group_of_row x) \<and> u \<notin> set (gr_members (group_of_row x))")
    case True
    then obtain x where x: "getGroupByName db n = Some (group_of_row x)" "u \<notin> set (gr_members (group_of_row x))"
      by blast
    let ?ms = "gr_members (group_of_row x) @ [u]"
    let ?f = "\<lambda>r. r\<lparr> g_members := js_join '','' ?ms \<rparr>"
    have "db_groups (join_group n u db) = sql_update (\<lambda>r. g_name r = n) ?f (db_groups db)"
      using x by (simp add: join_group_def updateGroupMembers_def)
    then have look: "sql_lookup g_gid (db_groups (join_group n u db)) gid
        = Some (if g_name r = n then ?f r else r)"
      using r by (simp add: lookup_update)
    show ?thesis
    proof (cases "g_name r = n")
      case True
      have "gr_members (group_of_row (?f r)) = ?ms"
        using group_members_no_comma [of x] assms(1,2) by (intro stored_members) auto
      moreover have "m \<in> set ?ms"
      proof -
        obtain y where y: "sql_lookup g_name (db_groups db) n = Some y"
          "group_of_row y = group_of_row x"
          using x(1) by (auto simp: getGroupByName_def)
        moreover have "r \<in> set (db_groups db)" using lookup_Some [OF r] by simp
        ultimately have "y = r"
          using inv True keyed_unique [of g_name "db_groups db" y r] lookup_Some [OF y(1)]
          by (simp add: auth_inv_def)
        with y(2) assms(4) g show ?thesis by simp
      qed
      ultimately show ?thesis using look True g by (simp add: getGroupByGid_def)
    qed (use look g assms(4) in \<open>simp add: getGroupByGid_def\<close>)
  next
    case False
    then have "join_group n u db = db"
      by (auto simp: join_group_def getGroupByName_def split: option.splits)
    with assms(3,4) show ?thesis by simp
  qed
qed

lemma prepare_cases:
  assumes "createAccount_prepare kdf salt db inp = Inr plan"
  shows "ACCOUNT_USERNAME_RE (ca_username inp)"
    and "ca_kind inp = AAgent \<Longrightarrow> cp_hash plan = ''!''"
    and "cp_cross plan \<Longrightarrow> \<exists>o1 e. ca_ownerUid inp = Some o1 \<and> getPasswdByUid db o1 = Some e
           \<and> cp_owner plan = Some (pw_username e)"
  using assms
  by (auto simp: createAccount_prepare_def Let_def split: if_splits account_kind.splits option.splits)

text \<open>The chain of writes to the account tables, with the two guarded inserts taken.\<close>

definition account_rows ::
  "int \<Rightarrow> int \<Rightarrow> create_account_input \<Rightarrow> create_account_plan \<Rightarrow> auth_db \<Rightarrow> auth_db" where
  "account_rows now uid inp plan a =
     a\<lparr> db_passwd := db_passwd a @ [\<lparr> pw_username = ca_username inp, pw_uid = uid, pw_gid = uid,
          pw_gecos = coalesce (ca_gecos inp) (ca_username inp),
          pw_home = ''/home/'' @ ca_username inp, pw_shell = ''/bin/init'' \<rparr>],
        db_shadow := sql_replace sh_username (makeShadowEntry now (ca_username inp) (cp_hash plan))
          (db_shadow a),
        db_groups := db_groups a @ (if getGroupByName a (ca_username inp) = None
          then [\<lparr> g_name = ca_username inp, g_gid = uid,
                 g_members = (if cp_cross plan then coalesce (cp_owner plan) [] else []) \<rparr>] else []) \<rparr>"

definition account_joins ::
  "int \<Rightarrow> create_account_input \<Rightarrow> create_account_plan \<Rightarrow> auth_db \<Rightarrow> auth_db" where
  "account_joins uid inp plan a =
     (let b = (if coalesce (ca_shared inp) True then join_group ''users'' (ca_username inp) a else a);
          c = (if cp_cross plan then join_group (coalesce (cp_owner plan) []) (ca_username inp) b else b)
      in case ca_personalAgentOf inp of Some h \<Rightarrow> setPersonalAgent h uid c | None \<Rightarrow> c)"

lemma fresh_uid:
  "nextUid a \<notin> pw_uid ` set (db_passwd a)" "nextUid a \<notin> g_gid ` set (db_groups a)"
  "nextGid a \<notin> g_gid ` set (db_groups a)"
proof -
  have "x \<le> maxAllocatedId a" if "x \<in> pw_uid ` set (db_passwd a) \<union> g_gid ` set (db_groups a)" for x
    using that by (rule maxAllocatedId_ge)
  then show "nextUid a \<notin> pw_uid ` set (db_passwd a)" "nextUid a \<notin> g_gid ` set (db_groups a)"
    "nextGid a \<notin> g_gid ` set (db_groups a)"
    by (force simp: nextUid_def nextGid_def Let_def split: if_splits)+
qed

lemma account_joins_frame [simp]:
  "db_passwd (account_joins uid inp plan a) = db_passwd a"
  "db_shadow (account_joins uid inp plan a) = db_shadow a"
  "map g_name (db_groups (account_joins uid inp plan a)) = map g_name (db_groups a)"
  "map g_gid (db_groups (account_joins uid inp plan a)) = map g_gid (db_groups a)"
  by (auto simp: account_joins_def Let_def setPersonalAgent_def split: option.splits)

lemma account_joins_inv: "auth_inv a \<Longrightarrow> auth_inv (account_joins uid inp plan a)"
proof -
  have agent: "auth_inv b \<Longrightarrow> auth_inv (setPersonalAgent h x b)" for h x b
    by (simp add: auth_inv_def setPersonalAgent_def)
  then show "auth_inv a \<Longrightarrow> auth_inv (account_joins uid inp plan a)"
    by (auto simp: account_joins_def Let_def intro!: agent join_group_inv split: option.splits)
qed

lemma lookup_none_names:
  "sql_lookup key t k = None \<longleftrightarrow> k \<notin> set (map key t)"
  by (auto simp: lookup_None)

definition add_access_group :: "create_account_input \<Rightarrow> auth_db \<Rightarrow> auth_db" where
  "add_access_group inp a =
     (if truthy (ca_accessGroupName inp)
      then a\<lparr> db_groups := db_groups a @
             [\<lparr> g_name = the (ca_accessGroupName inp), g_gid = nextGid a, g_members = [] \<rparr>] \<rparr>
      else a)"

lemma account_rows_inv:
  assumes "auth_inv a" and "getPasswdByUsername a (ca_username inp) = None"
  shows "auth_inv (account_rows now (nextUid a) inp plan a)"
  using assms fresh_uid [of a]
  by (auto simp: auth_inv_def account_rows_def getPasswdByUsername_def getGroupByName_def lookup_None
      image_iff)

lemma bind_get: "act_bind (act_get f) k s = k (f s) s"
  by (simp add: act_defs)

lemma bind_on_auth:
  "act_bind (on_auth f) k s =
     (case f (ac_auth s) of Inl e \<Rightarrow> (s, Inl e) | Inr b \<Rightarrow> k () (s\<lparr> ac_auth := b \<rparr>))"
  by (simp add: act_defs on_auth_def split: sum.split)

lemma commit_run:
  fixes now :: int and plan :: create_account_plan
  assumes user: "getPasswdByUsername (ac_auth s) (ca_username inp) = None"
    and access: "truthy (ca_accessGroupName inp) \<Longrightarrow>
      getGroupByName (ac_auth s) (the (ca_accessGroupName inp)) = None
      \<and> the (ca_accessGroupName inp) \<noteq> ca_username inp"
  defines "uid \<equiv> nextUid (ac_auth s)"
  defines "a \<equiv> account_joins uid inp plan (account_rows now uid inp plan (ac_auth s))"
  shows "\<exists>s' ident gid. createAccount_commit now inp plan s = (s', Inr (ident, gid))
     \<and> ac_auth s' = add_access_group inp a
     \<and> ac_caps s' = fold (\<lambda>c t. fst (grant_cap uid c t)) (coalesce (ca_capabilities inp) []) (ac_caps s)
     \<and> ident = accountIdentity (ac_auth s') (the (getPasswdByUid (ac_auth s') uid))"
proof -
  let ?a0 = "ac_auth s" and ?u = "ca_username inp"
  let ?cp = "cp_cross plan"
  let ?pw = "\<lparr> pw_username = ?u, pw_uid = uid, pw_gid = uid,
          pw_gecos = coalesce (ca_gecos inp) ?u, pw_home = ''/home/'' @ ?u, pw_shell = ''/bin/init'' \<rparr>"
  let ?a1 = "?a0\<lparr> db_passwd := db_passwd ?a0 @ [?pw] \<rparr>"
  let ?a2 = "setShadow (makeShadowEntry now ?u (cp_hash plan)) ?a1"
  have add: "addUser \<lparr> pw_username = ?u, pw_uid = Some uid, pw_gid = Some uid,
          pw_gecos = coalesce (ca_gecos inp) ?u, pw_home = ''/home/'' @ ?u,
          pw_shell = ''/bin/init'' \<rparr> ?a0 = Inr ?a1"
  proof -
    have "\<not> list_ex (\<lambda>x. pw_username x = ?u \<or> pw_uid x = uid) (db_passwd ?a0)"
      using user fresh_uid(1) [of ?a0]
      by (auto simp: getPasswdByUsername_def lookup_None list_ex_iff uid_def image_iff)
    then show ?thesis by (simp add: addUser_def)
  qed

  have priv: "(if getGroupByName ?a2 ?u = None \<and> getGroupByGid ?a2 uid = None
       then addGroup \<lparr> gr_name = ?u, gr_gid = Some uid,
              gr_members = (if ?cp then [coalesce (cp_owner plan) []] else []) \<rparr> ?a2
       else Inr ?a2) = Inr (account_rows now uid inp plan ?a0)"
  proof -
    have gid: "getGroupByGid ?a2 uid = None"
      using fresh_uid(2) [of ?a0] by (auto simp: getGroupByGid_def setShadow_def lookup_None uid_def image_iff)
    have nm: "getGroupByName ?a2 ?u = getGroupByName ?a0 ?u"
      by (simp add: getGroupByName_def setShadow_def)
    show ?thesis
    proof (cases "getGroupByName ?a0 ?u")
      case None
      then have "\<not> list_ex (\<lambda>x. g_name x = ?u \<or> g_gid x = uid) (db_groups ?a0)"
        using fresh_uid(2) [of ?a0]
        by (auto simp: getGroupByName_def lookup_None list_ex_iff uid_def image_iff)
      with None gid nm show ?thesis
        by (simp add: addGroup_def account_rows_def setShadow_def)
    next
      case (Some g)
      then show ?thesis using nm by (simp add: account_rows_def setShadow_def)
    qed
  qed
  have accessed: "(\<nexists>x. x \<in> set (db_groups a) \<and> (g_name x = the (ca_accessGroupName inp) \<or> g_gid x = nextGid a))"
    if "truthy (ca_accessGroupName inp)"
  proof -
    have "the (ca_accessGroupName inp) \<notin> set (map g_name (db_groups a))"
      unfolding a_def account_joins_frame
      using access [OF that] by (auto simp: account_rows_def getGroupByName_def lookup_None)
    moreover have "nextGid a \<notin> set (map g_gid (db_groups a))"
      using fresh_uid(3) [of a] by simp
    ultimately show ?thesis by (auto simp: image_iff)
  qed
  let ?rest = "act_bind (act_modify (\<lambda>s. s\<lparr> ac_caps := fold (\<lambda>c t. fst (grant_cap uid c t))
          (coalesce (ca_capabilities inp) []) (ac_caps s) \<rparr>)) (\<lambda>_.
      act_bind (if truthy (ca_accessGroupName inp)
          then act_bind (act_get (\<lambda>s. nextGid (ac_auth s))) (\<lambda>g.
               act_bind (on_auth (addGroup \<lparr> gr_name = the (ca_accessGroupName inp), gr_gid = Some g,
                                           gr_members = [] \<rparr>)) (\<lambda>_. act_return (Some g)))
          else act_return None) (\<lambda>accessGid.
      act_get (\<lambda>s. (accountIdentity (ac_auth s) (the (getPasswdByUid (ac_auth s) uid)), accessGid))))"
  define F1 where "F1 = addUser \<lparr> pw_username = ?u, pw_uid = Some uid, pw_gid = Some uid,
          pw_gecos = coalesce (ca_gecos inp) ?u, pw_home = ''/home/'' @ ?u, pw_shell = ''/bin/init'' \<rparr>"
  define F2 where "F2 = (\<lambda>b. Inr (setShadow (makeShadowEntry now ?u (cp_hash plan)) b) :: auth_db result)"
  define F3 where "F3 = (\<lambda>b. if getGroupByName b ?u = None \<and> getGroupByGid b uid = None
          then addGroup \<lparr> gr_name = ?u, gr_gid = Some uid,
                          gr_members = (if ?cp then [coalesce (cp_owner plan) []] else []) \<rparr> b
          else Inr b)"
  define F4 where "F4 = (\<lambda>b. Inr (if coalesce (ca_shared inp) True then join_group ''users'' ?u b else b)
          :: auth_db result)"
  define F5 where "F5 = (\<lambda>b. Inr (if ?cp then join_group (coalesce (cp_owner plan) []) ?u b else b)
          :: auth_db result)"
  define F6 where "F6 = (\<lambda>b. Inr (case ca_personalAgentOf inp of
          Some h \<Rightarrow> setPersonalAgent h uid b | None \<Rightarrow> b) :: auth_db result)"
  define a1 where "a1 = ?a1"
  define a3 where "a3 = account_rows now uid inp plan ?a0"
  have steps: "F1 ?a0 = Inr a1" "bind_result (F2 a1) F3 = Inr a3"
    using add priv by (simp_all only: F1_def F2_def F3_def a1_def a3_def bind_result.simps)
  have joins: "bind_result (bind_result (F4 a3) F5) F6 = Inr a"
    unfolding F4_def F5_def F6_def a_def account_joins_def a3_def Let_def bind_result.simps by (rule refl)
  have "createAccount_commit now inp plan s = act_bind (on_auth F1) (\<lambda>_. act_bind (on_auth F2) (\<lambda>_.
     act_bind (on_auth F3) (\<lambda>_. act_bind (on_auth F4) (\<lambda>_. act_bind (on_auth F5) (\<lambda>_.
     act_bind (on_auth F6) (\<lambda>_. ?rest)))))) s"
    unfolding createAccount_commit_def Let_def bind_get F1_def F2_def F3_def F4_def F5_def F6_def uid_def
    by (rule refl)
  also have "\<dots> = ?rest (s\<lparr> ac_auth := a \<rparr>)"
    using steps joins by (auto simp: bind_on_auth split: sum.splits)
  finally have run: "createAccount_commit now inp plan s = ?rest (s\<lparr> ac_auth := a \<rparr>)" .
  show ?thesis
  proof (cases "truthy (ca_accessGroupName inp)")
    case True
    then have "\<not> list_ex (\<lambda>x. g_name x = the (ca_accessGroupName inp) \<or> g_gid x = nextGid a) (db_groups a)"
      using accessed by (auto simp: list_ex_iff)
    with True show ?thesis
      by (simp add: run act_defs on_auth_def addGroup_def add_access_group_def)
  next
    case False
    then show ?thesis by (simp add: run act_defs add_access_group_def)
  qed
qed

lemma add_access_inv:
  assumes "auth_inv a" and "truthy (ca_accessGroupName inp) \<Longrightarrow>
    the (ca_accessGroupName inp) \<notin> set (map g_name (db_groups a))"
  shows "auth_inv (add_access_group inp a)"
proof (cases "truthy (ca_accessGroupName inp)")
  case True
  have "\<forall>x \<in> set (db_groups a). g_name x \<noteq> the (ca_accessGroupName inp)"
    using assms(2) [OF True] by force
  moreover have "\<forall>x \<in> set (db_groups a). g_gid x \<noteq> nextGid a"
    using fresh_uid(3) [of a] by force
  ultimately show ?thesis using assms(1) by (simp add: auth_inv_def add_access_group_def)
qed (use assms(1) in \<open>simp add: add_access_group_def\<close>)

lemma rows_gid_group:
  assumes "getGroupByName a (ca_username inp) = None" and "uid \<notin> g_gid ` set (db_groups a)"
  shows "getGroupByGid (account_rows now uid inp plan a) uid
     = Some (group_of_row \<lparr> g_name = ca_username inp, g_gid = uid,
                 g_members = (if cp_cross plan then coalesce (cp_owner plan) [] else []) \<rparr>)"
proof -
  have "find (\<lambda>r. g_gid r = uid) (db_groups a) = None"
    using assms(2) by (auto simp: find_None_all)
  with assms(1) show ?thesis
    by (simp add: getGroupByGid_def account_rows_def sql_lookup_def find_append)
qed

lemma joins_keep_member:
  assumes "auth_inv a" and "ACCOUNT_USERNAME_RE (ca_username inp)"
    and "getGroupByGid a gid = Some g" and "m \<in> set (gr_members g)"
  shows "\<exists>g'. getGroupByGid (account_joins uid inp plan a) gid = Some g' \<and> gr_name g' = gr_name g
    \<and> m \<in> set (gr_members g')"
proof -
  let ?P = "\<lambda>b. auth_inv b \<and> (\<exists>g'. getGroupByGid b gid = Some g' \<and> gr_name g' = gr_name g
    \<and> m \<in> set (gr_members g'))"
  have u: "CHR '','' \<notin> set (ca_username inp)" "ca_username inp \<noteq> []"
    using username_chars [OF assms(2)] by auto
  have join: "?P b \<Longrightarrow> ?P (join_group n (ca_username inp) b)" for n b
    using join_group_member [OF u] join_group_inv by metis
  have agent: "?P b \<Longrightarrow> ?P (setPersonalAgent h x b)" for h x b
    by (simp add: setPersonalAgent_def getGroupByGid_def auth_inv_def)
  have "?P a" using assms by blast
  then have "?P (account_joins uid inp plan a)"
    unfolding account_joins_def Let_def
    by (cases "ca_personalAgentOf inp"; cases "cp_cross plan"; cases "coalesce (ca_shared inp) True")
      (simp_all only: option.case if_True if_False agent join)
  then show ?thesis by blast
qed

lemma access_passwd [simp]:
  "db_passwd (add_access_group inp a) = db_passwd a" "db_shadow (add_access_group inp a) = db_shadow a"
  by (simp_all add: add_access_group_def)

lemma access_gid:
  "getGroupByGid a gid = Some g \<Longrightarrow> getGroupByGid (add_access_group inp a) gid = Some g"
  by (auto simp: getGroupByGid_def add_access_group_def sql_lookup_def find_append)

lemma find_last:
  "\<forall>x \<in> set t. key x \<noteq> key r \<Longrightarrow> sql_lookup key (t @ [r]) (key r) = Some r"
proof -
  assume "\<forall>x \<in> set t. key x \<noteq> key r"
  then have "find (\<lambda>x. key x = key r) t = None" by (auto simp: find_None_all)
  then show ?thesis by (simp add: sql_lookup_def find_append)
qed

section \<open>Properties\<close>

text \<open>
  Creating an account succeeds whenever its names are still free when it commits, and does what
  it promises: it keeps the store consistent, gives the account a fresh uid with gid = uid, lets no
  credential log in as an agent, and makes a cross-member owner able to run as the account.
\<close>

theorem createAccount_complete:
  assumes inv: "auth_inv (ac_auth s)"
    and prep: "createAccount_prepare kdf salt db inp = Inr plan"
    and free: "isUsernameAvailable (ac_auth s) (ca_username inp)"
    and access: "truthy (ca_accessGroupName inp) \<Longrightarrow>
      getGroupByName (ac_auth s) (the (ca_accessGroupName inp)) = None
      \<and> the (ca_accessGroupName inp) \<noteq> ca_username inp"
  shows "\<exists>s' ident gid entry. createAccount kdf now salt db inp s = (s', Inr (ident, gid))
     \<and> auth_inv (ac_auth s')
     \<and> getPasswdByUsername (ac_auth s') (ca_username inp) = Some entry
     \<and> ident = accountIdentity (ac_auth s') entry
     \<and> pi_uid ident = nextUid (ac_auth s) \<and> pi_gid ident = nextUid (ac_auth s)
     \<and> (ca_kind inp = AAgent \<longrightarrow> (\<forall>q. authenticate kdf sha (ac_auth s') (ac_auth s') (ca_username inp) q
            = Inr (AuthFail ''Authentication failed'')))
     \<and> (\<forall>o1 e. cp_cross plan \<and> cp_owner plan = Some (pw_username e)
            \<and> getPasswdByUid (ac_auth s) o1 = Some e \<and> ACCOUNT_USERNAME_RE (pw_username e)
            \<longrightarrow> canOwnerDelegateRunAs (ac_auth s') o1 entry)"
proof -
  let ?u = "ca_username inp" and ?uid = "nextUid (ac_auth s)" and ?a0 = "ac_auth s"
  let ?rows = "account_rows now ?uid inp plan ?a0"
  let ?joined = "account_joins ?uid inp plan ?rows"
  define pw where "pw = \<lparr> pw_username = ?u, pw_uid = ?uid, pw_gid = ?uid,
          pw_gecos = coalesce (ca_gecos inp) ?u, pw_home = ''/home/'' @ ?u, pw_shell = ''/bin/init'' \<rparr>"
  have none: "getPasswdByUsername ?a0 ?u = None" "getGroupByName ?a0 ?u = None"
    using free by (simp_all add: isUsernameAvailable_def)
  obtain s' ident gid where run: "createAccount_commit now inp plan s = (s', Inr (ident, gid))"
    and a': "ac_auth s' = add_access_group inp ?joined"
    and ident: "ident = accountIdentity (ac_auth s') (the (getPasswdByUid (ac_auth s') ?uid))"
    using commit_run [OF none(1), of now plan] access by metis
  have rows: "db_passwd ?rows = db_passwd ?a0 @ [pw]" by (simp add: account_rows_def pw_def)
  have names: "\<forall>x \<in> set (db_passwd ?a0). pw_username x \<noteq> pw_username pw"
    "\<forall>x \<in> set (db_passwd ?a0). pw_uid x \<noteq> pw_uid pw"
    using none(1) fresh_uid(1) [of ?a0]
    by (auto simp: getPasswdByUsername_def lookup_None pw_def image_iff)
  have byname: "getPasswdByUsername (ac_auth s') ?u = Some pw"
    using find_last [OF names(1)] by (simp add: a' rows getPasswdByUsername_def) (simp add: pw_def)
  have byuid: "getPasswdByUid (ac_auth s') ?uid = Some pw"
    using find_last [OF names(2)] by (simp add: a' rows getPasswdByUid_def) (simp add: pw_def)
  have inv_rows: "auth_inv ?rows" by (rule account_rows_inv [OF inv none(1)])
  have inv': "auth_inv (ac_auth s')"
    unfolding a'
  proof (rule add_access_inv [OF account_joins_inv [OF inv_rows]])
    assume "truthy (ca_accessGroupName inp)"
    from access [OF this] none(2)
    show "the (ca_accessGroupName inp) \<notin> set (map g_name (db_groups ?joined))"
      by (auto simp: account_rows_def getGroupByName_def lookup_None)
  qed
  have locked: "authenticate kdf sha (ac_auth s') (ac_auth s') ?u q = Inr (AuthFail ''Authentication failed'')"
    if "ca_kind inp = AAgent" for q
  proof -
    have "getShadowByUsername (ac_auth s') ?u = Some (makeShadowEntry now ?u ''!'')"
      using prepare_cases(2) [OF prep that]
      by (simp add: a' getShadowByUsername_def account_rows_def lookup_replace makeShadowEntry_def)
    then show ?thesis using byname
      by (simp add: authenticate_def verify_credential_def isLocked_hash_def makeShadowEntry_def)
  qed
  have delegate: "canOwnerDelegateRunAs (ac_auth s') o1 pw"
    if c: "cp_cross plan" "cp_owner plan = Some (pw_username e)" "getPasswdByUid ?a0 o1 = Some e"
      "ACCOUNT_USERNAME_RE (pw_username e)" for o1 e
  proof -
    have own: "pw_username e \<noteq> [] \<and> CHR '','' \<notin> set (pw_username e)" using username_chars [OF c(4)] by simp
    obtain g where g: "getGroupByGid ?rows ?uid = Some g" "gr_name g = ?u" "pw_username e \<in> set (gr_members g)"
      using rows_gid_group [OF none(2) fresh_uid(2), of now plan] c own
      by (simp add: group_of_row_def js_split_no_sep)
    from joins_keep_member [OF inv_rows prepare_cases(1) [OF prep] g(1,3), of ?uid plan] g(2)
    obtain g' where g': "getGroupByGid ?joined ?uid = Some g'" "gr_name g' = ?u"
      "pw_username e \<in> set (gr_members g')" by auto
    have "getPasswdByUid (ac_auth s') o1 = Some e"
      using c(3) by (simp add: a' rows getPasswdByUid_def sql_lookup_def find_append)
    moreover have "getGroupByGid (ac_auth s') (pw_gid pw) = Some g'"
      using access_gid [OF g'(1)] by (simp add: a' pw_def)
    moreover have "pw_username pw = ?u" by (simp add: pw_def)
    ultimately show ?thesis
      using own g'(2,3) by (simp add: canOwnerDelegateRunAs_def truthy_def)
  qed
  have "createAccount kdf now salt db inp s = (s', Inr (ident, gid))"
    using prep run by (simp add: createAccount_def)
  moreover have "ident = accountIdentity (ac_auth s') pw" using ident byuid by simp
  moreover have "pi_uid ident = ?uid \<and> pi_gid ident = ?uid"
    using ident byuid by (simp add: accountIdentity_def pw_def)
  ultimately show ?thesis using inv' byname locked delegate by blast
qed

text \<open>A store with one human, \<open>sam\<close>, and his private group, for the concrete instances.\<close>

definition demo_accounts :: account_state where
  "demo_accounts = \<lparr> ac_auth = demo_auth\<lparr> db_groups :=
      [\<lparr> g_name = ''sam'', g_gid = 1000, g_members = '''' \<rparr>] \<rparr>, ac_caps = [] \<rparr>"

definition demo_agent :: create_account_input where
  "demo_agent = \<lparr> ca_kind = AAgent, ca_username = ''bot'', ca_gecos = None, ca_password = None,
     ca_ownerUid = Some 1000, ca_shared = None, ca_crossMemberOwner = None,
     ca_personalAgentOf = None, ca_capabilities = Some [''sys.mcp.call''], ca_accessGroupName = None \<rparr>"

theorem createAccount_complete_witness:
  "\<exists>s' ident gid entry. createAccount (\<lambda>_ _ _. Inr []) 0 [] (ac_auth demo_accounts) demo_agent demo_accounts
      = (s', Inr (ident, gid)) \<and> canOwnerDelegateRunAs (ac_auth s') 1000 entry"
proof -
  have inv: "auth_inv (ac_auth demo_accounts)"
    by (simp add: demo_accounts_def demo_auth_def auth_inv_def keyed_def)
  have prep: "createAccount_prepare (\<lambda>_ _ _. Inr []) [] (ac_auth demo_accounts) demo_agent
      = Inr \<lparr> cp_owner = Some ''sam'', cp_cross = True, cp_hash = ''!'' \<rparr>"
    by code_simp
  have free: "isUsernameAvailable (ac_auth demo_accounts) (ca_username demo_agent)" by code_simp
  have owner: "getPasswdByUid (ac_auth demo_accounts) 1000 = Some demo_user" by code_simp
  have re: "ACCOUNT_USERNAME_RE (pw_username demo_user)" by code_simp
  have "\<not> truthy (ca_accessGroupName demo_agent)" by code_simp
  then show ?thesis
    using createAccount_complete [OF inv prep free, of 0 "\<lambda>_. []"] owner re
    by (fastforce simp: demo_user_def)
qed

text \<open>
  The capabilities given to an agent reach its owner: with the default cross-membership the
  owner joins the agent's own group, on which they are granted, so after this call the human \<open>sam\<close>
  resolves to a capability granted only to his agent.
\<close>

theorem agent_capabilities_reach_owner:
  "let s' = fst (createAccount (\<lambda>_ _ _. Inr []) 0 [] (ac_auth demo_accounts) demo_agent demo_accounts)
   in hasCapability (resolve_caps (resolveGids (ac_auth s') ''sam'' 1000) (ac_caps s')) ''sys.mcp.call''
      \<and> \<not> hasCapability (resolve_caps (resolveGids (ac_auth demo_accounts) ''sam'' 1000)
            (ac_caps demo_accounts)) ''sys.mcp.call''"
  by code_simp

text \<open>
  Creating an account whose run-as access group has the account's own name throws after the
  account is written: the user row and its private group stay behind, and the name is taken.
\<close>

theorem access_group_named_as_account:
  "let r = createAccount (\<lambda>_ _ _. Inr []) 0 [] (ac_auth demo_accounts)
             (demo_agent\<lparr> ca_accessGroupName := Some ''bot'' \<rparr>) demo_accounts
   in snd r = throw ''UNIQUE constraint failed''
      \<and> isUsernameAvailable (ac_auth demo_accounts) ''bot''
      \<and> \<not> isUsernameAvailable (ac_auth (fst r)) ''bot''"
  by code_simp

end
