(* ===== verification/Config.thy ===== *)
theory Config
  imports Accounts "HOL-Library.AList"
begin

text \<open>
  Runtime configuration: the defaults and the store of \<open>kernel/config.ts\<close>, the read rules of
  \<open>kernel/config-access.ts\<close> and the \<open>sys.config.get\<close> / \<open>sys.config.set\<close> handlers of
  \<open>kernel/sys/config.ts\<close>. The model names come from
  \<open>inference/default-models.ts\<close>; the five prompt texts of \<open>prompts/system.ts\<close> are read through
  \<open>imported\<close>, a parameter indexed by the name of the constant; \<open>collate\<close> is the sort key
  of \<open>localeCompare\<close>. SQL's \<open>LIKE\<close> is written out: \<open>%\<close> and \<open>_\<close> are wildcards and ASCII letters match
  in either case.
\<close>

type_synonym config_row = "string \<times> string"

section \<open>Defaults\<close>

definition WORKER_TOOL_APPROVAL_POLICY :: string where
  "WORKER_TOOL_APPROVAL_POLICY =
     ''{\"default\":\"auto\",\"rules\":[{\"match\":\"shell.exec\",\"action\":\"ask\"},{\"match\":\"net.fetch\",\"action\":\"ask\"},{\"match\":\"fs.delete\",\"action\":\"ask\"},{\"match\":\"sys.mcp.call\",\"action\":\"ask\"}]}''"

definition DEFAULT_ROOT_MODEL_PROFILES :: string where
  "DEFAULT_ROOT_MODEL_PROFILES =
     ''{\"version\":1,\"profiles\":[{\"id\":\"'' @ ''workers-ai-kimi-k2-6''
     @ ''\",\"name\":\"'' @ ''Kimi K2.6''
     @ ''\",\"values\":{\"config/ai/provider\":\"workers-ai\",\"config/ai/model\":\"''
     @ ''@cf/moonshotai/kimi-k2.6''
     @ ''\",\"config/ai/provider_style\":\"auto\",\"config/ai/transport_target\":\"gsv\",\"config/ai/reasoning\":\"medium\",\"config/ai/max_tokens\":\"8192\",\"config/ai/max_context_bytes\":\"32768\"},\"createdAt\":1,\"updatedAt\":1}]}''"

definition SYSTEM_CONFIG_DEFAULTS :: "(string \<Rightarrow> string) \<Rightarrow> config_row list" where
  "SYSTEM_CONFIG_DEFAULTS imported =
    [(''config/ai/provider'', ''workers-ai''),
     (''config/ai/model'', ''@cf/zai-org/glm-5.2''),
     (''config/ai/base_url'', ''''),
     (''config/ai/provider_style'', ''auto''),
     (''config/ai/transport_target'', ''gsv''),
     (''config/ai/api_key'', ''''),
     (''config/ai/reasoning'', ''medium''),
     (''config/ai/max_tokens'', ''8192''),
     (''config/ai/context_window_tokens'', ''256000''),
     (''config/ai/context.d/00-runtime.md'', imported ''GSV_RUNTIME_FACTS''),
     (''config/ai/context.d/01-gsv.md'', imported ''GSV_RUNTIME_CONTEXT''),
     (''config/ai/context.d/05-targets.md'', imported ''GSV_TARGET_CONTEXT''),
     (''config/ai/context.d/20-discovery.md'', imported ''GSV_CONTEXT_DISCOVERY''),
     (''config/ai/context.d/30-process-orchestration.md'', imported ''GSV_PROCESS_ORCHESTRATION''),
     (''config/ai/skills/index_mode'', ''summary''),
     (''config/ai/max_context_bytes'', ''32768''),
     (''config/ai/generation/timeout_ms'', ''180000''),
     (''config/ai/generation/streaming'', ''auto''),
     (''config/ai/fallback_model_profile'', ''workers-ai-kimi-k2-6''),
     (''users/0/ai/model_profiles'', DEFAULT_ROOT_MODEL_PROFILES),
     (''config/ai/image/read/max_bytes'', ''10485760''),
     (''config/ai/image/read/max_tokens'', ''8192''),
     (''config/ai/image/read/max_objects'', ''150''),
     (''config/ai/image/read/timeout_ms'', ''30000''),
     (''config/ai/image/generation/provider'', ''workers-ai''),
     (''config/ai/image/generation/model'', ''@cf/black-forest-labs/flux-1-schnell''),
     (''config/ai/image/generation/api_key'', ''''),
     (''config/ai/transcription/provider'', ''workers-ai''),
     (''config/ai/transcription/model'', ''@cf/openai/whisper-large-v3-turbo''),
     (''config/ai/transcription/api_key'', ''''),
     (''config/ai/transcription/max_bytes'', ''26214400''),
     (''config/ai/speech/provider'', ''workers-ai''),
     (''config/ai/speech/model'', ''@cf/deepgram/aura-2-en''),
     (''config/ai/speech/api_key'', ''''),
     (''config/ai/speech/speaker'', ''luna''),
     (''config/ai/speech/encoding'', ''mp3''),
     (''config/ai/speech/max_chars'', ''4000''),
     (''config/ai/speech/timeout_ms'', ''30000''),
     (''config/server/name'', ''gsv''),
     (''config/server/timezone'', ''UTC''),
     (''config/server/version'', ''0.4.1''),
     (''config/shell/timeout_ms'', ''30000''),
     (''config/shell/network_enabled'', ''true''),
     (''config/shell/max_output_bytes'', ''524288''),
     (''config/ai/tools/approval'', WORKER_TOOL_APPROVAL_POLICY)]"

definition USER_OVERRIDABLE_PREFIXES :: "string list" where
  "USER_OVERRIDABLE_PREFIXES = [''ai/'', ''ui/'']"

section \<open>The store\<close>

definition config_getExplicit :: "config_row list \<Rightarrow> string \<Rightarrow> string option" where
  "config_getExplicit t key = map_option snd (sql_lookup fst t key)"

text \<open>\<open>SYSTEM_CONFIG_DEFAULTS[key]\<close> reads the object's own keys; the keys looked up are configuration
  paths, never the name of a property inherited from \<open>Object.prototype\<close>.\<close>

definition config_get :: "(string \<Rightarrow> string) \<Rightarrow> config_row list \<Rightarrow> string \<Rightarrow> string option" where
  "config_get imported t key =
     (case config_getExplicit t key of
        Some v \<Rightarrow> Some v
      | None \<Rightarrow> map_of (SYSTEM_CONFIG_DEFAULTS imported) key)"

definition config_set :: "string \<Rightarrow> string \<Rightarrow> config_row list \<Rightarrow> config_row list" where
  "config_set key val t = sql_replace fst (key, val) t"

definition config_delete :: "string \<Rightarrow> config_row list \<Rightarrow> config_row list \<times> bool" where
  "config_delete key t =
     (case config_getExplicit t key of
        None \<Rightarrow> (t, False)
      | Some _ \<Rightarrow> (sql_delete (\<lambda>r. fst r = key) t, True))"

definition config_pattern :: "string \<Rightarrow> string" where
  "config_pattern prefix0 =
     (let normalized = js_trim prefix0
      in if suffix ''/'' normalized then normalized else normalized @ ''/'')"

definition matchesConfigPrefix :: "string \<Rightarrow> string \<Rightarrow> bool" where
  "matchesConfigPrefix key prefix0 \<longleftrightarrow>
     (if js_trim prefix0 = [] then True else prefix (config_pattern prefix0) key)"

definition ascii_lower :: "char \<Rightarrow> char" where
  "ascii_lower c = (if is_upper_az c then char_of ((of_char c :: nat) + 32) else c)"

fun sql_like :: "string \<Rightarrow> string \<Rightarrow> bool" where
  "sql_like [] s \<longleftrightarrow> s = []"
| "sql_like (p # ps) [] \<longleftrightarrow> p = CHR ''%'' \<and> sql_like ps []"
| "sql_like (p # ps) (c # cs) \<longleftrightarrow>
     (if p = CHR ''%'' then sql_like ps (c # cs) \<or> sql_like (p # ps) cs
      else (p = CHR ''_'' \<or> ascii_lower p = ascii_lower c) \<and> sql_like ps cs)"

definition listExplicit :: "config_row list \<Rightarrow> string \<Rightarrow> config_row list" where
  "listExplicit t prefix0 =
     (if js_trim prefix0 = [] then sort_key fst t
      else sort_key fst (filter (\<lambda>r. sql_like (config_pattern prefix0 @ ''%'') (fst r)) t))"

text \<open>\<open>Map.set\<close> keeps the position of a key that is present: the list operation of \<open>AList\<close>.\<close>

definition config_list ::
  "(string \<Rightarrow> string) \<Rightarrow> (string \<Rightarrow> string) \<Rightarrow> config_row list \<Rightarrow> string \<Rightarrow> config_row list" where
  "config_list imported collate t prefix0 =
     (let merged = fold (\<lambda>(k, v). AList.update k v)
                     (filter (\<lambda>r. matchesConfigPrefix (fst r) prefix0) (SYSTEM_CONFIG_DEFAULTS imported)) [];
          merged' = fold (\<lambda>(k, v). AList.update k v) (listExplicit t prefix0) merged
      in sort_key (\<lambda>r. collate (fst r)) merged')"

section \<open>Read rules\<close>

definition SENSITIVE_CONFIG_FIELDS :: "string list" where
  "SENSITIVE_CONFIG_FIELDS = [''api_key'', ''secret'', ''token'', ''password'', ''access_token'',
     ''refresh_token'', ''client_secret'']"

definition SENSITIVE_CONFIG_SUFFIXES :: "string list" where
  "SENSITIVE_CONFIG_SUFFIXES = [''_api_key'', ''_secret'', ''_token'', ''_password'']"

definition isSensitiveConfigKey :: "string \<Rightarrow> bool" where
  "isSensitiveConfigKey key =
     (let parts = filter (\<lambda>p. p \<noteq> []) (js_split (CHR ''/'') key);
          field = (if length parts > 0 then js_lower (last parts) else [])
      in if field = [] then False
         else if field \<in> set SENSITIVE_CONFIG_FIELDS then True
         else list_ex (\<lambda>sfx. suffix sfx field) SENSITIVE_CONFIG_SUFFIXES)"

definition canReadConfigKey :: "int \<Rightarrow> string \<Rightarrow> bool" where
  "canReadConfigKey uid key =
     (if uid = 0 then True
      else if prefix (''users/'' @ show_int uid @ ''/'') key then True
      else if prefix ''config/'' key then \<not> isSensitiveConfigKey key
      else False)"

section \<open>The handlers\<close>

text \<open>The caller: its run-as uid, the human owner \<open>resolveCallerOwnerUid\<close> returned, and the accounts.\<close>

record config_caller =
  cc_uid :: int
  cc_owner :: int
  cc_auth :: auth_db

definition MAX_SAFE_INTEGER :: int where
  "MAX_SAFE_INTEGER = 9007199254740991"

text \<open>\<open>^users\/(\d+)\/(.+)$\<close>: the dot does not match a line terminator.\<close>

definition parseUserConfigKey :: "string \<Rightarrow> (int \<times> string) option" where
  "parseUserConfigKey key =
     (if \<not> prefix ''users/'' key then None
      else let rest = drop 6 key; ds = takeWhile is_digit rest; sub = drop (length ds + 1) rest
           in if ds = [] \<or> \<not> prefix (ds @ ''/'') rest \<or> sub = []
                 \<or> \<not> list_all (\<lambda>c. c \<noteq> CHR 0x0A \<and> c \<noteq> CHR 0x0D) sub then None
              else let uid = int (digits_val ds)
                   in if uid > MAX_SAFE_INTEGER \<or> uid < 0 then None else Some (uid, sub))"

definition isUserOverridableConfigSubkey :: "string \<Rightarrow> bool" where
  "isUserOverridableConfigSubkey sub = list_ex (\<lambda>p. prefix p sub) USER_OVERRIDABLE_PREFIXES"

definition canManageUserConfig :: "config_caller \<Rightarrow> int \<Rightarrow> bool" where
  "canManageUserConfig ctx targetUid =
     (if cc_uid ctx = 0 then True
      else case getPasswdByUid (cc_auth ctx) targetUid of
             None \<Rightarrow> False
           | Some target \<Rightarrow> canOwnerRunAsAccount (cc_auth ctx) (cc_owner ctx) target False)"

definition canRead :: "config_caller \<Rightarrow> string \<Rightarrow> bool" where
  "canRead ctx key =
     (let uid = cc_uid ctx in
      if uid = 0 then True
      else if prefix ''config/'' key then canReadConfigKey uid key
      else if canReadConfigKey uid key then True
      else case parseUserConfigKey key of
             None \<Rightarrow> False
           | Some (u, sub) \<Rightarrow>
               if \<not> isUserOverridableConfigSubkey sub then False else canManageUserConfig ctx u)"

definition canWrite :: "config_caller \<Rightarrow> string \<Rightarrow> bool" where
  "canWrite ctx key =
     (if cc_uid ctx = 0 then True
      else case parseUserConfigKey key of
             None \<Rightarrow> False
           | Some (u, sub) \<Rightarrow>
               if \<not> isUserOverridableConfigSubkey sub then False else canManageUserConfig ctx u)"

definition shouldDeleteBlankUserOverride :: "string \<Rightarrow> string \<Rightarrow> bool" where
  "shouldDeleteBlankUserOverride key val =
     (case parseUserConfigKey key of
        None \<Rightarrow> False
      | Some (_, sub) \<Rightarrow> isUserOverridableConfigSubkey sub \<and> js_trim val = [])"

definition handleSysConfigGet ::
  "(string \<Rightarrow> string) \<Rightarrow> (string \<Rightarrow> string) \<Rightarrow> config_caller \<Rightarrow> config_row list \<Rightarrow> string option
     \<Rightarrow> config_row list result" where
  "handleSysConfigGet imported collate ctx t key0 =
     (case key0 of
        None \<Rightarrow> Inr (filter (\<lambda>r. canRead ctx (fst r))
          (if cc_uid ctx = 0 then config_list imported collate t ''''
           else config_list imported collate t ''config/'' @ config_list imported collate t ''users/''))
      | Some key \<Rightarrow>
          if key = [] then Inr (filter (\<lambda>r. canRead ctx (fst r))
            (if cc_uid ctx = 0 then config_list imported collate t ''''
             else config_list imported collate t ''config/'' @ config_list imported collate t ''users/''))
          else case config_get imported t key of
            Some exact \<Rightarrow>
              if \<not> canRead ctx key then throw (''Permission denied: cannot read '' @ key)
              else Inr [(key, exact)]
          | None \<Rightarrow>
              let prefix0 = (if suffix ''/'' key then key else key @ ''/'');
                  entries = filter (\<lambda>r. canRead ctx (fst r)) (config_list imported collate t prefix0)
              in if length entries = 0 \<and> CHR ''/'' \<notin> set key
                 then Inr (filter (\<lambda>r. canRead ctx (fst r)) (config_list imported collate t key))
                 else Inr entries)"

text \<open>\<open>val\<close> is \<open>String(args.value)\<close> when the value is neither \<open>undefined\<close> nor null.\<close>

definition handleSysConfigSet ::
  "(string \<Rightarrow> string) \<Rightarrow> config_caller \<Rightarrow> string option \<Rightarrow> string option \<Rightarrow> string option
     \<Rightarrow> config_row list \<Rightarrow> config_row list result" where
  "handleSysConfigSet imported ctx key0 val copyFrom t =
     (if \<not> truthy key0 then throw ''sys.config.set requires a key''
      else
        let key = the key0; uid = cc_uid ctx;
            copyFromKey = (case copyFrom of Some c \<Rightarrow> js_trim c | None \<Rightarrow> [])
        in
        if val = None \<and> copyFromKey = [] then throw ''sys.config.set requires a value''
        else if \<not> canWrite ctx key then
          (if uid \<noteq> 0 \<and> prefix ''config/'' key
           then throw (''Permission denied: only root can set system config ('' @ key @ '')'')
           else
             let parsed = parseUserConfigKey key in
             if uid \<noteq> 0 \<and> parsed \<noteq> None \<and> \<not> canManageUserConfig ctx (fst (the parsed))
             then throw (''Permission denied: cannot write another user's config ('' @ key @ '')'')
             else
               let sub = (case parsed of Some (_, s) \<Rightarrow> s | None \<Rightarrow> key)
               in throw (''Permission denied: key \"'' @ sub
                    @ ''\" is not user-overridable (allowed prefixes: ''
                    @ js_join '', '' USER_OVERRIDABLE_PREFIXES @ '')''))
        else if copyFromKey \<noteq> [] \<and> \<not> canRead ctx copyFromKey
        then throw (''Permission denied: cannot read '' @ copyFromKey)
        else
          let v = (if copyFromKey \<noteq> [] then config_get imported t copyFromKey else val) in
          case v of
            None \<Rightarrow> throw (''Config source not found: '' @ copyFromKey)
          | Some x \<Rightarrow>
              if shouldDeleteBlankUserOverride key x then Inr (fst (config_delete key t))
              else Inr (config_set key x t))"

section \<open>The store is a key/value store\<close>

lemma config_delete_fst: "fst (config_delete key t) = sql_delete (\<lambda>r. fst r = key) t"
proof (cases "config_getExplicit t key")
  case None
  then have "\<forall>r \<in> set t. fst r \<noteq> key" by (auto simp: config_getExplicit_def lookup_None)
  with None show ?thesis by (simp add: config_delete_def sql_delete_def filter_id_conv)
qed (simp add: config_delete_def)

interpretation config_kv: keyed_store fst "sql_lookup fst"
    "\<lambda>r. config_set (fst r) (snd r)" "\<lambda>k t. fst (config_delete k t)" "keyed fst"
  by unfold_locales (simp_all add: config_set_def config_delete_fst table_simps)

fun config_step :: "(string, config_row) store_op \<Rightarrow> config_row list \<Rightarrow> config_row list" where
  "config_step (Put r) t = config_set (fst r) (snd r) t"
| "config_step (Del k) t = fst (config_delete k t)"

fun overrides_step :: "(string, config_row) store_op \<Rightarrow> (string \<rightharpoonup> string) \<Rightarrow> (string \<rightharpoonup> string)" where
  "overrides_step (Put r) m = m(fst r \<mapsto> snd r)"
| "overrides_step (Del k) m = m(k := None)"

lemma config_step_run_op: "config_step = config_kv.run_op"
proof (intro ext)
  fix oper t show "config_step oper t = config_kv.run_op oper t" by (cases oper) simp_all
qed

lemma overrides_steps:
  "(\<lambda>k. map_option snd (m k)) = n \<Longrightarrow>
     (\<lambda>k. map_option snd (fold config_kv.map_op ops m k)) = fold overrides_step ops n"
proof (induction ops arbitrary: m n)
  case (Cons oper ops)
  have "(\<lambda>k. map_option snd (config_kv.map_op oper m k)) = overrides_step oper n"
    using Cons.prems by (cases oper) (auto simp: fun_eq_iff)
  from Cons.IH [OF this] show ?case by simp
qed simp

section \<open>What a listing returns\<close>

lemma like_all: "sql_like ''%'' s"
  by (induction s) auto

lemma like_prefix: "prefix p s \<Longrightarrow> sql_like (p @ ''%'') s"
proof (induction p arbitrary: s)
  case Nil
  show ?case using like_all [of s] by simp
next
  case (Cons a p)
  then obtain s' where s: "s = a # s'" "prefix p s'" by (auto simp: prefix_def)
  then have tl: "sql_like (p @ ''%'') s'" using Cons.IH by blast
  show ?case
  proof (cases "a = CHR ''%''")
    case True
    have skip: "sql_like (p @ ''%'') (x # xs) \<Longrightarrow> sql_like (CHR ''%'' # p @ ''%'') (x # xs)" for x xs
      by simp
    show ?thesis
    proof (cases s')
      case Nil
      with tl True s show ?thesis by simp
    next
      case (Cons y ys)
      with tl True s skip [of y ys] show ?thesis by simp
    qed
  next
    case False
    with tl s show ?thesis by simp
  qed
qed

lemma map_of_updates:
  "map_of (fold (\<lambda>(k, v). AList.update k v) xs m) = map_of m ++ map_of (rev xs)"
proof (induction xs arbitrary: m)
  case (Cons x xs)
  then show ?case by (cases x) (simp add: update_conv' map_add_def fun_eq_iff split: option.split)
qed simp

lemma distinct_updates:
  "distinct (map fst m) \<Longrightarrow> distinct (map fst (fold (\<lambda>(k, v). AList.update k v) xs m))"
  by (induction xs arbitrary: m) (auto simp: distinct_update)

lemma map_of_rev_distinct: "distinct (map fst xs) \<Longrightarrow> map_of (rev xs) = map_of xs"
proof -
  assume d: "distinct (map fst xs)"
  then have "distinct (map fst (rev xs))" by (simp add: rev_map [symmetric])
  with d have "map_of (rev xs) k = Some v \<longleftrightarrow> map_of xs k = Some v" for k v
    by (simp add: map_of_eq_Some_iff)
  then have "map_of (rev xs) k = map_of xs k" for k
    by (cases "map_of xs k"; cases "map_of (rev xs) k") (metis option.distinct(1) option.inject)+
  then show ?thesis by blast
qed

lemma map_of_filter_keys:
  "map_of (filter (\<lambda>r. P (fst r)) xs) k = (if P k then map_of xs k else None)"
  by (induction xs) auto

lemma sql_lookup_map_of: "map_option snd (sql_lookup fst t k) = map_of t k"
  by (induction t) (auto simp: sql_lookup_def)

lemma map_of_sort:
  assumes "distinct (map fst xs)"
  shows "map_of (sort_key f xs) = map_of xs"
proof (rule map_of_eqI)
  show "set (map fst (sort_key f xs)) = set (map fst xs)" by simp
  have d: "distinct (map fst (sort_key f xs))"
    using assms by (metis distinct_map distinct_sort set_sort)
  show "\<forall>k \<in> set (map fst (sort_key f xs)). map_of (sort_key f xs) k = map_of xs k"
  proof
    fix k assume "k \<in> set (map fst (sort_key f xs))"
    then obtain v where "(k, v) \<in> set (sort_key f xs)" by auto
    then show "map_of (sort_key f xs) k = map_of xs k"
      using d assms by (metis map_of_eq_Some_iff set_sort)
  qed
qed

lemma defaults_distinct: "distinct (map fst (SYSTEM_CONFIG_DEFAULTS imported))"
  by code_simp

lemma map_of_listExplicit:
  assumes "keyed fst t"
  shows "map_of (listExplicit t p) k = (if js_trim p = [] \<or> sql_like (config_pattern p @ ''%'') k
     then config_getExplicit t k else None)"
proof -
  have "distinct (map fst t)" using assms by (simp add: keyed_def)
  then show ?thesis
    by (simp add: listExplicit_def map_of_sort distinct_map_filterI map_of_filter_keys
        config_getExplicit_def sql_lookup_map_of)
qed

lemma listExplicit_distinct: "keyed fst t \<Longrightarrow> distinct (map fst (listExplicit t p))"
proof -
  assume "keyed fst t"
  then have "distinct (map fst (filter Q t))" for Q
    by (simp add: keyed_def distinct_map_filterI)
  then have "distinct (map fst (sort_key fst (filter Q t)))" for Q
    by (metis distinct_map distinct_sort set_sort)
  from this [of "\<lambda>_. True"] this show ?thesis by (simp add: listExplicit_def)
qed

lemma map_of_config_list:
  assumes "keyed fst t"
  shows "map_of (config_list imported collate t p) k =
     (if matchesConfigPrefix k p \<or> sql_like (config_pattern p @ ''%'') k \<and> config_getExplicit t k \<noteq> None
      then config_get imported t k else None)"
proof -
  let ?D = "filter (\<lambda>r. matchesConfigPrefix (fst r) p) (SYSTEM_CONFIG_DEFAULTS imported)"
  let ?E = "listExplicit t p"
  let ?M = "fold (\<lambda>(k, v). AList.update k v) ?E (fold (\<lambda>(k, v). AList.update k v) ?D [])"
  have "distinct (map fst ?M)" by (intro distinct_updates) simp
  then have "map_of (config_list imported collate t p) = map_of ?M"
    by (simp add: config_list_def Let_def map_of_sort)
  also have "map_of ?M = map_of (rev ?D) ++ map_of (rev ?E)"
    by (simp add: map_of_updates)
  also have "\<dots> = map_of ?D ++ map_of ?E"
    using defaults_distinct [of imported] listExplicit_distinct [OF assms, of p]
    by (simp add: map_of_rev_distinct distinct_map_filterI)
  finally have eq: "map_of (config_list imported collate t p) k = (map_of ?D ++ map_of ?E) k" by simp
  have like: "matchesConfigPrefix k p \<Longrightarrow> js_trim p = [] \<or> sql_like (config_pattern p @ ''%'') k"
    using like_prefix by (auto simp: matchesConfigPrefix_def split: if_splits)
  have all: "js_trim p = [] \<Longrightarrow> matchesConfigPrefix k p" by (simp add: matchesConfigPrefix_def)
  have D: "map_of ?D k = (if matchesConfigPrefix k p then map_of (SYSTEM_CONFIG_DEFAULTS imported) k else None)"
    by (rule map_of_filter_keys)
  show ?thesis
    unfolding eq map_add_def D map_of_listExplicit [OF assms] config_get_def
    using like all by (auto split: option.splits)
qed

lemma distinct_sort_fst: "distinct (map fst m) \<Longrightarrow> distinct (map fst (sort_key f m))"
  by (metis distinct_map distinct_sort set_sort)

lemma config_list_distinct: "distinct (map fst (config_list imported collate t p))"
  unfolding config_list_def Let_def
  by (intro distinct_sort_fst distinct_updates) simp

lemma config_list_values:
  "keyed fst t \<Longrightarrow> (k, v) \<in> set (config_list imported collate t p) \<Longrightarrow> config_get imported t k = Some v"
proof -
  assume t: "keyed fst t" and kv: "(k, v) \<in> set (config_list imported collate t p)"
  with config_list_distinct [of imported collate t p] have "map_of (config_list imported collate t p) k = Some v" by simp
  then show ?thesis by (simp add: map_of_config_list [OF t] split: if_splits)
qed

section \<open>Properties\<close>

text \<open>
  The configuration store refines a map of overrides over the code's defaults: after any
  sequence of sets and deletes a read returns the last value set for the key, or the live default
  when the override was never set or was deleted.
\<close>

theorem config_store_refines_overrides:
  "config_get imported (fold config_step ops []) key =
     (case fold overrides_step ops Map.empty key of
        Some v \<Rightarrow> Some v | None \<Rightarrow> map_of (SYSTEM_CONFIG_DEFAULTS imported) key)"
proof -
  have "sql_lookup fst [] = (Map.empty :: string \<rightharpoonup> config_row)" by (rule ext) simp
  then have "sql_lookup fst (fold config_kv.run_op ops []) = fold config_kv.map_op ops Map.empty"
    using config_kv.run_refines [of "[]" ops] by simp
  then have "(\<lambda>k. config_getExplicit (fold config_step ops []) k)
      = (\<lambda>k. map_option snd (fold config_kv.map_op ops Map.empty k))"
    by (simp add: config_getExplicit_def config_step_run_op fun_eq_iff sql_lookup_def)
  also have "\<dots> = fold overrides_step ops Map.empty" by (rule overrides_steps) simp
  finally show ?thesis by (simp add: config_get_def fun_eq_iff split: option.split)
qed

text \<open>
  A listing agrees with single reads: it contains a key at most once, every value in it is the
  one \<open>get\<close> returns, every key under the prefix that has a value is listed, and any other key in it
  is an explicit override that matches the prefix as an SQL pattern.
\<close>

theorem config_list_agrees_with_get:
  assumes "keyed fst t"
  shows "distinct (map fst (config_list imported collate t p))
    \<and> ((k, v) \<in> set (config_list imported collate t p) \<longleftrightarrow>
        config_get imported t k = Some v
        \<and> (matchesConfigPrefix k p
           \<or> sql_like (config_pattern p @ ''%'') k \<and> config_getExplicit t k \<noteq> None))"
proof -
  note d = config_list_distinct [of imported collate t p]
  then have "(k, v) \<in> set (config_list imported collate t p)
      \<longleftrightarrow> map_of (config_list imported collate t p) k = Some v"
    by simp
  with d show ?thesis by (auto simp: map_of_config_list [OF assms])
qed

theorem config_list_agrees_with_get_witness:
  "(''config/ai/model'', ''m'') \<in> set (config_list (\<lambda>_. []) (\<lambda>s. s) [(''config/ai/model'', ''m'')] ''config/ai'')"
proof -
  have "keyed fst [(''config/ai/model'', ''m'')]" by (simp add: keyed_def)
  moreover have "matchesConfigPrefix ''config/ai/model'' ''config/ai''" by code_simp
  moreover have "config_get (\<lambda>_. []) [(''config/ai/model'', ''m'')] ''config/ai/model'' = Some ''m''"
    by (simp add: config_get_def config_getExplicit_def sql_lookup_def)
  ultimately show ?thesis using config_list_agrees_with_get [of "[(''config/ai/model'', ''m'')]"] by blast
qed

text \<open>The pattern is not escaped: a wildcard in the prefix lists keys outside it.\<close>

lemma list_matches_outside_prefix:
  "listExplicit [(''config/ai/axb/key'', ''v'')] ''config/ai/a_b'' = [(''config/ai/axb/key'', ''v'')]
   \<and> \<not> matchesConfigPrefix ''config/ai/axb/key'' ''config/ai/a_b''"
  by code_simp

lemma canRead_iff:
  "canRead ctx key \<longleftrightarrow> cc_uid ctx = 0
     \<or> prefix ''config/'' key \<and> \<not> isSensitiveConfigKey key
     \<or> prefix (''users/'' @ show_int (cc_uid ctx) @ ''/'') key
     \<or> \<not> prefix ''config/'' key
       \<and> (\<exists>u sub. parseUserConfigKey key = Some (u, sub) \<and> isUserOverridableConfigSubkey sub
            \<and> canManageUserConfig ctx u)"
  by (auto simp: canRead_def canReadConfigKey_def Let_def prefix_def split: option.splits if_splits)

text \<open>
  Reads are confined: whatever key, prefix or wildcard a caller who is not root asks for, every
  entry \<open>sys.config.get\<close> returns is his own, a system key that does not name a secret, or an
  overridable key of an account its owner may run as; and its value is the one stored.
\<close>

theorem config_reads_confined:
  assumes "keyed fst t" and "handleSysConfigGet imported collate ctx t key0 = Inr entries"
    and "(k, v) \<in> set entries" and "cc_uid ctx \<noteq> 0"
  shows "config_get imported t k = Some v
    \<and> (prefix (''users/'' @ show_int (cc_uid ctx) @ ''/'') k
       \<or> prefix ''config/'' k \<and> \<not> isSensitiveConfigKey k
       \<or> (\<exists>u sub target. parseUserConfigKey k = Some (u, sub) \<and> isUserOverridableConfigSubkey sub
            \<and> getPasswdByUid (cc_auth ctx) u = Some target
            \<and> canOwnerRunAsAccount (cc_auth ctx) (cc_owner ctx) target False))"
proof -
  have list: "(k, v) \<in> set (config_list imported collate t p) \<Longrightarrow> config_get imported t k = Some v" for p
    using config_list_values [OF assms(1)] by blast
  have "canRead ctx k \<and> config_get imported t k = Some v"
    using assms(2,3) list
    by (auto simp: handleSysConfigGet_def Let_def split: option.splits if_splits)
  with assms(4) show ?thesis
    by (auto simp: canRead_iff canManageUserConfig_def split: option.splits)
qed

definition demo_caller :: config_caller where
  "demo_caller = \<lparr> cc_uid = 1000, cc_owner = 1000, cc_auth = demo_auth \<rparr>"

theorem config_reads_confined_witness:
  "handleSysConfigGet (\<lambda>_. []) (\<lambda>s. s) demo_caller [(''users/1000/ai/model'', ''m'')]
      (Some ''users/1000/ai/model'') = Inr [(''users/1000/ai/model'', ''m'')]
   \<and> \<not> isSensitiveConfigKey ''users/1000/ai/model''"
proof -
  let ?t = "[(''users/1000/ai/model'', ''m'')]"
  have run: "handleSysConfigGet (\<lambda>_. []) (\<lambda>s. s) demo_caller ?t (Some ''users/1000/ai/model'') = Inr ?t"
    by code_simp
  have "config_get (\<lambda>_. []) ?t ''users/1000/ai/model'' = Some ''m''"
    using config_reads_confined [of ?t "\<lambda>_. []" "\<lambda>s. s" demo_caller, OF _ run]
    by (simp add: keyed_def demo_caller_def)
  then show ?thesis using run by code_simp
qed

text \<open>
  C20. Writes are confined: a set by a caller who is not root succeeds only on an overridable key of
  an account its owner may run as, changes that key alone, clears it when the value is blank, and
  stores either the given value or one the caller could read under the key it copies from.
\<close>

theorem config_writes_confined:
  assumes "keyed fst t" and "handleSysConfigSet imported ctx (Some key) val copyFrom t = Inr t'"
    and "cc_uid ctx \<noteq> 0"
  shows "\<exists>u sub target x. parseUserConfigKey key = Some (u, sub) \<and> isUserOverridableConfigSubkey sub
     \<and> getPasswdByUid (cc_auth ctx) u = Some target
     \<and> canOwnerRunAsAccount (cc_auth ctx) (cc_owner ctx) target False
     \<and> (\<forall>k. config_getExplicit t' k =
          (if k = key then (if js_trim x = [] then None else Some x) else config_getExplicit t k))
     \<and> (val = Some x
        \<or> (\<exists>c. c \<noteq> [] \<and> map_option js_trim copyFrom = Some c \<and> canRead ctx c
              \<and> config_get imported t c = Some x))"
proof -
  let ?c = "case copyFrom of Some c \<Rightarrow> js_trim c | None \<Rightarrow> []"
  have wr: "canWrite ctx key" and rd: "?c \<noteq> [] \<Longrightarrow> canRead ctx ?c"
    using assms(2) by (auto simp: handleSysConfigSet_def Let_def split: if_splits option.splits)
  obtain x where x: "(if ?c \<noteq> [] then config_get imported t ?c else val) = Some x"
    and t': "t' = (if shouldDeleteBlankUserOverride key x then fst (config_delete key t) else config_set key x t)"
    using assms(2)
    by (auto simp: handleSysConfigSet_def Let_def split: if_splits option.splits)
  obtain u sub target where p: "parseUserConfigKey key = Some (u, sub)" "isUserOverridableConfigSubkey sub"
    "getPasswdByUid (cc_auth ctx) u = Some target"
    "canOwnerRunAsAccount (cc_auth ctx) (cc_owner ctx) target False"
    using wr assms(3) by (auto simp: canWrite_def canManageUserConfig_def split: option.splits if_splits)
  have "config_getExplicit t' k =
      (if k = key then (if js_trim x = [] then None else Some x) else config_getExplicit t k)" for k
    using p(1,2) config_kv.lookup_put [OF assms(1), of "(key, x)" k] config_kv.lookup_del [OF assms(1), of key k]
    by (auto simp: t' shouldDeleteBlankUserOverride_def config_getExplicit_def split: if_splits)
  moreover have "val = Some x \<or> (\<exists>c. c \<noteq> [] \<and> map_option js_trim copyFrom = Some c \<and> canRead ctx c
              \<and> config_get imported t c = Some x)"
    using x rd by (cases copyFrom) (auto split: if_splits)
  ultimately show ?thesis using p by blast
qed

theorem config_writes_confined_witness:
  "\<exists>t'. handleSysConfigSet (\<lambda>_. []) demo_caller (Some ''users/1000/ai/model'') (Some ''x'') None [] = Inr t'
     \<and> config_getExplicit t' ''users/1000/ai/model'' = Some ''x''"
proof -
  have run: "handleSysConfigSet (\<lambda>_. []) demo_caller (Some ''users/1000/ai/model'') (Some ''x'') None []
      = Inr [(''users/1000/ai/model'', ''x'')]"
    by code_simp
  have "\<not> js_ws (CHR ''x'')" by (simp add: js_ws_def)
  then have "js_trim ''x'' = ''x''" by (intro js_trim_eq_self) simp
  with config_writes_confined [OF _ run] run show ?thesis
    by (auto simp: demo_caller_def)
qed

end
