(* ===== verification/Devices.thy ===== *)
theory Devices
  imports Config
begin

text \<open>
  The device registry (\<open>kernel/devices.ts\<close>) and the targets a caller sees (\<open>kernel/targets.ts\<close>). The
  registry is two tables: the devices, keyed by device id, and the access list, keyed by (device,
  group). The \<open>implements\<close> column holds the JSON of a list of patterns, represented by the list.
\<close>

record device_row =
  dv_id :: string
  dv_owner_uid :: int
  dv_label :: string
  dv_description :: string
  dv_implements :: "string list"
  dv_platform :: string
  dv_version :: string
  dv_online :: bool
  dv_first_seen_at :: int
  dv_last_seen_at :: int
  dv_connected_at :: "int option"
  dv_disconnected_at :: "int option"

type_synonym access_row = "string \<times> int"

record device_registry =
  rg_devices :: "device_row list"
  rg_access :: "access_row list"

definition normalizeDeviceLabel :: "string option \<Rightarrow> string \<Rightarrow> string" where
  "normalizeDeviceLabel v fallback =
     (let trimmed = js_trim (coalesce v [])
      in take 120 (if trimmed \<noteq> [] then trimmed else fallback))"

definition normalizeDeviceDescription :: "string \<Rightarrow> string" where
  "normalizeDeviceDescription v = take 500 (js_trim v)"

definition toDeviceRecord :: "device_row \<Rightarrow> device_row" where
  "toDeviceRecord r = r\<lparr> dv_label := normalizeDeviceLabel (Some (dv_label r)) (dv_id r) \<rparr>"

definition device_get :: "device_registry \<Rightarrow> string \<Rightarrow> device_row option" where
  "device_get rg i = map_option toDeviceRecord (sql_lookup dv_id (rg_devices rg) i)"

definition device_register ::
  "int \<Rightarrow> string \<Rightarrow> int \<Rightarrow> int \<Rightarrow> string list \<Rightarrow> string \<Rightarrow> string \<Rightarrow> string option \<Rightarrow> string option
     \<Rightarrow> device_registry \<Rightarrow> device_registry \<times> unit result" where
  "device_register now deviceId ownerUid ownerGid impl platform version optLabel optDescription rg =
     (case find (\<lambda>p. \<not> isValidCapability p) impl of
        Some pat \<Rightarrow> (rg, throw (''Invalid implements pattern: '' @ pat))
      | None \<Rightarrow>
          (let existing = device_get rg deviceId;
               sameOwner = (map_option dv_owner_uid existing = Some ownerUid)
           in if existing \<noteq> None \<and> \<not> sameOwner
              then (rg, throw (''Device id already belongs to another user: '' @ deviceId))
              else
                (let label = normalizeDeviceLabel
                       (case optLabel of Some l \<Rightarrow> Some l
                        | None \<Rightarrow> if sameOwner then map_option dv_label existing else None) deviceId;
                     description = normalizeDeviceDescription
                       (coalesce (case optDescription of Some d \<Rightarrow> Some d
                        | None \<Rightarrow> if sameOwner then map_option dv_description existing else None) [])
                 in if existing \<noteq> None
                    then (rg\<lparr> rg_devices := sql_update (\<lambda>r. dv_id r = deviceId)
                            (\<lambda>r. r\<lparr> dv_owner_uid := ownerUid, dv_label := label,
                                    dv_description := description, dv_implements := impl,
                                    dv_platform := platform, dv_version := version, dv_online := True,
                                    dv_last_seen_at := now, dv_connected_at := Some now,
                                    dv_disconnected_at := None \<rparr>) (rg_devices rg) \<rparr>, Inr ())
                    else (rg\<lparr> rg_devices := rg_devices rg @
                            [\<lparr> dv_id = deviceId, dv_owner_uid = ownerUid, dv_label = label,
                               dv_description = description, dv_implements = impl,
                               dv_platform = platform, dv_version = version, dv_online = True,
                               dv_first_seen_at = now, dv_last_seen_at = now,
                               dv_connected_at = Some now, dv_disconnected_at = None \<rparr>],
                              rg_access := sql_ignore (\<lambda>x. x) (deviceId, ownerGid) (rg_access rg) \<rparr>,
                          Inr ()))))"

definition device_setOnline :: "int \<Rightarrow> string \<Rightarrow> bool \<Rightarrow> device_registry \<Rightarrow> device_registry" where
  "device_setOnline now deviceId online rg =
     (if online
      then rg\<lparr> rg_devices := sql_update (\<lambda>r. dv_id r = deviceId)
             (\<lambda>r. r\<lparr> dv_online := True, dv_connected_at := Some now, dv_disconnected_at := None,
                     dv_last_seen_at := now \<rparr>) (rg_devices rg) \<rparr>
      else rg\<lparr> rg_devices := sql_update (\<lambda>r. dv_id r = deviceId)
             (\<lambda>r. r\<lparr> dv_online := False, dv_disconnected_at := Some now, dv_last_seen_at := now \<rparr>)
             (rg_devices rg) \<rparr>)"

definition device_remove :: "string \<Rightarrow> device_registry \<Rightarrow> device_registry \<times> bool" where
  "device_remove deviceId rg =
     (case device_get rg deviceId of
        None \<Rightarrow> (rg, False)
      | Some _ \<Rightarrow> (rg\<lparr> rg_access := sql_delete (\<lambda>x. fst x = deviceId) (rg_access rg),
                      rg_devices := sql_delete (\<lambda>r. dv_id r = deviceId) (rg_devices rg) \<rparr>, True))"

definition device_listOnline :: "device_registry \<Rightarrow> device_row list" where
  "device_listOnline rg = map toDeviceRecord (sort_key dv_id (filter dv_online (rg_devices rg)))"

text \<open>\<open>devices d LEFT JOIN device_access da ON d.device_id = da.device_id\<close>.\<close>

definition join_access :: "device_registry \<Rightarrow> (device_row \<times> int option) list" where
  "join_access rg = concat (map (\<lambda>d.
     let m = filter (\<lambda>x. fst x = dv_id d) (rg_access rg)
     in if m = [] then [(d, None)] else map (\<lambda>x. (d, Some (snd x))) m) (rg_devices rg))"

definition device_listForUser :: "device_registry \<Rightarrow> int \<Rightarrow> int list \<Rightarrow> device_row list" where
  "device_listForUser rg uid gids =
     map toDeviceRecord
       (if uid = 0 then sort_key dv_id (rg_devices rg)
        else if length gids > 0
        then sort_key dv_id (remdups (map fst (filter
               (\<lambda>(d, g). dv_owner_uid d = uid \<or> (case g of Some x \<Rightarrow> x \<in> set gids | None \<Rightarrow> False))
               (join_access rg))))
        else sort_key dv_id (filter (\<lambda>d. dv_owner_uid d = uid) (rg_devices rg)))"

definition device_setMetadata ::
  "int \<Rightarrow> string \<Rightarrow> string option \<Rightarrow> string option \<Rightarrow> device_registry \<Rightarrow> device_registry \<times> bool" where
  "device_setMetadata now deviceId plabel pdesc rg =
     (case device_get rg deviceId of
        None \<Rightarrow> (rg, False)
      | Some existing \<Rightarrow>
          (let label = (case plabel of None \<Rightarrow> dv_label existing
                        | Some l \<Rightarrow> normalizeDeviceLabel (Some l) (dv_id existing));
               description = (case pdesc of None \<Rightarrow> dv_description existing
                              | Some d \<Rightarrow> normalizeDeviceDescription d)
           in (rg\<lparr> rg_devices := sql_update (\<lambda>r. dv_id r = deviceId)
                     (\<lambda>r. r\<lparr> dv_label := label, dv_description := description, dv_last_seen_at := now \<rparr>)
                     (rg_devices rg) \<rparr>, True)))"

definition device_setDescription :: "int \<Rightarrow> string \<Rightarrow> string \<Rightarrow> device_registry \<Rightarrow> device_registry \<times> bool" where
  "device_setDescription now deviceId description = device_setMetadata now deviceId None (Some description)"

definition device_canAccess :: "device_registry \<Rightarrow> string \<Rightarrow> int \<Rightarrow> int list \<Rightarrow> bool" where
  "device_canAccess rg deviceId uid gids =
     (if uid = 0 then True
      else case device_get rg deviceId of
             None \<Rightarrow> False
           | Some device \<Rightarrow>
               if dv_owner_uid device = uid then True
               else if length gids = 0 then False
               else filter (\<lambda>x. fst x = deviceId \<and> snd x \<in> set gids) (rg_access rg) \<noteq> [])"

definition device_canHandle :: "device_registry \<Rightarrow> string \<Rightarrow> string \<Rightarrow> bool" where
  "device_canHandle rg deviceId syscall =
     (case device_get rg deviceId of
        None \<Rightarrow> False
      | Some device \<Rightarrow> hasCapability (dv_implements device) syscall)"

definition findDevice :: "device_registry \<Rightarrow> string \<Rightarrow> int \<Rightarrow> int list \<Rightarrow> device_row option" where
  "findDevice rg syscall uid gids =
     find (\<lambda>d. hasCapability (dv_implements d) syscall \<and> device_canAccess rg (dv_id d) uid gids)
       (device_listOnline rg)"

definition device_grantAccess :: "string \<Rightarrow> int \<Rightarrow> device_registry \<Rightarrow> device_registry" where
  "device_grantAccess deviceId gid rg = rg\<lparr> rg_access := sql_ignore (\<lambda>x. x) (deviceId, gid) (rg_access rg) \<rparr>"

definition device_revokeAccess :: "string \<Rightarrow> int \<Rightarrow> device_registry \<Rightarrow> device_registry" where
  "device_revokeAccess deviceId gid rg =
     rg\<lparr> rg_access := sql_delete (\<lambda>x. fst x = deviceId \<and> snd x = gid) (rg_access rg) \<rparr>"

definition device_listAccess :: "device_registry \<Rightarrow> string \<Rightarrow> int list" where
  "device_listAccess rg deviceId = sort (map snd (filter (\<lambda>x. fst x = deviceId) (rg_access rg)))"

section \<open>Targets\<close>

record target_descriptor =
  tg_targetId :: string
  tg_ownerUid :: int
  tg_ownerUsername :: "string option"
  tg_label :: string
  tg_description :: string
  tg_platform :: string
  tg_version :: string
  tg_online :: bool
  tg_implements :: "string list"
  tg_firstSeenAt :: int
  tg_lastSeenAt :: int
  tg_connectedAt :: "int option"
  tg_disconnectedAt :: "int option"

text \<open>The part of the kernel context a target call reads: the identity of the caller (absent before
  authentication), the accounts and the devices.\<close>

record target_ctx =
  tc_identity :: "proc_identity option"
  tc_auth :: auth_db
  tc_devices :: device_registry

definition deviceRecordToTarget :: "auth_db \<Rightarrow> device_row \<Rightarrow> target_descriptor" where
  "deviceRecordToTarget db r =
     \<lparr> tg_targetId = dv_id r, tg_ownerUid = dv_owner_uid r,
       tg_ownerUsername = map_option pw_username (getPasswdByUid db (dv_owner_uid r)),
       tg_label = dv_label r, tg_description = dv_description r, tg_platform = dv_platform r,
       tg_version = dv_version r, tg_online = dv_online r, tg_implements = dv_implements r,
       tg_firstSeenAt = dv_first_seen_at r, tg_lastSeenAt = dv_last_seen_at r,
       tg_connectedAt = dv_connected_at r, tg_disconnectedAt = dv_disconnected_at r \<rparr>"

definition listVisibleTargets :: "target_ctx \<Rightarrow> bool \<Rightarrow> target_descriptor list" where
  "listVisibleTargets ctx includeOffline =
     (case tc_identity ctx of
        None \<Rightarrow> []
      | Some ident \<Rightarrow>
          map (deviceRecordToTarget (tc_auth ctx))
            (filter (\<lambda>d. includeOffline \<or> dv_online d)
              (device_listForUser (tc_devices ctx) (pi_uid ident) (pi_gids ident))))"

definition getVisibleTarget :: "target_ctx \<Rightarrow> string \<Rightarrow> bool \<Rightarrow> target_descriptor option" where
  "getVisibleTarget ctx targetId includeOffline =
     (case tc_identity ctx of
        None \<Rightarrow> None
      | Some ident \<Rightarrow>
          if \<not> device_canAccess (tc_devices ctx) targetId (pi_uid ident) (pi_gids ident) then None
          else case device_get (tc_devices ctx) targetId of
                 None \<Rightarrow> None
               | Some device \<Rightarrow>
                   if \<not> includeOffline \<and> \<not> dv_online device then None
                   else Some (deviceRecordToTarget (tc_auth ctx) device))"

definition updateTargetMetadata ::
  "int \<Rightarrow> target_ctx \<Rightarrow> string \<Rightarrow> string option \<Rightarrow> string option
     \<Rightarrow> (device_registry \<times> target_descriptor option) result" where
  "updateTargetMetadata now ctx targetId plabel pdesc =
     (case tc_identity ctx of
        None \<Rightarrow> throw ''Authentication required''
      | Some ident \<Rightarrow>
          (case getVisibleTarget ctx targetId True of
             None \<Rightarrow> Inr (tc_devices ctx, None)
           | Some target \<Rightarrow>
               if pi_uid ident \<noteq> 0 \<and> tg_ownerUid target \<noteq> pi_uid ident
               then throw ''Permission denied: device metadata is owner-managed''
               else
                 (let rg = fst (device_setMetadata now (tg_targetId target) plabel pdesc (tc_devices ctx))
                  in Inr (rg, map_option (deviceRecordToTarget (tc_auth ctx))
                               (device_get rg (tg_targetId target))))))"

definition targetCanHandle :: "target_descriptor \<Rightarrow> string \<Rightarrow> bool" where
  "targetCanHandle target syscall = hasCapability (tg_implements target) syscall"

record ai_tools_device =
  ad_id :: string
  ad_implements :: "string list"
  ad_label :: string
  ad_description :: "string option"
  ad_platform :: "string option"

definition targetToAiDevice :: "target_descriptor \<Rightarrow> ai_tools_device" where
  "targetToAiDevice t =
     \<lparr> ad_id = tg_targetId t, ad_implements = tg_implements t, ad_label = tg_label t,
       ad_description = (if tg_description t \<noteq> [] then Some (tg_description t) else None),
       ad_platform = (if tg_platform t \<noteq> [] then Some (tg_platform t) else None) \<rparr>"

section \<open>Operations as steps\<close>

datatype device_op =
    DRegister int string int int "string list" string string "string option" "string option"
  | DSetOnline int string bool
  | DRemove string
  | DSetMetadata int string "string option" "string option"
  | DGrant string int
  | DRevoke string int

fun device_step :: "device_op \<Rightarrow> device_registry \<Rightarrow> device_registry" where
  "device_step (DRegister now i uid gid impl pl vs l d) rg =
     fst (device_register now i uid gid impl pl vs l d rg)"
| "device_step (DSetOnline now i b) rg = device_setOnline now i b rg"
| "device_step (DRemove i) rg = fst (device_remove i rg)"
| "device_step (DSetMetadata now i l d) rg = fst (device_setMetadata now i l d rg)"
| "device_step (DGrant i g) rg = device_grantAccess i g rg"
| "device_step (DRevoke i g) rg = device_revokeAccess i g rg"

definition registry_ok :: "device_registry \<Rightarrow> bool" where
  "registry_ok rg \<longleftrightarrow> keyed dv_id (rg_devices rg) \<and> keyed (\<lambda>x. x) (rg_access rg)
     \<and> (\<forall>r \<in> set (rg_devices rg). list_all isValidCapability (dv_implements r))"

definition empty_registry :: device_registry where
  "empty_registry = \<lparr> rg_devices = [], rg_access = [] \<rparr>"

lemma toDeviceRecord_sel [simp]:
  "dv_id (toDeviceRecord r) = dv_id r" "dv_owner_uid (toDeviceRecord r) = dv_owner_uid r"
  "dv_online (toDeviceRecord r) = dv_online r" "dv_implements (toDeviceRecord r) = dv_implements r"
  "dv_first_seen_at (toDeviceRecord r) = dv_first_seen_at r"
  by (simp_all add: toDeviceRecord_def)

lemma device_get_None: "device_get rg i = None \<longleftrightarrow> (\<forall>r \<in> set (rg_devices rg). dv_id r \<noteq> i)"
  by (simp add: device_get_def lookup_None)

lemma update_valid:
  assumes "\<forall>r \<in> set t. list_all isValidCapability (dv_implements r)"
    and "\<And>r. list_all isValidCapability (dv_implements r) \<Longrightarrow> list_all isValidCapability (dv_implements (f r))"
  shows "\<forall>r \<in> set (sql_update P f t). list_all isValidCapability (dv_implements r)"
  using assms by (auto simp: in_update)

lemma device_step_ok: "registry_ok rg \<Longrightarrow> registry_ok (device_step oper rg)"
proof (cases oper)
  case (DRegister now i uid gid impl pl vs l d)
  assume ok: "registry_ok rg"
  show ?thesis
  proof (cases "find (\<lambda>p. \<not> isValidCapability p) impl")
    case None
    then have "list_all isValidCapability impl" by (simp add: find_None_all list_all_iff)
    with ok None show ?thesis
      by (auto simp: DRegister device_register_def registry_ok_def Let_def device_get_None
          intro!: keyed_update keyed_ignore split: option.splits)
        (auto simp: in_update split: if_splits)
  qed (use ok in \<open>simp add: DRegister device_register_def\<close>)
next
  case (DSetOnline now i b)
  assume "registry_ok rg"
  then show ?thesis
    by (auto simp: DSetOnline device_setOnline_def registry_ok_def intro!: keyed_update)
      (auto simp: in_update split: if_splits)
next
  case (DRemove i)
  assume "registry_ok rg"
  then show ?thesis
    by (auto simp: DRemove device_remove_def registry_ok_def split: option.splits)
next
  case (DSetMetadata now i l d)
  assume "registry_ok rg"
  then show ?thesis
    by (auto simp: DSetMetadata device_setMetadata_def Let_def registry_ok_def intro!: keyed_update
        split: option.splits)
      (auto simp: in_update split: if_splits)
qed (auto simp: device_grantAccess_def device_revokeAccess_def registry_ok_def)

lemma device_steps_ok: "registry_ok rg \<Longrightarrow> registry_ok (fold device_step ops rg)"
  by (induction ops arbitrary: rg) (auto intro: device_step_ok)

lemma empty_registry_ok [simp]: "registry_ok empty_registry"
  by (simp add: registry_ok_def empty_registry_def)

text \<open>What is stable about a device that stays registered: its owner and when it was first seen.\<close>

definition device_birth :: "device_registry \<Rightarrow> string \<Rightarrow> (int \<times> int) option" where
  "device_birth rg i = map_option (\<lambda>r. (dv_owner_uid r, dv_first_seen_at r)) (sql_lookup dv_id (rg_devices rg) i)"

lemma birth_update:
  assumes "\<And>r. dv_id (f r) = dv_id r"
    and "\<And>r. sql_lookup dv_id t i = Some r \<Longrightarrow> P r \<Longrightarrow> dv_owner_uid (f r) = dv_owner_uid r
           \<and> dv_first_seen_at (f r) = dv_first_seen_at r"
  shows "map_option (\<lambda>r. (dv_owner_uid r, dv_first_seen_at r)) (sql_lookup dv_id (sql_update P f t) i)
       = map_option (\<lambda>r. (dv_owner_uid r, dv_first_seen_at r)) (sql_lookup dv_id t i)"
  using assms by (cases "sql_lookup dv_id t i") (auto simp: lookup_update)

lemma device_birth_step:
  assumes "device_birth rg i = Some b" and "oper \<noteq> DRemove i"
  shows "device_birth (device_step oper rg) i = Some b"
proof (cases oper)
  case (DRegister now j uid gid impl pl vs l d)
  show ?thesis
  proof (cases "device_get rg j")
    case None
    then have "j \<noteq> i" using assms(1) by (auto simp: device_birth_def device_get_def)
    with None assms(1) show ?thesis
      by (auto simp: DRegister device_register_def Let_def device_birth_def sql_lookup_def find_append
          split: option.splits)
  next
    case (Some r)
    show ?thesis
    proof (cases "dv_owner_uid r = uid \<and> find (\<lambda>p. \<not> isValidCapability p) impl = None")
      case True
      have "map_option (\<lambda>r. (dv_owner_uid r, dv_first_seen_at r))
          (sql_lookup dv_id (rg_devices (device_step oper rg)) i)
        = map_option (\<lambda>r. (dv_owner_uid r, dv_first_seen_at r)) (sql_lookup dv_id (rg_devices rg) i)"
      proof -
        from Some True obtain z where z: "sql_lookup dv_id (rg_devices rg) j = Some z" "dv_owner_uid z = uid"
          by (auto simp: device_get_def)
        then have same: "dv_owner_uid x = uid" if "sql_lookup dv_id (rg_devices rg) i = Some x" "dv_id x = j" for x
          using that by (metis lookup_Some option.inject)
        show ?thesis
          using Some True
          unfolding DRegister device_step.simps device_register_def
          by (simp add: Let_def) (rule birth_update, simp_all add: same)
      qed
      with assms(1) show ?thesis by (simp add: device_birth_def)
    qed (use Some assms(1) in \<open>auto simp: DRegister device_register_def Let_def split: option.splits\<close>)
  qed
next
  case (DSetOnline now j b')
  have "device_birth (device_setOnline now j b' rg) i = device_birth rg i"
    unfolding device_birth_def device_setOnline_def
    by (cases b') (simp_all add: birth_update)
  with DSetOnline assms(1) show ?thesis by simp
next
  case (DRemove j)
  then show ?thesis using assms
    by (auto simp: device_remove_def device_birth_def lookup_delete_key split: option.splits)
next
  case (DSetMetadata now j l d)
  have "device_birth (fst (device_setMetadata now j l d rg)) i = device_birth rg i"
    unfolding device_birth_def device_setMetadata_def Let_def
    by (cases "device_get rg j") (simp_all add: birth_update)
  with DSetMetadata assms(1) show ?thesis by simp
qed (use assms(1) in \<open>auto simp: device_grantAccess_def device_revokeAccess_def device_birth_def\<close>)

section \<open>Access\<close>

lemma bex_fst: "(\<exists>x \<in> A. fst x = a) \<longleftrightarrow> (\<exists>y. (a, y) \<in> A)"
  and bex_fst_snd: "(\<exists>x \<in> A. fst x = a \<and> P (snd x)) \<longleftrightarrow> (\<exists>y. (a, y) \<in> A \<and> P y)"
  by force+

lemma in_join:
  "(d, g) \<in> set (join_access rg) \<longleftrightarrow> d \<in> set (rg_devices rg)
     \<and> (case g of Some x \<Rightarrow> (dv_id d, x) \<in> set (rg_access rg)
        | None \<Rightarrow> \<not> (\<exists>x. (dv_id d, x) \<in> set (rg_access rg)))"
  unfolding join_access_def Let_def
  by (force simp: filter_empty_conv image_iff split: option.splits if_splits)

lemma in_listForUser:
  assumes "registry_ok rg"
  shows "d \<in> set (device_listForUser rg uid gids) \<longleftrightarrow>
    (\<exists>i. device_get rg i = Some d \<and> device_canAccess rg i uid gids)"
proof -
  have k: "keyed dv_id (rg_devices rg)" using assms by (simp add: registry_ok_def)
  have get: "device_get rg i = Some d \<longleftrightarrow> (\<exists>r \<in> set (rg_devices rg). dv_id r = i \<and> d = toDeviceRecord r)" for i
    using lookup_iff [OF k, of i] by (auto simp: device_get_def)
  have acc: "device_canAccess rg (dv_id r) uid gids \<longleftrightarrow>
      uid = 0 \<or> dv_owner_uid r = uid \<or> (\<exists>x \<in> set gids. (dv_id r, x) \<in> set (rg_access rg))"
    if "r \<in> set (rg_devices rg)" for r
  proof -
    from that have "device_get rg (dv_id r) = Some (toDeviceRecord r)"
      using lookup_iff [OF k, of "dv_id r" r] by (simp add: device_get_def)
    moreover have "filter (\<lambda>x. fst x = dv_id r \<and> snd x \<in> set gids) (rg_access rg) \<noteq> []
        \<longleftrightarrow> (\<exists>x \<in> set gids. (dv_id r, x) \<in> set (rg_access rg))"
      using bex_fst_snd [of "set (rg_access rg)" "dv_id r" "\<lambda>x. x \<in> set gids"]
      by (auto simp: filter_empty_conv)
    ultimately show ?thesis by (auto simp: device_canAccess_def)
  qed
  have joined: "r \<in> fst ` {x \<in> set (join_access rg). case x of (d, g) \<Rightarrow>
        dv_owner_uid d = uid \<or> (case g of Some x \<Rightarrow> x \<in> set gids | None \<Rightarrow> False)}
      \<longleftrightarrow> r \<in> set (rg_devices rg) \<and> (dv_owner_uid r = uid \<or> (\<exists>x \<in> set gids. (dv_id r, x) \<in> set (rg_access rg)))"
    for r
  proof
    assume "r \<in> set (rg_devices rg) \<and> (dv_owner_uid r = uid \<or> (\<exists>x \<in> set gids. (dv_id r, x) \<in> set (rg_access rg)))"
    then have "\<exists>g. (r, g) \<in> set (join_access rg)
        \<and> (dv_owner_uid r = uid \<or> (case g of Some x \<Rightarrow> x \<in> set gids | None \<Rightarrow> False))"
      unfolding in_join
      by (cases "\<exists>x. (dv_id r, x) \<in> set (rg_access rg)") (auto intro: exI [of _ "Some _"] exI [of _ None])
    then show "r \<in> fst ` {x \<in> set (join_access rg). case x of (d, g) \<Rightarrow>
        dv_owner_uid d = uid \<or> (case g of Some x \<Rightarrow> x \<in> set gids | None \<Rightarrow> False)}" by force
  qed (auto simp: in_join split: option.splits)
  have "d \<in> set (device_listForUser rg uid gids) \<longleftrightarrow>
      (\<exists>r \<in> set (rg_devices rg). d = toDeviceRecord r \<and> (uid = 0 \<or> dv_owner_uid r = uid
        \<or> (\<exists>x \<in> set gids. (dv_id r, x) \<in> set (rg_access rg))))"
  proof -
    have js: "fst ` {x \<in> set (join_access rg). case x of (d, g) \<Rightarrow>
        dv_owner_uid d = uid \<or> (case g of Some x \<Rightarrow> x \<in> set gids | None \<Rightarrow> False)}
      = {r \<in> set (rg_devices rg). dv_owner_uid r = uid \<or> (\<exists>x \<in> set gids. (dv_id r, x) \<in> set (rg_access rg))}"
      using joined by blast
    show ?thesis unfolding device_listForUser_def by (auto simp: js)
  qed
  then show ?thesis using get acc by auto
qed

lemma device_birth_steps:
  "device_birth rg i = Some b \<Longrightarrow> DRemove i \<notin> set ops \<Longrightarrow> device_birth (fold device_step ops rg) i = Some b"
proof (induction ops arbitrary: rg)
  case (Cons oper ops)
  then have "oper \<noteq> DRemove i" by auto
  with Cons device_birth_step [of rg i b oper] show ?case by simp
qed simp

section \<open>Properties\<close>

text \<open>
  A device keeps its owner: from the moment it is registered, through any operations of the
  registry by anyone except its removal, the device exists with the same owner and the same first
  sighting; a registration of its id by another user changes nothing and is refused.
\<close>

theorem device_owner_is_stable:
  assumes "device_get rg i = Some d" and "DRemove i \<notin> set ops"
  shows "(\<exists>d'. device_get (fold device_step ops rg) i = Some d' \<and> dv_owner_uid d' = dv_owner_uid d
            \<and> dv_first_seen_at d' = dv_first_seen_at d)
    \<and> (\<forall>now uid gid impl pl vs l de. uid \<noteq> dv_owner_uid d \<longrightarrow>
         (\<exists>e. device_register now i uid gid impl pl vs l de (fold device_step ops rg)
            = (fold device_step ops rg, Inl e)))"
proof -
  let ?rg = "fold device_step ops rg"
  have "device_birth rg i = Some (dv_owner_uid d, dv_first_seen_at d)"
    using assms(1) by (auto simp: device_birth_def device_get_def)
  from device_birth_steps [OF this assms(2)]
  obtain d' where d': "device_get ?rg i = Some d'" "dv_owner_uid d' = dv_owner_uid d"
    "dv_first_seen_at d' = dv_first_seen_at d"
    by (auto simp: device_birth_def device_get_def)
  have "\<exists>e. device_register now i uid gid impl pl vs l de ?rg = (?rg, Inl e)"
    if "uid \<noteq> dv_owner_uid d" for now uid gid impl pl vs l de
    using that d' by (auto simp: device_register_def Let_def split: option.splits)
  with d' show ?thesis by blast
qed

text \<open>
  The listing and the access check agree: in a consistent registry a device is listed for a user
  exactly when it exists and \<open>canAccess\<close> allows it, and \<open>findDevice\<close> returns a device that is online,
  accessible and implements the call, and returns none only when there is no such device.
\<close>

theorem device_listing_agrees_with_access:
  assumes "registry_ok rg"
  shows "(d \<in> set (device_listForUser rg uid gids) \<longleftrightarrow>
            device_get rg (dv_id d) = Some d \<and> device_canAccess rg (dv_id d) uid gids)
    \<and> (case findDevice rg syscall uid gids of
         Some d \<Rightarrow> d \<in> set (device_listForUser rg uid gids) \<and> dv_online d
                   \<and> device_canHandle rg (dv_id d) syscall
       | None \<Rightarrow> \<not> (\<exists>d \<in> set (device_listForUser rg uid gids). dv_online d
                   \<and> device_canHandle rg (dv_id d) syscall))"
proof -
  have k: "keyed dv_id (rg_devices rg)" using assms by (simp add: registry_ok_def)
  have gid: "dv_id d = i" if "device_get rg i = Some d" for i d
    using that by (auto simp: device_get_def dest: lookup_Some)
  have list: "d \<in> set (device_listForUser rg uid gids) \<longleftrightarrow>
      device_get rg (dv_id d) = Some d \<and> device_canAccess rg (dv_id d) uid gids" for d
    unfolding in_listForUser [OF assms] using gid by blast
  have online: "d \<in> set (device_listOnline rg) \<longleftrightarrow> device_get rg (dv_id d) = Some d \<and> dv_online d" for d
  proof -
    have "d \<in> set (device_listOnline rg) \<longleftrightarrow> (\<exists>r \<in> set (rg_devices rg). dv_online r \<and> d = toDeviceRecord r)"
      by (auto simp: device_listOnline_def)
    also have "\<dots> \<longleftrightarrow> device_get rg (dv_id d) = Some d \<and> dv_online d"
      using lookup_iff [OF k] by (auto simp: device_get_def)
    finally show ?thesis .
  qed
  have handle: "device_get rg (dv_id d) = Some d \<Longrightarrow>
      device_canHandle rg (dv_id d) syscall = hasCapability (dv_implements d) syscall" for d
    by (simp add: device_canHandle_def)
  show ?thesis
  proof (cases "findDevice rg syscall uid gids")
    case None
    then have "\<not> (\<exists>d \<in> set (device_listForUser rg uid gids). dv_online d
        \<and> device_canHandle rg (dv_id d) syscall)"
      by (auto simp: findDevice_def find_None_all online list handle)
    with None show ?thesis by (simp add: list)
  next
    case (Some e)
    then have "e \<in> set (device_listOnline rg)" "hasCapability (dv_implements e) syscall"
      "device_canAccess rg (dv_id e) uid gids"
      using find_Some_in unfolding findDevice_def by fastforce+
    with Some show ?thesis by (simp add: list online handle)
  qed
qed

definition demo_registry :: device_registry where
  "demo_registry = fst (device_register 1 ''mac'' 1000 1000 [''fs.*''] ''mac'' ''1'' None None empty_registry)"

theorem device_owner_is_stable_witness:
  "\<exists>e. device_register 3 ''mac'' 1001 1001 [] [] [] None None
      (fold device_step [DSetOnline 2 ''mac'' False, DGrant ''mac'' 1001] demo_registry)
    = (fold device_step [DSetOnline 2 ''mac'' False, DGrant ''mac'' 1001] demo_registry, Inl e)"
proof -
  have "map_option dv_owner_uid (device_get demo_registry ''mac'') = Some 1000" by code_simp
  then obtain d where d: "device_get demo_registry ''mac'' = Some d" "dv_owner_uid d = 1000" by auto
  have "DRemove ''mac'' \<notin> set [DSetOnline 2 ''mac'' False, DGrant ''mac'' 1001]" by simp
  from device_owner_is_stable [OF d(1) this] d(2) show ?thesis by simp
qed

theorem device_listing_agrees_with_access_witness:
  "\<exists>d. findDevice demo_registry ''fs.read'' 1000 [] = Some d
     \<and> d \<in> set (device_listForUser demo_registry 1000 [])"
proof -
  have ok: "registry_ok demo_registry"
    using device_step_ok [of empty_registry "DRegister 1 ''mac'' 1000 1000 [''fs.*''] ''mac'' ''1'' None None"]
    by (simp add: demo_registry_def)
  have "findDevice demo_registry ''fs.read'' 1000 [] \<noteq> None" by code_simp
  with device_listing_agrees_with_access [OF ok, of undefined 1000 "[]" "''fs.read''"] show ?thesis
    by (auto split: option.splits)
qed

end
