(* ===== verification/Routing.thy ===== *)
theory Routing
  imports Devices
begin

text \<open>
  Routing of device-bound calls: the in-flight table (\<open>kernel/routing.ts\<close>), the shell session table
  (\<open>kernel/shell-sessions.ts\<close>), the dispatcher's decision and forwarding (\<open>kernel/dispatch.ts\<close>) and
  the events of \<open>kernel/do.ts\<close> that consume a route: a device's response, the expiry timer, the loss
  of the device, of its connection or of the origin, and a cancellation.
\<close>

section \<open>The in-flight table\<close>

datatype route_origin = OConnection string | OProcess string | OKernel string

record route_entry =
  rt_id :: string
  rt_call :: string
  rt_origin :: route_origin
  rt_deviceId :: string
  rt_driverConnectionId :: "string option"
  rt_createdAt :: int
  rt_expiresAt :: "int option"
  rt_scheduleId :: "string option"

type_synonym routing_table = "route_entry list"

definition ROUTE_DEFAULT_TTL_MS :: int where
  "ROUTE_DEFAULT_TTL_MS = 60000"

definition route_register ::
  "int \<Rightarrow> string \<Rightarrow> string \<Rightarrow> route_origin \<Rightarrow> string \<Rightarrow> string \<Rightarrow> int option \<Rightarrow> string option
     \<Rightarrow> routing_table \<Rightarrow> routing_table" where
  "route_register now i call origin deviceId driverConnectionId ttlMs scheduleId t =
     sql_replace rt_id
       \<lparr> rt_id = i, rt_call = call, rt_origin = origin, rt_deviceId = deviceId,
         rt_driverConnectionId = Some driverConnectionId, rt_createdAt = now,
         rt_expiresAt = Some (now + coalesce ttlMs ROUTE_DEFAULT_TTL_MS),
         rt_scheduleId = scheduleId \<rparr> t"

definition route_get :: "routing_table \<Rightarrow> string \<Rightarrow> route_entry option" where
  "route_get t i = sql_lookup rt_id t i"

definition route_remove :: "string \<Rightarrow> routing_table \<Rightarrow> routing_table \<times> route_entry option" where
  "route_remove i t =
     (case sql_lookup rt_id t i of
        None \<Rightarrow> (t, None)
      | Some r \<Rightarrow> (sql_delete (\<lambda>r. rt_id r = i) t, Some r))"

text \<open>The three bulk operations select the matching rows, delete them if there are any, and return them.\<close>

definition route_fail :: "(route_entry \<Rightarrow> bool) \<Rightarrow> routing_table \<Rightarrow> routing_table \<times> route_entry list" where
  "route_fail P t =
     (let rows = filter P t in (if length rows > 0 then sql_delete P t else t, rows))"

definition failForDevice :: "string \<Rightarrow> routing_table \<Rightarrow> routing_table \<times> route_entry list" where
  "failForDevice deviceId = route_fail (\<lambda>r. rt_deviceId r = deviceId)"

definition failForDriverConnection :: "string \<Rightarrow> routing_table \<Rightarrow> routing_table \<times> route_entry list" where
  "failForDriverConnection c = route_fail (\<lambda>r. rt_driverConnectionId r = Some c)"

definition failForConnection :: "string \<Rightarrow> routing_table \<Rightarrow> routing_table \<times> route_entry list" where
  "failForConnection c = route_fail (\<lambda>r. rt_origin r = OConnection c)"

interpretation routes: keyed_store rt_id route_get "sql_replace rt_id" "\<lambda>i t. fst (route_remove i t)"
    "keyed rt_id"
proof
  have del: "fst (route_remove i t) = sql_delete (\<lambda>r. rt_id r = i) t" for i t
  proof (cases "sql_lookup rt_id t i")
    case None
    then have "\<forall>r \<in> set t. rt_id r \<noteq> i" by (simp add: lookup_None)
    with None show ?thesis by (simp add: route_remove_def sql_delete_def filter_id_conv)
  qed (simp add: route_remove_def)
  show "keyed rt_id s \<Longrightarrow> route_get (sql_replace rt_id r s) k = (if k = rt_id r then Some r else route_get s k)"
    for s r k by (simp add: route_get_def lookup_replace)
  show "keyed rt_id s \<Longrightarrow> route_get (fst (route_remove i s)) k = (if k = i then None else route_get s k)"
    for s i k by (simp add: del route_get_def lookup_delete_key)
  show "keyed rt_id s \<Longrightarrow> keyed rt_id (sql_replace rt_id r s)" for s r by simp
  show "keyed rt_id s \<Longrightarrow> keyed rt_id (fst (route_remove i s))" for s i by (simp add: del)
qed

section \<open>Shell sessions\<close>

datatype shell_status = ShRunning | ShCompleted | ShFailed

record shell_session =
  ss_sessionId :: string
  ss_deviceId :: string
  ss_status :: shell_status
  ss_exitCode :: "int option"
  ss_error :: "string option"
  ss_createdAt :: int
  ss_updatedAt :: int
  ss_expiresAt :: "int option"

definition SHELL_DEFAULT_TTL_MS :: int where
  "SHELL_DEFAULT_TTL_MS = 24 * 60 * 60 * 1000"

definition normalizeStatus :: "string \<Rightarrow> shell_status" where
  "normalizeStatus v =
     (if v = ''completed'' then ShCompleted else if v = ''failed'' then ShFailed else ShRunning)"

definition shell_expired :: "int \<Rightarrow> shell_session \<Rightarrow> bool" where
  "shell_expired now r = (case ss_expiresAt r of Some e \<Rightarrow> e \<le> now | None \<Rightarrow> False)"

definition shell_get :: "int \<Rightarrow> string \<Rightarrow> shell_session list \<Rightarrow> shell_session list \<times> shell_session option" where
  "shell_get now sessionId t =
     (case sql_lookup ss_sessionId t sessionId of
        None \<Rightarrow> (t, None)
      | Some row \<Rightarrow>
          if shell_expired now row then (sql_delete (\<lambda>r. ss_sessionId r = sessionId) t, None)
          else (t, Some row))"

definition rememberDeviceSession ::
  "int \<Rightarrow> string \<Rightarrow> string \<Rightarrow> shell_status \<Rightarrow> int option \<Rightarrow> string option \<Rightarrow> int option
     \<Rightarrow> shell_session list \<Rightarrow> shell_session list" where
  "rememberDeviceSession now sessionId deviceId status exitCode err ttlMs t =
     (let (t', existing) = shell_get now sessionId t
      in sql_replace ss_sessionId
           \<lparr> ss_sessionId = sessionId, ss_deviceId = deviceId, ss_status = status,
             ss_exitCode = (case exitCode of Some c \<Rightarrow> Some c
                            | None \<Rightarrow> Option.bind existing ss_exitCode),
             ss_error = (case err of Some e \<Rightarrow> Some e | None \<Rightarrow> Option.bind existing ss_error),
             ss_createdAt = coalesce (map_option ss_createdAt existing) now, ss_updatedAt = now,
             ss_expiresAt = Some (now + coalesce ttlMs SHELL_DEFAULT_TTL_MS) \<rparr> t')"

definition shell_updateStatus ::
  "int \<Rightarrow> string \<Rightarrow> shell_status \<Rightarrow> int option \<Rightarrow> string option \<Rightarrow> shell_session list
     \<Rightarrow> shell_session list" where
  "shell_updateStatus now sessionId status exitCode err t =
     sql_update (\<lambda>r. ss_sessionId r = sessionId)
       (\<lambda>r. r\<lparr> ss_status := status, ss_exitCode := exitCode, ss_error := err, ss_updatedAt := now \<rparr>) t"

definition shell_failForDevice :: "int \<Rightarrow> string \<Rightarrow> string \<Rightarrow> shell_session list \<Rightarrow> shell_session list" where
  "shell_failForDevice now deviceId err t =
     sql_update (\<lambda>r. ss_deviceId r = deviceId \<and> ss_status r = ShRunning)
       (\<lambda>r. r\<lparr> ss_status := ShFailed, ss_error := Some err, ss_updatedAt := now \<rparr>) t"

definition shell_pruneExpired :: "int \<Rightarrow> shell_session list \<Rightarrow> shell_session list" where
  "shell_pruneExpired now t = sql_delete (shell_expired now) t"

section \<open>Frames and connections\<close>

record request_frame =
  rq_id :: string
  rq_call :: string
  rq_args :: "(string \<times> json) list"

datatype response_frame = ResOk string json | ResErr string int string

datatype conn_step = CPending | CConnected | CSuperseded

record connection =
  cn_id :: string
  cn_step :: conn_step
  cn_driver_device :: "string option"

text \<open>\<open>cn_driver_device\<close> is the device of an identity whose role is driver, absent for any other
  identity or none.\<close>

definition isConnectionForDevice :: "connection \<Rightarrow> string \<Rightarrow> bool" where
  "isConnectionForDevice c deviceId \<longleftrightarrow> cn_step c = CConnected \<and> cn_driver_device c = Some deviceId"

definition findDeviceConnection :: "string \<Rightarrow> connection list \<Rightarrow> connection option" where
  "findDeviceConnection deviceId conns = find (\<lambda>c. isConnectionForDevice c deviceId) conns"

section \<open>The dispatcher\<close>

definition ROUTABLE_DOMAINS :: "string list" where
  "ROUTABLE_DOMAINS = [''fs'', ''shell'', ''net'']"

definition domainOf :: "string \<Rightarrow> string" where
  "domainOf call = hd (js_split (CHR ''.'') call)"

definition isRoutableSyscall :: "string \<Rightarrow> bool" where
  "isRoutableSyscall call \<longleftrightarrow> domainOf call \<in> set ROUTABLE_DOMAINS"

definition DEFAULT_DEVICE_TTL_MS :: int where "DEFAULT_DEVICE_TTL_MS = 60000"
definition DEFAULT_SHELL_DEVICE_TTL_MS :: int where "DEFAULT_SHELL_DEVICE_TTL_MS = 11 * 60000"
definition SHELL_TIMEOUT_GRACE_MS :: int where "SHELL_TIMEOUT_GRACE_MS = 10000"
definition DEFAULT_NET_FETCH_TIMEOUT_MS :: int where "DEFAULT_NET_FETCH_TIMEOUT_MS = 60000"
definition MAX_NET_FETCH_TIMEOUT_MS :: int where "MAX_NET_FETCH_TIMEOUT_MS = 10 * 60000"

text \<open>The integer part of a JavaScript number that is finite and positive; a number strictly between
  0 and 1 has integer part 0.\<close>

definition positive_floor :: "json option \<Rightarrow> int option" where
  "positive_floor v =
     (case v of
        Some (JNum (IntNum n)) \<Rightarrow> if n > 0 then Some n else None
      | Some (JNum (FracNum f)) \<Rightarrow> if f \<ge> 0 then Some f else None
      | _ \<Rightarrow> None)"

definition normalizeNetFetchTimeoutMs :: "json option \<Rightarrow> int" where
  "normalizeNetFetchTimeoutMs v =
     (case positive_floor v of
        Some n \<Rightarrow> min n MAX_NET_FETCH_TIMEOUT_MS
      | None \<Rightarrow> DEFAULT_NET_FETCH_TIMEOUT_MS)"

definition routedFrameTtlMs :: "request_frame \<Rightarrow> int" where
  "routedFrameTtlMs frame =
     (if rq_call frame = ''shell.exec'' then
        (case positive_floor (map_of (rq_args frame) ''timeout'') of
           None \<Rightarrow> DEFAULT_SHELL_DEVICE_TTL_MS
         | Some n \<Rightarrow> min DEFAULT_SHELL_DEVICE_TTL_MS (max 1000 (n + SHELL_TIMEOUT_GRACE_MS)))
      else if rq_call frame = ''net.fetch''
      then normalizeNetFetchTimeoutMs (map_of (rq_args frame) ''timeoutMs'')
      else DEFAULT_DEVICE_TTL_MS)"

text \<open>What the dispatcher finds around it: the message of an abort present at entry and of one
  present when it is looked at again, the outcome of scheduling the expiry (its id), the outcome of
  the send, and the times at the two points where the clock is read.\<close>

record dispatch_env =
  de_aborted0 :: "string option"
  de_aborted1 :: "string option"
  de_schedule :: "string result"
  de_send :: "unit result"
  de_now0 :: int
  de_now1 :: int
  de_connections :: "connection list"

record dispatch_state =
  ds_routes :: routing_table
  ds_shell :: "shell_session list"
  ds_sent :: "(string \<times> request_frame) list"

datatype dispatch_result = Handled response_frame | Forwarded

definition error_message :: "js_error \<Rightarrow> string" where
  "error_message e = (case e of Error m \<Rightarrow> m)"

definition errFrame :: "string \<Rightarrow> int \<Rightarrow> string \<Rightarrow> response_frame" where
  "errFrame i code message = ResErr i code message"

definition failedShellSessionFrame :: "string \<Rightarrow> shell_session \<Rightarrow> response_frame" where
  "failedShellSessionFrame i s = ResOk i (JObj (
     [(''status'', JStr ''failed''), (''output'', JStr ''''),
      (''error'', JStr (coalesce (ss_error s) ''Shell session failed''))]
     @ (case ss_exitCode s of Some c \<Rightarrow> [(''exitCode'', JNum (IntNum c))] | None \<Rightarrow> [])
     @ [(''sessionId'', JStr (ss_sessionId s))]))"

definition strip_target :: "request_frame \<Rightarrow> request_frame" where
  "strip_target f = f\<lparr> rq_args := filter (\<lambda>kv. fst kv \<noteq> ''target'') (rq_args f) \<rparr>"

definition routeToTarget ::
  "dispatch_env \<Rightarrow> request_frame \<Rightarrow> target_descriptor \<Rightarrow> route_origin \<Rightarrow> dispatch_state
     \<Rightarrow> dispatch_state \<times> dispatch_result" where
  "routeToTarget env frame target origin s =
     (if \<not> tg_online target
      then (s, Handled (errFrame (rq_id frame) 503 (''Device offline: '' @ tg_targetId target)))
      else if \<not> targetCanHandle target (rq_call frame)
      then (s, Handled (errFrame (rq_id frame) 400
             (''Device '' @ tg_targetId target @ '' does not implement '' @ rq_call frame)))
      else case findDeviceConnection (tg_targetId target) (de_connections env) of
        None \<Rightarrow> (s, Handled (errFrame (rq_id frame) 503
                  (''No active connection for device: '' @ tg_targetId target)))
      | Some deviceConn \<Rightarrow>
          (case de_schedule env of
             Inl e \<Rightarrow> (s, Handled (errFrame (rq_id frame) 500
                       (''Failed to register route for '' @ rq_call frame @ '': '' @ error_message e)))
           | Inr scheduleId \<Rightarrow>
               let s1 = s\<lparr> ds_routes := route_register (de_now1 env) (rq_id frame) (rq_call frame) origin
                          (tg_targetId target) (cn_id deviceConn) (Some (routedFrameTtlMs frame))
                          (Some scheduleId) (ds_routes s) \<rparr>;
                   cancelled = s1\<lparr> ds_routes := fst (route_remove (rq_id frame) (ds_routes s1)) \<rparr>
               in case de_aborted1 env of
                    Some msg \<Rightarrow> (cancelled, Handled (errFrame (rq_id frame) 499 msg))
                  | None \<Rightarrow>
                      (case de_send env of
                         Inl e \<Rightarrow> (cancelled, Handled (errFrame (rq_id frame) 500
                                   (''Failed to send '' @ rq_call frame @ '' to device ''
                                    @ tg_targetId target @ '': '' @ error_message e)))
                       | Inr _ \<Rightarrow> (s1\<lparr> ds_sent := ds_sent s1 @ [(cn_id deviceConn, frame)] \<rparr>, Forwarded))))"

text \<open>The calls the switch of \<open>dispatchNative\<close> hands to a handler of its own, in its order.\<close>

definition NATIVE_CALLS :: "string list" where
  "NATIVE_CALLS =
     [''fs.read'', ''fs.write'', ''fs.edit'', ''fs.delete'', ''fs.search'', ''fs.copy'',
      ''fs.transfer.stat'', ''fs.transfer.send'', ''fs.transfer.receive'', ''shell.exec'',
      ''net.fetch'', ''codemode.run'', ''proc.list'', ''proc.spawn'', ''proc.fork'',
      ''proc.ipc.send'', ''proc.ipc.call'', ''proc.send'', ''proc.abort'', ''proc.hil'',
      ''proc.kill'', ''proc.history'', ''proc.ai.config.get'', ''proc.ai.config.set'',
      ''proc.media.read'', ''proc.media.write'', ''proc.media.delete'',
      ''proc.history.policy.get'', ''proc.history.policy.set'', ''proc.history.compact'',
      ''proc.history.segment.read'', ''proc.history.segments'', ''proc.reset'', ''repo.list'',
      ''repo.create'', ''repo.refs'', ''repo.read'', ''repo.search'', ''repo.log'', ''repo.diff'',
      ''repo.compare'', ''repo.apply'', ''repo.import'', ''repo.delete'', ''repo.visibility.set'',
      ''ai.tools'', ''ai.config'', ''ai.text.generate'', ''ai.transcription.create'',
      ''ai.image.read'', ''ai.image.generate'', ''ai.speech.create'', ''sys.setup.assist'',
      ''sys.bootstrap'', ''sys.config.get'', ''sys.config.set'', ''sys.device.list'',
      ''sys.device.get'', ''sys.device.update'', ''sys.device.delete'', ''sys.oauth.start'',
      ''sys.oauth.device.start'', ''sys.oauth.device.poll'', ''sys.oauth.list'',
      ''sys.oauth.forget'', ''sys.mcp.add'', ''sys.mcp.list'', ''sys.mcp.remove'',
      ''sys.mcp.refresh'', ''sys.mcp.call'', ''sys.token.create'', ''sys.token.list'',
      ''sys.token.revoke'', ''sys.link'', ''sys.unlink'', ''sys.link.list'', ''sys.link.consume'',
      ''account.create'', ''account.list'', ''sched.list'', ''sched.add'', ''sched.update'',
      ''sched.remove'', ''sched.run'', ''adapter.connect'', ''adapter.disconnect'',
      ''adapter.inbound'', ''adapter.state.update'', ''adapter.send'', ''adapter.status'',
      ''adapter.list'', ''signal.watch'', ''signal.unwatch'']"

definition KERNEL_ONLY_CALLS :: "string list" where
  "KERNEL_ONLY_CALLS = [''proc.ipc.deliver'', ''proc.setidentity'', ''proc.history.export'',
     ''proc.history.import'']"

text \<open>\<open>handler\<close> stands for the handlers of the other modules: the data of the response or the error
  thrown; \<open>aborted\<close> is the message of an abort seen when a handler threw.\<close>

definition dispatchNative ::
  "(request_frame \<Rightarrow> json result) \<Rightarrow> string option \<Rightarrow> request_frame \<Rightarrow> response_frame" where
  "dispatchNative handler aborted frame =
     (let i = rq_id frame; call = rq_call frame in
      if call \<in> set NATIVE_CALLS then
        (case handler frame of
           Inr data \<Rightarrow> ResOk i data
         | Inl e \<Rightarrow>
             (case aborted of
                Some msg \<Rightarrow> errFrame i 499 msg
              | None \<Rightarrow> errFrame i 500 (error_message e)))
      else if call \<in> set KERNEL_ONLY_CALLS then errFrame i 403 (call @ '' is kernel-only'')
      else if call = ''sys.connect'' \<or> call = ''sys.setup''
      then errFrame i 400 (call @ '' handled separately'')
      else errFrame i 404 (''Unknown syscall: '' @ call))"

definition dispatch ::
  "(request_frame \<Rightarrow> json result) \<Rightarrow> dispatch_env \<Rightarrow> target_ctx \<Rightarrow> request_frame \<Rightarrow> route_origin
     \<Rightarrow> dispatch_state \<Rightarrow> dispatch_state \<times> dispatch_result" where
  "dispatch handler env ctx frame origin s =
     (case de_aborted0 env of
        Some msg \<Rightarrow> (s, Handled (errFrame (rq_id frame) 499 msg))
      | None \<Rightarrow>
        let target = coalesce (json_string (map_of (rq_args frame) ''target'')) [];
            sessionId = (if rq_call frame = ''shell.exec''
                         then js_trim (coalesce (json_string (map_of (rq_args frame) ''sessionId'')) [])
                         else [])
        in
        if sessionId \<noteq> [] then
          (let (shell', found) = shell_get (de_now0 env) sessionId (ds_shell s);
               s' = s\<lparr> ds_shell := shell' \<rparr>
           in case found of
                None \<Rightarrow> (s', Handled (errFrame (rq_id frame) 404 (''Unknown shell session: '' @ sessionId)))
              | Some session \<Rightarrow>
                  if target \<noteq> [] \<and> target \<noteq> ss_deviceId session
                  then (s', Handled (errFrame (rq_id frame) 400
                         ''Shell session target does not match the requested target''))
                  else if ss_status session = ShFailed \<and> truthy (ss_error session) then
                    (case getVisibleTarget ctx (ss_deviceId session) True of
                       None \<Rightarrow> (s', Handled (errFrame (rq_id frame) 403
                                 (''Access denied to device: '' @ ss_deviceId session)))
                     | Some _ \<Rightarrow> (s', Handled (failedShellSessionFrame (rq_id frame) session)))
                  else
                    (case getVisibleTarget ctx (ss_deviceId session) True of
                       None \<Rightarrow> (s', Handled (errFrame (rq_id frame) 403
                                 (''Access denied to device: '' @ ss_deviceId session)))
                     | Some t \<Rightarrow> routeToTarget env (strip_target frame) t origin s'))
        else if target \<noteq> [] \<and> target \<noteq> ''gsv'' \<and> isRoutableSyscall (rq_call frame) then
          (case getVisibleTarget ctx target True of
             None \<Rightarrow> (s, Handled (errFrame (rq_id frame) 403 (''Access denied to device: '' @ target)))
           | Some t \<Rightarrow> routeToTarget env (strip_target frame) t origin s)
        else
          (let frame' = (if target \<noteq> [] \<and> rq_call frame \<noteq> ''ai.text.generate''
                         then strip_target frame else frame)
           in (s, Handled (dispatchNative handler (de_aborted1 env) frame'))))"

section \<open>What consumes a route\<close>

text \<open>One entry of the output: a response delivered to the origin of a routed call.\<close>

type_synonym delivery = "route_origin \<times> response_frame"

datatype device_answer = AnsOk json | AnsErr int string

fun answer_frame :: "string \<Rightarrow> device_answer \<Rightarrow> response_frame" where
  "answer_frame i (AnsOk v) = ResOk i v"
| "answer_frame i (AnsErr code msg) = ResErr i code msg"

datatype route_event =
    EvRegister int string string route_origin string string "int option" "string option"
  | EvResponse connection string "device_answer result"
  | EvExpired string
  | EvDeviceGone string
  | EvDriverGone string
  | EvOriginGone string
  | EvCancel string

text \<open>\<open>handleRes\<close> of a frame with id \<open>i\<close>: \<open>decoded\<close> is what is left of it once its body is decoded.\<close>

definition handleRes ::
  "connection \<Rightarrow> string \<Rightarrow> device_answer result \<Rightarrow> routing_table \<Rightarrow> routing_table \<times> delivery list" where
  "handleRes c i decoded t =
     (case route_get t i of
        None \<Rightarrow> (t, [])
      | Some route \<Rightarrow>
          if \<not> isConnectionForDevice c (rt_deviceId route)
             \<or> (rt_driverConnectionId route \<noteq> None \<and> rt_driverConnectionId route \<noteq> Some (cn_id c))
          then (t, [])
          else case decoded of
                 Inl e \<Rightarrow> (fst (route_remove i t), [(rt_origin route, errFrame i 502
                           (''Invalid response from device '' @ rt_deviceId route @ '': '' @ error_message e))])
               | Inr ans \<Rightarrow> (fst (route_remove i t), [(rt_origin route, answer_frame i ans)]))"

definition onRouteExpired :: "string \<Rightarrow> routing_table \<Rightarrow> routing_table \<times> delivery list" where
  "onRouteExpired i t =
     (case route_remove i t of
        (t', None) \<Rightarrow> (t', [])
      | (t', Some ex) \<Rightarrow> (t', [(rt_origin ex, errFrame i 504
          (''Syscall '' @ rt_call ex @ '' timed out (device: '' @ rt_deviceId ex @ '')''))]))"

definition failDeviceRoutes :: "route_entry list \<Rightarrow> delivery list" where
  "failDeviceRoutes failed =
     map (\<lambda>e. (rt_origin e, errFrame (rt_id e) 503 (''Device disconnected: '' @ rt_deviceId e))) failed"

fun route_step :: "route_event \<Rightarrow> routing_table \<Rightarrow> routing_table \<times> delivery list" where
  "route_step (EvRegister now i call origin dev c ttl sid) t =
     (route_register now i call origin dev c ttl sid t, [])"
| "route_step (EvResponse c i decoded) t = handleRes c i decoded t"
| "route_step (EvExpired i) t = onRouteExpired i t"
| "route_step (EvDeviceGone d) t = (let (t', failed) = failForDevice d t in (t', failDeviceRoutes failed))"
| "route_step (EvDriverGone c) t =
     (let (t', failed) = failForDriverConnection c t in (t', failDeviceRoutes failed))"
| "route_step (EvOriginGone c) t = (fst (failForConnection c t), [])"
| "route_step (EvCancel i) t = (fst (route_remove i t), [])"

fun route_run :: "route_event list \<Rightarrow> routing_table \<Rightarrow> routing_table \<times> delivery list" where
  "route_run [] t = (t, [])"
| "route_run (e # es) t =
     (let (t', out) = route_step e t; (t'', outs) = route_run es t' in (t'', out @ outs))"

section \<open>Lemmas\<close>

fun frame_id :: "response_frame \<Rightarrow> string" where
  "frame_id (ResOk i v) = i"
| "frame_id (ResErr i c m) = i"

lemma frame_id_answer [simp]: "frame_id (answer_frame i a) = i" "frame_id (errFrame i c m) = i"
  by (cases a) (simp_all add: errFrame_def)

definition deliveries :: "string \<Rightarrow> delivery list \<Rightarrow> nat" where
  "deliveries i outs = length (filter (\<lambda>d. frame_id (snd d) = i) outs)"

definition pending :: "string \<Rightarrow> routing_table \<Rightarrow> nat" where
  "pending i t = length (filter (\<lambda>r. rt_id r = i) t)"

fun registers :: "string \<Rightarrow> route_event \<Rightarrow> nat" where
  "registers i (EvRegister now j call origin dev c ttl sid) = (if j = i then 1 else 0)"
| "registers i _ = 0"

definition registrations :: "string \<Rightarrow> route_event list \<Rightarrow> nat" where
  "registrations i es = sum_list (map (registers i) es)"

lemma route_remove_fst: "fst (route_remove i t) = sql_delete (\<lambda>r. rt_id r = i) t"
proof (cases "sql_lookup rt_id t i")
  case None
  then have "\<forall>r \<in> set t. rt_id r \<noteq> i" by (simp add: lookup_None)
  with None show ?thesis by (simp add: route_remove_def sql_delete_def filter_id_conv)
qed (simp add: route_remove_def)

lemma route_fail_eq: "route_fail P t = (sql_delete P t, filter P t)"
  by (auto simp: route_fail_def sql_delete_def filter_empty_conv filter_id_conv)

lemma pending_delete_id: "pending i (sql_delete (\<lambda>r. rt_id r = j) t) = (if i = j then 0 else pending i t)"
proof -
  have "filter (\<lambda>r. rt_id r = i) (filter (\<lambda>r. rt_id r \<noteq> j) t) = (if i = j then [] else filter (\<lambda>r. rt_id r = i) t)"
    by (auto intro: filter_cong simp: filter_empty_conv)
  then show ?thesis by (simp add: pending_def sql_delete_def)
qed

lemma pending_split:
  "pending i (sql_delete P t) + length (filter (\<lambda>r. rt_id r = i) (filter P t)) = pending i t"
  by (induction t) (auto simp: pending_def sql_delete_def)

lemma pending_lookup: "sql_lookup rt_id t i = Some r \<Longrightarrow> pending i t \<ge> 1"
proof -
  assume "sql_lookup rt_id t i = Some r"
  then have "r \<in> set (filter (\<lambda>r. rt_id r = i) t)" using lookup_Some by force
  then have "filter (\<lambda>r. rt_id r = i) t \<noteq> []" by (metis empty_iff empty_set)
  then show ?thesis by (simp add: pending_def Suc_le_eq)
qed

lemma deliveries_failed: "deliveries i (failDeviceRoutes rs) = length (filter (\<lambda>r. rt_id r = i) rs)"
  by (induction rs) (simp_all add: deliveries_def failDeviceRoutes_def)

lemma deliveries_append [simp]: "deliveries i (xs @ ys) = deliveries i xs + deliveries i ys"
  by (simp add: deliveries_def)

lemma deliveries_one: "deliveries i [(og, f)] = (if frame_id f = i then 1 else 0)"
  by (simp add: deliveries_def)

lemma route_step_balance:
  "deliveries i (snd (route_step e t)) + pending i (fst (route_step e t)) \<le> registers i e + pending i t"
proof (cases e)
  case (EvRegister now j call origin dev c ttl sid)
  have "pending i (sql_replace rt_id r t) \<le> (if rt_id r = i then 1 else pending i t)" for r
  proof (cases "rt_id r = i")
    case True
    then have "filter (\<lambda>x. rt_id x = i) (filter (\<lambda>x. rt_id x \<noteq> rt_id r) t) = []"
      by (auto simp: filter_empty_conv)
    with True show ?thesis by (simp add: pending_def sql_replace_def)
  next
    case False
    then have "filter (\<lambda>x. rt_id x = i) (filter (\<lambda>x. rt_id x \<noteq> rt_id r) t) = filter (\<lambda>x. rt_id x = i) t"
      by (auto intro: filter_cong)
    with False show ?thesis by (simp add: pending_def sql_replace_def)
  qed
  from this [of "\<lparr> rt_id = j, rt_call = call, rt_origin = origin, rt_deviceId = dev,
         rt_driverConnectionId = Some c, rt_createdAt = now,
         rt_expiresAt = Some (now + coalesce ttl ROUTE_DEFAULT_TTL_MS), rt_scheduleId = sid \<rparr>"]
  show ?thesis using EvRegister
    by (simp add: route_register_def deliveries_def split: if_splits)
next
  case (EvResponse c j a)
  then show ?thesis
    by (auto simp: handleRes_def route_get_def route_remove_fst pending_delete_id deliveries_one
        dest: pending_lookup split: option.splits sum.splits) (simp_all add: deliveries_def)
next
  case (EvExpired j)
  have "route_remove j t = (sql_delete (\<lambda>r. rt_id r = j) t, sql_lookup rt_id t j)"
    using route_remove_fst [of j t] by (cases "sql_lookup rt_id t j") (simp_all add: route_remove_def)
  then show ?thesis using EvExpired pending_lookup [of t j]
    by (auto simp: onRouteExpired_def pending_delete_id deliveries_one split: option.splits)
      (simp_all add: deliveries_def)
next
  case (EvDeviceGone d)
  then show ?thesis using pending_split [of i "\<lambda>r. rt_deviceId r = d" t]
    by (simp add: failForDevice_def route_fail_eq deliveries_failed del: filter_filter)
next
  case (EvDriverGone c)
  then show ?thesis using pending_split [of i "\<lambda>r. rt_driverConnectionId r = Some c" t]
    by (simp add: failForDriverConnection_def route_fail_eq deliveries_failed del: filter_filter)
next
  case (EvOriginGone c)
  then show ?thesis using pending_split [of i "\<lambda>r. rt_origin r = OConnection c" t]
    by (simp add: failForConnection_def route_fail_eq deliveries_def del: filter_filter)
next
  case (EvCancel j)
  then show ?thesis by (simp add: route_remove_fst pending_delete_id deliveries_def)
qed

lemma route_run_balance:
  "deliveries i (snd (route_run es t)) + pending i (fst (route_run es t)) \<le> registrations i es + pending i t"
proof (induction es arbitrary: t)
  case (Cons e es)
  obtain t1 o1 where s: "route_step e t = (t1, o1)" by fastforce
  obtain t2 o2 where r: "route_run es t1 = (t2, o2)" by fastforce
  from route_step_balance [of i e t] Cons.IH [of t1] s r show ?case
    by (simp add: registrations_def)
qed (simp add: deliveries_def registrations_def)

definition known_route :: "route_event list \<Rightarrow> routing_table \<Rightarrow> string \<Rightarrow> route_origin \<Rightarrow> bool" where
  "known_route es t i og \<longleftrightarrow> (\<exists>r \<in> set t. rt_id r = i \<and> rt_origin r = og)
     \<or> (\<exists>now call dev c ttl sid. EvRegister now i call og dev c ttl sid \<in> set es)"

lemma route_step_origin:
  "(\<forall>d \<in> set (snd (route_step e t)). known_route [] t (frame_id (snd d)) (fst d))
   \<and> (\<forall>i og. known_route [] (fst (route_step e t)) i og \<longrightarrow> known_route [e] t i og)"
proof (cases e)
  case (EvResponse c j a)
  then show ?thesis
    by (auto simp: handleRes_def route_get_def route_remove_fst known_route_def
        dest: lookup_Some split: option.splits sum.splits)
next
  case (EvExpired j)
  then show ?thesis
    by (auto simp: onRouteExpired_def route_remove_def known_route_def
        dest: lookup_Some split: option.splits prod.splits)
next
  case (EvRegister now j call origin dev c ttl sid)
  then show ?thesis by (auto simp: route_register_def in_replace known_route_def)
qed (auto simp: failForDevice_def failForDriverConnection_def failForConnection_def route_fail_eq
    failDeviceRoutes_def known_route_def route_remove_fst)

lemma route_run_origin:
  "d \<in> set (snd (route_run es t)) \<Longrightarrow> known_route es t (frame_id (snd d)) (fst d)"
proof (induction es arbitrary: t)
  case (Cons e es)
  obtain t1 o1 where s: "route_step e t = (t1, o1)" by fastforce
  obtain t2 o2 where r: "route_run es t1 = (t2, o2)" by fastforce
  from Cons.prems s r have "d \<in> set o1 \<or> d \<in> set o2" by auto
  then show ?case
  proof
    assume "d \<in> set o1"
    then have "known_route [] t (frame_id (snd d)) (fst d)" using route_step_origin [of e t] s by auto
    then show ?thesis by (auto simp: known_route_def)
  next
    assume "d \<in> set o2"
    then have "known_route es t1 (frame_id (snd d)) (fst d)" using Cons.IH [of t1] r by simp
    then have "known_route [] t1 (frame_id (snd d)) (fst d) \<or> known_route es [] (frame_id (snd d)) (fst d)"
      by (simp add: known_route_def)
    then show ?thesis
    proof
      assume "known_route [] t1 (frame_id (snd d)) (fst d)"
      then have "known_route [e] t (frame_id (snd d)) (fst d)" using route_step_origin [of e t] s by auto
      then show ?thesis unfolding known_route_def by (metis list.set_intros empty_iff empty_set set_ConsD)
    qed (auto simp: known_route_def)
  qed
qed simp

section \<open>Properties\<close>

text \<open>
  C7. A routed call is answered at most once and to the right caller: in any sequence of responses,
  timeouts, disconnections and cancellations in which the id is registered at most once, at most one
  response frame with that id is delivered, none while the route is still pending, and it goes to
  the origin the route was registered with.
\<close>

theorem routed_call_answered_at_most_once:
  assumes "registrations i es \<le> 1"
  shows "deliveries i (snd (route_run es [])) + pending i (fst (route_run es [])) \<le> 1
    \<and> (\<forall>(og, f) \<in> set (snd (route_run es [])). frame_id f = i \<longrightarrow>
         (\<exists>now call dev c ttl sid. EvRegister now i call og dev c ttl sid \<in> set es))"
proof
  show "deliveries i (snd (route_run es [])) + pending i (fst (route_run es [])) \<le> 1"
    using route_run_balance [of i es "[]"] assms by (simp add: pending_def)
  show "\<forall>(og, f) \<in> set (snd (route_run es [])). frame_id f = i \<longrightarrow>
         (\<exists>now call dev c ttl sid. EvRegister now i call og dev c ttl sid \<in> set es)"
    using route_run_origin by (fastforce simp: known_route_def)
qed

definition demo_driver :: connection where
  "demo_driver = \<lparr> cn_id = ''c1'', cn_step = CConnected, cn_driver_device = Some ''mac'' \<rparr>"

theorem routed_call_answered_at_most_once_witness:
  "deliveries ''r1'' (snd (route_run
      [EvRegister 0 ''r1'' ''fs.read'' (OProcess ''p'') ''mac'' ''c1'' None None,
       EvResponse demo_driver ''r1'' (Inr (AnsOk JNull)), EvExpired ''r1'', EvDeviceGone ''mac''] [])) = 1"
proof -
  let ?es = "[EvRegister 0 ''r1'' ''fs.read'' (OProcess ''p'') ''mac'' ''c1'' None None,
       EvResponse demo_driver ''r1'' (Inr (AnsOk JNull)), EvExpired ''r1'', EvDeviceGone ''mac'']"
  have "registrations ''r1'' ?es \<le> 1" by (simp add: registrations_def)
  from routed_call_answered_at_most_once [OF this]
  have "deliveries ''r1'' (snd (route_run ?es [])) \<le> 1" by linarith
  moreover have "deliveries ''r1'' (snd (route_run ?es [])) \<ge> 1" by code_simp
  ultimately show ?thesis by simp
qed


definition demo_ctx :: target_ctx where
  "demo_ctx = \<lparr> tc_identity = Some \<lparr> pi_uid = 1000, pi_gid = 1000, pi_gids = [1000],
       pi_username = ''sam'', pi_home = ''/home/sam'', pi_cwd = ''/home/sam'' \<rparr>,
     tc_auth = demo_auth, tc_devices = demo_registry \<rparr>"

definition demo_env :: dispatch_env where
  "demo_env = \<lparr> de_aborted0 = None, de_aborted1 = None, de_schedule = Inr ''s1'', de_send = Inr (),
     de_now0 = 5, de_now1 = 6, de_connections = [demo_driver] \<rparr>"

definition demo_frame :: request_frame where
  "demo_frame = \<lparr> rq_id = ''r1'', rq_call = ''fs.read'', rq_args = [(''target'', JStr ''mac'')] \<rparr>"


end
