(* ===== verification/Approval.thy ===== *)
theory Approval
  imports Routing "HOL-Library.AList" "HOL-Library.Product_Lexorder"
begin

text \<open>
  Which tool calls of an agent run at once, wait for a human or are refused: the approval policy of
  \<open>process/approval.ts\<close> (parsing, the target a call is judged on, the choice of a rule) and the part of
  \<open>process/do.ts\<close> around it, which completes the arguments of a shell call from the session it names
  and remembers the approvals a human gave.

  \<open>JSON.parse\<close> and \<open>JSON.stringify\<close> are the arguments \<open>json_parse\<close> (\<open>None\<close> where it throws) and
  \<open>json_stringify\<close>; the value \<open>undefined\<close> of an argument is \<open>None\<close>. The key-value table of the process
  is a map.
\<close>

section \<open>Policies\<close>

datatype approval_action = AaAuto | AaAsk | AaDeny

record approval_rule =
  ar_match :: string
  ar_target :: "string option"
  ar_action :: approval_action

record approval_policy =
  ap_default :: approval_action
  ap_rules :: "approval_rule list"

record approval_resolution =
  rs_action :: approval_action
  rs_target :: string
  rs_matchedRule :: "string option"

definition DEFAULT_TOOL_APPROVAL_POLICY :: approval_policy where
  "DEFAULT_TOOL_APPROVAL_POLICY = \<lparr> ap_default = AaAuto, ap_rules =
     [\<lparr> ar_match = ''shell.exec'', ar_target = None, ar_action = AaAsk \<rparr>,
      \<lparr> ar_match = ''net.fetch'', ar_target = None, ar_action = AaAsk \<rparr>,
      \<lparr> ar_match = ''fs.delete'', ar_target = None, ar_action = AaAsk \<rparr>,
      \<lparr> ar_match = ''sys.mcp.call'', ar_target = None, ar_action = AaAsk \<rparr>] \<rparr>"

definition normalizeAction :: "json option \<Rightarrow> approval_action option" where
  "normalizeAction v =
     (if v = Some (JStr ''auto'') then Some AaAuto
      else if v = Some (JStr ''ask'') then Some AaAsk
      else if v = Some (JStr ''deny'') then Some AaDeny
      else None)"

definition isWildcardMatch :: "string \<Rightarrow> string \<Rightarrow> bool" where
  "isWildcardMatch ruleMatch syscall =
     (if \<not> suffix ''.*'' ruleMatch then False
      else let domain = take (length ruleMatch - 2) ruleMatch
           in syscall = domain \<or> prefix (domain @ ''.'') syscall)"

definition normalizeTargetAlias :: "string \<Rightarrow> string" where
  "normalizeTargetAlias v =
     (let trimmed = js_trim v; lower = js_lower trimmed
      in if lower = ''gateway'' \<or> lower = ''local'' then ''gsv'' else trimmed)"

definition normalizeTargetScope :: "json option \<Rightarrow> string option" where
  "normalizeTargetScope v =
     (case json_string v of
        None \<Rightarrow> None
      | Some s \<Rightarrow>
          let normalized = normalizeTargetAlias s
          in if normalized = [] \<or> normalized = ''*'' \<or> normalized = ''any'' then None
             else if normalized = ''device'' \<or> normalized = ''devices/*'' then Some ''targets/*''
             else Some normalized)"

definition legacyWhenTarget :: "json option \<Rightarrow> json option" where
  "legacyWhenTarget v =
     (case v of
        Some (JObj kvs) \<Rightarrow>
          let target = map_of kvs ''target''
          in if target = Some (JStr ''device'') then Some (JStr ''targets/*'') else target
      | _ \<Rightarrow> None)"

definition normalizeTargetPatch :: "json option \<Rightarrow> json option \<Rightarrow> string option" where
  "normalizeTargetPatch targetValue legacyWhen =
     (case normalizeTargetScope targetValue of
        Some t \<Rightarrow> Some t
      | None \<Rightarrow> normalizeTargetScope (legacyWhenTarget legacyWhen))"

definition normalizeExplicitTarget :: "json option \<Rightarrow> string option" where
  "normalizeExplicitTarget v =
     (case json_string v of
        None \<Rightarrow> None
      | Some s \<Rightarrow> (let normalized = normalizeTargetAlias s in if normalized = [] then None else Some normalized))"

definition parseRule :: "json \<Rightarrow> approval_rule option" where
  "parseRule v =
     (let match = js_trim (coalesce (json_string (json_get v ''match'')) [])
      in case normalizeAction (json_get v ''action'') of
           None \<Rightarrow> None
         | Some action \<Rightarrow>
             if match = [] then None
             else Some \<lparr> ar_match = match,
                         ar_target = normalizeTargetPatch (json_get v ''target'') (json_get v ''when''),
                         ar_action = action \<rparr>)"

text \<open>The policy of a parsed JSON value: \<open>JSON.parse\<close> returned \<open>v\<close>.\<close>

definition parsed_policy :: "json \<Rightarrow> approval_policy" where
  "parsed_policy v =
     (case v of
        JObj _ \<Rightarrow>
          \<lparr> ap_default = coalesce (normalizeAction (json_get v ''default'')) (ap_default DEFAULT_TOOL_APPROVAL_POLICY),
            ap_rules = (case json_get v ''rules'' of
                          Some (JArr rs) \<Rightarrow> List.map_filter parseRule rs
                        | _ \<Rightarrow> ap_rules DEFAULT_TOOL_APPROVAL_POLICY) \<rparr>
      | _ \<Rightarrow> DEFAULT_TOOL_APPROVAL_POLICY)"

definition parseToolApprovalPolicy :: "(string \<Rightarrow> json option) \<Rightarrow> string option \<Rightarrow> approval_policy" where
  "parseToolApprovalPolicy json_parse raw =
     (if \<not> truthy raw \<or> js_trim (the raw) = [] then DEFAULT_TOOL_APPROVAL_POLICY
      else case json_parse (the raw) of
             None \<Rightarrow> DEFAULT_TOOL_APPROVAL_POLICY
           | Some v \<Rightarrow> parsed_policy v)"

section \<open>Resolution\<close>

definition targetMatchesScope :: "string option \<Rightarrow> string \<Rightarrow> bool" where
  "targetMatchesScope scope target =
     (if \<not> truthy scope \<or> scope = Some ''*'' \<or> scope = Some ''any'' then True
      else if scope = Some ''targets/*'' \<or> scope = Some ''devices/*'' then target \<noteq> ''gsv''
      else if target = ''targets/*'' then scope = Some ''targets/*'' \<or> scope = Some ''devices/*''
      else scope = Some target)"

definition targetScopeSpecificity :: "string option \<Rightarrow> int" where
  "targetScopeSpecificity scope =
     (if \<not> truthy scope \<or> scope = Some ''*'' \<or> scope = Some ''any'' then 0
      else if scope = Some ''targets/*'' \<or> scope = Some ''devices/*'' \<or> scope = Some ''gsv'' then 1
      else 2)"

definition match_specificity :: "approval_rule \<Rightarrow> string \<Rightarrow> int" where
  "match_specificity rule syscall =
     (if ar_match rule = syscall then 2 else if isWildcardMatch (ar_match rule) syscall then 1 else 0)"

definition resolveToolApprovalTarget :: "string \<Rightarrow> json option \<Rightarrow> string" where
  "resolveToolApprovalTarget syscall args =
     (let field = (\<lambda>k. case args of Some v \<Rightarrow> json_get v k | None \<Rightarrow> None)
      in case normalizeExplicitTarget (field ''target'') of
           Some target \<Rightarrow> target
         | None \<Rightarrow>
             if syscall = ''shell.exec'' \<and> js_trim (coalesce (json_string (field ''sessionId'')) []) \<noteq> []
             then ''targets/*'' else ''gsv'')"

record rule_entry =
  re_rule :: approval_rule
  re_index :: nat
  re_match :: int
  re_target :: int

definition rule_entries :: "approval_rule list \<Rightarrow> string \<Rightarrow> rule_entry list" where
  "rule_entries rules syscall =
     map (\<lambda>(i, r). \<lparr> re_rule = r, re_index = i, re_match = match_specificity r syscall,
                      re_target = targetScopeSpecificity (ar_target r) \<rparr>) (enumerate 0 rules)"

definition entry_rank :: "rule_entry \<Rightarrow> int \<times> int \<times> nat" where
  "entry_rank e = (- re_target e, - re_match e, re_index e)"

definition resolveToolApproval :: "approval_policy \<Rightarrow> string \<Rightarrow> json option \<Rightarrow> approval_resolution" where
  "resolveToolApproval policy syscall args =
     (let target = resolveToolApprovalTarget syscall args;
          rules = sort_key entry_rank
            (filter (\<lambda>e. re_match e > 0 \<and> targetMatchesScope (ar_target (re_rule e)) target)
               (rule_entries (ap_rules policy) syscall))
      in case rules of
           e # _ \<Rightarrow> \<lparr> rs_action = ar_action (re_rule e), rs_target = target,
                       rs_matchedRule = Some (ar_match (re_rule e)) \<rparr>
         | [] \<Rightarrow> \<lparr> rs_action = ap_default policy, rs_target = target, rs_matchedRule = None \<rparr>)"

section \<open>Well-formed policies\<close>

text \<open>What parsing promises of a target scope: trimmed, no alias and none of the words that mean any target.\<close>

definition scope_ok :: "string \<Rightarrow> bool" where
  "scope_ok t \<longleftrightarrow> t \<noteq> [] \<and> normalizeTargetAlias t = t \<and> t \<notin> {''*'', ''any'', ''device'', ''devices/*''}"

definition rule_ok :: "approval_rule \<Rightarrow> bool" where
  "rule_ok r \<longleftrightarrow> ar_match r \<noteq> [] \<and> js_trim (ar_match r) = ar_match r
     \<and> (\<forall>t. ar_target r = Some t \<longrightarrow> scope_ok t)"

definition policy_ok :: "approval_policy \<Rightarrow> bool" where
  "policy_ok p \<longleftrightarrow> (\<forall>r \<in> set (ap_rules p). rule_ok r)"

text \<open>A rule and a policy as the JSON value \<open>JSON.stringify\<close> writes (an absent target is left out).\<close>

definition action_json :: "approval_action \<Rightarrow> json" where
  "action_json a = JStr (case a of AaAuto \<Rightarrow> ''auto'' | AaAsk \<Rightarrow> ''ask'' | AaDeny \<Rightarrow> ''deny'')"

definition rule_json :: "approval_rule \<Rightarrow> json" where
  "rule_json r = JObj ([(''match'', JStr (ar_match r))]
     @ (case ar_target r of Some t \<Rightarrow> [(''target'', JStr t)] | None \<Rightarrow> [])
     @ [(''action'', action_json (ar_action r))])"

definition policy_json :: "approval_policy \<Rightarrow> json" where
  "policy_json p = JObj [(''default'', action_json (ap_default p)), (''rules'', JArr (map rule_json (ap_rules p)))]"

lemma alias_idem [simp]: "normalizeTargetAlias (normalizeTargetAlias s) = normalizeTargetAlias s"
proof -
  have "normalizeTargetAlias ''gsv'' = ''gsv''" by code_simp
  then show ?thesis by (simp add: normalizeTargetAlias_def Let_def)
qed

lemma alias_targets [simp]: "normalizeTargetAlias ''targets/*'' = ''targets/*''"
  by code_simp

lemma normalizeTargetScope_ok: "normalizeTargetScope v = Some t \<Longrightarrow> scope_ok t"
  by (auto simp: normalizeTargetScope_def scope_ok_def Let_def split: option.splits if_splits)

lemma normalizeTargetScope_of_ok [simp]: "scope_ok t \<Longrightarrow> normalizeTargetScope (Some (JStr t)) = Some t"
  by (simp add: normalizeTargetScope_def scope_ok_def json_string_def Let_def)

lemma normalizeTargetPatch_ok: "normalizeTargetPatch v w = Some t \<Longrightarrow> scope_ok t"
  by (auto simp: normalizeTargetPatch_def dest: normalizeTargetScope_ok split: option.splits)

lemma parseRule_ok: "parseRule v = Some r \<Longrightarrow> rule_ok r"
  by (auto simp: parseRule_def rule_ok_def Let_def dest: normalizeTargetPatch_ok split: option.splits if_splits)

lemma default_policy_ok: "policy_ok DEFAULT_TOOL_APPROVAL_POLICY"
proof -
  have "js_trim ''shell.exec'' = ''shell.exec''" "js_trim ''net.fetch'' = ''net.fetch''"
    "js_trim ''fs.delete'' = ''fs.delete''" "js_trim ''sys.mcp.call'' = ''sys.mcp.call''"
    by code_simp+
  then show ?thesis by (simp add: DEFAULT_TOOL_APPROVAL_POLICY_def policy_ok_def rule_ok_def)
qed

lemma parsed_policy_ok: "policy_ok (parsed_policy v)"
  using default_policy_ok
  by (auto simp: parsed_policy_def policy_ok_def List.map_filter_def parseRule_ok
      split: json.splits option.splits)

lemma parseToolApprovalPolicy_ok: "policy_ok (parseToolApprovalPolicy json_parse raw)"
  by (cases "json_parse (the raw)") (simp_all add: parseToolApprovalPolicy_def default_policy_ok parsed_policy_ok)

lemma normalizeAction_json [simp]: "normalizeAction (Some (action_json a)) = Some a"
  by (cases a) (simp_all add: normalizeAction_def action_json_def)

lemma parseRule_json:
  assumes "rule_ok r"
  shows "parseRule (rule_json r) = Some r"
proof -
  have "json_get (rule_json r) ''match'' = Some (JStr (ar_match r))"
    "json_get (rule_json r) ''action'' = Some (action_json (ar_action r))"
    "json_get (rule_json r) ''when'' = None"
    "json_get (rule_json r) ''target'' = map_option JStr (ar_target r)"
    by (simp_all add: rule_json_def json_get_def split: option.splits)
  moreover have "normalizeTargetScope None = None"
    by (simp add: normalizeTargetScope_def json_string_def)
  ultimately show ?thesis
    using assms
    by (cases "ar_target r")
      (simp_all add: parseRule_def rule_ok_def normalizeTargetPatch_def legacyWhenTarget_def Let_def json_string_def)
qed

lemma parse_rules_json: "\<forall>r \<in> set rs. rule_ok r \<Longrightarrow> List.map_filter parseRule (map rule_json rs) = rs"
  by (induction rs) (simp_all add: parseRule_json map_filter_simps)

lemma parsed_policy_json:
  assumes "policy_ok p"
  shows "parsed_policy (policy_json p) = p"
  using assms parse_rules_json [of "ap_rules p"]
  by (simp add: parsed_policy_def policy_json_def json_get_def policy_ok_def)

text \<open>
  C29. A parsed policy is in normal form, whatever text the account or the process stored: every rule has a
  non-empty trimmed pattern and, if it has a target, one without surrounding blanks that is no alias and
  none of the words for any target or any device. Writing such a policy out and parsing it again gives it
  back, so an account's policy can be edited without loss.
\<close>

theorem parsed_policies_are_normal:
  "policy_ok (parseToolApprovalPolicy json_parse raw)
   \<and> (\<forall>p src. policy_ok p \<and> json_parse src = Some (policy_json p) \<and> js_trim src \<noteq> [] \<longrightarrow>
        parseToolApprovalPolicy json_parse (Some src) = p)"
proof (intro conjI allI impI parseToolApprovalPolicy_ok)
  fix p src assume "policy_ok p \<and> json_parse src = Some (policy_json p) \<and> js_trim src \<noteq> []"
  then show "parseToolApprovalPolicy json_parse (Some src) = p"
    by (auto simp: parseToolApprovalPolicy_def parsed_policy_json truthy_def)
qed

section \<open>The choice of a rule\<close>

definition rule_applies :: "string \<Rightarrow> string \<Rightarrow> approval_rule \<Rightarrow> bool" where
  "rule_applies syscall target r \<longleftrightarrow> match_specificity r syscall > 0 \<and> targetMatchesScope (ar_target r) target"

text \<open>Rule \<open>i\<close> outranks or equals every applicable rule: the target first, then the call, then the order.\<close>

definition best_rule :: "approval_rule list \<Rightarrow> string \<Rightarrow> string \<Rightarrow> nat \<Rightarrow> bool" where
  "best_rule rs syscall target i \<longleftrightarrow> i < length rs \<and> rule_applies syscall target (rs ! i)
     \<and> (\<forall>j < length rs. rule_applies syscall target (rs ! j) \<longrightarrow>
          targetScopeSpecificity (ar_target (rs ! j)) < targetScopeSpecificity (ar_target (rs ! i))
          \<or> targetScopeSpecificity (ar_target (rs ! j)) = targetScopeSpecificity (ar_target (rs ! i))
            \<and> (match_specificity (rs ! j) syscall < match_specificity (rs ! i) syscall
               \<or> match_specificity (rs ! j) syscall = match_specificity (rs ! i) syscall \<and> i \<le> j))"

lemma best_rule_unique: "best_rule rs c t i \<Longrightarrow> best_rule rs c t j \<Longrightarrow> i = j"
  unfolding best_rule_def by force

definition applicable_entries :: "approval_rule list \<Rightarrow> string \<Rightarrow> string \<Rightarrow> rule_entry list" where
  "applicable_entries rs syscall target =
     filter (\<lambda>e. re_match e > 0 \<and> targetMatchesScope (ar_target (re_rule e)) target) (rule_entries rs syscall)"

lemma applicable_entries_set:
  "e \<in> set (applicable_entries rs c t) \<longleftrightarrow>
     (\<exists>i < length rs. rule_applies c t (rs ! i) \<and> e = \<lparr> re_rule = rs ! i, re_index = i,
        re_match = match_specificity (rs ! i) c, re_target = targetScopeSpecificity (ar_target (rs ! i)) \<rparr>)"
  by (auto simp: applicable_entries_def rule_entries_def rule_applies_def in_set_enumerate_eq image_iff
      intro!: bexI [of _ "(_ :: nat, rs ! _)"])

lemma hd_sort_key_least:
  assumes "xs \<noteq> []"
  shows "hd (sort_key f xs) \<in> set xs" "\<forall>y \<in> set xs. f (hd (sort_key f xs)) \<le> f y"
proof -
  have ne: "sort_key f xs \<noteq> []" using assms by (metis length_0_conv length_sort)
  then show "hd (sort_key f xs) \<in> set xs" using hd_in_set set_sort by metis
  show "\<forall>y \<in> set xs. f (hd (sort_key f xs)) \<le> f y"
  proof
    fix y assume "y \<in> set xs"
    then have "y \<in> set (sort_key f xs)" by simp
    moreover have "sorted (map f (sort_key f xs))" by simp
    ultimately show "f (hd (sort_key f xs)) \<le> f y"
      using ne by (cases "sort_key f xs") auto
  qed
qed

lemma resolve_by_entries:
  "resolveToolApproval p c args =
     (let t = resolveToolApprovalTarget c args in
      case sort_key entry_rank (applicable_entries (ap_rules p) c t) of
        e # _ \<Rightarrow> \<lparr> rs_action = ar_action (re_rule e), rs_target = t, rs_matchedRule = Some (ar_match (re_rule e)) \<rparr>
      | [] \<Rightarrow> \<lparr> rs_action = ap_default p, rs_target = t, rs_matchedRule = None \<rparr>)"
  by (simp add: resolveToolApproval_def applicable_entries_def)

lemma resolve_default:
  assumes "\<forall>r \<in> set (ap_rules p). \<not> rule_applies c (resolveToolApprovalTarget c args) r"
  shows "resolveToolApproval p c args =
    \<lparr> rs_action = ap_default p, rs_target = resolveToolApprovalTarget c args, rs_matchedRule = None \<rparr>"
proof -
  have "applicable_entries (ap_rules p) c (resolveToolApprovalTarget c args) = []"
    using assms applicable_entries_set [of _ "ap_rules p"] by (metis last_in_set nth_mem)
  then show ?thesis by (simp add: resolve_by_entries)
qed

lemma resolve_some:
  assumes "r \<in> set (ap_rules p)" "rule_applies c (resolveToolApprovalTarget c args) r"
  obtains i where "best_rule (ap_rules p) c (resolveToolApprovalTarget c args) i"
    "resolveToolApproval p c args =
       \<lparr> rs_action = ar_action (ap_rules p ! i), rs_target = resolveToolApprovalTarget c args,
         rs_matchedRule = Some (ar_match (ap_rules p ! i)) \<rparr>"
proof -
  let ?t = "resolveToolApprovalTarget c args"
  let ?es = "applicable_entries (ap_rules p) c ?t"
  have ne: "?es \<noteq> []"
    using assms applicable_entries_set [of _ "ap_rules p" c ?t]
    by (metis in_set_conv_nth length_pos_if_in_set less_irrefl list.size(3))
  let ?e = "hd (sort_key entry_rank ?es)"
  obtain i where i: "i < length (ap_rules p)" "rule_applies c ?t (ap_rules p ! i)"
    and e: "?e = \<lparr> re_rule = ap_rules p ! i, re_index = i, re_match = match_specificity (ap_rules p ! i) c,
               re_target = targetScopeSpecificity (ar_target (ap_rules p ! i)) \<rparr>"
    using hd_sort_key_least(1) [OF ne, of entry_rank] by (auto simp: applicable_entries_set)
  have "best_rule (ap_rules p) c ?t i"
    unfolding best_rule_def
  proof (intro conjI allI impI i)
    fix j assume j: "j < length (ap_rules p)" "rule_applies c ?t (ap_rules p ! j)"
    let ?f = "\<lparr> re_rule = ap_rules p ! j, re_index = j, re_match = match_specificity (ap_rules p ! j) c,
               re_target = targetScopeSpecificity (ar_target (ap_rules p ! j)) \<rparr>"
    have "?f \<in> set ?es" using j by (auto simp: applicable_entries_set)
    then have "entry_rank ?e \<le> entry_rank ?f" using hd_sort_key_least(2) [OF ne] by blast
    then show "targetScopeSpecificity (ar_target (ap_rules p ! j)) < targetScopeSpecificity (ar_target (ap_rules p ! i))
          \<or> targetScopeSpecificity (ar_target (ap_rules p ! j)) = targetScopeSpecificity (ar_target (ap_rules p ! i))
            \<and> (match_specificity (ap_rules p ! j) c < match_specificity (ap_rules p ! i) c
               \<or> match_specificity (ap_rules p ! j) c = match_specificity (ap_rules p ! i) c \<and> i \<le> j)"
      by (auto simp: e entry_rank_def)
  qed
  moreover obtain e' es' where "sort_key entry_rank ?es = e' # es'"
    using ne by (metis length_0_conv length_sort list.exhaust)
  then have "resolveToolApproval p c args =
       \<lparr> rs_action = ar_action (ap_rules p ! i), rs_target = ?t, rs_matchedRule = Some (ar_match (ap_rules p ! i)) \<rparr>"
    using e by (simp add: resolve_by_entries)
  ultimately show ?thesis by (rule that)
qed

lemma parsed_policies_are_normal_witness:
  "parseToolApprovalPolicy (\<lambda>_. Some (policy_json DEFAULT_TOOL_APPROVAL_POLICY)) (Some ''policy'')
     = DEFAULT_TOOL_APPROVAL_POLICY"
  using conjunct2 [OF parsed_policies_are_normal, rule_format,
      of DEFAULT_TOOL_APPROVAL_POLICY "\<lambda>_. Some (policy_json DEFAULT_TOOL_APPROVAL_POLICY)" "''policy''"]
  by (simp add: default_policy_ok js_trim_def js_ws_def)

text \<open>
  C30. The rule that decides a call is the most specific one: when some rule's pattern covers the call and its
  target the call's target, the action is that of the applicable rule whose target is most specific, then
  whose pattern is, then which comes first; otherwise it is the default. So a policy all of whose applicable
  rules deny refuses the call, whatever its default.
\<close>

theorem approval_follows_most_specific_rule:
  "let t = resolveToolApprovalTarget c args; res = resolveToolApproval p c args in
     rs_target res = t
     \<and> (case rs_matchedRule res of
          None \<Rightarrow> rs_action res = ap_default p \<and> \<not> (\<exists>r \<in> set (ap_rules p). rule_applies c t r)
        | Some m \<Rightarrow> \<exists>i. best_rule (ap_rules p) c t i \<and> m = ar_match (ap_rules p ! i)
            \<and> rs_action res = ar_action (ap_rules p ! i))
     \<and> (\<forall>a. (\<exists>r \<in> set (ap_rules p). rule_applies c t r)
          \<and> (\<forall>r \<in> set (ap_rules p). rule_applies c t r \<longrightarrow> ar_action r = a) \<longrightarrow> rs_action res = a)"
proof (cases "\<exists>r \<in> set (ap_rules p). rule_applies c (resolveToolApprovalTarget c args) r")
  case True
  then obtain i where "best_rule (ap_rules p) c (resolveToolApprovalTarget c args) i"
    "resolveToolApproval p c args =
       \<lparr> rs_action = ar_action (ap_rules p ! i), rs_target = resolveToolApprovalTarget c args,
         rs_matchedRule = Some (ar_match (ap_rules p ! i)) \<rparr>"
    by (blast elim: resolve_some)
  then show ?thesis unfolding Let_def by (auto simp: best_rule_def)
next
  case False
  then have "resolveToolApproval p c args =
    \<lparr> rs_action = ap_default p, rs_target = resolveToolApprovalTarget c args, rs_matchedRule = None \<rparr>"
    by (intro resolve_default) blast
  with False show ?thesis by (simp add: Let_def)
qed

lemma approval_follows_most_specific_rule_witness:
  "rs_action (resolveToolApproval \<lparr> ap_default = AaAuto, ap_rules =
      [\<lparr> ar_match = ''shell.*'', ar_target = Some ''targets/*'', ar_action = AaDeny \<rparr>] \<rparr>
      ''shell.exec'' (Some (JObj [(''target'', JStr ''mac'')]))) = AaDeny"
proof -
  let ?p = "\<lparr> ap_default = AaAuto, ap_rules =
      [\<lparr> ar_match = ''shell.*'', ar_target = Some ''targets/*'', ar_action = AaDeny \<rparr>] \<rparr>"
  let ?a = "Some (JObj [(''target'', JStr ''mac'')])"
  have t: "resolveToolApprovalTarget ''shell.exec'' ?a = ''mac''" by code_simp
  have "rule_applies ''shell.exec'' ''mac''
      \<lparr> ar_match = ''shell.*'', ar_target = Some ''targets/*'', ar_action = AaDeny \<rparr>" by code_simp
  then show ?thesis
    using approval_follows_most_specific_rule [of "''shell.exec''" ?a ?p]
    unfolding Let_def t by simp
qed

section \<open>Approvals around a tool call\<close>

definition TOOL_APPROVAL_OVERRIDES_KEY :: string where
  "TOOL_APPROVAL_OVERRIDES_KEY = ''toolApprovalOverrides''"

definition SHELL_SESSION_TARGET_KEY_PREFIX :: string where
  "SHELL_SESSION_TARGET_KEY_PREFIX = ''shellSessionTarget:''"

definition normalizeOptionalString :: "json option \<Rightarrow> string option" where
  "normalizeOptionalString v =
     (case json_string v of
        None \<Rightarrow> None
      | Some s \<Rightarrow> if js_trim s = [] then None else Some (js_trim s))"

definition shellSessionTargetKey :: "string \<Rightarrow> string" where
  "shellSessionTargetKey sessionId = SHELL_SESSION_TARGET_KEY_PREFIX @ sessionId"

definition loadShellSessionTarget :: "(string \<rightharpoonup> string) \<Rightarrow> string \<Rightarrow> string option" where
  "loadShellSessionTarget kv sessionId =
     normalizeOptionalString (map_option JStr (kv (shellSessionTargetKey sessionId)))"

text \<open>The arguments of a call and whether it names a shell session whose target is not known.\<close>

definition prepareToolArgs :: "(string \<rightharpoonup> string) \<Rightarrow> string \<Rightarrow> json option \<Rightarrow> json option \<times> bool" where
  "prepareToolArgs kv syscall args =
     (if syscall \<noteq> ''shell.exec'' then (args, False)
      else case args of
        Some (JObj kvs) \<Rightarrow>
          (if normalizeOptionalString (map_of kvs ''target'') \<noteq> None then (args, False)
           else case normalizeOptionalString (map_of kvs ''sessionId'') of
             None \<Rightarrow> (args, False)
           | Some sessionId \<Rightarrow>
               (case loadShellSessionTarget kv sessionId of
                  None \<Rightarrow> (args, True)
                | Some target \<Rightarrow> (Some (JObj (AList.update ''target'' (JStr target) kvs)), False)))
      | _ \<Rightarrow> (args, False))"

definition rememberShellSessionTargetFromResult ::
  "string \<Rightarrow> json option \<Rightarrow> json option \<Rightarrow> (string \<rightharpoonup> string) \<Rightarrow> (string \<rightharpoonup> string)" where
  "rememberShellSessionTargetFromResult syscall args res kv =
     (if syscall \<noteq> ''shell.exec'' then kv
      else case normalizeOptionalString (case res of Some v \<Rightarrow> json_get v ''sessionId'' | None \<Rightarrow> None) of
        None \<Rightarrow> kv
      | Some sessionId \<Rightarrow>
          let target = resolveToolApprovalTarget syscall args
          in if target = ''targets/*'' then kv else kv(shellSessionTargetKey sessionId \<mapsto> target))"

definition loadToolApprovalOverrides ::
  "(string \<Rightarrow> json option) \<Rightarrow> (json \<Rightarrow> string) \<Rightarrow> (string \<rightharpoonup> string) \<Rightarrow> approval_rule list" where
  "loadToolApprovalOverrides json_parse json_stringify kv =
     (case kv TOOL_APPROVAL_OVERRIDES_KEY of
        None \<Rightarrow> []
      | Some raw \<Rightarrow>
          if raw = [] then []
          else case json_parse raw of
            Some (JArr parsed) \<Rightarrow>
              ap_rules (parseToolApprovalPolicy json_parse
                (Some (json_stringify (JObj [(''default'', JStr ''auto''), (''rules'', JArr parsed)]))))
          | _ \<Rightarrow> [])"

text \<open>The policy of a run: cached once computed; otherwise from the account's text and the overrides.\<close>

definition resolveToolApprovalPolicy ::
  "(string \<Rightarrow> json option) \<Rightarrow> (json \<Rightarrow> string) \<Rightarrow> string option \<Rightarrow> (string \<rightharpoonup> string)
     \<Rightarrow> approval_policy option \<Rightarrow> approval_policy" where
  "resolveToolApprovalPolicy json_parse json_stringify accountApprovalPolicy kv cached =
     (case cached of
        Some p \<Rightarrow> p
      | None \<Rightarrow>
          let accountPolicy = parseToolApprovalPolicy json_parse accountApprovalPolicy;
              overrides = loadToolApprovalOverrides json_parse json_stringify kv
          in \<lparr> ap_default = ap_default accountPolicy, ap_rules = overrides @ ap_rules accountPolicy \<rparr>)"

definition buildToolApprovalOverride :: "(string \<rightharpoonup> string) \<Rightarrow> string \<Rightarrow> json option \<Rightarrow> approval_rule" where
  "buildToolApprovalOverride kv syscall args =
     (let prepared = fst (prepareToolArgs kv syscall args)
      in \<lparr> ar_match = syscall, ar_target = Some (resolveToolApprovalTarget syscall prepared),
           ar_action = AaAuto \<rparr>)"

text \<open>Two rules have the same key when pattern, target and action agree, so the key is the rule.\<close>

definition approvalRuleKey :: "approval_rule \<Rightarrow> string \<times> string option \<times> approval_action" where
  "approvalRuleKey r = (ar_match r, ar_target r, ar_action r)"

definition rememberToolApproval ::
  "(string \<Rightarrow> json option) \<Rightarrow> (json \<Rightarrow> string) \<Rightarrow> string \<Rightarrow> json option
     \<Rightarrow> (string \<rightharpoonup> string) \<times> approval_policy option \<Rightarrow> (string \<rightharpoonup> string) \<times> approval_policy option" where
  "rememberToolApproval json_parse json_stringify syscall args = (\<lambda>(kv, cached).
     let rule = buildToolApprovalOverride kv syscall args;
         overrides = loadToolApprovalOverrides json_parse json_stringify kv;
         key = approvalRuleKey rule;
         kv' = (if key \<in> set (map approvalRuleKey overrides) then kv
                else kv(TOOL_APPROVAL_OVERRIDES_KEY \<mapsto> json_stringify (JArr (map rule_json (rule # overrides)))));
         cached' = map_option (\<lambda>p. if key \<in> set (map approvalRuleKey (ap_rules p)) then p
                                      else p\<lparr> ap_rules := rule # ap_rules p \<rparr>) cached
     in (kv', cached'))"

lemma resolve_cong_rules:
  assumes "ap_default p = ap_default q"
    and none: "(\<exists>r \<in> set (ap_rules p). rule_applies c (resolveToolApprovalTarget c args) r)
      \<longleftrightarrow> (\<exists>r \<in> set (ap_rules q). rule_applies c (resolveToolApprovalTarget c args) r)"
    and some: "\<And>i. best_rule (ap_rules q) c (resolveToolApprovalTarget c args) i \<Longrightarrow>
      \<exists>j. best_rule (ap_rules p) c (resolveToolApprovalTarget c args) j \<and> ap_rules p ! j = ap_rules q ! i"
  shows "resolveToolApproval p c args = resolveToolApproval q c args"
proof (cases "\<exists>r \<in> set (ap_rules q). rule_applies c (resolveToolApprovalTarget c args) r")
  case True
  then obtain i where i: "best_rule (ap_rules q) c (resolveToolApprovalTarget c args) i"
    "resolveToolApproval q c args =
       \<lparr> rs_action = ar_action (ap_rules q ! i), rs_target = resolveToolApprovalTarget c args,
         rs_matchedRule = Some (ar_match (ap_rules q ! i)) \<rparr>"
    by (blast elim: resolve_some)
  from True none obtain k where k: "best_rule (ap_rules p) c (resolveToolApprovalTarget c args) k"
    "resolveToolApproval p c args =
       \<lparr> rs_action = ar_action (ap_rules p ! k), rs_target = resolveToolApprovalTarget c args,
         rs_matchedRule = Some (ar_match (ap_rules p ! k)) \<rparr>"
    by (blast elim: resolve_some)
  from some [OF i(1)] obtain j where "best_rule (ap_rules p) c (resolveToolApprovalTarget c args) j"
    "ap_rules p ! j = ap_rules q ! i" by blast
  with k(1) have "ap_rules p ! k = ap_rules q ! i" by (metis best_rule_unique)
  then show ?thesis by (simp add: i(2) k(2))
next
  case False
  then have "resolveToolApproval q c args = \<lparr> rs_action = ap_default q,
      rs_target = resolveToolApprovalTarget c args, rs_matchedRule = None \<rparr>"
    by (intro resolve_default) blast
  moreover have "resolveToolApproval p c args = \<lparr> rs_action = ap_default p,
      rs_target = resolveToolApprovalTarget c args, rs_matchedRule = None \<rparr>"
    using False none by (intro resolve_default) blast
  ultimately show ?thesis by (simp add: assms(1))
qed

lemma best_rule_Cons:
  assumes "\<not> rule_applies c t r" "best_rule rs c t i"
  shows "best_rule (r # rs) c t (Suc i)"
  unfolding best_rule_def
proof (intro conjI allI impI)
  fix j assume "j < length (r # rs)" "rule_applies c t ((r # rs) ! j)"
  then obtain k where "j = Suc k" "k < length rs" "rule_applies c t (rs ! k)"
    using assms(1) by (cases j) auto
  then show "targetScopeSpecificity (ar_target ((r # rs) ! j)) < targetScopeSpecificity (ar_target ((r # rs) ! Suc i))
      \<or> targetScopeSpecificity (ar_target ((r # rs) ! j)) = targetScopeSpecificity (ar_target ((r # rs) ! Suc i))
        \<and> (match_specificity ((r # rs) ! j) c < match_specificity ((r # rs) ! Suc i) c
           \<or> match_specificity ((r # rs) ! j) c = match_specificity ((r # rs) ! Suc i) c \<and> Suc i \<le> j)"
    using assms(2) by (simp add: best_rule_def)
qed (use assms(2) in \<open>simp_all add: best_rule_def\<close>)

lemma resolve_Cons_inapplicable:
  assumes "\<not> rule_applies c (resolveToolApprovalTarget c args) r"
  shows "resolveToolApproval (p\<lparr> ap_rules := r # ap_rules p \<rparr>) c args = resolveToolApproval p c args"
proof (rule resolve_cong_rules)
  fix i assume "best_rule (ap_rules p) c (resolveToolApprovalTarget c args) i"
  with assms have "best_rule (r # ap_rules p) c (resolveToolApprovalTarget c args) (Suc i)"
    by (rule best_rule_Cons)
  then show "\<exists>j. best_rule (ap_rules (p\<lparr>ap_rules := r # ap_rules p\<rparr>)) c (resolveToolApprovalTarget c args) j
      \<and> ap_rules (p\<lparr>ap_rules := r # ap_rules p\<rparr>) ! j = ap_rules p ! i"
    by (intro exI [of _ "Suc i"]) simp
qed (use assms in simp_all)

text \<open>A rule for exactly one call and one target, as an approval is remembered.\<close>

lemma exact_rule_applies:
  assumes "scope_ok t" "t \<noteq> ''targets/*''" "\<not> suffix ''.*'' c"
  shows "rule_applies c' t' \<lparr> ar_match = c, ar_target = Some t, ar_action = a \<rparr> \<longleftrightarrow> c' = c \<and> t' = t"
  using assms
  by (auto simp: rule_applies_def match_specificity_def isWildcardMatch_def targetMatchesScope_def
      scope_ok_def truthy_def)

lemma specificity_le: "targetScopeSpecificity s \<le> 2"
  by (simp add: targetScopeSpecificity_def)

lemma specificity_scope_ok: "scope_ok t \<Longrightarrow> 1 \<le> targetScopeSpecificity (Some t)"
  by (simp add: targetScopeSpecificity_def scope_ok_def truthy_def)

lemma specific_scope_matches: "targetScopeSpecificity s = 2 \<Longrightarrow> targetMatchesScope s t \<Longrightarrow> s = Some t"
  unfolding targetScopeSpecificity_def targetMatchesScope_def
  by (simp split: if_split_asm)

lemma exact_rule_outranks:
  assumes "rule_applies c t r" "scope_ok t"
  shows "targetScopeSpecificity (ar_target r) \<le> targetScopeSpecificity (Some t)" "match_specificity r c \<le> 2"
proof -
  have m: "targetMatchesScope (ar_target r) t" using assms(1) by (simp add: rule_applies_def)
  show "targetScopeSpecificity (ar_target r) \<le> targetScopeSpecificity (Some t)"
  proof (cases "targetScopeSpecificity (ar_target r) = 2")
    case True
    then show ?thesis using specific_scope_matches [OF _ m] by simp
  next
    case False
    then show ?thesis using specificity_le [of "ar_target r"] specificity_scope_ok [OF assms(2)] by linarith
  qed
qed (simp add: match_specificity_def)

text \<open>With such a rule among the first \<open>n\<close>, all of which allow, the call is allowed.\<close>

lemma resolve_allowed_by_exact:
  assumes k: "k < n" "n \<le> length (ap_rules p)"
    and r: "ap_rules p ! k = \<lparr> ar_match = c, ar_target = Some t, ar_action = AaAuto \<rparr>"
    and t: "resolveToolApprovalTarget c args = t" "scope_ok t" "t \<noteq> ''targets/*''" "\<not> suffix ''.*'' c"
    and auto_before: "\<forall>i < n. ar_action (ap_rules p ! i) = AaAuto"
  shows "rs_action (resolveToolApproval p c args) = AaAuto"
proof -
  have a: "rule_applies c t (ap_rules p ! k)" using exact_rule_applies [OF t(2-4)] by (simp add: r)
  moreover have "ap_rules p ! k \<in> set (ap_rules p)" using k by simp
  ultimately obtain i where i: "best_rule (ap_rules p) c t i"
    "rs_action (resolveToolApproval p c args) = ar_action (ap_rules p ! i)"
    using t(1) by (metis approval_resolution.select_convs(1) resolve_some)
  have "rule_applies c t (ap_rules p ! i)" using i(1) by (simp add: best_rule_def)
  note top = exact_rule_outranks [OF this t(2)]
  have "match_specificity (ap_rules p ! k) c = 2" by (simp add: r match_specificity_def)
  moreover have "targetScopeSpecificity (ar_target (ap_rules p ! k)) = targetScopeSpecificity (Some t)"
    by (simp add: r)
  moreover have "targetScopeSpecificity (ar_target (ap_rules p ! k)) < targetScopeSpecificity (ar_target (ap_rules p ! i))
      \<or> targetScopeSpecificity (ar_target (ap_rules p ! k)) = targetScopeSpecificity (ar_target (ap_rules p ! i))
        \<and> (match_specificity (ap_rules p ! k) c < match_specificity (ap_rules p ! i) c
           \<or> match_specificity (ap_rules p ! k) c = match_specificity (ap_rules p ! i) c \<and> i \<le> k)"
    using i(1) a k by (simp add: best_rule_def)
  ultimately have "i \<le> k" using top by linarith
  then show ?thesis using auto_before k i(2) by simp
qed

lemma inj_approvalRuleKey: "inj approvalRuleKey"
  by (rule injI) (simp add: approvalRuleKey_def)

definition codec_ok :: "(string \<Rightarrow> json option) \<Rightarrow> (json \<Rightarrow> string) \<Rightarrow> json \<Rightarrow> bool" where
  "codec_ok json_parse json_stringify v \<longleftrightarrow>
     json_parse (json_stringify v) = Some v \<and> js_trim (json_stringify v) \<noteq> []"

lemma parsed_rule_ok: "r \<in> set (ap_rules (parseToolApprovalPolicy jp raw)) \<Longrightarrow> rule_ok r"
  using parseToolApprovalPolicy_ok [of jp raw] unfolding policy_ok_def by blast

lemma overrides_ok: "r \<in> set (loadToolApprovalOverrides jp js kv) \<Longrightarrow> rule_ok r"
proof -
  assume r: "r \<in> set (loadToolApprovalOverrides jp js kv)"
  then obtain raw where raw: "kv TOOL_APPROVAL_OVERRIDES_KEY = Some raw"
    by (cases "kv TOOL_APPROVAL_OVERRIDES_KEY") (simp_all add: loadToolApprovalOverrides_def)
  have ne: "raw \<noteq> []" using r raw by (cases "raw = []") (simp_all add: loadToolApprovalOverrides_def)
  obtain v where v: "jp raw = Some v"
    using r raw ne by (cases "jp raw") (simp_all add: loadToolApprovalOverrides_def)
  obtain vs where "v = JArr vs"
    using r raw ne v by (cases v) (simp_all add: loadToolApprovalOverrides_def)
  with raw ne v have "loadToolApprovalOverrides jp js kv = ap_rules (parseToolApprovalPolicy jp
      (Some (js (JObj [(''default'', JStr ''auto''), (''rules'', JArr vs)]))))"
    by (simp add: loadToolApprovalOverrides_def)
  with r show "rule_ok r" by (simp add: parsed_rule_ok)
qed

lemma load_saved_overrides:
  assumes "\<forall>r \<in> set rs. rule_ok r"
    and c1: "codec_ok jp js (JArr (map rule_json rs))"
    and c2: "codec_ok jp js (policy_json \<lparr> ap_default = AaAuto, ap_rules = rs \<rparr>)"
  shows "loadToolApprovalOverrides jp js (kv(TOOL_APPROVAL_OVERRIDES_KEY \<mapsto> js (JArr (map rule_json rs)))) = rs"
proof -
  let ?p = "\<lparr> ap_default = AaAuto, ap_rules = rs \<rparr>"
  have obj: "JObj [(''default'', JStr ''auto''), (''rules'', JArr (map rule_json rs))] = policy_json ?p"
    by (simp add: policy_json_def action_json_def)
  have "js (JArr (map rule_json rs)) \<noteq> []" using c1 by (auto simp: codec_ok_def)
  moreover have "policy_ok ?p" using assms(1) by (simp add: policy_ok_def)
  then have "parseToolApprovalPolicy jp (Some (js (policy_json ?p))) = ?p"
    using c2 by (auto simp: codec_ok_def parseToolApprovalPolicy_def parsed_policy_json truthy_def)
  ultimately show ?thesis
    using c1 by (simp add: loadToolApprovalOverrides_def codec_ok_def obj)
qed

text \<open>
  A remembered approval covers exactly what the human saw. When the arguments of the confirmed call
  resolve to a plain target, later runs let that call on that target through without asking, and decide
  every other call, and the same call on any other target, as they did before; the overrides stay
  permissions only. (The stored text is read back as it was written.)
\<close>

theorem remembered_approval_is_exact:
  assumes "t = resolveToolApprovalTarget c (fst (prepareToolArgs kv c args))"
    and "scope_ok t" "t \<noteq> ''targets/*''"
    and "c \<noteq> []" "js_trim c = c" "\<not> suffix ''.*'' c"
    and "rules = buildToolApprovalOverride kv c args # loadToolApprovalOverrides jp js kv"
    and "codec_ok jp js (JArr (map rule_json rules))"
    and "codec_ok jp js (policy_json \<lparr> ap_default = AaAuto, ap_rules = rules \<rparr>)"
    and "\<forall>r \<in> set (loadToolApprovalOverrides jp js kv). ar_action r = AaAuto"
    and "kv' = fst (rememberToolApproval jp js c args (kv, cached))"
    and "before = resolveToolApprovalPolicy jp js account kv None"
    and "after = resolveToolApprovalPolicy jp js account kv' None"
  shows "(\<forall>args'. resolveToolApprovalTarget c args' = t \<longrightarrow> rs_action (resolveToolApproval after c args') = AaAuto)
    \<and> (\<forall>c' args'. c' \<noteq> c \<or> resolveToolApprovalTarget c' args' \<noteq> t \<longrightarrow>
         resolveToolApproval after c' args' = resolveToolApproval before c' args')
    \<and> (\<forall>r \<in> set (loadToolApprovalOverrides jp js kv'). ar_action r = AaAuto)"
proof -
  let ?old = "loadToolApprovalOverrides jp js kv" and ?new = "loadToolApprovalOverrides jp js kv'"
  let ?rule = "\<lparr> ar_match = c, ar_target = Some t, ar_action = AaAuto \<rparr>"
  let ?acct = "parseToolApprovalPolicy jp account"
  have rule: "buildToolApprovalOverride kv c args = ?rule"
    by (simp add: buildToolApprovalOverride_def assms(1) Let_def)
  have rule_ok: "\<forall>r \<in> set rules. rule_ok r"
    using overrides_ok assms(2,4,5,7) by (auto simp: rule rule_ok_def)
  have key: "approvalRuleKey ?rule \<in> set (map approvalRuleKey ?old) \<longleftrightarrow> ?rule \<in> set ?old"
    using inj_approvalRuleKey by (simp add: inj_image_mem_iff)
  have new: "?new = (if ?rule \<in> set ?old then ?old else ?rule # ?old)"
  proof (cases "?rule \<in> set ?old")
    case True
    then have "kv' = kv" using key assms(11) by (simp add: rememberToolApproval_def rule Let_def)
    with True show ?thesis by simp
  next
    case False
    then have "kv' = kv(TOOL_APPROVAL_OVERRIDES_KEY \<mapsto> js (JArr (map rule_json rules)))"
      using key assms(7,11) by (simp add: rememberToolApproval_def rule Let_def)
    with load_saved_overrides [OF rule_ok assms(8,9)] False show ?thesis
      by (simp add: assms(7) rule)
  qed
  have autos: "\<forall>r \<in> set ?new. ar_action r = AaAuto" using assms(10) by (simp add: new)
  have pol: "before = \<lparr> ap_default = ap_default ?acct, ap_rules = ?old @ ap_rules ?acct \<rparr>"
    "after = \<lparr> ap_default = ap_default ?acct, ap_rules = ?new @ ap_rules ?acct \<rparr>"
    by (simp_all add: assms(12,13) resolveToolApprovalPolicy_def Let_def)
  have "\<exists>k < length ?new. ?new ! k = ?rule"
    by (metis in_set_conv_nth list.set_intros(1) new)
  then obtain k where k: "k < length ?new" "?new ! k = ?rule" by blast
  have "rs_action (resolveToolApproval after c args') = AaAuto"
    if "resolveToolApprovalTarget c args' = t" for args'
    by (rule resolve_allowed_by_exact [of k "length ?new"])
      (use that k autos assms(2,3,6) in \<open>auto simp: pol nth_append\<close>)
  moreover have "resolveToolApproval after c' args' = resolveToolApproval before c' args'"
    if "c' \<noteq> c \<or> resolveToolApprovalTarget c' args' \<noteq> t" for c' args'
  proof (cases "?rule \<in> set ?old")
    case False
    have "\<not> rule_applies c' (resolveToolApprovalTarget c' args') ?rule"
      using that exact_rule_applies [OF assms(2,3,6)] by simp
    from resolve_Cons_inapplicable [OF this, of before] show ?thesis
      using False by (simp add: pol new)
  qed (simp add: pol new)
  ultimately show ?thesis using autos by blast
qed

definition demo_override :: approval_rule where
  "demo_override = \<lparr> ar_match = ''shell.exec'', ar_target = Some ''mac'', ar_action = AaAuto \<rparr>"

definition demo_stringify :: "json \<Rightarrow> string" where
  "demo_stringify v = (case v of JArr _ \<Rightarrow> ''a'' | _ \<Rightarrow> ''o'')"

definition demo_parse :: "string \<Rightarrow> json option" where
  "demo_parse s = (if s = ''a'' then Some (JArr [rule_json demo_override])
     else Some (policy_json \<lparr> ap_default = AaAuto, ap_rules = [demo_override] \<rparr>))"

lemma remembered_approval_is_exact_witness:
  "let p = resolveToolApprovalPolicy demo_parse demo_stringify None
        (fst (rememberToolApproval demo_parse demo_stringify ''shell.exec''
           (Some (JObj [(''target'', JStr ''mac'')])) (Map.empty, None))) None
   in (\<forall>args. resolveToolApprovalTarget ''shell.exec'' args = ''mac'' \<longrightarrow>
         rs_action (resolveToolApproval p ''shell.exec'' args) = AaAuto)
     \<and> rs_action (resolveToolApproval p ''shell.exec'' (Some (JObj [(''target'', JStr ''nas'')]))) = AaAsk"
proof -
  let ?args = "Some (JObj [(''target'', JStr ''mac'')])"
  have args: "fst (prepareToolArgs Map.empty ''shell.exec'' ?args) = ?args" by code_simp
  have t: "resolveToolApprovalTarget ''shell.exec'' ?args = ''mac''" by code_simp
  have nas: "resolveToolApprovalTarget ''shell.exec'' (Some (JObj [(''target'', JStr ''nas'')])) = ''nas''"
    by code_simp
  have load: "loadToolApprovalOverrides demo_parse demo_stringify Map.empty = []"
    by (simp add: loadToolApprovalOverrides_def)
  have rules: "[demo_override] = buildToolApprovalOverride Map.empty ''shell.exec'' ?args
      # loadToolApprovalOverrides demo_parse demo_stringify Map.empty"
    by (simp add: load buildToolApprovalOverride_def args t demo_override_def)
  have codec: "codec_ok demo_parse demo_stringify (JArr (map rule_json [demo_override]))"
    "codec_ok demo_parse demo_stringify (policy_json \<lparr> ap_default = AaAuto, ap_rules = [demo_override] \<rparr>)"
    by (simp_all add: codec_ok_def demo_parse_def demo_stringify_def policy_json_def js_trim_def js_ws_def)
  have side: "scope_ok ''mac''" "''mac'' \<noteq> ''targets/*''" "js_trim ''shell.exec'' = ''shell.exec''"
    "\<not> suffix ''.*'' ''shell.exec''" by code_simp+
  have none: "\<forall>r \<in> set (loadToolApprovalOverrides demo_parse demo_stringify Map.empty). ar_action r = AaAuto"
    by (simp add: load)
  have before: "rs_action (resolveToolApproval (resolveToolApprovalPolicy demo_parse demo_stringify None Map.empty None)
      ''shell.exec'' (Some (JObj [(''target'', JStr ''nas'')]))) = AaAsk" by code_simp
  note exact = remembered_approval_is_exact [OF _ side(1,2) _ side(3,4) rules codec none refl refl refl, unfolded args t]
  show ?thesis
    unfolding Let_def using exact [where account = None and cached = None] before nas by simp
qed

section \<open>Approval and dispatch\<close>

text \<open>A tool call as the kernel receives it: the frame carries the arguments the approval was judged on.\<close>

lemma visible_target_is_device:
  assumes "getVisibleTarget ctx i True = Some t"
  shows "\<exists>d. device_get (tc_devices ctx) i = Some d \<and> t = deviceRecordToTarget (tc_auth ctx) d \<and> dv_id d = i"
  using assms
  by (auto simp: getVisibleTarget_def device_get_def dest: lookup_Some split: option.splits if_splits)

lemma routed_to_its_device:
  assumes "routeToTarget env frame t origin s = (s', Forwarded)" "t = deviceRecordToTarget auth d"
  shows "\<exists>c \<in> set (de_connections env). isConnectionForDevice c (dv_id d) \<and> ds_sent s' = ds_sent s @ [(cn_id c, frame)]"
proof -
  have conn: "findDeviceConnection (dv_id d) (de_connections env) = Some c \<Longrightarrow>
      c \<in> set (de_connections env) \<and> isConnectionForDevice c (dv_id d)" for c
    unfolding findDeviceConnection_def by (drule find_Some_in) simp
  show ?thesis
    using assms conn
    by (auto simp: routeToTarget_def Let_def deviceRecordToTarget_def split: option.splits sum.splits if_splits)
qed

lemma judged_target:
  assumes "target = coalesce (json_string (map_of kvs ''target'')) []" "js_trim target \<noteq> []"
  shows "resolveToolApprovalTarget c (Some (JObj kvs)) = normalizeTargetAlias target"
proof -
  have "normalizeTargetAlias target \<noteq> []"
    using assms(2) by (simp add: normalizeTargetAlias_def Let_def)
  moreover have "json_string (map_of kvs ''target'') = Some target"
    using assms by (cases "json_string (map_of kvs ''target'')") auto
  ultimately show ?thesis
    by (simp add: resolveToolApprovalTarget_def normalizeExplicitTarget_def json_get_def Let_def)
qed

lemma judged_target_of_session:
  assumes "c = ''shell.exec''" "js_trim (coalesce (json_string (map_of kvs ''sessionId'')) []) \<noteq> []"
    and "js_trim (coalesce (json_string (map_of kvs ''target'')) []) = []"
  shows "resolveToolApprovalTarget c (Some (JObj kvs)) = ''targets/*''"
proof -
  have "normalizeTargetAlias [] = []" by code_simp
  then have "normalizeExplicitTarget (map_of kvs ''target'') = None"
    using assms(3)
    by (cases "json_string (map_of kvs ''target'')")
      (auto simp: normalizeExplicitTarget_def normalizeTargetAlias_def js_lower_def Let_def)
  then show ?thesis using assms(1,2) by (simp add: resolveToolApprovalTarget_def json_get_def Let_def)
qed

lemma forwarded_dispatch_cases:
  assumes "dispatch handler env ctx frame origin s = (s', Forwarded)"
  shows "\<exists>d c. device_get (tc_devices ctx) (dv_id d) = Some d \<and> c \<in> set (de_connections env)
    \<and> isConnectionForDevice c (dv_id d) \<and> ds_sent s' = ds_sent s @ [(cn_id c, strip_target frame)]
    \<and> (let target = coalesce (json_string (map_of (rq_args frame) ''target'')) [];
           session = js_trim (coalesce (json_string (map_of (rq_args frame) ''sessionId'')) [])
       in if rq_call frame = ''shell.exec'' \<and> session \<noteq> [] then target = [] \<or> target = dv_id d
          else target = dv_id d)"
proof -
  define target where "target = coalesce (json_string (map_of (rq_args frame) ''target'')) []"
  define sessionId where "sessionId = (if rq_call frame = ''shell.exec''
      then js_trim (coalesce (json_string (map_of (rq_args frame) ''sessionId'')) []) else [])"
  note run = assms(1) [unfolded dispatch_def Let_def, folded target_def sessionId_def]
  have a0: "de_aborted0 env = None" using run by (auto split: option.split_asm)
  have goal: ?thesis
    if vis: "getVisibleTarget ctx i True = Some t"
      and r: "routeToTarget env (strip_target frame) t origin s1 = (s', Forwarded)" "ds_sent s1 = ds_sent s"
      and i: "if sessionId \<noteq> [] then target = [] \<or> target = i else target = i" for i t s1
  proof -
    obtain d where d: "device_get (tc_devices ctx) i = Some d" "t = deviceRecordToTarget (tc_auth ctx) d" "dv_id d = i"
      using visible_target_is_device [OF vis] by blast
    from routed_to_its_device [OF r(1) d(2)] obtain c where "c \<in> set (de_connections env)"
      "isConnectionForDevice c (dv_id d)" "ds_sent s' = ds_sent s @ [(cn_id c, strip_target frame)]"
      using r(2) by auto
    with d i show ?thesis
      unfolding Let_def by (intro exI [of _ d] exI [of _ c]) (auto simp: target_def sessionId_def split: if_splits)
  qed
  show ?thesis
  proof (cases "sessionId = []")
    case True
    with run a0 obtain t where "getVisibleTarget ctx target True = Some t"
      "routeToTarget env (strip_target frame) t origin s = (s', Forwarded)"
      by (auto split: option.split_asm if_split_asm)
    with True show ?thesis by (intro goal [of target t s]) simp_all
  next
    case False
    obtain sh found where g: "shell_get (de_now0 env) sessionId (ds_shell s) = (sh, found)" by fastforce
    obtain session where f: "found = Some session" using run a0 False g by (cases found) simp_all
    have target: "target = [] \<or> target = ss_deviceId session"
      using run a0 False g f by (auto split: if_split_asm)
    obtain t where "getVisibleTarget ctx (ss_deviceId session) True = Some t"
      "routeToTarget env (strip_target frame) t origin (s\<lparr>ds_shell := sh\<rparr>) = (s', Forwarded)"
      using run a0 False g f target
      by (cases "getVisibleTarget ctx (ss_deviceId session) True") (auto split: if_split_asm)
    note this target
    with False show ?thesis
      by (intro goal [of "ss_deviceId session" t "s\<lparr>ds_shell := sh\<rparr>"]) simp_all
  qed
qed

lemma resolve_all_deny:
  assumes "r \<in> set (ap_rules p)" "rule_applies c (resolveToolApprovalTarget c args) r"
    and "\<forall>r \<in> set (ap_rules p). rule_applies c (resolveToolApprovalTarget c args) r \<longrightarrow> ar_action r = a"
  shows "rs_action (resolveToolApproval p c args) = a"
proof -
  obtain i where "best_rule (ap_rules p) c (resolveToolApprovalTarget c args) i"
    "rs_action (resolveToolApproval p c args) = ar_action (ap_rules p ! i)"
    using assms(1,2) by (metis approval_resolution.select_convs(1) resolve_some)
  then show ?thesis using assms(3) by (auto simp: best_rule_def)
qed




text \<open>
  A remembered target that is a word of the policy language is a permission for every target: the
  arguments of a call may name \<open>any\<close> (or the star) as its target, and remembering the approval of such a
  shell call lets every later shell call of the run through, on every device, though the default policy
  asks for each of them.
\<close>

theorem remembered_any_target_allows_all:
  "let asked = Some (JObj [(''target'', JStr ''any''), (''input'', JStr ''ls'')]);
       p' = the (snd (rememberToolApproval json_parse json_stringify ''shell.exec'' asked
                        (kv, Some DEFAULT_TOOL_APPROVAL_POLICY)))
   in \<forall>args. rs_action (resolveToolApproval DEFAULT_TOOL_APPROVAL_POLICY ''shell.exec'' args) = AaAsk
           \<and> rs_action (resolveToolApproval p' ''shell.exec'' args) = AaAuto"
proof -
  let ?asked = "Some (JObj [(''target'', JStr ''any''), (''input'', JStr ''ls'')])"
  let ?rule = "\<lparr> ar_match = ''shell.exec'', ar_target = Some ''any'', ar_action = AaAuto \<rparr>"
  let ?p = "DEFAULT_TOOL_APPROVAL_POLICY"
  let ?p' = "?p\<lparr> ap_rules := ?rule # ap_rules ?p \<rparr>"
  have "normalizeOptionalString (Some (JStr ''any'')) = Some ''any''" by code_simp
  then have prep: "prepareToolArgs kv ''shell.exec'' ?asked = (?asked, False)" by (simp add: prepareToolArgs_def)
  have "resolveToolApprovalTarget ''shell.exec'' ?asked = ''any''" by code_simp
  then have rule: "buildToolApprovalOverride kv ''shell.exec'' ?asked = ?rule"
    by (simp add: buildToolApprovalOverride_def prep)
  have p': "the (snd (rememberToolApproval json_parse json_stringify ''shell.exec'' ?asked (kv, Some ?p))) = ?p'"
    by (simp add: rememberToolApproval_def rule Let_def DEFAULT_TOOL_APPROVAL_POLICY_def approvalRuleKey_def)
  have d: "ap_rules ?p ! 0 = \<lparr> ar_match = ''shell.exec'', ar_target = None, ar_action = AaAsk \<rparr>"
    by (simp add: DEFAULT_TOOL_APPROVAL_POLICY_def)
  have default_rules: "ap_rules ?p ! i \<noteq> ap_rules ?p ! 0 \<Longrightarrow> \<not> rule_applies ''shell.exec'' t (ap_rules ?p ! i)"
    if "i < 4" for i t
  proof -
    have w: "\<not> isWildcardMatch ''net.fetch'' ''shell.exec''" "\<not> isWildcardMatch ''fs.delete'' ''shell.exec''"
      "\<not> isWildcardMatch ''sys.mcp.call'' ''shell.exec''" by code_simp+
    assume "ap_rules ?p ! i \<noteq> ap_rules ?p ! 0"
    moreover have "i = 0 \<or> i = 1 \<or> i = 2 \<or> i = 3" using that by linarith
    ultimately show ?thesis
      by (auto simp: DEFAULT_TOOL_APPROVAL_POLICY_def rule_applies_def match_specificity_def w)
  qed
  have ask: "rs_action (resolveToolApproval ?p ''shell.exec'' args) = AaAsk" for args
  proof (rule resolve_all_deny)
    show "ap_rules ?p ! 0 \<in> set (ap_rules ?p)" by (simp add: DEFAULT_TOOL_APPROVAL_POLICY_def)
    show "rule_applies ''shell.exec'' (resolveToolApprovalTarget ''shell.exec'' args) (ap_rules ?p ! 0)"
      by (simp add: d rule_applies_def match_specificity_def targetMatchesScope_def truthy_def)
    have "length (ap_rules ?p) = 4" by (simp add: DEFAULT_TOOL_APPROVAL_POLICY_def)
    then show "\<forall>r \<in> set (ap_rules ?p). rule_applies ''shell.exec''
        (resolveToolApprovalTarget ''shell.exec'' args) r \<longrightarrow> ar_action r = AaAsk"
      using default_rules d by (metis approval_rule.select_convs(3) in_set_conv_nth)
  qed
  have auto_all: "rs_action (resolveToolApproval ?p' ''shell.exec'' args) = AaAuto" for args
  proof -
    let ?t = "resolveToolApprovalTarget ''shell.exec'' args"
    have r0: "rule_applies ''shell.exec'' ?t ?rule" "match_specificity ?rule ''shell.exec'' = 2"
      "targetScopeSpecificity (Some ''any'') = 0"
      by (simp_all add: rule_applies_def match_specificity_def targetMatchesScope_def targetScopeSpecificity_def)
    then have "?rule \<in> set (ap_rules ?p')" by simp
    with r0(1) obtain i where i: "best_rule (ap_rules ?p') ''shell.exec'' ?t i"
      "rs_action (resolveToolApproval ?p' ''shell.exec'' args) = ar_action (ap_rules ?p' ! i)"
      by (metis approval_resolution.select_convs(1) resolve_some)
    have "targetScopeSpecificity (ar_target (ap_rules ?p' ! i)) = 0"
      using i(1) by (auto simp: best_rule_def DEFAULT_TOOL_APPROVAL_POLICY_def targetScopeSpecificity_def
          truthy_def nth_Cons split: nat.splits)
    moreover have "match_specificity (ap_rules ?p' ! i) ''shell.exec'' \<le> 2" by (simp add: match_specificity_def)
    ultimately have "i = 0"
      using i(1) r0 unfolding best_rule_def by (auto dest!: spec [of _ 0])
    with i(2) show ?thesis by simp
  qed
  show ?thesis unfolding Let_def p' using ask auto_all by blast
qed

text \<open>A device registered as \<open>gateway\<close> is judged as the gateway itself, and is sent the call.\<close>

definition gateway_device :: device_registry where
  "gateway_device = fst (device_register 1 ''gateway'' 1000 1000 [''fs.*''] ''pi'' ''1'' None None empty_registry)"

lemma gateway_device_escapes_device_rules:
  "let frame = \<lparr> rq_id = ''r1'', rq_call = ''fs.read'', rq_args = [(''target'', JStr ''gateway'')] \<rparr>;
       env = demo_env\<lparr> de_connections := [demo_driver\<lparr> cn_driver_device := Some ''gateway'' \<rparr>] \<rparr>;
       policy = \<lparr> ap_default = AaAuto, ap_rules =
         [\<lparr> ar_match = ''fs.*'', ar_target = Some ''targets/*'', ar_action = AaDeny \<rparr>] \<rparr>
   in snd (dispatch (\<lambda>_. Inr JNull) env (demo_ctx\<lparr> tc_devices := gateway_device \<rparr>) frame (OProcess ''p'')
        \<lparr> ds_routes = [], ds_shell = [], ds_sent = [] \<rparr>) = Forwarded
      \<and> rs_action (resolveToolApproval policy (rq_call frame) (Some (JObj (rq_args frame)))) = AaAuto"
proof -
  have "resolveToolApprovalTarget ''fs.read'' (Some (JObj [(''target'', JStr ''gateway'')])) = ''gsv''" by code_simp
  then have judged: "rs_action (resolveToolApproval \<lparr> ap_default = AaAuto, ap_rules =
        [\<lparr> ar_match = ''fs.*'', ar_target = Some ''targets/*'', ar_action = AaDeny \<rparr>] \<rparr> ''fs.read''
        (Some (JObj [(''target'', JStr ''gateway'')]))) = AaAuto"
    by (subst resolve_default) (simp_all add: rule_applies_def targetMatchesScope_def truthy_def)
  have "snd (dispatch (\<lambda>_. Inr JNull) (demo_env\<lparr> de_connections := [demo_driver\<lparr> cn_driver_device := Some ''gateway'' \<rparr>] \<rparr>)
      (demo_ctx\<lparr> tc_devices := gateway_device \<rparr>)
      \<lparr> rq_id = ''r1'', rq_call = ''fs.read'', rq_args = [(''target'', JStr ''gateway'')] \<rparr> (OProcess ''p'')
      \<lparr> ds_routes = [], ds_shell = [], ds_sent = [] \<rparr>) = Forwarded"
    by code_simp
  with judged show ?thesis by (simp add: Let_def)
qed


section \<open>Shell sessions\<close>

text \<open>A later call that names the session alone is completed with, and judged on, the target it was opened on.\<close>

lemma judged_target_normal: "normalizeTargetAlias (resolveToolApprovalTarget c args) = resolveToolApprovalTarget c args"
  "js_trim (resolveToolApprovalTarget c args) = resolveToolApprovalTarget c args"
  "resolveToolApprovalTarget c args \<noteq> []"
proof -
  let ?t = "resolveToolApprovalTarget c args"
  have g: "normalizeTargetAlias ''gsv'' = ''gsv''" "js_trim ''gsv'' = ''gsv''"
    "js_trim ''targets/*'' = ''targets/*''" by code_simp+
  have t: "?t = ''targets/*'' \<or> ?t = ''gsv'' \<or> (\<exists>s. ?t = normalizeTargetAlias s \<and> ?t \<noteq> [])"
    by (auto simp: resolveToolApprovalTarget_def normalizeExplicitTarget_def Let_def split: option.splits)
  then show "normalizeTargetAlias ?t = ?t" using g by auto
  from t show "?t \<noteq> []" by auto
  have "js_trim (normalizeTargetAlias s) = normalizeTargetAlias s" for s
    using g by (simp add: normalizeTargetAlias_def Let_def)
  with t g show "js_trim ?t = ?t" by metis
qed

lemma shell_session_keeps_its_target:
  assumes sid: "normalizeOptionalString (json_get res ''sessionId'') = Some sid"
    and t: "resolveToolApprovalTarget ''shell.exec'' opened \<noteq> ''targets/*''"
    and later: "normalizeOptionalString (map_of kvs ''target'') = None"
      "normalizeOptionalString (map_of kvs ''sessionId'') = Some sid"
    and kv': "kv' = rememberShellSessionTargetFromResult ''shell.exec'' opened (Some res) kv"
  shows "\<exists>args'. prepareToolArgs kv' ''shell.exec'' (Some (JObj kvs)) = (Some args', False)
     \<and> json_get args' ''target'' = Some (JStr (resolveToolApprovalTarget ''shell.exec'' opened))
     \<and> resolveToolApprovalTarget ''shell.exec'' (Some args') = resolveToolApprovalTarget ''shell.exec'' opened"
proof -
  let ?t = "resolveToolApprovalTarget ''shell.exec'' opened"
  let ?args = "AList.update ''target'' (JStr ?t) kvs"
  have "kv' (shellSessionTargetKey sid) = Some ?t"
    using sid t by (simp add: kv' rememberShellSessionTargetFromResult_def Let_def)
  then have "loadShellSessionTarget kv' sid = Some ?t"
    using judged_target_normal [of "''shell.exec''" opened]
    by (simp add: loadShellSessionTarget_def normalizeOptionalString_def json_string_def)
  then have prep: "prepareToolArgs kv' ''shell.exec'' (Some (JObj kvs)) = (Some (JObj ?args), False)"
    using later by (simp add: prepareToolArgs_def)
  have field: "map_of ?args ''target'' = Some (JStr ?t)" by (simp add: update_conv)
  then have "resolveToolApprovalTarget ''shell.exec'' (Some (JObj ?args)) = normalizeTargetAlias ?t"
    using judged_target_normal [of "''shell.exec''" opened]
    by (intro judged_target) (simp_all add: json_string_def)
  with prep field show ?thesis
    using judged_target_normal(1) [of "''shell.exec''" opened] by (auto simp: json_get_def)
qed

end
