(* ===== verification/Connect.thy ===== *)
theory Connect
  imports Devices
begin

text \<open>
  Access to the kernel: the \<open>sys.token.*\<close> handlers (\<open>kernel/sys/token.ts\<close>) and \<open>sys.connect\<close>
  (\<open>kernel/connect.ts\<close>) over the account, capability and device tables. A handler's raw arguments
  are a JSON object; the caller is the uid of \<open>ctx.identity\<close>, if any. Random values and the clock are
  arguments. \<open>sys.connect\<close> awaits once while it authenticates: the tables it finds afterwards are
  \<open>other\<close> of those before, for an arbitrary function \<open>other\<close>. The two R2 layout calls of the first boot
  only succeed or throw (\<open>storage\<close>).
\<close>

section \<open>Tokens\<close>

fun ROLE_BY_KIND :: "token_kind \<Rightarrow> token_role" where
  "ROLE_BY_KIND KNode = RDriver"
| "ROLE_BY_KIND KService = RService"
| "ROLE_BY_KIND KUser = RUser"

fun role_name :: "token_role \<Rightarrow> string" where
  "role_name RDriver = ''driver''"
| "role_name RService = ''service''"
| "role_name RUser = ''user''"

definition requireUid :: "int option \<Rightarrow> int result" where
  "requireUid caller = (case caller of None \<Rightarrow> throw ''Authentication required'' | Some u \<Rightarrow> Inr u)"

definition parseOptionalUid :: "json option \<Rightarrow> int option result" where
  "parseOptionalUid v =
     (case v of
        None \<Rightarrow> Inr None
      | Some JNull \<Rightarrow> Inr None
      | Some (JNum (IntNum i)) \<Rightarrow>
          if i < 0 then throw ''uid must be a non-negative integer'' else Inr (Some i)
      | Some _ \<Rightarrow> throw ''uid must be a non-negative integer'')"

definition parseTokenKind :: "json option \<Rightarrow> token_kind result" where
  "parseTokenKind v =
     (if json_string v = Some ''node'' then Inr KNode
      else if json_string v = Some ''service'' then Inr KService
      else if json_string v = Some ''user'' then Inr KUser
      else throw ''kind must be one of: node, service, user'')"

definition parseTokenRole :: "json option \<Rightarrow> token_role result" where
  "parseTokenRole v =
     (if json_string v = Some ''driver'' then Inr RDriver
      else if json_string v = Some ''service'' then Inr RService
      else if json_string v = Some ''user'' then Inr RUser
      else throw ''allowedRole must be one of: driver, service, user'')"

definition parseOptionalString :: "json option \<Rightarrow> string option" where
  "parseOptionalString v =
     (case json_string v of None \<Rightarrow> None
      | Some x \<Rightarrow> if js_trim x \<noteq> [] then Some (js_trim x) else None)"

definition parseOptionalFutureTimestamp :: "int \<Rightarrow> json option \<Rightarrow> int option result" where
  "parseOptionalFutureTimestamp now v =
     (let check = (\<lambda>i. if i \<le> now then throw ''expiresAt must be in the future'' else Inr (Some i))
      in case v of
           None \<Rightarrow> Inr None
         | Some JNull \<Rightarrow> Inr None
         | Some (JNum (IntNum i)) \<Rightarrow> check i
         | Some (JNum (FracNum i)) \<Rightarrow> check i
         | Some _ \<Rightarrow> throw ''expiresAt must be a unix timestamp in milliseconds'')"

definition handleSysTokenCreate :: "digest \<Rightarrow> int \<Rightarrow> string \<Rightarrow> bytes \<Rightarrow> auth_db \<Rightarrow> auth_db \<Rightarrow> int option
    \<Rightarrow> json \<Rightarrow> (auth_db \<times> issued_token) result" where
  "handleSysTokenCreate sha now tokenId rnd db db' caller raw =
     bind_result (requireUid caller) (\<lambda>callerUid.
     bind_result (parseOptionalUid (json_get raw ''uid'')) (\<lambda>uid.
     let isRoot = (callerUid = 0); targetUid = coalesce uid callerUid in
     if \<not> isRoot \<and> targetUid \<noteq> callerUid
     then throw ''Permission denied: cannot create tokens for another user''
     else bind_result (parseTokenKind (json_get raw ''kind'')) (\<lambda>kind.
     if kind = KService \<and> \<not> isRoot
     then throw ''Permission denied: only root may create service tokens''
     else bind_result (if json_get raw ''allowedRole'' = None then Inr (ROLE_BY_KIND kind)
                       else parseTokenRole (json_get raw ''allowedRole'')) (\<lambda>allowedRole.
     if allowedRole \<noteq> ROLE_BY_KIND kind
     then throw (''Invalid allowedRole for kind='' @ kind_name kind @ '': expected '' @ role_name (ROLE_BY_KIND kind))
     else
       (let allowedDeviceId = parseOptionalString (json_get raw ''allowedDeviceId'') in
        if truthy allowedDeviceId \<and> allowedRole \<noteq> RDriver
        then throw ''allowedDeviceId is only valid for driver-bound tokens''
        else if allowedRole = RDriver \<and> \<not> truthy allowedDeviceId
        then throw ''allowedDeviceId is required for driver-bound tokens''
        else bind_result (parseOptionalFutureTimestamp now (json_get raw ''expiresAt'')) (\<lambda>expiresAt.
          issueToken sha now tokenId rnd db db'
            \<lparr>ti_uid = targetUid, ti_kind = kind, ti_label = parseOptionalString (json_get raw ''label''),
             ti_allowed_role = Some allowedRole, ti_allowed_device_id = allowedDeviceId,
             ti_expires_at = expiresAt\<rparr>))))))"

definition handleSysTokenList :: "auth_db \<Rightarrow> int option \<Rightarrow> json \<Rightarrow> token_record list result" where
  "handleSysTokenList db caller raw =
     bind_result (requireUid caller) (\<lambda>callerUid.
     bind_result (parseOptionalUid (json_get raw ''uid'')) (\<lambda>requestedUid.
     let isRoot = (callerUid = 0) in
     if \<not> isRoot \<and> requestedUid \<noteq> None \<and> requestedUid \<noteq> Some callerUid
     then throw ''Permission denied: cannot list tokens for another user''
     else Inr (listTokens (if isRoot then requestedUid else Some callerUid) db)))"

definition handleSysTokenRevoke :: "int \<Rightarrow> auth_db \<Rightarrow> int option \<Rightarrow> json \<Rightarrow> auth_db \<times> bool result" where
  "handleSysTokenRevoke now db caller raw =
     (case bind_result (requireUid caller) (\<lambda>callerUid.
           (case parseOptionalString (json_get raw ''tokenId'') of
              None \<Rightarrow> throw ''sys.token.revoke requires tokenId''
            | Some tokenId \<Rightarrow>
                bind_result (parseOptionalUid (json_get raw ''uid'')) (\<lambda>requestedUid.
                  if callerUid \<noteq> 0 \<and> requestedUid \<noteq> None \<and> requestedUid \<noteq> Some callerUid
                  then throw ''Permission denied: cannot revoke tokens for another user''
                  else Inr (tokenId, if callerUid = 0 then requestedUid else Some callerUid))))
      of Inl e \<Rightarrow> (db, Inl e)
       | Inr (tokenId, effectiveUid) \<Rightarrow>
           (let (db', revoked) = revokeToken now tokenId (parseOptionalString (json_get raw ''reason'')) effectiveUid db
            in (db', Inr revoked)))"

section \<open>Connecting\<close>

record connect_auth =
  cu_username :: string
  cu_token :: "string option"
  cu_password :: "string option"

record connect_args =
  cn_protocol :: int
  cn_role :: "string option"
  cn_client_id :: string
  cn_platform :: string
  cn_version :: string
  cn_channel :: "string option"
  cn_implements :: "string list option"
  cn_auth :: "connect_auth option"

record connect_state =
  ks_auth :: auth_db
  ks_caps :: cap_table
  ks_devices :: device_registry

datatype connection_identity =
    ConnUser proc_identity "string list"
  | ConnDriver proc_identity "string list" string "string list"
  | ConnService proc_identity "string list" string

record connect_result =
  cr_server_version :: string
  cr_connection_id :: string
  cr_identity :: connection_identity
  cr_syscalls :: "string list"
  cr_signals :: "string list"

text \<open>A refusal carries a code, a message, and whether it points the caller to \<open>sys.setup\<close>.\<close>

datatype connect_outcome = ConnOk connection_identity connect_result | ConnRefused int string bool

datatype identity_outcome = IdOk proc_identity | IdFail string

definition SETUP_REQUIRED_ERROR_CODE :: int where "SETUP_REQUIRED_ERROR_CODE = 425"
definition DRIVER_CONNECTION_CAPABILITIES :: "string list" where "DRIVER_CONNECTION_CAPABILITIES = []"
definition SERVICE_CAPABILITY_GIDS :: "int list" where "SERVICE_CAPABILITY_GIDS = [102]"

definition USER_CONNECTION_SIGNALS :: "string list" where
  "USER_CONNECTION_SIGNALS = [''proc.changed'', ''proc.run.started'', ''proc.run.stream'',
     ''proc.run.retrying'', ''proc.run.output'', ''proc.run.tool.started'', ''proc.run.hil.requested'',
     ''proc.run.finished'', ''process.exit'', ''device.status'', ''adapter.status'', ''mcp.changed'']"

fun buildSignalList :: "token_role \<Rightarrow> string list" where
  "buildSignalList RUser = USER_CONNECTION_SIGNALS"
| "buildSignalList RDriver = [''device.status'', ''device.pong'']"
| "buildSignalList RService = []"

definition migrate_entry :: "int passwd_entry \<Rightarrow> (auth_db, unit) action" where
  "migrate_entry e =
     (if pw_uid e < 1000 \<or> pw_gid e \<noteq> 100 then act_return ()
      else
        act_bind (\<lambda>db. if getGroupByName db (pw_username e) = None \<and> getGroupByGid db (pw_uid e) = None
                       then act_try (addGroup \<lparr>gr_name = pw_username e, gr_gid = Some (pw_uid e), gr_members = []\<rparr>) db
                       else act_return () db) (\<lambda>_.
        act_bind (act_try (\<lambda>db. bind_result (updateUser (pw_username e)
                    \<lparr>up_uid = None, up_gid = Some (pw_uid e), up_gecos = None, up_home = None, up_shell = None\<rparr> db)
                    (\<lambda>r. Inr (fst r)))) (\<lambda>_.
        act_modify (\<lambda>db.
          (case getGroupByName db ''users'' of
             None \<Rightarrow> db
           | Some g \<Rightarrow> if pw_username e \<in> set (gr_members g) then db
                       else fst (updateGroupMembers ''users'' (gr_members g @ [pw_username e]) db))))))"

definition migrateUserPrivateGroups :: "(auth_db, unit) action" where
  "migrateUserPrivateGroups db = act_each migrate_entry (getPasswdEntries db) db"

definition on_accounts :: "(auth_db, 'a) action \<Rightarrow> (connect_state, 'a) action" where
  "on_accounts m s = (let (db, r) = m (ks_auth s) in (s\<lparr>ks_auth := db\<rparr>, r))"

definition ensureKernelBootstrapped :: "digest \<Rightarrow> int \<Rightarrow> unit result \<Rightarrow> (connect_state, unit) action" where
  "ensureKernelBootstrapped sha now storage =
     act_bind (on_accounts (bootstrap sha now None)) (\<lambda>_.
     act_bind (act_modify (\<lambda>s. s\<lparr>ks_caps := seed_caps (ks_caps s)\<rparr>)) (\<lambda>_.
     act_bind (on_accounts migrateUserPrivateGroups) (\<lambda>_ s. (s, storage))))"

definition withDefaultProcessContext :: "auth_identity \<Rightarrow> proc_identity" where
  "withDefaultProcessContext i =
     \<lparr>pi_uid = id_uid i, pi_gid = id_gid i, pi_gids = id_gids i, pi_username = id_username i,
      pi_home = id_home i, pi_cwd = id_home i\<rparr>"

fun resolveConnectionCapabilities :: "token_role \<Rightarrow> proc_identity \<Rightarrow> cap_table \<Rightarrow> string list" where
  "resolveConnectionCapabilities RUser i caps = resolve_caps (pi_gids i) caps"
| "resolveConnectionCapabilities RDriver i caps = DRIVER_CONNECTION_CAPABILITIES"
| "resolveConnectionCapabilities RService i caps = resolve_caps SERVICE_CAPABILITY_GIDS caps"

fun identity_result :: "auth_result \<Rightarrow> identity_outcome" where
  "identity_result (AuthOk i) = IdOk (withDefaultProcessContext i)"
| "identity_result (AuthFail e) = IdFail e"

definition resolveIdentity :: "kdf \<Rightarrow> digest \<Rightarrow> int \<Rightarrow> (auth_db \<Rightarrow> auth_db) \<Rightarrow> connect_args \<Rightarrow> token_role
    \<Rightarrow> (auth_db, identity_outcome) action" where
  "resolveIdentity kdf sha now other args role db =
     (case cn_auth args of
        None \<Rightarrow> (db, Inr (IdFail ''Authentication required''))
      | Some a \<Rightarrow>
          if cu_username a = [] then (db, Inr (IdFail ''Username required''))
          else if truthy (cu_token a) \<and> truthy (cu_password a)
          then (db, Inr (IdFail ''Provide either password or token''))
          else if role = RDriver \<or> role = RService
          then (if \<not> truthy (cu_token a) then (db, Inr (IdFail ''Token required for machine connections''))
                else (let (db', r) = authenticateToken sha now db (other db) (cu_username a)
                                       (the (cu_token a)) (Some role)
                                       (if role = RDriver then Some (cn_client_id args) else None)
                      in (db', Inr (identity_result r))))
          else if truthy (cu_token a)
          then (let (db', r) = authenticateToken sha now db (other db) (cu_username a)
                                 (the (cu_token a)) (Some RUser) None
                in (db', Inr (identity_result r)))
          else if \<not> truthy (cu_password a) then (db, Inr (IdFail ''Password or token required''))
          else (other db, bind_result (authenticate kdf sha db (other db) (cu_username a) (the (cu_password a)))
                            (\<lambda>r. Inr (identity_result r))))"

definition connected :: "token_role \<Rightarrow> string list \<Rightarrow> string \<Rightarrow> string \<Rightarrow> connection_identity \<Rightarrow> connect_outcome" where
  "connected role caps ver connId ident =
     ConnOk ident \<lparr>cr_server_version = ver, cr_connection_id = connId, cr_identity = ident,
                   cr_syscalls = caps, cr_signals = buildSignalList role\<rparr>"

fun connect_as :: "int \<Rightarrow> string \<Rightarrow> string \<Rightarrow> connect_args \<Rightarrow> token_role \<Rightarrow> proc_identity
    \<Rightarrow> (connect_state, connect_outcome) action" where
  "connect_as now ver connId args RUser i s =
     (let caps = resolveConnectionCapabilities RUser i (ks_caps s)
      in (s, Inr (connected RUser caps ver connId (ConnUser i caps))))"
| "connect_as now ver connId args RDriver i s =
     (let caps = resolveConnectionCapabilities RDriver i (ks_caps s) in
      case cn_implements args of
        None \<Rightarrow> (s, Inr (ConnRefused 103 ''Driver role requires implements list'' False))
      | Some [] \<Rightarrow> (s, Inr (ConnRefused 103 ''Driver role requires implements list'' False))
      | Some impl \<Rightarrow>
          (case find (\<lambda>p. \<not> isValidCapability p) impl of
             Some pat \<Rightarrow> (s, Inr (ConnRefused 103 (''Invalid implements pattern: '' @ pat) False))
           | None \<Rightarrow>
               (case device_register now (cn_client_id args) (pi_uid i) (pi_gid i) impl (cn_platform args)
                       (cn_version args) None None (ks_devices s) of
                  (rg, Inl (Error msg)) \<Rightarrow> (s\<lparr>ks_devices := rg\<rparr>, Inr (ConnRefused 103 msg False))
                | (rg, Inr _) \<Rightarrow>
                    (s\<lparr>ks_devices := rg\<rparr>,
                     Inr (connected RDriver caps ver connId (ConnDriver i caps (cn_client_id args) impl))))))"
| "connect_as now ver connId args RService i s =
     (let caps = resolveConnectionCapabilities RService i (ks_caps s) in
      if \<not> truthy (cn_channel args)
      then (s, Inr (ConnRefused 103 ''Service role requires channel field'' False))
      else (s, Inr (connected RService caps ver connId (ConnService i caps (the (cn_channel args))))))"

definition client_role :: "string option \<Rightarrow> token_role option" where
  "client_role r =
     (if r = Some ''user'' then Some RUser else if r = Some ''driver'' then Some RDriver
      else if r = Some ''service'' then Some RService else None)"

definition handleConnect :: "kdf \<Rightarrow> digest \<Rightarrow> int \<Rightarrow> unit result \<Rightarrow> (auth_db \<Rightarrow> auth_db) \<Rightarrow> string
    \<Rightarrow> string option \<Rightarrow> connect_args \<Rightarrow> (connect_state, connect_outcome) action" where
  "handleConnect kdf sha now storage other ver conn args =
     (case conn of
        None \<Rightarrow> act_throw ''sys.connect requires an active connection''
      | Some connId \<Rightarrow>
     if cn_protocol args \<noteq> 2 then act_return (ConnRefused 102 ''Unsupported protocol version'' False)
     else case client_role (cn_role args) of
        None \<Rightarrow> act_return (ConnRefused 103 ''Invalid client role'' False)
      | Some role \<Rightarrow>
          act_bind (ensureKernelBootstrapped sha now storage) (\<lambda>_ s.
            if isSetupMode (ks_auth s)
            then (s, Inr (ConnRefused SETUP_REQUIRED_ERROR_CODE ''Setup required'' True))
            else act_bind (on_accounts (resolveIdentity kdf sha now other args role)) (\<lambda>outcome.
                   case outcome of
                     IdFail e \<Rightarrow> act_return (ConnRefused 401 e False)
                   | IdOk i \<Rightarrow> connect_as now ver connId args role i) s))"

section \<open>What the handlers admit\<close>

lemma create_cases:
  assumes "handleSysTokenCreate sha now tid rnd db db' caller raw = Inr (db'', it)"
  obtains c target kind dev expires where "caller = Some c" "c = 0 \<or> target = c \<and> kind \<noteq> KService"
    "truthy dev \<longleftrightarrow> ROLE_BY_KIND kind = RDriver" "\<forall>e. expires = Some e \<longrightarrow> now < e"
    "issueToken sha now tid rnd db db'
       \<lparr>ti_uid = target, ti_kind = kind, ti_label = parseOptionalString (json_get raw ''label''),
        ti_allowed_role = Some (ROLE_BY_KIND kind), ti_allowed_device_id = dev, ti_expires_at = expires\<rparr>
     = Inr (db'', it)"
proof -
  have expiry: "parseOptionalFutureTimestamp now v = Inr x \<Longrightarrow> \<forall>e. x = Some e \<longrightarrow> now < e" for v x
    by (auto simp: parseOptionalFutureTimestamp_def Let_def split: option.splits json.splits js_number.splits if_splits)
  from assms obtain c where c: "caller = Some c"
    by (auto simp: handleSysTokenCreate_def requireUid_def split: option.splits)
  note step = assms [unfolded handleSysTokenCreate_def c requireUid_def option.case bind_result.simps(2)]
  obtain uid where uid: "parseOptionalUid (json_get raw ''uid'') = Inr uid"
    using step by (cases "parseOptionalUid (json_get raw ''uid'')") simp_all
  note step = step [unfolded uid bind_result.simps(2) Let_def]
  have own: "c = 0 \<or> coalesce uid c = c" using step by (auto split: if_splits simp del: bind_result_Inr)
  then have "\<not> (c \<noteq> 0 \<and> coalesce uid c \<noteq> c)" by simp
  note step = step [unfolded if_not_P [OF this]]
  obtain kind where kind: "parseTokenKind (json_get raw ''kind'') = Inr kind"
    using step by (cases "parseTokenKind (json_get raw ''kind'')") simp_all
  note step = step [unfolded kind bind_result.simps(2)]
  have svc: "\<not> (kind = KService \<and> c \<noteq> 0)" using step by (auto split: if_splits)
  note step = step [unfolded if_not_P [OF svc]]
  let ?r = "if json_get raw ''allowedRole'' = None then Inr (ROLE_BY_KIND kind)
            else parseTokenRole (json_get raw ''allowedRole'')"
  obtain role where role: "?r = Inr role"
    using step by (cases ?r) simp_all
  note step = step [unfolded role bind_result.simps(2)]
  have same: "role = ROLE_BY_KIND kind" using step by (auto split: if_splits simp del: bind_result_Inr)
  let ?dev = "parseOptionalString (json_get raw ''allowedDeviceId'')"
  have dev: "truthy ?dev \<longleftrightarrow> role = RDriver"
    using step same by (auto split: if_splits simp del: bind_result_Inr)
  note step = step [folded same]
  obtain expires where exp: "parseOptionalFutureTimestamp now (json_get raw ''expiresAt'') = Inr expires"
    using step dev by (cases "parseOptionalFutureTimestamp now (json_get raw ''expiresAt'')") (simp_all split: if_splits)
  have iss: "issueToken sha now tid rnd db db'
       \<lparr>ti_uid = coalesce uid c, ti_kind = kind, ti_label = parseOptionalString (json_get raw ''label''),
        ti_allowed_role = Some role, ti_allowed_device_id = ?dev, ti_expires_at = expires\<rparr> = Inr (db'', it)"
    using step dev exp by (simp split: if_splits)
  show thesis
    by (rule that [OF c _ _ expiry [OF exp], of "coalesce uid c" kind]) (use own svc dev iss same in auto)
qed

lemma issued_fields:
  assumes "issueToken sha now tid rnd db db' inp = Inr (db'', it)" "ti_allowed_role inp = Some role"
  shows "it_uid it = ti_uid inp \<and> it_kind it = ti_kind inp \<and> it_allowed_role it = role
       \<and> it_allowed_device_id it = ti_allowed_device_id inp \<and> it_expires_at it = ti_expires_at inp
       \<and> (\<exists>r. db_tokens db'' = db_tokens db' @ [r] \<and> t_uid r = ti_uid inp \<and> t_allowed_role r = Some role)"
  using assms by (auto simp: issueToken_def Let_def split: option.splits if_splits)

lemma handleConnect_ok:
  assumes "handleConnect kdf sha now storage other ver conn args s = (s', Inr (ConnOk ident res))"
  obtains role s1 db i connId where "client_role (cn_role args) = Some role"
    "s1 = fst (ensureKernelBootstrapped sha now storage s)" "\<not> isSetupMode (ks_auth s1)"
    "resolveIdentity kdf sha now other args role (ks_auth s1) = (db, Inr (IdOk i))"
    "connect_as now ver connId args role i (s1\<lparr>ks_auth := db\<rparr>) = (s', Inr (ConnOk ident res))"
proof -
  from assms obtain connId role where conn: "conn = Some connId" and role: "client_role (cn_role args) = Some role"
    by (auto simp: handleConnect_def act_throw_def act_return_def split: option.splits if_splits)
  obtain s1 r1 where boot: "ensureKernelBootstrapped sha now storage s = (s1, r1)"
    by (cases "ensureKernelBootstrapped sha now storage s")
  from assms conn role boot have "\<not> isSetupMode (ks_auth s1)"
    and rest: "act_bind (on_accounts (resolveIdentity kdf sha now other args role)) (\<lambda>outcome.
        case outcome of IdFail e \<Rightarrow> act_return (ConnRefused 401 e False)
        | IdOk i \<Rightarrow> connect_as now ver connId args role i) s1 = (s', Inr (ConnOk ident res))"
    by (auto simp: handleConnect_def act_bind_def act_return_def split: sum.splits if_splits)
  obtain db o1 where id: "resolveIdentity kdf sha now other args role (ks_auth s1) = (db, o1)"
    by (cases "resolveIdentity kdf sha now other args role (ks_auth s1)")
  from rest id obtain i where "o1 = Inr (IdOk i)"
    and as: "connect_as now ver connId args role i (s1\<lparr>ks_auth := db\<rparr>) = (s', Inr (ConnOk ident res))"
    by (auto simp: act_bind_def on_accounts_def act_return_def split: sum.splits identity_outcome.splits)
  with id boot role \<open>\<not> isSetupMode (ks_auth s1)\<close> show thesis
    by (intro that [of role s1 db i connId]) auto
qed

text \<open>The credential that identified a user.\<close>

definition token_admits :: "digest \<Rightarrow> int \<Rightarrow> auth_db \<Rightarrow> int passwd_entry \<Rightarrow> string \<Rightarrow> token_role
    \<Rightarrow> string option \<Rightarrow> bool" where
  "token_admits sha now db user token role dev \<longleftrightarrow>
     (\<exists>r \<in> set (db_tokens db). t_uid r = pw_uid user \<and> t_hash r = hashToken sha token
        \<and> token_allows now (Some role) dev r)"

definition password_admits :: "kdf \<Rightarrow> digest \<Rightarrow> auth_db \<Rightarrow> string \<Rightarrow> string \<Rightarrow> bool" where
  "password_admits kdf sha db username password \<longleftrightarrow>
     (\<exists>shadow. getShadowByUsername db username = Some shadow
        \<and> verify_credential kdf sha password (sh_hash shadow) = Inr True)"

lemma authenticateToken_admits:
  assumes "authenticateToken sha now db db' u tok (Some role) dev = (db'', AuthOk i)"
  obtains user where "getPasswdByUsername db u = Some user" "token_admits sha now db' user tok role dev"
    "id_uid i = pw_uid user"
proof -
  from assms have snd: "snd (authenticateToken sha now db db' u tok (Some role) dev) = AuthOk i" by simp
  then obtain user r where user: "getPasswdByUsername db u = Some user"
    and find: "find (\<lambda>r. t_uid r = pw_uid user \<and> t_hash r = hashToken sha tok) (db_tokens db') = Some r"
    and allow: "token_allows now (Some role) dev r" and i: "i = auth_identity_of db' user"
    by (auto simp: authenticateToken_snd split: option.splits if_splits)
  from find_Some_in [OF find] allow have "token_admits sha now db' user tok role dev"
    by (auto simp: token_admits_def)
  with user i show thesis by (intro that [of user]) (simp_all add: auth_identity_of_def)
qed

lemma authenticate_admits:
  assumes "authenticate kdf sha db db' u pw = Inr (AuthOk i)"
  obtains user where "getPasswdByUsername db u = Some user" "password_admits kdf sha db u pw"
    "id_uid i = pw_uid user"
  using assms by (auto simp: authenticate_def password_admits_def auth_identity_of_def split: option.splits if_splits)

lemma identity_result_Ok: "identity_result r = IdOk i \<longleftrightarrow> (\<exists>a. r = AuthOk a \<and> i = withDefaultProcessContext a)"
  by (cases r) auto

lemma resolveIdentity_ok:
  assumes "resolveIdentity kdf sha now other args role db = (db', Inr (IdOk i))"
  obtains a user where "cn_auth args = Some a" "getPasswdByUsername db (cu_username a) = Some user"
    "pi_uid i = pw_uid user"
    "role \<noteq> RUser \<or> truthy (cu_token a) \<Longrightarrow>
       \<not> truthy (cu_password a) \<and> token_admits sha now (other db) user (the (cu_token a)) role
         (if role = RDriver then Some (cn_client_id args) else None)"
    "role = RUser \<and> \<not> truthy (cu_token a) \<Longrightarrow> password_admits kdf sha db (cu_username a) (the (cu_password a))"
proof -
  from assms obtain a where a: "cn_auth args = Some a"
    by (auto simp: resolveIdentity_def split: option.splits)
  let ?dev = "if role = RDriver then Some (cn_client_id args) else None"
  show thesis
  proof (cases "role \<noteq> RUser \<or> truthy (cu_token a)")
    case True
    then have "\<not> truthy (cu_password a)" and
      "\<exists>d r. authenticateToken sha now db (other db) (cu_username a) (the (cu_token a)) (Some role) ?dev = (d, r)
         \<and> identity_result r = IdOk i"
      using assms a by (cases role; auto simp: resolveIdentity_def split: if_splits prod.splits)+
    then obtain d x where tok: "authenticateToken sha now db (other db) (cu_username a) (the (cu_token a)) (Some role) ?dev = (d, AuthOk x)"
      and i: "i = withDefaultProcessContext x" by (auto simp: identity_result_Ok)
    from tok obtain user where "getPasswdByUsername db (cu_username a) = Some user"
      "token_admits sha now (other db) user (the (cu_token a)) role ?dev" "id_uid x = pw_uid user"
      by (rule authenticateToken_admits)
    with a i True \<open>\<not> truthy (cu_password a)\<close> show thesis
      by (intro that [of a user]) (simp_all add: withDefaultProcessContext_def)
  next
    case False
    with assms a obtain x where
      "authenticate kdf sha db (other db) (cu_username a) (the (cu_password a)) = Inr (AuthOk x)"
      and i: "i = withDefaultProcessContext x"
      by (auto simp: resolveIdentity_def identity_result_Ok split: if_splits)
    then obtain user where "getPasswdByUsername db (cu_username a) = Some user"
      "password_admits kdf sha db (cu_username a) (the (cu_password a))" "id_uid x = pw_uid user"
      by (auto elim: authenticate_admits)
    with a i False show thesis
      by (intro that [of a user]) (simp_all add: withDefaultProcessContext_def)
  qed
qed

lemma device_register_ok:
  assumes "device_register now i uid gid impl pl vs l d rg = (rg', Inr ())"
  shows "list_all isValidCapability impl \<and> (\<exists>x. device_get rg' i = Some x \<and> dv_owner_uid x = uid
       \<and> dv_implements x = impl \<and> dv_online x)"
proof -
  from assms have none: "find (\<lambda>p. \<not> isValidCapability p) impl = None"
    by (simp add: device_register_def split: option.splits)
  then have valid: "list_all isValidCapability impl" by (simp add: find_None_iff list_all_iff)
  from assms none have own: "device_get rg i = None \<or> map_option dv_owner_uid (device_get rg i) = Some uid"
    by (auto simp: device_register_def Let_def split: if_splits)
  show ?thesis
  proof (cases "device_get rg i")
    case None
    then have no: "sql_lookup dv_id (rg_devices rg) i = None" by (simp add: device_get_def)
    from assms none None obtain r where "rg_devices rg' = rg_devices rg @ [r]" "dv_id r = i"
      "dv_owner_uid r = uid" "dv_implements r = impl" "dv_online r"
      by (auto simp: device_register_def Let_def)
    then have "device_get rg' i = Some (toDeviceRecord r)"
      using no by (auto simp: device_get_def sql_lookup_def find_append split: option.split)
    with valid \<open>dv_owner_uid r = uid\<close> \<open>dv_implements r = impl\<close> \<open>dv_online r\<close> show ?thesis by simp
  next
    case (Some x)
    with own have "map_option dv_owner_uid (device_get rg i) = Some uid" by simp
    with assms none Some obtain f where f: "rg_devices rg' = sql_update (\<lambda>r. dv_id r = i) f (rg_devices rg)"
      "\<And>r. dv_id (f r) = dv_id r \<and> dv_owner_uid (f r) = uid \<and> dv_implements (f r) = impl \<and> dv_online (f r)"
      by (auto simp: device_register_def Let_def)
    from Some obtain r where "sql_lookup dv_id (rg_devices rg) i = Some r" by (auto simp: device_get_def)
    with f lookup_Some [OF this] have "device_get rg' i = Some (toDeviceRecord (f r))"
      by (simp add: device_get_def lookup_update)
    with valid f(2) [of r] show ?thesis by simp
  qed
qed

lemma connect_as_user:
  "connect_as now ver connId args RUser i s = (s', Inr (ConnOk ident res)) \<Longrightarrow>
     s' = s \<and> ident = ConnUser i (resolve_caps (pi_gids i) (ks_caps s))
     \<and> cr_syscalls res = resolve_caps (pi_gids i) (ks_caps s)"
  by (auto simp: connected_def Let_def)

lemma connect_as_service:
  "connect_as now ver connId args RService i s = (s', Inr (ConnOk ident res)) \<Longrightarrow>
     s' = s \<and> (\<exists>ch. ident = ConnService i (resolve_caps SERVICE_CAPABILITY_GIDS (ks_caps s)) ch)
     \<and> cr_syscalls res = resolve_caps SERVICE_CAPABILITY_GIDS (ks_caps s)"
  by (auto simp: connected_def Let_def split: if_splits)

lemma connect_as_driver:
  assumes "connect_as now ver connId args RDriver i s = (s', Inr (ConnOk ident res))"
  obtains impl x where "ident = ConnDriver i [] (cn_client_id args) impl" "cr_syscalls res = []"
    "list_all isValidCapability impl" "device_get (ks_devices s') (cn_client_id args) = Some x"
    "dv_owner_uid x = pi_uid i" "dv_implements x = impl" "dv_online x"
proof -
  from assms obtain impl where impl: "cn_implements args = Some impl" "impl \<noteq> []"
    by (auto simp: Let_def split: option.splits list.splits)
  then have eq: "connect_as now ver connId args RDriver i s =
      (case find (\<lambda>p. \<not> isValidCapability p) impl of
         Some pat \<Rightarrow> (s, Inr (ConnRefused 103 (''Invalid implements pattern: '' @ pat) False))
       | None \<Rightarrow>
           (case device_register now (cn_client_id args) (pi_uid i) (pi_gid i) impl (cn_platform args)
                   (cn_version args) None None (ks_devices s) of
              (rg, Inl (Error msg)) \<Rightarrow> (s\<lparr>ks_devices := rg\<rparr>, Inr (ConnRefused 103 msg False))
            | (rg, Inr _) \<Rightarrow> (s\<lparr>ks_devices := rg\<rparr>,
                 Inr (connected RDriver [] ver connId (ConnDriver i [] (cn_client_id args) impl)))))"
    by (cases impl) (simp_all only: connect_as.simps Let_def option.case list.case
        resolveConnectionCapabilities.simps DRIVER_CONNECTION_CAPABILITIES_def)
  from assms have none: "find (\<lambda>p. \<not> isValidCapability p) impl = None"
    unfolding eq by (simp split: option.splits)
  obtain rg r where reg: "device_register now (cn_client_id args) (pi_uid i) (pi_gid i) impl (cn_platform args)
      (cn_version args) None None (ks_devices s) = (rg, r)" by (metis surj_pair)
  from assms have r: "r = Inr ()" and s': "ks_devices s' = rg"
    and id: "ident = ConnDriver i [] (cn_client_id args) impl" "cr_syscalls res = []"
    unfolding eq none option.case reg prod.case
    by (auto simp: connected_def split: sum.splits js_error.splits)
  from device_register_ok [OF reg [unfolded r]] s' id show thesis
    by (auto intro: that)
qed

section \<open>Properties\<close>

text \<open>A caller other than root acts on its own tokens only: a token it creates is for its own uid,
  never a service token, usable in the role of its kind only, bound to a device exactly when it is a
  driver token, and not born expired; the tokens it lists are its own; and a revocation leaves the
  tokens of everyone else as they were. A request without an identity is refused.\<close>

theorem token_requests_confined:
  assumes "c \<noteq> 0"
  shows "(\<forall>db'' it. handleSysTokenCreate sha now tid rnd db db' (Some c) raw = Inr (db'', it) \<longrightarrow>
            it_uid it = c \<and> it_kind it \<noteq> KService \<and> it_allowed_role it = ROLE_BY_KIND (it_kind it)
          \<and> (truthy (it_allowed_device_id it) \<longleftrightarrow> it_allowed_role it = RDriver)
          \<and> (\<forall>e. it_expires_at it = Some e \<longrightarrow> now < e)
          \<and> (\<exists>r. db_tokens db'' = db_tokens db' @ [r] \<and> t_uid r = c \<and> t_allowed_role r = Some (it_allowed_role it)))
    \<and> (\<forall>ts. handleSysTokenList db (Some c) raw = Inr ts \<longrightarrow> (\<forall>t \<in> set ts. tr_uid t = c))
    \<and> filter (\<lambda>r. t_uid r \<noteq> c) (db_tokens (fst (handleSysTokenRevoke now db (Some c) raw)))
        = filter (\<lambda>r. t_uid r \<noteq> c) (db_tokens db)
    \<and> handleSysTokenCreate sha now tid rnd db db' None raw = throw ''Authentication required''
    \<and> handleSysTokenList db None raw = throw ''Authentication required''
    \<and> handleSysTokenRevoke now db None raw = (db, throw ''Authentication required'')"
proof -
  have create: "it_uid it = c \<and> it_kind it \<noteq> KService \<and> it_allowed_role it = ROLE_BY_KIND (it_kind it)
          \<and> (truthy (it_allowed_device_id it) \<longleftrightarrow> it_allowed_role it = RDriver)
          \<and> (\<forall>e. it_expires_at it = Some e \<longrightarrow> now < e)
          \<and> (\<exists>r. db_tokens db'' = db_tokens db' @ [r] \<and> t_uid r = c \<and> t_allowed_role r = Some (it_allowed_role it))"
    if made: "handleSysTokenCreate sha now tid rnd db db' (Some c) raw = Inr (db'', it)" for db'' it
    using made
  proof (cases rule: create_cases)
    case (1 c' target kind dev expires)
    from issued_fields [OF 1(5)] 1 assms show ?thesis by auto
  qed
  have list: "\<forall>t \<in> set ts. tr_uid t = c" if "handleSysTokenList db (Some c) raw = Inr ts" for ts
    using that assms
    by (auto simp: handleSysTokenList_def requireUid_def Let_def listTokens_def mapTokenRow_def split: if_splits)
  have keep: "filter (\<lambda>r. t_uid r \<noteq> c) (db_tokens (fst (revokeToken now t reason (Some c) db)))
      = filter (\<lambda>r. t_uid r \<noteq> c) (db_tokens db)" for t reason
  proof -
    have "filter (\<lambda>r. t_uid r \<noteq> c) (sql_update (\<lambda>r. t_id r = t \<and> t_uid r = c)
        (\<lambda>r. r\<lparr>t_revoked_at := Some now, t_revoked_reason := reason\<rparr>) xs) = filter (\<lambda>r. t_uid r \<noteq> c) xs" for xs :: "token_row list"
      by (induction xs) simp_all
    then show ?thesis by (simp add: revokeToken_def Let_def)
  qed
  have revoke: "filter (\<lambda>r. t_uid r \<noteq> c) (db_tokens (fst (handleSysTokenRevoke now db (Some c) raw)))
        = filter (\<lambda>r. t_uid r \<noteq> c) (db_tokens db)"
  proof (cases "snd (handleSysTokenRevoke now db (Some c) raw)")
    case (Inl e)
    then show ?thesis
      by (auto simp: handleSysTokenRevoke_def split: sum.splits prod.splits)
  next
    case (Inr b)
    then have "\<exists>t reason. fst (handleSysTokenRevoke now db (Some c) raw) = fst (revokeToken now t reason (Some c) db)"
      using assms unfolding handleSysTokenRevoke_def requireUid_def
      by (auto split: sum.splits prod.splits option.splits if_splits) (metis fst_conv)+
    with keep show ?thesis by auto
  qed
  have "handleSysTokenCreate sha now tid rnd db db' None raw = throw ''Authentication required''"
    "handleSysTokenList db None raw = throw ''Authentication required''"
    "handleSysTokenRevoke now db None raw = (db, throw ''Authentication required'')"
    by (simp_all add: handleSysTokenCreate_def handleSysTokenList_def handleSysTokenRevoke_def requireUid_def)
  with create list revoke show ?thesis by blast
qed


text \<open>A user with a user token, in a kernel past its setup, for the concrete instances.\<close>

definition demo_kernel :: connect_state where
  "demo_kernel = \<lparr>ks_auth = demo_auth\<lparr>db_shadow := [makeShadowEntry 0 ''root'' ''x'']\<rparr>, ks_caps = [],
     ks_devices = empty_registry\<rparr>"

definition demo_connect :: connect_args where
  "demo_connect = \<lparr>cn_protocol = 2, cn_role = Some ''user'', cn_client_id = ''web'', cn_platform = ''browser'',
     cn_version = ''1'', cn_channel = None, cn_implements = None,
     cn_auth = Some \<lparr>cu_username = ''sam'', cu_token = Some ''tok'', cu_password = None\<rparr>\<rparr>"

theorem token_requests_confined_witness:
  "\<exists>db'' it. handleSysTokenCreate (\<lambda>_. []) 5 ''t2'' [1, 2, 3] demo_auth (demo_auth\<lparr>db_tokens := []\<rparr>)
      (Some 1000) (JObj [(''kind'', JStr ''user'')]) = Inr (db'', it) \<and> it_uid it = 1000 \<and> it_kind it \<noteq> KService"
proof -
  let ?r = "handleSysTokenCreate (\<lambda>_. []) 5 ''t2'' [1, 2, 3] demo_auth (demo_auth\<lparr>db_tokens := []\<rparr>)
      (Some 1000) (JObj [(''kind'', JStr ''user'')])"
  have "\<exists>db'' it. ?r = Inr (db'', it)"
    by (simp add: handleSysTokenCreate_def requireUid_def parseOptionalUid_def parseTokenKind_def
        json_get_def json_string_def parseOptionalString_def parseOptionalFutureTimestamp_def Let_def
        issueToken_def getPasswdByUid_def demo_auth_def demo_user_def sql_lookup_def truthy_def)
  then obtain db'' it where "?r = Inr (db'', it)" by blast
  with token_requests_confined [of 1000] show ?thesis by fastforce
qed


end
