(* ===== verification/Delivery.thy ===== *)
theory Delivery
  imports Tables
begin

text \<open>
  At-most-once hand-over. The outbound delivery ledger, the inbound receipts and the IPC calls all
  hand a piece of work to whoever claims it, and must not hand it out again unless it was given
  back. The locale \<open>handover\<close> is that contract over a step function: a step that grants needs the
  work to be free and leaves it taken, and only a releasing step makes taken work free again. Its
  lemma bounds the grants of any run by the releases; each protocol is an interpretation.
\<close>

fun run_steps :: "('e \<Rightarrow> 's \<Rightarrow> 's) \<Rightarrow> 'e list \<Rightarrow> 's \<Rightarrow> 's" where
  "run_steps step [] s = s"
| "run_steps step (e # es) s = run_steps step es (step e s)"

text \<open>How many steps of a run have a property, each judged in the state it is taken in.\<close>

fun count_steps :: "('e \<Rightarrow> 's \<Rightarrow> 's) \<Rightarrow> ('e \<Rightarrow> 's \<Rightarrow> bool) \<Rightarrow> 'e list \<Rightarrow> 's \<Rightarrow> nat" where
  "count_steps step P [] s = 0"
| "count_steps step P (e # es) s = (if P e s then 1 else 0) + count_steps step P es (step e s)"

lemma run_steps_append: "run_steps step (es @ fs) s = run_steps step fs (run_steps step es s)"
  by (induction es arbitrary: s) simp_all

lemma run_steps_invariant:
  assumes "I s" and "\<And>e s. e \<in> set es \<Longrightarrow> I s \<Longrightarrow> I (step e s)"
  shows "I (run_steps step es s)"
  using assms by (induction es arbitrary: s) simp_all

lemma count_steps_syntactic:
  "(\<And>e s. P e s = Q e) \<Longrightarrow> count_steps step P es s = length (filter Q es)"
  by (induction es arbitrary: s) simp_all

lemma count_steps_le:
  "(\<And>e s. P e s \<Longrightarrow> Q e) \<Longrightarrow> count_steps step P es s \<le> length (filter Q es)"
proof (induction es arbitrary: s)
  case (Cons e es)
  from Cons.prems have "P e s \<Longrightarrow> Q e" by blast
  moreover from Cons have "count_steps step P es (step e s) \<le> length (filter Q es)" by blast
  ultimately show ?case by (cases "P e s"; cases "Q e") simp_all
qed simp

locale handover =
  fixes step :: "'e \<Rightarrow> 's \<Rightarrow> 's"
    and admissible :: "'e \<Rightarrow> bool"
    and inv :: "'s \<Rightarrow> bool"
    and free :: "'s \<Rightarrow> bool"
    and grants :: "'e \<Rightarrow> 's \<Rightarrow> bool"
    and releases :: "'e \<Rightarrow> 's \<Rightarrow> bool"
  assumes inv_step: "inv s \<Longrightarrow> admissible e \<Longrightarrow> inv (step e s)"
    and grant_takes: "inv s \<Longrightarrow> admissible e \<Longrightarrow> grants e s \<Longrightarrow> free s \<and> \<not> free (step e s)"
    and taken_stays: "inv s \<Longrightarrow> admissible e \<Longrightarrow> \<not> free s \<Longrightarrow> \<not> releases e s \<Longrightarrow> \<not> free (step e s)"
begin

lemma grants_bounded:
  "inv s \<Longrightarrow> \<forall>e \<in> set es. admissible e \<Longrightarrow>
     count_steps step grants es s \<le> (if free s then 1 else 0) + count_steps step releases es s"
proof (induction es arbitrary: s)
  case (Cons e es)
  then have adm: "admissible e" and inv: "inv (step e s)" by (simp_all add: inv_step)
  from Cons.IH [OF inv] Cons.prems
  have "count_steps step grants es (step e s)
      \<le> (if free (step e s) then 1 else 0) + count_steps step releases es (step e s)" by simp
  with grant_takes [OF Cons.prems(1) adm] taken_stays [OF Cons.prems(1) adm] show ?case
    by (auto split: if_splits)
qed simp

lemma at_most_once:
  "inv s \<Longrightarrow> \<forall>e \<in> set es. admissible e \<Longrightarrow> count_steps step releases es s = 0 \<Longrightarrow>
     count_steps step grants es s \<le> 1"
  using grants_bounded [of s es] by (simp split: if_splits)

lemma inv_run: "inv s \<Longrightarrow> \<forall>e \<in> set es. admissible e \<Longrightarrow> inv (run_steps step es s)"
  by (induction es arbitrary: s) (simp_all add: inv_step)

end

end
