(* ===== verification/DeliveryLedger.thy ===== *)
theory DeliveryLedger
  imports Delivery
begin

text \<open>
  The outbound delivery ledger every channel adapter keeps (\<open>adapters/shared/src/delivery-ledger.ts\<close>).
  The records live in the durable object's key/value storage under \<open>outbound_delivery:v1:record:\<close> and
  the encoded delivery id, with a counter under one more key; \<open>claim\<close>, the settling methods and
  \<open>releaseRetryable\<close> are one storage transaction each, hence one step. A stored value that is not an
  object of the record's shape is \<open>Foreign\<close>; the other tests of \<open>isDeliveryRecord\<close> are the types of
  the model, but for the fingerprint's format. \<open>crypto.randomUUID()\<close> and \<open>Date.now()\<close> are arguments.
\<close>

section \<open>Data\<close>

datatype delivery_state = Attempting string | Retryable | Sent "string option"
  | Ambiguous string | Failed string

record delivery_record =
  dr_state :: delivery_state
  dr_deliveryId :: string
  dr_requestFingerprint :: string
  dr_createdAt :: int
  dr_expiresAt :: int

datatype stored = Stored delivery_record | Foreign

record delivery_meta =
  lm_count :: int
  lm_nextPruneAt :: int

record ledger_storage =
  ls_records :: "(string \<times> stored) list"
  ls_meta :: "delivery_meta option"

record send_error =
  se_error :: string
  se_retryable :: bool
  se_ambiguous :: bool

text \<open>\<open>AdapterSendResult\<close>: message id and the \<open>deduplicated\<close> flag, or an error with its flags.\<close>

datatype send_result = SendOk "string option" bool | SendError send_error

datatype delivery_claim = Claimed string | NotClaimed send_result

record ledger_options =
  lo_retentionMs :: int
  lo_pruneIntervalMs :: int
  lo_maxRecords :: int

definition DEFAULT_RETENTION_MS :: int where "DEFAULT_RETENTION_MS = 7 * 24 * 60 * 60 * 1000"
definition DEFAULT_PRUNE_INTERVAL_MS :: int where "DEFAULT_PRUNE_INTERVAL_MS = 60 * 60 * 1000"
definition DEFAULT_MAX_RECORDS :: int where "DEFAULT_MAX_RECORDS = 4096"
definition MAX_DELIVERY_ID_BYTES :: nat where "MAX_DELIVERY_ID_BYTES = 200"
definition MAX_ERROR_LENGTH :: nat where "MAX_ERROR_LENGTH = 1000"
definition MAX_MESSAGE_ID_LENGTH :: nat where "MAX_MESSAGE_ID_LENGTH = 256"
definition RECORD_PREFIX :: string where "RECORD_PREFIX = ''outbound_delivery:v1:record:''"

definition positiveInteger :: "js_number \<Rightarrow> string \<Rightarrow> int result" where
  "positiveInteger v name =
     (case v of
        IntNum i \<Rightarrow> if \<not> js_safe_integer v \<or> i \<le> 0
                    then throw (name @ '' must be a positive safe integer'') else Inr i
      | _ \<Rightarrow> throw (name @ '' must be a positive safe integer''))"

definition newDeliveryLedger ::
    "js_number option \<Rightarrow> js_number option \<Rightarrow> js_number option \<Rightarrow> ledger_options result" where
  "newDeliveryLedger retention prune maxRecords =
     bind_result (positiveInteger (coalesce retention (IntNum DEFAULT_RETENTION_MS)) ''retentionMs'') (\<lambda>r.
     bind_result (positiveInteger (coalesce prune (IntNum DEFAULT_PRUNE_INTERVAL_MS)) ''pruneIntervalMs'') (\<lambda>p.
     bind_result (positiveInteger (coalesce maxRecords (IntNum DEFAULT_MAX_RECORDS)) ''maxRecords'') (\<lambda>n.
     Inr \<lparr>lo_retentionMs = r, lo_pruneIntervalMs = p, lo_maxRecords = n\<rparr>)))"

section \<open>Keys and formats\<close>

definition utf8_char :: "char \<Rightarrow> nat list" where
  "utf8_char c = (let n = of_char c in if n < 128 then [n] else [192 + n div 64, 128 + n mod 64])"

definition utf8_bytes :: "string \<Rightarrow> nat list" where
  "utf8_bytes s = concat (map utf8_char s)"

definition is_alnum :: "char \<Rightarrow> bool" where
  "is_alnum c \<longleftrightarrow> is_digit c \<or> is_lower_az c \<or> is_upper_az c"

definition uri_unreserved :: "char \<Rightarrow> bool" where
  "uri_unreserved c \<longleftrightarrow> is_alnum c \<or> c \<in> set ''-_.!~*()'' \<or> c = CHR 0x27"

definition hex_upper :: "nat \<Rightarrow> char" where
  "hex_upper n = char_of (if n < 10 then 48 + n else 55 + n)"

definition pct_byte :: "nat \<Rightarrow> string" where
  "pct_byte b = [CHR ''%'', hex_upper (b div 16), hex_upper (b mod 16)]"

definition encodeURIComponent :: "string \<Rightarrow> string" where
  "encodeURIComponent s =
     concat (map (\<lambda>c. if uri_unreserved c then [c] else concat (map pct_byte (utf8_char c))) s)"

definition recordKey :: "string \<Rightarrow> string" where
  "recordKey deliveryId = RECORD_PREFIX @ encodeURIComponent deliveryId"

definition delivery_id_char :: "char \<Rightarrow> bool" where
  "delivery_id_char c \<longleftrightarrow> is_alnum c \<or> c \<in> set ''._:-''"

definition validateDeliveryId :: "string \<Rightarrow> string option" where
  "validateDeliveryId d =
     (if d = [] \<or> d \<noteq> js_trim d
      then Some ''deliveryId must be a non-empty string without surrounding whitespace''
      else if \<not> list_all delivery_id_char d then Some ''deliveryId contains unsupported characters''
      else if length (utf8_bytes d) > MAX_DELIVERY_ID_BYTES
      then Some (''deliveryId must be at most '' @ show_nat MAX_DELIVERY_ID_BYTES @ '' UTF-8 bytes'')
      else None)"

definition hex_lower_char :: "char \<Rightarrow> bool" where
  "hex_lower_char c \<longleftrightarrow> is_digit c \<or> (let n = of_char c :: nat in 97 \<le> n \<and> n \<le> 102)"

definition fingerprint_valid :: "string \<Rightarrow> bool" where
  "fingerprint_valid f \<longleftrightarrow> length f = 64 \<and> list_all hex_lower_char f"

definition isDeliveryMeta :: "delivery_meta option \<Rightarrow> bool" where
  "isDeliveryMeta m = (case m of None \<Rightarrow> False
     | Some m \<Rightarrow> js_safe_integer (IntNum (lm_count m)) \<and> 0 \<le> lm_count m)"

definition isDeliveryRecord :: "stored \<Rightarrow> bool" where
  "isDeliveryRecord v = (case v of Foreign \<Rightarrow> False | Stored r \<Rightarrow> fingerprint_valid (dr_requestFingerprint r))"

definition js_truncate :: "string \<Rightarrow> nat \<Rightarrow> string" where
  "js_truncate s n = (if length s \<le> n then s else take n s)"

datatype delivery_failure_kind = KRetryable | KPermanent | KAmbiguous

definition classifyNonIdempotentProviderStatus :: "int \<Rightarrow> delivery_failure_kind" where
  "classifyNonIdempotentProviderStatus status =
     (if status = 429 then KRetryable
      else if status = 408 \<or> status \<ge> 500 then KAmbiguous
      else KPermanent)"

section \<open>Operations\<close>

definition kv_get :: "ledger_storage \<Rightarrow> string \<Rightarrow> stored option" where
  "kv_get s key = map_option snd (sql_lookup fst (ls_records s) key)"

definition kv_put :: "string \<Rightarrow> delivery_record \<Rightarrow> ledger_storage \<Rightarrow> ledger_storage" where
  "kv_put key r s = s\<lparr>ls_records := sql_replace fst (key, Stored r) (ls_records s)\<rparr>"

definition kv_delete :: "string list \<Rightarrow> ledger_storage \<Rightarrow> ledger_storage" where
  "kv_delete keys s = s\<lparr>ls_records := sql_delete (\<lambda>e. fst e \<in> set keys) (ls_records s)\<rparr>"

definition live_record :: "int \<Rightarrow> stored \<Rightarrow> delivery_record option" where
  "live_record now v =
     (case v of
        Foreign \<Rightarrow> None
      | Stored r \<Rightarrow> if \<not> isDeliveryRecord v \<or> dr_expiresAt r \<le> now then None else Some r)"

text \<open>The loop of the pruning branch: the live records, the expired keys, the record of the id.\<close>

fun scan_records :: "int \<Rightarrow> string \<Rightarrow> (string \<times> stored) list
    \<Rightarrow> nat \<times> string list \<times> delivery_record option
    \<Rightarrow> nat \<times> string list \<times> delivery_record option" where
  "scan_records now d [] acc = acc"
| "scan_records now d ((key, v) # rest) (count, expired, existing) =
     (case live_record now v of
        None \<Rightarrow> scan_records now d rest (count, expired @ [key], existing)
      | Some r \<Rightarrow> scan_records now d rest
                     (count + 1, expired, if dr_deliveryId r = d then Some r else existing))"

text \<open>What \<open>claim\<close> reads before it decides: the counter and the record of the id, after the expired
  records it met are deleted.\<close>

definition claim_read :: "ledger_options \<Rightarrow> int \<Rightarrow> string \<Rightarrow> ledger_storage
    \<Rightarrow> ledger_storage \<times> delivery_meta \<times> delivery_record option" where
  "claim_read cfg now d s =
     (let pruning = (let (count, expired, existing) = scan_records now d (ls_records s) (0, [], None)
                     in (if expired = [] then s else kv_delete expired s,
                         \<lparr>lm_count = int count, lm_nextPruneAt = now + lo_pruneIntervalMs cfg\<rparr>, existing))
      in case ls_meta s of
           None \<Rightarrow> pruning
         | Some meta \<Rightarrow>
             if \<not> isDeliveryMeta (ls_meta s) \<or> lm_nextPruneAt meta \<le> now
                \<or> lm_count meta \<ge> lo_maxRecords cfg
             then pruning
             else (case kv_get s (recordKey d) of
                     None \<Rightarrow> (s, meta, None)
                   | Some v \<Rightarrow>
                       (case live_record now v of
                          Some r \<Rightarrow> (s, meta, Some r)
                        | None \<Rightarrow> (kv_delete [recordKey d] s,
                                   meta\<lparr>lm_count := max 0 (lm_count meta - 1)\<rparr>, None))))"

definition claimFromExisting :: "delivery_record \<Rightarrow> delivery_claim result" where
  "claimFromExisting r =
     (case dr_state r of
        Sent m \<Rightarrow> Inr (NotClaimed (SendOk (case m of Some (c # cs) \<Rightarrow> Some (c # cs) | _ \<Rightarrow> None) True))
      | Failed e \<Rightarrow> Inr (NotClaimed (SendError \<lparr>se_error = e, se_retryable = False, se_ambiguous = False\<rparr>))
      | Ambiguous e \<Rightarrow> Inr (NotClaimed (SendError \<lparr>se_error = e, se_retryable = False, se_ambiguous = True\<rparr>))
      | Attempting _ \<Rightarrow> Inr (NotClaimed (SendError \<lparr>se_error =
          ''Outbound delivery is already in progress; its provider outcome is not yet known'',
          se_retryable = False, se_ambiguous = True\<rparr>))
      | Retryable \<Rightarrow> throw ''Retryable delivery records must be claimed transactionally'')"

definition refuse :: "string \<Rightarrow> bool \<Rightarrow> delivery_claim result" where
  "refuse e retryable =
     Inr (NotClaimed (SendError \<lparr>se_error = e, se_retryable = retryable, se_ambiguous = False\<rparr>))"

definition claim :: "ledger_options \<Rightarrow> int \<Rightarrow> string \<Rightarrow> string \<Rightarrow> string \<Rightarrow> ledger_storage
    \<Rightarrow> ledger_storage \<times> delivery_claim result" where
  "claim cfg now uuid d fp s =
     (case validateDeliveryId d of
        Some err \<Rightarrow> (s, refuse err False)
      | None \<Rightarrow>
     if \<not> fingerprint_valid fp then (s, refuse ''Outbound delivery fingerprint is invalid'' False)
     else
     (let (s1, meta, existing) = claim_read cfg now d s in
      case existing of
        Some r \<Rightarrow>
          if dr_requestFingerprint r \<noteq> fp
          then (s1\<lparr>ls_meta := Some meta\<rparr>,
                refuse ''deliveryId is already bound to a different outbound destination or content'' False)
          else if dr_state r = Retryable
          then ((kv_put (recordKey d) (r\<lparr>dr_state := Attempting uuid\<rparr>) s1)\<lparr>ls_meta := Some meta\<rparr>,
                Inr (Claimed uuid))
          else (case claimFromExisting r of
                  Inl e \<Rightarrow> (s, Inl e)
                | Inr c \<Rightarrow> (s1\<lparr>ls_meta := Some meta\<rparr>, Inr c))
      | None \<Rightarrow>
          if lm_count meta \<ge> lo_maxRecords cfg
          then (s1\<lparr>ls_meta := Some meta\<rparr>,
                refuse ''Outbound delivery ledger is at capacity; retry after older records expire'' True)
          else ((kv_put (recordKey d)
                  \<lparr>dr_state = Attempting uuid, dr_deliveryId = d, dr_requestFingerprint = fp,
                   dr_createdAt = now, dr_expiresAt = now + lo_retentionMs cfg\<rparr> s1)
                  \<lparr>ls_meta := Some (meta\<lparr>lm_count := lm_count meta + 1\<rparr>)\<rparr>,
                Inr (Claimed uuid))))"

definition isMatchingAttempt :: "stored option \<Rightarrow> string \<Rightarrow> delivery_record option" where
  "isMatchingAttempt v attemptId =
     (case v of Some (Stored r) \<Rightarrow> if dr_state r = Attempting attemptId then Some r else None
      | _ \<Rightarrow> None)"

definition replaceAttempt :: "string \<Rightarrow> string \<Rightarrow> delivery_state \<Rightarrow> ledger_storage \<Rightarrow> ledger_storage" where
  "replaceAttempt d attemptId state s =
     (case isMatchingAttempt (kv_get s (recordKey d)) attemptId of
        None \<Rightarrow> s
      | Some r \<Rightarrow> kv_put (recordKey d) (r\<lparr>dr_state := state, dr_deliveryId := d\<rparr>) s)"

definition succeed :: "string \<Rightarrow> string \<Rightarrow> string option \<Rightarrow> ledger_storage \<Rightarrow> ledger_storage" where
  "succeed d attemptId messageId s =
     replaceAttempt d attemptId
       (Sent (case messageId of Some (c # cs) \<Rightarrow> Some (js_truncate (c # cs) MAX_MESSAGE_ID_LENGTH)
              | _ \<Rightarrow> None)) s"

definition failAmbiguous :: "string \<Rightarrow> string \<Rightarrow> string \<Rightarrow> ledger_storage \<Rightarrow> ledger_storage" where
  "failAmbiguous d attemptId e s = replaceAttempt d attemptId (Ambiguous (js_truncate e MAX_ERROR_LENGTH)) s"

definition failPermanent :: "string \<Rightarrow> string \<Rightarrow> string \<Rightarrow> ledger_storage \<Rightarrow> ledger_storage" where
  "failPermanent d attemptId e s = replaceAttempt d attemptId (Failed (js_truncate e MAX_ERROR_LENGTH)) s"

definition releaseRetryable :: "string \<Rightarrow> string \<Rightarrow> ledger_storage \<Rightarrow> ledger_storage" where
  "releaseRetryable d attemptId s = replaceAttempt d attemptId Retryable s"

datatype ledger_event = EClaim int string string string | ESucceed string string "string option"
  | EFailAmbiguous string string string | EFailPermanent string string string | ERelease string string

fun ledger_step :: "ledger_options \<Rightarrow> ledger_event \<Rightarrow> ledger_storage \<Rightarrow> ledger_storage" where
  "ledger_step cfg (EClaim now uuid d fp) s = fst (claim cfg now uuid d fp s)"
| "ledger_step cfg (ESucceed d a m) s = succeed d a m s"
| "ledger_step cfg (EFailAmbiguous d a e) s = failAmbiguous d a e s"
| "ledger_step cfg (EFailPermanent d a e) s = failPermanent d a e s"
| "ledger_step cfg (ERelease d a) s = releaseRetryable d a s"

text \<open>The step hands delivery \<open>d\<close> to its caller, who then calls the provider.\<close>

fun claim_granted :: "ledger_options \<Rightarrow> string \<Rightarrow> ledger_event \<Rightarrow> ledger_storage \<Rightarrow> bool" where
  "claim_granted cfg d (EClaim now uuid d' fp) s =
     (d' = d \<and> (case snd (claim cfg now uuid d' fp s) of Inr (Claimed _) \<Rightarrow> True | _ \<Rightarrow> False))"
| "claim_granted cfg d _ s = False"

fun is_release :: "string \<Rightarrow> ledger_event \<Rightarrow> bool" where
  "is_release d (ERelease d' _) = (d' = d)"
| "is_release d _ = False"

section \<open>Keys are injective\<close>

lemma nat_div16: "b < 256 \<Longrightarrow> b div 16 < (16 :: nat)"
  by simp

lemma hex_upper_inject: "a < 16 \<Longrightarrow> b < 16 \<Longrightarrow> hex_upper a = hex_upper b \<longleftrightarrow> a = b"
proof
  assume "a < 16" "b < 16" "hex_upper a = hex_upper b"
  then have "(of_char (hex_upper a) :: nat) = of_char (hex_upper b)" by simp
  with \<open>a < 16\<close> \<open>b < 16\<close> show "a = b"
    by (auto simp: hex_upper_def of_char_of split: if_splits)
qed simp

lemma pct_byte_inject: "a < 256 \<Longrightarrow> b < 256 \<Longrightarrow> pct_byte a = pct_byte b \<longleftrightarrow> a = b"
  unfolding pct_byte_def list.inject
  by (simp add: hex_upper_inject nat_div16) (metis div_mod_decomp)

lemma length_pct_byte [simp]: "length (pct_byte b) = 3"
  by (simp add: pct_byte_def)

lemma pct_byte_append:
  "a < 256 \<Longrightarrow> b < 256 \<Longrightarrow> pct_byte a @ s = pct_byte b @ t \<longleftrightarrow> a = b \<and> s = t"
  by (metis append_eq_append_conv length_pct_byte pct_byte_inject)

definition uri_char :: "char \<Rightarrow> string" where
  "uri_char c = (if uri_unreserved c then [c] else concat (map pct_byte (utf8_char c)))"

lemma encodeURIComponent_simps [simp]:
  "encodeURIComponent [] = []"
  "encodeURIComponent (c # s) = uri_char c @ encodeURIComponent s"
  by (simp_all add: encodeURIComponent_def uri_char_def)

lemma percent_reserved [simp]: "\<not> uri_unreserved (CHR ''%'')"
  by (simp add: uri_unreserved_def is_alnum_def is_digit_def is_lower_az_def is_upper_az_def)

lemma utf8_char_cases:
  obtains "utf8_char c = [of_char c]" "(of_char c :: nat) < 128"
  | "utf8_char c = [192 + of_char c div 64, 128 + of_char c mod 64]" "128 \<le> (of_char c :: nat)"
    "(of_char c :: nat) < 256"
proof -
  have "(of_char c :: nat) < 256"
    by (metis mod_less_divisor of_char_mod_256 zero_less_numeral)
  with that show ?thesis by (cases "(of_char c :: nat) < 128") (simp_all add: utf8_char_def Let_def)
qed

lemma uri_char_append:
  "uri_char c @ s = uri_char c' @ t \<Longrightarrow> c = c' \<and> s = t"
proof -
  assume eq: "uri_char c @ s = uri_char c' @ t"
  have hd: "hd (uri_char x @ y) = (if uri_unreserved x then x else CHR ''%'')" for x y
    by (cases x rule: utf8_char_cases) (simp_all add: uri_char_def pct_byte_def)
  from hd [of c s] hd [of c' t] eq percent_reserved
  have "uri_unreserved c \<and> c' = c \<or> \<not> uri_unreserved c \<and> \<not> uri_unreserved c'"
    by (cases "uri_unreserved c"; cases "uri_unreserved c'") metis+
  then consider "uri_unreserved c" "c' = c" | "\<not> uri_unreserved c" "\<not> uri_unreserved c'"
    by blast
  then show ?thesis
  proof cases
    case 1
    with eq show ?thesis by (simp add: uri_char_def)
  next
    case 2
    with eq have eq: "concat (map pct_byte (utf8_char c)) @ s = concat (map pct_byte (utf8_char c')) @ t"
      by (simp add: uri_char_def)
    have inj: "(of_char c :: nat) = of_char c' \<Longrightarrow> c = c'" by (simp add: of_char_eq_iff)
    have lt: "192 + of_char x div 64 < (256 :: nat)" "128 + of_char x mod 64 < (256 :: nat)" for x :: char
      using nat_of_char_less_256 [of x] by linarith+
    have decomp: "(of_char x :: nat) = of_char x div 64 * 64 + of_char x mod 64" for x :: char
      by simp
    show ?thesis
    proof (cases c rule: utf8_char_cases)
      case c: 1
      show ?thesis
        by (cases c' rule: utf8_char_cases) (use eq c inj lt [of c'] in \<open>auto simp: pct_byte_append pct_byte_inject\<close>)
    next
      case c: 2
      show ?thesis
      proof (cases c' rule: utf8_char_cases)
        case 1
        with eq c lt [of c] show ?thesis by (auto simp: pct_byte_append pct_byte_inject)
      next
        case c': 2
        with eq c have "of_char c div 64 = (of_char c' :: nat) div 64"
          and "of_char c mod 64 = (of_char c' :: nat) mod 64" and "s = t"
          using lt [of c] lt [of c'] by (auto simp: pct_byte_append pct_byte_inject)
        with decomp [of c] decomp [of c'] inj show ?thesis by simp
      qed
    qed
  qed
qed

lemma encodeURIComponent_inject: "encodeURIComponent d = encodeURIComponent e \<longleftrightarrow> d = e"
proof
  have ne: "uri_char c \<noteq> []" for c
    by (cases c rule: utf8_char_cases) (simp_all add: uri_char_def pct_byte_def)
  show "encodeURIComponent d = encodeURIComponent e \<Longrightarrow> d = e"
  proof (induction d arbitrary: e)
    case Nil
    with ne show ?case by (cases e) auto
  next
    case (Cons c d)
    from Cons.prems ne obtain c' e' where "e = c' # e'" by (cases e) auto
    with Cons.prems have "uri_char c @ encodeURIComponent d = uri_char c' @ encodeURIComponent e'"
      by simp
    from uri_char_append [OF this] Cons.IH \<open>e = c' # e'\<close> show ?case by simp
  qed
qed simp

lemma recordKey_inject [simp]: "recordKey d = recordKey e \<longleftrightarrow> d = e"
  by (simp add: recordKey_def encodeURIComponent_inject)

section \<open>The invariant\<close>

definition ledger_rows_ok :: "(string \<times> stored) list \<Rightarrow> bool" where
  "ledger_rows_ok t \<longleftrightarrow> keyed fst t \<and>
     (\<forall>r. \<forall>key. (key, Stored r) \<in> set t \<longrightarrow> key = recordKey (dr_deliveryId r))"

text \<open>Every record lies under the key of its id, the counter is the number of records whenever it
  would be trusted, and there are never more than \<open>maxRecords\<close>.\<close>

definition ledger_inv :: "ledger_options \<Rightarrow> ledger_storage \<Rightarrow> bool" where
  "ledger_inv cfg s \<longleftrightarrow> ledger_rows_ok (ls_records s)
     \<and> int (length (ls_records s)) \<le> lo_maxRecords cfg
     \<and> (\<forall>m. ls_meta s = Some m \<and> isDeliveryMeta (Some m) \<longrightarrow> lm_count m = int (length (ls_records s)))"

lemma rows_ok_Cons: "ledger_rows_ok (e # t) \<Longrightarrow> ledger_rows_ok t \<and> sql_lookup fst t (fst e) = None"
  by (cases e) (force simp: ledger_rows_ok_def keyed_def lookup_None image_iff)

lemma rows_ok_delete: "ledger_rows_ok t \<Longrightarrow> ledger_rows_ok (sql_delete P t)"
  by (auto simp: ledger_rows_ok_def)

lemma rows_ok_put:
  "ledger_rows_ok t \<Longrightarrow> ledger_rows_ok (sql_replace fst (recordKey (dr_deliveryId r), Stored r) t)"
  by (auto simp: ledger_rows_ok_def in_replace)

lemma replace_length:
  assumes "keyed fst t"
  shows "length (sql_replace fst (key, v) t)
       = length t + (if sql_lookup fst t key = None then 1 else 0)"
proof -
  have "length (filter (\<lambda>x. fst x \<noteq> key) t) = length t - (if sql_lookup fst t key = None then 0 else 1)"
    using assms
  proof (induction t)
    case (Cons e t)
    show ?case
    proof (cases "fst e = key")
      case True
      with Cons.prems have "\<forall>x \<in> set t. fst x \<noteq> key" by (auto simp: keyed_def image_iff)
      with True show ?thesis by (simp add: sql_lookup_def filter_id_conv)
    next
      case False
      then have "sql_lookup fst (e # t) key = sql_lookup fst t key" by (simp add: sql_lookup_def)
      moreover have "sql_lookup fst t key \<noteq> None \<Longrightarrow> t \<noteq> []" by auto
      ultimately show ?thesis using False Cons by (cases t) (auto simp: keyed_def)
    qed
  qed simp
  moreover have "sql_lookup fst t key \<noteq> None \<Longrightarrow> t \<noteq> []" by auto
  ultimately show ?thesis by (cases t) (auto simp: sql_replace_def)
qed

subsection \<open>What claim reads\<close>

lemma scan_records_all:
  "ledger_rows_ok t \<Longrightarrow> scan_records now d t (n, expired, e0) =
     (n + length (filter (\<lambda>e. live_record now (snd e) \<noteq> None) t),
      expired @ map fst (filter (\<lambda>e. live_record now (snd e) = None) t),
      case sql_lookup fst t (recordKey d) of None \<Rightarrow> e0
      | Some e \<Rightarrow> (case live_record now (snd e) of None \<Rightarrow> e0 | Some r \<Rightarrow> Some r))"
proof (induction t arbitrary: n expired e0)
  case (Cons e t)
  obtain key v where e: "e = (key, v)" by (cases e)
  from rows_ok_Cons [OF Cons.prems] e
  have rest: "ledger_rows_ok t" and no: "sql_lookup fst t key = None" by simp_all
  have same: "dr_deliveryId r = d \<longleftrightarrow> key = recordKey d" if "live_record now v = Some r" for r
  proof -
    from that have "v = Stored r" by (simp add: live_record_def split: stored.splits if_splits)
    with Cons.prems e have "key = recordKey (dr_deliveryId r)" by (simp add: ledger_rows_ok_def)
    then show ?thesis by simp
  qed
  have look: "sql_lookup fst (e # t) (recordKey d)
      = (if key = recordKey d then Some e else sql_lookup fst t (recordKey d))"
    by (simp add: sql_lookup_def e)
  note IH = Cons.IH [OF rest]
  show ?case
  proof (cases "live_record now v")
    case None
    then have "scan_records now d (e # t) (n, expired, e0) = scan_records now d t (n, expired @ [key], e0)"
      by (simp add: e)
    moreover have "filter (\<lambda>e. live_record now (snd e) \<noteq> None) (e # t)
        = filter (\<lambda>e. live_record now (snd e) \<noteq> None) t"
      and "map fst (filter (\<lambda>e. live_record now (snd e) = None) (e # t))
        = key # map fst (filter (\<lambda>e. live_record now (snd e) = None) t)"
      using None e by simp_all
    moreover have "key = recordKey d \<Longrightarrow> sql_lookup fst t (recordKey d) = None" using no by simp
    moreover have "live_record now (snd e) = None" using None e by simp
    ultimately show ?thesis
      unfolding look IH by (cases "key = recordKey d") simp_all
  next
    case (Some r)
    then have "scan_records now d (e # t) (n, expired, e0)
        = scan_records now d t (n + 1, expired, if dr_deliveryId r = d then Some r else e0)"
      by (simp add: e)
    moreover have "length (filter (\<lambda>e. live_record now (snd e) \<noteq> None) (e # t))
        = Suc (length (filter (\<lambda>e. live_record now (snd e) \<noteq> None) t))"
      and "map fst (filter (\<lambda>e. live_record now (snd e) = None) (e # t))
        = map fst (filter (\<lambda>e. live_record now (snd e) = None) t)"
      using Some e by simp_all
    moreover have "key = recordKey d \<Longrightarrow> sql_lookup fst t (recordKey d) = None" using no by simp
    moreover have "live_record now (snd e) = Some r" using Some e by simp
    ultimately show ?thesis
      unfolding look IH using same [OF Some] by (cases "key = recordKey d") simp_all
  qed
qed simp

definition live_at :: "int \<Rightarrow> string \<Rightarrow> ledger_storage \<Rightarrow> delivery_record option" where
  "live_at now d s = (case kv_get s (recordKey d) of None \<Rightarrow> None | Some v \<Rightarrow> live_record now v)"

lemma delete_by_keys:
  assumes "keyed fst t"
  shows "sql_delete (\<lambda>e. fst e \<in> set (map fst (filter P t))) t = filter (\<lambda>e. \<not> P e) t"
  unfolding sql_delete_def
proof (rule filter_cong [OF refl])
  fix e assume "e \<in> set t"
  then show "(fst e \<notin> set (map fst (filter P t))) = (\<not> P e)"
  proof (cases "P e")
    case True
    with \<open>e \<in> set t\<close> show ?thesis by auto
  next
    case False
    have "e' = e" if "e' \<in> set t" "fst e' = fst e" for e'
      by (rule keyed_unique [OF assms that(1) \<open>e \<in> set t\<close> that(2)])
    with False show ?thesis by auto
  qed
qed

lemma kv_get_filter:
  assumes "keyed fst t"
  shows "map_option snd (sql_lookup fst (filter P t) key)
       = (case sql_lookup fst t key of None \<Rightarrow> None | Some e \<Rightarrow> if P e then Some (snd e) else None)"
  using lookup_delete [OF assms, of "\<lambda>e. \<not> P e" key]
  by (simp add: sql_delete_def split: option.split)

text \<open>Deleting dead entries: the rest is unchanged.\<close>

definition drops_dead :: "int \<Rightarrow> ledger_storage \<Rightarrow> ledger_storage \<Rightarrow> bool" where
  "drops_dead now s s1 \<longleftrightarrow> (\<forall>key. kv_get s1 key = kv_get s key
     \<or> kv_get s1 key = None \<and> (\<exists>v. kv_get s key = Some v \<and> live_record now v = None))"

lemma prune_branch:
  assumes ok: "ledger_rows_ok (ls_records s)"
    and r: "(let (n, expired, ex) = scan_records now d (ls_records s) (0, [], None)
             in (if expired = [] then s else kv_delete expired s, \<lparr>lm_count = int n, lm_nextPruneAt = w\<rparr>, ex))
           = (s1, m, ex)"
  shows "ls_records s1 = filter (\<lambda>e. live_record now (snd e) \<noteq> None) (ls_records s)"
    and "ls_meta s1 = ls_meta s"
    and "lm_count m = int (length (ls_records s1))" and "ex = live_at now d s"
proof -
  let ?dead = "\<lambda>e. live_record now (snd e) = None"
  from ok have keyed: "keyed fst (ls_records s)" by (simp add: ledger_rows_ok_def)
  have s1: "s1 = (if map fst (filter ?dead (ls_records s)) = [] then s
                  else kv_delete (map fst (filter ?dead (ls_records s))) s)"
    and m: "m = \<lparr>lm_count = int (length (filter (\<lambda>e. live_record now (snd e) \<noteq> None) (ls_records s))), lm_nextPruneAt = w\<rparr>"
    and ex: "ex = (case sql_lookup fst (ls_records s) (recordKey d) of None \<Rightarrow> None
                   | Some e \<Rightarrow> (case live_record now (snd e) of None \<Rightarrow> None | Some r \<Rightarrow> Some r))"
    using r unfolding scan_records_all [OF ok] Let_def by (simp_all split: if_splits)
  show rows: "ls_records s1 = filter (\<lambda>e. live_record now (snd e) \<noteq> None) (ls_records s)"
  proof (cases "filter ?dead (ls_records s) = []")
    case True
    then have "filter (\<lambda>e. live_record now (snd e) \<noteq> None) (ls_records s) = ls_records s"
      by (simp add: filter_empty_conv)
    with True s1 show ?thesis by simp
  next
    case False
    with s1 show ?thesis by (simp add: kv_delete_def delete_by_keys [OF keyed, simplified])
  qed
  show "ls_meta s1 = ls_meta s" using s1 by (simp add: kv_delete_def)
  show "lm_count m = int (length (ls_records s1))" using m rows by simp
  show "ex = live_at now d s" using ex by (simp add: live_at_def kv_get_def split: option.split)
qed

lemma filter_drops_dead:
  assumes "keyed fst (ls_records s)"
    and "ls_records s1 = filter (\<lambda>e. live_record now (snd e) \<noteq> None) (ls_records s)"
  shows "drops_dead now s s1"
  unfolding drops_dead_def kv_get_def assms(2) kv_get_filter [OF assms(1)]
  by (auto split: option.split)

lemma claim_read_spec:
  assumes inv: "ledger_inv cfg s" and r: "claim_read cfg now d s = (s1, m, ex)"
  shows "ledger_rows_ok (ls_records s1) \<and> length (ls_records s1) \<le> length (ls_records s)
       \<and> lm_count m = int (length (ls_records s1)) \<and> ls_meta s1 = ls_meta s
       \<and> ex = live_at now d s \<and> kv_get s1 (recordKey d) = map_option Stored ex
       \<and> drops_dead now s s1"
proof -
  from inv have ok: "ledger_rows_ok (ls_records s)" and keyed: "keyed fst (ls_records s)"
    by (simp_all add: ledger_inv_def ledger_rows_ok_def)
  let ?w = "now + lo_pruneIntervalMs cfg"
  consider (prune) "(let (n, expired, ex) = scan_records now d (ls_records s) (0, [], None)
             in (if expired = [] then s else kv_delete expired s, \<lparr>lm_count = int n, lm_nextPruneAt = ?w\<rparr>, ex))
           = (s1, m, ex)"
    | (read) meta where "ls_meta s = Some meta" "isDeliveryMeta (Some meta)"
      "(case kv_get s (recordKey d) of
          None \<Rightarrow> (s, meta, None)
        | Some v \<Rightarrow> (case live_record now v of
             Some r \<Rightarrow> (s, meta, Some r)
           | None \<Rightarrow> (kv_delete [recordKey d] s, meta\<lparr>lm_count := max 0 (lm_count meta - 1)\<rparr>, None)))
       = (s1, m, ex)"
    using r by (auto simp: claim_read_def Let_def split: option.splits if_splits)
  then show ?thesis
  proof cases
    case prune
    note b = prune_branch [OF ok prune]
    from b(1) ok have ok1: "ledger_rows_ok (ls_records s1)"
      using rows_ok_delete [OF ok, of "\<lambda>e. live_record now (snd e) = None"] by (simp add: sql_delete_def)
    have "kv_get s1 (recordKey d) = map_option Stored (live_at now d s)"
      unfolding kv_get_def b(1) kv_get_filter [OF keyed]
      by (auto simp: live_at_def kv_get_def live_record_def split: option.splits stored.splits if_splits)
    with b ok1 filter_drops_dead [OF keyed b(1)] show ?thesis by simp
  next
    case (read meta)
    with inv have n: "lm_count meta = int (length (ls_records s))" by (simp add: ledger_inv_def)
    show ?thesis
    proof (cases "kv_get s (recordKey d)")
      case None
      with read ok n show ?thesis by (auto simp: live_at_def drops_dead_def)
    next
      case (Some v)
      show ?thesis
      proof (cases "live_record now v")
        case (Some r)
        then have "v = Stored r" by (simp add: live_record_def split: stored.splits if_splits)
        moreover from Some read(3) \<open>kv_get s (recordKey d) = Some v\<close>
        have "s1 = s" "m = meta" "ex = Some r" by simp_all
        moreover have "live_at now d s = Some r"
          using Some \<open>kv_get s (recordKey d) = Some v\<close> by (simp add: live_at_def)
        ultimately show ?thesis
          using \<open>kv_get s (recordKey d) = Some v\<close> ok n by (simp add: drops_dead_def)
      next
        case None
        with Some read have s1: "s1 = kv_delete [recordKey d] s"
          and m: "m = meta\<lparr>lm_count := max 0 (lm_count meta - 1)\<rparr>" and ex: "ex = None" by auto
        from Some obtain e where e: "e \<in> set (ls_records s)" "fst e = recordKey d" "snd e = v"
          unfolding kv_get_def by (auto dest: lookup_Some)
        have len: "length (ls_records s1) = length (ls_records s) - 1"
        proof -
          have "ls_records s1 = filter (\<lambda>x. fst x \<noteq> recordKey d) (ls_records s)"
            by (simp add: s1 kv_delete_def sql_delete_def)
          moreover have "length (sql_replace fst (recordKey d, v) (ls_records s)) = length (ls_records s)"
            using replace_length [OF keyed, of "recordKey d" v] Some by (auto simp: kv_get_def)
          ultimately show ?thesis by (simp add: sql_replace_def)
        qed
        have pos: "0 < length (ls_records s)" using e by (cases "ls_records s") auto
        have "kv_get s1 key = (if key = recordKey d then None else kv_get s key)" for key
          using lookup_delete_key [of fst "recordKey d" "ls_records s" key]
          by (simp add: kv_get_def s1 kv_delete_def)
        with Some None have "drops_dead now s s1" "kv_get s1 (recordKey d) = None"
          by (auto simp: drops_dead_def)
        moreover have "ledger_rows_ok (ls_records s1)"
          by (simp add: s1 kv_delete_def rows_ok_delete [OF ok])
        moreover have "live_at now d s = None" using Some None by (simp add: live_at_def)
        moreover obtain k where "length (ls_records s) = Suc k" using pos gr0_conv_Suc by blast
        then have "lm_count m = int (length (ls_records s1))" using len n by (simp add: m)
        ultimately show ?thesis using len by (simp add: ex) (simp add: s1 kv_delete_def)
      qed
    qed
  qed
qed

subsection \<open>What claim does\<close>

lemma kv_get_meta [simp]: "kv_get (s\<lparr>ls_meta := m\<rparr>) key = kv_get s key"
  by (simp add: kv_get_def)

lemma kv_get_put: "kv_get (kv_put key r s) k = (if k = key then Some (Stored r) else kv_get s k)"
  by (simp add: kv_get_def kv_put_def lookup_replace)

lemma drops_dead_refl [simp]: "drops_dead now s s"
  by (simp add: drops_dead_def)

lemma drops_dead_meta [simp]: "drops_dead now s (s1\<lparr>ls_meta := m\<rparr>) = drops_dead now s s1"
  by (simp add: drops_dead_def)

text \<open>The record a granted claim leaves.\<close>

definition attempt_record :: "ledger_options \<Rightarrow> int \<Rightarrow> string \<Rightarrow> string \<Rightarrow> string
    \<Rightarrow> delivery_record option \<Rightarrow> delivery_record" where
  "attempt_record cfg now uuid d fp existing =
     (case existing of
        Some r \<Rightarrow> r\<lparr>dr_state := Attempting uuid\<rparr>
      | None \<Rightarrow> \<lparr>dr_state = Attempting uuid, dr_deliveryId = d, dr_requestFingerprint = fp,
                dr_createdAt = now, dr_expiresAt = now + lo_retentionMs cfg\<rparr>)"

lemma claimFromExisting_settled:
  "dr_state r \<noteq> Retryable \<Longrightarrow> \<exists>sr. claimFromExisting r = Inr (NotClaimed sr)"
  by (cases "dr_state r") (simp_all add: claimFromExisting_def)

lemma claim_effect:
  assumes inv: "ledger_inv cfg s" and c: "claim cfg now uuid d fp s = (s', res)"
  obtains (granted) s1 where "res = Inr (Claimed uuid)" "fingerprint_valid fp" "validateDeliveryId d = None"
      "case live_at now d s of None \<Rightarrow> True | Some r \<Rightarrow> dr_state r = Retryable \<and> dr_requestFingerprint r = fp"
      "drops_dead now s s1"
      "\<And>k. kv_get s' k = (if k = recordKey d
           then Some (Stored (attempt_record cfg now uuid d fp (live_at now d s))) else kv_get s1 k)"
    | (refused) "\<And>u. res \<noteq> Inr (Claimed u)" "drops_dead now s s'"
proof (cases "validateDeliveryId d = None \<and> fingerprint_valid fp")
  case False
  with c have "s' = s" "\<And>u. res \<noteq> Inr (Claimed u)"
    by (auto simp: claim_def refuse_def split: option.splits if_splits)
  then show thesis by (intro refused) auto
next
  case True
  obtain s1 m ex where r: "claim_read cfg now d s = (s1, m, ex)" by (cases "claim_read cfg now d s")
  note spec = claim_read_spec [OF inv r]
  show thesis
  proof (cases "live_at now d s")
    case None
    with spec have "ex = None" by simp
    show thesis
    proof (cases "lm_count m \<ge> lo_maxRecords cfg")
      case True
      with c r \<open>validateDeliveryId d = None \<and> fingerprint_valid fp\<close> \<open>ex = None\<close>
      have "s' = s1\<lparr>ls_meta := Some m\<rparr>" "\<And>u. res \<noteq> Inr (Claimed u)"
        by (auto simp: claim_def refuse_def)
      with spec show thesis by (intro refused) auto
    next
      case False
      with c r True \<open>ex = None\<close> have "res = Inr (Claimed uuid)"
        and "s' = (kv_put (recordKey d) (attempt_record cfg now uuid d fp None) s1)
                    \<lparr>ls_meta := Some (m\<lparr>lm_count := lm_count m + 1\<rparr>)\<rparr>"
        by (auto simp: claim_def attempt_record_def)
      with spec True None show thesis by (intro granted [of s1]) (auto simp: kv_get_put)
    qed
  next
    case (Some r0)
    with spec have ex: "ex = Some r0" by simp
    show thesis
    proof (cases "dr_requestFingerprint r0 = fp \<and> dr_state r0 = Retryable")
      case match: True
      with c r True ex have "res = Inr (Claimed uuid)"
        and "s' = (kv_put (recordKey d) (attempt_record cfg now uuid d fp (Some r0)) s1)\<lparr>ls_meta := Some m\<rparr>"
        by (auto simp: claim_def attempt_record_def)
      with spec True Some match show thesis by (intro granted [of s1]) (auto simp: kv_get_put)
    next
      case False
      have "s' = s1\<lparr>ls_meta := Some m\<rparr> \<and> (\<forall>u. res \<noteq> Inr (Claimed u))"
      proof (cases "dr_requestFingerprint r0 = fp")
        case same: True
        with False claimFromExisting_settled obtain sr where "claimFromExisting r0 = Inr (NotClaimed sr)"
          by blast
        with c r True ex same False show ?thesis by (auto simp: claim_def)
      next
        case False
        with c r True ex show ?thesis by (auto simp: claim_def refuse_def)
      qed
      with spec show thesis by (intro refused) auto
    qed
  qed
qed

lemma claim_inv:
  assumes inv: "ledger_inv cfg s"
  shows "ledger_inv cfg (fst (claim cfg now uuid d fp s))"
proof -
  obtain s1 m ex where r: "claim_read cfg now d s = (s1, m, ex)" by (cases "claim_read cfg now d s")
  from claim_read_spec [OF inv r] have ok: "ledger_rows_ok (ls_records s1)"
    and n: "lm_count m = int (length (ls_records s1))" and le: "length (ls_records s1) \<le> length (ls_records s)"
    and get: "kv_get s1 (recordKey d) = map_option Stored ex" by auto
  from ok have keyed: "keyed fst (ls_records s1)" by (simp add: ledger_rows_ok_def)
  from inv le have max: "int (length (ls_records s1)) \<le> lo_maxRecords cfg" by (simp add: ledger_inv_def)
  have keep: "ledger_inv cfg (s1\<lparr>ls_meta := Some m\<rparr>)"
    using ok n max by (simp add: ledger_inv_def)
  have id: "ex = Some r0 \<Longrightarrow> dr_deliveryId r0 = d" for r0
  proof -
    assume "ex = Some r0"
    with get have "(recordKey d, Stored r0) \<in> set (ls_records s1)"
      by (auto simp: kv_get_def dest!: lookup_Some)
    with ok have "recordKey d = recordKey (dr_deliveryId r0)" by (simp add: ledger_rows_ok_def)
    then show ?thesis by simp
  qed
  have put: "ledger_inv cfg ((kv_put (recordKey d) r' s1)\<lparr>ls_meta := Some m'\<rparr>)"
    if "dr_deliveryId r' = d" "lm_count m' = int (length (ls_records (kv_put (recordKey d) r' s1)))"
      "lm_count m' \<le> lo_maxRecords cfg" for r' m'
    using that rows_ok_put [OF ok, of r'] by (simp add: ledger_inv_def kv_put_def)
  have len: "length (ls_records (kv_put (recordKey d) r' s1)) = length (ls_records s1) + (if ex = None then 1 else 0)" for r'
    using replace_length [OF keyed, of "recordKey d"] get by (cases ex) (auto simp: kv_put_def kv_get_def)
  have retry: "ledger_inv cfg ((kv_put (recordKey d) (r0\<lparr>dr_state := Attempting uuid\<rparr>) s1)\<lparr>ls_meta := Some m\<rparr>)"
    if "ex = Some r0" for r0
    by (rule put) (use that id [OF that] len n max in simp_all)
  have fresh: "ledger_inv cfg ((kv_put (recordKey d)
                  \<lparr>dr_state = Attempting uuid, dr_deliveryId = d, dr_requestFingerprint = fp,
                   dr_createdAt = now, dr_expiresAt = now + lo_retentionMs cfg\<rparr> s1)
                  \<lparr>ls_meta := Some (m\<lparr>lm_count := lm_count m + 1\<rparr>)\<rparr>)"
    if "ex = None" "\<not> lm_count m \<ge> lo_maxRecords cfg"
    by (rule put) (use that len n in simp_all)
  show ?thesis
    using inv keep retry fresh by (simp add: claim_def r split: option.split sum.split)
qed

lemma replaceAttempt_get:
  "kv_get (replaceAttempt d a st s) k =
     (case isMatchingAttempt (kv_get s (recordKey d)) a of
        None \<Rightarrow> kv_get s k
      | Some r \<Rightarrow> if k = recordKey d then Some (Stored (r\<lparr>dr_state := st, dr_deliveryId := d\<rparr>)) else kv_get s k)"
  by (simp add: replaceAttempt_def kv_get_put split: option.split)

lemma isMatchingAttempt_Some:
  "isMatchingAttempt v a = Some r \<longleftrightarrow> v = Some (Stored r) \<and> dr_state r = Attempting a"
  by (auto simp: isMatchingAttempt_def split: option.splits stored.splits if_splits)

lemma replaceAttempt_inv:
  assumes "ledger_inv cfg s"
  shows "ledger_inv cfg (replaceAttempt d a st s)"
proof (cases "isMatchingAttempt (kv_get s (recordKey d)) a")
  case (Some r)
  then have "sql_lookup fst (ls_records s) (recordKey d) \<noteq> None"
    by (auto simp: isMatchingAttempt_Some kv_get_def)
  moreover from assms have ok: "ledger_rows_ok (ls_records s)" and "keyed fst (ls_records s)"
    by (simp_all add: ledger_inv_def ledger_rows_ok_def)
  ultimately have "length (sql_replace fst (recordKey d, v) (ls_records s)) = length (ls_records s)" for v
    by (simp add: replace_length)
  with assms Some rows_ok_put [OF ok, of "r\<lparr>dr_state := st, dr_deliveryId := d\<rparr>"] show ?thesis
    by (simp add: replaceAttempt_def ledger_inv_def kv_put_def)
qed (simp add: replaceAttempt_def assms)

lemma ledger_step_inv: "ledger_inv cfg s \<Longrightarrow> ledger_inv cfg (ledger_step cfg e s)"
  by (cases e) (simp_all add: claim_inv replaceAttempt_inv succeed_def failAmbiguous_def
      failPermanent_def releaseRetryable_def)

section \<open>At most one grant\<close>

fun claims_within :: "int \<Rightarrow> int \<Rightarrow> ledger_event \<Rightarrow> bool" where
  "claims_within t0 t1 (EClaim now _ _ _) = (t0 \<le> now \<and> now < t1)"
| "claims_within t0 t1 _ = True"

definition delivery_free :: "string \<Rightarrow> ledger_storage \<Rightarrow> bool" where
  "delivery_free d s =
     (case kv_get s (recordKey d) of Some (Stored r) \<Rightarrow> dr_state r = Retryable | _ \<Rightarrow> True)"

text \<open>The record of the id, if any, is well formed and lives until \<open>t1\<close>.\<close>

definition outlives :: "ledger_options \<Rightarrow> int \<Rightarrow> string \<Rightarrow> ledger_storage \<Rightarrow> bool" where
  "outlives cfg t1 d s \<longleftrightarrow> ledger_inv cfg s \<and>
     (case kv_get s (recordKey d) of None \<Rightarrow> True | Some Foreign \<Rightarrow> False
      | Some (Stored r) \<Rightarrow> fingerprint_valid (dr_requestFingerprint r) \<and> t1 \<le> dr_expiresAt r)"

lemma outlives_live:
  "outlives cfg t1 d s \<Longrightarrow> now < t1 \<Longrightarrow> map_option Stored (live_at now d s) = kv_get s (recordKey d)"
  by (auto simp: outlives_def live_at_def live_record_def isDeliveryRecord_def
      split: option.splits stored.splits)

lemma outlives_drops:
  "outlives cfg t1 d s \<Longrightarrow> now < t1 \<Longrightarrow> drops_dead now s s' \<Longrightarrow>
     kv_get s' (recordKey d) = kv_get s (recordKey d)"
proof -
  assume out: "outlives cfg t1 d s" and now: "now < t1" and drop: "drops_dead now s s'"
  from outlives_live [OF out now] have "kv_get s (recordKey d) = Some v \<Longrightarrow> live_record now v \<noteq> None" for v
    by (auto simp: live_at_def)
  with drop show ?thesis unfolding drops_dead_def by metis
qed

lemma claim_own_record:
  assumes out: "outlives cfg t1 d s" and now: "now < t1" and c: "claim cfg now uuid d' fp s = (s', res)"
  shows "kv_get s' (recordKey d) =
           (if d' = d \<and> res = Inr (Claimed uuid)
            then Some (Stored (attempt_record cfg now uuid d fp (live_at now d s)))
            else kv_get s (recordKey d))
       \<and> (d' = d \<and> res = Inr (Claimed uuid) \<longrightarrow> delivery_free d s \<and> fingerprint_valid fp)
       \<and> (\<forall>u. res = Inr (Claimed u) \<longrightarrow> u = uuid)"
proof -
  from out have inv: "ledger_inv cfg s" by (simp add: outlives_def)
  from inv c show ?thesis
  proof (cases rule: claim_effect)
    case (granted s1)
    have "kv_get s1 (recordKey d) = kv_get s (recordKey d)"
      by (rule outlives_drops [OF out now granted(5)])
    moreover have "d' = d \<Longrightarrow> delivery_free d s"
      using granted(4) outlives_live [OF out now]
      by (auto simp: delivery_free_def split: option.splits)
    ultimately show ?thesis using granted by auto
  next
    case refused
    with outlives_drops [OF out now refused(2)] show ?thesis by auto
  qed
qed

lemma outlives_claim:
  assumes out: "outlives cfg t1 d s" and now: "t1 \<le> now + lo_retentionMs cfg" "now < t1"
  shows "outlives cfg t1 d (fst (claim cfg now uuid d' fp s))"
proof -
  obtain s' res where c: "claim cfg now uuid d' fp s = (s', res)" by (cases "claim cfg now uuid d' fp s")
  from out have inv: "ledger_inv cfg s" by (simp add: outlives_def)
  have inv': "ledger_inv cfg s'" using claim_inv [OF inv, of now uuid d' fp] c by simp
  note own = claim_own_record [OF out now(2) c]
  show ?thesis
  proof (cases "d' = d \<and> res = Inr (Claimed uuid)")
    case True
    with own have get: "kv_get s' (recordKey d) = Some (Stored (attempt_record cfg now uuid d fp (live_at now d s)))"
      and fp: "fingerprint_valid fp" by simp_all
    have "fingerprint_valid (dr_requestFingerprint (attempt_record cfg now uuid d fp (live_at now d s)))
        \<and> t1 \<le> dr_expiresAt (attempt_record cfg now uuid d fp (live_at now d s))"
    proof (cases "live_at now d s")
      case None
      with fp now show ?thesis by (simp add: attempt_record_def)
    next
      case (Some r)
      with outlives_live [OF out now(2)] have "kv_get s (recordKey d) = Some (Stored r)" by simp
      with out Some show ?thesis by (simp add: outlives_def attempt_record_def)
    qed
    with inv' get c show ?thesis by (simp add: outlives_def)
  next
    case False
    with own have "kv_get s' (recordKey d) = kv_get s (recordKey d)" by simp
    with inv' out c show ?thesis by (simp add: outlives_def)
  qed
qed

lemma outlives_replace:
  assumes "outlives cfg t1 d s"
  shows "outlives cfg t1 d (replaceAttempt d' a st s)"
  using assms replaceAttempt_inv [of cfg s d' a st]
  by (auto simp: outlives_def replaceAttempt_get isMatchingAttempt_Some split: option.split stored.split)

lemma free_replace:
  "\<not> delivery_free d s \<Longrightarrow> (d' = d \<longrightarrow> st \<noteq> Retryable) \<Longrightarrow> \<not> delivery_free d (replaceAttempt d' a st s)"
  by (auto simp: delivery_free_def replaceAttempt_get split: option.splits stored.splits if_splits)

lemmas settle_defs = succeed_def failAmbiguous_def failPermanent_def releaseRetryable_def

interpretation ledger: handover "ledger_step cfg"
    "claims_within (t1 - lo_retentionMs cfg) t1" "outlives cfg t1 d" "delivery_free d"
    "claim_granted cfg d" "\<lambda>e s. is_release d e" for cfg t1 d
proof unfold_locales
  fix s e assume "outlives cfg t1 d s" "claims_within (t1 - lo_retentionMs cfg) t1 e"
  then show "outlives cfg t1 d (ledger_step cfg e s)"
    by (cases e) (simp_all add: outlives_claim outlives_replace settle_defs)
next
  fix s e
  assume out: "outlives cfg t1 d s" and adm: "claims_within (t1 - lo_retentionMs cfg) t1 e"
    and grant: "claim_granted cfg d e s"
  then obtain now uuid fp u where e: "e = EClaim now uuid d fp"
    and u: "snd (claim cfg now uuid d fp s) = Inr (Claimed u)"
    by (cases e) (auto split: sum.splits delivery_claim.splits)
  obtain s' res where c: "claim cfg now uuid d fp s = (s', res)" by (cases "claim cfg now uuid d fp s")
  from adm e have now: "now < t1" by simp
  from claim_own_record [OF out now c] u c
  have "delivery_free d s" "kv_get s' (recordKey d)
      = Some (Stored (attempt_record cfg now uuid d fp (live_at now d s)))" by auto
  then show "delivery_free d s \<and> \<not> delivery_free d (ledger_step cfg e s)"
    using e c by (simp add: delivery_free_def attempt_record_def split: option.split)
next
  fix s e
  assume out: "outlives cfg t1 d s" and adm: "claims_within (t1 - lo_retentionMs cfg) t1 e"
    and taken: "\<not> delivery_free d s" and no: "\<not> is_release d e"
  show "\<not> delivery_free d (ledger_step cfg e s)"
  proof (cases e)
    case (EClaim now uuid d' fp)
    obtain s' res where c: "claim cfg now uuid d' fp s = (s', res)" by (cases "claim cfg now uuid d' fp s")
    from adm EClaim have "now < t1" by simp
    note own = claim_own_record [OF out this c]
    with taken have "\<not> (d' = d \<and> res = Inr (Claimed uuid))" by blast
    with own have "kv_get s' (recordKey d) = kv_get s (recordKey d)" by simp
    with taken EClaim c show ?thesis by (simp add: delivery_free_def)
  qed (use no taken in \<open>simp_all add: settle_defs free_replace\<close>)
qed

subsection \<open>A settled record stays\<close>

fun settled :: "delivery_state \<Rightarrow> bool" where
  "settled (Attempting _) = False"
| "settled Retryable = False"
| "settled _ = True"

fun claims_before :: "int \<Rightarrow> ledger_event \<Rightarrow> bool" where
  "claims_before t1 (EClaim now _ _ _) = (now < t1)"
| "claims_before t1 _ = True"

definition holds_settled :: "ledger_options \<Rightarrow> string \<Rightarrow> delivery_record \<Rightarrow> ledger_storage \<Rightarrow> bool" where
  "holds_settled cfg d r s \<longleftrightarrow> ledger_inv cfg s \<and> kv_get s (recordKey d) = Some (Stored r)
     \<and> fingerprint_valid (dr_requestFingerprint r) \<and> settled (dr_state r)"

lemma settled_outlives: "holds_settled cfg d r s \<Longrightarrow> outlives cfg (dr_expiresAt r) d s"
  by (simp add: holds_settled_def outlives_def)

lemma settled_not_free: "holds_settled cfg d r s \<Longrightarrow> \<not> delivery_free d s"
  by (cases "dr_state r") (simp_all add: holds_settled_def delivery_free_def)

lemma settled_step:
  assumes h: "holds_settled cfg d r s" and e: "claims_before (dr_expiresAt r) e"
  shows "holds_settled cfg d r (ledger_step cfg e s)"
proof -
  have "kv_get (ledger_step cfg e s) (recordKey d) = kv_get s (recordKey d)"
  proof (cases e)
    case (EClaim now uuid d' fp)
    obtain s' res where c: "claim cfg now uuid d' fp s = (s', res)" by (cases "claim cfg now uuid d' fp s")
    from e EClaim have "now < dr_expiresAt r" by simp
    note own = claim_own_record [OF settled_outlives [OF h] this c]
    with settled_not_free [OF h] have "\<not> (d' = d \<and> res = Inr (Claimed uuid))" by blast
    with own EClaim c show ?thesis by simp
  qed (use h in \<open>auto simp: holds_settled_def settle_defs replaceAttempt_get isMatchingAttempt_Some
         split: option.split\<close>)
  with h show ?thesis by (simp add: holds_settled_def ledger_step_inv)
qed

lemma settled_run:
  "holds_settled cfg d r s \<Longrightarrow> \<forall>e \<in> set es. claims_before (dr_expiresAt r) e \<Longrightarrow>
     holds_settled cfg d r (run_steps (ledger_step cfg) es s)"
  by (rule run_steps_invariant) (simp_all add: settled_step)

lemma claim_settled:
  assumes h: "holds_settled cfg d r s" and now: "now < dr_expiresAt r" and d: "validateDeliveryId d = None"
    and fp: "fingerprint_valid fp"
  shows "snd (claim cfg now uuid d fp s) =
           (if fp = dr_requestFingerprint r then claimFromExisting r
            else refuse ''deliveryId is already bound to a different outbound destination or content'' False)"
proof -
  obtain s1 m ex where read: "claim_read cfg now d s = (s1, m, ex)" by (cases "claim_read cfg now d s")
  from h have inv: "ledger_inv cfg s" by (simp add: holds_settled_def)
  from outlives_live [OF settled_outlives [OF h] now] h have "live_at now d s = Some r"
    by (simp add: holds_settled_def)
  with claim_read_spec [OF inv read] have ex: "ex = Some r" by simp
  from h obtain c where "claimFromExisting r = Inr c" "dr_state r \<noteq> Retryable"
    by (cases "dr_state r") (auto simp: holds_settled_def claimFromExisting_def)
  with d fp read ex show ?thesis by (simp add: claim_def)
qed

lemma settle_holds:
  assumes "ledger_inv cfg s" "kv_get s (recordKey d) = Some (Stored r)" "dr_state r = Attempting a"
    and "fingerprint_valid (dr_requestFingerprint r)" "settled st"
  shows "holds_settled cfg d (r\<lparr>dr_state := st, dr_deliveryId := d\<rparr>) (replaceAttempt d a st s)"
  using assms replaceAttempt_inv [OF assms(1), of d a st]
  by (simp add: holds_settled_def replaceAttempt_get isMatchingAttempt_def)

lemma claim_after_settling:
  assumes "ledger_inv cfg s" "kv_get s (recordKey d) = Some (Stored r)" "dr_state r = Attempting a"
    and "fingerprint_valid (dr_requestFingerprint r)" "validateDeliveryId d = None"
    and "\<forall>e \<in> set es. claims_before (dr_expiresAt r) e" "now < dr_expiresAt r" "settled st"
  shows "snd (claim cfg now uuid d (dr_requestFingerprint r) (run_steps (ledger_step cfg) es (replaceAttempt d a st s)))
       = claimFromExisting (r\<lparr>dr_state := st, dr_deliveryId := d\<rparr>)"
proof -
  let ?r = "r\<lparr>dr_state := st, dr_deliveryId := d\<rparr>"
  have "holds_settled cfg d ?r (run_steps (ledger_step cfg) es (replaceAttempt d a st s))"
    by (rule settled_run [OF settle_holds [OF assms(1-4,8)]]) (use assms(6) in simp)
  from claim_settled [OF this _ assms(5), of now "dr_requestFingerprint r" uuid] assms show ?thesis
    by simp
qed

section \<open>Properties\<close>

definition empty_ledger :: ledger_storage where
  "empty_ledger = \<lparr>ls_records = [], ls_meta = None\<rparr>"

text \<open>C22. From an empty ledger, through any claims and settlements, the ledger never holds more than
  \<open>maxRecords\<close> records, each lies under the key of its own delivery id and no id has two; and the
  counter \<open>claim\<close> trusts between prunes is the number of records.\<close>

theorem ledger_stays_within_capacity:
  assumes "0 < lo_maxRecords cfg"
  shows "let s = run_steps (ledger_step cfg) es empty_ledger
         in int (length (ls_records s)) \<le> lo_maxRecords cfg
          \<and> distinct (map fst (ls_records s))
          \<and> (\<forall>(key, v) \<in> set (ls_records s).
               case v of Foreign \<Rightarrow> True | Stored r \<Rightarrow> key = recordKey (dr_deliveryId r))
          \<and> (case ls_meta s of None \<Rightarrow> True
             | Some m \<Rightarrow> isDeliveryMeta (Some m) \<longrightarrow> lm_count m = int (length (ls_records s)))"
proof -
  let ?s = "run_steps (ledger_step cfg) es empty_ledger"
  have "ledger_inv cfg empty_ledger"
    using assms by (simp add: ledger_inv_def ledger_rows_ok_def empty_ledger_def)
  then have "ledger_inv cfg (run_steps (ledger_step cfg) es empty_ledger)"
    by (rule run_steps_invariant) (rule ledger_step_inv)
  then have inv: "ledger_rows_ok (ls_records ?s) \<and> int (length (ls_records ?s)) \<le> lo_maxRecords cfg
      \<and> (\<forall>m. ls_meta ?s = Some m \<and> isDeliveryMeta (Some m) \<longrightarrow> lm_count m = int (length (ls_records ?s)))"
    by (simp add: ledger_inv_def)
  then have "\<forall>(key, v) \<in> set (ls_records ?s).
       case v of Foreign \<Rightarrow> True | Stored r \<Rightarrow> key = recordKey (dr_deliveryId r)"
    by (auto simp: ledger_rows_ok_def split: stored.split)
  moreover have "case ls_meta ?s of None \<Rightarrow> True
      | Some m \<Rightarrow> isDeliveryMeta (Some m) \<longrightarrow> lm_count m = int (length (ls_records ?s))"
    using inv by (simp split: option.split)
  ultimately show ?thesis using inv by (simp add: Let_def ledger_rows_ok_def keyed_def)
qed

definition sample_ledger :: ledger_options where
  "sample_ledger = \<lparr>lo_retentionMs = 1000, lo_pruneIntervalMs = 10, lo_maxRecords = 1\<rparr>"

definition sample_fp :: string where
  "sample_fp = replicate 64 (CHR ''a'')"

theorem ledger_stays_within_capacity_witness:
  "let s = run_steps (ledger_step sample_ledger)
             [EClaim 5 ''u1'' ''d1'' sample_fp, EClaim 6 ''u2'' ''d2'' sample_fp,
              ESucceed ''d1'' ''u1'' None] empty_ledger
   in int (length (ls_records s)) \<le> 1"
  using ledger_stays_within_capacity [of sample_ledger "[EClaim 5 ''u1'' ''d1'' sample_fp,
      EClaim 6 ''u2'' ''d2'' sample_fp, ESucceed ''d1'' ''u1'' None]"]
  by (simp only: Let_def) (simp add: sample_ledger_def del: run_steps.simps)

text \<open>C21. Within one retention period of an id that has no record yet, whatever the order of claims,
  retries and settlements of any deliveries, the ledger hands the delivery to at most one caller
  more than it was explicitly released as retryable: without a release the provider is called at
  most once, even if the first caller crashed before it settled the attempt.\<close>

theorem delivery_granted_at_most_once:
  assumes "ledger_inv cfg s" and "kv_get s (recordKey d) = None"
    and "\<forall>e \<in> set es. claims_within t0 (t0 + lo_retentionMs cfg) e"
  shows "count_steps (ledger_step cfg) (claim_granted cfg d) es s \<le> 1 + length (filter (is_release d) es)"
proof -
  let ?t1 = "t0 + lo_retentionMs cfg"
  from assms have "outlives cfg ?t1 d s" by (simp add: outlives_def)
  then have "count_steps (ledger_step cfg) (claim_granted cfg d) es s
      \<le> (if delivery_free d s then 1 else 0) + count_steps (ledger_step cfg) (\<lambda>e s. is_release d e) es s"
    by (rule ledger.grants_bounded) (use assms(3) in simp)
  also have "count_steps (ledger_step cfg) (\<lambda>e s. is_release d e) es s = length (filter (is_release d) es)"
    by (rule count_steps_syntactic) simp
  finally show ?thesis by (simp split: if_splits)
qed

theorem delivery_granted_at_most_once_witness:
  "let es = [EClaim 5 ''u1'' ''d'' sample_fp, EClaim 6 ''u2'' ''d'' sample_fp,
             ERelease ''d'' ''u1'', EClaim 7 ''u3'' ''d'' sample_fp, EClaim 8 ''u4'' ''d'' sample_fp]
   in count_steps (ledger_step sample_ledger) (claim_granted sample_ledger ''d'') es empty_ledger \<le> 2"
proof -
  have "ledger_inv sample_ledger empty_ledger" "kv_get empty_ledger (recordKey ''d'') = None"
    by (simp_all add: ledger_inv_def ledger_rows_ok_def empty_ledger_def sample_ledger_def kv_get_def)
  from delivery_granted_at_most_once [OF this, of
      "[EClaim 5 ''u1'' ''d'' sample_fp, EClaim 6 ''u2'' ''d'' sample_fp,
        ERelease ''d'' ''u1'', EClaim 7 ''u3'' ''d'' sample_fp, EClaim 8 ''u4'' ''d'' sample_fp]" 0]
  show ?thesis by (simp add: sample_ledger_def Let_def del: count_steps.simps)
qed

text \<open>The holder of an attempt settles it once and for all: whatever claims of any deliveries and
  whatever late settlements or releases under any attempt id follow, as long as the record has not
  expired a claim of the same delivery with the same fingerprint is answered with the recorded
  outcome (sent and deduplicated, permanently failed, or ambiguous) and is not handed out.\<close>

theorem settled_outcome_is_final:
  assumes "ledger_inv cfg s" "kv_get s (recordKey d) = Some (Stored r)" "dr_state r = Attempting a"
    and "fingerprint_valid (dr_requestFingerprint r)" "validateDeliveryId d = None"
    and "\<forall>e \<in> set es. claims_before (dr_expiresAt r) e" "now < dr_expiresAt r"
  shows "snd (claim cfg now uuid d (dr_requestFingerprint r) (run_steps (ledger_step cfg) es (succeed d a (Some (c # m)) s)))
       = Inr (NotClaimed (SendOk (Some (js_truncate (c # m) MAX_MESSAGE_ID_LENGTH)) True))
       \<and> snd (claim cfg now uuid d (dr_requestFingerprint r) (run_steps (ledger_step cfg) es (failPermanent d a err s)))
       = Inr (NotClaimed (SendError \<lparr>se_error = js_truncate err MAX_ERROR_LENGTH,
           se_retryable = False, se_ambiguous = False\<rparr>))
       \<and> snd (claim cfg now uuid d (dr_requestFingerprint r) (run_steps (ledger_step cfg) es (failAmbiguous d a err s)))
       = Inr (NotClaimed (SendError \<lparr>se_error = js_truncate err MAX_ERROR_LENGTH,
           se_retryable = False, se_ambiguous = True\<rparr>))"
proof -
  have "js_truncate (c # m) MAX_MESSAGE_ID_LENGTH \<noteq> []"
    by (simp add: js_truncate_def MAX_MESSAGE_ID_LENGTH_def)
  then obtain c' m' where t: "js_truncate (c # m) MAX_MESSAGE_ID_LENGTH = c' # m'"
    by (cases "js_truncate (c # m) MAX_MESSAGE_ID_LENGTH") auto
  show ?thesis
    by (simp add: succeed_def failPermanent_def failAmbiguous_def claim_after_settling [OF assms]
        claimFromExisting_def t)
qed

definition sample_attempt :: delivery_record where
  "sample_attempt = \<lparr>dr_state = Attempting ''u1'', dr_deliveryId = ''d'', dr_requestFingerprint = sample_fp,
     dr_createdAt = 5, dr_expiresAt = 1005\<rparr>"

definition sample_held :: ledger_storage where
  "sample_held = \<lparr>ls_records = [(recordKey ''d'', Stored sample_attempt)],
     ls_meta = Some \<lparr>lm_count = 1, lm_nextPruneAt = 15\<rparr>\<rparr>"

theorem settled_outcome_is_final_witness:
  "snd (claim sample_ledger 9 ''u3'' ''d'' sample_fp (run_steps (ledger_step sample_ledger)
       [EClaim 7 ''u2'' ''d'' sample_fp, ERelease ''d'' ''u1'']
       (succeed ''d'' ''u1'' (Some (CHR ''m'' # ''1'')) sample_held)))
     = Inr (NotClaimed (SendOk (Some (js_truncate (CHR ''m'' # ''1'') MAX_MESSAGE_ID_LENGTH)) True))"
proof -
  have h: "ledger_inv sample_ledger sample_held"
    by (simp add: ledger_inv_def ledger_rows_ok_def keyed_def sample_held_def sample_attempt_def sample_ledger_def)
  have g: "kv_get sample_held (recordKey ''d'') = Some (Stored sample_attempt)"
    by (simp add: kv_get_def sample_held_def sql_lookup_def)
  have fp: "fingerprint_valid (dr_requestFingerprint sample_attempt)"
    by (simp add: fingerprint_valid_def sample_attempt_def sample_fp_def list_all_iff hex_lower_char_def)
  have d: "validateDeliveryId ''d'' = None" by code_simp
  have a: "dr_state sample_attempt = Attempting ''u1''" by (simp add: sample_attempt_def)
  have es: "\<forall>e \<in> set [EClaim 7 ''u2'' ''d'' sample_fp, ERelease ''d'' ''u1''].
      claims_before (dr_expiresAt sample_attempt) e" by (simp add: sample_attempt_def)
  have now: "9 < dr_expiresAt sample_attempt" by (simp add: sample_attempt_def)
  have "dr_requestFingerprint sample_attempt = sample_fp" by (simp add: sample_attempt_def)
  with settled_outcome_is_final [OF h g a fp d es now, of "''u3''" "CHR ''m''" "''1''"] show ?thesis
    by (simp only:)
qed

end
