(* ===== verification/IpcCalls.thy ===== *)
theory IpcCalls
  imports Delivery
begin

text \<open>
  Calls between processes (\<open>kernel/ipc-calls.ts\<close>, with the methods of \<open>kernel/do.ts\<close> that settle and
  deliver them). A call is a row of the table \<open>ipc_calls\<close>: pending until the target run finishes or
  the deadline passes, then completed or timed out, then its reply is claimed for delivery to the
  calling process and the row is removed. The \<open>response_json\<close> column is the JSON value it holds
  (\<open>undefined\<close> is stored as null); the delivery queue is represented by the order of the events.
\<close>

datatype ipc_status = IpcPending | IpcCompleted | IpcTimedOut

record ipc_call =
  ic_call_id :: string
  ic_uid :: int
  ic_source_pid :: string
  ic_source_run_id :: "string option"
  ic_target_pid :: string
  ic_target_run_id :: string
  ic_status :: ipc_status
  ic_deadline_at :: int
  ic_created_at :: int
  ic_updated_at :: int
  ic_response :: json
  ic_error :: "string option"
  ic_delivery_started_at :: "int option"

section \<open>The store\<close>

definition ipc_create :: "int \<Rightarrow> string \<Rightarrow> int \<Rightarrow> string \<Rightarrow> string option \<Rightarrow> string \<Rightarrow> string \<Rightarrow> int
    \<Rightarrow> ipc_call list \<Rightarrow> ipc_call list result" where
  "ipc_create now callId uid sourcePid sourceRunId targetPid targetRunId deadlineAt t =
     sql_insert ic_call_id
       \<lparr>ic_call_id = callId, ic_uid = uid, ic_source_pid = sourcePid, ic_source_run_id = sourceRunId,
        ic_target_pid = targetPid, ic_target_run_id = targetRunId, ic_status = IpcPending,
        ic_deadline_at = deadlineAt, ic_created_at = now, ic_updated_at = now, ic_response = JNull,
        ic_error = None, ic_delivery_started_at = None\<rparr> t"

definition cancelBySourceRun :: "int \<Rightarrow> string \<Rightarrow> string \<Rightarrow> ipc_call list \<Rightarrow> ipc_call list" where
  "cancelBySourceRun uid sourcePid sourceRunId =
     sql_delete (\<lambda>r. ic_uid r = uid \<and> ic_source_pid r = sourcePid \<and> ic_source_run_id r = Some sourceRunId)"

definition cancelBySourcePid :: "int \<Rightarrow> string \<Rightarrow> ipc_call list \<Rightarrow> ipc_call list" where
  "cancelBySourcePid uid sourcePid = sql_delete (\<lambda>r. ic_uid r = uid \<and> ic_source_pid r = sourcePid)"

definition ipc_remove :: "string \<Rightarrow> ipc_call list \<Rightarrow> ipc_call list" where
  "ipc_remove callId = sql_delete (\<lambda>r. ic_call_id r = callId)"

definition run_awaited :: "int \<Rightarrow> int \<Rightarrow> string \<Rightarrow> string \<Rightarrow> ipc_call \<Rightarrow> bool" where
  "run_awaited now uid targetPid runId r \<longleftrightarrow>
     ic_uid r = uid \<and> ic_target_pid r = targetPid \<and> ic_target_run_id r = runId
     \<and> ic_status r = IpcPending \<and> ic_deadline_at r > now"

definition completeByRun :: "int \<Rightarrow> int \<Rightarrow> string \<Rightarrow> string \<Rightarrow> json \<Rightarrow> string option \<Rightarrow> ipc_call list
    \<Rightarrow> ipc_call list \<times> string list" where
  "completeByRun now uid targetPid runId response err t =
     (sql_update (run_awaited now uid targetPid runId)
        (\<lambda>r. r\<lparr>ic_status := IpcCompleted, ic_response := response, ic_error := err, ic_updated_at := now\<rparr>) t,
      map ic_call_id (filter (run_awaited now uid targetPid runId) t))"

definition target_awaited :: "int \<Rightarrow> string \<Rightarrow> ipc_call \<Rightarrow> bool" where
  "target_awaited uid targetPid r \<longleftrightarrow> ic_uid r = uid \<and> ic_target_pid r = targetPid \<and> ic_status r = IpcPending"

definition failByTargetPid :: "int \<Rightarrow> int \<Rightarrow> string \<Rightarrow> string \<Rightarrow> ipc_call list
    \<Rightarrow> ipc_call list \<times> string list" where
  "failByTargetPid now uid targetPid err t =
     (sql_update (target_awaited uid targetPid)
        (\<lambda>r. r\<lparr>ic_status := IpcCompleted, ic_response := JNull, ic_error := Some err, ic_updated_at := now\<rparr>) t,
      map ic_call_id (filter (target_awaited uid targetPid) t))"

definition overdue :: "int \<Rightarrow> string \<Rightarrow> ipc_call \<Rightarrow> bool" where
  "overdue now callId r \<longleftrightarrow> ic_call_id r = callId \<and> ic_status r = IpcPending \<and> ic_deadline_at r \<le> now"

definition ipc_timeout :: "int \<Rightarrow> string \<Rightarrow> ipc_call list \<Rightarrow> ipc_call list \<times> bool" where
  "ipc_timeout now callId t =
     (sql_update (overdue now callId)
        (\<lambda>r. r\<lparr>ic_status := IpcTimedOut, ic_error := Some ''IPC call timed out'', ic_updated_at := now\<rparr>) t,
      list_ex (overdue now callId) t)"

definition finished :: "ipc_call \<Rightarrow> bool" where
  "finished r \<longleftrightarrow> ic_status r \<in> {IpcCompleted, IpcTimedOut}"

definition claimable :: "string \<Rightarrow> ipc_call \<Rightarrow> bool" where
  "claimable callId r \<longleftrightarrow> ic_call_id r = callId \<and> finished r \<and> ic_delivery_started_at r = None"

definition claimDelivery :: "int \<Rightarrow> string \<Rightarrow> ipc_call list \<Rightarrow> ipc_call list \<times> ipc_call option" where
  "claimDelivery now callId t =
     (let claimed = (\<lambda>r. r\<lparr>ic_delivery_started_at := Some now, ic_updated_at := now\<rparr>)
      in (sql_update (claimable callId) claimed t,
          case filter (claimable callId) t of [] \<Rightarrow> None | r # _ \<Rightarrow> Some (claimed r)))"

definition releaseDelivery :: "int \<Rightarrow> string \<Rightarrow> ipc_call list \<Rightarrow> ipc_call list" where
  "releaseDelivery now callId =
     sql_update (\<lambda>r. ic_call_id r = callId \<and> finished r)
       (\<lambda>r. r\<lparr>ic_delivery_started_at := None, ic_updated_at := now\<rparr>)"

definition recoverDeliveryIds :: "ipc_call list \<Rightarrow> ipc_call list \<times> string list" where
  "recoverDeliveryIds t =
     (sql_update finished (\<lambda>r. r\<lparr>ic_delivery_started_at := None\<rparr>) t, map ic_call_id (filter finished t))"

definition ipc_get :: "ipc_call list \<Rightarrow> string \<Rightarrow> ipc_call option" where
  "ipc_get t callId = sql_lookup ic_call_id t callId"

section \<open>Settling and delivering\<close>

definition extractRunId :: "json option \<Rightarrow> string option" where
  "extractRunId payload =
     (case json_string (case payload of None \<Rightarrow> None | Some p \<Rightarrow> json_get p ''runId'') of
        Some m \<Rightarrow> if js_trim m \<noteq> [] then Some m else None | None \<Rightarrow> None)"

definition run_error :: "string \<Rightarrow> string option \<Rightarrow> string option \<Rightarrow> string option" where
  "run_error status reason err =
     (case err of
        Some e \<Rightarrow> Some e
      | None \<Rightarrow>
          if status = ''aborted''
          then Some (''Target run was aborted'' @ (case reason of Some (c # cs) \<Rightarrow> '': '' @ c # cs | _ \<Rightarrow> []))
          else if status = ''error'' then Some ''Target run failed''
          else None)"

text \<open>A process signal: the end of a run answers the calls that await it, and an aborted run also
  cancels the calls it made. \<open>getOwnerUid\<close> is the process registry's lookup.\<close>

definition completeIpcCallsForProcessSignal :: "(string \<Rightarrow> int option) \<Rightarrow> int \<Rightarrow> string \<Rightarrow> string
    \<Rightarrow> json option \<Rightarrow> ipc_call list \<Rightarrow> ipc_call list \<times> string list" where
  "completeIpcCallsForProcessSignal getOwnerUid now processId sig payload t =
     (if sig \<noteq> ''proc.run.finished'' then (t, [])
      else case extractRunId payload of
        None \<Rightarrow> (t, [])
      | Some runId \<Rightarrow>
     (case getOwnerUid processId of
        None \<Rightarrow> (t, [])
      | Some ownerUid \<Rightarrow>
          (let p = coalesce payload (JObj []);
               response = JObj [(''text'', case json_string (json_get p ''text'') of Some x \<Rightarrow> JStr x | None \<Rightarrow> JNull),
                                (''usage'', coalesce (json_get p ''usage'') JNull)];
               status = coalesce (json_string (json_get p ''status'')) ''ok'';
               reason = json_string (json_get p ''reason'');
               err = run_error status reason (json_string (json_get p ''error''));
               t1 = (if status = ''aborted'' then cancelBySourceRun ownerUid processId runId t else t)
           in completeByRun now ownerUid processId runId response err t1)))"

datatype ipc_event =
    IpcCreate int string int string "string option" string string int
  | IpcRunEnds int int string string json "string option"
  | IpcRunAborts int string string
  | IpcTargetGone int int string string
  | IpcDeadline int string
  | IpcClaim int string
  | IpcDelivered string
  | IpcDeliveryFailed int string
  | IpcRestart
  | IpcKillSource int string

text \<open>The end of a run is one step, preceded by another when the run was aborted.
  \<open>deliverIpcCall\<close> is two steps, the claim and what follows the attempt to send: a sent reply
  removes the call, a failed one releases it.\<close>

fun ipc_step :: "ipc_event \<Rightarrow> ipc_call list \<Rightarrow> ipc_call list" where
  "ipc_step (IpcCreate now callId uid sp sr tp tr deadline) t =
     (case ipc_create now callId uid sp sr tp tr deadline t of Inl _ \<Rightarrow> t | Inr t' \<Rightarrow> t')"
| "ipc_step (IpcRunEnds now uid pid run response err) t = fst (completeByRun now uid pid run response err t)"
| "ipc_step (IpcRunAborts uid pid run) t = cancelBySourceRun uid pid run t"
| "ipc_step (IpcTargetGone now uid pid err) t = fst (failByTargetPid now uid pid err t)"
| "ipc_step (IpcDeadline now callId) t = fst (ipc_timeout now callId t)"
| "ipc_step (IpcClaim now callId) t = fst (claimDelivery now callId t)"
| "ipc_step (IpcDelivered callId) t = ipc_remove callId t"
| "ipc_step (IpcDeliveryFailed now callId) t = releaseDelivery now callId t"
| "ipc_step IpcRestart t = fst (recoverDeliveryIds t)"
| "ipc_step (IpcKillSource uid pid) t = cancelBySourcePid uid pid t"

lemmas ipc_defs = ipc_create_def cancelBySourceRun_def cancelBySourcePid_def ipc_remove_def
  completeByRun_def failByTargetPid_def ipc_timeout_def claimDelivery_def releaseDelivery_def
  recoverDeliveryIds_def

section \<open>One row\<close>

lemma ipc_step_keyed: "keyed ic_call_id t \<Longrightarrow> keyed ic_call_id (ipc_step e t)"
  by (cases e) (auto simp: ipc_defs Let_def intro!: keyed_update dest: keyed_insert split: sum.split)

text \<open>What a step makes of the row of one call.\<close>

fun row_step :: "ipc_event \<Rightarrow> ipc_call \<Rightarrow> ipc_call option" where
  "row_step (IpcCreate _ _ _ _ _ _ _ _) r = Some r"
| "row_step (IpcRunEnds now uid pid run response err) r =
     Some (if run_awaited now uid pid run r
           then r\<lparr>ic_status := IpcCompleted, ic_response := response, ic_error := err, ic_updated_at := now\<rparr>
           else r)"
| "row_step (IpcRunAborts uid pid run) r =
     (if ic_uid r = uid \<and> ic_source_pid r = pid \<and> ic_source_run_id r = Some run then None else Some r)"
| "row_step (IpcTargetGone now uid pid err) r =
     Some (if target_awaited uid pid r
           then r\<lparr>ic_status := IpcCompleted, ic_response := JNull, ic_error := Some err, ic_updated_at := now\<rparr>
           else r)"
| "row_step (IpcDeadline now callId) r =
     Some (if overdue now callId r
           then r\<lparr>ic_status := IpcTimedOut, ic_error := Some ''IPC call timed out'', ic_updated_at := now\<rparr>
           else r)"
| "row_step (IpcClaim now callId) r =
     Some (if claimable callId r then r\<lparr>ic_delivery_started_at := Some now, ic_updated_at := now\<rparr> else r)"
| "row_step (IpcDelivered callId) r = (if ic_call_id r = callId then None else Some r)"
| "row_step (IpcDeliveryFailed now callId) r =
     Some (if ic_call_id r = callId \<and> finished r
           then r\<lparr>ic_delivery_started_at := None, ic_updated_at := now\<rparr> else r)"
| "row_step IpcRestart r = Some (if finished r then r\<lparr>ic_delivery_started_at := None\<rparr> else r)"
| "row_step (IpcKillSource uid pid) r = (if ic_uid r = uid \<and> ic_source_pid r = pid then None else Some r)"

fun creates :: "string \<Rightarrow> ipc_event \<Rightarrow> bool" where
  "creates k (IpcCreate _ callId _ _ _ _ _ _) = (callId = k)"
| "creates k _ = False"

lemma create_keeps_row:
  assumes "ipc_get t k = Some r"
  shows "ipc_get (ipc_step (IpcCreate now callId uid sp sr tp tr deadline) t) k = Some r"
proof (cases "ipc_create now callId uid sp sr tp tr deadline t")
  case (Inr t')
  then have no: "\<forall>x \<in> set t. ic_call_id x \<noteq> callId"
    by (auto simp: ipc_create_def sql_insert_def list_ex_iff split: if_splits)
  from assms have "r \<in> set t" "ic_call_id r = k" by (auto simp: ipc_get_def dest: lookup_Some)
  with no have "k \<noteq> callId" by auto
  with Inr assms show ?thesis by (auto simp: ipc_get_def ipc_create_def lookup_insert)
qed (simp add: assms)

lemma ipc_step_row:
  assumes "keyed ic_call_id t" "ipc_get t k = Some r"
  shows "ipc_get (ipc_step e t) k = row_step e r"
proof (cases e)
  case (IpcCreate now callId uid sp sr tp tr deadline)
  with create_keeps_row [OF assms(2)] show ?thesis by simp
qed (use assms lookup_Some [of ic_call_id t k r] in \<open>simp_all add: ipc_get_def ipc_defs Let_def
      lookup_update lookup_delete lookup_delete_key\<close>)

lemma ipc_step_absent:
  assumes "keyed ic_call_id t" "ipc_get t k = None" "\<not> creates k e"
  shows "ipc_get (ipc_step e t) k = None"
proof (cases e)
  case (IpcCreate now callId uid sp sr tp tr deadline)
  with assms show ?thesis
    by (cases "ipc_create now callId uid sp sr tp tr deadline t")
       (auto simp: ipc_get_def ipc_create_def lookup_insert)
qed (use assms in \<open>simp_all add: ipc_get_def ipc_defs Let_def lookup_update lookup_delete\<close>)

text \<open>The signal handler, as steps.\<close>

lemma signal_is_steps:
  obtains "fst (completeIpcCallsForProcessSignal owner now pid sig payload t) = t"
  | uid run response err where "owner pid = Some uid" "extractRunId payload = Some run"
      "fst (completeIpcCallsForProcessSignal owner now pid sig payload t)
         = run_steps ipc_step [IpcRunEnds now uid pid run response err] t"
  | uid run response err where "owner pid = Some uid" "extractRunId payload = Some run"
      "fst (completeIpcCallsForProcessSignal owner now pid sig payload t)
         = run_steps ipc_step [IpcRunAborts uid pid run, IpcRunEnds now uid pid run response err] t"
proof (cases "sig = ''proc.run.finished''")
  case sig: True
  show thesis
  proof (cases "extractRunId payload")
    case run: (Some run)
    show thesis
    proof (cases "owner pid")
      case (Some uid)
      have "\<exists>aborted response err. completeIpcCallsForProcessSignal owner now pid sig payload t
          = completeByRun now uid pid run response err (if aborted then cancelBySourceRun uid pid run t else t)"
        unfolding completeIpcCallsForProcessSignal_def Let_def sig run Some
        by (simp only: option.case simp_thms if_False) (intro exI, rule refl)
      then obtain aborted response err where eq: "completeIpcCallsForProcessSignal owner now pid sig payload t
          = completeByRun now uid pid run response err (if aborted then cancelBySourceRun uid pid run t else t)"
        by blast
      show thesis
        by (cases aborted) (use eq that(2,3) [OF Some run] in auto)
    qed (use run sig that(1) in \<open>simp add: completeIpcCallsForProcessSignal_def\<close>)
  qed (use sig that(1) in \<open>simp add: completeIpcCallsForProcessSignal_def\<close>)
qed (use that(1) in \<open>simp add: completeIpcCallsForProcessSignal_def\<close>)

lemma ipc_run_keyed: "keyed ic_call_id t \<Longrightarrow> keyed ic_call_id (run_steps ipc_step es t)"
  by (rule run_steps_invariant [where I = "keyed ic_call_id"]) (simp_all add: ipc_step_keyed)

lemma ipc_run_absent:
  "keyed ic_call_id t \<Longrightarrow> ipc_get t k = None \<Longrightarrow> \<forall>e \<in> set es. \<not> creates k e \<Longrightarrow>
     ipc_get (run_steps ipc_step es t) k = None"
  by (induction es arbitrary: t) (simp_all add: ipc_step_absent ipc_step_keyed)

text \<open>The part of a row no step changes once the call has an outcome.\<close>

definition ipc_request :: "ipc_call \<Rightarrow> string \<times> int \<times> string \<times> string option \<times> string \<times> string \<times> int" where
  "ipc_request r = (ic_call_id r, ic_uid r, ic_source_pid r, ic_source_run_id r, ic_target_pid r,
     ic_target_run_id r, ic_deadline_at r)"

definition ipc_outcome :: "ipc_call \<Rightarrow> ipc_status \<times> json \<times> string option" where
  "ipc_outcome r = (ic_status r, ic_response r, ic_error r)"

lemma row_step_request: "row_step e r = Some r' \<Longrightarrow> ipc_request r' = ipc_request r"
  by (cases e) (auto simp: ipc_request_def split: if_splits)

lemma row_step_outcome: "finished r \<Longrightarrow> row_step e r = Some r' \<Longrightarrow> ipc_outcome r' = ipc_outcome r \<and> finished r'"
  by (cases e) (auto simp: ipc_outcome_def finished_def run_awaited_def target_awaited_def overdue_def
      split: if_splits)

lemma finished_outcome: "ipc_outcome r' = ipc_outcome r \<Longrightarrow> finished r' = finished r"
  by (simp add: ipc_outcome_def finished_def)

text \<open>The event that gives a pending call its outcome.\<close>

fun decides :: "ipc_call \<Rightarrow> ipc_status \<times> json \<times> string option \<Rightarrow> ipc_event \<Rightarrow> bool" where
  "decides r oc (IpcRunEnds now uid pid run response err) =
     (ic_uid r = uid \<and> ic_target_pid r = pid \<and> ic_target_run_id r = run \<and> now < ic_deadline_at r
      \<and> oc = (IpcCompleted, response, err))"
| "decides r oc (IpcTargetGone now uid pid err) =
     (ic_uid r = uid \<and> ic_target_pid r = pid \<and> oc = (IpcCompleted, JNull, Some err))"
| "decides r oc (IpcDeadline now callId) =
     (ic_call_id r = callId \<and> ic_deadline_at r \<le> now
      \<and> oc = (IpcTimedOut, ic_response r, Some ''IPC call timed out''))"
| "decides r oc _ = False"

lemma row_step_pending:
  "ic_status r = IpcPending \<Longrightarrow> row_step e r = Some r' \<Longrightarrow>
     ic_status r' = IpcPending \<and> ipc_outcome r' = ipc_outcome r \<or> finished r' \<and> decides r (ipc_outcome r') e"
  by (cases e) (auto simp: ipc_outcome_def finished_def claimable_def run_awaited_def target_awaited_def
      overdue_def split: if_splits)

lemma decides_request: "ipc_request r = ipc_request r' \<Longrightarrow> ic_response r = ic_response r' \<Longrightarrow> decides r oc e = decides r' oc e"
  by (cases e) (simp_all add: ipc_request_def)

lemma ipc_run_finished:
  assumes "keyed ic_call_id t" "ipc_get t k = Some r" "finished r"
    and "\<forall>e \<in> set es. \<not> creates k e" "ipc_get (run_steps ipc_step es t) k = Some r'"
  shows "ipc_request r' = ipc_request r \<and> ipc_outcome r' = ipc_outcome r"
  using assms
proof (induction es arbitrary: t r)
  case (Cons e es)
  note keyed' = ipc_step_keyed [OF Cons.prems(1), of e]
  have row: "ipc_get (ipc_step e t) k = row_step e r" by (rule ipc_step_row [OF Cons.prems(1,2)])
  show ?case
  proof (cases "row_step e r")
    case None
    with row Cons.prems(4) have "ipc_get (run_steps ipc_step es (ipc_step e t)) k = None"
      by (intro ipc_run_absent [OF keyed']) simp_all
    with Cons.prems(5) show ?thesis by simp
  next
    case (Some r1)
    with Cons.prems(4,5) row row_step_outcome [OF Cons.prems(3) Some] Cons.IH [OF keyed', of r1]
      row_step_request [OF Some] show ?thesis by simp
  qed
qed simp

lemma ipc_run_pending:
  assumes "keyed ic_call_id t" "ipc_get t k = Some r" "ic_status r = IpcPending"
    and "\<forall>e \<in> set es. \<not> creates k e" "ipc_get (run_steps ipc_step es t) k = Some r'"
  shows "ipc_request r' = ipc_request r \<and>
    (ic_status r' = IpcPending \<and> ipc_outcome r' = ipc_outcome r
     \<or> finished r' \<and> (\<exists>e \<in> set es. decides r (ipc_outcome r') e))"
  using assms
proof (induction es arbitrary: t r)
  case (Cons e es)
  note keyed' = ipc_step_keyed [OF Cons.prems(1), of e]
  have row: "ipc_get (ipc_step e t) k = row_step e r" by (rule ipc_step_row [OF Cons.prems(1,2)])
  from Cons.prems(4,5) have no: "\<forall>e \<in> set es. \<not> creates k e"
    and fin: "ipc_get (run_steps ipc_step es (ipc_step e t)) k = Some r'" by simp_all
  show ?case
  proof (cases "row_step e r")
    case None
    with row no have "ipc_get (run_steps ipc_step es (ipc_step e t)) k = None"
      by (intro ipc_run_absent [OF keyed']) simp_all
    with fin show ?thesis by simp
  next
    case (Some r1)
    note req = row_step_request [OF Some]
    from row_step_pending [OF Cons.prems(3) Some] show ?thesis
    proof
      assume p: "ic_status r1 = IpcPending \<and> ipc_outcome r1 = ipc_outcome r"
      from p have "ic_response r1 = ic_response r" by (simp add: ipc_outcome_def)
      then have "decides r1 oc e' = decides r oc e'" for oc e' by (intro decides_request req)
      with Cons.IH [OF keyed' _ _ no fin, of r1] row Some p req show ?thesis by auto
    next
      assume d: "finished r1 \<and> decides r (ipc_outcome r1) e"
      then have "ipc_request r' = ipc_request r1 \<and> ipc_outcome r' = ipc_outcome r1"
        using ipc_run_finished [OF keyed' _ _ no fin, of r1] row Some by simp
      with d req finished_outcome [of r' r1] show ?thesis by auto
    qed
  qed
qed simp

section \<open>The reply is handed out once\<close>

definition undelivered :: "string \<Rightarrow> ipc_call list \<Rightarrow> bool" where
  "undelivered k t = (case ipc_get t k of None \<Rightarrow> False | Some r \<Rightarrow> ic_delivery_started_at r = None)"

fun ipc_granted :: "string \<Rightarrow> ipc_event \<Rightarrow> ipc_call list \<Rightarrow> bool" where
  "ipc_granted k (IpcClaim now callId) t = (callId = k \<and> snd (claimDelivery now callId t) \<noteq> None)"
| "ipc_granted k _ t = False"

fun ipc_releases :: "string \<Rightarrow> ipc_event \<Rightarrow> bool" where
  "ipc_releases k (IpcCreate _ callId _ _ _ _ _ _) = (callId = k)"
| "ipc_releases k (IpcDeliveryFailed _ callId) = (callId = k)"
| "ipc_releases k IpcRestart = True"
| "ipc_releases k _ = False"

lemma claimDelivery_granted:
  assumes "keyed ic_call_id t" "snd (claimDelivery now k t) \<noteq> None"
  obtains r where "ipc_get t k = Some r" "claimable k r"
proof -
  from assms(2) obtain r where r: "r \<in> set t" "claimable k r"
    by (fastforce simp: claimDelivery_def Let_def filter_empty_conv split: list.splits
        dest: arg_cong [where f = set])
  then have "ipc_get t k = Some r" by (simp add: ipc_get_def lookup_iff [OF assms(1)] claimable_def)
  with r that show thesis by blast
qed

lemma row_step_taken:
  "ic_delivery_started_at r \<noteq> None \<Longrightarrow> ic_call_id r = k \<Longrightarrow> \<not> ipc_releases k e \<Longrightarrow>
     row_step e r = Some r' \<Longrightarrow> ic_delivery_started_at r' \<noteq> None"
  by (cases e) (auto split: if_splits)

interpretation ipc: handover ipc_step "\<lambda>e. True" "keyed ic_call_id :: ipc_call list \<Rightarrow> bool" "undelivered k" "ipc_granted k"
    "\<lambda>e t. ipc_releases k e" for k
proof unfold_locales
  fix t :: "ipc_call list" and e assume "keyed ic_call_id t"
  then show "keyed ic_call_id (ipc_step e t)" by (rule ipc_step_keyed)
next
  fix t :: "ipc_call list" and e assume keyed: "keyed ic_call_id t" and grant: "ipc_granted k e t"
  then obtain now where e: "e = IpcClaim now k" and g: "snd (claimDelivery now k t) \<noteq> None"
    by (cases e) auto
  from keyed g obtain r where r: "ipc_get t k = Some r" "claimable k r" by (rule claimDelivery_granted)
  with ipc_step_row [OF keyed r(1), of e] e show "undelivered k t \<and> \<not> undelivered k (ipc_step e t)"
    by (simp add: undelivered_def claimable_def)
next
  fix t :: "ipc_call list" and e assume keyed: "keyed ic_call_id t" and taken: "\<not> undelivered k t" and no: "\<not> ipc_releases k e"
  show "\<not> undelivered k (ipc_step e t)"
  proof (cases "ipc_get t k")
    case None
    moreover from no have "\<not> creates k e" by (cases e) simp_all
    ultimately show ?thesis using ipc_step_absent [OF keyed] by (simp add: undelivered_def)
  next
    case (Some r)
    then have "ic_call_id r = k" by (auto simp: ipc_get_def dest: lookup_Some)
    with Some taken no ipc_step_row [OF keyed Some, of e] row_step_taken [of r k e]
    show ?thesis by (auto simp: undelivered_def split: option.split)
  qed
qed

section \<open>Properties\<close>

text \<open>C23. A pending call gets its outcome from exactly one event and keeps it: a completion by the
  awaited run before the deadline, the loss of the target process, or the timer at or after the
  deadline. Later completions, timers, claims, failed deliveries and restarts change neither the
  request nor the outcome while the call exists.\<close>

theorem ipc_outcome_decided_once:
  assumes "keyed ic_call_id t" "ipc_get t k = Some r" "ic_status r = IpcPending"
    and "\<forall>e \<in> set (es @ fs). \<not> creates k e"
    and "ipc_get (run_steps ipc_step es t) k = Some r1" "ic_status r1 \<noteq> IpcPending"
  shows "(\<exists>e \<in> set es. decides r (ipc_outcome r1) e)
    \<and> (case ipc_get (run_steps ipc_step (es @ fs) t) k of None \<Rightarrow> True
       | Some r2 \<Rightarrow> ipc_outcome r2 = ipc_outcome r1 \<and> ipc_request r2 = ipc_request r)"
proof -
  from assms(4) have es: "\<forall>e \<in> set es. \<not> creates k e" and fs: "\<forall>e \<in> set fs. \<not> creates k e" by auto
  from ipc_run_pending [OF assms(1-3) es assms(5)] assms(6)
  have fin: "finished r1" and req: "ipc_request r1 = ipc_request r"
    and dec: "\<exists>e \<in> set es. decides r (ipc_outcome r1) e" by auto
  from ipc_run_finished [OF ipc_run_keyed [OF assms(1)] assms(5) fin fs] req dec
  show ?thesis by (auto simp: run_steps_append split: option.split)
qed

definition sample_call :: ipc_call where
  "sample_call = \<lparr>ic_call_id = ''c'', ic_uid = 1000, ic_source_pid = ''p'', ic_source_run_id = None,
     ic_target_pid = ''q'', ic_target_run_id = ''run'', ic_status = IpcPending, ic_deadline_at = 100,
     ic_created_at = 0, ic_updated_at = 0, ic_response = JNull, ic_error = None,
     ic_delivery_started_at = None\<rparr>"

theorem ipc_outcome_decided_once_witness:
  "\<exists>e \<in> set [IpcDeadline 99 ''c'', IpcDeadline 100 ''c''].
     decides sample_call (IpcTimedOut, JNull, Some ''IPC call timed out'') e"
  using ipc_outcome_decided_once [of "[sample_call]" "''c''" sample_call
      "[IpcDeadline 99 ''c'', IpcDeadline 100 ''c'']" "[IpcRunEnds 101 1000 ''q'' ''run'' JNull None]"
      "sample_call\<lparr>ic_status := IpcTimedOut, ic_error := Some ''IPC call timed out'', ic_updated_at := 100\<rparr>"]
  by (simp add: sample_call_def keyed_def ipc_get_def sql_lookup_def ipc_timeout_def overdue_def ipc_outcome_def)

text \<open>The reply of a call is handed to a deliverer at most as often as the call was created, a
  delivery of it failed and was released, or the kernel restarted: no two deliverers of one created
  call overlap, however timers, completions, claims and removals interleave.\<close>

theorem ipc_reply_claimed_at_most_once:
  assumes "keyed ic_call_id t" "ipc_get t k = None"
  shows "count_steps ipc_step (ipc_granted k) es t \<le> length (filter (ipc_releases k) es)"
proof -
  from assms(1) have "count_steps ipc_step (ipc_granted k) es t
      \<le> (if undelivered k t then 1 else 0) + count_steps ipc_step (\<lambda>e t. ipc_releases k e) es t"
    by (rule ipc.grants_bounded) simp
  also have "count_steps ipc_step (\<lambda>e t. ipc_releases k e) es t = length (filter (ipc_releases k) es)"
    by (rule count_steps_syntactic) simp
  finally show ?thesis using assms(2) by (simp add: undelivered_def)
qed

theorem ipc_reply_claimed_at_most_once_witness:
  "count_steps ipc_step (ipc_granted ''c'')
     [IpcCreate 0 ''c'' 1000 ''p'' None ''q'' ''run'' 100, IpcRunEnds 9 1000 ''q'' ''run'' JNull None,
      IpcClaim 10 ''c'', IpcClaim 11 ''c'', IpcDeadline 200 ''c'', IpcClaim 201 ''c''] [] \<le> 1"
  using ipc_reply_claimed_at_most_once [of "[]" "''c''" "[IpcCreate 0 ''c'' 1000 ''p'' None ''q'' ''run'' 100,
      IpcRunEnds 9 1000 ''q'' ''run'' JNull None, IpcClaim 10 ''c'', IpcClaim 11 ''c'',
      IpcDeadline 200 ''c'', IpcClaim 201 ''c'']"]
  by (simp add: ipc_get_def del: count_steps.simps)

end
