(* ===== verification/IngressReceipts.thy ===== *)
theory IngressReceipts
  imports Delivery
begin

text \<open>
  The idempotency receipts of inbound messages (\<open>kernel/adapter-ingress-receipts.ts\<close>): the table
  \<open>adapter_ingress_receipts\<close>, the set of claim tokens the live kernel holds, and the time of the next
  prune. The JSON columns hold the value they encode. A method is synchronous, so its reads of
  \<open>Date.now()\<close> are one argument; \<open>crypto.randomUUID()\<close> is another. The table's \<open>CHECK\<close> admits two
  states, hence the datatype. A new instance of the kernel (\<open>new_instance\<close>) starts with no token and
  a prune due.
\<close>

datatype receipt_state = InProgress | Completed

record receipt_row =
  ir_receipt_id :: string
  ir_adapter :: string
  ir_account_id :: string
  ir_actor_id :: string
  ir_surface_kind :: string
  ir_surface_id :: string
  ir_thread_id :: string
  ir_provider_message_id :: string
  ir_provider_delivery_id :: "string option"
  ir_state :: receipt_state
  ir_result :: "json option"
  ir_progress :: "json option"
  ir_claim_token :: string
  ir_claimed_at :: int
  ir_created_at :: int
  ir_completed_at :: "int option"

record receipt_input =
  in_receiptId :: string
  in_adapter :: string
  in_accountId :: string
  in_actorId :: string
  in_surfaceKind :: string
  in_surfaceId :: string
  in_threadId :: "string option"
  in_providerMessageId :: string
  in_providerDeliveryId :: string

record receipt_store =
  rs_rows :: "receipt_row list"
  rs_activeClaims :: "string list"
  rs_nextPruneAt :: int

datatype receipt_claim =
    RcClaimed string string "json option"
  | RcInProgress string
  | RcPrepared string string json
  | RcCompleted string json
  | RcAmbiguous string string

definition CLAIM_LEASE_MS :: int where "CLAIM_LEASE_MS = 5 * 60 * 1000"
definition RECEIPT_RETENTION_MS :: int where "RECEIPT_RETENTION_MS = 7 * 24 * 60 * 60 * 1000"
definition MAX_COMPLETED_RECEIPTS :: nat where "MAX_COMPLETED_RECEIPTS = 4096"
definition PRUNE_INTERVAL_MS :: int where "PRUNE_INTERVAL_MS = 60 * 60 * 1000"

section \<open>Results\<close>

definition json_nonempty_string :: "json option \<Rightarrow> bool" where
  "json_nonempty_string v = (case json_string v of Some (c # cs) \<Rightarrow> True | _ \<Rightarrow> False)"

definition json_is_string :: "json option \<Rightarrow> bool" where
  "json_is_string v \<longleftrightarrow> json_string v \<noteq> None"

definition json_safe_integer :: "json option \<Rightarrow> bool" where
  "json_safe_integer v = (case v of Some (JNum n) \<Rightarrow> js_safe_integer n | _ \<Rightarrow> False)"

definition json_is_bool :: "json option \<Rightarrow> bool" where
  "json_is_bool v = (case v of Some (JBool b) \<Rightarrow> True | _ \<Rightarrow> False)"

definition json_finite :: "json option \<Rightarrow> bool" where
  "json_finite v = (case v of Some (JNum n) \<Rightarrow> n \<noteq> NonFinite | _ \<Rightarrow> False)"

text \<open>A field that is absent, or has the fields the test names (which a value that is not an object
  lacks).\<close>

definition json_optional :: "json option \<Rightarrow> (json \<Rightarrow> bool) \<Rightarrow> bool" where
  "json_optional v P = (case v of None \<Rightarrow> True | Some x \<Rightarrow> P x)"

definition isAdapterInboundResult :: "json \<Rightarrow> bool" where
  "isAdapterInboundResult r \<longleftrightarrow>
     json_is_bool (json_get r ''ok'')
     \<and> json_optional (json_get r ''replayed'')
         (\<lambda>x. x = JStr ''in_progress'' \<or> x = JStr ''completed'')
     \<and> json_optional (json_get r ''delivered'') (\<lambda>d.
         json_safe_integer (json_get d ''uid'') \<and> json_is_string (json_get d ''pid'')
         \<and> json_is_string (json_get d ''runId'') \<and> json_is_bool (json_get d ''queued''))
     \<and> json_optional (json_get r ''reply'') (\<lambda>y.
         json_nonempty_string (json_get y ''deliveryId'') \<and> json_is_string (json_get y ''text'')
         \<and> json_optional (json_get y ''replyToId'') (\<lambda>x. json_is_string (Some x)))
     \<and> json_optional (json_get r ''challenge'') (\<lambda>y.
         json_nonempty_string (json_get y ''deliveryId'') \<and> json_is_string (json_get y ''code'')
         \<and> json_is_string (json_get y ''prompt'') \<and> json_finite (json_get y ''expiresAt''))
     \<and> json_optional (json_get r ''droppedReason'') (\<lambda>x. json_is_string (Some x))
     \<and> json_optional (json_get r ''error'') (\<lambda>x. json_is_string (Some x))"

definition withoutReplayMarker :: "json \<Rightarrow> json" where
  "withoutReplayMarker r =
     (case r of JObj kvs \<Rightarrow> JObj (filter (\<lambda>kv. fst kv \<noteq> ''replayed'') kvs) | _ \<Rightarrow> r)"

definition parseAdapterInboundResult :: "receipt_row \<Rightarrow> json result" where
  "parseAdapterInboundResult row =
     (case ir_result row of
        None \<Rightarrow> throw (''Invalid adapter ingress receipt result: '' @ ir_receipt_id row)
      | Some v \<Rightarrow>
          if \<not> isAdapterInboundResult v \<or> json_get v ''replayed'' \<noteq> None
          then throw (''Invalid adapter ingress receipt result: '' @ ir_receipt_id row)
          else Inr v)"

definition completedClaimFromRow :: "receipt_row \<Rightarrow> receipt_claim result" where
  "completedClaimFromRow row =
     (if ir_state row \<noteq> Completed \<or> ir_result row = None
      then throw (''Invalid adapter ingress receipt state: '' @ ir_receipt_id row)
      else bind_result (parseAdapterInboundResult row) (\<lambda>v. Inr (RcCompleted (ir_receipt_id row) v)))"

section \<open>The store\<close>

definition getByReceiptId :: "receipt_row list \<Rightarrow> string \<Rightarrow> receipt_row option" where
  "getByReceiptId rows k = sql_lookup ir_receipt_id rows k"

datatype legacy_lookup = LegacyResolved "receipt_row option" | LegacyAmbiguous

definition legacy_match :: "receipt_input \<Rightarrow> receipt_row \<Rightarrow> bool" where
  "legacy_match inp r \<longleftrightarrow> ir_provider_delivery_id r = None
     \<and> ir_adapter r = in_adapter inp \<and> ir_account_id r = in_accountId inp
     \<and> ir_surface_kind r = in_surfaceKind inp \<and> ir_surface_id r = in_surfaceId inp
     \<and> ir_thread_id r = coalesce (in_threadId inp) [] \<and> ir_provider_message_id r = in_providerMessageId inp"

definition getLegacyReceipt :: "receipt_row list \<Rightarrow> receipt_input \<Rightarrow> legacy_lookup" where
  "getLegacyReceipt rows inp =
     (let candidates = take 2 (sort_key (\<lambda>r. if ir_actor_id r = in_actorId inp then 0 else 1 :: nat)
                         (sort_key ir_created_at (filter (legacy_match inp) rows)))
      in case find (\<lambda>r. ir_actor_id r = in_actorId inp) candidates of
           Some r \<Rightarrow> LegacyResolved (Some r)
         | None \<Rightarrow> if length candidates > 1 then LegacyAmbiguous
                   else LegacyResolved (case candidates of [] \<Rightarrow> None | r # _ \<Rightarrow> Some r))"

text \<open>A completed row has a completion time; the order of \<open>ORDER BY completed_at DESC\<close>.\<close>

definition prune_rows :: "int \<Rightarrow> receipt_row list \<Rightarrow> receipt_row list" where
  "prune_rows now rows =
     (let cutoff = now - RECEIPT_RETENTION_MS;
          kept = sql_delete (\<lambda>r. ir_state r = Completed
                                 \<and> (case ir_completed_at r of Some c \<Rightarrow> c < cutoff | None \<Rightarrow> False)
                               \<or> ir_state r = InProgress \<and> ir_claimed_at r < cutoff) rows;
          excess = map ir_receipt_id (drop MAX_COMPLETED_RECEIPTS
                     (sort_key (\<lambda>r. - coalesce (ir_completed_at r) 0)
                       (filter (\<lambda>r. ir_state r = Completed) kept)))
      in sql_delete (\<lambda>r. ir_receipt_id r \<in> set excess) kept)"

definition prune :: "int \<Rightarrow> receipt_store \<Rightarrow> receipt_store" where
  "prune now s =
     (if now < rs_nextPruneAt s then s
      else s\<lparr>rs_nextPruneAt := now + PRUNE_INTERVAL_MS, rs_rows := prune_rows now (rs_rows s)\<rparr>)"

definition owned :: "string \<Rightarrow> string \<Rightarrow> receipt_row \<Rightarrow> bool" where
  "owned k token r \<longleftrightarrow> ir_receipt_id r = k \<and> ir_state r = InProgress \<and> ir_claim_token r = token"

definition reclaim :: "int \<Rightarrow> string \<Rightarrow> receipt_row \<Rightarrow> (receipt_store, receipt_claim) action" where
  "reclaim now uuid row s =
     (if \<not> list_ex (owned (ir_receipt_id row) (ir_claim_token row)) (rs_rows s)
      then act_throw (''Adapter ingress receipt could not be reclaimed: '' @ ir_receipt_id row) s
      else act_bind (act_modify (\<lambda>s.
             s\<lparr>rs_rows := sql_update (owned (ir_receipt_id row) (ir_claim_token row))
                            (\<lambda>r. r\<lparr>ir_claim_token := uuid, ir_claimed_at := now\<rparr>) (rs_rows s),
               rs_activeClaims := List.insert uuid (removeAll (ir_claim_token row) (rs_activeClaims s))\<rparr>))
           (\<lambda>_ s. if ir_result row \<noteq> None
                  then (s, bind_result (parseAdapterInboundResult row)
                             (\<lambda>v. Inr (RcPrepared (ir_receipt_id row) uuid v)))
                  else (s, Inr (RcClaimed (ir_receipt_id row) uuid (ir_progress row)))) s)"

definition receipt_key :: "receipt_row \<Rightarrow> string list" where
  "receipt_key r = [ir_adapter r, ir_account_id r, ir_actor_id r, ir_surface_kind r, ir_surface_id r,
     ir_thread_id r, ir_provider_message_id r]"

definition new_receipt :: "int \<Rightarrow> string \<Rightarrow> receipt_input \<Rightarrow> receipt_row" where
  "new_receipt now token inp =
     \<lparr>ir_receipt_id = in_receiptId inp, ir_adapter = in_adapter inp, ir_account_id = in_accountId inp,
      ir_actor_id = in_actorId inp, ir_surface_kind = in_surfaceKind inp, ir_surface_id = in_surfaceId inp,
      ir_thread_id = coalesce (in_threadId inp) [], ir_provider_message_id = in_providerMessageId inp,
      ir_provider_delivery_id = Some (in_providerDeliveryId inp), ir_state = InProgress, ir_result = None,
      ir_progress = None, ir_claim_token = token, ir_claimed_at = now, ir_created_at = now,
      ir_completed_at = None\<rparr>"

text \<open>The table has the primary key \<open>receipt_key\<close> and \<open>receipt_id\<close> is unique.\<close>

definition insert_receipt :: "receipt_row \<Rightarrow> receipt_row list \<Rightarrow> receipt_row list result" where
  "insert_receipt r rows =
     (if list_ex (\<lambda>x. ir_receipt_id x = ir_receipt_id r \<or> receipt_key x = receipt_key r) rows
      then throw ''UNIQUE constraint failed'' else Inr (rows @ [r]))"

definition claim_existing :: "int \<Rightarrow> string \<Rightarrow> receipt_row \<Rightarrow> (receipt_store, receipt_claim) action" where
  "claim_existing now uuid row s =
     (if ir_state row = Completed then (s, completedClaimFromRow row)
      else if ir_claim_token row \<in> set (rs_activeClaims s) \<and> ir_claimed_at row > now - CLAIM_LEASE_MS
      then (s, Inr (RcInProgress (ir_receipt_id row)))
      else reclaim now uuid row s)"

definition claim_new :: "int \<Rightarrow> string \<Rightarrow> receipt_input \<Rightarrow> (receipt_store, receipt_claim) action" where
  "claim_new now uuid inp s =
     (case insert_receipt (new_receipt now uuid inp) (rs_rows s) of
        Inl e \<Rightarrow> (s, Inl e)
      | Inr rows \<Rightarrow> (s\<lparr>rs_rows := rows, rs_activeClaims := List.insert uuid (rs_activeClaims s)\<rparr>,
                     Inr (RcClaimed (in_receiptId inp) uuid None)))"

definition ingress_claim :: "int \<Rightarrow> string \<Rightarrow> receipt_input \<Rightarrow> (receipt_store, receipt_claim) action" where
  "ingress_claim now uuid inp s0 =
     (let s = prune now s0 in
      case getByReceiptId (rs_rows s) (in_receiptId inp) of
        Some row \<Rightarrow> claim_existing now uuid row s
      | None \<Rightarrow>
          (case getLegacyReceipt (rs_rows s) inp of
             LegacyAmbiguous \<Rightarrow>
               (s, Inr (RcAmbiguous (in_receiptId inp) ''Legacy adapter ingress identity is ambiguous''))
           | LegacyResolved (Some row) \<Rightarrow> claim_existing now uuid row s
           | LegacyResolved None \<Rightarrow> claim_new now uuid inp s))"

definition write_owned :: "(receipt_row \<Rightarrow> receipt_row) \<Rightarrow> string \<Rightarrow> string \<Rightarrow> (receipt_store, unit) action" where
  "write_owned f k token s =
     (if list_ex (owned k token) (rs_rows s)
      then (s\<lparr>rs_rows := sql_update (owned k token) f (rs_rows s)\<rparr>, Inr ())
      else (s, throw (''Adapter ingress receipt is not owned: '' @ k)))"

definition ingress_prepare :: "string \<Rightarrow> string \<Rightarrow> json \<Rightarrow> (receipt_store, unit) action" where
  "ingress_prepare k token v = write_owned (\<lambda>r. r\<lparr>ir_result := Some (withoutReplayMarker v)\<rparr>) k token"

definition ingress_checkpoint :: "string \<Rightarrow> string \<Rightarrow> json \<Rightarrow> (receipt_store, unit) action" where
  "ingress_checkpoint k token recovery = write_owned (\<lambda>r. r\<lparr>ir_progress := Some recovery\<rparr>) k token"

definition ingress_complete :: "int \<Rightarrow> string \<Rightarrow> string \<Rightarrow> (receipt_store, unit) action" where
  "ingress_complete now k token s =
     (let matches = (\<lambda>r. owned k token r \<and> ir_result r \<noteq> None);
          s1 = s\<lparr>rs_rows := sql_update matches
                   (\<lambda>r. r\<lparr>ir_state := Completed, ir_completed_at := Some now\<rparr>) (rs_rows s),
                 rs_activeClaims := removeAll token (rs_activeClaims s)\<rparr>
      in if list_ex matches (rs_rows s) then (s1, Inr ())
         else case getByReceiptId (rs_rows s1) k of
                Some row \<Rightarrow> if ir_state row = Completed \<and> ir_result row \<noteq> None then (s1, Inr ())
                            else (s1, throw (''Adapter ingress receipt is not owned: '' @ k))
              | None \<Rightarrow> (s1, throw (''Adapter ingress receipt is not owned: '' @ k)))"

definition ingress_abandon :: "string \<Rightarrow> string \<Rightarrow> receipt_store \<Rightarrow> receipt_store" where
  "ingress_abandon k token s =
     s\<lparr>rs_activeClaims := removeAll token (rs_activeClaims s),
       rs_rows := sql_update (owned k token) (\<lambda>r. r\<lparr>ir_claimed_at := 0\<rparr>) (rs_rows s)\<rparr>"

definition new_instance :: "receipt_store \<Rightarrow> receipt_store" where
  "new_instance s = s\<lparr>rs_activeClaims := [], rs_nextPruneAt := 0\<rparr>"

datatype ingress_event = IClaim int string receipt_input | IPrepare string string json
  | ICheckpoint string string json | IComplete int string string | IAbandon string string | IRestart

fun ingress_step :: "ingress_event \<Rightarrow> receipt_store \<Rightarrow> receipt_store" where
  "ingress_step (IClaim now uuid inp) s = fst (ingress_claim now uuid inp s)"
| "ingress_step (IPrepare k token v) s = fst (ingress_prepare k token v s)"
| "ingress_step (ICheckpoint k token v) s = fst (ingress_checkpoint k token v s)"
| "ingress_step (IComplete now k token) s = fst (ingress_complete now k token s)"
| "ingress_step (IAbandon k token) s = ingress_abandon k token s"
| "ingress_step IRestart s = new_instance s"

section \<open>Steps on the rows\<close>

lemma prune_rows_subset: "r \<in> set (prune_rows now rows) \<Longrightarrow> r \<in> set rows"
  by (simp add: prune_rows_def Let_def)

lemma prune_subset: "r \<in> set (rs_rows (prune now s)) \<Longrightarrow> r \<in> set (rs_rows s)"
  by (auto simp: prune_def dest: prune_rows_subset split: if_splits)

lemma prune_keyed: "keyed ir_receipt_id (rs_rows s) \<Longrightarrow> keyed ir_receipt_id (rs_rows (prune now s))"
  by (simp add: prune_def prune_rows_def Let_def)

text \<open>A claim prunes, then reclaims one row, inserts one, or leaves the rows alone.\<close>

lemma claim_existing_cases:
  assumes "claim_existing now uuid row s = (s', res)" "row \<in> set (rs_rows s)"
  obtains (reclaimed) "ir_state row = InProgress"
      "rs_rows s' = sql_update (owned (ir_receipt_id row) (ir_claim_token row))
                      (\<lambda>r. r\<lparr>ir_claim_token := uuid, ir_claimed_at := now\<rparr>) (rs_rows s)"
      "rs_nextPruneAt s' = rs_nextPruneAt s"
      "\<And>k u p. res = Inr (RcClaimed k u p) \<Longrightarrow> k = ir_receipt_id row"
      "\<And>k u v. res = Inr (RcPrepared k u v) \<Longrightarrow> k = ir_receipt_id row"
    | (unchanged) "s' = s" "\<And>k u p. res \<noteq> Inr (RcClaimed k u p)" "\<And>k u v. res \<noteq> Inr (RcPrepared k u v)"
proof (cases "ir_state row = Completed
    \<or> (ir_claim_token row \<in> set (rs_activeClaims s) \<and> ir_claimed_at row > now - CLAIM_LEASE_MS)")
  case True
  then show thesis
    using assms(1) by (intro unchanged) (auto simp: claim_existing_def completedClaimFromRow_def split: if_splits)
next
  case False
  then have "reclaim now uuid row s = (s', res)" and state: "ir_state row = InProgress"
    using assms(1) by (auto simp: claim_existing_def intro: receipt_state.exhaust)
  moreover have "list_ex (owned (ir_receipt_id row) (ir_claim_token row)) (rs_rows s)"
    using assms(2) state by (auto simp: list_ex_iff owned_def)
  ultimately show thesis
    using state by (intro reclaimed) (auto simp: reclaim_def act_bind_def act_modify_def split: if_splits)
qed

lemma getLegacyReceipt_in: "getLegacyReceipt rows inp = LegacyResolved (Some r) \<Longrightarrow> r \<in> set rows"
proof -
  assume found: "getLegacyReceipt rows inp = LegacyResolved (Some r)"
  let ?c = "take 2 (sort_key (\<lambda>r. if ir_actor_id r = in_actorId inp then 0 else 1 :: nat)
                         (sort_key ir_created_at (filter (legacy_match inp) rows)))"
  from found have "r \<in> set ?c"
    by (auto simp: getLegacyReceipt_def Let_def dest!: find_Some_in split: option.splits if_splits list.splits
        simp del: set_sort)
  then show ?thesis by (auto dest: in_set_takeD)
qed

lemma ingress_claim_cases:
  assumes "ingress_claim now uuid inp s = (s', res)"
  obtains (reclaimed) row where "row \<in> set (rs_rows (prune now s))" "ir_state row = InProgress"
      "rs_rows s' = sql_update (owned (ir_receipt_id row) (ir_claim_token row))
                      (\<lambda>r. r\<lparr>ir_claim_token := uuid, ir_claimed_at := now\<rparr>) (rs_rows (prune now s))"
      "rs_nextPruneAt s' = rs_nextPruneAt (prune now s)"
      "\<And>k u p. res = Inr (RcClaimed k u p) \<Longrightarrow> k = ir_receipt_id row"
      "\<And>k u v. res = Inr (RcPrepared k u v) \<Longrightarrow> k = ir_receipt_id row"
    | (inserted) "\<forall>r \<in> set (rs_rows (prune now s)). ir_receipt_id r \<noteq> in_receiptId inp"
      "rs_rows s' = rs_rows (prune now s) @ [new_receipt now uuid inp]"
      "rs_nextPruneAt s' = rs_nextPruneAt (prune now s)"
      "\<And>k u p. res = Inr (RcClaimed k u p) \<Longrightarrow> k = in_receiptId inp"
      "\<And>k u v. res \<noteq> Inr (RcPrepared k u v)"
    | (unchanged) "s' = prune now s" "\<And>k u p. res \<noteq> Inr (RcClaimed k u p)" "\<And>k u v. res \<noteq> Inr (RcPrepared k u v)"
proof -
  let ?s = "prune now s"
  have existing: thesis if "row \<in> set (rs_rows ?s)" "claim_existing now uuid row ?s = (s', res)" for row
    using that(2,1) by (cases rule: claim_existing_cases) (use that reclaimed unchanged in blast)+
  show thesis
  proof (cases "getByReceiptId (rs_rows ?s) (in_receiptId inp)")
    case (Some row)
    then have "row \<in> set (rs_rows ?s)" by (auto simp: getByReceiptId_def dest: lookup_Some)
    moreover have "claim_existing now uuid row ?s = (s', res)"
      using assms Some by (simp add: ingress_claim_def Let_def)
    ultimately show thesis by (rule existing)
  next
    case None
    then have no: "\<forall>r \<in> set (rs_rows ?s). ir_receipt_id r \<noteq> in_receiptId inp"
      by (simp add: getByReceiptId_def lookup_None)
    show thesis
    proof (cases "getLegacyReceipt (rs_rows ?s) inp")
      case (LegacyResolved found)
      show thesis
      proof (cases found)
        case (Some row)
        with LegacyResolved have "row \<in> set (rs_rows ?s)" by (auto dest: getLegacyReceipt_in)
        moreover have "claim_existing now uuid row ?s = (s', res)"
          using assms None LegacyResolved Some by (simp add: ingress_claim_def Let_def)
        ultimately show thesis by (rule existing)
      next
        case new: None
        with assms None LegacyResolved have "claim_new now uuid inp ?s = (s', res)"
          by (simp add: ingress_claim_def Let_def)
        then show thesis
          using inserted [OF no] unchanged
          by (auto simp: claim_new_def insert_receipt_def split: if_splits)
      qed
    next
      case LegacyAmbiguous
      with assms None show thesis by (intro unchanged) (auto simp: ingress_claim_def Let_def)
    qed
  qed
qed

section \<open>Fencing\<close>

text \<open>No receipt in progress carries the token.\<close>

definition dead_token :: "string \<Rightarrow> receipt_row list \<Rightarrow> bool" where
  "dead_token t rows \<longleftrightarrow> (\<forall>r \<in> set rows. ir_claim_token r = t \<longrightarrow> ir_state r = Completed)"

fun claims_with :: "string \<Rightarrow> ingress_event \<Rightarrow> bool" where
  "claims_with t (IClaim _ uuid _) = (uuid = t)"
| "claims_with t _ = False"

lemma dead_token_owns_nothing: "dead_token t rows \<Longrightarrow> r \<in> set rows \<Longrightarrow> \<not> owned k t r"
  by (auto simp: dead_token_def owned_def)

lemma update_none: "(\<And>r. r \<in> set rows \<Longrightarrow> \<not> P r) \<Longrightarrow> sql_update P f rows = rows"
  by (simp add: sql_update_def map_idI)

lemma dead_token_update:
  "dead_token t rows \<Longrightarrow> (\<And>r. ir_claim_token (f r) = ir_claim_token r \<or> ir_claim_token (f r) \<noteq> t)
   \<Longrightarrow> (\<And>r. ir_state r = Completed \<Longrightarrow> ir_state (f r) = Completed) \<Longrightarrow> dead_token t (sql_update P f rows)"
  by (auto simp: dead_token_def in_update split: if_splits) metis+

lemma dead_token_prune: "dead_token t (rs_rows s) \<Longrightarrow> dead_token t (rs_rows (prune now s))"
  by (auto simp: dead_token_def dest: prune_subset)

lemma dead_token_step:
  assumes dead: "dead_token t (rs_rows s)" and no: "\<not> claims_with t e"
  shows "dead_token t (rs_rows (ingress_step e s))"
proof (cases e)
  case (IClaim now uuid inp)
  obtain s' res where c: "ingress_claim now uuid inp s = (s', res)" by (cases "ingress_claim now uuid inp s")
  note dead' = dead_token_prune [OF dead, of now]
  from no IClaim have "uuid \<noteq> t" by simp
  from c have "dead_token t (rs_rows s')"
  proof (cases rule: ingress_claim_cases)
    case (reclaimed row)
    with dead' \<open>uuid \<noteq> t\<close> show ?thesis by (simp add: dead_token_update)
  next
    case inserted
    with dead' \<open>uuid \<noteq> t\<close> show ?thesis by (auto simp: dead_token_def new_receipt_def)
  next
    case unchanged
    with dead' show ?thesis by simp
  qed
  with IClaim c show ?thesis by simp
next
  case (IComplete now k token)
  have "rs_rows (fst (ingress_complete now k token s)) = sql_update (\<lambda>r. owned k token r \<and> ir_result r \<noteq> None)
                   (\<lambda>r. r\<lparr>ir_state := Completed, ir_completed_at := Some now\<rparr>) (rs_rows s)"
    by (simp add: ingress_complete_def Let_def split: option.split)
  with IComplete dead show ?thesis by (simp add: dead_token_update)
qed (use dead in \<open>simp_all add: ingress_prepare_def ingress_checkpoint_def write_owned_def
       ingress_abandon_def new_instance_def dead_token_update\<close>)

lemma dead_token_run:
  "dead_token t (rs_rows s) \<Longrightarrow> \<forall>e \<in> set es. \<not> claims_with t e \<Longrightarrow>
     dead_token t (rs_rows (run_steps ingress_step es s))"
  by (rule run_steps_invariant [where I = "\<lambda>s. dead_token t (rs_rows s)"]) (simp_all add: dead_token_step)

lemma reclaim_kills_token:
  assumes keyed: "keyed ir_receipt_id (rs_rows s)" and own: "\<forall>x \<in> set (rs_rows s). ir_claim_token x = t \<longrightarrow> ir_receipt_id x = k"
    and c: "ingress_claim now uuid inp s = (s', res)" and "uuid \<noteq> t"
    and granted: "(\<exists>p. res = Inr (RcClaimed k uuid p)) \<or> (\<exists>v. res = Inr (RcPrepared k uuid v))"
  shows "dead_token t (rs_rows s')"
proof -
  have own': "\<forall>x \<in> set (rs_rows (prune now s)). ir_claim_token x = t \<longrightarrow> ir_receipt_id x = k"
    using own by (auto dest: prune_subset)
  from c show ?thesis
  proof (cases rule: ingress_claim_cases)
    case (reclaimed row)
    with granted have "ir_receipt_id row = k" by auto
    then have only: "x = row" if "x \<in> set (rs_rows (prune now s))" "ir_claim_token x = t" for x
      using own' that reclaimed(1) keyed_unique [OF prune_keyed [OF keyed]] by metis
    show ?thesis
      unfolding dead_token_def
    proof (intro ballI impI)
      fix r assume "r \<in> set (rs_rows s')" and t: "ir_claim_token r = t"
      with reclaimed(3) obtain x where x: "x \<in> set (rs_rows (prune now s))"
        and r: "r = (if owned (ir_receipt_id row) (ir_claim_token row) x
                     then x\<lparr>ir_claim_token := uuid, ir_claimed_at := now\<rparr> else x)"
        by (auto simp: in_update)
      from r t \<open>uuid \<noteq> t\<close> have "\<not> owned (ir_receipt_id row) (ir_claim_token row) x" and "r = x"
        by (auto split: if_splits)
      with only [OF x] t reclaimed(2) show "ir_state r = Completed" by (auto simp: owned_def)
    qed
  next
    case inserted
    with granted have "in_receiptId inp = k" by auto
    with inserted own' \<open>uuid \<noteq> t\<close> show ?thesis by (auto simp: dead_token_def new_receipt_def)
  next
    case unchanged
    with granted show ?thesis by blast
  qed
qed

section \<open>Completed receipts\<close>

lemma write_owned_keyed:
  "(\<And>r. ir_receipt_id (f r) = ir_receipt_id r) \<Longrightarrow> keyed ir_receipt_id (rs_rows s) \<Longrightarrow>
     keyed ir_receipt_id (rs_rows (fst (write_owned f k token s)))"
  by (simp add: write_owned_def keyed_update)

lemma complete_rows:
  "rs_rows (fst (ingress_complete now k token s)) = sql_update (\<lambda>r. owned k token r \<and> ir_result r \<noteq> None)
     (\<lambda>r. r\<lparr>ir_state := Completed, ir_completed_at := Some now\<rparr>) (rs_rows s)"
  by (simp add: ingress_complete_def Let_def split: option.split)

lemma ingress_step_keyed:
  assumes "keyed ir_receipt_id (rs_rows s)"
  shows "keyed ir_receipt_id (rs_rows (ingress_step e s))"
proof (cases e)
  case (IClaim now uuid inp)
  obtain s' res where c: "ingress_claim now uuid inp s = (s', res)" by (cases "ingress_claim now uuid inp s")
  note k = prune_keyed [OF assms, of now]
  from c have "keyed ir_receipt_id (rs_rows s')"
    by (cases rule: ingress_claim_cases) (use k in \<open>simp_all add: keyed_update new_receipt_def\<close>)
  with IClaim c show ?thesis by simp
qed (use assms in \<open>simp_all add: ingress_prepare_def ingress_checkpoint_def write_owned_keyed
       complete_rows keyed_update ingress_abandon_def new_instance_def\<close>)

fun is_claim :: "ingress_event \<Rightarrow> bool" where
  "is_claim (IClaim _ _ _) = True"
| "is_claim _ = False"

fun claims_until :: "int \<Rightarrow> ingress_event \<Rightarrow> bool" where
  "claims_until t1 (IClaim now _ _) = (now \<le> t1)"
| "claims_until t1 _ = True"

lemma prune_rows_length: "length (prune_rows now rows) \<le> length rows"
  by (simp add: prune_rows_def Let_def sql_delete_def)

lemma prune_length: "length (rs_rows (prune now s)) \<le> length (rs_rows s)"
  by (simp add: prune_def prune_rows_length)

lemma prune_keeps:
  assumes "r \<in> set (rs_rows s)" "ir_state r = Completed" "ir_completed_at r = Some c"
    and "now \<le> c + RECEIPT_RETENTION_MS" "length (rs_rows s) \<le> MAX_COMPLETED_RECEIPTS"
  shows "r \<in> set (rs_rows (prune now s))"
proof -
  let ?kept = "sql_delete (\<lambda>r. ir_state r = Completed
                 \<and> (case ir_completed_at r of Some c \<Rightarrow> c < now - RECEIPT_RETENTION_MS | None \<Rightarrow> False)
               \<or> ir_state r = InProgress \<and> ir_claimed_at r < now - RECEIPT_RETENTION_MS) (rs_rows s)"
  have "length (filter (\<lambda>r. ir_state r = Completed) ?kept) \<le> length (rs_rows s)"
    by (simp add: sql_delete_def)
  with assms(5) have "drop MAX_COMPLETED_RECEIPTS (sort_key (\<lambda>r. - coalesce (ir_completed_at r) 0)
      (filter (\<lambda>r. ir_state r = Completed) ?kept)) = []" by simp
  then have "prune_rows now (rs_rows s) = ?kept"
    by (simp add: prune_rows_def Let_def sql_delete_def)
  with assms show ?thesis by (simp add: prune_def)
qed

lemma update_keeps: "r \<in> set rows \<Longrightarrow> \<not> P r \<Longrightarrow> r \<in> set (sql_update P f rows)"
  by (force simp: in_update)

lemma completed_not_owned: "ir_state r = Completed \<Longrightarrow> \<not> owned k token r"
  by (simp add: owned_def)

definition holds_completed :: "receipt_row \<Rightarrow> nat \<Rightarrow> receipt_store \<Rightarrow> bool" where
  "holds_completed r n s \<longleftrightarrow> keyed ir_receipt_id (rs_rows s) \<and> r \<in> set (rs_rows s)
     \<and> length (rs_rows s) + n \<le> MAX_COMPLETED_RECEIPTS"

lemma completed_step:
  assumes h: "holds_completed r (n + (if is_claim e then 1 else 0)) s" and r: "ir_state r = Completed" "ir_completed_at r = Some c"
    and t: "claims_until (c + RECEIPT_RETENTION_MS) e"
  shows "holds_completed r n (ingress_step e s)"
proof -
  from h have keyed: "keyed ir_receipt_id (rs_rows s)" and mem: "r \<in> set (rs_rows s)"
    by (simp_all add: holds_completed_def)
  have "r \<in> set (rs_rows (ingress_step e s)) \<and> length (rs_rows (ingress_step e s)) + n \<le> MAX_COMPLETED_RECEIPTS"
  proof (cases e)
    case (IClaim now uuid inp)
    obtain s' res where cl: "ingress_claim now uuid inp s = (s', res)" by (cases "ingress_claim now uuid inp s")
    from t IClaim have now: "now \<le> c + RECEIPT_RETENTION_MS" by simp
    from h IClaim have len: "length (rs_rows s) + n + 1 \<le> MAX_COMPLETED_RECEIPTS" by (simp add: holds_completed_def)
    have kept: "r \<in> set (rs_rows (prune now s))"
      by (rule prune_keeps [OF mem r now]) (use len in simp)
    from cl have "r \<in> set (rs_rows s') \<and> length (rs_rows s') \<le> length (rs_rows (prune now s)) + 1"
      by (cases rule: ingress_claim_cases) (use kept r in \<open>simp_all add: update_keeps completed_not_owned\<close>)
    with len prune_length [of now s] IClaim cl show ?thesis by simp
  qed (use h mem r in \<open>simp_all add: holds_completed_def ingress_prepare_def ingress_checkpoint_def
         write_owned_def complete_rows ingress_abandon_def new_instance_def update_keeps completed_not_owned\<close>)
  with ingress_step_keyed [OF keyed, of e] show ?thesis by (simp add: holds_completed_def)
qed

lemma completed_run:
  "holds_completed r (n + length (filter is_claim es)) s \<Longrightarrow> ir_state r = Completed \<Longrightarrow>
     ir_completed_at r = Some c \<Longrightarrow> \<forall>e \<in> set es. claims_until (c + RECEIPT_RETENTION_MS) e \<Longrightarrow>
     holds_completed r n (run_steps ingress_step es s)"
proof (induction es arbitrary: s)
  case (Cons e es)
  then have "holds_completed r ((n + length (filter is_claim es)) + (if is_claim e then 1 else 0)) s"
    by (simp split: if_splits)
  from completed_step [OF this Cons.prems(2,3)] Cons.prems(4) Cons.IH Cons.prems(2,3) show ?case by simp
qed simp

lemma claim_completed:
  assumes h: "holds_completed r n s" and r: "ir_state r = Completed" "ir_completed_at r = Some c" "ir_result r = Some v"
    and v: "isAdapterInboundResult v" "json_get v ''replayed'' = None"
    and now: "now \<le> c + RECEIPT_RETENTION_MS" and inp: "in_receiptId inp = ir_receipt_id r"
  shows "ingress_claim now uuid inp s = (prune now s, Inr (RcCompleted (ir_receipt_id r) v))"
proof -
  from h have keyed: "keyed ir_receipt_id (rs_rows s)" and mem: "r \<in> set (rs_rows s)"
    and len: "length (rs_rows s) \<le> MAX_COMPLETED_RECEIPTS" by (simp_all add: holds_completed_def)
  have "r \<in> set (rs_rows (prune now s))" by (rule prune_keeps [OF mem r(1,2) now len])
  then have "getByReceiptId (rs_rows (prune now s)) (in_receiptId inp) = Some r"
    using prune_keyed [OF keyed] inp by (simp add: getByReceiptId_def lookup_iff)
  with r v show ?thesis
    by (simp add: ingress_claim_def Let_def claim_existing_def completedClaimFromRow_def
        parseAdapterInboundResult_def)
qed

section \<open>Properties\<close>

text \<open>C24. Once a receipt has been handed to a new owner, the previous owner is fenced for good: after
  any further claims, writes, completions, abandonments and restarts, preparing a result or
  checkpointing under the old token throws and changes nothing, and completing or abandoning under
  it leaves every receipt as it is.\<close>

theorem superseded_owner_is_fenced:
  assumes "keyed ir_receipt_id (rs_rows s)"
    and "\<forall>x \<in> set (rs_rows s). ir_claim_token x = t \<longrightarrow> ir_receipt_id x = k"
    and "ingress_claim now uuid inp s = (s', res)" "uuid \<noteq> t"
    and "(\<exists>p. res = Inr (RcClaimed k uuid p)) \<or> (\<exists>v. res = Inr (RcPrepared k uuid v))"
    and "\<forall>e \<in> set es. \<not> claims_with t e"
  shows "let z = run_steps ingress_step es s'
         in ingress_prepare k' t v z = (z, throw (''Adapter ingress receipt is not owned: '' @ k'))
          \<and> ingress_checkpoint k' t v z = (z, throw (''Adapter ingress receipt is not owned: '' @ k'))
          \<and> rs_rows (fst (ingress_complete later k' t z)) = rs_rows z
          \<and> rs_rows (ingress_abandon k' t z) = rs_rows z"
proof -
  let ?z = "run_steps ingress_step es s'"
  have "dead_token t (rs_rows ?z)"
    by (rule dead_token_run [OF reclaim_kills_token [OF assms(1-5)] assms(6)])
  then have none: "\<not> owned k' t r" if "r \<in> set (rs_rows ?z)" for r
    using that by (rule dead_token_owns_nothing)
  then have no: "\<not> list_ex (owned k' t) (rs_rows ?z)" by (auto simp: list_ex_iff)
  have upd: "sql_update (owned k' t) f (rs_rows ?z) = rs_rows ?z"
    and upd2: "sql_update (\<lambda>r. owned k' t r \<and> ir_result r \<noteq> None) f (rs_rows ?z) = rs_rows ?z" for f
    using none by (auto intro: update_none)
  have "rs_rows (fst (ingress_complete later k' t ?z)) = rs_rows ?z"
    using upd2 by (simp add: ingress_complete_def Let_def split: option.split)
  with no upd show ?thesis
    by (simp add: Let_def ingress_prepare_def ingress_checkpoint_def write_owned_def ingress_abandon_def)
qed

definition sample_input :: receipt_input where
  "sample_input = \<lparr>in_receiptId = ''k'', in_adapter = ''telegram'', in_accountId = ''a'', in_actorId = ''u'',
     in_surfaceKind = ''dm'', in_surfaceId = ''s'', in_threadId = None, in_providerMessageId = ''m'',
     in_providerDeliveryId = ''d''\<rparr>"

definition empty_receipts :: receipt_store where
  "empty_receipts = \<lparr>rs_rows = [], rs_activeClaims = [], rs_nextPruneAt = 0\<rparr>"

definition sample_claimed :: receipt_store where
  "sample_claimed = \<lparr>rs_rows = [new_receipt 5 ''t1'' sample_input], rs_activeClaims = [], rs_nextPruneAt = 1000\<rparr>"

theorem superseded_owner_is_fenced_witness:
  "let z = run_steps ingress_step [IRestart, IAbandon ''k'' ''t2''] (fst (ingress_claim 6 ''t2'' sample_input sample_claimed))
   in ingress_prepare ''k'' ''t1'' JNull z = (z, throw ''Adapter ingress receipt is not owned: k'')"
proof -
  have c: "ingress_claim 6 ''t2'' sample_input sample_claimed
      = (fst (ingress_claim 6 ''t2'' sample_input sample_claimed), Inr (RcClaimed ''k'' ''t2'' None))"
    by (simp add: ingress_claim_def prune_def sample_claimed_def getByReceiptId_def sql_lookup_def
        new_receipt_def sample_input_def claim_existing_def reclaim_def owned_def act_bind_def act_modify_def)
  have k: "keyed ir_receipt_id (rs_rows sample_claimed)" by (simp add: sample_claimed_def keyed_def)
  have o: "\<forall>x \<in> set (rs_rows sample_claimed). ir_claim_token x = ''t1'' \<longrightarrow> ir_receipt_id x = ''k''"
    by (simp add: sample_claimed_def new_receipt_def sample_input_def)
  have es: "\<forall>e \<in> set [IRestart, IAbandon ''k'' ''t2'']. \<not> claims_with ''t1'' e" by simp
  have ne: "''t2'' \<noteq> ''t1''" by simp
  from superseded_owner_is_fenced [OF k o c ne _ es, of "''k''" JNull 0] show ?thesis by (simp add: Let_def)
qed

text \<open>A completed receipt is answered from its stored result: after any further claims of any
  deliveries, writes under any token and restarts, as long as the claims come within the retention
  period and fewer than the maximum number of receipts exist, a replay of the delivery returns the
  completed result and grants no new claim.\<close>

theorem completed_result_is_replayed:
  assumes "keyed ir_receipt_id (rs_rows s)" "r \<in> set (rs_rows s)"
    and "ir_state r = Completed" "ir_completed_at r = Some c" "ir_result r = Some v"
    and "isAdapterInboundResult v" "json_get v ''replayed'' = None"
    and "length (rs_rows s) + length (filter is_claim es) \<le> MAX_COMPLETED_RECEIPTS"
    and "\<forall>e \<in> set es. claims_until (c + RECEIPT_RETENTION_MS) e"
    and "now \<le> c + RECEIPT_RETENTION_MS" "in_receiptId inp = ir_receipt_id r"
  shows "snd (ingress_claim now uuid inp (run_steps ingress_step es s)) = Inr (RcCompleted (ir_receipt_id r) v)"
proof -
  have "holds_completed r 0 (run_steps ingress_step es s)"
    by (rule completed_run [OF _ assms(3,4,9)]) (use assms in \<open>simp add: holds_completed_def\<close>)
  from claim_completed [OF this assms(3-7,10,11)] show ?thesis by simp
qed

definition sample_done :: receipt_row where
  "sample_done = (new_receipt 5 ''t1'' sample_input)\<lparr>ir_state := Completed, ir_completed_at := Some 7,
     ir_result := Some (JObj [(''ok'', JBool True)])\<rparr>"

theorem completed_result_is_replayed_witness:
  "snd (ingress_claim 9 ''t3'' sample_input (run_steps ingress_step
       [IRestart, IClaim 8 ''t2'' sample_input, IAbandon ''k'' ''t1'']
       \<lparr>rs_rows = [sample_done], rs_activeClaims = [''t1''], rs_nextPruneAt = 0\<rparr>))
     = Inr (RcCompleted ''k'' (JObj [(''ok'', JBool True)]))"
proof -
  have v: "isAdapterInboundResult (JObj [(''ok'', JBool True)])"
    by (simp add: isAdapterInboundResult_def json_get_def json_is_bool_def json_optional_def)
  have "snd (ingress_claim 9 ''t3'' sample_input (run_steps ingress_step
       [IRestart, IClaim 8 ''t2'' sample_input, IAbandon ''k'' ''t1'']
       \<lparr>rs_rows = [sample_done], rs_activeClaims = [''t1''], rs_nextPruneAt = 0\<rparr>))
     = Inr (RcCompleted (ir_receipt_id sample_done) (JObj [(''ok'', JBool True)]))"
    by (rule completed_result_is_replayed [of _ _ 7])
       (use v in \<open>simp_all add: sample_done_def keyed_def new_receipt_def sample_input_def json_get_def
          MAX_COMPLETED_RECEIPTS_def RECEIPT_RETENTION_MS_def\<close>)
  then show ?thesis by (simp add: sample_done_def new_receipt_def sample_input_def)
qed

text \<open>Abandoning a receipt sets its claim time to 0, and the retention rule of the next prune reads
  that as older than the retention period. So the retry of an abandoned delivery resumes from the
  checkpoint only when no prune is due; when one is (on every fresh kernel instance, and hourly),
  the receipt is deleted first and the retry is granted as new work, without the recovery state.\<close>

theorem abandoned_checkpoint_lost_at_prune:
  assumes "keyed ir_receipt_id (rs_rows s)" "r \<in> set (rs_rows s)" "owned k t r" "ir_result r = None"
    and "\<forall>x \<in> set (rs_rows s). ir_provider_delivery_id x \<noteq> None
           \<and> (receipt_key x = receipt_key (new_receipt now uuid inp) \<longrightarrow> ir_receipt_id x = k)"
    and "in_receiptId inp = k" "RECEIPT_RETENTION_MS < now"
  shows "snd (ingress_claim now uuid inp (ingress_abandon k t s)) =
           Inr (RcClaimed k uuid (if rs_nextPruneAt s \<le> now then None else ir_progress r))"
proof -
  let ?s = "ingress_abandon k t s" and ?r = "r\<lparr>ir_claimed_at := 0\<rparr>"
  from assms(3) have r: "ir_receipt_id r = k" "ir_state r = InProgress" "ir_claim_token r = t"
    by (simp_all add: owned_def)
  have next_prune: "rs_nextPruneAt ?s = rs_nextPruneAt s" and active: "t \<notin> set (rs_activeClaims ?s)"
    by (simp_all add: ingress_abandon_def)
  have keyed: "keyed ir_receipt_id (rs_rows ?s)"
    using assms(1) by (simp add: ingress_abandon_def keyed_update)
  have mem: "?r \<in> set (rs_rows ?s)"
    using assms(2,3) by (force simp: ingress_abandon_def in_update)
  have only: "x = ?r" if "x \<in> set (rs_rows ?s)" "ir_receipt_id x = k" for x
    using keyed_unique [OF keyed that(1) mem] that(2) r(1) by simp
  have rest: "ir_provider_delivery_id x \<noteq> None
      \<and> (receipt_key x = receipt_key (new_receipt now uuid inp) \<longrightarrow> ir_receipt_id x = k)"
    if "x \<in> set (rs_rows ?s)" for x
  proof -
    from that obtain y where y: "y \<in> set (rs_rows s)"
      and x: "x = (if owned k t y then y\<lparr>ir_claimed_at := 0\<rparr> else y)"
      by (auto simp: ingress_abandon_def in_update)
    then have "ir_provider_delivery_id x = ir_provider_delivery_id y" "receipt_key x = receipt_key y"
      "ir_receipt_id x = ir_receipt_id y" by (simp_all add: receipt_key_def)
    with assms(5) y show ?thesis by metis
  qed
  show ?thesis
  proof (cases "rs_nextPruneAt s \<le> now")
    case True
    let ?p = "rs_rows (prune now ?s)"
    have sub: "x \<in> set (rs_rows ?s) \<and> x \<noteq> ?r" if "x \<in> set ?p" for x
      using that True next_prune r(2) assms(7)
      by (auto simp: prune_def prune_rows_def Let_def RECEIPT_RETENTION_MS_def)
    have gone: "ir_receipt_id x \<noteq> k" if "x \<in> set ?p" for x
      using sub [OF that] only by blast
    then have "getByReceiptId ?p k = None" by (simp add: getByReceiptId_def lookup_None)
    moreover have "filter (legacy_match inp) ?p = []"
      using sub rest by (auto simp: filter_empty_conv legacy_match_def)
    then have "getLegacyReceipt ?p inp = LegacyResolved None" by (simp add: getLegacyReceipt_def)
    moreover have "\<not> list_ex (\<lambda>x. ir_receipt_id x = ir_receipt_id (new_receipt now uuid inp)
        \<or> receipt_key x = receipt_key (new_receipt now uuid inp)) ?p"
      using gone sub rest assms(6) by (auto simp: list_ex_iff new_receipt_def)
    ultimately show ?thesis
      using assms(6) True by (simp add: ingress_claim_def Let_def claim_new_def insert_receipt_def)
  next
    case False
    then have p: "prune now ?s = ?s"
      using next_prune by (simp add: prune_def)
    have found: "getByReceiptId (rs_rows ?s) k = Some ?r"
      using mem r(1) by (simp add: getByReceiptId_def lookup_iff [OF keyed])
    have "owned k t ?r" using assms(3) by (simp add: owned_def)
    with mem have "list_ex (owned k t) (rs_rows ?s)" unfolding list_ex_iff by blast
    with r assms(4,6) active False found show ?thesis
      by (simp add: ingress_claim_def Let_def p claim_existing_def reclaim_def act_bind_def act_modify_def)
  qed
qed

theorem abandoned_checkpoint_lost_at_prune_witness:
  "snd (ingress_claim 1700000000000 ''t2'' sample_input (ingress_abandon ''k'' ''t1''
     (new_instance \<lparr>rs_rows = [(new_receipt 1699999999000 ''t1'' sample_input)\<lparr>ir_progress := Some (JStr ''run'')\<rparr>],
        rs_activeClaims = [''t1''], rs_nextPruneAt = 1700000009000\<rparr>)))
     = Inr (RcClaimed ''k'' ''t2'' None)"
proof -
  let ?r = "(new_receipt 1699999999000 ''t1'' sample_input)\<lparr>ir_progress := Some (JStr ''run'')\<rparr>"
  let ?s = "new_instance \<lparr>rs_rows = [?r], rs_activeClaims = [''t1''], rs_nextPruneAt = 1700000009000\<rparr>"
  have "snd (ingress_claim 1700000000000 ''t2'' sample_input (ingress_abandon ''k'' ''t1'' ?s))
      = Inr (RcClaimed ''k'' ''t2'' (if rs_nextPruneAt ?s \<le> 1700000000000 then None else ir_progress ?r))"
    by (rule abandoned_checkpoint_lost_at_prune)
       (simp_all add: new_instance_def owned_def new_receipt_def sample_input_def RECEIPT_RETENTION_MS_def keyed_def)
  then show ?thesis by (simp add: new_instance_def)
qed

end
