(* ===== verification/Cron.thy ===== *)
theory Cron
  imports Prelude
begin

text \<open>
  Schedule expressions and when they fire (\<open>kernel/scheduler.ts\<close>): normalisation of an expression,
  the five-field cron syntax, and the next run after a moment. \<open>Intl.DateTimeFormat\<close> is the parameter
  \<open>zoned\<close>, from a time zone and a moment in milliseconds to the local calendar fields;
  \<open>valid_timezone\<close> says which names its constructor accepts. A \<open>Set\<close> of field values is a list without
  duplicates. The scan of \<open>computeCronNextRunAt\<close> is bounded by the source, so the model recurses on
  the remaining minutes.
\<close>

section \<open>Expressions\<close>

datatype schedule_expression = ExAt int | ExAfter int | ExEvery int "int option" | ExCron string string

definition MIN_INTERVAL_MS :: int where "MIN_INTERVAL_MS = 1000"
definition MAX_CRON_SCAN_MINUTES :: nat where "MAX_CRON_SCAN_MINUTES = 366 * 24 * 60 * 5"

definition normalizePositiveInteger :: "json option \<Rightarrow> string \<Rightarrow> int result" where
  "normalizePositiveInteger v label =
     (case v of
        Some (JNum (IntNum i)) \<Rightarrow> if i \<le> 0 then throw (label @ '' must be a positive integer'') else Inr i
      | _ \<Rightarrow> throw (label @ '' must be a positive integer''))"

definition normalizeTimestamp :: "json option \<Rightarrow> string \<Rightarrow> int result" where
  "normalizeTimestamp v label =
     bind_result (normalizePositiveInteger v label)
       (\<lambda>n. if n < 0 then throw (label @ '' must be non-negative'') else Inr n)"

definition normalizeRequiredText :: "json option \<Rightarrow> string \<Rightarrow> string result" where
  "normalizeRequiredText v label =
     (case json_string v of
        Some x \<Rightarrow> if js_trim x = [] then throw (label @ '' is required'') else Inr (js_trim x)
      | None \<Rightarrow> throw (label @ '' is required''))"

definition normalizeOptionalText :: "json option \<Rightarrow> string option result" where
  "normalizeOptionalText v =
     (case v of
        None \<Rightarrow> Inr None
      | Some JNull \<Rightarrow> Inr None
      | Some (JStr x) \<Rightarrow> Inr (if js_trim x \<noteq> [] then Some (js_trim x) else None)
      | Some _ \<Rightarrow> throw ''description must be a string'')"

definition normalizeTimezone :: "(string \<Rightarrow> bool) \<Rightarrow> json option \<Rightarrow> string result" where
  "normalizeTimezone valid_timezone v =
     bind_result (normalizeRequiredText v ''timezone'')
       (\<lambda>tz. if valid_timezone tz then Inr tz else throw ''timezone must be a valid IANA timezone'')"

section \<open>Cron syntax\<close>

fun split_words :: "string \<Rightarrow> string \<Rightarrow> string list" where
  "split_words w [] = (if w = [] then [] else [rev w])"
| "split_words w (c # cs) =
     (if js_ws c then (if w = [] then split_words [] cs else rev w # split_words [] cs)
      else split_words (c # w) cs)"

text \<open>\<open>s.split(/\s+/)\<close> of a trimmed string.\<close>

definition split_ws :: "string \<Rightarrow> string list" where
  "split_ws s = (if s = [] then [[]] else split_words [] s)"

definition all_digits :: "string \<Rightarrow> bool" where
  "all_digits s \<longleftrightarrow> s \<noteq> [] \<and> list_all is_digit s"

definition parseCronNumber :: "string \<Rightarrow> int \<Rightarrow> int \<Rightarrow> string \<Rightarrow> int result" where
  "parseCronNumber value mn mx label =
     (if \<not> all_digits value then throw (''cron '' @ label @ '' must be numeric'')
      else (let n = int (digits_val value) in
            if n < mn \<or> n > mx
            then throw (''cron '' @ label @ '' value '' @ show_int n @ '' is outside '' @ show_int mn @ ''-'' @ show_int mx)
            else Inr n))"

definition parsePositiveStep :: "string \<Rightarrow> string \<Rightarrow> int result" where
  "parsePositiveStep value label =
     (if \<not> all_digits value then throw (''cron '' @ label @ '' step must be numeric'')
      else if int (digits_val value) \<le> 0 then throw (''cron '' @ label @ '' step must be positive'')
      else Inr (int (digits_val value)))"

definition parseCronRange :: "string \<Rightarrow> int \<Rightarrow> int \<Rightarrow> string \<Rightarrow> (int \<times> int) result" where
  "parseCronRange value mn mx label =
     (if value = ''*'' then Inr (mn, mx)
      else case js_split (CHR ''-'') value of
        [a] \<Rightarrow> bind_result (parseCronNumber a mn mx label) (\<lambda>n. Inr (n, n))
      | [a, b] \<Rightarrow>
          bind_result (parseCronNumber a mn mx label) (\<lambda>start.
          bind_result (parseCronNumber b mn mx label) (\<lambda>stop.
          if start > stop then throw (''cron '' @ label @ '' range starts after it ends'')
          else Inr (start, stop)))
      | _ \<Rightarrow> throw (''cron '' @ label @ '' range is invalid''))"

text \<open>The values a part adds: \<open>for (current = start; current <= end; current += step)\<close>.\<close>

function step_range :: "int \<Rightarrow> int \<Rightarrow> int \<Rightarrow> int list" where
  "step_range current stop step =
     (if current \<le> stop \<and> 0 < step then current # step_range (current + step) stop step else [])"
  by auto
termination by (relation "measure (\<lambda>(c, e, s). nat (e - c + 1))") auto

declare step_range.simps [simp del]

definition set_add :: "int list \<Rightarrow> int \<Rightarrow> int list" where
  "set_add out v = (if v \<in> set out then out else out @ [v])"

definition parse_cron_part :: "string \<Rightarrow> int \<Rightarrow> int \<Rightarrow> string \<Rightarrow> int list result" where
  "parse_cron_part rawPart mn mx label =
     (let part = js_trim rawPart in
      if part = [] then throw (''cron '' @ label @ '' contains an empty list item'')
      else case js_split (CHR ''/'') part of
        [rangePart] \<Rightarrow>
          bind_result (parseCronRange rangePart mn mx label) (\<lambda>(start, stop). Inr (step_range start stop 1))
      | [rangePart, stepPart] \<Rightarrow>
          bind_result (parsePositiveStep stepPart label) (\<lambda>step.
          bind_result (parseCronRange rangePart mn mx label) (\<lambda>(start, stop). Inr (step_range start stop step)))
      | _ \<Rightarrow> throw (''cron '' @ label @ '' has invalid step syntax''))"

definition parseCronField :: "string \<Rightarrow> int \<Rightarrow> int \<Rightarrow> string \<Rightarrow> int list result" where
  "parseCronField value mn mx label =
     bind_result (map_result (\<lambda>p. parse_cron_part p mn mx label) (js_split (CHR '','') value)) (\<lambda>parts.
       let out = foldl set_add [] (concat parts) in
       if out = [] then throw (''cron '' @ label @ '' has no values'') else Inr out)"

definition normalizeDayOfWeek :: "int list \<Rightarrow> int list" where
  "normalizeDayOfWeek values = foldl set_add [] (map (\<lambda>v. if v = 7 then 0 else v) values)"

definition isFullCronRange :: "int list \<Rightarrow> int \<Rightarrow> int \<Rightarrow> bool" where
  "isFullCronRange values mn mx =
     (if int (length values) \<noteq> mx - mn + 1 then False else list_all (\<lambda>v. v \<in> set values) [mn..mx])"

record cron_fields =
  cf_minute :: "int list"
  cf_hour :: "int list"
  cf_dayOfMonth :: "int list"
  cf_month :: "int list"
  cf_dayOfWeek :: "int list"
  cf_anyDayOfMonth :: bool
  cf_anyDayOfWeek :: bool

record date_parts =
  dp_minute :: int
  dp_hour :: int
  dp_dayOfMonth :: int
  dp_month :: int
  dp_dayOfWeek :: int

definition parseCronFields :: "string \<Rightarrow> cron_fields result" where
  "parseCronFields expr =
     (case split_ws (js_trim expr) of
        [p0, p1, p2, p3, p4] \<Rightarrow>
          bind_result (parseCronField p2 1 31 ''day-of-month'') (\<lambda>dayOfMonth.
          bind_result (parseCronField p4 0 7 ''day-of-week'') (\<lambda>dayOfWeek.
          bind_result (parseCronField p0 0 59 ''minute'') (\<lambda>minute.
          bind_result (parseCronField p1 0 23 ''hour'') (\<lambda>hour.
          bind_result (parseCronField p3 1 12 ''month'') (\<lambda>month.
          Inr \<lparr>cf_minute = minute, cf_hour = hour, cf_dayOfMonth = dayOfMonth, cf_month = month,
               cf_dayOfWeek = normalizeDayOfWeek dayOfWeek,
               cf_anyDayOfMonth = isFullCronRange dayOfMonth 1 31,
               cf_anyDayOfWeek = isFullCronRange (normalizeDayOfWeek dayOfWeek) 0 6\<rparr>)))))
      | _ \<Rightarrow> throw ''cron expression must use five fields: minute hour day-of-month month day-of-week'')"

definition cronFieldsMatch :: "cron_fields \<Rightarrow> date_parts \<Rightarrow> bool" where
  "cronFieldsMatch f d =
     (if dp_minute d \<notin> set (cf_minute f) \<or> dp_hour d \<notin> set (cf_hour f) \<or> dp_month d \<notin> set (cf_month f)
      then False
      else (let domMatches = dp_dayOfMonth d \<in> set (cf_dayOfMonth f);
                dowMatches = dp_dayOfWeek d \<in> set (cf_dayOfWeek f)
            in if cf_anyDayOfMonth f \<and> cf_anyDayOfWeek f then True
               else if cf_anyDayOfMonth f then dowMatches
               else if cf_anyDayOfWeek f then domMatches
               else domMatches \<or> dowMatches))"

section \<open>Normalisation\<close>

definition normalizeScheduleExpression :: "(string \<Rightarrow> bool) \<Rightarrow> string option \<Rightarrow> json
    \<Rightarrow> schedule_expression result" where
  "normalizeScheduleExpression valid_timezone config_timezone v =
     (case v of
        JObj _ \<Rightarrow>
          (let kind = json_string (json_get v ''kind'') in
           if kind = Some ''at''
           then bind_result (normalizeTimestamp (json_get v ''atMs'') ''schedule atMs'') (\<lambda>t. Inr (ExAt t))
           else if kind = Some ''after''
           then bind_result (normalizePositiveInteger (json_get v ''afterMs'') ''schedule afterMs'') (\<lambda>d. Inr (ExAfter d))
           else if kind = Some ''every''
           then bind_result (normalizePositiveInteger (json_get v ''everyMs'') ''schedule everyMs'') (\<lambda>n.
                  if n < MIN_INTERVAL_MS
                  then throw (''schedule everyMs must be at least '' @ show_int MIN_INTERVAL_MS)
                  else case json_get v ''anchorMs'' of
                    None \<Rightarrow> Inr (ExEvery n None)
                  | Some a \<Rightarrow> bind_result (normalizeTimestamp (Some a) ''schedule anchorMs'') (\<lambda>t. Inr (ExEvery n (Some t))))
           else if kind = Some ''cron''
           then bind_result (normalizeRequiredText (json_get v ''expr'') ''cron expression'') (\<lambda>expr.
                bind_result (parseCronFields expr) (\<lambda>_.
                bind_result (normalizeTimezone valid_timezone
                    (if json_truthy (json_get v ''timezone'') then json_get v ''timezone''
                     else Some (JStr (case config_timezone of Some (c # cs) \<Rightarrow> c # cs | _ \<Rightarrow> ''UTC'')))) (\<lambda>tz.
                Inr (ExCron expr tz))))
           else throw ''unsupported schedule expression kind'')
      | JArr _ \<Rightarrow> throw ''unsupported schedule expression kind''
      | _ \<Rightarrow> throw ''schedule expression must be an object'')"

definition isOneShotExpression :: "schedule_expression \<Rightarrow> bool" where
  "isOneShotExpression e = (case e of ExAt _ \<Rightarrow> True | ExAfter _ \<Rightarrow> True | _ \<Rightarrow> False)"

definition assertSchedulableAtExpression :: "schedule_expression \<Rightarrow> bool \<Rightarrow> int \<Rightarrow> unit result" where
  "assertSchedulableAtExpression e enabled now =
     (if enabled \<and> (case e of ExAt t \<Rightarrow> t \<le> now | _ \<Rightarrow> False)
      then throw ''schedule atMs must be in the future'' else Inr ())"

section \<open>The next run\<close>

definition computeEveryNextRunAt :: "int \<Rightarrow> int option \<Rightarrow> int \<Rightarrow> int" where
  "computeEveryNextRunAt everyMs anchorMs afterMs =
     (let anchor = coalesce anchorMs afterMs in
      if afterMs < anchor then anchor
      else anchor + ((afterMs - anchor) div everyMs + 1) * everyMs)"

fun cron_scan :: "cron_fields \<Rightarrow> (int \<Rightarrow> date_parts) \<Rightarrow> nat \<Rightarrow> int \<Rightarrow> int option" where
  "cron_scan f local 0 candidate = None"
| "cron_scan f local (Suc left) candidate =
     (if cronFieldsMatch f (local candidate) then Some candidate
      else cron_scan f local left (candidate + 60000))"

definition first_minute_after :: "int \<Rightarrow> int" where
  "first_minute_after afterMs = afterMs div 60000 * 60000 + 60000"

definition computeCronNextRunAt :: "(string \<Rightarrow> int \<Rightarrow> date_parts) \<Rightarrow> string \<Rightarrow> string \<Rightarrow> int \<Rightarrow> int result" where
  "computeCronNextRunAt zoned expr timezone afterMs =
     bind_result (parseCronFields expr) (\<lambda>f.
       case cron_scan f (zoned timezone) MAX_CRON_SCAN_MINUTES (first_minute_after afterMs) of
         Some t \<Rightarrow> Inr t
       | None \<Rightarrow> throw (''cron expression has no next run within '' @ show_nat MAX_CRON_SCAN_MINUTES @ '' minutes''))"

definition computeNextRunAt :: "(string \<Rightarrow> int \<Rightarrow> date_parts) \<Rightarrow> schedule_expression \<Rightarrow> int \<Rightarrow> int option result" where
  "computeNextRunAt zoned e afterMs =
     (case e of
        ExAt t \<Rightarrow> Inr (if t > afterMs then Some t else None)
      | ExAfter d \<Rightarrow> Inr (Some (afterMs + d))
      | ExEvery n anchor \<Rightarrow> Inr (Some (computeEveryNextRunAt n anchor afterMs))
      | ExCron expr tz \<Rightarrow> bind_result (computeCronNextRunAt zoned expr tz afterMs) (\<lambda>t. Inr (Some t)))"

definition computeNextRunAfterFinish :: "(string \<Rightarrow> int \<Rightarrow> date_parts) \<Rightarrow> schedule_expression \<Rightarrow> int
    \<Rightarrow> (bool \<times> int option) result" where
  "computeNextRunAfterFinish zoned e finishedAtMs =
     (case e of
        ExAt _ \<Rightarrow> Inr (False, None)
      | ExAfter _ \<Rightarrow> Inr (False, None)
      | _ \<Rightarrow> bind_result (computeNextRunAt zoned e finishedAtMs) (\<lambda>t. Inr (True, t)))"

section \<open>Lemmas\<close>

lemma step_range_iff:
  "0 < step \<Longrightarrow> v \<in> set (step_range c e step) \<longleftrightarrow> c \<le> v \<and> v \<le> e \<and> (v - c) mod step = 0"
proof (induction c e step rule: step_range.induct)
  case (1 c e step)
  show ?case
  proof (cases "c \<le> e")
    case False
    then show ?thesis by (subst step_range.simps) auto
  next
    case True
    have less: "(v - c) mod step = 0 \<and> c \<le> v \<Longrightarrow> v \<noteq> c \<Longrightarrow> c + step \<le> v"
    proof -
      assume a: "(v - c) mod step = 0 \<and> c \<le> v" and ne: "v \<noteq> c"
      then obtain k where k: "v - c = step * k" by (auto simp: mod_eq_0_iff_dvd)
      with a ne 1(2) have "0 < k" by (metis diff_ge_0_iff_ge eq_iff_diff_eq_0 mult_eq_0_iff
          order_le_less zero_less_mult_pos)
      with k 1(2) show "c + step \<le> v" by (smt (verit) mult_le_cancel_left1)
    qed
    have "(v - (c + step)) mod step = (v - c) mod step"
      by (metis diff_diff_eq minus_mod_self2)
    with 1 True less show ?thesis by (subst step_range.simps) auto
  qed
qed

lemma set_foldl_add: "set (foldl set_add out vs) = set out \<union> set vs"
  by (induction vs arbitrary: out) (auto simp: set_add_def)

lemma foldl_add_distinct: "distinct out \<Longrightarrow> distinct (foldl set_add out vs)"
  by (induction vs arbitrary: out) (auto simp: set_add_def)

lemma parseCronNumber_bounds: "parseCronNumber v mn mx l = Inr n \<Longrightarrow> mn \<le> n \<and> n \<le> mx"
  by (auto simp: parseCronNumber_def Let_def split: if_splits)

lemma parseCronRange_bounds:
  "parseCronRange v mn mx l = Inr (a, b) \<Longrightarrow> mn \<le> a \<and> b \<le> mx"
  by (auto simp: parseCronRange_def dest!: parseCronNumber_bounds split: list.splits if_splits)

lemma parse_cron_part_bounds:
  assumes "parse_cron_part p mn mx l = Inr vs" "v \<in> set vs"
  shows "mn \<le> v \<and> v \<le> mx"
proof -
  from assms(1) obtain a b step where "vs = step_range a b step" "0 < step" "mn \<le> a \<and> b \<le> mx"
    by (auto simp: parse_cron_part_def Let_def parsePositiveStep_def dest!: parseCronRange_bounds
        split: list.splits if_splits)
  with assms(2) show ?thesis by (simp add: step_range_iff)
qed

lemma parseCronField_bounds:
  assumes "parseCronField s mn mx l = Inr vs"
  shows "vs \<noteq> [] \<and> distinct vs \<and> (\<forall>v \<in> set vs. mn \<le> v \<and> v \<le> mx)"
proof -
  from assms obtain parts where parts: "map_result (\<lambda>p. parse_cron_part p mn mx l) (js_split (CHR '','') s) = Inr parts"
    and vs: "vs = foldl set_add [] (concat parts)" "vs \<noteq> []"
    by (auto simp: parseCronField_def Let_def split: if_splits)
  have "mn \<le> v \<and> v \<le> mx" if v: "v \<in> set vs" for v
  proof -
    from v vs obtain ws where "ws \<in> set parts" "v \<in> set ws" by (auto simp: set_foldl_add)
    with map_result_Inr_set [OF parts] parse_cron_part_bounds show ?thesis by blast
  qed
  with vs show ?thesis by (simp add: foldl_add_distinct)
qed

lemma cron_scan_Some:
  "cron_scan f local n c = Some t \<Longrightarrow>
     \<exists>k < n. t = c + int k * 60000 \<and> cronFieldsMatch f (local t)
       \<and> (\<forall>j < k. \<not> cronFieldsMatch f (local (c + int j * 60000)))"
proof (induction n arbitrary: c)
  case (Suc n)
  show ?case
  proof (cases "cronFieldsMatch f (local c)")
    case True
    with Suc.prems show ?thesis by (intro exI [of _ 0]) simp
  next
    case False
    with Suc.prems Suc.IH [of "c + 60000"] obtain k where k: "k < n" "t = c + 60000 + int k * 60000"
      "cronFieldsMatch f (local t)" "\<forall>j < k. \<not> cronFieldsMatch f (local (c + 60000 + int j * 60000))"
      by auto
    have "\<not> cronFieldsMatch f (local (c + int j * 60000))" if "j < Suc k" for j
    proof (cases j)
      case (Suc i)
      with that k(4) have "\<not> cronFieldsMatch f (local (c + 60000 + int i * 60000))" by simp
      then show ?thesis by (simp add: Suc algebra_simps)
    qed (use False in simp)
    with k show ?thesis by (intro exI [of _ "Suc k"]) (simp add: algebra_simps)
  qed
qed simp

lemma cron_scan_None:
  "cron_scan f local n c = None \<Longrightarrow> j < n \<Longrightarrow> \<not> cronFieldsMatch f (local (c + int j * 60000))"
proof (induction n arbitrary: c j)
  case (Suc n)
  show ?case
  proof (cases j)
    case 0
    with Suc.prems show ?thesis by (simp split: if_splits)
  next
    case (Suc i)
    with Suc.prems Suc.IH [of "c + 60000" i] show ?thesis
      by (simp add: algebra_simps split: if_splits)
  qed
qed simp

section \<open>The specification of the next run\<close>

text \<open>When an expression fires, seen from a moment (which anchors \<open>after\<close> and an unanchored \<open>every\<close>).\<close>

definition fires :: "(string \<Rightarrow> int \<Rightarrow> date_parts) \<Rightarrow> schedule_expression \<Rightarrow> int \<Rightarrow> int \<Rightarrow> bool" where
  "fires zoned e afterMs u \<longleftrightarrow>
     (case e of
        ExAt t \<Rightarrow> u = t
      | ExAfter d \<Rightarrow> u = afterMs + d
      | ExEvery n anchor \<Rightarrow> coalesce anchor afterMs \<le> u \<and> (u - coalesce anchor afterMs) mod n = 0
      | ExCron expr tz \<Rightarrow> u mod 60000 = 0
          \<and> (case parseCronFields expr of Inl _ \<Rightarrow> False | Inr f \<Rightarrow> cronFieldsMatch f (zoned tz u)))"

definition expression_ok :: "schedule_expression \<Rightarrow> bool" where
  "expression_ok e =
     (case e of ExAt t \<Rightarrow> 0 < t | ExAfter d \<Rightarrow> 0 < d
      | ExEvery n anchor \<Rightarrow> MIN_INTERVAL_MS \<le> n \<and> (case anchor of None \<Rightarrow> True | Some a \<Rightarrow> 0 < a)
      | ExCron expr tz \<Rightarrow> (case parseCronFields expr of Inl _ \<Rightarrow> False | Inr _ \<Rightarrow> True))"

lemma normalizePositiveInteger_pos: "normalizePositiveInteger v l = Inr n \<Longrightarrow> 0 < n"
  by (auto simp: normalizePositiveInteger_def split: option.splits json.splits js_number.splits if_splits)

lemma normalizeTimestamp_pos: "normalizeTimestamp v l = Inr n \<Longrightarrow> 0 < n"
  by (auto simp: normalizeTimestamp_def dest: normalizePositiveInteger_pos split: if_splits)

lemma normalized_ok: "normalizeScheduleExpression vt ct v = Inr e \<Longrightarrow> expression_ok e"
  by (auto simp: normalizeScheduleExpression_def Let_def expression_ok_def
      dest!: normalizeTimestamp_pos dest: normalizePositiveInteger_pos
      split: json.splits if_splits option.splits)

lemma every_next:
  assumes n: "0 < n"
  shows "afterMs < computeEveryNextRunAt n anchor afterMs"
    and "coalesce anchor afterMs \<le> computeEveryNextRunAt n anchor afterMs"
    and "(computeEveryNextRunAt n anchor afterMs - coalesce anchor afterMs) mod n = 0"
    and "afterMs < u \<Longrightarrow> coalesce anchor afterMs \<le> u \<Longrightarrow> (u - coalesce anchor afterMs) mod n = 0 \<Longrightarrow>
           computeEveryNextRunAt n anchor afterMs \<le> u"
proof -
  define a where "a = coalesce anchor afterMs"
  define q where "q = (afterMs - a) div n"
  define r where "r = (afterMs - a) mod n"
  have eq: "computeEveryNextRunAt n anchor afterMs = (if afterMs < a then a else a + (q * n + n))"
    by (simp add: computeEveryNextRunAt_def a_def q_def Let_def distrib_right)
  have dm: "q * n + r = afterMs - a" by (simp add: q_def r_def)
  have md: "0 \<le> r" "r < n" using n by (simp_all add: r_def)
  show "afterMs < computeEveryNextRunAt n anchor afterMs" using eq dm md by auto
  show "coalesce anchor afterMs \<le> computeEveryNextRunAt n anchor afterMs"
    using eq dm md unfolding a_def [symmetric] by auto
  show "(computeEveryNextRunAt n anchor afterMs - coalesce anchor afterMs) mod n = 0"
    using eq unfolding a_def [symmetric] by simp
  show "computeEveryNextRunAt n anchor afterMs \<le> u"
    if u: "afterMs < u" "coalesce anchor afterMs \<le> u" "(u - coalesce anchor afterMs) mod n = 0"
  proof (cases "afterMs < a")
    case True
    with eq u(2) show ?thesis by (simp add: a_def)
  next
    case False
    from u(3) obtain k where k: "u - a = n * k" unfolding a_def by (auto simp: mod_eq_0_iff_dvd)
    with u(1) have "afterMs - a < n * k" by linarith
    then have "q * n < k * n" using dm md mult.commute [of n k] by linarith
    with n have "q < k" by (simp add: mult_less_cancel_right)
    then have "(q + 1) * n \<le> k * n" using n by (intro mult_right_mono) auto
    with eq False k show ?thesis by (simp add: algebra_simps)
  qed
qed

lemma minute_after:
  assumes "u mod 60000 = 0" "afterMs < u"
  obtains j where "u = first_minute_after afterMs + int j * 60000"
proof -
  from assms(1) obtain k where k: "u = 60000 * k" by (auto simp: mod_eq_0_iff_dvd)
  have "afterMs div 60000 < k" using assms(2) k by (simp add: div_less_iff_less_mult)
  then have "u = first_minute_after afterMs + int (nat (k - afterMs div 60000 - 1)) * 60000"
    by (simp add: first_minute_after_def k algebra_simps)
  then show thesis by (rule that)
qed

lemma first_minute_later: "afterMs < first_minute_after afterMs" "first_minute_after afterMs \<le> afterMs + 60000"
  "first_minute_after afterMs mod 60000 = 0"
  unfolding first_minute_after_def by linarith+ (simp add: mod_mult_self2_is_0)

lemma cron_next:
  assumes "parseCronFields expr = Inr f"
  shows "case computeCronNextRunAt zoned expr tz afterMs of
     Inr t \<Rightarrow> afterMs < t \<and> fires zoned (ExCron expr tz) afterMs t
       \<and> (\<forall>u. afterMs < u \<and> u < t \<longrightarrow> \<not> fires zoned (ExCron expr tz) afterMs u)
   | Inl _ \<Rightarrow> \<forall>u. afterMs < u \<and> u \<le> afterMs + 60000 * int MAX_CRON_SCAN_MINUTES
       \<longrightarrow> \<not> fires zoned (ExCron expr tz) afterMs u"
proof (cases "cron_scan f (zoned tz) MAX_CRON_SCAN_MINUTES (first_minute_after afterMs)")
  case (Some t)
  from cron_scan_Some [OF this] obtain k where t: "t = first_minute_after afterMs + int k * 60000"
    and m: "cronFieldsMatch f (zoned tz t)"
    and before: "\<forall>j < k. \<not> cronFieldsMatch f (zoned tz (first_minute_after afterMs + int j * 60000))"
    by blast
  have "afterMs < t" using t first_minute_later(1) [of afterMs] by simp
  moreover have "fires zoned (ExCron expr tz) afterMs t"
    using t m first_minute_later(3) [of afterMs] assms by (simp add: fires_def mod_add_eq)
  moreover have "\<not> fires zoned (ExCron expr tz) afterMs u" if u: "afterMs < u" "u < t" for u
  proof
    assume "fires zoned (ExCron expr tz) afterMs u"
    with assms have "u mod 60000 = 0" and mu: "cronFieldsMatch f (zoned tz u)" by (simp_all add: fires_def)
    from this(1) u(1) obtain j where j: "u = first_minute_after afterMs + int j * 60000"
      by (rule minute_after)
    with t u(2) have "j < k" by simp
    with before j mu show False by simp
  qed
  ultimately show ?thesis using Some assms by (simp add: computeCronNextRunAt_def)
next
  case None
  have "\<not> fires zoned (ExCron expr tz) afterMs u"
    if u: "afterMs < u" "u \<le> afterMs + 60000 * int MAX_CRON_SCAN_MINUTES" for u
  proof
    assume "fires zoned (ExCron expr tz) afterMs u"
    with assms have "u mod 60000 = 0" and mu: "cronFieldsMatch f (zoned tz u)" by (simp_all add: fires_def)
    from this(1) u(1) obtain j where j: "u = first_minute_after afterMs + int j * 60000"
      by (rule minute_after)
    have "int j * 60000 < 60000 * int MAX_CRON_SCAN_MINUTES"
      using j u(2) first_minute_later(1) [of afterMs] by linarith
    then have "j < MAX_CRON_SCAN_MINUTES" by (simp add: MAX_CRON_SCAN_MINUTES_def)
    with cron_scan_None [OF None this] j mu show False by simp
  qed
  then show ?thesis using None assms by (simp add: computeCronNextRunAt_def)
qed

section \<open>Properties\<close>

text \<open>C26. For every expression \<open>normalizeScheduleExpression\<close> accepts, the next run is the first firing
  strictly after the given moment: \<open>computeNextRunAt\<close> returns a moment at which the expression fires
  and before which it does not fire again; it returns none only for an \<open>at\<close> that has passed; and it
  fails only for a cron expression that matches no minute of the following five years of 366 days.\<close>

theorem next_run_is_first_firing:
  assumes "normalizeScheduleExpression valid_timezone config_timezone v = Inr e"
  shows "case computeNextRunAt zoned e afterMs of
      Inr (Some t) \<Rightarrow> afterMs < t \<and> fires zoned e afterMs t
        \<and> (\<forall>u. afterMs < u \<and> u < t \<longrightarrow> \<not> fires zoned e afterMs u)
    | Inr None \<Rightarrow> \<forall>u > afterMs. \<not> fires zoned e afterMs u
    | Inl _ \<Rightarrow> (\<exists>expr tz. e = ExCron expr tz)
        \<and> (\<forall>u. afterMs < u \<and> u \<le> afterMs + 60000 * (366 * 24 * 60 * 5) \<longrightarrow> \<not> fires zoned e afterMs u)"
proof (cases e)
  case (ExAt t)
  then show ?thesis by (simp add: computeNextRunAt_def fires_def)
next
  case (ExAfter d)
  with normalized_ok [OF assms] show ?thesis by (simp add: computeNextRunAt_def fires_def expression_ok_def)
next
  case (ExEvery n anchor)
  with normalized_ok [OF assms] have n: "0 < n" by (simp add: expression_ok_def MIN_INTERVAL_MS_def)
  have "\<not> (coalesce anchor afterMs \<le> u \<and> (u - coalesce anchor afterMs) mod n = 0)"
    if "afterMs < u" "u < computeEveryNextRunAt n anchor afterMs" for u
    using every_next(4) [where u = u and n = n and anchor = anchor and afterMs = afterMs] n that by linarith
  with every_next(1-3) [where n = n and anchor = anchor and afterMs = afterMs] n ExEvery show ?thesis
    by (simp add: computeNextRunAt_def fires_def)
next
  case (ExCron expr tz)
  with normalized_ok [OF assms] obtain f where f: "parseCronFields expr = Inr f"
    by (auto simp: expression_ok_def split: sum.splits)
  from cron_next [OF f, where zoned = zoned and tz = tz and afterMs = afterMs] ExCron show ?thesis
    by (cases "computeCronNextRunAt zoned expr tz afterMs")
       (simp_all add: computeNextRunAt_def MAX_CRON_SCAN_MINUTES_def)
qed

text \<open>A calendar for the witnesses: the clock of UTC on a day that does not end.\<close>

definition demo_calendar :: "string \<Rightarrow> int \<Rightarrow> date_parts" where
  "demo_calendar tz t = \<lparr>dp_minute = t div 60000 mod 60, dp_hour = t div 3600000 mod 24, dp_dayOfMonth = 1,
     dp_month = 1, dp_dayOfWeek = 4\<rparr>"

lemma next_run_is_first_firing_witness:
  "computeNextRunAt demo_calendar (ExEvery 60000 (Some 30000)) 100000 = Inr (Some 150000)
   \<and> fires demo_calendar (ExEvery 60000 (Some 30000)) 100000 150000"
proof -
  have "normalizeScheduleExpression (\<lambda>_. True) None
      (JObj [(''kind'', JStr ''every''), (''everyMs'', JNum (IntNum 60000)), (''anchorMs'', JNum (IntNum 30000))])
    = Inr (ExEvery 60000 (Some 30000))"
    by (simp add: normalizeScheduleExpression_def json_get_def json_string_def normalizePositiveInteger_def
        normalizeTimestamp_def MIN_INTERVAL_MS_def Let_def)
  from next_run_is_first_firing [OF this, where zoned = demo_calendar and afterMs = 100000]
  show ?thesis by (simp add: computeNextRunAt_def computeEveryNextRunAt_def)
qed

end
