(* ===== verification/Processes.thy ===== *)
theory Processes
  imports Connect
begin

text \<open>
  The kernel's registry of live processes (\<open>ProcessRegistry\<close> of \<open>kernel/processes.ts\<close>) and the owner
  a call acts for (\<open>resolveCallerOwnerUid\<close> of \<open>kernel/context.ts\<close>). The nullable columns of older
  rows are options; \<open>process_get\<close> is the record a reader sees. The JSON column \<open>gids\<close> holds the list
  it encodes. The lemmas follow ownership: whatever happens to a live process, its owner stays.
\<close>

section \<open>The registry\<close>

datatype process_state = PsIdle | PsQueued | PsRunning | PsWaitingTool | PsWaitingHil

record process_row =
  pr_id :: string
  pr_parent :: "string option"
  pr_uid :: int
  pr_owner_uid :: "int option"
  pr_interactive :: "int option"
  pr_gid :: int
  pr_gids :: "int list"
  pr_username :: string
  pr_home :: string
  pr_cwd :: "string option"
  pr_state :: string
  pr_active_run_id :: "string option"
  pr_queued_count :: "int option"
  pr_last_active_at :: "int option"
  pr_label :: "string option"
  pr_created_at :: int

record process_record =
  rc_processId :: string
  rc_parentPid :: "string option"
  rc_uid :: int
  rc_ownerUid :: int
  rc_interactive :: bool
  rc_gid :: int
  rc_gids :: "int list"
  rc_username :: string
  rc_home :: string
  rc_cwd :: string
  rc_state :: process_state
  rc_activeRunId :: "string option"
  rc_queuedCount :: int
  rc_lastActiveAt :: "int option"
  rc_label :: "string option"
  rc_createdAt :: int

definition normalizeProcessState :: "string \<Rightarrow> process_state" where
  "normalizeProcessState v =
     (if v = ''queued'' then PsQueued
      else if v = ''running'' then PsRunning
      else if v = ''waiting_tool'' then PsWaitingTool
      else if v = ''waiting_hil'' then PsWaitingHil
      else PsIdle)"

fun process_state_name :: "process_state \<Rightarrow> string" where
  "process_state_name PsIdle = ''idle''"
| "process_state_name PsQueued = ''queued''"
| "process_state_name PsRunning = ''running''"
| "process_state_name PsWaitingTool = ''waiting_tool''"
| "process_state_name PsWaitingHil = ''waiting_hil''"

lemma normalize_state_name [simp]: "normalizeProcessState (process_state_name s) = s"
  by (cases s) (simp_all add: normalizeProcessState_def)

definition toProcessRecord :: "process_row \<Rightarrow> process_record" where
  "toProcessRecord r =
     \<lparr>rc_processId = pr_id r, rc_parentPid = pr_parent r, rc_uid = pr_uid r,
      rc_ownerUid = coalesce (pr_owner_uid r) (pr_uid r),
      rc_interactive = (case pr_interactive r of None \<Rightarrow> True | Some i \<Rightarrow> i \<noteq> 0),
      rc_gid = pr_gid r, rc_gids = pr_gids r, rc_username = pr_username r, rc_home = pr_home r,
      rc_cwd = coalesce (pr_cwd r) (pr_home r), rc_state = normalizeProcessState (pr_state r),
      rc_activeRunId = pr_active_run_id r, rc_queuedCount = max 0 (coalesce (pr_queued_count r) 0),
      rc_lastActiveAt = pr_last_active_at r, rc_label = pr_label r, rc_createdAt = pr_created_at r\<rparr>"

record spawn_opts =
  sp_parentPid :: "string option"
  sp_ownerUid :: "int option"
  sp_interactive :: "bool option"
  sp_label :: "string option"
  sp_cwd :: "string option"

definition process_spawn :: "int \<Rightarrow> string \<Rightarrow> proc_identity \<Rightarrow> spawn_opts \<Rightarrow> process_row list \<Rightarrow> process_row list" where
  "process_spawn now pid ident opts t =
     sql_replace pr_id
       \<lparr>pr_id = pid, pr_parent = sp_parentPid opts, pr_uid = pi_uid ident,
        pr_owner_uid = Some (coalesce (sp_ownerUid opts) (pi_uid ident)),
        pr_interactive = Some (if coalesce (sp_interactive opts) True then 1 else 0),
        pr_gid = pi_gid ident, pr_gids = pi_gids ident, pr_username = pi_username ident,
        pr_home = pi_home ident, pr_cwd = Some (coalesce (sp_cwd opts) (pi_cwd ident)),
        pr_state = ''idle'', pr_active_run_id = None, pr_queued_count = Some 0,
        pr_last_active_at = None, pr_label = sp_label opts, pr_created_at = now\<rparr> t"

definition getOwnerUid :: "process_row list \<Rightarrow> string \<Rightarrow> int option" where
  "getOwnerUid t pid = map_option (\<lambda>r. coalesce (pr_owner_uid r) (pr_uid r)) (sql_lookup pr_id t pid)"

definition process_getIdentity :: "process_row list \<Rightarrow> string \<Rightarrow> proc_identity option" where
  "process_getIdentity t pid =
     map_option (\<lambda>r. \<lparr>pi_uid = pr_uid r, pi_gid = pr_gid r, pi_gids = pr_gids r,
        pi_username = pr_username r, pi_home = pr_home r, pi_cwd = coalesce (pr_cwd r) (pr_home r)\<rparr>)
       (sql_lookup pr_id t pid)"

definition process_get :: "process_row list \<Rightarrow> string \<Rightarrow> process_record option" where
  "process_get t pid = map_option toProcessRecord (sql_lookup pr_id t pid)"

definition strip_trailing_slashes :: "string \<Rightarrow> string" where
  "strip_trailing_slashes s = rev (dropWhile (\<lambda>c. c = CHR ''/'') (rev s))"

definition with_slash :: "string \<Rightarrow> string" where
  "with_slash s = (if suffix ''/'' s then s else s @ ''/'')"

definition remapCwd :: "string \<Rightarrow> string \<Rightarrow> string \<Rightarrow> string" where
  "remapCwd previousHome nextHome cwd =
     (if cwd = previousHome then nextHome
      else if \<not> prefix (with_slash previousHome) cwd then cwd
      else strip_trailing_slashes (with_slash nextHome @ drop (length (with_slash previousHome)) cwd))"

definition process_updateIdentity :: "string \<Rightarrow> proc_identity \<Rightarrow> process_row list \<Rightarrow> process_row list" where
  "process_updateIdentity pid ident t =
     (let nextCwd = (case process_get t pid of
            Some p \<Rightarrow> remapCwd (rc_home p) (pi_home ident) (rc_cwd p)
          | None \<Rightarrow> pi_cwd ident)
      in sql_update (\<lambda>r. pr_id r = pid)
           (\<lambda>r. r\<lparr>pr_uid := pi_uid ident, pr_gid := pi_gid ident, pr_gids := pi_gids ident,
                  pr_username := pi_username ident, pr_home := pi_home ident, pr_cwd := Some nextCwd\<rparr>) t)"

definition process_setLabel :: "string \<Rightarrow> string \<Rightarrow> process_row list \<Rightarrow> process_row list \<times> bool" where
  "process_setLabel pid label t =
     (let normalized = js_trim label in
      if normalized = [] \<or> process_get t pid = None then (t, False)
      else (sql_update (\<lambda>r. pr_id r = pid) (\<lambda>r. r\<lparr>pr_label := Some normalized\<rparr>) t, True))"

definition process_setState :: "int \<Rightarrow> string \<Rightarrow> process_state \<Rightarrow> process_row list \<Rightarrow> process_row list \<times> bool" where
  "process_setState now pid st t =
     (let t' = sql_update (\<lambda>r. pr_id r = pid)
                 (\<lambda>r. r\<lparr>pr_state := process_state_name st, pr_last_active_at := Some now\<rparr>) t
      in (t', process_get t' pid \<noteq> None))"

text \<open>A patch names what it changes; for a nullable column the new value may itself be null. A count is
  floored, so a patch carries the floor.\<close>

record runtime_patch =
  rp_state :: "process_state option"
  rp_activeRunId :: "string option option"
  rp_queuedCount :: "int option"
  rp_lastActiveAt :: "int option option"

definition updateRuntimeState :: "string \<Rightarrow> runtime_patch \<Rightarrow> process_row list \<Rightarrow> process_row list \<times> bool" where
  "updateRuntimeState pid patch t =
     (case process_get t pid of
        None \<Rightarrow> (t, False)
      | Some existing \<Rightarrow>
          (sql_update (\<lambda>r. pr_id r = pid)
             (\<lambda>r. r\<lparr>pr_state := process_state_name (coalesce (rp_state patch) (rc_state existing)),
                    pr_active_run_id := coalesce (rp_activeRunId patch) (rc_activeRunId existing),
                    pr_queued_count := Some (case rp_queuedCount patch of Some n \<Rightarrow> max 0 n | None \<Rightarrow> rc_queuedCount existing),
                    pr_last_active_at := coalesce (rp_lastActiveAt patch) (rc_lastActiveAt existing)\<rparr>) t, True))"

definition process_kill :: "string \<Rightarrow> process_row list \<Rightarrow> process_row list \<times> bool" where
  "process_kill pid t =
     (case sql_lookup pr_id t pid of
        None \<Rightarrow> (t, False)
      | Some _ \<Rightarrow> (sql_delete (\<lambda>r. pr_id r = pid) t, True))"

definition process_children :: "process_row list \<Rightarrow> string \<Rightarrow> process_record list" where
  "process_children t parent =
     map toProcessRecord (sort_key (\<lambda>r. - pr_created_at r) (filter (\<lambda>r. pr_parent r = Some parent) t))"

definition process_list :: "process_row list \<Rightarrow> int option \<Rightarrow> process_record list" where
  "process_list t owner =
     map toProcessRecord (sort_key (\<lambda>r. - pr_created_at r)
       (case owner of None \<Rightarrow> t | Some u \<Rightarrow> filter (\<lambda>r. pr_owner_uid r = Some u) t))"

definition process_count :: "process_row list \<Rightarrow> nat" where
  "process_count t = length t"

section \<open>The caller of a call\<close>

fun identity_process :: "connection_identity \<Rightarrow> proc_identity" where
  "identity_process (ConnUser p caps) = p"
| "identity_process (ConnDriver p caps dev impl) = p"
| "identity_process (ConnService p caps chan) = p"

fun identity_capabilities :: "connection_identity \<Rightarrow> string list" where
  "identity_capabilities (ConnUser p caps) = caps"
| "identity_capabilities (ConnDriver p caps dev impl) = caps"
| "identity_capabilities (ConnService p caps chan) = caps"

record call_ctx =
  cx_identity :: connection_identity
  cx_processId :: "string option"
  cx_callerOwnerUid :: "int option"

definition resolveCallerOwnerUid :: "process_row list \<Rightarrow> call_ctx \<Rightarrow> int" where
  "resolveCallerOwnerUid procs ctx =
     (case cx_callerOwnerUid ctx of
        Some u \<Rightarrow> u
      | None \<Rightarrow>
          (case (if truthy (cx_processId ctx) then getOwnerUid procs (the (cx_processId ctx)) else None) of
             Some u \<Rightarrow> u
           | None \<Rightarrow> pi_uid (identity_process (cx_identity ctx))))"

section \<open>Ownership\<close>

datatype process_op =
    PoSpawn int string proc_identity spawn_opts
  | PoIdentity string proc_identity
  | PoLabel string string
  | PoState int string process_state
  | PoRuntime string runtime_patch
  | PoKill string

fun process_step :: "process_op \<Rightarrow> process_row list \<Rightarrow> process_row list" where
  "process_step (PoSpawn now pid i opts) t = process_spawn now pid i opts t"
| "process_step (PoIdentity pid i) t = process_updateIdentity pid i t"
| "process_step (PoLabel pid l) t = fst (process_setLabel pid l t)"
| "process_step (PoState now pid st) t = fst (process_setState now pid st t)"
| "process_step (PoRuntime pid p) t = fst (updateRuntimeState pid p t)"
| "process_step (PoKill pid) t = fst (process_kill pid t)"

definition owned_rows :: "process_row list \<Rightarrow> bool" where
  "owned_rows t \<longleftrightarrow> keyed pr_id t \<and> (\<forall>r \<in> set t. pr_owner_uid r \<noteq> None)"

lemma owned_update:
  assumes "owned_rows t" and "\<And>r. pr_id (f r) = pr_id r \<and> pr_owner_uid (f r) = pr_owner_uid r"
  shows "owned_rows (sql_update P f t)"
  using assms by (auto simp: owned_rows_def in_update intro!: keyed_update)

lemma owned_step: "owned_rows t \<Longrightarrow> owned_rows (process_step e t)"
  by (cases e)
    (auto simp: process_updateIdentity_def process_setLabel_def process_setState_def updateRuntimeState_def
      process_kill_def Let_def intro!: owned_update split: option.split,
     auto simp: owned_rows_def process_spawn_def in_replace)

text \<open>What can change the owner of a process: a spawn under its id, or its death.\<close>

fun touches_life :: "string \<Rightarrow> process_op \<Rightarrow> bool" where
  "touches_life pid (PoSpawn now p i opts) \<longleftrightarrow> p = pid"
| "touches_life pid (PoKill p) \<longleftrightarrow> p = pid"
| "touches_life pid _ \<longleftrightarrow> False"

lemma owner_after_update:
  assumes "\<And>r. pr_id (f r) = pr_id r \<and> pr_owner_uid (f r) = pr_owner_uid r"
    and "owned_rows t"
  shows "getOwnerUid (sql_update P f t) pid = getOwnerUid t pid"
proof -
  have "sql_lookup pr_id (sql_update P f t) pid
      = map_option (\<lambda>r. if P r then f r else r) (sql_lookup pr_id t pid)"
    using assms(1) by (intro lookup_update) simp
  moreover have "\<And>r. sql_lookup pr_id t pid = Some r \<Longrightarrow> pr_owner_uid r \<noteq> None"
    using assms(2) by (auto simp: owned_rows_def dest: lookup_Some)
  ultimately show ?thesis using assms(1)
    by (cases "sql_lookup pr_id t pid") (auto simp: getOwnerUid_def)
qed

lemma owner_step:
  assumes "owned_rows t" and "\<not> touches_life pid e"
  shows "getOwnerUid (process_step e t) pid = getOwnerUid t pid"
proof (cases e)
  case (PoSpawn now p i opts)
  with assms show ?thesis by (simp add: getOwnerUid_def process_spawn_def lookup_replace)
next
  case (PoKill p)
  with assms show ?thesis
    by (auto simp: getOwnerUid_def process_kill_def lookup_delete_key split: option.split)
qed (use assms in \<open>auto simp: process_updateIdentity_def process_setLabel_def process_setState_def
      updateRuntimeState_def Let_def intro!: owner_after_update split: option.split\<close>)

lemma owner_stays:
  "owned_rows t \<Longrightarrow> \<forall>e \<in> set es. \<not> touches_life pid e \<Longrightarrow>
     getOwnerUid (fold process_step es t) pid = getOwnerUid t pid"
  by (induction es arbitrary: t) (simp_all add: owned_step owner_step)

section \<open>Remapping the working directory\<close>

text \<open>The components of a path.\<close>

definition path_parts :: "string \<Rightarrow> string list" where
  "path_parts s = filter (\<lambda>p. p \<noteq> []) (js_split (CHR ''/'') s)"

lemma path_parts_Nil [simp]: "path_parts [] = []"
  by (simp add: path_parts_def)

lemma path_parts_slash: "path_parts (a @ CHR ''/'' # b) = path_parts a @ path_parts b"
  by (simp add: path_parts_def js_split_at)

lemma path_parts_with_slash: "path_parts (with_slash a @ b) = path_parts a @ path_parts b"
proof (cases "suffix ''/'' a")
  case True
  then obtain a' where "a = a' @ ''/''" by (auto simp: suffix_def)
  then show ?thesis by (simp add: with_slash_def True path_parts_slash)
next
  case False
  then show ?thesis by (simp add: with_slash_def path_parts_slash)
qed

lemma path_parts_strip [simp]: "path_parts (strip_trailing_slashes s) = path_parts s"
proof -
  have "path_parts (replicate n (CHR ''/'')) = []" for n
    using path_parts_slash [of "[]"] by (induction n) simp_all
  then have "path_parts (s' @ replicate n (CHR ''/'')) = path_parts s'" for s' n
    by (cases n) (simp_all add: path_parts_slash)
  moreover obtain n where "s = strip_trailing_slashes s @ replicate n (CHR ''/'')"
  proof
    let ?w = "takeWhile (\<lambda>c. c = CHR ''/'') (rev s)"
    have w: "replicate (length (rev ?w)) (CHR ''/'') = rev ?w"
      by (rule replicate_length_same) (auto dest: set_takeWhileD)
    have "rev s = ?w @ dropWhile (\<lambda>c. c = CHR ''/'') (rev s)" by simp
    then have "s = rev (?w @ dropWhile (\<lambda>c. c = CHR ''/'') (rev s))" by simp
    then have "s = strip_trailing_slashes s @ rev ?w" by (simp only: strip_trailing_slashes_def rev_append)
    then show "s = strip_trailing_slashes s @ replicate (length (rev ?w)) (CHR ''/'')" by (simp only: w)
  qed
  ultimately show ?thesis by metis
qed

text \<open>A directory at or below the old home moves to the same place below the new one.\<close>

lemma remapCwd_inside:
  assumes "path_parts cwd = path_parts old @ rel" and "cwd = old \<or> prefix (with_slash old) cwd"
  shows "path_parts (remapCwd old new cwd) = path_parts new @ rel"
proof (cases "cwd = old")
  case False
  with assms(2) obtain r where cwd: "cwd = with_slash old @ r" by (auto simp: prefix_def)
  with assms(1) have "path_parts r = rel" by (simp add: path_parts_with_slash)
  with cwd False show ?thesis by (simp add: remapCwd_def path_parts_with_slash)
qed (use assms(1) in \<open>simp add: remapCwd_def\<close>)

end
