(* ===== verification/Links.thy ===== *)
theory Links
  imports Processes Delivery
begin

text \<open>
  Who an outside actor is, and where an adapter may send: identity links
  (\<open>kernel/identity-links.ts\<close>), link challenges (\<open>kernel/link-challenges.ts\<close>), surface routes
  (\<open>kernel/surface-routes.ts\<close>), account status (\<open>kernel/adapter-status.ts\<close>) and the calls over them
  (\<open>kernel/sys/link.ts\<close>). A surface kind is the string the column holds. Random draws and the clock
  are arguments; the clock does not advance within one synchronous call. JSON columns hold the value
  they encode. A non-string where the source calls a string method raises a \<open>TypeError\<close>.
\<close>

section \<open>Identity links\<close>

record identity_link =
  il_adapter :: string
  il_accountId :: string
  il_actorId :: string
  il_uid :: int
  il_createdAt :: int
  il_linkedByUid :: int
  il_metadata :: "json option"

definition link_key :: "identity_link \<Rightarrow> string \<times> string \<times> string" where
  "link_key l = (il_adapter l, il_accountId l, il_actorId l)"

definition links_get :: "identity_link list \<Rightarrow> string \<Rightarrow> string \<Rightarrow> string \<Rightarrow> identity_link option" where
  "links_get t adapter accountId actorId = sql_lookup link_key t (adapter, accountId, actorId)"

definition links_link :: "int \<Rightarrow> string \<Rightarrow> string \<Rightarrow> string \<Rightarrow> int \<Rightarrow> int \<Rightarrow> json option \<Rightarrow> identity_link list
    \<Rightarrow> identity_link list \<times> identity_link" where
  "links_link now adapter accountId actorId uid linkedByUid metadata t =
     (let createdAt = (case links_get t adapter accountId actorId of Some l \<Rightarrow> il_createdAt l | None \<Rightarrow> now);
          l = \<lparr>il_adapter = adapter, il_accountId = accountId, il_actorId = actorId, il_uid = uid,
               il_createdAt = createdAt, il_linkedByUid = linkedByUid, il_metadata = metadata\<rparr>
      in (sql_replace link_key l t, l))"

definition links_unlink :: "string \<Rightarrow> string \<Rightarrow> string \<Rightarrow> identity_link list \<Rightarrow> identity_link list \<times> bool" where
  "links_unlink adapter accountId actorId t =
     (case links_get t adapter accountId actorId of
        None \<Rightarrow> (t, False)
      | Some _ \<Rightarrow> (sql_delete (\<lambda>l. link_key l = (adapter, accountId, actorId)) t, True))"

definition resolveUid :: "identity_link list \<Rightarrow> string \<Rightarrow> string \<Rightarrow> string \<Rightarrow> int option" where
  "resolveUid t adapter accountId actorId = map_option il_uid (links_get t adapter accountId actorId)"

definition links_listByAccount :: "identity_link list \<Rightarrow> string \<Rightarrow> string \<Rightarrow> identity_link list" where
  "links_listByAccount t adapter accountId =
     sort_key (\<lambda>l. - il_createdAt l) (filter (\<lambda>l. il_adapter l = adapter \<and> il_accountId l = accountId) t)"

definition links_list :: "identity_link list \<Rightarrow> int option \<Rightarrow> identity_link list" where
  "links_list t uid =
     sort_key (\<lambda>l. - il_createdAt l) (case uid of Some u \<Rightarrow> filter (\<lambda>l. il_uid l = u) t | None \<Rightarrow> t)"

section \<open>Link challenges\<close>

record link_challenge =
  lc_code :: string
  lc_adapter :: string
  lc_accountId :: string
  lc_actorId :: string
  lc_surfaceKind :: string
  lc_surfaceId :: string
  lc_createdAt :: int
  lc_expiresAt :: int
  lc_usedAt :: "int option"
  lc_usedByUid :: "int option"

definition CHALLENGE_TTL_MS :: int where "CHALLENGE_TTL_MS = 10 * 60 * 1000"

definition CODE_ALPHABET :: string where "CODE_ALPHABET = ''ABCDEFGHJKLMNPQRSTUVWXYZ23456789''"

text \<open>A code from the draws of \<open>Math.random\<close>, four for each part, each the index it selects.\<close>

definition generateCode :: "nat list \<Rightarrow> nat list \<Rightarrow> string" where
  "generateCode xs ys = map (\<lambda>i. CODE_ALPHABET ! i) xs @ ''-'' @ map (\<lambda>i. CODE_ALPHABET ! i) ys"

definition code_draws :: "nat list \<Rightarrow> bool" where
  "code_draws xs \<longleftrightarrow> length xs = 4 \<and> (\<forall>i \<in> set xs. i < length CODE_ALPHABET)"

definition challenge_expired :: "int \<Rightarrow> link_challenge \<Rightarrow> bool" where
  "challenge_expired now c \<longleftrightarrow>
     lc_expiresAt c \<le> now \<or> (case lc_usedAt c of Some u \<Rightarrow> u \<le> now - 24 * 60 * 60 * 1000 | None \<Rightarrow> False)"

definition challenges_prune :: "int \<Rightarrow> link_challenge list \<Rightarrow> link_challenge list \<times> nat" where
  "challenges_prune now t =
     (let n = sql_count (challenge_expired now) t
      in (if n > 0 then sql_delete (challenge_expired now) t else t, n))"

definition findActiveChallenge :: "int \<Rightarrow> string \<Rightarrow> string \<Rightarrow> string \<Rightarrow> link_challenge list \<Rightarrow> link_challenge option" where
  "findActiveChallenge now adapter accountId actorId t =
     (case sort_key (\<lambda>c. - lc_createdAt c)
             (filter (\<lambda>c. lc_adapter c = adapter \<and> lc_accountId c = accountId \<and> lc_actorId c = actorId
                          \<and> lc_usedAt c = None \<and> lc_expiresAt c > now) t) of
        [] \<Rightarrow> None | c # _ \<Rightarrow> Some c)"

record challenge_input =
  ci_adapter :: string
  ci_accountId :: string
  ci_actorId :: string
  ci_surfaceKind :: string
  ci_surfaceId :: string
  ci_ttlMs :: "int option"

definition challenge_issue :: "int \<Rightarrow> string \<Rightarrow> challenge_input \<Rightarrow> (link_challenge list, link_challenge) action" where
  "challenge_issue now code inp t =
     (let t = fst (challenges_prune now t) in
      case findActiveChallenge now (ci_adapter inp) (ci_accountId inp) (ci_actorId inp) t of
        Some c \<Rightarrow> (t, Inr c)
      | None \<Rightarrow>
          (let c = \<lparr>lc_code = code, lc_adapter = ci_adapter inp, lc_accountId = ci_accountId inp,
                    lc_actorId = ci_actorId inp, lc_surfaceKind = ci_surfaceKind inp,
                    lc_surfaceId = ci_surfaceId inp, lc_createdAt = now,
                    lc_expiresAt = now + coalesce (ci_ttlMs inp) CHALLENGE_TTL_MS,
                    lc_usedAt = None, lc_usedByUid = None\<rparr>
           in case sql_insert lc_code c t of Inl e \<Rightarrow> (t, Inl e) | Inr t' \<Rightarrow> (t', Inr c)))"

definition challenge_consume :: "int \<Rightarrow> string \<Rightarrow> int \<Rightarrow> link_challenge list
    \<Rightarrow> link_challenge list \<times> link_challenge option" where
  "challenge_consume now code uid t =
     (let t = fst (challenges_prune now t) in
      case sql_lookup lc_code t code of
        None \<Rightarrow> (t, None)
      | Some c \<Rightarrow>
          if lc_usedAt c \<noteq> None then (t, None)
          else if lc_expiresAt c \<le> now then (sql_delete (\<lambda>c. lc_code c = code) t, None)
          else (sql_update (\<lambda>c. lc_code c = code) (\<lambda>c. c\<lparr>lc_usedAt := Some now, lc_usedByUid := Some uid\<rparr>) t,
                Some (c\<lparr>lc_usedAt := Some now, lc_usedByUid := Some uid\<rparr>)))"

section \<open>Surface routes\<close>

record surface_route =
  su_adapter :: string
  su_accountId :: string
  su_actorId :: string
  su_surfaceKind :: string
  su_surfaceId :: string
  su_threadId :: string
  su_uid :: int
  su_pid :: string
  su_updatedAt :: int
  su_updatedByUid :: int

text \<open>The columns of the primary key; an absent thread is the empty string.\<close>

type_synonym surface_key = "string \<times> string \<times> string \<times> string \<times> string \<times> string"

definition route_key :: "surface_route \<Rightarrow> surface_key" where
  "route_key r = (su_adapter r, su_accountId r, su_actorId r, su_surfaceKind r, su_surfaceId r, su_threadId r)"

record surface_input =
  sf_adapter :: string
  sf_accountId :: string
  sf_actorId :: string
  sf_surfaceKind :: string
  sf_surfaceId :: string
  sf_threadId :: "string option"

definition surface_key :: "surface_input \<Rightarrow> surface_key" where
  "surface_key i = (sf_adapter i, sf_accountId i, sf_actorId i, sf_surfaceKind i, sf_surfaceId i,
                    js_trim (coalesce (sf_threadId i) []))"

definition surface_setRoute :: "int \<Rightarrow> surface_input \<Rightarrow> int \<Rightarrow> string \<Rightarrow> int \<Rightarrow> surface_route list \<Rightarrow> surface_route list" where
  "surface_setRoute now i uid pid updatedByUid t =
     sql_replace route_key
       \<lparr>su_adapter = sf_adapter i, su_accountId = sf_accountId i, su_actorId = sf_actorId i,
        su_surfaceKind = sf_surfaceKind i, su_surfaceId = sf_surfaceId i,
        su_threadId = js_trim (coalesce (sf_threadId i) []), su_uid = uid, su_pid = pid,
        su_updatedAt = now, su_updatedByUid = updatedByUid\<rparr> t"

definition surface_get :: "surface_route list \<Rightarrow> surface_input \<Rightarrow> surface_route option" where
  "surface_get t i = sql_lookup route_key t (surface_key i)"

definition surface_clearRoute :: "surface_input \<Rightarrow> surface_route list \<Rightarrow> surface_route list \<times> bool" where
  "surface_clearRoute i t =
     (case surface_get t i of
        None \<Rightarrow> (t, False)
      | Some _ \<Rightarrow> (sql_delete (\<lambda>r. route_key r = surface_key i) t, True))"

definition surface_resolvePid :: "surface_route list \<Rightarrow> surface_input \<Rightarrow> int \<Rightarrow> string option" where
  "surface_resolvePid t i uid =
     map_option su_pid (find (\<lambda>r. route_key r = surface_key i \<and> su_uid r = uid) t)"

definition surface_list :: "surface_route list \<Rightarrow> int option \<Rightarrow> surface_route list" where
  "surface_list t uid =
     sort_key (\<lambda>r. - su_updatedAt r) (case uid of Some u \<Rightarrow> filter (\<lambda>r. su_uid r = u) t | None \<Rightarrow> t)"

section \<open>Account status\<close>

record adapter_status =
  as_adapter :: string
  as_accountId :: string
  as_connected :: bool
  as_authenticated :: bool
  as_mode :: "string option"
  as_lastActivity :: "int option"
  as_error :: "string option"
  as_extra :: "json option"
  as_ownerUid :: "int option"
  as_updatedAt :: int

record account_status =
  at_connected :: bool
  at_authenticated :: bool
  at_mode :: "string option"
  at_lastActivity :: "int option"
  at_error :: "string option"
  at_extra :: "json option"

definition status_key :: "adapter_status \<Rightarrow> string \<times> string" where
  "status_key r = (as_adapter r, as_accountId r)"

definition status_get :: "adapter_status list \<Rightarrow> string \<Rightarrow> string \<Rightarrow> adapter_status option" where
  "status_get t adapter accountId = sql_lookup status_key t (adapter, accountId)"

text \<open>\<open>INSERT ... ON CONFLICT DO UPDATE\<close>: a row that is there keeps its place and the other columns.\<close>

definition status_upsert :: "int \<Rightarrow> string \<Rightarrow> string \<Rightarrow> account_status \<Rightarrow> adapter_status list \<Rightarrow> adapter_status list" where
  "status_upsert now adapter accountId s t =
     (let fill = (\<lambda>r. r\<lparr>as_connected := at_connected s, as_authenticated := at_authenticated s, as_mode := at_mode s,
                       as_lastActivity := at_lastActivity s, as_error := at_error s, as_extra := at_extra s,
                       as_updatedAt := now\<rparr>)
      in if status_get t adapter accountId \<noteq> None
         then sql_update (\<lambda>r. status_key r = (adapter, accountId)) fill t
         else t @ [fill \<lparr>as_adapter = adapter, as_accountId = accountId, as_connected = False,
                         as_authenticated = False, as_mode = None, as_lastActivity = None, as_error = None,
                         as_extra = None, as_ownerUid = None, as_updatedAt = now\<rparr>])"

definition status_setOwner :: "int \<Rightarrow> string \<Rightarrow> string \<Rightarrow> int \<Rightarrow> adapter_status list \<Rightarrow> adapter_status list" where
  "status_setOwner now adapter accountId ownerUid t =
     (if status_get t adapter accountId \<noteq> None
      then sql_update (\<lambda>r. status_key r = (adapter, accountId)) (\<lambda>r. r\<lparr>as_ownerUid := Some ownerUid\<rparr>) t
      else t @ [\<lparr>as_adapter = adapter, as_accountId = accountId, as_connected = False,
                 as_authenticated = False, as_mode = None, as_lastActivity = None, as_error = None,
                 as_extra = None, as_ownerUid = Some ownerUid, as_updatedAt = now\<rparr>])"

definition status_ordered :: "adapter_status list \<Rightarrow> adapter_status list" where
  "status_ordered t = sort_key as_adapter (sort_key (\<lambda>r. - as_updatedAt r) t)"

definition status_listByOwner :: "adapter_status list \<Rightarrow> int \<Rightarrow> adapter_status list" where
  "status_listByOwner t ownerUid = status_ordered (filter (\<lambda>r. as_ownerUid r = Some ownerUid) t)"

definition status_list :: "adapter_status list \<Rightarrow> string \<Rightarrow> string option \<Rightarrow> adapter_status list" where
  "status_list t adapter accountId =
     sort_key (\<lambda>r. - as_updatedAt r)
       (filter (\<lambda>r. as_adapter r = adapter \<and> (truthy accountId \<longrightarrow> as_accountId r = the accountId)) t)"

definition status_listAll :: "adapter_status list \<Rightarrow> adapter_status list" where
  "status_listAll t = status_ordered t"

text \<open>The lifecycle operations in progress are kept in memory.\<close>

definition lifecycle_key :: "string \<Rightarrow> string \<Rightarrow> string" where
  "lifecycle_key adapter accountId = adapter @ [CHR 0x00] @ accountId"

definition beginLifecycle :: "string \<Rightarrow> string \<Rightarrow> string list \<Rightarrow> string list result" where
  "beginLifecycle adapter accountId active =
     (if lifecycle_key adapter accountId \<in> set active
      then throw (''Adapter account '' @ adapter @ ''/'' @ accountId @ '' already has a lifecycle operation'')
      else Inr (active @ [lifecycle_key adapter accountId]))"

definition endLifecycle :: "string \<Rightarrow> string \<Rightarrow> string list \<Rightarrow> string list" where
  "endLifecycle adapter accountId active = filter (\<lambda>k. k \<noteq> lifecycle_key adapter accountId) active"

section \<open>The calls\<close>

record link_state =
  lk_links :: "identity_link list"
  lk_challenges :: "link_challenge list"

definition trim_arg :: "json option \<Rightarrow> string result" where
  "trim_arg v = (case json_string v of Some s \<Rightarrow> Inr (js_trim s) | None \<Rightarrow> throw ''TypeError'')"

definition normalizeRequired :: "json option \<Rightarrow> string \<Rightarrow> string result" where
  "normalizeRequired v field =
     bind_result (trim_arg v) (\<lambda>s.
       if s = [] then throw (field @ '' is required'')
       else Inr (if field = ''adapter'' then js_lower s else s))"

definition requireUserIdentity :: "connection_identity option \<Rightarrow> proc_identity result" where
  "requireUserIdentity ident =
     (case ident of Some (ConnUser p caps) \<Rightarrow> Inr p | _ \<Rightarrow> throw ''Authentication required'')"

definition resolveTargetUid :: "proc_identity \<Rightarrow> int option \<Rightarrow> int result" where
  "resolveTargetUid p requested =
     (case requested of
        None \<Rightarrow> Inr (pi_uid p)
      | Some u \<Rightarrow> if u = pi_uid p then Inr u else if pi_uid p = 0 then Inr u else throw ''Permission denied'')"

text \<open>The capitals of Latin-1. The two letters whose capital lies outside it stay themselves; no code
  has either.\<close>

definition js_upper_char :: "char \<Rightarrow> string" where
  "js_upper_char c =
     (let n = of_char c :: nat
      in if n = 223 then ''SS''
         else if (97 \<le> n \<and> n \<le> 122) \<or> (224 \<le> n \<and> n \<le> 254 \<and> n \<noteq> 247) then [char_of (n - 32)] else [c])"

definition js_upper :: "string \<Rightarrow> string" where
  "js_upper s = concat (map js_upper_char s)"

definition normalizeLinkCode :: "json option \<Rightarrow> string" where
  "normalizeLinkCode code = (case json_string code of Some s \<Rightarrow> js_upper (js_trim s) | None \<Rightarrow> [])"

definition handleSysLinkConsume :: "int \<Rightarrow> connection_identity option \<Rightarrow> json option \<Rightarrow> (link_state, identity_link) action" where
  "handleSysLinkConsume now ident code st =
     (case requireUserIdentity ident of
        Inl e \<Rightarrow> (st, Inl e)
      | Inr p \<Rightarrow>
          (let c = normalizeLinkCode code in
           if c = [] then (st, throw ''code is required'')
           else case challenge_consume now c (pi_uid p) (lk_challenges st) of
             (cs, None) \<Rightarrow> (st\<lparr>lk_challenges := cs\<rparr>, throw ''Invalid or expired link code'')
           | (cs, Some ch) \<Rightarrow>
               (let (ls, l) = links_link now (lc_adapter ch) (lc_accountId ch) (lc_actorId ch) (pi_uid p) (pi_uid p)
                      (Some (JObj [(''code'', JStr (lc_code ch)), (''surfaceKind'', JStr (lc_surfaceKind ch)),
                                   (''surfaceId'', JStr (lc_surfaceId ch))])) (lk_links st)
                in (st\<lparr>lk_challenges := cs, lk_links := ls\<rparr>, Inr l))))"

definition handleSysLink :: "int \<Rightarrow> connection_identity option \<Rightarrow> json option \<Rightarrow> json option \<Rightarrow> json option \<Rightarrow> int option
    \<Rightarrow> (link_state, identity_link) action" where
  "handleSysLink now ident adapter accountId actorId uid st =
     (let checked =
        bind_result (requireUserIdentity ident) (\<lambda>p.
        if pi_uid p \<noteq> 0 then throw ''Permission denied: manual links require root''
        else bind_result (normalizeRequired adapter ''adapter'') (\<lambda>a.
             bind_result (normalizeRequired accountId ''accountId'') (\<lambda>acc.
             bind_result (normalizeRequired actorId ''actorId'') (\<lambda>act.
             bind_result (resolveTargetUid p uid) (\<lambda>u. Inr (p, a, acc, act, u))))))
      in case checked of
           Inl e \<Rightarrow> (st, Inl e)
         | Inr (p, a, acc, act, u) \<Rightarrow>
             (let (ls, l) = links_link now a acc act u (pi_uid p) None (lk_links st)
              in (st\<lparr>lk_links := ls\<rparr>, Inr l)))"

definition handleSysUnlink :: "connection_identity option \<Rightarrow> json option \<Rightarrow> json option \<Rightarrow> json option
    \<Rightarrow> (link_state, bool) action" where
  "handleSysUnlink ident adapter accountId actorId st =
     (let checked =
        bind_result (requireUserIdentity ident) (\<lambda>p.
        bind_result (normalizeRequired adapter ''adapter'') (\<lambda>a.
        bind_result (normalizeRequired accountId ''accountId'') (\<lambda>acc.
        bind_result (normalizeRequired actorId ''actorId'') (\<lambda>act. Inr (p, a, acc, act)))))
      in case checked of
           Inl e \<Rightarrow> (st, Inl e)
         | Inr (p, a, acc, act) \<Rightarrow>
             (case links_get (lk_links st) a acc act of
                None \<Rightarrow> (st, Inr False)
              | Some l \<Rightarrow>
                  if pi_uid p \<noteq> 0 \<and> il_uid l \<noteq> pi_uid p then (st, throw ''Permission denied'')
                  else (let (ls, b) = links_unlink a acc act (lk_links st) in (st\<lparr>lk_links := ls\<rparr>, Inr b))))"

definition handleSysLinkList :: "connection_identity option \<Rightarrow> int option \<Rightarrow> link_state \<Rightarrow> identity_link list result" where
  "handleSysLinkList ident uid st =
     bind_result (requireUserIdentity ident) (\<lambda>p.
     bind_result (case uid of
         Some u \<Rightarrow> if pi_uid p \<noteq> 0 \<and> u \<noteq> pi_uid p then throw ''Permission denied'' else Inr (Some u)
       | None \<Rightarrow> Inr (if pi_uid p \<noteq> 0 then Some (pi_uid p) else None)) (\<lambda>f.
     Inr (links_list (lk_links st) f)))"

section \<open>The link table over time\<close>

datatype link_event =
    LeIssue int string challenge_input
  | LeConsume int "connection_identity option" "json option"
  | LeLink int "connection_identity option" "json option" "json option" "json option" "int option"
  | LeUnlink "connection_identity option" "json option" "json option" "json option"

fun link_step :: "link_event \<Rightarrow> link_state \<Rightarrow> link_state" where
  "link_step (LeIssue now code inp) st = st\<lparr>lk_challenges := fst (challenge_issue now code inp (lk_challenges st))\<rparr>"
| "link_step (LeConsume now ident code) st = fst (handleSysLinkConsume now ident code st)"
| "link_step (LeLink now ident a acc act u) st = fst (handleSysLink now ident a acc act u st)"
| "link_step (LeUnlink ident a acc act) st = fst (handleSysUnlink ident a acc act st)"

definition links_ok :: "link_state \<Rightarrow> bool" where
  "links_ok st \<longleftrightarrow> keyed link_key (lk_links st) \<and> keyed lc_code (lk_challenges st)"

definition code_open :: "string \<Rightarrow> link_challenge list \<Rightarrow> bool" where
  "code_open k t = (case sql_lookup lc_code t k of Some c \<Rightarrow> lc_usedAt c = None | None \<Rightarrow> False)"

lemma prune_deletes [simp]: "fst (challenges_prune now t) = sql_delete (challenge_expired now) t"
  by (auto simp: challenges_prune_def Let_def sql_count_def sql_delete_def filter_empty_conv
      intro!: filter_True [symmetric])

lemma links_link_table: "fst (links_link now a acc act u by_uid m t) = sql_replace link_key
    \<lparr>il_adapter = a, il_accountId = acc, il_actorId = act, il_uid = u,
     il_createdAt = (case links_get t a acc act of Some l \<Rightarrow> il_createdAt l | None \<Rightarrow> now),
     il_linkedByUid = by_uid, il_metadata = m\<rparr> t"
  by (simp add: links_link_def Let_def)

lemma resolve_links_link:
  "resolveUid (fst (links_link now a acc act u by_uid m t)) a' acc' act'
     = (if (a', acc', act') = (a, acc, act) then Some u else resolveUid t a' acc' act')"
  by (auto simp: resolveUid_def links_get_def links_link_table lookup_replace link_key_def)

lemma resolve_links_unlink:
  "resolveUid (fst (links_unlink a acc act t)) a' acc' act'
     = (if (a', acc', act') = (a, acc, act) then None else resolveUid t a' acc' act')"
  by (auto simp: resolveUid_def links_get_def links_unlink_def lookup_delete_key split: option.split)

lemma keyed_links_link [simp]: "keyed link_key t \<Longrightarrow> keyed link_key (fst (links_link now a acc act u b m t))"
  by (simp add: links_link_table)

lemma keyed_links_unlink [simp]: "keyed link_key t \<Longrightarrow> keyed link_key (fst (links_unlink a acc act t))"
  by (simp add: links_unlink_def split: option.split)

lemma keyed_consume [simp]: "keyed lc_code t \<Longrightarrow> keyed lc_code (fst (challenge_consume now c u t))"
  by (auto simp: challenge_consume_def Let_def intro!: keyed_update split: option.split)

lemma keyed_issue [simp]: "keyed lc_code t \<Longrightarrow> keyed lc_code (fst (challenge_issue now code inp t))"
  by (auto simp: challenge_issue_def Let_def split: option.split sum.split
      dest: keyed_insert [OF keyed_delete])

lemma handleSysLink_state:
  "fst (handleSysLink now ident a acc act u st) = st
     \<or> (\<exists>p a' acc' act' u'. ident = Some (ConnUser p (identity_capabilities (the ident))) \<and> pi_uid p = 0
          \<and> fst (handleSysLink now ident a acc act u st)
            = st\<lparr>lk_links := fst (links_link now a' acc' act' u' 0 None (lk_links st))\<rparr>)"
  by (auto simp: handleSysLink_def requireUserIdentity_def Let_def split: option.splits connection_identity.splits
      sum.splits prod.splits if_splits) (metis fst_conv)

lemma handleSysLinkConsume_cases:
  obtains (refused) e where "handleSysLinkConsume now ident code st = (st, Inl e)"
  | (unknown) p caps cs e where "ident = Some (ConnUser p caps)"
      "challenge_consume now (normalizeLinkCode code) (pi_uid p) (lk_challenges st) = (cs, None)"
      "handleSysLinkConsume now ident code st = (st\<lparr>lk_challenges := cs\<rparr>, Inl e)"
  | (linked) p caps cs c ls l m where "ident = Some (ConnUser p caps)"
      "challenge_consume now (normalizeLinkCode code) (pi_uid p) (lk_challenges st) = (cs, Some c)"
      "links_link now (lc_adapter c) (lc_accountId c) (lc_actorId c) (pi_uid p) (pi_uid p) m (lk_links st) = (ls, l)"
      "handleSysLinkConsume now ident code st = (st\<lparr>lk_challenges := cs, lk_links := ls\<rparr>, Inr l)"
proof (cases "requireUserIdentity ident")
  case (Inl e)
  then show ?thesis by (intro refused) (simp add: handleSysLinkConsume_def)
next
  case (Inr p)
  then obtain caps where ident: "ident = Some (ConnUser p caps)"
    by (auto simp: requireUserIdentity_def split: option.splits connection_identity.splits)
  show ?thesis
  proof (cases "normalizeLinkCode code = []")
    case True
    with Inr show ?thesis by (intro refused) (simp add: handleSysLinkConsume_def)
  next
    case False
    obtain cs r where res: "challenge_consume now (normalizeLinkCode code) (pi_uid p) (lk_challenges st) = (cs, r)"
      by force
    show ?thesis
    proof (cases r)
      case None
      with Inr False res show ?thesis by (intro unknown [OF ident, of cs]) (simp_all add: handleSysLinkConsume_def)
    next
      case (Some c)
      let ?m = "Some (JObj [(''code'', JStr (lc_code c)), (''surfaceKind'', JStr (lc_surfaceKind c)),
          (''surfaceId'', JStr (lc_surfaceId c))])"
      obtain ls l where ls: "links_link now (lc_adapter c) (lc_accountId c) (lc_actorId c) (pi_uid p) (pi_uid p) ?m
          (lk_links st) = (ls, l)" by force
      with Inr False res Some show ?thesis
        by (intro linked [OF ident _ ls, of cs]) (simp_all add: handleSysLinkConsume_def)
    qed
  qed
qed

lemma handleSysUnlink_cases:
  obtains (same) "fst (handleSysUnlink ident adapter accountId actorId st) = st"
  | (removed) p caps a' acc' act' l where "ident = Some (ConnUser p caps)" "pi_uid p = 0 \<or> pi_uid p = il_uid l"
      "links_get (lk_links st) a' acc' act' = Some l"
      "fst (handleSysUnlink ident adapter accountId actorId st)
        = st\<lparr>lk_links := fst (links_unlink a' acc' act' (lk_links st))\<rparr>"
proof (cases "\<exists>p a' acc' act'. requireUserIdentity ident = Inr p \<and> normalizeRequired adapter ''adapter'' = Inr a'
    \<and> normalizeRequired accountId ''accountId'' = Inr acc' \<and> normalizeRequired actorId ''actorId'' = Inr act'")
  case False
  then have "fst (handleSysUnlink ident adapter accountId actorId st) = st"
    by (cases "requireUserIdentity ident"; cases "normalizeRequired adapter ''adapter''";
        cases "normalizeRequired accountId ''accountId''"; cases "normalizeRequired actorId ''actorId''")
      (simp_all add: handleSysUnlink_def)
  then show ?thesis by (rule same)
next
  case True
  then obtain p a' acc' act' where norm: "requireUserIdentity ident = Inr p"
    "normalizeRequired adapter ''adapter'' = Inr a'" "normalizeRequired accountId ''accountId'' = Inr acc'"
    "normalizeRequired actorId ''actorId'' = Inr act'" by blast
  then obtain caps where ident: "ident = Some (ConnUser p caps)"
    by (auto simp: requireUserIdentity_def split: option.splits connection_identity.splits)
  show ?thesis
  proof (cases "links_get (lk_links st) a' acc' act'")
    case None
    with norm show ?thesis by (intro same) (simp add: handleSysUnlink_def)
  next
    case (Some l)
    show ?thesis
    proof (cases "pi_uid p = 0 \<or> pi_uid p = il_uid l")
      case True
      with norm Some show ?thesis
        by (intro removed [OF ident True Some]) (auto simp: handleSysUnlink_def split: prod.split)
    next
      case False
      with norm Some show ?thesis by (intro same) (simp add: handleSysUnlink_def)
    qed
  qed
qed

text \<open>A code that is handed over is open, and used from then on.\<close>

lemma consume_granted:
  assumes "keyed lc_code t" and "challenge_consume now k u t = (t', Some c)"
  shows "code_open k t" and "\<not> code_open k t'" and "lc_expiresAt c > now"
    and "\<exists>c0. sql_lookup lc_code t k = Some c0 \<and> lc_usedAt c0 = None \<and> lc_expiresAt c0 > now
           \<and> c = c0\<lparr>lc_usedAt := Some now, lc_usedByUid := Some u\<rparr>"
proof -
  let ?t = "sql_delete (challenge_expired now) t"
  from assms(2) obtain c0 where c0: "sql_lookup lc_code ?t k = Some c0" "lc_usedAt c0 = None" "lc_expiresAt c0 > now"
      "c = c0\<lparr>lc_usedAt := Some now, lc_usedByUid := Some u\<rparr>"
      "t' = sql_update (\<lambda>c. lc_code c = k) (\<lambda>c. c\<lparr>lc_usedAt := Some now, lc_usedByUid := Some u\<rparr>) ?t"
    by (auto simp: challenge_consume_def Let_def split: option.splits if_splits)
  from c0(1) assms(1) have look: "sql_lookup lc_code t k = Some c0"
    by (auto simp: lookup_delete split: option.splits if_splits)
  with c0 show "code_open k t" and "lc_expiresAt c > now"
    and "\<exists>c0. sql_lookup lc_code t k = Some c0 \<and> lc_usedAt c0 = None \<and> lc_expiresAt c0 > now
           \<and> c = c0\<lparr>lc_usedAt := Some now, lc_usedByUid := Some u\<rparr>"
    by (simp_all add: code_open_def)
  from c0(1) have "lc_code c0 = k" by (auto dest: lookup_Some)
  with c0 show "\<not> code_open k t'" by (simp add: code_open_def lookup_update)
qed

lemma open_delete: "keyed lc_code t \<Longrightarrow> \<not> code_open k t \<Longrightarrow> \<not> code_open k (sql_delete P t)"
  by (auto simp: code_open_def lookup_delete split: option.splits)

lemma open_update_used:
  "\<not> code_open k t \<Longrightarrow> \<not> code_open k (sql_update P (\<lambda>c. c\<lparr>lc_usedAt := Some now, lc_usedByUid := Some u\<rparr>) t)"
  by (auto simp: code_open_def lookup_update split: option.splits if_splits)

lemma open_consume: "keyed lc_code t \<Longrightarrow> \<not> code_open k t \<Longrightarrow> \<not> code_open k (fst (challenge_consume now c u t))"
  by (auto simp: challenge_consume_def Let_def open_update_used open_delete split: option.split)

lemma open_issue:
  assumes "keyed lc_code t" and "\<not> code_open k t" and "code \<noteq> k"
  shows "\<not> code_open k (fst (challenge_issue now code inp t))"
proof -
  from assms have none: "\<not> code_open k (sql_delete (challenge_expired now) t)" by (intro open_delete)
  moreover have "\<not> code_open k t'"
    if "sql_insert lc_code c (sql_delete (challenge_expired now) t) = Inr t'" and "lc_code c = code" for c t'
    using none lookup_insert [OF that(1), of k] that(2) assms(3) by (simp add: code_open_def)
  ultimately show ?thesis
    by (auto simp: challenge_issue_def Let_def split: option.split sum.split)
qed

fun redeems :: "string \<Rightarrow> link_event \<Rightarrow> link_state \<Rightarrow> bool" where
  "redeems k (LeConsume now ident code) st \<longleftrightarrow>
     normalizeLinkCode code = k \<and> \<not> isl (snd (handleSysLinkConsume now ident code st))"
| "redeems k _ st \<longleftrightarrow> False"

fun issues_code :: "string \<Rightarrow> link_event \<Rightarrow> bool" where
  "issues_code k (LeIssue now code inp) \<longleftrightarrow> code = k"
| "issues_code k _ \<longleftrightarrow> False"

lemma links_ok_step: "links_ok st \<Longrightarrow> links_ok (link_step e st)"
proof (cases e)
  case (LeConsume now ident code)
  assume ok: "links_ok st"
  show ?thesis
  proof (cases rule: handleSysLinkConsume_cases [of now ident code st])
    case (unknown p caps cs err)
    with ok keyed_consume [of "lk_challenges st" now "normalizeLinkCode code" "pi_uid p"] LeConsume
    show ?thesis by (simp add: links_ok_def)
  next
    case (linked p caps cs c ls l m)
    with ok keyed_consume [of "lk_challenges st" now "normalizeLinkCode code" "pi_uid p"] LeConsume
      keyed_links_link [of "lk_links st" now "lc_adapter c" "lc_accountId c" "lc_actorId c" "pi_uid p" "pi_uid p" m]
    show ?thesis by (simp add: links_ok_def)
  qed (use ok LeConsume in simp)
next
  case (LeLink now ident a acc act u)
  assume "links_ok st"
  with handleSysLink_state [of now ident a acc act u st] show ?thesis unfolding LeLink
    by (auto simp: links_ok_def)
next
  case (LeUnlink ident a acc act)
  assume "links_ok st"
  then show ?thesis unfolding LeUnlink
    by (cases rule: handleSysUnlink_cases [of ident a acc act st]) (simp_all add: links_ok_def)
qed (simp add: links_ok_def)

interpretation link_codes: handover link_step "\<lambda>e. True" links_ok "\<lambda>st. code_open k (lk_challenges st)"
    "redeems k" "\<lambda>e st. issues_code k e" for k
proof unfold_locales
  fix st e assume "links_ok st"
  then show "links_ok (link_step e st)" by (rule links_ok_step)
next
  fix st e assume ok: "links_ok st" and red: "redeems k e st"
  then obtain now ident code where e: "e = LeConsume now ident code" "normalizeLinkCode code = k"
      "\<not> isl (snd (handleSysLinkConsume now ident code st))"
    by (cases e) auto
  show "code_open k (lk_challenges st) \<and> \<not> code_open k (lk_challenges (link_step e st))"
    by (cases rule: handleSysLinkConsume_cases [of now ident code st])
      (use e ok consume_granted in \<open>auto simp: links_ok_def\<close>)
next
  fix st e assume ok: "links_ok st" and used: "\<not> code_open k (lk_challenges st)" and no: "\<not> issues_code k e"
  show "\<not> code_open k (lk_challenges (link_step e st))"
  proof (cases e)
    case (LeConsume now ident code)
    show ?thesis
    proof (cases rule: handleSysLinkConsume_cases [of now ident code st])
      case (unknown p caps cs err)
      with ok used LeConsume open_consume [of "lk_challenges st" k now "normalizeLinkCode code" "pi_uid p"]
      show ?thesis by (simp add: links_ok_def)
    next
      case (linked p caps cs c ls l m)
      with ok used LeConsume open_consume [of "lk_challenges st" k now "normalizeLinkCode code" "pi_uid p"]
      show ?thesis by (simp add: links_ok_def)
    qed (use used LeConsume in simp)
  next
    case (LeLink now ident a acc act u)
    with used handleSysLink_state [of now ident a acc act u st] show ?thesis by auto
  next
    case (LeUnlink ident a acc act)
    with used show ?thesis by (cases rule: handleSysUnlink_cases [of ident a acc act st]) simp_all
  qed (use ok used no open_issue in \<open>auto simp: links_ok_def\<close>)
qed

lemma code_redeemed_once:
  "links_ok st \<Longrightarrow> count_steps link_step (redeems k) es st
     \<le> (if code_open k (lk_challenges st) then 1 else 0) + length (filter (issues_code k) es)"
  using link_codes.grants_bounded [of st es k]
  by (simp add: count_steps_syntactic)


definition demo_person :: proc_identity where
  "demo_person = \<lparr>pi_uid = 1000, pi_gid = 1000, pi_gids = [1000], pi_username = ''ada'', pi_home = ''/home/ada'',
                  pi_cwd = ''/home/ada''\<rparr>"

definition demo_links :: link_state where
  "demo_links = \<lparr>lk_links = [], lk_challenges = [\<lparr>lc_code = ''ABCD-2345'', lc_adapter = ''discord'',
     lc_accountId = ''bot'', lc_actorId = ''u1'', lc_surfaceKind = ''dm'', lc_surfaceId = ''d1'', lc_createdAt = 0,
     lc_expiresAt = 600000, lc_usedAt = None, lc_usedByUid = None\<rparr>]\<rparr>"

lemma demo_consume:
  "lk_links (link_step (LeConsume 5 (Some (ConnUser demo_person [])) (Some (JStr '' abcd-2345 ''))) demo_links)
     = [\<lparr>il_adapter = ''discord'', il_accountId = ''bot'', il_actorId = ''u1'', il_uid = 1000, il_createdAt = 5,
         il_linkedByUid = 1000, il_metadata = Some (JObj [(''code'', JStr ''ABCD-2345''),
           (''surfaceKind'', JStr ''dm''), (''surfaceId'', JStr ''d1'')])\<rparr>]"
  by code_simp


end
