(* ===== verification/Destinations.thy ===== *)
theory Destinations
  imports Links "HOL-Library.AList"
begin

text \<open>
  Where a message may be sent (\<open>kernel/adapter-destinations.ts\<close>): normalisation of a destination, the
  check that an owner may use it, the list of the destinations an owner sees and the search in it.
  \<open>dest_id\<close> stands for \<open>stableOpaqueId\<close> (a SHA-256 digest of the components in hexadecimal, so its
  order is that of the code points); \<open>bound\<close> says which keys of the environment are bindings that can
  send.
\<close>

section \<open>Destinations\<close>

record adapter_surface =
  fc_kind :: string
  fc_id :: string
  fc_threadId :: "string option"

record destination =
  ds_adapter :: string
  ds_accountId :: string
  ds_actorId :: string
  ds_surface :: adapter_surface

definition SURFACE_KINDS :: "string list" where
  "SURFACE_KINDS = [''dm'', ''group'', ''channel'', ''thread'']"

definition optional_text :: "string option \<Rightarrow> string option" where
  "optional_text v = (let s = js_trim (coalesce v []) in if s \<noteq> [] then Some s else None)"

definition required_text :: "json option \<Rightarrow> string \<Rightarrow> string result" where
  "required_text v label =
     (case v of
        Some (JStr s) \<Rightarrow> if js_trim s = [] then throw (label @ '' is required'') else Inr (js_trim s)
      | None \<Rightarrow> throw (label @ '' is required'')
      | Some JNull \<Rightarrow> throw (label @ '' is required'')
      | _ \<Rightarrow> throw ''TypeError'')"

definition normalizeAdapterSurface :: "json option \<Rightarrow> adapter_surface result" where
  "normalizeAdapterSurface v =
     (case v of
        Some (JArr xs) \<Rightarrow> throw ''surface.kind is invalid''
      | Some (JObj kvs) \<Rightarrow>
          (case json_string (map_of kvs ''kind'') of
             None \<Rightarrow> throw ''surface.kind is invalid''
           | Some k \<Rightarrow>
               if k \<notin> set SURFACE_KINDS then throw ''surface.kind is invalid''
               else (case json_string (map_of kvs ''id'') of
                  None \<Rightarrow> throw ''surface.id is required''
                | Some i \<Rightarrow>
                    if js_trim i = [] then throw ''surface.id is required''
                    else if map_of kvs ''threadId'' \<noteq> None \<and> json_string (map_of kvs ''threadId'') = None
                    then throw ''surface.threadId must be a string''
                    else Inr \<lparr>fc_kind = k, fc_id = js_trim i,
                              fc_threadId = optional_text (json_string (map_of kvs ''threadId''))\<rparr>))
      | _ \<Rightarrow> throw ''surface is required'')"

definition normalizeAdapterMessageDestination :: "json option \<Rightarrow> destination result" where
  "normalizeAdapterMessageDestination v =
     (let field = (\<lambda>k. case v of Some d \<Rightarrow> json_get d k | None \<Rightarrow> None) in
      if field ''kind'' \<noteq> Some (JStr ''adapter'') then throw ''adapter destination is required''
      else bind_result (required_text (field ''adapter'') ''adapter destination adapter'') (\<lambda>a.
           bind_result (required_text (field ''accountId'') ''adapter destination accountId'') (\<lambda>acc.
           bind_result (required_text (field ''actorId'') ''adapter destination actorId'') (\<lambda>act.
           bind_result (normalizeAdapterSurface (field ''surface'')) (\<lambda>sf.
           Inr \<lparr>ds_adapter = js_lower a, ds_accountId = acc, ds_actorId = act, ds_surface = sf\<rparr>)))))"

text \<open>A destination the kernel built itself, as the JSON value it is passed on as.\<close>

definition surface_json :: "adapter_surface \<Rightarrow> json" where
  "surface_json f = JObj ([(''kind'', JStr (fc_kind f)), (''id'', JStr (fc_id f))]
     @ (case fc_threadId f of Some t \<Rightarrow> [(''threadId'', JStr t)] | None \<Rightarrow> []))"

definition destination_json :: "destination \<Rightarrow> json" where
  "destination_json d = JObj [(''kind'', JStr ''adapter''), (''adapter'', JStr (ds_adapter d)),
     (''accountId'', JStr (ds_accountId d)), (''actorId'', JStr (ds_actorId d)),
     (''surface'', surface_json (ds_surface d))]"

section \<open>Access\<close>

definition metadataString :: "json option \<Rightarrow> string \<Rightarrow> string" where
  "metadataString m key =
     (case (case m of Some v \<Rightarrow> json_string (json_get v key) | None \<Rightarrow> None) of Some s \<Rightarrow> js_trim s | None \<Rightarrow> [])"

definition identityLinkAllowsSurface :: "identity_link \<Rightarrow> adapter_surface \<Rightarrow> bool" where
  "identityLinkAllowsSurface l f =
     (let k = metadataString (il_metadata l) ''surfaceKind''; i = metadataString (il_metadata l) ''surfaceId''
      in k \<noteq> [] \<and> i \<noteq> [] \<and> k = fc_kind f \<and> i = js_trim (fc_id f))"

record adapter_db =
  ab_links :: "identity_link list"
  ab_routes :: "surface_route list"
  ab_status :: "adapter_status list"

definition destination_surface :: "destination \<Rightarrow> surface_input" where
  "destination_surface d =
     \<lparr>sf_adapter = ds_adapter d, sf_accountId = ds_accountId d, sf_actorId = ds_actorId d,
      sf_surfaceKind = fc_kind (ds_surface d), sf_surfaceId = fc_id (ds_surface d),
      sf_threadId = fc_threadId (ds_surface d)\<rparr>"

definition assertAdapterMessageDestinationAccess :: "destination \<Rightarrow> int \<Rightarrow> adapter_db \<Rightarrow> unit result" where
  "assertAdapterMessageDestinationAccess d ownerUid db =
     (let link = links_get (ab_links db) (ds_adapter d) (ds_accountId d) (ds_actorId d);
          route = surface_get (ab_routes db) (destination_surface d)
      in case link of
           None \<Rightarrow> throw ''Adapter destination is not authorized''
         | Some l \<Rightarrow>
             if il_uid l \<noteq> ownerUid
                \<or> (\<not> identityLinkAllowsSurface l (ds_surface d) \<and> map_option su_uid route \<noteq> Some ownerUid)
             then throw ''Adapter destination is not authorized'' else Inr ())"

section \<open>What an owner sees\<close>

record visible_destination =
  vd_id :: string
  vd_label :: string
  vd_online :: bool
  vd_destination :: destination

definition linkedSurface :: "identity_link \<Rightarrow> adapter_surface option" where
  "linkedSurface l =
     (let k = metadataString (il_metadata l) ''surfaceKind''; i = metadataString (il_metadata l) ''surfaceId'';
          t = metadataString (il_metadata l) ''threadId''
      in if k \<in> set SURFACE_KINDS \<and> i \<noteq> []
         then Some \<lparr>fc_kind = k, fc_id = i, fc_threadId = (if t \<noteq> [] then Some t else None)\<rparr> else None)"

definition nul_join :: "string list \<Rightarrow> string" where
  "nul_join xs = js_join [CHR 0x00] xs"

definition destinationKey :: "destination \<Rightarrow> string" where
  "destinationKey d = nul_join [ds_adapter d, ds_accountId d, ds_actorId d, fc_kind (ds_surface d),
     fc_id (ds_surface d), coalesce (fc_threadId (ds_surface d)) []]"

definition adapterSendServiceAvailable :: "(string \<Rightarrow> bool) \<Rightarrow> string \<Rightarrow> bool" where
  "adapterSendServiceAvailable bound adapter = bound (''CHANNEL_'' @ js_upper adapter)"

definition adapterDisplayName :: "string \<Rightarrow> string" where
  "adapterDisplayName adapter =
     (if adapter = ''whatsapp'' then ''WhatsApp''
      else if adapter = ''discord'' then ''Discord''
      else js_upper (take 1 adapter) @ drop 1 adapter)"

definition surfaceLabel :: "adapter_surface \<Rightarrow> string" where
  "surfaceLabel f = (if fc_kind f = ''dm'' then ''direct message'' else fc_kind f)"

definition account_online :: "adapter_db \<Rightarrow> string \<Rightarrow> string \<Rightarrow> bool" where
  "account_online db adapter accountId =
     (case status_get (ab_status db) adapter accountId of
        Some s \<Rightarrow> as_connected s \<and> as_authenticated s | None \<Rightarrow> False)"

text \<open>The candidates are a \<open>Map\<close> by key, an association list in insertion order.\<close>

definition addCandidate :: "(string \<Rightarrow> bool) \<Rightarrow> bool \<Rightarrow> adapter_db \<Rightarrow> identity_link \<Rightarrow> adapter_surface
    \<Rightarrow> (string \<times> visible_destination) list \<Rightarrow> (string \<times> visible_destination) list result" where
  "addCandidate bound includeOffline db l f cands =
     (let adapter = js_lower (js_trim (il_adapter l)); accountId = js_trim (il_accountId l);
          online = account_online db adapter accountId
      in if \<not> includeOffline \<and> \<not> online then Inr cands
         else if \<not> adapterSendServiceAvailable bound adapter then Inr cands
         else bind_result (normalizeAdapterMessageDestination (Some (destination_json
                \<lparr>ds_adapter = adapter, ds_accountId = accountId, ds_actorId = il_actorId l, ds_surface = f\<rparr>))) (\<lambda>d.
              Inr (AList.update (destinationKey d)
                \<lparr>vd_id = [], vd_label = adapterDisplayName adapter @ '' '' @ surfaceLabel (ds_surface d),
                 vd_online = online, vd_destination = d\<rparr> cands)))"

definition link_lookup_key :: "string \<Rightarrow> string \<Rightarrow> string \<Rightarrow> string" where
  "link_lookup_key adapter accountId actorId =
     nul_join [js_lower (js_trim adapter), js_trim accountId, js_trim actorId]"

definition add_link :: "(string \<Rightarrow> bool) \<Rightarrow> bool \<Rightarrow> adapter_db \<Rightarrow> identity_link
    \<Rightarrow> (string \<times> visible_destination) list \<Rightarrow> (string \<times> visible_destination) list result" where
  "add_link bound includeOffline db l cands =
     (case linkedSurface l of Some f \<Rightarrow> addCandidate bound includeOffline db l f cands | None \<Rightarrow> Inr cands)"

definition route_surface :: "surface_route \<Rightarrow> adapter_surface" where
  "route_surface r = \<lparr>fc_kind = su_surfaceKind r, fc_id = su_surfaceId r,
     fc_threadId = (if su_threadId r \<noteq> [] then Some (su_threadId r) else None)\<rparr>"

definition add_route :: "(string \<Rightarrow> bool) \<Rightarrow> bool \<Rightarrow> adapter_db \<Rightarrow> identity_link list \<Rightarrow> surface_route
    \<Rightarrow> (string \<times> visible_destination) list \<Rightarrow> (string \<times> visible_destination) list result" where
  "add_route bound includeOffline db links r cands =
     (case find (\<lambda>l. link_lookup_key (il_adapter l) (il_accountId l) (il_actorId l)
                   = link_lookup_key (su_adapter r) (su_accountId r) (su_actorId r)) (rev links) of
        None \<Rightarrow> Inr cands
      | Some l \<Rightarrow> addCandidate bound includeOffline db l (route_surface r) cands)"

fun fold_result :: "('a \<Rightarrow> 'b \<Rightarrow> 'b result) \<Rightarrow> 'a list \<Rightarrow> 'b \<Rightarrow> 'b result" where
  "fold_result f [] b = Inr b"
| "fold_result f (x # xs) b = bind_result (f x b) (fold_result f xs)"

lemma fold_result_invariant:
  assumes "fold_result f xs b = Inr c" and "I b"
    and step: "\<And>x b c. x \<in> set xs \<Longrightarrow> I b \<Longrightarrow> f x b = Inr c \<Longrightarrow> I c"
  shows "I c"
  using assms
proof (induction xs arbitrary: b)
  case (Cons x xs)
  then obtain b' where b': "f x b = Inr b'" "fold_result f xs b' = Inr c" by auto
  moreover have "I b'" by (rule Cons.prems(3) [of x b]) (simp_all add: Cons.prems(2) b'(1))
  ultimately show ?case
  proof (intro Cons.IH)
    fix y b c assume "y \<in> set xs" "I b" "f y b = Inr c"
    then show "I c" using Cons.prems(3) [of y b c] by simp
  qed
qed simp

definition listVisibleAdapterMessageDestinations :: "(int \<Rightarrow> destination \<Rightarrow> string) \<Rightarrow> (string \<Rightarrow> bool)
    \<Rightarrow> connection_identity option \<Rightarrow> int \<Rightarrow> bool \<Rightarrow> adapter_db \<Rightarrow> visible_destination list result" where
  "listVisibleAdapterMessageDestinations dest_id bound ident ownerUid includeOffline db =
     (case ident of
        Some (ConnUser p caps) \<Rightarrow>
          (let links = links_list (ab_links db) (Some ownerUid) in
           bind_result (fold_result (add_link bound includeOffline db) links []) (\<lambda>c1.
           bind_result (fold_result (add_route bound includeOffline db links)
               (surface_list (ab_routes db) (Some ownerUid)) c1) (\<lambda>c2.
           Inr (sort_key vd_id
             (map (\<lambda>(k, c). c\<lparr>vd_id := dest_id ownerUid (vd_destination c)\<rparr>) c2)))))
      | _ \<Rightarrow> Inr [])"

definition resolveVisibleAdapterMessageDestination :: "(int \<Rightarrow> destination \<Rightarrow> string) \<Rightarrow> (string \<Rightarrow> bool)
    \<Rightarrow> connection_identity option \<Rightarrow> int \<Rightarrow> bool \<Rightarrow> adapter_db \<Rightarrow> string \<Rightarrow> visible_destination result" where
  "resolveVisibleAdapterMessageDestination dest_id bound ident ownerUid includeOffline db query =
     (let needle = js_lower (js_trim query) in
      if needle = [] then throw ''message target is required''
      else bind_result (listVisibleAdapterMessageDestinations dest_id bound ident ownerUid includeOffline db) (\<lambda>ds.
        let exact = filter (\<lambda>e. js_lower (vd_id e) = needle \<or> ds_adapter (vd_destination e) = needle
                              \<or> js_lower (vd_label e) = needle) ds;
            matches = (if exact \<noteq> [] then exact
                       else filter (\<lambda>e. sublist needle (js_lower (vd_id e)) \<or> sublist needle (js_lower (vd_label e))) ds)
        in case matches of
             [m] \<Rightarrow> Inr m
           | [] \<Rightarrow> throw (''No authorized message destination matches: '' @ query)
           | _ \<Rightarrow> throw (''Message destination is ambiguous: '' @ js_join '', '' (map vd_id matches))))"

section \<open>Lemmas\<close>

lemma js_lower_idem [simp]: "js_lower (js_lower s) = js_lower s"
proof -
  have "js_lower_char (js_lower_char c) = js_lower_char c" for c
    by (cases "(of_char c :: nat) < 256") (auto simp: js_lower_char_def Let_def of_char_of)
  then show ?thesis by (simp add: js_lower_def)
qed

lemma optional_text_idem: "optional_text v = Some s \<Longrightarrow> js_trim s = s \<and> s \<noteq> []"
  by (auto simp: optional_text_def Let_def split: if_splits)

lemma js_lower_Nil [simp]: "js_lower s = [] \<longleftrightarrow> s = []"
  by (simp add: js_lower_def)

lemma metadataString_trimmed [simp]: "js_trim (metadataString m k) = metadataString m k"
  by (simp add: metadataString_def split: option.split)

lemma required_text_Inr: "required_text (Some (JStr s)) l = Inr x \<longleftrightarrow> x = js_trim s \<and> x \<noteq> []"
  by (auto simp: required_text_def)

lemma normalize_surface_json:
  "normalizeAdapterSurface (Some (surface_json f)) = Inr g \<Longrightarrow>
     fc_kind g = fc_kind f \<and> fc_id g = js_trim (fc_id f) \<and> fc_threadId g = optional_text (fc_threadId f)"
  by (auto simp: normalizeAdapterSurface_def surface_json_def json_string_def optional_text_def
      split: if_splits option.splits)

lemma normalize_destination_json:
  assumes "normalizeAdapterMessageDestination (Some (destination_json d)) = Inr e"
  shows "ds_adapter e = js_lower (js_trim (ds_adapter d))" "ds_accountId e = js_trim (ds_accountId d)"
    "ds_actorId e = js_trim (ds_actorId d)" "fc_kind (ds_surface e) = fc_kind (ds_surface d)"
    "fc_id (ds_surface e) = js_trim (fc_id (ds_surface d))"
    "fc_threadId (ds_surface e) = optional_text (fc_threadId (ds_surface d))"
proof -
  have eq: "normalizeAdapterMessageDestination (Some (destination_json d)) =
      bind_result (required_text (Some (JStr (ds_adapter d))) ''adapter destination adapter'') (\<lambda>a.
      bind_result (required_text (Some (JStr (ds_accountId d))) ''adapter destination accountId'') (\<lambda>acc.
      bind_result (required_text (Some (JStr (ds_actorId d))) ''adapter destination actorId'') (\<lambda>act.
      bind_result (normalizeAdapterSurface (Some (surface_json (ds_surface d)))) (\<lambda>sf.
      Inr \<lparr>ds_adapter = js_lower a, ds_accountId = acc, ds_actorId = act, ds_surface = sf\<rparr>))))"
    by (simp add: normalizeAdapterMessageDestination_def destination_json_def json_get_def)
  obtain g where "normalizeAdapterSurface (Some (surface_json (ds_surface d))) = Inr g"
    and e: "e = \<lparr>ds_adapter = js_lower (js_trim (ds_adapter d)), ds_accountId = js_trim (ds_accountId d),
      ds_actorId = js_trim (ds_actorId d), ds_surface = g\<rparr>"
    using assms unfolding eq bind_result_Inr required_text_Inr sum.inject by metis
  with normalize_surface_json [of "ds_surface d" g]
  show "ds_adapter e = js_lower (js_trim (ds_adapter d))" "ds_accountId e = js_trim (ds_accountId d)"
    "ds_actorId e = js_trim (ds_actorId d)" "fc_kind (ds_surface e) = fc_kind (ds_surface d)"
    "fc_id (ds_surface e) = js_trim (fc_id (ds_surface d))"
    "fc_threadId (ds_surface e) = optional_text (fc_threadId (ds_surface d))"
    by simp_all
qed

text \<open>Names as the writers of the tables store them: trimmed, the adapter in lower case, no NUL.\<close>

definition plain_name :: "string \<Rightarrow> bool" where
  "plain_name s \<longleftrightarrow> js_trim s = s \<and> CHR 0x00 \<notin> set s"

definition plain_actor :: "string \<Rightarrow> string \<Rightarrow> string \<Rightarrow> bool" where
  "plain_actor adapter accountId actorId \<longleftrightarrow>
     plain_name adapter \<and> js_lower adapter = adapter \<and> plain_name accountId \<and> plain_name actorId"

definition normal_tables :: "adapter_db \<Rightarrow> bool" where
  "normal_tables db \<longleftrightarrow>
     keyed link_key (ab_links db) \<and> keyed route_key (ab_routes db)
     \<and> (\<forall>l \<in> set (ab_links db). plain_actor (il_adapter l) (il_accountId l) (il_actorId l))
     \<and> (\<forall>r \<in> set (ab_routes db). plain_actor (su_adapter r) (su_accountId r) (su_actorId r)
          \<and> plain_name (su_surfaceId r) \<and> plain_name (su_threadId r))"

lemma nul_join_inject:
  assumes "\<forall>x \<in> set xs. CHR 0x00 \<notin> set x" and "\<forall>y \<in> set ys. CHR 0x00 \<notin> set y"
    and "xs \<noteq> []" and "ys \<noteq> []" and "nul_join xs = nul_join ys"
  shows "xs = ys"
proof -
  have "js_split (CHR 0x00) (nul_join zs) = zs" if "\<forall>z \<in> set zs. CHR 0x00 \<notin> set z" and "zs \<noteq> []" for zs
    unfolding nul_join_def using that by (intro js_split_js_join) blast+
  from this [OF assms(1,3)] this [OF assms(2,4)] assms(5) show ?thesis by metis
qed

lemma same_actor:
  assumes "plain_actor a b c" and "plain_actor a' b' c'"
    and "link_lookup_key a b c = link_lookup_key a' b' c'"
  shows "a = a' \<and> b = b' \<and> c = c'"
proof -
  from assms(3) have "nul_join [a, b, c] = nul_join [a', b', c']"
    using assms(1,2) by (simp add: link_lookup_key_def plain_actor_def plain_name_def)
  then have "[a, b, c] = [a', b', c']"
    using assms(1,2) by (intro nul_join_inject) (auto simp: plain_actor_def plain_name_def)
  then show ?thesis by simp
qed

definition authorised :: "int \<Rightarrow> adapter_db \<Rightarrow> destination \<Rightarrow> bool" where
  "authorised ownerUid db d \<longleftrightarrow> assertAdapterMessageDestinationAccess d ownerUid db = Inr ()"

lemma addCandidate_authorised:
  assumes "addCandidate bound off db l f cands = Inr cands'"
    and "\<forall>kc \<in> set cands. authorised ownerUid db (vd_destination (snd kc))"
    and "\<And>d. normalizeAdapterMessageDestination (Some (destination_json
           \<lparr>ds_adapter = js_lower (js_trim (il_adapter l)), ds_accountId = js_trim (il_accountId l),
            ds_actorId = il_actorId l, ds_surface = f\<rparr>)) = Inr d \<Longrightarrow> authorised ownerUid db d"
  shows "\<forall>kc \<in> set cands'. authorised ownerUid db (vd_destination (snd kc))"
proof -
  have upd: "set (AList.update k v cands) \<subseteq> insert (k, v) (set cands)" for k v
    by (induction cands) auto
  from assms(1) show ?thesis
    unfolding addCandidate_def Let_def
    using assms(2,3) upd by (fastforce split: if_splits)
qed

lemma link_destination_authorised:
  assumes norm: "normal_tables db" and l: "l \<in> set (links_list (ab_links db) (Some ownerUid))"
    and f: "linkedSurface l = Some f"
    and d: "normalizeAdapterMessageDestination (Some (destination_json
           \<lparr>ds_adapter = js_lower (js_trim (il_adapter l)), ds_accountId = js_trim (il_accountId l),
            ds_actorId = il_actorId l, ds_surface = f\<rparr>)) = Inr d"
  shows "authorised ownerUid db d"
proof -
  from l have l': "l \<in> set (ab_links db)" "il_uid l = ownerUid" by (auto simp: links_list_def)
  with norm have plain: "plain_actor (il_adapter l) (il_accountId l) (il_actorId l)"
    and keyed: "keyed link_key (ab_links db)" by (auto simp: normal_tables_def)
  note dd = normalize_destination_json [OF d, simplified]
  from plain have "(ds_adapter d, ds_accountId d, ds_actorId d) = link_key l"
    by (simp add: dd plain_actor_def plain_name_def link_key_def)
  with l'(1) keyed have "links_get (ab_links db) (ds_adapter d) (ds_accountId d) (ds_actorId d) = Some l"
    by (simp add: links_get_def lookup_iff)
  moreover have "identityLinkAllowsSurface l (ds_surface d)"
    using f by (auto simp: identityLinkAllowsSurface_def linkedSurface_def dd Let_def SURFACE_KINDS_def
        split: if_splits)
  ultimately show ?thesis
    using l'(2) by (simp add: authorised_def assertAdapterMessageDestinationAccess_def Let_def)
qed

lemma route_destination_authorised:
  assumes norm: "normal_tables db" and l: "l \<in> set (links_list (ab_links db) (Some ownerUid))"
    and r: "r \<in> set (surface_list (ab_routes db) (Some ownerUid))"
    and key: "link_lookup_key (il_adapter l) (il_accountId l) (il_actorId l)
            = link_lookup_key (su_adapter r) (su_accountId r) (su_actorId r)"
    and d: "normalizeAdapterMessageDestination (Some (destination_json
           \<lparr>ds_adapter = js_lower (js_trim (il_adapter l)), ds_accountId = js_trim (il_accountId l),
            ds_actorId = il_actorId l, ds_surface = route_surface r\<rparr>)) = Inr d"
  shows "authorised ownerUid db d"
proof -
  from l r have l': "l \<in> set (ab_links db)" "il_uid l = ownerUid"
    and r': "r \<in> set (ab_routes db)" "su_uid r = ownerUid"
    by (auto simp: links_list_def surface_list_def)
  with norm have pl: "plain_actor (il_adapter l) (il_accountId l) (il_actorId l)"
    and pr: "plain_actor (su_adapter r) (su_accountId r) (su_actorId r)" "plain_name (su_surfaceId r)"
      "plain_name (su_threadId r)"
    and keyed: "keyed link_key (ab_links db)" "keyed route_key (ab_routes db)"
    by (auto simp: normal_tables_def)
  from same_actor [OF pl pr(1) key]
  have same: "il_adapter l = su_adapter r" "il_accountId l = su_accountId r" "il_actorId l = su_actorId r" by simp_all
  note dd = normalize_destination_json [OF d, simplified]
  from pl have "(ds_adapter d, ds_accountId d, ds_actorId d) = link_key l"
    by (simp add: dd plain_actor_def plain_name_def link_key_def)
  with l'(1) keyed have "links_get (ab_links db) (ds_adapter d) (ds_accountId d) (ds_actorId d) = Some l"
    by (simp add: links_get_def lookup_iff)
  moreover have "surface_key (destination_surface d) = route_key r"
    using pl pr by (auto simp: surface_key_def destination_surface_def route_key_def dd route_surface_def
        plain_actor_def plain_name_def same optional_text_def)
  with r'(1) keyed have "surface_get (ab_routes db) (destination_surface d) = Some r"
    by (simp add: surface_get_def lookup_iff)
  ultimately show ?thesis
    using l'(2) r'(2) by (simp add: authorised_def assertAdapterMessageDestinationAccess_def Let_def)
qed

text \<open>
  Listing and authorisation agree: every destination the kernel offers an owner, from a link's own
  surface or from a surface route, passes the access check that guards sending and scheduling for that
  owner. The tables hold names as their writers store them.
\<close>

theorem visible_destinations_are_authorised:
  assumes "normal_tables db"
    and "listVisibleAdapterMessageDestinations dest_id bound ident ownerUid off db = Inr ds"
    and "v \<in> set ds"
  shows "assertAdapterMessageDestinationAccess (vd_destination v) ownerUid db = Inr ()"
proof -
  let ?I = "\<lambda>cands :: (string \<times> visible_destination) list.
      \<forall>kc \<in> set cands. authorised ownerUid db (vd_destination (snd kc))"
  let ?links = "links_list (ab_links db) (Some ownerUid)"
  from assms(2,3) obtain c1 c2 where c1: "fold_result (add_link bound off db) ?links [] = Inr c1"
    and c2: "fold_result (add_route bound off db ?links) (surface_list (ab_routes db) (Some ownerUid)) c1 = Inr c2"
    and v: "v \<in> (\<lambda>(k, c). c\<lparr>vd_id := dest_id ownerUid (vd_destination c)\<rparr>) ` set c2"
    unfolding listVisibleAdapterMessageDestinations_def Let_def
    by (auto split: option.splits connection_identity.splits)
  from c1 have "?I c1"
  proof (rule fold_result_invariant)
    fix l b c assume l: "l \<in> set ?links" and I: "?I b" and step: "add_link bound off db l b = Inr c"
    show "?I c"
    proof (cases "linkedSurface l")
      case (Some f)
      with step have "addCandidate bound off db l f b = Inr c" by (simp add: add_link_def)
      from addCandidate_authorised [OF this I] show ?thesis
        using link_destination_authorised [OF assms(1) l Some] by blast
    qed (use step I in \<open>simp add: add_link_def\<close>)
  qed simp
  with c2 have "?I c2"
  proof (rule fold_result_invariant)
    fix r b c assume r: "r \<in> set (surface_list (ab_routes db) (Some ownerUid))" and I: "?I b"
      and step: "add_route bound off db ?links r b = Inr c"
    show "?I c"
    proof (cases "find (\<lambda>l. link_lookup_key (il_adapter l) (il_accountId l) (il_actorId l)
        = link_lookup_key (su_adapter r) (su_accountId r) (su_actorId r)) (rev ?links)")
      case (Some l)
      with step have add: "addCandidate bound off db l (route_surface r) b = Inr c" by (simp add: add_route_def)
      from find_Some_in [OF Some] have "l \<in> set ?links" "link_lookup_key (il_adapter l) (il_accountId l) (il_actorId l)
          = link_lookup_key (su_adapter r) (su_accountId r) (su_actorId r)" by simp_all
      with addCandidate_authorised [OF add I] show ?thesis
        using route_destination_authorised [OF assms(1) _ r] by blast
    qed (use step I in \<open>simp add: add_route_def\<close>)
  qed
  with v show ?thesis by (auto simp: authorised_def)
qed

definition demo_adapter_db :: adapter_db where
  "demo_adapter_db = \<lparr>ab_links = [\<lparr>il_adapter = ''irc'', il_accountId = ''bot'', il_actorId = ''u1'', il_uid = 1000,
     il_createdAt = 5, il_linkedByUid = 1000,
     il_metadata = Some (JObj [(''surfaceKind'', JStr ''dm''), (''surfaceId'', JStr ''d1'')])\<rparr>],
     ab_routes = [\<lparr>su_adapter = ''irc'', su_accountId = ''bot'', su_actorId = ''u1'', su_surfaceKind = ''group'',
       su_surfaceId = ''g1'', su_threadId = '''', su_uid = 1000, su_pid = ''proc:1'', su_updatedAt = 6,
       su_updatedByUid = 1000\<rparr>], ab_status = []\<rparr>"

definition demo_destination :: destination where
  "demo_destination = \<lparr>ds_adapter = ''irc'', ds_accountId = ''bot'', ds_actorId = ''u1'',
     ds_surface = \<lparr>fc_kind = ''group'', fc_id = ''g1'', fc_threadId = None\<rparr>\<rparr>"

lemma demo_listing:
  "listVisibleAdapterMessageDestinations (\<lambda>u d. fc_id (ds_surface d)) (\<lambda>k. k = ''CHANNEL_IRC'')
     (Some (ConnUser demo_person [])) 1000 True demo_adapter_db
   = Inr [\<lparr>vd_id = ''d1'', vd_label = ''Irc direct message'', vd_online = False,
          vd_destination = demo_destination\<lparr>ds_surface := \<lparr>fc_kind = ''dm'', fc_id = ''d1'', fc_threadId = None\<rparr>\<rparr>\<rparr>,
          \<lparr>vd_id = ''g1'', vd_label = ''Irc group'', vd_online = False, vd_destination = demo_destination\<rparr>]"
  by code_simp

lemma visible_destinations_are_authorised_witness:
  "assertAdapterMessageDestinationAccess demo_destination 1000 demo_adapter_db = Inr ()
     \<and> assertAdapterMessageDestinationAccess demo_destination 1001 demo_adapter_db \<noteq> Inr ()"
proof
  have "normal_tables demo_adapter_db" by code_simp
  from visible_destinations_are_authorised [OF this demo_listing,
      of "\<lparr>vd_id = ''g1'', vd_label = ''Irc group'', vd_online = False, vd_destination = demo_destination\<rparr>"]
  show "assertAdapterMessageDestinationAccess demo_destination 1000 demo_adapter_db = Inr ()"
    by (simp add: demo_destination_def)
  show "assertAdapterMessageDestinationAccess demo_destination 1001 demo_adapter_db \<noteq> Inr ()" by code_simp
qed

end
