(* ===== verification/Scheduler.thy ===== *)
theory Scheduler
  imports Cron Config Destinations
begin

text \<open>
  The schedule store (\<open>ScheduleStore\<close> of \<open>kernel/scheduler.ts\<close>), the calls over it and the runs of a
  schedule (\<open>onScheduleDue\<close>, \<open>runSchedules\<close> and \<open>runScheduleRecord\<close> of \<open>kernel/do.ts\<close>). A run is two steps: \<open>start_run\<close> up to the point where the
  target is dispatched and awaited, and \<open>finish_run\<close> from its outcome; anything may happen between
  them. The record a run works on is the one its caller read, possibly some time ago. JSON columns
  hold the value they encode. Random ids, the clock and the outcome of arming or cancelling a wake are
  arguments, and \<open>zoned\<close> and \<open>valid_timezone\<close> are the parameters of the theory \<open>Cron\<close>. The text of an
  \<open>unsupported kind\<close> error leaves out the kind.
\<close>

section \<open>Data\<close>

datatype schedule_principal = PrUser int string | PrService int string string | PrProcess int string string

datatype run_status = RunOk | RunError | RunSkipped

datatype schedule_target =
    TCommandExec string "string option" "int option"
  | TProcessSpawn string "string option" "string option" "string option" "string option"
  | TProcessEvent string string "json option" "destination option"
  | TAdapterSend destination string

record schedule_row =
  sc_id :: string
  sc_owner_uid :: int
  sc_creator :: schedule_principal
  sc_run_as :: schedule_principal
  sc_name :: string
  sc_description :: "string option"
  sc_enabled :: bool
  sc_expression :: schedule_expression
  sc_target :: schedule_target
  sc_wake_schedule_id :: "string option"
  sc_occurrence_id :: "string option"
  sc_attempt_count :: int
  sc_next_run_at :: "int option"
  sc_running_at :: "int option"
  sc_last_run_at :: "int option"
  sc_last_status :: "run_status option"
  sc_last_error :: "string option"
  sc_last_duration_ms :: "int option"
  sc_run_count :: int
  sc_created_at :: int
  sc_updated_at :: int

record schedule_run_row =
  sr_run_id :: string
  sr_schedule_id :: string
  sr_owner_uid :: int
  sr_scheduled_at :: "int option"
  sr_started_at :: int
  sr_finished_at :: int
  sr_status :: run_status
  sr_error :: "string option"
  sr_result :: json

record cron_file =
  cf_path :: string
  cf_owner_uid :: "int option"
  cf_content :: string
  cf_created_at :: int
  cf_updated_at :: int

record schedule_store =
  ss_schedules :: "schedule_row list"
  ss_runs :: "schedule_run_row list"
  ss_cron_files :: "cron_file list"
  ss_cron_links :: "(string \<times> string) list"

definition DEFAULT_LIST_LIMIT :: int where "DEFAULT_LIST_LIMIT = 100"
definition MAX_LIST_LIMIT :: int where "MAX_LIST_LIMIT = 500"
definition MAX_ONE_SHOT_SCHEDULE_DELIVERY_ATTEMPTS :: int where
  "MAX_ONE_SHOT_SCHEDULE_DELIVERY_ATTEMPTS = 10"

definition scheduleDeliveryRetryDelayMs :: "int \<Rightarrow> int" where
  "scheduleDeliveryRetryDelayMs attempt = min (5 * 60000) (5000 * 2 ^ nat (max 0 (attempt - 1)))"

section \<open>The store\<close>

definition getStored :: "schedule_store \<Rightarrow> string \<Rightarrow> schedule_row option" where
  "getStored st k = sql_lookup sc_id (ss_schedules st) k"

definition update_schedule :: "string \<Rightarrow> (schedule_row \<Rightarrow> schedule_row) \<Rightarrow> schedule_store \<Rightarrow> schedule_store" where
  "update_schedule k f st = st\<lparr>ss_schedules := sql_update (\<lambda>r. sc_id r = k) f (ss_schedules st)\<rparr>"

definition armedOneShotOccurrenceId :: "string \<Rightarrow> schedule_expression \<Rightarrow> bool \<Rightarrow> int option \<Rightarrow> string option" where
  "armedOneShotOccurrenceId uuid e enabled nextRunAt =
     (if enabled \<and> nextRunAt \<noteq> None \<and> isOneShotExpression e then Some uuid else None)"

record schedule_input =
  si_ownerUid :: int
  si_creator :: schedule_principal
  si_runAs :: schedule_principal
  si_name :: string
  si_description :: "string option"
  si_enabled :: bool
  si_expression :: schedule_expression
  si_target :: schedule_target

text \<open>Two fresh ids: the schedule's and the occurrence's.\<close>

definition schedule_create :: "(string \<Rightarrow> int \<Rightarrow> date_parts) \<Rightarrow> int \<Rightarrow> string \<Rightarrow> string \<Rightarrow> schedule_input
    \<Rightarrow> schedule_store \<Rightarrow> (schedule_store \<times> schedule_row) result" where
  "schedule_create zoned now k uuid inp st =
     bind_result (if si_enabled inp then computeNextRunAt zoned (si_expression inp) now else Inr None) (\<lambda>nextRunAt.
       let row = \<lparr>sc_id = k, sc_owner_uid = si_ownerUid inp, sc_creator = si_creator inp, sc_run_as = si_runAs inp,
                  sc_name = si_name inp, sc_description = si_description inp, sc_enabled = si_enabled inp,
                  sc_expression = si_expression inp, sc_target = si_target inp, sc_wake_schedule_id = None,
                  sc_occurrence_id = armedOneShotOccurrenceId uuid (si_expression inp) (si_enabled inp) nextRunAt,
                  sc_attempt_count = 0, sc_next_run_at = nextRunAt, sc_running_at = None, sc_last_run_at = None,
                  sc_last_status = None, sc_last_error = None, sc_last_duration_ms = None, sc_run_count = 0,
                  sc_created_at = now, sc_updated_at = now\<rparr>
       in bind_result (sql_insert sc_id row (ss_schedules st)) (\<lambda>rows. Inr (st\<lparr>ss_schedules := rows\<rparr>, row)))"

definition clampListLimit :: "js_number option \<Rightarrow> int" where
  "clampListLimit v =
     (case v of
        Some (IntNum i) \<Rightarrow> max 1 (min MAX_LIST_LIMIT i)
      | Some (FracNum i) \<Rightarrow> max 1 (min MAX_LIST_LIMIT i)
      | _ \<Rightarrow> DEFAULT_LIST_LIMIT)"

definition schedule_list :: "int option \<Rightarrow> bool \<Rightarrow> js_number option \<Rightarrow> int option \<Rightarrow> schedule_store
    \<Rightarrow> schedule_row list \<times> nat" where
  "schedule_list ownerUid includeDisabled limit offset st =
     (let rows = filter (\<lambda>r. (case ownerUid of None \<Rightarrow> True | Some u \<Rightarrow> sc_owner_uid r = u)
                           \<and> (includeDisabled \<or> sc_enabled r)) (ss_schedules st);
          ordered = sort_key (\<lambda>r. if sc_next_run_at r = None then 1 else 0 :: int)
                      (sort_key (\<lambda>r. coalesce (sc_next_run_at r) 0)
                        (sort_key (\<lambda>r. - sc_updated_at r) rows))
      in (take (nat (clampListLimit limit)) (drop (nat (max 0 (coalesce offset 0))) ordered), length rows))"

definition is_due :: "int \<Rightarrow> schedule_row \<Rightarrow> bool" where
  "is_due now r \<longleftrightarrow> sc_enabled r \<and> (case sc_next_run_at r of None \<Rightarrow> False | Some t \<Rightarrow> t \<le> now)"

definition listDue :: "int \<Rightarrow> int option \<Rightarrow> schedule_store \<Rightarrow> schedule_row list" where
  "listDue now ownerUid st =
     sort_key (\<lambda>r. coalesce (sc_next_run_at r) 0)
       (sort_key sc_id
         (filter (\<lambda>r. is_due now r \<and> (case ownerUid of None \<Rightarrow> True | Some u \<Rightarrow> sc_owner_uid r = u))
           (ss_schedules st)))"

record schedule_patch =
  pt_name :: "string option"
  pt_description :: "string option option"
  pt_enabled :: "bool option"
  pt_expression :: "schedule_expression option"
  pt_target :: "schedule_target option"

text \<open>The columns an update writes, from the row it read and the next run it computed.\<close>

definition patched_row :: "int \<Rightarrow> string \<Rightarrow> schedule_patch \<Rightarrow> schedule_row \<Rightarrow> int option \<Rightarrow> schedule_row \<Rightarrow> schedule_row" where
  "patched_row now uuid p current nextRunAt r =
     (let e = coalesce (pt_expression p) (sc_expression current);
          enabled = coalesce (pt_enabled p) (sc_enabled current);
          startsNewOccurrence = (pt_enabled p \<noteq> None \<or> pt_expression p \<noteq> None \<or> pt_target p \<noteq> None);
          armedOneShot = (enabled \<and> nextRunAt \<noteq> None \<and> isOneShotExpression e);
          occurrence = (if armedOneShot
                        then (if \<not> startsNewOccurrence \<and> truthy (sc_occurrence_id current)
                              then sc_occurrence_id current else Some uuid)
                        else None);
          attempts = (if occurrence = sc_occurrence_id current then sc_attempt_count current else 0)
      in r\<lparr>sc_name := coalesce (pt_name p) (sc_name current),
           sc_description := (case pt_description p of None \<Rightarrow> sc_description current | Some d \<Rightarrow> d),
           sc_enabled := enabled, sc_expression := e,
           sc_target := coalesce (pt_target p) (sc_target current),
           sc_occurrence_id := occurrence, sc_attempt_count := attempts,
           sc_next_run_at := nextRunAt, sc_updated_at := now\<rparr>)"

definition next_run_of_patch :: "(string \<Rightarrow> int \<Rightarrow> date_parts) \<Rightarrow> int \<Rightarrow> schedule_patch \<Rightarrow> schedule_row \<Rightarrow> int option result" where
  "next_run_of_patch zoned now p current =
     (if coalesce (pt_enabled p) (sc_enabled current)
      then (if pt_expression p \<noteq> None \<or> pt_enabled p \<noteq> None
            then computeNextRunAt zoned (coalesce (pt_expression p) (sc_expression current)) now
            else Inr (sc_next_run_at current))
      else Inr None)"

definition schedule_update :: "(string \<Rightarrow> int \<Rightarrow> date_parts) \<Rightarrow> int \<Rightarrow> string \<Rightarrow> string \<Rightarrow> schedule_patch
    \<Rightarrow> schedule_store \<Rightarrow> schedule_store result" where
  "schedule_update zoned now uuid k p st =
     (case getStored st k of
        None \<Rightarrow> throw (''Schedule not found: '' @ k)
      | Some current \<Rightarrow>
          bind_result (next_run_of_patch zoned now p current) (\<lambda>nextRunAt.
            Inr (update_schedule k (patched_row now uuid p current nextRunAt) st)))"

definition schedule_remove :: "string \<Rightarrow> schedule_store \<Rightarrow> schedule_store \<times> schedule_row option" where
  "schedule_remove k st =
     (case getStored st k of
        None \<Rightarrow> (st, None)
      | Some r \<Rightarrow> (st\<lparr>ss_schedules := sql_delete (\<lambda>r. sc_id r = k) (ss_schedules st)\<rparr>, Some r))"

definition setWakeScheduleId :: "int \<Rightarrow> string \<Rightarrow> string option \<Rightarrow> schedule_store \<Rightarrow> schedule_store" where
  "setWakeScheduleId now k wake =
     update_schedule k (\<lambda>r. r\<lparr>sc_wake_schedule_id := wake, sc_updated_at := now\<rparr>)"

definition markRunning :: "int \<Rightarrow> string \<Rightarrow> string \<Rightarrow> schedule_store \<Rightarrow> schedule_store \<times> schedule_row option" where
  "markRunning startedAt uuid k st =
     (case getStored st k of
        None \<Rightarrow> (st, None)
      | Some current \<Rightarrow>
          if sc_running_at current \<noteq> None then (st, None)
          else
            (let occurrence = (if isOneShotExpression (sc_expression current) \<and> sc_enabled current
                                  \<and> sc_next_run_at current \<noteq> None
                               then Some (coalesce (sc_occurrence_id current) uuid) else None);
                 attempts = (if truthy occurrence
                             then (if sc_occurrence_id current = occurrence then sc_attempt_count current else 0)
                             else 0);
                 st' = st\<lparr>ss_schedules := sql_update (\<lambda>r. sc_id r = k \<and> sc_running_at r = None)
                         (\<lambda>r. r\<lparr>sc_running_at := Some startedAt, sc_occurrence_id := occurrence,
                                sc_attempt_count := attempts, sc_updated_at := startedAt\<rparr>) (ss_schedules st)\<rparr>
             in (st', getStored st' k)))"

datatype run_mode = Due | Force

definition occurrenceKey :: "string \<Rightarrow> schedule_row \<Rightarrow> run_mode \<Rightarrow> int option \<Rightarrow> int \<Rightarrow> string result" where
  "occurrenceKey uuid r mode scheduledAt startedAt =
     (if mode = Force then Inr (''force:'' @ uuid)
      else if \<not> isOneShotExpression (sc_expression r) then Inr (''due:'' @ show_int (coalesce scheduledAt startedAt))
      else if \<not> truthy (sc_occurrence_id r)
      then throw (''Armed one-shot schedule '' @ sc_id r @ '' is missing its occurrence id'')
      else Inr (''one-shot:'' @ the (sc_occurrence_id r)))"

definition oneShotAttemptNumber :: "schedule_row \<Rightarrow> run_mode \<Rightarrow> int option result" where
  "oneShotAttemptNumber r mode =
     (if mode \<noteq> Due \<or> \<not> isOneShotExpression (sc_expression r) then Inr None
      else if \<not> truthy (sc_occurrence_id r)
      then throw (''Armed one-shot schedule '' @ sc_id r @ '' is missing its occurrence id'')
      else Inr (Some (sc_attempt_count r + 1)))"

record finish_input =
  fi_scheduleId :: string
  fi_ownerUid :: int
  fi_scheduledAt :: "int option"
  fi_startedAt :: int
  fi_finishedAt :: int
  fi_status :: run_status
  fi_error :: "string option"
  fi_result :: json
  fi_nextRunAt :: "int option"
  fi_enabled :: bool
  fi_occurrenceId :: "string option"
  fi_countAttempt :: bool

definition finished_row :: "finish_input \<Rightarrow> schedule_row \<Rightarrow> schedule_row" where
  "finished_row i current =
     (let superseded = (fi_occurrenceId i \<noteq> None \<and> sc_occurrence_id current \<noteq> fi_occurrenceId i);
          enabled = (if superseded then sc_enabled current else fi_enabled i);
          nextRunAt = (if superseded
                       then (case sc_next_run_at current of None \<Rightarrow> fi_nextRunAt i | Some t \<Rightarrow> Some t)
                       else fi_nextRunAt i);
          keep = (isOneShotExpression (sc_expression current) \<and> enabled \<and> nextRunAt \<noteq> None);
          occurrence = (if keep then sc_occurrence_id current else None);
          attempts = (if truthy occurrence
                      then sc_attempt_count current
                           + (if fi_countAttempt i \<and> occurrence = fi_occurrenceId i then 1 else 0)
                      else 0)
      in current\<lparr>sc_enabled := enabled, sc_running_at := None, sc_last_run_at := Some (fi_finishedAt i),
           sc_last_status := Some (fi_status i), sc_last_error := fi_error i,
           sc_last_duration_ms := Some (max 0 (fi_finishedAt i - fi_startedAt i)),
           sc_run_count := sc_run_count current + (if fi_status i = RunSkipped then 0 else 1),
           sc_occurrence_id := occurrence, sc_attempt_count := attempts, sc_next_run_at := nextRunAt,
           sc_updated_at := fi_finishedAt i\<rparr>)"

text \<open>The history row is inserted after the update, even when the schedule has been removed.\<close>

definition finishRun :: "string \<Rightarrow> finish_input \<Rightarrow> (schedule_store, schedule_row option) action" where
  "finishRun runId i =
     act_bind (act_modify (update_schedule (fi_scheduleId i) (finished_row i))) (\<lambda>_.
     act_bind (act_try (\<lambda>st. bind_result (sql_insert sr_run_id
         \<lparr>sr_run_id = runId, sr_schedule_id = fi_scheduleId i, sr_owner_uid = fi_ownerUid i,
          sr_scheduled_at = fi_scheduledAt i, sr_started_at = fi_startedAt i, sr_finished_at = fi_finishedAt i,
          sr_status = fi_status i, sr_error = fi_error i, sr_result = fi_result i\<rparr> (ss_runs st))
         (\<lambda>runs. Inr (st\<lparr>ss_runs := runs\<rparr>)))) (\<lambda>_.
     act_get (\<lambda>st. getStored st (fi_scheduleId i))))"

definition history :: "string \<Rightarrow> js_number option \<Rightarrow> schedule_store \<Rightarrow> schedule_run_row list" where
  "history k limit st =
     take (nat (clampListLimit limit))
       (sort_key (\<lambda>r. - sr_started_at r) (filter (\<lambda>r. sr_schedule_id r = k) (ss_runs st)))"

section \<open>Cron files\<close>

definition getCronFile :: "schedule_store \<Rightarrow> string \<Rightarrow> cron_file option" where
  "getCronFile st path = sql_lookup cf_path (ss_cron_files st) path"

definition listCronFiles :: "string option \<Rightarrow> int option option \<Rightarrow> schedule_store \<Rightarrow> cron_file list" where
  "listCronFiles pre ownerUid st =
     sort_key cf_path (filter (\<lambda>r.
       (truthy pre \<longrightarrow> sql_like (the pre @ ''%'') (cf_path r))
       \<and> (case ownerUid of None \<Rightarrow> True | Some u \<Rightarrow> cf_owner_uid r = u)) (ss_cron_files st))"

definition upsertCronFile :: "int \<Rightarrow> string \<Rightarrow> int option \<Rightarrow> string \<Rightarrow> schedule_store \<Rightarrow> schedule_store" where
  "upsertCronFile now path ownerUid content st =
     st\<lparr>ss_cron_files := sql_replace cf_path
          \<lparr>cf_path = path, cf_owner_uid = ownerUid, cf_content = content,
           cf_created_at = (case getCronFile st path of Some f \<Rightarrow> cf_created_at f | None \<Rightarrow> now),
           cf_updated_at = now\<rparr> (ss_cron_files st)\<rparr>"

definition clearCronFileScheduleLinks :: "string \<Rightarrow> schedule_store \<Rightarrow> schedule_store" where
  "clearCronFileScheduleLinks path st = st\<lparr>ss_cron_links := sql_delete (\<lambda>l. fst l = path) (ss_cron_links st)\<rparr>"

definition removeCronFile :: "string \<Rightarrow> schedule_store \<Rightarrow> schedule_store \<times> cron_file option" where
  "removeCronFile path st =
     (case getCronFile st path of
        None \<Rightarrow> (st, None)
      | Some f \<Rightarrow> (clearCronFileScheduleLinks path
                     (st\<lparr>ss_cron_files := sql_delete (\<lambda>r. cf_path r = path) (ss_cron_files st)\<rparr>), Some f))"

definition linkCronFileSchedule :: "string \<Rightarrow> string \<Rightarrow> schedule_store \<Rightarrow> schedule_store" where
  "linkCronFileSchedule path k st = st\<lparr>ss_cron_links := sql_ignore (\<lambda>l. l) (path, k) (ss_cron_links st)\<rparr>"

definition cronFileScheduleIds :: "string \<Rightarrow> schedule_store \<Rightarrow> string list" where
  "cronFileScheduleIds path st = sort_key (\<lambda>k. k) (map snd (filter (\<lambda>l. fst l = path) (ss_cron_links st)))"

section \<open>Access\<close>

definition assertCanManageSchedule :: "int \<Rightarrow> schedule_row \<Rightarrow> unit result" where
  "assertCanManageSchedule callerOwnerUid r =
     (if callerOwnerUid = 0 \<or> callerOwnerUid = sc_owner_uid r then Inr ()
      else throw (''Permission denied: cannot access schedule '' @ sc_id r))"

definition handleSchedulerList :: "int \<Rightarrow> int option \<Rightarrow> bool \<Rightarrow> js_number option \<Rightarrow> int option \<Rightarrow> schedule_store
    \<Rightarrow> schedule_row list \<times> nat" where
  "handleSchedulerList callerOwnerUid ownerUid includeDisabled limit offset st =
     schedule_list (if callerOwnerUid = 0 then ownerUid else Some callerOwnerUid) includeDisabled limit offset st"

definition handleSchedulerRemove :: "int \<Rightarrow> unit result \<Rightarrow> json option \<Rightarrow> (schedule_store, bool) action" where
  "handleSchedulerRemove callerOwnerUid cancel k st =
     (case normalizeRequiredText k ''schedule id'' of
        Inl e \<Rightarrow> (st, Inl e)
      | Inr k \<Rightarrow>
          (case getStored st k of
             None \<Rightarrow> (st, Inr False)
           | Some r \<Rightarrow>
               (case assertCanManageSchedule callerOwnerUid r of
                  Inl e \<Rightarrow> (st, Inl e)
                | Inr _ \<Rightarrow>
                    (fst (schedule_remove k st),
                     if truthy (sc_wake_schedule_id r) then bind_result cancel (\<lambda>_. Inr True) else Inr True))))"

section \<open>Targets\<close>

definition normalizePlainObject :: "json option \<Rightarrow> string \<Rightarrow> json result" where
  "normalizePlainObject v label =
     (case v of Some (JObj kvs) \<Rightarrow> Inr (JObj kvs) | _ \<Rightarrow> throw (label @ '' must be a JSON object''))"

definition when_result :: "bool \<Rightarrow> 'a result \<Rightarrow> 'a option result" where
  "when_result c r = (if c then bind_result r (\<lambda>x. Inr (Some x)) else Inr None)"

definition normalizeScheduleTarget :: "json option \<Rightarrow> schedule_target result" where
  "normalizeScheduleTarget v =
     (case v of
        Some (JArr xs) \<Rightarrow> throw ''unsupported schedule target kind''
      | Some (JObj kvs) \<Rightarrow>
          (let kind = json_string (map_of kvs ''kind'');
               text = (\<lambda>k label. normalizeRequiredText (map_of kvs k) label);
               text_if = (\<lambda>k label. when_result (json_truthy (map_of kvs k)) (text k label))
           in if kind = Some ''command.exec'' then
                bind_result (text ''command'' ''command.exec command'') (\<lambda>command.
                bind_result (text_if ''cwd'' ''command.exec cwd'') (\<lambda>cwd.
                bind_result (when_result (map_of kvs ''timeoutMs'' \<noteq> None)
                    (normalizePositiveInteger (map_of kvs ''timeoutMs'') ''command.exec timeoutMs'')) (\<lambda>timeoutMs.
                Inr (TCommandExec command cwd timeoutMs))))
              else if kind = Some ''process.spawn'' then
                bind_result (text ''prompt'' ''process.spawn prompt'') (\<lambda>prompt.
                bind_result (text_if ''runAs'' ''process.spawn runAs'') (\<lambda>runAs.
                bind_result (text_if ''label'' ''process.spawn label'') (\<lambda>label.
                bind_result (text_if ''parentPid'' ''process.spawn parentPid'') (\<lambda>parentPid.
                bind_result (text_if ''cwd'' ''process.spawn cwd'') (\<lambda>cwd.
                Inr (TProcessSpawn prompt runAs label parentPid cwd))))))
              else if kind = Some ''process.event'' then
                bind_result (text ''pid'' ''process.event pid'') (\<lambda>pid.
                bind_result (text ''message'' ''process.event message'') (\<lambda>message.
                bind_result (when_result (map_of kvs ''data'' \<noteq> None)
                    (normalizePlainObject (map_of kvs ''data'') ''process.event data'')) (\<lambda>d.
                bind_result (when_result (map_of kvs ''replyTo'' \<noteq> None)
                    (normalizeAdapterMessageDestination (map_of kvs ''replyTo''))) (\<lambda>replyTo.
                Inr (TProcessEvent pid message d replyTo)))))
              else if kind = Some ''adapter.send'' then
                bind_result (normalizeAdapterMessageDestination (map_of kvs ''destination'')) (\<lambda>d.
                bind_result (text ''text'' ''adapter.send text'') (\<lambda>t.
                Inr (TAdapterSend d t)))
              else throw ''unsupported schedule target kind'')
      | _ \<Rightarrow> throw ''schedule target must be an object'')"

record schedule_ctx =
  sx_call :: call_ctx
  sx_procs :: "process_row list"
  sx_adapters :: adapter_db
  sx_timezone :: "string option"

definition need :: "bool \<Rightarrow> string \<Rightarrow> unit result" where
  "need c msg = (if c then Inr () else throw msg)"

definition need_process :: "process_row list \<Rightarrow> int \<Rightarrow> string \<Rightarrow> string \<Rightarrow> unit result" where
  "need_process procs ownerUid pid denied =
     (case process_get procs pid of
        None \<Rightarrow> throw (''Process not found: '' @ pid)
      | Some p \<Rightarrow> need (ownerUid = 0 \<or> rc_ownerUid p = ownerUid) (denied @ pid))"

definition validateScheduleTargetAccess :: "schedule_target \<Rightarrow> schedule_ctx \<Rightarrow> unit result" where
  "validateScheduleTargetAccess t ctx =
     (let ownerUid = resolveCallerOwnerUid (sx_procs ctx) (sx_call ctx);
          can = (\<lambda>c. need (hasCapability (identity_capabilities (cx_identity (sx_call ctx))) c) (''Permission denied: '' @ c))
      in case t of
           TCommandExec _ _ _ \<Rightarrow> can ''shell.exec''
         | TProcessSpawn _ _ _ parentPid _ \<Rightarrow>
             bind_result (can ''proc.spawn'') (\<lambda>_.
             if truthy parentPid
             then need_process (sx_procs ctx) ownerUid (the parentPid) ''Permission denied: cannot schedule child under ''
             else Inr ())
         | TProcessEvent pid _ _ replyTo \<Rightarrow>
             bind_result (can ''proc.send'') (\<lambda>_.
             bind_result (need_process (sx_procs ctx) ownerUid pid ''Permission denied: cannot schedule process '') (\<lambda>_.
             case replyTo of
               None \<Rightarrow> Inr ()
             | Some d \<Rightarrow> bind_result (can ''adapter.send'') (\<lambda>_.
                 assertAdapterMessageDestinationAccess d ownerUid (sx_adapters ctx))))
         | TAdapterSend d _ \<Rightarrow>
             bind_result (can ''adapter.send'') (\<lambda>_.
             assertAdapterMessageDestinationAccess d ownerUid (sx_adapters ctx)))"

definition principalFromContext :: "call_ctx \<Rightarrow> schedule_principal" where
  "principalFromContext ctx =
     (let p = identity_process (cx_identity ctx) in
      if truthy (cx_processId ctx) then PrProcess (pi_uid p) (pi_username p) (the (cx_processId ctx))
      else case cx_identity ctx of
        ConnService _ _ chan \<Rightarrow> PrService (pi_uid p) (pi_username p) chan
      | _ \<Rightarrow> PrUser (pi_uid p) (pi_username p))"

section \<open>Adding and editing\<close>

text \<open>\<open>wake\<close> is the outcome of arming the wake, \<open>later\<close> the clock once it is armed.\<close>

definition armSchedule :: "int \<Rightarrow> string result \<Rightarrow> schedule_row \<Rightarrow> (schedule_store, unit) action" where
  "armSchedule later wake r st =
     (if \<not> sc_enabled r \<or> sc_next_run_at r = None then (setWakeScheduleId later (sc_id r) None st, Inr ())
      else case wake of
        Inl e \<Rightarrow> (st, Inl e)
      | Inr w \<Rightarrow> (setWakeScheduleId later (sc_id r) (Some w) st, Inr ()))"

record add_args =
  aa_name :: "json option"
  aa_description :: "json option"
  aa_enabled :: "bool option"
  aa_expression :: json
  aa_target :: "json option"

definition schedule_input_of :: "(string \<Rightarrow> bool) \<Rightarrow> schedule_ctx \<Rightarrow> int \<Rightarrow> add_args \<Rightarrow> schedule_input result" where
  "schedule_input_of valid_timezone ctx now args =
     (let enabled = (aa_enabled args \<noteq> Some False) in
      bind_result (normalizeScheduleExpression valid_timezone (sx_timezone ctx) (aa_expression args)) (\<lambda>e.
      bind_result (assertSchedulableAtExpression e enabled now) (\<lambda>_.
      bind_result (normalizeScheduleTarget (aa_target args)) (\<lambda>t.
      bind_result (validateScheduleTargetAccess t ctx) (\<lambda>_.
      bind_result (normalizeRequiredText (aa_name args) ''schedule name'') (\<lambda>name.
      bind_result (normalizeOptionalText (aa_description args)) (\<lambda>description.
      Inr \<lparr>si_ownerUid = resolveCallerOwnerUid (sx_procs ctx) (sx_call ctx),
           si_creator = principalFromContext (sx_call ctx), si_runAs = principalFromContext (sx_call ctx),
           si_name = name, si_description = description, si_enabled = enabled, si_expression = e,
           si_target = t\<rparr>)))))))"

definition handleSchedulerAdd :: "(string \<Rightarrow> int \<Rightarrow> date_parts) \<Rightarrow> (string \<Rightarrow> bool) \<Rightarrow> schedule_ctx \<Rightarrow> int \<Rightarrow> int
    \<Rightarrow> string \<Rightarrow> string \<Rightarrow> string result \<Rightarrow> add_args \<Rightarrow> (schedule_store, schedule_row) action" where
  "handleSchedulerAdd zoned valid_timezone ctx now later k uuid wake args st =
     (case bind_result (schedule_input_of valid_timezone ctx now args)
             (\<lambda>inp. schedule_create zoned now k uuid inp st) of
        Inl e \<Rightarrow> (st, Inl e)
      | Inr (st', row) \<Rightarrow> act_bind (armSchedule later wake row) (\<lambda>_. act_return row) st')"

record patch_args =
  pa_name :: "json option"
  pa_description :: "json option"
  pa_enabled :: "bool option"
  pa_expression :: "json option"
  pa_target :: "json option"

definition normalize_patch :: "(string \<Rightarrow> bool) \<Rightarrow> schedule_ctx \<Rightarrow> int \<Rightarrow> schedule_row \<Rightarrow> patch_args
    \<Rightarrow> schedule_patch result" where
  "normalize_patch valid_timezone ctx now existing p =
     bind_result (if pa_target p = None then Inr (sc_target existing) else normalizeScheduleTarget (pa_target p)) (\<lambda>target.
     bind_result (case pa_expression p of
         None \<Rightarrow> Inr (sc_expression existing)
       | Some e \<Rightarrow> normalizeScheduleExpression valid_timezone (sx_timezone ctx) e) (\<lambda>e.
     let enabled = coalesce (pa_enabled p) (sc_enabled existing) in
     bind_result (if enabled \<or> pa_target p \<noteq> None then validateScheduleTargetAccess target ctx else Inr ()) (\<lambda>_.
     bind_result (if pa_expression p \<noteq> None \<or> pa_enabled p = Some True
                  then assertSchedulableAtExpression e enabled now else Inr ()) (\<lambda>_.
     bind_result (when_result (pa_name p \<noteq> None) (normalizeRequiredText (pa_name p) ''schedule name'')) (\<lambda>name.
     bind_result (when_result (pa_description p \<noteq> None) (normalizeOptionalText (pa_description p))) (\<lambda>description.
     Inr \<lparr>pt_name = name, pt_description = description, pt_enabled = pa_enabled p,
          pt_expression = (if pa_expression p = None then None else Some e), pt_target = Some target\<rparr>))))))"

definition handleSchedulerUpdate :: "(string \<Rightarrow> int \<Rightarrow> date_parts) \<Rightarrow> (string \<Rightarrow> bool) \<Rightarrow> schedule_ctx \<Rightarrow> int \<Rightarrow> int
    \<Rightarrow> string \<Rightarrow> unit result \<Rightarrow> string result \<Rightarrow> json option \<Rightarrow> patch_args
    \<Rightarrow> (schedule_store, schedule_row) action" where
  "handleSchedulerUpdate zoned valid_timezone ctx now later uuid cancel wake k p st =
     (let checked =
        bind_result (normalizeRequiredText k ''schedule id'') (\<lambda>k.
        case getStored st k of
          None \<Rightarrow> throw (''Schedule not found: '' @ k)
        | Some existing \<Rightarrow>
            bind_result (assertCanManageSchedule (resolveCallerOwnerUid (sx_procs ctx) (sx_call ctx)) existing) (\<lambda>_.
            bind_result (normalize_patch valid_timezone ctx now existing p) (\<lambda>patch.
            bind_result (if truthy (sc_wake_schedule_id existing) then cancel else Inr ()) (\<lambda>_.
            bind_result (schedule_update zoned now uuid k patch st) (\<lambda>st'. Inr (k, st'))))))
      in case checked of
           Inl e \<Rightarrow> (st, Inl e)
         | Inr (k, st') \<Rightarrow>
             (case getStored st' k of
                None \<Rightarrow> (st', throw (''Schedule not found after update: '' @ k))
              | Some row \<Rightarrow> act_bind (armSchedule later wake row) (\<lambda>_. act_return row) st'))"

section \<open>Runs\<close>

datatype run_start =
    Skipped string
  | Started schedule_row string "int option"

text \<open>Up to the dispatch of the target; the record is what the caller of the run read.\<close>

definition start_run :: "int \<Rightarrow> int \<Rightarrow> string \<Rightarrow> string \<Rightarrow> run_mode \<Rightarrow> schedule_row \<Rightarrow> (schedule_store, run_start) action" where
  "start_run now startedAt uuid uuid2 mode r st =
     (if mode = Due \<and> \<not> sc_enabled r then (st, Inr (Skipped ''schedule is disabled''))
      else if mode = Due \<and> (case sc_next_run_at r of None \<Rightarrow> True | Some t \<Rightarrow> t > now)
      then (st, Inr (Skipped ''schedule is not due''))
      else case markRunning startedAt uuid (sc_id r) st of
        (st', None) \<Rightarrow> (st', Inr (Skipped ''schedule is already running''))
      | (st', Some running) \<Rightarrow>
          (st', bind_result (occurrenceKey uuid2 running mode (sc_next_run_at r) startedAt) (\<lambda>key.
                bind_result (oneShotAttemptNumber running mode) (\<lambda>attempt.
                Inr (Started running key attempt)))))"

datatype dispatch_outcome = DispatchOk json | DispatchError string bool

definition run_retryable :: "dispatch_outcome \<Rightarrow> bool" where
  "run_retryable oc = (case oc of DispatchError _ b \<Rightarrow> b | DispatchOk _ \<Rightarrow> False)"

text \<open>Whether the schedule stays enabled, and when it runs next: \<open>r\<close> is the record the run was given,
  \<open>running\<close> the row \<open>markRunning\<close> returned.\<close>

definition next_after_run :: "(string \<Rightarrow> int \<Rightarrow> date_parts) \<Rightarrow> int \<Rightarrow> run_mode \<Rightarrow> schedule_row \<Rightarrow> schedule_row
    \<Rightarrow> int option \<Rightarrow> dispatch_outcome \<Rightarrow> (bool \<times> int option) result" where
  "next_after_run zoned finishedAt mode r running attempt oc =
     (let retryOneShot = (mode = Due \<and> isOneShotExpression (sc_expression running) \<and> run_retryable oc
                          \<and> attempt \<noteq> None \<and> the attempt < MAX_ONE_SHOT_SCHEDULE_DELIVERY_ATTEMPTS)
      in if mode = Force then Inr (sc_enabled r, sc_next_run_at r)
         else if retryOneShot then Inr (True, Some (finishedAt + scheduleDeliveryRetryDelayMs (the attempt)))
         else computeNextRunAfterFinish zoned (sc_expression r) (max finishedAt (coalesce (sc_next_run_at r) finishedAt)))"

definition finish_input_of :: "int \<Rightarrow> run_mode \<Rightarrow> schedule_row \<Rightarrow> schedule_row \<Rightarrow> int option \<Rightarrow> int
    \<Rightarrow> dispatch_outcome \<Rightarrow> bool \<times> int option \<Rightarrow> finish_input" where
  "finish_input_of finishedAt mode r running attempt startedAt oc upcoming =
     \<lparr>fi_scheduleId = sc_id r, fi_ownerUid = sc_owner_uid r,
      fi_scheduledAt = (if mode = Force then None else sc_next_run_at r),
      fi_startedAt = startedAt, fi_finishedAt = finishedAt,
      fi_status = (case oc of DispatchOk _ \<Rightarrow> RunOk | DispatchError _ _ \<Rightarrow> RunError),
      fi_error = (case oc of DispatchOk _ \<Rightarrow> None | DispatchError e _ \<Rightarrow> Some e),
      fi_result = (case oc of DispatchOk v \<Rightarrow> v | DispatchError e _ \<Rightarrow> JObj [(''error'', JStr e)]),
      fi_nextRunAt = snd upcoming, fi_enabled = fst upcoming, fi_occurrenceId = sc_occurrence_id running,
      fi_countAttempt = (attempt \<noteq> None)\<rparr>"

text \<open>From the outcome of the dispatch; \<open>wake\<close> is the outcome of arming the next wake.\<close>

definition arm_after_run :: "int \<Rightarrow> string result \<Rightarrow> run_mode \<Rightarrow> schedule_row option
    \<Rightarrow> (schedule_store, schedule_row option) action" where
  "arm_after_run later wake mode updated st =
     (case updated of
        None \<Rightarrow> (st, Inr None)
      | Some u \<Rightarrow>
          if sc_enabled u \<and> sc_next_run_at u \<noteq> None \<and> mode \<noteq> Force
          then (case wake of
                  Inl e \<Rightarrow> (st, Inl e)
                | Inr w \<Rightarrow> (setWakeScheduleId later (sc_id u) (Some w) st, Inr (Some u)))
          else if \<not> sc_enabled u then (setWakeScheduleId later (sc_id u) None st, Inr (Some u))
          else (st, Inr (Some u)))"

definition finish_run :: "(string \<Rightarrow> int \<Rightarrow> date_parts) \<Rightarrow> int \<Rightarrow> int \<Rightarrow> string \<Rightarrow> string result \<Rightarrow> run_mode \<Rightarrow> schedule_row
    \<Rightarrow> schedule_row \<Rightarrow> int option \<Rightarrow> int \<Rightarrow> dispatch_outcome \<Rightarrow> (schedule_store, schedule_row option) action" where
  "finish_run zoned finishedAt later runId wake mode r running attempt startedAt oc st =
     (case next_after_run zoned finishedAt mode r running attempt oc of
        Inl e \<Rightarrow> (st, Inl e)
      | Inr upcoming \<Rightarrow>
          act_bind (finishRun runId (finish_input_of finishedAt mode r running attempt startedAt oc upcoming))
            (arm_after_run later wake mode) st)"

text \<open>The records a call runs, in the order it runs them.\<close>

definition records_to_run :: "int \<Rightarrow> string option \<Rightarrow> run_mode \<Rightarrow> int option \<Rightarrow> schedule_store
    \<Rightarrow> schedule_row list result" where
  "records_to_run now k mode callerOwnerUid st =
     (if mode = Force \<and> \<not> truthy k then throw ''sched.run force requires an id''
      else if truthy k then Inr (case getStored st (the k) of Some r \<Rightarrow> [r] | None \<Rightarrow> [])
      else Inr (listDue now (case callerOwnerUid of Some u \<Rightarrow> if u \<noteq> 0 then Some u else None | None \<Rightarrow> None) st))"

text \<open>Whether a wake still stands for the schedule, and whether a wake that ran nothing arms another.\<close>

definition wake_is_current :: "schedule_store \<Rightarrow> string \<Rightarrow> string option \<Rightarrow> bool" where
  "wake_is_current st k wakeId =
     (\<not> truthy wakeId \<or> (case getStored st k of Some r \<Rightarrow> sc_wake_schedule_id r | None \<Rightarrow> None) = wakeId)"

definition wake_rearms :: "int \<Rightarrow> schedule_store \<Rightarrow> string \<Rightarrow> bool" where
  "wake_rearms now st k =
     (case getStored st k of
        Some r \<Rightarrow> sc_enabled r \<and> (case sc_next_run_at r of Some t \<Rightarrow> t > now | None \<Rightarrow> False)
      | None \<Rightarrow> False)"

datatype schedule_event =
    ScCreate int string string schedule_input
  | ScUpdate int string string schedule_patch
  | ScRemove string
  | ScWake int string "string option"
  | ScStart int int string string run_mode schedule_row
  | ScFinish int int string "string result" run_mode schedule_row schedule_row "int option" int dispatch_outcome

fun schedule_step :: "(string \<Rightarrow> int \<Rightarrow> date_parts) \<Rightarrow> schedule_event \<Rightarrow> schedule_store \<Rightarrow> schedule_store" where
  "schedule_step zoned (ScCreate now k uuid inp) st =
     (case schedule_create zoned now k uuid inp st of Inl _ \<Rightarrow> st | Inr (st', _) \<Rightarrow> st')"
| "schedule_step zoned (ScUpdate now uuid k p) st =
     (case schedule_update zoned now uuid k p st of Inl _ \<Rightarrow> st | Inr st' \<Rightarrow> st')"
| "schedule_step zoned (ScRemove k) st = fst (schedule_remove k st)"
| "schedule_step zoned (ScWake now k wake) st = setWakeScheduleId now k wake st"
| "schedule_step zoned (ScStart now startedAt uuid uuid2 mode r) st =
     fst (start_run now startedAt uuid uuid2 mode r st)"
| "schedule_step zoned (ScFinish finishedAt later runId wake mode r running attempt startedAt oc) st =
     fst (finish_run zoned finishedAt later runId wake mode r running attempt startedAt oc st)"

section \<open>Reads after writes\<close>

lemma getStored_runs [simp]: "getStored (st\<lparr>ss_runs := x\<rparr>) k = getStored st k"
  by (simp add: getStored_def)

lemma getStored_id: "getStored st k = Some r \<Longrightarrow> sc_id r = k"
  by (auto simp: getStored_def dest: lookup_Some)

lemma getStored_update_schedule:
  assumes "\<And>r. sc_id (f r) = sc_id r"
  shows "getStored (update_schedule i f st) k
       = map_option (\<lambda>r. if k = i then f r else r) (getStored st k)"
proof -
  have "getStored (update_schedule i f st) k = map_option (\<lambda>r. if sc_id r = i then f r else r) (getStored st k)"
    using assms by (simp add: getStored_def update_schedule_def lookup_update)
  then show ?thesis by (cases "getStored st k") (simp_all add: getStored_id)
qed

lemma getStored_wake:
  "getStored (setWakeScheduleId now i w st) k
     = map_option (\<lambda>r. if k = i then r\<lparr>sc_wake_schedule_id := w, sc_updated_at := now\<rparr> else r) (getStored st k)"
  by (simp add: setWakeScheduleId_def getStored_update_schedule)

definition store_ok :: "schedule_store \<Rightarrow> bool" where
  "store_ok st \<longleftrightarrow> keyed sc_id (ss_schedules st)"

lemma store_ok_update_schedule: "store_ok st \<Longrightarrow> (\<And>r. sc_id (f r) = sc_id r) \<Longrightarrow> store_ok (update_schedule k f st)"
  by (simp add: store_ok_def update_schedule_def keyed_update)

lemma store_ok_runs [simp]: "store_ok (st\<lparr>ss_runs := x\<rparr>) = store_ok st"
  by (simp add: store_ok_def)

lemma store_ok_wake [simp]: "store_ok st \<Longrightarrow> store_ok (setWakeScheduleId now k w st)"
  by (simp add: setWakeScheduleId_def store_ok_update_schedule)

text \<open>\<open>markRunning\<close> as a function of the row.\<close>

definition mark_row :: "int \<Rightarrow> string \<Rightarrow> schedule_row \<Rightarrow> schedule_row" where
  "mark_row startedAt uuid r =
     (let armed = (isOneShotExpression (sc_expression r) \<and> sc_enabled r \<and> sc_next_run_at r \<noteq> None);
          occurrence = (if armed then Some (coalesce (sc_occurrence_id r) uuid) else None)
      in r\<lparr>sc_running_at := Some startedAt, sc_occurrence_id := occurrence,
           sc_attempt_count := (if truthy occurrence
             then (if sc_occurrence_id r = occurrence then sc_attempt_count r else 0) else 0),
           sc_updated_at := startedAt\<rparr>)"

lemma mark_row_simps [simp]: "sc_id (mark_row s u r) = sc_id r" "sc_running_at (mark_row s u r) = Some s"
  "sc_expression (mark_row s u r) = sc_expression r" "sc_enabled (mark_row s u r) = sc_enabled r"
  "sc_next_run_at (mark_row s u r) = sc_next_run_at r" "sc_owner_uid (mark_row s u r) = sc_owner_uid r"
  by (simp_all add: mark_row_def Let_def)

lemma mark_row_fields: "mark_row s u r = r\<lparr>sc_running_at := Some s,
    sc_occurrence_id := sc_occurrence_id (mark_row s u r),
    sc_attempt_count := sc_attempt_count (mark_row s u r), sc_updated_at := s\<rparr>"
  by (simp add: mark_row_def Let_def)

lemma markRunning_cases:
  obtains (absent) "getStored st k = None" "markRunning startedAt uuid k st = (st, None)"
  | (busy) r where "getStored st k = Some r" "sc_running_at r \<noteq> None" "markRunning startedAt uuid k st = (st, None)"
  | (free) r st' where "getStored st k = Some r" "sc_running_at r = None"
      "markRunning startedAt uuid k st = (st', Some (mark_row startedAt uuid r))"
      "\<And>j. getStored st' j = (if j = k then Some (mark_row startedAt uuid r) else getStored st j)"
      "store_ok st \<Longrightarrow> store_ok st'"
proof (cases "getStored st k")
  case None
  then show ?thesis by (intro absent) (simp_all add: markRunning_def)
next
  case (Some r)
  show ?thesis
  proof (cases "sc_running_at r = None")
    case False
    with Some show ?thesis by (intro busy) (simp_all add: markRunning_def)
  next
    case True
    define st' where "st' = fst (markRunning startedAt uuid k st)"
    have st': "st' = st\<lparr>ss_schedules := sql_update (\<lambda>x. sc_id x = k \<and> sc_running_at x = None)
        (\<lambda>x. x\<lparr>sc_running_at := Some startedAt, sc_occurrence_id := sc_occurrence_id (mark_row startedAt uuid r),
             sc_attempt_count := sc_attempt_count (mark_row startedAt uuid r), sc_updated_at := startedAt\<rparr>)
        (ss_schedules st)\<rparr>"
      using Some True by (simp add: st'_def markRunning_def mark_row_def Let_def)
    have look: "getStored st' j = (if j = k then Some (mark_row startedAt uuid r) else getStored st j)" for j
    proof -
      have "getStored st' j = map_option (\<lambda>x. if sc_id x = k \<and> sc_running_at x = None
          then x\<lparr>sc_running_at := Some startedAt, sc_occurrence_id := sc_occurrence_id (mark_row startedAt uuid r),
             sc_attempt_count := sc_attempt_count (mark_row startedAt uuid r), sc_updated_at := startedAt\<rparr>
          else x) (getStored st j)"
        by (simp add: st' getStored_def lookup_update)
      moreover have "sc_id r = k" using Some by (rule getStored_id)
      moreover have "sc_id x \<noteq> k" if "getStored st j = Some x" "j \<noteq> k" for x
        using that getStored_id by blast
      ultimately show ?thesis using Some True
        by (cases "j = k"; cases "getStored st j") (simp_all add: mark_row_fields [symmetric])
    qed
    have res: "markRunning startedAt uuid k st = (st', getStored st' k)"
      using Some True by (simp add: st'_def markRunning_def Let_def)
    show ?thesis
    proof (rule free [OF Some True])
      show "markRunning startedAt uuid k st = (st', Some (mark_row startedAt uuid r))" by (simp add: res look)
      show "store_ok st'" if "store_ok st"
        using that by (simp add: st' store_ok_def keyed_update)
    qed (rule look)
  qed
qed

text \<open>The row after \<open>finishRun\<close>, whether or not its history row could be inserted.\<close>

lemma finished_row_id [simp]: "sc_id (finished_row i r) = sc_id r" "sc_running_at (finished_row i r) = None"
  by (simp_all add: finished_row_def Let_def)

lemma finishRun_state:
  obtains x where "fst (finishRun runId i st) = (update_schedule (fi_scheduleId i) (finished_row i) st)\<lparr>ss_runs := x\<rparr>"
    "snd (finishRun runId i st) \<noteq> Inr (getStored (update_schedule (fi_scheduleId i) (finished_row i) st) (fi_scheduleId i))
       \<longrightarrow> isl (snd (finishRun runId i st))"
proof (cases "sql_insert sr_run_id
         \<lparr>sr_run_id = runId, sr_schedule_id = fi_scheduleId i, sr_owner_uid = fi_ownerUid i,
          sr_scheduled_at = fi_scheduledAt i, sr_started_at = fi_startedAt i, sr_finished_at = fi_finishedAt i,
          sr_status = fi_status i, sr_error = fi_error i, sr_result = fi_result i\<rparr>
          (ss_runs (update_schedule (fi_scheduleId i) (finished_row i) st))")
  case (Inl e)
  then show ?thesis
    by (intro that [of "ss_runs (update_schedule (fi_scheduleId i) (finished_row i) st)"])
      (simp_all add: finishRun_def act_defs)
next
  case (Inr x)
  then show ?thesis by (intro that [of x]) (simp_all add: finishRun_def act_defs)
qed

lemma start_run_cases:
  obtains (skipped) m where "start_run now startedAt uuid uuid2 mode r st = (st, Inr (Skipped m))"
  | (marked) row st' where "getStored st (sc_id r) = Some row" "sc_running_at row = None"
      "\<And>j. getStored st' j = (if j = sc_id r then Some (mark_row startedAt uuid row) else getStored st j)"
      "store_ok st \<Longrightarrow> store_ok st'"
      "start_run now startedAt uuid uuid2 mode r st = (st',
         bind_result (occurrenceKey uuid2 (mark_row startedAt uuid row) mode (sc_next_run_at r) startedAt) (\<lambda>key.
         bind_result (oneShotAttemptNumber (mark_row startedAt uuid row) mode) (\<lambda>attempt.
         Inr (Started (mark_row startedAt uuid row) key attempt))))"
proof (cases "mode = Due \<and> (\<not> sc_enabled r \<or> (case sc_next_run_at r of None \<Rightarrow> True | Some t \<Rightarrow> t > now))")
  case True
  then have "\<exists>m. start_run now startedAt uuid uuid2 mode r st = (st, Inr (Skipped m))"
    by (auto simp: start_run_def)
  then show ?thesis using skipped by blast
next
  case False
  then have run: "start_run now startedAt uuid uuid2 mode r st =
     (case markRunning startedAt uuid (sc_id r) st of
        (st', None) \<Rightarrow> (st', Inr (Skipped ''schedule is already running''))
      | (st', Some running) \<Rightarrow>
          (st', bind_result (occurrenceKey uuid2 running mode (sc_next_run_at r) startedAt) (\<lambda>key.
                bind_result (oneShotAttemptNumber running mode) (\<lambda>attempt.
                Inr (Started running key attempt)))))"
  proof -
    from False have no: "(mode = Due \<and> \<not> sc_enabled r) = False"
      "(mode = Due \<and> (case sc_next_run_at r of None \<Rightarrow> True | Some t \<Rightarrow> t > now)) = False" by blast+
    show ?thesis by (simp only: start_run_def no if_False)
  qed
  show ?thesis
    by (cases rule: markRunning_cases [of st "sc_id r" startedAt uuid])
      (use run in \<open>auto intro: skipped marked\<close>)
qed

lemma wake_fields_same: "\<exists>w t. Some (x :: schedule_row) = Some (x\<lparr>sc_wake_schedule_id := w, sc_updated_at := t\<rparr>)"
  by (intro exI [of _ "sc_wake_schedule_id x"] exI [of _ "sc_updated_at x"]) simp

lemma arm_after_run_state:
  "fst (arm_after_run later wake mode updated st) = st
     \<or> (\<exists>i v. fst (arm_after_run later wake mode updated st) = setWakeScheduleId later i v st)"
  by (auto simp: arm_after_run_def split: option.split sum.split)

lemma arm_after_run_lookup:
  "getStored st j = Some x \<Longrightarrow>
     \<exists>w t. getStored (fst (arm_after_run later wake mode updated st)) j
       = Some (x\<lparr>sc_wake_schedule_id := w, sc_updated_at := t\<rparr>)"
  "getStored st j = None \<Longrightarrow> getStored (fst (arm_after_run later wake mode updated st)) j = None"
proof -
  show "\<exists>w t. getStored (fst (arm_after_run later wake mode updated st)) j
       = Some (x\<lparr>sc_wake_schedule_id := w, sc_updated_at := t\<rparr>)" if "getStored st j = Some x"
    using arm_after_run_state [of later wake mode updated st]
  proof
    assume "fst (arm_after_run later wake mode updated st) = st"
    with that wake_fields_same [of x] show ?thesis by (simp only:)
  next
    assume "\<exists>i v. fst (arm_after_run later wake mode updated st) = setWakeScheduleId later i v st"
    then obtain i v where "fst (arm_after_run later wake mode updated st) = setWakeScheduleId later i v st" by blast
    then have "getStored (fst (arm_after_run later wake mode updated st)) j
        = Some (if j = i then x\<lparr>sc_wake_schedule_id := v, sc_updated_at := later\<rparr> else x)"
      using that by (simp add: getStored_wake)
    then show ?thesis using wake_fields_same [of x] by (cases "j = i") (simp only: if_P, blast, simp only: if_not_P if_False)
  qed
  show "getStored (fst (arm_after_run later wake mode updated st)) j = None" if "getStored st j = None"
    using arm_after_run_state [of later wake mode updated st] that by (auto simp: getStored_wake)
qed

lemma arm_after_run_ok: "store_ok st \<Longrightarrow> store_ok (fst (arm_after_run later wake mode updated st))"
  by (simp add: arm_after_run_def split: option.split sum.split)

lemma finish_run_ok:
  assumes "store_ok st"
  shows "store_ok (fst (finish_run zoned finishedAt later runId wake mode r running attempt startedAt oc st))"
proof -
  have ok: "store_ok (fst (finishRun runId i st))" for i
    by (rule finishRun_state [of runId i st]) (use assms in \<open>simp add: store_ok_update_schedule\<close>)
  show ?thesis
  proof (cases "next_after_run zoned finishedAt mode r running attempt oc")
    case (Inr upcoming)
    obtain s1 res where "finishRun runId (finish_input_of finishedAt mode r running attempt startedAt oc upcoming) st
        = (s1, res)" by force
    with ok [of "finish_input_of finishedAt mode r running attempt startedAt oc upcoming"] Inr show ?thesis
      by (cases res) (simp_all add: finish_run_def act_bind_def arm_after_run_ok)
  qed (use assms in \<open>simp add: finish_run_def\<close>)
qed

lemma finish_run_lookup:
  assumes "next_after_run zoned finishedAt mode r running attempt oc = Inr upcoming"
    and "getStored st j = Some x"
  shows "\<exists>w t. getStored (fst (finish_run zoned finishedAt later runId wake mode r running attempt startedAt oc st)) j
     = Some ((if j = sc_id r
              then finished_row (finish_input_of finishedAt mode r running attempt startedAt oc upcoming) x else x)
         \<lparr>sc_wake_schedule_id := w, sc_updated_at := t\<rparr>)"
proof -
  let ?i = "finish_input_of finishedAt mode r running attempt startedAt oc upcoming"
  let ?x = "if j = sc_id r then finished_row ?i x else x"
  obtain runs where runs: "fst (finishRun runId ?i st) = (update_schedule (sc_id r) (finished_row ?i) st)\<lparr>ss_runs := runs\<rparr>"
    by (rule finishRun_state [of runId ?i st]) (simp add: finish_input_of_def)
  have look: "getStored (fst (finishRun runId ?i st)) j = Some ?x"
    using assms(2) by (simp add: runs getStored_update_schedule)
  obtain s1 res where fr: "finishRun runId ?i st = (s1, res)" by force
  show ?thesis
  proof (cases res)
    case (Inl e)
    then have "fst (finish_run zoned finishedAt later runId wake mode r running attempt startedAt oc st) = s1"
      using assms(1) fr by (simp add: finish_run_def act_bind_def)
    with look fr have "getStored (fst (finish_run zoned finishedAt later runId wake mode r running attempt startedAt oc st)) j
        = Some ?x" by simp
    then show ?thesis using wake_fields_same [of ?x] by (simp only:)
  next
    case (Inr u)
    then have "fst (finish_run zoned finishedAt later runId wake mode r running attempt startedAt oc st)
        = fst (arm_after_run later wake mode u s1)"
      using assms(1) fr by (simp add: finish_run_def act_bind_def)
    with arm_after_run_lookup(1) [of s1 j ?x later wake mode u] look fr show ?thesis by simp
  qed
qed

lemma finish_run_absent:
  assumes "getStored st j = None"
  shows "getStored (fst (finish_run zoned finishedAt later runId wake mode r running attempt startedAt oc st)) j = None"
proof (cases "next_after_run zoned finishedAt mode r running attempt oc")
  case (Inr upcoming)
  let ?i = "finish_input_of finishedAt mode r running attempt startedAt oc upcoming"
  obtain runs where "fst (finishRun runId ?i st) = (update_schedule (sc_id r) (finished_row ?i) st)\<lparr>ss_runs := runs\<rparr>"
    by (rule finishRun_state [of runId ?i st]) (simp add: finish_input_of_def)
  with assms have look: "getStored (fst (finishRun runId ?i st)) j = None" by (simp add: getStored_update_schedule)
  obtain s1 res where fr: "finishRun runId ?i st = (s1, res)" by force
  with look Inr show ?thesis
    by (cases res) (simp_all add: finish_run_def act_bind_def arm_after_run_lookup(2))
qed (use assms in \<open>simp add: finish_run_def\<close>)

section \<open>Runs of a schedule do not overlap\<close>

definition idle_schedule :: "string \<Rightarrow> schedule_store \<Rightarrow> bool" where
  "idle_schedule k st = (case getStored st k of Some r \<Rightarrow> sc_running_at r = None | None \<Rightarrow> False)"

definition is_skip :: "run_start result \<Rightarrow> bool" where
  "is_skip v = (case v of Inr (Skipped m) \<Rightarrow> True | _ \<Rightarrow> False)"

fun starts_run :: "string \<Rightarrow> schedule_event \<Rightarrow> schedule_store \<Rightarrow> bool" where
  "starts_run k (ScStart now startedAt uuid uuid2 mode r) st \<longleftrightarrow>
     sc_id r = k \<and> \<not> is_skip (snd (start_run now startedAt uuid uuid2 mode r st))"
| "starts_run k _ st \<longleftrightarrow> False"

fun ends_run :: "string \<Rightarrow> schedule_event \<Rightarrow> bool" where
  "ends_run k (ScFinish finishedAt later runId wake mode r running attempt startedAt oc) \<longleftrightarrow> sc_id r = k"
| "ends_run k (ScCreate now i uuid inp) \<longleftrightarrow> i = k"
| "ends_run k _ \<longleftrightarrow> False"

lemma schedule_create_cases:
  assumes "schedule_create zoned now i uuid inp st = Inr (st', row)"
  shows "store_ok st \<Longrightarrow> store_ok st'" and "k \<noteq> i \<Longrightarrow> getStored st' k = getStored st k"
proof -
  from assms obtain rows where rows: "sql_insert sc_id row (ss_schedules st) = Inr rows"
      "st' = st\<lparr>ss_schedules := rows\<rparr>" "sc_id row = i"
    by (auto simp: schedule_create_def Let_def)
  show "store_ok st \<Longrightarrow> store_ok st'" using rows by (simp add: store_ok_def keyed_insert [OF _ rows(1)])
  show "k \<noteq> i \<Longrightarrow> getStored st' k = getStored st k"
    using rows lookup_insert [OF rows(1), of k] by (simp add: getStored_def)
qed

lemma patched_row_simps [simp]: "sc_id (patched_row now uuid p c n r) = sc_id r"
  "sc_running_at (patched_row now uuid p c n r) = sc_running_at r"
  by (simp_all add: patched_row_def Let_def)

lemma schedule_update_row:
  assumes "schedule_update zoned now uuid i p st = Inr st'"
  obtains f where "st' = update_schedule i f st" "\<And>r. sc_id (f r) = sc_id r" "\<And>r. sc_running_at (f r) = sc_running_at r"
proof -
  from assms obtain c n where "st' = update_schedule i (patched_row now uuid p c n) st"
    by (auto simp: schedule_update_def split: option.splits)
  then show ?thesis by (rule that) simp_all
qed

lemma schedule_remove_lookup:
  "getStored (fst (schedule_remove i st)) k = (if k = i then None else getStored st k)"
  by (auto simp: schedule_remove_def getStored_def lookup_delete_key split: option.split)

lemma schedule_remove_ok: "store_ok st \<Longrightarrow> store_ok (fst (schedule_remove i st))"
  by (auto simp: schedule_remove_def store_ok_def split: option.split)

lemma schedule_step_ok: "store_ok st \<Longrightarrow> store_ok (schedule_step zoned e st)"
proof (induction "zoned" e st rule: schedule_step.induct)
  case (1 zoned now k uuid inp st)
  then show ?case by (auto split: sum.split dest: schedule_create_cases(1))
next
  case (2 zoned now uuid k p st)
  then show ?case by (auto split: sum.split elim!: schedule_update_row intro: store_ok_update_schedule)
next
  case (5 zoned now startedAt uuid uuid2 mode r st)
  then show ?case by (cases rule: start_run_cases [of now startedAt uuid uuid2 mode r st]) simp_all
qed (simp_all add: schedule_remove_ok finish_run_ok)

lemma start_takes:
  assumes "starts_run k e st"
  shows "idle_schedule k st \<and> \<not> idle_schedule k (schedule_step zoned e st)"
proof -
  from assms obtain now startedAt uuid uuid2 mode r where e: "e = ScStart now startedAt uuid uuid2 mode r" "sc_id r = k"
    and run: "\<not> is_skip (snd (start_run now startedAt uuid uuid2 mode r st))" by (cases e) auto
  show ?thesis
    by (cases rule: start_run_cases [of now startedAt uuid uuid2 mode r st])
      (use e run in \<open>simp_all add: is_skip_def idle_schedule_def\<close>)
qed

lemma busy_stays:
  assumes "\<not> idle_schedule k st" and "\<not> ends_run k e"
  shows "\<not> idle_schedule k (schedule_step zoned e st)"
proof (cases e)
  case (ScCreate now i uuid inp)
  with assms show ?thesis
    by (auto simp: idle_schedule_def schedule_create_cases(2) split: sum.split)
next
  case (ScUpdate now uuid i p)
  with assms show ?thesis
    by (auto simp: idle_schedule_def getStored_update_schedule split: sum.split option.splits elim!: schedule_update_row)
next
  case (ScStart now startedAt uuid uuid2 mode r)
  show ?thesis
    by (cases rule: start_run_cases [of now startedAt uuid uuid2 mode r st])
      (use ScStart assms in \<open>auto simp: idle_schedule_def\<close>)
next
  case (ScFinish finishedAt later runId wake mode r running attempt startedAt oc)
  let ?st = "fst (finish_run zoned finishedAt later runId wake mode r running attempt startedAt oc st)"
  show ?thesis
  proof (cases "next_after_run zoned finishedAt mode r running attempt oc")
    case (Inl err)
    with ScFinish assms show ?thesis by (simp add: finish_run_def)
  next
    case (Inr upcoming)
    show ?thesis
    proof (cases "getStored st k")
      case None
      with ScFinish finish_run_absent show ?thesis by (simp add: idle_schedule_def)
    next
      case (Some x)
      with finish_run_lookup [OF Inr Some, of later runId wake startedAt] assms ScFinish
      show ?thesis by (auto simp: idle_schedule_def)
    qed
  qed
qed (use assms in \<open>auto simp: idle_schedule_def schedule_remove_lookup getStored_wake split: option.splits\<close>)

interpretation schedule_runs: handover "schedule_step zoned" "\<lambda>e. True" store_ok "idle_schedule k" "starts_run k"
    "\<lambda>e st. ends_run k e" for zoned k
  by unfold_locales (simp_all add: schedule_step_ok start_takes busy_stays)

text \<open>
  C27. Two runs of a schedule never overlap: over any sequence of creations, edits, removals, wakes, starts
  and finishes, from stale records as well, a schedule is started at most once more than its runs have
  been finished (or the schedule has been created anew).
\<close>

theorem schedule_runs_never_overlap:
  assumes "store_ok st"
  shows "count_steps (schedule_step zoned) (starts_run k) es st
       \<le> (if idle_schedule k st then 1 else 0) + length (filter (ends_run k) es)"
  using schedule_runs.grants_bounded [OF assms, of es zoned k] by (simp add: count_steps_syntactic)

section \<open>One-shot schedules\<close>

text \<open>A start of the stored record of an idle schedule that is due.\<close>

lemma start_run_due:
  assumes "getStored st (sc_id r) = Some r" and "sc_running_at r = None" and "sc_enabled r"
    and "sc_next_run_at r = Some t" and "t \<le> now"
  shows "\<exists>st'. (\<forall>j. getStored st' j = (if j = sc_id r then Some (mark_row startedAt uuid r) else getStored st j))
    \<and> (store_ok st \<longrightarrow> store_ok st')
    \<and> start_run now startedAt uuid uuid2 Due r st = (st',
         bind_result (occurrenceKey uuid2 (mark_row startedAt uuid r) Due (Some t) startedAt) (\<lambda>key.
         bind_result (oneShotAttemptNumber (mark_row startedAt uuid r) Due) (\<lambda>attempt.
         Inr (Started (mark_row startedAt uuid r) key attempt))))"
proof (cases rule: markRunning_cases [of st "sc_id r" startedAt uuid])
  case (free r' st')
  with assms(1) have [simp]: "r' = r" by simp
  from free have "start_run now startedAt uuid uuid2 Due r st = (st',
         bind_result (occurrenceKey uuid2 (mark_row startedAt uuid r) Due (Some t) startedAt) (\<lambda>key.
         bind_result (oneShotAttemptNumber (mark_row startedAt uuid r) Due) (\<lambda>attempt.
         Inr (Started (mark_row startedAt uuid r) key attempt))))"
    using assms by (simp add: start_run_def)
  with free(4,5) show ?thesis by auto
qed (use assms in simp_all)

definition armed_one_shot :: "schedule_row \<Rightarrow> bool" where
  "armed_one_shot r \<longleftrightarrow> isOneShotExpression (sc_expression r) \<and> sc_enabled r \<and> sc_next_run_at r \<noteq> None
     \<and> truthy (sc_occurrence_id r)"

lemma truthy_Some: "truthy v \<longleftrightarrow> (\<exists>c cs. v = Some (c # cs))"
  by (cases v; cases "the v") (auto simp: truthy_def)

lemma mark_armed:
  assumes "armed_one_shot r"
  shows "sc_occurrence_id (mark_row s u r) = sc_occurrence_id r" "sc_attempt_count (mark_row s u r) = sc_attempt_count r"
  using assms by (auto simp: armed_one_shot_def mark_row_def Let_def truthy_Some)

lemma start_armed:
  assumes "getStored st (sc_id r) = Some r" and "sc_running_at r = None" and "armed_one_shot r"
    and "the (sc_next_run_at r) \<le> now"
  shows "\<exists>st'. (\<forall>j. getStored st' j = (if j = sc_id r then Some (mark_row startedAt uuid r) else getStored st j))
    \<and> (store_ok st \<longrightarrow> store_ok st')
    \<and> start_run now startedAt uuid uuid2 Due r st = (st', Inr (Started (mark_row startedAt uuid r)
           (''one-shot:'' @ the (sc_occurrence_id r)) (Some (sc_attempt_count r + 1))))"
proof -
  from assms(3) obtain t where t: "sc_next_run_at r = Some t" "sc_enabled r" "isOneShotExpression (sc_expression r)"
      "truthy (sc_occurrence_id r)"
    by (auto simp: armed_one_shot_def)
  with assms(4) have "t \<le> now" by simp
  have "occurrenceKey uuid2 (mark_row startedAt uuid r) Due (Some t) startedAt
      = Inr (''one-shot:'' @ the (sc_occurrence_id r))"
    using t by (simp add: occurrenceKey_def mark_armed [OF assms(3)])
  moreover have "oneShotAttemptNumber (mark_row startedAt uuid r) Due = Inr (Some (sc_attempt_count r + 1))"
    using t by (simp add: oneShotAttemptNumber_def mark_armed [OF assms(3)])
  ultimately show ?thesis
    using start_run_due [OF assms(1,2) t(2,1) \<open>t \<le> now\<close>, of startedAt uuid uuid2] by simp
qed

text \<open>One wake of a schedule: \<open>d\<close> after the moment it is due it is run to its end, which takes \<open>len\<close>.\<close>

record wake_run =
  wr_delay :: int
  wr_length :: int
  wr_uuid :: string
  wr_uuid2 :: string
  wr_runId :: string
  wr_wake :: "string result"
  wr_outcome :: dispatch_outcome

definition run_at_wake :: "(string \<Rightarrow> int \<Rightarrow> date_parts) \<Rightarrow> string \<Rightarrow> wake_run \<Rightarrow> schedule_store \<Rightarrow> schedule_store" where
  "run_at_wake zoned k w st =
     (case getStored st k of
        None \<Rightarrow> st
      | Some r \<Rightarrow>
          (let now = coalesce (sc_next_run_at r) 0 + wr_delay w; done_at = now + wr_length w in
           case start_run now now (wr_uuid w) (wr_uuid2 w) Due r st of
             (st', Inr (Started running key attempt)) \<Rightarrow>
               fst (finish_run zoned done_at done_at (wr_runId w) (wr_wake w) Due r running attempt now (wr_outcome w) st')
           | (st', _) \<Rightarrow> st'))"

definition settled :: "schedule_row \<Rightarrow> bool" where
  "settled r \<longleftrightarrow> \<not> sc_enabled r \<and> sc_next_run_at r = None \<and> sc_running_at r = None"

lemma next_after_one_shot:
  assumes "isOneShotExpression (sc_expression r)" "sc_expression running = sc_expression r" "0 < n"
  shows "next_after_run zoned f Due r running (Some n) oc =
     Inr (if run_retryable oc \<and> n < 10 then (True, Some (f + scheduleDeliveryRetryDelayMs n)) else (False, None))"
  using assms by (auto simp: next_after_run_def Let_def computeNextRunAfterFinish_def isOneShotExpression_def
      MAX_ONE_SHOT_SCHEDULE_DELIVERY_ATTEMPTS_def split: schedule_expression.splits)

lemma finished_row_current:
  assumes "fi_occurrenceId i = sc_occurrence_id x \<or> fi_occurrenceId i = None"
  shows "sc_enabled (finished_row i x) = fi_enabled i" "sc_next_run_at (finished_row i x) = fi_nextRunAt i"
    "sc_occurrence_id (finished_row i x)
      = (if isOneShotExpression (sc_expression x) \<and> fi_enabled i \<and> fi_nextRunAt i \<noteq> None
         then sc_occurrence_id x else None)"
    "sc_attempt_count (finished_row i x)
      = (if truthy (sc_occurrence_id (finished_row i x))
         then sc_attempt_count x + (if fi_countAttempt i \<and> sc_occurrence_id x = fi_occurrenceId i then 1 else 0) else 0)"
proof -
  from assms have sup: "(fi_occurrenceId i \<noteq> None \<and> sc_occurrence_id x \<noteq> fi_occurrenceId i) = False" by auto
  show "sc_enabled (finished_row i x) = fi_enabled i" "sc_next_run_at (finished_row i x) = fi_nextRunAt i"
    and occ: "sc_occurrence_id (finished_row i x)
      = (if isOneShotExpression (sc_expression x) \<and> fi_enabled i \<and> fi_nextRunAt i \<noteq> None
         then sc_occurrence_id x else None)"
    unfolding finished_row_def Let_def sup by simp_all
  show "sc_attempt_count (finished_row i x)
      = (if truthy (sc_occurrence_id (finished_row i x))
         then sc_attempt_count x + (if fi_countAttempt i \<and> sc_occurrence_id x = fi_occurrenceId i then 1 else 0) else 0)"
    unfolding finished_row_def Let_def sup by (auto simp: truthy_def)
qed

lemma finished_row_superseded:
  assumes "fi_occurrenceId i \<noteq> None" and "sc_occurrence_id x \<noteq> fi_occurrenceId i"
  shows "sc_enabled (finished_row i x) = sc_enabled x"
    "sc_next_run_at x = Some t \<Longrightarrow> sc_next_run_at (finished_row i x) = Some t"
    "armed_one_shot x \<Longrightarrow> sc_occurrence_id (finished_row i x) = sc_occurrence_id x"
  using assms by (auto simp: finished_row_def Let_def armed_one_shot_def)

lemma finished_row_expression [simp]: "sc_expression (finished_row i x) = sc_expression x"
  by (simp add: finished_row_def Let_def)

text \<open>A run of an armed one-shot either arms it again, one attempt later, or settles it.\<close>

definition rearmed :: "wake_run \<Rightarrow> schedule_row \<Rightarrow> schedule_row \<Rightarrow> bool" where
  "rearmed w r x \<longleftrightarrow> run_retryable (wr_outcome w) \<and> sc_attempt_count r < 9 \<and> armed_one_shot x
     \<and> sc_running_at x = None \<and> sc_attempt_count x = sc_attempt_count r + 1
     \<and> sc_occurrence_id x = sc_occurrence_id r
     \<and> sc_next_run_at x = Some (the (sc_next_run_at r) + wr_delay w + wr_length w
         + scheduleDeliveryRetryDelayMs (sc_attempt_count r + 1))"

lemma run_at_wake_armed:
  assumes r: "getStored st k = Some r" "sc_running_at r = None" "armed_one_shot r" "0 \<le> sc_attempt_count r"
    and w: "0 \<le> wr_delay w"
  shows "\<exists>x. getStored (run_at_wake zoned k w st) k = Some x \<and> (settled x \<or> rearmed w r x)"
proof -
  let ?now = "coalesce (sc_next_run_at r) 0 + wr_delay w"
  let ?f = "?now + wr_length w"
  let ?n = "sc_attempt_count r + 1"
  let ?m = "mark_row ?now (wr_uuid w) r"
  from r(1) have k: "sc_id r = k" by (rule getStored_id)
  from r(3) obtain t where t: "sc_next_run_at r = Some t" by (auto simp: armed_one_shot_def)
  with w have due: "the (sc_next_run_at r) \<le> ?now" by simp
  from r(1) k have stored: "getStored st (sc_id r) = Some r" by simp
  from start_armed [OF stored r(2,3) due, of ?now "wr_uuid w" "wr_uuid2 w"]
  obtain st' where st': "\<And>j. getStored st' j = (if j = sc_id r then Some ?m else getStored st j)"
    and run: "start_run ?now ?now (wr_uuid w) (wr_uuid2 w) Due r st
        = (st', Inr (Started ?m (''one-shot:'' @ the (sc_occurrence_id r)) (Some ?n)))" by blast
  let ?up = "if run_retryable (wr_outcome w) \<and> ?n < 10 then (True, Some (?f + scheduleDeliveryRetryDelayMs ?n)) else (False, None)"
  let ?i = "finish_input_of ?f Due r ?m (Some ?n) ?now (wr_outcome w) ?up"
  have "next_after_run zoned ?f Due r ?m (Some ?n) (wr_outcome w) = Inr ?up"
    using r(3,4) by (intro next_after_one_shot) (simp_all add: armed_one_shot_def)
  from finish_run_lookup [OF this, of st' k ?m ?f "wr_runId w" "wr_wake w" ?now] st' [of k] k
  obtain v u where x: "getStored (run_at_wake zoned k w st) k
      = Some ((finished_row ?i ?m)\<lparr>sc_wake_schedule_id := v, sc_updated_at := u\<rparr>)"
    using r(1) run by (auto simp: run_at_wake_def Let_def)
  define y where "y = finished_row ?i ?m"
  have one: "isOneShotExpression (sc_expression r)" "truthy (sc_occurrence_id r)" "sc_occurrence_id r \<noteq> None"
    using r(3) by (auto simp: armed_one_shot_def truthy_def)
  have occ: "fi_occurrenceId ?i = sc_occurrence_id ?m \<or> fi_occurrenceId ?i = None"
    by (simp add: finish_input_of_def)
  have y: "sc_enabled y = fst ?up" "sc_next_run_at y = snd ?up" "sc_running_at y = None"
    "sc_expression y = sc_expression r"
    "sc_occurrence_id y = (if fst ?up \<and> snd ?up \<noteq> None then sc_occurrence_id r else None)"
    "sc_attempt_count y = (if truthy (sc_occurrence_id y) then ?n else 0)"
    unfolding y_def finished_row_current [OF occ] using one
    by (simp_all add: finish_input_of_def mark_armed [OF r(3)])
  have "settled y \<or> rearmed w r y"
    by (cases "run_retryable (wr_outcome w) \<and> ?n < 10")
      (use y one t in \<open>simp_all add: settled_def rearmed_def armed_one_shot_def\<close>)
  then have "settled (y\<lparr>sc_wake_schedule_id := v, sc_updated_at := u\<rparr>)
      \<or> rearmed w r (y\<lparr>sc_wake_schedule_id := v, sc_updated_at := u\<rparr>)"
    by (simp add: settled_def rearmed_def armed_one_shot_def)
  with x show ?thesis by (simp add: y_def)
qed

lemma run_at_wake_settled:
  assumes "getStored st k = Some r" and "settled r"
  shows "run_at_wake zoned k w st = st"
  using assms by (simp add: run_at_wake_def settled_def start_run_def)

lemma run_at_wakes_settled:
  assumes "getStored st k = Some r" and "settled r"
  shows "fold (run_at_wake zoned k) ws st = st"
  using assms by (induction ws) (simp_all add: run_at_wake_settled)

text \<open>After \<open>n\<close> wakes an armed one-shot has settled or has used up \<open>n\<close> attempts more.\<close>

lemma run_at_wakes:
  assumes "getStored st k = Some r" and "sc_running_at r = None" and "armed_one_shot r" and "0 \<le> sc_attempt_count r"
    and "\<forall>w \<in> set ws. 0 \<le> wr_delay w"
  shows "\<exists>x. getStored (fold (run_at_wake zoned k) ws st) k = Some x
     \<and> (settled x \<or> (sc_running_at x = None \<and> armed_one_shot x
          \<and> sc_attempt_count x = sc_attempt_count r + int (length ws) \<and> (ws = [] \<or> sc_attempt_count x \<le> 9)))"
  using assms
proof (induction ws arbitrary: st r)
  case (Cons w ws)
  from Cons.prems(5) have "0 \<le> wr_delay w" by simp
  from run_at_wake_armed [OF Cons.prems(1-4) this, of zoned]
  obtain x where x: "getStored (run_at_wake zoned k w st) k = Some x" "settled x \<or> rearmed w r x" by blast
  show ?case
  proof (cases "settled x")
    case True
    with run_at_wakes_settled [OF x(1) True, of zoned ws] x(1) show ?thesis by simp
  next
    case False
    with x(2) have re: "rearmed w r x" by blast
    with Cons.prems(4) have "sc_running_at x = None" "armed_one_shot x" "0 \<le> sc_attempt_count x"
      by (simp_all add: rearmed_def)
    from Cons.IH [OF x(1) this] Cons.prems(5) obtain y where
      "getStored (fold (run_at_wake zoned k) (w # ws) st) k = Some y"
      "settled y \<or> (sc_running_at y = None \<and> armed_one_shot y
        \<and> sc_attempt_count y = sc_attempt_count x + int (length ws) \<and> (ws = [] \<or> sc_attempt_count y \<le> 9))" by auto
    with re show ?thesis by (cases ws) (auto simp: rearmed_def)
  qed
qed simp


section \<open>Edits while a run is in progress\<close>

lemma schedule_update_stored:
  assumes "schedule_update zoned now uuid k p st = Inr st'" and "getStored st k = Some r"
  obtains n where "next_run_of_patch zoned now p r = Inr n" "getStored st' k = Some (patched_row now uuid p r n r)"
  using assms by (auto simp: schedule_update_def getStored_update_schedule)

text \<open>
  Editing a one-shot while its message is on the way sends it again: after any edit that leaves the
  time alone (a new name is enough, since the handler always passes the target on), the finished run
  leaves the schedule armed at its old moment, which has passed, and under a new occurrence id, so the
  deduplication by occurrence does not recognise the second delivery.
\<close>

theorem edit_during_one_shot_run_repeats_it:
  assumes "getStored st k = Some r" and "sc_running_at r = None" and "armed_one_shot r" and "the (sc_next_run_at r) \<le> now"
    and start: "start_run now startedAt uuid uuid2 Due r st = (st1, Inr (Started running key attempt))"
    and edit: "schedule_update zoned now2 fresh k p st1 = Inr st2"
      "pt_enabled p = None" "pt_expression p = None" "pt_target p \<noteq> None" "fresh \<noteq> []" "Some fresh \<noteq> sc_occurrence_id r"
    and finish: "st3 = fst (finish_run zoned f later runId wake Due r running attempt startedAt (DispatchOk v) st2)"
  shows "\<exists>x. getStored st3 k = Some x \<and> is_due now x \<and> sc_running_at x = None \<and> armed_one_shot x
     \<and> sc_occurrence_id x = Some fresh \<and> key \<noteq> ''one-shot:'' @ fresh"
proof -
  from assms(1) have k: "sc_id r = k" by (rule getStored_id)
  with assms(1) have stored: "getStored st (sc_id r) = Some r" by simp
  from start_armed [OF stored assms(2-4), of startedAt uuid uuid2] start
  have running: "running = mark_row startedAt uuid r" "key = ''one-shot:'' @ the (sc_occurrence_id r)"
      "attempt = Some (sc_attempt_count r + 1)"
    and st1: "getStored st1 k = Some running"
    using k by auto
  have one: "isOneShotExpression (sc_expression running)" "sc_enabled running" "sc_next_run_at running = sc_next_run_at r"
    using assms(3) by (simp_all add: running armed_one_shot_def)
  from assms(3) obtain t where t: "sc_next_run_at r = Some t" "truthy (sc_occurrence_id r)" "t \<le> now"
    using assms(4) by (auto simp: armed_one_shot_def)
  obtain y where y: "getStored st2 k = Some y" "sc_enabled y" "sc_next_run_at y = Some t"
      "sc_expression y = sc_expression r" "sc_occurrence_id y = Some fresh"
    by (rule schedule_update_stored [OF edit(1) st1]) (use edit one t in \<open>auto simp: patched_row_def Let_def next_run_of_patch_def running\<close>)
  have "next_after_run zoned f Due r running attempt (DispatchOk v) = Inr (False, None)"
    using assms(3) by (auto simp: next_after_run_def run_retryable_def Let_def computeNextRunAfterFinish_def
        armed_one_shot_def isOneShotExpression_def split: schedule_expression.splits)
  let ?i = "finish_input_of f Due r running attempt startedAt (DispatchOk v) (False, None)"
  from finish_run_lookup [OF \<open>next_after_run _ _ _ _ _ _ _ = _\<close> y(1), of later runId wake startedAt]
  obtain w u where x: "getStored st3 k = Some ((finished_row ?i y)\<lparr>sc_wake_schedule_id := w, sc_updated_at := u\<rparr>)"
    using k finish by auto
  have occ: "fi_occurrenceId ?i \<noteq> None" "sc_occurrence_id y \<noteq> fi_occurrenceId ?i"
    using t(2) edit(6) y(5) by (auto simp: finish_input_of_def running mark_armed [OF assms(3)] truthy_Some)
  have armed: "armed_one_shot y" using y edit(5) one(1) by (simp add: armed_one_shot_def running truthy_def)
  note fr = finished_row_superseded [OF occ]
  have "the (sc_occurrence_id r) \<noteq> fresh" using edit(6) t(2) by (auto simp: truthy_Some)
  with x fr(1) fr(2) [OF y(3)] fr(3) [OF armed] y t(3) armed edit(5) show ?thesis
    by (simp add: is_due_def armed_one_shot_def running(2) truthy_def)
qed

text \<open>
  Disabling a recurring schedule while it runs does not last: the finished run enables it again and
  schedules its next run.
\<close>

theorem disabling_during_recurring_run_is_undone:
  assumes "getStored st k = Some r" and "sc_running_at r = None" and "sc_enabled r" and "sc_next_run_at r = Some t"
    and "t \<le> now" and "\<not> isOneShotExpression (sc_expression r)"
    and start: "start_run now startedAt uuid uuid2 Due r st = (st1, Inr (Started running key attempt))"
    and edit: "schedule_update zoned now2 fresh k p st1 = Inr st2" "pt_enabled p = Some False"
    and finish: "computeNextRunAt zoned (sc_expression r) (max f t) = Inr (Some t2)"
      "st3 = fst (finish_run zoned f later runId wake Due r running attempt startedAt oc st2)"
  shows "(\<exists>x. getStored st2 k = Some x \<and> \<not> sc_enabled x)
     \<and> (\<exists>x. getStored st3 k = Some x \<and> sc_enabled x \<and> sc_next_run_at x = Some t2 \<and> sc_running_at x = None)"
proof -
  from assms(1) have k: "sc_id r = k" by (rule getStored_id)
  with assms(1) have stored: "getStored st (sc_id r) = Some r" by simp
  from start_run_due [OF stored assms(2-5), of startedAt uuid uuid2]
  obtain st' where st': "\<forall>j. getStored st' j = (if j = sc_id r then Some (mark_row startedAt uuid r) else getStored st j)"
    and run: "start_run now startedAt uuid uuid2 Due r st = (st',
         bind_result (occurrenceKey uuid2 (mark_row startedAt uuid r) Due (Some t) startedAt) (\<lambda>key.
         bind_result (oneShotAttemptNumber (mark_row startedAt uuid r) Due) (\<lambda>attempt.
         Inr (Started (mark_row startedAt uuid r) key attempt))))" by blast
  from trans [OF start [symmetric] run] have "st1 = st'" and "bind_result (occurrenceKey uuid2 (mark_row startedAt uuid r) Due (Some t) startedAt) (\<lambda>key.
         bind_result (oneShotAttemptNumber (mark_row startedAt uuid r) Due) (\<lambda>attempt.
         Inr (Started (mark_row startedAt uuid r) key attempt))) = Inr (Started running key attempt)"
    by (metis prod.inject)+
  then have running: "running = mark_row startedAt uuid r" and st1: "getStored st1 k = Some running"
    using st' k by auto
  have occ: "sc_occurrence_id running = None" using assms(6) by (simp add: running mark_row_def Let_def)
  obtain y where y: "getStored st2 k = Some y" "\<not> sc_enabled y"
    by (rule schedule_update_stored [OF edit(1) st1]) (use edit(2) in \<open>auto simp: patched_row_def Let_def\<close>)
  have next_run: "next_after_run zoned f Due r running attempt oc = Inr (True, Some t2)"
    using assms(4,6) finish(1) by (simp add: next_after_run_def Let_def running computeNextRunAfterFinish_def
        isOneShotExpression_def split: schedule_expression.splits)
  let ?i = "finish_input_of f Due r running attempt startedAt oc (True, Some t2)"
  from finish_run_lookup [OF next_run y(1), of later runId wake startedAt]
  obtain w u where x: "getStored st3 k = Some ((finished_row ?i y)\<lparr>sc_wake_schedule_id := w, sc_updated_at := u\<rparr>)"
    using k finish(2) by auto
  have "fi_occurrenceId ?i = sc_occurrence_id y \<or> fi_occurrenceId ?i = None" by (simp add: finish_input_of_def occ)
  from finished_row_current(1,2) [OF this] x y show ?thesis by (simp add: finish_input_of_def)
qed

text \<open>
  A start can wedge its schedule: when a one-shot was disabled after a batch read it as due, starting
  it from the stale record throws after it has been marked as running. No run was started, so none will
  finish, and nothing else ever starts the schedule again, whatever edits, wakes and starts follow.
\<close>

theorem failed_start_wedges_schedule:
  assumes "store_ok st" and "sc_enabled r" and "sc_next_run_at r = Some t" and "t \<le> now"
    and "getStored st (sc_id r) = Some row" and "sc_running_at row = None" and "\<not> sc_enabled row"
    and "isOneShotExpression (sc_expression row)"
    and "\<forall>e \<in> set es. \<not> ends_run (sc_id r) e"
  shows "isl (snd (start_run now startedAt uuid uuid2 Due r st))
     \<and> count_steps (schedule_step zoned) (starts_run (sc_id r)) es (fst (start_run now startedAt uuid uuid2 Due r st)) = 0"
proof (cases rule: markRunning_cases [of st "sc_id r" startedAt uuid])
  case (free r' st')
  with assms(5) have [simp]: "r' = row" by simp
  from free assms(2-4,7,8) have run: "start_run now startedAt uuid uuid2 Due r st
      = (st', throw (''Armed one-shot schedule '' @ sc_id row @ '' is missing its occurrence id''))"
    by (simp add: start_run_def occurrenceKey_def mark_row_def Let_def truthy_def)
  from free(4,5) assms(1) have "store_ok st'" and "\<not> idle_schedule (sc_id r) st'"
    by (simp_all add: idle_schedule_def)
  moreover from assms(9) have "filter (ends_run (sc_id r)) es = []" by (simp add: filter_empty_conv)
  ultimately have "count_steps (schedule_step zoned) (starts_run (sc_id r)) es st' \<le> 0"
    using schedule_runs.grants_bounded [of st' es zoned "sc_id r"] by (simp add: count_steps_syntactic)
  with run show ?thesis by simp
qed (use assms in simp_all)

text \<open>The handler always passes a target on.\<close>

lemma handler_patch_has_target: "normalize_patch valid_timezone ctx now existing p = Inr q \<Longrightarrow> pt_target q \<noteq> None"
  by (auto simp: normalize_patch_def Let_def)

section \<open>Witnesses\<close>

definition demo_schedule :: "schedule_expression \<Rightarrow> string option \<Rightarrow> schedule_row" where
  "demo_schedule e occurrence =
     \<lparr>sc_id = ''s1'', sc_owner_uid = 1000, sc_creator = PrUser 1000 ''ada'', sc_run_as = PrUser 1000 ''ada'',
      sc_name = ''ping'', sc_description = None, sc_enabled = True, sc_expression = e,
      sc_target = TCommandExec ''date'' None None, sc_wake_schedule_id = Some ''w0'', sc_occurrence_id = occurrence,
      sc_attempt_count = 0, sc_next_run_at = Some 1000, sc_running_at = None, sc_last_run_at = None,
      sc_last_status = None, sc_last_error = None, sc_last_duration_ms = None, sc_run_count = 0,
      sc_created_at = 0, sc_updated_at = 0\<rparr>"

definition demo_store :: "schedule_row \<Rightarrow> schedule_store" where
  "demo_store r = \<lparr>ss_schedules = [r], ss_runs = [], ss_cron_files = [], ss_cron_links = []\<rparr>"

abbreviation "demo_one_shot \<equiv> demo_schedule (ExAfter 1000) (Some ''o1'')"
abbreviation "demo_recurring \<equiv> demo_schedule (ExEvery 1000 (Some 0)) None"

lemma demo_store_ok [simp]: "store_ok (demo_store r)"
  by (simp add: store_ok_def demo_store_def keyed_def)

lemma demo_stored [simp]: "getStored (demo_store r) k = (if sc_id r = k then Some r else None)"
  by (simp add: getStored_def demo_store_def sql_lookup_def)

lemma demo_fields [simp]: "sc_id (demo_schedule e oc) = ''s1''" "sc_running_at (demo_schedule e oc) = None"
  "sc_enabled (demo_schedule e oc)" "sc_next_run_at (demo_schedule e oc) = Some 1000"
  "sc_expression (demo_schedule e oc) = e" "sc_occurrence_id (demo_schedule e oc) = oc"
  "sc_attempt_count (demo_schedule e oc) = 0"
  by (simp_all add: demo_schedule_def)

lemma demo_armed [simp]: "armed_one_shot demo_one_shot"
  by (simp add: armed_one_shot_def isOneShotExpression_def truthy_def)

lemma schedule_runs_never_overlap_witness:
  "idle_schedule ''s1'' (demo_store demo_one_shot)
     \<and> count_steps (schedule_step demo_calendar) (starts_run ''s1'')
         [ScStart 1000 1000 ''u'' ''v'' Due demo_one_shot, ScStart 1001 1001 ''u'' ''v'' Force demo_one_shot]
         (demo_store demo_one_shot) \<le> 1"
  using schedule_runs_never_overlap [OF demo_store_ok, of demo_calendar "''s1''"
      "[ScStart 1000 1000 ''u'' ''v'' Due demo_one_shot, ScStart 1001 1001 ''u'' ''v'' Force demo_one_shot]" demo_one_shot]
  by (simp add: idle_schedule_def del: count_steps.simps)

definition demo_failures :: "wake_run list" where
  "demo_failures = replicate 10 \<lparr>wr_delay = 5, wr_length = 100, wr_uuid = ''u'', wr_uuid2 = ''v'', wr_runId = ''r'',
     wr_wake = Inr ''w'', wr_outcome = DispatchError ''offline'' True\<rparr>"


definition rename_patch :: schedule_patch where
  "rename_patch = \<lparr>pt_name = Some ''pong'', pt_description = None, pt_enabled = None, pt_expression = None,
     pt_target = Some (TCommandExec ''date'' None None)\<rparr>"

lemma start_update_demo:
  assumes "getStored st (sc_id r) = Some r" and "sc_running_at r = None" and "armed_one_shot r"
    and "the (sc_next_run_at r) \<le> now"
  shows "\<exists>st1 st2 running key attempt. start_run now startedAt uuid uuid2 Due r st = (st1, Inr (Started running key attempt))
    \<and> schedule_update zoned now2 fresh (sc_id r) rename_patch st1 = Inr st2"
  using start_armed [OF assms, of startedAt uuid uuid2] assms(3)
  by (auto simp: schedule_update_def next_run_of_patch_def rename_patch_def armed_one_shot_def)

lemma edit_during_one_shot_run_repeats_it_witness:
  "\<exists>st1 st2 running key attempt x. start_run 1000 1000 ''u'' ''v'' Due demo_one_shot (demo_store demo_one_shot)
       = (st1, Inr (Started running key attempt))
     \<and> schedule_update demo_calendar 1500 ''o2'' ''s1'' rename_patch st1 = Inr st2
     \<and> getStored (fst (finish_run demo_calendar 2000 2000 ''r'' (Inr ''w'') Due demo_one_shot running attempt 1000
           (DispatchOk JNull) st2)) ''s1'' = Some x
     \<and> is_due 1000 x \<and> sc_occurrence_id x = Some ''o2''"
proof -
  from start_update_demo [of "demo_store demo_one_shot" demo_one_shot 1000 1000 "''u''" "''v''" demo_calendar 1500 "''o2''"]
  obtain st1 st2 running key attempt where
    run: "start_run 1000 1000 ''u'' ''v'' Due demo_one_shot (demo_store demo_one_shot) = (st1, Inr (Started running key attempt))"
    and edit: "schedule_update demo_calendar 1500 ''o2'' ''s1'' rename_patch st1 = Inr st2" by auto
  have "\<exists>x. getStored (fst (finish_run demo_calendar 2000 2000 ''r'' (Inr ''w'') Due demo_one_shot running attempt 1000
        (DispatchOk JNull) st2)) ''s1'' = Some x \<and> is_due 1000 x \<and> sc_running_at x = None \<and> armed_one_shot x
      \<and> sc_occurrence_id x = Some ''o2'' \<and> key \<noteq> ''one-shot:'' @ ''o2''"
    by (rule edit_during_one_shot_run_repeats_it [OF _ _ _ _ run edit _ _ _ _ _ refl])
      (simp_all add: rename_patch_def)
  with run edit show ?thesis by blast
qed

definition disable_patch :: schedule_patch where
  "disable_patch = \<lparr>pt_name = None, pt_description = None, pt_enabled = Some False, pt_expression = None,
     pt_target = Some (TCommandExec ''date'' None None)\<rparr>"

lemma disabling_during_recurring_run_is_undone_witness:
  "\<exists>st1 st2 running key attempt. start_run 1000 1000 ''u'' ''v'' Due demo_recurring (demo_store demo_recurring)
       = (st1, Inr (Started running key attempt))
     \<and> schedule_update demo_calendar 1500 ''o2'' ''s1'' disable_patch st1 = Inr st2
     \<and> (\<exists>x. getStored (fst (finish_run demo_calendar 2000 2000 ''r'' (Inr ''w'') Due demo_recurring running attempt 1000
           (DispatchOk JNull) st2)) ''s1'' = Some x \<and> sc_enabled x \<and> sc_next_run_at x = Some 3000)"
proof -
  have one: "\<not> isOneShotExpression (ExEvery 1000 (Some 0))" by (simp add: isOneShotExpression_def)
  from start_run_due [of "demo_store demo_recurring" demo_recurring 1000 1000 1000 "''u''" "''v''"] one
  obtain st1 running key attempt where
    run: "start_run 1000 1000 ''u'' ''v'' Due demo_recurring (demo_store demo_recurring)
        = (st1, Inr (Started running key attempt))" and "getStored st1 ''s1'' = Some running"
    by (auto simp: occurrenceKey_def oneShotAttemptNumber_def)
  then obtain st2 where edit: "schedule_update demo_calendar 1500 ''o2'' ''s1'' disable_patch st1 = Inr st2"
    by (auto simp: schedule_update_def next_run_of_patch_def disable_patch_def)
  have "(\<exists>x. getStored st2 ''s1'' = Some x \<and> \<not> sc_enabled x)
     \<and> (\<exists>x. getStored (fst (finish_run demo_calendar 2000 2000 ''r'' (Inr ''w'') Due demo_recurring running attempt 1000
           (DispatchOk JNull) st2)) ''s1'' = Some x \<and> sc_enabled x \<and> sc_next_run_at x = Some 3000 \<and> sc_running_at x = None)"
    by (rule disabling_during_recurring_run_is_undone [OF _ _ _ _ _ _ run edit _ _ refl, where t = 1000])
      (simp_all add: one disable_patch_def computeNextRunAt_def computeEveryNextRunAt_def)
  with run edit show ?thesis by blast
qed

lemma failed_start_wedges_schedule_witness:
  "isl (snd (start_run 1000 1000 ''u'' ''v'' Due demo_one_shot (demo_store (demo_one_shot\<lparr>sc_enabled := False\<rparr>))))
     \<and> count_steps (schedule_step demo_calendar) (starts_run ''s1'')
         [ScUpdate 1500 ''o2'' ''s1'' rename_patch, ScStart 2000 2000 ''u'' ''v'' Force demo_one_shot]
         (fst (start_run 1000 1000 ''u'' ''v'' Due demo_one_shot (demo_store (demo_one_shot\<lparr>sc_enabled := False\<rparr>)))) = 0"
  using failed_start_wedges_schedule [of "demo_store (demo_one_shot\<lparr>sc_enabled := False\<rparr>)" demo_one_shot 1000 1000
      "demo_one_shot\<lparr>sc_enabled := False\<rparr>"
      "[ScUpdate 1500 ''o2'' ''s1'' rename_patch, ScStart 2000 2000 ''u'' ''v'' Force demo_one_shot]" 1000 "''u''" "''v''"
      demo_calendar]
  by (simp add: isOneShotExpression_def del: count_steps.simps)

end
