(* ===== verification/SignalWatches.thy ===== *)
theory SignalWatches
  imports Links
begin

text \<open>
  Watches on the signals of other processes: the table of \<open>kernel/signal-watches.ts\<close>, the handlers of
  \<open>signal.watch\<close> and \<open>signal.unwatch\<close> in \<open>kernel/signals.ts\<close> and the dispatch of a signal to its
  watchers in \<open>kernel/do.ts\<close>. The JSON column holds the value it encodes, the clock and
  \<open>randomUUID\<close> are arguments, and while a watcher is called other operations may change the table.
\<close>

section \<open>The table\<close>

datatype watch_status = WsActive | WsFailed

record signal_watch =
  sw_watch_id :: string
  sw_uid :: int
  sw_target :: string
  sw_signal :: string
  sw_process_id :: "string option"
  sw_key :: "string option"
  sw_state :: json
  sw_once :: bool
  sw_status :: watch_status
  sw_error :: "string option"
  sw_created_at :: int
  sw_updated_at :: int
  sw_expires_at :: "int option"

record watch_input =
  wi_uid :: int
  wi_target :: string
  wi_signal :: string
  wi_processId :: "string option"
  wi_key :: "string option"
  wi_state :: "json option"
  wi_once :: bool
  wi_expiresAt :: "int option"

definition has_key :: "int \<Rightarrow> string \<Rightarrow> string \<Rightarrow> signal_watch \<Rightarrow> bool" where
  "has_key uid target k w \<longleftrightarrow> sw_uid w = uid \<and> sw_target w = target \<and> sw_key w = Some k"

definition findActiveByKey :: "int \<Rightarrow> string \<Rightarrow> string \<Rightarrow> signal_watch list \<Rightarrow> signal_watch option" where
  "findActiveByKey uid target k t =
     (case sort_key (\<lambda>w. - sw_created_at w) (filter (\<lambda>w. has_key uid target k w \<and> sw_status w = WsActive) t) of
        [] \<Rightarrow> None
      | w # _ \<Rightarrow> Some w)"

definition watch_upsert :: "int \<Rightarrow> string \<Rightarrow> watch_input \<Rightarrow> signal_watch list
    \<Rightarrow> (signal_watch list \<times> signal_watch \<times> bool) result" where
  "watch_upsert now uuid inp t =
     (case (if truthy (wi_key inp) then findActiveByKey (wi_uid inp) (wi_target inp) (the (wi_key inp)) t else None) of
        Some existing \<Rightarrow>
          (let f = (\<lambda>w. w\<lparr>sw_target := wi_target inp, sw_signal := wi_signal inp, sw_process_id := wi_processId inp,
                           sw_state := coalesce (wi_state inp) JNull, sw_once := wi_once inp,
                           sw_error := None, sw_updated_at := now, sw_expires_at := wi_expiresAt inp\<rparr>)
           in Inr (sql_update (\<lambda>w. sw_watch_id w = sw_watch_id existing) f t, f existing, False))
      | None \<Rightarrow>
          (let w = \<lparr>sw_watch_id = uuid, sw_uid = wi_uid inp, sw_target = wi_target inp, sw_signal = wi_signal inp,
                     sw_process_id = wi_processId inp, sw_key = wi_key inp,
                     sw_state = coalesce (wi_state inp) JNull, sw_once = wi_once inp, sw_status = WsActive,
                     sw_error = None, sw_created_at = now, sw_updated_at = now,
                     sw_expires_at = wi_expiresAt inp\<rparr>
           in bind_result (sql_insert sw_watch_id w t) (\<lambda>t'. Inr (t', w, True))))"

definition lapsed :: "int \<Rightarrow> signal_watch \<Rightarrow> bool" where
  "lapsed now w = (case sw_expires_at w of Some e \<Rightarrow> e \<le> now | None \<Rightarrow> False)"

definition watch_match :: "int \<Rightarrow> int \<Rightarrow> string \<Rightarrow> string option \<Rightarrow> signal_watch list
    \<Rightarrow> signal_watch list \<times> signal_watch list" where
  "watch_match now uid sig processId t =
     (let t' = sql_delete (\<lambda>w. sw_status w = WsActive \<and> lapsed now w) t
      in (t', sort_key sw_created_at
            (filter (\<lambda>w. sw_uid w = uid \<and> sw_signal w = sig \<and> sw_status w = WsActive
                       \<and> (sw_process_id w = None \<or> (processId \<noteq> None \<and> sw_process_id w = processId))
                       \<and> \<not> lapsed now w) t')))"

definition deleteHandled :: "string \<Rightarrow> signal_watch list \<Rightarrow> signal_watch list" where
  "deleteHandled watchId = sql_delete (\<lambda>w. sw_watch_id w = watchId)"

definition markFailed :: "int \<Rightarrow> string \<Rightarrow> string \<Rightarrow> signal_watch list \<Rightarrow> signal_watch list" where
  "markFailed now watchId err =
     sql_update (\<lambda>w. sw_watch_id w = watchId)
       (\<lambda>w. w\<lparr>sw_status := WsFailed, sw_error := Some err, sw_updated_at := now\<rparr>)"

definition watch_removeById :: "int \<Rightarrow> string \<Rightarrow> string \<Rightarrow> signal_watch list \<Rightarrow> signal_watch list \<times> nat" where
  "watch_removeById uid target watchId t =
     (let P = (\<lambda>w. sw_uid w = uid \<and> sw_target w = target \<and> sw_watch_id w = watchId)
      in (sql_delete P t, sql_count P t))"

definition watch_removeByKey :: "int \<Rightarrow> string \<Rightarrow> string \<Rightarrow> signal_watch list \<Rightarrow> signal_watch list \<times> nat" where
  "watch_removeByKey uid target k t = (sql_delete (has_key uid target k) t, sql_count (has_key uid target k) t)"

section \<open>The handlers\<close>

definition DEFAULT_SIGNAL_WATCH_TTL_MS :: int where
  "DEFAULT_SIGNAL_WATCH_TTL_MS = 24 * 60 * 60 * 1000"

definition MAX_SIGNAL_WATCH_TTL_MS :: int where
  "MAX_SIGNAL_WATCH_TTL_MS = 30 * 24 * 60 * 60 * 1000"

definition clampSignalWatchTtl :: "json option \<Rightarrow> int" where
  "clampSignalWatchTtl v =
     (case v of
        Some (JNum (IntNum i)) \<Rightarrow> max 1000 (min MAX_SIGNAL_WATCH_TTL_MS i)
      | Some (JNum (FracNum i)) \<Rightarrow>
          max 1000 (min MAX_SIGNAL_WATCH_TTL_MS (if i < 0 then i + 1 else i))
      | _ \<Rightarrow> DEFAULT_SIGNAL_WATCH_TTL_MS)"

definition resolveSignalWatchTarget :: "call_ctx \<Rightarrow> string result" where
  "resolveSignalWatchTarget ctx =
     (if truthy (cx_processId ctx) then Inr (the (cx_processId ctx))
      else throw ''signal.watch is only available to process runtimes'')"

record watch_args =
  wa_signal :: "json option"
  wa_processId :: "json option"
  wa_key :: "json option"
  wa_state :: "json option"
  wa_once :: "json option"
  wa_ttlMs :: "json option"

definition trimmed_text :: "json option \<Rightarrow> string option" where
  "trimmed_text v =
     (case json_string v of
        Some s \<Rightarrow> if js_trim s = [] then None else Some (js_trim s)
      | None \<Rightarrow> None)"

definition watch_input_of :: "int \<Rightarrow> process_row list \<Rightarrow> call_ctx \<Rightarrow> watch_args \<Rightarrow> watch_input result" where
  "watch_input_of now procs ctx args =
     bind_result (resolveSignalWatchTarget ctx) (\<lambda>target.
     let ownerUid = resolveCallerOwnerUid procs ctx in
     bind_result (trim_arg (wa_signal args)) (\<lambda>sig.
     if sig = [] then throw ''signal is required''
     else case trimmed_text (wa_processId args) of
       None \<Rightarrow> throw ''process runtimes must watch an explicit processId''
     | Some processId \<Rightarrow>
         if (case process_get procs processId of None \<Rightarrow> True | Some p \<Rightarrow> rc_ownerUid p \<noteq> ownerUid)
         then throw (''Unknown process: '' @ processId)
         else if processId = target then throw ''process runtimes cannot watch their own signals''
         else Inr \<lparr>wi_uid = ownerUid, wi_target = target, wi_signal = sig, wi_processId = Some processId,
                    wi_key = trimmed_text (wa_key args), wi_state = wa_state args,
                    wi_once = (wa_once args \<noteq> Some (JBool False)),
                    wi_expiresAt = Some (now + clampSignalWatchTtl (wa_ttlMs args))\<rparr>))"

definition handleSignalWatch :: "int \<Rightarrow> string \<Rightarrow> process_row list \<Rightarrow> call_ctx \<Rightarrow> watch_args
    \<Rightarrow> (signal_watch list, signal_watch \<times> bool) action" where
  "handleSignalWatch now uuid procs ctx args t =
     (case bind_result (watch_input_of now procs ctx args) (\<lambda>inp. watch_upsert now uuid inp t) of
        Inl e \<Rightarrow> (t, Inl e)
      | Inr (t', w, created) \<Rightarrow> (t', Inr (w, created)))"

text \<open>The arguments \<open>watchId\<close> and \<open>key\<close> of an unwatch: \<open>None\<close> when the object has no such property.\<close>

definition handleSignalUnwatch :: "process_row list \<Rightarrow> call_ctx \<Rightarrow> json option \<Rightarrow> json option
    \<Rightarrow> (signal_watch list, nat) action" where
  "handleSignalUnwatch procs ctx watchId k t =
     (case resolveSignalWatchTarget ctx of
        Inl e \<Rightarrow> (t, Inl e)
      | Inr target \<Rightarrow>
          let uid = resolveCallerOwnerUid procs ctx in
          if watchId \<noteq> None then
            (case json_string watchId of
               None \<Rightarrow> (t, throw ''signal.unwatch watchId must be a string'')
             | Some i \<Rightarrow> (let (t', n) = watch_removeById uid target i t in (t', Inr n)))
          else case json_string k of
            None \<Rightarrow> (t, throw ''signal.unwatch requires either watchId or key'')
          | Some k' \<Rightarrow> (let (t', n) = watch_removeByKey uid target k' t in (t', Inr n)))"

section \<open>Dispatch\<close>

datatype watch_op =
    WoWatch int string "process_row list" call_ctx watch_args
  | WoUnwatch "process_row list" call_ctx "json option" "json option"

fun watch_op_step :: "watch_op \<Rightarrow> signal_watch list \<Rightarrow> signal_watch list" where
  "watch_op_step (WoWatch now uuid procs ctx args) t = fst (handleSignalWatch now uuid procs ctx args t)"
| "watch_op_step (WoUnwatch procs ctx i k) t = fst (handleSignalUnwatch procs ctx i k t)"

text \<open>
  The call of one watcher: the operations that ran while it was awaited, the time it ended and the
  message it failed with, if it did.
\<close>

type_synonym watch_call = "watch_op list \<times> int \<times> string option"

definition watch_outcome :: "signal_watch \<Rightarrow> watch_call \<Rightarrow> string option" where
  "watch_outcome w c =
     (if sw_target w = [] then Some (''Process signal watch '' @ sw_watch_id w @ '' is missing target process'')
      else snd (snd c))"

definition dispatch_watch :: "signal_watch \<Rightarrow> watch_call \<Rightarrow> signal_watch list \<Rightarrow> signal_watch list" where
  "dispatch_watch w c t =
     (let t' = fold watch_op_step (fst c) t
      in case watch_outcome w c of
           Some e \<Rightarrow> markFailed (fst (snd c)) (sw_watch_id w) e t'
         | None \<Rightarrow> if sw_once w then deleteHandled (sw_watch_id w) t' else t')"

fun dispatch_watches :: "(signal_watch \<Rightarrow> watch_call) \<Rightarrow> signal_watch list \<Rightarrow> signal_watch list \<Rightarrow> signal_watch list" where
  "dispatch_watches calls [] t = t"
| "dispatch_watches calls (w # ws) t = dispatch_watches calls ws (dispatch_watch w (calls w) t)"

definition dispatchSignalWatches :: "int \<Rightarrow> int \<Rightarrow> string \<Rightarrow> string \<Rightarrow> (signal_watch \<Rightarrow> watch_call)
    \<Rightarrow> signal_watch list \<Rightarrow> signal_watch list \<times> signal_watch list" where
  "dispatchSignalWatches now uid processId sig calls t =
     (let (t', ws) = watch_match now uid sig (Some processId) t
      in (dispatch_watches calls ws t', filter (\<lambda>w. sw_target w \<noteq> []) ws))"

section \<open>The table over time\<close>

text \<open>What every row satisfies, and what holds of the rows together.\<close>

definition watch_ok :: "signal_watch \<Rightarrow> bool" where
  "watch_ok w \<longleftrightarrow> (\<exists>p. sw_process_id w = Some p \<and> p \<noteq> sw_target w) \<and> sw_target w \<noteq> []
     \<and> sw_signal w \<noteq> [] \<and> sw_key w \<noteq> Some [] \<and> sw_expires_at w \<noteq> None"

definition same_key :: "signal_watch \<Rightarrow> signal_watch \<Rightarrow> bool" where
  "same_key w v \<longleftrightarrow> sw_status w = WsActive \<and> sw_status v = WsActive
     \<and> sw_key w \<noteq> None \<and> sw_uid w = sw_uid v \<and> sw_target w = sw_target v \<and> sw_key w = sw_key v"

definition one_active :: "signal_watch list \<Rightarrow> bool" where
  "one_active t \<longleftrightarrow> (\<forall>w \<in> set t. \<forall>v \<in> set t. same_key w v \<longrightarrow> w = v)"

definition watches_ok :: "signal_watch list \<Rightarrow> bool" where
  "watches_ok t \<longleftrightarrow> keyed sw_watch_id t \<and> (\<forall>w \<in> set t. watch_ok w) \<and> one_active t"

definition input_ok :: "watch_input \<Rightarrow> bool" where
  "input_ok inp \<longleftrightarrow> (\<exists>p. wi_processId inp = Some p \<and> p \<noteq> wi_target inp) \<and> wi_target inp \<noteq> []
     \<and> wi_signal inp \<noteq> [] \<and> wi_key inp \<noteq> Some [] \<and> wi_expiresAt inp \<noteq> None"

lemma findActive_Some:
  assumes "findActiveByKey uid target k t = Some w"
  shows "w \<in> set t" "has_key uid target k w" "sw_status w = WsActive"
proof -
  let ?fs = "filter (\<lambda>w. has_key uid target k w \<and> sw_status w = WsActive) t"
  obtain ws where "sort_key (\<lambda>w. - sw_created_at w) ?fs = w # ws"
    using assms by (auto simp: findActiveByKey_def split: list.splits)
  then have "w \<in> set ?fs" by (metis list.set_intros(1) set_sort)
  then show "w \<in> set t" "has_key uid target k w" "sw_status w = WsActive" by simp_all
qed

lemma findActive_None:
  assumes "findActiveByKey uid target k t = None" "w \<in> set t" "has_key uid target k w"
  shows "sw_status w \<noteq> WsActive"
proof
  let ?fs = "filter (\<lambda>w. has_key uid target k w \<and> sw_status w = WsActive) t"
  assume "sw_status w = WsActive"
  with assms(2,3) have "w \<in> set ?fs" by simp
  moreover have "sort_key (\<lambda>w. - sw_created_at w) ?fs = []"
    using assms(1) by (simp add: findActiveByKey_def split: list.splits)
  then have "?fs = []" by (metis length_0_conv length_sort)
  ultimately show False by simp
qed

lemma watches_ok_sub:
  assumes "watches_ok t" "keyed sw_watch_id t'" "set t' \<subseteq> set t"
  shows "watches_ok t'"
  using assms unfolding watches_ok_def one_active_def by blast

lemma watches_ok_delete [intro]: "watches_ok t \<Longrightarrow> watches_ok (sql_delete P t)"
  by (rule watches_ok_sub) (auto simp: watches_ok_def)

lemma insert_Inr: "sql_insert key r t = Inr t' \<Longrightarrow> t' = t @ [r] \<and> (\<forall>x \<in> set t. key x \<noteq> key r)"
  by (auto simp: sql_insert_def list_ex_iff split: if_splits)

lemma upsert_ok:
  assumes ok: "watches_ok t" and inp: "input_ok inp" and r: "watch_upsert now uuid inp t = Inr (t', w, created)"
  shows "watches_ok t' \<and> w \<in> set t' \<and> sw_status w = WsActive \<and> sw_uid w = wi_uid inp \<and> sw_target w = wi_target inp
    \<and> sw_key w = wi_key inp \<and> sw_signal w = wi_signal inp \<and> sw_process_id w = wi_processId inp
    \<and> sw_expires_at w = wi_expiresAt inp \<and> sw_once w = wi_once inp
    \<and> (\<forall>v. sw_watch_id v \<noteq> sw_watch_id w \<longrightarrow> (v \<in> set t' \<longleftrightarrow> v \<in> set t))
    \<and> (created \<longleftrightarrow> (\<forall>v \<in> set t. sw_watch_id v \<noteq> sw_watch_id w))"
proof (cases "if truthy (wi_key inp) then findActiveByKey (wi_uid inp) (wi_target inp) (the (wi_key inp)) t else None")
  case None
  let ?w = "\<lparr>sw_watch_id = uuid, sw_uid = wi_uid inp, sw_target = wi_target inp, sw_signal = wi_signal inp,
     sw_process_id = wi_processId inp, sw_key = wi_key inp, sw_state = coalesce (wi_state inp) JNull,
     sw_once = wi_once inp, sw_status = WsActive, sw_error = None, sw_created_at = now, sw_updated_at = now,
     sw_expires_at = wi_expiresAt inp\<rparr>"
  from None r have w: "w = ?w" "created" and ins: "sql_insert sw_watch_id ?w t = Inr t'"
    by (auto simp: watch_upsert_def Let_def)
  note t' = insert_Inr [OF ins]
  have free: "sw_status v \<noteq> WsActive"
    if "v \<in> set t" "sw_uid v = wi_uid inp" "sw_target v = wi_target inp" "sw_key v = wi_key inp" "sw_key v \<noteq> None" for v
  proof -
    from that inp obtain k where k: "wi_key inp = Some k" "k \<noteq> []" by (auto simp: input_ok_def)
    with None have "findActiveByKey (wi_uid inp) (wi_target inp) k t = None" by (simp add: truthy_def)
    from findActive_None [OF this that(1)] that k show ?thesis by (simp add: has_key_def)
  qed
  have "watches_ok t'"
    unfolding watches_ok_def
  proof (intro conjI)
    show "keyed sw_watch_id t'" using ok t' by (simp add: watches_ok_def)
    show "\<forall>w \<in> set t'. watch_ok w" using ok t' inp by (auto simp: watches_ok_def input_ok_def watch_ok_def)
    have one: "one_active t" using ok by (simp add: watches_ok_def)
    have "\<not> same_key ?w v \<and> \<not> same_key v ?w" if "v \<in> set t" for v
    proof (cases "wi_key inp")
      case (Some k)
      then show ?thesis using free [OF that] by (auto simp: same_key_def)
    qed (auto simp: same_key_def)
    with one t' show "one_active t'" by (simp add: one_active_def ball_Un)
  qed
  then show ?thesis using t' w by auto
next
  case (Some e)
  then obtain k where k: "wi_key inp = Some k" "findActiveByKey (wi_uid inp) (wi_target inp) k t = Some e"
    by (auto simp: truthy_def split: if_splits)
  note e = findActive_Some [OF k(2)]
  define f :: "signal_watch \<Rightarrow> signal_watch" where "f = (\<lambda>w. w\<lparr>sw_target := wi_target inp, sw_signal := wi_signal inp, sw_process_id := wi_processId inp,
     sw_state := coalesce (wi_state inp) JNull, sw_once := wi_once inp,
     sw_error := None, sw_updated_at := now, sw_expires_at := wi_expiresAt inp\<rparr>)"
  from Some r have t': "t' = sql_update (\<lambda>w. sw_watch_id w = sw_watch_id e) f t" and w: "w = f e" "\<not> created"
    by (auto simp: watch_upsert_def Let_def f_def)
  have keyd: "keyed sw_watch_id t" using ok by (simp add: watches_ok_def)
  have mem: "v \<in> set t' \<longleftrightarrow> v = f e \<or> v \<in> set t \<and> sw_watch_id v \<noteq> sw_watch_id e" for v
    unfolding t' in_update using keyed_unique [OF keyd _ e(1)] e(1) by (metis (mono_tags, lifting))
  have same: "sw_watch_id (f v) = sw_watch_id v" "sw_uid (f v) = sw_uid v" "sw_key (f v) = sw_key v"
    "sw_status (f v) = sw_status v" for v by (simp_all add: f_def)
  have ekey: "sw_uid e = wi_uid inp" "sw_target e = wi_target inp" "sw_key e = wi_key inp"
    using e(2) k(1) by (simp_all add: has_key_def)
  have "watches_ok t'"
    unfolding watches_ok_def
  proof (intro conjI)
    show "keyed sw_watch_id t'" unfolding t' by (rule keyed_update [OF keyd]) (simp add: same)
    show "\<forall>w \<in> set t'. watch_ok w"
      using ok inp ekey by (auto simp: mem watches_ok_def input_ok_def watch_ok_def f_def)
    have one: "one_active t" using ok by (simp add: watches_ok_def)
    have "v = e" if "v \<in> set t" "sw_status v = WsActive" "sw_uid v = wi_uid inp" "sw_target v = wi_target inp"
      "sw_key v = wi_key inp" for v
      using one that e(1,3) ekey k(1) unfolding one_active_def same_key_def by (metis option.distinct(1))
    moreover have "sw_target (f e) = wi_target inp" by (simp add: f_def)
    ultimately have "\<not> same_key (f e) v \<and> \<not> same_key v (f e)" if "v \<in> set t" "sw_watch_id v \<noteq> sw_watch_id e" for v
      using that same ekey unfolding same_key_def by metis
    with one show "one_active t'" by (auto simp: one_active_def mem)
  qed
  then show ?thesis
    using w e(1) ekey by (auto simp: mem same e(3)) (auto simp: f_def)
qed

lemma input_of_ok:
  assumes "watch_input_of now procs ctx args = Inr inp"
  shows "input_ok inp \<and> wi_uid inp = resolveCallerOwnerUid procs ctx \<and> cx_processId ctx = Some (wi_target inp)
    \<and> (\<exists>p r. wi_processId inp = Some p \<and> process_get procs p = Some r \<and> rc_ownerUid r = wi_uid inp)
    \<and> wi_once inp = (wa_once args \<noteq> Some (JBool False)) \<and> wi_key inp = trimmed_text (wa_key args)
    \<and> (\<exists>e. wi_expiresAt inp = Some e \<and> now + 1000 \<le> e \<and> e \<le> now + MAX_SIGNAL_WATCH_TTL_MS)"
proof -
  have ttl: "1000 \<le> clampSignalWatchTtl v \<and> clampSignalWatchTtl v \<le> MAX_SIGNAL_WATCH_TTL_MS" for v
    by (auto simp: clampSignalWatchTtl_def MAX_SIGNAL_WATCH_TTL_MS_def DEFAULT_SIGNAL_WATCH_TTL_MS_def
        split: option.split json.split js_number.split)
  have key: "trimmed_text v \<noteq> Some []" for v
    by (auto simp: trimmed_text_def split: option.splits if_splits)
  from assms obtain target where "resolveSignalWatchTarget ctx = Inr target"
    by (cases "resolveSignalWatchTarget ctx") (simp_all add: watch_input_of_def)
  then have t: "cx_processId ctx = Some target" "target \<noteq> []" "resolveSignalWatchTarget ctx = Inr target"
    by (auto simp: resolveSignalWatchTarget_def truthy_def split: if_splits)
  from assms t obtain sig where sig: "trim_arg (wa_signal args) = Inr sig"
    by (cases "trim_arg (wa_signal args)") (simp_all add: watch_input_of_def Let_def)
  from assms t sig have ne: "sig \<noteq> []" by (cases "sig = []") (simp_all add: watch_input_of_def)
  from assms t sig ne obtain p where p: "trimmed_text (wa_processId args) = Some p"
    by (cases "trimmed_text (wa_processId args)") (simp_all add: watch_input_of_def)
  from assms t sig ne p obtain r where r: "process_get procs p = Some r"
    by (cases "process_get procs p") (simp_all add: watch_input_of_def)
  from assms t sig ne p r have own: "rc_ownerUid r = resolveCallerOwnerUid procs ctx" "p \<noteq> target"
    by (simp_all add: watch_input_of_def Let_def split: if_splits)
  from assms t sig ne p r own
  have inp: "inp = \<lparr>wi_uid = resolveCallerOwnerUid procs ctx, wi_target = target, wi_signal = sig, wi_processId = Some p,
                    wi_key = trimmed_text (wa_key args), wi_state = wa_state args,
                    wi_once = (wa_once args \<noteq> Some (JBool False)),
                    wi_expiresAt = Some (now + clampSignalWatchTtl (wa_ttlMs args))\<rparr>"
    by (simp add: watch_input_of_def)
  with t ne r own show ?thesis using ttl [of "wa_ttlMs args"] key [of "wa_key args"]
    by (simp add: input_ok_def)
qed

lemma handleSignalWatch_run:
  assumes "handleSignalWatch now uuid procs ctx args t = (t', Inr (w, created))"
  shows "\<exists>inp. watch_input_of now procs ctx args = Inr inp \<and> watch_upsert now uuid inp t = Inr (t', w, created)"
  using assms unfolding handleSignalWatch_def
  by (cases "watch_input_of now procs ctx args") (auto split: sum.splits)

lemma handleSignalWatch_ok:
  assumes "watches_ok t"
  shows "watches_ok (fst (handleSignalWatch now uuid procs ctx args t))"
proof (cases "snd (handleSignalWatch now uuid procs ctx args t)")
  case (Inl e)
  then have "fst (handleSignalWatch now uuid procs ctx args t) = t"
    by (auto simp: handleSignalWatch_def split: sum.splits)
  with assms show ?thesis by simp
next
  case (Inr r)
  then obtain t' w created where run: "handleSignalWatch now uuid procs ctx args t = (t', Inr (w, created))"
    by (metis prod.collapse)
  then show ?thesis
    using handleSignalWatch_run [OF run] input_of_ok upsert_ok [OF assms] by fastforce
qed

lemma watch_op_ok: "watches_ok t \<Longrightarrow> watches_ok (watch_op_step e t)"
proof (cases e)
  case (WoUnwatch procs ctx i k)
  assume "watches_ok t"
  then show ?thesis
    unfolding WoUnwatch
    by (auto simp: handleSignalUnwatch_def watch_removeById_def watch_removeByKey_def Let_def
        split: sum.splits option.splits)
qed (simp add: handleSignalWatch_ok)

lemma fold_watch_ok: "watches_ok t \<Longrightarrow> watches_ok (fold watch_op_step es t)"
  by (induction es arbitrary: t) (simp_all add: watch_op_ok)

lemma markFailed_ok:
  assumes "watches_ok t"
  shows "watches_ok (markFailed now i e t)"
proof -
  have "one_active (markFailed now i e t)"
    using assms by (auto simp: watches_ok_def one_active_def same_key_def markFailed_def in_update)
  moreover have "keyed sw_watch_id (markFailed now i e t)"
    using assms unfolding markFailed_def by (intro keyed_update) (auto simp: watches_ok_def)
  moreover have "watch_ok (w\<lparr>sw_status := s, sw_error := e', sw_updated_at := n\<rparr>) = watch_ok w" for w s e' n
    by (simp add: watch_ok_def)
  then have "\<forall>w \<in> set (markFailed now i e t). watch_ok w"
    using assms by (auto simp: watches_ok_def markFailed_def in_update)
  ultimately show ?thesis by (simp add: watches_ok_def)
qed

lemma dispatch_watch_ok: "watches_ok t \<Longrightarrow> watches_ok (dispatch_watch w c t)"
  by (auto simp: dispatch_watch_def Let_def deleteHandled_def fold_watch_ok
      intro!: markFailed_ok split: option.split)

lemma dispatch_watches_ok: "watches_ok t \<Longrightarrow> watches_ok (dispatch_watches calls ws t)"
  by (induction ws arbitrary: t) (simp_all add: dispatch_watch_ok)

datatype watch_event =
    WeOp watch_op
  | WeDispatch int int string string "signal_watch \<Rightarrow> watch_call"

fun watch_event_step :: "watch_event \<Rightarrow> signal_watch list \<Rightarrow> signal_watch list" where
  "watch_event_step (WeOp oper) t = watch_op_step oper t"
| "watch_event_step (WeDispatch now uid pid sig calls) t = fst (dispatchSignalWatches now uid pid sig calls t)"

lemma dispatch_ok: "watches_ok t \<Longrightarrow> watches_ok (fst (dispatchSignalWatches now uid pid sig calls t))"
  by (auto simp: dispatchSignalWatches_def watch_match_def Let_def intro: dispatch_watches_ok)

lemma watch_event_ok: "watches_ok t \<Longrightarrow> watches_ok (watch_event_step e t)"
  by (cases e) (simp_all add: watch_op_ok dispatch_ok)

lemma reachable_watches_ok: "watches_ok (fold watch_event_step es [])"
proof -
  have "watches_ok t \<Longrightarrow> watches_ok (fold watch_event_step es t)" for t
    by (induction es arbitrary: t) (simp_all add: watch_event_ok)
  moreover have "watches_ok []" by (simp add: watches_ok_def one_active_def)
  ultimately show ?thesis .
qed

lemma delivered_watches:
  "w \<in> set (snd (dispatchSignalWatches now uid pid sig calls t)) \<longleftrightarrow>
     w \<in> set t \<and> sw_status w = WsActive \<and> sw_uid w = uid \<and> sw_signal w = sig
     \<and> (sw_process_id w = None \<or> sw_process_id w = Some pid) \<and> \<not> lapsed now w \<and> sw_target w \<noteq> []"
  by (auto simp: dispatchSignalWatches_def watch_match_def Let_def)



text \<open>What a registration does, to whom it is open and how long it lasts.\<close>

lemma watch_registration:
  assumes "watches_ok t" "handleSignalWatch now uuid procs ctx args t = (t', Inr (w, created))"
  shows "cx_processId ctx = Some (sw_target w) \<and> sw_uid w = resolveCallerOwnerUid procs ctx
    \<and> (\<exists>p r. sw_process_id w = Some p \<and> process_get procs p = Some r \<and> rc_ownerUid r = sw_uid w)
    \<and> (\<exists>e. sw_expires_at w = Some e \<and> now + 1000 \<le> e \<and> e \<le> now + MAX_SIGNAL_WATCH_TTL_MS)
    \<and> w \<in> set t' \<and> sw_status w = WsActive \<and> sw_once w = (wa_once args \<noteq> Some (JBool False))
    \<and> (\<forall>v. sw_watch_id v \<noteq> sw_watch_id w \<longrightarrow> (v \<in> set t' \<longleftrightarrow> v \<in> set t))"
proof -
  from handleSignalWatch_run [OF assms(2)] obtain inp where inp: "watch_input_of now procs ctx args = Inr inp"
    and up: "watch_upsert now uuid inp t = Inr (t', w, created)" by blast
  note i = input_of_ok [OF inp]
  from i have "input_ok inp" by blast
  from upsert_ok [OF assms(1) this up] i show ?thesis by auto
qed

lemma unwatch_needs_trimmed_key:
  assumes "watches_ok t" "handleSignalWatch now uuid procs ctx args t = (t', Inr (w, created))"
    and "wa_key args = Some (JStr k)" "js_trim k \<noteq> k" "js_trim k \<noteq> []"
  shows "w \<in> set (fst (handleSignalUnwatch procs ctx None (Some (JStr k)) t'))"
proof -
  from handleSignalWatch_run [OF assms(2)] obtain inp where inp: "watch_input_of now procs ctx args = Inr inp"
    and up: "watch_upsert now uuid inp t = Inr (t', w, created)" by blast
  have ok: "input_ok inp" using input_of_ok [OF inp] by blast
  have "wi_key inp = trimmed_text (wa_key args)" using input_of_ok [OF inp] by blast
  then have "wi_key inp = Some (js_trim k)" using assms(3,5) by (simp add: trimmed_text_def json_string_def)
  with upsert_ok [OF assms(1) ok up] have "w \<in> set t'" "sw_key w = Some (js_trim k)" by auto
  with assms(4) show ?thesis
    by (auto simp: handleSignalUnwatch_def watch_removeByKey_def has_key_def json_string_def Let_def
        split: sum.split)
qed

lemma upsert_existing:
  assumes ok: "watches_ok t" and w: "w \<in> set t" "sw_status w = WsActive"
    and k: "sw_key w = Some k" "k \<noteq> []"
    and inp: "wi_uid inp = sw_uid w" "wi_target inp = sw_target w" "wi_key inp = Some k"
  shows "\<exists>t' w'. watch_upsert now uuid inp t = Inr (t', w', False) \<and> sw_watch_id w' = sw_watch_id w"
proof -
  have "has_key (wi_uid inp) (wi_target inp) k w" using k inp by (simp add: has_key_def)
  then obtain e where e: "findActiveByKey (wi_uid inp) (wi_target inp) k t = Some e"
    using findActive_None [OF _ w(1)] w(2) by (cases "findActiveByKey (wi_uid inp) (wi_target inp) k t") auto
  note f = findActive_Some [OF e]
  have "same_key w e" using f w(2) k inp by (auto simp: same_key_def has_key_def)
  then have "e = w" using ok w(1) f(1) by (auto simp: watches_ok_def one_active_def)
  then show ?thesis using e inp(3) k(2) by (simp add: watch_upsert_def truthy_def Let_def)
qed

text \<open>
  A watch renewed while it is being served is lost: when the watcher of a one-time watch, called for a
  signal, registers the watch again under its key before the call returns, the registration succeeds and
  reports the renewed watch, and the end of the call deletes it, so the next signal finds no watch.
\<close>

theorem renewed_watch_is_lost:
  assumes "t = fold watch_event_step es []" "w \<in> set t" "sw_status w = WsActive" "sw_once w"
    and "sw_key w = Some k"
    and "watch_input_of now procs ctx args = Inr inp"
    and "wi_uid inp = sw_uid w" "wi_target inp = sw_target w" "wi_key inp = Some k"
  shows "\<exists>t' w'. handleSignalWatch now uuid procs ctx args t = (t', Inr (w', False)) \<and> w' \<in> set t'
    \<and> sw_status w' = WsActive
    \<and> (\<forall>later. let t'' = dispatch_watch w ([WoWatch now uuid procs ctx args], later, None) t in
         w' \<notin> set t'' \<and> (\<forall>v \<in> set t''. \<not> (has_key (sw_uid w) (sw_target w) k v \<and> sw_status v = WsActive)))"
proof -
  have ok: "watches_ok t" unfolding assms(1) by (rule reachable_watches_ok)
  have wok: "watch_ok w" using ok assms(2) by (simp add: watches_ok_def)
  then have k: "k \<noteq> []" and target: "sw_target w \<noteq> []" using assms(5) by (auto simp: watch_ok_def)
  from upsert_existing [OF ok assms(2,3,5) k assms(7-9)] obtain t' w' where
    up: "watch_upsert now uuid inp t = Inr (t', w', False)" and id: "sw_watch_id w' = sw_watch_id w" by blast
  have run: "handleSignalWatch now uuid procs ctx args t = (t', Inr (w', False))"
    by (simp add: handleSignalWatch_def assms(6) up)
  have iok: "input_ok inp" using input_of_ok [OF assms(6)] by blast
  note u = upsert_ok [OF ok iok up]
  have "has_key (sw_uid w) (sw_target w) k w'" using u assms(7-9) by (auto simp: has_key_def)
  then have gone: "v = w'" if "v \<in> set t'" "has_key (sw_uid w) (sw_target w) k v" "sw_status v = WsActive" for v
    using u that by (auto simp: watches_ok_def one_active_def same_key_def has_key_def)
  have "dispatch_watch w ([WoWatch now uuid procs ctx args], later, None) t = deleteHandled (sw_watch_id w) t'" for later
    using target assms(4) by (simp add: dispatch_watch_def watch_outcome_def run)
  moreover have "v \<notin> set (deleteHandled (sw_watch_id w) t') \<or> \<not> (has_key (sw_uid w) (sw_target w) k v \<and> sw_status v = WsActive)"
    for v using gone [of v] id by (auto simp: deleteHandled_def)
  moreover have "w' \<notin> set (deleteHandled (sw_watch_id w) t')" using id by (simp add: deleteHandled_def)
  ultimately show ?thesis
    unfolding Let_def using run u by (intro exI [of _ t'] exI [of _ w']) metis
qed


section \<open>Witnesses\<close>

definition demo_procs :: "process_row list" where
  "demo_procs = fold (\<lambda>pid. process_spawn 1 pid demo_person
       \<lparr>sp_parentPid = None, sp_ownerUid = None, sp_interactive = None, sp_label = None, sp_cwd = None\<rparr>)
     [''a'', ''b''] []"

definition demo_watcher :: call_ctx where
  "demo_watcher = \<lparr>cx_identity = ConnUser demo_person [], cx_processId = Some ''a'', cx_callerOwnerUid = None\<rparr>"

definition demo_watch_args :: watch_args where
  "demo_watch_args = \<lparr>wa_signal = Some (JStr ''proc.run.finished''), wa_processId = Some (JStr ''b''),
     wa_key = Some (JStr ''k''), wa_state = None, wa_once = None, wa_ttlMs = None\<rparr>"

definition demo_watch_table :: "signal_watch list" where
  "demo_watch_table = fold watch_event_step [WeOp (WoWatch 1 ''w1'' demo_procs demo_watcher demo_watch_args)] []"

definition demo_watch_row :: signal_watch where
  "demo_watch_row = \<lparr>sw_watch_id = ''w1'', sw_uid = 1000, sw_target = ''a'', sw_signal = ''proc.run.finished'',
     sw_process_id = Some ''b'', sw_key = Some ''k'', sw_state = JNull, sw_once = True, sw_status = WsActive,
     sw_error = None, sw_created_at = 1, sw_updated_at = 1, sw_expires_at = Some 86400001\<rparr>"

definition demo_watch_input :: watch_input where
  "demo_watch_input = \<lparr>wi_uid = 1000, wi_target = ''a'', wi_signal = ''proc.run.finished'', wi_processId = Some ''b'',
     wi_key = Some ''k'', wi_state = None, wi_once = True, wi_expiresAt = Some 86400006\<rparr>"

lemma demo_watch_table: "demo_watch_table = [demo_watch_row]"
  by code_simp


lemma renewed_watch_is_lost_witness:
  "snd (handleSignalWatch 6 ''w2'' demo_procs demo_watcher demo_watch_args demo_watch_table) \<noteq> Inl (Error [])
   \<and> filter (\<lambda>v. has_key 1000 ''a'' ''k'' v \<and> sw_status v = WsActive)
        (dispatch_watch demo_watch_row ([WoWatch 6 ''w2'' demo_procs demo_watcher demo_watch_args], 7, None)
          demo_watch_table) = []"
proof -
  have row: "demo_watch_row \<in> set demo_watch_table" by (simp add: demo_watch_table)
  have inp: "watch_input_of 6 demo_procs demo_watcher demo_watch_args = Inr demo_watch_input" by code_simp
  have f: "sw_status demo_watch_row = WsActive" "sw_once demo_watch_row" "sw_key demo_watch_row = Some ''k''"
    "sw_uid demo_watch_row = 1000" "sw_target demo_watch_row = ''a''" by (simp_all add: demo_watch_row_def)
  have i: "wi_uid demo_watch_input = sw_uid demo_watch_row" "wi_target demo_watch_input = sw_target demo_watch_row"
    "wi_key demo_watch_input = Some ''k''" by (simp_all add: demo_watch_input_def demo_watch_row_def)
  from renewed_watch_is_lost [OF demo_watch_table_def row f(1,2,3) inp i]
  show ?thesis unfolding Let_def f filter_empty_conv by (metis Inl_Inr_False snd_conv)
qed

end
