(* ===== verification/RunRoutes.thy ===== *)
theory RunRoutes
  imports Destinations
begin

text \<open>
  Where the answer of a run goes: the table of reply routes of \<open>kernel/run-routes.ts\<close>, one row per run,
  for a client connection or an adapter chat. A row keeps its nullable columns; reading turns it into a
  route.
\<close>

definition RUN_ROUTE_TTL_MS :: int where "RUN_ROUTE_TTL_MS = 30 * 24 * 60 * 60 * 1000"

datatype run_route =
    ConnectionRoute (rt_runId: string) (rt_processId: string) (rt_uid: int) string int int
  | AdapterRoute (rt_runId: string) (rt_processId: string) (rt_uid: int) destination "string option" int int

record run_route_row =
  rr_run_id :: string
  rr_route_kind :: string
  rr_process_id :: "string option"
  rr_uid :: int
  rr_connection_id :: "string option"
  rr_adapter :: "string option"
  rr_account_id :: "string option"
  rr_actor_id :: "string option"
  rr_surface_kind :: "string option"
  rr_surface_id :: "string option"
  rr_thread_id :: "string option"
  rr_reply_to_id :: "string option"
  rr_created_at :: int
  rr_expires_at :: int

definition connection_row :: "int \<Rightarrow> int \<Rightarrow> string \<Rightarrow> string \<Rightarrow> int \<Rightarrow> string \<Rightarrow> run_route_row" where
  "connection_row now ttlMs runId processId uid connectionId =
     \<lparr>rr_run_id = runId, rr_route_kind = ''connection'', rr_process_id = Some processId, rr_uid = uid,
      rr_connection_id = Some connectionId, rr_adapter = None, rr_account_id = None, rr_actor_id = None,
      rr_surface_kind = None, rr_surface_id = None, rr_thread_id = None, rr_reply_to_id = None,
      rr_created_at = now, rr_expires_at = now + ttlMs\<rparr>"

definition setConnectionRoute :: "int \<Rightarrow> int \<Rightarrow> string \<Rightarrow> string \<Rightarrow> int \<Rightarrow> string
    \<Rightarrow> run_route_row list \<Rightarrow> run_route_row list \<times> run_route" where
  "setConnectionRoute now ttlMs runId processId uid connectionId t =
     (sql_replace rr_run_id (connection_row now ttlMs runId processId uid connectionId) t,
      ConnectionRoute runId processId uid connectionId now (now + ttlMs))"

definition adapter_row :: "int \<Rightarrow> int \<Rightarrow> string \<Rightarrow> string \<Rightarrow> int \<Rightarrow> destination \<Rightarrow> string option \<Rightarrow> run_route_row" where
  "adapter_row now ttlMs runId processId uid d replyToId =
     \<lparr>rr_run_id = runId, rr_route_kind = ''adapter'', rr_process_id = Some processId, rr_uid = uid,
      rr_connection_id = None, rr_adapter = Some (ds_adapter d), rr_account_id = Some (ds_accountId d),
      rr_actor_id = Some (ds_actorId d), rr_surface_kind = Some (fc_kind (ds_surface d)),
      rr_surface_id = Some (fc_id (ds_surface d)), rr_thread_id = fc_threadId (ds_surface d),
      rr_reply_to_id = replyToId, rr_created_at = now, rr_expires_at = now + ttlMs\<rparr>"

definition setAdapterRoute :: "int \<Rightarrow> int \<Rightarrow> string \<Rightarrow> string \<Rightarrow> int \<Rightarrow> destination \<Rightarrow> string option
    \<Rightarrow> run_route_row list \<Rightarrow> run_route_row list \<times> run_route" where
  "setAdapterRoute now ttlMs runId processId uid d replyToId t =
     (sql_replace rr_run_id (adapter_row now ttlMs runId processId uid d replyToId) t,
      AdapterRoute runId processId uid d replyToId now (now + ttlMs))"

definition toRoute :: "run_route_row \<Rightarrow> run_route" where
  "toRoute r =
     (if rr_route_kind r = ''adapter''
      then AdapterRoute (rr_run_id r) (coalesce (rr_process_id r) []) (rr_uid r)
             \<lparr>ds_adapter = coalesce (rr_adapter r) [], ds_accountId = coalesce (rr_account_id r) [],
              ds_actorId = coalesce (rr_actor_id r) [],
              ds_surface = \<lparr>fc_kind = coalesce (rr_surface_kind r) ''dm'', fc_id = coalesce (rr_surface_id r) [],
                            fc_threadId = rr_thread_id r\<rparr>\<rparr>
             (rr_reply_to_id r) (rr_created_at r) (rr_expires_at r)
      else ConnectionRoute (rr_run_id r) (coalesce (rr_process_id r) []) (rr_uid r)
             (coalesce (rr_connection_id r) []) (rr_created_at r) (rr_expires_at r))"

definition routes_pruneExpired :: "int \<Rightarrow> run_route_row list \<Rightarrow> run_route_row list \<times> nat" where
  "routes_pruneExpired now t =
     (let P = (\<lambda>r. rr_expires_at r \<le> now); n = sql_count P t
      in (if n > 0 then sql_delete P t else t, n))"

definition run_route_get :: "int \<Rightarrow> string \<Rightarrow> run_route_row list \<Rightarrow> run_route_row list \<times> run_route option" where
  "run_route_get now runId t =
     (let t' = fst (routes_pruneExpired now t)
      in (t', map_option toRoute (sql_lookup rr_run_id t' runId)))"

definition run_route_delete :: "string \<Rightarrow> run_route_row list \<Rightarrow> run_route_row list" where
  "run_route_delete runId = sql_delete (\<lambda>r. rr_run_id r = runId)"

definition clearForConnection :: "string \<Rightarrow> run_route_row list \<Rightarrow> run_route_row list" where
  "clearForConnection connectionId =
     sql_delete (\<lambda>r. rr_route_kind r = ''connection'' \<and> rr_connection_id r = Some connectionId)"

definition clearForProcess :: "string \<Rightarrow> run_route_row list \<Rightarrow> run_route_row list" where
  "clearForProcess processId = sql_delete (\<lambda>r. rr_process_id r = Some processId)"

section \<open>Reads after writes\<close>

lemma pruned_rows: "fst (routes_pruneExpired now t) = sql_delete (\<lambda>r. rr_expires_at r \<le> now) t"
  by (auto simp: routes_pruneExpired_def Let_def sql_count_def sql_delete_def filter_empty_conv
      intro!: filter_True [symmetric])

lemma run_route_get_iff:
  assumes "keyed rr_run_id t"
  shows "snd (run_route_get now runId t) = Some rt \<longleftrightarrow>
    (\<exists>r \<in> set t. rr_run_id r = runId \<and> now < rr_expires_at r \<and> rt = toRoute r)"
  using lookup_iff [OF keyed_delete [OF assms], of "\<lambda>r. rr_expires_at r \<le> now" runId]
  by (auto simp: run_route_get_def pruned_rows Let_def)

lemma toRoute_connection_row [simp]:
  "toRoute (connection_row now ttl runId pid uid c) = ConnectionRoute runId pid uid c now (now + ttl)"
  by (simp add: toRoute_def connection_row_def)

lemma toRoute_adapter_row [simp]:
  "toRoute (adapter_row now ttl runId pid uid d reply) = AdapterRoute runId pid uid d reply now (now + ttl)"
  by (simp add: toRoute_def adapter_row_def)

lemma keyed_get [simp]: "keyed rr_run_id t \<Longrightarrow> keyed rr_run_id (fst (run_route_get now i t))"
  by (simp add: run_route_get_def pruned_rows Let_def)

text \<open>Between a write and its expiry a run's route is what was last written for it, until it is removed.\<close>

datatype route_event =
    RrConnection int string string int string
  | RrAdapter int string string int destination "string option"
  | RrGet int string
  | RrDelete string
  | RrClearConnection string
  | RrClearProcess string

fun run_route_step :: "route_event \<Rightarrow> run_route_row list \<Rightarrow> run_route_row list" where
  "run_route_step (RrConnection now i pid uid c) t = fst (setConnectionRoute now RUN_ROUTE_TTL_MS i pid uid c t)"
| "run_route_step (RrAdapter now i pid uid d reply) t = fst (setAdapterRoute now RUN_ROUTE_TTL_MS i pid uid d reply t)"
| "run_route_step (RrGet now i) t = fst (run_route_get now i t)"
| "run_route_step (RrDelete i) t = run_route_delete i t"
| "run_route_step (RrClearConnection c) t = clearForConnection c t"
| "run_route_step (RrClearProcess pid) t = clearForProcess pid t"

lemma routes_keyed: "keyed rr_run_id t \<Longrightarrow> keyed rr_run_id (fold run_route_step es t)"
proof (induction es arbitrary: t)
  case (Cons e es)
  then have "keyed rr_run_id (run_route_step e t)"
    by (cases e) (simp_all add: setConnectionRoute_def setAdapterRoute_def run_route_delete_def
        clearForConnection_def clearForProcess_def)
  with Cons.IH show ?case by simp
qed simp

text \<open>What leaves the route \<open>r\<close> of a run in the table.\<close>

fun keeps_route :: "run_route_row \<Rightarrow> route_event \<Rightarrow> bool" where
  "keeps_route r (RrConnection now i pid uid c) \<longleftrightarrow> i \<noteq> rr_run_id r"
| "keeps_route r (RrAdapter now i pid uid d reply) \<longleftrightarrow> i \<noteq> rr_run_id r"
| "keeps_route r (RrGet now i) \<longleftrightarrow> now < rr_expires_at r"
| "keeps_route r (RrDelete i) \<longleftrightarrow> i \<noteq> rr_run_id r"
| "keeps_route r (RrClearConnection c) \<longleftrightarrow> \<not> (rr_route_kind r = ''connection'' \<and> rr_connection_id r = Some c)"
| "keeps_route r (RrClearProcess pid) \<longleftrightarrow> rr_process_id r \<noteq> Some pid"

lemma route_kept: "r \<in> set t \<Longrightarrow> keeps_route r e \<Longrightarrow> r \<in> set (run_route_step e t)"
  by (cases e) (auto simp: setConnectionRoute_def setAdapterRoute_def run_route_get_def pruned_rows Let_def
      run_route_delete_def clearForConnection_def clearForProcess_def in_replace connection_row_def adapter_row_def)

lemma routes_kept: "r \<in> set t \<Longrightarrow> list_all (keeps_route r) es \<Longrightarrow> r \<in> set (fold run_route_step es t)"
  by (induction es arbitrary: t) (auto simp: route_kept)

lemma route_found:
  assumes "keyed rr_run_id t" "r \<in> set (run_route_step e t)" "list_all (keeps_route r) es" "now < rr_expires_at r"
  shows "snd (run_route_get now (rr_run_id r) (fold run_route_step (e # es) t)) = Some (toRoute r)"
proof -
  have "r \<in> set (fold run_route_step (e # es) t)" using routes_kept [OF assms(2,3)] by simp
  then show ?thesis using routes_keyed [OF assms(1), of "e # es"] assms(4) by (simp add: run_route_get_iff) blast
qed

end
