(* ===== verification/AdapterSend.thy ===== *)
theory AdapterSend
  imports RunRoutes Routing
begin

text \<open>
  Sending to a chat: \<open>adapter.send\<close> and the delivery of a run's answer, the part of
  \<open>kernel/adapter-handlers.ts\<close> between the caller and the adapter service.

  The adapter service is an argument: \<open>None\<close> when the deployment has no binding with an \<open>adapterSend\<close>
  for the adapter, otherwise what a call answers, where \<open>None\<close> means that it threw. Further arguments:
  \<open>new_id\<close> is \<open>randomUUID\<close>, \<open>url_protocol\<close> the protocol \<open>new URL\<close> reads (\<open>None\<close> when it throws),
  \<open>body_error\<close> the error of \<open>validateAdapterMediaBody\<close>, and \<open>aborted\<close> that of a cancelled request.
\<close>

section \<open>Answers of an adapter service\<close>

datatype worker_result =
    WorkerOk "string option" bool
  | WorkerFailed bool bool

text \<open>The answer is a JSON value; one that fails the check is refused (\<open>None\<close>).\<close>

definition isAdapterWorkerSendResult :: "json \<Rightarrow> worker_result option" where
  "isAdapterWorkerSendResult v =
     (let f = json_get v;
          opt_bool = (\<lambda>k. case f k of None \<Rightarrow> Some False | Some (JBool b) \<Rightarrow> Some b | _ \<Rightarrow> None)
      in case f ''ok'' of
           Some (JBool True) \<Rightarrow>
             (case (f ''messageId'', opt_bool ''deduplicated'') of
                (None, Some b) \<Rightarrow> Some (WorkerOk None b)
              | (Some (JStr i), Some b) \<Rightarrow> Some (WorkerOk (Some i) b)
              | _ \<Rightarrow> None)
         | Some (JBool False) \<Rightarrow>
             (case (f ''error'', opt_bool ''retryable'', opt_bool ''ambiguous'') of
                (Some (JStr e), Some r, Some a) \<Rightarrow>
                  if js_trim e = [] \<or> (r \<and> a) then None else Some (WorkerFailed r a)
              | _ \<Rightarrow> None)
         | _ \<Rightarrow> None)"

datatype delivery_state = DsSent | DsDeduplicated | DsAmbiguous

datatype send_result =
    SendOk string string string string "string option" delivery_state
  | SendError string "string option" bool

record outbound_message =
  om_deliveryId :: string
  om_surface :: adapter_surface
  om_actorId :: "string option"
  om_text :: string
  om_media :: "json option"
  om_replyToId :: "string option"

type_synonym adapter_service = "(string \<Rightarrow> outbound_message \<Rightarrow> json option) option"

record send_env =
  se_services :: "string \<Rightarrow> adapter_service"
  se_new_id :: string
  se_url_protocol :: "json \<Rightarrow> string option"
  se_body_error :: "json option \<Rightarrow> string option"
  se_aborted :: "string option"

section \<open>Media\<close>

definition MAX_MESSAGE_MEDIA_ITEMS :: nat where "MAX_MESSAGE_MEDIA_ITEMS = 20"

definition js_length :: "json \<Rightarrow> json option" where
  "js_length v =
     (case v of JObj _ \<Rightarrow> json_get v ''length''
      | JStr s \<Rightarrow> Some (JNum (IntNum (int (length s))))
      | JArr xs \<Rightarrow> Some (JNum (IntNum (int (length xs)))) | _ \<Rightarrow> None)"

definition natural_number :: "json \<Rightarrow> bool" where
  "natural_number v = (case v of JNum n \<Rightarrow> js_safe_integer n \<and> (case n of IntNum i \<Rightarrow> 0 \<le> i | _ \<Rightarrow> False) | _ \<Rightarrow> False)"

definition nonnegative_number :: "json \<Rightarrow> bool" where
  "nonnegative_number v = (case v of JNum (IntNum i) \<Rightarrow> 0 \<le> i | JNum (FracNum i) \<Rightarrow> 0 \<le> i | _ \<Rightarrow> False)"

definition check_media_item :: "(json \<Rightarrow> string option) \<Rightarrow> bool \<Rightarrow> json \<Rightarrow> unit result" where
  "check_media_item url_protocol inbound item =
     (let f = json_get item; body = f ''body''; url = f ''url'' in
      if json_string (f ''type'') \<notin> {Some ''image'', Some ''audio'', Some ''video'', Some ''document''}
      then throw ''Adapter media has an invalid type''
      else if js_trim (coalesce (json_string (f ''mimeType'')) []) = [] then throw ''Adapter media requires mimeType''
      else if \<not> (case f ''size'' of None \<Rightarrow> True | Some n \<Rightarrow> natural_number n)
      then throw ''Adapter media size must be a non-negative safe integer''
      else if \<not> (case f ''duration'' of None \<Rightarrow> True | Some n \<Rightarrow> nonnegative_number n)
      then throw ''Adapter media duration must be a non-negative number''
      else if json_truthy body \<and> f ''size'' \<noteq> None \<and> f ''size'' \<noteq> js_length (the body)
      then throw ''Adapter media size must match its binary body length''
      else if inbound \<and> \<not> json_truthy body then throw ''Inbound adapter media must include a binary body''
      else if \<not> inbound \<and> \<not> json_truthy body \<and>
              (case url of Some (JStr s) \<Rightarrow> js_trim s = [] | Some JNull \<Rightarrow> True | None \<Rightarrow> True | _ \<Rightarrow> False)
      then throw ''Outbound adapter media must include a URL or binary body''
      else if \<not> inbound \<and> \<not> json_truthy body \<and> json_string url = None then throw ''TypeError''
      else if \<not> json_truthy url then Inr ()
      else case url_protocol (the url) of
             None \<Rightarrow> throw ''Adapter media URL is invalid''
           | Some p \<Rightarrow> if p \<noteq> ''https:'' \<and> p \<noteq> ''http:'' then throw ''Adapter media URL must use HTTP or HTTPS''
                       else Inr ())"

definition validateAdapterMediaItems :: "(json \<Rightarrow> string option) \<Rightarrow> bool \<Rightarrow> json option \<Rightarrow> unit result" where
  "validateAdapterMediaItems url_protocol inbound media =
     (case media of
        None \<Rightarrow> Inr ()
      | Some (JArr items) \<Rightarrow>
          if length items > MAX_MESSAGE_MEDIA_ITEMS then throw ''Adapter media exceeds item limit (20)''
          else map_sum id (\<lambda>_. ()) (map_result (check_media_item url_protocol inbound) items)
      | _ \<Rightarrow> throw ''Adapter media must be an array'')"

section \<open>Delivery\<close>

definition delivery_id_char :: "char \<Rightarrow> bool" where
  "delivery_id_char c \<longleftrightarrow> (let n = of_char c :: nat in
     (48 \<le> n \<and> n \<le> 57) \<or> (65 \<le> n \<and> n \<le> 90) \<or> (97 \<le> n \<and> n \<le> 122)) \<or> c \<in> set ''._:-''"

definition js_capital :: "string \<Rightarrow> string" where
  "js_capital s = (case s of [] \<Rightarrow> [] | c # cs \<Rightarrow> js_upper [c] @ cs)"

definition publicAdapterDeliveryError :: "string \<Rightarrow> bool \<Rightarrow> string" where
  "publicAdapterDeliveryError adapter retryable =
     (let name = (if adapter = ''whatsapp'' then ''WhatsApp'' else js_capital adapter)
      in if retryable then name @ '' delivery is temporarily unavailable'' else name @ '' rejected the delivery'')"

record delivery =
  dl_adapter :: string
  dl_accountId :: string
  dl_deliveryId :: "json option"
  dl_surface :: adapter_surface
  dl_actorId :: "string option"
  dl_text :: string
  dl_media :: "json option"
  dl_replyToId :: "string option"

text \<open>Returns the result and the messages handed to the adapter service.\<close>

definition deliverAdapterMessage :: "send_env \<Rightarrow> delivery \<Rightarrow> send_result \<times> (string \<times> string \<times> outbound_message) list" where
  "deliverAdapterMessage env args =
     (let adapter = js_lower (js_trim (dl_adapter args));
          accountId = js_trim (dl_accountId args);
          given = js_trim (coalesce (json_string (dl_deliveryId args)) []);
          deliveryId = (if given = [] then se_new_id env else given)
      in if dl_deliveryId args \<noteq> None \<and> json_string (dl_deliveryId args) = None
         then (SendError ''Adapter deliveryId is invalid'' None False, [])
         else if length deliveryId > 200 \<or> deliveryId = [] \<or> \<not> list_all delivery_id_char deliveryId
         then (SendError ''Adapter deliveryId is invalid'' None False, [])
         else case se_services env adapter of
           None \<Rightarrow> (SendError (''Adapter service unavailable: '' @ adapter) (Some deliveryId) True, [])
         | Some service \<Rightarrow>
             (case bind_result (case se_body_error env (dl_media args) of Some e \<Rightarrow> throw e | None \<Rightarrow> Inr ()) (\<lambda>_.
                   bind_result (validateAdapterMediaItems (se_url_protocol env) False (dl_media args)) (\<lambda>_.
                   case se_aborted env of Some e \<Rightarrow> throw e | None \<Rightarrow> Inr ())) of
                Inl e \<Rightarrow> (SendError (error_message e) (Some deliveryId) False, [])
              | Inr _ \<Rightarrow>
                 (let outbound = \<lparr>om_deliveryId = deliveryId, om_surface = dl_surface args,
                        om_actorId = (if truthy (dl_actorId args) then dl_actorId args else None),
                        om_text = dl_text args, om_media = dl_media args, om_replyToId = dl_replyToId args\<rparr>;
                      sent = [(adapter, accountId, outbound)]
                  in case service accountId outbound of
                       None \<Rightarrow> (SendError (publicAdapterDeliveryError adapter True) (Some deliveryId) True, sent)
                     | Some v \<Rightarrow>
                         (case isAdapterWorkerSendResult v of
                            None \<Rightarrow> (SendError (''Adapter returned an invalid send response: '' @ adapter)
                                      (Some deliveryId) False, sent)
                          | Some (WorkerFailed r a) \<Rightarrow>
                              if a then (SendOk adapter accountId (fc_id (dl_surface args)) deliveryId None DsAmbiguous, sent)
                              else (SendError (publicAdapterDeliveryError adapter r) (Some deliveryId) r, sent)
                          | Some (WorkerOk messageId dedup) \<Rightarrow>
                              (SendOk adapter accountId (fc_id (dl_surface args)) deliveryId messageId
                                 (if dedup then DsDeduplicated else DsSent), sent)))))"

section \<open>Who may send\<close>

definition isCurrentAutomaticReplyDestination ::
  "int \<Rightarrow> call_ctx \<Rightarrow> string option \<Rightarrow> string \<Rightarrow> string \<Rightarrow> adapter_surface \<Rightarrow> run_route_row list \<Rightarrow> run_route_row list \<times> bool" where
  "isCurrentAutomaticReplyDestination now ctx processRunId adapter accountId f t =
     (if \<not> truthy (cx_processId ctx) \<or> \<not> truthy processRunId then (t, False)
      else case run_route_get now (the processRunId) t of
        (t', Some (AdapterRoute i pid uid d reply c e)) \<Rightarrow>
          (t', Some pid = cx_processId ctx \<and> ds_adapter d = adapter \<and> ds_accountId d = accountId
               \<and> fc_kind (ds_surface d) = fc_kind f \<and> fc_id (ds_surface d) = js_trim (fc_id f)
               \<and> coalesce (fc_threadId (ds_surface d)) [] = js_trim (coalesce (fc_threadId f) []))
      | (t', _) \<Rightarrow> (t', False))"

definition callerOwnsAdapterSurfaceRoute ::
  "adapter_db \<Rightarrow> string \<Rightarrow> string \<Rightarrow> adapter_surface \<Rightarrow> int \<Rightarrow> identity_link list \<Rightarrow> bool" where
  "callerOwnsAdapterSurfaceRoute db adapter accountId f ownerUid ls \<longleftrightarrow>
     list_ex (\<lambda>l. map_option su_uid (surface_get (ab_routes db)
        \<lparr>sf_adapter = adapter, sf_accountId = accountId, sf_actorId = il_actorId l, sf_surfaceKind = fc_kind f,
         sf_surfaceId = js_trim (fc_id f), sf_threadId = fc_threadId f\<rparr>) = Some ownerUid) ls"

definition canSendToAdapterSurface ::
  "adapter_db \<Rightarrow> process_row list \<Rightarrow> call_ctx \<Rightarrow> string \<Rightarrow> string \<Rightarrow> adapter_surface \<Rightarrow> bool" where
  "canSendToAdapterSurface db procs ctx adapter accountId f =
     (case cx_identity ctx of
        ConnService p caps chan \<Rightarrow> True
      | ConnDriver p caps dev impl \<Rightarrow> False
      | ConnUser p caps \<Rightarrow>
          if pi_uid p = 0 then True
          else let ownerUid = resolveCallerOwnerUid procs ctx;
                   ls = filter (\<lambda>l. js_lower (js_trim (il_adapter l)) = adapter \<and> js_trim (il_accountId l) = accountId)
                          (links_list (ab_links db) (Some ownerUid))
               in ls \<noteq> [] \<and> (list_ex (\<lambda>l. identityLinkAllowsSurface l f) ls
                              \<or> callerOwnsAdapterSurfaceRoute db adapter accountId f ownerUid ls))"

record send_args =
  sa_adapter :: "json option"
  sa_accountId :: "json option"
  sa_deliveryId :: "json option"
  sa_surface :: "json option"
  sa_actorId :: "json option"
  sa_text :: "json option"
  sa_media :: "json option"
  sa_replyToId :: "json option"
  sa_also :: "json option"

text \<open>
  The arguments are spread into the delivery, so a property \<open>actorId\<close> of them, though not part of the
  call's type, reaches the adapter.
\<close>

definition handleAdapterSend :: "int \<Rightarrow> send_env \<Rightarrow> adapter_db \<Rightarrow> process_row list \<Rightarrow> call_ctx \<Rightarrow> string option
    \<Rightarrow> send_args \<Rightarrow> run_route_row list \<Rightarrow> run_route_row list \<times> send_result \<times> (string \<times> string \<times> outbound_message) list" where
  "handleAdapterSend now env db procs ctx processRunId args t =
     (let refuse = (\<lambda>t e. (t, SendError e None False, []));
          adapter = js_lower (js_trim (coalesce (json_string (sa_adapter args)) []));
          accountId = js_trim (coalesce (json_string (sa_accountId args)) [])
      in if adapter = [] then refuse t ''adapter is required''
         else if accountId = [] then refuse t ''accountId is required''
         else case normalizeAdapterSurface (sa_surface args) of
           Inl e \<Rightarrow> refuse t (error_message e)
         | Inr f \<Rightarrow>
             (case json_string (sa_text args) of
                None \<Rightarrow> refuse t ''text must be a string''
              | Some content \<Rightarrow>
                  if sa_replyToId args \<noteq> None \<and> json_string (sa_replyToId args) = None
                  then refuse t ''replyToId must be a string''
                  else if sa_also args \<notin> {None, Some (JBool True), Some (JBool False)}
                  then refuse t ''also must be a boolean''
                  else
                    (let (t', current) = (if sa_also args = Some (JBool True) then (t, False)
                            else isCurrentAutomaticReplyDestination now ctx processRunId adapter accountId f t)
                     in if current
                        then refuse t' (''This target is the current run's automatic reply destination. '' @
                                ''Return the text normally, or use --also to intentionally send an additional message.'')
                        else if \<not> canSendToAdapterSurface db procs ctx adapter accountId f
                        then refuse t' ''Permission denied''
                        else (t', deliverAdapterMessage env
                               \<lparr>dl_adapter = adapter, dl_accountId = accountId, dl_deliveryId = sa_deliveryId args,
                                dl_surface = f, dl_actorId = json_string (sa_actorId args), dl_text = content,
                                dl_media = sa_media args,
                                dl_replyToId = (let r = js_trim (coalesce (json_string (sa_replyToId args)) [])
                                                in if r = [] then None else Some r)\<rparr>))))"

section \<open>Replies\<close>

record reply_message =
  rm_deliveryId :: string
  rm_text :: string
  rm_media :: "json option"
  rm_replyToId :: "string option"

definition deliverAdapterReply :: "send_env \<Rightarrow> adapter_db \<Rightarrow> destination \<Rightarrow> int \<Rightarrow> reply_message
    \<Rightarrow> send_result \<times> (string \<times> string \<times> outbound_message) list" where
  "deliverAdapterReply env db d ownerUid m =
     (case bind_result (normalizeAdapterMessageDestination (Some (destination_json d))) (\<lambda>n.
           bind_result (assertAdapterMessageDestinationAccess n ownerUid db) (\<lambda>_. Inr n)) of
        Inl e \<Rightarrow> (SendError (error_message e) None False, [])
      | Inr n \<Rightarrow> deliverAdapterMessage env
          \<lparr>dl_adapter = ds_adapter n, dl_accountId = ds_accountId n, dl_deliveryId = Some (JStr (rm_deliveryId m)),
           dl_surface = ds_surface n, dl_actorId = Some (ds_actorId n), dl_text = rm_text m,
           dl_media = rm_media m, dl_replyToId = rm_replyToId m\<rparr>)"


section \<open>What a send does\<close>

definition valid_delivery_id :: "string \<Rightarrow> bool" where
  "valid_delivery_id i \<longleftrightarrow> i \<noteq> [] \<and> length i \<le> 200 \<and> list_all delivery_id_char i"

lemma deliverAdapterMessage_sent:
  assumes "deliverAdapterMessage env args = (res, sent)" "sent \<noteq> []"
  shows "\<exists>service m. sent = [(js_lower (js_trim (dl_adapter args)), js_trim (dl_accountId args), m)]
    \<and> se_services env (js_lower (js_trim (dl_adapter args))) = Some service
    \<and> valid_delivery_id (om_deliveryId m) \<and> om_surface m = dl_surface args \<and> om_text m = dl_text args
    \<and> (\<forall>e i. res = SendError e i True \<longrightarrow> (case service (js_trim (dl_accountId args)) m of
          None \<Rightarrow> True | Some v \<Rightarrow> isAdapterWorkerSendResult v = Some (WorkerFailed True False)))
    \<and> (\<forall>a acc s i mid st. res = SendOk a acc s i mid st \<longrightarrow> i = om_deliveryId m
         \<and> (\<exists>v. service (js_trim (dl_accountId args)) m = Some v
            \<and> (if st = DsAmbiguous then (\<exists>r. isAdapterWorkerSendResult v = Some (WorkerFailed r True))
               else isAdapterWorkerSendResult v = Some (WorkerOk mid (st = DsDeduplicated)))))"
proof -
  let ?ad = "js_lower (js_trim (dl_adapter args))" and ?acc = "js_trim (dl_accountId args)"
  let ?given = "js_trim (coalesce (json_string (dl_deliveryId args)) [])"
  let ?i = "if ?given = [] then se_new_id env else ?given"
  let ?m = "\<lparr>om_deliveryId = ?i, om_surface = dl_surface args,
      om_actorId = (if truthy (dl_actorId args) then dl_actorId args else None),
      om_text = dl_text args, om_media = dl_media args, om_replyToId = dl_replyToId args\<rparr>"
  note run = assms(1) [unfolded deliverAdapterMessage_def Let_def]
  have id: "\<not> (dl_deliveryId args \<noteq> None \<and> json_string (dl_deliveryId args) = None)"
    using run assms(2) by (auto split: if_splits)
  have valid: "\<not> (length ?i > 200 \<or> ?i = [] \<or> \<not> list_all delivery_id_char ?i)"
    using run assms(2) id by (auto split: if_splits)
  obtain service where sv: "se_services env ?ad = Some service"
    using run assms(2) id valid by (cases "se_services env ?ad") auto
  let ?chk = "bind_result (case se_body_error env (dl_media args) of Some e \<Rightarrow> throw e | None \<Rightarrow> Inr ()) (\<lambda>_.
      bind_result (validateAdapterMediaItems (se_url_protocol env) False (dl_media args)) (\<lambda>_.
      case se_aborted env of Some e \<Rightarrow> throw e | None \<Rightarrow> Inr ()))"
  obtain u where chk: "?chk = Inr u"
    using run assms(2) id valid sv by (cases ?chk) auto
  note rest = run [unfolded if_not_P [OF id] if_not_P [OF valid] sv option.case chk sum.case]
  have sent: "sent = [(?ad, ?acc, ?m)]"
    using rest by (auto split: option.splits worker_result.splits if_splits)
  have vid: "valid_delivery_id ?i" using valid by (simp add: valid_delivery_id_def)
  show ?thesis
  proof (intro exI [of _ service] exI [of _ ?m] conjI)
    show "sent = [(?ad, ?acc, ?m)]" by (rule sent)
    show "se_services env ?ad = Some service" by (rule sv)
    show "valid_delivery_id (om_deliveryId ?m)" using vid by simp
    show "\<forall>e i. res = SendError e i True \<longrightarrow> (case service ?acc ?m of
          None \<Rightarrow> True | Some v \<Rightarrow> isAdapterWorkerSendResult v = Some (WorkerFailed True False))"
      using rest by (auto split: option.splits worker_result.splits if_splits)
    show "\<forall>a acc s i mid st. res = SendOk a acc s i mid st \<longrightarrow> i = om_deliveryId ?m
         \<and> (\<exists>v. service ?acc ?m = Some v
            \<and> (if st = DsAmbiguous then (\<exists>r. isAdapterWorkerSendResult v = Some (WorkerFailed r True))
               else isAdapterWorkerSendResult v = Some (WorkerOk mid (st = DsDeduplicated))))"
      using rest by (auto split: option.splits worker_result.splits if_splits)
  qed simp_all
qed


lemma deliverAdapterMessage_once: "length (snd (deliverAdapterMessage env args)) \<le> 1"
proof (cases "snd (deliverAdapterMessage env args) = []")
  case False
  from deliverAdapterMessage_sent [OF prod.collapse [symmetric] False] show ?thesis by auto
qed simp

lemma deliverAdapterMessage_unsent:
  assumes "deliverAdapterMessage env args = (res, [])"
  shows "\<exists>e i r. res = SendError e i r \<and> (r \<longrightarrow> se_services env (js_lower (js_trim (dl_adapter args))) = None)"
  using assms unfolding deliverAdapterMessage_def Let_def
  by (auto split: if_splits option.splits sum.splits worker_result.splits)

definition allowed_chat :: "adapter_db \<Rightarrow> int \<Rightarrow> string \<Rightarrow> string \<Rightarrow> adapter_surface \<Rightarrow> bool" where
  "allowed_chat db ownerUid adapter accountId f \<longleftrightarrow>
     (\<exists>l \<in> set (ab_links db). il_uid l = ownerUid \<and> js_lower (js_trim (il_adapter l)) = adapter
        \<and> js_trim (il_accountId l) = accountId
        \<and> (identityLinkAllowsSurface l f
           \<or> map_option su_uid (surface_get (ab_routes db)
               \<lparr>sf_adapter = adapter, sf_accountId = accountId, sf_actorId = il_actorId l, sf_surfaceKind = fc_kind f,
                sf_surfaceId = js_trim (fc_id f), sf_threadId = fc_threadId f\<rparr>) = Some ownerUid))"

lemma links_list_owner: "l \<in> set (links_list t (Some u)) \<longleftrightarrow> l \<in> set t \<and> il_uid l = u"
  by (auto simp: links_list_def)

lemma canSend_iff:
  "canSendToAdapterSurface db procs ctx adapter accountId f \<longleftrightarrow>
     (case cx_identity ctx of
        ConnService p caps chan \<Rightarrow> True
      | ConnDriver p caps dev impl \<Rightarrow> False
      | ConnUser p caps \<Rightarrow> pi_uid p = 0 \<or> allowed_chat db (resolveCallerOwnerUid procs ctx) adapter accountId f)"
  by (auto simp: canSendToAdapterSurface_def allowed_chat_def callerOwnsAdapterSurfaceRoute_def Let_def
      list_ex_iff links_list_owner filter_empty_conv split: connection_identity.split)

lemma handleAdapterSend_sent:
  assumes "handleAdapterSend now env db procs ctx runId args t = (t', res, sent)" "sent \<noteq> []"
  shows "\<exists>adapter accountId f content. adapter \<noteq> [] \<and> accountId \<noteq> []
    \<and> adapter = js_lower (js_trim (coalesce (json_string (sa_adapter args)) []))
    \<and> accountId = js_trim (coalesce (json_string (sa_accountId args)) [])
    \<and> normalizeAdapterSurface (sa_surface args) = Inr f \<and> json_string (sa_text args) = Some content
    \<and> (sa_also args \<noteq> Some (JBool True) \<longrightarrow>
         \<not> snd (isCurrentAutomaticReplyDestination now ctx runId adapter accountId f t))
    \<and> canSendToAdapterSurface db procs ctx adapter accountId f
    \<and> (\<exists>d. dl_adapter d = adapter \<and> dl_accountId d = accountId \<and> dl_surface d = f \<and> dl_text d = content
         \<and> deliverAdapterMessage env d = (res, sent))"
proof -
  note run = assms(1) [unfolded handleAdapterSend_def Let_def]
  obtain f where f: "normalizeAdapterSurface (sa_surface args) = Inr f"
    using run assms(2) by (cases "normalizeAdapterSurface (sa_surface args)") (auto split: if_splits)
  obtain content where c: "json_string (sa_text args) = Some content"
    using run assms(2) f by (cases "json_string (sa_text args)") (auto split: if_splits)
  let ?ad = "js_lower (js_trim (coalesce (json_string (sa_adapter args)) []))"
  let ?acc = "js_trim (coalesce (json_string (sa_accountId args)) [])"
  let ?cur = "if sa_also args = Some (JBool True) then (t, False)
      else isCurrentAutomaticReplyDestination now ctx runId ?ad ?acc f t"
  obtain t1 current where cur: "?cur = (t1, current)" by fastforce
  note run2 = run [unfolded f sum.case c option.case cur prod.case]
  have ne: "?ad \<noteq> []" "?acc \<noteq> []" using run2 assms(2) by (auto simp del: js_lower_Nil split: if_splits)
  have ok: "\<not> (sa_replyToId args \<noteq> None \<and> json_string (sa_replyToId args) = None)"
    "\<not> sa_also args \<notin> {None, Some (JBool True), Some (JBool False)}"
    using run2 assms(2) ne by (auto split: if_splits)
  have can: "\<not> current" "canSendToAdapterSurface db procs ctx ?ad ?acc f"
    using run2 assms(2) ne ok by (auto split: if_splits)
  let ?r = "js_trim (coalesce (json_string (sa_replyToId args)) [])"
  let ?d = "\<lparr>dl_adapter = ?ad, dl_accountId = ?acc, dl_deliveryId = sa_deliveryId args, dl_surface = f,
      dl_actorId = json_string (sa_actorId args), dl_text = content, dl_media = sa_media args,
      dl_replyToId = (if ?r = [] then None else Some ?r)\<rparr>"
  have "deliverAdapterMessage env ?d = (res, sent)"
    using run2 [unfolded if_not_P [OF ne(1)] if_not_P [OF ne(2)] if_not_P [OF ok(1)] if_not_P [OF ok(2)]] can
    by (simp only: simp_thms if_True if_False prod.inject)
  moreover have "sa_also args \<noteq> Some (JBool True) \<longrightarrow>
      \<not> snd (isCurrentAutomaticReplyDestination now ctx runId ?ad ?acc f t)"
    using cur can(1) by (auto split: if_splits)
  ultimately show ?thesis
    using ne can(2) f c
    by (intro exI [of _ ?ad] exI [of _ ?acc] exI [of _ f] exI [of _ content] conjI exI [of _ ?d]) simp_all
qed

lemma js_trim_lower: "js_trim (js_lower s) = js_lower (js_trim s)"
proof -
  have "js_ws \<circ> js_lower_char = js_ws"
  proof
    fix c show "(js_ws \<circ> js_lower_char) c = js_ws c"
      by (cases "(of_char c :: nat) < 256") (auto simp: js_lower_char_def js_ws_def Let_def of_char_of)
  qed
  then show ?thesis by (simp add: js_trim_def js_lower_def dropWhile_map rev_map)
qed

lemma deliverAdapterReply_sent:
  assumes "deliverAdapterReply env db d ownerUid r = (res, sent)" "sent \<noteq> []"
  shows "\<exists>n m. normalizeAdapterMessageDestination (Some (destination_json d)) = Inr n
        \<and> assertAdapterMessageDestinationAccess n ownerUid db = Inr ()
        \<and> sent = [(ds_adapter n, ds_accountId n, m)] \<and> om_surface m = ds_surface n
        \<and> valid_delivery_id (om_deliveryId m)"
proof -
  note run = assms
  obtain n where n: "normalizeAdapterMessageDestination (Some (destination_json d)) = Inr n"
    using run unfolding deliverAdapterReply_def
    by (cases "normalizeAdapterMessageDestination (Some (destination_json d))") auto
  have acc: "assertAdapterMessageDestinationAccess n ownerUid db = Inr ()"
    using run n unfolding deliverAdapterReply_def
    by (cases "assertAdapterMessageDestinationAccess n ownerUid db") auto
  note e = normalize_destination_json [OF n]
  have norm: "js_lower (js_trim (ds_adapter n)) = ds_adapter n" "js_trim (ds_accountId n) = ds_accountId n"
    by (simp_all add: e js_trim_lower)
  from run n acc have "deliverAdapterMessage env
        \<lparr>dl_adapter = ds_adapter n, dl_accountId = ds_accountId n, dl_deliveryId = Some (JStr (rm_deliveryId r)),
         dl_surface = ds_surface n, dl_actorId = Some (ds_actorId n), dl_text = rm_text r,
         dl_media = rm_media r, dl_replyToId = rm_replyToId r\<rparr> = (res, sent)"
    by (simp add: deliverAdapterReply_def)
  from deliverAdapterMessage_sent [OF this] run n acc norm show ?thesis by auto
qed



text \<open>
  A send reports what the adapter answered: it hands over at most one message; it reports success only
  for an accepted or an ambiguous answer, keeping the two apart; and it offers a retry only when no service
  exists, the call threw, or the service answered that the failure is retryable and not ambiguous.
\<close>

theorem send_result_is_faithful:
  assumes "deliverAdapterMessage env args = (res, sent)"
    and "adapter = js_lower (js_trim (dl_adapter args))" "accountId = js_trim (dl_accountId args)"
  shows "length sent \<le> 1
    \<and> (\<forall>e i. res = SendError e i True \<longrightarrow>
         (case se_services env adapter of
            None \<Rightarrow> sent = []
          | Some service \<Rightarrow> \<exists>m. sent = [(adapter, accountId, m)]
              \<and> (case service accountId m of None \<Rightarrow> True
                 | Some v \<Rightarrow> isAdapterWorkerSendResult v = Some (WorkerFailed True False))))
    \<and> (\<forall>a acc s i mid st. res = SendOk a acc s i mid st \<longrightarrow>
         (\<exists>service m v. se_services env adapter = Some service \<and> sent = [(adapter, accountId, m)]
            \<and> i = om_deliveryId m \<and> service accountId m = Some v
            \<and> (st = DsAmbiguous \<longleftrightarrow> (\<exists>r. isAdapterWorkerSendResult v = Some (WorkerFailed r True)))
            \<and> (st \<noteq> DsAmbiguous \<longrightarrow> isAdapterWorkerSendResult v = Some (WorkerOk mid (st = DsDeduplicated)))))"
proof (cases "sent = []")
  case True
  then show ?thesis using deliverAdapterMessage_unsent [of env args res] assms by auto
next
  case False
  from deliverAdapterMessage_sent [OF assms(1) False] obtain service m where
    m: "sent = [(adapter, accountId, m)]" "se_services env adapter = Some service"
    and err: "\<forall>e i. res = SendError e i True \<longrightarrow> (case service accountId m of
          None \<Rightarrow> True | Some v \<Rightarrow> isAdapterWorkerSendResult v = Some (WorkerFailed True False))"
    and ok: "\<forall>a acc s i mid st. res = SendOk a acc s i mid st \<longrightarrow> i = om_deliveryId m
         \<and> (\<exists>v. service accountId m = Some v
            \<and> (if st = DsAmbiguous then (\<exists>r. isAdapterWorkerSendResult v = Some (WorkerFailed r True))
               else isAdapterWorkerSendResult v = Some (WorkerOk mid (st = DsDeduplicated))))"
    unfolding assms(2,3) by blast
  have "\<exists>service m v. se_services env adapter = Some service \<and> sent = [(adapter, accountId, m)]
            \<and> i = om_deliveryId m \<and> service accountId m = Some v
            \<and> (st = DsAmbiguous \<longleftrightarrow> (\<exists>r. isAdapterWorkerSendResult v = Some (WorkerFailed r True)))
            \<and> (st \<noteq> DsAmbiguous \<longrightarrow> isAdapterWorkerSendResult v = Some (WorkerOk mid (st = DsDeduplicated)))"
    if r: "res = SendOk a acc s i mid st" for a acc s i mid st
  proof -
    from ok r obtain v where "i = om_deliveryId m" "service accountId m = Some v"
      and v: "if st = DsAmbiguous then (\<exists>r. isAdapterWorkerSendResult v = Some (WorkerFailed r True))
               else isAdapterWorkerSendResult v = Some (WorkerOk mid (st = DsDeduplicated))" by blast
    with m show ?thesis
      by (intro exI [of _ service] exI [of _ m] exI [of _ v]) (auto split: if_splits)
  qed
  with m err show ?thesis by auto
qed

section \<open>Witnesses\<close>

definition demo_send_env :: send_env where
  "demo_send_env = \<lparr>se_services = (\<lambda>a. if a = ''irc'' then Some (\<lambda>_ _. Some (JObj [(''ok'', JBool True)])) else None),
     se_new_id = ''id'', se_url_protocol = (\<lambda>_. None), se_body_error = (\<lambda>_. None), se_aborted = None\<rparr>"

definition demo_reply :: reply_message where
  "demo_reply = \<lparr>rm_deliveryId = ''r1:finished'', rm_text = ''hi'', rm_media = None, rm_replyToId = None\<rparr>"



definition demo_delivery :: delivery where
  "demo_delivery = \<lparr>dl_adapter = ''irc'', dl_accountId = ''bot'', dl_deliveryId = None,
     dl_surface = \<lparr>fc_kind = ''dm'', fc_id = ''d1'', fc_threadId = None\<rparr>, dl_actorId = None, dl_text = ''hi'',
     dl_media = None, dl_replyToId = None\<rparr>"

lemma send_result_is_faithful_witness:
  "\<exists>a acc s i mid st m. deliverAdapterMessage demo_send_env demo_delivery = (SendOk a acc s i mid st, [(''irc'', ''bot'', m)])
     \<and> i = om_deliveryId m \<and> st = DsSent"
proof -
  let ?r = "deliverAdapterMessage demo_send_env demo_delivery"
  have names: "''irc'' = js_lower (js_trim (dl_adapter demo_delivery))" "''bot'' = js_trim (dl_accountId demo_delivery)"
    by (simp_all add: demo_delivery_def js_trim_def js_lower_def js_lower_char_def js_ws_def)
  have res: "fst ?r = SendOk ''irc'' ''bot'' ''d1'' ''id'' None DsSent" by code_simp
  have run: "?r = (SendOk ''irc'' ''bot'' ''d1'' ''id'' None DsSent, snd ?r)" using res by (metis prod.collapse)
  from send_result_is_faithful [OF run names] obtain m where "snd ?r = [(''irc'', ''bot'', m)]" "''id'' = om_deliveryId m"
    by auto
  with run show ?thesis by metis
qed

end
