(* ===== verification/ProcessSignals.thy ===== *)
theory ProcessSignals
  imports SignalWatches AdapterSend IpcCalls
begin

text \<open>
  What the kernel does with the signals of a process (\<open>kernel/do.ts\<close>): it keeps the process's runtime
  state, hands the signal to its watchers, relays it to the client or the owner's clients, and delivers
  the answer and the approval requests of a run to the chat the run came from, with bounded retries.

  Counts and timestamps of a payload are integers. The typing indicator, which never fails, is left out.
  Arguments stand for the clock, the bundling of a reply's media and the question to a process whether an
  approval is still pending.
\<close>

section \<open>Runtime state\<close>

definition USER_PROCESS_SIGNALS :: "string list" where
  "USER_PROCESS_SIGNALS = [''proc.changed'', ''proc.run.started'', ''proc.run.stream'', ''proc.run.retrying'',
     ''proc.run.output'', ''proc.run.tool.started'', ''proc.run.hil.requested'', ''proc.run.finished'', ''process.exit'']"

definition isUserProcessSignal :: "string \<Rightarrow> bool" where
  "isUserProcessSignal sig \<longleftrightarrow> sig \<in> set USER_PROCESS_SIGNALS"

record signal_frame =
  sg_signal :: string
  sg_payload :: "json option"

definition payload_field :: "signal_frame \<Rightarrow> string \<Rightarrow> json option" where
  "payload_field f k = (case sg_payload f of Some v \<Rightarrow> json_get v k | None \<Rightarrow> None)"

definition finite_number :: "json option \<Rightarrow> int option" where
  "finite_number v = (case v of Some (JNum (IntNum i)) \<Rightarrow> Some i | _ \<Rightarrow> None)"

definition changes_include :: "signal_frame \<Rightarrow> string \<Rightarrow> bool" where
  "changes_include f what \<longleftrightarrow>
     (case payload_field f ''changes'' of Some (JArr xs) \<Rightarrow> JStr what \<in> set xs | _ \<Rightarrow> False)"

definition signal_time :: "int \<Rightarrow> signal_frame \<Rightarrow> int" where
  "signal_time now f = coalesce (finite_number (payload_field f ''timestamp'')) now"

definition stale_signal :: "int \<Rightarrow> signal_frame \<Rightarrow> string option \<Rightarrow> process_record \<Rightarrow> bool" where
  "stale_signal now f runId current \<longleftrightarrow>
     prefix ''proc.run.'' (sg_signal f) \<and> truthy runId \<and> rc_activeRunId current \<noteq> runId
     \<and> (sg_signal f = ''proc.run.started'' \<longrightarrow>
          (case rc_lastActiveAt current of Some l \<Rightarrow> signal_time now f < l | None \<Rightarrow> False))"

definition updateProcessRuntimeFromSignal ::
  "int \<Rightarrow> string \<Rightarrow> signal_frame \<Rightarrow> string option \<Rightarrow> process_row list \<Rightarrow> process_row list \<times> bool" where
  "updateProcessRuntimeFromSignal now pid f runId t =
     (let queuedCount = finite_number (payload_field f ''queuedCount'');
          timestamp = signal_time now f;
          patchForActive = (\<lambda>st. fst (updateRuntimeState pid
             \<lparr>rp_state = Some st, rp_activeRunId = (if truthy runId then Some runId else None),
              rp_queuedCount = queuedCount, rp_lastActiveAt = Some (Some timestamp)\<rparr> t))
      in case process_get t pid of
           None \<Rightarrow> (t, False)
         | Some current \<Rightarrow>
             if stale_signal now f runId current then (t, sg_signal f = ''proc.run.finished'')
             else if sg_signal f \<in> {''proc.run.started'', ''proc.run.stream'', ''proc.run.retrying'', ''proc.run.output''}
             then (patchForActive PsRunning, True)
             else if sg_signal f = ''proc.run.tool.started'' then (patchForActive PsWaitingTool, True)
             else if sg_signal f = ''proc.run.hil.requested'' then (patchForActive PsWaitingHil, True)
             else if sg_signal f = ''proc.run.finished''
             then (fst (updateRuntimeState pid
                     \<lparr>rp_state = Some (if (case queuedCount of Some n \<Rightarrow> n > 0 | None \<Rightarrow> False) then PsQueued else PsIdle),
                      rp_activeRunId = Some None, rp_queuedCount = queuedCount,
                      rp_lastActiveAt = Some (Some timestamp)\<rparr> t), True)
             else if sg_signal f = ''proc.changed''
             then (let title = take 80 (js_trim (coalesce (json_string (payload_field f ''title'')) []));
                       t1 = (if changes_include f ''title'' \<and> title \<noteq> [] then fst (process_setLabel pid title t) else t)
                   in if truthy runId \<and> rc_activeRunId current = runId \<and> changes_include f ''messages''
                      then (fst (updateRuntimeState pid
                              \<lparr>rp_state = Some PsRunning, rp_activeRunId = Some runId, rp_queuedCount = queuedCount,
                               rp_lastActiveAt = Some (Some timestamp)\<rparr> t1), True)
                      else if queuedCount \<noteq> None
                      then (fst (updateRuntimeState pid
                              \<lparr>rp_state = None, rp_activeRunId = None, rp_queuedCount = queuedCount,
                               rp_lastActiveAt = Some (Some timestamp)\<rparr> t1), True)
                      else (t1, True))
             else (t, True))"

section \<open>Delivery to a chat\<close>

record hil_request =
  hr_requestId :: string
  hr_toolName :: string
  hr_syscall :: string
  hr_args :: json

definition json_object_like :: "json option \<Rightarrow> bool" where
  "json_object_like v = (case v of Some (JObj _) \<Rightarrow> True | Some (JArr _) \<Rightarrow> True | _ \<Rightarrow> False)"

definition normalizeAdapterHilRequest :: "json option \<Rightarrow> bool \<Rightarrow> hil_request option" where
  "normalizeAdapterHilRequest v from_signal =
     (let f = (\<lambda>k. case v of Some x \<Rightarrow> json_get x k | None \<Rightarrow> None)
      in case (json_string (f ''requestId''), json_string (f ''toolName''), json_string (f ''syscall'')) of
           (Some i, Some n, Some c) \<Rightarrow>
             if \<not> json_object_like (f ''args'') then None
             else if from_signal \<and> (json_string (f ''runId'') = None \<or> json_string (f ''callId'') = None) then None
             else Some \<lparr>hr_requestId = i, hr_toolName = n, hr_syscall = c, hr_args = the (f ''args'')\<rparr>
         | _ \<Rightarrow> None)"

definition adapterHilRequestToken :: "string \<Rightarrow> string" where
  "adapterHilRequestToken requestId = ''hil['' @ requestId @ '']''"

definition summarizeAdapterHilRequest :: "hil_request \<Rightarrow> string" where
  "summarizeAdapterHilRequest p =
     (let path = coalesce (json_string (json_get (hr_args p) ''path'')) [];
          command = coalesce (json_string (json_get (hr_args p) ''input'')) [];
          phrase = (\<lambda>does what x. if x \<noteq> [] then ''Requested action: '' @ does @ '' `'' @ x @ ''`.''
                                else ''Requested action: '' @ does @ '' '' @ what @ ''.'')
      in if hr_syscall p = ''shell.exec'' then phrase ''run'' ''a shell command'' command
         else if hr_syscall p = ''fs.read'' then phrase ''read'' ''a file'' path
         else if hr_syscall p = ''fs.write'' then phrase ''write'' ''a file'' path
         else if hr_syscall p = ''fs.edit'' then phrase ''edit'' ''a file'' path
         else if hr_syscall p = ''fs.delete'' then phrase ''delete'' ''a file'' path
         else ''Requested action: '' @ hr_toolName p @ ''.'')"

text \<open>The prompt of the first notification of an approval request.\<close>

definition renderAdapterHilPrompt :: "hil_request \<Rightarrow> string \<Rightarrow> string" where
  "renderAdapterHilPrompt p surfaceKind =
     (let requestToken = adapterHilRequestToken (hr_requestId p);
          q = [char_of (34 :: nat)];
          responseLine = (if surfaceKind = ''dm''
            then ''Reply '' @ q @ ''approve '' @ requestToken @ q @ '' to continue, '' @ q @ ''approve always ''
                 @ requestToken @ q @ '' to remember it for this conversation, or '' @ q @ ''deny '' @ requestToken @ q
                 @ '' to stop this action.''
            else ''Open Chat to approve or deny this action.'')
      in js_join [char_of (10 :: nat)] [''I need your confirmation before I can continue.'', [],
           summarizeAdapterHilRequest p, [], responseLine])"

datatype signal_outcome =
    OutDelivered | OutSkipped | OutRetryable string | OutPermanent string | OutAmbiguous string

text \<open>The bundled media of a reply: an error of the media itself or another one, or the descriptors.\<close>

datatype bundle_result = BundleMediaError string | BundleError string | Bundled "json list"

record signal_env =
  sn_send :: send_env
  sn_db :: adapter_db
  sn_procs :: "process_row list"
  sn_bundle :: "string \<Rightarrow> json option \<Rightarrow> bundle_result"
  sn_hil_pending :: "string \<Rightarrow> string \<Rightarrow> string \<Rightarrow> bool result"

record chat_route =
  ch_runId :: string
  ch_processId :: string
  ch_uid :: int
  ch_destination :: destination
  ch_replyToId :: "string option"

definition chat_of :: "run_route \<Rightarrow> chat_route option" where
  "chat_of rt = (case rt of
     AdapterRoute i pid uid d reply c e \<Rightarrow>
       Some \<lparr>ch_runId = i, ch_processId = pid, ch_uid = uid, ch_destination = d, ch_replyToId = reply\<rparr>
   | ConnectionRoute i pid uid con c e \<Rightarrow> None)"

type_synonym sends = "(string \<times> string \<times> outbound_message) list"

definition deliverAdapterRouteReply :: "signal_env \<Rightarrow> chat_route \<Rightarrow> reply_message \<Rightarrow> signal_outcome \<times> sends" where
  "deliverAdapterRouteReply env r m =
     (case process_getIdentity (sn_procs env) (ch_processId r) of
        None \<Rightarrow> (OutPermanent ''Reply route references a missing process'', [])
      | Some _ \<Rightarrow>
          (case assertAdapterMessageDestinationAccess (ch_destination r) (ch_uid r) (sn_db env) of
             Inl e \<Rightarrow> (OutPermanent (error_message e), [])
           | Inr _ \<Rightarrow>
               (let (res, sent) = deliverAdapterReply (sn_send env) (sn_db env) (ch_destination r) (ch_uid r)
                      (m\<lparr>rm_replyToId := (case rm_replyToId m of Some x \<Rightarrow> Some x | None \<Rightarrow> ch_replyToId r)\<rparr>)
                in case res of
                     SendError e i retryable \<Rightarrow>
                       (let detail = ''Adapter reply failed ('' @ ds_adapter (ch_destination r) @ ''): '' @ e
                        in (if retryable then OutRetryable detail else OutPermanent detail, sent))
                   | SendOk a acc s i mid st \<Rightarrow>
                       (if st = DsAmbiguous then OutAmbiguous (''Adapter delivery '' @ rm_deliveryId m @ '' is ambiguous'')
                        else OutDelivered, sent))))"

text \<open>An exception is \<open>Inl\<close>: whether it is a media error, and its message.\<close>

definition deliverSignalToAdapter :: "signal_env \<Rightarrow> chat_route \<Rightarrow> signal_frame \<Rightarrow> (bool \<times> string + signal_outcome) \<times> sends" where
  "deliverSignalToAdapter env r f =
     (if sg_signal f = ''proc.run.started'' then (Inr OutDelivered, [])
      else if sg_signal f = ''proc.run.hil.requested''
      then (case normalizeAdapterHilRequest (sg_payload f) True of
              None \<Rightarrow> (Inr OutSkipped, [])
            | Some request \<Rightarrow>
                apfst Inr (deliverAdapterRouteReply env r
                  \<lparr>rm_deliveryId = ch_runId r @ '':hil:'' @ hr_requestId request,
                   rm_text = renderAdapterHilPrompt request (fc_kind (ds_surface (ch_destination r))),
                   rm_media = None, rm_replyToId = None\<rparr>))
      else if sg_signal f \<noteq> ''proc.run.finished'' then (Inr OutSkipped, [])
      else
        (let err = json_string (payload_field f ''error'');
             content = (if js_trim (coalesce err []) \<noteq> [] then ''Error: '' @ the err
                        else coalesce (json_string (payload_field f ''text'')) [])
         in case sn_bundle env (ch_processId r) (payload_field f ''media'') of
              BundleMediaError e \<Rightarrow> (Inl (True, e), [])
            | BundleError e \<Rightarrow> (Inl (False, e), [])
            | Bundled media \<Rightarrow>
                if js_trim content = [] \<and> media = [] then (Inr OutDelivered, [])
                else apfst Inr (deliverAdapterRouteReply env r
                       \<lparr>rm_deliveryId = ch_runId r @ '':finished'', rm_text = content,
                        rm_media = (if media = [] then None else Some (JArr media)), rm_replyToId = None\<rparr>)))"

section \<open>Attempts\<close>

definition MAX_ADAPTER_SIGNAL_DELIVERY_ATTEMPTS :: nat where "MAX_ADAPTER_SIGNAL_DELIVERY_ATTEMPTS = 10"

definition adapterSignalRetryDelayMs :: "nat \<Rightarrow> nat" where
  "adapterSignalRetryDelayMs attempt = min 30000 (1000 * 2 ^ (attempt - 1))"

record delivery_retry =
  dr_runId :: string
  dr_processId :: string
  dr_frame :: signal_frame
  dr_attempt :: nat

datatype notice_state = NsPermanent | NsAmbiguous | NsExhausted

record delivery_notice =
  dn_runId :: string
  dn_processId :: string
  dn_requestId :: "string option"
  dn_final :: bool
  dn_state :: notice_state
  dn_message :: string

text \<open>What a step leaves to a timer: the next attempt after a delay, or a notice to the process.\<close>

datatype timer = TmRetry nat delivery_retry | TmNotice delivery_notice

definition queueAdapterSignalDelivery :: "chat_route \<Rightarrow> signal_frame \<Rightarrow> nat \<Rightarrow> timer list" where
  "queueAdapterSignalDelivery r f attempt =
     [TmRetry (if attempt = 1 then 10 else adapterSignalRetryDelayMs (attempt - 1))
        \<lparr>dr_runId = ch_runId r, dr_processId = ch_processId r, dr_frame = f, dr_attempt = attempt\<rparr>]"

definition queueProcessDeliveryNotice :: "chat_route \<Rightarrow> signal_frame \<Rightarrow> notice_state \<Rightarrow> string \<Rightarrow> timer list" where
  "queueProcessDeliveryNotice r f st message =
     (let hil = (sg_signal f = ''proc.run.hil.requested'');
          requestId = (if hil then map_option hr_requestId (normalizeAdapterHilRequest (sg_payload f) True) else None)
      in if hil \<and> \<not> truthy requestId then []
         else [TmNotice \<lparr>dn_runId = ch_runId r, dn_processId = ch_processId r, dn_requestId = requestId,
                         dn_final = (\<not> hil), dn_state = st, dn_message = message\<rparr>])"

definition show_nat :: "nat \<Rightarrow> string" where "show_nat n = show_int (int n)"

definition attempt_outcome :: "signal_env \<Rightarrow> chat_route \<Rightarrow> signal_frame \<Rightarrow> signal_outcome \<times> sends" where
  "attempt_outcome env r f =
     (let hilRequest = (if sg_signal f = ''proc.run.hil.requested''
                        then normalizeAdapterHilRequest (sg_payload f) True else None);
          go = (case deliverSignalToAdapter env r f of
                  (Inl (media, e), sent) \<Rightarrow> (if media then OutPermanent e else OutRetryable e, sent)
                | (Inr oc, sent) \<Rightarrow> (oc, sent))
      in case hilRequest of
           None \<Rightarrow> go
         | Some h \<Rightarrow>
             (case sn_hil_pending env (ch_processId r) (ch_runId r) (hr_requestId h) of
                Inl e \<Rightarrow> (OutRetryable (error_message e), [])
              | Inr False \<Rightarrow> (OutSkipped, [])
              | Inr True \<Rightarrow> go))"

definition attemptAdapterSignalDelivery :: "signal_env \<Rightarrow> chat_route \<Rightarrow> signal_frame \<Rightarrow> nat \<Rightarrow> run_route_row list
    \<Rightarrow> run_route_row list \<times> timer list \<times> sends" where
  "attemptAdapterSignalDelivery env r f attempt t =
     (let (oc, sent) = attempt_outcome env r f;
          what = (if sg_signal f = ''proc.run.hil.requested'' then ''approval notification'' else ''automatic reply'')
      in case oc of
           OutRetryable e \<Rightarrow>
             if attempt < MAX_ADAPTER_SIGNAL_DELIVERY_ATTEMPTS
             then (t, queueAdapterSignalDelivery r f (attempt + 1), sent)
             else (t, queueProcessDeliveryNotice r f NsExhausted (''The '' @ what @ '' stopped after '' @ show_nat attempt
                       @ '' retry-safe delivery attempts: '' @ e), sent)
         | OutPermanent e \<Rightarrow>
             (t, queueProcessDeliveryNotice r f NsPermanent (''The '' @ what @ '' could not be delivered: '' @ e), sent)
         | OutAmbiguous e \<Rightarrow>
             (t, queueProcessDeliveryNotice r f NsAmbiguous (''The '' @ what @ '' reached the adapter, but provider delivery ''
                   @ ''is ambiguous. It was not retried to avoid a duplicate.''), sent)
         | _ \<Rightarrow> (if sg_signal f = ''proc.run.finished'' then run_route_delete (ch_runId r) t else t, [], sent))"

definition onAdapterSignalDelivery :: "int \<Rightarrow> signal_env \<Rightarrow> delivery_retry \<Rightarrow> run_route_row list
    \<Rightarrow> run_route_row list \<times> timer list \<times> sends" where
  "onAdapterSignalDelivery now env d t =
     (if dr_attempt d < 1 then (t, [], [])
      else case run_route_get now (dr_runId d) t of
        (t', rt) \<Rightarrow>
          (case Option.bind rt chat_of of
             Some r \<Rightarrow> if ch_processId r = dr_processId d
                       then attemptAdapterSignalDelivery env r (dr_frame d) (dr_attempt d) t' else (t', [], [])
           | None \<Rightarrow> (t', [], [])))"

text \<open>The notice: \<open>delivered\<close> is whether the process took it (the timer is repeated when it did not).\<close>

definition onProcessDeliveryNotice :: "int \<Rightarrow> signal_env \<Rightarrow> bool \<Rightarrow> delivery_notice
    \<Rightarrow> (run_route_row list, delivery_notice option) action" where
  "onProcessDeliveryNotice now env delivered n t =
     (if \<not> dn_final n \<and> \<not> truthy (dn_requestId n) then (t, Inr None)
      else case run_route_get now (dn_runId n) t of
        (t', rt) \<Rightarrow>
          (case Option.bind rt chat_of of
             None \<Rightarrow> (t', Inr None)
           | Some r \<Rightarrow>
               if ch_processId r \<noteq> dn_processId n then (t', Inr None)
               else (case (if dn_final n then Inr True
                          else sn_hil_pending env (dn_processId n) (dn_runId n) (the (dn_requestId n))) of
                 Inl e \<Rightarrow> (t', Inl e)
               | Inr asked \<Rightarrow>
                   if \<not> asked then (t', Inr None)
                   else if \<not> delivered then (t', throw ''Process unavailable'')
                   else (if dn_final n then run_route_delete (dn_runId n) t' else t', Inr (Some n)))))"

section \<open>Relaying a signal\<close>

datatype relay =
    ReBroadcast int signal_frame
  | ReConnection string signal_frame

definition deliverSignalToConnection :: "string list \<Rightarrow> string \<Rightarrow> signal_frame \<Rightarrow> int \<Rightarrow> relay list" where
  "deliverSignalToConnection connections c f uid =
     (if c \<in> set connections then [ReConnection c f] else [ReBroadcast uid f])"

text \<open>From after the watchers were called. \<open>connections\<close> are the ids of the open connections.\<close>

definition relay_signal :: "int \<Rightarrow> signal_env \<Rightarrow> string list \<Rightarrow> int \<Rightarrow> string \<Rightarrow> signal_frame \<Rightarrow> run_route_row list
    \<Rightarrow> run_route_row list \<times> relay list \<times> timer list \<times> sends" where
  "relay_signal now env connections ownerUid pid f t =
     (if \<not> isUserProcessSignal (sg_signal f) then (t, [], [], [])
      else
        (let runId = extractRunId (sg_payload f);
             hil = (sg_signal f = ''proc.run.hil.requested'');
             final = (sg_signal f = ''proc.run.finished'');
             (t', route) = (case runId of Some i \<Rightarrow> run_route_get now i t | None \<Rightarrow> (t, None));
             cast = (if hil \<or> route = None then [ReBroadcast ownerUid f] else [])
         in case route of
              None \<Rightarrow> (t', cast, [], [])
            | Some rt \<Rightarrow>
                if rt_uid rt \<noteq> ownerUid \<or> rt_processId rt \<noteq> pid
                then (run_route_delete (the runId) t', cast, [], [])
                else
                  (case rt of
                     ConnectionRoute i p u c cr e \<Rightarrow>
                       (if final then run_route_delete (the runId) t' else t',
                        cast @ (if hil then [] else deliverSignalToConnection connections c f ownerUid), [], [])
                   | AdapterRoute i p u d reply cr e \<Rightarrow>
                       (let r = the (chat_of rt)
                        in if hil then (t', cast, queueAdapterSignalDelivery r f 1, [])
                           else if final
                           then (case attemptAdapterSignalDelivery env r f 1 t' of (t'', tm, sent) \<Rightarrow> (t'', cast, tm, sent))
                           else (t', cast, [], snd (deliverSignalToAdapter env r f))))))"

record signal_state =
  si_procs :: "process_row list"
  si_watches :: "signal_watch list"
  si_routes :: "run_route_row list"

text \<open>\<open>handleProcessSignal\<close>: \<open>None\<close> for a process that is not registered. The reply routes are those that
  stand when the watchers have been called.\<close>

definition handleProcessSignal :: "int \<Rightarrow> signal_env \<Rightarrow> string list \<Rightarrow> (signal_watch \<Rightarrow> watch_call) \<Rightarrow> string \<Rightarrow> signal_frame
    \<Rightarrow> signal_state \<Rightarrow> signal_state \<times> (signal_watch list \<times> relay list \<times> timer list \<times> sends) option" where
  "handleProcessSignal now env connections calls pid f s =
     (case getOwnerUid (si_procs s) pid of
        None \<Rightarrow> (s, None)
      | Some ownerUid \<Rightarrow>
          (let (w', watched) = dispatchSignalWatches now ownerUid pid (sg_signal f) calls (si_watches s);
               (t', relays, timers, sent) = relay_signal now env connections ownerUid pid f (si_routes s)
           in (s\<lparr>si_watches := w', si_routes := t'\<rparr>, Some (watched, relays, timers, sent))))"

text \<open>The kernel's end of a signal call, up to queueing: whether the signal is passed on.\<close>

definition recv_signal :: "int \<Rightarrow> string \<Rightarrow> signal_frame \<Rightarrow> signal_state \<Rightarrow> signal_state \<times> bool" where
  "recv_signal now pid f s =
     (let runId = extractRunId (sg_payload f);
          (procs', pass) = updateProcessRuntimeFromSignal now pid f runId (si_procs s);
          s' = s\<lparr>si_procs := procs'\<rparr>
      in if pass then (s', True)
         else (if sg_signal f = ''proc.run.finished'' \<and> runId \<noteq> None
               then s'\<lparr>si_routes := run_route_delete (the runId) (si_routes s')\<rparr> else s', False))"


section \<open>Attempts come to an end\<close>

lemma deliverAdapterReply_once: "length (snd (deliverAdapterReply env db d u m)) \<le> 1"
proof -
  have once: "length (snd (deliverAdapterMessage env a)) \<le> Suc 0" for a
    using deliverAdapterMessage_once [of env a] by simp
  show ?thesis unfolding deliverAdapterReply_def by (auto simp: once split: sum.split)
qed

lemma deliverAdapterRouteReply_once: "length (snd (deliverAdapterRouteReply env r m)) \<le> 1"
  using deliverAdapterReply_once
  by (auto simp: deliverAdapterRouteReply_def Let_def split: option.split sum.split prod.split send_result.split)
    (metis snd_conv)+

lemma deliverSignalToAdapter_once: "length (snd (deliverSignalToAdapter env r f)) \<le> 1"
  using deliverAdapterRouteReply_once
  by (auto simp: deliverSignalToAdapter_def Let_def split: option.split bundle_result.split)

lemma attempt_once: "length (snd (attempt_outcome env r f)) \<le> 1"
proof -
  obtain x sent where d: "deliverSignalToAdapter env r f = (x, sent)" by fastforce
  have s: "length sent \<le> 1" using deliverSignalToAdapter_once [of env r f] d by simp
  let ?go = "case (x, sent) of (Inl (media, e), sent) \<Rightarrow> (if media then OutPermanent e else OutRetryable e, sent)
                | (Inr oc, sent) \<Rightarrow> (oc, sent)"
  have go: "length (snd ?go) \<le> 1" using s by (cases x) (simp_all split: prod.split)
  show ?thesis
  proof (cases "if sg_signal f = ''proc.run.hil.requested'' then normalizeAdapterHilRequest (sg_payload f) True else None")
    case None
    show ?thesis unfolding attempt_outcome_def Let_def None d option.case by (rule go)
  next
    case (Some h)
    show ?thesis
      unfolding attempt_outcome_def Let_def Some d option.case
      using go by (cases "sn_hil_pending env (ch_processId r) (ch_runId r) (hr_requestId h)") (simp_all split: bool.split)
  qed
qed

definition final_signal :: "signal_frame \<Rightarrow> bool" where
  "final_signal f \<longleftrightarrow> sg_signal f = ''proc.run.finished''"

lemma attempt_step:
  assumes "attemptAdapterSignalDelivery env r f k t = (t', tms, sent)" "final_signal f"
  shows "length sent \<le> 1
    \<and> (t' = run_route_delete (ch_runId r) t \<and> tms = []
       \<or> t' = t \<and> (\<exists>n. tms = [TmNotice n] \<and> dn_final n \<and> dn_runId n = ch_runId r \<and> dn_processId n = ch_processId r)
       \<or> t' = t \<and> k < MAX_ADAPTER_SIGNAL_DELIVERY_ATTEMPTS \<and> tms = queueAdapterSignalDelivery r f (k + 1)
           \<and> (\<exists>e. fst (attempt_outcome env r f) = OutRetryable e))"
proof -
  obtain oc s where oc: "attempt_outcome env r f = (oc, s)" by fastforce
  have len: "length s \<le> 1" using attempt_once [of env r f] oc by simp
  let ?notice = "\<lambda>tms. \<exists>n. tms = [TmNotice n] \<and> dn_final n \<and> dn_runId n = ch_runId r \<and> dn_processId n = ch_processId r"
  have notice: "?notice (queueProcessDeliveryNotice r f st m)" for st m
    using assms(2) by (simp add: final_signal_def queueProcessDeliveryNotice_def)
  have final: "(sg_signal f = ''proc.run.finished'') = True" using assms(2) by (simp add: final_signal_def)
  have "tms = [] \<and> t' = run_route_delete (ch_runId r) t \<and> sent = s
      \<or> ?notice tms \<and> t' = t \<and> sent = s
      \<or> t' = t \<and> sent = s \<and> k < MAX_ADAPTER_SIGNAL_DELIVERY_ATTEMPTS \<and> tms = queueAdapterSignalDelivery r f (k + 1)
           \<and> (\<exists>e. oc = OutRetryable e)"
  proof (cases oc)
    case (OutRetryable e)
    with assms(1) notice show ?thesis
      unfolding attemptAdapterSignalDelivery_def Let_def oc prod.case
      by (cases "k < MAX_ADAPTER_SIGNAL_DELIVERY_ATTEMPTS") (simp_all only: signal_outcome.case if_True if_False prod.inject simp_thms, blast+)
  next
    case OutDelivered
    with assms(1) show ?thesis
      unfolding attemptAdapterSignalDelivery_def Let_def oc prod.case final by simp
  next
    case OutSkipped
    with assms(1) show ?thesis
      unfolding attemptAdapterSignalDelivery_def Let_def oc prod.case final by simp
  next
    case (OutPermanent e)
    with assms(1) notice show ?thesis
      unfolding attemptAdapterSignalDelivery_def Let_def oc prod.case
      by (simp only: signal_outcome.case prod.inject) blast
  next
    case (OutAmbiguous e)
    with assms(1) notice show ?thesis
      unfolding attemptAdapterSignalDelivery_def Let_def oc prod.case
      by (simp only: signal_outcome.case prod.inject) blast
  qed
  with len oc show ?thesis by auto
qed

text \<open>The timers a delivery leaves behind, run one after the other; the notices are taken by the process.\<close>

fun run_timers :: "nat \<Rightarrow> (nat \<Rightarrow> int) \<Rightarrow> (nat \<Rightarrow> signal_env) \<Rightarrow> timer list \<Rightarrow> run_route_row list
    \<Rightarrow> run_route_row list \<times> timer list \<times> sends" where
  "run_timers fuel clock envs [] t = (t, [], [])"
| "run_timers 0 clock envs (tm # tms) t = (t, tm # tms, [])"
| "run_timers (Suc fuel) clock envs (TmRetry delay d # tms) t =
     (let (t1, new, sent) = onAdapterSignalDelivery (clock fuel) (envs fuel) d t;
          (t2, rest, sent') = run_timers fuel clock envs (new @ tms) t1
      in (t2, rest, sent @ sent'))"
| "run_timers (Suc fuel) clock envs (TmNotice n # tms) t =
     run_timers fuel clock envs tms (fst (onProcessDeliveryNotice (clock fuel) (envs fuel) True n t))"

definition run_gone :: "string \<Rightarrow> run_route_row list \<Rightarrow> bool" where
  "run_gone i t \<longleftrightarrow> (\<forall>row \<in> set t. rr_run_id row \<noteq> i)"

text \<open>The only route of the run, if it has one, is that of the chat \<open>r\<close>.\<close>

definition chat_rows :: "chat_route \<Rightarrow> run_route_row list \<Rightarrow> bool" where
  "chat_rows r t \<longleftrightarrow> keyed rr_run_id t
     \<and> (\<forall>row \<in> set t. rr_run_id row = ch_runId r \<longrightarrow> chat_of (toRoute row) = Some r)"

lemma chat_rows_get:
  assumes "chat_rows r t"
  shows "chat_rows r (fst (run_route_get now i t))"
    and "snd (run_route_get now (ch_runId r) t) = None \<Longrightarrow> run_gone (ch_runId r) (fst (run_route_get now (ch_runId r) t))"
    and "snd (run_route_get now (ch_runId r) t) = Some rt \<Longrightarrow> chat_of rt = Some r"
proof -
  show "chat_rows r (fst (run_route_get now i t))"
    using assms by (auto simp: chat_rows_def run_route_get_def pruned_rows Let_def)
  show "snd (run_route_get now (ch_runId r) t) = None \<Longrightarrow> run_gone (ch_runId r) (fst (run_route_get now (ch_runId r) t))"
    by (auto simp: run_route_get_def pruned_rows Let_def run_gone_def lookup_None)
  show "snd (run_route_get now (ch_runId r) t) = Some rt \<Longrightarrow> chat_of rt = Some r"
    using assms by (auto simp: chat_rows_def run_route_get_iff)
qed

lemma gone_delete [simp]: "run_gone i (run_route_delete i t)"
  by (simp add: run_gone_def run_route_delete_def)

lemma notice_step:
  assumes "chat_rows r t" "dn_final n" "dn_runId n = ch_runId r" "dn_processId n = ch_processId r"
  shows "run_gone (ch_runId r) (fst (onProcessDeliveryNotice now env True n t))"
proof (cases "snd (run_route_get now (ch_runId r) t)")
  case None
  then obtain t' where "run_route_get now (ch_runId r) t = (t', None)" by (metis prod.collapse)
  with chat_rows_get(2) [OF assms(1), of now] assms(2,3) show ?thesis
    by (simp add: onProcessDeliveryNotice_def)
next
  case (Some rt)
  then obtain t' where g: "run_route_get now (ch_runId r) t = (t', Some rt)" by (metis prod.collapse)
  have "chat_of rt = Some r" using chat_rows_get(3) [OF assms(1)] g by (metis snd_conv)
  with g assms(2-4) show ?thesis by (simp add: onProcessDeliveryNotice_def)
qed

lemma retry_step:
  assumes rows: "chat_rows r t" and f: "final_signal f" and k: "1 \<le> k"
    and d: "d = \<lparr>dr_runId = ch_runId r, dr_processId = ch_processId r, dr_frame = f, dr_attempt = k\<rparr>"
    and run: "onAdapterSignalDelivery now env d t = (t', tms, sent)"
  shows "length sent \<le> 1 \<and> chat_rows r t'
    \<and> (run_gone (ch_runId r) t' \<and> tms = []
       \<or> (\<exists>n. tms = [TmNotice n] \<and> dn_final n \<and> dn_runId n = ch_runId r \<and> dn_processId n = ch_processId r)
       \<or> k < MAX_ADAPTER_SIGNAL_DELIVERY_ATTEMPTS \<and> tms = queueAdapterSignalDelivery r f (k + 1))"
proof (cases "snd (run_route_get now (ch_runId r) t)")
  case None
  then obtain t1 where g: "run_route_get now (ch_runId r) t = (t1, None)" by (metis prod.collapse)
  with run k have "t' = t1" "tms = []" "sent = []" by (simp_all add: d onAdapterSignalDelivery_def)
  with g chat_rows_get(1,2) [OF rows] show ?thesis by (metis fst_conv le0 list.size(3) snd_conv)
next
  case (Some rt)
  then obtain t1 where g: "run_route_get now (ch_runId r) t = (t1, Some rt)" by (metis prod.collapse)
  have c: "chat_of rt = Some r" using chat_rows_get(3) [OF rows] g by (metis snd_conv)
  with g run k have a: "attemptAdapterSignalDelivery env r f k t1 = (t', tms, sent)"
    by (simp add: d onAdapterSignalDelivery_def)
  have "chat_rows r t1" using chat_rows_get(1) [OF rows] g by (metis fst_conv)
  moreover from this have "chat_rows r (run_route_delete (ch_runId r) t1)"
    by (auto simp: chat_rows_def run_route_delete_def)
  ultimately show ?thesis using attempt_step [OF a f] by auto
qed

lemma run_timers_gone: "run_gone i t \<Longrightarrow> run_timers fuel clock envs [] t = (t, [], [])"
  by simp

lemma run_timers_settle:
  assumes "chat_rows r t" "final_signal f" "2 \<le> k" "k \<le> MAX_ADAPTER_SIGNAL_DELIVERY_ATTEMPTS"
    and "Suc MAX_ADAPTER_SIGNAL_DELIVERY_ATTEMPTS - k < fuel"
    and "run_timers fuel clock envs (queueAdapterSignalDelivery r f k) t = (t', rest, sent)"
  shows "rest = [] \<and> run_gone (ch_runId r) t' \<and> length sent \<le> Suc MAX_ADAPTER_SIGNAL_DELIVERY_ATTEMPTS - k"
  using assms
proof (induction fuel arbitrary: k t sent)
  case (Suc fuel)
  let ?d = "\<lparr>dr_runId = ch_runId r, dr_processId = ch_processId r, dr_frame = f, dr_attempt = k\<rparr>"
  obtain t1 new s1 where step: "onAdapterSignalDelivery (clock fuel) (envs fuel) ?d t = (t1, new, s1)"
    by (metis prod_cases3)
  obtain t2 r2 s2 where more: "run_timers fuel clock envs new t1 = (t2, r2, s2)" by (metis prod_cases3)
  from Suc.prems(6) step more have res: "t' = t2" "rest = r2" "sent = s1 @ s2"
    by (simp_all add: queueAdapterSignalDelivery_def)
  note st = retry_step [OF Suc.prems(1,2) _ refl step]
  have one: "length s1 \<le> 1" and rows: "chat_rows r t1" using st Suc.prems(3) by auto
  from st Suc.prems(3) consider (over) "run_gone (ch_runId r) t1" "new = []"
    | (notice) n where "new = [TmNotice n]" "dn_final n" "dn_runId n = ch_runId r" "dn_processId n = ch_processId r"
    | (again) "k < MAX_ADAPTER_SIGNAL_DELIVERY_ATTEMPTS" "new = queueAdapterSignalDelivery r f (k + 1)"
    by auto
  then show ?case
  proof cases
    case over
    with more res one Suc.prems(4) show ?thesis by auto
  next
    case notice
    obtain m where m: "fuel = Suc m" using Suc.prems(4,5) by (cases fuel) auto
    with more notice(1) have "t2 = fst (onProcessDeliveryNotice (clock m) (envs m) True n t1)" "r2 = []" "s2 = []"
      by simp_all
    with notice_step [OF rows notice(2-4)] res one Suc.prems(4) show ?thesis by auto
  next
    case again
    with Suc.IH [OF rows Suc.prems(2), of "k + 1" s2] more Suc.prems(3-5) res
    have ih: "r2 = []" "run_gone (ch_runId r) t2" "length s2 \<le> MAX_ADAPTER_SIGNAL_DELIVERY_ATTEMPTS - k" by auto
    have "length s1 + length s2 \<le> Suc MAX_ADAPTER_SIGNAL_DELIVERY_ATTEMPTS - k"
      using one ih(3) again(1) by linarith
    with ih res show ?thesis by simp
  qed
qed (simp add: queueAdapterSignalDelivery_def)



section \<open>Who a signal reaches\<close>

definition authorised_sends :: "adapter_db \<Rightarrow> int \<Rightarrow> sends \<Rightarrow> bool" where
  "authorised_sends db uid sent \<longleftrightarrow> (\<forall>(adapter, accountId, m) \<in> set sent.
     \<exists>n. ds_adapter n = adapter \<and> ds_accountId n = accountId \<and> ds_surface n = om_surface m
       \<and> assertAdapterMessageDestinationAccess n uid db = Inr ())"

lemma authorised_Nil [simp]: "authorised_sends db uid []"
  by (simp add: authorised_sends_def)

lemma reply_authorised: "authorised_sends db uid (snd (deliverAdapterReply env db d uid m))"
proof (cases "snd (deliverAdapterReply env db d uid m) = []")
  case False
  from deliverAdapterReply_sent [OF prod.collapse [symmetric] False] show ?thesis
    by (auto simp: authorised_sends_def)
qed simp

lemma route_reply_authorised: "authorised_sends (sn_db env) (ch_uid r) (snd (deliverAdapterRouteReply env r m))"
proof (cases "process_getIdentity (sn_procs env) (ch_processId r)")
  case (Some p)
  show ?thesis
  proof (cases "assertAdapterMessageDestinationAccess (ch_destination r) (ch_uid r) (sn_db env)")
    case (Inr u)
    let ?m = "m\<lparr>rm_replyToId := (case rm_replyToId m of Some x \<Rightarrow> Some x | None \<Rightarrow> ch_replyToId r)\<rparr>"
    let ?x = "deliverAdapterReply (sn_send env) (sn_db env) (ch_destination r) (ch_uid r) ?m"
    have "snd (deliverAdapterRouteReply env r m) = snd ?x"
      unfolding deliverAdapterRouteReply_def Some Inr Let_def
      by (cases "fst ?x") (simp_all add: case_prod_unfold)
    then show ?thesis by (simp add: reply_authorised)
  qed (simp add: deliverAdapterRouteReply_def Some)
qed (simp add: deliverAdapterRouteReply_def)

lemma signal_authorised: "authorised_sends (sn_db env) (ch_uid r) (snd (deliverSignalToAdapter env r f))"
  using route_reply_authorised [of env r]
  by (simp add: deliverSignalToAdapter_def Let_def split: option.split bundle_result.split)

lemma attempt_authorised: "authorised_sends (sn_db env) (ch_uid r) (snd (attempt_outcome env r f))"
proof -
  obtain x sent where d: "deliverSignalToAdapter env r f = (x, sent)" by fastforce
  have s: "authorised_sends (sn_db env) (ch_uid r) sent" using signal_authorised [of env r f] d by simp
  let ?go = "case (x, sent) of (Inl (media, e), sent) \<Rightarrow> (if media then OutPermanent e else OutRetryable e, sent)
                | (Inr oc, sent) \<Rightarrow> (oc, sent)"
  have go: "authorised_sends (sn_db env) (ch_uid r) (snd ?go)" using s by (cases x) (simp_all split: prod.split)
  show ?thesis
  proof (cases "if sg_signal f = ''proc.run.hil.requested'' then normalizeAdapterHilRequest (sg_payload f) True else None")
    case None
    show ?thesis unfolding attempt_outcome_def Let_def None d option.case by (rule go)
  next
    case (Some h)
    show ?thesis
      unfolding attempt_outcome_def Let_def Some d option.case
      using go by (cases "sn_hil_pending env (ch_processId r) (ch_runId r) (hr_requestId h)") (simp_all split: bool.split)
  qed
qed

lemma attempt_sends:
  "attemptAdapterSignalDelivery env r f k t = (t', tms, sent) \<Longrightarrow> sent = snd (attempt_outcome env r f)"
  unfolding attemptAdapterSignalDelivery_def Let_def
  by (cases "attempt_outcome env r f") (auto split: signal_outcome.splits if_splits)

text \<open>The route a run's signal takes, if it has one that is the owner's and the process's own.\<close>

definition own_route :: "int \<Rightarrow> int \<Rightarrow> string \<Rightarrow> signal_frame \<Rightarrow> run_route_row list \<Rightarrow> run_route \<Rightarrow> bool" where
  "own_route now owner pid f t rt \<longleftrightarrow> (\<exists>i. extractRunId (sg_payload f) = Some i
     \<and> snd (run_route_get now i t) = Some rt \<and> rt_uid rt = owner \<and> rt_processId rt = pid)"

lemma relay_reaches_owner:
  assumes "relay_signal now env connections owner pid f t = (t', relays, timers, sent)"
  shows "(\<forall>x \<in> set relays. x = ReBroadcast owner f
            \<or> (\<exists>i c cr e. own_route now owner pid f t (ConnectionRoute i pid owner c cr e)
                 \<and> c \<in> set connections \<and> x = ReConnection c f))
    \<and> (timers \<noteq> [] \<or> sent \<noteq> [] \<longrightarrow> (\<exists>i d reply cr e. own_route now owner pid f t (AdapterRoute i pid owner d reply cr e)))
    \<and> authorised_sends (sn_db env) owner sent
    \<and> (isUserProcessSignal (sg_signal f) \<longrightarrow> relays \<noteq> []
        \<or> (\<exists>i d reply cr e. own_route now owner pid f t (AdapterRoute i pid owner d reply cr e))
        \<or> (\<exists>rt i. extractRunId (sg_payload f) = Some i \<and> snd (run_route_get now i t) = Some rt
             \<and> (rt_uid rt \<noteq> owner \<or> rt_processId rt \<noteq> pid)))"
proof (cases "isUserProcessSignal (sg_signal f)")
  case False
  then show ?thesis using assms by (simp add: relay_signal_def)
next
  case user: True
  let ?g = "case extractRunId (sg_payload f) of Some i \<Rightarrow> run_route_get now i t | None \<Rightarrow> (t, None)"
  obtain t1 route where g: "?g = (t1, route)" by fastforce
  note run = assms [unfolded relay_signal_def Let_def, unfolded g prod.case if_not_P [OF _ , of "\<not> isUserProcessSignal (sg_signal f)"]]
  show ?thesis
  proof (cases route)
    case None
    with run user show ?thesis by auto
  next
    case (Some rt)
    then obtain i where i: "extractRunId (sg_payload f) = Some i" "snd (run_route_get now i t) = Some rt"
      using g by (auto split: option.splits)
    show ?thesis
    proof (cases "rt_uid rt \<noteq> owner \<or> rt_processId rt \<noteq> pid")
      case True
      with run user Some i show ?thesis by auto
    next
      case False
      then have own: "own_route now owner pid f t rt" using i by (simp add: own_route_def)
      show ?thesis
      proof (cases rt)
        case (ConnectionRoute j p u c cr e)
        with run user Some False own show ?thesis
          by (auto simp: deliverSignalToConnection_def split: if_splits)
      next
        case (AdapterRoute j p u d reply cr e)
        let ?r = "\<lparr>ch_runId = j, ch_processId = p, ch_uid = u, ch_destination = d, ch_replyToId = reply\<rparr>"
        obtain t2 tm s1 where att: "attemptAdapterSignalDelivery env ?r f 1 t1 = (t2, tm, s1)" by (metis prod_cases3)
        have u: "u = owner" "p = pid" using False AdapterRoute by auto
        have "authorised_sends (sn_db env) owner s1"
          using attempt_sends [OF att] attempt_authorised [of env ?r f] u by simp
        moreover have "authorised_sends (sn_db env) owner (snd (deliverSignalToAdapter env ?r f))"
          using signal_authorised [of env ?r f] u by simp
        moreover have ex: "(\<exists>i d reply cr e. own_route now owner pid f t (AdapterRoute i pid owner d reply cr e)) = True"
          using own AdapterRoute u by blast
        moreover have "relays = [] \<or> relays = [ReBroadcast owner f]"
          "sent = [] \<or> sent = s1 \<or> sent = snd (deliverSignalToAdapter env ?r f)"
          using run user Some False AdapterRoute att u by (auto simp: chat_of_def split: if_splits)
        ultimately show ?thesis by (auto simp only: ex simp_thms authorised_Nil list.set ball_simps)
      qed
    qed
  qed
qed



section \<open>Runtime state over time\<close>

definition busy :: "process_row \<Rightarrow> bool" where
  "busy r \<longleftrightarrow> normalizeProcessState (pr_state r) \<in> {PsRunning, PsWaitingTool, PsWaitingHil}"

definition runtime_step :: "string \<Rightarrow> int \<times> signal_frame \<Rightarrow> process_row list \<Rightarrow> process_row list" where
  "runtime_step pid e t =
     fst (updateProcessRuntimeFromSignal (fst e) pid (snd e) (extractRunId (sg_payload (snd e))) t)"

definition runtime_ok :: "process_row \<Rightarrow> bool" where
  "runtime_ok r \<longleftrightarrow> (busy r \<longleftrightarrow> pr_active_run_id r \<noteq> None)"

definition patched_runtime :: "runtime_patch \<Rightarrow> process_row \<Rightarrow> process_row" where
  "patched_runtime p r =
     r\<lparr>pr_state := process_state_name (coalesce (rp_state p) (normalizeProcessState (pr_state r))),
       pr_active_run_id := coalesce (rp_activeRunId p) (pr_active_run_id r),
       pr_queued_count := Some (case rp_queuedCount p of Some n \<Rightarrow> max 0 n | None \<Rightarrow> max 0 (coalesce (pr_queued_count r) 0)),
       pr_last_active_at := coalesce (rp_lastActiveAt p) (pr_last_active_at r)\<rparr>"

lemma lookup_runtime:
  assumes "sql_lookup pr_id t pid = Some r"
  shows "sql_lookup pr_id (fst (updateRuntimeState pid p t)) pid = Some (patched_runtime p r)"
  using assms lookup_Some [OF assms]
  by (cases "rp_queuedCount p")
    (simp_all add: updateRuntimeState_def process_get_def toProcessRecord_def patched_runtime_def table_simps)

lemma lookup_label:
  assumes "sql_lookup pr_id t pid = Some r"
  shows "\<exists>l. sql_lookup pr_id (fst (process_setLabel pid title t)) pid = Some (r\<lparr>pr_label := l\<rparr>)"
proof (cases "js_trim title = []")
  case True
  then have "fst (process_setLabel pid title t) = t" by (simp add: process_setLabel_def)
  moreover have "r = r\<lparr>pr_label := pr_label r\<rparr>" by simp
  ultimately show ?thesis using assms by metis
next
  case False
  then show ?thesis using assms lookup_Some [OF assms]
    by (auto simp: process_setLabel_def process_get_def Let_def table_simps intro!: exI [of _ "Some (js_trim title)"])
qed


lemma extracted_run: "extractRunId p = Some i \<Longrightarrow> i \<noteq> []"
  by (auto simp: extractRunId_def split: option.splits if_splits)

lemma stale_unchanged:
  assumes "sql_lookup pr_id t pid = Some r" "stale_signal now f runId (toProcessRecord r)"
  shows "updateProcessRuntimeFromSignal now pid f runId t = (t, sg_signal f = ''proc.run.finished'')"
  using assms by (simp add: updateProcessRuntimeFromSignal_def process_get_def Let_def)

lemma runtime_cases:
  assumes r: "sql_lookup pr_id t pid = Some r" and live: "\<not> stale_signal now f (Some i) (toProcessRecord r)" and i: "i \<noteq> []"
  shows "\<exists>r'. sql_lookup pr_id (fst (updateProcessRuntimeFromSignal now pid f (Some i) t)) pid = Some r'
    \<and> (r' = r
       \<or> busy r' \<and> pr_active_run_id r' = Some i
       \<or> \<not> busy r' \<and> pr_active_run_id r' = None
       \<or> busy r' = busy r \<and> pr_active_run_id r' = pr_active_run_id r)"
proof -
  have active: "busy (patched_runtime p x) \<and> pr_active_run_id (patched_runtime p x) = Some i"
    if "rp_state p \<in> {Some PsRunning, Some PsWaitingTool, Some PsWaitingHil}" "rp_activeRunId p = Some (Some i)" for p x
    using that by (auto simp: patched_runtime_def busy_def)
  have idle: "\<not> busy (patched_runtime p x) \<and> pr_active_run_id (patched_runtime p x) = None"
    if "rp_state p \<in> {Some PsIdle, Some PsQueued}" "rp_activeRunId p = Some None" for p x
    using that by (auto simp: patched_runtime_def busy_def)
  have keep: "busy (patched_runtime p x) = busy x \<and> pr_active_run_id (patched_runtime p x) = pr_active_run_id x"
    if "rp_state p = None" "rp_activeRunId p = None" for p x
    using that by (simp add: patched_runtime_def busy_def)
  have cur: "process_get t pid = Some (toProcessRecord r)" using r by (simp add: process_get_def)
  have truthy_i: "truthy (Some i)" using i by (simp add: truthy_def)
  note run = updateProcessRuntimeFromSignal_def [of now pid f "Some i" t, unfolded Let_def cur option.case if_not_P [OF live]]
  let ?q = "finite_number (payload_field f ''queuedCount'')"
  let ?busy = "\<lambda>st. \<lparr>rp_state = Some st, rp_activeRunId = Some (Some i), rp_queuedCount = ?q,
      rp_lastActiveAt = Some (Some (signal_time now f))\<rparr>"
  consider (running) "sg_signal f \<in> {''proc.run.started'', ''proc.run.stream'', ''proc.run.retrying'', ''proc.run.output''}"
    | (tool) "sg_signal f = ''proc.run.tool.started''" | (hil) "sg_signal f = ''proc.run.hil.requested''"
    | (fin) "sg_signal f = ''proc.run.finished''" | (changed) "sg_signal f = ''proc.changed''"
    | (other) "sg_signal f \<notin> {''proc.run.started'', ''proc.run.stream'', ''proc.run.retrying'', ''proc.run.output'',
        ''proc.run.tool.started'', ''proc.run.hil.requested'', ''proc.run.finished'', ''proc.changed''}"
    by blast
  then show ?thesis
  proof cases
    case running
    then have "fst (updateProcessRuntimeFromSignal now pid f (Some i) t) = fst (updateRuntimeState pid (?busy PsRunning) t)"
      using truthy_i by (simp add: run)
    with lookup_runtime [OF r] active [of "?busy PsRunning" r] show ?thesis by auto
  next
    case tool
    then have "fst (updateProcessRuntimeFromSignal now pid f (Some i) t) = fst (updateRuntimeState pid (?busy PsWaitingTool) t)"
      using truthy_i by (simp add: run)
    with lookup_runtime [OF r] active [of "?busy PsWaitingTool" r] show ?thesis by auto
  next
    case hil
    then have "fst (updateProcessRuntimeFromSignal now pid f (Some i) t) = fst (updateRuntimeState pid (?busy PsWaitingHil) t)"
      using truthy_i by (simp add: run)
    with lookup_runtime [OF r] active [of "?busy PsWaitingHil" r] show ?thesis by auto
  next
    case fin
    let ?p = "\<lparr>rp_state = Some (if (case ?q of Some n \<Rightarrow> n > 0 | None \<Rightarrow> False) then PsQueued else PsIdle),
        rp_activeRunId = Some None, rp_queuedCount = ?q, rp_lastActiveAt = Some (Some (signal_time now f))\<rparr>"
    have "fst (updateProcessRuntimeFromSignal now pid f (Some i) t) = fst (updateRuntimeState pid ?p t)"
      using fin by (simp add: run)
    with lookup_runtime [OF r] idle [of ?p r] show ?thesis by auto
  next
    case changed
    let ?title = "take 80 (js_trim (coalesce (json_string (payload_field f ''title'')) []))"
    let ?t1 = "if changes_include f ''title'' \<and> ?title \<noteq> [] then fst (process_setLabel pid ?title t) else t"
    obtain l where l: "sql_lookup pr_id ?t1 pid = Some (r\<lparr>pr_label := l\<rparr>)"
    proof (cases "changes_include f ''title'' \<and> ?title \<noteq> []")
      case True
      with lookup_label [OF r, of ?title] that show ?thesis by auto
    next
      case False
      then have "?t1 = t" by (rule if_not_P)
      then show ?thesis using r by (intro that [of "pr_label r"]) simp
    qed
    let ?k = "\<lparr>rp_state = None, rp_activeRunId = None, rp_queuedCount = ?q,
        rp_lastActiveAt = Some (Some (signal_time now f))\<rparr>"
    have eq: "updateProcessRuntimeFromSignal now pid f (Some i) t =
        (if rc_activeRunId (toProcessRecord r) = Some i \<and> changes_include f ''messages''
         then (fst (updateRuntimeState pid (?busy PsRunning) ?t1), True)
         else if ?q \<noteq> None then (fst (updateRuntimeState pid ?k ?t1), True) else (?t1, True))"
      using truthy_i by (simp add: run changed)
    have same: "busy (r\<lparr>pr_label := l\<rparr>) = busy r" by (simp add: busy_def)
    show ?thesis
    proof (cases "rc_activeRunId (toProcessRecord r) = Some i \<and> changes_include f ''messages''")
      case True
      have "fst (updateProcessRuntimeFromSignal now pid f (Some i) t) = fst (updateRuntimeState pid (?busy PsRunning) ?t1)"
        unfolding eq if_P [OF True] by simp
      with lookup_runtime [OF l, of "?busy PsRunning"] active [of "?busy PsRunning" "r\<lparr>pr_label := l\<rparr>"]
      show ?thesis by (simp only:) simp
    next
      case no: False
      show ?thesis
      proof (cases "?q = None")
        case True
        then have "fst (updateProcessRuntimeFromSignal now pid f (Some i) t) = ?t1" unfolding eq if_not_P [OF no] by simp
        with l same show ?thesis by (simp only:) simp
      next
        case False
        then have "fst (updateProcessRuntimeFromSignal now pid f (Some i) t) = fst (updateRuntimeState pid ?k ?t1)"
          unfolding eq if_not_P [OF no] by simp
        with lookup_runtime [OF l, of ?k] keep [of ?k "r\<lparr>pr_label := l\<rparr>"] same show ?thesis by (simp only:) simp
      qed
    qed
  next
    case other
    then have "fst (updateProcessRuntimeFromSignal now pid f (Some i) t) = t" by (simp add: run)
    with r show ?thesis by auto
  qed
qed


lemma runtime_step_ok:
  assumes r: "sql_lookup pr_id t pid = Some r" "runtime_ok r"
    and run: "extractRunId (sg_payload (snd e)) = Some i"
  shows "\<exists>r'. sql_lookup pr_id (runtime_step pid e t) pid = Some r' \<and> runtime_ok r'"
proof (cases "stale_signal (fst e) (snd e) (Some i) (toProcessRecord r)")
  case True
  then show ?thesis using stale_unchanged [OF r(1) True] r run by (simp add: runtime_step_def)
next
  case False
  from runtime_cases [OF r(1) False extracted_run [OF run]] r(2) run show ?thesis
    by (auto simp: runtime_step_def runtime_ok_def)
qed

lemma runtime_steps_ok:
  assumes "sql_lookup pr_id t pid = Some r" "runtime_ok r"
    and "\<forall>e \<in> set es. extractRunId (sg_payload (snd e)) \<noteq> None"
  shows "\<exists>r'. sql_lookup pr_id (fold (runtime_step pid) es t) pid = Some r' \<and> runtime_ok r'"
  using assms
proof (induction es arbitrary: t r)
  case (Cons e es)
  then obtain i where "extractRunId (sg_payload (snd e)) = Some i" by auto
  from runtime_step_ok [OF Cons.prems(1,2) this] Cons.IH Cons.prems(3) show ?case by fastforce
qed auto

text \<open>
  The runtime state of a process follows its runs: after any sequence of signals that name their run, in
  any order and with repetitions, a process that started idle is busy exactly when it has an active run; a
  late signal of another run - or the start of one that is older than the last activity - changes nothing;
  and the end of the active run leaves it idle or queued with no active run, so that no late signal of that
  run but a fresh start makes it busy again.
\<close>

theorem runtime_state_follows_runs:
  assumes "sql_lookup pr_id t0 pid = Some r0" "pr_state r0 = ''idle''" "pr_active_run_id r0 = None"
    and "\<forall>e \<in> set es. extractRunId (sg_payload (snd e)) \<noteq> None"
    and "t = fold (runtime_step pid) es t0"
  shows "\<exists>r. sql_lookup pr_id t pid = Some r \<and> (busy r \<longleftrightarrow> pr_active_run_id r \<noteq> None)
    \<and> (\<forall>now f i. extractRunId (sg_payload f) = Some i \<and> prefix ''proc.run.'' (sg_signal f)
         \<and> pr_active_run_id r \<noteq> Some i
         \<and> (sg_signal f = ''proc.run.started'' \<longrightarrow> (\<exists>l. pr_last_active_at r = Some l \<and> signal_time now f < l))
         \<longrightarrow> updateProcessRuntimeFromSignal now pid f (Some i) t = (t, sg_signal f = ''proc.run.finished''))
    \<and> (\<forall>now f i. extractRunId (sg_payload f) = Some i \<and> sg_signal f = ''proc.run.finished''
         \<and> pr_active_run_id r = Some i
         \<longrightarrow> (\<exists>r'. sql_lookup pr_id (runtime_step pid (now, f) t) pid = Some r' \<and> \<not> busy r'
               \<and> pr_active_run_id r' = None \<and> pr_last_active_at r' = Some (signal_time now f)))"
proof -
  have "runtime_ok r0" using assms(2,3) by (simp add: runtime_ok_def busy_def normalizeProcessState_def)
  from runtime_steps_ok [OF assms(1) this assms(4)] obtain r where
    r: "sql_lookup pr_id t pid = Some r" "busy r \<longleftrightarrow> pr_active_run_id r \<noteq> None"
    by (auto simp: runtime_ok_def assms(5))
  have fields: "rc_activeRunId (toProcessRecord r) = pr_active_run_id r"
    "rc_lastActiveAt (toProcessRecord r) = pr_last_active_at r" by (simp_all add: toProcessRecord_def)
  have stale: "updateProcessRuntimeFromSignal now pid f (Some i) t = (t, sg_signal f = ''proc.run.finished'')"
    if "extractRunId (sg_payload f) = Some i" "prefix ''proc.run.'' (sg_signal f)" "pr_active_run_id r \<noteq> Some i"
      "sg_signal f = ''proc.run.started'' \<longrightarrow> (\<exists>l. pr_last_active_at r = Some l \<and> signal_time now f < l)" for now f i
  proof (rule stale_unchanged [OF r(1)])
    show "stale_signal now f (Some i) (toProcessRecord r)"
      using that extracted_run [OF that(1)] by (auto simp: stale_signal_def fields truthy_def)
  qed
  have fin: "\<exists>r'. sql_lookup pr_id (runtime_step pid (now, f) t) pid = Some r' \<and> \<not> busy r'
      \<and> pr_active_run_id r' = None \<and> pr_last_active_at r' = Some (signal_time now f)"
    if "extractRunId (sg_payload f) = Some i" "sg_signal f = ''proc.run.finished''" "pr_active_run_id r = Some i" for now f i
  proof -
    let ?q = "finite_number (payload_field f ''queuedCount'')"
    let ?p = "\<lparr>rp_state = Some (if (case ?q of Some n \<Rightarrow> n > 0 | None \<Rightarrow> False) then PsQueued else PsIdle),
        rp_activeRunId = Some None, rp_queuedCount = ?q, rp_lastActiveAt = Some (Some (signal_time now f))\<rparr>"
    have live: "\<not> stale_signal now f (Some i) (toProcessRecord r)" using that(3) by (simp add: stale_signal_def fields)
    have cur: "process_get t pid = Some (toProcessRecord r)" using r(1) by (simp add: process_get_def)
    have "runtime_step pid (now, f) t = fst (updateRuntimeState pid ?p t)"
      by (simp add: runtime_step_def updateProcessRuntimeFromSignal_def Let_def that(1,2) cur live)
    with lookup_runtime [OF r(1), of ?p] show ?thesis
      by (auto simp: patched_runtime_def busy_def)
  qed
  from r stale fin show ?thesis by blast
qed


section \<open>Witnesses\<close>

definition demo_signal :: "string \<Rightarrow> string \<Rightarrow> int \<Rightarrow> signal_frame" where
  "demo_signal sig run ts = \<lparr>sg_signal = sig, sg_payload = Some (JObj [(''runId'', JStr run),
     (''timestamp'', JNum (IntNum ts)), (''text'', JStr ''hi'')])\<rparr>"

lemma runtime_state_follows_runs_witness:
  "updateProcessRuntimeFromSignal 9 ''a'' (demo_signal ''proc.run.stream'' ''r0'' 9) (Some ''r0'')
      (fold (runtime_step ''a'') [(5, demo_signal ''proc.run.started'' ''r1'' 5)] demo_procs)
   = (fold (runtime_step ''a'') [(5, demo_signal ''proc.run.started'' ''r1'' 5)] demo_procs, False)"
proof -
  let ?es = "[(5, demo_signal ''proc.run.started'' ''r1'' 5)]"
  let ?t = "fold (runtime_step ''a'') ?es demo_procs"
  obtain r0 where r0: "sql_lookup pr_id demo_procs ''a'' = Some r0" "pr_state r0 = ''idle''" "pr_active_run_id r0 = None"
    by (simp add: demo_procs_def process_spawn_def table_simps sql_replace_def sql_lookup_def)
  have run: "\<forall>e \<in> set ?es. extractRunId (sg_payload (snd e)) \<noteq> None" by code_simp
  from runtime_state_follows_runs [OF r0 run refl] obtain r where r: "sql_lookup pr_id ?t ''a'' = Some r"
    and stale: "\<And>now f i. extractRunId (sg_payload f) = Some i \<Longrightarrow> prefix ''proc.run.'' (sg_signal f)
         \<Longrightarrow> pr_active_run_id r \<noteq> Some i \<Longrightarrow> sg_signal f \<noteq> ''proc.run.started''
         \<Longrightarrow> updateProcessRuntimeFromSignal now ''a'' f (Some i) ?t = (?t, sg_signal f = ''proc.run.finished'')"
    by auto
  have "map_option pr_active_run_id (sql_lookup pr_id ?t ''a'') = Some (Some ''r1'')" by code_simp
  with r have act: "pr_active_run_id r = Some ''r1''" by simp
  have f: "extractRunId (sg_payload (demo_signal ''proc.run.stream'' ''r0'' 9)) = Some ''r0''"
    "prefix ''proc.run.'' (sg_signal (demo_signal ''proc.run.stream'' ''r0'' 9))" by code_simp+
  have g: "sg_signal (demo_signal ''proc.run.stream'' ''r0'' 9) = ''proc.run.stream''" by (simp add: demo_signal_def)
  show ?thesis using stale [OF f] act by (simp add: g)
qed

definition demo_signal_env :: signal_env where
  "demo_signal_env = \<lparr>sn_send = demo_send_env, sn_db = demo_adapter_db, sn_procs = demo_procs,
     sn_bundle = (\<lambda>_ _. Bundled []), sn_hil_pending = (\<lambda>_ _ _. Inr True)\<rparr>"

definition demo_reply_routes :: "run_route_row list" where
  "demo_reply_routes = [adapter_row 1 RUN_ROUTE_TTL_MS ''r1'' ''a'' 1000 demo_destination None]"

abbreviation "demo_final \<equiv> demo_signal ''proc.run.finished'' ''r1'' 5"

text \<open>An adapter that is never there: every attempt fails and may be repeated.\<close>

definition demo_down_env :: signal_env where
  "demo_down_env = demo_signal_env\<lparr>sn_send := demo_send_env\<lparr>se_services := (\<lambda>_. None)\<rparr>\<rparr>"



end
