(* ===== verification/ProcessStore.thy ===== *)
theory ProcessStore
  imports Tables
begin

text \<open>
  The tables of one agent process (\<open>process/store.ts\<close>): its history of messages, the tool calls of its
  runs, the approval it waits for, the queue of messages that arrive while a run is active, the segments
  that were compacted away, and its key/value table. A JSON column holds the value it encodes, the clock
  is an argument, and the usage totals kept with the history are left out.
\<close>

section \<open>Rows\<close>

datatype message_role = MrUser | MrAssistant | MrSystem | MrToolResult

record message_row =
  ms_id :: int
  ms_generation :: int
  ms_run_id :: "string option"
  ms_role :: message_role
  ms_content :: string
  ms_tool_calls :: "json option"
  ms_tool_call_id :: "string option"
  ms_media :: "json option"
  ms_origin :: "json option"
  ms_metadata :: "json option"
  ms_created_at :: int

datatype tool_status = TcRegistered | TcPending | TcCompleted | TcError

datatype tool_outcome = ToCompleted | ToFailed | ToCancelled | ToDenied

record tool_row =
  tc_dispatch_id :: string
  tc_id :: string
  tc_run_id :: string
  tc_call :: string
  tc_args :: json
  tc_status :: tool_status
  tc_result :: "json option"
  tc_error :: "string option"
  tc_outcome :: "tool_outcome option"
  tc_created_at :: int

record pending_hil =
  hl_requestId :: string
  hl_runId :: string
  hl_ownerDispatchId :: "string option"
  hl_toolCallId :: string
  hl_toolName :: string
  hl_syscall :: string
  hl_args :: json
  hl_createdAt :: int

record queued_message =
  mq_id :: int
  mq_run_id :: string
  mq_generation :: int
  mq_message :: string
  mq_media :: "json option"
  mq_origin :: "json option"
  mq_created_at :: int

record history_segment =
  hs_id :: string
  hs_generation :: int
  hs_from :: int
  hs_to :: int
  hs_archive_path :: string
  hs_summary :: "int option"
  hs_created_at :: int

text \<open>The two counters are those of the \<open>AUTOINCREMENT\<close> keys: the next id that was never used.\<close>

record process_store =
  st_messages :: "message_row list"
  st_next_message :: int
  st_tools :: "tool_row list"
  st_hil :: "pending_hil list"
  st_queue :: "queued_message list"
  st_next_queued :: int
  st_segments :: "history_segment list"
  st_kv :: "(string \<times> string) list"

definition empty_store :: process_store where
  "empty_store = \<lparr>st_messages = [], st_next_message = 1, st_tools = [], st_hil = [], st_queue = [],
     st_next_queued = 1, st_segments = [], st_kv = []\<rparr>"

section \<open>Key/value pairs\<close>

definition kv_getValue :: "string \<Rightarrow> process_store \<Rightarrow> string option" where
  "kv_getValue k s = map_option snd (sql_lookup fst (st_kv s) k)"

definition kv_setValue :: "string \<Rightarrow> string \<Rightarrow> process_store \<Rightarrow> process_store" where
  "kv_setValue k v s = s\<lparr>st_kv := sql_replace fst (k, v) (st_kv s)\<rparr>"

definition kv_deleteValue :: "string \<Rightarrow> process_store \<Rightarrow> process_store" where
  "kv_deleteValue k s = s\<lparr>st_kv := sql_delete (\<lambda>r. fst r = k) (st_kv s)\<rparr>"

definition INITIAL_HISTORY_GENERATION :: int where "INITIAL_HISTORY_GENERATION = 1"

definition getHistoryGeneration :: "process_store \<Rightarrow> int" where
  "getHistoryGeneration s =
     (case parse_int (coalesce (kv_getValue ''historyGeneration'' s) []) of
        Some g \<Rightarrow> if js_safe_integer (IntNum g) \<and> g > 0 then g else INITIAL_HISTORY_GENERATION
      | None \<Rightarrow> INITIAL_HISTORY_GENERATION)"

section \<open>Messages\<close>

record message_opts =
  mo_generation :: "int option"
  mo_runId :: "string option"
  mo_toolCalls :: "json option"
  mo_toolCallId :: "string option"
  mo_media :: "json option"
  mo_origin :: "json option"
  mo_metadata :: "json option"

definition no_opts :: message_opts where
  "no_opts = \<lparr>mo_generation = None, mo_runId = None, mo_toolCalls = None, mo_toolCallId = None,
     mo_media = None, mo_origin = None, mo_metadata = None\<rparr>"

definition new_message :: "int \<Rightarrow> message_role \<Rightarrow> string \<Rightarrow> message_opts \<Rightarrow> process_store \<Rightarrow> message_row" where
  "new_message now role content opts s =
     \<lparr>ms_id = st_next_message s, ms_generation = coalesce (mo_generation opts) (getHistoryGeneration s),
      ms_run_id = mo_runId opts, ms_role = role, ms_content = content, ms_tool_calls = mo_toolCalls opts,
      ms_tool_call_id = mo_toolCallId opts, ms_media = mo_media opts, ms_origin = mo_origin opts,
      ms_metadata = mo_metadata opts, ms_created_at = now\<rparr>"

definition appendMessage :: "int \<Rightarrow> message_role \<Rightarrow> string \<Rightarrow> message_opts \<Rightarrow> process_store \<Rightarrow> process_store \<times> int" where
  "appendMessage now role content opts s =
     (s\<lparr>st_messages := st_messages s @ [new_message now role content opts s],
        st_next_message := st_next_message s + 1\<rparr>, st_next_message s)"

definition of_message :: "int \<Rightarrow> string \<Rightarrow> message_row \<Rightarrow> bool" where
  "of_message messageId runId m \<longleftrightarrow> ms_id m = messageId \<and> ms_run_id m = Some runId"

definition updateMessageMedia :: "int \<Rightarrow> string \<Rightarrow> json \<Rightarrow> process_store \<Rightarrow> process_store" where
  "updateMessageMedia messageId runId media s =
     s\<lparr>st_messages := sql_update (of_message messageId runId) (\<lambda>m. m\<lparr>ms_media := Some media\<rparr>) (st_messages s)\<rparr>"

definition clearMessageMedia :: "int \<Rightarrow> string \<Rightarrow> process_store \<Rightarrow> process_store" where
  "clearMessageMedia messageId runId s =
     s\<lparr>st_messages := sql_update (of_message messageId runId) (\<lambda>m. m\<lparr>ms_media := None\<rparr>) (st_messages s)\<rparr>"

definition hasMessageMedia :: "int \<Rightarrow> string \<Rightarrow> process_store \<Rightarrow> bool" where
  "hasMessageMedia messageId runId s =
     (case filter (of_message messageId runId) (st_messages s) of [] \<Rightarrow> False | m # _ \<Rightarrow> ms_media m \<noteq> None)"

definition messageCount :: "process_store \<Rightarrow> nat" where
  "messageCount s = length (st_messages s)"

definition messageStats :: "process_store \<Rightarrow> nat \<times> int option \<times> int option" where
  "messageStats s =
     (let ids = map ms_id (st_messages s)
      in (length ids, if ids = [] then None else Some (foldl min (hd ids) ids),
          if ids = [] then None else Some (foldl max (hd ids) ids)))"

definition clearMessages :: "process_store \<Rightarrow> process_store" where
  "clearMessages s = kv_deleteValue ''historyUsage'' (kv_deleteValue ''contextState'' (s\<lparr>st_messages := []\<rparr>))"

definition resetHistory :: "process_store \<Rightarrow> process_store" where
  "resetHistory s =
     kv_setValue ''historyGeneration'' (show_int (getHistoryGeneration s + 1)) (clearMessages s)"

text \<open>A page: \<open>LIMIT\<close> (none when negative) and \<open>OFFSET\<close>.\<close>

definition sql_page :: "int \<Rightarrow> int \<Rightarrow> 'a list \<Rightarrow> 'a list" where
  "sql_page n off xs = (if n < 0 then drop (nat off) xs else take (nat n) (drop (nat off) xs))"

definition DEFAULT_MESSAGE_READ_LIMIT :: int where "DEFAULT_MESSAGE_READ_LIMIT = 200"

text \<open>The limit is absent (\<open>None\<close>), \<open>null\<close> (\<open>Some None\<close>) or a number.\<close>

record read_opts =
  ro_limit :: "int option option"
  ro_offset :: "int option"
  ro_before :: "int option"
  ro_after :: "int option"
  ro_tail :: bool

definition getMessages :: "read_opts \<Rightarrow> process_store \<Rightarrow> message_row list" where
  "getMessages opts s =
     (let limit = coalesce (ro_limit opts) (Some DEFAULT_MESSAGE_READ_LIMIT);
          offset = coalesce (ro_offset opts) 0;
          page = (case limit of Some n \<Rightarrow> sql_page n offset
                  | None \<Rightarrow> if offset > 0 then sql_page (-1) offset else id);
          rows = sort_key ms_id (filter (\<lambda>m. (case ro_before opts of Some b \<Rightarrow> ms_id m < b | None \<Rightarrow> True)
                   \<and> (case ro_after opts of Some a \<Rightarrow> ms_id m > a | None \<Rightarrow> True)) (st_messages s))
      in if ro_tail opts \<or> ro_before opts \<noteq> None then rev (page (rev rows)) else page rows)"

definition all_messages :: read_opts where
  "all_messages = \<lparr>ro_limit = Some None, ro_offset = None, ro_before = None, ro_after = None, ro_tail = False\<rparr>"

definition hasMessageBefore :: "int \<Rightarrow> process_store \<Rightarrow> bool" where
  "hasMessageBefore messageId s = list_ex (\<lambda>m. ms_id m < messageId) (st_messages s)"

definition hasMessageAfter :: "int \<Rightarrow> process_store \<Rightarrow> bool" where
  "hasMessageAfter messageId s = list_ex (\<lambda>m. ms_id m > messageId) (st_messages s)"

definition getMessagesForGeneration :: "process_store \<Rightarrow> message_row list" where
  "getMessagesForGeneration s =
     sort_key ms_id (filter (\<lambda>m. ms_generation m = getHistoryGeneration s) (st_messages s))"

definition getMessagesForGenerationAfter :: "int \<Rightarrow> int \<Rightarrow> int option \<Rightarrow> process_store \<Rightarrow> message_row list" where
  "getMessagesForGenerationAfter generation afterMessageId throughCreatedAt s =
     sort_key ms_id (filter (\<lambda>m. ms_generation m = generation \<and> ms_id m > afterMessageId
        \<and> (case throughCreatedAt of Some t \<Rightarrow> ms_created_at m \<le> t | None \<Rightarrow> True)) (st_messages s))"

section \<open>Compaction\<close>

record assistant_meta =
  am_thinking :: "json list option"
  am_toolCalls :: "json list option"

definition json_array :: "json option \<Rightarrow> json list option" where
  "json_array v = (case v of Some (JArr xs) \<Rightarrow> Some xs | _ \<Rightarrow> None)"

definition parseAssistantMessageMeta :: "json option \<Rightarrow> assistant_meta" where
  "parseAssistantMessageMeta v =
     (case v of
        Some (JArr xs) \<Rightarrow> \<lparr>am_thinking = None, am_toolCalls = Some xs\<rparr>
      | Some (JObj kvs) \<Rightarrow>
          \<lparr>am_thinking = json_array (map_of kvs ''thinking''), am_toolCalls = json_array (map_of kvs ''toolCalls'')\<rparr>
      | _ \<Rightarrow> \<lparr>am_thinking = None, am_toolCalls = None\<rparr>)"

definition stringifyAssistantMessageMeta :: "json list \<Rightarrow> json list \<Rightarrow> json option" where
  "stringifyAssistantMessageMeta thinking toolCalls =
     (if thinking = [] \<and> toolCalls = [] then None
      else if thinking = [] then Some (JArr toolCalls)
      else Some (JObj (if toolCalls = [] then [(''thinking'', JArr thinking)]
                       else [(''thinking'', JArr thinking), (''toolCalls'', JArr toolCalls)])))"

text \<open>The distinct ids of the tool calls of a message (an id may be absent).\<close>

definition call_ids :: "message_row \<Rightarrow> json option list" where
  "call_ids m = (if ms_role m \<noteq> MrAssistant then []
     else remdups (map (\<lambda>c. json_get c ''id'') (coalesce (am_toolCalls (parseAssistantMessageMeta (ms_tool_calls m))) [])))"

definition result_of :: "json option list \<Rightarrow> message_row \<Rightarrow> bool" where
  "result_of ids m \<longleftrightarrow> ms_role m = MrToolResult \<and> truthy (ms_tool_call_id m)
     \<and> Some (JStr (the (ms_tool_call_id m))) \<in> set ids"

text \<open>The scan for the results of a call: where they end, or \<open>None\<close> when one of them is missing.\<close>

fun results_end :: "json option list \<Rightarrow> string list \<Rightarrow> nat \<Rightarrow> message_row list \<Rightarrow> nat option" where
  "results_end ids matched i [] = None"
| "results_end ids matched i (m # ms) =
     (if result_of ids m then
        (let matched' = List.insert (the (ms_tool_call_id m)) matched
         in if length matched' = length ids then Some (i + 1) else results_end ids matched' (i + 1) ms)
      else results_end ids matched (i + 1) ms)"

definition call_block :: "message_row list \<Rightarrow> nat \<Rightarrow> nat option" where
  "call_block records start =
     (let ids = call_ids (records ! start)
      in if ids = [] then None
         else Some (coalesce (results_end ids [] (start + 1) (drop (start + 1) records)) (length records)))"

datatype cut_direction = Backward | Forward

definition move_cut :: "message_row list \<Rightarrow> cut_direction \<Rightarrow> nat \<Rightarrow> nat \<Rightarrow> nat" where
  "move_cut records dir start pos =
     (case call_block records start of
        None \<Rightarrow> pos
      | Some e \<Rightarrow> if start < pos \<and> pos < e then (case dir of Backward \<Rightarrow> start | Forward \<Rightarrow> e) else pos)"

definition normalizeCompactionCut :: "message_row list \<Rightarrow> int \<Rightarrow> cut_direction \<Rightarrow> nat" where
  "normalizeCompactionCut records requested dir =
     fold (move_cut records dir) [0..<length records] (nat (max 0 (min (int (length records)) requested)))"

text \<open>The messages a compaction takes: all but the last \<open>keepLast\<close>, or those up to a message id.\<close>

definition getHistoryPrefixMessages :: "int option \<Rightarrow> int option \<Rightarrow> process_store \<Rightarrow> message_row list" where
  "getHistoryPrefixMessages keepLast throughMessageId s =
     (let records = getMessagesForGeneration s
      in case keepLast of
           Some k \<Rightarrow> take (normalizeCompactionCut records (int (length records) - max 0 k) Backward) records
         | None \<Rightarrow>
             (case throughMessageId of
                Some t \<Rightarrow> take (normalizeCompactionCut records
                            (int (length (dropWhile (\<lambda>m. \<not> ms_id m \<le> t) (rev records)))) Forward) records
              | None \<Rightarrow> []))"

definition in_range :: "int \<Rightarrow> int \<Rightarrow> int \<Rightarrow> message_row \<Rightarrow> bool" where
  "in_range generation from_id to_id m \<longleftrightarrow> ms_generation m = generation \<and> from_id \<le> ms_id m \<and> ms_id m \<le> to_id"

definition summary_message :: "int \<Rightarrow> int \<Rightarrow> int \<Rightarrow> string \<Rightarrow> message_row" where
  "summary_message now generation from_id summary =
     \<lparr>ms_id = from_id, ms_generation = generation, ms_run_id = None, ms_role = MrSystem, ms_content = summary,
      ms_tool_calls = None, ms_tool_call_id = None, ms_media = None, ms_origin = None, ms_metadata = None,
      ms_created_at = now\<rparr>"

definition compactHistoryPrefix :: "int \<Rightarrow> int \<Rightarrow> int \<Rightarrow> int \<Rightarrow> string \<Rightarrow> (process_store, int) action" where
  "compactHistoryPrefix now generation from_id to_id summary s =
     (let rest = sql_delete (in_range generation from_id to_id) (st_messages s)
      in case sql_insert ms_id (summary_message now generation from_id summary) rest of
           Inl e \<Rightarrow> (s\<lparr>st_messages := rest\<rparr>, Inl e)
         | Inr t \<Rightarrow> (s\<lparr>st_messages := t\<rparr>, Inr from_id))"

definition recordHistorySegment :: "int \<Rightarrow> string \<Rightarrow> int \<Rightarrow> int \<Rightarrow> int \<Rightarrow> string \<Rightarrow> int option
    \<Rightarrow> (process_store, history_segment) action" where
  "recordHistorySegment now i generation from_id to_id path summary s =
     (let r = \<lparr>hs_id = i, hs_generation = generation, hs_from = from_id, hs_to = to_id, hs_archive_path = path,
               hs_summary = summary, hs_created_at = now\<rparr>
      in case sql_insert hs_id r (st_segments s) of
           Inl e \<Rightarrow> (s, Inl e)
         | Inr t \<Rightarrow> (s\<lparr>st_segments := t\<rparr>, Inr r))"

definition getHistorySegment :: "string \<Rightarrow> process_store \<Rightarrow> history_segment option" where
  "getHistorySegment i s = sql_lookup hs_id (st_segments s) i"

section \<open>Tool calls\<close>

definition open_call :: "tool_row \<Rightarrow> bool" where
  "open_call r \<longleftrightarrow> tc_status r = TcRegistered \<or> tc_status r = TcPending"

definition new_tool :: "int \<Rightarrow> string \<Rightarrow> string \<Rightarrow> string \<Rightarrow> string \<Rightarrow> json \<Rightarrow> tool_row" where
  "new_tool now dispatchId i runId call args =
     \<lparr>tc_dispatch_id = dispatchId, tc_id = i, tc_run_id = runId, tc_call = call, tc_args = args,
      tc_status = TcRegistered, tc_result = None, tc_error = None, tc_outcome = None, tc_created_at = now\<rparr>"

definition tool_register :: "int \<Rightarrow> string \<Rightarrow> string \<Rightarrow> string \<Rightarrow> string \<Rightarrow> json \<Rightarrow> process_store \<Rightarrow> process_store result" where
  "tool_register now dispatchId i runId call args s =
     bind_result (sql_insert tc_dispatch_id (new_tool now dispatchId i runId call args) (st_tools s))
       (\<lambda>t. Inr (s\<lparr>st_tools := t\<rparr>))"

definition update_open :: "string \<Rightarrow> (tool_row \<Rightarrow> tool_row) \<Rightarrow> process_store \<Rightarrow> process_store" where
  "update_open dispatchId f s =
     s\<lparr>st_tools := sql_update (\<lambda>r. tc_dispatch_id r = dispatchId \<and> open_call r) f (st_tools s)\<rparr>"

definition resolvedToolResultOutcome :: "json \<Rightarrow> tool_outcome" where
  "resolvedToolResultOutcome v = (if json_get v ''status'' = Some (JStr ''failed'') then ToFailed else ToCompleted)"

definition tool_resolve :: "string \<Rightarrow> json \<Rightarrow> process_store \<Rightarrow> process_store" where
  "tool_resolve dispatchId v =
     update_open dispatchId (\<lambda>r. r\<lparr>tc_status := TcCompleted, tc_result := Some v,
                                    tc_outcome := Some (resolvedToolResultOutcome v)\<rparr>)"

definition tool_fail :: "string \<Rightarrow> string \<Rightarrow> tool_outcome \<Rightarrow> process_store \<Rightarrow> process_store" where
  "tool_fail dispatchId err outcome =
     update_open dispatchId (\<lambda>r. r\<lparr>tc_status := TcError, tc_error := Some err, tc_outcome := Some outcome\<rparr>)"

definition markDispatched :: "string \<Rightarrow> process_store \<Rightarrow> process_store \<times> bool" where
  "markDispatched dispatchId s =
     (let P = (\<lambda>r. tc_dispatch_id r = dispatchId \<and> tc_status r = TcRegistered)
      in (s\<lparr>st_tools := sql_update P (\<lambda>r. r\<lparr>tc_status := TcPending\<rparr>) (st_tools s)\<rparr>,
          sql_count P (st_tools s) > 0))"

definition getPending :: "string \<Rightarrow> process_store \<Rightarrow> tool_row option" where
  "getPending dispatchId s = find (\<lambda>r. tc_dispatch_id r = dispatchId \<and> open_call r) (st_tools s)"

definition isRunResolved :: "string \<Rightarrow> process_store \<Rightarrow> bool" where
  "isRunResolved runId s \<longleftrightarrow> sql_count (\<lambda>r. tc_run_id r = runId \<and> open_call r) (st_tools s) = 0"

definition getResults :: "string \<Rightarrow> process_store \<Rightarrow> tool_row list" where
  "getResults runId s = sort_key tc_created_at (filter (\<lambda>r. tc_run_id r = runId) (st_tools s))"

definition clearRun :: "string \<Rightarrow> process_store \<Rightarrow> process_store" where
  "clearRun runId s = s\<lparr>st_tools := sql_delete (\<lambda>r. tc_run_id r = runId) (st_tools s)\<rparr>"

definition clearPendingToolCalls :: "process_store \<Rightarrow> process_store" where
  "clearPendingToolCalls s = s\<lparr>st_tools := []\<rparr>"

section \<open>The approval a process waits for\<close>

definition clearPendingHil :: "process_store \<Rightarrow> process_store" where
  "clearPendingHil s = s\<lparr>st_hil := []\<rparr>"

definition setPendingHil :: "pending_hil \<Rightarrow> process_store \<Rightarrow> process_store" where
  "setPendingHil h s = s\<lparr>st_hil := [h]\<rparr>"

text \<open>The oldest row, of the given id when one is given (an empty id counts as none).\<close>

definition getPendingHil :: "string option \<Rightarrow> process_store \<Rightarrow> pending_hil option" where
  "getPendingHil requestId s =
     (case sort_key hl_createdAt (filter (\<lambda>h. truthy requestId \<longrightarrow> Some (hl_requestId h) = requestId) (st_hil s)) of
        [] \<Rightarrow> None
      | h # _ \<Rightarrow> Some h)"

definition getPendingHilForRun :: "string \<Rightarrow> process_store \<Rightarrow> pending_hil option" where
  "getPendingHilForRun runId s =
     (case getPendingHil None s of Some h \<Rightarrow> if hl_runId h \<noteq> runId then None else Some h | None \<Rightarrow> None)"

section \<open>Results and the queue\<close>

definition SYSCALL_TOOL_NAMES :: "(string \<times> string) list" where
  "SYSCALL_TOOL_NAMES = [(''fs.read'', ''Read''), (''fs.write'', ''Write''), (''fs.edit'', ''Edit''),
     (''fs.delete'', ''Delete''), (''fs.search'', ''Search''), (''shell.exec'', ''Shell''),
     (''codemode.exec'', ''CodeMode'')]"

definition outcome_text :: "tool_outcome \<Rightarrow> string" where
  "outcome_text t = (case t of ToCompleted \<Rightarrow> ''completed'' | ToFailed \<Rightarrow> ''failed''
     | ToCancelled \<Rightarrow> ''cancelled'' | ToDenied \<Rightarrow> ''denied'')"

definition appendToolResult :: "int \<Rightarrow> string \<Rightarrow> string \<Rightarrow> string \<Rightarrow> bool \<Rightarrow> string \<Rightarrow> tool_outcome
    \<Rightarrow> process_store \<Rightarrow> process_store \<times> int" where
  "appendToolResult now toolCallId syscallName content isError runId outcome =
     appendMessage now MrToolResult content
       (no_opts\<lparr>mo_runId := Some runId, mo_toolCallId := Some toolCallId,
          mo_toolCalls := Some (JObj [(''toolName'', JStr (coalesce (map_of SYSCALL_TOOL_NAMES syscallName) syscallName)),
                                      (''isError'', JBool isError), (''outcome'', JStr (outcome_text outcome))])\<rparr>)"

definition enqueue :: "int \<Rightarrow> string \<Rightarrow> string \<Rightarrow> json option \<Rightarrow> json option \<Rightarrow> process_store \<Rightarrow> process_store" where
  "enqueue now runId message media origin s =
     s\<lparr>st_queue := st_queue s @ [\<lparr>mq_id = st_next_queued s, mq_run_id = runId, mq_generation = getHistoryGeneration s,
                                 mq_message = message, mq_media = media, mq_origin = origin, mq_created_at = now\<rparr>],
       st_next_queued := st_next_queued s + 1\<rparr>"

definition dequeue :: "process_store \<Rightarrow> process_store \<times> queued_message option" where
  "dequeue s =
     (case sort_key mq_id (st_queue s) of
        [] \<Rightarrow> (s, None)
      | q # _ \<Rightarrow> (s\<lparr>st_queue := sql_delete (\<lambda>r. mq_id r = mq_id q) (st_queue s)\<rparr>, Some q))"

definition drainQueue :: "process_store \<Rightarrow> process_store \<times> queued_message list" where
  "drainQueue s = (s\<lparr>st_queue := []\<rparr>, sort_key mq_id (st_queue s))"

definition clearQueue :: "process_store \<Rightarrow> process_store" where
  "clearQueue s = s\<lparr>st_queue := []\<rparr>"

definition queueSize :: "process_store \<Rightarrow> nat" where
  "queueSize s = length (st_queue s)"

datatype run_location = LocQueued | LocRecorded

definition locateRunAdmission :: "string \<Rightarrow> process_store \<Rightarrow> run_location option" where
  "locateRunAdmission runId s =
     (if list_ex (\<lambda>q. mq_run_id q = runId) (st_queue s) then Some LocQueued
      else if list_ex (\<lambda>m. ms_run_id m = Some runId) (st_messages s) then Some LocRecorded else None)"

end
