(* ===== verification/ProcessHistory.thy ===== *)
theory ProcessHistory
  imports ProcessStore "HOL-Library.Multiset"
begin

text \<open>
  The history of a process as the model reads it: the messages of \<open>ProcessStore.toMessages\<close>
  (\<open>process/store.ts\<close>), the order \<open>orderMessagesForProvider\<close> gives them (\<open>process/do.ts\<close>), and
  compaction, which replaces the oldest messages by a summary. The media of user messages and the model
  metadata of answers are left out of the messages.
\<close>

section \<open>Messages for the provider\<close>

record provider_message =
  pm_role :: message_role
  pm_text :: string
  pm_blocks :: "json list"
  pm_toolCallId :: "string option"
  pm_toolName :: string
  pm_isError :: bool
  pm_timestamp :: int

definition user_text :: "message_row \<Rightarrow> string" where
  "user_text m = (if ms_role m = MrSystem then ''[Process Event]:'' @ [char_of (10 :: nat)] @ ms_content m else ms_content m)"

definition assistant_blocks :: "message_row \<Rightarrow> json list" where
  "assistant_blocks m =
     (let meta = parseAssistantMessageMeta (ms_tool_calls m)
      in coalesce (am_thinking meta) []
         @ (if ms_content m = [] then [] else [JObj [(''type'', JStr ''text''), (''text'', JStr (ms_content m))]])
         @ coalesce (am_toolCalls meta) [])"

definition toMessage :: "message_row \<Rightarrow> provider_message" where
  "toMessage m =
     (case ms_role m of
        MrAssistant \<Rightarrow> \<lparr>pm_role = MrAssistant, pm_text = [], pm_blocks = assistant_blocks m, pm_toolCallId = None,
          pm_toolName = [], pm_isError = False, pm_timestamp = ms_created_at m\<rparr>
      | MrToolResult \<Rightarrow>
          (let meta = (\<lambda>k. case ms_tool_calls m of Some v \<Rightarrow> json_get v k | None \<Rightarrow> None)
           in \<lparr>pm_role = MrToolResult, pm_text = ms_content m, pm_blocks = [], pm_toolCallId = ms_tool_call_id m,
               pm_toolName = coalesce (json_string (meta ''toolName'')) ''unknown'',
               pm_isError = (meta ''isError'' = Some (JBool True)), pm_timestamp = ms_created_at m\<rparr>)
      | _ \<Rightarrow> \<lparr>pm_role = MrUser, pm_text = user_text m, pm_blocks = [], pm_toolCallId = None,
          pm_toolName = [], pm_isError = False, pm_timestamp = ms_created_at m\<rparr>)"

definition toMessages :: "process_store \<Rightarrow> provider_message list" where
  "toMessages s = map toMessage (getMessages all_messages s)"

section \<open>Ordering\<close>

text \<open>The distinct ids of the calls an assistant message makes.\<close>

definition pm_calls :: "provider_message \<Rightarrow> json option list" where
  "pm_calls m = (if pm_role m \<noteq> MrAssistant then []
     else remdups (map (\<lambda>b. json_get b ''id'') (filter (\<lambda>b. json_get b ''type'' = Some (JStr ''toolCall'')) (pm_blocks m))))"

definition pm_result_id :: "provider_message \<Rightarrow> json option" where
  "pm_result_id m = map_option JStr (pm_toolCallId m)"

definition answers :: "json option list \<Rightarrow> provider_message \<Rightarrow> bool" where
  "answers ids m \<longleftrightarrow> pm_role m = MrToolResult \<and> pm_toolCallId m \<noteq> None \<and> pm_result_id m \<in> set ids"

text \<open>
  The loop over the messages with the block that waits for results: the ids it still expects and the
  messages put off until they are there. When the last result arrives the deferred messages come next.
\<close>

function order_messages :: "(json option list \<times> provider_message list) option \<Rightarrow> provider_message list \<Rightarrow> provider_message list" where
  "order_messages None [] = []"
| "order_messages (Some (ids, deferred)) [] = deferred"
| "order_messages None (m # ms) =
     m # order_messages (if pm_calls m = [] then None else Some (pm_calls m, [])) ms"
| "order_messages (Some (ids, deferred)) (m # ms) =
     (if answers ids m then
        (let rest = filter (\<lambda>i. i \<noteq> pm_result_id m) ids
         in m # (if rest = [] then order_messages None (deferred @ ms) else order_messages (Some (rest, deferred)) ms))
      else order_messages (Some (ids, deferred @ [m])) ms)"
  by pat_completeness auto

termination
  by (relation "measures [\<lambda>(st, ms). length ms + (case st of None \<Rightarrow> 0 | Some (ids, d) \<Rightarrow> length d), \<lambda>(st, ms). length ms]") auto

definition orderMessagesForProvider :: "provider_message list \<Rightarrow> provider_message list" where
  "orderMessagesForProvider ms = order_messages None ms"

text \<open>A prompt in which the results of every call directly follow it.\<close>

fun calls_answered :: "provider_message list \<Rightarrow> bool" where
  "calls_answered [] \<longleftrightarrow> True"
| "calls_answered (m # ms) \<longleftrightarrow> list_all (\<lambda>r. pm_role r = MrToolResult) (take (length (pm_calls m)) ms)
     \<and> mset (map pm_result_id (take (length (pm_calls m)) ms)) = mset (pm_calls m)
     \<and> calls_answered ms"

text \<open>
  A transcript in which the results of every call come before the next message that makes calls; other
  messages may stand between them. The argument is what is still expected.
\<close>

definition plain :: "provider_message \<Rightarrow> bool" where
  "plain m \<longleftrightarrow> pm_role m \<noteq> MrToolResult \<and> pm_calls m = []"

fun closed :: "json option list \<Rightarrow> provider_message list \<Rightarrow> bool" where
  "closed ids [] \<longleftrightarrow> ids = []"
| "closed ids (m # ms) \<longleftrightarrow>
     (if answers ids m then closed (filter (\<lambda>i. i \<noteq> pm_result_id m) ids) ms
      else if ids = [] then pm_role m \<noteq> MrToolResult \<and> closed (pm_calls m) ms
      else plain m \<and> closed ids ms)"

lemma order_mset:
  "mset (order_messages st ms) = mset ms + (case st of None \<Rightarrow> {#} | Some (ids, d) \<Rightarrow> mset d)"
  by (induction st ms rule: order_messages.induct) (auto simp: Let_def)

lemma order_plain: "list_all plain d \<Longrightarrow> order_messages None (d @ ms) = d @ order_messages None ms"
  by (induction d) (auto simp: plain_def)

lemma distinct_calls [simp]: "distinct (pm_calls m)"
  by (simp add: pm_calls_def)

lemma calls_answered_plain: "list_all plain d \<Longrightarrow> calls_answered (d @ ms) \<longleftrightarrow> calls_answered ms"
  by (induction d) (auto simp: plain_def)

abbreviation "is_result m \<equiv> pm_role m = MrToolResult"

text \<open>What follows a call whose ids are still expected: first the missing results.\<close>

lemma mset_but_one: "x \<in> set xs \<Longrightarrow> distinct xs \<Longrightarrow> mset xs = add_mset x (mset (filter (\<lambda>y. y \<noteq> x) xs))"
proof (induction xs)
  case (Cons a xs)
  show ?case
  proof (cases "a = x")
    case True
    then have "filter (\<lambda>y. y \<noteq> x) xs = xs" using Cons.prems(2) by (auto simp: filter_id_conv)
    with True show ?thesis by (simp del: mset_filter)
  next
    case False
    then show ?thesis using Cons by (simp del: mset_filter)
  qed
qed simp

lemma order_block:
  assumes "closed ids ms" "distinct ids" "ids \<noteq> []" "list_all plain d"
  shows "\<exists>rs p ms'. order_messages (Some (ids, d)) ms = rs @ d @ p @ order_messages None ms'
    \<and> list_all is_result rs \<and> mset (map pm_result_id rs) = mset ids \<and> list_all plain p
    \<and> closed [] ms' \<and> length ms' < length ms
    \<and> filter is_result ms = rs @ filter is_result ms'
    \<and> filter (\<lambda>m. \<not> is_result m) ms = p @ filter (\<lambda>m. \<not> is_result m) ms'"
  using assms
proof (induction ms arbitrary: ids d)
  case (Cons m ms)
  show ?case
  proof (cases "answers ids m")
    case True
    let ?rest = "filter (\<lambda>i. i \<noteq> pm_result_id m) ids"
    have res: "is_result m" and mem: "pm_result_id m \<in> set ids" using True by (auto simp: answers_def)
    have ids: "mset ids = add_mset (pm_result_id m) (mset ?rest)"
      using mem Cons.prems(2) by (rule mset_but_one)
    show ?thesis
    proof (cases "?rest = []")
      case rest: True
      have "order_messages (Some (ids, d)) (m # ms) = m # d @ order_messages None ms"
        using True rest Cons.prems(4) by (simp add: order_plain)
      moreover have "closed [] ms" using Cons.prems(1) True rest by simp
      moreover have "mset (map pm_result_id [m]) = mset ids" using ids rest by simp
      moreover note facts = calculation this res
      show ?thesis
        by (rule exI [where x = "[m]"], rule exI [where x = "[]"], rule exI [where x = ms], intro conjI)
          (use facts in \<open>simp_all del: order_messages.simps mset_map\<close>)
    next
      case rest: False
      have "closed ?rest ms" using Cons.prems(1) True by simp
      from Cons.IH [OF this _ rest Cons.prems(4)] Cons.prems(2) obtain rs p ms' where
        IH: "order_messages (Some (?rest, d)) ms = rs @ d @ p @ order_messages None ms'"
          "list_all is_result rs" "mset (map pm_result_id rs) = mset ?rest" "list_all plain p" "closed [] ms'"
          "length ms' < length ms" "filter is_result ms = rs @ filter is_result ms'"
          "filter (\<lambda>m. \<not> is_result m) ms = p @ filter (\<lambda>m. \<not> is_result m) ms'" by auto
      have head: "order_messages (Some (ids, d)) (m # ms) = (m # rs) @ d @ p @ order_messages None ms'"
        using True rest IH(1) by (simp add: Let_def)
      have all: "mset (map pm_result_id (m # rs)) = mset ids" using ids IH(3) by simp
      show ?thesis
        by (rule exI [where x = "m # rs"], rule exI [where x = p], rule exI [where x = ms'], intro conjI)
          (use IH res head all in \<open>simp_all del: order_messages.simps mset_map\<close>)
    qed
  next
    case False
    then have pl: "plain m" and cl: "closed ids ms" using Cons.prems(1,3) by auto
    have "list_all plain (d @ [m])" using pl Cons.prems(4) by simp
    from Cons.IH [OF cl Cons.prems(2,3) this] obtain rs p ms' where
      IH: "order_messages (Some (ids, d @ [m])) ms = rs @ (d @ [m]) @ p @ order_messages None ms'"
        "list_all is_result rs" "mset (map pm_result_id rs) = mset ids" "list_all plain p" "closed [] ms'"
        "length ms' < length ms" "filter is_result ms = rs @ filter is_result ms'"
        "filter (\<lambda>m. \<not> is_result m) ms = p @ filter (\<lambda>m. \<not> is_result m) ms'" by auto
    have head: "order_messages (Some (ids, d)) (m # ms) = rs @ d @ (m # p) @ order_messages None ms'"
      using False IH(1) by simp
    show ?thesis
      by (rule exI [where x = rs], rule exI [where x = "m # p"], rule exI [where x = ms'], intro conjI)
        (use IH pl pl [unfolded plain_def] head in \<open>simp_all del: order_messages.simps mset_map\<close>)
  qed
qed simp

lemma order_closed:
  "closed [] ms \<Longrightarrow> calls_answered (order_messages None ms)
    \<and> filter is_result (order_messages None ms) = filter is_result ms
    \<and> filter (\<lambda>m. \<not> is_result m) (order_messages None ms) = filter (\<lambda>m. \<not> is_result m) ms"
proof (induction "length ms" arbitrary: ms rule: less_induct)
  case less
  show ?case
  proof (cases ms)
    case (Cons m ms0)
    have nr: "\<not> is_result m" and cl: "closed (pm_calls m) ms0"
      using less.prems by (auto simp: Cons answers_def split: if_splits)
    show ?thesis
    proof (cases "pm_calls m = []")
      case True
      then show ?thesis using less.hyps [of ms0] cl nr by (simp add: Cons)
    next
      case False
      from order_block [OF cl _ False, of "[]"] obtain rs p ms' where
        b: "order_messages (Some (pm_calls m, [])) ms0 = rs @ p @ order_messages None ms'"
          "list_all is_result rs" "mset (map pm_result_id rs) = mset (pm_calls m)" "list_all plain p" "closed [] ms'"
          "length ms' < length ms0" "filter is_result ms0 = rs @ filter is_result ms'"
          "filter (\<lambda>m. \<not> is_result m) ms0 = p @ filter (\<lambda>m. \<not> is_result m) ms'" by auto
      have IH: "calls_answered (order_messages None ms')"
        "filter is_result (order_messages None ms') = filter is_result ms'"
        "filter (\<lambda>m. \<not> is_result m) (order_messages None ms') = filter (\<lambda>m. \<not> is_result m) ms'"
        using less.hyps [of ms'] b(5,6) by (auto simp: Cons)
      have len: "length rs = length (pm_calls m)"
        using arg_cong [OF b(3), of size] by simp
      have rs_calls: "pm_calls r = []" if "r \<in> set rs" for r
        using b(2) that by (auto simp: pm_calls_def list_all_iff)
      have "calls_answered (rs @ p @ order_messages None ms')"
        using rs_calls IH(1) b(4) by (induction rs) (auto simp: calls_answered_plain)
      moreover have "filter is_result (rs @ p) = rs" "filter (\<lambda>m. \<not> is_result m) (rs @ p) = p"
        using b(2,4) by (auto simp: list_all_iff plain_def filter_id_conv filter_empty_conv)
      ultimately show ?thesis
        using b IH nr False len by (simp add: Cons)
    qed
  qed simp
qed

text \<open>
  A prompt shows every call with its results: ordering keeps every message, and when in the transcript
  the results of each call come before the next message that makes calls, then in the prompt they directly
  follow the call, whatever other messages came in between, and the order of the results and of all other
  messages is kept.
\<close>

theorem prompt_pairs_calls_with_results:
  "mset (orderMessagesForProvider ms) = mset ms
    \<and> (closed [] ms \<longrightarrow> calls_answered (orderMessagesForProvider ms)
        \<and> filter is_result (orderMessagesForProvider ms) = filter is_result ms
        \<and> filter (\<lambda>m. \<not> is_result m) (orderMessagesForProvider ms)
            = filter (\<lambda>m. \<not> is_result m) ms)"
  using order_mset [of None ms] order_closed [of ms]
  by (simp add: orderMessagesForProvider_def)

section \<open>What a transcript still expects\<close>

text \<open>The ids expected after a part of a transcript, or \<open>None\<close> when it is out of order.\<close>

fun expect :: "json option list \<Rightarrow> provider_message list \<Rightarrow> json option list option" where
  "expect ids [] = Some ids"
| "expect ids (m # ms) =
     (if answers ids m then expect (filter (\<lambda>i. i \<noteq> pm_result_id m) ids) ms
      else if ids = [] then (if is_result m then None else expect (pm_calls m) ms)
      else if plain m then expect ids ms else None)"

lemma closed_expect: "closed ids ms \<longleftrightarrow> expect ids ms = Some []"
  by (induction ids ms rule: closed.induct) auto

lemma expect_append: "expect ids (xs @ ys) = Option.bind (expect ids xs) (\<lambda>ids'. expect ids' ys)"
  by (induction ids xs rule: expect.induct) auto

lemma expect_distinct: "expect ids ms = Some ids' \<Longrightarrow> distinct ids \<Longrightarrow> distinct ids'"
  by (induction ids ms rule: expect.induct) (auto split: if_splits)

lemma answers_Nil [simp]: "\<not> answers [] m"
  by (simp add: answers_def)

section \<open>Witness\<close>

definition demo_call :: json where
  "demo_call = JObj [(''type'', JStr ''toolCall''), (''id'', JStr ''c1''), (''name'', JStr ''Read'')]"

text \<open>A question, a call, an event that arrived before its result, the result, and the answer.\<close>

definition demo_history :: process_store where
  "demo_history =
     fst (appendMessage 5 MrAssistant ''done'' (no_opts\<lparr>mo_runId := Some ''r1''\<rparr>)
     (fst (appendToolResult 4 ''c1'' ''fs.read'' ''text'' False ''r1'' ToCompleted
     (fst (appendMessage 3 MrSystem ''event'' no_opts
     (fst (appendMessage 2 MrAssistant [] (no_opts\<lparr>mo_runId := Some ''r1'',
             mo_toolCalls := stringifyAssistantMessageMeta [] [demo_call]\<rparr>)
     (fst (appendMessage 1 MrUser ''read it'' (no_opts\<lparr>mo_runId := Some ''r1''\<rparr>) empty_store)))))))))"

lemma prompt_pairs_calls_with_results_witness:
  "calls_answered (orderMessagesForProvider (toMessages demo_history))
   \<and> map pm_role (orderMessagesForProvider (toMessages demo_history))
       = [MrUser, MrAssistant, MrToolResult, MrUser, MrAssistant]"
proof -
  have "closed [] (toMessages demo_history)" by code_simp
  with prompt_pairs_calls_with_results [of "toMessages demo_history"]
  have "calls_answered (orderMessagesForProvider (toMessages demo_history))" by blast
  moreover have "map pm_role (orderMessagesForProvider (toMessages demo_history))
       = [MrUser, MrAssistant, MrToolResult, MrUser, MrAssistant]" by code_simp
  ultimately show ?thesis ..
qed

end
