(* ===== verification/Compaction.thy ===== *)
theory Compaction
  imports ProcessHistory
begin

text \<open>
  Compaction of a process's history (\<open>handleHistoryCompact\<close> of \<open>process/do.ts\<close> over \<open>process/store.ts\<close>):
  a snapshot of the oldest messages is taken, summarised and archived while other operations may run, and
  is replaced by the summary only if it is still what the history begins with. Writing the summary and
  the archive object are outside: their outcomes are arguments.
\<close>

section \<open>Snapshot and installation\<close>

record compact_args =
  ca_summary :: "json option"
  ca_generateSummary :: "json option"
  ca_keepLast :: "json option"
  ca_throughMessageId :: "json option"

definition isNonNegativeInteger :: "json option \<Rightarrow> int option" where
  "isNonNegativeInteger v = (case v of Some (JNum (IntNum i)) \<Rightarrow> if i \<ge> 0 then Some i else None | _ \<Rightarrow> None)"

definition isPositiveInteger :: "json option \<Rightarrow> int option" where
  "isPositiveInteger v = (case v of Some (JNum (IntNum i)) \<Rightarrow> if i > 0 then Some i else None | _ \<Rightarrow> None)"

definition compact_text :: "json option \<Rightarrow> string option" where
  "compact_text v = (case json_string v of
     Some x \<Rightarrow> if js_trim x = [] then None else Some (js_trim x) | None \<Rightarrow> None)"

text \<open>\<open>active\<close> is whether a run is active, \<open>stopped\<close> whether the request was cancelled or its run is over.\<close>

definition compact_snapshot :: "compact_args \<Rightarrow> bool \<Rightarrow> bool \<Rightarrow> bool \<Rightarrow> process_store \<Rightarrow> (int \<times> message_row list) result" where
  "compact_snapshot args allowActive active stopped s =
     (let explicitSummary = compact_text (ca_summary args);
          generateSummary = (ca_generateSummary args = Some (JBool True));
          keepLast = isNonNegativeInteger (ca_keepLast args);
          throughId = isPositiveInteger (ca_throughMessageId args)
      in if explicitSummary = None \<and> \<not> generateSummary
         then throw ''proc.history.compact requires summary or generateSummary''
         else if explicitSummary \<noteq> None \<and> generateSummary
         then throw ''proc.history.compact accepts either summary or generateSummary, not both''
         else if (ca_keepLast args \<noteq> None) = (ca_throughMessageId args \<noteq> None)
         then throw ''proc.history.compact requires exactly one of keepLast or throughMessageId''
         else if ca_keepLast args \<noteq> None \<and> keepLast = None
         then throw ''proc.history.compact keepLast must be a non-negative integer''
         else if ca_throughMessageId args \<noteq> None \<and> throughId = None
         then throw ''proc.history.compact throughMessageId must be a positive integer''
         else if \<not> allowActive \<and> active then throw ''Process is active''
         else if stopped then throw ''Compaction was cancelled''
         else
           (let selected = getHistoryPrefixMessages keepLast throughId s
            in if selected = [] then throw ''No history messages selected for compaction''
               else Inr (getHistoryGeneration s, selected)))"

definition formatCompactionSummaryMessage :: "nat \<Rightarrow> string \<Rightarrow> string \<Rightarrow> string" where
  "formatCompactionSummaryMessage archivedMessages archivePath summary =
     js_join [char_of (10 :: nat)] [''Process history compacted.'', [],
       ''Archived messages: '' @ show_int (int archivedMessages), ''Archive: '' @ archivePath, [], ''Summary:'', summary]"

text \<open>\<open>same_epoch\<close> is whether the process was reset or killed since the snapshot.\<close>

definition snapshot_matches :: "bool \<Rightarrow> int \<Rightarrow> message_row list \<Rightarrow> process_store \<Rightarrow> bool" where
  "snapshot_matches same_epoch generation selected s \<longleftrightarrow>
     same_epoch \<and> getHistoryGeneration s = generation
     \<and> getHistoryPrefixMessages None (Some (ms_id (last selected))) s = selected"

definition compact_install :: "int \<Rightarrow> bool \<Rightarrow> bool \<Rightarrow> bool \<Rightarrow> bool \<Rightarrow> int \<Rightarrow> message_row list \<Rightarrow> string \<Rightarrow> string \<Rightarrow> string
    \<Rightarrow> (process_store, int \<times> history_segment) action" where
  "compact_install now allowActive active stopped same_epoch generation selected segmentId archivedTo summary s =
     (if stopped then (s, throw ''Compaction was cancelled'')
      else if (\<not> allowActive \<and> active) \<or> \<not> snapshot_matches same_epoch generation selected s
      then (s, throw ''History changed during compaction'')
      else
        (let from_id = ms_id (hd selected); to_id = ms_id (last selected)
         in case compactHistoryPrefix now generation from_id to_id
                   (formatCompactionSummaryMessage (length selected) archivedTo summary) s of
              (_, Inl e) \<Rightarrow> (s, Inl e)
            | (s1, Inr i) \<Rightarrow>
                (case recordHistorySegment now segmentId generation from_id to_id archivedTo (Some i) s1 of
                   (_, Inl e) \<Rightarrow> (s, Inl e)
                 | (s2, Inr seg) \<Rightarrow> (s2, Inr (i, seg)))))"

section \<open>Where the cut falls\<close>

text \<open>A cut splits a block of messages when it separates a call from one of its results.\<close>

definition splits :: "message_row list \<Rightarrow> nat \<Rightarrow> bool" where
  "splits records pos \<longleftrightarrow> (\<exists>start e. start < length records \<and> call_block records start = Some e \<and> start < pos \<and> pos < e)"

text \<open>Blocks that do not overlap partially.\<close>

definition nested_blocks :: "message_row list \<Rightarrow> bool" where
  "nested_blocks records \<longleftrightarrow> (\<forall>a e b f. a < length records \<and> b < length records \<and> call_block records a = Some e
     \<and> call_block records b = Some f \<and> a < b \<and> b < e \<longrightarrow> f \<le> e)"

lemma results_end_bound: "results_end ids matched i ms = Some e \<Longrightarrow> i < e \<and> e \<le> i + length ms"
  by (induction ids matched i ms rule: results_end.induct) (auto simp: Let_def split: if_splits)

lemma call_block_bound: "call_block records start = Some e \<Longrightarrow> start < length records \<Longrightarrow> start < e \<and> e \<le> length records"
  by (auto simp: call_block_def Let_def coalesce_def split: if_splits option.splits dest!: results_end_bound)

definition clear_below :: "message_row list \<Rightarrow> nat \<Rightarrow> nat \<Rightarrow> bool" where
  "clear_below records n pos \<longleftrightarrow> (\<forall>b f. b < n \<longrightarrow> call_block records b = Some f \<longrightarrow> \<not> (b < pos \<and> pos < f))"

lemma forward_cut:
  assumes "n \<le> length records"
  shows "pos \<le> fold (move_cut records Forward) [0..<n] pos
    \<and> clear_below records n (fold (move_cut records Forward) [0..<n] pos)
    \<and> (\<forall>p \<ge> pos. \<not> splits records p \<longrightarrow> fold (move_cut records Forward) [0..<n] pos \<le> p)"
  using assms
proof (induction n)
  case (Suc n)
  let ?c = "fold (move_cut records Forward) [0..<n] pos"
  have IH: "pos \<le> ?c" "clear_below records n ?c" "\<forall>p \<ge> pos. \<not> splits records p \<longrightarrow> ?c \<le> p" using Suc by auto
  have step: "fold (move_cut records Forward) [0..<Suc n] pos = move_cut records Forward n ?c" by simp
  show ?case
  proof (cases "\<exists>e. call_block records n = Some e \<and> n < ?c \<and> ?c < e")
    case True
    then obtain e where e: "call_block records n = Some e" "n < ?c" "?c < e" by blast
    then have new: "fold (move_cut records Forward) [0..<Suc n] pos = e" by (simp add: step move_cut_def)
    have "clear_below records (Suc n) e"
      using IH(2) e by (fastforce simp: clear_below_def less_Suc_eq)
    moreover have "e \<le> p" if p: "pos \<le> p" "\<not> splits records p" for p
    proof (rule ccontr)
      assume "\<not> e \<le> p"
      moreover have "n < p" using p IH(3) e(2) by (meson less_le_trans)
      ultimately show False using p(2) e(1) Suc.prems by (auto simp: splits_def)
    qed
    ultimately show ?thesis using new IH(1) e(3) by auto
  next
    case False
    then have same: "fold (move_cut records Forward) [0..<Suc n] pos = ?c"
      by (auto simp: step move_cut_def split: option.split)
    have "clear_below records (Suc n) ?c"
      using IH(2) False by (auto simp: clear_below_def less_Suc_eq)
    then show ?thesis using same IH by auto
  qed
qed (simp add: clear_below_def)

lemma backward_cut:
  assumes "n \<le> length records"
  shows "fold (move_cut records Backward) [0..<n] pos \<le> pos
    \<and> (nested_blocks records \<longrightarrow> clear_below records n (fold (move_cut records Backward) [0..<n] pos))
    \<and> (\<forall>p \<le> pos. \<not> splits records p \<longrightarrow> p \<le> fold (move_cut records Backward) [0..<n] pos)"
  using assms
proof (induction n)
  case (Suc n)
  let ?c = "fold (move_cut records Backward) [0..<n] pos"
  have IH: "?c \<le> pos" "nested_blocks records \<Longrightarrow> clear_below records n ?c" "\<forall>p \<le> pos. \<not> splits records p \<longrightarrow> p \<le> ?c"
    using Suc by auto
  have step: "fold (move_cut records Backward) [0..<Suc n] pos = move_cut records Backward n ?c" by simp
  show ?case
  proof (cases "\<exists>e. call_block records n = Some e \<and> n < ?c \<and> ?c < e")
    case True
    then obtain e where e: "call_block records n = Some e" "n < ?c" "?c < e" by blast
    then have new: "fold (move_cut records Backward) [0..<Suc n] pos = n" by (simp add: step move_cut_def)
    have "clear_below records (Suc n) n" if nb: "nested_blocks records"
    proof -
      have "\<not> (b < n \<and> n < f)" if "b < Suc n" "call_block records b = Some f" for b f
      proof
        assume bf: "b < n \<and> n < f"
        then have "f \<le> ?c" using IH(2) [OF nb] that e(2) by (force simp: clear_below_def)
        moreover have "e \<le> f" using nb that e(1) bf Suc.prems unfolding nested_blocks_def by (meson Suc_le_lessD less_trans)
        ultimately show False using e(3) by simp
      qed
      then show ?thesis by (auto simp: clear_below_def)
    qed
    moreover have "p \<le> n" if p: "p \<le> pos" "\<not> splits records p" for p
    proof (rule ccontr)
      assume "\<not> p \<le> n"
      moreover have "p < e" using p IH(3) e(3) by (meson le_less_trans)
      ultimately show False using p(2) e(1) Suc.prems unfolding splits_def not_le by (meson Suc_le_lessD)
    qed
    ultimately show ?thesis using new IH(1) e(2) by auto
  next
    case False
    then have same: "fold (move_cut records Backward) [0..<Suc n] pos = ?c"
      by (auto simp: step move_cut_def split: option.split)
    have "clear_below records (Suc n) ?c" if "nested_blocks records"
      using IH(2) [OF that] False by (auto simp: clear_below_def less_Suc_eq)
    then show ?thesis using same IH by auto
  qed
qed (simp add: clear_below_def)

lemma clear_not_splits: "clear_below records (length records) pos \<Longrightarrow> \<not> splits records pos"
  by (auto simp: clear_below_def splits_def)

lemma not_splits_ends [simp]: "\<not> splits records 0" "\<not> splits records (length records)"
  using call_block_bound by (fastforce simp: splits_def)+

section \<open>What a compaction takes\<close>

lemma nat_max_0: "nat (max 0 x) = nat x"
  by simp

lemma cut_forward:
  assumes c: "c = normalizeCompactionCut records requested Forward"
  shows "\<not> splits records c" "c \<le> length records" "nat (min (int (length records)) requested) \<le> c"
    "nat (min (int (length records)) requested) \<le> p \<Longrightarrow> \<not> splits records p \<Longrightarrow> c \<le> p"
proof -
  note c' = c [unfolded normalizeCompactionCut_def nat_max_0]
  note f = forward_cut [of "length records" records "nat (min (int (length records)) requested)", folded c', OF order_refl]
  show "\<not> splits records c" "nat (min (int (length records)) requested) \<le> c"
    using f clear_not_splits by auto
  show least: "\<And>p. nat (min (int (length records)) requested) \<le> p \<Longrightarrow> \<not> splits records p \<Longrightarrow> c \<le> p"
    using f by blast
  show "c \<le> length records" by (rule least) simp_all
qed

lemma cut_backward:
  assumes c: "c = normalizeCompactionCut records requested Backward"
  shows "nested_blocks records \<Longrightarrow> \<not> splits records c" "c \<le> nat (min (int (length records)) requested)"
    "p \<le> nat (min (int (length records)) requested) \<Longrightarrow> \<not> splits records p \<Longrightarrow> p \<le> c"
proof -
  note c' = c [unfolded normalizeCompactionCut_def nat_max_0]
  note b = backward_cut [of "length records" records "nat (min (int (length records)) requested)", folded c', OF order_refl]
  show "nested_blocks records \<Longrightarrow> \<not> splits records c" "c \<le> nat (min (int (length records)) requested)"
    "p \<le> nat (min (int (length records)) requested) \<Longrightarrow> \<not> splits records p \<Longrightarrow> p \<le> c"
    using b clear_not_splits by auto
qed

section \<open>What is left is still a transcript\<close>

text \<open>Rows as the process writes them: results carry an id, the calls of an answer are its tool call blocks.\<close>

definition row_ok :: "message_row \<Rightarrow> bool" where
  "row_ok r \<longleftrightarrow> (ms_role r = MrToolResult \<longrightarrow> truthy (ms_tool_call_id r)) \<and> pm_calls (toMessage r) = call_ids r"

lemma pm_role_toMessage [simp]: "pm_role (toMessage r) = (if ms_role r = MrSystem then MrUser else ms_role r)"
  by (cases "ms_role r") (simp_all add: toMessage_def Let_def)

lemma result_toMessage: "ms_role r = MrToolResult \<Longrightarrow> pm_toolCallId (toMessage r) = ms_tool_call_id r"
  by (simp add: toMessage_def Let_def)

lemma result_of_answers: "row_ok r \<Longrightarrow> result_of ids r \<longleftrightarrow> answers ids (toMessage r)"
  by (cases "ms_role r"; cases "ms_tool_call_id r")
    (auto simp: result_of_def answers_def pm_result_id_def row_ok_def result_toMessage truthy_def)

definition left_of :: "json option list \<Rightarrow> string list \<Rightarrow> json option list" where
  "left_of ids matched = filter (\<lambda>i. i \<notin> (\<lambda>x. Some (JStr x)) ` set matched) ids"

lemma left_of_insert:
  "left_of ids (List.insert x matched) = filter (\<lambda>i. i \<noteq> Some (JStr x)) (left_of ids matched)"
  by (auto simp: left_of_def intro!: filter_cong)

lemma left_of_Nil:
  assumes "distinct ids" "distinct matched" "\<forall>x \<in> set matched. Some (JStr x) \<in> set ids"
  shows "length matched = length ids \<longleftrightarrow> left_of ids matched = []"
proof -
  let ?m = "(\<lambda>x. Some (JStr x)) ` set matched"
  have m: "card ?m = length matched" using assms(2) by (simp add: card_image inj_on_def distinct_card)
  have i: "card (set ids) = length ids" using assms(1) by (rule distinct_card)
  have "?m \<subseteq> set ids" using assms(3) by auto
  then have "length matched = length ids \<longleftrightarrow> ?m = set ids"
    using m i by (metis card_subset_eq finite_set)
  also have "\<dots> \<longleftrightarrow> left_of ids matched = []"
    using \<open>?m \<subseteq> set ids\<close> by (auto simp: left_of_def filter_empty_conv)
  finally show ?thesis .
qed

lemma results_end_open:
  assumes "distinct ids" "distinct matched" "\<forall>x \<in> set matched. Some (JStr x) \<in> set ids"
    and "\<forall>r \<in> set b. row_ok r"
    and "\<forall>k \<le> length b. expect (left_of ids matched) (map toMessage (take k b)) \<noteq> Some []"
    and "expect (left_of ids matched) (map toMessage b) \<noteq> None"
    and "results_end ids matched i (b @ rest) = Some e"
  shows "i + length b < e"
  using assms(2-)
proof (induction b arbitrary: matched i)
  case Nil
  then show ?case by (auto dest: results_end_bound)
next
  case (Cons r b)
  let ?E = "left_of ids matched"
  have E: "?E \<noteq> []" using Cons.prems(4) by (metis expect.simps(1) le0 list.simps(8) take0)
  have ok: "row_ok r" using Cons.prems(3) by simp
  have sub: "answers ?E (toMessage r)" if "result_of ids r"
  proof (rule ccontr)
    assume no: "\<not> answers ?E (toMessage r)"
    have "\<not> plain (toMessage r)" using that by (simp add: result_of_def plain_def)
    then show False using Cons.prems(5) E no by simp
  qed
  have sup: "result_of ids r" if "answers ?E (toMessage r)"
    using that ok by (auto simp: result_of_answers answers_def left_of_def)
  have E': "left_of ids (List.insert (the (ms_tool_call_id r)) matched) = filter (\<lambda>i. i \<noteq> pm_result_id (toMessage r)) ?E"
    if "result_of ids r"
  proof -
    have "pm_result_id (toMessage r) = Some (JStr (the (ms_tool_call_id r)))"
      using that by (auto simp: result_of_def pm_result_id_def result_toMessage truthy_def)
    then show ?thesis by (simp add: left_of_insert)
  qed
  show ?case
  proof (cases "result_of ids r")
    case True
    let ?m = "List.insert (the (ms_tool_call_id r)) matched"
    have m: "distinct ?m" "\<forall>x \<in> set ?m. Some (JStr x) \<in> set ids"
      using Cons.prems(1,2) True by (auto simp: result_of_def)
    have next_E: "expect ?E (map toMessage (r # xs)) = expect (left_of ids ?m) (map toMessage xs)" for xs
      using sub [OF True] by (simp add: E' [OF True])
    have k: "\<forall>k \<le> length b. expect (left_of ids ?m) (map toMessage (take k b)) \<noteq> Some []"
    proof (intro allI impI)
      fix k assume "k \<le> length b"
      then show "expect (left_of ids ?m) (map toMessage (take k b)) \<noteq> Some []"
        using Cons.prems(4) [rule_format, of "Suc k"] next_E [of "take k b"] by simp
    qed
    have "length ?m \<noteq> length ids"
      using left_of_Nil [OF assms(1) m] k [rule_format, of 0] by auto
    then have "results_end ids ?m (i + 1) (b @ rest) = Some e" using Cons.prems(6) True by (simp add: Let_def)
    from Cons.IH [OF m _ k _ this] Cons.prems(3,5) next_E [of b] show ?thesis by simp
  next
    case False
    then have next_E: "expect ?E (map toMessage (r # xs)) = expect ?E (map toMessage xs)" if "plain (toMessage r)" for xs
      using that sup E by auto
    have pl: "plain (toMessage r)" using Cons.prems(5) False sup E by (auto split: if_splits)
    have k: "\<forall>k \<le> length b. expect ?E (map toMessage (take k b)) \<noteq> Some []"
    proof (intro allI impI)
      fix k assume "k \<le> length b"
      then show "expect ?E (map toMessage (take k b)) \<noteq> Some []"
        using Cons.prems(4) [rule_format, of "Suc k"] next_E [OF pl, of "take k b"] by simp
    qed
    have "results_end ids matched (i + 1) (b @ rest) = Some e" using Cons.prems(6) False by simp
    from Cons.IH [OF Cons.prems(1,2) _ k _ this] Cons.prems(3,5) next_E [OF pl, of b] show ?thesis by simp
  qed
qed

lemma open_block:
  assumes "expect [] (map toMessage xs) = Some E" "E \<noteq> []"
  shows "\<exists>a m b. xs = a @ m # b \<and> pm_calls (toMessage m) \<noteq> []
    \<and> expect (pm_calls (toMessage m)) (map toMessage b) = Some E
    \<and> (\<forall>k \<le> length b. expect (pm_calls (toMessage m)) (map toMessage (take k b)) \<noteq> Some [])"
  using assms
proof (induction xs arbitrary: E rule: rev_induct)
  case (snoc z xs)
  obtain F where F: "expect [] (map toMessage xs) = Some F" "expect F [toMessage z] = Some E"
    using snoc.prems(1) by (auto simp: expect_append simp del: expect.simps(2) split: Option.bind_splits)
  show ?case
  proof (cases "F = []")
    case True
    then have "pm_calls (toMessage z) = E" using F(2) by (auto split: if_splits)
    then show ?thesis using snoc.prems(2) by (intro exI [of _ xs] exI [of _ z] exI [of _ "[]"]) simp
  next
    case False
    from snoc.IH [OF F(1) this] obtain a m b where
      amb: "xs = a @ m # b" "pm_calls (toMessage m) \<noteq> []" "expect (pm_calls (toMessage m)) (map toMessage b) = Some F"
        "\<forall>k \<le> length b. expect (pm_calls (toMessage m)) (map toMessage (take k b)) \<noteq> Some []" by blast
    have all: "expect (pm_calls (toMessage m)) (map toMessage (b @ [z])) = Some E"
      using amb(3) F(2) by (simp add: expect_append)
    have "expect (pm_calls (toMessage m)) (map toMessage (take k (b @ [z]))) \<noteq> Some []" if "k \<le> length (b @ [z])" for k
      using that amb(4) all snoc.prems(2) by (cases "k \<le> length b") (auto simp: not_le Suc_le_eq [symmetric])
    with amb(1,2) all show ?thesis by (intro exI [of _ a] exI [of _ m] exI [of _ "b @ [z]"]) auto
  qed
qed simp

lemma cut_closed:
  assumes "closed [] (map toMessage rs)" "\<forall>r \<in> set rs. row_ok r" "\<not> splits rs c"
  shows "closed [] (map toMessage (take c rs))" "closed [] (map toMessage (drop c rs))"
proof -
  have "expect [] (map toMessage (take c rs @ drop c rs)) = Some []" using assms(1) by (simp add: closed_expect)
  then obtain E where E: "expect [] (map toMessage (take c rs)) = Some E" "expect E (map toMessage (drop c rs)) = Some []"
    unfolding map_append expect_append by (auto split: Option.bind_splits)
  have "E = []"
  proof (rule ccontr)
    assume ne: "E \<noteq> []"
    from open_block [OF E(1) this] obtain a m b where
      amb: "take c rs = a @ m # b" "pm_calls (toMessage m) \<noteq> []"
        "expect (pm_calls (toMessage m)) (map toMessage b) = Some E"
        "\<forall>k \<le> length b. expect (pm_calls (toMessage m)) (map toMessage (take k b)) \<noteq> Some []" by blast
    have c: "c < length rs" using E ne by (cases "c < length rs") auto
    have rs: "rs = a @ m # b @ drop c rs" using amb(1) by (metis append_Cons append_assoc append_take_drop_id)
    have "length (take c rs) = c" using c by simp
    then have la: "length a < c" "length a + 1 + length b = c" by (simp_all add: amb(1))
    have nth: "rs ! length a = m" by (subst rs) (simp add: nth_append)
    have mid: "drop (length a + 1) rs = b @ drop c rs" by (subst rs) simp
    have "m \<in> set rs" using rs by (metis in_set_conv_decomp)
    then have ids: "call_ids m = pm_calls (toMessage m)" using assms(2) by (simp add: row_ok_def)
    define e where "e = coalesce (results_end (call_ids m) [] (length a + 1) (b @ drop c rs)) (length rs)"
    have blk: "call_block rs (length a) = Some e"
      using amb(2) mid by (simp add: call_block_def nth ids e_def)
    have bs: "\<forall>r \<in> set b. row_ok r" using assms(2) rs by (metis Un_iff list.set_intros(2) set_append)
    have "c < e"
    proof (cases "results_end (call_ids m) [] (length a + 1) (b @ drop c rs)")
      case None
      then show ?thesis using c by (simp add: e_def)
    next
      case (Some x)
      have "left_of (call_ids m) [] = call_ids m" by (simp add: left_of_def)
      from results_end_open [OF _ _ _ bs _ _ Some, unfolded this] amb(3,4) la have "c < x" by (simp add: ids)
      then show ?thesis unfolding e_def Some by simp
    qed
    then show False using assms(3) blk la(1) c by (auto simp: splits_def)
  qed
  then show "closed [] (map toMessage (take c rs))" "closed [] (map toMessage (drop c rs))"
    using E by (simp_all add: closed_expect)
qed

lemma results_end_closed:
  assumes "distinct ids" "distinct matched" "\<forall>x \<in> set matched. Some (JStr x) \<in> set ids"
    and "\<forall>r \<in> set b. row_ok r" "left_of ids matched \<noteq> []"
    and "expect (left_of ids matched) (map toMessage b) = Some []"
  shows "\<exists>e. results_end ids matched i (b @ rest) = Some e \<and> e \<le> i + length b"
  using assms(2-)
proof (induction b arbitrary: matched i)
  case (Cons r b)
  let ?E = "left_of ids matched"
  have ok: "row_ok r" using Cons.prems(3) by simp
  show ?case
  proof (cases "answers ?E (toMessage r)")
    case True
    then have res: "result_of ids r" using ok by (auto simp: result_of_answers answers_def left_of_def)
    let ?m = "List.insert (the (ms_tool_call_id r)) matched"
    have m: "distinct ?m" "\<forall>x \<in> set ?m. Some (JStr x) \<in> set ids"
      using Cons.prems(1,2) res by (auto simp: result_of_def)
    have "pm_result_id (toMessage r) = Some (JStr (the (ms_tool_call_id r)))"
      using res by (auto simp: result_of_def pm_result_id_def result_toMessage truthy_def)
    then have E': "left_of ids ?m = filter (\<lambda>i. i \<noteq> pm_result_id (toMessage r)) ?E" by (simp add: left_of_insert)
    show ?thesis
    proof (cases "left_of ids ?m = []")
      case True
      then show ?thesis using left_of_Nil [OF assms(1) m] res by simp
    next
      case False
      have "expect (left_of ids ?m) (map toMessage b) = Some []" using Cons.prems(5) True by (simp add: E')
      from Cons.IH [OF m _ False this, of "i + 1"] Cons.prems(3) show ?thesis
        using left_of_Nil [OF assms(1) m] False res by auto
    qed
  next
    case False
    then have pl: "plain (toMessage r)" using Cons.prems(4,5) by (auto split: if_splits)
    then have "\<not> result_of ids r" by (auto simp: result_of_def plain_def)
    moreover have "expect ?E (map toMessage b) = Some []" using Cons.prems(4,5) False pl by simp
    ultimately show ?thesis using Cons.IH [OF Cons.prems(1,2) _ Cons.prems(4), of "i + 1"] Cons.prems(3) by auto
  qed
qed simp

lemma closed_at_call:
  assumes "closed [] (map toMessage rs)" "b < length rs" "pm_calls (toMessage (rs ! b)) \<noteq> []"
  shows "expect [] (map toMessage (take b rs)) = Some []"
    "expect (pm_calls (toMessage (rs ! b))) (map toMessage (drop (Suc b) rs)) = Some []"
proof -
  have "expect [] (map toMessage (take b rs @ rs ! b # drop (Suc b) rs)) = Some []"
    using assms(1,2) by (simp add: closed_expect id_take_nth_drop [symmetric])
  then obtain E where E: "expect [] (map toMessage (take b rs)) = Some E"
    "expect E (toMessage (rs ! b) # map toMessage (drop (Suc b) rs)) = Some []"
    unfolding map_append list.map(2) expect_append by (auto simp del: expect.simps(2) split: Option.bind_splits)
  have "\<not> answers E (toMessage (rs ! b))" using assms(3) by (auto simp: answers_def pm_calls_def)
  moreover have "\<not> plain (toMessage (rs ! b))" using assms(3) by (simp add: plain_def)
  ultimately have "E = []" using E(2) by (auto split: if_splits)
  then show "expect [] (map toMessage (take b rs)) = Some []"
    "expect (pm_calls (toMessage (rs ! b))) (map toMessage (drop (Suc b) rs)) = Some []"
    using E by (auto split: if_splits)
qed

lemma closed_nested:
  assumes cl: "closed [] (map toMessage rs)" and ok: "\<forall>r \<in> set rs. row_ok r"
  shows "nested_blocks rs"
proof -
  have "False" if l: "a < length rs" "b < length rs" and blk: "call_block rs a = Some e" "call_block rs b = Some f"
      and ord: "a < b" "b < e" for a e b f
  proof -
    have ids: "call_ids (rs ! x) = pm_calls (toMessage (rs ! x))" if "x < length rs" for x
      using ok that by (simp add: row_ok_def)
    have ca: "pm_calls (toMessage (rs ! a)) \<noteq> []" and cb: "pm_calls (toMessage (rs ! b)) \<noteq> []"
      using blk by (auto simp: call_block_def Let_def ids [OF l(1)] ids [OF l(2)] split: if_splits)
    define seg where "seg = take (b - Suc a) (drop (Suc a) rs)"
    obtain k where k: "b = Suc (a + k)" using ord(1) by (metis less_iff_Suc_add add_Suc_right)
    have tb: "take b rs = take a rs @ rs ! a # seg"
      using arg_cong [OF id_take_nth_drop [OF l(1)], of "take b"] l(1) by (simp add: seg_def k)
    have "expect [] (map toMessage (take b rs)) = Some []" by (rule closed_at_call [OF cl l(2) cb])
    then have "expect [] (toMessage (rs ! a) # map toMessage seg) = Some []"
      unfolding tb map_append list.map(2) expect_append closed_at_call(1) [OF cl l(1) ca] by simp
    then have seg: "expect (pm_calls (toMessage (rs ! a))) (map toMessage seg) = Some []"
      by (auto split: if_splits)
    have d: "drop (Suc a) rs = seg @ drop b rs"
      by (metis (no_types) append_take_drop_id drop_drop seg_def k add_Suc_right add_Suc_shift diff_add_inverse2 add.commute)
    have l0: "left_of (call_ids (rs ! a)) [] = pm_calls (toMessage (rs ! a))" by (simp add: left_of_def ids [OF l(1)])
    have "\<exists>e. results_end (call_ids (rs ! a)) [] (Suc a) (seg @ drop b rs) = Some e \<and> e \<le> Suc a + length seg"
    proof (rule results_end_closed)
      show "\<forall>r \<in> set seg. row_ok r" using ok by (auto simp: seg_def dest!: in_set_takeD in_set_dropD)
    qed (use l0 ca seg in \<open>simp_all add: call_ids_def\<close>)
    then have "e \<le> Suc a + length seg"
      using blk(1) by (auto simp: call_block_def Let_def d split: if_splits)
    also have "\<dots> \<le> b" using l ord(1) by (simp add: seg_def)
    finally show False using ord(2) by simp
  qed
  then show ?thesis unfolding nested_blocks_def by blast
qed

section \<open>Nothing is lost\<close>

lemma sort_key_unique:
  assumes "distinct (map f xs)" "mset xs = mset ys" "sorted (map f ys)"
  shows "sort_key f xs = ys"
proof (rule properties_for_sort_key)
  have d: "distinct (map f ys)" using assms(1,2) by (metis mset_map mset_eq_imp_distinct_iff)
  have one: "filter (\<lambda>x. f k = f x) zs = [k]" if "k \<in> set zs" "distinct (map f zs)" for k zs
    using that by (induction zs) (auto simp: filter_empty_conv image_iff)
  show "filter (\<lambda>x. f k = f x) ys = filter (\<lambda>x. f k = f x) xs" if "k \<in> set ys" for k
    using that one [of k ys] one [of k xs] d assms(1) mset_eq_setD [OF assms(2)] by simp
qed (use assms in simp_all)

definition store_ok :: "process_store \<Rightarrow> bool" where
  "store_ok s \<longleftrightarrow> keyed ms_id (st_messages s)"

lemma generation_rows:
  "set (getMessagesForGeneration s) = {m \<in> set (st_messages s). ms_generation m = getHistoryGeneration s}"
  "sorted (map ms_id (getMessagesForGeneration s))"
  "store_ok s \<Longrightarrow> distinct (map ms_id (getMessagesForGeneration s))"
proof -
  show "store_ok s \<Longrightarrow> distinct (map ms_id (getMessagesForGeneration s))"
    unfolding getMessagesForGeneration_def store_ok_def keyed_def
    by (metis (no_types) distinct_map_filterI mset_eq_imp_distinct_iff mset_map mset_sort)
qed (auto simp: getMessagesForGeneration_def)

lemma through_is_prefix:
  "\<exists>c \<le> length (getMessagesForGeneration s).
     getHistoryPrefixMessages None (Some t) s = take c (getMessagesForGeneration s)"
  by (rule exI [of _ "normalizeCompactionCut (getMessagesForGeneration s)
        (int (length (dropWhile (\<lambda>m. \<not> ms_id m \<le> t) (rev (getMessagesForGeneration s))))) Forward"])
    (simp add: getHistoryPrefixMessages_def Let_def cut_forward(2) [OF refl])

lemma sorted_hd_last:
  "sorted (map f xs) \<Longrightarrow> x \<in> set xs \<Longrightarrow> f (hd xs) \<le> f x \<and> f x \<le> f (last xs)"
  for f :: "'a \<Rightarrow> 'b :: linorder"
  by (induction xs) auto

lemma in_range_iff_prefix:
  assumes "store_ok s" "selected = take c (getMessagesForGeneration s)" "selected \<noteq> []"
    and "m \<in> set (st_messages s)"
  shows "in_range (getHistoryGeneration s) (ms_id (hd selected)) (ms_id (last selected)) m \<longleftrightarrow> m \<in> set selected"
proof -
  let ?rs = "getMessagesForGeneration s"
  have rs: "?rs = selected @ drop c ?rs" using assms(2) by simp
  have srt: "sorted (map ms_id selected)" "\<forall>x \<in> set selected. \<forall>y \<in> set (drop c ?rs). ms_id x \<le> ms_id y"
    using generation_rows(2) [of s] by (subst (asm) rs, simp add: sorted_append)+
  have dst: "distinct (map ms_id (selected @ drop c ?rs))" using generation_rows(3) [OF assms(1)] rs by simp
  have mem: "m \<in> set ?rs \<longleftrightarrow> ms_generation m = getHistoryGeneration s" using assms(4) generation_rows(1) [of s] by auto
  show ?thesis
  proof
    assume r: "in_range (getHistoryGeneration s) (ms_id (hd selected)) (ms_id (last selected)) m"
    then have "m \<in> set selected \<or> m \<in> set (drop c ?rs)" using mem rs by (metis Un_iff in_range_def set_append)
    moreover have "m \<notin> set (drop c ?rs)"
    proof
      assume d: "m \<in> set (drop c ?rs)"
      have l: "last selected \<in> set selected" using assms(3) by simp
      then have "ms_id (last selected) \<noteq> ms_id m" using d dst by (force simp: image_iff)
      then show False using srt(2) l d r by (force simp: in_range_def)
    qed
    ultimately show "m \<in> set selected" by blast
  next
    assume m: "m \<in> set selected"
    then have "ms_id (hd selected) \<le> ms_id m" "ms_id m \<le> ms_id (last selected)"
      using sorted_hd_last [OF srt(1)] by blast+
    then show "in_range (getHistoryGeneration s) (ms_id (hd selected)) (ms_id (last selected)) m"
      using m mem rs by (metis Un_iff in_range_def set_append)
  qed
qed

lemma filter_out_prefix: "distinct (xs @ ys) \<Longrightarrow> filter (\<lambda>m. m \<notin> set xs) (xs @ ys) = ys"
  by (induction xs) (auto simp: filter_id_conv)

lemma compact_install_ok:
  assumes "compact_install now allowActive active stopped same_epoch g selected segId path summary s = (s', Inr (i, seg))"
  defines "msg \<equiv> summary_message now g (ms_id (hd selected)) (formatCompactionSummaryMessage (length selected) path summary)"
  shows "snapshot_matches same_epoch g selected s" "\<not> stopped" "allowActive \<or> \<not> active"
    "sql_insert ms_id msg (sql_delete (in_range g (ms_id (hd selected)) (ms_id (last selected))) (st_messages s))
       = Inr (st_messages s')"
    "st_kv s' = st_kv s" "i = ms_id (hd selected)"
    "hs_from seg = ms_id (hd selected)" "hs_to seg = ms_id (last selected)" "hs_archive_path seg = path"
    "seg \<in> set (st_segments s')"
  using assms(1) unfolding compact_install_def compactHistoryPrefix_def recordHistorySegment_def Let_def msg_def
  by (auto simp: sql_insert_def split: if_splits sum.splits)

lemma compact_install_messages:
  assumes ok: "store_ok s" and ne: "selected \<noteq> []"
    and run: "compact_install now allowActive active stopped same_epoch g selected segId path summary s = (s', Inr (i, seg))"
  defines "msg \<equiv> summary_message now g (ms_id (hd selected)) (formatCompactionSummaryMessage (length selected) path summary)"
  shows "st_messages s' = filter (\<lambda>m. m \<notin> set selected) (st_messages s) @ [msg]" "store_ok s'"
    "getMessagesForGeneration s = selected @ drop (length selected) (getMessagesForGeneration s)"
    "getMessagesForGeneration s' = msg # drop (length selected) (getMessagesForGeneration s)"
proof -
  let ?rs = "getMessagesForGeneration s"
  note inst = compact_install_ok [OF run, folded msg_def]
  from inst(1) have g: "getHistoryGeneration s = g"
    and sel: "getHistoryPrefixMessages None (Some (ms_id (last selected))) s = selected"
    by (auto simp: snapshot_matches_def)
  obtain c where c: "c \<le> length ?rs" "selected = take c ?rs" using through_is_prefix [of s "ms_id (last selected)"] sel by auto
  then have len: "length selected = c" by simp
  show rs: "?rs = selected @ drop (length selected) ?rs" using c len by simp
  have del: "sql_delete (in_range g (ms_id (hd selected)) (ms_id (last selected))) (st_messages s)
      = filter (\<lambda>m. m \<notin> set selected) (st_messages s)"
    unfolding sql_delete_def g [symmetric] by (rule filter_cong) (simp_all add: in_range_iff_prefix [OF ok c(2) ne])
  show msgs: "st_messages s' = filter (\<lambda>m. m \<notin> set selected) (st_messages s) @ [msg]"
    using inst(4) by (simp add: del sql_insert_def split: if_splits)
  show ok': "store_ok s'"
    using keyed_insert [OF _ inst(4)] ok by (simp add: store_ok_def)
  have g': "getHistoryGeneration s' = g" using g inst(5) by (simp add: getHistoryGeneration_def kv_getValue_def)
  have dst: "distinct (map ms_id ?rs)" using generation_rows(3) [OF ok] .
  have "distinct ?rs" using dst by (simp add: distinct_map)
  then have drop_eq: "filter (\<lambda>m. m \<notin> set selected) ?rs = drop c ?rs"
    using filter_out_prefix [of selected "drop c ?rs"] unfolding rs [unfolded len, symmetric] by blast
  have "mset (filter (\<lambda>m. ms_generation m = g) (st_messages s')) = mset (msg # drop c ?rs)"
  proof -
    have "ms_generation msg = g" by (simp add: msg_def summary_message_def)
    then have "filter (\<lambda>m. ms_generation m = g) (st_messages s')
        = filter (\<lambda>m. m \<notin> set selected) (filter (\<lambda>m. ms_generation m = g) (st_messages s)) @ [msg]"
      by (simp add: msgs conj_commute)
    then have "mset (filter (\<lambda>m. ms_generation m = g) (st_messages s'))
        = add_mset msg (mset (filter (\<lambda>m. m \<notin> set selected) (filter (\<lambda>m. ms_generation m = g) (st_messages s))))"
      by (simp del: mset_filter filter_filter)
    also have "mset (filter (\<lambda>m. m \<notin> set selected) (filter (\<lambda>m. ms_generation m = g) (st_messages s)))
        = mset (filter (\<lambda>m. m \<notin> set selected) ?rs)"
      by (simp add: getMessagesForGeneration_def g del: filter_filter)
    finally show ?thesis by (simp add: drop_eq del: mset_filter)
  qed
  moreover have "distinct (map ms_id (filter (\<lambda>m. ms_generation m = g) (st_messages s')))"
    using ok' by (simp add: store_ok_def keyed_def distinct_map_filterI)
  moreover have "sorted (map ms_id (msg # drop c ?rs))"
  proof -
    have srt: "sorted (map ms_id (selected @ drop c ?rs))" using generation_rows(2) [of s] rs len by simp
    then have "\<forall>y \<in> set (drop c ?rs). ms_id (hd selected) \<le> ms_id y"
      using ne by (cases selected) auto
    then show ?thesis using srt by (simp add: sorted_append msg_def summary_message_def)
  qed
  ultimately show "getMessagesForGeneration s' = msg # drop (length selected) ?rs"
    unfolding getMessagesForGeneration_def [of s'] g' len by (intro sort_key_unique)
qed

lemma summary_plain: "plain (toMessage (summary_message now g i txt))"
  by (simp add: plain_def toMessage_def summary_message_def pm_calls_def)

text \<open>
  C10. Compaction loses nothing: a compaction that fails leaves the history as it is. One that succeeds, with
  whatever happened since its snapshot, replaces exactly the archived messages, which are still the oldest
  of the history, by one summary and records the segment; every other message and its place stay. And a
  transcript in which every call has its results keeps that form.
\<close>

theorem compaction_is_lossless:
  assumes "store_ok s" "selected \<noteq> []"
    and "compact_install now allowActive active stopped same_epoch g selected segId path summary s = (s', res)"
  shows "(\<forall>e. res = Inl e \<longrightarrow> s' = s)
    \<and> (\<forall>i seg. res = Inr (i, seg) \<longrightarrow> store_ok s'
        \<and> getMessagesForGeneration s = selected @ drop (length selected) (getMessagesForGeneration s)
        \<and> (\<exists>msg. ms_id msg = ms_id (hd selected) \<and> ms_role msg = MrSystem
             \<and> st_messages s' = filter (\<lambda>m. m \<notin> set selected) (st_messages s) @ [msg]
             \<and> getMessagesForGeneration s' = msg # drop (length selected) (getMessagesForGeneration s))
        \<and> seg \<in> set (st_segments s') \<and> hs_archive_path seg = path
        \<and> hs_from seg = ms_id (hd selected) \<and> hs_to seg = ms_id (last selected)
        \<and> ((\<forall>r \<in> set (st_messages s). row_ok r) \<and> closed [] (map toMessage (getMessagesForGeneration s))
             \<longrightarrow> closed [] (map toMessage (getMessagesForGeneration s'))))"
proof (intro conjI allI impI)
  fix e assume "res = Inl e"
  then show "s' = s" using assms(3)
    by (auto simp: compact_install_def Let_def split: if_splits sum.splits prod.splits)
next
  fix i seg assume res: "res = Inr (i, seg)"
  note run = assms(3) [unfolded res]
  note m = compact_install_messages [OF assms(1,2) run]
  note inst = compact_install_ok [OF run]
  show "store_ok s'" "getMessagesForGeneration s = selected @ drop (length selected) (getMessagesForGeneration s)"
    "seg \<in> set (st_segments s')" "hs_archive_path seg = path" "hs_from seg = ms_id (hd selected)" "hs_to seg = ms_id (last selected)"
    by (fact m(2) m(3) inst)+
  show "\<exists>msg. ms_id msg = ms_id (hd selected) \<and> ms_role msg = MrSystem
      \<and> st_messages s' = filter (\<lambda>m. m \<notin> set selected) (st_messages s) @ [msg]
      \<and> getMessagesForGeneration s' = msg # drop (length selected) (getMessagesForGeneration s)"
    using m(1,4) by (auto simp: summary_message_def)
  assume c: "(\<forall>r \<in> set (st_messages s). row_ok r) \<and> closed [] (map toMessage (getMessagesForGeneration s))"
  let ?rs = "getMessagesForGeneration s"
  obtain n where n: "n = normalizeCompactionCut ?rs
      (int (length (dropWhile (\<lambda>m. \<not> ms_id m \<le> ms_id (last selected)) (rev ?rs)))) Forward" by simp
  have "selected = take n ?rs" using inst(1) by (simp add: snapshot_matches_def getHistoryPrefixMessages_def n Let_def)
  moreover have "n \<le> length ?rs" "\<not> splits ?rs n" using cut_forward [OF n] by auto
  ultimately have "\<not> splits ?rs (length selected)" by simp
  moreover have "\<forall>r \<in> set ?rs. row_ok r" using c generation_rows(1) [of s] by auto
  ultimately have "closed [] (map toMessage (drop (length selected) ?rs))" using c cut_closed by blast
  then show "closed [] (map toMessage (getMessagesForGeneration s'))"
    using summary_plain by (simp add: m(4) plain_def)
qed

lemma take_rev_dropWhile:
  "m \<in> set xs \<Longrightarrow> \<not> P m \<Longrightarrow> m \<in> set (take (length (dropWhile P (rev xs))) xs)"
proof -
  assume m: "m \<in> set xs" "\<not> P m"
  let ?k = "length (dropWhile P (rev xs))"
  have "rev xs = takeWhile P (rev xs) @ dropWhile P (rev xs)" by simp
  then have "xs = rev (dropWhile P (rev xs)) @ rev (takeWhile P (rev xs))" by (metis rev_append rev_rev_ident)
  then have "take ?k xs = rev (dropWhile P (rev xs))" and "set xs = set (dropWhile P (rev xs)) \<union> set (takeWhile P (rev xs))"
    by (metis append_eq_conv_conj length_rev, metis set_append set_rev)
  then show ?thesis using m by (auto dest: set_takeWhileD)
qed

lemma last_kept:
  assumes "length (dropWhile (\<lambda>m. \<not> Q m) (rev xs)) = Suc k"
  shows "Q (xs ! k)"
proof -
  define d where "d = dropWhile (\<lambda>m. \<not> Q m) (rev xs)"
  have d: "length d = Suc k" using assms by (simp only: d_def)
  then have ne: "d \<noteq> []" by auto
  have "rev xs = takeWhile (\<lambda>m. \<not> Q m) (rev xs) @ d" by (simp add: d_def)
  then have "xs = rev d @ rev (takeWhile (\<lambda>m. \<not> Q m) (rev xs))" by (metis rev_append rev_rev_ident)
  then have "xs ! k = rev d ! k" using d by (metis length_rev lessI nth_append)
  also have "\<dots> = hd d" using d ne by (simp add: rev_nth hd_conv_nth)
  finally show ?thesis using hd_dropWhile [of "\<lambda>m. \<not> Q m" "rev xs"] ne unfolding d_def by simp
qed

lemma compact_snapshot_Inr:
  "compact_snapshot args allowActive active stopped s = Inr (g, selected) \<Longrightarrow>
     selected = getHistoryPrefixMessages (isNonNegativeInteger (ca_keepLast args)) (isPositiveInteger (ca_throughMessageId args)) s
     \<and> selected \<noteq> [] \<and> g = getHistoryGeneration s
     \<and> (isNonNegativeInteger (ca_keepLast args) = None \<or> isPositiveInteger (ca_throughMessageId args) = None)"
  by (auto simp: compact_snapshot_def Let_def isNonNegativeInteger_def isPositiveInteger_def split: if_splits)

text \<open>
  A compaction takes whole exchanges: from a history in which every call has its results it selects a
  non-empty prefix that ends between exchanges, so that both parts keep every call with its results. It
  leaves at least the requested number of messages and takes as many as it can then, or takes everything
  up to the given message and as little more as it can.
\<close>

theorem compaction_takes_whole_exchanges:
  assumes "compact_snapshot args allowActive active stopped s = Inr (g, selected)"
    and "records = getMessagesForGeneration s"
    and "\<forall>r \<in> set records. row_ok r" "closed [] (map toMessage records)"
  shows "\<exists>c. selected = take c records \<and> 0 < c \<and> c \<le> length records
    \<and> closed [] (map toMessage (take c records)) \<and> closed [] (map toMessage (drop c records))
    \<and> (\<forall>k. isNonNegativeInteger (ca_keepLast args) = Some k \<longrightarrow> c \<le> length records - nat k
         \<and> (\<forall>p \<le> length records - nat k. \<not> splits records p \<longrightarrow> p \<le> c))
    \<and> (\<forall>t. isPositiveInteger (ca_throughMessageId args) = Some t \<longrightarrow>
         (\<forall>m \<in> set records. ms_id m \<le> t \<longrightarrow> m \<in> set selected)
         \<and> (\<forall>p \<le> length records. \<not> splits records p
              \<and> (\<forall>i < length records. ms_id (records ! i) \<le> t \<longrightarrow> i < p) \<longrightarrow> c \<le> p))"
proof -
  note snap = compact_snapshot_Inr [OF assms(1)]
  have "isNonNegativeInteger (ca_keepLast args) \<noteq> None \<or> isPositiveInteger (ca_throughMessageId args) \<noteq> None"
    using snap by (auto simp: getHistoryPrefixMessages_def Let_def split: option.splits)
  then consider (keep) k where "isNonNegativeInteger (ca_keepLast args) = Some k" "isPositiveInteger (ca_throughMessageId args) = None"
    | (through) t where "isNonNegativeInteger (ca_keepLast args) = None" "isPositiveInteger (ca_throughMessageId args) = Some t"
    using snap by force
  then show ?thesis
  proof cases
    case keep
    obtain c where c: "c = normalizeCompactionCut records (int (length records) - max 0 k) Backward" by simp
    have k: "0 \<le> k" using keep(1) by (auto simp: isNonNegativeInteger_def split: option.splits json.splits js_number.splits if_splits)
    have pos: "nat (min (int (length records)) (int (length records) - max 0 k)) = length records - nat k" using k by simp
    note cut = cut_backward [OF c, unfolded pos]
    have sel: "selected = take c records"
      using snap keep c assms(2) by (simp add: getHistoryPrefixMessages_def Let_def)
    have "\<not> splits records c" using cut(1) closed_nested [OF assms(4,3)] by blast
    from cut_closed [OF assms(4,3) this] show ?thesis
      using sel snap keep cut(2,3) by (intro exI [of _ c]) auto
  next
    case through
    let ?k = "length (dropWhile (\<lambda>m. \<not> ms_id m \<le> t) (rev records))"
    obtain c where c: "c = normalizeCompactionCut records (int ?k) Forward" by simp
    have kl: "?k \<le> length records" by (metis length_dropWhile_le length_rev)
    then have pos: "nat (min (int (length records)) (int ?k)) = ?k" by simp
    note cut = cut_forward [OF c, unfolded pos]
    have sel: "selected = take c records"
      using snap through c assms(2) by (simp add: getHistoryPrefixMessages_def Let_def)
    have upto: "m \<in> set selected" if "m \<in> set records" "ms_id m \<le> t" for m
      using take_rev_dropWhile [of m records "\<lambda>m. \<not> ms_id m \<le> t"] that set_take_subset_set_take [OF cut(3), of records]
      by (auto simp: sel)
    have least: "c \<le> p" if "p \<le> length records" "\<not> splits records p"
        "\<forall>i < length records. ms_id (records ! i) \<le> t \<longrightarrow> i < p" for p
    proof -
      have "?k \<le> p"
      proof (cases ?k)
        case (Suc n)
        then have "ms_id (records ! n) \<le> t" by (rule last_kept)
        then have "n < p" using that(3) kl Suc by simp
        then show ?thesis using Suc by simp
      qed (simp only: le0)
      then show ?thesis by (rule cut(4)) (rule that(2))
    qed
    from cut_closed [OF assms(4,3) cut(1)] show ?thesis
      using sel snap through cut(2) upto least by (intro exI [of _ c]) auto
  qed
qed

section \<open>Witnesses\<close>

definition demo_compact_args :: compact_args where
  "demo_compact_args = \<lparr>ca_summary = Some (JStr ''so far''), ca_generateSummary = None,
     ca_keepLast = Some (JNum (IntNum 2)), ca_throughMessageId = None\<rparr>"

text \<open>Keeping two messages would separate the call from its result; one more is kept.\<close>

definition demo_selected :: "message_row list" where
  "demo_selected = take 1 (getMessagesForGeneration demo_history)"

lemma demo_snapshot: "compact_snapshot demo_compact_args False False False demo_history = Inr (1, demo_selected)"
  by code_simp

lemma demo_rows: "\<forall>r \<in> set (st_messages demo_history). row_ok r"
proof -
  have "list_all (\<lambda>r. (ms_role r = MrToolResult \<longrightarrow> truthy (ms_tool_call_id r))
      \<and> pm_calls (toMessage r) = call_ids r) (st_messages demo_history)" by code_simp
  then show ?thesis by (simp add: list_all_iff row_ok_def)
qed

lemma demo_closed: "closed [] (map toMessage (getMessagesForGeneration demo_history))"
  by code_simp

lemma demo_store: "store_ok demo_history"
proof -
  have "distinct (map ms_id (st_messages demo_history))" by code_simp
  then show ?thesis by (simp add: store_ok_def keyed_def)
qed

lemma compaction_takes_whole_exchanges_witness:
  "closed [] (map toMessage demo_selected) \<and> length demo_selected = 1"
proof -
  have rows: "\<forall>r \<in> set (getMessagesForGeneration demo_history). row_ok r"
    using demo_rows generation_rows(1) [of demo_history] by auto
  from compaction_takes_whole_exchanges [OF demo_snapshot refl rows demo_closed] obtain c where
    "demo_selected = take c (getMessagesForGeneration demo_history)"
    "closed [] (map toMessage (take c (getMessagesForGeneration demo_history)))" by blast
  moreover have "length demo_selected = 1" by code_simp
  ultimately show ?thesis by simp
qed

lemma compaction_is_lossless_witness:
  "\<exists>s' i seg msg. compact_install 9 False False False True 1 demo_selected ''seg'' ''/a'' ''so far'' demo_history
      = (s', Inr (i, seg))
    \<and> getMessagesForGeneration s' = msg # drop 1 (getMessagesForGeneration demo_history)
    \<and> closed [] (map toMessage (getMessagesForGeneration s'))"
proof -
  let ?run = "compact_install 9 False False False True 1 demo_selected ''seg'' ''/a'' ''so far'' demo_history"
  have "(case snd ?run of Inr _ \<Rightarrow> True | Inl _ \<Rightarrow> False)" and len: "length demo_selected = 1" by code_simp+
  then obtain s' i seg where run: "?run = (s', Inr (i, seg))"
    by (cases ?run) (auto split: sum.splits)
  have ne: "demo_selected \<noteq> []" using len by auto
  from compaction_is_lossless [OF demo_store ne run] demo_rows demo_closed len run show ?thesis
    by (metis One_nat_def)
qed

end
