(* ===== verification/ProcessRuns.thy ===== *)
theory ProcessRuns
  imports ProcessHistory Approval Capabilities
begin

text \<open>
  The runs of an agent process (\<open>process/do.ts\<close>): how a message is admitted, starts or joins the queue, how
  the agent loop turns answers of the model into tool calls, asks for approval, sends the calls and collects
  their results, and how a run is finished, aborted or superseded.

  The handlers are asynchronous. Each is cut at its awaits into steps that run at once; what waits is a
  thread of the state, and an event moves one thread or delivers one message. The lifecycle lock makes the
  sections it protects single steps. Ids come from \<open>randomUUID\<close>, times from the clock: both are arguments.
  Left out are the signals to clients, the cached configuration, tools and prompt of a run, the media of
  answers and the task title. The log records what leaves the process and what its owner decides.
\<close>

section \<open>State\<close>

record run_state =
  rn_runId :: string
  rn_tickGeneration :: int
  rn_pendingMedia :: "int option"
  rn_events :: nat
  rn_policy :: "approval_policy option"

definition new_run :: "string \<Rightarrow> run_state" where
  "new_run runId = \<lparr>rn_runId = runId, rn_tickGeneration = 0, rn_pendingMedia = None, rn_events = 0, rn_policy = None\<rparr>"

datatype finish_status = FsOk | FsError | FsAborted

record run_finish =
  rf_runId :: string
  rf_status :: finish_status
  rf_reason :: string
  rf_text :: "string option"
  rf_error :: "string option"
  rf_queuedCount :: nat
  rf_attempts :: nat

text \<open>A nested call of a CodeMode execution that waits for approval.\<close>

record code_waiter =
  cw_requestId :: string
  cw_runId :: string
  cw_dispatchId :: string
  cw_toolCallId :: string
  cw_call :: string
  cw_args :: json

text \<open>
  Who runs a loop over tool calls: the answer to an approval, a tick before it collects the results, or a
  tick after the turn of the model. What follows one call: the rest of its loop, or a new loop.
\<close>

datatype loop_end = LeHil | LeTick | LeTurn

datatype tool_cont = ContLoop approval_policy "tool_row list" loop_end | ContHil approval_policy

datatype thread =
    ThTick string
  | ThTools string approval_policy "tool_row list" loop_end
  | ThBegin string tool_row tool_cont
  | ThStart string tool_row tool_cont
  | ThLaunch string tool_row approval_policy
  | ThCode string string approval_policy
  | ThNested code_waiter
  | ThCollect string
  | ThPrepare string
  | ThGenerate string
  | ThTurn string bool string
  | ThFinish string finish_status string "string option" "string option"

datatype log_entry =
    LgAsked pending_hil
  | LgDecided string bool bool
  | LgSent string tool_row
  | LgNested string string string json
  | LgPrompt string "provider_message list"
  | LgFinished run_finish

record proc_state =
  px_store :: process_store
  px_kv :: "string \<rightharpoonup> string"
  px_run :: "run_state option"
  px_initialized :: bool
  px_interactive :: bool
  px_finishes :: "run_finish list"
  px_handledIpc :: "string list"
  px_aborted :: "string list"
  px_resetAt :: int
  px_epoch :: nat
  px_ticking :: "string list"
  px_deferred :: "string list"
  px_waiters :: "code_waiter list"
  px_threads :: "thread list"
  px_log :: "log_entry list"

text \<open>\<open>en_account_policy\<close> and \<open>en_capabilities\<close> are part of the configuration the kernel resolves for a run.\<close>

record proc_env =
  en_parse :: "string \<Rightarrow> json option"
  en_stringify :: "json \<Rightarrow> string"
  en_account_policy :: "string option"
  en_capabilities :: "string list"

definition IPC_TOMBSTONE_LIMIT :: nat where "IPC_TOMBSTONE_LIMIT = 256"

definition USER_INTERRUPTED_TOOL_MESSAGE :: string where
  "USER_INTERRUPTED_TOOL_MESSAGE = ''User interrupted tool execution''"

definition USER_SUPERSEDED_TOOL_MESSAGE :: string where
  "USER_SUPERSEDED_TOOL_MESSAGE = ''Cancelled for this agent run because a newer user message arrived; '' @
     ''the underlying operation may still complete''"

definition TOOL_EXECUTION_DENIED_BY_USER_MESSAGE :: string where
  "TOOL_EXECUTION_DENIED_BY_USER_MESSAGE = ''Tool execution denied by user''"

definition RUNTIME_EVENT_WAKE_MESSAGE :: string where
  "RUNTIME_EVENT_WAKE_MESSAGE = ''A runtime event arrived while you were busy. '' @
     ''Review the process event above and continue.''"

section \<open>Parts the handlers share\<close>

definition on_store :: "(process_store \<Rightarrow> process_store) \<Rightarrow> proc_state \<Rightarrow> proc_state" where
  "on_store f s = s\<lparr>px_store := f (px_store s)\<rparr>"

definition log :: "log_entry \<Rightarrow> proc_state \<Rightarrow> proc_state" where
  "log e s = s\<lparr>px_log := px_log s @ [e]\<rparr>"

definition spawn :: "thread \<Rightarrow> proc_state \<Rightarrow> proc_state" where
  "spawn th s = s\<lparr>px_threads := px_threads s @ [th]\<rparr>"

definition handleRunStopped :: "string \<Rightarrow> proc_state \<Rightarrow> bool" where
  "handleRunStopped runId s \<longleftrightarrow> map_option rn_runId (px_run s) \<noteq> Some runId"

text \<open>The last \<open>IPC_TOMBSTONE_LIMIT\<close> ids.\<close>

definition tombstone :: "string \<Rightarrow> string list \<Rightarrow> string list" where
  "tombstone i ids = (let ids' = ids @ [i] in drop (length ids' - IPC_TOMBSTONE_LIMIT) ids')"

definition rememberAbortedRun :: "string \<Rightarrow> proc_state \<Rightarrow> proc_state" where
  "rememberAbortedRun runId s =
     (if runId \<in> set (px_aborted s) then s else s\<lparr>px_aborted := tombstone runId (px_aborted s)\<rparr>)"

definition isAbortedRun :: "string \<Rightarrow> proc_state \<Rightarrow> bool" where
  "isAbortedRun runId s \<longleftrightarrow> runId \<in> set (px_aborted s)"

text \<open>The message for one tool call: its text and outcome, or \<open>None\<close> while it is open.\<close>

definition result_message :: "(json \<Rightarrow> string) \<Rightarrow> string option \<Rightarrow> tool_row \<Rightarrow> (string \<times> tool_outcome) option" where
  "result_message stringify interruptPending r =
     (case tc_status r of
        TcCompleted \<Rightarrow> Some ((case coalesce (tc_result r) JNull of JStr x \<Rightarrow> x | v \<Rightarrow> stringify v),
                             coalesce (tc_outcome r) ToCompleted)
      | TcError \<Rightarrow> Some (''Error: '' @ coalesce (tc_error r) ''null'', coalesce (tc_outcome r) ToFailed)
      | _ \<Rightarrow> map_option (\<lambda>m. (''Error: '' @ m, ToCancelled)) interruptPending)"

definition append_result :: "int \<Rightarrow> (json \<Rightarrow> string) \<Rightarrow> string option \<Rightarrow> string \<Rightarrow> tool_row \<Rightarrow> process_store \<Rightarrow> process_store" where
  "append_result now stringify interruptPending runId r st =
     (case result_message stringify interruptPending r of
        None \<Rightarrow> st
      | Some (content, outcome) \<Rightarrow>
          fst (appendToolResult now (tc_id r) (tc_call r) content (outcome \<noteq> ToCompleted \<or> tc_status r \<noteq> TcCompleted)
                 runId outcome st))"

definition ingestToolResults :: "int \<Rightarrow> (json \<Rightarrow> string) \<Rightarrow> string option \<Rightarrow> string \<Rightarrow> tool_row list \<Rightarrow> process_store \<Rightarrow> process_store" where
  "ingestToolResults now stringify interruptPending runId results st =
     clearRun runId (fold (append_result now stringify interruptPending runId) results st)"

definition runFinishedPayload :: "string \<Rightarrow> finish_status \<Rightarrow> string \<Rightarrow> string option \<Rightarrow> string option \<Rightarrow> process_store \<Rightarrow> run_finish" where
  "runFinishedPayload runId status reason answer err st =
     \<lparr>rf_runId = runId, rf_status = status, rf_reason = reason, rf_text = answer, rf_error = err,
      rf_queuedCount = queueSize st, rf_attempts = 0\<rparr>"

definition emitRunFinished :: "string \<Rightarrow> finish_status \<Rightarrow> string \<Rightarrow> string option \<Rightarrow> string option \<Rightarrow> proc_state \<Rightarrow> proc_state" where
  "emitRunFinished runId status reason answer err s =
     (let payload = runFinishedPayload runId status reason answer err (px_store s)
      in if runId \<in> set (map rf_runId (px_finishes s)) then s
         else log (LgFinished payload) (s\<lparr>px_finishes := px_finishes s @ [payload]\<rparr>))"

definition claimNextQueuedRun :: "int \<Rightarrow> proc_state \<Rightarrow> proc_state" where
  "claimNextQueuedRun now s =
     (if px_run s \<noteq> None then s
      else case dequeue (px_store s) of
        (_, None) \<Rightarrow> s
      | (st, Some q) \<Rightarrow>
          s\<lparr>px_store := fst (appendMessage now MrUser (mq_message q)
              (no_opts\<lparr>mo_generation := Some (mq_generation q), mo_runId := Some (mq_run_id q),
                 mo_media := mq_media q, mo_origin := mq_origin q\<rparr>) st),
            px_run := Some (new_run (mq_run_id q))\<rparr>)"

definition finishRun_proc :: "int \<Rightarrow> string \<Rightarrow> string \<Rightarrow> finish_status \<Rightarrow> string \<Rightarrow> string option \<Rightarrow> string option
    \<Rightarrow> proc_state \<Rightarrow> proc_state" where
  "finishRun_proc now wakeId runId status reason answer err s =
     (case px_run s of
        None \<Rightarrow> s
      | Some run \<Rightarrow>
          if rn_runId run \<noteq> runId then s
          else
            (let wake = (rn_events run > 0 \<and> queueSize (px_store s) = 0);
                 s1 = on_store clearPendingHil ((emitRunFinished runId status reason answer err s)\<lparr>px_run := None\<rparr>);
                 s2 = (if wake then on_store (enqueue now wakeId RUNTIME_EVENT_WAKE_MESSAGE None None) s1 else s1)
             in claimNextQueuedRun now s2))"

text \<open>The nested calls that wait for approval get the answer that they were not approved.\<close>

definition rejectCodeModeWaiters :: "string option \<Rightarrow> proc_state \<Rightarrow> proc_state" where
  "rejectCodeModeWaiters runId s =
     s\<lparr>px_waiters := filter (\<lambda>w. runId \<noteq> None \<and> Some (cw_runId w) \<noteq> runId) (px_waiters s)\<rparr>"

definition resolveCodeModeApproval :: "string \<Rightarrow> bool \<Rightarrow> proc_state \<Rightarrow> proc_state" where
  "resolveCodeModeApproval requestId approved s =
     (case find (\<lambda>w. cw_requestId w = requestId) (px_waiters s) of
        None \<Rightarrow> s
      | Some w \<Rightarrow>
          (let s' = s\<lparr>px_waiters := filter (\<lambda>w. cw_requestId w \<noteq> requestId) (px_waiters s)\<rparr>
           in if approved then spawn (ThNested w) s' else s'))"

section \<open>Admission\<close>

datatype admission =
    Started string
  | Queued string
  | Replayed string "run_location option"

definition existingRunAdmission :: "string \<Rightarrow> proc_state \<Rightarrow> admission option" where
  "existingRunAdmission runId s =
     (if \<not> handleRunStopped runId s then Some (Replayed runId None)
      else map_option (\<lambda>l. Replayed runId (Some l)) (locateRunAdmission runId (px_store s)))"

text \<open>A message for the process: \<open>si_error\<close> is what the checks of its arguments said, \<open>si_missing\<close> a
  media key that is not stored.\<close>

record send_input =
  si_message :: string
  si_media :: "json option"
  si_origin :: "json option"
  si_from_user :: bool
  si_admittedRunId :: "string option"
  si_error :: "string option"
  si_missing :: "string option"

text \<open>The message of a process or of the scheduler starts a run or joins the queue.\<close>

definition send_queued :: "int \<Rightarrow> string \<Rightarrow> string \<Rightarrow> json option \<Rightarrow> json option \<Rightarrow> proc_state \<Rightarrow> proc_state \<times> admission" where
  "send_queued now runId message media origin s =
     (if px_run s \<noteq> None
      then (on_store (enqueue now runId message media origin) s, Queued runId)
      else (s\<lparr>px_store := fst (appendMessage now MrUser message
                (no_opts\<lparr>mo_runId := Some runId, mo_media := media, mo_origin := origin\<rparr>) (px_store s)),
              px_run := Some (new_run runId)\<rparr>, Started runId))"

text \<open>The message of a user ends the active run and starts its own.\<close>

definition supersede :: "int \<Rightarrow> (json \<Rightarrow> string) \<Rightarrow> proc_state \<Rightarrow> proc_state" where
  "supersede now stringify s =
     (case px_run s of
        None \<Rightarrow> s
      | Some run \<Rightarrow>
          rejectCodeModeWaiters (Some (rn_runId run))
            (on_store (\<lambda>st. clearPendingHil (ingestToolResults now stringify (Some USER_SUPERSEDED_TOOL_MESSAGE)
                 (rn_runId run) (getResults (rn_runId run) st) st))
              (rememberAbortedRun (rn_runId run) s)))"

definition send_interrupting :: "int \<Rightarrow> (json \<Rightarrow> string) \<Rightarrow> string \<Rightarrow> string \<Rightarrow> json option \<Rightarrow> json option
    \<Rightarrow> proc_state \<Rightarrow> proc_state \<times> admission" where
  "send_interrupting now stringify runId message media origin s =
     (let s1 = supersede now stringify s;
          (st, messageId) = appendMessage now MrUser message
             (no_opts\<lparr>mo_runId := Some runId, mo_media := media, mo_origin := origin\<rparr>) (px_store s1);
          s2 = s1\<lparr>px_store := st,
                  px_run := Some ((new_run runId)\<lparr>rn_pendingMedia := (if media \<noteq> None then Some messageId else None)\<rparr>)\<rparr>
      in (case px_run s of
            None \<Rightarrow> s2
          | Some run \<Rightarrow> emitRunFinished (rn_runId run) FsAborted ''user.superseded'' None None s2,
          Started runId))"

definition handleProcSend :: "int \<Rightarrow> proc_env \<Rightarrow> string \<Rightarrow> send_input \<Rightarrow> (proc_state, admission) action" where
  "handleProcSend now env uuid a s =
     (let runId = coalesce (si_admittedRunId a) uuid;
          existing = (if truthy (si_admittedRunId a) then existingRunAdmission runId s else None)
      in if \<not> px_initialized s then (s, throw ''Process no longer exists'')
         else case si_error a of
           Some e \<Rightarrow> (s, throw e)
         | None \<Rightarrow>
             (case existing of
                Some r \<Rightarrow> (s, Inr r)
              | None \<Rightarrow>
                  case si_missing a of
                    Some k \<Rightarrow> (s, throw (''media not found: '' @ k))
                  | None \<Rightarrow>
                  (let (s', r) = (if si_from_user a
                       then send_interrupting now (en_stringify env) runId (si_message a) (si_media a) (si_origin a) s
                       else send_queued now runId (si_message a) (si_media a) (si_origin a) s)
                   in (s', Inr r))))"

text \<open>A delegated task: \<open>message\<close> is the rendered one.\<close>

definition handleProcIpcDeliver :: "int \<Rightarrow> string \<Rightarrow> string \<Rightarrow> json option \<Rightarrow> (proc_state, admission) action" where
  "handleProcIpcDeliver now runId message origin s =
     (if \<not> px_initialized s then (s, throw ''Target process no longer exists'')
      else (let (s', r) = send_queued now runId message None origin s in (s', Inr r)))"

section \<open>Runtime events\<close>

definition add_event :: "run_state \<Rightarrow> run_state" where
  "add_event run = run\<lparr>rn_events := rn_events run + 1\<rparr>"

text \<open>An event from outside: a run of its own when it asks for one (\<open>distinct\<close>), otherwise a message
  of the active run or the start of a new one. The number is the id of the message, if one was written.\<close>

definition handleRuntimeEvent :: "int \<Rightarrow> string \<Rightarrow> string \<Rightarrow> json option \<Rightarrow> bool \<Rightarrow> string option
    \<Rightarrow> (proc_state, admission) action" where
  "handleRuntimeEvent now uuid content origin distinctRun runId s =
     (case (if truthy runId then existingRunAdmission (the runId) s else None) of
        Some r \<Rightarrow> (s, Inr r)
      | None \<Rightarrow>
          if \<not> px_initialized s then (s, throw ''Process no longer exists'')
          else (case px_run s of
             None \<Rightarrow>
               (let i = coalesce runId uuid
                in (s\<lparr>px_store := fst (appendMessage now MrSystem content
                         (no_opts\<lparr>mo_runId := (if i = [] then None else Some i), mo_origin := origin\<rparr>) (px_store s)),
                       px_run := Some (new_run i)\<rparr>, Inr (Started i)))
           | Some run \<Rightarrow>
               if distinctRun then
                 (let i = coalesce runId uuid
                  in (on_store (enqueue now i content None origin) s, Inr (Queued i)))
               else
                 (s\<lparr>px_store := fst (appendMessage now MrSystem content (no_opts\<lparr>mo_origin := origin\<rparr>) (px_store s)),
                    px_run := Some (add_event run)\<rparr>, Inr (Started (rn_runId run)))))"

text \<open>The reply or the timeout of a delegated task. Already handled, aborted or older than a reset: ignored.\<close>

definition handleIpcSignal :: "int \<Rightarrow> string \<Rightarrow> string \<Rightarrow> string option \<Rightarrow> string option \<Rightarrow> int option
    \<Rightarrow> proc_state \<Rightarrow> proc_state" where
  "handleIpcSignal now uuid content callId sourceRunId createdAt s =
     (if \<not> px_initialized s then s
      else if (callId \<noteq> None \<and> the callId \<in> set (px_handledIpc s))
        \<or> (sourceRunId \<noteq> None \<and> isAbortedRun (the sourceRunId) s)
        \<or> (case createdAt of Some t \<Rightarrow> t \<le> px_resetAt s | None \<Rightarrow> False)
      then s
      else
        (let s1 = (case callId of None \<Rightarrow> s | Some i \<Rightarrow> s\<lparr>px_handledIpc := tombstone i (px_handledIpc s)\<rparr>);
             message = (\<lambda>r. fst (appendMessage now MrSystem content (no_opts\<lparr>mo_runId := r\<rparr>) (px_store s)))
         in case px_run s of
              None \<Rightarrow> s1\<lparr>px_store := message (Some uuid), px_run := Some (new_run uuid)\<rparr>
            | Some run \<Rightarrow>
                if sourceRunId \<noteq> None \<and> sourceRunId \<noteq> Some (rn_runId run)
                then on_store (enqueue now uuid RUNTIME_EVENT_WAKE_MESSAGE None None) (s1\<lparr>px_store := message None\<rparr>)
                else s1\<lparr>px_store := message None, px_run := Some (add_event run)\<rparr>))"

section \<open>Ends\<close>

definition handleProcAbort :: "int \<Rightarrow> (json \<Rightarrow> string) \<Rightarrow> string option \<Rightarrow> proc_state \<Rightarrow> proc_state \<times> bool" where
  "handleProcAbort now stringify runId s =
     (case px_run s of
        None \<Rightarrow> (s, False)
      | Some run \<Rightarrow>
          if runId \<noteq> None \<and> runId \<noteq> Some (rn_runId run) then (s, False)
          else
            (let i = rn_runId run;
                 s1 = rememberAbortedRun i s;
                 hil = getPendingHilForRun i (px_store s1);
                 s2 = on_store (\<lambda>st. ingestToolResults now stringify (Some USER_INTERRUPTED_TOOL_MESSAGE) i (getResults i st) st) s1;
                 s3 = (case hil of Some h \<Rightarrow> resolveCodeModeApproval (hl_requestId h) False s2 | None \<Rightarrow> s2);
                 s4 = rejectCodeModeWaiters (Some i) (on_store clearPendingHil s3);
                 s5 = (emitRunFinished i FsAborted ''user'' None None s4)\<lparr>px_run := None\<rparr>
             in (claimNextQueuedRun now s5, True)))"

definition failPendingMedia :: "int \<Rightarrow> string \<Rightarrow> int \<Rightarrow> string \<Rightarrow> string \<Rightarrow> proc_state \<Rightarrow> proc_state" where
  "failPendingMedia now runId messageId message reason s =
     (case px_run s of
        None \<Rightarrow> s
      | Some run \<Rightarrow>
          if rn_runId run \<noteq> runId \<or> rn_pendingMedia run \<noteq> Some messageId then s
          else
            (let s1 = on_store (\<lambda>st. fst (appendMessage now MrSystem message (no_opts\<lparr>mo_runId := Some runId\<rparr>) st)) s
             in claimNextQueuedRun now ((emitRunFinished runId FsError reason None (Some message) s1)\<lparr>px_run := None\<rparr>)))"

text \<open>The media of a user's message are ready: the run may tick.\<close>

definition mediaPrepared :: "string \<Rightarrow> int \<Rightarrow> json option \<Rightarrow> proc_state \<Rightarrow> proc_state" where
  "mediaPrepared runId messageId media s =
     (case px_run s of
        None \<Rightarrow> s
      | Some run \<Rightarrow>
          if rn_runId run \<noteq> runId \<or> rn_pendingMedia run \<noteq> Some messageId then s
          else (on_store (\<lambda>st. case media of Some v \<Rightarrow> updateMessageMedia messageId runId v st | None \<Rightarrow> st) s)
                 \<lparr>px_run := Some (run\<lparr>rn_pendingMedia := None\<rparr>)\<rparr>)"

definition resetExecutionState :: "int \<Rightarrow> (json \<Rightarrow> string) \<Rightarrow> string \<Rightarrow> bool \<Rightarrow> proc_state \<Rightarrow> proc_state" where
  "resetExecutionState now stringify reason emitFinish s =
     (let s1 = rejectCodeModeWaiters None (s\<lparr>px_epoch := px_epoch s + 1, px_resetAt := now\<rparr>);
          s2 = (case px_run s of
                  None \<Rightarrow> s1
                | Some run \<Rightarrow>
                    (let i = rn_runId run;
                         s3 = on_store (\<lambda>st. ingestToolResults now stringify
                                (Some (''Process execution was reset: '' @ reason)) i (getResults i st) st)
                                (rememberAbortedRun i s1)
                     in if emitFinish then emitRunFinished i FsAborted reason None None s3 else s3))
      in on_store (\<lambda>st. clearQueue (clearPendingHil (clearPendingToolCalls st))) (s2\<lparr>px_run := None\<rparr>))"

text \<open>After the execution state is reset and the transcript is archived.\<close>

definition handleProcReset :: "int \<Rightarrow> (json \<Rightarrow> string) \<Rightarrow> proc_state \<Rightarrow> proc_state" where
  "handleProcReset now stringify s = on_store resetHistory (resetExecutionState now stringify ''process.reset'' True s)"

section \<open>Tool calls\<close>

definition resolve_policy :: "proc_env \<Rightarrow> proc_state \<Rightarrow> run_state \<Rightarrow> approval_policy" where
  "resolve_policy env s run =
     resolveToolApprovalPolicy (en_parse env) (en_stringify env) (en_account_policy env) (px_kv s) (rn_policy run)"

definition known_syscall :: "string \<Rightarrow> bool" where
  "known_syscall call \<longleftrightarrow> map_of SYSCALL_TOOL_NAMES call \<noteq> None"

definition plain_record :: "json \<Rightarrow> json" where
  "plain_record v = (case v of JObj _ \<Rightarrow> v | _ \<Rightarrow> JObj [])"

text \<open>The end of a tick; one that was deferred is scheduled again.\<close>

definition tick_end :: "string \<Rightarrow> proc_state \<Rightarrow> proc_state" where
  "tick_end runId s = s\<lparr>px_ticking := removeAll runId (px_ticking s), px_deferred := removeAll runId (px_deferred s)\<rparr>"

definition loop_over :: "string \<Rightarrow> loop_end \<Rightarrow> proc_state \<Rightarrow> proc_state" where
  "loop_over runId le s = (case le of LeHil \<Rightarrow> s | LeTick \<Rightarrow> spawn (ThCollect runId) s | LeTurn \<Rightarrow> tick_end runId s)"

text \<open>\<open>processToolCalls\<close> takes the registered calls of the active run and the policy of the run, which it
  keeps with the run.\<close>

definition processToolCalls :: "proc_env \<Rightarrow> string \<Rightarrow> loop_end \<Rightarrow> proc_state \<Rightarrow> proc_state" where
  "processToolCalls env runId le s =
     (let calls = filter (\<lambda>r. tc_status r = TcRegistered) (getResults runId (px_store s))
      in if calls = [] then loop_over runId le s
         else case px_run s of
           None \<Rightarrow> loop_over runId le s
         | Some run \<Rightarrow>
             if rn_runId run \<noteq> runId then loop_over runId le s
             else (let p = resolve_policy env s run
                   in spawn (ThTools runId p calls le) (s\<lparr>px_run := Some (run\<lparr>rn_policy := Some p\<rparr>)\<rparr>)))"

text \<open>One call of the loop: refused, put to the user, or begun with the timer of its dispatch.\<close>

definition tool_step :: "int \<Rightarrow> string \<Rightarrow> string \<Rightarrow> approval_policy \<Rightarrow> tool_row list \<Rightarrow> loop_end \<Rightarrow> proc_state \<Rightarrow> proc_state" where
  "tool_step now uuid runId p calls le s =
     (case calls of
        [] \<Rightarrow> loop_over runId le s
      | tc # rest \<Rightarrow>
          if handleRunStopped runId s then loop_over runId le s
          else
            (let go = (\<lambda>st. spawn (ThTools runId p rest le) (s\<lparr>px_store := st\<rparr>));
                 toolName = coalesce (map_of SYSCALL_TOOL_NAMES (tc_call tc)) (tc_call tc)
             in if \<not> known_syscall (tc_call tc)
                then go (tool_fail (tc_dispatch_id tc) (''Unknown tool '' @ toolName) ToFailed (px_store s))
                else case rs_action (resolveToolApproval p (tc_call tc) (Some (tc_args tc))) of
                  AaDeny \<Rightarrow> go (tool_fail (tc_dispatch_id tc) ''Tool execution denied by policy'' ToFailed (px_store s))
                | AaAsk \<Rightarrow>
                    if \<not> px_interactive s
                    then go (tool_fail (tc_dispatch_id tc)
                               ''Tool execution requires interactive approval, which is unavailable for this process''
                               ToFailed (px_store s))
                    else
                      (let h = \<lparr>hl_requestId = uuid, hl_runId = runId, hl_ownerDispatchId = None,
                                hl_toolCallId = tc_id tc, hl_toolName = toolName, hl_syscall = tc_call tc,
                                hl_args = plain_record (tc_args tc), hl_createdAt = now\<rparr>
                       in log (LgAsked h) (on_store (setPendingHil h) (loop_over runId le s)))
                | AaAuto \<Rightarrow> spawn (ThBegin runId tc (ContLoop p rest le)) s))"

definition go_on :: "proc_env \<Rightarrow> string \<Rightarrow> tool_cont \<Rightarrow> proc_state \<Rightarrow> proc_state" where
  "go_on env runId k s =
     (case k of
        ContLoop p rest le \<Rightarrow> spawn (ThTools runId p rest le) s
      | ContHil p \<Rightarrow> if handleRunStopped runId s then s else processToolCalls env runId LeHil s)"

text \<open>
  \<open>beginToolDispatch\<close> when the timer is set (\<open>timer_error\<close> is what setting it failed with); the start of a call
  that is taken is announced. The caller goes on after one that is not.
\<close>

definition begin_step :: "proc_env \<Rightarrow> string option \<Rightarrow> string \<Rightarrow> tool_row \<Rightarrow> tool_cont \<Rightarrow> proc_state \<Rightarrow> proc_state" where
  "begin_step env timer_error runId tc k s =
     (case timer_error of
        Some e \<Rightarrow> go_on env runId k (on_store (tool_fail (tc_dispatch_id tc) (''Failed to schedule tool timeout: '' @ e) ToFailed) s)
      | None \<Rightarrow>
          if handleRunStopped runId s then go_on env runId k s
          else
            (let (st, taken) = markDispatched (tc_dispatch_id tc) (px_store s);
                 s' = s\<lparr>px_store := st\<rparr>
             in if taken then spawn (ThStart runId tc k) s' else go_on env runId k s'))"

definition cont_policy :: "tool_cont \<Rightarrow> approval_policy" where
  "cont_policy k = (case k of ContLoop p rest le \<Rightarrow> p | ContHil p \<Rightarrow> p)"

text \<open>After the start was announced: the call is launched and the caller goes on.\<close>

definition start_step :: "proc_env \<Rightarrow> string \<Rightarrow> tool_row \<Rightarrow> tool_cont \<Rightarrow> proc_state \<Rightarrow> proc_state" where
  "start_step env runId tc k s =
     (if handleRunStopped runId s
      then (case k of ContLoop p rest le \<Rightarrow> loop_over runId le s | ContHil p \<Rightarrow> s)
      else go_on env runId k (spawn (ThLaunch runId tc (cont_policy k)) s))"

text \<open>The execution of a call: a CodeMode execution in the process, any other as a frame to the kernel.\<close>

definition launch_step :: "string \<Rightarrow> tool_row \<Rightarrow> approval_policy \<Rightarrow> proc_state \<Rightarrow> proc_state" where
  "launch_step runId tc p s =
     (if handleRunStopped runId s \<or> getPending (tc_dispatch_id tc) (px_store s) = None then s
      else if tc_call tc = ''codemode.exec'' then
        (if js_trim (coalesce (json_string (json_get (tc_args tc) ''code'')) []) = []
         then on_store (tool_resolve (tc_dispatch_id tc) (JObj [(''status'', JStr ''failed''),
                (''error'', JStr ''CodeMode requires a non-empty code string'')])) s
         else spawn (ThCode runId (tc_dispatch_id tc) p) (log (LgSent runId tc) s))
      else log (LgSent runId tc) s)"

text \<open>An answer to a call: its result after materialising, or an error.\<close>

definition tool_answer :: "string \<Rightarrow> json result \<Rightarrow> proc_state \<Rightarrow> proc_state" where
  "tool_answer dispatchId res s =
     (case getPending dispatchId (px_store s) of
        None \<Rightarrow> s
      | Some r \<Rightarrow>
          (case res of
             Inl e \<Rightarrow> on_store (tool_fail dispatchId (error_message e) ToFailed) s
           | Inr v \<Rightarrow> on_store (tool_resolve dispatchId v)
               (s\<lparr>px_kv := rememberShellSessionTargetFromResult (tc_call r) (Some (tc_args r)) (Some v) (px_kv s)\<rparr>)))"

definition onToolDispatchTimeout :: "string \<Rightarrow> string \<Rightarrow> proc_state \<Rightarrow> proc_state" where
  "onToolDispatchTimeout runId dispatchId s =
     (if handleRunStopped runId s then s
      else case find (\<lambda>r. tc_dispatch_id r = dispatchId) (getResults runId (px_store s)) of
        None \<Rightarrow> s
      | Some r \<Rightarrow>
          if tc_status r = TcPending
          then on_store (tool_fail dispatchId ''Tool execution timed out after 600000ms'' ToFailed) s else s)"

section \<open>Approvals\<close>

definition remember_approval :: "proc_env \<Rightarrow> pending_hil \<Rightarrow> proc_state \<Rightarrow> proc_state" where
  "remember_approval env h s =
     (case px_run s of
        None \<Rightarrow> s
      | Some run \<Rightarrow>
          (let (kv, policy) = rememberToolApproval (en_parse env) (en_stringify env) (hl_syscall h) (Some (hl_args h))
                 (px_kv s, rn_policy run)
           in s\<lparr>px_kv := kv, px_run := Some (run\<lparr>rn_policy := policy\<rparr>)\<rparr>))"

text \<open>The decision is logged, and remembered when the owner asked for that.\<close>

definition decide :: "proc_env \<Rightarrow> pending_hil \<Rightarrow> bool \<Rightarrow> bool \<Rightarrow> proc_state \<Rightarrow> proc_state" where
  "decide env h approve remember s =
     (let s' = log (LgDecided (hl_requestId h) approve (approve \<and> remember)) s
      in if approve \<and> remember then remember_approval env h s' else s')"

text \<open>
  The answer of the owner: to a nested call of a CodeMode execution, to one whose execution was lost, or to
  a registered call, which then begins with the policy its run keeps.
\<close>

definition handleProcHil :: "proc_env \<Rightarrow> string \<Rightarrow> bool \<Rightarrow> bool \<Rightarrow> (proc_state, bool) action" where
  "handleProcHil env requestId approve remember s =
     (case getPendingHil (Some requestId) (px_store s) of
        None \<Rightarrow> (s, throw (''Pending tool confirmation not found: '' @ requestId))
      | Some h \<Rightarrow>
          (case px_run s of
             None \<Rightarrow> (resolveCodeModeApproval requestId False (on_store clearPendingHil s),
                      throw (''Run is no longer active for confirmation: '' @ requestId))
           | Some run \<Rightarrow>
          if rn_runId run \<noteq> hl_runId h
          then (resolveCodeModeApproval requestId False (on_store clearPendingHil s),
                throw (''Run is no longer active for confirmation: '' @ requestId))
          else
            (let calls = getResults (hl_runId h) (px_store s)
             in case find (\<lambda>w. cw_requestId w = requestId) (px_waiters s) of
                  Some w \<Rightarrow>
                    (let s1 = decide env h approve remember s;
                         s2 = (if approve then s1
                               else on_store (tool_fail (coalesce (hl_ownerDispatchId h) (cw_dispatchId w))
                                      TOOL_EXECUTION_DENIED_BY_USER_MESSAGE ToDenied) s1)
                     in (resolveCodeModeApproval requestId approve (on_store clearPendingHil s2), Inr (approve \<and> remember)))
                | None \<Rightarrow>
                    (case find (\<lambda>r. tc_id r = hl_toolCallId h \<and> tc_status r = TcRegistered) calls of
                       Some tc \<Rightarrow>
                         (let s1 = on_store clearPendingHil (decide env h approve remember s)
                          in (if approve
                              then spawn (ThBegin (hl_runId h) (tc\<lparr>tc_call := hl_syscall h\<rparr>) (ContHil (resolve_policy env s1 (the (px_run s1))))) s1
                              else processToolCalls env (hl_runId h) LeHil
                                     (on_store (tool_fail (tc_dispatch_id tc) TOOL_EXECUTION_DENIED_BY_USER_MESSAGE ToDenied) s1),
                              Inr (approve \<and> remember)))
                     | None \<Rightarrow>
                         (let s1 = on_store clearPendingHil s;
                              outer = (if truthy (hl_ownerDispatchId h)
                                       then find (\<lambda>r. Some (tc_dispatch_id r) = hl_ownerDispatchId h
                                              \<and> tc_call r = ''codemode.exec'' \<and> tc_status r = TcPending) calls
                                       else None);
                              err = (if outer = None then ''Registered tool call not found: '' @ hl_runId h @ ''/'' @ hl_toolCallId h
                                     else if approve then ''CodeMode execution was interrupted while waiting for tool approval''
                                     else TOOL_EXECUTION_DENIED_BY_USER_MESSAGE);
                              s2 = (case outer of None \<Rightarrow> s1
                                    | Some r \<Rightarrow> on_store (tool_fail (tc_dispatch_id r) err (if approve then ToFailed else ToDenied)) s1)
                          in (s2, if outer \<noteq> None \<and> \<not> approve then Inr False else throw err))))))"

text \<open>A call from inside a CodeMode execution: refused, put to the user, or sent.\<close>

definition nested_step :: "proc_env \<Rightarrow> int \<Rightarrow> string \<Rightarrow> string \<Rightarrow> string \<Rightarrow> string \<Rightarrow> approval_policy \<Rightarrow> string \<Rightarrow> json
    \<Rightarrow> proc_state \<Rightarrow> proc_state" where
  "nested_step env now requestId toolCallId runId dispatchId p call args s =
     (if handleRunStopped runId s then s
      else
        (let (prepared, missing) = prepareToolArgs (px_kv s) call (Some args);
             toolArgs = (case prepared of Some (JObj kvs) \<Rightarrow> JObj kvs | _ \<Rightarrow> args)
         in if missing then s
            else case rs_action (resolveToolApproval p call (Some toolArgs)) of
              AaDeny \<Rightarrow> s
            | AaAsk \<Rightarrow>
                if \<not> hasCapability (en_capabilities env) call \<or> \<not> px_interactive s then s
                else
                  (let h = \<lparr>hl_requestId = requestId, hl_runId = runId, hl_ownerDispatchId = Some dispatchId,
                            hl_toolCallId = toolCallId, hl_toolName = coalesce (map_of SYSCALL_TOOL_NAMES call) call,
                            hl_syscall = call, hl_args = toolArgs, hl_createdAt = now\<rparr>;
                       w = \<lparr>cw_requestId = requestId, cw_runId = runId, cw_dispatchId = dispatchId,
                            cw_toolCallId = toolCallId, cw_call = call, cw_args = toolArgs\<rparr>
                   in log (LgAsked h) (on_store (setPendingHil h) (s\<lparr>px_waiters := px_waiters s @ [w]\<rparr>)))
            | AaAuto \<Rightarrow> log (LgNested runId dispatchId call toolArgs) s))"

definition nested_resume :: "code_waiter \<Rightarrow> proc_state \<Rightarrow> proc_state" where
  "nested_resume w s =
     (if handleRunStopped (cw_runId w) s then s
      else log (LgNested (cw_runId w) (cw_dispatchId w) (cw_call w) (cw_args w)) s)"

text \<open>The answer to a nested call that was sent.\<close>

definition nested_answer :: "string \<Rightarrow> string \<Rightarrow> string \<Rightarrow> json \<Rightarrow> json \<Rightarrow> proc_state \<Rightarrow> proc_state" where
  "nested_answer runId dispatchId call args v s =
     (if handleRunStopped runId s \<or> LgNested runId dispatchId call args \<notin> set (px_log s) then s
      else s\<lparr>px_kv := rememberShellSessionTargetFromResult call (Some args) (Some v) (px_kv s)\<rparr>)"

text \<open>No answer of the owner within the time CodeMode waits.\<close>

definition hil_timeout :: "string \<Rightarrow> proc_state \<Rightarrow> proc_state" where
  "hil_timeout requestId s =
     (if find (\<lambda>w. cw_requestId w = requestId) (px_waiters s) = None then s
      else
        (let s1 = s\<lparr>px_waiters := filter (\<lambda>w. cw_requestId w \<noteq> requestId) (px_waiters s)\<rparr>
         in if getPendingHil (Some requestId) (px_store s) \<noteq> None then on_store clearPendingHil s1 else s1))"

section \<open>Ticks\<close>

definition tick_event :: "string \<Rightarrow> int \<Rightarrow> proc_state \<Rightarrow> proc_state" where
  "tick_event runId generation s =
     (case px_run s of
        None \<Rightarrow> s
      | Some run \<Rightarrow>
          if rn_runId run \<noteq> runId \<or> rn_tickGeneration run \<noteq> generation then s
          else
            (let s1 = s\<lparr>px_run := Some (run\<lparr>rn_tickGeneration := generation + 1\<rparr>)\<rparr>
             in if runId \<in> set (px_ticking s) then s1\<lparr>px_deferred := List.insert runId (px_deferred s)\<rparr>
                else spawn (ThTick runId) (s1\<lparr>px_ticking := px_ticking s @ [runId]\<rparr>)))"

text \<open>\<open>runTick\<close>: calls that are still registered are processed first, unless the run waits for an approval.\<close>

definition tick_step :: "proc_env \<Rightarrow> string \<Rightarrow> proc_state \<Rightarrow> proc_state" where
  "tick_step env runId s =
     (case px_run s of
        None \<Rightarrow> tick_end runId s
      | Some run \<Rightarrow>
          if rn_runId run \<noteq> runId \<or> rn_pendingMedia run \<noteq> None then tick_end runId s
          else if list_ex (\<lambda>r. tc_status r = TcRegistered) (getResults runId (px_store s))
            \<and> getPendingHilForRun runId (px_store s) = None
          then processToolCalls env runId LeTick s
          else spawn (ThCollect runId) s)"

text \<open>When no call is open any more the results join the history.\<close>

definition collect_step :: "int \<Rightarrow> proc_env \<Rightarrow> string \<Rightarrow> proc_state \<Rightarrow> proc_state" where
  "collect_step now env runId s =
     (let results = getResults runId (px_store s)
      in if handleRunStopped runId s \<or> list_ex open_call results then tick_end runId s
         else spawn (ThPrepare runId)
                (if results = [] then s else on_store (ingestToolResults now (en_stringify env) None runId results) s))"

text \<open>Events up to this context count as seen (\<open>consumeRuntimeEventsInContext\<close>).\<close>

definition consume_events :: "string \<Rightarrow> proc_state \<Rightarrow> proc_state" where
  "consume_events runId s =
     (if handleRunStopped runId s then s else s\<lparr>px_run := map_option (\<lambda>r. r\<lparr>rn_events := 0\<rparr>) (px_run s)\<rparr>)"

definition prepare_step :: "string \<Rightarrow> proc_state \<Rightarrow> proc_state" where
  "prepare_step runId s =
     (if handleRunStopped runId s then tick_end runId s
      else spawn (ThGenerate runId)
             (consume_events runId (log (LgPrompt runId (orderMessagesForProvider (toMessages (px_store s)))) s)))"

section \<open>Turns of the model\<close>

definition UNKNOWN_SHELL_SESSION_TARGET_MESSAGE :: string where
  "UNKNOWN_SHELL_SESSION_TARGET_MESSAGE = ''Shell session continuation requires an explicit target because '' @
     ''this process does not know which device owns the session''"

definition blocks_of :: "string \<Rightarrow> json list \<Rightarrow> json list" where
  "blocks_of t = filter (\<lambda>b. json_get b ''type'' = Some (JStr t))"

definition block_string :: "string \<Rightarrow> json \<Rightarrow> string" where
  "block_string k b = coalesce (json_string (json_get b k)) []"

definition turn_text :: "json list \<Rightarrow> string" where
  "turn_text content = concat (map (block_string ''text'') (blocks_of ''text'' content))"

text \<open>A call is registered with its arguments prepared; without the target of its shell session it fails.\<close>

definition register_call :: "int \<Rightarrow> (string \<rightharpoonup> string) \<Rightarrow> string \<Rightarrow> string \<times> json \<Rightarrow> process_store \<Rightarrow> process_store result" where
  "register_call now kv runId = (\<lambda>(dispatchId, b) st.
     (let name = block_string ''name'' b;
          syscall = map_of (map prod.swap SYSCALL_TOOL_NAMES) name;
          (args, missing) = (case syscall of Some c \<Rightarrow> prepareToolArgs kv c (json_get b ''arguments'')
                             | None \<Rightarrow> (json_get b ''arguments'', False))
      in bind_result (tool_register now dispatchId (block_string ''id'' b) runId (coalesce syscall name) (coalesce args JNull) st)
           (\<lambda>st'. Inr (if missing then tool_fail dispatchId UNKNOWN_SHELL_SESSION_TARGET_MESSAGE ToFailed st' else st'))))"

text \<open>The transaction that records the answer and registers its calls.\<close>

definition record_turn :: "int \<Rightarrow> (nat \<Rightarrow> string) \<Rightarrow> (string \<rightharpoonup> string) \<Rightarrow> string \<Rightarrow> json list \<Rightarrow> process_store \<Rightarrow> process_store result" where
  "record_turn now uuids kv runId content st =
     (let calls = blocks_of ''toolCall'' content;
          st' = fst (appendMessage now MrAssistant (turn_text content)
                  (no_opts\<lparr>mo_runId := Some runId,
                     mo_toolCalls := stringifyAssistantMessageMeta (blocks_of ''thinking'' content) calls\<rparr>) st)
      in foldl (\<lambda>r x. bind_result r (register_call now kv runId x)) (Inr st')
           (zip (map uuids [0..<length calls]) calls))"

text \<open>What a generation gives: another attempt, another configuration with a new context, a failure (its
  reason and the text shown), or an answer.\<close>

datatype generation = GenRetry | GenFallback | GenFailed string string | GenContent "json list"

definition generate_step :: "int \<Rightarrow> (nat \<Rightarrow> string) \<Rightarrow> generation \<Rightarrow> string \<Rightarrow> proc_state \<Rightarrow> proc_state" where
  "generate_step now uuids g runId s =
     (if handleRunStopped runId s then tick_end runId s
      else case g of
        GenRetry \<Rightarrow> spawn (ThGenerate runId) s
      | GenFallback \<Rightarrow> spawn (ThPrepare runId) s
      | GenFailed reason display \<Rightarrow>
          spawn (ThFinish runId FsError reason None (Some display))
            (on_store (\<lambda>st. fst (appendMessage now MrSystem display (no_opts\<lparr>mo_runId := Some runId\<rparr>) st)) s)
      | GenContent content \<Rightarrow>
          (case record_turn now uuids (px_kv s) runId content (px_store s) of
             Inl e \<Rightarrow> spawn (ThFinish runId FsError ''tick.error'' None (Some (''Process run failed: '' @ error_message e))) s
           | Inr st \<Rightarrow>
               spawn (ThTurn runId (blocks_of ''toolCall'' content \<noteq> []) (turn_text content))
                 (consume_events runId (s\<lparr>px_store := st\<rparr>))))"

definition turn_step :: "proc_env \<Rightarrow> string \<Rightarrow> bool \<Rightarrow> string \<Rightarrow> proc_state \<Rightarrow> proc_state" where
  "turn_step env runId has_calls answer s =
     (if handleRunStopped runId s then tick_end runId s
      else if has_calls then processToolCalls env runId LeTurn s
      else spawn (ThFinish runId FsOk ''turn.complete'' (Some answer) None) s)"

definition finish_step :: "int \<Rightarrow> string \<Rightarrow> string \<Rightarrow> finish_status \<Rightarrow> string \<Rightarrow> string option \<Rightarrow> string option
    \<Rightarrow> proc_state \<Rightarrow> proc_state" where
  "finish_step now wakeId runId status reason answer err s =
     tick_end runId (finishRun_proc now wakeId runId status reason answer err s)"

section \<open>Delivery of finishes\<close>

definition MAX_RUN_FINISH_DELIVERY_ATTEMPTS :: nat where "MAX_RUN_FINISH_DELIVERY_ATTEMPTS = 10"

definition removePendingRunFinish :: "string \<Rightarrow> proc_state \<Rightarrow> proc_state" where
  "removePendingRunFinish runId s = s\<lparr>px_finishes := filter (\<lambda>f. rf_runId f \<noteq> runId) (px_finishes s)\<rparr>"

text \<open>One attempt to deliver the finish of a run: \<open>sent\<close> when the signal went out.\<close>

definition onRunFinishDelivery :: "int \<Rightarrow> string \<Rightarrow> bool \<Rightarrow> proc_state \<Rightarrow> proc_state" where
  "onRunFinishDelivery now runId sent s =
     (case find (\<lambda>f. rf_runId f = runId) (px_finishes s) of
        None \<Rightarrow> s
      | Some f \<Rightarrow>
          if sent then removePendingRunFinish runId s
          else if rf_attempts f + 1 \<ge> MAX_RUN_FINISH_DELIVERY_ATTEMPTS
          then on_store (\<lambda>st. fst (appendMessage now MrSystem (''Automatic reply delivery stopped after repeated transport failures. '' @
                   ''The completed answer remains in this process history.'') (no_opts\<lparr>mo_runId := Some runId\<rparr>) st))
                 (removePendingRunFinish runId s)
          else s\<lparr>px_finishes := map (\<lambda>g. if g = f then g\<lparr>rf_attempts := rf_attempts f + 1\<rparr> else g) (px_finishes s)\<rparr>)"

text \<open>A restart of the object: what is in memory is gone, and stored media end the wait for them.\<close>

definition restart :: "proc_state \<Rightarrow> proc_state" where
  "restart s =
     s\<lparr>px_run := map_option (\<lambda>r. case rn_pendingMedia r of
          Some m \<Rightarrow> if hasMessageMedia m (rn_runId r) (px_store s) then r\<lparr>rn_pendingMedia := None\<rparr> else r
        | None \<Rightarrow> r) (px_run s),
       px_epoch := 0, px_ticking := [], px_deferred := [], px_waiters := [], px_threads := []\<rparr>"

section \<open>Steps\<close>

text \<open>What a thread that goes on is given: fresh ids, and what it waited for.\<close>

record thread_input =
  ti_uuids :: "nat \<Rightarrow> string"
  ti_timerError :: "string option"
  ti_generation :: generation
  ti_value :: json

datatype proc_event =
    EvSend string send_input
  | EvIpcDeliver string string "json option"
  | EvRuntime string string "json option" bool "string option"
  | EvIpcSignal string string "string option" "string option" "int option"
  | EvAbort "string option"
  | EvMediaReady string int "json option"
  | EvMediaFailed string int string string
  | EvReset
  | EvHil string bool bool
  | EvHilTimeout string
  | EvTick string int
  | EvAnswer string "json result"
  | EvTimeout string string
  | EvNested string string string string approval_policy string json
  | EvNestedAnswer string string string json json
  | EvDelivery string bool
  | EvThread nat thread_input
  | EvTickThrows string string string
  | EvScheduleFails string string string
  | EvRestart

text \<open>Threads of a tick; when a tick throws, its thread is gone and the run is finished.\<close>

definition tick_of :: "thread \<Rightarrow> string option" where
  "tick_of th = (case th of
     ThTick r \<Rightarrow> Some r
   | ThTools r p calls le \<Rightarrow> if le = LeHil then None else Some r
   | ThBegin r tc (ContLoop p rest le) \<Rightarrow> if le = LeHil then None else Some r
   | ThStart r tc (ContLoop p rest le) \<Rightarrow> if le = LeHil then None else Some r
   | ThCollect r \<Rightarrow> Some r
   | ThPrepare r \<Rightarrow> Some r
   | ThGenerate r \<Rightarrow> Some r
   | ThTurn r c t \<Rightarrow> Some r
   | ThFinish r st re t e \<Rightarrow> Some r
   | _ \<Rightarrow> None)"

definition run_thread :: "proc_env \<Rightarrow> int \<Rightarrow> thread_input \<Rightarrow> thread \<Rightarrow> proc_state \<Rightarrow> proc_state" where
  "run_thread env now i th s = (case th of
     ThTick r \<Rightarrow> tick_step env r s
   | ThTools r p calls le \<Rightarrow> tool_step now (ti_uuids i 0) r p calls le s
   | ThBegin r tc k \<Rightarrow> begin_step env (ti_timerError i) r tc k s
   | ThStart r tc k \<Rightarrow> start_step env r tc k s
   | ThLaunch r tc p \<Rightarrow> launch_step r tc p s
   | ThCode r d p \<Rightarrow> on_store (tool_resolve d (ti_value i)) s
   | ThNested w \<Rightarrow> nested_resume w s
   | ThCollect r \<Rightarrow> collect_step now env r s
   | ThPrepare r \<Rightarrow> prepare_step r s
   | ThGenerate r \<Rightarrow> generate_step now (ti_uuids i) (ti_generation i) r s
   | ThTurn r c t \<Rightarrow> turn_step env r c t s
   | ThFinish r st re t e \<Rightarrow> finish_step now (ti_uuids i 0) r st re t e s)"

definition tick_throws :: "int \<Rightarrow> string \<Rightarrow> string \<Rightarrow> string \<Rightarrow> proc_state \<Rightarrow> proc_state" where
  "tick_throws now wakeId runId err s =
     tick_end runId (finishRun_proc now wakeId runId FsError ''tick.error'' None (Some err)
       (s\<lparr>px_threads := filter (\<lambda>th. tick_of th \<noteq> Some runId) (px_threads s)\<rparr>))"

text \<open>
  One event. Ticks are events of their own: one may come whenever its generation is current, which covers
  every place that schedules one. A tick may throw, and scheduling one may fail.
\<close>

definition proc_step :: "proc_env \<Rightarrow> int \<Rightarrow> proc_event \<Rightarrow> proc_state \<Rightarrow> proc_state" where
  "proc_step env now ev s = (case ev of
     EvSend u a \<Rightarrow> fst (handleProcSend now env u a s)
   | EvIpcDeliver r m og \<Rightarrow> fst (handleProcIpcDeliver now r m og s)
   | EvRuntime u c og d r \<Rightarrow> fst (handleRuntimeEvent now u c og d r s)
   | EvIpcSignal u c i r t \<Rightarrow> handleIpcSignal now u c i r t s
   | EvAbort r \<Rightarrow> fst (handleProcAbort now (en_stringify env) r s)
   | EvMediaReady r m v \<Rightarrow> mediaPrepared r m v s
   | EvMediaFailed r m msg reason \<Rightarrow> failPendingMedia now r m msg reason s
   | EvReset \<Rightarrow> handleProcReset now (en_stringify env) s
   | EvHil q approve remember \<Rightarrow> fst (handleProcHil env q approve remember s)
   | EvHilTimeout q \<Rightarrow> hil_timeout q s
   | EvTick r g \<Rightarrow> tick_event r g s
   | EvAnswer d v \<Rightarrow> tool_answer d v s
   | EvTimeout r d \<Rightarrow> onToolDispatchTimeout r d s
   | EvNested q t r d p c a \<Rightarrow> if ThCode r d p \<in> set (px_threads s) then nested_step env now q t r d p c a s else s
   | EvNestedAnswer r d c a v \<Rightarrow> nested_answer r d c a v s
   | EvDelivery r b \<Rightarrow> onRunFinishDelivery now r b s
   | EvThread n i \<Rightarrow>
       if n < length (px_threads s)
       then run_thread env now i (px_threads s ! n) (s\<lparr>px_threads := take n (px_threads s) @ drop (n + 1) (px_threads s)\<rparr>)
       else s
   | EvTickThrows u r err \<Rightarrow> tick_throws now u r err s
   | EvScheduleFails u r err \<Rightarrow> finishRun_proc now u r FsError ''schedule.error'' None (Some err) s
   | EvRestart \<Rightarrow> restart s)"

definition proc_steps :: "proc_env \<Rightarrow> (int \<times> proc_event) list \<Rightarrow> proc_state \<Rightarrow> proc_state" where
  "proc_steps env evs s = fold (\<lambda>(now, ev). proc_step env now ev) evs s"

definition new_process :: "bool \<Rightarrow> proc_state" where
  "new_process interactive =
     \<lparr>px_store = empty_store, px_kv = Map.empty, px_run = None, px_initialized = True, px_interactive = interactive,
      px_finishes = [], px_handledIpc = [], px_aborted = [], px_resetAt = 0, px_epoch = 0, px_ticking = [],
      px_deferred = [], px_waiters = [], px_threads = [], px_log = []\<rparr>"

lemma proc_steps_Nil [simp]: "proc_steps env [] s = s"
  by (simp add: proc_steps_def)

lemma proc_steps_Cons [simp]: "proc_steps env ((now, ev) # evs) s = proc_steps env evs (proc_step env now ev s)"
  by (simp add: proc_steps_def)

lemma proc_steps_append: "proc_steps env (xs @ ys) s = proc_steps env ys (proc_steps env xs s)"
  by (simp add: proc_steps_def)

text \<open>What every step keeps holds after every trace.\<close>

lemma proc_steps_invariant:
  assumes "I s" and "\<And>now ev s. ok ev \<Longrightarrow> I s \<Longrightarrow> I (proc_step env now ev s)" and "list_all (\<lambda>(now, ev). ok ev) evs"
  shows "I (proc_steps env evs s)"
  using assms(1,3)
proof (induction evs arbitrary: s)
  case (Cons x evs)
  then show ?case by (cases x) (simp add: assms(2))
qed simp

end
