(* ===== verification/RunFrames.thy ===== *)
theory RunFrames
  imports ProcessRuns
begin

text \<open>
  What the parts of the handlers of \<open>process/do.ts\<close> leave alone: for each part and each field of the state it
  does not write, the rule that the field stays.
\<close>

lemma on_store_store [simp]: "px_store (on_store f s) = f (px_store s)"
  by (simp add: on_store_def)

lemma log_log [simp]: "px_log (log x s) = px_log s @ [x]"
  by (simp add: log_def)

lemma spawn_threads [simp]: "px_threads (spawn th s) = px_threads s @ [th]"
  by (simp add: spawn_def)

lemma tick_end_ticking [simp]: "px_ticking (tick_end i s) = removeAll i (px_ticking s)"
  by (simp add: tick_end_def)

lemma on_store_frame [simp]:
  "px_kv (on_store f s) = px_kv s" "px_run (on_store f s) = px_run s"
  "px_initialized (on_store f s) = px_initialized s" "px_interactive (on_store f s) = px_interactive s"
  "px_finishes (on_store f s) = px_finishes s" "px_waiters (on_store f s) = px_waiters s"
  "px_threads (on_store f s) = px_threads s" "px_log (on_store f s) = px_log s"
  "px_ticking (on_store f s) = px_ticking s"
  by (simp_all add: on_store_def split: option.splits prod.splits loop_end.splits tool_cont.splits)

lemma log_frame [simp]:
  "px_store (log x s) = px_store s" "px_kv (log x s) = px_kv s"
  "px_run (log x s) = px_run s" "px_initialized (log x s) = px_initialized s"
  "px_interactive (log x s) = px_interactive s" "px_finishes (log x s) = px_finishes s"
  "px_waiters (log x s) = px_waiters s" "px_threads (log x s) = px_threads s"
  "px_ticking (log x s) = px_ticking s"
  by (simp_all add: log_def split: option.splits prod.splits loop_end.splits tool_cont.splits)

lemma spawn_frame [simp]:
  "px_store (spawn th s) = px_store s" "px_kv (spawn th s) = px_kv s"
  "px_run (spawn th s) = px_run s" "px_initialized (spawn th s) = px_initialized s"
  "px_interactive (spawn th s) = px_interactive s" "px_finishes (spawn th s) = px_finishes s"
  "px_waiters (spawn th s) = px_waiters s" "px_log (spawn th s) = px_log s"
  "px_ticking (spawn th s) = px_ticking s"
  by (simp_all add: spawn_def split: option.splits prod.splits loop_end.splits tool_cont.splits)

lemma rememberAbortedRun_frame [simp]:
  "px_store (rememberAbortedRun i s) = px_store s" "px_kv (rememberAbortedRun i s) = px_kv s"
  "px_run (rememberAbortedRun i s) = px_run s" "px_initialized (rememberAbortedRun i s) = px_initialized s"
  "px_interactive (rememberAbortedRun i s) = px_interactive s" "px_finishes (rememberAbortedRun i s) = px_finishes s"
  "px_waiters (rememberAbortedRun i s) = px_waiters s" "px_threads (rememberAbortedRun i s) = px_threads s"
  "px_log (rememberAbortedRun i s) = px_log s" "px_ticking (rememberAbortedRun i s) = px_ticking s"
  by (simp_all add: rememberAbortedRun_def split: option.splits prod.splits loop_end.splits tool_cont.splits)

lemma emitRunFinished_frame [simp]:
  "px_store (emitRunFinished i fs re t e s) = px_store s" "px_kv (emitRunFinished i fs re t e s) = px_kv s"
  "px_run (emitRunFinished i fs re t e s) = px_run s" "px_initialized (emitRunFinished i fs re t e s) = px_initialized s"
  "px_interactive (emitRunFinished i fs re t e s) = px_interactive s" "px_waiters (emitRunFinished i fs re t e s) = px_waiters s"
  "px_threads (emitRunFinished i fs re t e s) = px_threads s" "px_ticking (emitRunFinished i fs re t e s) = px_ticking s"
  by (simp_all add: emitRunFinished_def Let_def log_def split: option.splits prod.splits loop_end.splits tool_cont.splits)

lemma rejectCodeModeWaiters_frame [simp]:
  "px_store (rejectCodeModeWaiters q s) = px_store s" "px_kv (rejectCodeModeWaiters q s) = px_kv s"
  "px_run (rejectCodeModeWaiters q s) = px_run s" "px_initialized (rejectCodeModeWaiters q s) = px_initialized s"
  "px_interactive (rejectCodeModeWaiters q s) = px_interactive s" "px_finishes (rejectCodeModeWaiters q s) = px_finishes s"
  "px_threads (rejectCodeModeWaiters q s) = px_threads s" "px_log (rejectCodeModeWaiters q s) = px_log s"
  "px_ticking (rejectCodeModeWaiters q s) = px_ticking s"
  by (simp_all add: rejectCodeModeWaiters_def split: option.splits prod.splits loop_end.splits tool_cont.splits)

lemma tick_end_frame [simp]:
  "px_store (tick_end i s) = px_store s" "px_kv (tick_end i s) = px_kv s"
  "px_run (tick_end i s) = px_run s" "px_initialized (tick_end i s) = px_initialized s"
  "px_interactive (tick_end i s) = px_interactive s" "px_finishes (tick_end i s) = px_finishes s"
  "px_waiters (tick_end i s) = px_waiters s" "px_threads (tick_end i s) = px_threads s"
  "px_log (tick_end i s) = px_log s"
  by (simp_all add: tick_end_def split: option.splits prod.splits loop_end.splits tool_cont.splits)

lemma loop_over_frame [simp]:
  "px_store (loop_over i le s) = px_store s" "px_kv (loop_over i le s) = px_kv s"
  "px_run (loop_over i le s) = px_run s" "px_initialized (loop_over i le s) = px_initialized s"
  "px_interactive (loop_over i le s) = px_interactive s" "px_finishes (loop_over i le s) = px_finishes s"
  "px_waiters (loop_over i le s) = px_waiters s" "px_log (loop_over i le s) = px_log s"
  by (simp_all add: loop_over_def spawn_def tick_end_def split: option.splits prod.splits loop_end.splits tool_cont.splits)

lemma resolveCodeModeApproval_frame [simp]:
  "px_store (resolveCodeModeApproval i b s) = px_store s" "px_kv (resolveCodeModeApproval i b s) = px_kv s"
  "px_run (resolveCodeModeApproval i b s) = px_run s" "px_initialized (resolveCodeModeApproval i b s) = px_initialized s"
  "px_interactive (resolveCodeModeApproval i b s) = px_interactive s" "px_finishes (resolveCodeModeApproval i b s) = px_finishes s"
  "px_log (resolveCodeModeApproval i b s) = px_log s" "px_ticking (resolveCodeModeApproval i b s) = px_ticking s"
  by (simp_all add: resolveCodeModeApproval_def Let_def spawn_def split: option.splits prod.splits loop_end.splits tool_cont.splits)

lemma consume_events_frame [simp]:
  "px_store (consume_events i s) = px_store s" "px_kv (consume_events i s) = px_kv s"
  "px_initialized (consume_events i s) = px_initialized s" "px_interactive (consume_events i s) = px_interactive s"
  "px_finishes (consume_events i s) = px_finishes s" "px_waiters (consume_events i s) = px_waiters s"
  "px_threads (consume_events i s) = px_threads s" "px_log (consume_events i s) = px_log s"
  "px_ticking (consume_events i s) = px_ticking s"
  by (simp_all add: consume_events_def split: option.splits prod.splits loop_end.splits tool_cont.splits)

lemma removePendingRunFinish_frame [simp]:
  "px_store (removePendingRunFinish i s) = px_store s" "px_kv (removePendingRunFinish i s) = px_kv s"
  "px_run (removePendingRunFinish i s) = px_run s" "px_initialized (removePendingRunFinish i s) = px_initialized s"
  "px_interactive (removePendingRunFinish i s) = px_interactive s" "px_waiters (removePendingRunFinish i s) = px_waiters s"
  "px_threads (removePendingRunFinish i s) = px_threads s" "px_log (removePendingRunFinish i s) = px_log s"
  "px_ticking (removePendingRunFinish i s) = px_ticking s"
  by (simp_all add: removePendingRunFinish_def split: option.splits prod.splits loop_end.splits tool_cont.splits)

lemma remember_approval_frame [simp]:
  "px_store (remember_approval env h s) = px_store s" "px_initialized (remember_approval env h s) = px_initialized s"
  "px_interactive (remember_approval env h s) = px_interactive s" "px_finishes (remember_approval env h s) = px_finishes s"
  "px_waiters (remember_approval env h s) = px_waiters s" "px_threads (remember_approval env h s) = px_threads s"
  "px_log (remember_approval env h s) = px_log s" "px_ticking (remember_approval env h s) = px_ticking s"
  by (simp_all add: remember_approval_def split: option.splits prod.splits loop_end.splits tool_cont.splits)

lemma decide_frame [simp]:
  "px_store (decide env h b c s) = px_store s" "px_initialized (decide env h b c s) = px_initialized s"
  "px_interactive (decide env h b c s) = px_interactive s" "px_finishes (decide env h b c s) = px_finishes s"
  "px_waiters (decide env h b c s) = px_waiters s" "px_threads (decide env h b c s) = px_threads s"
  "px_ticking (decide env h b c s) = px_ticking s"
  by (simp_all add: decide_def remember_approval_def log_def Let_def split: option.splits prod.splits loop_end.splits tool_cont.splits)

lemma processToolCalls_frame [simp]:
  "px_store (processToolCalls env i le s) = px_store s" "px_kv (processToolCalls env i le s) = px_kv s"
  "px_initialized (processToolCalls env i le s) = px_initialized s" "px_interactive (processToolCalls env i le s) = px_interactive s"
  "px_finishes (processToolCalls env i le s) = px_finishes s" "px_waiters (processToolCalls env i le s) = px_waiters s"
  "px_log (processToolCalls env i le s) = px_log s"
  by (simp_all add: processToolCalls_def Let_def spawn_def loop_over_def tick_end_def split: option.splits prod.splits loop_end.splits tool_cont.splits)

lemma go_on_frame [simp]:
  "px_store (go_on env i k s) = px_store s" "px_kv (go_on env i k s) = px_kv s"
  "px_initialized (go_on env i k s) = px_initialized s" "px_interactive (go_on env i k s) = px_interactive s"
  "px_finishes (go_on env i k s) = px_finishes s" "px_waiters (go_on env i k s) = px_waiters s"
  "px_log (go_on env i k s) = px_log s"
  by (simp_all add: go_on_def processToolCalls_def Let_def spawn_def loop_over_def tick_end_def split: option.splits prod.splits loop_end.splits tool_cont.splits)

section \<open>Tables\<close>

lemma update_open_frame [simp]:
  "st_messages (update_open d f st) = st_messages st" "st_next_message (update_open d f st) = st_next_message st"
  "st_hil (update_open d f st) = st_hil st" "st_queue (update_open d f st) = st_queue st"
  "st_next_queued (update_open d f st) = st_next_queued st" "st_segments (update_open d f st) = st_segments st"
  "st_kv (update_open d f st) = st_kv st"
  by (simp_all add: update_open_def split: option.splits prod.splits)

lemma tool_fail_frame [simp]:
  "st_messages (tool_fail d e oc st) = st_messages st" "st_next_message (tool_fail d e oc st) = st_next_message st"
  "st_hil (tool_fail d e oc st) = st_hil st" "st_queue (tool_fail d e oc st) = st_queue st"
  "st_next_queued (tool_fail d e oc st) = st_next_queued st" "st_segments (tool_fail d e oc st) = st_segments st"
  "st_kv (tool_fail d e oc st) = st_kv st"
  by (simp_all add: tool_fail_def split: option.splits prod.splits)

lemma tool_resolve_frame [simp]:
  "st_messages (tool_resolve d v st) = st_messages st" "st_next_message (tool_resolve d v st) = st_next_message st"
  "st_hil (tool_resolve d v st) = st_hil st" "st_queue (tool_resolve d v st) = st_queue st"
  "st_next_queued (tool_resolve d v st) = st_next_queued st" "st_segments (tool_resolve d v st) = st_segments st"
  "st_kv (tool_resolve d v st) = st_kv st"
  by (simp_all add: tool_resolve_def split: option.splits prod.splits)

lemma markDispatched_frame [simp]:
  "st_messages (fst (markDispatched d st)) = st_messages st" "st_next_message (fst (markDispatched d st)) = st_next_message st"
  "st_hil (fst (markDispatched d st)) = st_hil st" "st_queue (fst (markDispatched d st)) = st_queue st"
  "st_next_queued (fst (markDispatched d st)) = st_next_queued st" "st_segments (fst (markDispatched d st)) = st_segments st"
  "st_kv (fst (markDispatched d st)) = st_kv st"
  by (simp_all add: markDispatched_def Let_def split: option.splits prod.splits)

lemma clearRun_frame [simp]:
  "st_messages (clearRun i st) = st_messages st" "st_next_message (clearRun i st) = st_next_message st"
  "st_hil (clearRun i st) = st_hil st" "st_queue (clearRun i st) = st_queue st"
  "st_next_queued (clearRun i st) = st_next_queued st" "st_segments (clearRun i st) = st_segments st"
  "st_kv (clearRun i st) = st_kv st"
  by (simp_all add: clearRun_def split: option.splits prod.splits)

lemma clearPendingToolCalls_frame [simp]:
  "st_messages (clearPendingToolCalls st) = st_messages st" "st_next_message (clearPendingToolCalls st) = st_next_message st"
  "st_hil (clearPendingToolCalls st) = st_hil st" "st_queue (clearPendingToolCalls st) = st_queue st"
  "st_next_queued (clearPendingToolCalls st) = st_next_queued st" "st_segments (clearPendingToolCalls st) = st_segments st"
  "st_kv (clearPendingToolCalls st) = st_kv st"
  by (simp_all add: clearPendingToolCalls_def split: option.splits prod.splits)

lemma clearPendingHil_frame [simp]:
  "st_messages (clearPendingHil st) = st_messages st" "st_next_message (clearPendingHil st) = st_next_message st"
  "st_tools (clearPendingHil st) = st_tools st" "st_queue (clearPendingHil st) = st_queue st"
  "st_next_queued (clearPendingHil st) = st_next_queued st" "st_segments (clearPendingHil st) = st_segments st"
  "st_kv (clearPendingHil st) = st_kv st"
  by (simp_all add: clearPendingHil_def split: option.splits prod.splits)

lemma setPendingHil_frame [simp]:
  "st_messages (setPendingHil h st) = st_messages st" "st_next_message (setPendingHil h st) = st_next_message st"
  "st_tools (setPendingHil h st) = st_tools st" "st_queue (setPendingHil h st) = st_queue st"
  "st_next_queued (setPendingHil h st) = st_next_queued st" "st_segments (setPendingHil h st) = st_segments st"
  "st_kv (setPendingHil h st) = st_kv st"
  by (simp_all add: setPendingHil_def split: option.splits prod.splits)

lemma appendMessage_frame [simp]:
  "st_tools (fst (appendMessage now role c opts st)) = st_tools st" "st_hil (fst (appendMessage now role c opts st)) = st_hil st"
  "st_queue (fst (appendMessage now role c opts st)) = st_queue st" "st_next_queued (fst (appendMessage now role c opts st)) = st_next_queued st"
  "st_segments (fst (appendMessage now role c opts st)) = st_segments st" "st_kv (fst (appendMessage now role c opts st)) = st_kv st"
  by (simp_all add: appendMessage_def split: option.splits prod.splits)

lemma enqueue_frame [simp]:
  "st_messages (enqueue now i m media og st) = st_messages st" "st_next_message (enqueue now i m media og st) = st_next_message st"
  "st_tools (enqueue now i m media og st) = st_tools st" "st_hil (enqueue now i m media og st) = st_hil st"
  "st_segments (enqueue now i m media og st) = st_segments st" "st_kv (enqueue now i m media og st) = st_kv st"
  by (simp_all add: enqueue_def split: option.splits prod.splits)

lemma clearQueue_frame [simp]:
  "st_messages (clearQueue st) = st_messages st" "st_next_message (clearQueue st) = st_next_message st"
  "st_tools (clearQueue st) = st_tools st" "st_hil (clearQueue st) = st_hil st"
  "st_next_queued (clearQueue st) = st_next_queued st" "st_segments (clearQueue st) = st_segments st"
  "st_kv (clearQueue st) = st_kv st"
  by (simp_all add: clearQueue_def split: option.splits prod.splits)

lemma updateMessageMedia_frame [simp]:
  "st_next_message (updateMessageMedia m i v st) = st_next_message st" "st_tools (updateMessageMedia m i v st) = st_tools st"
  "st_hil (updateMessageMedia m i v st) = st_hil st" "st_queue (updateMessageMedia m i v st) = st_queue st"
  "st_next_queued (updateMessageMedia m i v st) = st_next_queued st" "st_segments (updateMessageMedia m i v st) = st_segments st"
  "st_kv (updateMessageMedia m i v st) = st_kv st"
  by (simp_all add: updateMessageMedia_def split: option.splits prod.splits)

lemma append_result_frame [simp]:
  "st_tools (append_result now js ip i row st) = st_tools st" "st_hil (append_result now js ip i row st) = st_hil st"
  "st_queue (append_result now js ip i row st) = st_queue st" "st_next_queued (append_result now js ip i row st) = st_next_queued st"
  "st_segments (append_result now js ip i row st) = st_segments st" "st_kv (append_result now js ip i row st) = st_kv st"
  by (simp_all add: append_result_def appendToolResult_def split: option.splits prod.splits)

lemma fold_append_result_frame [simp]:
  "st_hil (fold (append_result now js ip i) rows st) = st_hil st"
  "st_queue (fold (append_result now js ip i) rows st) = st_queue st"
  "st_next_queued (fold (append_result now js ip i) rows st) = st_next_queued st"
  "st_segments (fold (append_result now js ip i) rows st) = st_segments st"
  "st_kv (fold (append_result now js ip i) rows st) = st_kv st"
  "st_tools (fold (append_result now js ip i) rows st) = st_tools st"
  by (induction rows arbitrary: st) simp_all

lemma ingestToolResults_frame [simp]:
  "st_hil (ingestToolResults now js ip i rows st) = st_hil st" "st_queue (ingestToolResults now js ip i rows st) = st_queue st"
  "st_next_queued (ingestToolResults now js ip i rows st) = st_next_queued st" "st_segments (ingestToolResults now js ip i rows st) = st_segments st"
  "st_kv (ingestToolResults now js ip i rows st) = st_kv st"
  by (simp_all add: ingestToolResults_def)

lemma resetHistory_frame [simp]:
  "st_next_message (resetHistory st) = st_next_message st" "st_tools (resetHistory st) = st_tools st"
  "st_hil (resetHistory st) = st_hil st" "st_queue (resetHistory st) = st_queue st"
  "st_next_queued (resetHistory st) = st_next_queued st" "st_segments (resetHistory st) = st_segments st"
  by (simp_all add: resetHistory_def clearMessages_def kv_setValue_def kv_deleteValue_def split: option.splits prod.splits)

lemma markDispatched_parts:
  "markDispatched d st = (st', b) \<Longrightarrow> st' = fst (markDispatched d st)"
  by simp

lemma appendMessage_parts:
  "appendMessage now role c opts st = (st', i) \<Longrightarrow> st' = fst (appendMessage now role c opts st)"
  by simp

section \<open>The transaction of a turn\<close>

lemma register_call_frame:
  assumes "register_call now kv i x st = Inr st'"
  shows "st_messages st' = st_messages st" "st_next_message st' = st_next_message st" "st_hil st' = st_hil st"
    "st_queue st' = st_queue st" "st_next_queued st' = st_next_queued st" "st_kv st' = st_kv st"
  using assms
  by (auto simp: register_call_def tool_register_def Let_def split: prod.splits if_splits)

lemma foldl_bind_Inl: "foldl (\<lambda>y x. bind_result y (f x)) (Inl e) xs = Inl e"
  by (induction xs) simp_all

lemma foldl_bind_Cons:
  "foldl (\<lambda>y x. bind_result y (f x)) (Inr st) (x # xs) = Inr st'
    \<longleftrightarrow> (\<exists>st1. f x st = Inr st1 \<and> foldl (\<lambda>y x. bind_result y (f x)) (Inr st1) xs = Inr st')"
  by (cases "f x st") (simp_all add: foldl_bind_Inl)

lemma register_calls_frame:
  assumes "foldl (\<lambda>y x. bind_result y (register_call now kv i x)) (Inr st) xs = Inr st'"
  shows "st_messages st' = st_messages st \<and> st_next_message st' = st_next_message st \<and> st_hil st' = st_hil st
    \<and> st_queue st' = st_queue st \<and> st_next_queued st' = st_next_queued st \<and> st_kv st' = st_kv st"
  using assms
proof (induction xs arbitrary: st)
  case (Cons x xs)
  then obtain st1 where "register_call now kv i x st = Inr st1"
    and "foldl (\<lambda>y x. bind_result y (register_call now kv i x)) (Inr st1) xs = Inr st'"
    unfolding foldl_bind_Cons by blast
  with Cons.IH [of st1] register_call_frame [of now kv i x st st1] show ?case by simp
qed simp

definition turn_message :: "int \<Rightarrow> string \<Rightarrow> json list \<Rightarrow> process_store \<Rightarrow> process_store" where
  "turn_message now runId content st =
     fst (appendMessage now MrAssistant (turn_text content)
       (no_opts\<lparr>mo_runId := Some runId,
          mo_toolCalls := stringifyAssistantMessageMeta (blocks_of ''thinking'' content) (blocks_of ''toolCall'' content)\<rparr>) st)"

lemma record_turn_frame:
  assumes "record_turn now uuids kv i content st = Inr st'"
  shows "st_messages st' = st_messages (turn_message now i content st)"
    "st_next_message st' = st_next_message (turn_message now i content st)"
    "st_hil st' = st_hil st" "st_queue st' = st_queue st" "st_next_queued st' = st_next_queued st" "st_kv st' = st_kv st"
  using assms register_calls_frame [of now kv i "turn_message now i content st"
      "zip (map uuids [0..<length (blocks_of ''toolCall'' content)]) (blocks_of ''toolCall'' content)" st']
  by (simp_all add: record_turn_def turn_message_def Let_def)

section \<open>Handlers\<close>

lemma claimNextQueuedRun_frame [simp]:
  "px_kv (claimNextQueuedRun now s) = px_kv s" "px_initialized (claimNextQueuedRun now s) = px_initialized s"
  "px_interactive (claimNextQueuedRun now s) = px_interactive s" "px_finishes (claimNextQueuedRun now s) = px_finishes s"
  "px_waiters (claimNextQueuedRun now s) = px_waiters s" "px_threads (claimNextQueuedRun now s) = px_threads s"
  "px_log (claimNextQueuedRun now s) = px_log s" "px_ticking (claimNextQueuedRun now s) = px_ticking s"
  by (simp_all add: claimNextQueuedRun_def Let_def split_beta split: option.splits list.splits sum.splits json.splits
      approval_action.splits tool_cont.splits generation.splits)

lemma finishRun_frame [simp]:
  "px_kv (finishRun_proc now w i fs re t e s) = px_kv s" "px_initialized (finishRun_proc now w i fs re t e s) = px_initialized s"
  "px_interactive (finishRun_proc now w i fs re t e s) = px_interactive s" "px_waiters (finishRun_proc now w i fs re t e s) = px_waiters s"
  "px_threads (finishRun_proc now w i fs re t e s) = px_threads s" "px_ticking (finishRun_proc now w i fs re t e s) = px_ticking s"
  by (simp_all add: finishRun_proc_def Let_def split_beta split: option.splits list.splits sum.splits json.splits
      approval_action.splits tool_cont.splits generation.splits)

lemma supersede_frame [simp]:
  "px_kv (supersede now js s) = px_kv s" "px_run (supersede now js s) = px_run s"
  "px_initialized (supersede now js s) = px_initialized s" "px_interactive (supersede now js s) = px_interactive s"
  "px_finishes (supersede now js s) = px_finishes s" "px_threads (supersede now js s) = px_threads s"
  "px_log (supersede now js s) = px_log s" "px_ticking (supersede now js s) = px_ticking s"
  by (simp_all add: supersede_def Let_def split_beta split: option.splits list.splits sum.splits json.splits
      approval_action.splits tool_cont.splits generation.splits)

lemma send_queued_frame [simp]:
  "px_kv (fst (send_queued now i m media og s)) = px_kv s" "px_initialized (fst (send_queued now i m media og s)) = px_initialized s"
  "px_interactive (fst (send_queued now i m media og s)) = px_interactive s" "px_finishes (fst (send_queued now i m media og s)) = px_finishes s"
  "px_waiters (fst (send_queued now i m media og s)) = px_waiters s" "px_threads (fst (send_queued now i m media og s)) = px_threads s"
  "px_log (fst (send_queued now i m media og s)) = px_log s" "px_ticking (fst (send_queued now i m media og s)) = px_ticking s"
  by (simp_all add: send_queued_def Let_def split_beta split: option.splits list.splits sum.splits json.splits
      approval_action.splits tool_cont.splits generation.splits)

lemma send_interrupting_frame [simp]:
  "px_kv (fst (send_interrupting now js i m media og s)) = px_kv s" "px_initialized (fst (send_interrupting now js i m media og s)) = px_initialized s"
  "px_interactive (fst (send_interrupting now js i m media og s)) = px_interactive s" "px_threads (fst (send_interrupting now js i m media og s)) = px_threads s"
  "px_ticking (fst (send_interrupting now js i m media og s)) = px_ticking s"
  by (simp_all add: send_interrupting_def Let_def split_beta split: option.splits list.splits sum.splits json.splits
      approval_action.splits tool_cont.splits generation.splits)

lemma handleProcSend_frame [simp]:
  "px_kv (fst (handleProcSend now env u a s)) = px_kv s" "px_initialized (fst (handleProcSend now env u a s)) = px_initialized s"
  "px_interactive (fst (handleProcSend now env u a s)) = px_interactive s" "px_threads (fst (handleProcSend now env u a s)) = px_threads s"
  "px_ticking (fst (handleProcSend now env u a s)) = px_ticking s"
  by (simp_all add: handleProcSend_def Let_def split_beta split: option.splits list.splits sum.splits json.splits
      approval_action.splits tool_cont.splits generation.splits)

lemma handleProcIpcDeliver_frame [simp]:
  "px_kv (fst (handleProcIpcDeliver now i m og s)) = px_kv s" "px_initialized (fst (handleProcIpcDeliver now i m og s)) = px_initialized s"
  "px_interactive (fst (handleProcIpcDeliver now i m og s)) = px_interactive s" "px_finishes (fst (handleProcIpcDeliver now i m og s)) = px_finishes s"
  "px_waiters (fst (handleProcIpcDeliver now i m og s)) = px_waiters s" "px_threads (fst (handleProcIpcDeliver now i m og s)) = px_threads s"
  "px_log (fst (handleProcIpcDeliver now i m og s)) = px_log s" "px_ticking (fst (handleProcIpcDeliver now i m og s)) = px_ticking s"
  by (simp_all add: handleProcIpcDeliver_def Let_def split_beta split: option.splits list.splits sum.splits json.splits
      approval_action.splits tool_cont.splits generation.splits)

lemma handleRuntimeEvent_frame [simp]:
  "px_kv (fst (handleRuntimeEvent now u c og d i s)) = px_kv s" "px_initialized (fst (handleRuntimeEvent now u c og d i s)) = px_initialized s"
  "px_interactive (fst (handleRuntimeEvent now u c og d i s)) = px_interactive s" "px_finishes (fst (handleRuntimeEvent now u c og d i s)) = px_finishes s"
  "px_waiters (fst (handleRuntimeEvent now u c og d i s)) = px_waiters s" "px_threads (fst (handleRuntimeEvent now u c og d i s)) = px_threads s"
  "px_log (fst (handleRuntimeEvent now u c og d i s)) = px_log s" "px_ticking (fst (handleRuntimeEvent now u c og d i s)) = px_ticking s"
  by (simp_all add: handleRuntimeEvent_def Let_def split_beta split: option.splits list.splits sum.splits json.splits
      approval_action.splits tool_cont.splits generation.splits)

lemma handleIpcSignal_frame [simp]:
  "px_kv (handleIpcSignal now u c i r t s) = px_kv s" "px_initialized (handleIpcSignal now u c i r t s) = px_initialized s"
  "px_interactive (handleIpcSignal now u c i r t s) = px_interactive s" "px_finishes (handleIpcSignal now u c i r t s) = px_finishes s"
  "px_waiters (handleIpcSignal now u c i r t s) = px_waiters s" "px_threads (handleIpcSignal now u c i r t s) = px_threads s"
  "px_log (handleIpcSignal now u c i r t s) = px_log s" "px_ticking (handleIpcSignal now u c i r t s) = px_ticking s"
  by (simp_all add: handleIpcSignal_def Let_def split_beta split: option.splits list.splits sum.splits json.splits
      approval_action.splits tool_cont.splits generation.splits)

lemma handleProcAbort_frame [simp]:
  "px_kv (fst (handleProcAbort now js i s)) = px_kv s" "px_initialized (fst (handleProcAbort now js i s)) = px_initialized s"
  "px_interactive (fst (handleProcAbort now js i s)) = px_interactive s" "px_ticking (fst (handleProcAbort now js i s)) = px_ticking s"
  by (simp_all add: handleProcAbort_def Let_def split_beta split: option.splits list.splits sum.splits json.splits
      approval_action.splits tool_cont.splits generation.splits)

lemma mediaPrepared_frame [simp]:
  "px_kv (mediaPrepared i m v s) = px_kv s" "px_initialized (mediaPrepared i m v s) = px_initialized s"
  "px_interactive (mediaPrepared i m v s) = px_interactive s" "px_finishes (mediaPrepared i m v s) = px_finishes s"
  "px_waiters (mediaPrepared i m v s) = px_waiters s" "px_threads (mediaPrepared i m v s) = px_threads s"
  "px_log (mediaPrepared i m v s) = px_log s" "px_ticking (mediaPrepared i m v s) = px_ticking s"
  by (simp_all add: mediaPrepared_def Let_def split_beta split: option.splits list.splits sum.splits json.splits
      approval_action.splits tool_cont.splits generation.splits)

lemma failPendingMedia_frame [simp]:
  "px_kv (failPendingMedia now i m msg re s) = px_kv s" "px_initialized (failPendingMedia now i m msg re s) = px_initialized s"
  "px_interactive (failPendingMedia now i m msg re s) = px_interactive s" "px_waiters (failPendingMedia now i m msg re s) = px_waiters s"
  "px_threads (failPendingMedia now i m msg re s) = px_threads s" "px_ticking (failPendingMedia now i m msg re s) = px_ticking s"
  by (simp_all add: failPendingMedia_def Let_def split_beta split: option.splits list.splits sum.splits json.splits
      approval_action.splits tool_cont.splits generation.splits)

lemma resetExecutionState_frame [simp]:
  "px_kv (resetExecutionState now js re b s) = px_kv s" "px_initialized (resetExecutionState now js re b s) = px_initialized s"
  "px_interactive (resetExecutionState now js re b s) = px_interactive s" "px_threads (resetExecutionState now js re b s) = px_threads s"
  "px_ticking (resetExecutionState now js re b s) = px_ticking s"
  by (simp_all add: resetExecutionState_def Let_def split_beta split: option.splits list.splits sum.splits json.splits
      approval_action.splits tool_cont.splits generation.splits)

lemma handleProcReset_frame [simp]:
  "px_kv (handleProcReset now js s) = px_kv s" "px_initialized (handleProcReset now js s) = px_initialized s"
  "px_interactive (handleProcReset now js s) = px_interactive s" "px_threads (handleProcReset now js s) = px_threads s"
  "px_ticking (handleProcReset now js s) = px_ticking s"
  by (simp_all add: handleProcReset_def Let_def split_beta split: option.splits list.splits sum.splits json.splits
      approval_action.splits tool_cont.splits generation.splits)

lemma tick_event_frame [simp]:
  "px_store (tick_event i g s) = px_store s" "px_kv (tick_event i g s) = px_kv s"
  "px_initialized (tick_event i g s) = px_initialized s" "px_interactive (tick_event i g s) = px_interactive s"
  "px_finishes (tick_event i g s) = px_finishes s" "px_waiters (tick_event i g s) = px_waiters s"
  "px_log (tick_event i g s) = px_log s"
  by (simp_all add: tick_event_def Let_def split_beta split: option.splits list.splits sum.splits json.splits
      approval_action.splits tool_cont.splits generation.splits)

lemma tick_step_frame [simp]:
  "px_store (tick_step env i s) = px_store s" "px_kv (tick_step env i s) = px_kv s"
  "px_initialized (tick_step env i s) = px_initialized s" "px_interactive (tick_step env i s) = px_interactive s"
  "px_finishes (tick_step env i s) = px_finishes s" "px_waiters (tick_step env i s) = px_waiters s"
  "px_log (tick_step env i s) = px_log s"
  by (simp_all add: tick_step_def Let_def split_beta split: option.splits list.splits sum.splits json.splits
      approval_action.splits tool_cont.splits generation.splits)

lemma tool_step_frame [simp]:
  "px_kv (tool_step now u i p calls le s) = px_kv s" "px_run (tool_step now u i p calls le s) = px_run s"
  "px_initialized (tool_step now u i p calls le s) = px_initialized s" "px_interactive (tool_step now u i p calls le s) = px_interactive s"
  "px_finishes (tool_step now u i p calls le s) = px_finishes s" "px_waiters (tool_step now u i p calls le s) = px_waiters s"
  by (simp_all add: tool_step_def Let_def split_beta split: option.splits list.splits sum.splits json.splits
      approval_action.splits tool_cont.splits generation.splits)

lemma begin_step_frame [simp]:
  "px_kv (begin_step env te i tc k s) = px_kv s" "px_initialized (begin_step env te i tc k s) = px_initialized s"
  "px_interactive (begin_step env te i tc k s) = px_interactive s" "px_finishes (begin_step env te i tc k s) = px_finishes s"
  "px_waiters (begin_step env te i tc k s) = px_waiters s" "px_log (begin_step env te i tc k s) = px_log s"
  by (simp_all add: begin_step_def Let_def split_beta split: option.splits list.splits sum.splits json.splits
      approval_action.splits tool_cont.splits generation.splits)

lemma start_step_frame [simp]:
  "px_store (start_step env i tc k s) = px_store s" "px_kv (start_step env i tc k s) = px_kv s"
  "px_initialized (start_step env i tc k s) = px_initialized s" "px_interactive (start_step env i tc k s) = px_interactive s"
  "px_finishes (start_step env i tc k s) = px_finishes s" "px_waiters (start_step env i tc k s) = px_waiters s"
  "px_log (start_step env i tc k s) = px_log s"
  by (simp_all add: start_step_def Let_def split_beta split: option.splits list.splits sum.splits json.splits
      approval_action.splits tool_cont.splits generation.splits)

lemma launch_step_frame [simp]:
  "px_kv (launch_step i tc p s) = px_kv s" "px_run (launch_step i tc p s) = px_run s"
  "px_initialized (launch_step i tc p s) = px_initialized s" "px_interactive (launch_step i tc p s) = px_interactive s"
  "px_finishes (launch_step i tc p s) = px_finishes s" "px_waiters (launch_step i tc p s) = px_waiters s"
  "px_ticking (launch_step i tc p s) = px_ticking s"
  by (simp_all add: launch_step_def Let_def split_beta split: option.splits list.splits sum.splits json.splits
      approval_action.splits tool_cont.splits generation.splits)

lemma tool_answer_frame [simp]:
  "px_run (tool_answer d v s) = px_run s" "px_initialized (tool_answer d v s) = px_initialized s"
  "px_interactive (tool_answer d v s) = px_interactive s" "px_finishes (tool_answer d v s) = px_finishes s"
  "px_waiters (tool_answer d v s) = px_waiters s" "px_threads (tool_answer d v s) = px_threads s"
  "px_log (tool_answer d v s) = px_log s" "px_ticking (tool_answer d v s) = px_ticking s"
  by (simp_all add: tool_answer_def Let_def split_beta split: option.splits list.splits sum.splits json.splits
      approval_action.splits tool_cont.splits generation.splits)

lemma onToolDispatchTimeout_frame [simp]:
  "px_kv (onToolDispatchTimeout i d s) = px_kv s" "px_run (onToolDispatchTimeout i d s) = px_run s"
  "px_initialized (onToolDispatchTimeout i d s) = px_initialized s" "px_interactive (onToolDispatchTimeout i d s) = px_interactive s"
  "px_finishes (onToolDispatchTimeout i d s) = px_finishes s" "px_waiters (onToolDispatchTimeout i d s) = px_waiters s"
  "px_threads (onToolDispatchTimeout i d s) = px_threads s" "px_log (onToolDispatchTimeout i d s) = px_log s"
  "px_ticking (onToolDispatchTimeout i d s) = px_ticking s"
  by (simp_all add: onToolDispatchTimeout_def Let_def split_beta split: option.splits list.splits sum.splits json.splits
      approval_action.splits tool_cont.splits generation.splits)

lemma handleProcHil_frame [simp]:
  "px_initialized (fst (handleProcHil env q b c s)) = px_initialized s" "px_interactive (fst (handleProcHil env q b c s)) = px_interactive s"
  "px_finishes (fst (handleProcHil env q b c s)) = px_finishes s"
  by (simp_all add: handleProcHil_def Let_def split_beta split: option.splits list.splits sum.splits json.splits
      approval_action.splits tool_cont.splits generation.splits)

lemma nested_step_frame [simp]:
  "px_kv (nested_step env now q t i d p c a s) = px_kv s" "px_run (nested_step env now q t i d p c a s) = px_run s"
  "px_initialized (nested_step env now q t i d p c a s) = px_initialized s" "px_interactive (nested_step env now q t i d p c a s) = px_interactive s"
  "px_finishes (nested_step env now q t i d p c a s) = px_finishes s" "px_threads (nested_step env now q t i d p c a s) = px_threads s"
  "px_ticking (nested_step env now q t i d p c a s) = px_ticking s"
  by (simp_all add: nested_step_def Let_def split_beta split: option.splits list.splits sum.splits json.splits
      approval_action.splits tool_cont.splits generation.splits)

lemma nested_resume_frame [simp]:
  "px_store (nested_resume w s) = px_store s" "px_kv (nested_resume w s) = px_kv s"
  "px_run (nested_resume w s) = px_run s" "px_initialized (nested_resume w s) = px_initialized s"
  "px_interactive (nested_resume w s) = px_interactive s" "px_finishes (nested_resume w s) = px_finishes s"
  "px_waiters (nested_resume w s) = px_waiters s" "px_threads (nested_resume w s) = px_threads s"
  "px_ticking (nested_resume w s) = px_ticking s"
  by (simp_all add: nested_resume_def Let_def split_beta split: option.splits list.splits sum.splits json.splits
      approval_action.splits tool_cont.splits generation.splits)

lemma nested_answer_frame [simp]:
  "px_store (nested_answer i d c a v s) = px_store s" "px_run (nested_answer i d c a v s) = px_run s"
  "px_initialized (nested_answer i d c a v s) = px_initialized s" "px_interactive (nested_answer i d c a v s) = px_interactive s"
  "px_finishes (nested_answer i d c a v s) = px_finishes s" "px_waiters (nested_answer i d c a v s) = px_waiters s"
  "px_threads (nested_answer i d c a v s) = px_threads s" "px_log (nested_answer i d c a v s) = px_log s"
  "px_ticking (nested_answer i d c a v s) = px_ticking s"
  by (simp_all add: nested_answer_def Let_def split_beta split: option.splits list.splits sum.splits json.splits
      approval_action.splits tool_cont.splits generation.splits)

lemma hil_timeout_frame [simp]:
  "px_kv (hil_timeout q s) = px_kv s" "px_run (hil_timeout q s) = px_run s"
  "px_initialized (hil_timeout q s) = px_initialized s" "px_interactive (hil_timeout q s) = px_interactive s"
  "px_finishes (hil_timeout q s) = px_finishes s" "px_threads (hil_timeout q s) = px_threads s"
  "px_log (hil_timeout q s) = px_log s" "px_ticking (hil_timeout q s) = px_ticking s"
  by (simp_all add: hil_timeout_def Let_def split_beta split: option.splits list.splits sum.splits json.splits
      approval_action.splits tool_cont.splits generation.splits)

lemma collect_step_frame [simp]:
  "px_kv (collect_step now env i s) = px_kv s" "px_run (collect_step now env i s) = px_run s"
  "px_initialized (collect_step now env i s) = px_initialized s" "px_interactive (collect_step now env i s) = px_interactive s"
  "px_finishes (collect_step now env i s) = px_finishes s" "px_waiters (collect_step now env i s) = px_waiters s"
  "px_log (collect_step now env i s) = px_log s"
  by (simp_all add: collect_step_def Let_def split_beta split: option.splits list.splits sum.splits json.splits
      approval_action.splits tool_cont.splits generation.splits)

lemma prepare_step_frame [simp]:
  "px_store (prepare_step i s) = px_store s" "px_kv (prepare_step i s) = px_kv s"
  "px_initialized (prepare_step i s) = px_initialized s" "px_interactive (prepare_step i s) = px_interactive s"
  "px_finishes (prepare_step i s) = px_finishes s" "px_waiters (prepare_step i s) = px_waiters s"
  by (simp_all add: prepare_step_def Let_def split_beta split: option.splits list.splits sum.splits json.splits
      approval_action.splits tool_cont.splits generation.splits)

lemma generate_step_frame [simp]:
  "px_kv (generate_step now uuids g i s) = px_kv s" "px_initialized (generate_step now uuids g i s) = px_initialized s"
  "px_interactive (generate_step now uuids g i s) = px_interactive s" "px_finishes (generate_step now uuids g i s) = px_finishes s"
  "px_waiters (generate_step now uuids g i s) = px_waiters s" "px_log (generate_step now uuids g i s) = px_log s"
  by (simp_all add: generate_step_def Let_def split_beta split: option.splits list.splits sum.splits json.splits
      approval_action.splits tool_cont.splits generation.splits)

lemma turn_step_frame [simp]:
  "px_store (turn_step env i b t s) = px_store s" "px_kv (turn_step env i b t s) = px_kv s"
  "px_initialized (turn_step env i b t s) = px_initialized s" "px_interactive (turn_step env i b t s) = px_interactive s"
  "px_finishes (turn_step env i b t s) = px_finishes s" "px_waiters (turn_step env i b t s) = px_waiters s"
  "px_log (turn_step env i b t s) = px_log s"
  by (simp_all add: turn_step_def Let_def split_beta split: option.splits list.splits sum.splits json.splits
      approval_action.splits tool_cont.splits generation.splits)

lemma finish_step_frame [simp]:
  "px_kv (finish_step now w i fs re t e s) = px_kv s" "px_initialized (finish_step now w i fs re t e s) = px_initialized s"
  "px_interactive (finish_step now w i fs re t e s) = px_interactive s" "px_waiters (finish_step now w i fs re t e s) = px_waiters s"
  "px_threads (finish_step now w i fs re t e s) = px_threads s"
  by (simp_all add: finish_step_def Let_def split_beta split: option.splits list.splits sum.splits json.splits
      approval_action.splits tool_cont.splits generation.splits)

lemma onRunFinishDelivery_frame [simp]:
  "px_kv (onRunFinishDelivery now i b s) = px_kv s" "px_run (onRunFinishDelivery now i b s) = px_run s"
  "px_initialized (onRunFinishDelivery now i b s) = px_initialized s" "px_interactive (onRunFinishDelivery now i b s) = px_interactive s"
  "px_waiters (onRunFinishDelivery now i b s) = px_waiters s" "px_threads (onRunFinishDelivery now i b s) = px_threads s"
  "px_log (onRunFinishDelivery now i b s) = px_log s" "px_ticking (onRunFinishDelivery now i b s) = px_ticking s"
  by (simp_all add: onRunFinishDelivery_def Let_def split_beta split: option.splits list.splits sum.splits json.splits
      approval_action.splits tool_cont.splits generation.splits)

lemma tick_throws_frame [simp]:
  "px_kv (tick_throws now w i e s) = px_kv s" "px_initialized (tick_throws now w i e s) = px_initialized s"
  "px_interactive (tick_throws now w i e s) = px_interactive s" "px_waiters (tick_throws now w i e s) = px_waiters s"
  by (simp_all add: tick_throws_def Let_def split_beta split: option.splits list.splits sum.splits json.splits
      approval_action.splits tool_cont.splits generation.splits)

end
