(* ===== verification/RunAdmission.thy ===== *)
theory RunAdmission
  imports RunFrames
begin

text \<open>
  Admission of runs over the steps of a process (\<open>process/do.ts\<close>): a run that was admitted stays known
  through everything but a reset, so a repeated delivery of its message is answered and not run again, and
  what becomes of events that arrive while a run is active.
\<close>

section \<open>Runs a process knows\<close>

definition known :: "string \<Rightarrow> process_store \<Rightarrow> bool" where
  "known r st \<longleftrightarrow> locateRunAdmission r st \<noteq> None"

lemma known_iff:
  "known r st \<longleftrightarrow> r \<in> mq_run_id ` set (st_queue st) \<or> Some r \<in> set (map ms_run_id (st_messages st))"
  by (force simp: known_def locateRunAdmission_def list_ex_iff)

text \<open>The ids of the queue do not repeat.\<close>

definition queue_ok :: "process_store \<Rightarrow> bool" where
  "queue_ok st \<longleftrightarrow> distinct (map mq_id (st_queue st)) \<and> (\<forall>q \<in> set (st_queue st). mq_id q < st_next_queued st)"

definition adm :: "string set \<Rightarrow> process_store \<Rightarrow> bool" where
  "adm r st \<longleftrightarrow> queue_ok st \<and> (\<forall>i \<in> r. known i st)"

lemma adm_cong:
  "st_queue st' = st_queue st \<Longrightarrow> st_next_queued st' = st_next_queued st \<Longrightarrow>
   set (map ms_run_id (st_messages st)) \<subseteq> set (map ms_run_id (st_messages st')) \<Longrightarrow> adm r st \<Longrightarrow> adm r st'"
  unfolding adm_def known_iff queue_ok_def by simp blast

lemma adm_simps [simp]:
  "adm r st \<Longrightarrow> adm r (tool_fail d e out st)" "adm r st \<Longrightarrow> adm r (tool_resolve d v st)"
  "adm r st \<Longrightarrow> adm r (fst (markDispatched d st))" "adm r st \<Longrightarrow> adm r (clearRun i st)"
  "adm r st \<Longrightarrow> adm r (clearPendingToolCalls st)" "adm r st \<Longrightarrow> adm r (clearPendingHil st)"
  "adm r st \<Longrightarrow> adm r (setPendingHil h st)"
  by (erule adm_cong [rotated 3]; simp)+

lemma adm_append [simp]: "adm r st \<Longrightarrow> adm r (fst (appendMessage now role c opts st))"
  by (erule adm_cong [rotated 3]) (auto simp: appendMessage_def)

lemma adm_enqueue [simp]: "adm r st \<Longrightarrow> adm r (enqueue now i m media og st)"
  by (auto simp: adm_def known_iff queue_ok_def enqueue_def)

lemma adm_media [simp]: "adm r st \<Longrightarrow> adm r (updateMessageMedia m i v st)"
proof -
  have "map ms_run_id (sql_update P (\<lambda>m. m\<lparr>ms_media := w\<rparr>) ms) = map ms_run_id ms" for P w ms
    by (simp add: sql_update_def)
  then have "map ms_run_id (st_messages (updateMessageMedia m i v st)) = map ms_run_id (st_messages st)"
    by (simp add: updateMessageMedia_def del: map_eq_conv)
  then show "adm r st \<Longrightarrow> adm r (updateMessageMedia m i v st)"
    by (elim adm_cong [rotated 3]) (simp_all del: map_eq_conv set_map)
qed

lemma adm_ingest [simp]: "adm r st \<Longrightarrow> adm r (ingestToolResults now js ip i rows st)"
proof -
  have "adm r (append_result now js ip i row st)" if "adm r st" for st row
    using that by (auto simp: append_result_def appendToolResult_def split: option.splits prod.splits)
  then have "adm r st \<Longrightarrow> adm r (fold (append_result now js ip i) rows st)"
    by (induction rows arbitrary: st) auto
  then show "adm r st \<Longrightarrow> adm r (ingestToolResults now js ip i rows st)"
    by (simp add: ingestToolResults_def)
qed

lemma adm_turn: "record_turn now uuids kv i content st = Inr st' \<Longrightarrow> adm r st \<Longrightarrow> adm r st'"
  by (frule record_turn_frame(4), frule record_turn_frame(5), drule record_turn_frame(1), erule adm_cong [rotated 3])
    (auto simp: turn_message_def appendMessage_def)

text \<open>The message that leaves the queue joins the history.\<close>

lemma adm_claim [simp]: "adm r (px_store s) \<Longrightarrow> adm r (px_store (claimNextQueuedRun now s))"
proof -
  assume a: "adm r (px_store s)"
  show ?thesis
  proof (cases "sort_key mq_id (st_queue (px_store s))")
    case Nil
    then show ?thesis using a by (simp add: claimNextQueuedRun_def dequeue_def)
  next
    case (Cons q qs)
    have q: "q \<in> set (st_queue (px_store s))"
      using arg_cong [OF Cons, of set] by auto
    have one: "x = q" if "x \<in> set (st_queue (px_store s))" "mq_id x = mq_id q" for x
      using that q a by (auto simp: adm_def queue_ok_def distinct_map inj_on_def)
    let ?q' = "sql_delete (\<lambda>x. mq_id x = mq_id q) (st_queue (px_store s))"
    have rest: "i \<in> mq_run_id ` set (st_queue (px_store s)) \<Longrightarrow> i = mq_run_id q \<or> i \<in> mq_run_id ` set ?q'" for i
      using one by (force simp: sql_delete_def)
    have ok: "queue_ok ((px_store s)\<lparr>st_queue := ?q'\<rparr>)"
      using a by (auto simp: adm_def queue_ok_def sql_delete_def distinct_map inj_on_def)
    have "adm r (fst (appendMessage now MrUser c (no_opts\<lparr>mo_generation := g, mo_runId := Some (mq_run_id q),
        mo_media := m, mo_origin := og\<rparr>) ((px_store s)\<lparr>st_queue := ?q'\<rparr>)))" for c g m og
      using a ok rest by (fastforce simp: adm_def known_iff queue_ok_def appendMessage_def new_message_def)
    then show ?thesis using a Cons by (simp add: claimNextQueuedRun_def dequeue_def)
  qed
qed

section \<open>Steps keep them\<close>

lemma adm_finishRun [simp]: "adm r (px_store s) \<Longrightarrow> adm r (px_store (finishRun_proc now w i fs re t e s))"
  by (auto simp: finishRun_proc_def Let_def split: option.splits)

lemma adm_send_queued [simp]: "adm r (px_store s) \<Longrightarrow> adm r (px_store (fst (send_queued now i m media og s)))"
  by (auto simp: send_queued_def)

lemma adm_supersede [simp]: "adm r (px_store s) \<Longrightarrow> adm r (px_store (supersede now js s))"
  by (auto simp: supersede_def split: option.splits)

lemma adm_send_interrupting [simp]:
  "adm r (px_store s) \<Longrightarrow> adm r (px_store (fst (send_interrupting now js i m media og s)))"
  by (auto simp: send_interrupting_def Let_def dest!: appendMessage_parts split: option.splits prod.splits)

lemma adm_handleProcSend [simp]: "adm r (px_store s) \<Longrightarrow> adm r (px_store (fst (handleProcSend now env u a s)))"
  by (simp add: handleProcSend_def Let_def split_beta split: option.splits)

lemma adm_processToolCalls [simp]: "adm r (px_store s) \<Longrightarrow> adm r (px_store (processToolCalls env i le s))"
  by simp

lemma adm_run_thread: "adm r (px_store s) \<Longrightarrow> adm r (px_store (run_thread env now i th s))"
  unfolding run_thread_def
  by (cases th)
    (auto simp: tick_step_def tool_step_def begin_step_def start_step_def launch_step_def nested_resume_def
      collect_step_def prepare_step_def generate_step_def turn_step_def finish_step_def Let_def on_store_def
      dest!: markDispatched_parts adm_turn
      split: option.splits list.splits approval_action.splits prod.splits tool_cont.splits generation.splits sum.splits)

lemma adm_step:
  assumes "adm r (px_store s)" "ev \<noteq> EvReset"
  shows "adm r (px_store (proc_step env now ev s))"
  using assms adm_run_thread [of r "s\<lparr>px_threads := _\<rparr>"]
  unfolding proc_step_def
  by (cases ev)
    (auto simp: handleProcIpcDeliver_def handleRuntimeEvent_def handleIpcSignal_def handleProcAbort_def mediaPrepared_def
      failPendingMedia_def handleProcHil_def hil_timeout_def tick_event_def tool_answer_def onToolDispatchTimeout_def
      nested_step_def nested_answer_def onRunFinishDelivery_def tick_throws_def restart_def Let_def on_store_def split_beta
      split: option.splits sum.splits approval_action.splits json.splits)

lemma adm_reset: "adm {} (px_store s) \<Longrightarrow> adm {} (px_store (handleProcReset now js s))"
  by (auto simp: handleProcReset_def resetExecutionState_def Let_def adm_def queue_ok_def clearQueue_def split: option.splits)

lemma initialized_run_thread [simp]: "px_initialized (run_thread env now i th s) = px_initialized s"
  by (cases th) (simp_all add: run_thread_def)

lemma initialized_step [simp]: "px_initialized (proc_step env now ev s) = px_initialized s"
  by (cases ev) (simp_all add: proc_step_def restart_def)

lemma initialized_steps [simp]: "px_initialized (proc_steps env evs s) = px_initialized s"
proof (induction evs arbitrary: s)
  case (Cons x evs)
  then show ?case by (cases x) simp
qed simp

lemma queue_ok_steps: "adm {} (px_store (proc_steps env evs (new_process b)))"
proof -
  have "adm {} (px_store (new_process b))"
    by (simp add: adm_def queue_ok_def new_process_def empty_store_def)
  moreover have "adm {} (px_store (proc_step env now ev s))" if "adm {} (px_store s)" for now ev s
    using adm_step [OF that] adm_reset [OF that] by (cases "ev = EvReset") (simp_all add: proc_step_def)
  ultimately show ?thesis
    using proc_steps_invariant [where I = "\<lambda>s. adm {} (px_store s)" and ok = "\<lambda>_. True"] by (simp add: list_all_iff)
qed

section \<open>Replays\<close>

lemma send_makes_known:
  assumes "handleProcSend now env u a s = (s', Inr d)" "d = Started r \<or> d = Queued r"
  shows "known r (px_store s')"
  using assms
  by (auto simp: handleProcSend_def Let_def split_beta existingRunAdmission_def send_queued_def send_interrupting_def
      known_iff appendMessage_def new_message_def enqueue_def
      split: option.splits if_splits)

lemma known_replayed:
  assumes "known r (px_store t)" "px_initialized t" "r \<noteq> []"
  shows "\<exists>l. existingRunAdmission r t = Some (Replayed r l)"
  using assms by (auto simp: existingRunAdmission_def known_def)


section \<open>Events while a run is active\<close>

definition is_prompt :: "log_entry \<Rightarrow> bool" where
  "is_prompt x \<longleftrightarrow> (case x of LgPrompt r ms \<Rightarrow> True | _ \<Rightarrow> False)"

lemma claim_empty: "st_queue (px_store s) = [] \<Longrightarrow> claimNextQueuedRun now s = s"
  by (simp add: claimNextQueuedRun_def dequeue_def)

lemma is_prompt_finished [simp]: "\<not> is_prompt (LgFinished f)"
  by (simp add: is_prompt_def)

lemma emit_prompts [simp]: "filter is_prompt (px_log (emitRunFinished i fs re t e s)) = filter is_prompt (px_log s)"
  by (simp add: emitRunFinished_def Let_def)

lemma record_plain_turn:
  "blocks_of ''toolCall'' content = [] \<Longrightarrow> record_turn now uuids kv i content st = Inr (turn_message now i content st)"
  by (simp add: record_turn_def turn_message_def)

text \<open>
  C34. An event that arrives while the model writes its last answer wakes nobody. When a run finishes with an
  event it has not seen, a new run is queued for it. But the context that is rebuilt after an answer, for
  the count of its tokens, marks every event seen: if the event arrives during the generation and the
  answer makes no calls, the process is idle afterwards, with no run and an empty queue, and no prompt
  was made since the event was recorded.
\<close>

theorem event_during_last_answer_is_lost:
  assumes run: "px_run s = Some run" "rn_runId run = r" and th: "px_threads s = [ThGenerate r]"
    and st: "px_initialized s" "st_queue (px_store s) = []"
    and answer: "ti_generation i1 = GenContent content" "blocks_of ''toolCall'' content = []"
  shows "let s1 = proc_step env n1 (EvRuntime u c og False None) s;
             t = proc_steps env [(n2, EvThread 0 i1), (n3, EvThread 0 i2), (n4, EvThread 0 i3)] s1
         in px_run (finishRun_proc n4 w r FsOk ''turn.complete'' (Some (turn_text content)) None s1) = Some (new_run w)
            \<and> map ms_content (st_messages (px_store t)) = map ms_content (st_messages (px_store s)) @ [c, turn_text content]
            \<and> px_run t = None \<and> px_threads t = [] \<and> st_queue (px_store t) = []
            \<and> filter is_prompt (px_log t) = filter is_prompt (px_log s)"
proof -
  let ?run = "add_event run"
  let ?st = "fst (appendMessage n1 MrSystem c (no_opts\<lparr>mo_origin := og\<rparr>) (px_store s))"
  let ?s1 = "s\<lparr>px_store := ?st, px_run := Some ?run\<rparr>"
  have s1: "proc_step env n1 (EvRuntime u c og False None) s = ?s1"
    using run st by (simp add: proc_step_def handleRuntimeEvent_def truthy_def)
  let ?st2 = "turn_message n2 r content ?st"
  let ?s2 = "?s1\<lparr>px_threads := [ThTurn r False (turn_text content)], px_store := ?st2, px_run := Some (?run\<lparr>rn_events := 0\<rparr>)\<rparr>"
  have s2: "proc_step env n2 (EvThread 0 i1) ?s1 = ?s2"
    using run th answer
    by (simp add: proc_step_def run_thread_def generate_step_def handleRunStopped_def record_plain_turn spawn_def
        consume_events_def add_event_def)
  let ?s3 = "?s2\<lparr>px_threads := [ThFinish r FsOk ''turn.complete'' (Some (turn_text content)) None]\<rparr>"
  have s3: "proc_step env n3 (EvThread 0 i2) ?s2 = ?s3"
    using run by (simp add: proc_step_def run_thread_def turn_step_def handleRunStopped_def spawn_def add_event_def)
  have q: "st_queue ?st2 = []" "st_queue ?st = []" using st by (simp_all add: turn_message_def)
  have s4: "proc_step env n4 (EvThread 0 i3) ?s3
      = tick_end r (on_store clearPendingHil ((emitRunFinished r FsOk ''turn.complete'' (Some (turn_text content)) None
          (?s3\<lparr>px_threads := []\<rparr>))\<lparr>px_run := None\<rparr>))"
    using run q
    by (simp add: proc_step_def run_thread_def finish_step_def finishRun_proc_def add_event_def claim_empty)
  have fin: "px_run (finishRun_proc n4 w r FsOk ''turn.complete'' (Some (turn_text content)) None ?s1) = Some (new_run w)"
    using run q
    by (simp add: finishRun_proc_def add_event_def queueSize_def claimNextQueuedRun_def dequeue_def enqueue_def)
  have msgs: "map ms_content (st_messages ?st2) = map ms_content (st_messages (px_store s)) @ [c, turn_text content]"
    by (simp add: turn_message_def appendMessage_def new_message_def)
  show ?thesis
    unfolding Let_def s1 proc_steps_Cons proc_steps_Nil s2 s3 s4
    using fin msgs q by simp
qed

section \<open>Witnesses\<close>

definition run_env :: proc_env where
  "run_env = \<lparr>en_parse = (\<lambda>_. None), en_stringify = (\<lambda>_. ''{}''), en_account_policy = None, en_capabilities = [''*'']\<rparr>"

definition demo_input :: "generation \<Rightarrow> thread_input" where
  "demo_input g = \<lparr>ti_uuids = (\<lambda>n. ''u'' @ show_int (int n)), ti_timerError = None, ti_generation = g, ti_value = JNull\<rparr>"

definition demo_send :: "string \<Rightarrow> send_input" where
  "demo_send r = \<lparr>si_message = ''hello'', si_media = None, si_origin = None, si_from_user = True,
     si_admittedRunId = Some r, si_error = None, si_missing = None\<rparr>"

definition demo_answer :: "json list" where
  "demo_answer = [JObj [(''type'', JStr ''text''), (''text'', JStr ''done'')]]"

text \<open>The run of the first send answers and ends; another is started; the first message comes again.\<close>

definition demo_after :: "(int \<times> proc_event) list" where
  "demo_after = [(2, EvTick ''r1'' 0), (3, EvThread 0 (demo_input GenRetry)), (4, EvThread 0 (demo_input GenRetry)),
     (5, EvThread 0 (demo_input GenRetry)), (6, EvThread 0 (demo_input (GenContent demo_answer))),
     (7, EvThread 0 (demo_input GenRetry)), (8, EvThread 0 (demo_input GenRetry)), (9, EvSend ''x'' (demo_send ''r2''))]"


lemma event_during_last_answer_is_lost_witness:
  "let s = proc_steps run_env (take 4 demo_after) (fst (handleProcSend 1 run_env ''u'' (demo_send ''r1'') (new_process True)));
       t = proc_steps run_env [(6, EvThread 0 (demo_input (GenContent demo_answer))), (7, EvThread 0 (demo_input GenRetry)),
             (8, EvThread 0 (demo_input GenRetry))] (proc_step run_env 5 (EvRuntime ''u'' ''event'' None False None) s)
   in px_run t = None \<and> st_queue (px_store t) = []
     \<and> map ms_content (st_messages (px_store t)) = [''hello'', ''event'', ''done'']"
proof -
  let ?s = "proc_steps run_env (take 4 demo_after) (fst (handleProcSend 1 run_env ''u'' (demo_send ''r1'') (new_process True)))"
  have f: "px_run ?s = Some ((new_run ''r1'')\<lparr>rn_tickGeneration := 1\<rparr>)" "px_threads ?s = [ThGenerate ''r1'']"
    "px_initialized ?s" "st_queue (px_store ?s) = []" "map ms_content (st_messages (px_store ?s)) = [''hello'']"
    by code_simp+
  have a: "blocks_of ''toolCall'' demo_answer = []" "turn_text demo_answer = ''done''" by code_simp+
  have r: "rn_runId ((new_run ''r1'')\<lparr>rn_tickGeneration := 1\<rparr>) = ''r1''" by (simp add: new_run_def)
  from event_during_last_answer_is_lost [of ?s _ "''r1''" "demo_input (GenContent demo_answer)" demo_answer run_env 5 "''u''" "''event''"
      None 6 7 "demo_input GenRetry" 8 "demo_input GenRetry" "''w''", OF f(1) r f(2,3,4) _ a(1)]
  show ?thesis using f(5) a(2) by (simp add: Let_def demo_input_def)
qed

end
