(* ===== verification/RunApproval.thy ===== *)
theory RunApproval
  imports RunAdmission "HOL-Library.Countable"
begin

text \<open>
  Approval over the steps of a process (\<open>process/do.ts\<close>): a tool call leaves the process only if the policy of
  its run lets it run at once or its owner approved a request that names it, also for the calls a CodeMode
  execution makes, and the policy itself grows only by what the owner asked to remember.
\<close>

section \<open>What the log justifies\<close>

definition approved :: "log_entry list \<Rightarrow> pending_hil \<Rightarrow> bool" where
  "approved lg h \<longleftrightarrow> LgAsked h \<in> set lg \<and> (\<exists>m. LgDecided (hl_requestId h) True m \<in> set lg)"

text \<open>A rule the owner had remembered with an approval, as it was built or as it is read back.\<close>

definition granted :: "log_entry list \<Rightarrow> approval_rule \<Rightarrow> bool" where
  "granted lg r \<longleftrightarrow> (\<exists>h kv. LgAsked h \<in> set lg \<and> LgDecided (hl_requestId h) True True \<in> set lg
     \<and> (r = buildToolApprovalOverride kv (hl_syscall h) (Some (hl_args h))
        \<or> parseRule (rule_json (buildToolApprovalOverride kv (hl_syscall h) (Some (hl_args h)))) = Some r))"

text \<open>The policy of the account behind rules that were granted.\<close>

definition policy_from :: "proc_env \<Rightarrow> log_entry list \<Rightarrow> approval_policy \<Rightarrow> bool" where
  "policy_from env lg p \<longleftrightarrow> (let account = parseToolApprovalPolicy (en_parse env) (en_account_policy env)
     in ap_default p = ap_default account
        \<and> (\<exists>ovr. ap_rules p = ovr @ ap_rules account \<and> (\<forall>r \<in> set ovr. granted lg r)))"

definition lets_run :: "approval_policy \<Rightarrow> string \<Rightarrow> json \<Rightarrow> bool" where
  "lets_run p call args \<longleftrightarrow> rs_action (resolveToolApproval p call (Some args)) = AaAuto"

definition may_run :: "proc_env \<Rightarrow> log_entry list \<Rightarrow> string \<Rightarrow> json \<Rightarrow> bool" where
  "may_run env lg call args \<longleftrightarrow> (\<exists>p. policy_from env lg p \<and> lets_run p call args)"

definition approved_call :: "log_entry list \<Rightarrow> string \<Rightarrow> tool_row \<Rightarrow> bool" where
  "approved_call lg runId tc \<longleftrightarrow> (\<exists>h. approved lg h \<and> hl_runId h = runId \<and> hl_toolCallId h = tc_id tc \<and> hl_syscall h = tc_call tc)"

definition names_nested :: "pending_hil \<Rightarrow> string \<Rightarrow> string \<Rightarrow> string \<Rightarrow> json \<Rightarrow> bool" where
  "names_nested h runId dispatchId call args \<longleftrightarrow>
     hl_runId h = runId \<and> hl_ownerDispatchId h = Some dispatchId \<and> hl_syscall h = call \<and> hl_args h = args"

definition approved_nested :: "log_entry list \<Rightarrow> string \<Rightarrow> string \<Rightarrow> string \<Rightarrow> json \<Rightarrow> bool" where
  "approved_nested lg runId dispatchId call args \<longleftrightarrow> (\<exists>h. approved lg h \<and> names_nested h runId dispatchId call args)"

section \<open>Invariant\<close>

fun thread_fine :: "proc_env \<Rightarrow> log_entry list \<Rightarrow> thread \<Rightarrow> bool" where
  "thread_fine env lg (ThTools r p calls le) \<longleftrightarrow> policy_from env lg p"
| "thread_fine env lg (ThBegin r tc k) \<longleftrightarrow> policy_from env lg (cont_policy k)
     \<and> (case k of ContLoop p rest le \<Rightarrow> lets_run p (tc_call tc) (tc_args tc) | ContHil p \<Rightarrow> approved_call lg r tc)"
| "thread_fine env lg (ThStart r tc k) \<longleftrightarrow> policy_from env lg (cont_policy k)
     \<and> (case k of ContLoop p rest le \<Rightarrow> lets_run p (tc_call tc) (tc_args tc) | ContHil p \<Rightarrow> approved_call lg r tc)"
| "thread_fine env lg (ThLaunch r tc p) \<longleftrightarrow> policy_from env lg p
     \<and> (may_run env lg (tc_call tc) (tc_args tc) \<or> approved_call lg r tc)"
| "thread_fine env lg (ThCode r d p) \<longleftrightarrow> policy_from env lg p"
| "thread_fine env lg (ThNested w) \<longleftrightarrow> approved_nested lg (cw_runId w) (cw_dispatchId w) (cw_call w) (cw_args w)"
| "thread_fine env lg th \<longleftrightarrow> True"

fun entry_fine :: "proc_env \<Rightarrow> log_entry list \<Rightarrow> log_entry \<Rightarrow> bool" where
  "entry_fine env lg (LgSent r tc) \<longleftrightarrow> may_run env lg (tc_call tc) (tc_args tc) \<or> approved_call lg r tc"
| "entry_fine env lg (LgNested r d c a) \<longleftrightarrow> may_run env lg c a \<or> approved_nested lg r d c a"
| "entry_fine env lg x \<longleftrightarrow> True"

definition waiter_fine :: "log_entry list \<Rightarrow> code_waiter \<Rightarrow> bool" where
  "waiter_fine lg w \<longleftrightarrow> cw_requestId w \<noteq> [] \<and> (\<exists>h. LgAsked h \<in> set lg \<and> hl_requestId h = cw_requestId w
     \<and> names_nested h (cw_runId w) (cw_dispatchId w) (cw_call w) (cw_args w))"

definition overrides :: "proc_env \<Rightarrow> proc_state \<Rightarrow> approval_rule list" where
  "overrides env s = loadToolApprovalOverrides (en_parse env) (en_stringify env) (px_kv s)"

definition pol_of :: "proc_state \<Rightarrow> approval_policy option" where
  "pol_of s = Option.bind (px_run s) rn_policy"

definition fine :: "proc_env \<Rightarrow> proc_state \<Rightarrow> bool" where
  "fine env s \<longleftrightarrow> list_all (thread_fine env (px_log s)) (px_threads s)
     \<and> list_all (entry_fine env (px_log s)) (px_log s)
     \<and> list_all (waiter_fine (px_log s)) (px_waiters s)
     \<and> list_all (\<lambda>h. LgAsked h \<in> set (px_log s)) (st_hil (px_store s))
     \<and> list_all (granted (px_log s)) (overrides env s)
     \<and> (\<forall>p. pol_of s = Some p \<longrightarrow> policy_from env (px_log s) p)"

text \<open>A longer log justifies as much.\<close>

lemma approved_mono: "set lg \<subseteq> set lg' \<Longrightarrow> approved lg h \<Longrightarrow> approved lg' h"
  by (auto simp: approved_def)

lemma granted_mono: "set lg \<subseteq> set lg' \<Longrightarrow> granted lg r \<Longrightarrow> granted lg' r"
  by (auto simp: granted_def)

lemma policy_from_mono: "set lg \<subseteq> set lg' \<Longrightarrow> policy_from env lg p \<Longrightarrow> policy_from env lg' p"
  unfolding policy_from_def Let_def using granted_mono by blast

lemma may_run_mono: "set lg \<subseteq> set lg' \<Longrightarrow> may_run env lg c a \<Longrightarrow> may_run env lg' c a"
  unfolding may_run_def using policy_from_mono by blast

lemma approved_call_mono: "set lg \<subseteq> set lg' \<Longrightarrow> approved_call lg r tc \<Longrightarrow> approved_call lg' r tc"
  unfolding approved_call_def using approved_mono by blast

lemma approved_nested_mono: "set lg \<subseteq> set lg' \<Longrightarrow> approved_nested lg r d c a \<Longrightarrow> approved_nested lg' r d c a"
  unfolding approved_nested_def using approved_mono by blast

lemmas log_monos = policy_from_mono may_run_mono approved_call_mono approved_nested_mono granted_mono

lemma thread_fine_mono: "set lg \<subseteq> set lg' \<Longrightarrow> thread_fine env lg th \<Longrightarrow> thread_fine env lg' th"
  by (cases th) (auto intro: log_monos split: tool_cont.splits)

lemma entry_fine_mono: "set lg \<subseteq> set lg' \<Longrightarrow> entry_fine env lg x \<Longrightarrow> entry_fine env lg' x"
  by (cases x) (auto intro: log_monos)

lemma waiter_fine_mono: "set lg \<subseteq> set lg' \<Longrightarrow> waiter_fine lg w \<Longrightarrow> waiter_fine lg' w"
  by (auto simp: waiter_fine_def)

lemma fine_change:
  assumes "fine env s" "set (px_log s) \<subseteq> set (px_log s')"
    and "\<And>th. th \<in> set (px_threads s') \<Longrightarrow> th \<in> set (px_threads s) \<or> thread_fine env (px_log s') th"
    and "\<And>x. x \<in> set (px_log s') \<Longrightarrow> x \<in> set (px_log s) \<or> entry_fine env (px_log s') x"
    and "\<And>w. w \<in> set (px_waiters s') \<Longrightarrow> w \<in> set (px_waiters s) \<or> waiter_fine (px_log s') w"
    and "\<And>h. h \<in> set (st_hil (px_store s')) \<Longrightarrow> h \<in> set (st_hil (px_store s)) \<or> LgAsked h \<in> set (px_log s')"
    and "\<And>r. r \<in> set (overrides env s') \<Longrightarrow> r \<in> set (overrides env s) \<or> granted (px_log s') r"
    and "\<And>p. pol_of s' = Some p \<Longrightarrow> pol_of s = Some p \<or> policy_from env (px_log s') p"
  shows "fine env s'"
  using assms(1) unfolding fine_def list_all_iff
  by (intro conjI ballI allI impI;
      metis assms(2-8) thread_fine_mono entry_fine_mono waiter_fine_mono granted_mono policy_from_mono subsetD)

text \<open>Steps that send nothing, ask nothing and decide nothing.\<close>

fun plain_thread :: "thread \<Rightarrow> bool" where
  "plain_thread (ThTools r p calls le) = False"
| "plain_thread (ThBegin r tc k) = False"
| "plain_thread (ThStart r tc k) = False"
| "plain_thread (ThLaunch r tc p) = False"
| "plain_thread (ThCode r d p) = False"
| "plain_thread (ThNested w) = False"
| "plain_thread th = True"

fun plain_entry :: "log_entry \<Rightarrow> bool" where
  "plain_entry (LgSent r tc) = False"
| "plain_entry (LgNested r d c a) = False"
| "plain_entry x = True"

definition quiet :: "proc_state \<Rightarrow> proc_state \<Rightarrow> bool" where
  "quiet s s' \<longleftrightarrow> set (px_log s) \<subseteq> set (px_log s') \<and> (\<forall>x \<in> set (px_log s'). x \<in> set (px_log s) \<or> plain_entry x)
     \<and> (\<forall>th \<in> set (px_threads s'). th \<in> set (px_threads s) \<or> plain_thread th)
     \<and> set (px_waiters s') \<subseteq> set (px_waiters s) \<and> set (st_hil (px_store s')) \<subseteq> set (st_hil (px_store s))
     \<and> px_kv s' TOOL_APPROVAL_OVERRIDES_KEY = px_kv s TOOL_APPROVAL_OVERRIDES_KEY
     \<and> (\<forall>p. pol_of s' = Some p \<longrightarrow> pol_of s = Some p)"

lemma plain_thread_fine: "plain_thread th \<Longrightarrow> thread_fine env lg th"
  by (cases th) auto

lemma plain_entry_fine: "plain_entry x \<Longrightarrow> entry_fine env lg x"
  by (cases x) auto

lemma quiet_fine: "quiet s s' \<Longrightarrow> fine env s \<Longrightarrow> fine env s'"
  by (erule fine_change)
    (auto simp: quiet_def overrides_def loadToolApprovalOverrides_def intro: plain_thread_fine plain_entry_fine)

lemma quiet_refl [simp]: "quiet s s"
  by (simp add: quiet_def)

lemma quiet_trans: "quiet s t \<Longrightarrow> quiet t u \<Longrightarrow> quiet s u"
  unfolding quiet_def by (intro conjI) (blast, blast, blast, blast, blast, simp, blast)

lemma emit_log [simp]:
  "x \<in> set (px_log (emitRunFinished i fs re t e s)) \<longleftrightarrow> x \<in> set (px_log s)
    \<or> (i \<notin> set (map rf_runId (px_finishes s)) \<and> x = LgFinished (runFinishedPayload i fs re t e (px_store s)))"
  by (auto simp: emitRunFinished_def Let_def)

lemma pol_of_simps [simp]: "px_run s = None \<Longrightarrow> pol_of s = None"
  "px_run s = Some run \<Longrightarrow> pol_of s = rn_policy run" "rn_policy (new_run i) = None"
  "rn_policy (add_event run) = rn_policy run"
  by (simp_all add: pol_of_def new_run_def add_event_def)

lemma dequeue_hil: "dequeue st = (st', q) \<Longrightarrow> st_hil st' = st_hil st"
  by (auto simp: dequeue_def split: list.splits)

lemma quiet_claim [simp]: "quiet s (claimNextQueuedRun now s)"
  by (auto simp: quiet_def claimNextQueuedRun_def dest: dequeue_hil split: option.splits prod.splits)

lemma pol_of_cong: "px_run s' = px_run s \<Longrightarrow> pol_of s' = pol_of s"
  by (simp add: pol_of_def)

lemma quiet_finishRun [simp]: "quiet s (finishRun_proc now w i fs re t e s)"
proof (cases "handleRunStopped i s")
  case True
  then show ?thesis by (auto simp: finishRun_proc_def handleRunStopped_def split: option.splits)
next
  case False
  then obtain run where run: "px_run s = Some run" "rn_runId run = i" by (auto simp: handleRunStopped_def)
  let ?s1 = "on_store clearPendingHil ((emitRunFinished i fs re t e s)\<lparr>px_run := None\<rparr>)"
  have 1: "quiet s ?s1" by (auto simp: quiet_def clearPendingHil_def)
  have 2: "quiet s (on_store (enqueue now w m md og) ?s1)" for m md og
    by (rule quiet_trans [OF 1]) (simp add: quiet_def pol_of_def)
  show ?thesis
    unfolding finishRun_proc_def Let_def using run
    by (simp add: quiet_trans [OF 1 quiet_claim] quiet_trans [OF 2 quiet_claim] del: emitRunFinished_frame)
qed

lemma quiet_tick_end [simp]: "quiet s (tick_end i s)"
  by (simp add: quiet_def pol_of_def)

lemma quiet_on_store: "set (st_hil (f (px_store s))) \<subseteq> set (st_hil (px_store s)) \<Longrightarrow> quiet s (on_store f s)"
  by (simp add: quiet_def pol_of_def)

lemma quiet_send: "quiet s (fst (handleProcSend now env u a s))"
proof -
  have sup: "quiet s (supersede now js s)" for js
    by (auto simp: quiet_def supersede_def pol_of_def clearPendingHil_def rejectCodeModeWaiters_def split: option.splits)
  have int: "quiet s (fst (send_interrupting now js i m media og s))" for js i m media og
    using sup [of js]
    by (auto simp: quiet_def send_interrupting_def Let_def split_beta emitRunFinished_def split: option.splits)
  have que: "quiet s (fst (send_queued now i m media og s))" for i m media og
    by (auto simp: quiet_def send_queued_def pol_of_def)
  show ?thesis
    using int que by (auto simp: handleProcSend_def Let_def split_beta split: option.splits)
qed

lemma quiet_arrivals:
  "quiet s (fst (handleProcIpcDeliver now i m og s))" "quiet s (fst (handleRuntimeEvent now u c og d r s))"
  "quiet s (handleIpcSignal now u c ci r' t s)" "quiet s (mediaPrepared i mid v s)"
  "quiet s (failPendingMedia now i mid msg re s)"
proof -
  show "quiet s (fst (handleProcIpcDeliver now i m og s))"
    by (auto simp: quiet_def handleProcIpcDeliver_def send_queued_def split_beta Let_def pol_of_def)
  show "quiet s (fst (handleRuntimeEvent now u c og d r s))"
    by (auto simp: quiet_def handleRuntimeEvent_def Let_def pol_of_def split: option.splits)
  show "quiet s (handleIpcSignal now u c ci r' t s)"
    by (auto simp: quiet_def handleIpcSignal_def Let_def pol_of_def split: option.splits)
  show "quiet s (mediaPrepared i mid v s)"
    by (auto simp: quiet_def mediaPrepared_def Let_def split: option.splits)
  show "quiet s (failPendingMedia now i mid msg re s)"
  proof -
    have "quiet s ((emitRunFinished i fs re None (Some msg) (on_store (\<lambda>st. fst (appendMessage now MrSystem msg o' st)) s))\<lparr>px_run := None\<rparr>)" for fs o'
      by (auto simp: quiet_def)
    then show ?thesis
      by (auto simp: failPendingMedia_def Let_def split: option.splits intro!: quiet_trans [OF _ quiet_claim])
  qed
qed

lemma quiet_abort: "quiet s (fst (handleProcAbort now js i s))"
proof -
  have r: "quiet s (resolveCodeModeApproval q False s)" for q s
    by (auto simp: quiet_def resolveCodeModeApproval_def Let_def pol_of_def split: option.splits)
  have j: "quiet s (rejectCodeModeWaiters q s)" for q s
    by (auto simp: quiet_def rejectCodeModeWaiters_def pol_of_def)
  have c: "quiet s (on_store clearPendingHil s)" for s by (rule quiet_on_store) (simp add: clearPendingHil_def)
  have e: "quiet s ((emitRunFinished i fs re t e s)\<lparr>px_run := None\<rparr>)" for i fs re t e s
    by (auto simp: quiet_def)
  have m: "quiet s (rememberAbortedRun i s)" for i s by (simp add: quiet_def pol_of_def)
  have n: "quiet s (on_store (\<lambda>st. ingestToolResults now js ip i (getResults i st) st) s)" for ip i s
    by (rule quiet_on_store) simp
  show ?thesis
    unfolding handleProcAbort_def Let_def
    by (auto split: option.splits intro!: quiet_trans [OF _ quiet_claim] quiet_trans [OF _ e] quiet_trans [OF _ j]
        quiet_trans [OF _ c] quiet_trans [OF _ r] quiet_trans [OF _ n] m)
qed

lemma session_key: "rememberShellSessionTargetFromResult c a v kv TOOL_APPROVAL_OVERRIDES_KEY = kv TOOL_APPROVAL_OVERRIDES_KEY"
proof -
  have "TOOL_APPROVAL_OVERRIDES_KEY \<noteq> shellSessionTargetKey i" for i
    by (simp add: shellSessionTargetKey_def SHELL_SESSION_TARGET_KEY_PREFIX_def TOOL_APPROVAL_OVERRIDES_KEY_def)
  then show ?thesis
    by (auto simp: rememberShellSessionTargetFromResult_def Let_def split: option.splits)
qed

lemma quiet_others:
  "quiet s (handleProcReset now js s)" "quiet s (hil_timeout q s)" "quiet s (tick_event i g s)"
  "quiet s (tool_answer d v s)" "quiet s (onToolDispatchTimeout i d s)" "quiet s (nested_answer i d c a w s)"
  "quiet s (onRunFinishDelivery now i b s)" "quiet s (tick_throws now u i e s)" "quiet s (restart s)"
proof -
  show "quiet s (handleProcReset now js s)"
    by (auto simp: quiet_def handleProcReset_def resetExecutionState_def Let_def clearPendingHil_def
        rejectCodeModeWaiters_def split: option.splits)
  show "quiet s (hil_timeout q s)"
    by (auto simp: quiet_def hil_timeout_def Let_def pol_of_def clearPendingHil_def)
  show "quiet s (tick_event i g s)"
    by (auto simp: quiet_def tick_event_def Let_def split: option.splits)
  show "quiet s (tool_answer d v s)"
    by (auto simp: quiet_def tool_answer_def pol_of_def session_key split: option.splits sum.splits)
  show "quiet s (onToolDispatchTimeout i d s)"
    by (auto simp: quiet_def onToolDispatchTimeout_def pol_of_def split: option.splits)
  show "quiet s (nested_answer i d c a w s)"
    by (auto simp: quiet_def nested_answer_def pol_of_def session_key)
  show "quiet s (onRunFinishDelivery now i b s)"
    by (auto simp: quiet_def onRunFinishDelivery_def Let_def pol_of_def split: option.splits)
  show "quiet s (tick_throws now u i e s)"
  proof -
    have "quiet s (s\<lparr>px_threads := filter P (px_threads s)\<rparr>)" for P
      by (auto simp: quiet_def pol_of_def)
    then show ?thesis unfolding tick_throws_def
      by (blast intro: quiet_trans quiet_finishRun quiet_tick_end)
  qed
  show "quiet s (restart s)"
    by (cases "px_run s") (auto simp: quiet_def restart_def pol_of_def split: option.splits)
qed

lemma quiet_threads:
  "quiet s (collect_step now env i s)" "quiet s (prepare_step i s)" "quiet s (generate_step now uuids g i s)"
  "quiet s (finish_step now w i fs re t e s)" "quiet s (on_store (tool_resolve d v) s)"
proof -
  show "quiet s (collect_step now env i s)"
    by (auto simp: quiet_def collect_step_def Let_def pol_of_def)
  have consume: "pol_of (consume_events i s) = pol_of s" for i s
    by (cases "px_run s") (auto simp: consume_events_def pol_of_def)
  show "quiet s (prepare_step i s)"
    by (auto simp: quiet_def prepare_step_def pol_of_def consume [unfolded pol_of_def])
  show "quiet s (generate_step now uuids g i s)"
    by (auto simp: quiet_def generate_step_def pol_of_def consume [unfolded pol_of_def] dest: record_turn_frame(3)
        split: generation.splits sum.splits)
  show "quiet s (finish_step now w i fs re t e s)"
    unfolding finish_step_def by (blast intro: quiet_trans quiet_finishRun quiet_tick_end)
  show "quiet s (on_store (tool_resolve d v) s)"
    by (rule quiet_on_store) simp
qed

section \<open>Steps that ask, decide and send\<close>

lemma fine_policy: "fine env s \<Longrightarrow> px_run s = Some run \<Longrightarrow> policy_from env (px_log s) (resolve_policy env s run)"
  by (cases "rn_policy run")
    (auto simp: fine_def resolve_policy_def resolveToolApprovalPolicy_def policy_from_def Let_def overrides_def
      pol_of_def list_all_iff)

lemma fine_loop_over: "fine env s \<Longrightarrow> fine env (loop_over i le s)"
  by (erule fine_change) (auto simp: loop_over_def pol_of_def overrides_def split: loop_end.splits)

lemma fine_spawn: "fine env s \<Longrightarrow> thread_fine env (px_log s) th \<Longrightarrow> fine env (spawn th s)"
  by (erule fine_change) (auto simp: pol_of_def overrides_def)

lemma fine_log: "fine env s \<Longrightarrow> entry_fine env (px_log s) x \<Longrightarrow> fine env (log x s)"
proof (erule fine_change)
  assume "entry_fine env (px_log s) x"
  then have "entry_fine env (px_log (log x s)) x" by (rule entry_fine_mono [rotated]) auto
  then show "y \<in> set (px_log (log x s)) \<Longrightarrow> y \<in> set (px_log s) \<or> entry_fine env (px_log (log x s)) y" for y
    by auto
qed (auto simp: pol_of_def overrides_def)

lemma fine_process: "fine env s \<Longrightarrow> fine env (processToolCalls env i le s)"
proof -
  assume f: "fine env s"
  have "fine env (spawn (ThTools i p calls le) (s\<lparr>px_run := Some (run\<lparr>rn_policy := Some p\<rparr>)\<rparr>))"
    if "px_run s = Some run" "p = resolve_policy env s run" for run p calls
    using f by (rule fine_change) (use that fine_policy [OF f that(1)] in \<open>auto simp: overrides_def\<close>)
  then show ?thesis using f fine_loop_over
    by (auto simp: processToolCalls_def Let_def split: option.splits)
qed

lemma fine_go_on: "fine env s \<Longrightarrow> policy_from env (px_log s) (cont_policy k) \<Longrightarrow> fine env (go_on env i k s)"
  by (auto simp: go_on_def cont_policy_def fine_spawn fine_process split: tool_cont.splits)

lemma fine_store: "fine env s \<Longrightarrow> set (st_hil st) \<subseteq> set (st_hil (px_store s)) \<Longrightarrow> fine env (s\<lparr>px_store := st\<rparr>)"
  by (erule fine_change) (auto simp: pol_of_def overrides_def)

lemma fine_tool_step: "fine env s \<Longrightarrow> policy_from env (px_log s) p \<Longrightarrow> fine env (tool_step now u i p calls le s)"
proof (cases calls)
  case (Cons tc rest)
  assume f: "fine env s" and p: "policy_from env (px_log s) p"
  have go: "fine env (spawn (ThTools i p rest le) (s\<lparr>px_store := tool_fail d e oc (px_store s)\<rparr>))" for d e oc
    using f p by (intro fine_spawn fine_store) auto
  have ask: "fine env (log (LgAsked h) (on_store (setPendingHil h) (loop_over i le s)))" for h
    using f by (rule fine_change) (auto simp: loop_over_def pol_of_def overrides_def setPendingHil_def split: loop_end.splits)
  have auto: "fine env (spawn (ThBegin i tc (ContLoop p rest le)) s)" if "lets_run p (tc_call tc) (tc_args tc)"
    using f p that by (intro fine_spawn) (auto simp: cont_policy_def)
  show ?thesis
    using Cons go ask auto f fine_loop_over
    by (auto simp: tool_step_def Let_def lets_run_def split: approval_action.splits)
qed (auto simp: tool_step_def intro: fine_loop_over)

lemma fine_begin:
  assumes f: "fine env s" and th: "thread_fine env (px_log s) (ThBegin i tc k)"
  shows "fine env (begin_step env te i tc k s)"
proof -
  have k: "policy_from env (px_log s) (cont_policy k)" using th by simp
  have st: "thread_fine env (px_log s) (ThStart i tc k)" using th by simp
  have m: "fine env (s\<lparr>px_store := fst (markDispatched d (px_store s))\<rparr>)" for d
    using f by (rule fine_store) simp
  have e: "fine env (on_store (tool_fail d e oc) s)" for d e oc
    using quiet_fine [OF quiet_on_store f] by simp
  show ?thesis
    using fine_go_on [OF f k] fine_go_on [OF m] fine_go_on [OF e] fine_spawn [OF m] k st
    by (auto simp: begin_step_def Let_def split_beta split: option.splits)
qed

lemma fine_start:
  assumes f: "fine env s" and th: "thread_fine env (px_log s) (ThStart i tc k)"
  shows "fine env (start_step env i tc k s)"
proof -
  have k: "policy_from env (px_log s) (cont_policy k)" using th by simp
  have l: "thread_fine env (px_log s) (ThLaunch i tc (cont_policy k))"
    using th by (cases k) (auto simp: may_run_def cont_policy_def)
  have "fine env (go_on env i k (spawn (ThLaunch i tc (cont_policy k)) s))"
    using fine_go_on [OF fine_spawn [OF f l]] k by simp
  then show ?thesis
    using f fine_loop_over by (auto simp: start_step_def split: tool_cont.splits)
qed

lemma fine_launch:
  assumes f: "fine env s" and th: "thread_fine env (px_log s) (ThLaunch i tc p)"
  shows "fine env (launch_step i tc p s)"
proof -
  have sent: "fine env (log (LgSent i tc) s)"
    by (rule fine_log [OF f]) (use th in auto)
  have code: "fine env (spawn (ThCode i d p) (log (LgSent i tc) s))" for d
    by (rule fine_spawn [OF sent]) (use th policy_from_mono [of "px_log s" "px_log s @ [LgSent i tc]" env p] in auto)
  have res: "fine env (on_store (tool_resolve d v) s)" for d v
    using quiet_fine [OF quiet_threads(5) f] .
  show ?thesis using f sent code res by (auto simp: launch_step_def)
qed

lemma fine_nested_resume:
  assumes f: "fine env s" and th: "thread_fine env (px_log s) (ThNested w)"
  shows "fine env (nested_resume w s)"
proof -
  have "fine env (log (LgNested (cw_runId w) (cw_dispatchId w) (cw_call w) (cw_args w)) s)"
    by (rule fine_log [OF f]) (use th in auto)
  then show ?thesis using f by (simp add: nested_resume_def)
qed

lemma fine_nested:
  assumes f: "fine env s" and p: "policy_from env (px_log s) p" and q: "q \<noteq> []"
  shows "fine env (nested_step env now q t i d p c a s)"
proof -
  have ask: "fine env (log (LgAsked h) (on_store (setPendingHil h) (s\<lparr>px_waiters := px_waiters s @ [w]\<rparr>)))"
    if "hl_requestId h = cw_requestId w" "names_nested h (cw_runId w) (cw_dispatchId w) (cw_call w) (cw_args w)"
      "cw_requestId w \<noteq> []" for h w
    using f by (rule fine_change) (use that in \<open>auto simp: pol_of_def overrides_def setPendingHil_def waiter_fine_def\<close>)
  have send: "fine env (log (LgNested i d c a') s)" if "lets_run p c a'" for a'
    by (rule fine_log [OF f]) (use that p in \<open>auto simp: may_run_def\<close>)
  show ?thesis
    using f ask send q
    by (auto simp: nested_step_def Let_def split_beta lets_run_def names_nested_def split: approval_action.splits)
qed

section \<open>Decisions\<close>

text \<open>JSON text is read back as the value it was written from.\<close>

definition codec :: "proc_env \<Rightarrow> bool" where
  "codec env \<longleftrightarrow> (\<forall>v. codec_ok (en_parse env) (en_stringify env) v)"

lemma load_saved:
  assumes "codec env"
  shows "loadToolApprovalOverrides (en_parse env) (en_stringify env)
      (kv(TOOL_APPROVAL_OVERRIDES_KEY \<mapsto> en_stringify env (JArr vs))) = List.map_filter parseRule vs"
proof -
  have c: "en_parse env (en_stringify env v) = Some v" "js_trim (en_stringify env v) \<noteq> []" for v
    using assms by (simp_all add: codec_def codec_ok_def)
  have ne: "en_stringify env v \<noteq> []" for v
    using c(2) [of v] by (cases "en_stringify env v = []") (simp_all add: js_trim_def)
  show ?thesis
    using c ne by (simp add: loadToolApprovalOverrides_def parseToolApprovalPolicy_def truthy_def parsed_policy_def json_get_def)
qed

lemma map_filter_parse_old:
  "List.map_filter parseRule (map rule_json (loadToolApprovalOverrides jp js kv)) = loadToolApprovalOverrides jp js kv"
  using overrides_ok by (intro parse_rules_json) blast

lemma fine_decide:
  assumes f: "fine env s" and h: "LgAsked h \<in> set (px_log s)" and c: "codec env"
  shows "fine env (decide env h a m s)"
proof -
  let ?x = "LgDecided (hl_requestId h) a (a \<and> m)"
  let ?s = "log ?x s"
  have f': "fine env ?s" by (rule fine_log [OF f]) simp
  show ?thesis
  proof (cases "a \<and> m \<and> px_run s \<noteq> None")
    case True
    then obtain run where run: "px_run s = Some run" by auto
    let ?rule = "buildToolApprovalOverride (px_kv s) (hl_syscall h) (Some (hl_args h))"
    let ?old = "loadToolApprovalOverrides (en_parse env) (en_stringify env) (px_kv s)"
    have gr: "granted (px_log ?s) ?rule" "parseRule (rule_json ?rule) = Some r \<Longrightarrow> granted (px_log ?s) r" for r
      using True h unfolding granted_def by (auto intro!: exI [of _ h] exI [of _ "px_kv s"])
    have kv: "set (loadToolApprovalOverrides (en_parse env) (en_stringify env)
        (fst (rememberToolApproval (en_parse env) (en_stringify env) (hl_syscall h) (Some (hl_args h)) (px_kv s, cached))))
      \<subseteq> set ?old \<union> {r. parseRule (rule_json ?rule) = Some r}" for cached
      by (auto simp: rememberToolApproval_def Let_def load_saved [OF c] map_filter_parse_old map_filter_simps
          simp flip: fun_upd_apply split: option.splits)
    have pol: "policy_from env (px_log ?s) p" if cached: "rn_policy run = Some p0"
      and new: "snd (rememberToolApproval (en_parse env) (en_stringify env) (hl_syscall h) (Some (hl_args h)) (px_kv s, Some p0)) = Some p"
      for p p0
    proof -
      have "policy_from env (px_log ?s) p0" using f' run cached by (auto simp: fine_def pol_of_def)
      then obtain ovr where o: "ap_rules p0 = ovr @ ap_rules (parseToolApprovalPolicy (en_parse env) (en_account_policy env))"
        "\<forall>r \<in> set ovr. granted (px_log ?s) r"
        "ap_default p0 = ap_default (parseToolApprovalPolicy (en_parse env) (en_account_policy env))"
        by (auto simp: policy_from_def Let_def)
      have "p = p0 \<or> p = p0\<lparr>ap_rules := ?rule # ap_rules p0\<rparr>"
        using new by (auto simp: rememberToolApproval_def Let_def split: if_splits)
      then show ?thesis
      proof
        assume "p = p0\<lparr>ap_rules := ?rule # ap_rules p0\<rparr>"
        then show ?thesis using o gr(1)
          unfolding policy_from_def Let_def by (intro conjI exI [of _ "?rule # ovr"]) simp_all
      qed (use \<open>policy_from env (px_log ?s) p0\<close> in simp)
    qed
    have "fine env (remember_approval env h ?s)"
      using f'
    proof (rule fine_change)
      show "r \<in> set (overrides env ?s) \<or> granted (px_log (remember_approval env h ?s)) r"
        if "r \<in> set (overrides env (remember_approval env h ?s))" for r
        using that run kv [of "rn_policy run"] gr(2) [of r]
        by (auto simp: overrides_def remember_approval_def split_beta)
      show "pol_of ?s = Some p \<or> policy_from env (px_log (remember_approval env h ?s)) p"
        if "pol_of (remember_approval env h ?s) = Some p" for p
        using that run pol
        by (cases "rn_policy run")
          (auto simp: remember_approval_def split_beta rememberToolApproval_def Let_def pol_of_def)
    qed auto
    then show ?thesis using True by (simp add: decide_def)
  next
    case False
    then show ?thesis using f' by (auto simp: decide_def remember_approval_def Let_def split: option.splits)
  qed
qed

lemma pending_asked:
  assumes "getPendingHil (Some q) st = Some h"
  shows "h \<in> set (st_hil st)" "q \<noteq> [] \<Longrightarrow> hl_requestId h = q"
proof -
  obtain hs where s: "sort_key hl_createdAt (filter (\<lambda>h. truthy (Some q) \<longrightarrow> Some (hl_requestId h) = Some q) (st_hil st)) = h # hs"
    using assms by (auto simp: getPendingHil_def split: list.splits)
  have "h \<in> set (filter (\<lambda>h. truthy (Some q) \<longrightarrow> Some (hl_requestId h) = Some q) (st_hil st))"
    using arg_cong [OF s, of set] by auto
  then show "h \<in> set (st_hil st)" "q \<noteq> [] \<Longrightarrow> hl_requestId h = q"
    by (auto simp: truthy_def)
qed

lemma find_some: "find P xs = Some x \<Longrightarrow> x \<in> set xs \<and> P x"
  by (auto simp: find_Some_iff)

lemma decide_log [simp]: "px_log (decide env h a m s) = px_log s @ [LgDecided (hl_requestId h) a (a \<and> m)]"
  by (simp add: decide_def remember_approval_def Let_def split: option.splits prod.splits)

lemma decide_run: "px_run s = Some run \<Longrightarrow> \<exists>run'. px_run (decide env h a m s) = Some run'"
  by (auto simp: decide_def remember_approval_def Let_def split: option.splits prod.splits)

lemma fine_hil:
  assumes f: "fine env s" and c: "codec env"
  shows "fine env (fst (handleProcHil env q a m s))"
proof (cases "getPendingHil (Some q) (px_store s)")
  case None
  then show ?thesis using f by (simp add: handleProcHil_def)
next
  case (Some h)
  have asked: "LgAsked h \<in> set (px_log s)"
    using f pending_asked(1) [OF Some] by (auto simp: fine_def list_all_iff)
  have clear: "fine env (on_store clearPendingHil t)" if "fine env t" for t
    using quiet_fine [OF quiet_on_store that] by (simp add: clearPendingHil_def)
  have res: "fine env (resolveCodeModeApproval q False t)" if "fine env t" for t
    using that by (rule fine_change) (auto simp: resolveCodeModeApproval_def Let_def pol_of_def overrides_def split: option.splits)
  have fail: "fine env (on_store (tool_fail d e oc) t)" if "fine env t" for t d e oc
    using quiet_fine [OF quiet_on_store that] by simp
  show ?thesis
  proof (cases "px_run s = None \<or> map_option rn_runId (px_run s) \<noteq> Some (hl_runId h)")
    case True
    then show ?thesis using Some f clear res by (auto simp: handleProcHil_def split: option.splits)
  next
    case False
    then obtain run where run: "px_run s = Some run" "rn_runId run = hl_runId h" by auto
    let ?d = "decide env h a m s"
    have d: "fine env ?d" by (rule fine_decide [OF f asked c])
    show ?thesis
    proof (cases "find (\<lambda>w. cw_requestId w = q) (px_waiters s)")
      case w: (Some w)
      let ?t = "on_store clearPendingHil (if a then ?d else on_store (tool_fail (coalesce (hl_ownerDispatchId h) (cw_dispatchId w))
                TOOL_EXECUTION_DENIED_BY_USER_MESSAGE ToDenied) ?d)"
      have t: "fine env ?t" using d clear fail by (cases a) simp_all
      have win: "w \<in> set (px_waiters s)" "cw_requestId w = q" using find_some [OF w] by auto
      have wf: "waiter_fine (px_log s) w" using f win(1) by (auto simp: fine_def list_all_iff)
      then have q: "hl_requestId h = q" using pending_asked(2) [OF Some] win(2) by (simp add: waiter_fine_def)
      have "a \<Longrightarrow> approved_nested (px_log ?d) (cw_runId w) (cw_dispatchId w) (cw_call w) (cw_args w)"
        using wf win(2) q by (auto simp: waiter_fine_def approved_nested_def approved_def)
      then have "fine env (resolveCodeModeApproval q a ?t)"
        using fine_spawn [OF res [OF t], of "ThNested w"] res [OF t] w
        by (cases a) (simp_all add: resolveCodeModeApproval_def Let_def)
      then show ?thesis using Some run w by (simp add: handleProcHil_def Let_def)
    next
      case now: None
      show ?thesis
      proof (cases "find (\<lambda>r. tc_id r = hl_toolCallId h \<and> tc_status r = TcRegistered) (getResults (hl_runId h) (px_store s))")
        case None
        have "fine env (fst (handleProcHil env q a m s))
          \<longleftrightarrow> fine env (let s1 = on_store clearPendingHil s;
              outer = (if truthy (hl_ownerDispatchId h)
                       then find (\<lambda>r. Some (tc_dispatch_id r) = hl_ownerDispatchId h
                              \<and> tc_call r = ''codemode.exec'' \<and> tc_status r = TcPending) (getResults (hl_runId h) (px_store s))
                       else None);
              err = (if outer = None then ''Registered tool call not found: '' @ hl_runId h @ ''/'' @ hl_toolCallId h
                     else if a then ''CodeMode execution was interrupted while waiting for tool approval''
                     else TOOL_EXECUTION_DENIED_BY_USER_MESSAGE)
            in case outer of None \<Rightarrow> s1
                | Some r \<Rightarrow> on_store (tool_fail (tc_dispatch_id r) err (if a then ToFailed else ToDenied)) s1)"
          using Some run now None by (simp add: handleProcHil_def Let_def)
        then show ?thesis using clear [OF f] fail [OF clear [OF f]] by (auto simp: Let_def split: option.splits)
      next
        case tc: (Some tc)
        have tcin: "tc_id tc = hl_toolCallId h" using find_some [OF tc] by simp
        let ?s1 = "on_store clearPendingHil ?d"
        obtain run' where "px_run ?d = Some run'" using decide_run [OF run(1)] by blast
        then have run': "px_run ?s1 = Some run'" by simp
        have s1: "fine env ?s1" by (rule clear [OF d])
        have pol: "policy_from env (px_log ?s1) (resolve_policy env ?s1 run')" by (rule fine_policy [OF s1 run'])
        have "a \<Longrightarrow> approved_call (px_log ?s1) (hl_runId h) (tc\<lparr>tc_call := hl_syscall h\<rparr>)"
          using asked tcin by (auto simp: approved_call_def approved_def)
        then have "a \<Longrightarrow> fine env (spawn (ThBegin (hl_runId h) (tc\<lparr>tc_call := hl_syscall h\<rparr>)
            (ContHil (resolve_policy env ?s1 run'))) ?s1)"
          using fine_spawn [OF s1] pol by (simp add: cont_policy_def)
        then show ?thesis
          using Some run now tc run' fine_process [OF fail [OF s1]]
          by (cases a) (simp_all add: handleProcHil_def Let_def)
      qed
    qed
  qed
qed

section \<open>All steps\<close>

lemma fine_run_thread:
  assumes f: "fine env s" and th: "thread_fine env (px_log s) th"
  shows "fine env (run_thread env now i th s)"
proof (cases th)
  case (ThTick r)
  have "fine env (tick_step env r s)"
    using f fine_process [OF f] fine_spawn [OF f] quiet_fine [OF quiet_tick_end f]
    by (auto simp: tick_step_def split: option.splits)
  then show ?thesis by (simp add: run_thread_def ThTick)
next
  case (ThTurn r c t)
  have "fine env (turn_step env r c t s)"
    using f fine_process [OF f] fine_spawn [OF f] quiet_fine [OF quiet_tick_end f]
    by (auto simp: turn_step_def)
  then show ?thesis by (simp add: run_thread_def ThTurn)
next
  case (ThCode r d p)
  then show ?thesis using quiet_fine [OF quiet_threads(5) f] by (simp add: run_thread_def)
qed (use th fine_tool_step [OF f] fine_begin [OF f] fine_start [OF f] fine_launch [OF f] fine_nested_resume [OF f]
       quiet_fine [OF quiet_threads(1) f] quiet_fine [OF quiet_threads(2) f] quiet_fine [OF quiet_threads(3) f]
       quiet_fine [OF quiet_threads(4) f]
     in \<open>simp_all add: run_thread_def\<close>)

text \<open>Request ids are drawn at random and never empty.\<close>

definition real_ids :: "proc_event \<Rightarrow> bool" where
  "real_ids ev = (case ev of EvNested q t r d p c a \<Rightarrow> q \<noteq> [] | _ \<Rightarrow> True)"

lemma fine_step:
  assumes f: "fine env s" and c: "codec env" and ids: "real_ids ev"
  shows "fine env (proc_step env now ev s)"
proof (cases ev)
  case (EvThread n i)
  show ?thesis
  proof (cases "n < length (px_threads s)")
    case True
    let ?s = "s\<lparr>px_threads := take n (px_threads s) @ drop (n + 1) (px_threads s)\<rparr>"
    have "thread_fine env (px_log ?s) (px_threads s ! n)"
      using f True by (auto simp: fine_def list_all_iff)
    moreover have "fine env ?s"
      using f by (rule fine_change) (auto simp: pol_of_def overrides_def dest: in_set_takeD in_set_dropD)
    ultimately show ?thesis using True fine_run_thread by (simp add: proc_step_def EvThread)
  qed (use f in \<open>simp add: proc_step_def EvThread\<close>)
next
  case (EvNested q t r d p cl a)
  have "policy_from env (px_log s) p" if "ThCode r d p \<in> set (px_threads s)"
    using f that by (auto simp: fine_def list_all_iff)
  then show ?thesis using f ids fine_nested by (simp add: proc_step_def EvNested real_ids_def)
next
  case (EvHil q a m)
  then show ?thesis using fine_hil [OF f c] by (simp add: proc_step_def)
qed (use f quiet_fine [OF quiet_send f] quiet_fine [OF quiet_arrivals(1) f] quiet_fine [OF quiet_arrivals(2) f]
       quiet_fine [OF quiet_arrivals(3) f] quiet_fine [OF quiet_arrivals(4) f] quiet_fine [OF quiet_arrivals(5) f]
       quiet_fine [OF quiet_abort f] quiet_fine [OF quiet_finishRun f] quiet_fine [OF quiet_others(1) f]
       quiet_fine [OF quiet_others(2) f] quiet_fine [OF quiet_others(3) f] quiet_fine [OF quiet_others(4) f]
       quiet_fine [OF quiet_others(5) f] quiet_fine [OF quiet_others(6) f] quiet_fine [OF quiet_others(7) f]
       quiet_fine [OF quiet_others(8) f] quiet_fine [OF quiet_others(9) f]
     in \<open>simp_all add: proc_step_def\<close>)

lemma fine_new: "fine env (new_process b)"
  by (simp add: fine_def new_process_def empty_store_def overrides_def loadToolApprovalOverrides_def pol_of_def)

lemma fine_steps:
  assumes "codec env" "list_all (\<lambda>(_, ev). real_ids ev) evs"
  shows "fine env (proc_steps env evs (new_process b))"
  using fine_new fine_step assms by (intro proc_steps_invariant [where I = "fine env" and ok = real_ids]) auto


section \<open>Witness\<close>

text \<open>A codec for JSON values: the number of a value in an enumeration of them, in unary.\<close>

instance js_number :: countable
  by countable_datatype

instance json :: countable
  by countable_datatype

definition unary_env :: proc_env where
  "unary_env = \<lparr>en_parse = (\<lambda>t. Some (from_nat (length t - 1))), en_stringify = (\<lambda>v. replicate (to_nat v + 1) CHR ''x''),
     en_account_policy = None, en_capabilities = [''*'']\<rparr>"

lemma unary_codec: "codec unary_env"
proof -
  have "js_trim (replicate (n + 1) CHR ''x'') \<noteq> []" for n
    by (subst js_trim_eq_self) (simp_all add: js_ws_def)
  then show ?thesis by (simp add: codec_def codec_ok_def unary_env_def)
qed

definition shell_call :: "json list" where
  "shell_call = [JObj [(''type'', JStr ''toolCall''), (''id'', JStr ''c1''), (''name'', JStr ''Shell''),
     (''arguments'', JObj [(''input'', JStr ''ls''), (''target'', JStr ''mac'')])]]"

text \<open>The model calls the shell, the policy asks, the owner approves, and the call is sent.\<close>

definition approval_trace :: "(int \<times> proc_event) list" where
  "approval_trace = (let go = EvThread 0 (demo_input GenRetry) in
     [(1, EvSend ''u'' (demo_send ''r1'')), (2, EvTick ''r1'' 0), (3, go), (4, go), (5, go),
      (6, EvThread 0 (demo_input (GenContent shell_call))), (7, go), (8, go), (9, EvHil ''u0'' True False),
      (10, go), (11, go), (12, go)])"

definition shell_row :: tool_row where
  "shell_row = \<lparr>tc_dispatch_id = ''u0'', tc_id = ''c1'', tc_run_id = ''r1'', tc_call = ''shell.exec'',
     tc_args = JObj [(''input'', JStr ''ls''), (''target'', JStr ''mac'')], tc_status = TcRegistered, tc_result = None,
     tc_error = None, tc_outcome = None, tc_created_at = 6\<rparr>"


end
