(* ===== verification/RunOnce.thy ===== *)
theory RunOnce
  imports RunApproval
begin

text \<open>
  Every tool call is sent at most once (\<open>process/do.ts\<close>), whichever of the ways to a dispatch races for it:
  the loop of a tick, the loop after a turn, the answer to an approval, a repeated approval, a restart
  between any two steps. A registered row is a token for its dispatch; marking it dispatched trades the
  token for a thread, and the thread for the entry in the log.
\<close>

section \<open>Tokens\<close>

definition reg :: "process_store \<Rightarrow> string set" where
  "reg st = tc_dispatch_id ` {r \<in> set (st_tools st). tc_status r = TcRegistered}"

definition thread_dispatch :: "thread \<Rightarrow> string option" where
  "thread_dispatch th = (case th of ThStart r tc k \<Rightarrow> Some (tc_dispatch_id tc)
     | ThLaunch r tc p \<Rightarrow> Some (tc_dispatch_id tc) | _ \<Rightarrow> None)"

definition entry_dispatch :: "log_entry \<Rightarrow> string option" where
  "entry_dispatch x = (case x of LgSent r tc \<Rightarrow> Some (tc_dispatch_id tc) | _ \<Rightarrow> None)"

definition hits :: "('a \<Rightarrow> string option) \<Rightarrow> string \<Rightarrow> 'a list \<Rightarrow> nat" where
  "hits f d xs = length (filter (\<lambda>x. f x = Some d) xs)"

definition flying :: "proc_state \<Rightarrow> string \<Rightarrow> nat" where
  "flying s d = hits thread_dispatch d (px_threads s) + hits entry_dispatch d (px_log s)"

definition tokens :: "proc_state \<Rightarrow> string \<Rightarrow> nat" where
  "tokens s d = flying s d + (if d \<in> reg (px_store s) then 1 else 0)"

lemma hits_simps [simp]: "hits f d [] = 0" "hits f d (xs @ ys) = hits f d xs + hits f d ys"
  "hits f d (x # xs) = (if f x = Some d then 1 else 0) + hits f d xs"
  by (simp_all add: hits_def)

lemma hits_filter: "hits f d (filter P xs) \<le> hits f d xs"
  by (induction xs) auto

text \<open>A step that makes no tokens.\<close>

definition calm :: "proc_state \<Rightarrow> proc_state \<Rightarrow> bool" where
  "calm s s' \<longleftrightarrow> reg (px_store s') \<subseteq> reg (px_store s) \<and> (\<forall>d. flying s' d \<le> flying s d)"

lemma calm_tokens: "calm s s' \<Longrightarrow> tokens s' d \<le> tokens s d"
  unfolding calm_def tokens_def by (simp add: add_mono subsetD) (metis Suc_leI add.commute le_SucI plus_1_eq_Suc subsetD)

lemma calm_refl [simp]: "calm s s"
  by (simp add: calm_def)

lemma calm_trans: "calm s t \<Longrightarrow> calm t u \<Longrightarrow> calm s u"
  unfolding calm_def by (meson order_trans subset_trans)

lemma reg_cong: "st_tools st' = st_tools st \<Longrightarrow> reg st' = reg st"
  by (simp add: reg_def)

lemma reg_same [simp]:
  "reg (clearPendingHil st) = reg st" "reg (setPendingHil h st) = reg st" "reg (clearQueue st) = reg st"
  "reg (fst (appendMessage now role c opts st)) = reg st" "reg (enqueue now i m media og st) = reg st"
  "reg (updateMessageMedia mid i v st) = reg st" "reg (append_result now js ip i row st) = reg st"
  "reg (resetHistory st) = reg st" "reg (fold (append_result now js ip i) rows st) = reg st"
  by (simp_all add: reg_def)

lemma reg_less:
  "reg (update_open d f st) \<subseteq> reg st" if "\<And>r. tc_status (f r) \<noteq> TcRegistered"
  using that by (auto simp: reg_def update_open_def sql_update_def)

lemma reg_fail [simp]: "reg (tool_fail d e oc st) \<subseteq> reg st"
  unfolding tool_fail_def by (rule reg_less) simp

lemma reg_resolve [simp]: "reg (tool_resolve d v st) \<subseteq> reg st"
  unfolding tool_resolve_def by (rule reg_less) simp

lemma reg_clearRun [simp]: "reg (clearRun i st) \<subseteq> reg st"
  by (auto simp: reg_def clearRun_def sql_delete_def)

lemma reg_clear [simp]: "reg (clearPendingToolCalls st) = {}"
  by (simp add: reg_def clearPendingToolCalls_def)

lemma reg_ingest [simp]: "reg (ingestToolResults now js ip i rows st) \<subseteq> reg st"
  unfolding ingestToolResults_def by (rule subset_trans [OF reg_clearRun]) simp

lemma reg_mark: "reg (fst (markDispatched d st)) = reg st - {d}"
proof -
  have "tc_dispatch_id ` {r \<in> set (sql_update (\<lambda>r. tc_dispatch_id r = d \<and> tc_status r = TcRegistered)
        (\<lambda>r. r\<lparr>tc_status := TcPending\<rparr>) xs). tc_status r = TcRegistered}
      = tc_dispatch_id ` {r \<in> set xs. tc_status r = TcRegistered} - {d}" for xs
    by (induction xs) (auto simp: sql_update_def Collect_conj_eq Collect_disj_eq conj_disj_distribR image_Un)
  then show ?thesis by (simp add: reg_def markDispatched_def Let_def)
qed

lemma mark_taken: "snd (markDispatched d st) \<longleftrightarrow> d \<in> reg st"
  by (auto simp: reg_def markDispatched_def Let_def sql_count_def filter_empty_conv image_iff)

section \<open>Steps that make none\<close>

lemma flying_cong: "px_threads s' = px_threads s \<Longrightarrow> px_log s' = px_log s \<Longrightarrow> flying s' d = flying s d"
  by (simp add: flying_def)

lemma calm_same: "px_threads s' = px_threads s \<Longrightarrow> px_log s' = px_log s \<Longrightarrow> reg (px_store s') \<subseteq> reg (px_store s) \<Longrightarrow> calm s s'"
  by (simp add: calm_def flying_def)

lemma calm_store: "reg (f (px_store s)) \<subseteq> reg (px_store s) \<Longrightarrow> calm s (on_store f s)"
  by (rule calm_same) simp_all

lemma calm_log [simp]: "entry_dispatch x = None \<Longrightarrow> calm s (log x s)"
  by (simp add: calm_def flying_def)

lemma calm_spawn [simp]: "thread_dispatch th = None \<Longrightarrow> calm s (spawn th s)"
  by (simp add: calm_def flying_def)

lemma entry_dispatch_simps [simp]:
  "entry_dispatch (LgFinished f) = None" "entry_dispatch (LgAsked h) = None" "entry_dispatch (LgDecided q a m) = None"
  "entry_dispatch (LgNested r d c v) = None" "entry_dispatch (LgPrompt r ms) = None"
  "entry_dispatch (LgSent r tc) = Some (tc_dispatch_id tc)"
  by (simp_all add: entry_dispatch_def)

lemma thread_dispatch_simps [simp]:
  "thread_dispatch (ThTick r) = None" "thread_dispatch (ThTools r p calls le) = None" "thread_dispatch (ThBegin r tc k) = None"
  "thread_dispatch (ThCode r d p) = None" "thread_dispatch (ThNested w) = None" "thread_dispatch (ThCollect r) = None"
  "thread_dispatch (ThPrepare r) = None" "thread_dispatch (ThGenerate r) = None" "thread_dispatch (ThTurn r c t) = None"
  "thread_dispatch (ThFinish r fs re o1 o2) = None"
  "thread_dispatch (ThStart r tc k) = Some (tc_dispatch_id tc)" "thread_dispatch (ThLaunch r tc p) = Some (tc_dispatch_id tc)"
  by (simp_all add: thread_dispatch_def)

lemma calm_emit [simp]: "calm s (emitRunFinished i fs re t e s)"
  by (auto simp: calm_def flying_def emitRunFinished_def Let_def log_def)

lemma dequeue_tools: "dequeue st = (st', q) \<Longrightarrow> st_tools st' = st_tools st"
  by (auto simp: dequeue_def split: list.splits)

lemma calm_claim [simp]: "calm s (claimNextQueuedRun now s)"
  by (rule calm_same) (auto simp: claimNextQueuedRun_def reg_def dest: dequeue_tools split: option.splits prod.splits)

lemma calm_run [simp]: "calm s (t\<lparr>px_run := r\<rparr>) = calm s t"
  by (simp add: calm_def flying_def)

lemma calm_finishRun [simp]: "calm s (finishRun_proc now w i fs re t e s)"
proof -
  let ?s1 = "on_store clearPendingHil ((emitRunFinished i fs re t e s)\<lparr>px_run := None\<rparr>)"
  have 0: "calm s ((emitRunFinished i fs re t e s)\<lparr>px_run := None\<rparr>)" by simp
  have 1: "calm s ?s1" by (rule calm_trans [OF 0]) (rule calm_store, simp)
  have 2: "calm s (on_store (enqueue now w m md og) ?s1)" for m md og
    by (rule calm_trans [OF 1]) (rule calm_store, simp)
  show ?thesis
    unfolding finishRun_proc_def Let_def
    by (cases "px_run s") (simp_all add: calm_trans [OF 1 calm_claim] calm_trans [OF 2 calm_claim])
qed

lemma calm_tick_end [simp]: "calm s (tick_end i s)"
  by (rule calm_same) simp_all

lemma calm_loop_over [simp]: "calm s (loop_over i le s)"
  by (simp add: loop_over_def split: loop_end.splits)

lemma calm_process [simp]: "calm s (processToolCalls env i le s)"
proof -
  have "calm s (spawn (ThTools i p calls le) (s\<lparr>px_run := r\<rparr>))" for p calls r
    by (simp add: calm_def flying_def)
  then show ?thesis by (auto simp: processToolCalls_def Let_def split: option.splits)
qed

lemma calm_go_on [simp]: "calm s (go_on env i k s)"
  by (simp add: go_on_def split: tool_cont.splits)

lemma calm_resolve [simp]: "calm s (resolveCodeModeApproval q a s)"
  by (auto simp: calm_def flying_def resolveCodeModeApproval_def Let_def split: option.splits)

lemma calm_send: "calm s (fst (handleProcSend now env u a s))"
proof -
  have sup: "calm s (supersede now js s)" for js
    by (rule calm_same) (auto simp: supersede_def split: option.splits dest: subsetD [OF reg_ingest])
  have int: "calm s (fst (send_interrupting now js i m media og s))" for js i m media og
  proof -
    let ?s = "supersede now js s"
    have "calm s (?s\<lparr>px_store := fst (appendMessage now MrUser m opts (px_store ?s)), px_run := r\<rparr>)" for opts r
      by (rule calm_trans [OF sup [of js]]) (rule calm_same, simp_all)
    then show ?thesis
      by (auto simp: send_interrupting_def Let_def split_beta split: option.splits intro: calm_trans [OF _ calm_emit])
  qed
  have que: "calm s (fst (send_queued now i m media og s))" for i m media og
    by (rule calm_same) (auto simp: send_queued_def)
  show ?thesis
    using int que by (auto simp: handleProcSend_def Let_def split_beta split: option.splits)
qed

lemma calm_arrivals:
  "calm s (fst (handleProcIpcDeliver now i m og s))" "calm s (fst (handleRuntimeEvent now u c og d r s))"
  "calm s (handleIpcSignal now u c ci r' t s)" "calm s (mediaPrepared i mid v s)"
  "calm s (failPendingMedia now i mid msg re s)"
proof -
  show "calm s (fst (handleProcIpcDeliver now i m og s))"
    by (rule calm_same) (auto simp: handleProcIpcDeliver_def send_queued_def split_beta Let_def)
  show "calm s (fst (handleRuntimeEvent now u c og d r s))"
    by (rule calm_same) (auto simp: handleRuntimeEvent_def Let_def split: option.splits)
  show "calm s (handleIpcSignal now u c ci r' t s)"
    by (rule calm_same) (auto simp: handleIpcSignal_def Let_def split: option.splits)
  show "calm s (mediaPrepared i mid v s)"
    by (rule calm_same) (auto simp: mediaPrepared_def Let_def split: option.splits)
  have "calm s (on_store (\<lambda>st. fst (appendMessage now MrSystem msg o' st)) s)" for o'
    by (rule calm_store) simp
  then show "calm s (failPendingMedia now i mid msg re s)"
    by (auto simp: failPendingMedia_def Let_def split: option.splits
        intro!: calm_trans [OF _ calm_claim] calm_trans [OF _ calm_emit])
qed

lemma calm_clearHil [simp]: "calm s (on_store clearPendingHil s)"
  by (rule calm_store) simp

lemma calm_ends:
  "calm s (fst (handleProcAbort now js i s))" "calm s (handleProcReset now js s)" "calm s (tick_throws now u i2 e s)"
proof -
  have j: "calm s (rejectCodeModeWaiters q s)" for q s by (rule calm_same) simp_all
  have m: "calm s (rememberAbortedRun i s)" for i s by (rule calm_same) simp_all
  have n: "calm s (on_store (\<lambda>st. ingestToolResults now js ip i (getResults i st) st) s)" for ip i s
    by (rule calm_store) simp
  show "calm s (fst (handleProcAbort now js i s))"
    unfolding handleProcAbort_def Let_def
    by (auto split: option.splits intro!: calm_trans [OF _ calm_claim] calm_trans [OF _ calm_emit] calm_trans [OF _ j]
        calm_trans [OF _ calm_clearHil] calm_trans [OF _ calm_resolve] calm_trans [OF _ n] m)
  have r: "calm s (resetExecutionState now js re True s)" for re
  proof -
    let ?s1 = "rejectCodeModeWaiters None (s\<lparr>px_epoch := px_epoch s + 1, px_resetAt := now\<rparr>)"
    have 1: "calm s ?s1" by (rule calm_same) simp_all
    have c: "calm t (on_store (\<lambda>st. clearQueue (clearPendingHil (clearPendingToolCalls st))) (t\<lparr>px_run := None\<rparr>))" for t
      by (rule calm_same) simp_all
    show ?thesis
      unfolding resetExecutionState_def Let_def
      by (rule calm_trans [OF _ c])
        (auto split: option.splits intro!: calm_trans [OF _ calm_emit] calm_trans [OF _ n] calm_trans [OF _ m] 1 [simplified])
  qed
  show "calm s (handleProcReset now js s)"
    unfolding handleProcReset_def by (rule calm_trans [OF r]) (rule calm_store, simp)
  have "calm s (s\<lparr>px_threads := filter P (px_threads s)\<rparr>)" for P
    by (simp add: calm_def flying_def hits_filter)
  then show "calm s (tick_throws now u i2 e s)"
    unfolding tick_throws_def by (blast intro: calm_trans calm_finishRun calm_tick_end)
qed

lemma calm_others:
  "calm s (hil_timeout q s)" "calm s (tick_event i g s)"
  "calm s (tool_answer d v s)" "calm s (onToolDispatchTimeout i d s)" "calm s (nested_answer i d c a w s)"
  "calm s (onRunFinishDelivery now i b s)" "calm s (restart s)" "calm s (fst (handleProcHil env q yes m s))"
  "calm s (nested_step env now q t i d p c x s)"
proof -
  show "calm s (hil_timeout q s)" by (rule calm_same) (auto simp: hil_timeout_def Let_def)
  show "calm s (tick_event i g s)"
    by (auto simp: calm_def flying_def tick_event_def Let_def split: option.splits)
  show "calm s (tool_answer d v s)"
    by (rule calm_same) (auto simp: tool_answer_def split: option.splits sum.splits dest: subsetD [OF reg_fail] subsetD [OF reg_resolve])
  show "calm s (onToolDispatchTimeout i d s)"
    by (rule calm_same) (auto simp: onToolDispatchTimeout_def split: option.splits dest: subsetD [OF reg_fail])
  show "calm s (nested_answer i d c a w s)" by (rule calm_same) (auto simp: nested_answer_def)
  show "calm s (onRunFinishDelivery now i b s)"
    by (rule calm_same) (auto simp: onRunFinishDelivery_def Let_def split: option.splits)
  show "calm s (restart s)" by (simp add: calm_def flying_def restart_def)
  have dec: "calm s (decide env h y m s)" for h y
  proof -
    have "calm s (remember_approval env h s)" for h s by (rule calm_same) simp_all
    then show ?thesis by (auto simp: decide_def Let_def intro: calm_trans [OF calm_log [OF entry_dispatch_simps(3)]])
  qed
  have f: "calm s (on_store (tool_fail d e oc) s)" for d e oc s by (rule calm_store) simp
  show "calm s (fst (handleProcHil env q yes m s))"
    unfolding handleProcHil_def Let_def
    by (auto split: option.splits intro!: calm_trans [OF _ calm_clearHil] calm_trans [OF _ calm_resolve]
        calm_trans [OF _ calm_process] calm_trans [OF _ calm_spawn] calm_trans [OF _ f] dec)
  show "calm s (nested_step env now q t i d p c x s)"
    by (auto simp: calm_def flying_def nested_step_def Let_def split_beta split: approval_action.splits)
qed

lemma calm_tool_step: "calm s (tool_step now u i p calls le s)"
proof -
  have f: "calm s (spawn (ThTools i p rest le) (s\<lparr>px_store := tool_fail d e oc (px_store s)\<rparr>))" for rest d e oc
    by (rule calm_trans [OF _ calm_spawn]) (rule calm_same, simp_all)
  have a: "calm s (log (LgAsked h) (on_store (setPendingHil h) (loop_over i le s)))" for h
    by (rule calm_trans [OF calm_loop_over calm_trans [OF calm_store calm_log]]) simp_all
  show ?thesis
    using f a by (auto simp: tool_step_def Let_def split: list.splits approval_action.splits)
qed

lemma calm_threads:
  "calm s (tick_step env i s)" "calm s (collect_step now env i s)" "calm s (prepare_step i s)"
  "calm s (turn_step env i b t s)" "calm s (finish_step now w i fs re o1 o2 s)" "calm s (nested_resume cw s)"
  "calm s (on_store (tool_resolve d v) s)"
proof -
  show "calm s (tick_step env i s)" by (auto simp: tick_step_def split: option.splits)
  show "calm s (collect_step now env i s)"
  proof -
    have "calm s (on_store (ingestToolResults now js ip i rows) s)" for js ip rows by (rule calm_store) simp
    then show ?thesis by (auto simp: collect_step_def Let_def intro: calm_trans [OF _ calm_spawn])
  qed
  have "calm s (consume_events i t)" if "calm s t" for i t
    by (rule calm_trans [OF that]) (rule calm_same, simp_all)
  then show "calm s (prepare_step i s)" by (auto simp: prepare_step_def intro!: calm_trans [OF _ calm_spawn])
  show "calm s (turn_step env i b t s)" by (auto simp: turn_step_def)
  show "calm s (finish_step now w i fs re o1 o2 s)"
    unfolding finish_step_def by (blast intro: calm_trans calm_finishRun calm_tick_end)
  show "calm s (nested_resume cw s)" by (simp add: nested_resume_def)
  show "calm s (on_store (tool_resolve d v) s)" by (rule calm_store) simp
qed

section \<open>Steps that trade or make tokens\<close>

lemma tokens_begin: "tokens (begin_step env te i tc k s) d \<le> tokens s d"
proof (cases "te = None \<and> \<not> handleRunStopped i s \<and> snd (markDispatched (tc_dispatch_id tc) (px_store s))")
  case True
  then have "tc_dispatch_id tc \<in> reg (px_store s)" by (simp add: mark_taken)
  moreover have "begin_step env te i tc k s = spawn (ThStart i tc k) (s\<lparr>px_store := fst (markDispatched (tc_dispatch_id tc) (px_store s))\<rparr>)"
    using True by (auto simp: begin_step_def Let_def split_beta)
  ultimately show ?thesis by (auto simp: tokens_def flying_def reg_mark)
next
  case False
  have m: "calm s (s\<lparr>px_store := fst (markDispatched d' (px_store s))\<rparr>)" for d'
    by (rule calm_same) (auto simp: reg_mark)
  have f: "calm s (on_store (tool_fail d' e oc) s)" for d' e oc by (rule calm_store) simp
  have "calm s (begin_step env te i tc k s)"
    using False by (auto simp: begin_step_def Let_def split_beta split: option.splits
        intro: calm_trans [OF m calm_go_on] calm_trans [OF f calm_go_on])
  then show ?thesis by (rule calm_tokens)
qed

lemma tokens_start:
  "tokens (start_step env i tc k s) d \<le> tokens s d + (if tc_dispatch_id tc = d then 1 else 0)"
proof (cases "handleRunStopped i s")
  case True
  then have "calm s (start_step env i tc k s)" by (simp add: start_step_def split: tool_cont.splits)
  from calm_tokens [OF this, of d] show ?thesis by simp
next
  case False
  have "tokens (go_on env i k t) d \<le> tokens t d" for t by (rule calm_tokens) simp
  from this [of "spawn (ThLaunch i tc (cont_policy k)) s"] False show ?thesis
    by (simp add: start_step_def tokens_def flying_def split: if_splits)
qed

lemma tokens_launch:
  "tokens (launch_step i tc p s) d \<le> tokens s d + (if tc_dispatch_id tc = d then 1 else 0)"
proof -
  have "tokens (on_store (tool_resolve d' v) s) d \<le> tokens s d" for d' v
    using calm_threads(7) by (rule calm_tokens)
  moreover have "tokens (log (LgSent i tc) s) d = tokens s d + (if tc_dispatch_id tc = d then 1 else 0)"
    "tokens (spawn (ThCode i d' p) (log (LgSent i tc) s)) d = tokens s d + (if tc_dispatch_id tc = d then 1 else 0)" for d'
    by (simp_all add: tokens_def flying_def)
  ultimately show ?thesis by (auto simp: launch_step_def intro: le_SucI)
qed

lemma reg_register: "register_call now kv i (d, b) st = Inr st' \<Longrightarrow> reg st' \<subseteq> insert d (reg st)"
  using reg_fail
  by (auto simp: register_call_def tool_register_def Let_def reg_def new_tool_def sql_insert_def
      tool_fail_def update_open_def sql_update_def split: prod.splits if_splits)

lemma reg_record_turn:
  assumes "record_turn now uuids kv i content st = Inr st'"
  shows "reg st' \<subseteq> set (map uuids [0..<length (blocks_of ''toolCall'' content)]) \<union> reg st"
proof -
  have "reg st2 \<subseteq> fst ` set xs \<union> reg st1"
    if "foldl (\<lambda>y x. bind_result y (register_call now kv i x)) (Inr st1) xs = Inr st2" for st1 st2 xs
    using that
  proof (induction xs arbitrary: st1)
    case (Cons x xs)
    then obtain st3 where st3: "register_call now kv i x st1 = Inr st3"
      and rest: "foldl (\<lambda>y x. bind_result y (register_call now kv i x)) (Inr st3) xs = Inr st2"
      unfolding foldl_bind_Cons by blast
    from Cons.IH [OF rest] reg_register [of now kv i "fst x" "snd x" st1 st3] st3 show ?case by auto
  qed simp
  from this [of "turn_message now i content st" "zip (map uuids [0..<length (blocks_of ''toolCall'' content)]) (blocks_of ''toolCall'' content)" st']
  have "reg st' \<subseteq> fst ` set (zip (map uuids [0..<length (blocks_of ''toolCall'' content)]) (blocks_of ''toolCall'' content)) \<union> reg st"
    using assms by (simp add: record_turn_def turn_message_def Let_def)
  then show ?thesis by (auto dest!: set_zip_leftD)
qed

text \<open>The ids an event draws for new calls.\<close>

definition drawn :: "proc_event \<Rightarrow> string list" where
  "drawn ev = (case ev of EvThread n i \<Rightarrow>
     (case ti_generation i of GenContent c \<Rightarrow> map (ti_uuids i) [0..<length (blocks_of ''toolCall'' c)] | _ \<Rightarrow> []) | _ \<Rightarrow> [])"

lemma tokens_generate:
  "tokens (generate_step now uuids g i s) d
    \<le> tokens s d + (case g of GenContent c \<Rightarrow> if d \<in> set (map uuids [0..<length (blocks_of ''toolCall'' c)]) then 1 else 0 | _ \<Rightarrow> 0)"
proof (cases "\<exists>content st. g = GenContent content \<and> \<not> handleRunStopped i s
    \<and> record_turn now uuids (px_kv s) i content (px_store s) = Inr st")
  case True
  then obtain content st where g: "g = GenContent content" "\<not> handleRunStopped i s"
    and st: "record_turn now uuids (px_kv s) i content (px_store s) = Inr st" by blast
  let ?t = "generate_step now uuids g i s"
  have "px_threads ?t = px_threads s @ [ThTurn i (blocks_of ''toolCall'' content \<noteq> []) (turn_text content)]"
    "px_store ?t = st" "px_log ?t = px_log s"
    using g st by (simp_all add: generate_step_def consume_events_def)
  then show ?thesis using reg_record_turn [OF st] g
    by (auto simp: tokens_def flying_def)
next
  case False
  have "calm s (on_store (\<lambda>st. fst (appendMessage now MrSystem m o' st)) s)" for m o' by (rule calm_store) simp
  then have "calm s (generate_step now uuids g i s)"
    using False by (auto simp: generate_step_def split: generation.splits sum.splits intro!: calm_trans [OF _ calm_spawn])
  from calm_tokens [OF this, of d] show ?thesis by simp
qed

lemma tokens_run_thread:
  "tokens (run_thread env now i th s) d
    \<le> tokens s d + (if thread_dispatch th = Some d then 1 else 0) + (if d \<in> set (drawn (EvThread n i)) then 1 else 0)"
proof -
  have c: "tokens t d \<le> tokens s d + x + y" if "calm s t" for t x y
    using calm_tokens [OF that, of d] by simp
  show ?thesis
  proof (cases th)
    case (ThGenerate r)
    then show ?thesis using tokens_generate [of now "ti_uuids i" "ti_generation i" r s d]
      by (cases "ti_generation i") (auto simp: run_thread_def drawn_def split: if_splits)
  next
    case (ThBegin r tc k)
    then show ?thesis using tokens_begin [of env "ti_timerError i" r tc k s d] by (simp add: run_thread_def)
  next
    case (ThStart r tc k)
    then show ?thesis using tokens_start [of env r tc k s d] by (simp add: run_thread_def)
  next
    case (ThLaunch r tc p)
    then show ?thesis using tokens_launch [of r tc p s d] by (simp add: run_thread_def)
  qed (simp_all only: run_thread_def thread.case c calm_threads calm_tool_step)
qed

lemma tokens_step: "tokens (proc_step env now ev s) d \<le> tokens s d + (if d \<in> set (drawn ev) then 1 else 0)"
proof -
  have c: "tokens t d \<le> tokens s d + x" if "calm s t" for t x
    using calm_tokens [OF that, of d] by simp
  show ?thesis
  proof (cases ev)
    case (EvThread n i)
    show ?thesis
    proof (cases "n < length (px_threads s)")
      case True
      let ?t = "s\<lparr>px_threads := take n (px_threads s) @ drop (n + 1) (px_threads s)\<rparr>"
      have split: "px_threads s = take n (px_threads s) @ px_threads s ! n # drop (n + 1) (px_threads s)"
        using True by (simp add: id_take_nth_drop)
      have "hits thread_dispatch d (px_threads s)
          = hits thread_dispatch d (px_threads ?t) + (if thread_dispatch (px_threads s ! n) = Some d then 1 else 0)"
        by (subst split) simp
      then have "tokens s d = tokens ?t d + (if thread_dispatch (px_threads s ! n) = Some d then 1 else 0)"
        by (simp add: tokens_def flying_def)
      then show ?thesis using True tokens_run_thread [of env now i "px_threads s ! n" ?t d n]
        by (simp add: proc_step_def EvThread)
    qed (simp add: proc_step_def EvThread)
  next
    case (EvNested q t r d' p cl a)
    then show ?thesis using c [OF calm_others(9)] c [OF calm_refl] by (simp only: proc_step_def proc_event.case split: if_split) blast
  qed (simp_all only: proc_step_def proc_event.case c calm_send calm_arrivals calm_ends calm_others calm_finishRun)
qed

lemma tokens_steps: "tokens (proc_steps env evs s) d \<le> tokens s d + count_list (concat (map (drawn \<circ> snd) evs)) d"
proof (induction evs arbitrary: s)
  case (Cons x evs)
  obtain now ev where x: "x = (now, ev)" by (cases x)
  have "(if d \<in> set (drawn ev) then 1 else 0) \<le> count_list (drawn ev) d"
    by (simp add: Suc_le_eq count_list_0_iff flip: neq0_conv)
  then show ?case
    using Cons.IH [of "proc_step env now ev s"] tokens_step [of env now ev s d]
    by (simp add: x count_list_append)
qed simp

text \<open>
  C3. A tool call is sent at most once: over every sequence of steps, a dispatch goes out no more often than
  its id was drawn for a call of the model (once, for ids that do not repeat), however ticks, answers to
  approvals, repeated answers, timeouts, aborts and restarts interleave with the steps of the dispatch.
\<close>

theorem tool_calls_are_sent_at_most_once:
  "length (filter (\<lambda>x. entry_dispatch x = Some d) (px_log (proc_steps env evs (new_process b))))
     \<le> count_list (concat (map (drawn \<circ> snd) evs)) d"
proof -
  have "tokens (new_process b) d = 0"
    by (simp add: tokens_def flying_def new_process_def reg_def empty_store_def)
  then have t: "tokens (proc_steps env evs (new_process b)) d \<le> count_list (concat (map (drawn \<circ> snd) evs)) d"
    using tokens_steps [of env evs "new_process b" d] by simp
  have "length (filter (\<lambda>x. entry_dispatch x = Some d) (px_log s)) \<le> tokens s d" for s
    by (simp add: tokens_def flying_def hits_def)
  from order_trans [OF this t] show ?thesis .
qed

end
