(* ===== verification/RunHistory.thy ===== *)
theory RunHistory
  imports RunOnce
begin

text \<open>
  The transcript over the steps of a process (\<open>process/do.ts\<close>): as long as no run is cut off by an error,
  every prompt the agent loop makes shows each tool call together with its result.
\<close>

section \<open>The history and the table of calls\<close>

definition transcript :: "process_store \<Rightarrow> provider_message list" where
  "transcript st = map toMessage (st_messages st)"

definition ordered :: "process_store \<Rightarrow> bool" where
  "ordered st \<longleftrightarrow> sorted_wrt (<) (map ms_id (st_messages st)) \<and> (\<forall>m \<in> set (st_messages st). ms_id m < st_next_message st)"

lemma transcript_toMessages:
  assumes "ordered st"
  shows "toMessages st = transcript st"
proof -
  have "sorted (map ms_id (st_messages st))"
    using assms strict_sorted_imp_sorted by (auto simp: ordered_def)
  then show ?thesis
    by (simp add: toMessages_def transcript_def getMessages_def all_messages_def sort_key_id_if_sorted)
qed

definition result_id :: "tool_row \<Rightarrow> json option" where
  "result_id r = Some (JStr (tc_id r))"

text \<open>The calls the transcript still expects results of are those of the table, all of the given run.\<close>

definition history_ok :: "string option \<Rightarrow> process_store \<Rightarrow> bool" where
  "history_ok i st \<longleftrightarrow> ordered st \<and> (\<exists>E. expect [] (transcript st) = Some E \<and> set E = set (map result_id (st_tools st)))
     \<and> distinct (map tc_id (st_tools st)) \<and> (\<forall>r \<in> set (st_tools st). Some (tc_run_id r) = i)"

lemma history_ok_cong:
  "map (\<lambda>m. (ms_id m, toMessage m)) (st_messages st') = map (\<lambda>m. (ms_id m, toMessage m)) (st_messages st) \<Longrightarrow>
   st_next_message st' = st_next_message st \<Longrightarrow>
   map (\<lambda>r. (tc_id r, tc_run_id r)) (st_tools st') = map (\<lambda>r. (tc_id r, tc_run_id r)) (st_tools st) \<Longrightarrow>
   history_ok i st' = history_ok i st"
proof -
  assume m: "map (\<lambda>m. (ms_id m, toMessage m)) (st_messages st') = map (\<lambda>m. (ms_id m, toMessage m)) (st_messages st)"
    and n: "st_next_message st' = st_next_message st"
    and t: "map (\<lambda>r. (tc_id r, tc_run_id r)) (st_tools st') = map (\<lambda>r. (tc_id r, tc_run_id r)) (st_tools st)"
  have ids: "map ms_id (st_messages st') = map ms_id (st_messages st)"
    using arg_cong [OF m, of "map fst"] by (simp add: comp_def)
  have tr: "map toMessage (st_messages st') = map toMessage (st_messages st)"
    using arg_cong [OF m, of "map snd"] by (simp add: comp_def)
  have tid: "map tc_id (st_tools st') = map tc_id (st_tools st)"
    using arg_cong [OF t, of "map fst"] by (simp add: comp_def)
  have trn: "map tc_run_id (st_tools st') = map tc_run_id (st_tools st)"
    using arg_cong [OF t, of "map snd"] by (simp add: comp_def)
  have o: "ordered st \<longleftrightarrow> sorted_wrt (<) (map ms_id (st_messages st)) \<and> list_all (\<lambda>i. i < st_next_message st) (map ms_id (st_messages st))"
    for st by (simp add: ordered_def list_all_iff)
  have r: "map result_id xs = map (\<lambda>i. Some (JStr i)) (map tc_id xs)" for xs by (simp add: result_id_def)
  have a: "(\<forall>r \<in> set xs. Some (tc_run_id r) = i) \<longleftrightarrow> list_all (\<lambda>j. Some j = i) (map tc_run_id xs)" for xs
    by (simp add: list_all_iff)
  show ?thesis
    unfolding history_ok_def o transcript_def r a by (simp only: ids tr tid trn n)
qed

lemma history_ok_same [simp]:
  "history_ok i (enqueue now j m media og st) = history_ok i st" "history_ok i (clearPendingHil st) = history_ok i st"
  "history_ok i (setPendingHil h st) = history_ok i st" "history_ok i (clearQueue st) = history_ok i st"
  by (rule history_ok_cong; simp)+

lemma history_ok_update_open:
  "(\<And>r. tc_id (f r) = tc_id r \<and> tc_run_id (f r) = tc_run_id r) \<Longrightarrow> history_ok i (update_open d f st) = history_ok i st"
  by (rule history_ok_cong) (auto simp: update_open_def sql_update_def)

lemma history_ok_tools [simp]:
  "history_ok i (tool_fail d e oc st) = history_ok i st" "history_ok i (tool_resolve d v st) = history_ok i st"
  "history_ok i (fst (markDispatched d st)) = history_ok i st"
  by (simp_all add: tool_fail_def tool_resolve_def history_ok_update_open)
    (rule history_ok_cong; auto simp: markDispatched_def Let_def sql_update_def)

lemma history_ok_media [simp]: "history_ok i (updateMessageMedia mid j v st) = history_ok i st"
proof (rule history_ok_cong)
  have "(ms_id (m\<lparr>ms_media := w\<rparr>), toMessage (m\<lparr>ms_media := w\<rparr>)) = (ms_id m, toMessage m)" for m w
    by (simp add: toMessage_def user_text_def assistant_blocks_def split: message_role.splits)
  then show "map (\<lambda>m. (ms_id m, toMessage m)) (st_messages (updateMessageMedia mid j v st))
      = map (\<lambda>m. (ms_id m, toMessage m)) (st_messages st)"
    by (simp add: updateMessageMedia_def sql_update_def)
qed simp_all

lemma history_ok_no_calls: "st_tools st = [] \<Longrightarrow> history_ok i st = history_ok j st"
  by (simp add: history_ok_def)

lemma ordered_append: "ordered st \<Longrightarrow> ordered (fst (appendMessage now role c opts st))"
  by (auto simp: ordered_def appendMessage_def new_message_def sorted_wrt_append)

lemma transcript_append:
  "transcript (fst (appendMessage now role c opts st)) = transcript st @ [toMessage (new_message now role c opts st)]"
  by (simp add: transcript_def appendMessage_def)

lemma expect_plain: "plain m \<Longrightarrow> expect ids [m] = Some ids"
  by (auto simp: plain_def answers_def)

lemma history_ok_say [simp]:
  assumes "role = MrUser \<or> role = MrSystem"
  shows "history_ok i st \<Longrightarrow> history_ok i (fst (appendMessage now role c opts st))"
proof -
  have "plain (toMessage (new_message now role c opts st))"
    using assms by (auto simp: plain_def toMessage_def new_message_def pm_calls_def)
  then show "history_ok i st \<Longrightarrow> history_ok i (fst (appendMessage now role c opts st))"
    by (auto simp: history_ok_def ordered_append transcript_append expect_append expect_plain simp del: expect.simps)
qed

section \<open>Results join the transcript\<close>

lemma expect_result:
  "is_result m \<Longrightarrow> pm_toolCallId m = Some j \<Longrightarrow> Some (JStr j) \<in> set E \<Longrightarrow>
   expect E [m] = Some (filter (\<lambda>x. x \<noteq> Some (JStr j)) E)"
  by (simp add: answers_def pm_result_id_def)

lemma append_result_step:
  assumes "ordered st" "expect [] (transcript st) = Some E" "result_message js ip r \<noteq> None" "result_id r \<in> set E"
  shows "ordered (append_result now js ip i r st)"
    "expect [] (transcript (append_result now js ip i r st)) = Some (filter (\<lambda>x. x \<noteq> result_id r) E)"
proof -
  obtain c oc where m: "result_message js ip r = Some (c, oc)" using assms(3) by auto
  let ?opts = "no_opts\<lparr>mo_runId := Some i, mo_toolCallId := Some (tc_id r),
          mo_toolCalls := Some (JObj [(''toolName'', JStr (coalesce (map_of SYSCALL_TOOL_NAMES (tc_call r)) (tc_call r))),
            (''isError'', JBool (oc \<noteq> ToCompleted \<or> tc_status r \<noteq> TcCompleted)), (''outcome'', JStr (outcome_text oc))])\<rparr>"
  have ap: "append_result now js ip i r st = fst (appendMessage now MrToolResult c ?opts st)"
    by (simp add: append_result_def m appendToolResult_def)
  have "is_result (toMessage (new_message now MrToolResult c ?opts st))"
    "pm_toolCallId (toMessage (new_message now MrToolResult c ?opts st)) = Some (tc_id r)"
    by (simp_all add: toMessage_def new_message_def Let_def no_opts_def)
  from expect_result [OF this, of E] assms(4)
  show "expect [] (transcript (append_result now js ip i r st)) = Some (filter (\<lambda>x. x \<noteq> result_id r) E)"
    unfolding ap using assms(2) by (simp add: transcript_append expect_append result_id_def del: expect.simps)
  show "ordered (append_result now js ip i r st)" unfolding ap by (rule ordered_append [OF assms(1)])
qed

lemma append_results:
  assumes "ordered st" "expect [] (transcript st) = Some E" "list_all (\<lambda>r. result_message js ip r \<noteq> None) rows"
    "distinct (map tc_id rows)" "set (map result_id rows) \<subseteq> set E"
  shows "ordered (fold (append_result now js ip i) rows st)
    \<and> expect [] (transcript (fold (append_result now js ip i) rows st)) = Some (filter (\<lambda>x. x \<notin> set (map result_id rows)) E)"
  using assms
proof (induction rows arbitrary: st E)
  case (Cons r rows)
  let ?E = "filter (\<lambda>x. x \<noteq> result_id r) E"
  have r: "result_message js ip r \<noteq> None" "result_id r \<in> set E" using Cons.prems by auto
  note step = append_result_step [OF Cons.prems(1,2) r, of now i]
  have "result_id r' \<noteq> result_id r" if "r' \<in> set rows" for r'
    using Cons.prems(4) that by (auto simp: result_id_def image_iff)
  then have "set (map result_id rows) \<subseteq> set ?E" using Cons.prems(5) by auto
  from Cons.IH [OF step _ _ this] Cons.prems(3,4) show ?case by (auto simp: conj_commute)
qed simp

lemma set_getResults: "set (getResults i st) = {r \<in> set (st_tools st). tc_run_id r = i}"
  by (simp add: getResults_def)

lemma distinct_getResults: "distinct (map tc_id (st_tools st)) \<Longrightarrow> distinct (map tc_id (getResults i st))"
  by (simp add: getResults_def distinct_map)
    (auto simp: inj_on_def)

text \<open>When every call has a result or is given one, nothing is expected afterwards.\<close>

lemma history_ok_ingest:
  assumes "history_ok (Some i) st" "list_all (\<lambda>r. result_message js ip r \<noteq> None) (getResults i st)"
  shows "history_ok j (ingestToolResults now js ip i (getResults i st) st)"
    "st_tools (ingestToolResults now js ip i (getResults i st) st) = []"
proof -
  obtain E where st: "ordered st" "expect [] (transcript st) = Some E" "set E = set (map result_id (st_tools st))"
    "distinct (map tc_id (st_tools st))" and own: "\<forall>r \<in> set (st_tools st). tc_run_id r = i"
    using assms(1) by (auto simp: history_ok_def)
  have all: "set (getResults i st) = set (st_tools st)" using own by (auto simp: set_getResults)
  let ?f = "fold (append_result now js ip i) (getResults i st) st"
  have f: "ordered ?f" "expect [] (transcript ?f) = Some (filter (\<lambda>x. x \<notin> set (map result_id (getResults i st))) E)"
    using append_results [OF st(1,2) assms(2) distinct_getResults [OF st(4)], of now i] st(3) all by auto
  have "filter (\<lambda>x. x \<notin> set (map result_id (getResults i st))) E = []"
    using st(3) all by (simp add: filter_empty_conv)
  then have e: "expect [] (transcript ?f) = Some []" using f(2) by simp
  show t: "st_tools (ingestToolResults now js ip i (getResults i st) st) = []"
    using own by (simp add: ingestToolResults_def clearRun_def sql_delete_def)
  show "history_ok j (ingestToolResults now js ip i (getResults i st) st)"
    unfolding history_ok_def t using f(1) e
    by (simp add: ingestToolResults_def ordered_def transcript_def)
qed

lemma result_interrupted: "result_message js (Some x) r \<noteq> None"
  by (simp add: result_message_def split: tool_status.splits)

lemma result_closed: "\<not> open_call r \<Longrightarrow> result_message js ip r \<noteq> None"
  by (cases "tc_status r") (simp_all add: result_message_def open_call_def)

lemma history_ok_interrupt:
  assumes "history_ok (Some i) st"
  shows "history_ok j (ingestToolResults now js (Some m) i (getResults i st) st)"
    "st_tools (ingestToolResults now js (Some m) i (getResults i st) st) = []"
  using history_ok_ingest [OF assms, of js "Some m"] by (simp_all add: list_all_iff result_interrupted)

section \<open>Calls of a turn\<close>

text \<open>Providers give each call of an answer an id of its own.\<close>

definition turn_ok :: "json list \<Rightarrow> bool" where
  "turn_ok content \<longleftrightarrow> distinct (map (\<lambda>b. json_get b ''id'') (blocks_of ''toolCall'' content))
     \<and> list_all (\<lambda>b. json_string (json_get b ''id'') \<noteq> None) (blocks_of ''toolCall'' content)"

lemma json_string_Some: "json_string v = Some x \<longleftrightarrow> v = Some (JStr x)"
  by (auto simp: json_string_def split: option.splits json.splits)

lemma call_id_string: "json_string (json_get b ''id'') \<noteq> None \<Longrightarrow> json_get b ''id'' = Some (JStr (block_string ''id'' b))"
  by (auto simp: block_string_def json_string_def split: option.splits json.splits)

lemma meta_roundtrip:
  "coalesce (am_thinking (parseAssistantMessageMeta (stringifyAssistantMessageMeta t c))) [] = t"
  "coalesce (am_toolCalls (parseAssistantMessageMeta (stringifyAssistantMessageMeta t c))) [] = c"
  by (auto simp: stringifyAssistantMessageMeta_def parseAssistantMessageMeta_def json_array_def)

lemma turn_message_calls:
  assumes "turn_ok content"
  shows "pm_calls (toMessage (new_message now MrAssistant (turn_text content)
      (no_opts\<lparr>mo_runId := r, mo_toolCalls := stringifyAssistantMessageMeta (blocks_of ''thinking'' content) (blocks_of ''toolCall'' content)\<rparr>) st))
    = map (\<lambda>b. json_get b ''id'') (blocks_of ''toolCall'' content)"
proof -
  have th: "filter (\<lambda>b. json_get b ''type'' = Some (JStr ''toolCall'')) (blocks_of ''thinking'' content) = []"
    by (auto simp: blocks_of_def filter_empty_conv)
  have tc: "filter (\<lambda>b. json_get b ''type'' = Some (JStr ''toolCall'')) (blocks_of ''toolCall'' content) = blocks_of ''toolCall'' content"
    by (simp add: blocks_of_def)
  have "filter (\<lambda>b. json_get b ''type'' = Some (JStr ''toolCall'')) [JObj [(''type'', JStr ''text''), (''text'', JStr x)]] = []" for x
    by (simp add: json_get_def)
  with th tc assms show ?thesis
    by (simp add: pm_calls_def toMessage_def new_message_def assistant_blocks_def Let_def meta_roundtrip turn_ok_def
        distinct_remdups_id)
qed

lemma register_call_tools:
  assumes "register_call now kv r (d, b) st = Inr st'"
  shows "map (\<lambda>r. (tc_id r, tc_run_id r)) (st_tools st') = map (\<lambda>r. (tc_id r, tc_run_id r)) (st_tools st) @ [(block_string ''id'' b, r)]"
  using assms
  by (auto simp: register_call_def tool_register_def Let_def sql_insert_def new_tool_def tool_fail_def update_open_def
      sql_update_def split: prod.splits if_splits)

lemma record_turn_tools:
  assumes "record_turn now uuids kv r content st = Inr st'"
  shows "map (\<lambda>r. (tc_id r, tc_run_id r)) (st_tools st')
    = map (\<lambda>r. (tc_id r, tc_run_id r)) (st_tools st) @ map (\<lambda>b. (block_string ''id'' b, r)) (blocks_of ''toolCall'' content)"
proof -
  have "map (\<lambda>r. (tc_id r, tc_run_id r)) (st_tools st2)
      = map (\<lambda>r. (tc_id r, tc_run_id r)) (st_tools st1) @ map (\<lambda>b. (block_string ''id'' b, r)) (map snd xs)"
    if "foldl (\<lambda>y x. bind_result y (register_call now kv r x)) (Inr st1) xs = Inr st2" for st1 st2 xs
    using that
  proof (induction xs arbitrary: st1)
    case (Cons x xs)
    then obtain st3 where st3: "register_call now kv r x st1 = Inr st3"
      and rest: "foldl (\<lambda>y x. bind_result y (register_call now kv r x)) (Inr st3) xs = Inr st2"
      unfolding foldl_bind_Cons by blast
    from Cons.IH [OF rest] register_call_tools [of now kv r "fst x" "snd x" st1 st3] st3 show ?case by simp
  qed simp
  from this [of "turn_message now r content st" "zip (map uuids [0..<length (blocks_of ''toolCall'' content)]) (blocks_of ''toolCall'' content)" st']
  show ?thesis using assms by (simp add: record_turn_def turn_message_def Let_def)
qed

lemma history_ok_turn:
  assumes st: "history_ok i st" "st_tools st = []" and turn: "record_turn now uuids kv r content st = Inr st'" "turn_ok content"
  shows "history_ok (Some r) st'" "blocks_of ''toolCall'' content = [] \<Longrightarrow> st_tools st' = []"
proof -
  let ?calls = "blocks_of ''toolCall'' content"
  have tools: "map (\<lambda>r. (tc_id r, tc_run_id r)) (st_tools st') = map (\<lambda>b. (block_string ''id'' b, r)) ?calls"
    using record_turn_tools [OF turn(1)] st(2) by simp
  then show "blocks_of ''toolCall'' content = [] \<Longrightarrow> st_tools st' = []" by simp
  have e: "expect [] (transcript st) = Some []" and ord: "ordered st" using st by (auto simp: history_ok_def)
  let ?m = "new_message now MrAssistant (turn_text content) (no_opts\<lparr>mo_runId := Some r,
      mo_toolCalls := stringifyAssistantMessageMeta (blocks_of ''thinking'' content) ?calls\<rparr>) st"
  have tr: "transcript st' = transcript st @ [toMessage ?m]" "ordered st'"
    using record_turn_frame(1,2) [OF turn(1)] ordered_append [OF ord, of now MrAssistant]
    by (simp_all add: transcript_def ordered_def turn_message_def appendMessage_def)
  have "\<not> is_result (toMessage ?m)" by (simp add: toMessage_def new_message_def)
  then have ex: "expect [] (transcript st') = Some (map (\<lambda>b. json_get b ''id'') ?calls)"
    using e turn_message_calls [OF turn(2), of now "Some r" st] by (simp add: tr(1) expect_append)
  have ids: "map (\<lambda>b. json_get b ''id'') ?calls = map (\<lambda>b. Some (JStr (block_string ''id'' b))) ?calls"
    using turn(2) call_id_string by (auto simp: turn_ok_def list_all_iff)
  have tid: "map tc_id (st_tools st') = map (block_string ''id'') ?calls"
    using arg_cong [OF tools, of "map fst"] by (simp add: comp_def)
  have run: "map tc_run_id (st_tools st') = map (\<lambda>_. r) ?calls"
    using arg_cong [OF tools, of "map snd"] by (simp add: comp_def)
  have "map result_id (st_tools st') = map (\<lambda>b. json_get b ''id'') ?calls"
  proof -
    have "map result_id (st_tools st') = map (\<lambda>i. Some (JStr i)) (map tc_id (st_tools st'))" by (simp add: result_id_def)
    then show ?thesis unfolding tid ids by simp
  qed
  moreover have "distinct (map tc_id (st_tools st'))"
  proof -
    have "distinct (map (\<lambda>i. Some (JStr i)) (map (block_string ''id'') ?calls))"
      using turn(2) ids by (simp add: turn_ok_def comp_def)
    then show ?thesis unfolding tid distinct_map by blast
  qed
  moreover have "\<forall>x \<in> set (st_tools st'). tc_run_id x = r"
    using arg_cong [OF run, of set] by auto
  ultimately show "history_ok (Some r) st'" using tr(2) ex by (simp add: history_ok_def)
qed

section \<open>One tick at a time\<close>

definition tick_threads :: "string \<Rightarrow> thread list \<Rightarrow> nat" where
  "tick_threads r ths = hits tick_of r ths"

definition ticks_ok :: "proc_state \<Rightarrow> bool" where
  "ticks_ok s \<longleftrightarrow> (\<forall>r. tick_threads r (px_threads s) \<le> (if r \<in> set (px_ticking s) then 1 else 0))"

text \<open>The threads between the collection of results and the next calls or the end of the run.\<close>

definition gen_of :: "thread \<Rightarrow> string option" where
  "gen_of th = (case th of ThPrepare r \<Rightarrow> Some r | ThGenerate r \<Rightarrow> Some r
     | ThTurn r c t \<Rightarrow> if c then None else Some r | ThFinish r fs re t e \<Rightarrow> Some r | _ \<Rightarrow> None)"

lemma gen_tick: "gen_of th = Some r \<Longrightarrow> tick_of th = Some r"
  by (auto simp: gen_of_def tick_of_def split: thread.splits if_splits)

definition rid :: "proc_state \<Rightarrow> string option" where
  "rid s = map_option rn_runId (px_run s)"

definition waits :: "proc_state \<Rightarrow> bool" where
  "waits s \<longleftrightarrow> (case px_run s of Some run \<Rightarrow> rn_pendingMedia run \<noteq> None | None \<Rightarrow> False)"

definition prompts_ok :: "log_entry list \<Rightarrow> bool" where
  "prompts_ok lg \<longleftrightarrow> (\<forall>r ms. LgPrompt r ms \<in> set lg \<longrightarrow> calls_answered ms)"

definition sane :: "proc_state \<Rightarrow> bool" where
  "sane s \<longleftrightarrow> history_ok (rid s) (px_store s) \<and> ticks_ok s
     \<and> (\<forall>th \<in> set (px_threads s). gen_of th \<noteq> None \<longrightarrow> gen_of th = rid s \<longrightarrow> st_tools (px_store s) = [])
     \<and> (waits s \<longrightarrow> st_tools (px_store s) = []
          \<and> (\<forall>th \<in> set (px_threads s). tick_of th = rid s \<longrightarrow> (\<exists>r. th = ThTick r)))
     \<and> prompts_ok (px_log s)"

text \<open>Steps outside the ticks. A run that starts to wait for media has no calls and no tick.\<close>

lemma sane_arrival:
  assumes s: "sane s" and th: "px_threads s' = px_threads s @ added" "list_all (\<lambda>th. tick_of th = None) added"
    and ti: "px_ticking s' = px_ticking s"
    and st: "history_ok (rid s') (px_store s')"
    and tools: "st_tools (px_store s') \<noteq> [] \<Longrightarrow> st_tools (px_store s) \<noteq> [] \<and> rid s' = rid s"
    and wait: "waits s' \<Longrightarrow> (waits s \<and> rid s' = rid s)
      \<or> (st_tools (px_store s') = [] \<and> (\<forall>th \<in> set (px_threads s). tick_of th = rid s' \<longrightarrow> (\<exists>r. th = ThTick r)))"
    and lg: "\<And>r ms. LgPrompt r ms \<in> set (px_log s') \<Longrightarrow> LgPrompt r ms \<in> set (px_log s)"
  shows "sane s'"
proof -
  have old: "th \<in> set (px_threads s)" if "th \<in> set (px_threads s')" "tick_of th \<noteq> None" for th
    using that th by (auto simp: list_all_iff)
  have "st_tools (px_store s') = []" if "th \<in> set (px_threads s')" "gen_of th \<noteq> None" "gen_of th = rid s'" for th
  proof (rule ccontr)
    assume t: "st_tools (px_store s') \<noteq> []"
    have "th \<in> set (px_threads s)" using old [OF that(1)] that(2) gen_tick by fastforce
    with t tools that s show False by (auto simp: sane_def)
  qed
  moreover have "st_tools (px_store s') = []" if "waits s'"
    using wait [OF that] tools s by (auto simp: sane_def)
  moreover have "\<exists>r. th = ThTick r" if "waits s'" "th \<in> set (px_threads s')" "tick_of th = rid s'" for th
  proof -
    have "rid s' \<noteq> None" using that(1) by (auto simp: waits_def rid_def split: option.splits)
    then have "th \<in> set (px_threads s)" using old [OF that(2)] that(3) by simp
    then show ?thesis using wait [OF that(1)] that(3) s unfolding sane_def by metis
  qed
  moreover have "ticks_ok s'"
  proof -
    have "hits tick_of r added = 0" for r using th(2) by (induction added) auto
    then show ?thesis using s unfolding sane_def ticks_ok_def th(1) ti tick_threads_def by simp
  qed
  ultimately show ?thesis
    using s st lg unfolding sane_def prompts_ok_def by blast
qed

lemma sane_quiet_arrival:
  assumes "sane s" "px_threads s' = px_threads s" "px_ticking s' = px_ticking s" "history_ok (rid s') (px_store s')"
    and "st_tools (px_store s') \<noteq> [] \<Longrightarrow> st_tools (px_store s) \<noteq> [] \<and> rid s' = rid s"
    and "waits s' \<Longrightarrow> waits s \<and> rid s' = rid s"
    and "\<And>r ms. LgPrompt r ms \<in> set (px_log s') \<Longrightarrow> LgPrompt r ms \<in> set (px_log s)"
  shows "sane s'"
  by (rule sane_arrival [of s s' "[]"]) (use assms in auto)

lemma history_ok_None: "history_ok None st \<Longrightarrow> st_tools st = []"
  unfolding history_ok_def by (metis list.set_intros(1) neq_Nil_conv option.distinct(1))

lemma idle_no_calls: "sane s \<Longrightarrow> px_run s = None \<Longrightarrow> st_tools (px_store s) = []"
  by (rule history_ok_None) (simp add: sane_def rid_def)

lemma sane_store: "sane s \<Longrightarrow> history_ok (rid s) (px_store s)"
  by (simp add: sane_def)

lemma rid_simps [simp]:
  "px_run s = Some run \<Longrightarrow> rid s = Some (rn_runId run)" "px_run s = None \<Longrightarrow> rid s = None"
  "px_run s = None \<Longrightarrow> \<not> waits s" "rn_runId (new_run i) = i" "rn_pendingMedia (new_run i) = None"
  "rn_runId (add_event run) = rn_runId run" "rn_pendingMedia (add_event run) = rn_pendingMedia run"
  by (simp_all add: rid_def waits_def new_run_def add_event_def)

lemma waits_Some [simp]: "px_run s = Some run \<Longrightarrow> waits s \<longleftrightarrow> rn_pendingMedia run \<noteq> None"
  by (simp add: waits_def)

lemma claim_tools [simp]: "st_tools (px_store (claimNextQueuedRun now s)) = st_tools (px_store s)"
  by (auto simp: claimNextQueuedRun_def dest: dequeue_tools split: option.splits prod.splits)

lemma dequeue_history_ok: "dequeue st = (st', q) \<Longrightarrow> history_ok i st' = history_ok i st"
  by (rule history_ok_cong) (auto simp: dequeue_def split: list.splits)

lemma claim_history_ok [simp]: "history_ok i (px_store s) \<Longrightarrow> history_ok i (px_store (claimNextQueuedRun now s))"
  by (auto simp: claimNextQueuedRun_def dest: dequeue_history_ok [of _ _ _ i] split: option.splits prod.splits)

lemma claim_waits: "px_run s = None \<Longrightarrow> \<not> waits (claimNextQueuedRun now s)"
  by (simp add: claimNextQueuedRun_def waits_def split: option.splits prod.splits)

text \<open>A step after which no call is left.\<close>

lemma sane_no_calls:
  assumes "sane s" "px_threads s' = px_threads s" "px_ticking s' = px_ticking s" "history_ok i (px_store s')"
    and "st_tools (px_store s') = []" "\<not> waits s'"
    and "\<And>r ms. LgPrompt r ms \<in> set (px_log s') \<Longrightarrow> LgPrompt r ms \<in> set (px_log s)"
  shows "sane s'"
  using assms history_ok_no_calls [OF assms(5), of i "rid s'"] by (intro sane_quiet_arrival [OF assms(1-3)]) auto

section \<open>Arrivals and ends\<close>

lemma sane_start:
  assumes s: "sane s" and run: "px_run s = None" and role: "role = MrUser \<or> role = MrSystem"
    and same: "px_store s' = fst (appendMessage now role c opts (px_store s))" "px_run s' = Some (new_run i)"
      "px_threads s' = px_threads s" "px_ticking s' = px_ticking s" "px_log s' = px_log s"
  shows "sane s'"
  by (rule sane_no_calls [OF s, of _ None])
    (use history_ok_say [OF role, of None "px_store s"] sane_store [OF s] idle_no_calls [OF s run] run same in \<open>simp_all\<close>)

lemma sane_say:
  assumes s: "sane s" and role: "role = MrUser \<or> role = MrSystem"
    and same: "px_store s' = fst (appendMessage now role c opts (px_store s))" "rid s' = rid s" "waits s' = waits s"
      "px_threads s' = px_threads s" "px_ticking s' = px_ticking s" "px_log s' = px_log s"
  shows "sane s'"
  by (rule sane_quiet_arrival [OF s]) (use same role sane_store [OF s] in auto)

lemma sane_queue:
  assumes s: "sane s" and same: "px_store s' = enqueue now i m media og (px_store s)" "px_run s' = px_run s"
      "px_threads s' = px_threads s" "px_ticking s' = px_ticking s" "px_log s' = px_log s"
  shows "sane s'"
  by (rule sane_quiet_arrival [OF s]) (use same sane_store [OF s] in \<open>auto simp: rid_def waits_def\<close>)

lemma sane_send:
  assumes s: "sane s" and m: "si_media a \<noteq> None \<Longrightarrow>
    \<forall>th \<in> set (px_threads s). tick_of th \<noteq> Some (coalesce (si_admittedRunId a) u)"
  shows "sane (fst (handleProcSend now env u a s))"
proof -
  let ?r = "coalesce (si_admittedRunId a) u"
  have int: "sane (fst (send_interrupting now js ?r msg (si_media a) og s))" for js msg og
  proof -
    let ?s = "supersede now js s"
    have sup: "history_ok (Some ?r) (px_store ?s)" "st_tools (px_store ?s) = []"
    proof -
      have "history_ok (Some ?r) (px_store ?s) \<and> st_tools (px_store ?s) = []"
      proof (cases "px_run s")
        case None
        then show ?thesis using idle_no_calls [OF s] sane_store [OF s] history_ok_no_calls
          by (simp add: supersede_def) blast
      next
        case (Some run)
        then have "history_ok (Some (rn_runId run)) (px_store s)" using sane_store [OF s] by simp
        from history_ok_interrupt [OF this] Some show ?thesis by (simp add: supersede_def)
      qed
      then show "history_ok (Some ?r) (px_store ?s)" "st_tools (px_store ?s) = []" by auto
    qed
    let ?st = "fst (appendMessage now MrUser msg (no_opts\<lparr>mo_runId := Some ?r, mo_media := si_media a, mo_origin := og\<rparr>) (px_store ?s))"
    have st: "history_ok (Some ?r) ?st" "st_tools ?st = []" using sup by simp_all
    let ?t = "fst (send_interrupting now js ?r msg (si_media a) og s)"
    have t: "px_store ?t = ?st" "rid ?t = Some ?r" "waits ?t \<longleftrightarrow> si_media a \<noteq> None"
      by (auto simp: send_interrupting_def Let_def split_beta waits_def rid_def split: option.splits)
    show ?thesis
      by (rule sane_arrival [OF s, of _ "[]"]) (use st t m in \<open>auto simp: send_interrupting_def Let_def split_beta split: option.splits\<close>)
  qed
  have que: "sane (fst (send_queued now ?r msg media og s))" for msg media og
  proof (cases "px_run s")
    case None
    then show ?thesis by (auto simp: send_queued_def intro!: sane_start [OF s, of MrUser])
  next
    case (Some run)
    then show ?thesis by (auto simp: send_queued_def intro!: sane_queue [OF s])
  qed
  show ?thesis
    using int que s by (auto simp: handleProcSend_def Let_def split_beta split: option.splits)
qed

lemma sane_arrivals:
  assumes s: "sane s"
  shows "sane (fst (handleProcIpcDeliver now i m og s))" "sane (fst (handleRuntimeEvent now u c og d r s))"
    "sane (handleIpcSignal now u c ci r' t s)" "sane (mediaPrepared i mid v s)"
    "sane (failPendingMedia now i mid msg re s)"
proof -
  show "sane (fst (handleProcIpcDeliver now i m og s))"
  proof (cases "px_run s")
    case None
    then show ?thesis using s
      by (auto simp: handleProcIpcDeliver_def send_queued_def intro!: sane_start [OF s None, of MrUser])
  next
    case (Some run)
    then show ?thesis using s
      by (auto simp: handleProcIpcDeliver_def send_queued_def intro!: sane_queue [OF s])
  qed
  show "sane (fst (handleRuntimeEvent now u c og d r s))"
  proof (cases "px_run s")
    case None
    then show ?thesis using s
      by (auto simp: handleRuntimeEvent_def Let_def split: option.splits intro!: sane_start [OF s None, of MrSystem])
  next
    case (Some run)
    have q: "sane (on_store (enqueue now e c None og) s)" for e by (rule sane_queue [OF s]) simp_all
    have m: "sane (s\<lparr>px_store := fst (appendMessage now MrSystem c (no_opts\<lparr>mo_origin := og\<rparr>) (px_store s)), px_run := Some (add_event run)\<rparr>)"
      by (rule sane_say [OF s, of MrSystem]) (use Some in auto)
    show ?thesis using s Some q m
      by (auto simp: handleRuntimeEvent_def Let_def split: option.splits)
  qed
  show "sane (handleIpcSignal now u c ci r' t s)"
  proof (cases "px_run s")
    case None
    then show ?thesis using s
      by (auto simp: handleIpcSignal_def Let_def split: option.splits intro!: sane_start [OF s None, of MrSystem])
  next
    case (Some run)
    have q: "sane (on_store (enqueue now u RUNTIME_EVENT_WAKE_MESSAGE None None) s')" if "sane s'" for s'
      by (rule sane_queue [OF that]) simp_all
    show ?thesis using s Some
      by (auto simp: handleIpcSignal_def Let_def split: option.splits intro!: q sane_say [OF s, of MrSystem])
  qed
  show "sane (mediaPrepared i mid v s)"
    by (rule sane_quiet_arrival [OF s])
      (use sane_store [OF s] in \<open>auto simp: mediaPrepared_def rid_def waits_def split: option.splits if_splits\<close>)
  show "sane (failPendingMedia now i mid msg re s)"
  proof (cases "waits s \<and> rid s = Some i \<and> (case px_run s of Some run \<Rightarrow> rn_pendingMedia run = Some mid | None \<Rightarrow> False)")
    case True
    then obtain run where run: "px_run s = Some run" "rn_runId run = i" "rn_pendingMedia run = Some mid"
      by (auto simp: rid_def split: option.splits)
    have no: "st_tools (px_store s) = []" using True s by (simp add: sane_def)
    let ?s1 = "on_store (\<lambda>st. fst (appendMessage now MrSystem msg (no_opts\<lparr>mo_runId := Some i\<rparr>) st)) s"
    let ?s2 = "(emitRunFinished i FsError re None (Some msg) ?s1)\<lparr>px_run := None\<rparr>"
    have "failPendingMedia now i mid msg re s = claimNextQueuedRun now ?s2"
      using run by (simp add: failPendingMedia_def Let_def)
    then show ?thesis
      using no history_ok_say [of MrSystem "rid s" "px_store s"] sane_store [OF s] claim_waits [of ?s2 now]
      by (intro sane_no_calls [OF s, of _ "rid s"]) auto
  next
    case False
    then have "failPendingMedia now i mid msg re s = s"
      by (auto simp: failPendingMedia_def rid_def waits_def split: option.splits)
    then show ?thesis using s by simp
  qed
qed

lemma sane_frame:
  assumes "sane s" "px_store s' = px_store s" "rid s' = rid s" "waits s' = waits s" "px_threads s' = px_threads s"
    "px_ticking s' = px_ticking s" "\<And>r ms. LgPrompt r ms \<in> set (px_log s') \<Longrightarrow> LgPrompt r ms \<in> set (px_log s)"
  shows "sane s'"
  by (rule sane_quiet_arrival [OF assms(1)]) (use assms sane_store in auto)

text \<open>Changes of the tables that keep the calls.\<close>

lemma sane_tables:
  assumes "sane s" and "\<And>i. history_ok i (f (px_store s)) = history_ok i (px_store s)"
    and "st_tools (f (px_store s)) = [] \<longleftrightarrow> st_tools (px_store s) = []"
  shows "sane (on_store f s)"
  by (rule sane_quiet_arrival [OF assms(1)]) (use assms sane_store in \<open>auto simp: rid_def waits_def\<close>)

lemma tools_Nil [simp]:
  "st_tools (tool_fail d e oc st) = [] \<longleftrightarrow> st_tools st = []" "st_tools (tool_resolve d v st) = [] \<longleftrightarrow> st_tools st = []"
  "st_tools (fst (markDispatched d st)) = [] \<longleftrightarrow> st_tools st = []"
  by (simp_all add: tool_fail_def tool_resolve_def update_open_def markDispatched_def Let_def sql_update_def)

lemma sane_fail [simp]: "sane s \<Longrightarrow> sane (on_store (tool_fail d e oc) s)"
  by (rule sane_tables) auto

lemma sane_resolve [simp]: "sane s \<Longrightarrow> sane (on_store (tool_resolve d v) s)"
  by (rule sane_tables) auto

lemma sane_clearHil [simp]: "sane s \<Longrightarrow> sane (on_store clearPendingHil s)"
  by (rule sane_tables) auto

lemma sane_waiters [simp]: "sane s \<Longrightarrow> sane (s\<lparr>px_waiters := ws\<rparr>)"
  by (erule sane_frame) (simp_all add: rid_def waits_def)

lemma sane_kv [simp]: "sane s \<Longrightarrow> sane (s\<lparr>px_kv := kv\<rparr>)"
  by (erule sane_frame) (simp_all add: rid_def waits_def)

lemma sane_log [simp]: "sane s \<Longrightarrow> (\<And>r ms. x \<noteq> LgPrompt r ms) \<Longrightarrow> sane (log x s)"
  by (erule sane_frame) (auto simp: rid_def waits_def)

lemma sane_side [simp]: "sane s \<Longrightarrow> tick_of th = None \<Longrightarrow> sane (spawn th s)"
  by (rule sane_arrival [of s _ "[th]"]) (auto simp: rid_def waits_def sane_store [unfolded rid_def])

lemma sane_abort:
  assumes s: "sane s"
  shows "sane (fst (handleProcAbort now js i s))"
proof (cases "px_run s = None \<or> (i \<noteq> None \<and> i \<noteq> rid s)")
  case True
  then show ?thesis using s by (auto simp: handleProcAbort_def rid_def split: option.splits)
next
  case False
  then obtain run where run: "px_run s = Some run" "i \<noteq> None \<longrightarrow> i = Some (rn_runId run)" by (auto simp: rid_def)
  let ?st = "ingestToolResults now js (Some USER_INTERRUPTED_TOOL_MESSAGE) (rn_runId run) (getResults (rn_runId run) (px_store s)) (px_store s)"
  have st: "history_ok None ?st" "st_tools ?st = []"
    using history_ok_interrupt sane_store [OF s] run by auto
  let ?i = "rn_runId run"
  let ?s1 = "rememberAbortedRun ?i s"
  let ?s2 = "on_store (\<lambda>st. ingestToolResults now js (Some USER_INTERRUPTED_TOOL_MESSAGE) ?i (getResults ?i st) st) ?s1"
  let ?s3 = "case getPendingHilForRun ?i (px_store ?s1) of Some h \<Rightarrow> resolveCodeModeApproval (hl_requestId h) False ?s2 | None \<Rightarrow> ?s2"
  let ?s5 = "(emitRunFinished ?i FsAborted ''user'' None None (rejectCodeModeWaiters (Some ?i) (on_store clearPendingHil ?s3)))\<lparr>px_run := None\<rparr>"
  have t: "fst (handleProcAbort now js i s) = claimNextQueuedRun now ?s5"
    using run by (auto simp: handleProcAbort_def Let_def)
  have s5: "px_store ?s5 = clearPendingHil ?st" "px_run ?s5 = None" "px_threads ?s5 = px_threads s" "px_ticking ?s5 = px_ticking s"
    "LgPrompt r ms \<in> set (px_log ?s5) \<Longrightarrow> LgPrompt r ms \<in> set (px_log s)" for r ms
    by (auto simp: resolveCodeModeApproval_def Let_def split: option.splits)
  show ?thesis
    unfolding t
    by (rule sane_no_calls [OF s, of _ None]) (use s5 st claim_waits [OF s5(2), of now] in \<open>simp_all\<close>)
qed

lemma sane_reset:
  assumes s: "sane s"
  shows "sane (handleProcReset now js s)"
proof -
  let ?t = "handleProcReset now js s"
  have "st_tools (px_store ?t) = []" "st_messages (px_store ?t) = []"
    by (simp_all add: handleProcReset_def resetExecutionState_def Let_def clearPendingToolCalls_def
        resetHistory_def clearMessages_def kv_setValue_def kv_deleteValue_def)
  then have "history_ok None (px_store ?t)" "st_tools (px_store ?t) = []"
    by (simp_all add: history_ok_def ordered_def transcript_def)
  moreover have "px_run ?t = None"
    by (simp add: handleProcReset_def resetExecutionState_def Let_def)
  ultimately show ?thesis
    by (intro sane_no_calls [OF s, of _ None])
      (auto simp: handleProcReset_def resetExecutionState_def Let_def split: option.splits)
qed

lemma sane_restart:
  assumes s: "sane s"
  shows "sane (restart s)"
  using s unfolding sane_def
  by (cases "px_run s")
    (auto simp: restart_def rid_def waits_def ticks_ok_def tick_threads_def split: option.splits)

section \<open>Threads\<close>

definition free :: "string \<Rightarrow> proc_state \<Rightarrow> bool" where
  "free r s \<longleftrightarrow> r \<in> set (px_ticking s) \<and> tick_threads r (px_threads s) = 0"

text \<open>The tick of a run is about to go on: it has no other thread, and its run does not wait for media.\<close>

definition ready :: "string \<Rightarrow> loop_end \<Rightarrow> proc_state \<Rightarrow> bool" where
  "ready r le s \<longleftrightarrow> le \<noteq> LeHil \<longrightarrow> free r s \<and> \<not> (waits s \<and> rid s = Some r)"

lemma ready_cong:
  "px_threads s' = px_threads s \<Longrightarrow> px_ticking s' = px_ticking s \<Longrightarrow> rid s' = rid s \<Longrightarrow> waits s' = waits s \<Longrightarrow>
   ready r le s' = ready r le s"
  by (simp add: ready_def free_def)

lemma ready_simps [simp]:
  "ready r le (on_store f s) = ready r le s" "ready r le (log x s) = ready r le s"
  "tick_of th = None \<Longrightarrow> ready r le (spawn th s) = ready r le s"
  "ready r le (s\<lparr>px_store := st\<rparr>) = ready r le s" "ready r LeHil s"
  by (auto simp: ready_def free_def rid_def waits_def tick_threads_def)

lemma sane_tick_spawn:
  assumes s: "sane s" and fr: "free r s" and th: "tick_of th = Some r"
    and g: "gen_of th \<noteq> None \<Longrightarrow> rid s = Some r \<Longrightarrow> st_tools (px_store s) = []"
    and nw: "\<not> (waits s \<and> rid s = Some r) \<or> (\<exists>i. th = ThTick i)"
  shows "sane (spawn th s)"
proof -
  have gr: "gen_of th \<noteq> None \<Longrightarrow> gen_of th = Some r"
    using th gen_tick by fastforce
  have "ticks_ok (spawn th s)"
    unfolding ticks_ok_def
  proof
    fix j
    show "tick_threads j (px_threads (spawn th s)) \<le> (if j \<in> set (px_ticking (spawn th s)) then 1 else 0)"
      using s fr th by (cases "j = r") (auto simp: sane_def ticks_ok_def free_def tick_threads_def)
  qed
  moreover have "rid (spawn th s) = rid s" "waits (spawn th s) = waits s" by (simp_all add: rid_def waits_def)
  ultimately show ?thesis
    using s g gr nw th unfolding sane_def by auto
qed

lemma sane_tick_end:
  assumes s: "sane s" and no: "tick_threads r (px_threads s) = 0"
  shows "sane (tick_end r s)"
proof -
  have "ticks_ok (tick_end r s)"
    unfolding ticks_ok_def
  proof
    fix j
    show "tick_threads j (px_threads (tick_end r s)) \<le> (if j \<in> set (px_ticking (tick_end r s)) then 1 else 0)"
      using s no by (cases "j = r") (auto simp: sane_def ticks_ok_def)
  qed
  moreover have "rid (tick_end r s) = rid s" "waits (tick_end r s) = waits s" by (simp_all add: rid_def waits_def)
  ultimately show ?thesis using s unfolding sane_def by auto
qed

lemma tick_of_simps [simp]:
  "tick_of (ThTick r) = Some r" "tick_of (ThCollect r) = Some r" "tick_of (ThPrepare r) = Some r"
  "tick_of (ThGenerate r) = Some r" "tick_of (ThTurn r c t) = Some r" "tick_of (ThFinish r fs re o1 o2) = Some r"
  "tick_of (ThTools r p calls le) = (if le = LeHil then None else Some r)"
  "tick_of (ThBegin r tc (ContLoop p rest le)) = (if le = LeHil then None else Some r)"
  "tick_of (ThStart r tc (ContLoop p rest le)) = (if le = LeHil then None else Some r)"
  "tick_of (ThBegin r tc (ContHil p)) = None" "tick_of (ThStart r tc (ContHil p)) = None"
  "tick_of (ThLaunch r tc p) = None" "tick_of (ThCode r d p) = None" "tick_of (ThNested w) = None"
  by (simp_all add: tick_of_def)

lemma gen_of_simps [simp]:
  "gen_of (ThTick r) = None" "gen_of (ThCollect r) = None" "gen_of (ThPrepare r) = Some r"
  "gen_of (ThGenerate r) = Some r" "gen_of (ThTurn r c t) = (if c then None else Some r)"
  "gen_of (ThFinish r fs re o1 o2) = Some r" "gen_of (ThTools r p calls le) = None"
  "gen_of (ThBegin r tc k) = None" "gen_of (ThStart r tc k) = None"
  by (simp_all add: gen_of_def)

text \<open>A thread of the loop over tool calls.\<close>

lemma sane_loop_thread:
  assumes "sane s" "ready r le s" "tick_of th = (if le = LeHil then None else Some r)" "gen_of th = None"
  shows "sane (spawn th s)"
  using assms by (cases "le = LeHil") (auto simp: ready_def intro: sane_tick_spawn)

lemma sane_loop_over: "sane s \<Longrightarrow> ready r le s \<Longrightarrow> sane (loop_over r le s)"
  by (cases le) (auto simp: loop_over_def ready_def free_def intro: sane_tick_spawn [of _ r] sane_tick_end)

lemma sane_process:
  assumes s: "sane s" and r: "ready i le s"
  shows "sane (processToolCalls env i le s)"
proof -
  have "sane (spawn (ThTools i p calls le) (s\<lparr>px_run := Some (run\<lparr>rn_policy := p'\<rparr>)\<rparr>))" if run: "px_run s = Some run" for p p' calls run
  proof (rule sane_loop_thread)
    show "sane (s\<lparr>px_run := Some (run\<lparr>rn_policy := p'\<rparr>)\<rparr>)"
      using s by (rule sane_frame) (use run in \<open>auto simp: rid_def waits_def\<close>)
    show "ready i le (s\<lparr>px_run := Some (run\<lparr>rn_policy := p'\<rparr>)\<rparr>)"
      using r run by (subst ready_cong [of _ s]) (auto simp: rid_def waits_def)
  qed auto
  then show ?thesis
    using sane_loop_over [OF s r] by (auto simp: processToolCalls_def Let_def split: option.splits)
qed

lemma sane_decide: "sane s \<Longrightarrow> sane (decide env h a m s)"
proof -
  assume s: "sane s"
  have r: "sane (remember_approval env h t)" if "sane t" for t
    using that by (rule sane_frame) (auto simp: remember_approval_def rid_def waits_def Let_def split: option.splits prod.splits)
  show ?thesis using s by (auto simp: decide_def Let_def intro!: r)
qed

lemma sane_resolveApproval: "sane s \<Longrightarrow> sane (resolveCodeModeApproval q a s)"
  by (auto simp: resolveCodeModeApproval_def Let_def split: option.splits)

lemma sane_hil: "sane s \<Longrightarrow> sane (fst (handleProcHil env q a m s))"
  unfolding handleProcHil_def Let_def
  by (auto split: option.splits intro!: sane_resolveApproval sane_process sane_clearHil sane_fail sane_decide sane_side)

lemma sane_nested: "sane s \<Longrightarrow> sane (nested_step env now q t i d p c a s)"
proof -
  assume s: "sane s"
  have h: "sane (log (LgAsked h) (on_store (setPendingHil h) (s\<lparr>px_waiters := ws\<rparr>)))" for h ws
    by (rule sane_log, rule sane_tables, rule sane_waiters [OF s]) auto
  show ?thesis
    using s by (auto simp: nested_step_def Let_def split_beta split: approval_action.splits intro!: h)
qed

lemma ticks_ok_mono:
  assumes "ticks_ok s" "set (px_ticking s) \<subseteq> set (px_ticking s')" "px_threads s' = px_threads s"
  shows "ticks_ok s'"
  unfolding ticks_ok_def
proof
  fix r
  have "tick_threads r (px_threads s') \<le> (if r \<in> set (px_ticking s) then 1 else 0)"
    using assms(1,3) unfolding ticks_ok_def by simp
  also have "\<dots> \<le> (if r \<in> set (px_ticking s') then 1 else 0)" using assms(2) by auto
  finally show "tick_threads r (px_threads s') \<le> (if r \<in> set (px_ticking s') then 1 else 0)" .
qed

lemma sane_tick_event: "sane s \<Longrightarrow> sane (tick_event i g s)"
proof -
  assume s: "sane s"
  have run: "sane (s\<lparr>px_run := Some (run\<lparr>rn_tickGeneration := n\<rparr>)\<rparr>)" if "px_run s = Some run" for run n
    using s by (rule sane_frame) (use that in \<open>auto simp: rid_def waits_def\<close>)
  have def: "sane (t\<lparr>px_deferred := d\<rparr>)" if "sane t" for t d
    using that by (rule sane_frame) (auto simp: rid_def waits_def)
  have tick: "sane (spawn (ThTick i) (t\<lparr>px_ticking := px_ticking t @ [i]\<rparr>))" if t: "sane t" "i \<notin> set (px_ticking t)" for t
  proof (rule sane_tick_spawn)
    have "ticks_ok t" using t(1) by (simp add: sane_def)
    from this [unfolded ticks_ok_def, rule_format, of i]
    have none: "tick_threads i (px_threads t) = 0" using t(2) by simp
    show "sane (t\<lparr>px_ticking := px_ticking t @ [i]\<rparr>)"
    proof -
      have "ticks_ok (t\<lparr>px_ticking := px_ticking t @ [i]\<rparr>)"
        by (rule ticks_ok_mono [of t]) (use t(1) in \<open>auto simp: sane_def\<close>)
      moreover have "rid (t\<lparr>px_ticking := px_ticking t @ [i]\<rparr>) = rid t" "waits (t\<lparr>px_ticking := px_ticking t @ [i]\<rparr>) = waits t"
        by (simp_all add: rid_def waits_def)
      ultimately show ?thesis using t(1) unfolding sane_def by auto
    qed
    show "free i (t\<lparr>px_ticking := px_ticking t @ [i]\<rparr>)"
      using none by (simp add: free_def)
  qed auto
  show ?thesis
    using s run def tick [OF run]
    by (auto simp: tick_event_def Let_def split: option.splits)
qed

lemma sane_tool_step:
  assumes s: "sane s" and r: "ready i le s"
  shows "sane (tool_step now u i p calls le s)"
proof (cases calls)
  case (Cons tc rest)
  have st: "sane (s\<lparr>px_store := tool_fail d e oc (px_store s)\<rparr>)" for d e oc
    using sane_fail [OF s, of d e oc] by (simp add: on_store_def)
  have go: "sane (spawn (ThTools i p rest le) (s\<lparr>px_store := tool_fail d e oc (px_store s)\<rparr>))" for d e oc
    by (rule sane_loop_thread [OF st]) (use r in auto)
  have ask: "sane (log (LgAsked h) (on_store (setPendingHil h) (loop_over i le s)))" for h
    by (rule sane_log, rule sane_tables [OF sane_loop_over [OF s r]]) auto
  have auto: "sane (spawn (ThBegin i tc (ContLoop p rest le)) s)"
    by (rule sane_loop_thread [OF s r]) auto
  show ?thesis
    using Cons go ask auto sane_loop_over [OF s r]
    by (auto simp: tool_step_def Let_def split: approval_action.splits)
qed (simp add: tool_step_def sane_loop_over [OF s r])

definition ready_cont :: "string \<Rightarrow> tool_cont \<Rightarrow> proc_state \<Rightarrow> bool" where
  "ready_cont r k s \<longleftrightarrow> (case k of ContLoop p rest le \<Rightarrow> ready r le s | ContHil p \<Rightarrow> True)"

lemma ready_cont_simps [simp]:
  "ready_cont r k (on_store f s) = ready_cont r k s" "ready_cont r k (s\<lparr>px_store := st\<rparr>) = ready_cont r k s"
  "tick_of th = None \<Longrightarrow> ready_cont r k (spawn th s) = ready_cont r k s"
  by (simp_all add: ready_cont_def split: tool_cont.splits)

lemma sane_go_on: "sane s \<Longrightarrow> ready_cont i k s \<Longrightarrow> sane (go_on env i k s)"
  by (cases k) (auto simp: go_on_def ready_cont_def intro: sane_loop_thread sane_process)

lemma sane_begin:
  assumes s: "sane s" and r: "ready_cont i k s"
  shows "sane (begin_step env te i tc k s)"
proof -
  have m: "sane (s\<lparr>px_store := fst (markDispatched d (px_store s))\<rparr>)" for d
    using sane_tables [OF s, of "\<lambda>st. fst (markDispatched d st)"] by (simp add: on_store_def)
  have start: "sane (spawn (ThStart i tc k) (s\<lparr>px_store := fst (markDispatched d (px_store s))\<rparr>))" for d
    using r by (cases k) (auto simp: ready_cont_def m intro!: sane_loop_thread)
  show ?thesis
    using s r m start by (auto simp: begin_step_def Let_def split_beta split: option.splits intro!: sane_go_on)
qed

lemma sane_start_step:
  assumes s: "sane s" and r: "ready_cont i k s"
  shows "sane (start_step env i tc k s)"
  using s r by (cases k) (auto simp: start_step_def ready_cont_def intro!: sane_go_on sane_loop_over)

lemma sane_launch: "sane s \<Longrightarrow> sane (launch_step i tc p s)"
  by (simp add: launch_step_def)

lemma sane_nested_resume: "sane s \<Longrightarrow> sane (nested_resume w s)"
  by (simp add: nested_resume_def)

lemma sane_finishRun:
  assumes s: "sane s" and no: "rid s = Some i \<Longrightarrow> st_tools (px_store s) = []"
  shows "sane (finishRun_proc now w i fs re t e s)"
proof (cases "rid s = Some i")
  case True
  then obtain run where run: "px_run s = Some run" "rn_runId run = i" by (auto simp: rid_def)
  let ?s1 = "on_store clearPendingHil ((emitRunFinished i fs re t e s)\<lparr>px_run := None\<rparr>)"
  let ?s2 = "if rn_events run > 0 \<and> queueSize (px_store s) = 0 then on_store (enqueue now w RUNTIME_EVENT_WAKE_MESSAGE None None) ?s1 else ?s1"
  have f: "finishRun_proc now w i fs re t e s = claimNextQueuedRun now ?s2"
    using run by (simp add: finishRun_proc_def Let_def)
  have s2: "px_run ?s2 = None" by simp
  show ?thesis unfolding f
    by (rule sane_no_calls [OF s, of _ "rid s"]) (use no True sane_store [OF s] claim_waits [OF s2, of now] in \<open>auto split: if_splits\<close>)
next
  case False
  then have "finishRun_proc now w i fs re t e s = s" by (auto simp: finishRun_proc_def rid_def split: option.splits)
  then show ?thesis using s by simp
qed

lemma stopped_rid: "handleRunStopped i s \<longleftrightarrow> rid s \<noteq> Some i"
  by (simp add: handleRunStopped_def rid_def)

lemma consume_parts [simp]: "rid (consume_events i s) = rid s" "waits (consume_events i s) = waits s"
  by (cases "px_run s"; simp add: consume_events_def rid_def waits_def)+

lemma sane_consume: "sane s \<Longrightarrow> sane (consume_events i s)"
  by (erule sane_frame) (auto simp: consume_parts)

lemma free_simps [simp]:
  "free r (on_store f s) = free r s" "free r (log x s) = free r s" "free r (consume_events i s) = free r s"
  "free r (s\<lparr>px_store := st\<rparr>) = free r s"
  by (simp_all add: free_def)

lemma rid_parts [simp]:
  "rid (on_store f s) = rid s" "rid (log x s) = rid s" "rid (s\<lparr>px_store := st\<rparr>) = rid s"
  "waits (on_store f s) = waits s" "waits (log x s) = waits s"
  "waits (s\<lparr>px_store := st\<rparr>) = waits s"
  by (simp_all add: rid_def waits_def)

lemma prompt_answered:
  assumes "sane s" "st_tools (px_store s) = []"
  shows "calls_answered (orderMessagesForProvider (toMessages (px_store s)))"
proof -
  have "ordered (px_store s)" "expect [] (transcript (px_store s)) = Some []"
    using sane_store [OF assms(1)] assms(2) by (auto simp: history_ok_def)
  then have "closed [] (toMessages (px_store s))" by (simp add: closed_expect transcript_toMessages)
  then show ?thesis using order_closed by (simp add: orderMessagesForProvider_def)
qed

lemma sane_prompt:
  assumes "sane s" "st_tools (px_store s) = []"
  shows "sane (log (LgPrompt r (orderMessagesForProvider (toMessages (px_store s)))) s)"
proof -
  let ?t = "log (LgPrompt r (orderMessagesForProvider (toMessages (px_store s)))) s"
  have "prompts_ok (px_log ?t)"
    using assms prompt_answered [OF assms] by (auto simp: prompts_ok_def sane_def)
  moreover have "ticks_ok ?t" using assms(1) by (simp add: sane_def ticks_ok_def)
  ultimately show ?thesis using assms(1) unfolding sane_def by auto
qed

text \<open>The threads of a tick: \<open>g\<close> is what the invariant says of the thread before it is taken out.\<close>

lemma sane_over: "sane s \<Longrightarrow> free r s \<Longrightarrow> sane (tick_end r s)"
  using sane_tick_end by (simp add: free_def)

lemma sane_tick_step:
  assumes s: "sane s" and fr: "free r s"
  shows "sane (tick_step env r s)"
proof -
  have "ready r LeTick s" if "px_run s = Some run" "rn_pendingMedia run = None" for run
    using that fr by (simp add: ready_def)
  moreover have "sane (spawn (ThCollect r) s)" if "px_run s = Some run" "rn_pendingMedia run = None" for run
    using that by (intro sane_tick_spawn [OF s fr]) auto
  ultimately show ?thesis
    using sane_over [OF s fr] by (auto simp: tick_step_def split: option.splits intro!: sane_process [OF s])
qed

lemma sane_collect:
  assumes s: "sane s" and fr: "free r s" and nw: "\<not> (waits s \<and> rid s = Some r)"
  shows "sane (collect_step now env r s)"
proof (cases "rid s = Some r \<and> \<not> list_ex open_call (getResults r (px_store s))")
  case True
  let ?st = "ingestToolResults now (en_stringify env) None r (getResults r (px_store s)) (px_store s)"
  let ?t = "if getResults r (px_store s) = [] then s else on_store (ingestToolResults now (en_stringify env) None r (getResults r (px_store s))) s"
  have ok: "history_ok (Some r) (px_store s)" using sane_store [OF s] True by simp
  have all: "list_all (\<lambda>x. result_message (en_stringify env) None x \<noteq> None) (getResults r (px_store s))"
    using True result_closed by (auto simp: list_all_iff list_ex_iff)
  note ing = history_ok_ingest [OF ok all]
  have none: "st_tools (px_store s) = []" if "getResults r (px_store s) = []"
  proof -
    have "{x \<in> set (st_tools (px_store s)). tc_run_id x = r} = {}" using that set_getResults [of r "px_store s"] by simp
    then show ?thesis using ok by (auto simp: history_ok_def)
  qed
  have t: "sane ?t"
  proof (cases "getResults r (px_store s) = []")
    case False
    have "sane (on_store (ingestToolResults now (en_stringify env) None r (getResults r (px_store s))) s)"
      by (rule sane_quiet_arrival [OF s]) (use ing True in auto)
    then show ?thesis using False by simp
  qed (use s in simp)
  have "st_tools (px_store ?t) = []" using ing(2) none by simp
  then have "sane (spawn (ThPrepare r) ?t)"
    using nw fr by (intro sane_tick_spawn [OF t]) auto
  then show ?thesis using True by (simp add: collect_step_def Let_def stopped_rid)
next
  case False
  then show ?thesis using sane_over [OF s fr] by (auto simp: collect_step_def Let_def stopped_rid)
qed

lemma sane_prepare:
  assumes s: "sane s" and fr: "free r s" and nw: "\<not> (waits s \<and> rid s = Some r)" and g: "rid s = Some r \<Longrightarrow> st_tools (px_store s) = []"
  shows "sane (prepare_step r s)"
proof (cases "rid s = Some r")
  case True
  have "sane (spawn (ThGenerate r) (consume_events r (log (LgPrompt r (orderMessagesForProvider (toMessages (px_store s)))) s)))"
    by (rule sane_tick_spawn [OF sane_consume [OF sane_prompt [OF s g [OF True]]]])
      (use fr nw g in auto)
  then show ?thesis using True by (simp add: prepare_step_def stopped_rid)
qed (use sane_over [OF s fr] in \<open>simp add: prepare_step_def stopped_rid\<close>)

lemma sane_generate:
  assumes s: "sane s" and fr: "free r s" and nw: "\<not> (waits s \<and> rid s = Some r)" and g: "rid s = Some r \<Longrightarrow> st_tools (px_store s) = []"
    and turn: "\<And>content. gen = GenContent content \<Longrightarrow> turn_ok content"
  shows "sane (generate_step now uuids gen r s)"
proof (cases "rid s = Some r")
  case True
  have sp: "sane (spawn th s)" if "tick_of th = Some r" for th
    using that nw g True by (intro sane_tick_spawn [OF s fr]) auto
  show ?thesis
  proof (cases gen)
    case (GenFailed re d)
    let ?t = "on_store (\<lambda>st. fst (appendMessage now MrSystem d (no_opts\<lparr>mo_runId := Some r\<rparr>) st)) s"
    have "sane ?t" by (rule sane_say [OF s, of MrSystem]) simp_all
    then have "sane (spawn (ThFinish r FsError re None (Some d)) ?t)"
      by (rule sane_tick_spawn) (use fr nw g in auto)
    then show ?thesis using True GenFailed by (simp add: generate_step_def stopped_rid)
  next
    case (GenContent content)
    show ?thesis
    proof (cases "record_turn now uuids (px_kv s) r content (px_store s)")
      case (Inl e)
      then show ?thesis using True GenContent sp by (simp add: generate_step_def stopped_rid)
    next
      case (Inr st)
      note rec = history_ok_turn [OF sane_store [OF s] g [OF True] Inr turn [OF GenContent]]
      let ?t = "consume_events r (s\<lparr>px_store := st\<rparr>)"
      let ?th = "ThTurn r (blocks_of ''toolCall'' content \<noteq> []) (turn_text content)"
      have parts: "px_store ?t = st" "px_log ?t = px_log s" "px_threads ?t = px_threads s" "px_ticking ?t = px_ticking s"
        by simp_all
      have none: "tick_of x \<noteq> Some r" if "x \<in> set (px_threads s)" for x
      proof
        assume "tick_of x = Some r"
        then have "x \<in> set (filter (\<lambda>x. tick_of x = Some r) (px_threads s))" using that by simp
        moreover have "filter (\<lambda>x. tick_of x = Some r) (px_threads s) = []"
          using fr by (simp add: free_def tick_threads_def hits_def)
        ultimately show False by (metis empty_iff list.set(1))
      qed
      have t: "sane ?t"
      proof -
        have "ticks_ok ?t" using s unfolding sane_def ticks_ok_def parts by blast
        moreover have "\<forall>x \<in> set (px_threads ?t). gen_of x \<noteq> None \<longrightarrow> gen_of x = rid ?t \<longrightarrow> st_tools (px_store ?t) = []"
          using none gen_tick True unfolding parts by (simp, metis)
        moreover have "\<not> waits ?t" using nw True by simp
        ultimately show ?thesis using s rec(1) True unfolding sane_def parts by simp
      qed
      have "sane (spawn ?th ?t)"
        using rec(2) nw fr True by (intro sane_tick_spawn [OF t]) (auto split: if_splits)
      then show ?thesis using True GenContent Inr by (simp add: generate_step_def stopped_rid)
    qed
  qed (use True sp in \<open>simp_all add: generate_step_def stopped_rid\<close>)
qed (use sane_over [OF s fr] in \<open>simp add: generate_step_def stopped_rid\<close>)

lemma sane_turn:
  assumes s: "sane s" and fr: "free r s" and nw: "\<not> (waits s \<and> rid s = Some r)" and g: "\<not> c \<Longrightarrow> rid s = Some r \<Longrightarrow> st_tools (px_store s) = []"
  shows "sane (turn_step env r c t s)"
proof -
  have "\<not> c \<Longrightarrow> sane (spawn (ThFinish r FsOk ''turn.complete'' (Some t) None) s)"
    by (rule sane_tick_spawn [OF s fr]) (use nw g in auto)
  moreover have "sane (processToolCalls env r LeTurn s)"
    by (rule sane_process [OF s]) (use fr nw in \<open>simp add: ready_def\<close>)
  ultimately show ?thesis using sane_over [OF s fr] by (simp add: turn_step_def)
qed

lemma sane_finish:
  assumes s: "sane s" and fr: "free r s" and g: "rid s = Some r \<Longrightarrow> st_tools (px_store s) = []"
  shows "sane (finish_step now w r fs re o1 o2 s)"
  unfolding finish_step_def
  by (rule sane_tick_end [OF sane_finishRun [OF s g]]) (use fr in \<open>simp_all add: free_def\<close>)

section \<open>All steps\<close>

text \<open>
  Steps of a process whose runs are not cut off: no tick throws and every tick can be scheduled, providers
  give the calls of one answer different ids, and a message with media starts a run of a fresh id.
\<close>

definition smooth :: "proc_state \<Rightarrow> proc_event \<Rightarrow> bool" where
  "smooth s ev = (case ev of
     EvTickThrows u r e \<Rightarrow> False
   | EvScheduleFails u r e \<Rightarrow> False
   | EvSend u a \<Rightarrow> si_media a = None \<or> list_all (\<lambda>th. tick_of th \<noteq> Some (coalesce (si_admittedRunId a) u)) (px_threads s)
   | EvThread n i \<Rightarrow> (case ti_generation i of GenContent content \<Rightarrow> turn_ok content | _ \<Rightarrow> True)
   | _ \<Rightarrow> True)"

fun smooth_trace :: "proc_env \<Rightarrow> (int \<times> proc_event) list \<Rightarrow> proc_state \<Rightarrow> bool" where
  "smooth_trace env [] s \<longleftrightarrow> True"
| "smooth_trace env ((now, ev) # evs) s \<longleftrightarrow> smooth s ev \<and> smooth_trace env evs (proc_step env now ev s)"

lemma sane_run_thread:
  assumes s: "sane s" and mem: "th \<in> set (px_threads s)"
    and rest: "\<And>f r. hits f r (px_threads s0) + (if f th = Some r then 1 else 0) = hits f r (px_threads s)"
    and s0: "s0 = s\<lparr>px_threads := ths\<rparr>" "set ths \<subseteq> set (px_threads s)"
    and turn: "\<And>content. ti_generation i = GenContent content \<Longrightarrow> turn_ok content"
  shows "sane (run_thread env now i th s0)"
proof -
  have same: "rid s0 = rid s" "waits s0 = waits s" "px_store s0 = px_store s" "px_ticking s0 = px_ticking s"
    by (simp_all add: s0 rid_def waits_def)
  have tk: "ticks_ok s0"
    unfolding ticks_ok_def tick_threads_def same
  proof
    fix r
    have "hits tick_of r (px_threads s) \<le> (if r \<in> set (px_ticking s) then 1 else 0)"
      using s unfolding sane_def ticks_ok_def tick_threads_def by blast
    with rest [of tick_of r] show "hits tick_of r (px_threads s0) \<le> (if r \<in> set (px_ticking s) then 1 else 0)" by simp
  qed
  have sane0: "sane s0"
    using s tk s0(2) unfolding sane_def same by (auto simp: s0(1))
  have fr: "free r s0" if "tick_of th = Some r" for r
  proof -
    have "hits tick_of r (px_threads s) \<le> (if r \<in> set (px_ticking s) then 1 else 0)"
      using s unfolding sane_def ticks_ok_def tick_threads_def by blast
    with rest [of tick_of r] that show ?thesis
      by (simp add: free_def tick_threads_def same split: if_splits)
  qed
  have nw: "\<not> (waits s0 \<and> rid s0 = Some r)" if "tick_of th = Some r" "\<And>x. th \<noteq> ThTick x" for r
    using s mem that unfolding sane_def same by metis
  have g: "rid s0 = Some r \<Longrightarrow> st_tools (px_store s0) = []" if "gen_of th = Some r" for r
    using s mem that unfolding sane_def same by (metis option.distinct(1))
  have ready: "ready r le s0" if "le \<noteq> LeHil \<Longrightarrow> tick_of th = Some r" "\<And>x. th \<noteq> ThTick x" for r le
    using fr nw that by (auto simp: ready_def)
  show ?thesis
  proof (cases th)
    case (ThTick r)
    then show ?thesis using sane_tick_step [OF sane0 fr] by (simp add: run_thread_def)
  next
    case (ThTools r p calls le)
    then show ?thesis using sane_tool_step [OF sane0 ready] by (simp add: run_thread_def)
  next
    case (ThBegin r tc k)
    then have "ready_cont r k s0" using ready by (cases k) (auto simp: ready_cont_def)
    then show ?thesis using ThBegin sane_begin [OF sane0] by (simp add: run_thread_def)
  next
    case (ThStart r tc k)
    then have "ready_cont r k s0" using ready by (cases k) (auto simp: ready_cont_def)
    then show ?thesis using ThStart sane_start_step [OF sane0] by (simp add: run_thread_def)
  next
    case (ThCollect r)
    then show ?thesis using sane_collect [OF sane0 fr nw] by (simp add: run_thread_def)
  next
    case (ThPrepare r)
    then show ?thesis using sane_prepare [OF sane0 fr nw g] by (simp add: run_thread_def)
  next
    case (ThGenerate r)
    then show ?thesis using sane_generate [OF sane0 fr nw g turn] by (simp add: run_thread_def)
  next
    case (ThTurn r c t)
    then show ?thesis using sane_turn [OF sane0 fr nw, of r c] g by (simp add: run_thread_def)
  next
    case (ThFinish r fs re o1 o2)
    then show ?thesis using sane_finish [OF sane0 fr g] by (simp add: run_thread_def)
  qed (use sane0 sane_launch sane_nested_resume sane_resolve in \<open>simp_all add: run_thread_def\<close>)
qed

lemma sane_others:
  assumes s: "sane s"
  shows "sane (tool_answer d v s)" "sane (onToolDispatchTimeout i d s)" "sane (nested_answer i d c a w s)"
    "sane (hil_timeout q s)" "sane (onRunFinishDelivery now i b s)"
proof -
  show "sane (tool_answer d v s)"
    using s by (auto simp: tool_answer_def split: option.splits sum.splits)
  show "sane (onToolDispatchTimeout i d s)"
    using s by (auto simp: onToolDispatchTimeout_def split: option.splits)
  show "sane (nested_answer i d c a w s)"
    using s by (simp add: nested_answer_def)
  show "sane (hil_timeout q s)"
    using s by (auto simp: hil_timeout_def Let_def)
  have f: "sane (s\<lparr>px_finishes := fs\<rparr>)" for fs
    using s by (rule sane_frame) (auto simp: rid_def waits_def)
  have r: "sane (removePendingRunFinish i s)"
    unfolding removePendingRunFinish_def by (rule f)
  have "sane (on_store (\<lambda>st. fst (appendMessage now MrSystem m opts st)) (removePendingRunFinish i s))" for m opts
    by (rule sane_say [OF r, of MrSystem]) simp_all
  then show "sane (onRunFinishDelivery now i b s)"
    using s r f by (auto simp: onRunFinishDelivery_def split: option.splits)
qed

lemma sane_step:
  assumes s: "sane s" and ok: "smooth s ev"
  shows "sane (proc_step env now ev s)"
proof (cases ev)
  case (EvThread n i)
  show ?thesis
  proof (cases "n < length (px_threads s)")
    case True
    let ?ths = "take n (px_threads s) @ drop (n + 1) (px_threads s)"
    have split: "px_threads s = take n (px_threads s) @ px_threads s ! n # drop (n + 1) (px_threads s)"
      using True by (simp add: id_take_nth_drop)
    have hits: "hits f r (px_threads (s\<lparr>px_threads := ?ths\<rparr>)) + (if f (px_threads s ! n) = Some r then 1 else 0) = hits f r (px_threads s)"
      for f r by (subst (3) split) simp
    have "set ?ths \<subseteq> set (px_threads s)" by (auto dest: in_set_takeD in_set_dropD)
    moreover have "\<And>content. ti_generation i = GenContent content \<Longrightarrow> turn_ok content"
      using ok by (simp add: smooth_def EvThread)
    ultimately have "sane (run_thread env now i (px_threads s ! n) (s\<lparr>px_threads := ?ths\<rparr>))"
      using sane_run_thread [OF s _ hits refl] True by simp
    then show ?thesis using True by (simp add: proc_step_def EvThread)
  qed (use s in \<open>simp add: proc_step_def EvThread\<close>)
next
  case (EvSend u a)
  have "sane (fst (handleProcSend now env u a s))"
    by (rule sane_send [OF s]) (use ok in \<open>auto simp: smooth_def EvSend list_all_iff\<close>)
  then show ?thesis by (simp add: proc_step_def EvSend)
qed (use s ok sane_arrivals [OF s] sane_abort [OF s] sane_reset [OF s] sane_hil [OF s] sane_tick_event [OF s]
       sane_others [OF s] sane_nested [OF s] sane_restart [OF s]
     in \<open>simp_all add: proc_step_def smooth_def\<close>)

lemma sane_new: "sane (new_process b)"
  by (simp add: sane_def new_process_def empty_store_def history_ok_def ordered_def transcript_def ticks_ok_def
      tick_threads_def waits_def prompts_ok_def)

lemma sane_steps: "smooth_trace env evs s \<Longrightarrow> sane s \<Longrightarrow> sane (proc_steps env evs s)"
proof (induction evs arbitrary: s)
  case (Cons x evs)
  then show ?case by (cases x) (simp add: sane_step)
qed simp


section \<open>Witness\<close>

definition read_call :: "json list" where
  "read_call = [JObj [(''type'', JStr ''toolCall''), (''id'', JStr ''c1''), (''name'', JStr ''Read''),
     (''arguments'', JObj [(''path'', JStr ''a'')])]]"

definition go :: proc_event where
  "go = EvThread 0 (demo_input GenRetry)"

text \<open>The model reads a file, an event arrives meanwhile, and the loop asks the model again.\<close>

definition read_trace :: "(int \<times> proc_event) list" where
  "read_trace = [(1, EvSend ''u'' (demo_send ''r1'')), (2, EvTick ''r1'' 0), (3, go), (4, go), (5, go),
     (6, EvThread 0 (demo_input (GenContent read_call))), (7, go), (8, go), (9, go), (10, go), (11, go), (12, go),
     (13, EvRuntime ''e'' ''event'' None False None), (14, EvAnswer ''u0'' (Inr (JStr ''text''))),
     (15, EvTick ''r1'' 1), (16, go), (17, go), (18, go)]"


text \<open>
  A run that is cut off keeps its calls open: the tick throws after the answer with the call, the run is
  finished, and the prompt of the next run shows a call that will never have a result.
\<close>

definition cut_off_trace :: "(int \<times> proc_event) list" where
  "cut_off_trace = take 7 read_trace @ [(8, EvTickThrows ''w'' ''r1'' ''signal failed''), (9, EvSend ''u'' (demo_send ''r2'')),
     (10, EvTick ''r2'' 0), (11, go), (12, go), (13, go)]"

lemma cut_off_run_spoils_prompts:
  "case last (px_log (proc_steps run_env cut_off_trace (new_process True))) of
     LgPrompt r ms \<Rightarrow> r = ''r2'' \<and> map pm_role ms = [MrUser, MrAssistant, MrUser] \<and> \<not> calls_answered ms
   | _ \<Rightarrow> False"
  by code_simp

end
