(* ===== verification/Paths.thy ===== *)
theory Paths
  imports Processes
begin

text \<open>
  Paths of the virtual file system: resolution and normalisation (\<open>fs/utils.ts\<close>), permission digits
  (\<open>fs/utils.ts\<close>) and the two-way map between the object keys of process media and their paths
  (\<open>shared/process-media-path.ts\<close>). The lemmas say what the file system relies on: a normal path is
  absolute, its segments are non-empty and never a dot or two dots, and normalising is idempotent, so two
  spellings of a path reach the same file exactly when they normalise alike.
\<close>

section \<open>Normal paths\<close>

definition push_segment :: "string list \<Rightarrow> string \<Rightarrow> string list" where
  "push_segment segments seg =
     (if seg = [] \<or> seg = ''.'' then segments
      else if seg = ''..'' then butlast segments
      else segments @ [seg])"

definition path_segments :: "string \<Rightarrow> string list" where
  "path_segments path = foldl push_segment [] (js_split (CHR ''/'') path)"

definition normalizePath :: "string \<Rightarrow> string" where
  "normalizePath path = ''/'' @ js_join ''/'' (path_segments path)"

definition resolveUserPath :: "string \<Rightarrow> string \<Rightarrow> string \<Rightarrow> string" where
  "resolveUserPath path home cwd =
     (let tilde = (if path = ''~'' then home
                   else if prefix ''~/'' path then strip_trailing_slashes home @ drop 1 path
                   else path);
          resolved = (if \<not> prefix ''/'' tilde
                      then (if suffix ''/'' cwd then cwd else cwd @ ''/'') @ tilde
                      else tilde)
      in normalizePath resolved)"

definition ok_segment :: "string \<Rightarrow> bool" where
  "ok_segment s \<longleftrightarrow> s \<noteq> [] \<and> s \<noteq> ''.'' \<and> s \<noteq> ''..'' \<and> CHR ''/'' \<notin> set s"

definition normal_path :: "string \<Rightarrow> bool" where
  "normal_path p \<longleftrightarrow> (\<exists>ss. list_all ok_segment ss \<and> p = ''/'' @ js_join ''/'' ss)"

lemma push_segment_ok:
  "list_all ok_segment ss \<Longrightarrow> CHR ''/'' \<notin> set s \<Longrightarrow> list_all ok_segment (push_segment ss s)"
  by (auto simp: push_segment_def ok_segment_def list_all_iff dest: in_set_butlastD)

lemma foldl_push_ok:
  "list_all ok_segment acc \<Longrightarrow> list_all (\<lambda>s. CHR ''/'' \<notin> set s) ss \<Longrightarrow>
     list_all ok_segment (foldl push_segment acc ss)"
  by (induction ss arbitrary: acc) (simp_all add: push_segment_ok)

lemma path_segments_ok [simp]: "list_all ok_segment (path_segments p)"
  unfolding path_segments_def
  by (rule foldl_push_ok) (auto simp: list_all_iff dest: js_split_parts_no_sep)

lemma foldl_push_id:
  "list_all ok_segment ss \<Longrightarrow> foldl push_segment acc ss = acc @ ss"
  by (induction ss arbitrary: acc) (simp_all add: push_segment_def ok_segment_def)

lemma split_joined:
  assumes "list_all ok_segment ss"
  shows "js_split (CHR ''/'') (''/'' @ js_join ''/'' ss) = [] # (if ss = [] then [[]] else ss)"
proof (cases "ss = []")
  case False
  then have "js_split (CHR ''/'') (js_join ''/'' ss) = ss"
    using assms by (intro js_split_js_join) (auto simp: list_all_iff ok_segment_def)
  then show ?thesis using False js_split_append [of "CHR ''/''" "[]" "js_join ''/'' ss"] by simp
qed simp

lemma path_segments_joined [simp]:
  assumes "list_all ok_segment ss"
  shows "path_segments (''/'' @ js_join ''/'' ss) = ss"
proof (cases "ss = []")
  case True
  then show ?thesis by (simp add: path_segments_def push_segment_def)
next
  case False
  have "path_segments (''/'' @ js_join ''/'' ss) = foldl push_segment [] ([] # ss)"
    unfolding path_segments_def split_joined [OF assms] using False by simp
  also have "\<dots> = foldl push_segment [] ss" by (simp add: push_segment_def)
  finally show ?thesis using foldl_push_id [OF assms] by simp
qed

lemmas path_segments_rejoined [simp] = path_segments_joined [simplified]

lemma path_segments_normalize [simp]: "path_segments (normalizePath p) = path_segments p"
  unfolding normalizePath_def by (rule path_segments_joined [OF path_segments_ok])

lemma normalizePath_idem [simp]: "normalizePath (normalizePath p) = normalizePath p"
  by (subst normalizePath_def) (simp add: normalizePath_def [of p])

lemma normal_normalizePath [simp]: "normal_path (normalizePath p)"
  unfolding normal_path_def normalizePath_def using path_segments_ok by blast

lemma normal_path_iff: "normal_path p \<longleftrightarrow> normalizePath p = p"
proof
  assume "normal_path p"
  then obtain ss where "list_all ok_segment ss" "p = ''/'' @ js_join ''/'' ss"
    by (auto simp: normal_path_def)
  then show "normalizePath p = p" unfolding normalizePath_def by simp
qed (metis normal_normalizePath)

lemma normal_resolveUserPath [simp]: "normal_path (resolveUserPath path home cwd)"
  by (simp add: resolveUserPath_def Let_def)

lemma normal_path_start: "normal_path p \<Longrightarrow> \<exists>r. p = CHR ''/'' # r"
  by (auto simp: normal_path_def)

lemma normal_path_eq_iff:
  "normal_path p \<Longrightarrow> normal_path q \<Longrightarrow> p = q \<longleftrightarrow> path_segments p = path_segments q"
  by (metis normal_path_iff normalizePath_def)

text \<open>Appending names to a directory, as the walk over a path does.\<close>

lemma path_segments_slash:
  "path_segments (a @ CHR ''/'' # b) = foldl push_segment (path_segments a) (js_split (CHR ''/'') b)"
  by (simp add: path_segments_def js_split_at)

lemma path_segments_child:
  "ok_segment s \<Longrightarrow> path_segments (p @ CHR ''/'' # s) = path_segments p @ [s]"
  by (simp add: path_segments_slash js_split_no_sep ok_segment_def push_segment_def)

lemma normalize_child:
  "ok_segment s \<Longrightarrow> normalizePath (p @ CHR ''/'' # s) = ''/'' @ js_join ''/'' (path_segments p @ [s])"
  by (simp add: normalizePath_def path_segments_child)

section \<open>Permission digits\<close>

record mode_digits =
  md_owner :: "nat option"
  md_group :: "nat option"
  md_other :: "nat option"

definition parse_digit :: "char \<Rightarrow> nat option" where
  "parse_digit c = (if is_digit c then Some (digit_val c) else None)"

definition mode_tail :: "string \<Rightarrow> string" where
  "mode_tail mode =
     (let padded = replicate (3 - length mode) (CHR ''0'') @ mode
      in drop (length padded - 3) padded)"

definition parseMode :: "string \<Rightarrow> mode_digits" where
  "parseMode mode =
     (let digits = mode_tail mode
      in \<lparr>md_owner = parse_digit (digits ! 0), md_group = parse_digit (digits ! 1),
          md_other = parse_digit (digits ! 2)\<rparr>)"

definition isValidMode :: "string \<Rightarrow> bool" where
  "isValidMode mode \<longleftrightarrow> length mode \<in> {3, 4} \<and> list_all (\<lambda>c. CHR ''0'' \<le> c \<and> c \<le> CHR ''7'') mode"

lemma length_mode_tail [simp]: "length (mode_tail mode) = 3"
  by (simp add: mode_tail_def Let_def)

section \<open>Process media\<close>

definition PROCESS_MEDIA_ROOT :: string where "PROCESS_MEDIA_ROOT = ''/var/media''"

datatype media_path = MpRoot | MpUid int | MpProcess int string | MpFile int string string

definition processMediaPrefix :: "int \<Rightarrow> string \<Rightarrow> string" where
  "processMediaPrefix uid pid = ''var/media/'' @ show_int uid @ ''/'' @ pid @ ''/''"

definition isSafeSegment :: "string \<Rightarrow> bool" where
  "isSafeSegment v \<longleftrightarrow> v \<noteq> [] \<and> v \<noteq> ''.'' \<and> v \<noteq> ''..'' \<and> CHR 0x00 \<notin> set v"

text \<open>\<open>Number(s)\<close> with \<open>String(Number(s)) === s\<close>, a safe integer and not negative: the decimal digits of
  a number below \<open>2^53\<close> without a leading zero.\<close>

definition canonical_uid :: "string \<Rightarrow> int option" where
  "canonical_uid s =
     (if s \<noteq> [] \<and> list_all is_digit s \<and> int (digits_val s) < 2 ^ 53 \<and> show_nat (digits_val s) = s
      then Some (int (digits_val s)) else None)"

definition isProcessMediaPath :: "string \<Rightarrow> bool" where
  "isProcessMediaPath path \<longleftrightarrow> path = PROCESS_MEDIA_ROOT \<or> prefix (PROCESS_MEDIA_ROOT @ ''/'') path"

definition media_of_segments :: "string list \<Rightarrow> media_path option" where
  "media_of_segments segments =
     (if length segments > 3 then None
      else case canonical_uid (segments ! 0) of
        None \<Rightarrow> None
      | Some uid \<Rightarrow>
          if length segments = 1 then Some (MpUid uid)
          else let pid = segments ! 1 in
          if \<not> isSafeSegment pid then None
          else if length segments = 2 then Some (MpProcess uid pid)
          else let basename = segments ! 2 in
          if \<not> isSafeSegment basename then None
          else Some (MpFile uid pid (processMediaPrefix uid pid @ basename)))"

definition parseProcessMediaPath :: "string \<Rightarrow> media_path option" where
  "parseProcessMediaPath path =
     (if path = PROCESS_MEDIA_ROOT then Some MpRoot
      else if \<not> prefix (PROCESS_MEDIA_ROOT @ ''/'') path then None
      else media_of_segments (js_split (CHR ''/'') (drop (length PROCESS_MEDIA_ROOT + 1) path)))"

definition processMediaPath :: "string \<Rightarrow> string option" where
  "processMediaPath key =
     (let path = CHR ''/'' # key in
      case parseProcessMediaPath path of
        Some (MpFile uid pid k) \<Rightarrow> if k = key then Some path else None
      | _ \<Rightarrow> None)"

definition agentArchiveMediaPrefix :: "string \<Rightarrow> string" where
  "agentArchiveMediaPrefix home =
     strip_trailing_slashes (dropWhile (\<lambda>c. c = CHR ''/'') home) @ ''/.gsv/media/''"

definition archived_media_basename :: "string \<Rightarrow> bool" where
  "archived_media_basename b \<longleftrightarrow>
     prefix ''archived-media:'' b
     \<and> (let digest = drop (length ''archived-media:'') b
        in length digest = 64
           \<and> list_all (\<lambda>c. is_digit c \<or> (CHR ''a'' \<le> c \<and> c \<le> CHR ''f'')) digest)"

definition agentArchiveMediaPath :: "string \<Rightarrow> string \<Rightarrow> string option" where
  "agentArchiveMediaPath home key =
     (let p = agentArchiveMediaPrefix home;
          basename = (if prefix p key then drop (length p) key else [])
      in if archived_media_basename basename then Some (CHR ''/'' # key) else None)"

record archive_check =
  av_home :: string
  av_key :: string
  av_uid :: int
  av_gid :: int
  av_metadata :: "(string \<rightharpoonup> string) option"
  av_contentType :: "string option"
  av_expectedSourceEtag :: "string option"
  av_expectedContentType :: "string option"

definition isValidAgentArchiveMediaObject :: "archive_check \<Rightarrow> bool" where
  "isValidAgentArchiveMediaObject a \<longleftrightarrow>
     (let meta = (\<lambda>k. case av_metadata a of None \<Rightarrow> None | Some m \<Rightarrow> m k);
          trimmed = (\<lambda>v. js_trim (coalesce v []));
          sourceEtag = trimmed (meta ''sourceEtag'');
          sourceContentType = trimmed (meta ''sourceContentType'');
          objectContentType = trimmed (av_contentType a);
          expectedSourceEtag = map_option js_trim (av_expectedSourceEtag a);
          expectedContentType = map_option js_trim (av_expectedContentType a)
      in agentArchiveMediaPath (av_home a) (av_key a) \<noteq> None
         \<and> meta ''purpose'' = Some ''conversation-media''
         \<and> meta ''uid'' = Some (show_int (av_uid a))
         \<and> meta ''gid'' = Some (show_int (av_gid a))
         \<and> meta ''mode'' = Some ''400''
         \<and> sourceEtag \<noteq> [] \<and> sourceContentType \<noteq> []
         \<and> objectContentType = sourceContentType
         \<and> (\<not> truthy expectedSourceEtag \<or> Some sourceEtag = expectedSourceEtag)
         \<and> (\<not> truthy expectedContentType \<or> Some objectContentType = expectedContentType))"

lemma canonical_uid_iff:
  "canonical_uid s = Some u \<Longrightarrow> 0 \<le> u \<and> show_int u = s"
  by (auto simp: canonical_uid_def show_int_def split: if_splits)

lemma safe_segment_ok: "isSafeSegment s \<Longrightarrow> CHR ''/'' \<notin> set s \<Longrightarrow> ok_segment s"
  by (simp add: isSafeSegment_def ok_segment_def)

lemma media_of_file:
  assumes "media_of_segments ss = Some (MpFile uid pid key)" "ss \<noteq> []"
  shows "\<exists>a c. ss = [a, pid, c] \<and> canonical_uid a = Some uid \<and> isSafeSegment pid \<and> isSafeSegment c
    \<and> key = processMediaPrefix uid pid @ c"
proof -
  have "length ss \<le> 3" using assms(1) by (auto simp: media_of_segments_def split: if_splits)
  then have "length ss = 1 \<or> length ss = 2 \<or> length ss = 3" 
    using assms(2) length_0_conv [of ss] by linarith
  then consider a where "ss = [a]" | a b where "ss = [a, b]" | a b c where "ss = [a, b, c]"
    by (auto simp: length_Suc_conv numeral_2_eq_2 numeral_3_eq_3)
  then show ?thesis
    by cases (use assms(1) in \<open>auto simp: media_of_segments_def Let_def split: if_splits option.splits\<close>)
qed

text \<open>A media file path is the key below the root, and a normal path.\<close>

lemma parsed_media_file:
  assumes "parseProcessMediaPath path = Some (MpFile uid pid key)"
  shows "path = CHR ''/'' # key" and "normal_path path"
    and "\<exists>b. key = processMediaPrefix uid pid @ b \<and> isSafeSegment b \<and> isSafeSegment pid"
proof -
  obtain r where path: "path = PROCESS_MEDIA_ROOT @ ''/'' @ r"
    using assms by (auto simp: parseProcessMediaPath_def prefix_def split: if_splits)
  let ?ss = "js_split (CHR ''/'') r"
  have "media_of_segments ?ss = Some (MpFile uid pid key)"
    using assms by (simp add: parseProcessMediaPath_def path PROCESS_MEDIA_ROOT_def)
  then obtain a b c where ss: "?ss = [a, b, c]" and uid: "canonical_uid a = Some uid" and b: "b = pid"
    and pid: "isSafeSegment pid" and base: "isSafeSegment c" and key: "key = processMediaPrefix uid pid @ c"
    using media_of_file js_split_not_Nil by blast
  have r: "r = a @ ''/'' @ b @ ''/'' @ c"
    using js_join_js_split [of "CHR ''/''" r] by (simp add: ss)
  have nosl: "CHR ''/'' \<notin> set a" "CHR ''/'' \<notin> set b" "CHR ''/'' \<notin> set c"
    using js_split_parts_no_sep [of _ "CHR ''/''" r] by (auto simp: ss)
  have a: "show_int uid = a" using canonical_uid_iff [OF uid] by simp
  show "path = CHR ''/'' # key" by (simp add: path key r b a processMediaPrefix_def PROCESS_MEDIA_ROOT_def)
  have "ok_segment a" using uid nosl(1)
    by (auto simp: canonical_uid_def ok_segment_def is_digit_def split: if_splits)
  moreover have "ok_segment b" "ok_segment c"
    using pid base nosl by (simp_all add: b safe_segment_ok)
  ultimately have "list_all ok_segment [''var'', ''media'', a, b, c]" by (simp add: ok_segment_def)
  moreover have "path = ''/'' @ js_join ''/'' [''var'', ''media'', a, b, c]"
    by (simp add: path r PROCESS_MEDIA_ROOT_def)
  ultimately show "normal_path path" unfolding normal_path_def by blast
  show "\<exists>b. key = processMediaPrefix uid pid @ b \<and> isSafeSegment b \<and> isSafeSegment pid"
    using key pid base by blast
qed

lemma canonical_show:
  assumes "0 \<le> u" "u < 2 ^ 53"
  shows "canonical_uid (show_int u) = Some u"
  using assms show_nat_digits [of _ "nat u"] by (auto simp: canonical_uid_def show_int_def list_all_iff)

text \<open>Every key the process store writes has a path, and that path names that key again.\<close>

lemma media_key_round_trip:
  assumes "0 \<le> uid" "uid < 2 ^ 53" "ok_segment pid" "ok_segment base" "CHR 0x00 \<notin> set pid" "CHR 0x00 \<notin> set base"
  shows "parseProcessMediaPath (CHR ''/'' # processMediaPrefix uid pid @ base)
           = Some (MpFile uid pid (processMediaPrefix uid pid @ base))"
proof -
  have safe: "isSafeSegment pid" "isSafeSegment base"
    using assms by (simp_all add: isSafeSegment_def ok_segment_def)
  have nosl: "CHR ''/'' \<notin> set pid" "CHR ''/'' \<notin> set base" "CHR ''/'' \<notin> set (show_int uid)"
    using assms show_nat_digits [of "CHR ''/''" "nat uid"]
    by (auto simp: ok_segment_def show_int_def is_digit_def)
  have "js_split (CHR ''/'') (show_int uid @ CHR ''/'' # pid @ CHR ''/'' # base) = [show_int uid, pid, base]"
    by (simp add: js_split_append nosl js_split_no_sep)
  moreover have "canonical_uid (show_int uid) = Some uid" using assms(1,2) by (rule canonical_show)
  ultimately show ?thesis
    by (simp add: parseProcessMediaPath_def PROCESS_MEDIA_ROOT_def processMediaPrefix_def safe media_of_segments_def
        Let_def)
qed

lemma processMediaPath_iff:
  "processMediaPath key = Some p \<longleftrightarrow>
     p = CHR ''/'' # key \<and> (\<exists>uid pid. parseProcessMediaPath p = Some (MpFile uid pid key))"
  by (auto simp: processMediaPath_def Let_def split: option.splits media_path.splits)

end
