(* ===== verification/ObjectFiles.thy ===== *)
theory ObjectFiles
  imports Paths Base64
begin

text \<open>
  Files in the object store (\<open>R2MountBackend\<close> of \<open>fs/backends/r2.ts\<close>): a file is an object whose key is its
  normal path, with the owner, group and mode in its metadata; a directory is a key prefix, with or without
  a marker object. The object store is a service: its operations are the record \<open>bucket\<close>, and
  \<open>bucket_laws\<close> states its documented behaviour (a read after a write or a delete, and a listing by
  prefix, whose pages are read as one list). A content is the bytes of the object; decoding them and
  guessing a media type from a path are arguments. Times, etags, conditional reads and the streaming of
  bodies are left out. An operation runs as one step, so a change of an object between the check of its
  mode and the write is not considered.
\<close>

section \<open>The object store\<close>

record stored =
  ob_key :: string
  ob_content :: bytes
  ob_type :: "string option"
  ob_meta :: "(string \<times> string) list"

definition meta_of :: "stored \<Rightarrow> string \<Rightarrow> string option" where
  "meta_of o1 k = map_of (ob_meta o1) k"

definition meta_set :: "string \<Rightarrow> string \<Rightarrow> (string \<times> string) list \<Rightarrow> (string \<times> string) list" where
  "meta_set k v m = (k, v) # filter (\<lambda>e. fst e \<noteq> k) m"

record 's bucket =
  bk_get :: "'s \<Rightarrow> string \<Rightarrow> stored option"
  bk_put :: "stored \<Rightarrow> 's \<Rightarrow> 's"
  bk_delete :: "string list \<Rightarrow> 's \<Rightarrow> 's"
  bk_list :: "'s \<Rightarrow> string \<Rightarrow> stored list"

definition bucket_laws :: "'s bucket \<Rightarrow> bool" where
  "bucket_laws b \<longleftrightarrow>
     (\<forall>o1 s k. bk_get b (bk_put b o1 s) k = (if k = ob_key o1 then Some o1 else bk_get b s k))
     \<and> (\<forall>ks s k. bk_get b (bk_delete b ks s) k = (if k \<in> set ks then None else bk_get b s k))
     \<and> (\<forall>s k x. bk_get b s k = Some x \<longrightarrow> ob_key x = k)
     \<and> (\<forall>s pre. set (bk_list b s pre) = {x. bk_get b s (ob_key x) = Some x \<and> prefix pre (ob_key x)})"

section \<open>Modes\<close>

definition READ_BIT :: nat where "READ_BIT = 4"
definition WRITE_BIT :: nat where "WRITE_BIT = 2"
definition MAX_SEARCH_MATCHES :: nat where "MAX_SEARCH_MATCHES = 500"

definition quoted :: "string \<Rightarrow> string" where
  "quoted p = CHR 0x27 # p @ [CHR 0x27]"

definition toKey :: "string \<Rightarrow> string" where
  "toKey path = (case normalizePath path of CHR ''/'' # r \<Rightarrow> r | p \<Rightarrow> p)"

definition isDirectoryMarker :: "stored \<Rightarrow> bool" where
  "isDirectoryMarker o1 \<longleftrightarrow> meta_of o1 ''dirmarker'' = Some ''1'' \<or> suffix ''/.dir'' (ob_key o1)"

definition isSymlink :: "stored \<Rightarrow> bool" where
  "isSymlink o1 \<longleftrightarrow> meta_of o1 ''symlink'' = Some ''1''"

text \<open>A bit of a permission digit; the test \<open>NaN & bit\<close> is zero.\<close>

definition digit_has :: "nat option \<Rightarrow> nat \<Rightarrow> bool" where
  "digit_has d w \<longleftrightarrow> (case d of None \<Rightarrow> False | Some n \<Rightarrow> (n div w) mod 2 = 1)"

definition grants_bit :: "proc_identity \<Rightarrow> nat \<Rightarrow> stored \<Rightarrow> bool" where
  "grants_bit i w o1 \<longleftrightarrow>
     (if pi_uid i = 0 then True
      else
        (let mode = parseMode (coalesce (meta_of o1 ''mode'') ''644'');
             fileUid = parse_int (coalesce (meta_of o1 ''uid'') ''-1'');
             fileGid = parse_int (coalesce (meta_of o1 ''gid'') ''-1'')
         in if fileUid = Some (pi_uid i) then digit_has (md_owner mode) w
            else if fileGid \<in> Some ` set (pi_gids i) then digit_has (md_group mode) w
            else digit_has (md_other mode) w))"

definition assertMode :: "proc_identity \<Rightarrow> stored \<Rightarrow> nat \<Rightarrow> string \<Rightarrow> unit result" where
  "assertMode i o1 w path =
     (if grants_bit i w o1 then Inr () else throw (''EACCES: permission denied, '' @ quoted path))"

section \<open>Reading\<close>

definition r2_readFile :: "'s bucket \<Rightarrow> proc_identity \<Rightarrow> string \<Rightarrow> 's \<Rightarrow> bytes result" where
  "r2_readFile b i path s =
     (let p = normalizePath path in
      case bk_get b s (toKey p) of
        None \<Rightarrow> throw (''ENOENT: no such file or directory, open '' @ quoted p)
      | Some o1 \<Rightarrow>
          if isDirectoryMarker o1 then throw (''EISDIR: illegal operation on a directory, read '' @ quoted p)
          else if isSymlink o1
          then throw (''EINVAL: invalid argument, read '' @ quoted p @ '' is a symbolic link'')
          else bind_result (assertMode i o1 READ_BIT p) (\<lambda>_. Inr (ob_content o1)))"

definition r2_readFileBuffer :: "'s bucket \<Rightarrow> proc_identity \<Rightarrow> string \<Rightarrow> 's \<Rightarrow> bytes result" where
  "r2_readFileBuffer b i path s =
     (let p = normalizePath path in
      case bk_get b s (toKey p) of
        None \<Rightarrow> throw (''ENOENT: no such file or directory, open '' @ quoted p)
      | Some o1 \<Rightarrow>
          if isSymlink o1
          then throw (''EINVAL: invalid argument, read '' @ quoted p @ '' is a symbolic link'')
          else bind_result (assertMode i o1 READ_BIT p) (\<lambda>_. Inr (ob_content o1)))"

definition r2_exists :: "'s bucket \<Rightarrow> string \<Rightarrow> 's \<Rightarrow> bool" where
  "r2_exists b path s =
     (let key = toKey (normalizePath path)
      in bk_get b s key \<noteq> None \<or> bk_list b s (with_slash key) \<noteq> [])"

text \<open>What a stat tells: the kind, the mode as a number, the size and the owner. \<open>parseInt(mode, 8)\<close>
  reads the leading octal digits.\<close>

datatype file_kind = FkFile | FkDirectory | FkSymlink

record file_stat =
  fs_kind :: file_kind
  fs_mode :: "nat option"
  fs_size :: nat
  fs_uid :: "int option"
  fs_gid :: "int option"
  fs_type :: "string option"

definition parseOctalMode :: "string \<Rightarrow> nat option" where
  "parseOctalMode mode =
     (let ds = takeWhile (\<lambda>c. CHR ''0'' \<le> c \<and> c \<le> CHR ''7'') mode
      in if ds = [] then None else Some (foldl (\<lambda>a c. a * 8 + digit_val c) 0 ds))"

definition r2_lstat :: "'s bucket \<Rightarrow> string \<Rightarrow> 's \<Rightarrow> file_stat result" where
  "r2_lstat b path s =
     (let p = normalizePath path; key = toKey p in
      case bk_get b s key of
        Some o1 \<Rightarrow>
          (let uid = parse_int (coalesce (meta_of o1 ''uid'') ''0'');
               gid = parse_int (coalesce (meta_of o1 ''gid'') ''0'');
               mode = (\<lambda>d. parseOctalMode (coalesce (meta_of o1 ''mode'') d))
           in if isDirectoryMarker o1
              then Inr \<lparr>fs_kind = FkDirectory, fs_mode = mode ''755'', fs_size = 0, fs_uid = uid, fs_gid = gid, fs_type = None\<rparr>
              else if isSymlink o1
              then Inr \<lparr>fs_kind = FkSymlink, fs_mode = mode ''777'', fs_size = length (ob_content o1),
                        fs_uid = uid, fs_gid = gid, fs_type = None\<rparr>
              else Inr \<lparr>fs_kind = FkFile, fs_mode = mode ''644'', fs_size = length (ob_content o1),
                        fs_uid = uid, fs_gid = gid, fs_type = ob_type o1\<rparr>)
      | None \<Rightarrow>
          if bk_list b s (with_slash key) \<noteq> []
          then Inr \<lparr>fs_kind = FkDirectory, fs_mode = Some 493, fs_size = 0, fs_uid = Some 0, fs_gid = Some 0, fs_type = None\<rparr>
          else throw (''ENOENT: no such file or directory, stat '' @ quoted p))"

definition r2_readlink :: "'s bucket \<Rightarrow> (bytes \<Rightarrow> string) \<Rightarrow> string \<Rightarrow> 's \<Rightarrow> string result" where
  "r2_readlink b decode path s =
     (let p = normalizePath path in
      case bk_get b s (toKey p) of
        None \<Rightarrow> throw (''ENOENT: no such file or directory, readlink '' @ quoted p)
      | Some o1 \<Rightarrow>
          if \<not> isSymlink o1 then throw (''EINVAL: invalid argument, readlink '' @ quoted p)
          else Inr (decode (ob_content o1)))"

text \<open>A listing with the delimiter gives the objects directly below the prefix and the prefixes of the
  directories below it, each once.\<close>

definition listed_objects :: "string \<Rightarrow> stored list \<Rightarrow> stored list" where
  "listed_objects pre os = filter (\<lambda>x. CHR ''/'' \<notin> set (drop (length pre) (ob_key x))) os"

definition delimited_prefixes :: "string \<Rightarrow> stored list \<Rightarrow> string list" where
  "delimited_prefixes pre os =
     remdups (map (\<lambda>x. pre @ takeWhile (\<lambda>c. c \<noteq> CHR ''/'') (drop (length pre) (ob_key x)) @ ''/'')
       (filter (\<lambda>x. CHR ''/'' \<in> set (drop (length pre) (ob_key x))) os))"

definition r2_readdir :: "'s bucket \<Rightarrow> string \<Rightarrow> 's \<Rightarrow> string list result" where
  "r2_readdir b path s =
     (let p = normalizePath path;
          key = toKey p;
          pre = (if key \<noteq> [] then key @ ''/'' else []);
          os = bk_list b s pre;
          names = filter (\<lambda>n. n \<noteq> [] \<and> \<not> suffix ''/.dir'' n \<and> n \<noteq> ''.dir'')
                    (map (\<lambda>x. drop (length pre) (ob_key x)) (listed_objects pre os));
          dirs = filter (\<lambda>n. n \<noteq> [])
                   (map (\<lambda>d. strip_trailing_slashes (drop (length pre) d)) (delimited_prefixes pre os));
          entries = names @ dirs
      in if entries = [] \<and> \<not> r2_exists b path s
         then throw (''ENOENT: no such file or directory, scandir '' @ quoted p)
         else Inr (sort (remdups entries)))"

section \<open>Writing\<close>

definition file_meta :: "proc_identity \<Rightarrow> string \<Rightarrow> (string \<times> string) list" where
  "file_meta i mode =
     [(''uid'', show_int (pi_uid i)), (''gid'', show_int (pi_gid i)), (''mode'', mode)]"

definition r2_writeFile :: "'s bucket \<Rightarrow> (string \<Rightarrow> string) \<Rightarrow> proc_identity \<Rightarrow> string \<Rightarrow> bytes \<Rightarrow> string option
    \<Rightarrow> ('s, unit) action" where
  "r2_writeFile b infer i path content contentType s =
     (let p = normalizePath path; key = toKey p; existing = bk_get b s key in
      case (case existing of Some o1 \<Rightarrow> assertMode i o1 WRITE_BIT p | None \<Rightarrow> Inr ()) of
        Inl e \<Rightarrow> (s, Inl e)
      | Inr _ \<Rightarrow>
          (bk_put b \<lparr>ob_key = key, ob_content = content,
             ob_type = Some (if truthy contentType then the contentType else infer p),
             ob_meta = file_meta i (case existing of Some o1 \<Rightarrow> coalesce (meta_of o1 ''mode'') ''644'' | None \<Rightarrow> ''644'')\<rparr> s,
           Inr ()))"

text \<open>A stream is written with a fixed length: one that is longer or shorter than announced fails and
  leaves the old object.\<close>

definition r2_writeFileStream :: "'s bucket \<Rightarrow> (string \<Rightarrow> string) \<Rightarrow> proc_identity \<Rightarrow> string \<Rightarrow> bytes \<Rightarrow> json
    \<Rightarrow> string option \<Rightarrow> ('s, nat) action" where
  "r2_writeFileStream b infer i path content expectedSize contentType s =
     (case expectedSize of
        JNum (IntNum n) \<Rightarrow>
          if \<not> js_safe_integer (IntNum n) \<or> n < 0
          then (s, throw ''EINVAL: writeFileStream expectedSize must be a non-negative safe integer'')
          else
            (let p = normalizePath path; key = toKey p; existing = bk_get b s key in
             case (case existing of Some o1 \<Rightarrow> assertMode i o1 WRITE_BIT p | None \<Rightarrow> Inr ()) of
               Inl e \<Rightarrow> (s, Inl e)
             | Inr _ \<Rightarrow>
                 if int (length content) \<noteq> n then (s, throw ''FixedLengthStream'')
                 else
                   (bk_put b \<lparr>ob_key = key, ob_content = content, ob_type = Some (coalesce contentType (infer p)),
                      ob_meta = file_meta i (case existing of Some o1 \<Rightarrow> coalesce (meta_of o1 ''mode'') ''644'' | None \<Rightarrow> ''644'')\<rparr> s,
                    Inr (length content)))
      | _ \<Rightarrow> (s, throw ''EINVAL: writeFileStream expectedSize must be a non-negative safe integer''))"

definition r2_appendFile :: "'s bucket \<Rightarrow> (string \<Rightarrow> string) \<Rightarrow> proc_identity \<Rightarrow> string \<Rightarrow> bytes
    \<Rightarrow> ('s, unit) action" where
  "r2_appendFile b infer i path content s =
     (let p = normalizePath path; key = toKey p in
      case bk_get b s key of
        Some o1 \<Rightarrow>
          (case assertMode i o1 WRITE_BIT p of
             Inl e \<Rightarrow> (s, Inl e)
           | Inr _ \<Rightarrow> (bk_put b (o1\<lparr>ob_key := key, ob_content := ob_content o1 @ content\<rparr>) s, Inr ()))
      | None \<Rightarrow> r2_writeFile b infer i path content None s)"

definition dir_marker :: "string \<Rightarrow> string" where
  "dir_marker key = with_slash key @ ''.dir''"

definition r2_mkdir :: "'s bucket \<Rightarrow> proc_identity \<Rightarrow> string \<Rightarrow> bool \<Rightarrow> ('s, unit) action" where
  "r2_mkdir b i path recursive s =
     (let p = normalizePath path; key = toKey p;
          parentKey = js_join ''/'' (butlast (js_split (CHR ''/'') key))
      in if \<not> recursive \<and> parentKey \<noteq> [] \<and> \<not> r2_exists b (CHR ''/'' # parentKey) s
         then (s, throw (''ENOENT: no such file or directory, mkdir '' @ quoted p))
         else if bk_get b s (dir_marker key) \<noteq> None \<and> \<not> recursive
         then (s, throw (''EEXIST: file already exists, mkdir '' @ quoted p))
         else (bk_put b \<lparr>ob_key = dir_marker key, ob_content = [], ob_type = None,
                  ob_meta = meta_set ''dirmarker'' ''1'' (file_meta i ''755'')\<rparr> s, Inr ()))"

definition r2_rm :: "'s bucket \<Rightarrow> proc_identity \<Rightarrow> string \<Rightarrow> bool \<Rightarrow> bool \<Rightarrow> ('s, unit) action" where
  "r2_rm b i path recursive force s =
     (let p = normalizePath path; key = toKey p in
      case bk_get b s key of
        Some o1 \<Rightarrow>
          (case assertMode i o1 WRITE_BIT p of
             Inl e \<Rightarrow> (s, Inl e)
           | Inr _ \<Rightarrow> (bk_delete b [key] s, Inr ()))
      | None \<Rightarrow>
      (let dirPrefix = with_slash key; markerKey = dir_marker key; os = bk_list b s dirPrefix in
       case bk_get b s markerKey of
         Some marker \<Rightarrow>
           (case assertMode i marker WRITE_BIT p of
              Inl e \<Rightarrow> (s, Inl e)
            | Inr _ \<Rightarrow>
                if list_ex (\<lambda>x. ob_key x \<noteq> markerKey) os \<and> \<not> recursive
                then (s, throw (''ENOTEMPTY: directory not empty, rmdir '' @ quoted p))
                else (bk_delete b (if recursive then map ob_key os else [markerKey]) s, Inr ()))
       | None \<Rightarrow>
           if recursive then (bk_delete b (map ob_key os) s, Inr ())
           else if \<not> force then (s, throw (''ENOENT: no such file or directory, unlink '' @ quoted p))
           else (s, Inr ())))"

definition r2_symlink :: "'s bucket \<Rightarrow> (string \<Rightarrow> bytes) \<Rightarrow> proc_identity \<Rightarrow> string \<Rightarrow> string \<Rightarrow> ('s, unit) action" where
  "r2_symlink b encode i target linkPath s =
     (let p = normalizePath linkPath; key = toKey p in
      if bk_get b s key \<noteq> None then (s, throw (''EEXIST: file already exists, symlink '' @ quoted p))
      else (bk_put b \<lparr>ob_key = key, ob_content = encode target, ob_type = Some ''text/plain'',
               ob_meta = meta_set ''symlink'' ''1'' (file_meta i ''777'')\<rparr> s, Inr ()))"

text \<open>\<open>mode.toString(8).padStart(3, "0")\<close>\<close>

fun show_octal :: "nat \<Rightarrow> string" where
  "show_octal n = (if n < 8 then [digit_char n] else show_octal (n div 8) @ [digit_char (n mod 8)])"

declare show_octal.simps [simp del]

definition octal_mode :: "nat \<Rightarrow> string" where
  "octal_mode n = (let d = show_octal n in replicate (3 - length d) (CHR ''0'') @ d)"

definition r2_chmod :: "'s bucket \<Rightarrow> proc_identity \<Rightarrow> string \<Rightarrow> nat \<Rightarrow> ('s, unit) action" where
  "r2_chmod b i path mode s =
     (let p = normalizePath path; key = toKey p in
      case bk_get b s key of
        None \<Rightarrow> (s, throw (''ENOENT: no such file or directory, chmod '' @ quoted p))
      | Some o1 \<Rightarrow>
          if pi_uid i \<noteq> 0 \<and> parse_int (coalesce (meta_of o1 ''uid'') ''-1'') \<noteq> Some (pi_uid i)
          then (s, throw (''EPERM: operation not permitted, chmod '' @ quoted p))
          else (bk_put b (o1\<lparr>ob_key := key, ob_meta := meta_set ''mode'' (octal_mode mode) (ob_meta o1)\<rparr>) s, Inr ()))"

definition r2_chown :: "'s bucket \<Rightarrow> proc_identity \<Rightarrow> string \<Rightarrow> int option \<Rightarrow> int option \<Rightarrow> ('s, unit) action" where
  "r2_chown b i path newUid newGid s =
     (let p = normalizePath path; key = toKey p in
      case bk_get b s key of
        None \<Rightarrow> (s, throw (''ENOENT: no such file or directory, chown '' @ quoted p))
      | Some o1 \<Rightarrow>
          if pi_uid i \<noteq> 0 then (s, throw (''EPERM: operation not permitted, chown '' @ quoted p))
          else
            (let m1 = (case newUid of Some u \<Rightarrow> meta_set ''uid'' (show_int u) (ob_meta o1) | None \<Rightarrow> ob_meta o1);
                 m2 = (case newGid of Some g \<Rightarrow> meta_set ''gid'' (show_int g) m1 | None \<Rightarrow> m1)
             in (bk_put b (o1\<lparr>ob_key := key, ob_meta := m2\<rparr>) s, Inr ())))"

definition r2_utimes :: "'s bucket \<Rightarrow> string \<Rightarrow> 's \<Rightarrow> unit result" where
  "r2_utimes b path s =
     (let p = normalizePath path in
      if bk_get b s (toKey p) = None then throw (''ENOENT: no such file or directory, utimes '' @ quoted p)
      else Inr ())"


section \<open>Searching\<close>

text \<open>\<open>matchGlob\<close>: the pattern matches the path, or a part of it after a slash, to its end. A star stands for
  any characters and a question mark for one, other than line ends.\<close>

definition glob_char :: "char \<Rightarrow> bool" where
  "glob_char c \<longleftrightarrow> c \<noteq> CHR 0x0A \<and> c \<noteq> CHR 0x0D"

fun glob_at :: "string \<Rightarrow> string \<Rightarrow> bool" where
  "glob_at [] t \<longleftrightarrow> t = []"
| "glob_at (x # p) [] \<longleftrightarrow> x = CHR ''*'' \<and> glob_at p []"
| "glob_at (x # p) (c # t) \<longleftrightarrow>
     (if x = CHR ''*'' then glob_at p (c # t) \<or> (glob_char c \<and> glob_at (x # p) t)
      else if x = CHR ''?'' then glob_char c \<and> glob_at p t
      else c = x \<and> glob_at p t)"

fun after_slashes :: "string \<Rightarrow> string list" where
  "after_slashes [] = []"
| "after_slashes (c # r) = (if c = CHR ''/'' then [r] else []) @ after_slashes r"

definition matchGlob :: "string \<Rightarrow> string \<Rightarrow> bool" where
  "matchGlob pat path \<longleftrightarrow> list_ex (glob_at pat) (path # after_slashes path)"

record search_match =
  sm_path :: string
  sm_line :: nat
  sm_content :: string

definition line_matches :: "string \<Rightarrow> string \<Rightarrow> string \<Rightarrow> search_match list" where
  "line_matches displayPath query content =
     map (\<lambda>(n, l). \<lparr>sm_path = displayPath, sm_line = n + 1, sm_content = l\<rparr>)
       (filter (\<lambda>(n, l). sublist query l) (enumerate 0 (js_split (CHR 0x0A) content)))"

text \<open>The matches of one object are added until the limit is reached; the flag says that it was.\<close>

definition add_matches :: "search_match list \<Rightarrow> search_match list \<Rightarrow> search_match list \<times> bool" where
  "add_matches matches new =
     (let taken = take (MAX_SEARCH_MATCHES - length matches) new; result = matches @ taken
      in (result, taken \<noteq> [] \<and> length result \<ge> MAX_SEARCH_MATCHES))"

definition searchObject :: "(bytes \<Rightarrow> string) \<Rightarrow> (string \<Rightarrow> bool) \<Rightarrow> proc_identity \<Rightarrow> string \<Rightarrow> string option
    \<Rightarrow> string \<Rightarrow> bool \<Rightarrow> stored \<Rightarrow> search_match list \<Rightarrow> (search_match list \<times> bool) result" where
  "searchObject decode isText i displayPath incl query throwOnDenied o1 matches =
     (if truthy incl \<and> \<not> matchGlob (the incl) (ob_key o1) then Inr (matches, False)
      else if isSymlink o1
      then (if throwOnDenied
            then throw (''EINVAL: invalid argument, search '' @ quoted displayPath @ '' is a symbolic link'')
            else Inr (matches, False))
      else case assertMode i o1 READ_BIT displayPath of
        Inl e \<Rightarrow> if throwOnDenied then Inl e else Inr (matches, False)
      | Inr _ \<Rightarrow>
          if \<not> isText (if truthy (ob_type o1) then the (ob_type o1) else ''text/plain'') then Inr (matches, False)
          else Inr (add_matches matches (line_matches displayPath query (decode (ob_content o1)))))"

fun search_objects :: "(bytes \<Rightarrow> string) \<Rightarrow> (string \<Rightarrow> bool) \<Rightarrow> proc_identity \<Rightarrow> string option \<Rightarrow> string
    \<Rightarrow> stored list \<Rightarrow> search_match list \<Rightarrow> (search_match list \<times> bool) result" where
  "search_objects decode isText i incl query [] matches = Inr (matches, False)"
| "search_objects decode isText i incl query (x # os) matches =
     (if (truthy incl \<and> \<not> matchGlob (the incl) (ob_key x)) \<or> isDirectoryMarker x \<or> isSymlink x
      then search_objects decode isText i incl query os matches
      else case searchObject decode isText i (CHR ''/'' # ob_key x) None query False x matches of
        Inl e \<Rightarrow> Inl e
      | Inr (ms, truncated) \<Rightarrow>
          if truncated then Inr (ms, True) else search_objects decode isText i incl query os ms)"

definition r2_search :: "'s bucket \<Rightarrow> (bytes \<Rightarrow> string) \<Rightarrow> (string \<Rightarrow> bool) \<Rightarrow> proc_identity \<Rightarrow> string \<Rightarrow> string
    \<Rightarrow> string option \<Rightarrow> 's \<Rightarrow> (search_match list \<times> bool) result" where
  "r2_search b decode isText i path query incl s =
     (let pre = normalizePath path; key = toKey pre; searchPrefix = with_slash pre;
          direct = (if key \<noteq> [] then bk_get b s key else None)
      in case direct of
           Some o1 \<Rightarrow>
             if \<not> isDirectoryMarker o1
             then searchObject decode isText i pre incl query True o1 []
             else search_objects decode isText i incl query
                    (bk_list b s (if searchPrefix = ''/'' then [] else drop 1 searchPrefix)) []
         | None \<Rightarrow>
             search_objects decode isText i incl query
               (bk_list b s (if searchPrefix = ''/'' then [] else drop 1 searchPrefix)) [])"


section \<open>Laws at work\<close>

lemma toKey_normalize [simp]: "toKey (normalizePath p) = toKey p"
  by (simp add: toKey_def)

lemma bucket_put [simp]:
  "bucket_laws b \<Longrightarrow> bk_get b (bk_put b o1 s) k = (if k = ob_key o1 then Some o1 else bk_get b s k)"
  unfolding bucket_laws_def by blast

lemma bucket_delete [simp]:
  "bucket_laws b \<Longrightarrow> bk_get b (bk_delete b ks s) k = (if k \<in> set ks then None else bk_get b s k)"
  unfolding bucket_laws_def by blast

lemma bucket_key: "bucket_laws b \<Longrightarrow> bk_get b s k = Some x \<Longrightarrow> ob_key x = k"
  unfolding bucket_laws_def by blast

lemma bucket_listed [simp]:
  assumes "bucket_laws b"
  shows "x \<in> set (bk_list b s pre) \<longleftrightarrow> bk_get b s (ob_key x) = Some x \<and> prefix pre (ob_key x)"
proof -
  have "set (bk_list b s pre) = {x. bk_get b s (ob_key x) = Some x \<and> prefix pre (ob_key x)}"
    using assms unfolding bucket_laws_def by blast
  then show ?thesis by simp
qed

lemma assertMode_iff [simp]: "assertMode i o1 w p = Inr u \<longleftrightarrow> grants_bit i w o1"
  by (simp add: assertMode_def)

lemma assertMode_Inl: "assertMode i o1 w p = Inl e \<Longrightarrow> \<not> grants_bit i w o1"
  by (auto simp: assertMode_def split: if_splits)

lemma map_of_meta_set [simp]: "map_of (meta_set k v m) k' = (if k' = k then Some v else map_of m k')"
  by (induction m) (auto simp: meta_set_def)

lemma file_meta_simps [simp]:
  "map_of (file_meta i m) ''uid'' = Some (show_int (pi_uid i))"
  "map_of (file_meta i m) ''gid'' = Some (show_int (pi_gid i))"
  "map_of (file_meta i m) ''mode'' = Some m" "map_of (file_meta i m) ''symlink'' = None"
  "map_of (file_meta i m) ''dirmarker'' = None"
  by (simp_all add: file_meta_def)

lemma meta_of_simps [simp]:
  "meta_of (o1\<lparr>ob_key := k\<rparr>) = meta_of o1" "meta_of (o1\<lparr>ob_content := c\<rparr>) = meta_of o1"
  "meta_of (o1\<lparr>ob_meta := m\<rparr>) a = map_of m a"
  "meta_of \<lparr>ob_key = k, ob_content = c, ob_type = t, ob_meta = m\<rparr> a = map_of m a"
  "map_of (ob_meta o1) a = meta_of o1 a"
  by (auto simp: meta_of_def fun_eq_iff)

section \<open>Reads stay within the modes\<close>

lemma read_granted:
  "r2_readFile b i path s = Inr c \<Longrightarrow>
     \<exists>o1. bk_get b s (toKey path) = Some o1 \<and> grants_bit i READ_BIT o1 \<and> c = ob_content o1"
  "r2_readFileBuffer b i path s = Inr c \<Longrightarrow>
     \<exists>o1. bk_get b s (toKey path) = Some o1 \<and> grants_bit i READ_BIT o1 \<and> c = ob_content o1"
  by (auto simp: r2_readFile_def r2_readFileBuffer_def Let_def assertMode_def split: option.splits if_splits)

definition found_in :: "(bytes \<Rightarrow> string) \<Rightarrow> proc_identity \<Rightarrow> string \<Rightarrow> (string \<Rightarrow> stored option) \<Rightarrow> search_match \<Rightarrow> bool" where
  "found_in decode i query files m \<longleftrightarrow>
     (\<exists>k o1. sm_path m = CHR ''/'' # k \<and> files k = Some o1 \<and> grants_bit i READ_BIT o1
        \<and> sm_content m \<in> set (js_split (CHR 0x0A) (decode (ob_content o1))) \<and> sublist query (sm_content m))"

lemma line_matches_in:
  "m \<in> set (line_matches p query content) \<Longrightarrow>
     sm_path m = p \<and> sm_content m \<in> set (js_split (CHR 0x0A) content) \<and> sublist query (sm_content m)"
  by (auto simp: line_matches_def in_set_enumerate_eq)

lemma add_matches_in:
  "fst (add_matches ms new) = ms @ take (MAX_SEARCH_MATCHES - length ms) new"
  by (simp add: add_matches_def Let_def)

lemma searchObject_found:
  assumes "searchObject decode isText i p incl query deny o1 ms = Inr (ms', tr)"
  shows "length ms \<le> MAX_SEARCH_MATCHES \<Longrightarrow> length ms' \<le> MAX_SEARCH_MATCHES"
    and "m \<in> set ms' \<Longrightarrow> m \<notin> set ms \<Longrightarrow> grants_bit i READ_BIT o1 \<and> sm_path m = p
       \<and> sm_content m \<in> set (js_split (CHR 0x0A) (decode (ob_content o1))) \<and> sublist query (sm_content m)"
proof -
  let ?new = "line_matches p query (decode (ob_content o1))"
  have "ms' = ms \<or> (grants_bit i READ_BIT o1 \<and> ms' = ms @ take (MAX_SEARCH_MATCHES - length ms) ?new)"
    using assms by (auto simp: searchObject_def add_matches_def Let_def assertMode_def split: if_splits)
  then show "length ms \<le> MAX_SEARCH_MATCHES \<Longrightarrow> length ms' \<le> MAX_SEARCH_MATCHES"
    and "m \<in> set ms' \<Longrightarrow> m \<notin> set ms \<Longrightarrow> grants_bit i READ_BIT o1 \<and> sm_path m = p
       \<and> sm_content m \<in> set (js_split (CHR 0x0A) (decode (ob_content o1))) \<and> sublist query (sm_content m)"
    by (auto dest!: in_set_takeD line_matches_in)
qed

lemma search_objects_found:
  assumes "search_objects decode isText i incl query os ms = Inr (ms', tr)"
    and "list_all (\<lambda>x. files (ob_key x) = Some x) os"
    and "length ms \<le> MAX_SEARCH_MATCHES" "list_all (found_in decode i query files) ms"
  shows "length ms' \<le> MAX_SEARCH_MATCHES \<and> list_all (found_in decode i query files) ms'"
  using assms
proof (induction decode isText i incl query os ms rule: search_objects.induct)
  case (2 decode isText i incl query x os ms)
  let ?skip = "(truthy incl \<and> \<not> matchGlob (the incl) (ob_key x)) \<or> isDirectoryMarker x \<or> isSymlink x"
  show ?case
  proof (cases ?skip)
    case True
    then show ?thesis using 2 by auto
  next
    case False
    then obtain ms1 tr1 where r: "searchObject decode isText i (CHR ''/'' # ob_key x) None query False x ms = Inr (ms1, tr1)"
      using "2.prems"(1) by (auto split: sum.splits)
    have ok: "length ms1 \<le> MAX_SEARCH_MATCHES \<and> list_all (found_in decode i query files) ms1"
      using searchObject_found [OF r] "2.prems" by (auto simp: list_all_iff found_in_def)
    show ?thesis
    proof (cases tr1)
      case True
      then show ?thesis using "2.prems"(1) False r ok by auto
    next
      case notr: False
      then have "search_objects decode isText i incl query os ms1 = Inr (ms', tr)"
        using "2.prems"(1) False r by auto
      then show ?thesis using "2.IH"(2) [OF False r refl] notr ok "2.prems"(2) by auto
    qed
  qed
qed auto

lemma search_granted:
  assumes laws: "bucket_laws b" and r: "r2_search b decode isText i path query incl s = Inr (ms, tr)"
  shows "length ms \<le> MAX_SEARCH_MATCHES" and "list_all (found_in decode i query (bk_get b s)) ms"
proof -
  let ?f = "bk_get b s"
  have dir: "length ms \<le> MAX_SEARCH_MATCHES \<and> list_all (found_in decode i query ?f) ms"
    if "search_objects decode isText i incl query (bk_list b s pre) [] = Inr (ms, tr)" for pre
    using that by (rule search_objects_found) (use laws in \<open>auto simp: list_all_iff\<close>)
  have one: "length ms \<le> MAX_SEARCH_MATCHES \<and> list_all (found_in decode i query ?f) ms"
    if o1: "?f (toKey path) = Some o1" "toKey path \<noteq> []"
      and so: "searchObject decode isText i (normalizePath path) incl query True o1 [] = Inr (ms, tr)" for o1
  proof -
    have "normalizePath path = CHR ''/'' # toKey path" by (simp add: toKey_def normalizePath_def)
    then show ?thesis using searchObject_found [OF so] o1
      by (auto simp: list_all_iff found_in_def)
  qed
  have "length ms \<le> MAX_SEARCH_MATCHES \<and> list_all (found_in decode i query ?f) ms"
    using r dir one by (auto simp: r2_search_def Let_def split: option.splits if_splits)
  then show "length ms \<le> MAX_SEARCH_MATCHES" and "list_all (found_in decode i query ?f) ms" by auto
qed


section \<open>Writes stay within the modes\<close>

datatype file_op =
    FoWrite string bytes "string option"
  | FoStream string bytes json "string option"
  | FoAppend string bytes
  | FoMkdir string bool
  | FoRm string bool bool
  | FoSymlink string string
  | FoChmod string nat
  | FoChown string "int option" "int option"

record platform =
  pf_infer :: "string \<Rightarrow> string"
  pf_encode :: "string \<Rightarrow> bytes"

fun file_step :: "'s bucket \<Rightarrow> platform \<Rightarrow> proc_identity \<times> file_op \<Rightarrow> 's \<Rightarrow> 's" where
  "file_step b pf (i, FoWrite p c t) s = fst (r2_writeFile b (pf_infer pf) i p c t s)"
| "file_step b pf (i, FoStream p c n t) s = fst (r2_writeFileStream b (pf_infer pf) i p c n t s)"
| "file_step b pf (i, FoAppend p c) s = fst (r2_appendFile b (pf_infer pf) i p c s)"
| "file_step b pf (i, FoMkdir p r) s = fst (r2_mkdir b i p r s)"
| "file_step b pf (i, FoRm p r f) s = fst (r2_rm b i p r f s)"
| "file_step b pf (i, FoSymlink t l) s = fst (r2_symlink b (pf_encode pf) i t l s)"
| "file_step b pf (i, FoChmod p m) s = fst (r2_chmod b i p m s)"
| "file_step b pf (i, FoChown p u g) s = fst (r2_chown b i p u g s)"

text \<open>The object is protected from a caller: neither root nor its owner, and without the write bit.\<close>

definition protected_from :: "stored \<Rightarrow> proc_identity \<Rightarrow> bool" where
  "protected_from o1 i \<longleftrightarrow>
     \<not> grants_bit i WRITE_BIT o1 \<and> parse_int (coalesce (meta_of o1 ''uid'') ''-1'') \<noteq> Some (pi_uid i)"

fun removes_tree :: "string \<Rightarrow> file_op \<Rightarrow> bool" where
  "removes_tree k (FoRm p r f) \<longleftrightarrow> r \<and> prefix (with_slash (toKey p)) k"
| "removes_tree k _ \<longleftrightarrow> False"

lemma protected_not_root: "protected_from o1 i \<Longrightarrow> pi_uid i \<noteq> 0"
  by (auto simp: protected_from_def grants_bit_def)

lemma protected_step:
  assumes laws: "bucket_laws b" and o1: "bk_get b s k = Some o1" and nm: "\<not> suffix ''/.dir'' k"
    and prot: "protected_from o1 i" and nt: "\<not> removes_tree k op"
  shows "bk_get b (file_step b pf (i, op) s) k = Some o1"
proof -
  have key: "ob_key o1 = k" using laws o1 by (rule bucket_key)
  have nw: "\<not> grants_bit i WRITE_BIT o1" and no: "parse_int (coalesce (meta_of o1 ''uid'') ''-1'') \<noteq> Some (pi_uid i)"
    using prot by (simp_all add: protected_from_def)
  have root: "pi_uid i \<noteq> 0" using prot by (rule protected_not_root)
  have marker: "dir_marker q \<noteq> k" for q
    using nm by (auto simp: dir_marker_def with_slash_def suffix_def)
  note defs = Let_def assertMode_def laws o1 key nw no root marker marker [symmetric]
  have write_ok: "bk_get b (fst (r2_writeFile b (pf_infer pf) i p c t s)) k = Some o1" for p c t
    by (cases "toKey p = k") (auto simp: r2_writeFile_def defs split: option.splits)
  show ?thesis
  proof (cases op)
    case (FoWrite p c t)
    then show ?thesis using write_ok by simp
  next
    case (FoStream p c n t)
    then show ?thesis
      by (cases "toKey p = k") (auto simp: r2_writeFileStream_def defs split: option.splits json.splits js_number.splits)
  next
    case (FoAppend p c)
    then show ?thesis using write_ok [of p c None]
      by (cases "toKey p = k") (auto simp: r2_appendFile_def defs split: option.splits)
  next
    case (FoMkdir p r)
    then show ?thesis by (auto simp: r2_mkdir_def defs)
  next
    case (FoRm p r f)
    show ?thesis
    proof (cases "toKey p = k")
      case True
      with FoRm show ?thesis by (simp add: r2_rm_def defs)
    next
      case False
      have "k \<notin> ob_key ` set (bk_list b s (with_slash (toKey p)))" if r
        using nt FoRm that laws by auto
      then show ?thesis using FoRm False
        by (auto simp: r2_rm_def defs split: option.splits)
    qed
  next
    case (FoSymlink t l)
    then show ?thesis by (cases "toKey l = k") (auto simp: r2_symlink_def defs)
  next
    case (FoChmod p m)
    then show ?thesis by (cases "toKey p = k") (auto simp: r2_chmod_def defs split: option.splits)
  next
    case (FoChown p u g)
    then show ?thesis by (cases "toKey p = k") (auto simp: r2_chown_def defs split: option.splits)
  qed
qed

text \<open>
  C14. A file that a caller may not write, and does not own, is left as it is, content, owner and mode, by every
  sequence of file operations of such callers, except by the recursive removal of a directory above it.
\<close>

theorem protected_file_stays:
  assumes "bucket_laws b" and "bk_get b s k = Some o1" and "\<not> suffix ''/.dir'' k"
    and "list_all (\<lambda>(i, op). protected_from o1 i \<and> \<not> removes_tree k op) ops"
  shows "bk_get b (fold (file_step b pf) ops s) k = Some o1"
  using assms(2,4)
proof (induction ops arbitrary: s)
  case (Cons e ops)
  obtain i op where e: "e = (i, op)" by (cases e)
  then have "bk_get b (file_step b pf e s) k = Some o1"
    using Cons.prems protected_step [OF assms(1) _ assms(3), of s o1 i op pf] by simp
  with Cons.IH Cons.prems(2) show ?case by simp
qed simp


text \<open>
  Whatever a read or a search of the object files gives a caller comes from files whose mode lets the
  caller read, and a search stops at its limit.
\<close>

theorem file_reads_respect_modes:
  assumes "bucket_laws b"
  shows "(r2_readFile b i path s = Inr c \<or> r2_readFileBuffer b i path s = Inr c \<longrightarrow>
           (\<exists>o1. bk_get b s (toKey path) = Some o1 \<and> grants_bit i READ_BIT o1 \<and> c = ob_content o1))
    \<and> (r2_search b decode isText i path query incl s = Inr (ms, tr) \<longrightarrow>
           length ms \<le> 500 \<and> list_all (found_in decode i query (bk_get b s)) ms)"
  using read_granted [of b i path s c] search_granted [OF assms, of decode isText i path query incl s ms tr]
  by (auto simp: MAX_SEARCH_MATCHES_def)

section \<open>A file reads back\<close>

lemma write_result:
  assumes "r2_writeFile b infer i path c t s = (s', Inr u)"
  shows "\<exists>ct m. s' = bk_put b \<lparr>ob_key = toKey path, ob_content = c, ob_type = ct, ob_meta = file_meta i m\<rparr> s
    \<and> m = (case bk_get b s (toKey path) of Some o1 \<Rightarrow> coalesce (meta_of o1 ''mode'') ''644'' | None \<Rightarrow> ''644'')"
  using assms by (auto simp: r2_writeFile_def Let_def split: option.splits sum.splits)

lemma owner_grants:
  "meta_of o1 = map_of (file_meta i m) \<Longrightarrow> digit_has (md_owner (parseMode m)) w \<or> pi_uid i = 0 \<Longrightarrow> grants_bit i w o1"
  by (auto simp: grants_bit_def Let_def)

lemma owner_644: "digit_has (md_owner (parseMode ''644'')) READ_BIT"
  by code_simp

lemma owner_755: "digit_has (md_owner (parseMode ''755'')) WRITE_BIT"
  by code_simp

definition keeps_owner_read :: "stored option \<Rightarrow> bool" where
  "keeps_owner_read e \<longleftrightarrow>
     (case e of None \<Rightarrow> True
      | Some o1 \<Rightarrow> digit_has (md_owner (parseMode (coalesce (meta_of o1 ''mode'') ''644''))) READ_BIT)"

text \<open>
  C35. What a caller wrote reads back under every spelling of the path, unless the file existed with a mode
  that keeps its owner from reading.
\<close>

theorem written_file_reads_back:
  assumes "bucket_laws b" and "r2_writeFile b infer i path c t s = (s', Inr ())"
    and "\<not> suffix ''/.dir'' (toKey path)" and "keeps_owner_read (bk_get b s (toKey path))"
    and "normalizePath path' = normalizePath path"
  shows "r2_readFile b i path' s' = Inr c"
proof -
  have key: "toKey path' = toKey path" using assms(5) toKey_normalize by metis
  let ?m = "case bk_get b s (toKey path) of Some o1 \<Rightarrow> coalesce (meta_of o1 ''mode'') ''644'' | None \<Rightarrow> ''644''"
  obtain ct where s': "s' = bk_put b \<lparr>ob_key = toKey path, ob_content = c, ob_type = ct, ob_meta = file_meta i ?m\<rparr> s"
    using write_result [OF assms(2)] by auto
  have "digit_has (md_owner (parseMode ?m)) READ_BIT"
    using assms(4) owner_644 by (auto simp: keeps_owner_read_def split: option.splits)
  then have "grants_bit i READ_BIT \<lparr>ob_key = toKey path, ob_content = c, ob_type = ct, ob_meta = file_meta i ?m\<rparr>"
    by (intro owner_grants disjI1) (simp_all add: fun_eq_iff)
  then show ?thesis
    using assms(1,3,5) by (simp add: r2_readFile_def s' key isDirectoryMarker_def isSymlink_def assertMode_def)
qed

section \<open>Changing a mode\<close>

lemma octal_digits:
  assumes "n < 512"
  shows "octal_mode n = [digit_char (n div 64), digit_char (n div 8 mod 8), digit_char (n mod 8)]"
proof -
  have zero: "CHR ''0'' = char_of (48::nat)" by code_simp
  consider "n < 8" | "8 \<le> n" "n < 64" | "64 \<le> n" "n < 512" using assms by linarith
  then show ?thesis
  proof cases
    case 1
    then show ?thesis by (simp add: octal_mode_def show_octal.simps [of n] digit_char_def numeral_2_eq_2 zero)
  next
    case 2
    then have "n div 8 < 8" "n div 64 = 0" by auto
    with 2 show ?thesis by (simp add: octal_mode_def show_octal.simps [of n] show_octal.simps [of "n div 8"] digit_char_def zero)
  next
    case 3
    then have "n div 8 div 8 < 8" "n div 8 div 8 = n div 64" "\<not> n div 8 < 8" by (auto simp: div_mult2_eq [symmetric])
    with 3 show ?thesis
      by (simp add: octal_mode_def show_octal.simps [of n] show_octal.simps [of "n div 8"] show_octal.simps [of "n div 64"])
  qed
qed

lemma parse_digit_char: "n < 10 \<Longrightarrow> parse_digit (digit_char n) = Some n"
  by (simp add: parse_digit_def)

lemma parseMode_octal:
  assumes "n < 512"
  shows "parseMode (octal_mode n) = \<lparr>md_owner = Some (n div 64), md_group = Some (n div 8 mod 8), md_other = Some (n mod 8)\<rparr>"
  using assms by (simp add: octal_digits parseMode_def mode_tail_def parse_digit_char)

lemma chmod_result:
  assumes "bucket_laws b" "r2_chmod b i path mode s = (s', Inr u)"
  shows "\<exists>o1. bk_get b s (toKey path) = Some o1
    \<and> (pi_uid i = 0 \<or> parse_int (coalesce (meta_of o1 ''uid'') ''-1'') = Some (pi_uid i))
    \<and> s' = bk_put b (o1\<lparr>ob_key := toKey path, ob_meta := meta_set ''mode'' (octal_mode mode) (ob_meta o1)\<rparr>) s"
  using assms(2) by (auto simp: r2_chmod_def Let_def split: option.splits if_splits)

text \<open>
  A successful chmod was made by the owner or root, and afterwards the file is readable and writable
  by its owner, its group and everyone else as the digits of the mode say, while root always is.
\<close>

theorem chmod_takes_effect:
  assumes "bucket_laws b" and "r2_chmod b i path mode s = (s', Inr ())" and "mode < 512"
  shows "\<exists>o1 o2. bk_get b s (toKey path) = Some o1 \<and> bk_get b s' (toKey path) = Some o2
    \<and> ob_content o2 = ob_content o1
    \<and> (pi_uid i = 0 \<or> parse_int (coalesce (meta_of o1 ''uid'') ''-1'') = Some (pi_uid i))
    \<and> (\<forall>j w. grants_bit j w o2 \<longleftrightarrow>
         (pi_uid j = 0
          \<or> (if parse_int (coalesce (meta_of o1 ''uid'') ''-1'') = Some (pi_uid j) then mode div 64 div w mod 2 = 1
             else if parse_int (coalesce (meta_of o1 ''gid'') ''-1'') \<in> Some ` set (pi_gids j)
             then mode div 8 mod 8 div w mod 2 = 1
             else mode mod 8 div w mod 2 = 1)))"
proof -
  obtain o1 where o1: "bk_get b s (toKey path) = Some o1"
    "pi_uid i = 0 \<or> parse_int (coalesce (meta_of o1 ''uid'') ''-1'') = Some (pi_uid i)"
    and s': "s' = bk_put b (o1\<lparr>ob_key := toKey path, ob_meta := meta_set ''mode'' (octal_mode mode) (ob_meta o1)\<rparr>) s"
    using chmod_result [OF assms(1,2)] by auto
  let ?o2 = "o1\<lparr>ob_key := toKey path, ob_meta := meta_set ''mode'' (octal_mode mode) (ob_meta o1)\<rparr>"
  have "bk_get b s' (toKey path) = Some ?o2" using assms(1) by (simp add: s')
  moreover have "grants_bit j w ?o2 \<longleftrightarrow>
         (pi_uid j = 0
          \<or> (if parse_int (coalesce (meta_of o1 ''uid'') ''-1'') = Some (pi_uid j) then mode div 64 div w mod 2 = 1
             else if parse_int (coalesce (meta_of o1 ''gid'') ''-1'') \<in> Some ` set (pi_gids j)
             then mode div 8 mod 8 div w mod 2 = 1
             else mode mod 8 div w mod 2 = 1))" for j w
    by (simp add: grants_bit_def parseMode_octal [OF assms(3)] digit_has_def)
  ultimately show ?thesis using o1 by (intro exI [of _ o1] exI [of _ ?o2]) simp
qed

section \<open>Removing a tree\<close>

lemma delete_listed:
  assumes laws: "bucket_laws b" and pre: "prefix pre k"
  shows "bk_get b (bk_delete b (map ob_key (bk_list b s pre)) s) k = None"
proof (cases "bk_get b s k")
  case None
  then show ?thesis by (simp add: bucket_delete [OF laws])
next
  case (Some x)
  have "ob_key x = k" using laws Some by (rule bucket_key)
  with Some pre have "x \<in> set (bk_list b s pre)" by (simp add: bucket_listed [OF laws])
  with \<open>ob_key x = k\<close> have "k \<in> set (map ob_key (bk_list b s pre))" by force
  then show ?thesis by (simp only: bucket_delete [OF laws] if_True)
qed

text \<open>
  Removing a directory recursively asks neither the modes nor the owners of the files in it: after making the
  directory anew any caller removes it with everything below, whoever owns that.
\<close>

theorem anyone_removes_a_tree:
  assumes laws: "bucket_laws b" and "bk_get b s (toKey path) = None"
    and "prefix (with_slash (toKey path)) k"
  shows "case r2_rm b i path True force (fst (r2_mkdir b i path True s)) of
           (s', r) \<Rightarrow> r = Inr () \<and> bk_get b s' k = None"
proof -
  let ?marker = "\<lparr>ob_key = dir_marker (toKey path), ob_content = [], ob_type = None,
                  ob_meta = meta_set ''dirmarker'' ''1'' (file_meta i ''755'')\<rparr>"
  let ?s = "bk_put b ?marker s"
  have mk: "fst (r2_mkdir b i path True s) = ?s" by (simp add: r2_mkdir_def)
  have ne: "dir_marker (toKey path) \<noteq> toKey path" by (auto simp: dir_marker_def with_slash_def)
  have g: "grants_bit i WRITE_BIT ?marker" using owner_755 by (simp add: grants_bit_def Let_def)
  have rm: "r2_rm b i path True force ?s
      = (bk_delete b (map ob_key (bk_list b ?s (with_slash (toKey path)))) ?s, Inr ())"
    using laws assms(2) ne g by (simp add: r2_rm_def Let_def assertMode_def)
  show ?thesis using delete_listed [OF laws assms(3), of ?s] by (simp only: mk rm prod.case simp_thms)
qed

section \<open>Witnesses\<close>

text \<open>A store kept as a list of objects obeys the laws.\<close>

definition list_bucket :: "stored list bucket" where
  "list_bucket =
     \<lparr>bk_get = sql_lookup ob_key, bk_put = (\<lambda>o1 s. sql_replace ob_key o1 s),
      bk_delete = (\<lambda>ks s. sql_delete (\<lambda>x. ob_key x \<in> set ks) s),
      bk_list = (\<lambda>s pre. filter (\<lambda>x. sql_lookup ob_key s (ob_key x) = Some x \<and> prefix pre (ob_key x)) s)\<rparr>"

lemma lookup_delete_set:
  "sql_lookup key (sql_delete (\<lambda>x. key x \<in> set ks) s) k = (if k \<in> set ks then None else sql_lookup key s k)"
  by (induction s) (auto simp: sql_lookup_def sql_delete_def)

lemma list_bucket_laws [simp]: "bucket_laws list_bucket"
  unfolding bucket_laws_def list_bucket_def
  by (auto simp: lookup_replace lookup_delete_set dest: lookup_Some)

definition ann :: proc_identity where
  "ann = \<lparr>pi_uid = 1000, pi_gid = 1000, pi_gids = [1000, 100], pi_username = ''ann'', pi_home = ''/home/ann'', pi_cwd = ''/home/ann''\<rparr>"

definition bob :: proc_identity where
  "bob = \<lparr>pi_uid = 1001, pi_gid = 1001, pi_gids = [1001, 100], pi_username = ''bob'', pi_home = ''/home/bob'', pi_cwd = ''/home/bob''\<rparr>"

definition ann_file :: stored where
  "ann_file = \<lparr>ob_key = ''lib/a'', ob_content = [1, 2], ob_type = Some ''text/plain'', ob_meta = file_meta ann ''640''\<rparr>"

lemma file_reads_respect_modes_witness:
  "bucket_laws list_bucket \<and> r2_readFile list_bucket ann ''/lib/a'' [ann_file] = Inr [1, 2]
   \<and> (\<exists>o1. bk_get list_bucket [ann_file] (toKey ''/lib/a'') = Some o1 \<and> grants_bit ann READ_BIT o1 \<and> [1, 2] = ob_content o1)"
proof -
  have "r2_readFile list_bucket ann ''/lib/a'' [ann_file] = Inr [1, 2]" by code_simp
  with file_reads_respect_modes [OF list_bucket_laws, of ann "''/lib/a''" "[ann_file]" "[1, 2]"]
  show ?thesis by simp
qed

lemma protected_file_stays_witness:
  "bk_get list_bucket (fold (file_step list_bucket \<lparr>pf_infer = id, pf_encode = (\<lambda>_. [])\<rparr>)
     [(bob, FoWrite ''/lib/a'' [9] None), (bob, FoMkdir ''/lib'' True), (bob, FoRm ''/lib/a'' False True),
      (bob, FoChmod ''/lib/a'' 511)] [ann_file]) ''lib/a'' = Some ann_file"
proof -
  have "list_all (\<lambda>(i, op). protected_from ann_file i \<and> \<not> removes_tree ''lib/a'' op)
     [(bob, FoWrite ''/lib/a'' [9] None), (bob, FoMkdir ''/lib'' True), (bob, FoRm ''/lib/a'' False True),
      (bob, FoChmod ''/lib/a'' 511)]" by code_simp
  moreover have "bk_get list_bucket [ann_file] ''lib/a'' = Some ann_file" by code_simp
  moreover have "\<not> suffix ''/.dir'' ''lib/a''" by code_simp
  ultimately show ?thesis by (rule protected_file_stays [OF list_bucket_laws, rotated 2])
qed

lemma written_file_reads_back_witness:
  "r2_readFile list_bucket ann ''/lib/../tmp/./x'' (fst (r2_writeFile list_bucket id ann ''/tmp/x'' [7] None [ann_file])) = Inr [7]"
proof -
  have "snd (r2_writeFile list_bucket id ann ''/tmp/x'' [7] None [ann_file]) = Inr ()" by code_simp
  then have "r2_writeFile list_bucket id ann ''/tmp/x'' [7] None [ann_file]
      = (fst (r2_writeFile list_bucket id ann ''/tmp/x'' [7] None [ann_file]), Inr ())" by (metis prod.collapse)
  moreover have "\<not> suffix ''/.dir'' (toKey ''/tmp/x'')" by code_simp
  moreover have "keeps_owner_read (bk_get list_bucket [ann_file] (toKey ''/tmp/x''))" by code_simp
  moreover have "normalizePath ''/lib/../tmp/./x'' = normalizePath ''/tmp/x''" by code_simp
  ultimately show ?thesis by (rule written_file_reads_back [OF list_bucket_laws])
qed

lemma anyone_removes_a_tree_witness:
  "protected_from ann_file bob \<and>
   bk_get list_bucket (fst (r2_rm list_bucket bob ''/lib'' True False (fst (r2_mkdir list_bucket bob ''/lib'' True [ann_file])))) ''lib/a'' = None"
proof -
  have "bk_get list_bucket [ann_file] (toKey ''/lib'') = None" by code_simp
  moreover have "prefix (with_slash (toKey ''/lib'')) ''lib/a''" by code_simp
  moreover have "protected_from ann_file bob" by code_simp
  ultimately show ?thesis
    using anyone_removes_a_tree [OF list_bucket_laws, of "[ann_file]" "''/lib''" "''lib/a''" bob False]
    by (simp add: split_beta)
qed

end
