(* ===== verification/FileTree.thy ===== *)
theory FileTree
  imports ObjectFiles
begin

text \<open>
  The file system a process sees (\<open>GsvFs\<close> of \<open>fs/gsv-fs.ts\<close>): every path goes to one backend, and symbolic
  links are followed before the backend is asked. A backend is the record of its operations over the state
  of the world, with the optional ones as options. The backends modelled are the object store
  (\<open>ObjectFiles\<close>), the read-only view of process media (\<open>fs/backends/process-media.ts\<close>) and the gate in
  front of the account homes (\<open>fs/backends/account-home.ts\<close>); what a home serves once the gate is passed
  (ripgit with the object store below it), the kernel views and the repository sources are arguments.
\<close>

section \<open>Backends\<close>

record 's backend =
  be_handles :: "string \<Rightarrow> bool"
  be_readFile :: "string \<Rightarrow> 's \<Rightarrow> bytes result"
  be_readFileBuffer :: "string \<Rightarrow> 's \<Rightarrow> bytes result"
  be_writeFile :: "string \<Rightarrow> bytes \<Rightarrow> string option \<Rightarrow> ('s, unit) action"
  be_appendFile :: "string \<Rightarrow> bytes \<Rightarrow> ('s, unit) action"
  be_exists :: "string \<Rightarrow> 's \<Rightarrow> bool result"
  be_stat :: "string \<Rightarrow> 's \<Rightarrow> file_stat result"
  be_lstat :: "(string \<Rightarrow> 's \<Rightarrow> file_stat result) option"
  be_mkdir :: "string \<Rightarrow> bool \<Rightarrow> ('s, unit) action"
  be_readdir :: "string \<Rightarrow> 's \<Rightarrow> string list result"
  be_rm :: "string \<Rightarrow> bool \<Rightarrow> bool \<Rightarrow> ('s, unit) action"
  be_symlink :: "(string \<Rightarrow> string \<Rightarrow> ('s, unit) action) option"
  be_readlink :: "(string \<Rightarrow> 's \<Rightarrow> string result) option"
  be_search :: "(string \<Rightarrow> string \<Rightarrow> string option \<Rightarrow> 's \<Rightarrow> (search_match list \<times> bool) result) option"
  be_chmod :: "(string \<Rightarrow> nat \<Rightarrow> ('s, unit) action) option"
  be_chown :: "(string \<Rightarrow> int option \<Rightarrow> int option \<Rightarrow> ('s, unit) action) option"
  be_utimes :: "(string \<Rightarrow> 's \<Rightarrow> unit result) option"

definition r2_backend :: "'s bucket \<Rightarrow> platform \<Rightarrow> (bytes \<Rightarrow> string) \<Rightarrow> (string \<Rightarrow> bool) \<Rightarrow> proc_identity \<Rightarrow> 's backend" where
  "r2_backend b pf decode isText i =
     \<lparr>be_handles = (\<lambda>_. True), be_readFile = r2_readFile b i, be_readFileBuffer = r2_readFileBuffer b i,
      be_writeFile = r2_writeFile b (pf_infer pf) i, be_appendFile = r2_appendFile b (pf_infer pf) i,
      be_exists = (\<lambda>p s. Inr (r2_exists b p s)), be_stat = r2_lstat b, be_lstat = Some (r2_lstat b),
      be_mkdir = r2_mkdir b i, be_readdir = r2_readdir b, be_rm = r2_rm b i,
      be_symlink = Some (r2_symlink b (pf_encode pf) i), be_readlink = Some (r2_readlink b decode),
      be_search = Some (r2_search b decode isText i), be_chmod = Some (r2_chmod b i),
      be_chown = Some (r2_chown b i), be_utimes = Some (r2_utimes b)\<rparr>"

section \<open>Process media\<close>

definition ROOT_IDENTITY :: proc_identity where
  "ROOT_IDENTITY = \<lparr>pi_uid = 0, pi_gid = 0, pi_gids = [0], pi_username = ''root'', pi_home = ''/root'', pi_cwd = ''/root''\<rparr>"

text \<open>The viewer: the caller's identity, its process and the table of processes, when there is a kernel.\<close>

record viewer =
  vw_identity :: proc_identity
  vw_procs :: "process_row list option"
  vw_selfPid :: "string option"

definition media_viewerOwnerUid :: "viewer \<Rightarrow> int" where
  "media_viewerOwnerUid v =
     (case vw_procs v of
        Some t \<Rightarrow> if truthy (vw_selfPid v)
                  then coalesce (getOwnerUid t (the (vw_selfPid v))) (pi_uid (vw_identity v))
                  else pi_uid (vw_identity v)
      | None \<Rightarrow> pi_uid (vw_identity v))"

definition media_canViewProcess :: "viewer \<Rightarrow> process_record \<Rightarrow> int \<Rightarrow> bool" where
  "media_canViewProcess v p ownerUid \<longleftrightarrow>
     pi_uid (vw_identity v) = 0 \<or> Some (rc_processId p) = vw_selfPid v \<or> rc_ownerUid p = ownerUid"

definition visibleProcess :: "viewer \<Rightarrow> int \<Rightarrow> string \<Rightarrow> process_record option" where
  "visibleProcess v uid pid =
     (case vw_procs v of
        None \<Rightarrow> None
      | Some t \<Rightarrow>
          (case process_get t pid of
             None \<Rightarrow> None
           | Some p \<Rightarrow> if rc_uid p \<noteq> uid then None
                       else if media_canViewProcess v p (media_viewerOwnerUid v) then Some p else None))"

definition visibleProcesses :: "viewer \<Rightarrow> int option \<Rightarrow> process_record list" where
  "visibleProcesses v uid =
     (case vw_procs v of
        None \<Rightarrow> []
      | Some t \<Rightarrow>
          (let ownerUid = media_viewerOwnerUid v;
               ok = (\<lambda>r. (uid = None \<or> uid = Some (rc_uid r)) \<and> media_canViewProcess v r ownerUid);
               records = (if pi_uid (vw_identity v) = 0 then process_list t None else process_list t (Some ownerUid));
               visible = filter ok records
           in if truthy (vw_selfPid v) \<and> \<not> list_ex (\<lambda>r. Some (rc_processId r) = vw_selfPid v) visible
              then (case process_get t (the (vw_selfPid v)) of
                      Some self \<Rightarrow> if ok self then visible @ [self] else visible
                    | None \<Rightarrow> visible)
              else visible))"

definition notFoundError :: "string \<Rightarrow> string \<Rightarrow> 'a result" where
  "notFoundError operation path =
     throw (''ENOENT: no such file or directory, '' @ operation @ '' '' @ quoted (normalizePath path))"

definition readOnlyError :: "string \<Rightarrow> string \<Rightarrow> 'a result" where
  "readOnlyError operation path =
     throw (''EROFS: read-only file system, '' @ operation @ '' '' @ quoted (normalizePath path))"

definition requireVisibleFile :: "viewer \<Rightarrow> string \<Rightarrow> unit result" where
  "requireVisibleFile v path =
     (case parseProcessMediaPath path of
        None \<Rightarrow> notFoundError ''open'' path
      | Some (MpFile uid pid key) \<Rightarrow>
          if visibleProcess v uid pid = None then notFoundError ''open'' path else Inr ()
      | Some _ \<Rightarrow> throw (''EISDIR: illegal operation on a directory, read '' @ quoted path))"

definition directoryStat :: "int \<Rightarrow> int \<Rightarrow> file_stat" where
  "directoryStat uid gid =
     \<lparr>fs_kind = FkDirectory, fs_mode = Some 320, fs_size = 0, fs_uid = Some uid, fs_gid = Some gid, fs_type = None\<rparr>"

definition media_exists :: "'s bucket \<Rightarrow> viewer \<Rightarrow> string \<Rightarrow> 's \<Rightarrow> bool result" where
  "media_exists b v path s =
     Inr (case parseProcessMediaPath (normalizePath path) of
            None \<Rightarrow> False
          | Some MpRoot \<Rightarrow> True
          | Some (MpUid uid) \<Rightarrow> visibleProcesses v (Some uid) \<noteq> []
          | Some (MpProcess uid pid) \<Rightarrow> visibleProcess v uid pid \<noteq> None
          | Some (MpFile uid pid key) \<Rightarrow> visibleProcess v uid pid \<noteq> None \<and> bk_get b s key \<noteq> None)"

definition media_stat :: "'s bucket \<Rightarrow> viewer \<Rightarrow> string \<Rightarrow> 's \<Rightarrow> file_stat result" where
  "media_stat b v path s =
     (let normalized = normalizePath path in
      case parseProcessMediaPath normalized of
        None \<Rightarrow> notFoundError ''stat'' normalized
      | Some MpRoot \<Rightarrow> Inr (directoryStat 0 0)
      | Some (MpUid uid) \<Rightarrow>
          (case visibleProcesses v (Some uid) of
             [] \<Rightarrow> notFoundError ''stat'' normalized
           | r # _ \<Rightarrow> Inr (directoryStat uid (rc_gid r)))
      | Some (MpProcess uid pid) \<Rightarrow>
          (case visibleProcess v uid pid of
             None \<Rightarrow> notFoundError ''stat'' normalized
           | Some p \<Rightarrow> Inr (directoryStat (rc_uid p) (rc_gid p)))
      | Some (MpFile uid pid key) \<Rightarrow>
          (case visibleProcess v uid pid of
             None \<Rightarrow> notFoundError ''stat'' normalized
           | Some p \<Rightarrow>
               (case bk_get b s key of
                  None \<Rightarrow> notFoundError ''stat'' normalized
                | Some o1 \<Rightarrow> Inr \<lparr>fs_kind = FkFile, fs_mode = Some 256, fs_size = length (ob_content o1),
                                  fs_uid = Some (rc_uid p), fs_gid = Some (rc_gid p), fs_type = ob_type o1\<rparr>)))"

definition media_readdir :: "'s bucket \<Rightarrow> viewer \<Rightarrow> string \<Rightarrow> 's \<Rightarrow> string list result" where
  "media_readdir b v path s =
     (let normalized = normalizePath path in
      case parseProcessMediaPath normalized of
        None \<Rightarrow> notFoundError ''scandir'' normalized
      | Some MpRoot \<Rightarrow>
          Inr (map show_int (sort (remdups (map rc_uid (visibleProcesses v None)))))
      | Some (MpUid uid) \<Rightarrow>
          (let pids = sort (map rc_processId (visibleProcesses v (Some uid)))
           in if pids = [] then notFoundError ''scandir'' normalized else Inr pids)
      | Some (MpProcess uid pid) \<Rightarrow>
          (case visibleProcess v uid pid of
             None \<Rightarrow> notFoundError ''scandir'' normalized
           | Some p \<Rightarrow>
               (let pre = processMediaPrefix (rc_uid p) (rc_processId p);
                    names = map (\<lambda>x. drop (length pre) (ob_key x)) (bk_list b s pre)
                in Inr (sort (remdups (filter (\<lambda>n. n \<noteq> [] \<and> CHR ''/'' \<notin> set n) names)))))
      | Some (MpFile uid pid key) \<Rightarrow>
          (if visibleProcess v uid pid = None then notFoundError ''scandir'' normalized
           else if bk_get b s key \<noteq> None then throw (''ENOTDIR: not a directory, scandir '' @ quoted normalized)
           else notFoundError ''scandir'' normalized))"

definition media_read :: "(string \<Rightarrow> 's \<Rightarrow> bytes result) \<Rightarrow> viewer \<Rightarrow> string \<Rightarrow> 's \<Rightarrow> bytes result" where
  "media_read raw v path s =
     (let normalized = normalizePath path in
      bind_result (requireVisibleFile v normalized) (\<lambda>_. raw normalized s))"

definition media_backend :: "'s bucket \<Rightarrow> viewer \<Rightarrow> 's backend" where
  "media_backend b v =
     \<lparr>be_handles = (\<lambda>p. isProcessMediaPath (normalizePath p)),
      be_readFile = media_read (r2_readFile b ROOT_IDENTITY) v,
      be_readFileBuffer = media_read (r2_readFileBuffer b ROOT_IDENTITY) v,
      be_writeFile = (\<lambda>p c t s. (s, readOnlyError ''open'' p)),
      be_appendFile = (\<lambda>p c s. (s, readOnlyError ''open'' p)),
      be_exists = media_exists b v, be_stat = media_stat b v, be_lstat = Some (media_stat b v),
      be_mkdir = (\<lambda>p r s. (s, readOnlyError ''mkdir'' p)),
      be_readdir = media_readdir b v,
      be_rm = (\<lambda>p r f s. (s, readOnlyError ''unlink'' p)),
      be_symlink = Some (\<lambda>t l s. (s, readOnlyError ''symlink'' l)), be_readlink = None, be_search = None,
      be_chmod = Some (\<lambda>p m s. (s, readOnlyError ''chmod'' p)),
      be_chown = Some (\<lambda>p u g s. (s, readOnlyError ''chown'' p)),
      be_utimes = Some (\<lambda>p s. readOnlyError ''utimes'' p)\<rparr>"


section \<open>Account homes\<close>

text \<open>\<open>AccountHomeMountBackend\<close> serves the home of one account; what it serves is an argument, a backend for
  each identity, and only the paths it handles are written out.\<close>

definition accountHome_handles :: "proc_identity \<Rightarrow> string \<Rightarrow> bool" where
  "accountHome_handles i path \<longleftrightarrow>
     (let normalized = normalizePath path; home = normalizePath (pi_home i)
      in normalized = home \<or> prefix (home @ ''/'') normalized)"

record home_view =
  hv_identity :: proc_identity
  hv_auth :: auth_db
  hv_ownerUid :: int
  hv_isRoot :: bool

definition home_delegate :: "home_view \<Rightarrow> string \<Rightarrow> proc_identity option" where
  "home_delegate hv path =
     (let normalized = normalizePath path; viewer = hv_identity hv in
      if accountHome_handles viewer normalized then Some viewer
      else case homeUsernameFromPath normalized of
        None \<Rightarrow> None
      | Some username \<Rightarrow>
          if username = pi_username viewer then None
          else if \<not> canOwnerAccessAccountHome (hv_auth hv) (hv_ownerUid hv) (pi_username viewer) username (hv_isRoot hv)
          then None
          else case getPasswdByUsername (hv_auth hv) username of
            None \<Rightarrow> None
          | Some e \<Rightarrow>
              (let ident = accountIdentity (hv_auth hv) e
               in if accountHome_handles ident normalized then Some ident else None))"

definition isAccountHomeReservedPath :: "string \<Rightarrow> bool" where
  "isAccountHomeReservedPath path \<longleftrightarrow>
     (let normalized = normalizePath path
      in homeUsernameFromPath normalized \<noteq> None \<or> normalized = ''/root'' \<or> prefix ''/root/'' normalized)"

definition homeNamespaceName :: "proc_identity \<Rightarrow> string option" where
  "homeNamespaceName i =
     (if normalizePath (pi_home i) = ''/home/'' @ pi_username i then Some (pi_username i) else None)"

definition visibleHomeNamespaceNames :: "home_view \<Rightarrow> string list" where
  "visibleHomeNamespaceNames hv =
     (let own = (case homeNamespaceName (hv_identity hv) of Some n \<Rightarrow> if n \<noteq> [] then [n] else [] | None \<Rightarrow> []);
          others = map pw_username (filter (\<lambda>e. normalizePath (pw_home e) = ''/home/'' @ pw_username e
                     \<and> canOwnerAccessAccountHome (hv_auth hv) (hv_ownerUid hv) (pi_username (hv_identity hv))
                         (pw_username e) (hv_isRoot hv)) (getPasswdEntries (hv_auth hv)))
      in sort (remdups (own @ others)))"

definition homeNamespaceStat :: file_stat where
  "homeNamespaceStat =
     \<lparr>fs_kind = FkDirectory, fs_mode = Some 493, fs_size = 0, fs_uid = Some 0, fs_gid = Some 0, fs_type = None\<rparr>"

text \<open>The gate: \<open>/home\<close> itself is virtual, everything else goes to the home of the account that handles it.\<close>

definition through_home :: "home_view \<Rightarrow> (proc_identity \<Rightarrow> 's backend) \<Rightarrow> string \<Rightarrow> ('s backend \<Rightarrow> 'r result) \<Rightarrow> 'r result" where
  "through_home hv homes path f =
     (case home_delegate hv path of
        None \<Rightarrow> throw (''ENOENT: no such file or directory, open '' @ quoted (normalizePath path))
      | Some ident \<Rightarrow> f (homes ident))"

definition act_home :: "home_view \<Rightarrow> (proc_identity \<Rightarrow> 's backend) \<Rightarrow> string \<Rightarrow> ('s backend \<Rightarrow> ('s, unit) action) \<Rightarrow> ('s, unit) action" where
  "act_home hv homes path f s =
     (case home_delegate hv path of
        None \<Rightarrow> (s, throw (''ENOENT: no such file or directory, open '' @ quoted (normalizePath path)))
      | Some ident \<Rightarrow> f (homes ident) s)"

text \<open>Searching \<open>/home\<close> searches every visible home; a match is kept once, by its path, line and content.\<close>

definition match_key :: "search_match \<Rightarrow> string" where
  "match_key m = sm_path m @ '':'' @ show_nat (sm_line m) @ '':'' @ sm_content m"

definition put_match :: "search_match \<Rightarrow> search_match list \<Rightarrow> search_match list" where
  "put_match m ms =
     (if list_ex (\<lambda>x. match_key x = match_key m) ms
      then map (\<lambda>x. if match_key x = match_key m then m else x) ms
      else ms @ [m])"

fun searchHomeRoot :: "(string \<Rightarrow> (search_match list \<times> bool) result) \<Rightarrow> string list \<Rightarrow> search_match list \<Rightarrow> bool
    \<Rightarrow> (search_match list \<times> bool) result" where
  "searchHomeRoot srch [] ms tr = Inr (ms, tr)"
| "searchHomeRoot srch (n # ns) ms tr =
     bind_result (srch (''/home/'' @ n)) (\<lambda>(found, t). searchHomeRoot srch ns (fold put_match found ms) (tr \<or> t))"

definition search_home :: "home_view \<Rightarrow> (proc_identity \<Rightarrow> 's backend) \<Rightarrow> string \<Rightarrow> string \<Rightarrow> string option \<Rightarrow> 's
    \<Rightarrow> (search_match list \<times> bool) result" where
  "search_home hv homes path query incl s =
     through_home hv homes path (\<lambda>be. case be_search be of
         Some f \<Rightarrow> f path query incl s
       | None \<Rightarrow> throw (''ENOSYS: search is unavailable for '' @ quoted path))"

definition home_backend :: "home_view \<Rightarrow> (proc_identity \<Rightarrow> 's backend) \<Rightarrow> 's backend" where
  "home_backend hv homes =
     (let norm = normalizePath; isRoot = (\<lambda>p. norm p = ''/home'');
          virtual = (\<lambda>operation p s. (s, throw (''EPERM: cannot '' @ operation @ '' virtual home root '' @ quoted (norm p))));
          unsupported = (\<lambda>operation p s. (s, throw (''ENOSYS: '' @ operation @ '' is unavailable for '' @ quoted (norm p))))
      in
      \<lparr>be_handles = (\<lambda>p. isRoot p \<or> home_delegate hv (norm p) \<noteq> None),
       be_readFile = (\<lambda>p s. if isRoot p then throw (''EISDIR: illegal operation on a directory, read '' @ quoted (norm p))
          else through_home hv homes (norm p) (\<lambda>be. be_readFile be (norm p) s)),
       be_readFileBuffer = (\<lambda>p s. if isRoot p then throw (''EISDIR: illegal operation on a directory, read '' @ quoted (norm p))
          else through_home hv homes (norm p) (\<lambda>be. be_readFileBuffer be (norm p) s)),
       be_writeFile = (\<lambda>p c t s. if isRoot p then (s, throw (''EISDIR: illegal operation on a directory, write '' @ quoted (norm p)))
          else act_home hv homes (norm p) (\<lambda>be. be_writeFile be (norm p) c t) s),
       be_appendFile = (\<lambda>p c s. if isRoot p then (s, throw (''EISDIR: illegal operation on a directory, write '' @ quoted (norm p)))
          else act_home hv homes (norm p) (\<lambda>be. be_appendFile be (norm p) c) s),
       be_exists = (\<lambda>p s. if isRoot p then Inr True else through_home hv homes (norm p) (\<lambda>be. be_exists be (norm p) s)),
       be_stat = (\<lambda>p s. if isRoot p then Inr homeNamespaceStat
          else through_home hv homes (norm p) (\<lambda>be. be_stat be (norm p) s)),
       be_lstat = Some (\<lambda>p s. if isRoot p then Inr homeNamespaceStat
          else through_home hv homes (norm p) (\<lambda>be. case be_lstat be of
                 Some f \<Rightarrow> f (norm p) s | None \<Rightarrow> be_stat be (norm p) s)),
       be_mkdir = (\<lambda>p r s. if isRoot p
          then (s, if r then Inr () else throw (''EEXIST: file already exists, mkdir '' @ quoted (norm p)))
          else act_home hv homes (norm p) (\<lambda>be. be_mkdir be (norm p) r) s),
       be_readdir = (\<lambda>p s. if isRoot p then Inr (visibleHomeNamespaceNames hv)
          else through_home hv homes (norm p) (\<lambda>be. be_readdir be (norm p) s)),
       be_rm = (\<lambda>p r f s. if isRoot p then (s, throw (''EPERM: cannot remove virtual home root '' @ quoted (norm p)))
          else act_home hv homes (norm p) (\<lambda>be. be_rm be (norm p) r f) s),
       be_symlink = Some (\<lambda>t l s. if isRoot l then (s, throw (''EEXIST: file already exists, symlink '' @ quoted (norm l)))
          else act_home hv homes (norm l) (\<lambda>be. case be_symlink be of Some f \<Rightarrow> f t (norm l)
                 | None \<Rightarrow> (\<lambda>s. (s, throw (''ENOSYS: symlink is unavailable for '' @ quoted (norm l))))) s),
       be_readlink = Some (\<lambda>p s. if isRoot p then throw (''EINVAL: invalid argument, readlink '' @ quoted (norm p))
          else through_home hv homes (norm p) (\<lambda>be. case be_readlink be of Some f \<Rightarrow> f (norm p) s
                 | None \<Rightarrow> throw (''ENOSYS: readlink is unavailable for '' @ quoted (norm p)))),
       be_search = Some (\<lambda>p query incl s. if isRoot p
          then searchHomeRoot (\<lambda>q. search_home hv homes q query incl s) (visibleHomeNamespaceNames hv) [] False
          else search_home hv homes (norm p) query incl s),
       be_chmod = Some (\<lambda>p m s. if isRoot p then virtual ''chmod'' p s else unsupported ''chmod'' p s),
       be_chown = Some (\<lambda>p u g s. if isRoot p then virtual ''chown'' p s else unsupported ''chown'' p s),
       be_utimes = Some (\<lambda>p s. if isRoot p then snd (virtual ''utimes'' p s) else snd (unsupported ''utimes'' p s))\<rparr>)"

section \<open>The tree\<close>

record 's file_tree =
  ft_identity :: proc_identity
  ft_kernel :: bool
  ft_r2 :: "'s backend"
  ft_kernelBackend :: "'s backend"
  ft_media :: "'s backend"
  ft_source :: "'s backend option"
  ft_home :: "'s backend option"

definition isProcessSourcePath :: "string \<Rightarrow> bool" where
  "isProcessSourcePath path \<longleftrightarrow>
     (let normalized = normalizePath path in normalized = ''/src'' \<or> prefix ''/src/'' normalized)"

definition backendForPath :: "'s file_tree \<Rightarrow> string \<Rightarrow> 's backend result" where
  "backendForPath ft path =
     (if isProcessMediaPath path then Inr (ft_media ft)
      else if isProcessSourcePath path
      then (case ft_source ft of
              None \<Rightarrow> throw (''ENOSYS: source backend is unavailable for '' @ quoted path)
            | Some be \<Rightarrow> Inr be)
      else if (case ft_home ft of Some h \<Rightarrow> be_handles h path | None \<Rightarrow> False) then Inr (the (ft_home ft))
      else if ft_home ft \<noteq> None \<and> isAccountHomeReservedPath path
      then throw (''EACCES: permission denied, '' @ quoted (normalizePath path))
      else if be_handles (ft_kernelBackend ft) path then Inr (ft_kernelBackend ft)
      else Inr (ft_r2 ft))"

definition stat_link :: "'s backend \<Rightarrow> string \<Rightarrow> 's \<Rightarrow> file_stat result" where
  "stat_link be path s = (case be_lstat be of Some f \<Rightarrow> f path s | None \<Rightarrow> be_stat be path s)"

definition MAX_SYMLINK_DEPTH :: nat where "MAX_SYMLINK_DEPTH = 16"

definition resolveSymlinkTarget :: "string \<Rightarrow> string \<Rightarrow> string" where
  "resolveSymlinkTarget linkPath target =
     (if prefix ''/'' target then normalizePath target
      else let joined = js_join ''/'' (butlast (js_split (CHR ''/'') linkPath))
           in normalizePath ((if joined = [] then ''/'' else joined) @ ''/'' @ target))"

text \<open>One walk down a path: it ends at the path, at a component that cannot be examined, at a link to follow, or
  with an error.\<close>

datatype walk_end = WkDone string | WkMissing js_error | WkLink string "string list" | WkThrow js_error

fun walk_path :: "'s file_tree \<Rightarrow> 's \<Rightarrow> string \<Rightarrow> string list \<Rightarrow> walk_end" where
  "walk_path ft s current [] = WkDone current"
| "walk_path ft s current (part # rest) =
     (let cur = normalizePath (current @ ''/'' @ part) in
      case backendForPath ft cur of
        Inl e \<Rightarrow> WkThrow e
      | Inr be \<Rightarrow>
          (case stat_link be cur s of
             Inl e \<Rightarrow> WkMissing e
           | Inr st \<Rightarrow>
               if fs_kind st = FkSymlink
               then (case be_readlink be of
                       None \<Rightarrow> WkThrow (Error (''EINVAL: invalid symbolic link '' @ quoted cur))
                     | Some rl \<Rightarrow>
                         (case rl cur s of
                            Inl e \<Rightarrow> WkThrow e
                          | Inr target \<Rightarrow> WkLink (resolveSymlinkTarget cur target) rest))
               else walk_path ft s cur rest))"

text \<open>The argument \<open>n\<close> counts the walks that are left: \<open>MAX_SYMLINK_DEPTH + 1\<close> less the depth.\<close>

fun resolve_walks :: "'s file_tree \<Rightarrow> bool \<Rightarrow> 's \<Rightarrow> nat \<Rightarrow> string \<Rightarrow> string result" where
  "resolve_walks ft allowMissing s n path =
     (let normalized = normalizePath path in
      if (case ft_home ft of Some h \<Rightarrow> isAccountHomeReservedPath normalized \<and> \<not> be_handles h normalized | None \<Rightarrow> False)
      then throw (''EACCES: permission denied, '' @ quoted normalized)
      else case n of
        0 \<Rightarrow> throw (''ELOOP: too many symbolic links, '' @ quoted path)
      | Suc m \<Rightarrow>
          (let parts = path_segments normalized in
           case walk_path ft s ''/'' parts of
             WkDone p \<Rightarrow> Inr p
           | WkMissing e \<Rightarrow> if allowMissing then Inr (normalizePath (''/'' @ js_join ''/'' parts)) else Inl e
           | WkThrow e \<Rightarrow> Inl e
           | WkLink target rest \<Rightarrow>
               resolve_walks ft allowMissing s m (if rest \<noteq> [] then target @ ''/'' @ js_join ''/'' rest else target)))"

declare resolve_walks.simps [simp del]

definition resolveFinalPath :: "'s file_tree \<Rightarrow> bool \<Rightarrow> 's \<Rightarrow> string \<Rightarrow> string result" where
  "resolveFinalPath ft allowMissing s path = resolve_walks ft allowMissing s (MAX_SYMLINK_DEPTH + 1) path"


section \<open>The operations\<close>

definition on_final :: "'s file_tree \<Rightarrow> string \<Rightarrow> 's \<Rightarrow> ('s backend \<Rightarrow> string \<Rightarrow> 'r result) \<Rightarrow> 'r result" where
  "on_final ft path s f =
     bind_result (resolveFinalPath ft False s path) (\<lambda>p. bind_result (backendForPath ft p) (\<lambda>be. f be p))"

definition act_final :: "'s file_tree \<Rightarrow> bool \<Rightarrow> string \<Rightarrow> ('s backend \<Rightarrow> string \<Rightarrow> ('s, 'r) action) \<Rightarrow> ('s, 'r) action" where
  "act_final ft allowMissing path f s =
     (case bind_result (resolveFinalPath ft allowMissing s path) (\<lambda>p. bind_result (backendForPath ft p) (\<lambda>be. Inr (be, p))) of
        Inl e \<Rightarrow> (s, Inl e)
      | Inr (be, p) \<Rightarrow> f be p s)"

definition act_at :: "'s file_tree \<Rightarrow> string \<Rightarrow> ('s backend \<Rightarrow> string \<Rightarrow> ('s, 'r) action) \<Rightarrow> ('s, 'r) action" where
  "act_at ft path f s =
     (let p = normalizePath path in
      case backendForPath ft p of Inl e \<Rightarrow> (s, Inl e) | Inr be \<Rightarrow> f be p s)"

definition unsupported_op :: "string \<Rightarrow> string \<Rightarrow> ('s, 'r) action" where
  "unsupported_op operation p s = (s, throw (''ENOSYS: '' @ operation @ '' not supported for '' @ quoted p))"

definition gsv_readFile :: "'s file_tree \<Rightarrow> string \<Rightarrow> 's \<Rightarrow> bytes result" where
  "gsv_readFile ft path s = on_final ft path s (\<lambda>be p. be_readFile be p s)"

definition gsv_readFileBuffer :: "'s file_tree \<Rightarrow> string \<Rightarrow> 's \<Rightarrow> bytes result" where
  "gsv_readFileBuffer ft path s = on_final ft path s (\<lambda>be p. be_readFileBuffer be p s)"

definition gsv_writeFile :: "'s file_tree \<Rightarrow> string \<Rightarrow> bytes \<Rightarrow> string option \<Rightarrow> ('s, unit) action" where
  "gsv_writeFile ft path content contentType =
     act_final ft True path (\<lambda>be p. be_writeFile be p content contentType)"

definition gsv_appendFile :: "'s file_tree \<Rightarrow> string \<Rightarrow> bytes \<Rightarrow> ('s, unit) action" where
  "gsv_appendFile ft path content = act_final ft True path (\<lambda>be p. be_appendFile be p content)"

definition gsv_exists :: "'s file_tree \<Rightarrow> string \<Rightarrow> 's \<Rightarrow> bool result" where
  "gsv_exists ft path s =
     (let p = normalizePath path in
      if p = ''/'' then Inr True
      else if p = ''/etc'' \<and> ft_kernel ft then Inr True
      else bind_result (backendForPath ft p) (\<lambda>be. be_exists be p s))"

definition statExtended :: "'s file_tree \<Rightarrow> string \<Rightarrow> 's \<Rightarrow> file_stat result" where
  "statExtended ft path s =
     (let normalized = normalizePath path in
      if normalized = ''/'' \<or> (normalized = ''/etc'' \<and> ft_kernel ft) then Inr homeNamespaceStat
      else on_final ft normalized s (\<lambda>be p. be_stat be p s))"

definition gsv_lstat :: "'s file_tree \<Rightarrow> string \<Rightarrow> 's \<Rightarrow> file_stat result" where
  "gsv_lstat ft path s =
     (let p = normalizePath path in
      if p = ''/'' \<or> (p = ''/etc'' \<and> ft_kernel ft) then statExtended ft p s
      else bind_result (backendForPath ft p)
             (\<lambda>be. case be_lstat be of Some f \<Rightarrow> f p s | None \<Rightarrow> statExtended ft p s))"

definition gsv_mkdir :: "'s file_tree \<Rightarrow> string \<Rightarrow> bool \<Rightarrow> ('s, unit) action" where
  "gsv_mkdir ft path recursive = act_at ft path (\<lambda>be p. be_mkdir be p recursive)"

definition gsv_rm :: "'s file_tree \<Rightarrow> string \<Rightarrow> bool \<Rightarrow> bool \<Rightarrow> ('s, unit) action" where
  "gsv_rm ft path recursive force = act_at ft path (\<lambda>be p. be_rm be p recursive force)"

definition gsv_symlink :: "'s file_tree \<Rightarrow> string \<Rightarrow> string \<Rightarrow> ('s, unit) action" where
  "gsv_symlink ft target linkPath =
     act_at ft linkPath (\<lambda>be p. case be_symlink be of
        Some f \<Rightarrow> f target p | None \<Rightarrow> (\<lambda>s. (s, throw (''ENOSYS: symlinks not supported for '' @ quoted p))))"

definition gsv_readlink :: "'s file_tree \<Rightarrow> string \<Rightarrow> 's \<Rightarrow> string result" where
  "gsv_readlink ft path s =
     (let p = normalizePath path in
      bind_result (backendForPath ft p) (\<lambda>be. case be_readlink be of
        Some f \<Rightarrow> f p s | None \<Rightarrow> throw (''EINVAL: invalid argument, readlink '' @ quoted p)))"

definition gsv_cp :: "'s file_tree \<Rightarrow> string \<Rightarrow> string \<Rightarrow> ('s, unit) action" where
  "gsv_cp ft src dest s =
     (case resolveFinalPath ft False s src of
        Inl e \<Rightarrow> (s, Inl e)
      | Inr sp \<Rightarrow>
     (case resolveFinalPath ft True s dest of
        Inl e \<Rightarrow> (s, Inl e)
      | Inr dp \<Rightarrow>
     (case statExtended ft sp s of
        Inl e \<Rightarrow> (s, Inl e)
      | Inr st \<Rightarrow>
          if fs_kind st = FkDirectory
          then (s, throw (''EISDIR: illegal operation on a directory, cp '' @ quoted sp))
          else case gsv_readFileBuffer ft sp s of
            Inl e \<Rightarrow> (s, Inl e)
          | Inr buf \<Rightarrow> gsv_writeFile ft dp buf None s)))"

definition gsv_mv :: "'s file_tree \<Rightarrow> string \<Rightarrow> string \<Rightarrow> ('s, unit) action" where
  "gsv_mv ft src dest = act_bind (gsv_cp ft src dest) (\<lambda>_. gsv_rm ft src False True)"

definition gsv_chmod :: "'s file_tree \<Rightarrow> string \<Rightarrow> nat \<Rightarrow> ('s, unit) action" where
  "gsv_chmod ft path mode = act_final ft False path (\<lambda>be p. case be_chmod be of
     Some f \<Rightarrow> f p mode | None \<Rightarrow> unsupported_op ''chmod'' p)"

definition gsv_chown :: "'s file_tree \<Rightarrow> string \<Rightarrow> int option \<Rightarrow> int option \<Rightarrow> ('s, unit) action" where
  "gsv_chown ft path u g = act_final ft False path (\<lambda>be p. case be_chown be of
     Some f \<Rightarrow> f p u g | None \<Rightarrow> unsupported_op ''chown'' p)"

definition gsv_utimes :: "'s file_tree \<Rightarrow> string \<Rightarrow> 's \<Rightarrow> unit result" where
  "gsv_utimes ft path s = on_final ft path s (\<lambda>be p. case be_utimes be of
     Some f \<Rightarrow> f p s
   | None \<Rightarrow> bind_result (be_exists be p s) (\<lambda>there.
       if there then Inr () else throw (''ENOENT: no such file or directory, utimes '' @ quoted p)))"

definition gsv_search :: "'s file_tree \<Rightarrow> string \<Rightarrow> string \<Rightarrow> string option \<Rightarrow> 's \<Rightarrow> (search_match list \<times> bool) result" where
  "gsv_search ft path query incl s = on_final ft path s (\<lambda>be p. case be_search be of
     Some f \<Rightarrow> f p query incl s
   | None \<Rightarrow> throw (''ENOSYS: search is not supported for '' @ quoted p))"

definition resolvePath :: "string \<Rightarrow> string \<Rightarrow> string" where
  "resolvePath base path =
     (if prefix ''/'' path then normalizePath path
      else normalizePath (if suffix ''/'' base then base @ path else base @ ''/'' @ path))"

text \<open>The listings of the three directories that mix backends; a failing listing counts as empty.\<close>

definition names_of :: "string list result \<Rightarrow> string list" where
  "names_of r = (case r of Inl _ \<Rightarrow> [] | Inr ns \<Rightarrow> ns)"

definition readdirRoot :: "'s file_tree \<Rightarrow> 's \<Rightarrow> string list" where
  "readdirRoot ft s =
     (let homeRoot = takeWhile (\<lambda>c. c \<noteq> CHR ''/'') (dropWhile (\<lambda>c. c = CHR ''/'') (pi_home (ft_identity ft)))
      in sort (remdups (names_of (be_readdir (ft_r2 ft) ''/'' s)
           @ (if ft_kernel ft then [''proc'', ''dev'', ''sys'', ''etc'', ''var''] else [])
           @ (if ft_home ft \<noteq> None \<and> homeRoot \<noteq> [] then [homeRoot] else [])
           @ (if ft_source ft \<noteq> None then [''src''] else []))))"

definition readdirEtc :: "'s file_tree \<Rightarrow> 's \<Rightarrow> string list" where
  "readdirEtc ft s =
     sort (remdups (names_of (be_readdir (ft_r2 ft) ''/etc'' s) @ [''cron.d'', ''passwd'', ''shadow'', ''group'']))"

definition readdirVar :: "'s file_tree \<Rightarrow> 's \<Rightarrow> string list" where
  "readdirVar ft s =
     sort (remdups (names_of (be_readdir (ft_r2 ft) ''/var'' s)
       @ names_of (be_readdir (ft_kernelBackend ft) ''/var'' s) @ [''media'']))"

definition gsv_readdir :: "'s file_tree \<Rightarrow> string \<Rightarrow> 's \<Rightarrow> string list result" where
  "gsv_readdir ft path s =
     (let normalized = normalizePath path in
      if normalized = ''/'' then Inr (readdirRoot ft s)
      else if normalized = ''/etc'' \<and> ft_kernel ft then Inr (readdirEtc ft s)
      else if normalized = ''/var'' \<and> ft_kernel ft then Inr (readdirVar ft s)
      else on_final ft normalized s (\<lambda>be p. be_readdir be p s))"

section \<open>Ranges of a file\<close>

datatype range_request = RangeFrom int "int option" | RangeSuffix int

record file_range =
  fr_offset :: int
  fr_length :: int
  fr_total :: int

definition resolveOpenFileRange :: "range_request \<Rightarrow> int \<Rightarrow> file_range" where
  "resolveOpenFileRange req fsize =
     (case req of
        RangeSuffix n \<Rightarrow>
          (let len = min (max 0 n) fsize in \<lparr>fr_offset = max 0 (fsize - len), fr_length = len, fr_total = fsize\<rparr>)
      | RangeFrom off l \<Rightarrow>
          (let offset = min (max 0 off) fsize;
               requested = (case l of Some x \<Rightarrow> x | None \<Rightarrow> max 0 (fsize - offset))
           in \<lparr>fr_offset = offset, fr_length = min (max 0 requested) (max 0 (fsize - offset)), fr_total = fsize\<rparr>))"

text \<open>Whatever is asked for, the part of a file that is served lies inside it.\<close>

lemma range_within_file:
  assumes "0 \<le> fsize"
  shows "0 \<le> fr_offset (resolveOpenFileRange r fsize)" "0 \<le> fr_length (resolveOpenFileRange r fsize)"
    and "fr_offset (resolveOpenFileRange r fsize) + fr_length (resolveOpenFileRange r fsize) \<le> fsize"
  using assms by (auto simp: resolveOpenFileRange_def Let_def split: range_request.splits option.splits)

section \<open>Where a path leads\<close>

lemma walk_done:
  assumes "walk_path ft s current parts = WkDone p" "list_all ok_segment parts"
  shows "path_segments p = path_segments current @ parts"
    and "\<forall>k < length parts. \<exists>q be st. path_segments q = path_segments current @ take (Suc k) parts \<and> normal_path q
           \<and> backendForPath ft q = Inr be \<and> stat_link be q s = Inr st \<and> fs_kind st \<noteq> FkSymlink"
    and "parts \<noteq> [] \<Longrightarrow> normal_path p"
proof -
  have "path_segments p = path_segments current @ parts
    \<and> (\<forall>k < length parts. \<exists>q be st. path_segments q = path_segments current @ take (Suc k) parts \<and> normal_path q
           \<and> backendForPath ft q = Inr be \<and> stat_link be q s = Inr st \<and> fs_kind st \<noteq> FkSymlink)
    \<and> (parts \<noteq> [] \<longrightarrow> normal_path p)"
    using assms
  proof (induction parts arbitrary: current)
    case (Cons part rest)
    let ?cur = "normalizePath (current @ ''/'' @ part)"
    have seg: "path_segments ?cur = path_segments current @ [part]"
      using Cons.prems(2) path_segments_child [of part current] by simp
    obtain be st where be: "backendForPath ft ?cur = Inr be" and st: "stat_link be ?cur s = Inr st"
      and nl: "fs_kind st \<noteq> FkSymlink" and next1: "walk_path ft s ?cur rest = WkDone p"
      using Cons.prems(1) by (auto simp: Let_def split: sum.splits option.splits if_splits)
    note IH = Cons.IH [OF next1]
    have "path_segments p = path_segments current @ part # rest" using IH Cons.prems(2) seg by simp
    moreover have "\<exists>q be st. path_segments q = path_segments current @ take (Suc k) (part # rest) \<and> normal_path q
           \<and> backendForPath ft q = Inr be \<and> stat_link be q s = Inr st \<and> fs_kind st \<noteq> FkSymlink"
      if "k < length (part # rest)" for k
    proof (cases k)
      case 0
      then show ?thesis using be st nl seg by (intro exI [of _ ?cur] exI [of _ be] exI [of _ st]) simp
    next
      case (Suc j)
      then have "j < length rest" using that by simp
      then show ?thesis using IH Cons.prems(2) seg Suc by simp
    qed
    moreover have "normal_path p" using IH Cons.prems(2) next1 by (cases rest) auto
    ultimately show ?case by blast
  qed simp
  then show "path_segments p = path_segments current @ parts"
    and "\<forall>k < length parts. \<exists>q be st. path_segments q = path_segments current @ take (Suc k) parts \<and> normal_path q
           \<and> backendForPath ft q = Inr be \<and> stat_link be q s = Inr st \<and> fs_kind st \<noteq> FkSymlink"
    and "parts \<noteq> [] \<Longrightarrow> normal_path p" by auto
qed

text \<open>The ancestors of a path, and itself.\<close>

definition path_upto :: "string \<Rightarrow> nat \<Rightarrow> string" where
  "path_upto p k = ''/'' @ js_join ''/'' (take (Suc k) (path_segments p))"

lemma path_upto_unique:
  "normal_path q \<Longrightarrow> path_segments q = take (Suc k) (path_segments p) \<Longrightarrow> q = path_upto p k"
  unfolding path_upto_def by (metis normal_path_iff normalizePath_def)

definition real_component :: "'s file_tree \<Rightarrow> 's \<Rightarrow> string \<Rightarrow> nat \<Rightarrow> bool" where
  "real_component ft s p k \<longleftrightarrow>
     (\<exists>be st. backendForPath ft (path_upto p k) = Inr be \<and> stat_link be (path_upto p k) s = Inr st
        \<and> fs_kind st \<noteq> FkSymlink)"

definition open_home :: "'s file_tree \<Rightarrow> string \<Rightarrow> bool" where
  "open_home ft p \<longleftrightarrow>
     (case ft_home ft of Some h \<Rightarrow> isAccountHomeReservedPath p \<longrightarrow> be_handles h p | None \<Rightarrow> True)"

lemma resolve_walks_Suc:
  assumes "resolve_walks ft am s (Suc n) path = Inr q"
  shows "open_home ft (normalizePath path)
    \<and> (case walk_path ft s ''/'' (path_segments path) of
         WkDone r \<Rightarrow> q = r
       | WkMissing e \<Rightarrow> am \<and> q = normalizePath path
       | WkLink target rest \<Rightarrow>
           resolve_walks ft am s n (if rest \<noteq> [] then target @ ''/'' @ js_join ''/'' rest else target) = Inr q
       | WkThrow e \<Rightarrow> False)"
proof -
  have gate: "\<not> (case ft_home ft of Some h \<Rightarrow> isAccountHomeReservedPath (normalizePath path) \<and> \<not> be_handles h (normalizePath path)
      | None \<Rightarrow> False)"
    using assms by (auto simp: resolve_walks.simps [of _ _ _ "Suc n"] Let_def)
  then have "open_home ft (normalizePath path)" by (auto simp: open_home_def split: option.splits)
  moreover have "normalizePath (''/'' @ js_join ''/'' (path_segments path)) = normalizePath path"
    by (simp add: normalizePath_def)
  ultimately show ?thesis
    using assms gate by (simp add: resolve_walks.simps [of _ _ _ "Suc n"] Let_def split: walk_end.splits if_splits)
qed

lemma resolve_walks_real:
  assumes "resolve_walks ft False s n path = Inr p"
  shows "normal_path p \<and> (\<forall>k < length (path_segments p). real_component ft s p k)"
  using assms
proof (induction n arbitrary: path)
  case 0
  then show ?case by (simp add: resolve_walks.simps [of _ _ _ 0] Let_def split: if_splits option.splits)
next
  case (Suc n)
  let ?parts = "path_segments path"
  show ?case
  proof (cases "walk_path ft s ''/'' ?parts")
    case (WkDone q)
    then have q: "q = p" using Suc.prems
      by (simp add: resolve_walks.simps [of _ _ _ "Suc n"] Let_def split: if_splits option.splits)
    have root: "path_segments ''/'' = []" by code_simp
    note wd = walk_done [OF WkDone path_segments_ok, unfolded root q]
    have segs: "path_segments p = ?parts" using wd(1) by simp
    have "normal_path p"
    proof (cases "?parts = []")
      case True
      then have "p = ''/''" using WkDone q by simp
      then show ?thesis by (simp add: normal_path_def exI [of _ "[]"])
    qed (rule wd(3))
    moreover have "real_component ft s p k" if k: "k < length ?parts" for k
    proof -
      obtain r be st where r: "path_segments r = take (Suc k) ?parts" "normal_path r"
        and be: "backendForPath ft r = Inr be" "stat_link be r s = Inr st" "fs_kind st \<noteq> FkSymlink"
        using wd(2) k by auto
      have "r = path_upto p k" using r segs by (intro path_upto_unique) simp_all
      with be show ?thesis by (auto simp: real_component_def)
    qed
    ultimately show ?thesis using segs by simp
  next
    case (WkLink target rest)
    then show ?thesis using Suc by (simp add: resolve_walks.simps [of _ _ _ "Suc n"] Let_def split: if_splits option.splits)
  qed (use Suc.prems in \<open>simp_all add: resolve_walks.simps [of _ _ _ "Suc n"] Let_def split: if_splits option.splits\<close>)
qed

text \<open>
  A path the file system resolves is absolute and normal, and neither it nor any directory above it is a
  symbolic link: following links has come to an end, after at most seventeen walks.
\<close>

theorem resolved_path_has_no_links:
  assumes "resolveFinalPath ft False s path = Inr p"
  shows "normal_path p \<and> (\<forall>k < length (path_segments p). real_component ft s p k)"
  using assms unfolding resolveFinalPath_def by (rule resolve_walks_real)


section \<open>Closed homes\<close>

text \<open>A path in the home of an account the viewer may not use.\<close>

definition closed_home :: "home_view \<Rightarrow> string \<Rightarrow> bool" where
  "closed_home hv q \<longleftrightarrow>
     \<not> accountHome_handles (hv_identity hv) q
     \<and> (case homeUsernameFromPath (normalizePath q) of
          None \<Rightarrow> False
        | Some u \<Rightarrow> \<not> canOwnerAccessAccountHome (hv_auth hv) (hv_ownerUid hv) (pi_username (hv_identity hv)) u (hv_isRoot hv))"

lemma closed_home_normalize [simp]: "closed_home hv (normalizePath q) \<longleftrightarrow> closed_home hv q"
  by (simp add: closed_home_def accountHome_handles_def)

lemma closed_home_delegate: "closed_home hv q \<Longrightarrow> home_delegate hv q = None"
  by (auto simp: closed_home_def home_delegate_def accountHome_handles_def Let_def split: option.splits)

lemma home_name_start:
  "homeUsernameFromPath (CHR ''/'' # CHR ''v'' # r) = None" "homeUsernameFromPath (CHR ''/'' # CHR ''s'' # r) = None"
  by (auto simp: homeUsernameFromPath_def Let_def prefix_def butlast_append split: if_splits)

lemma closed_home_elsewhere:
  assumes "closed_home hv q"
  shows "\<not> isProcessSourcePath q" "normal_path q \<Longrightarrow> \<not> isProcessMediaPath q" "normalizePath q \<noteq> ''/home''"
proof -
  obtain u where u: "homeUsernameFromPath (normalizePath q) = Some u"
    using assms by (auto simp: closed_home_def split: option.splits)
  show "\<not> isProcessSourcePath q"
    using u home_name_start(2) by (auto simp: isProcessSourcePath_def prefix_def Let_def)
  show "\<not> isProcessMediaPath q" if "normal_path q"
    using u home_name_start(1) that by (auto simp: isProcessMediaPath_def PROCESS_MEDIA_ROOT_def prefix_def normal_path_iff)
  have "homeUsernameFromPath ''/home'' = None" by code_simp
  with u show "normalizePath q \<noteq> ''/home''" by auto
qed

lemma home_backend_handles:
  "be_handles (home_backend hv homes) p \<longleftrightarrow> normalizePath p = ''/home'' \<or> home_delegate hv (normalizePath p) \<noteq> None"
  by (simp add: home_backend_def Let_def)

lemma closed_home_not_handled: "closed_home hv q \<Longrightarrow> \<not> be_handles (home_backend hv homes) q"
  using closed_home_delegate [of hv "normalizePath q"] closed_home_elsewhere(3) by (auto simp: home_backend_handles)

lemma closed_home_reserved: "closed_home hv q \<Longrightarrow> isAccountHomeReservedPath q"
  by (auto simp: closed_home_def isAccountHomeReservedPath_def split: option.splits)

lemma closed_home_no_backend:
  assumes "ft_home ft = Some (home_backend hv homes)" "closed_home hv q" "normal_path q"
  shows "backendForPath ft q = throw (''EACCES: permission denied, '' @ quoted q)"
  using assms closed_home_elsewhere [OF assms(2)] closed_home_not_handled [OF assms(2), of homes]
    closed_home_reserved [OF assms(2)]
  by (simp add: backendForPath_def normal_path_iff)

lemma resolve_not_closed:
  assumes "ft_home ft = Some (home_backend hv homes)" "resolve_walks ft am s n path = Inr q"
  shows "\<not> closed_home hv q"
  using assms(2)
proof (induction n arbitrary: path)
  case 0
  then show ?case by (simp add: resolve_walks.simps [of _ _ _ 0] Let_def split: if_splits option.splits)
next
  case (Suc n)
  note step = resolve_walks_Suc [OF Suc.prems]
  have np: "\<not> closed_home hv (normalizePath path)"
  proof
    assume c: "closed_home hv (normalizePath path)"
    then have "be_handles (home_backend hv homes) (normalizePath path)"
      using step assms(1) closed_home_reserved by (auto simp: open_home_def)
    with closed_home_not_handled [OF c] show False by blast
  qed
  show ?case
  proof (cases "walk_path ft s ''/'' (path_segments path)")
    case (WkDone r)
    have root: "path_segments ''/'' = []" by code_simp
    have "r = q" using step WkDone by simp
    then have "normalizePath q = normalizePath path"
      using walk_done(1) [OF WkDone path_segments_ok] root by (simp add: normalizePath_def)
    with np show ?thesis by (metis closed_home_normalize)
  next
    case (WkMissing e)
    with step have "q = normalizePath path" by simp
    with np show ?thesis by simp
  next
    case (WkLink target rest)
    have "resolve_walks ft am s n (if rest \<noteq> [] then target @ ''/'' @ js_join ''/'' rest else target) = Inr q"
      using step unfolding WkLink walk_end.case by (rule conjunct2)
    then show ?thesis by (rule Suc.IH)
  qed (use step in simp)
qed


section \<open>Process media\<close>

text \<open>
  C36. The media of a process are read only by root, by the process itself and by processes and users of
  its owner, and nothing done through the media view changes anything.
\<close>

theorem process_media_stay_with_owner:
  assumes "be_readFile (media_backend b v) path s = Inr c \<or> be_readFileBuffer (media_backend b v) path s = Inr c"
  shows "\<exists>uid pid key t p o1. parseProcessMediaPath (normalizePath path) = Some (MpFile uid pid key)
    \<and> vw_procs v = Some t \<and> process_get t pid = Some p \<and> rc_uid p = uid
    \<and> (pi_uid (vw_identity v) = 0 \<or> Some (rc_processId p) = vw_selfPid v \<or> rc_ownerUid p = media_viewerOwnerUid v)
    \<and> bk_get b s key = Some o1 \<and> c = ob_content o1"
proof -
  let ?n = "normalizePath path"
  have vis: "requireVisibleFile v ?n = Inr ()"
    using assms by (cases "requireVisibleFile v ?n") (auto simp: media_backend_def media_read_def)
  then obtain uid pid key where m: "parseProcessMediaPath ?n = Some (MpFile uid pid key)"
    and vp: "visibleProcess v uid pid \<noteq> None"
    by (auto simp: requireVisibleFile_def notFoundError_def split: option.splits media_path.splits if_splits)
  from vp obtain t p where t: "vw_procs v = Some t" "process_get t pid = Some p" "rc_uid p = uid"
    "media_canViewProcess v p (media_viewerOwnerUid v)"
    by (auto simp: visibleProcess_def split: option.splits if_splits)
  have raw: "r2_readFile b ROOT_IDENTITY ?n s = Inr c \<or> r2_readFileBuffer b ROOT_IDENTITY ?n s = Inr c"
    using assms vis by (auto simp: media_backend_def media_read_def)
  have "toKey path = key" using parsed_media_file(1) [OF m] by (simp add: toKey_def)
  with raw read_granted [of b ROOT_IDENTITY ?n s c] obtain o1 where "bk_get b s key = Some o1" "c = ob_content o1"
    by auto
  with m t show ?thesis by (auto simp: media_canViewProcess_def)
qed

section \<open>Two gaps\<close>

definition demo_platform :: platform where
  "demo_platform = \<lparr>pf_infer = (\<lambda>_. ''text/plain''), pf_encode = map (\<lambda>c. word_of_nat (of_char c))\<rparr>"

definition demo_decode :: "bytes \<Rightarrow> string" where
  "demo_decode = map (\<lambda>w. char_of (unat w))"

definition demo_r2 :: "proc_identity \<Rightarrow> stored list backend" where
  "demo_r2 = r2_backend list_bucket demo_platform demo_decode (\<lambda>_. True)"

definition no_auth :: auth_db where
  "no_auth = empty_auth"

definition bob_view :: home_view where
  "bob_view = \<lparr>hv_identity = bob, hv_auth = no_auth, hv_ownerUid = 1001, hv_isRoot = False\<rparr>"

definition bob_tree :: "stored list file_tree" where
  "bob_tree =
     \<lparr>ft_identity = bob, ft_kernel = False, ft_r2 = demo_r2 bob,
      ft_kernelBackend = (demo_r2 bob)\<lparr>be_handles := (\<lambda>_. False)\<rparr>, ft_media = demo_r2 bob, ft_source = None,
      ft_home = Some (home_backend bob_view demo_r2)\<rparr>"

definition ann_note :: stored where
  "ann_note = \<lparr>ob_key = ''home/ann/notes.txt'', ob_content = pf_encode demo_platform ''secret'',
     ob_type = Some ''text/plain'', ob_meta = file_meta ann ''644''\<rparr>"

text \<open>A search that starts at the root is answered by the object store alone, so it reads the files of homes
  that are closed to the caller: their objects carry the default mode.\<close>

lemma root_search_reads_closed_homes:
  "closed_home bob_view ''/home/ann/notes.txt''
   \<and> gsv_readFile bob_tree ''/home/ann/notes.txt'' [ann_note] = Inl (Error (''EACCES: permission denied, '' @ quoted ''/home/ann/notes.txt''))
   \<and> gsv_search bob_tree ''/'' ''secret'' None [ann_note]
       = Inr ([\<lparr>sm_path = ''/home/ann/notes.txt'', sm_line = 1, sm_content = ''secret''\<rparr>], False)"
  by code_simp

text \<open>A move copies through the links of its source path but removes the path as it is spelled: below a linked
  directory the source stays.\<close>

definition linked_dir :: "stored list" where
  "linked_dir =
     [\<lparr>ob_key = ''tmp/real/x'', ob_content = [7], ob_type = Some ''text/plain'', ob_meta = file_meta bob ''644''\<rparr>,
      \<lparr>ob_key = ''tmp/link'', ob_content = pf_encode demo_platform ''real'', ob_type = Some ''text/plain'',
       ob_meta = meta_set ''symlink'' ''1'' (file_meta bob ''777'')\<rparr>]"

definition moved_dir :: "stored list" where
  "moved_dir = linked_dir @ [\<lparr>ob_key = ''tmp/y'', ob_content = [7], ob_type = Some ''text/plain'', ob_meta = file_meta bob ''644''\<rparr>]"

lemma move_below_a_link_keeps_the_source:
  "gsv_mv bob_tree ''/tmp/link/x'' ''/tmp/y'' linked_dir = (moved_dir, Inr ())
   \<and> gsv_readFile bob_tree ''/tmp/link/x'' moved_dir = Inr [7]"
  by code_simp

section \<open>Witnesses\<close>

lemma resolved_path_has_no_links_witness:
  "normal_path ''/tmp/real/x'' \<and> real_component bob_tree linked_dir ''/tmp/real/x'' 1"
proof -
  have "resolveFinalPath bob_tree False linked_dir ''/tmp/./link/x'' = Inr ''/tmp/real/x''" by code_simp
  note r = resolved_path_has_no_links [OF this]
  moreover have "1 < length (path_segments ''/tmp/real/x'')" by code_simp
  ultimately show ?thesis by blast
qed


definition media_rows :: "process_row list" where
  "media_rows = process_spawn 5 ''p1'' (ann\<lparr>pi_uid := 7\<rparr>) \<lparr>sp_parentPid = None, sp_ownerUid = None, sp_interactive = None,
      sp_label = None, sp_cwd = None\<rparr> []"

definition ann_viewer :: viewer where
  "ann_viewer = \<lparr>vw_identity = ann\<lparr>pi_uid := 7\<rparr>, vw_procs = Some media_rows, vw_selfPid = None\<rparr>"

definition ann_media :: stored where
  "ann_media = \<lparr>ob_key = ''var/media/7/p1/m'', ob_content = [9], ob_type = None, ob_meta = []\<rparr>"

lemma process_media_stay_with_owner_witness:
  "\<exists>uid pid key t p o1. parseProcessMediaPath (normalizePath ''/var/media/7/p1/m'') = Some (MpFile uid pid key)
    \<and> vw_procs ann_viewer = Some t \<and> process_get t pid = Some p \<and> rc_uid p = uid
    \<and> (pi_uid (vw_identity ann_viewer) = 0 \<or> Some (rc_processId p) = vw_selfPid ann_viewer
       \<or> rc_ownerUid p = media_viewerOwnerUid ann_viewer)
    \<and> bk_get list_bucket [ann_media] key = Some o1 \<and> [9] = ob_content o1"
proof -
  have "be_readFile (media_backend list_bucket ann_viewer) ''/var/media/7/p1/m'' [ann_media] = Inr [9]" by code_simp
  then have "be_readFile (media_backend list_bucket ann_viewer) ''/var/media/7/p1/m'' [ann_media] = Inr [9]
      \<or> be_readFileBuffer (media_backend list_bucket ann_viewer) ''/var/media/7/p1/m'' [ann_media] = Inr [9]" ..
  then show ?thesis by (rule process_media_stay_with_owner)
qed

end
