(* ===== verification/Crontab.thy ===== *)
theory Crontab
  imports Scheduler
begin

text \<open>
  Crontab files over the schedule store (\<open>kernel/crontab.ts\<close>): reading a user's or a system crontab, its
  parser, and the installation that replaces the schedules linked to a file by one for each job line. What
  the kernel answers when a wake is armed or cancelled is an argument for each job; the operation is not
  interleaved with others while it waits for that. Lines are split at line feeds after carriage returns
  were replaced, so a line holds none of either.
\<close>

definition USER_CRON_PREFIX :: string where "USER_CRON_PREFIX = ''/var/spool/cron/''"
definition SYSTEM_CRON_PREFIX :: string where "SYSTEM_CRON_PREFIX = ''/etc/cron.d/''"

record cron_job =
  cj_lineNumber :: nat
  cj_user :: "int passwd_entry"
  cj_expression :: schedule_expression
  cj_command :: string

text \<open>What a call has at hand: the accounts, the capabilities, the caller, the processes and the configured
  timezone; the test of a timezone name and the calendar are the platform's.\<close>

record cron_ctx =
  cc_auth :: auth_db
  cc_caps :: cap_table
  cc_call :: call_ctx
  cc_procs :: "process_row list"
  cc_timezone :: "string option"
  cc_validTimezone :: "string \<Rightarrow> bool"
  cc_zoned :: "string \<Rightarrow> int \<Rightarrow> date_parts"

definition cron_actor :: "cron_ctx \<Rightarrow> proc_identity" where
  "cron_actor ctx = identity_process (cx_identity (cc_call ctx))"

definition cron_ownerUid :: "cron_ctx \<Rightarrow> int" where
  "cron_ownerUid ctx = resolveCallerOwnerUid (cc_procs ctx) (cc_call ctx)"

section \<open>Names and access\<close>

definition cron_segment_char :: "char \<Rightarrow> bool" where
  "cron_segment_char c \<longleftrightarrow> is_lower_az c \<or> is_upper_az c \<or> is_digit c \<or> c \<in> set ''_.-''"

definition cronPathSegment :: "string \<Rightarrow> string result" where
  "cronPathSegment v =
     (let segment = js_trim v in
      if segment \<noteq> [] \<and> list_all cron_segment_char segment then Inr segment
      else throw (''invalid cron file name: '' @ v))"

definition userCronPath :: "string \<Rightarrow> string result" where
  "userCronPath username = bind_result (cronPathSegment username) (\<lambda>s. Inr (USER_CRON_PREFIX @ s))"

definition systemCronPath :: "string \<Rightarrow> string result" where
  "systemCronPath name = bind_result (cronPathSegment name) (\<lambda>s. Inr (SYSTEM_CRON_PREFIX @ s))"

definition requireUser :: "cron_ctx \<Rightarrow> string \<Rightarrow> int passwd_entry result" where
  "requireUser ctx username =
     bind_result (cronPathSegment username) (\<lambda>s.
       case getPasswdByUsername (cc_auth ctx) s of
         None \<Rightarrow> throw (''Unknown user: '' @ username)
       | Some u \<Rightarrow> Inr u)"

definition may_manage_crontab :: "cron_ctx \<Rightarrow> int passwd_entry \<Rightarrow> bool" where
  "may_manage_crontab ctx user \<longleftrightarrow>
     pi_uid (cron_actor ctx) = 0 \<or> pi_uid (cron_actor ctx) = pw_uid user
     \<or> canOwnerDelegateRunAs (cc_auth ctx) (cron_ownerUid ctx) user"

definition assertCanManageUserCrontab :: "cron_ctx \<Rightarrow> int passwd_entry \<Rightarrow> unit result" where
  "assertCanManageUserCrontab ctx user =
     need (may_manage_crontab ctx user) (''Permission denied: cannot access crontab for '' @ pw_username user)"

definition assertRoot :: "cron_ctx \<Rightarrow> string \<Rightarrow> unit result" where
  "assertRoot ctx action = need (pi_uid (cron_actor ctx) = 0) (''Permission denied: cannot '' @ action)"

definition scheduleOwnerUidForUserCrontab :: "cron_ctx \<Rightarrow> int passwd_entry \<Rightarrow> int" where
  "scheduleOwnerUidForUserCrontab ctx user =
     (if pi_uid (cron_actor ctx) = 0 then pw_uid user
      else if pi_uid (cron_actor ctx) = pw_uid user \<or> canOwnerDelegateRunAs (cc_auth ctx) (cron_ownerUid ctx) user
      then cron_ownerUid ctx
      else pw_uid user)"

definition principalFromIdentity :: "call_ctx \<Rightarrow> schedule_principal" where
  "principalFromIdentity ctx =
     (let p = identity_process (cx_identity ctx) in
      if truthy (cx_processId ctx) then PrProcess (pi_uid p) (pi_username p) (the (cx_processId ctx))
      else case cx_identity ctx of
        ConnService _ _ chan \<Rightarrow> PrService (pi_uid p) (pi_username p) chan
      | _ \<Rightarrow> PrUser (pi_uid p) (pi_username p))"

definition principalFromProcess :: "proc_identity \<Rightarrow> schedule_principal" where
  "principalFromProcess p = PrUser (pi_uid p) (pi_username p)"

section \<open>Parsing\<close>

fun replace_crlf :: "string \<Rightarrow> string" where
  "replace_crlf [] = []"
| "replace_crlf [c] = [if c = CHR 0x0D then CHR 0x0A else c]"
| "replace_crlf (c # d # r) =
     (if c = CHR 0x0D \<and> d = CHR 0x0A then CHR 0x0A # replace_crlf r
      else (if c = CHR 0x0D then CHR 0x0A else c) # replace_crlf (d # r))"

definition normalizeCronFileContent :: "string \<Rightarrow> string" where
  "normalizeCronFileContent content =
     (let normalized = replace_crlf content
      in if normalized = [] \<or> suffix [CHR 0x0A] normalized then normalized else normalized @ [CHR 0x0A])"

text \<open>\<open>/^(\S+)\s+ ... (.+)$/\<close> on a trimmed line: the first \<open>n\<close> words, and the rest of the line after them,
  which must not be empty.\<close>

fun take_words :: "nat \<Rightarrow> string \<Rightarrow> (string list \<times> string) option" where
  "take_words 0 s = (if s = [] then None else Some ([], s))"
| "take_words (Suc n) s =
     (let w = takeWhile (\<lambda>c. \<not> js_ws c) s; r = dropWhile (\<lambda>c. \<not> js_ws c) s in
      if w = [] \<or> r = [] then None
      else map_option (\<lambda>(ws, rest). (w # ws, rest)) (take_words n (dropWhile js_ws r)))"

definition env_start :: "char \<Rightarrow> bool" where
  "env_start c \<longleftrightarrow> is_lower_az c \<or> is_upper_az c \<or> c = CHR ''_''"

definition parseCrontabEnv :: "string \<Rightarrow> (string \<times> string) option" where
  "parseCrontabEnv line =
     (let name = takeWhile (\<lambda>c. env_start c \<or> is_digit c) line; r = dropWhile (\<lambda>c. env_start c \<or> is_digit c) line
      in case (name, r) of
           (c # _, CHR ''='' # v) \<Rightarrow> if env_start c then Some (name, js_trim v) else None
         | _ \<Rightarrow> None)"

definition cron_json :: "string \<Rightarrow> string \<Rightarrow> json" where
  "cron_json expr timezone =
     JObj [(''kind'', JStr ''cron''), (''expr'', JStr expr), (''timezone'', JStr timezone)]"

definition validateTimezone :: "(string \<Rightarrow> bool) \<Rightarrow> string \<Rightarrow> nat \<Rightarrow> string result" where
  "validateTimezone valid_timezone timezone lineNumber =
     (case normalizeScheduleExpression valid_timezone None (cron_json ''* * * * *'' timezone) of
        Inl (Error m) \<Rightarrow> throw (''invalid crontab line '' @ show_nat lineNumber @ '': '' @ m)
      | Inr _ \<Rightarrow> Inr timezone)"

definition cronJobFromParts :: "cron_ctx \<Rightarrow> nat \<Rightarrow> string \<Rightarrow> int passwd_entry \<Rightarrow> string list \<Rightarrow> string \<Rightarrow> cron_job result" where
  "cronJobFromParts ctx lineNumber timezone user parts rawCommand =
     (let command = js_trim rawCommand in
      if command = [] then throw (''invalid crontab line '' @ show_nat lineNumber @ '': command is required'')
      else bind_result (normalizeScheduleExpression (cc_validTimezone ctx) (cc_timezone ctx)
               (cron_json (js_join '' '' parts) timezone)) (\<lambda>e.
             Inr \<lparr>cj_lineNumber = lineNumber, cj_user = user, cj_expression = e, cj_command = command\<rparr>))"

fun crontab_lines :: "cron_ctx \<Rightarrow> (string \<Rightarrow> nat \<Rightarrow> string \<Rightarrow> cron_job result) \<Rightarrow> string \<Rightarrow> nat \<Rightarrow> string list
    \<Rightarrow> cron_job list result" where
  "crontab_lines ctx parseJob timezone lineNumber [] = Inr []"
| "crontab_lines ctx parseJob timezone lineNumber (l # ls) =
     (let trimmed = js_trim l in
      if trimmed = [] \<or> prefix ''#'' trimmed then crontab_lines ctx parseJob timezone (lineNumber + 1) ls
      else case parseCrontabEnv trimmed of
        Some (name, v) \<Rightarrow>
          if name = ''CRON_TZ'' \<or> name = ''TZ''
          then bind_result (validateTimezone (cc_validTimezone ctx) v lineNumber)
                 (\<lambda>tz. crontab_lines ctx parseJob tz (lineNumber + 1) ls)
          else crontab_lines ctx parseJob timezone (lineNumber + 1) ls
      | None \<Rightarrow>
          bind_result (parseJob trimmed lineNumber timezone) (\<lambda>job.
          bind_result (crontab_lines ctx parseJob timezone (lineNumber + 1) ls) (\<lambda>jobs. Inr (job # jobs))))"

definition parseCrontabLines :: "cron_ctx \<Rightarrow> (string \<Rightarrow> nat \<Rightarrow> string \<Rightarrow> cron_job result) \<Rightarrow> string \<Rightarrow> cron_job list result" where
  "parseCrontabLines ctx parseJob content =
     crontab_lines ctx parseJob (if truthy (cc_timezone ctx) then the (cc_timezone ctx) else ''UTC'') 1
       (js_split (CHR 0x0A) content)"

definition parse_user_line :: "cron_ctx \<Rightarrow> int passwd_entry \<Rightarrow> string \<Rightarrow> nat \<Rightarrow> string \<Rightarrow> cron_job result" where
  "parse_user_line ctx user line lineNumber timezone =
     (case take_words 5 line of
        None \<Rightarrow> throw (''invalid crontab line '' @ show_nat lineNumber @ '': expected five schedule fields and a command'')
      | Some (parts, command) \<Rightarrow> cronJobFromParts ctx lineNumber timezone user parts command)"

definition parse_system_line :: "cron_ctx \<Rightarrow> string \<Rightarrow> nat \<Rightarrow> string \<Rightarrow> cron_job result" where
  "parse_system_line ctx line lineNumber timezone =
     (case take_words 6 line of
        None \<Rightarrow> throw (''invalid crontab line '' @ show_nat lineNumber @ '': expected five schedule fields, user, and command'')
      | Some (ws, command) \<Rightarrow>
          bind_result (requireUser ctx (ws ! 5)) (\<lambda>user.
            cronJobFromParts ctx lineNumber timezone user (take 5 ws) command))"

definition parseUserCrontab :: "cron_ctx \<Rightarrow> string \<Rightarrow> int passwd_entry \<Rightarrow> cron_job list result" where
  "parseUserCrontab ctx content user = parseCrontabLines ctx (parse_user_line ctx user) content"

definition parseSystemCrontab :: "cron_ctx \<Rightarrow> string \<Rightarrow> cron_job list result" where
  "parseSystemCrontab ctx content = parseCrontabLines ctx (parse_system_line ctx) content"

section \<open>Installing\<close>

definition check_job :: "cron_ctx \<Rightarrow> cron_job \<Rightarrow> unit result" where
  "check_job ctx job =
     (let process = accountIdentity (cc_auth ctx) (cj_user job) in
      need (hasCapability (resolve_caps (pi_gids process) (cc_caps ctx)) ''shell.exec'')
        (''Permission denied: '' @ pw_username (cj_user job) @ '' cannot run shell.exec''))"

fun remove_linked :: "(string \<Rightarrow> unit result) \<Rightarrow> string list \<Rightarrow> (schedule_store, unit) action" where
  "remove_linked cancel [] st = (st, Inr ())"
| "remove_linked cancel (k # ks) st =
     (case (case getStored st k of
              Some r \<Rightarrow> if truthy (sc_wake_schedule_id r) then cancel (the (sc_wake_schedule_id r)) else Inr ()
            | None \<Rightarrow> Inr ()) of
        Inl e \<Rightarrow> (st, Inl e)
      | Inr _ \<Rightarrow> remove_linked cancel ks (fst (schedule_remove k st)))"

definition removeLinkedSchedules :: "(string \<Rightarrow> unit result) \<Rightarrow> string \<Rightarrow> (schedule_store, unit) action" where
  "removeLinkedSchedules cancel path =
     act_bind (\<lambda>st. remove_linked cancel (cronFileScheduleIds path st) st)
       (\<lambda>_. act_modify (clearCronFileScheduleLinks path))"

text \<open>What is drawn and answered for each job: the ids of the schedule and its occurrence, the wake, the clock
  once it is armed.\<close>

record job_draw =
  jd_id :: string
  jd_uuid :: string
  jd_wake :: "string result"
  jd_later :: int

definition job_input :: "cron_ctx \<Rightarrow> string \<Rightarrow> int option \<Rightarrow> cron_job \<Rightarrow> schedule_input" where
  "job_input ctx path ownerUid job =
     \<lparr>si_ownerUid = (if ownerUid = None then pw_uid (cj_user job) else scheduleOwnerUidForUserCrontab ctx (cj_user job)),
      si_creator = principalFromIdentity (cc_call ctx),
      si_runAs = principalFromProcess (accountIdentity (cc_auth ctx) (cj_user job)),
      si_name = ''cron '' @ path @ '':'' @ show_nat (cj_lineNumber job),
      si_description = Some (''Installed from '' @ path @ '':'' @ show_nat (cj_lineNumber job)),
      si_enabled = True, si_expression = cj_expression job,
      si_target = TCommandExec (cj_command job) None None\<rparr>"

fun install_jobs :: "cron_ctx \<Rightarrow> int \<Rightarrow> string \<Rightarrow> int option \<Rightarrow> job_draw list \<Rightarrow> cron_job list \<Rightarrow> (schedule_store, unit) action" where
  "install_jobs ctx now path ownerUid draws [] st = (st, Inr ())"
| "install_jobs ctx now path ownerUid [] (job # jobs) st = (st, throw ''randomUUID'')"
| "install_jobs ctx now path ownerUid (d # draws) (job # jobs) st =
     (case schedule_create (cc_zoned ctx) now (jd_id d) (jd_uuid d) (job_input ctx path ownerUid job) st of
        Inl e \<Rightarrow> (st, Inl e)
      | Inr (st1, row) \<Rightarrow>
          act_bind (armSchedule (jd_later d) (jd_wake d) row) (\<lambda>_. install_jobs ctx now path ownerUid draws jobs)
            (linkCronFileSchedule path (sc_id row) st1))"

definition replaceCronFile :: "cron_ctx \<Rightarrow> int \<Rightarrow> (string \<Rightarrow> unit result) \<Rightarrow> job_draw list \<Rightarrow> string \<Rightarrow> int option \<Rightarrow> string
    \<Rightarrow> cron_job list \<Rightarrow> (schedule_store, unit) action" where
  "replaceCronFile ctx now cancel draws path ownerUid content jobs st =
     (case map_result (check_job ctx) jobs of
        Inl e \<Rightarrow> (st, Inl e)
      | Inr _ \<Rightarrow>
          act_bind (removeLinkedSchedules cancel path) (\<lambda>_.
          act_bind (act_modify (upsertCronFile now path ownerUid content)) (\<lambda>_.
          install_jobs ctx now path ownerUid draws jobs)) st)"

definition removeCronFile_linked :: "(string \<Rightarrow> unit result) \<Rightarrow> string \<Rightarrow> (schedule_store, bool) action" where
  "removeCronFile_linked cancel path st =
     (let existing = getCronFile st path; linked = cronFileScheduleIds path st in
      act_bind (removeLinkedSchedules cancel path) (\<lambda>_ st1.
        let (st2, removed) = removeCronFile path st1
        in (st2, Inr (existing \<noteq> None \<or> removed \<noteq> None \<or> linked \<noteq> []))) st)"

definition listUserCrontabs :: "cron_ctx \<Rightarrow> schedule_store \<Rightarrow> string list result" where
  "listUserCrontabs ctx st =
     (let actorUid = pi_uid (cron_actor ctx) in
      if actorUid \<noteq> 0
      then (case getPasswdByUid (cc_auth ctx) actorUid of
              None \<Rightarrow> Inr []
            | Some user \<Rightarrow> bind_result (userCronPath (pw_username user)) (\<lambda>p.
                Inr (if getCronFile st p \<noteq> None then [pw_username user] else [])))
      else Inr (sort (filter (\<lambda>n. n \<noteq> []) (map (\<lambda>f. drop (length USER_CRON_PREFIX) (cf_path f))
             (listCronFiles (Some USER_CRON_PREFIX) None st)))))"

definition readUserCrontab :: "cron_ctx \<Rightarrow> string \<Rightarrow> schedule_store \<Rightarrow> string option result" where
  "readUserCrontab ctx username st =
     bind_result (requireUser ctx username) (\<lambda>user.
     bind_result (assertCanManageUserCrontab ctx user) (\<lambda>_.
     bind_result (userCronPath (pw_username user)) (\<lambda>p. Inr (map_option cf_content (getCronFile st p)))))"

definition user_install :: "cron_ctx \<Rightarrow> string \<Rightarrow> string \<Rightarrow> (int passwd_entry \<times> string \<times> cron_job list \<times> string) result" where
  "user_install ctx username content =
     bind_result (requireUser ctx username) (\<lambda>user.
     bind_result (assertCanManageUserCrontab ctx user) (\<lambda>_.
     let normalized = normalizeCronFileContent content in
     bind_result (parseUserCrontab ctx normalized user) (\<lambda>jobs.
     bind_result (userCronPath (pw_username user)) (\<lambda>p. Inr (user, normalized, jobs, p)))))"

definition installUserCrontab :: "cron_ctx \<Rightarrow> int \<Rightarrow> (string \<Rightarrow> unit result) \<Rightarrow> job_draw list \<Rightarrow> string \<Rightarrow> string
    \<Rightarrow> (schedule_store, unit) action" where
  "installUserCrontab ctx now cancel draws username content st =
     (case user_install ctx username content of
        Inl e \<Rightarrow> (st, Inl e)
      | Inr (user, normalized, jobs, p) \<Rightarrow> replaceCronFile ctx now cancel draws p (Some (pw_uid user)) normalized jobs st)"

definition removeUserCrontab :: "cron_ctx \<Rightarrow> (string \<Rightarrow> unit result) \<Rightarrow> string \<Rightarrow> (schedule_store, bool) action" where
  "removeUserCrontab ctx cancel username st =
     (case bind_result (requireUser ctx username) (\<lambda>user.
             bind_result (assertCanManageUserCrontab ctx user) (\<lambda>_. userCronPath (pw_username user))) of
        Inl e \<Rightarrow> (st, Inl e)
      | Inr p \<Rightarrow> removeCronFile_linked cancel p st)"

definition listSystemCrontabs :: "cron_ctx \<Rightarrow> schedule_store \<Rightarrow> string list result" where
  "listSystemCrontabs ctx st =
     bind_result (assertRoot ctx ''list system crontabs'') (\<lambda>_.
       Inr (sort (filter (\<lambda>n. n \<noteq> []) (map (\<lambda>f. drop (length SYSTEM_CRON_PREFIX) (cf_path f))
             (listCronFiles (Some SYSTEM_CRON_PREFIX) (Some None) st)))))"

definition readSystemCrontab :: "cron_ctx \<Rightarrow> string \<Rightarrow> schedule_store \<Rightarrow> string option result" where
  "readSystemCrontab ctx name st =
     bind_result (assertRoot ctx ''read system crontabs'') (\<lambda>_.
     bind_result (systemCronPath name) (\<lambda>p. Inr (map_option cf_content (getCronFile st p))))"

definition system_install :: "cron_ctx \<Rightarrow> string \<Rightarrow> string \<Rightarrow> (string \<times> cron_job list \<times> string) result" where
  "system_install ctx name content =
     bind_result (assertRoot ctx ''install system crontabs'') (\<lambda>_.
     let normalized = normalizeCronFileContent content in
     bind_result (parseSystemCrontab ctx normalized) (\<lambda>jobs.
     bind_result (systemCronPath name) (\<lambda>p. Inr (normalized, jobs, p))))"

definition installSystemCrontab :: "cron_ctx \<Rightarrow> int \<Rightarrow> (string \<Rightarrow> unit result) \<Rightarrow> job_draw list \<Rightarrow> string \<Rightarrow> string
    \<Rightarrow> (schedule_store, unit) action" where
  "installSystemCrontab ctx now cancel draws name content st =
     (case system_install ctx name content of
        Inl e \<Rightarrow> (st, Inl e)
      | Inr (normalized, jobs, p) \<Rightarrow> replaceCronFile ctx now cancel draws p None normalized jobs st)"

definition removeSystemCrontab :: "cron_ctx \<Rightarrow> (string \<Rightarrow> unit result) \<Rightarrow> string \<Rightarrow> (schedule_store, bool) action" where
  "removeSystemCrontab ctx cancel name st =
     (case bind_result (assertRoot ctx ''remove system crontabs'') (\<lambda>_. systemCronPath name) of
        Inl e \<Rightarrow> (st, Inl e)
      | Inr p \<Rightarrow> removeCronFile_linked cancel p st)"


section \<open>What an installation leaves\<close>

text \<open>A schedule made for a job: everything but its wake and its times.\<close>

definition job_row :: "cron_ctx \<Rightarrow> string \<Rightarrow> int option \<Rightarrow> cron_job \<Rightarrow> schedule_row \<Rightarrow> bool" where
  "job_row ctx path ownerUid job r \<longleftrightarrow>
     sc_owner_uid r = si_ownerUid (job_input ctx path ownerUid job)
     \<and> sc_creator r = principalFromIdentity (cc_call ctx)
     \<and> sc_run_as r = PrUser (pw_uid (cj_user job)) (pw_username (cj_user job))
     \<and> sc_enabled r \<and> sc_expression r = cj_expression job \<and> sc_target r = TCommandExec (cj_command job) None None"

lemma job_row_wake [simp]: "job_row ctx path ownerUid job (r\<lparr>sc_wake_schedule_id := w, sc_updated_at := t\<rparr>) = job_row ctx path ownerUid job r"
  by (simp add: job_row_def)

lemma create_job:
  assumes "schedule_create zoned now k uuid (job_input ctx path ownerUid job) st = Inr (st1, row)"
  shows "ss_schedules st1 = ss_schedules st @ [row]" "sc_id row = k" "\<forall>x \<in> set (ss_schedules st). sc_id x \<noteq> k"
    and "job_row ctx path ownerUid job row" "ss_cron_files st1 = ss_cron_files st" "ss_cron_links st1 = ss_cron_links st"
    and "ss_runs st1 = ss_runs st"
proof -
  obtain nr where "row = \<lparr>sc_id = k, sc_owner_uid = si_ownerUid (job_input ctx path ownerUid job),
       sc_creator = si_creator (job_input ctx path ownerUid job), sc_run_as = si_runAs (job_input ctx path ownerUid job),
       sc_name = si_name (job_input ctx path ownerUid job), sc_description = si_description (job_input ctx path ownerUid job),
       sc_enabled = si_enabled (job_input ctx path ownerUid job), sc_expression = si_expression (job_input ctx path ownerUid job),
       sc_target = si_target (job_input ctx path ownerUid job), sc_wake_schedule_id = None,
       sc_occurrence_id = armedOneShotOccurrenceId uuid (si_expression (job_input ctx path ownerUid job)) (si_enabled (job_input ctx path ownerUid job)) nr,
       sc_attempt_count = 0, sc_next_run_at = nr, sc_running_at = None, sc_last_run_at = None,
       sc_last_status = None, sc_last_error = None, sc_last_duration_ms = None, sc_run_count = 0,
       sc_created_at = now, sc_updated_at = now\<rparr>"
    and ins: "sql_insert sc_id row (ss_schedules st) = Inr (ss_schedules st1)"
    and st1: "st1 = st\<lparr>ss_schedules := ss_schedules st1\<rparr>"
    using assms by (auto simp: schedule_create_def Let_def)
  then show "sc_id row = k" "job_row ctx path ownerUid job row"
    by (simp_all add: job_row_def job_input_def principalFromProcess_def accountIdentity_def)
  show "ss_schedules st1 = ss_schedules st @ [row]" using ins by (auto simp: sql_insert_def split: if_splits)
  show "\<forall>x \<in> set (ss_schedules st). sc_id x \<noteq> k"
    using ins \<open>sc_id row = k\<close> by (auto simp: sql_insert_def list_ex_iff split: if_splits)
  show "ss_cron_files st1 = ss_cron_files st" "ss_cron_links st1 = ss_cron_links st" "ss_runs st1 = ss_runs st"
    by (subst st1, simp)+
qed


text \<open>One job: the new row stands after the others, its wake set or not; a failed arming ends the installation.\<close>

lemma armed_rows:
  assumes "ss_schedules st1 = rows @ [row]" "\<forall>x \<in> set rows. sc_id x \<noteq> sc_id row"
  obtains row' where "ss_schedules (fst (armSchedule later wake row st1)) = rows @ [row']" "sc_id row' = sc_id row"
    "\<And>job. job_row ctx path ownerUid job row' = job_row ctx path ownerUid job row"
proof -
  have "sql_update (\<lambda>r. sc_id r = sc_id row) f rows = rows" for f
    using assms(2) by (auto simp: sql_update_def intro: map_idI)
  then have "sql_update (\<lambda>r. sc_id r = sc_id row) f (rows @ [row]) = rows @ [f row]" for f
    by (simp add: sql_update_def)
  with assms(1) have "ss_schedules (fst (armSchedule later wake row st1)) = rows @ [row]
      \<or> (\<exists>w. ss_schedules (fst (armSchedule later wake row st1)) = rows @ [row\<lparr>sc_wake_schedule_id := w, sc_updated_at := later\<rparr>])"
    by (auto simp: armSchedule_def setWakeScheduleId_def update_schedule_def split: sum.splits)
  then show thesis using that by fastforce
qed

lemma armed_rest:
  "ss_cron_files (fst (armSchedule later wake row st)) = ss_cron_files st"
  "ss_cron_links (fst (armSchedule later wake row st)) = ss_cron_links st"
  by (auto simp: armSchedule_def setWakeScheduleId_def update_schedule_def split: sum.splits)

lemma link_rest [simp]:
  "ss_schedules (linkCronFileSchedule p k st) = ss_schedules st" "ss_cron_files (linkCronFileSchedule p k st) = ss_cron_files st"
  by (simp_all add: linkCronFileSchedule_def)

lemma act_bind_fst:
  "fst (act_bind f g s) = (case f s of (s1, Inl e) \<Rightarrow> s1 | (s1, Inr x) \<Rightarrow> fst (g x s1))"
  by (auto simp: act_bind_def split: prod.splits sum.splits)

lemma act_bind_Inr:
  "act_bind f g s = (s2, Inr y) \<longleftrightarrow> (\<exists>s1 x. f s = (s1, Inr x) \<and> g x s1 = (s2, Inr y))"
  by (auto simp: act_bind_def split: prod.splits sum.splits)

lemma install_rows:
  "r \<in> set (ss_schedules (fst (install_jobs ctx now path ownerUid draws jobs st))) \<Longrightarrow>
     r \<in> set (ss_schedules st) \<or> (\<exists>job \<in> set jobs. job_row ctx path ownerUid job r)"
proof (induction ctx now path ownerUid draws jobs st rule: install_jobs.induct)
  case (3 ctx now path ownerUid d draws job jobs st)
  show ?case
  proof (cases "schedule_create (cc_zoned ctx) now (jd_id d) (jd_uuid d) (job_input ctx path ownerUid job) st")
    case (Inl e)
    then show ?thesis using "3.prems" by simp
  next
    case (Inr p)
    obtain st1 row where p: "p = (st1, row)" by (cases p)
    note new = create_job [OF Inr [unfolded p]]
    let ?st2 = "linkCronFileSchedule path (sc_id row) st1"
    obtain row' where armed: "ss_schedules (fst (armSchedule (jd_later d) (jd_wake d) row ?st2)) = ss_schedules st @ [row']"
      and jr: "job_row ctx path ownerUid job row'"
      by (rule armed_rows [of ?st2 "ss_schedules st" row "jd_later d" "jd_wake d" ctx path ownerUid])
        (use new in \<open>auto\<close>)
    show ?thesis
    proof (cases "snd (armSchedule (jd_later d) (jd_wake d) row ?st2)")
      case (Inl e)
      then have "fst (install_jobs ctx now path ownerUid (d # draws) (job # jobs) st)
          = fst (armSchedule (jd_later d) (jd_wake d) row ?st2)"
        by (auto simp: \<open>schedule_create _ _ _ _ _ _ = _\<close> p act_bind_fst split: prod.splits sum.splits)
      then show ?thesis using "3.prems" armed jr by auto
    next
      case ok: (Inr u)
      let ?st3 = "fst (armSchedule (jd_later d) (jd_wake d) row ?st2)"
      have "fst (install_jobs ctx now path ownerUid (d # draws) (job # jobs) st)
          = fst (install_jobs ctx now path ownerUid draws jobs ?st3)"
        using ok by (auto simp: Inr p act_bind_fst split: prod.splits sum.splits)
      with "3.prems" have "r \<in> set (ss_schedules ?st3) \<or> (\<exists>job \<in> set jobs. job_row ctx path ownerUid job r)"
        using "3.IH" [OF Inr p [symmetric]] by simp
      with armed jr show ?thesis by auto
    qed
  qed
qed simp_all

lemma remove_linked_rows:
  "r \<in> set (ss_schedules (fst (remove_linked cancel ks st))) \<Longrightarrow> r \<in> set (ss_schedules st)"
  by (induction cancel ks st rule: remove_linked.induct)
    (auto simp: schedule_remove_def sql_delete_def split: sum.splits option.splits if_splits)

lemma removeLinked_rows:
  "r \<in> set (ss_schedules (fst (removeLinkedSchedules cancel path st))) \<Longrightarrow> r \<in> set (ss_schedules st)"
  by (auto simp: removeLinkedSchedules_def act_bind_fst act_modify_def clearCronFileScheduleLinks_def
      split: prod.splits sum.splits dest: remove_linked_rows)
    (metis fst_conv remove_linked_rows)+

lemma replace_rows:
  assumes "r \<in> set (ss_schedules (fst (replaceCronFile ctx now cancel draws path ownerUid content jobs st)))"
    and "r \<notin> set (ss_schedules st)"
  shows "\<exists>job \<in> set jobs. job_row ctx path ownerUid job r \<and> (\<exists>ys. map_result (check_job ctx) jobs = Inr ys)"
proof (cases "map_result (check_job ctx) jobs")
  case (Inl e)
  with assms show ?thesis by (simp add: replaceCronFile_def)
next
  case (Inr ys)
  let ?st1 = "fst (removeLinkedSchedules cancel path st)"
  have "fst (replaceCronFile ctx now cancel draws path ownerUid content jobs st) = ?st1
    \<or> fst (replaceCronFile ctx now cancel draws path ownerUid content jobs st)
       = fst (install_jobs ctx now path ownerUid draws jobs (upsertCronFile now path ownerUid content ?st1))"
    by (auto simp: replaceCronFile_def Inr act_bind_fst act_modify_def split: prod.splits sum.splits)
  moreover have "r \<notin> set (ss_schedules ?st1)" using assms(2) removeLinked_rows by blast
  ultimately show ?thesis
    using assms(1) install_rows [of r ctx now path ownerUid draws jobs "upsertCronFile now path ownerUid content ?st1"] Inr
    by (auto simp: upsertCronFile_def)
qed

section \<open>What an installation may run\<close>

lemma parsed_user_jobs:
  assumes "crontab_lines ctx (parse_user_line ctx u) tz n ls = Inr jobs" "job \<in> set jobs"
  shows "cj_user job = u"
  using assms
proof (induction ctx "parse_user_line ctx u" tz n ls arbitrary: jobs rule: crontab_lines.induct)
  case (2 ctx tz n l ls)
  then show ?case
    by (fastforce simp: Let_def parse_user_line_def cronJobFromParts_def split: if_splits option.splits)
qed simp

lemma parsed_system_jobs:
  assumes "crontab_lines ctx (parse_system_line ctx) tz n ls = Inr jobs" "job \<in> set jobs"
  shows "\<exists>name. getPasswdByUsername (cc_auth ctx) name = Some (cj_user job)"
  using assms
proof (induction ctx "parse_system_line ctx" tz n ls arbitrary: jobs rule: crontab_lines.induct)
  case (2 ctx tz n l ls)
  then show ?case
    by (fastforce simp: Let_def parse_system_line_def requireUser_def cronJobFromParts_def
        split: if_splits option.splits)
qed simp


lemma checked_jobs: "map_result (check_job ctx) jobs = Inr ys \<Longrightarrow> job \<in> set jobs \<Longrightarrow>
   hasCapability (resolve_caps (resolveGids (cc_auth ctx) (pw_username (cj_user job)) (pw_gid (cj_user job))) (cc_caps ctx)) ''shell.exec''"
  by (induction jobs arbitrary: ys) (auto simp: check_job_def need_def Let_def accountIdentity_def split: if_splits)

lemma requireUser_known: "requireUser ctx username = Inr u \<Longrightarrow> \<exists>name. getPasswdByUsername (cc_auth ctx) name = Some u"
  by (auto simp: requireUser_def split: option.splits)

lemma need_Inr [simp]: "need c m = Inr x \<longleftrightarrow> c"
  by (simp add: need_def)

definition installs_crontab :: "cron_ctx \<Rightarrow> schedule_store \<Rightarrow> schedule_store \<Rightarrow> bool" where
  "installs_crontab ctx st st' \<longleftrightarrow>
     (\<exists>now cancel draws name content.
        st' = fst (installUserCrontab ctx now cancel draws name content st)
        \<or> st' = fst (installSystemCrontab ctx now cancel draws name content st))"

text \<open>
  C15. Every schedule a crontab installation leaves that was not there before, also one that failed half-way,
  runs a command as an existing account whose groups allow shell.exec and whose crontab the caller may
  manage, and belongs to the caller's owner or, for root, to that account.
\<close>

theorem crontab_jobs_are_authorised:
  assumes "installs_crontab ctx st st'" and "r \<in> set (ss_schedules st')" and "r \<notin> set (ss_schedules st)"
  shows "\<exists>u name cmd. getPasswdByUsername (cc_auth ctx) name = Some u \<and> may_manage_crontab ctx u
    \<and> sc_run_as r = PrUser (pw_uid u) (pw_username u) \<and> sc_target r = TCommandExec cmd None None
    \<and> hasCapability (resolve_caps (resolveGids (cc_auth ctx) (pw_username u) (pw_gid u)) (cc_caps ctx)) ''shell.exec''
    \<and> sc_owner_uid r = (if pi_uid (cron_actor ctx) = 0 then pw_uid u else cron_ownerUid ctx)"
proof -
  obtain now cancel draws name content where
    "st' = fst (installUserCrontab ctx now cancel draws name content st)
     \<or> st' = fst (installSystemCrontab ctx now cancel draws name content st)"
    using assms(1) unfolding installs_crontab_def by blast
  then show ?thesis
  proof
    assume st': "st' = fst (installUserCrontab ctx now cancel draws name content st)"
    obtain user n jobs p where ui: "user_install ctx name content = Inr (user, n, jobs, p)"
      using assms(2,3) by (cases "user_install ctx name content") (auto simp: st' installUserCrontab_def)
    then have user: "requireUser ctx name = Inr user" and man: "may_manage_crontab ctx user"
      and parsed: "parseUserCrontab ctx n user = Inr jobs"
      by (auto simp: user_install_def Let_def assertCanManageUserCrontab_def)
    have "r \<in> set (ss_schedules (fst (replaceCronFile ctx now cancel draws p (Some (pw_uid user)) n jobs st)))"
      using assms(2) by (simp add: st' installUserCrontab_def ui)
    from replace_rows [OF this assms(3)] obtain job ys where job: "job \<in> set jobs"
      "job_row ctx p (Some (pw_uid user)) job r" "map_result (check_job ctx) jobs = Inr ys" by blast
    have u: "cj_user job = user" using parsed job(1) by (auto simp: parseUserCrontab_def parseCrontabLines_def dest: parsed_user_jobs)
    have "sc_owner_uid r = (if pi_uid (cron_actor ctx) = 0 then pw_uid user else cron_ownerUid ctx)"
      using job(2) man by (auto simp: job_row_def job_input_def u scheduleOwnerUidForUserCrontab_def may_manage_crontab_def)
    then show ?thesis
      using requireUser_known [OF user] man checked_jobs [OF job(3,1)] job(2) by (auto simp: job_row_def u)
  next
    assume st': "st' = fst (installSystemCrontab ctx now cancel draws name content st)"
    obtain n jobs p where ui: "system_install ctx name content = Inr (n, jobs, p)"
      using assms(2,3) by (cases "system_install ctx name content") (auto simp: st' installSystemCrontab_def)
    then have root: "pi_uid (cron_actor ctx) = 0" and parsed: "parseSystemCrontab ctx n = Inr jobs"
      by (auto simp: system_install_def Let_def assertRoot_def)
    have "r \<in> set (ss_schedules (fst (replaceCronFile ctx now cancel draws p None n jobs st)))"
      using assms(2) by (simp add: st' installSystemCrontab_def ui)
    from replace_rows [OF this assms(3)] obtain job ys where job: "job \<in> set jobs"
      "job_row ctx p None job r" "map_result (check_job ctx) jobs = Inr ys" by blast
    obtain nm where "getPasswdByUsername (cc_auth ctx) nm = Some (cj_user job)"
      using parsed_system_jobs [OF _ job(1)] parsed unfolding parseSystemCrontab_def parseCrontabLines_def by blast
    then show ?thesis
      using root checked_jobs [OF job(3,1)] job(2) by (auto simp: job_row_def may_manage_crontab_def job_input_def)
  qed
qed

section \<open>A successful installation\<close>

lemma lookup_snoc: "sql_lookup key (t @ [r]) k = (case sql_lookup key t k of Some x \<Rightarrow> Some x | None \<Rightarrow> if key r = k then Some r else None)"
  by (induction t) (auto simp: sql_lookup_def)

lemma install_ok:
  assumes "install_jobs ctx now path ownerUid draws jobs st = (st', Inr ())"
  shows "list_all2 (\<lambda>job d. \<exists>r. getStored st' (jd_id d) = Some r \<and> job_row ctx path ownerUid job r) jobs (take (length jobs) draws)
    \<and> ss_cron_files st' = ss_cron_files st
    \<and> (\<forall>k r. getStored st k = Some r \<longrightarrow> getStored st' k = Some r)
    \<and> (\<forall>k. getStored st k = None \<longrightarrow> k \<notin> jd_id ` set (take (length jobs) draws) \<longrightarrow> getStored st' k = None)
    \<and> (\<forall>q k. (q, k) \<in> set (ss_cron_links st') \<longleftrightarrow> (q, k) \<in> set (ss_cron_links st) \<or> (q = path \<and> k \<in> jd_id ` set (take (length jobs) draws)))"
  using assms
proof (induction ctx now path ownerUid draws jobs st rule: install_jobs.induct)
  case (3 ctx now path ownerUid d draws job jobs st)
  obtain st1 row where sc: "schedule_create (cc_zoned ctx) now (jd_id d) (jd_uuid d) (job_input ctx path ownerUid job) st = Inr (st1, row)"
    using "3.prems" by (auto split: sum.splits)
  note new = create_job [OF sc]
  let ?st2 = "linkCronFileSchedule path (sc_id row) st1"
  let ?st3 = "fst (armSchedule (jd_later d) (jd_wake d) row ?st2)"
  obtain row' where armed: "ss_schedules ?st3 = ss_schedules st @ [row']"
    and idr: "sc_id row' = sc_id row" and jr: "job_row ctx path ownerUid job row'"
    by (rule armed_rows [of ?st2 "ss_schedules st" row "jd_later d" "jd_wake d" ctx path ownerUid]) (use new in auto)
  have rest: "install_jobs ctx now path ownerUid draws jobs ?st3 = (st', Inr ())"
    using "3.prems" by (auto simp: sc act_bind_Inr)
  note IH = "3.IH" [OF sc refl rest]
  have fresh: "getStored st (jd_id d) = None" using new(3) by (auto simp: getStored_def lookup_None)
  have here: "getStored ?st3 (jd_id d) = Some row'"
    using fresh idr new(2) unfolding getStored_def armed by (simp add: lookup_snoc)
  have before: "getStored ?st3 k = Some r" if "getStored st k = Some r" for k r
    using that unfolding getStored_def armed by (simp add: lookup_snoc)
  have absent: "getStored ?st3 k = None" if "getStored st k = None" "k \<noteq> jd_id d" for k
    using that idr new(2) unfolding getStored_def armed by (simp add: lookup_snoc)
  have links: "(q, k) \<in> set (ss_cron_links ?st3) \<longleftrightarrow> (q, k) \<in> set (ss_cron_links st) \<or> (q = path \<and> k = jd_id d)" for q k
    using new(2,6) by (auto simp: armed_rest linkCronFileSchedule_def sql_ignore_def list_ex_iff)
  have "list_all2 (\<lambda>job d. \<exists>r. getStored st' (jd_id d) = Some r \<and> job_row ctx path ownerUid job r) (job # jobs) (take (length (job # jobs)) (d # draws))"
    using IH here jr by auto
  moreover have "ss_cron_files st' = ss_cron_files st"
    using IH new(5) by (simp add: armed_rest)
  moreover have "\<forall>k r. getStored st k = Some r \<longrightarrow> getStored st' k = Some r" using IH before by blast
  moreover have "\<forall>k. getStored st k = None \<longrightarrow> k \<notin> jd_id ` set (take (length (job # jobs)) (d # draws)) \<longrightarrow> getStored st' k = None"
    using IH absent by simp
  moreover have "\<forall>q k. (q, k) \<in> set (ss_cron_links st') \<longleftrightarrow> (q, k) \<in> set (ss_cron_links st)
      \<or> (q = path \<and> k \<in> jd_id ` set (take (length (job # jobs)) (d # draws)))"
    using IH links by auto
  ultimately show ?case by blast
qed simp_all


lemma linked_ids: "k \<in> set (cronFileScheduleIds p st) \<longleftrightarrow> (p, k) \<in> set (ss_cron_links st)"
  by (auto simp: cronFileScheduleIds_def image_iff)

lemma remove_linked_ok:
  assumes "remove_linked cancel ks st = (st', Inr ())"
  shows "(\<forall>k. getStored st' k = (if k \<in> set ks then None else getStored st k))
    \<and> ss_cron_files st' = ss_cron_files st \<and> ss_cron_links st' = ss_cron_links st"
  using assms
proof (induction cancel ks st rule: remove_linked.induct)
  case (2 cancel k ks st)
  have del: "getStored (fst (schedule_remove k st)) j = (if j = k then None else getStored st j)" for j
    by (auto simp: schedule_remove_def getStored_def lookup_delete_key split: option.splits)
  have "ss_cron_files (fst (schedule_remove k st)) = ss_cron_files st" "ss_cron_links (fst (schedule_remove k st)) = ss_cron_links st"
    by (auto simp: schedule_remove_def split: option.splits)
  moreover obtain u where u: "(case getStored st k of
              Some r \<Rightarrow> if truthy (sc_wake_schedule_id r) then cancel (the (sc_wake_schedule_id r)) else Inr ()
            | None \<Rightarrow> Inr ()) = Inr u"
    using "2.prems" by (auto split: sum.splits)
  moreover have "remove_linked cancel ks (fst (schedule_remove k st)) = (st', Inr ())"
    using "2.prems" u by simp
  ultimately show ?case using "2.IH" [OF u] del by auto
qed simp

text \<open>
  C37. After a successful installation of a user's crontab reading it gives the normalised text, the schedules linked
  to it are exactly the ones made for its job lines, in order, each with the line's expression and command,
  the schedules linked before are gone, and every other schedule is as it was.
\<close>

theorem installed_crontab_is_in_force:
  assumes "installUserCrontab ctx now cancel draws username content st = (st', Inr ())"
  shows "\<exists>u p jobs. requireUser ctx username = Inr u \<and> userCronPath (pw_username u) = Inr p
    \<and> parseUserCrontab ctx (normalizeCronFileContent content) u = Inr jobs
    \<and> map_option cf_content (getCronFile st' p) = Some (normalizeCronFileContent content)
    \<and> set (cronFileScheduleIds p st') = jd_id ` set (take (length jobs) draws)
    \<and> list_all2 (\<lambda>job d. \<exists>r. getStored st' (jd_id d) = Some r \<and> job_row ctx p (Some (pw_uid u)) job r) jobs (take (length jobs) draws)
    \<and> (\<forall>k. k \<notin> jd_id ` set (take (length jobs) draws) \<longrightarrow>
         getStored st' k = (if k \<in> set (cronFileScheduleIds p st) then None else getStored st k))"
proof -
  obtain user n jobs p where ui: "user_install ctx username content = Inr (user, n, jobs, p)"
    using assms by (cases "user_install ctx username content") (auto simp: installUserCrontab_def)
  then have user: "requireUser ctx username = Inr user" and n: "n = normalizeCronFileContent content"
    and parsed: "parseUserCrontab ctx n user = Inr jobs" and p: "userCronPath (pw_username user) = Inr p"
    by (auto simp: user_install_def Let_def)
  have "replaceCronFile ctx now cancel draws p (Some (pw_uid user)) n jobs st = (st', Inr ())"
    using assms by (simp add: installUserCrontab_def ui)
  then obtain st1 st2 where rem: "removeLinkedSchedules cancel p st = (st1, Inr ())"
    and st2: "st2 = upsertCronFile now p (Some (pw_uid user)) n st1"
    and ins: "install_jobs ctx now p (Some (pw_uid user)) draws jobs st2 = (st', Inr ())"
    by (auto simp: replaceCronFile_def act_bind_Inr act_modify_def split: sum.splits)
  obtain st0 where r0: "remove_linked cancel (cronFileScheduleIds p st) st = (st0, Inr ())"
    and st1: "st1 = clearCronFileScheduleLinks p st0"
    using rem by (auto simp: removeLinkedSchedules_def act_bind_Inr act_modify_def)
  note gone = remove_linked_ok [OF r0]
  have stored: "getStored st2 k = (if k \<in> set (cronFileScheduleIds p st) then None else getStored st k)" for k
    using gone by (simp add: st2 st1 upsertCronFile_def clearCronFileScheduleLinks_def getStored_def)
  have links: "(p, k) \<notin> set (ss_cron_links st2)" for k
    by (auto simp: st2 st1 upsertCronFile_def clearCronFileScheduleLinks_def sql_delete_def)
  have kept: "map_option cf_content (getCronFile st2 p) = Some n"
    by (simp add: st2 upsertCronFile_def getCronFile_def lookup_replace)
  note ok = install_ok [OF ins]
  have "map_option cf_content (getCronFile st' p) = Some n" using kept ok by (simp add: getCronFile_def)
  moreover have "set (cronFileScheduleIds p st') = jd_id ` set (take (length jobs) draws)"
    using ok links by (auto simp: linked_ids)
  moreover have "getStored st' k = (if k \<in> set (cronFileScheduleIds p st) then None else getStored st k)"
    if "k \<notin> jd_id ` set (take (length jobs) draws)" for k
  proof (cases "getStored st2 k")
    case None
    then have "getStored st' k = None" using ok that by blast
    then show ?thesis using None stored [of k] by simp
  next
    case (Some r)
    then have "getStored st' k = Some r" using ok by blast
    then show ?thesis using Some stored [of k] by simp
  qed
  ultimately show ?thesis using user p parsed ok n by (intro exI [of _ user] exI [of _ p] exI [of _ jobs]) simp
qed

lemma remove_linked_returns: "\<exists>st'. remove_linked (\<lambda>_. Inr ()) ks st = (st', Inr ())"
  by (induction ks arbitrary: st) (auto split: option.splits)

text \<open>
  An installation whose first job line names a time that never comes (a 30th of February) is answered with an
  error, but by then the file holds the new text and every schedule linked to the old one is removed: the user is left
  with a crontab of which no line runs.
\<close>

theorem failed_installation_drops_the_old_jobs:
  assumes "user_install ctx username content = Inr (user, n, job # jobs, p)"
    and "map_result (check_job ctx) (job # jobs) = Inr ys"
    and "computeNextRunAt (cc_zoned ctx) (cj_expression job) now = Inl e"
  shows "\<exists>st'. installUserCrontab ctx now (\<lambda>_. Inr ()) (d # draws) username content st = (st', Inl e)
    \<and> map_option cf_content (getCronFile st' p) = Some n \<and> cronFileScheduleIds p st' = []
    \<and> (\<forall>k. getStored st' k = (if k \<in> set (cronFileScheduleIds p st) then None else getStored st k))"
proof -
  obtain st0 where r0: "remove_linked (\<lambda>_. Inr ()) (cronFileScheduleIds p st) st = (st0, Inr ())"
    using remove_linked_returns by blast
  let ?st = "upsertCronFile now p (Some (pw_uid user)) n (clearCronFileScheduleLinks p st0)"
  have failed: "schedule_create (cc_zoned ctx) now (jd_id d) (jd_uuid d) (job_input ctx p (Some (pw_uid user)) job) ?st = Inl e"
    by (simp add: schedule_create_def job_input_def assms(3))
  have "installUserCrontab ctx now (\<lambda>_. Inr ()) (d # draws) username content st = (?st, Inl e)"
    unfolding installUserCrontab_def assms(1,2) replaceCronFile_def sum.case prod.case
    by (simp add: act_bind_def act_modify_def removeLinkedSchedules_def r0 failed)
  moreover have "map_option cf_content (getCronFile ?st p) = Some n"
    by (simp add: upsertCronFile_def getCronFile_def lookup_replace)
  moreover have "cronFileScheduleIds p ?st = []"
    by (auto simp: cronFileScheduleIds_def upsertCronFile_def clearCronFileScheduleLinks_def sql_delete_def filter_empty_conv)
  moreover have "getStored ?st k = (if k \<in> set (cronFileScheduleIds p st) then None else getStored st k)" for k
    using remove_linked_ok [OF r0] by (simp add: upsertCronFile_def clearCronFileScheduleLinks_def getStored_def)
  ultimately show ?thesis by blast
qed

section \<open>Witnesses\<close>

definition demo_cron :: cron_ctx where
  "demo_cron = \<lparr>cc_auth = demo_auth, cc_caps = [\<lparr>cap_gid = 1000, cap_name = ''shell.exec''\<rparr>],
     cc_call = \<lparr>cx_identity = ConnUser (accountIdentity demo_auth demo_user) [], cx_processId = None, cx_callerOwnerUid = None\<rparr>,
     cc_procs = [], cc_timezone = None, cc_validTimezone = (\<lambda>tz. tz = ''UTC''),
     cc_zoned = (\<lambda>tz t. \<lparr>dp_minute = 1, dp_hour = 0, dp_dayOfMonth = 1, dp_month = 1, dp_dayOfWeek = 4\<rparr>)\<rparr>"

definition demo_job :: cron_job where
  "demo_job = \<lparr>cj_lineNumber = 1, cj_user = demo_user, cj_expression = ExCron ''* * * * *'' ''UTC'', cj_command = ''ls''\<rparr>"

definition demo_draw :: job_draw where
  "demo_draw = \<lparr>jd_id = ''s1'', jd_uuid = ''o1'', jd_wake = Inr ''w1'', jd_later = 1\<rparr>"

definition empty_store :: schedule_store where
  "empty_store = \<lparr>ss_schedules = [], ss_runs = [], ss_cron_files = [], ss_cron_links = []\<rparr>"

lemma demo_user_install:
  "user_install demo_cron ''sam'' ''* * * * * ls'' = Inr (demo_user, ''* * * * * ls'' @ [CHR 0x0A], [demo_job], ''/var/spool/cron/sam'')"
  by code_simp

lemma cron_scan_first: "cronFieldsMatch f (local c) \<Longrightarrow> 0 < n \<Longrightarrow> cron_scan f local n c = Some c"
  by (cases n) simp_all

lemma demo_next_run: "computeNextRunAt (cc_zoned demo_cron) (ExCron ''* * * * *'' ''UTC'') 0 = Inr (Some 60000)"
proof -
  obtain f where f: "parseCronFields ''* * * * *'' = Inr f"
    and m: "cronFieldsMatch f \<lparr>dp_minute = 1, dp_hour = 0, dp_dayOfMonth = 1, dp_month = 1, dp_dayOfWeek = 4\<rparr>"
  proof -
    have "case parseCronFields ''* * * * *'' of Inl e \<Rightarrow> False
      | Inr f \<Rightarrow> cronFieldsMatch f \<lparr>dp_minute = 1, dp_hour = 0, dp_dayOfMonth = 1, dp_month = 1, dp_dayOfWeek = 4\<rparr>"
      by code_simp
    then show thesis using that by (auto split: sum.splits)
  qed
  have "cron_scan f (cc_zoned demo_cron ''UTC'') MAX_CRON_SCAN_MINUTES 60000 = Some 60000"
    by (rule cron_scan_first) (simp_all add: demo_cron_def m MAX_CRON_SCAN_MINUTES_def)
  then show ?thesis by (simp add: computeNextRunAt_def computeCronNextRunAt_def f first_minute_after_def)
qed

lemma demo_check: "check_job demo_cron demo_job = Inr ()"
  by code_simp

lemma demo_job_fields: "cj_expression demo_job = ExCron ''* * * * *'' ''UTC''" "cj_command demo_job = ''ls''"
  "jd_id demo_draw = ''s1''" "jd_wake demo_draw = Inr ''w1''"
  by (simp_all add: demo_job_def demo_draw_def)

lemma demo_created:
  assumes "ss_schedules st = []"
  shows "\<exists>row. schedule_create (cc_zoned demo_cron) 0 (jd_id demo_draw) (jd_uuid demo_draw) (job_input demo_cron p u demo_job) st
      = Inr (st\<lparr>ss_schedules := [row]\<rparr>, row) \<and> sc_id row = ''s1'' \<and> sc_enabled row \<and> sc_next_run_at row = Some 60000"
  by (simp add: schedule_create_def job_input_def demo_job_fields demo_next_run sql_insert_def assms Let_def)

lemma demo_installed:
  obtains st' r where "installUserCrontab demo_cron 0 (\<lambda>_. Inr ()) [demo_draw] ''sam'' ''* * * * * ls'' empty_store = (st', Inr ())"
    "ss_schedules st' = [r]" "ss_cron_links st' = [(''/var/spool/cron/sam'', ''s1'')]"
proof -
  let ?p = "''/var/spool/cron/sam''"
  let ?st = "upsertCronFile 0 ?p (Some (pw_uid demo_user)) (''* * * * * ls'' @ [CHR 0x0A]) empty_store"
  have removed: "removeLinkedSchedules (\<lambda>_. Inr ()) ?p empty_store = (empty_store, Inr ())"
    by (simp add: removeLinkedSchedules_def cronFileScheduleIds_def empty_store_def act_bind_def act_modify_def
        clearCronFileScheduleLinks_def sql_delete_def)
  have st: "ss_schedules ?st = []" "ss_cron_links ?st = []" by (simp_all add: upsertCronFile_def empty_store_def)
  obtain row where row: "schedule_create (cc_zoned demo_cron) 0 (jd_id demo_draw) (jd_uuid demo_draw)
        (job_input demo_cron ?p (Some (pw_uid demo_user)) demo_job) ?st = Inr (?st\<lparr>ss_schedules := [row]\<rparr>, row)"
    and r: "sc_id row = ''s1''" "sc_enabled row" "sc_next_run_at row = Some 60000"
    using demo_created [OF st(1)] by blast
  have "\<exists>st' r. install_jobs demo_cron 0 ?p (Some (pw_uid demo_user)) [demo_draw] [demo_job] ?st = (st', Inr ())
      \<and> ss_schedules st' = [r] \<and> ss_cron_links st' = [(?p, ''s1'')]"
    unfolding install_jobs.simps row sum.case prod.case
    by (simp add: act_bind_def armSchedule_def r demo_job_fields setWakeScheduleId_def update_schedule_def
        linkCronFileSchedule_def sql_update_def sql_ignore_def st del: append.simps)
  then show thesis
    using that by (auto simp: installUserCrontab_def demo_user_install replaceCronFile_def demo_check removed
        act_bind_def act_modify_def simp del: append.simps install_jobs.simps)
qed

lemma crontab_jobs_are_authorised_witness:
  "\<exists>st' r u cmd. installs_crontab demo_cron empty_store st' \<and> ss_schedules st' = [r]
     \<and> may_manage_crontab demo_cron u \<and> sc_run_as r = PrUser (pw_uid u) (pw_username u)
     \<and> sc_target r = TCommandExec cmd None None"
proof -
  obtain st' r where st': "installUserCrontab demo_cron 0 (\<lambda>_. Inr ()) [demo_draw] ''sam'' ''* * * * * ls'' empty_store = (st', Inr ())"
    and r: "ss_schedules st' = [r]" using demo_installed by metis
  then have i: "installs_crontab demo_cron empty_store st'"
    unfolding installs_crontab_def by (metis fst_conv)
  from crontab_jobs_are_authorised [OF i, of r] r i show ?thesis by (auto simp: empty_store_def)
qed

lemma installed_crontab_is_in_force_witness:
  "\<exists>st' r. installUserCrontab demo_cron 0 (\<lambda>_. Inr ()) [demo_draw] ''sam'' ''* * * * * ls'' empty_store = (st', Inr ())
     \<and> getStored st' ''s1'' = Some r \<and> sc_target r = TCommandExec ''ls'' None None
     \<and> cronFileScheduleIds ''/var/spool/cron/sam'' st' = [''s1'']"
proof -
  obtain st' r where st': "installUserCrontab demo_cron 0 (\<lambda>_. Inr ()) [demo_draw] ''sam'' ''* * * * * ls'' empty_store = (st', Inr ())"
    and links: "ss_cron_links st' = [(''/var/spool/cron/sam'', ''s1'')]" using demo_installed by metis
  have u: "requireUser demo_cron ''sam'' = Inr demo_user" "userCronPath (pw_username demo_user) = Inr ''/var/spool/cron/sam''"
    "parseUserCrontab demo_cron (normalizeCronFileContent ''* * * * * ls'') demo_user = Inr [demo_job]"
    using demo_user_install by (auto simp: user_install_def Let_def)
  from installed_crontab_is_in_force [OF st'] obtain x where
    "getStored st' ''s1'' = Some x" "job_row demo_cron ''/var/spool/cron/sam'' (Some (pw_uid demo_user)) demo_job x"
    by (auto simp: u demo_draw_def)
  then show ?thesis using st' by (simp add: job_row_def demo_job_fields cronFileScheduleIds_def links)
qed


definition february_job :: cron_job where
  "february_job = demo_job\<lparr>cj_expression := ExCron ''0 0 30 2 *'' ''UTC''\<rparr>"

lemma february_install:
  "user_install demo_cron ''sam'' ''0 0 30 2 * ls'' = Inr (demo_user, ''0 0 30 2 * ls'' @ [CHR 0x0A], [february_job], ''/var/spool/cron/sam'')"
  by code_simp

lemma february_check: "map_result (check_job demo_cron) [february_job] = Inr [()]"
  by code_simp

lemma cron_scan_never: "(\<And>t. \<not> cronFieldsMatch f (local t)) \<Longrightarrow> cron_scan f local n c = None"
  by (induction n arbitrary: c) simp_all

lemma february_never: "\<exists>m. computeNextRunAt (cc_zoned demo_cron) (cj_expression february_job) 0 = throw m"
proof -
  let ?parts = "\<lparr>dp_minute = 1, dp_hour = 0, dp_dayOfMonth = 1, dp_month = 1, dp_dayOfWeek = 4\<rparr>"
  have "case parseCronFields ''0 0 30 2 *'' of Inl e \<Rightarrow> False | Inr f \<Rightarrow> \<not> cronFieldsMatch f ?parts"
    by code_simp
  then obtain f where f: "parseCronFields ''0 0 30 2 *'' = Inr f" and m: "\<not> cronFieldsMatch f ?parts"
    by (auto split: sum.splits)
  have "cron_scan f (cc_zoned demo_cron ''UTC'') MAX_CRON_SCAN_MINUTES c = None" for c
    by (rule cron_scan_never) (simp add: demo_cron_def m)
  then show ?thesis by (simp add: february_job_def computeNextRunAt_def computeCronNextRunAt_def f)
qed

lemma failed_installation_drops_the_old_jobs_witness:
  "\<exists>st' m. installUserCrontab demo_cron 0 (\<lambda>_. Inr ()) [demo_draw] ''sam'' ''0 0 30 2 * ls'' empty_store = (st', throw m)
     \<and> map_option cf_content (getCronFile st' ''/var/spool/cron/sam'') = Some (''0 0 30 2 * ls'' @ [CHR 0x0A])"
proof -
  obtain m where m: "computeNextRunAt (cc_zoned demo_cron) (cj_expression february_job) 0 = throw m"
    using february_never by blast
  from failed_installation_drops_the_old_jobs [OF february_install february_check m, of demo_draw "[]" empty_store]
  show ?thesis by blast
qed

end
