(* ===== verification/AiConfig.thy ===== *)
theory AiConfig
  imports Prelude
begin

text \<open>
  The AI settings of a process (\<open>process/ai-config.ts\<close>): which keys it has, the snapshot a process stores, the
  model profiles of an owner, and the redaction of the secret keys. The text of a value that is not a string
  and the parser of a stored document are arguments, and so is the sort key of \<open>localeCompare\<close>. The keys of
  a document are distinct. A timestamp is a JSON number; profiles are ordered by its whole milliseconds.
\<close>

definition PROCESS_AI_CONFIG_KEY_PREFIX :: string where
  "PROCESS_AI_CONFIG_KEY_PREFIX = ''config/ai/''"

definition PROCESS_AI_CONFIG_KEYS :: "string list" where
  "PROCESS_AI_CONFIG_KEYS =
    [''config/ai/provider'', ''config/ai/model'', ''config/ai/base_url'',
     ''config/ai/provider_style'', ''config/ai/transport_target'', ''config/ai/fallback_model_profile'',
     ''config/ai/api_key'', ''config/ai/reasoning'', ''config/ai/max_tokens'',
     ''config/ai/context_window_tokens'', ''config/ai/max_context_bytes'', ''config/ai/generation/timeout_ms'',
     ''config/ai/generation/streaming'', ''config/ai/image/read/max_bytes'', ''config/ai/image/read/max_tokens'',
     ''config/ai/image/read/max_objects'', ''config/ai/image/read/timeout_ms'', ''config/ai/image/generation/provider'',
     ''config/ai/image/generation/model'', ''config/ai/image/generation/api_key'', ''config/ai/transcription/provider'',
     ''config/ai/transcription/model'', ''config/ai/transcription/api_key'', ''config/ai/transcription/max_bytes'',
     ''config/ai/speech/provider'', ''config/ai/speech/model'', ''config/ai/speech/api_key'',
     ''config/ai/speech/speaker'', ''config/ai/speech/encoding'', ''config/ai/speech/max_chars'',
     ''config/ai/speech/timeout_ms'']"

definition PROCESS_AI_MODEL_PROFILE_EXCLUDED_KEYS :: "string list" where
  "PROCESS_AI_MODEL_PROFILE_EXCLUDED_KEYS = [''config/ai/fallback_model_profile'']"

definition PROCESS_AI_CONFIG_SECRET_KEYS :: "string list" where
  "PROCESS_AI_CONFIG_SECRET_KEYS =
     filter (\<lambda>key. key = ''config/ai/api_key'' \<or> suffix ''/api_key'' key) PROCESS_AI_CONFIG_KEYS"

definition PROCESS_AI_ROOT_FILES :: "string list" where
  "PROCESS_AI_ROOT_FILES = [''effective.json'', ''local.json'', ''profile'', ''profiles'']"

record ai_model_profile =
  mp_id :: string
  mp_name :: string
  mp_values :: "(string \<times> string) list"
  mp_createdAt :: js_number
  mp_updatedAt :: js_number

record ai_profile_ref =
  pf_id :: "string option"
  pf_name :: "string option"
  pf_appliedAt :: js_number

record ai_config_snapshot =
  as_values :: "(string \<times> string) list"
  as_updatedAt :: js_number
  as_profile :: "ai_profile_ref option"

section \<open>Keys and paths\<close>

definition isProcessAiConfigKey :: "string \<Rightarrow> bool" where
  "isProcessAiConfigKey key \<longleftrightarrow> key \<in> set PROCESS_AI_CONFIG_KEYS"

definition processAiConfigSuffix :: "string \<Rightarrow> string" where
  "processAiConfigSuffix key =
     (if prefix PROCESS_AI_CONFIG_KEY_PREFIX key then drop (length PROCESS_AI_CONFIG_KEY_PREFIX) key else key)"

definition joined_parts :: "string list \<Rightarrow> string" where
  "joined_parts parts = js_join ''/'' (filter (\<lambda>p. p \<noteq> []) parts)"

definition processAiPathToConfigKey :: "string list \<Rightarrow> string option" where
  "processAiPathToConfigKey parts =
     (let suff = joined_parts parts in
      if suff = [] \<or> suff \<in> set PROCESS_AI_ROOT_FILES then None
      else let key = PROCESS_AI_CONFIG_KEY_PREFIX @ suff
           in if isProcessAiConfigKey key then Some key else None)"

text \<open>The child a key contributes to the listing of a directory.\<close>

definition dir_child :: "string \<Rightarrow> string \<Rightarrow> string option" where
  "dir_child pre key =
     (let suff = processAiConfigSuffix key in
      if pre \<noteq> [] \<and> \<not> prefix (pre @ ''/'') suff then None
      else let rest = (if pre \<noteq> [] then drop (length (pre @ ''/'')) suff else suff);
               child = hd (js_split (CHR ''/'') rest)
           in if child \<noteq> [] then Some child else None)"

definition processAiConfigDirEntries :: "string list \<Rightarrow> string list" where
  "processAiConfigDirEntries parts =
     (let pre = joined_parts parts
      in sort (remdups ((if pre = [] then PROCESS_AI_ROOT_FILES else [])
           @ List.map_filter (dir_child pre) PROCESS_AI_CONFIG_KEYS)))"

section \<open>Values and snapshots\<close>

text \<open>\<open>String(value ?? "")\<close>.\<close>

definition js_text :: "(json \<Rightarrow> string) \<Rightarrow> json option \<Rightarrow> string" where
  "js_text as_text v =
     (case v of None \<Rightarrow> [] | Some JNull \<Rightarrow> [] | Some (JStr s) \<Rightarrow> s | Some w \<Rightarrow> as_text w)"

definition normalizeProcessAiConfigValues :: "(json \<Rightarrow> string) \<Rightarrow> (string \<times> json) list \<Rightarrow> (string \<times> string) list" where
  "normalizeProcessAiConfigValues as_text raw =
     List.map_filter (\<lambda>(key, v).
       let normalized = js_trim (js_text as_text (Some v)) in
       if isProcessAiConfigKey key \<and> normalized \<noteq> [] then Some (key, normalized) else None) raw"

definition normalizeOptionalText :: "(json \<Rightarrow> string) \<Rightarrow> json option \<Rightarrow> string option" where
  "normalizeOptionalText as_text v =
     (let normalized = js_trim (js_text as_text v) in if normalized \<noteq> [] then Some normalized else None)"

text \<open>\<open>typeof v === "number" && Number.isFinite(v) && v > 0\<close>, and then \<open>v\<close>.\<close>

definition positive_number :: "json option \<Rightarrow> js_number option" where
  "positive_number v =
     (case v of
        Some (JNum (IntNum i)) \<Rightarrow> if i > 0 then Some (IntNum i) else None
      | Some (JNum (FracNum i)) \<Rightarrow> if i \<ge> 0 then Some (FracNum i) else None
      | _ \<Rightarrow> None)"

definition normalizeProfileRef :: "(json \<Rightarrow> string) \<Rightarrow> json option \<Rightarrow> js_number \<Rightarrow> ai_profile_ref option" where
  "normalizeProfileRef as_text raw fallbackAppliedAt =
     (case raw of
        Some (JObj kvs) \<Rightarrow>
          (let i = normalizeOptionalText as_text (map_of kvs ''id'');
               name = normalizeOptionalText as_text (map_of kvs ''name'')
           in if i = None \<and> name = None then None
              else Some \<lparr>pf_id = i, pf_name = name,
                         pf_appliedAt = coalesce (positive_number (map_of kvs ''appliedAt'')) fallbackAppliedAt\<rparr>)
      | _ \<Rightarrow> None)"

definition createProcessAiConfigSnapshot :: "(json \<Rightarrow> string) \<Rightarrow> (string \<times> json) list \<Rightarrow> json option \<Rightarrow> int \<Rightarrow> ai_config_snapshot" where
  "createProcessAiConfigSnapshot as_text values profile now =
     \<lparr>as_values = normalizeProcessAiConfigValues as_text values, as_updatedAt = IntNum now,
      as_profile = normalizeProfileRef as_text profile (IntNum now)\<rparr>"

definition normalizeProcessAiConfigSnapshot :: "(json \<Rightarrow> string) \<Rightarrow> int \<Rightarrow> json option \<Rightarrow> ai_config_snapshot option" where
  "normalizeProcessAiConfigSnapshot as_text now raw =
     (if \<not> (case raw of Some (JObj _) \<Rightarrow> True | Some (JArr _) \<Rightarrow> True | _ \<Rightarrow> False) then None
      else
        (let field = (\<lambda>k. case raw of Some r \<Rightarrow> json_get r k | None \<Rightarrow> None);
             updatedAt = coalesce (positive_number (field ''updatedAt'')) (IntNum now)
         in Some \<lparr>as_values = (case field ''values'' of Some (JObj kvs) \<Rightarrow> normalizeProcessAiConfigValues as_text kvs | _ \<Rightarrow> []),
                  as_updatedAt = updatedAt,
                  as_profile = normalizeProfileRef as_text (field ''profile'') updatedAt\<rparr>))"

section \<open>Secrets\<close>

definition redactProcessAiConfigValue :: "string \<Rightarrow> string option \<Rightarrow> string" where
  "redactProcessAiConfigValue key v =
     (if \<not> truthy v then []
      else if key \<in> set PROCESS_AI_CONFIG_SECRET_KEYS then ''redacted'' else the v)"

definition redactProcessAiConfigValues :: "(string \<times> string) list \<Rightarrow> (string \<times> string) list" where
  "redactProcessAiConfigValues values = map (\<lambda>(key, v). (key, redactProcessAiConfigValue key (Some v))) values"

definition redactProcessAiConfigSnapshot :: "ai_config_snapshot option \<Rightarrow> ai_config_snapshot option" where
  "redactProcessAiConfigSnapshot snapshot =
     map_option (\<lambda>s. s\<lparr>as_values := redactProcessAiConfigValues (as_values s)\<rparr>) snapshot"

definition omitProcessAiConfigSecrets :: "(string \<times> string) list \<Rightarrow> (string \<times> string) list" where
  "omitProcessAiConfigSecrets values = filter (\<lambda>(key, v). key \<notin> set PROCESS_AI_CONFIG_SECRET_KEYS) values"

section \<open>Model profiles\<close>

fun collapse_ws :: "string \<Rightarrow> string" where
  "collapse_ws [] = []"
| "collapse_ws [c] = (if js_ws c then '' '' else [c])"
| "collapse_ws (c # d # s) =
     (if js_ws c then (if js_ws d then collapse_ws (d # s) else CHR '' '' # collapse_ws (d # s))
      else c # collapse_ws (d # s))"

definition normalizeProfileText :: "(json \<Rightarrow> string) \<Rightarrow> json option \<Rightarrow> string" where
  "normalizeProfileText as_text v = collapse_ws (js_trim (js_text as_text v))"

definition normalizeProfileTimestamp :: "json option \<Rightarrow> js_number" where
  "normalizeProfileTimestamp v = coalesce (positive_number v) (IntNum 0)"

fun whole_ms :: "js_number \<Rightarrow> int" where
  "whole_ms (IntNum i) = i"
| "whole_ms (FracNum i) = i"
| "whole_ms NonFinite = 0"

definition profile_id_char :: "char \<Rightarrow> bool" where
  "profile_id_char c \<longleftrightarrow> is_lower_az c \<or> is_digit c \<or> c = CHR ''_'' \<or> c = CHR ''-''"

definition normalizeProcessAiModelProfileValues :: "(json \<Rightarrow> string) \<Rightarrow> (string \<times> json) list \<Rightarrow> (string \<times> string) list" where
  "normalizeProcessAiModelProfileValues as_text raw =
     filter (\<lambda>(key, v). key \<notin> set PROCESS_AI_MODEL_PROFILE_EXCLUDED_KEYS) (normalizeProcessAiConfigValues as_text raw)"

definition normalizeProcessAiModelProfile :: "(json \<Rightarrow> string) \<Rightarrow> json \<Rightarrow> ai_model_profile option" where
  "normalizeProcessAiModelProfile as_text raw =
     (case raw of
        JObj kvs \<Rightarrow>
          (let i = filter profile_id_char (js_lower (normalizeProfileText as_text (map_of kvs ''id'')));
               name = normalizeProfileText as_text (map_of kvs ''name'')
           in if i = [] \<or> name = [] then None
              else Some \<lparr>mp_id = i, mp_name = name,
                 mp_values = (case map_of kvs ''values'' of Some (JObj vs) \<Rightarrow> normalizeProcessAiModelProfileValues as_text vs | _ \<Rightarrow> []),
                 mp_createdAt = normalizeProfileTimestamp (map_of kvs ''createdAt''),
                 mp_updatedAt = normalizeProfileTimestamp (map_of kvs ''updatedAt'')\<rparr>)
      | _ \<Rightarrow> None)"

definition processAiModelProfileSecretConfigKey :: "int \<Rightarrow> string \<Rightarrow> string \<Rightarrow> string" where
  "processAiModelProfileSecretConfigKey ownerUid profileId configKey =
     ''users/'' @ show_int ownerUid @ ''/ai/model_profiles/'' @ profileId @ ''/'' @ processAiConfigSuffix configKey"

text \<open>\<open>values[key] = value\<close> on an object: in place when the key is there, else at the end.\<close>

definition put_value :: "string \<Rightarrow> string \<Rightarrow> (string \<times> string) list \<Rightarrow> (string \<times> string) list" where
  "put_value k v values =
     (if list_ex (\<lambda>(x, _). x = k) values then map (\<lambda>(x, w). (x, if x = k then v else w)) values
      else values @ [(k, v)])"

definition hydrateProcessAiModelProfileSecrets :: "int \<Rightarrow> (string \<Rightarrow> string option) \<Rightarrow> ai_model_profile \<Rightarrow> ai_model_profile" where
  "hydrateProcessAiModelProfileSecrets ownerUid getConfigValue profile =
     profile\<lparr>mp_values := fold (\<lambda>key values.
        let v = getConfigValue (processAiModelProfileSecretConfigKey ownerUid (mp_id profile) key)
        in if truthy v then put_value key (the v) values else values)
      PROCESS_AI_CONFIG_SECRET_KEYS (mp_values profile)\<rparr>"

definition parseProcessAiModelProfiles :: "(json \<Rightarrow> string) \<Rightarrow> (string \<Rightarrow> json result) \<Rightarrow> (string \<Rightarrow> string) \<Rightarrow> string option \<Rightarrow> int
    \<Rightarrow> (string \<Rightarrow> string option) option \<Rightarrow> ai_model_profile list" where
  "parseProcessAiModelProfiles as_text parse collate raw ownerUid getConfigValue =
     (if \<not> truthy raw then []
      else case parse (the raw) of
        Inl e \<Rightarrow> []
      | Inr payload \<Rightarrow>
          (let profiles = List.map_filter (normalizeProcessAiModelProfile as_text)
                            (case json_get payload ''profiles'' of Some (JArr ps) \<Rightarrow> ps | _ \<Rightarrow> []);
               hydrated = (case getConfigValue of
                             Some get \<Rightarrow> map (hydrateProcessAiModelProfileSecrets ownerUid get) profiles
                           | None \<Rightarrow> profiles)
           in sort_key (\<lambda>p. - whole_ms (mp_updatedAt p)) (sort_key (\<lambda>p. collate (mp_name p)) hydrated)))"

definition findProcessAiModelProfile :: "(json \<Rightarrow> string) \<Rightarrow> (string \<Rightarrow> json result) \<Rightarrow> (string \<Rightarrow> string) \<Rightarrow> string option \<Rightarrow> int \<Rightarrow> string
    \<Rightarrow> (string \<Rightarrow> string option) option \<Rightarrow> ai_model_profile option" where
  "findProcessAiModelProfile as_text parse collate raw ownerUid selector getConfigValue =
     (let normalized = js_lower (js_trim selector) in
      if normalized = [] then None
      else find (\<lambda>p. js_lower (mp_id p) = normalized \<or> js_lower (mp_name p) = normalized)
             (parseProcessAiModelProfiles as_text parse collate raw ownerUid getConfigValue))"


section \<open>The listing agrees with the keys\<close>

definition path_part :: "string \<Rightarrow> bool" where
  "path_part p \<longleftrightarrow> p \<noteq> [] \<and> CHR ''/'' \<notin> set p"

lemma joined_path: "list_all path_part parts \<Longrightarrow> joined_parts parts = js_join ''/'' parts"
  by (simp add: joined_parts_def path_part_def list_all_iff filter_True)

lemma ai_split_joined: "list_all path_part parts \<Longrightarrow> parts \<noteq> [] \<Longrightarrow> js_split (CHR ''/'') (js_join ''/'' parts) = parts"
  by (rule js_split_js_join) (auto simp: path_part_def list_all_iff)

lemma join_append: "xs \<noteq> [] \<Longrightarrow> ys \<noteq> [] \<Longrightarrow> js_join sep (xs @ ys) = js_join sep xs @ sep @ js_join sep ys"
  by (induction sep xs rule: js_join.induct) (auto simp: neq_Nil_conv)

lemma ai_join_not_Nil: "xs \<noteq> [] \<Longrightarrow> list_all path_part xs \<Longrightarrow> js_join ''/'' xs \<noteq> []"
proof -
  assume "xs \<noteq> []" "list_all path_part xs"
  then obtain x ys where "xs = x # ys" "x \<noteq> []" by (auto simp: path_part_def neq_Nil_conv)
  then show ?thesis by (cases ys) auto
qed

lemma split_below:
  assumes "list_all path_part parts" and "parts \<noteq> []"
  shows "(\<exists>more. js_split (CHR ''/'') s = parts @ n # more) \<longleftrightarrow>
    prefix (js_join ''/'' parts @ ''/'') s \<and> hd (js_split (CHR ''/'') (drop (length (js_join ''/'' parts @ ''/'')) s)) = n"
    (is "?L \<longleftrightarrow> ?R")
proof
  assume ?L
  then obtain more where more: "js_split (CHR ''/'') s = parts @ n # more" by blast
  have "s = js_join ''/'' (js_split (CHR ''/'') s)" by simp
  then have s: "s = js_join ''/'' parts @ ''/'' @ js_join ''/'' (n # more)"
    unfolding more using join_append [OF assms(2), of "n # more" "''/''"] by simp
  have "\<And>x. x \<in> set (n # more) \<Longrightarrow> CHR ''/'' \<notin> set x"
    using js_split_parts_no_sep [of _ "CHR ''/''" s] unfolding more by auto
  then have "js_split (CHR ''/'') (js_join ''/'' (n # more)) = n # more" by (intro js_split_js_join) auto
  then show ?R unfolding s by simp
next
  assume R: ?R
  then obtain rest where s: "s = js_join ''/'' parts @ CHR ''/'' # rest" by (auto simp: prefix_def)
  with R have "hd (js_split (CHR ''/'') rest) = n" by simp
  then have "js_split (CHR ''/'') s = parts @ n # tl (js_split (CHR ''/'') rest)"
    using js_split_not_Nil [of "CHR ''/''" rest]
    by (auto simp: s js_split_at ai_split_joined [OF assms] neq_Nil_conv)
  then show ?L by blast
qed

lemma keys_are_paths:
  "list_all (\<lambda>key. prefix PROCESS_AI_CONFIG_KEY_PREFIX key
     \<and> list_all (\<lambda>p. p \<noteq> []) (js_split (CHR ''/'') (processAiConfigSuffix key))
     \<and> processAiConfigSuffix key \<notin> set PROCESS_AI_ROOT_FILES \<and> processAiConfigSuffix key \<noteq> []) PROCESS_AI_CONFIG_KEYS"
  by code_simp

lemma root_files_are_names: "list_all path_part PROCESS_AI_ROOT_FILES"
  by code_simp

lemma path_key:
  assumes "list_all path_part parts" and "parts \<noteq> []"
  shows "processAiPathToConfigKey parts \<noteq> None \<longleftrightarrow>
    (\<exists>key \<in> set PROCESS_AI_CONFIG_KEYS. js_split (CHR ''/'') (processAiConfigSuffix key) = parts)"
proof -
  let ?j = "js_join ''/'' parts"
  have "processAiPathToConfigKey parts \<noteq> None \<longleftrightarrow> ?j \<notin> set PROCESS_AI_ROOT_FILES \<and> PROCESS_AI_CONFIG_KEY_PREFIX @ ?j \<in> set PROCESS_AI_CONFIG_KEYS"
    using ai_join_not_Nil [OF assms(2,1)]
    by (simp add: processAiPathToConfigKey_def joined_path assms(1) isProcessAiConfigKey_def Let_def)
  also have "\<dots> \<longleftrightarrow> (\<exists>key \<in> set PROCESS_AI_CONFIG_KEYS. processAiConfigSuffix key = ?j)"
  proof
    assume "?j \<notin> set PROCESS_AI_ROOT_FILES \<and> PROCESS_AI_CONFIG_KEY_PREFIX @ ?j \<in> set PROCESS_AI_CONFIG_KEYS"
    then show "\<exists>key \<in> set PROCESS_AI_CONFIG_KEYS. processAiConfigSuffix key = ?j"
      by (intro bexI [of _ "PROCESS_AI_CONFIG_KEY_PREFIX @ ?j"]) (simp_all add: processAiConfigSuffix_def)
  next
    assume "\<exists>key \<in> set PROCESS_AI_CONFIG_KEYS. processAiConfigSuffix key = ?j"
    then obtain key where k: "key \<in> set PROCESS_AI_CONFIG_KEYS" and j: "processAiConfigSuffix key = ?j" by blast
    from k keys_are_paths have p: "prefix PROCESS_AI_CONFIG_KEY_PREFIX key" "processAiConfigSuffix key \<notin> set PROCESS_AI_ROOT_FILES"
      by (simp_all add: list_all_iff)
    then have "key = PROCESS_AI_CONFIG_KEY_PREFIX @ ?j"
      unfolding j [symmetric] processAiConfigSuffix_def by (auto simp: prefix_def)
    with k p(2) j show "?j \<notin> set PROCESS_AI_ROOT_FILES \<and> PROCESS_AI_CONFIG_KEY_PREFIX @ ?j \<in> set PROCESS_AI_CONFIG_KEYS"
      by simp
  qed
  also have "\<dots> \<longleftrightarrow> (\<exists>key \<in> set PROCESS_AI_CONFIG_KEYS. js_split (CHR ''/'') (processAiConfigSuffix key) = parts)"
    by (metis ai_split_joined [OF assms] js_join_js_split)
  finally show ?thesis .
qed

lemma dir_child_Some:
  assumes "list_all path_part parts" and "path_part n"
  shows "dir_child (js_join ''/'' parts) key = Some n \<longleftrightarrow>
    (\<exists>more. js_split (CHR ''/'') (processAiConfigSuffix key) = parts @ n # more)"
proof (cases "parts = []")
  case True
  obtain c cs where "js_split (CHR ''/'') (processAiConfigSuffix key) = c # cs"
    by (cases "js_split (CHR ''/'') (processAiConfigSuffix key)") auto
  then show ?thesis using True assms(2) by (auto simp: dir_child_def Let_def path_part_def)
next
  case False
  show ?thesis
    unfolding split_below [OF assms(1) False]
    using ai_join_not_Nil [OF False assms(1)] assms(2) by (auto simp: dir_child_def Let_def path_part_def)
qed

text \<open>
  The listing of a directory of a process's AI settings names exactly what can be opened below it: a root file,
  or the first component of a path that leads to a key.
\<close>

theorem ai_listing_matches_keys:
  assumes "list_all path_part parts" and "path_part n"
  shows "n \<in> set (processAiConfigDirEntries parts) \<longleftrightarrow>
    (parts = [] \<and> n \<in> set PROCESS_AI_ROOT_FILES)
    \<or> (\<exists>more. list_all path_part more \<and> processAiPathToConfigKey (parts @ n # more) \<noteq> None)"
proof -
  have all: "list_all path_part (js_split (CHR ''/'') (processAiConfigSuffix key))" if "key \<in> set PROCESS_AI_CONFIG_KEYS" for key
    using keys_are_paths that js_split_parts_no_sep by (fastforce simp: list_all_iff path_part_def)
  have "n \<in> set (processAiConfigDirEntries parts) \<longleftrightarrow>
    (parts = [] \<and> n \<in> set PROCESS_AI_ROOT_FILES)
    \<or> (\<exists>key \<in> set PROCESS_AI_CONFIG_KEYS. dir_child (js_join ''/'' parts) key = Some n)"
    using ai_join_not_Nil [OF _ assms(1)]
    by (auto simp: processAiConfigDirEntries_def Let_def joined_path [OF assms(1)] List.map_filter_def image_iff)
  also have "(\<exists>key \<in> set PROCESS_AI_CONFIG_KEYS. dir_child (js_join ''/'' parts) key = Some n) \<longleftrightarrow>
    (\<exists>more. list_all path_part more \<and> processAiPathToConfigKey (parts @ n # more) \<noteq> None)"
    (is "?A \<longleftrightarrow> ?B")
  proof
    assume ?A
    then obtain key more where key: "key \<in> set PROCESS_AI_CONFIG_KEYS"
      "js_split (CHR ''/'') (processAiConfigSuffix key) = parts @ n # more"
      unfolding dir_child_Some [OF assms] by blast
    then have "list_all path_part (parts @ n # more)" using all by metis
    with key show ?B using path_key [of "parts @ n # more"] by auto
  next
    assume ?B
    then obtain more where "list_all path_part more" "processAiPathToConfigKey (parts @ n # more) \<noteq> None" by blast
    then show ?A unfolding dir_child_Some [OF assms] using path_key [of "parts @ n # more"] assms by auto
  qed
  finally show ?thesis .
qed

section \<open>What a stored snapshot reads back as\<close>

fun option_json :: "json option \<Rightarrow> string \<Rightarrow> (string \<times> json) list" where
  "option_json None k = []"
| "option_json (Some v) k = [(k, v)]"

definition profile_ref_json :: "ai_profile_ref \<Rightarrow> json" where
  "profile_ref_json p =
     JObj (option_json (map_option JStr (pf_id p)) ''id'' @ option_json (map_option JStr (pf_name p)) ''name''
       @ [(''appliedAt'', JNum (pf_appliedAt p))])"

text \<open>A snapshot as the document it is stored as.\<close>

definition snapshot_json :: "ai_config_snapshot \<Rightarrow> json" where
  "snapshot_json s =
     JObj ([(''version'', JNum (IntNum 1)), (''values'', JObj (map (\<lambda>(k, v). (k, JStr v)) (as_values s))),
            (''updatedAt'', JNum (as_updatedAt s))]
           @ option_json (map_option profile_ref_json (as_profile s)) ''profile'')"

lemma normalize_values_idem:
  "normalizeProcessAiConfigValues as_text (map (\<lambda>(k, v). (k, JStr v)) (normalizeProcessAiConfigValues as_text raw))
     = normalizeProcessAiConfigValues as_text raw"
  by (induction raw) (auto simp: normalizeProcessAiConfigValues_def List.map_filter_def js_text_def Let_def split: if_splits)

lemma optional_idem:
  "normalizeOptionalText as_text (map_option JStr (normalizeOptionalText as_text v)) = normalizeOptionalText as_text v"
  by (auto simp: normalizeOptionalText_def Let_def js_text_def)

lemma ref_fields:
  "map_of (option_json (map_option JStr a) ''id'' @ option_json (map_option JStr b) ''name'' @ [(''appliedAt'', c)]) ''id'' = map_option JStr a"
  "map_of (option_json (map_option JStr a) ''id'' @ option_json (map_option JStr b) ''name'' @ [(''appliedAt'', c)]) ''name'' = map_option JStr b"
  "map_of (option_json (map_option JStr a) ''id'' @ option_json (map_option JStr b) ''name'' @ [(''appliedAt'', c)]) ''appliedAt'' = Some c"
  by (cases a; cases b; simp)+

text \<open>A timestamp that passes the test of a stored one.\<close>

definition good_stamp :: "js_number \<Rightarrow> bool" where
  "good_stamp t \<longleftrightarrow> positive_number (Some (JNum t)) = Some t"

lemma good_stamps: "good_stamp t \<Longrightarrow> good_stamp (coalesce (positive_number v) t)"
  by (auto simp: good_stamp_def positive_number_def coalesce_def split: option.splits json.splits js_number.splits)

lemma normalize_ref_idem:
  assumes "normalizeProfileRef as_text raw t = Some p" and "good_stamp t"
  shows "normalizeProfileRef as_text (Some (profile_ref_json p)) t' = Some p"
proof -
  obtain kvs where raw: "raw = Some (JObj kvs)"
    using assms(1) by (auto simp: normalizeProfileRef_def split: option.splits json.splits)
  let ?i = "normalizeOptionalText as_text (map_of kvs ''id'')" and ?n = "normalizeOptionalText as_text (map_of kvs ''name'')"
  have p: "p = \<lparr>pf_id = ?i, pf_name = ?n, pf_appliedAt = coalesce (positive_number (map_of kvs ''appliedAt'')) t\<rparr>"
    and some: "\<not> (?i = None \<and> ?n = None)"
    using assms(1) by (auto simp: raw normalizeProfileRef_def Let_def split: if_splits)
  show ?thesis
    using some good_stamps [OF assms(2), of "map_of kvs ''appliedAt''", unfolded good_stamp_def]
    by (simp only: p normalizeProfileRef_def profile_ref_json_def ref_fields optional_idem Let_def option.case json.case
        ai_profile_ref.simps) simp
qed

text \<open>
  What a process stores of its AI settings reads back as itself, whenever it is read: normalising a document that
  was made from a normalised snapshot changes nothing.
\<close>

theorem ai_snapshot_round_trip:
  assumes "now > 0"
  shows "normalizeProcessAiConfigSnapshot as_text later
      (Some (snapshot_json (createProcessAiConfigSnapshot as_text values profile now)))
    = Some (createProcessAiConfigSnapshot as_text values profile now)"
proof -
  let ?s = "createProcessAiConfigSnapshot as_text values profile now"
  have stamp: "good_stamp (IntNum now)" using assms by (simp add: good_stamp_def positive_number_def)
  have profile: "normalizeProfileRef as_text (map_option profile_ref_json (as_profile ?s)) t = as_profile ?s" for t
  proof (cases "as_profile ?s")
    case None
    then show ?thesis by (simp add: normalizeProfileRef_def)
  next
    case (Some p)
    then have "normalizeProfileRef as_text profile (IntNum now) = Some p" by (simp add: createProcessAiConfigSnapshot_def)
    from normalize_ref_idem [OF this stamp] Some show ?thesis by simp
  qed
  have fields: "json_get (snapshot_json ?s) ''values'' = Some (JObj (map (\<lambda>(k, v). (k, JStr v)) (as_values ?s)))"
    "json_get (snapshot_json ?s) ''updatedAt'' = Some (JNum (as_updatedAt ?s))"
    "json_get (snapshot_json ?s) ''profile'' = map_option profile_ref_json (as_profile ?s)"
    by (cases "as_profile ?s"; simp add: snapshot_json_def json_get_def)+
  have shape: "(case Some (snapshot_json ?s) of Some (JObj _) \<Rightarrow> True | Some (JArr _) \<Rightarrow> True | _ \<Rightarrow> False)"
    unfolding snapshot_json_def by simp
  have vals: "normalizeProcessAiConfigValues as_text (map (\<lambda>(k, v). (k, JStr v)) (as_values ?s)) = as_values ?s"
    by (simp add: createProcessAiConfigSnapshot_def normalize_values_idem)
  have at: "positive_number (Some (JNum (as_updatedAt ?s))) = Some (as_updatedAt ?s)"
    using stamp by (simp add: createProcessAiConfigSnapshot_def good_stamp_def)
  show ?thesis
    using shape by (simp add: normalizeProcessAiConfigSnapshot_def fields vals at profile)
qed

section \<open>Redaction hides the secrets\<close>

text \<open>Two lists of values that differ at most in what their secrets are.\<close>

definition same_but_secrets :: "(string \<times> string) list \<Rightarrow> (string \<times> string) list \<Rightarrow> bool" where
  "same_but_secrets = list_all2 (\<lambda>(k, v) (k', v').
     k = k' \<and> (v = [] \<longleftrightarrow> v' = []) \<and> (k \<in> set PROCESS_AI_CONFIG_SECRET_KEYS \<or> v = v'))"

lemma redaction_hides:
  "same_but_secrets a b \<Longrightarrow> redactProcessAiConfigValues a = redactProcessAiConfigValues b"
  "same_but_secrets a b \<Longrightarrow> omitProcessAiConfigSecrets a = omitProcessAiConfigSecrets b"
  unfolding same_but_secrets_def
  by (induction rule: list_all2_induct)
    (auto simp: redactProcessAiConfigValues_def redactProcessAiConfigValue_def omitProcessAiConfigSecrets_def truthy_def)

lemma ai_listing_matches_keys_witness:
  "''transcription'' \<in> set (processAiConfigDirEntries [])
     \<longleftrightarrow> (\<exists>more. list_all path_part more \<and> processAiPathToConfigKey (''transcription'' # more) \<noteq> None)"
  using ai_listing_matches_keys [of "[]" "''transcription''"]
  by (simp add: path_part_def PROCESS_AI_ROOT_FILES_def)

lemma ai_snapshot_round_trip_witness:
  "normalizeProcessAiConfigSnapshot (\<lambda>_. []) 9
      (Some (snapshot_json (createProcessAiConfigSnapshot (\<lambda>_. []) [(''config/ai/model'', JStr '' m '')] None 5)))
    = Some \<lparr>as_values = [(''config/ai/model'', ''m'')], as_updatedAt = IntNum 5, as_profile = None\<rparr>"
  by (subst ai_snapshot_round_trip, simp, code_simp)

end
