(* ===== verification/Agents.thy ===== *)
theory Agents
  imports Processes AiConfig
begin

text \<open>
  Personal agents and the account calls (\<open>kernel/agents.ts\<close>) over the account tables. The search for a free
  name is the loop of the source with its termination. The upper case of a letter, the key by which
  \<open>localeCompare\<close> orders names and the answer of the services that lay out a home are arguments; an
  operation reads nothing of the tables after it waited for that layout, except \<open>handleAccountCreate\<close>,
  which takes what other operations did during its two waits as an argument.
\<close>

definition AGENT_NAME_POOL :: "string list" where
  "AGENT_NAME_POOL = [''friday'', ''sol'', ''echo'', ''iris'', ''juno'', ''atlas'', ''mira'', ''nova'', ''vera'', ''ada'']"

definition normalizeAgentName :: "auth_db \<Rightarrow> json \<Rightarrow> string option" where
  "normalizeAgentName db v = normalizeAccountName db v"

section \<open>A free name\<close>

definition agent_name :: "nat \<Rightarrow> string" where
  "agent_name n = ''agent'' @ show_nat n"

text \<open>The names that are taken.\<close>

definition taken_names :: "auth_db \<Rightarrow> string list" where
  "taken_names db = map pw_username (db_passwd db) @ map g_name (db_groups db)"

lemma available_iff: "isUsernameAvailable db name \<longleftrightarrow> name \<notin> set (taken_names db)"
  by (auto simp: isUsernameAvailable_def getPasswdByUsername_def getGroupByName_def taken_names_def lookup_None)

lemma agent_name_inject [simp]: "agent_name m = agent_name n \<longleftrightarrow> m = n"
  unfolding agent_name_def by (metis digits_val_show same_append_eq)

definition taken_suffixes :: "auth_db \<Rightarrow> nat \<Rightarrow> nat set" where
  "taken_suffixes db n = {m. n \<le> m \<and> agent_name m \<in> set (taken_names db)}"

lemma finite_taken [simp]: "finite (taken_suffixes db n)"
proof -
  have "taken_suffixes db n \<subseteq> agent_name -` set (taken_names db)" by (auto simp: taken_suffixes_def)
  moreover have "finite (agent_name -` set (taken_names db))" by (intro finite_vimageI injI) simp_all
  ultimately show ?thesis by (rule finite_subset)
qed

lemma taken_step:
  assumes "\<not> isUsernameAvailable db (agent_name n)"
  shows "taken_suffixes db n = insert n (taken_suffixes db (Suc n))" and "n \<notin> taken_suffixes db (Suc n)"
  using assms by (auto simp: taken_suffixes_def available_iff not_less_eq_eq [symmetric] le_Suc_eq)

function pick_suffix :: "auth_db \<Rightarrow> nat \<Rightarrow> string" where
  "pick_suffix db n =
     (if isUsernameAvailable db (agent_name n) then agent_name n else pick_suffix db (Suc n))"
  by pat_completeness auto
termination
proof (relation "measure (\<lambda>(db, n). card (taken_suffixes db n))")
  show "((db, Suc n), (db, n)) \<in> measure (\<lambda>(db, n). card (taken_suffixes db n))"
    if "\<not> isUsernameAvailable db (agent_name n)" for db n
    using taken_step [OF that] by simp
qed simp

declare pick_suffix.simps [simp del]

definition pickAgentName :: "auth_db \<Rightarrow> string option \<Rightarrow> string" where
  "pickAgentName db preferred =
     (case (case preferred of Some p \<Rightarrow> normalizeAgentName db (JStr p) | None \<Rightarrow> None) of
        Some name \<Rightarrow> name
      | None \<Rightarrow>
          (case find (isUsernameAvailable db) AGENT_NAME_POOL of
             Some name \<Rightarrow> name
           | None \<Rightarrow> pick_suffix db 1))"

lemma pick_suffix_free:
  "isUsernameAvailable db (pick_suffix db n)
     \<and> (\<exists>m \<le> n + card (taken_suffixes db n). pick_suffix db n = agent_name m)"
proof (induction db n rule: pick_suffix.induct)
  case (1 db n)
  show ?case
  proof (cases "isUsernameAvailable db (agent_name n)")
    case True
    then show ?thesis by (auto simp: pick_suffix.simps [of db n])
  next
    case False
    have "card (taken_suffixes db n) = Suc (card (taken_suffixes db (Suc n)))"
      using taken_step [OF False] by simp
    with 1 [OF False] False show ?thesis by (auto simp: pick_suffix.simps [of db n])
  qed
qed

lemma card_taken: "card (taken_suffixes db n) \<le> length (taken_names db)"
proof -
  have "card (taken_suffixes db n) = card (agent_name ` taken_suffixes db n)"
    by (subst card_image) (auto intro: inj_onI)
  also have "\<dots> \<le> card (set (taken_names db))" by (intro card_mono) (auto simp: taken_suffixes_def)
  also have "\<dots> \<le> length (taken_names db)" by (rule card_length)
  finally show ?thesis .
qed

lemma length_show_nat: "n < 10 ^ Suc k \<Longrightarrow> length (show_nat n) \<le> Suc k"
proof (induction k arbitrary: n)
  case (Suc k)
  then show ?case
    by (cases "n < 10") (auto simp: show_nat.simps [of n] less_mult_imp_div_less mult.commute)
qed (simp add: show_nat.simps)

lemma agent_name_ok: "n < 10 ^ 20 \<Longrightarrow> ACCOUNT_USERNAME_RE (agent_name n)"
  using length_show_nat [of n 19] show_nat_digits [of _ n]
  by (auto simp: ACCOUNT_USERNAME_RE_def agent_name_def is_lower_az_def list_all_iff)

lemma pool_ok: "list_all ACCOUNT_USERNAME_RE AGENT_NAME_POOL"
  by code_simp

text \<open>
  The search for an agent's name ends, whatever accounts exist, with a name that no account and no group has
  and that an account may have (while there are fewer than 10^19 names).
\<close>

theorem picked_agent_name_is_free:
  assumes "length (taken_names db) < 10 ^ 19"
  shows "isUsernameAvailable db (pickAgentName db preferred) \<and> ACCOUNT_USERNAME_RE (pickAgentName db preferred)"
proof (cases "case preferred of Some p \<Rightarrow> normalizeAgentName db (JStr p) | None \<Rightarrow> None")
  case (Some name)
  then show ?thesis
    by (auto simp: pickAgentName_def normalizeAgentName_def normalizeAccountName_def Let_def split: option.splits if_splits)
next
  case none: None
  show ?thesis
  proof (cases "find (isUsernameAvailable db) AGENT_NAME_POOL")
    case (Some name)
    then show ?thesis using none pool_ok find_Some_in [OF Some] by (simp add: pickAgentName_def list_all_iff)
  next
    case None
    obtain m where m: "m \<le> 1 + card (taken_suffixes db 1)" "pick_suffix db 1 = agent_name m"
      and free: "isUsernameAvailable db (pick_suffix db 1)"
      using pick_suffix_free [of db 1] by blast
    have "m < 10 ^ 20" using m(1) card_taken [of db 1] assms by simp
    then show ?thesis using none None m(2) free agent_name_ok by (simp add: pickAgentName_def)
  qed
qed


section \<open>Names for people\<close>

definition legacyPersonalAgentDisplayName :: "string \<Rightarrow> string" where
  "legacyPersonalAgentDisplayName ownerUsername = ownerUsername @ [CHR 0x27] @ ''s agent''"

text \<open>Splitting at runs of hyphens and underscores, with the empty parts dropped, is splitting at each of them.\<close>

definition personalAgentDisplayName :: "(string \<Rightarrow> string) \<Rightarrow> string \<Rightarrow> string" where
  "personalAgentDisplayName upper username =
     (let words = filter (\<lambda>w. w \<noteq> []) (map js_trim
                    (js_split (CHR ''-'') (map (\<lambda>c. if c = CHR ''_'' then CHR ''-'' else c) username)))
      in if words = [] then username
         else js_join '' '' (map (\<lambda>w. upper (take 1 w) @ drop 1 w) words))"

definition no_patch :: user_patch where
  "no_patch = \<lparr>up_uid = None, up_gid = None, up_gecos = None, up_home = None, up_shell = None\<rparr>"

definition reconcilePersonalAgentDisplayName :: "(string \<Rightarrow> string) \<Rightarrow> int passwd_entry \<Rightarrow> proc_identity
    \<Rightarrow> (auth_db, int passwd_entry option) action" where
  "reconcilePersonalAgentDisplayName upper entry human db =
     (if js_trim (pw_gecos entry) \<noteq> legacyPersonalAgentDisplayName (pi_username human)
      then (db, Inr (getPasswdByUid db (pw_uid entry)))
      else case updateUser (pw_username entry)
                  (no_patch\<lparr>up_gecos := Some (personalAgentDisplayName upper (pw_username entry))\<rparr>) db of
        Inl e \<Rightarrow> (db, Inl e)
      | Inr (db', _) \<Rightarrow> (db', Inr (getPasswdByUid db' (pw_uid entry))))"

section \<open>Context files\<close>

definition normalizeContextFileName :: "(json \<Rightarrow> string) \<Rightarrow> json option \<Rightarrow> string option" where
  "normalizeContextFileName as_text v =
     (let raw = js_trim (js_text as_text v) in
      if raw = [] \<or> CHR ''/'' \<in> set raw \<or> CHR 0x5C \<in> set raw \<or> CHR 0x00 \<in> set raw then None
      else
        (let name = (if suffix ''.md'' raw then raw else raw @ ''.md'');
             base = take (length name - 3) name
         in if base = [] \<or> base = ''.'' \<or> base = ''..'' then None else Some name))"

record context_file =
  cf_name :: string
  cf_text :: string

definition put_file :: "context_file \<Rightarrow> context_file list \<Rightarrow> context_file list" where
  "put_file f fs =
     (if list_ex (\<lambda>x. cf_name x = cf_name f) fs then map (\<lambda>x. if cf_name x = cf_name f then f else x) fs
      else fs @ [f])"

fun normalize_files :: "(json \<Rightarrow> string) \<Rightarrow> json list \<Rightarrow> context_file list \<Rightarrow> context_file list result" where
  "normalize_files as_text [] files = Inr files"
| "normalize_files as_text (item # items) files =
     (if \<not> (case item of JObj _ \<Rightarrow> True | JArr _ \<Rightarrow> True | _ \<Rightarrow> False)
      then throw ''contextFiles entries must be objects''
      else case normalizeContextFileName as_text (json_get item ''name'') of
        None \<Rightarrow> throw ''contextFiles entries require local markdown file names''
      | Some name \<Rightarrow>
          normalize_files as_text items
            (put_file \<lparr>cf_name = name, cf_text = js_text as_text (json_get item ''text'')\<rparr> files))"

definition normalizeAccountContextFiles :: "(json \<Rightarrow> string) \<Rightarrow> json option \<Rightarrow> context_file list result" where
  "normalizeAccountContextFiles as_text v =
     (case v of
        None \<Rightarrow> Inr []
      | Some (JArr items) \<Rightarrow> normalize_files as_text items []
      | Some _ \<Rightarrow> throw ''contextFiles must be an array'')"

section \<open>The personal agent\<close>

record agent_platform =
  ap_upper :: "string \<Rightarrow> string"
  ap_as_text :: "json \<Rightarrow> string"
  ap_kdf :: kdf
  ap_now :: int
  ap_salt :: bytes
  ap_layout :: "proc_identity \<Rightarrow> context_file list \<Rightarrow> unit result"
  ap_meanwhile :: "nat \<Rightarrow> account_state \<Rightarrow> account_state"

definition personal_agent_input :: "agent_platform \<Rightarrow> string \<Rightarrow> int \<Rightarrow> create_account_input" where
  "personal_agent_input pf name human =
     \<lparr>ca_kind = AAgent, ca_username = name, ca_gecos = Some (personalAgentDisplayName (ap_upper pf) name),
      ca_password = None, ca_ownerUid = Some human, ca_shared = Some True, ca_crossMemberOwner = Some True,
      ca_personalAgentOf = Some human, ca_capabilities = None, ca_accessGroupName = None\<rparr>"

text \<open>An account is created and then its home is laid out, which may fail after the account exists.\<close>

definition create_with_home :: "agent_platform \<Rightarrow> context_file list \<Rightarrow> auth_db \<Rightarrow> create_account_input
    \<Rightarrow> (account_state, proc_identity) action" where
  "create_with_home pf files db inp s =
     (case createAccount (ap_kdf pf) (ap_now pf) (ap_salt pf) db inp s of
        (s', Inl e) \<Rightarrow> (s', Inl e)
      | (s', Inr (ident, _)) \<Rightarrow> (s', bind_result (ap_layout pf ident files) (\<lambda>_. Inr ident)))"

definition ensurePersonalAgent :: "agent_platform \<Rightarrow> proc_identity \<Rightarrow> string option
    \<Rightarrow> (account_state, proc_identity \<times> bool) action" where
  "ensurePersonalAgent pf human preferredName s =
     (if pi_uid human < 1000 \<or> isPersonalAgentUid (ac_auth s) (pi_uid human) then (s, Inr (human, False))
      else case (case getPersonalAgentUid (ac_auth s) (pi_uid human) of
                   Some u \<Rightarrow> getPasswdByUid (ac_auth s) u | None \<Rightarrow> None) of
        Some entry \<Rightarrow>
          (case reconcilePersonalAgentDisplayName (ap_upper pf) entry human (ac_auth s) of
             (a, Inl e) \<Rightarrow> (s\<lparr>ac_auth := a\<rparr>, Inl e)
           | (a, Inr reconciled) \<Rightarrow>
               (let ident = accountIdentity a (coalesce reconciled entry)
                in (s\<lparr>ac_auth := a\<rparr>, bind_result (ap_layout pf ident []) (\<lambda>_. Inr (ident, False)))))
      | None \<Rightarrow>
          (let name = pickAgentName (ac_auth s) preferredName
           in act_bind (create_with_home pf [] (ac_auth s) (personal_agent_input pf name (pi_uid human)))
                (\<lambda>ident. act_return (ident, True)) s))"

section \<open>The account calls\<close>

record account_create_args =
  ac_kind :: "string option"
  ac_username :: json
  ac_password :: "string option"
  ac_gecos :: "string option"
  ac_persona :: "json option"
  ac_contextFiles :: "json option"

record account_create_result =
  ar_account :: proc_identity
  ar_kind :: account_kind
  ar_personalAgent :: "proc_identity option"

text \<open>The trimmed text, or nothing when it is empty.\<close>

definition trimmed_gecos :: "account_create_args \<Rightarrow> string option" where
  "trimmed_gecos args =
     (case ac_gecos args of Some g \<Rightarrow> if js_trim g \<noteq> [] then Some (js_trim g) else None | None \<Rightarrow> None)"

text \<open>The persona is the argument's, or that of the file that bears its name; it is seeded before the other files.\<close>

definition seeded_files :: "account_create_args \<Rightarrow> context_file list \<Rightarrow> context_file list" where
  "seeded_files args files =
     (let file = find (\<lambda>f. cf_name f = ''05-persona.md'') files;
          explicit = (case ac_persona args of Some (JStr p) \<Rightarrow> if js_trim p \<noteq> [] then Some p else None | _ \<Rightarrow> None);
          persona = (case explicit of Some p \<Rightarrow> Some p
                     | None \<Rightarrow> (case file of Some f \<Rightarrow> if js_trim (cf_text f) \<noteq> [] then Some (cf_text f) else None | None \<Rightarrow> None))
      in (if truthy persona then [\<lparr>cf_name = ''05-persona.md'', cf_text = the persona\<rparr>] else [])
           @ filter (\<lambda>f. cf_name f \<noteq> ''05-persona.md'') files)"

definition handleAccountCreate :: "agent_platform \<Rightarrow> process_row list \<Rightarrow> call_ctx \<Rightarrow> account_create_args
    \<Rightarrow> (account_state, account_create_result) action" where
  "handleAccountCreate pf procs ctx args s =
     (case normalizeAccountName (ac_auth s) (ac_username args) of
        None \<Rightarrow> (s, throw (''Invalid or unavailable username: '' @ js_text (ap_as_text pf) (Some (ac_username args))))
      | Some name \<Rightarrow>
          if ac_kind args = Some ''human''
          then
            (if ''*'' \<notin> set (identity_capabilities (cx_identity ctx))
             then (s, throw ''Creating human accounts requires root'')
             else
               (case createAccount_prepare (ap_kdf pf) (ap_salt pf) (ac_auth s)
                       \<lparr>ca_kind = AHuman, ca_username = name, ca_gecos = trimmed_gecos args, ca_password = ac_password args,
                        ca_ownerUid = None, ca_shared = Some True, ca_crossMemberOwner = None,
                        ca_personalAgentOf = None, ca_capabilities = None, ca_accessGroupName = None\<rparr> of
                  Inl e \<Rightarrow> (s, Inl e)
                | Inr _ \<Rightarrow>
                    act_bind (create_with_home pf [] (ac_auth s)
                       \<lparr>ca_kind = AHuman, ca_username = name, ca_gecos = trimmed_gecos args, ca_password = ac_password args,
                        ca_ownerUid = None, ca_shared = Some True, ca_crossMemberOwner = None,
                        ca_personalAgentOf = None, ca_capabilities = None, ca_accessGroupName = None\<rparr>) (\<lambda>ident.
                    act_bind (act_modify (ap_meanwhile pf 1)) (\<lambda>_.
                    act_bind (ensurePersonalAgent pf ident None) (\<lambda>(agent, _).
                    act_return \<lparr>ar_account = ident, ar_kind = AHuman, ar_personalAgent = Some agent\<rparr>)))
                      (ap_meanwhile pf 0 s)))
          else
            (let ownerUid = resolveCallerOwnerUid procs ctx;
                 ownerName = (case getPasswdByUid (ac_auth s) ownerUid of Some e \<Rightarrow> pw_username e | None \<Rightarrow> ''user'')
             in case normalizeAccountContextFiles (ap_as_text pf) (ac_contextFiles args) of
                  Inl e \<Rightarrow> (s, Inl e)
                | Inr files \<Rightarrow>
                    act_bind (create_with_home pf (seeded_files args files) (ac_auth s)
                       \<lparr>ca_kind = AAgent, ca_username = name,
                        ca_gecos = Some (coalesce (trimmed_gecos args) (ownerName @ [CHR 0x27] @ ''s agent'')),
                        ca_password = None, ca_ownerUid = Some ownerUid, ca_shared = Some True,
                        ca_crossMemberOwner = Some True, ca_personalAgentOf = None, ca_capabilities = None,
                        ca_accessGroupName = None\<rparr>) (\<lambda>ident.
                    act_return \<lparr>ar_account = ident, ar_kind = AAgent, ar_personalAgent = None\<rparr>) s))"

datatype account_relation = RelSelf | RelPersonalAgent | RelAgent | RelHuman

fun relation_rank :: "account_relation \<Rightarrow> nat" where
  "relation_rank RelSelf = 0"
| "relation_rank RelPersonalAgent = 1"
| "relation_rank RelAgent = 2"
| "relation_rank RelHuman = 3"

record account_summary =
  sm_uid :: int
  sm_username :: string
  sm_displayName :: string
  sm_relation :: account_relation
  sm_capabilities :: "string list"
  sm_gecos :: "string option"

definition resolveAccountCapabilities :: "account_state \<Rightarrow> string \<Rightarrow> int \<Rightarrow> string list" where
  "resolveAccountCapabilities s username primaryGid =
     sort (resolve_caps (resolveGids (ac_auth s) username primaryGid) (ac_caps s))"

definition account_relation_of :: "auth_db \<Rightarrow> int \<Rightarrow> int passwd_entry \<Rightarrow> account_relation" where
  "account_relation_of db ownerUid e =
     (if pw_uid e = ownerUid then RelSelf
      else if getPersonalAgentUid db ownerUid = Some (pw_uid e) then RelPersonalAgent
      else if (case getShadowByUsername db (pw_username e) of Some sh \<Rightarrow> isLocked sh | None \<Rightarrow> False) then RelAgent
      else RelHuman)"

definition account_list_owner :: "process_row list \<Rightarrow> call_ctx \<Rightarrow> int option \<Rightarrow> int" where
  "account_list_owner procs ctx uid =
     (if pi_uid (identity_process (cx_identity ctx)) = 0 \<and> uid \<noteq> None then the uid
      else resolveCallerOwnerUid procs ctx)"

definition handleAccountList :: "(string \<Rightarrow> string) \<Rightarrow> process_row list \<Rightarrow> call_ctx \<Rightarrow> int option \<Rightarrow> account_state \<Rightarrow> account_summary list" where
  "handleAccountList collate procs ctx uid s =
     (let callerUid = pi_uid (identity_process (cx_identity ctx));
          ownerUid = account_list_owner procs ctx uid;
          bypass = callerUid = 0 \<and> ownerUid = callerUid;
          accounts = map (\<lambda>e. \<lparr>sm_uid = pw_uid e, sm_username = pw_username e,
                sm_displayName = (if js_trim (pw_gecos e) \<noteq> [] then js_trim (pw_gecos e) else pw_username e),
                sm_relation = account_relation_of (ac_auth s) ownerUid e,
                sm_capabilities = resolveAccountCapabilities s (pw_username e) (pw_gid e),
                sm_gecos = (if pw_gecos e \<noteq> [] then Some (pw_gecos e) else None)\<rparr>)
              (filter (\<lambda>e. \<not> (pw_uid e \<noteq> 0 \<and> pw_uid e < 1000) \<and> canOwnerRunAsAccount (ac_auth s) ownerUid e bypass)
                 (getPasswdEntries (ac_auth s)))
      in sort_key (\<lambda>a. relation_rank (sm_relation a)) (sort_key (\<lambda>a. collate (sm_username a)) accounts))"


section \<open>One agent for each human\<close>

lemma join_group_agents [simp]: "db_agents (join_group g u a) = db_agents a"
  by (simp add: join_group_def updateGroupMembers_def split: option.splits)

lemma created_agent:
  fixes pf :: agent_platform and preferred :: "string option" and s :: account_state and h :: int
  assumes inv: "auth_inv (ac_auth s)" and small: "length (taken_names (ac_auth s)) < 10 ^ 19"
    and human: "getPasswdByUid (ac_auth s) h = Some he"
  defines "inp \<equiv> personal_agent_input pf (pickAgentName (ac_auth s) preferred) h"
  shows "\<exists>s' ident gid entry. createAccount (ap_kdf pf) (ap_now pf) (ap_salt pf) (ac_auth s) inp s = (s', Inr (ident, gid))
     \<and> auth_inv (ac_auth s') \<and> ident = accountIdentity (ac_auth s') entry
     \<and> getPasswdByUid (ac_auth s') (pi_uid ident) = Some entry \<and> getPersonalAgentUid (ac_auth s') h = Some (pi_uid ident)
     \<and> getPasswdByUid (ac_auth s') h = Some he \<and> pi_uid ident \<noteq> h
     \<and> db_agents (ac_auth s') = sql_replace fst (h, pi_uid ident) (db_agents (ac_auth s))"
proof -
  let ?a = "ac_auth s"
  have name: "isUsernameAvailable ?a (ca_username inp)" "ACCOUNT_USERNAME_RE (ca_username inp)"
    using picked_agent_name_is_free [OF small, of preferred] by (simp_all add: inp_def personal_agent_input_def)
  have fields: "ca_accessGroupName inp = None" "ca_personalAgentOf inp = Some h" "ca_kind inp = AAgent"
    by (simp_all add: inp_def personal_agent_input_def)
  have none: "getPasswdByUsername ?a (ca_username inp) = None" using name(1) by (simp add: isUsernameAvailable_def)
  obtain plan where prep: "createAccount_prepare (ap_kdf pf) (ap_salt pf) ?a inp = Inr plan"
    using name(2) none fields by (auto simp: createAccount_prepare_def Let_def truthy_def)
  obtain s' ident gid where run: "createAccount_commit (ap_now pf) inp plan s = (s', Inr (ident, gid))"
    and a1: "ac_auth s' = add_access_group inp (account_joins (nextUid ?a) inp plan (account_rows (ap_now pf) (nextUid ?a) inp plan ?a))"
    and ident: "ident = accountIdentity (ac_auth s') (the (getPasswdByUid (ac_auth s') (nextUid ?a)))"
    using commit_run [OF none, of "ap_now pf" plan] fields by (auto simp: truthy_def)
  have a': "ac_auth s' = account_joins (nextUid ?a) inp plan (account_rows (ap_now pf) (nextUid ?a) inp plan ?a)"
    using a1 fields by (simp add: add_access_group_def truthy_def)
  have agents: "db_agents (ac_auth s') = sql_replace fst (h, nextUid ?a) (db_agents ?a)"
    using fields by (simp add: a' account_joins_def account_rows_def Let_def setPersonalAgent_def)
  obtain pw where rows: "db_passwd (ac_auth s') = db_passwd ?a @ [pw]" and pw: "pw_uid pw = nextUid ?a"
    by (simp add: a' account_rows_def)
  have "\<forall>x \<in> set (db_passwd ?a). pw_uid x \<noteq> pw_uid pw" using fresh_uid(1) [of ?a] by (auto simp: pw image_iff)
  then have byuid: "getPasswdByUid (ac_auth s') (nextUid ?a) = Some pw"
    using find_last [of "db_passwd ?a" pw_uid pw] by (simp add: rows getPasswdByUid_def pw)
  then have ident': "ident = accountIdentity (ac_auth s') pw" "pi_uid ident = nextUid ?a"
    using ident pw by (simp_all add: accountIdentity_def)
  have "h \<in> pw_uid ` set (db_passwd ?a)"
    using human lookup_Some [of pw_uid "db_passwd ?a" h he] by (auto simp: getPasswdByUid_def)
  then have "nextUid ?a \<noteq> h" using fresh_uid(1) [of ?a] by auto
  moreover have "getPasswdByUid (ac_auth s') h = Some he"
    using human by (simp add: rows getPasswdByUid_def sql_lookup_def find_append)
  moreover have "getPersonalAgentUid (ac_auth s') h = Some (nextUid ?a)"
    by (simp add: getPersonalAgentUid_def agents lookup_replace)
  moreover have "auth_inv (ac_auth s')"
    unfolding a' by (intro account_joins_inv account_rows_inv inv none)
  moreover have "createAccount (ap_kdf pf) (ap_now pf) (ap_salt pf) ?a inp s = (s', Inr (ident, gid))"
    using prep run by (simp add: createAccount_def)
  ultimately show ?thesis using ident' byuid agents by auto
qed

text \<open>What a call that finds an agent leaves: the same agent, at most renamed for people.\<close>

lemma found_agent:
  assumes inv: "auth_inv a" and agent: "getPasswdByUid a u = Some entry"
  shows "\<exists>a' e. reconcilePersonalAgentDisplayName upper entry human a = (a', Inr (Some e)) \<and> auth_inv a'
    \<and> getPasswdByUid a' u = Some e \<and> pw_uid e = u \<and> db_agents a' = db_agents a
    \<and> (\<forall>k. map_option pw_username (getPasswdByUid a' k) = map_option pw_username (getPasswdByUid a k))"
proof (cases "js_trim (pw_gecos entry) = legacyPersonalAgentDisplayName (pi_username human)")
  case False
  have "pw_uid entry = u" using lookup_Some [of pw_uid "db_passwd a" u entry] agent by (simp add: getPasswdByUid_def)
  with False agent inv show ?thesis by (simp add: reconcilePersonalAgentDisplayName_def)
next
  case True
  have e: "entry \<in> set (db_passwd a)" "pw_uid entry = u"
    using lookup_Some [of pw_uid "db_passwd a" u entry] agent by (auto simp: getPasswdByUid_def)
  let ?f = "\<lambda>x. x\<lparr>pw_gecos := personalAgentDisplayName upper (pw_username entry)\<rparr>"
  let ?a' = "a\<lparr>db_passwd := sql_update (\<lambda>x. pw_username x = pw_username entry) ?f (db_passwd a)\<rparr>"
  have look: "getPasswdByUsername a (pw_username entry) = Some entry"
    using inv e(1) by (simp add: getPasswdByUsername_def auth_inv_def lookup_iff)
  have "\<not> list_ex (\<lambda>x. pw_username x \<noteq> pw_username entry \<and> pw_uid x = pw_uid entry) (db_passwd a)"
    using inv e(1) keyed_unique [of pw_uid "db_passwd a" _ entry] by (auto simp: auth_inv_def list_ex_iff)
  moreover have same: "sql_update (\<lambda>x. pw_username x = pw_username entry) (\<lambda>x. x\<lparr>pw_uid := pw_uid entry, pw_gid := pw_gid entry,
       pw_gecos := personalAgentDisplayName upper (pw_username entry), pw_home := pw_home entry, pw_shell := pw_shell entry\<rparr>) (db_passwd a)
     = sql_update (\<lambda>x. pw_username x = pw_username entry) ?f (db_passwd a)"
    unfolding sql_update_def
  proof (rule map_cong [OF refl])
    fix x assume "x \<in> set (db_passwd a)"
    then have "x = entry" if "pw_username x = pw_username entry"
      using inv e(1) that keyed_unique [of pw_username "db_passwd a" x entry] by (simp add: auth_inv_def)
    then show "(if pw_username x = pw_username entry then x\<lparr>pw_uid := pw_uid entry, pw_gid := pw_gid entry,
       pw_gecos := personalAgentDisplayName upper (pw_username entry), pw_home := pw_home entry, pw_shell := pw_shell entry\<rparr> else x)
      = (if pw_username x = pw_username entry then ?f x else x)" by auto
  qed
  ultimately have up: "updateUser (pw_username entry) (no_patch\<lparr>up_gecos := Some (personalAgentDisplayName upper (pw_username entry))\<rparr>) a
      = Inr (?a', True)"
    using look by (simp add: updateUser_def no_patch_def Let_def)
  have at: "getPasswdByUid ?a' k = map_option (\<lambda>x. if pw_username x = pw_username entry then ?f x else x) (getPasswdByUid a k)" for k
    unfolding getPasswdByUid_def by (simp add: lookup_update)
  have "reconcilePersonalAgentDisplayName upper entry human a = (?a', Inr (Some (?f entry)))"
    using True up by (simp add: reconcilePersonalAgentDisplayName_def at e(2) agent)
  moreover have "map_option pw_username (getPasswdByUid ?a' k) = map_option pw_username (getPasswdByUid a k)" for k
    unfolding at by (cases "getPasswdByUid a k") simp_all
  ultimately show ?thesis using updateUser_inv [OF inv up] e(2) agent
    by (intro exI [of _ ?a'] exI [of _ "?f entry"]) (simp add: at)
qed

text \<open>
  C38. A human has exactly one personal agent: asking for it creates an account the human may run as, or finds the one
  that is mapped, and asking again gives the same account and creates none; where the call fails, it is the layout of
  the home that failed.
\<close>

theorem personal_agent_is_ensured:
  assumes inv: "auth_inv (ac_auth s)" and small: "length (taken_names (ac_auth s)) < 10 ^ 19"
    and human: "pi_uid human \<ge> 1000" "\<not> isPersonalAgentUid (ac_auth s) (pi_uid human)"
    and known: "getPasswdByUid (ac_auth s) (pi_uid human) = Some he" "pw_username he \<noteq> []"
  shows "\<exists>s' e ident created. ensurePersonalAgent pf human preferred s
       = (s', bind_result (ap_layout pf ident []) (\<lambda>_. Inr (ident, created)))
     \<and> auth_inv (ac_auth s') \<and> getPasswdByUid (ac_auth s') (pi_uid ident) = Some e \<and> ident = accountIdentity (ac_auth s') e
     \<and> getPersonalAgentUid (ac_auth s') (pi_uid human) = Some (pi_uid ident)
     \<and> canOwnerDelegateRunAs (ac_auth s') (pi_uid human) e
     \<and> (\<exists>s2 ident2. ensurePersonalAgent pf human preferred s' = (s2, bind_result (ap_layout pf ident2 []) (\<lambda>_. Inr (ident2, False)))
          \<and> pi_uid ident2 = pi_uid ident \<and> getPersonalAgentUid (ac_auth s2) (pi_uid human) = Some (pi_uid ident))"
proof -
  have found: "\<exists>s' e ident h2. ensurePersonalAgent pf human preferred s
       = (s', bind_result (ap_layout pf ident []) (\<lambda>_. Inr (ident, False)))
     \<and> auth_inv (ac_auth s') \<and> getPasswdByUid (ac_auth s') u = Some e \<and> ident = accountIdentity (ac_auth s') e
     \<and> pi_uid ident = u \<and> db_agents (ac_auth s') = db_agents (ac_auth s)
     \<and> getPasswdByUid (ac_auth s') (pi_uid human) = Some h2 \<and> pw_username h2 \<noteq> []"
    if p: "auth_inv (ac_auth s)" "getPersonalAgentUid (ac_auth s) (pi_uid human) = Some u" "getPasswdByUid (ac_auth s) u = Some entry"
      "\<not> isPersonalAgentUid (ac_auth s) (pi_uid human)" "getPasswdByUid (ac_auth s) (pi_uid human) = Some h1" "pw_username h1 \<noteq> []"
    for s u entry h1
  proof -
    obtain a' e where rec: "reconcilePersonalAgentDisplayName (ap_upper pf) entry human (ac_auth s) = (a', Inr (Some e))"
      and a': "auth_inv a'" "getPasswdByUid a' u = Some e" "pw_uid e = u" "db_agents a' = db_agents (ac_auth s)"
      and names: "\<forall>k. map_option pw_username (getPasswdByUid a' k) = map_option pw_username (getPasswdByUid (ac_auth s) k)"
      using found_agent [OF p(1,3)] by blast
    obtain h2 where "getPasswdByUid a' (pi_uid human) = Some h2" "pw_username h2 \<noteq> []"
      using names [rule_format, of "pi_uid human"] p(5,6) by auto
    with rec a' p human(1) show ?thesis
      by (intro exI [of _ "s\<lparr>ac_auth := a'\<rparr>"] exI [of _ e] exI [of _ "accountIdentity a' e"] exI [of _ h2])
        (simp add: ensurePersonalAgent_def Let_def, simp add: accountIdentity_def)
  qed
  have delegate: "canOwnerDelegateRunAs a (pi_uid human) e"
    if "getPersonalAgentUid a (pi_uid human) = Some (pi_uid (accountIdentity a e))" "getPasswdByUid a (pi_uid human) = Some h1"
      "pw_username h1 \<noteq> []" for a e h1
    using that by (simp add: canOwnerDelegateRunAs_def truthy_def accountIdentity_def)
  have again: "\<exists>s2 ident2. ensurePersonalAgent pf human preferred s'
          = (s2, bind_result (ap_layout pf ident2 []) (\<lambda>_. Inr (ident2, False)))
          \<and> pi_uid ident2 = u \<and> getPersonalAgentUid (ac_auth s2) (pi_uid human) = Some u"
    if s': "auth_inv (ac_auth s')" "getPersonalAgentUid (ac_auth s') (pi_uid human) = Some u" "getPasswdByUid (ac_auth s') u = Some e"
      "\<not> isPersonalAgentUid (ac_auth s') (pi_uid human)" "getPasswdByUid (ac_auth s') (pi_uid human) = Some h1" "pw_username h1 \<noteq> []"
    for s' u e h1
  proof -
    from found [OF s'] obtain s2 e2 ident2 where s2: "ensurePersonalAgent pf human preferred s'
          = (s2, bind_result (ap_layout pf ident2 []) (\<lambda>_. Inr (ident2, False)))"
      "pi_uid ident2 = u" "db_agents (ac_auth s2) = db_agents (ac_auth s')" by blast
    moreover have "getPersonalAgentUid (ac_auth s2) (pi_uid human) = Some u"
      using s2(3) s'(2) by (simp add: getPersonalAgentUid_def)
    ultimately show ?thesis by blast
  qed
  show ?thesis
  proof (cases "case getPersonalAgentUid (ac_auth s) (pi_uid human) of Some u \<Rightarrow> getPasswdByUid (ac_auth s) u | None \<Rightarrow> None")
    case (Some entry)
    then obtain u where u: "getPersonalAgentUid (ac_auth s) (pi_uid human) = Some u" "getPasswdByUid (ac_auth s) u = Some entry"
      by (auto split: option.splits)
    from found [OF inv u human(2) known] obtain s' e ident h2 where
      run: "ensurePersonalAgent pf human preferred s = (s', bind_result (ap_layout pf ident []) (\<lambda>_. Inr (ident, False)))"
      and s': "auth_inv (ac_auth s')" "getPasswdByUid (ac_auth s') u = Some e" "ident = accountIdentity (ac_auth s') e" "pi_uid ident = u"
        "db_agents (ac_auth s') = db_agents (ac_auth s)"
      and h2: "getPasswdByUid (ac_auth s') (pi_uid human) = Some h2" "pw_username h2 \<noteq> []" by blast
    have agent: "getPersonalAgentUid (ac_auth s') (pi_uid human) = Some u" "\<not> isPersonalAgentUid (ac_auth s') (pi_uid human)"
      using u(1) human(2) s'(5) by (simp_all add: getPersonalAgentUid_def isPersonalAgentUid_def)
    have "canOwnerDelegateRunAs (ac_auth s') (pi_uid human) e" using delegate [OF _ h2] agent(1) s'(3,4) by simp
    with run s' agent again [OF s'(1) agent(1) s'(2) agent(2) h2] show ?thesis by blast
  next
    case None
    from created_agent [OF inv small known(1), of pf preferred] obtain s' ident gid e where
      run: "createAccount (ap_kdf pf) (ap_now pf) (ap_salt pf) (ac_auth s)
          (personal_agent_input pf (pickAgentName (ac_auth s) preferred) (pi_uid human)) s = (s', Inr (ident, gid))"
      and s': "auth_inv (ac_auth s')" "ident = accountIdentity (ac_auth s') e" "getPasswdByUid (ac_auth s') (pi_uid ident) = Some e"
        "getPersonalAgentUid (ac_auth s') (pi_uid human) = Some (pi_uid ident)"
        "getPasswdByUid (ac_auth s') (pi_uid human) = Some he" "pi_uid ident \<noteq> pi_uid human"
        "db_agents (ac_auth s') = sql_replace fst (pi_uid human, pi_uid ident) (db_agents (ac_auth s))" by blast
    have ens: "ensurePersonalAgent pf human preferred s = (s', bind_result (ap_layout pf ident []) (\<lambda>_. Inr (ident, True)))"
      using human None run
      by (cases "ap_layout pf ident []") (simp_all add: ensurePersonalAgent_def create_with_home_def act_bind_def act_return_def Let_def)
    have "\<not> isPersonalAgentUid (ac_auth s') (pi_uid human)"
      using human(2) s'(6) by (auto simp: isPersonalAgentUid_def sql_count_def s'(7) in_replace filter_empty_conv)
    moreover have "canOwnerDelegateRunAs (ac_auth s') (pi_uid human) e" using delegate [OF _ s'(5) known(2)] s'(2,4) by simp
    ultimately show ?thesis using ens s' again [OF s'(1,4,3) _ s'(5) known(2)] by blast
  qed
qed


section \<open>Witnesses\<close>

definition demo_pf :: agent_platform where
  "demo_pf = \<lparr>ap_upper = (\<lambda>s. s), ap_as_text = (\<lambda>_. []), ap_kdf = (\<lambda>_ _ _. Inr []), ap_now = 0, ap_salt = [],
     ap_layout = (\<lambda>_ _. Inr ()), ap_meanwhile = (\<lambda>_ s. s)\<rparr>"

lemma picked_agent_name_is_free_witness:
  "isUsernameAvailable demo_auth (pickAgentName demo_auth None) \<and> ACCOUNT_USERNAME_RE (pickAgentName demo_auth None)"
  by (rule picked_agent_name_is_free) (simp add: taken_names_def demo_auth_def)

lemma personal_agent_is_ensured_witness:
  "\<exists>s' e ident created. ensurePersonalAgent demo_pf (accountIdentity demo_auth demo_user) None demo_accounts = (s', Inr (ident, created))
     \<and> canOwnerDelegateRunAs (ac_auth s') 1000 e \<and> ident = accountIdentity (ac_auth s') e"
proof -
  have inv: "auth_inv (ac_auth demo_accounts)"
    by (simp add: demo_accounts_def demo_auth_def auth_inv_def keyed_def)
  have small: "length (taken_names (ac_auth demo_accounts)) < 10 ^ 19"
    by (simp add: taken_names_def demo_accounts_def demo_auth_def)
  have uid: "pi_uid (accountIdentity demo_auth demo_user) = 1000" by code_simp
  have noagent: "\<not> isPersonalAgentUid (ac_auth demo_accounts) (pi_uid (accountIdentity demo_auth demo_user))"
    by (simp add: isPersonalAgentUid_def sql_count_def demo_accounts_def demo_auth_def)
  have known: "getPasswdByUid (ac_auth demo_accounts) (pi_uid (accountIdentity demo_auth demo_user)) = Some demo_user"
    by code_simp
  have ok: "ap_layout demo_pf ident files = Inr ()" for ident files by (simp add: demo_pf_def)
  have big: "(1000::int) \<le> pi_uid (accountIdentity demo_auth demo_user)" by (simp add: uid)
  have named: "pw_username demo_user \<noteq> []" by (simp add: demo_user_def)
  from personal_agent_is_ensured [OF inv small big noagent known named, of demo_pf None] show ?thesis
    unfolding ok uid bind_result.simps by metis
qed

end
