(* ===== verification/ProcCalls.thy ===== *)
theory ProcCalls
  imports Agents IpcCalls RunRoutes Paths
begin

text \<open>
  The kernel's side of the process calls (\<open>kernel/proc-handlers.ts\<close>): listing, spawning, forking, calls between
  processes, and the forwarding of the calls a process answers itself. A handler waits for the process object; what
  that answers and what other operations do to the tables during each wait are arguments. The frames a handler
  sends are a result beside the tables. The cancellation of a request and the bodies of frames are left out.
\<close>

definition DEFAULT_IPC_CALL_TIMEOUT_MS :: int where "DEFAULT_IPC_CALL_TIMEOUT_MS = 60000"
definition MIN_IPC_CALL_TIMEOUT_MS :: int where "MIN_IPC_CALL_TIMEOUT_MS = 1000"
definition MAX_IPC_CALL_TIMEOUT_MS :: int where "MAX_IPC_CALL_TIMEOUT_MS = 10 * 60 * 1000"

record call_tables =
  kt_accounts :: account_state
  kt_procs :: "process_row list"
  kt_ipc :: "ipc_call list"
  kt_routes :: "run_route_row list"

text \<open>The context of a call: its caller, its connection with what the client said of itself, and the run it is made from.\<close>

record proc_ctx =
  px_call :: call_ctx
  px_connection :: "(string \<times> json option \<times> json option) option"
  px_processRunId :: "string option"

definition px_process :: "proc_ctx \<Rightarrow> proc_identity" where
  "px_process ctx = identity_process (cx_identity (px_call ctx))"

definition px_owner :: "proc_ctx \<Rightarrow> process_row list \<Rightarrow> int" where
  "px_owner ctx procs = resolveCallerOwnerUid procs (px_call ctx)"

datatype origin =
    OriginProcess string "int option"
  | OriginDevice string "string option"
  | OriginClient string "string option" "string option"

text \<open>What a handler sends to a process object, and what comes back: nothing or something that is no response, or a
  response with the id it bears.\<close>

datatype proc_frame =
    SetIdentity string proc_identity bool "string option"
  | SendMessage string string "origin option"
  | KillProcess string
  | DeliverIpc string string string proc_identity string "json option" origin int "(string \<times> int) option"
  | ExportHistory string json
  | ImportHistory string json
  | Forwarded string string json

datatype proc_reply = NoReply | OkReply string "json option" | ErrReply string string

section \<open>Listing\<close>

record list_entry =
  le_pid :: string
  le_uid :: int
  le_username :: string
  le_interactive :: bool
  le_parentPid :: "string option"
  le_state :: process_state
  le_activeRunId :: "string option"
  le_queuedCount :: int
  le_lastActiveAt :: "int option"
  le_label :: "string option"
  le_createdAt :: int
  le_cwd :: string

definition handleProcList :: "proc_ctx \<Rightarrow> int option \<Rightarrow> process_row list \<Rightarrow> list_entry list" where
  "handleProcList ctx uid procs =
     (let callerOwnerUid = px_owner ctx procs;
          filter_uid = (case uid of Some u \<Rightarrow> Some u | None \<Rightarrow> if callerOwnerUid = 0 then None else Some callerOwnerUid)
      in map (\<lambda>r. \<lparr>le_pid = rc_processId r, le_uid = rc_ownerUid r, le_username = rc_username r,
                   le_interactive = rc_interactive r, le_parentPid = rc_parentPid r, le_state = rc_state r,
                   le_activeRunId = rc_activeRunId r, le_queuedCount = rc_queuedCount r,
                   le_lastActiveAt = rc_lastActiveAt r, le_label = rc_label r, le_createdAt = rc_createdAt r,
                   le_cwd = rc_cwd r\<rparr>)
           (process_list procs filter_uid))"

section \<open>Who a process runs as\<close>

definition normalizeRequiredString :: "json option \<Rightarrow> string option" where
  "normalizeRequiredString v =
     (case v of Some (JStr s) \<Rightarrow> if js_trim s \<noteq> [] then Some (js_trim s) else None | _ \<Rightarrow> None)"

definition resolveRunAsIdentity :: "auth_db \<Rightarrow> proc_ctx \<Rightarrow> string \<Rightarrow> int \<Rightarrow> proc_identity result" where
  "resolveRunAsIdentity db ctx runAs ownerUid =
     (let trimmed = js_trim runAs;
          entry = (if trimmed \<noteq> [] \<and> list_all is_digit trimmed then getPasswdByUid db (int (digits_val trimmed))
                   else getPasswdByUsername db trimmed)
      in case entry of
           None \<Rightarrow> throw (''Unknown account: '' @ runAs)
         | Some e \<Rightarrow>
             if pi_uid (px_process ctx) \<noteq> 0 \<and> pw_uid e \<noteq> pi_uid (px_process ctx) \<and> \<not> canOwnerDelegateRunAs db ownerUid e
             then throw (''Permission denied: cannot run as '' @ pw_username e)
             else Inr (accountIdentity db e))"

definition resolveSpawnCwd :: "string option \<Rightarrow> proc_identity \<Rightarrow> string" where
  "resolveSpawnCwd cwd base =
     (case cwd of
        Some c \<Rightarrow> if js_trim c \<noteq> [] then resolveUserPath c (pi_home base) (pi_cwd base) else pi_cwd base
      | None \<Rightarrow> pi_cwd base)"

definition json_text :: "json option \<Rightarrow> string option" where
  "json_text v = (case v of Some (JStr s) \<Rightarrow> if js_trim s \<noteq> [] then Some (js_trim s) else None | _ \<Rightarrow> None)"

definition interactionOriginForContext :: "proc_ctx \<Rightarrow> origin option" where
  "interactionOriginForContext ctx =
     (if truthy (cx_processId (px_call ctx))
      then Some (OriginProcess (the (cx_processId (px_call ctx))) (Some (pi_uid (px_process ctx))))
      else case cx_identity (px_call ctx) of
        ConnDriver p _ dev _ \<Rightarrow> Some (OriginDevice dev (if pi_cwd p \<noteq> [] then Some (pi_cwd p) else None))
      | ConnUser _ _ \<Rightarrow>
          (case px_connection ctx of
             None \<Rightarrow> None
           | Some (c, clientId, platform) \<Rightarrow> Some (OriginClient c (json_text clientId) (json_text platform)))
      | ConnService _ _ _ \<Rightarrow> None)"

section \<open>Spawning\<close>

record spawn_args =
  sa_runAs :: "string option"
  sa_label :: "string option"
  sa_parentPid :: "string option"
  sa_cwd :: "string option"
  sa_interactive :: "bool option"
  sa_prompt :: "string option"

text \<open>Which identity a spawn starts from, decided before the first wait: refused, the one of an account or of the
  parent, or the caller's personal agent.\<close>

datatype spawn_base = SpawnRefused string | SpawnAs proc_identity | SpawnAgent proc_identity

definition record_identity :: "process_record \<Rightarrow> proc_identity" where
  "record_identity r = \<lparr>pi_uid = rc_uid r, pi_gid = rc_gid r, pi_gids = rc_gids r, pi_username = rc_username r,
     pi_home = rc_home r, pi_cwd = rc_cwd r\<rparr>"

definition explicit_run_as :: "spawn_args \<Rightarrow> bool" where
  "explicit_run_as args \<longleftrightarrow> (case sa_runAs args of Some r \<Rightarrow> js_trim r \<noteq> [] | None \<Rightarrow> False)"

definition spawn_parentPid :: "spawn_args \<Rightarrow> proc_ctx \<Rightarrow> string option" where
  "spawn_parentPid args ctx = (case sa_parentPid args of Some p \<Rightarrow> Some p | None \<Rightarrow> cx_processId (px_call ctx))"

definition spawn_parent :: "spawn_args \<Rightarrow> proc_ctx \<Rightarrow> process_row list \<Rightarrow> process_record option" where
  "spawn_parent args ctx procs =
     (if truthy (spawn_parentPid args ctx) then process_get procs (the (spawn_parentPid args ctx)) else None)"

definition spawn_ownerUid :: "spawn_args \<Rightarrow> proc_ctx \<Rightarrow> process_row list \<Rightarrow> int" where
  "spawn_ownerUid args ctx procs =
     (case spawn_parent args ctx procs of Some p \<Rightarrow> rc_ownerUid p | None \<Rightarrow> px_owner ctx procs)"

definition spawn_check :: "spawn_args \<Rightarrow> proc_ctx \<Rightarrow> call_tables \<Rightarrow> spawn_base" where
  "spawn_check args ctx st =
     (let procs = kt_procs st;
          me = px_process ctx;
          parentPid = spawn_parentPid args ctx;
          parent = spawn_parent args ctx procs;
          isCurrent = truthy parentPid \<and> parentPid = cx_processId (px_call ctx);
          runsAsCaller = (case parent of Some p \<Rightarrow> rc_uid p = pi_uid me | None \<Rightarrow> False)
      in if truthy parentPid \<and> (case parent of Some p \<Rightarrow> rc_ownerUid p \<noteq> px_owner ctx procs | None \<Rightarrow> True) \<and> pi_uid me \<noteq> 0
         then SpawnRefused (''Cannot spawn under foreign process: '' @ the parentPid)
         else if parent \<noteq> None \<and> truthy (sa_parentPid args) \<and> \<not> isCurrent \<and> \<not> runsAsCaller
              \<and> \<not> explicit_run_as args \<and> pi_uid me \<noteq> 0
         then SpawnRefused (''Cannot inherit run-as identity from unrelated parent process: '' @ the parentPid)
         else if explicit_run_as args
         then (case resolveRunAsIdentity (ac_auth (kt_accounts st)) ctx (the (sa_runAs args)) (spawn_ownerUid args ctx procs) of
                 Inl (Error m) \<Rightarrow> SpawnRefused m
               | Inr i \<Rightarrow> SpawnAs i)
         else (case parent of
                 None \<Rightarrow> SpawnAgent me
               | Some p \<Rightarrow>
                   if isCurrent \<or> runsAsCaller \<or> \<not> truthy (sa_parentPid args) \<or> pi_uid me = 0
                   then SpawnAs (record_identity p) else SpawnAs me))"

text \<open>What is drawn for a spawn, what the process answers to its first frames, and what runs during each wait.\<close>

record spawn_world =
  sw_now :: int
  sw_uuid :: string
  sw_requestId :: string
  sw_killId :: string
  sw_agents :: agent_platform
  sw_reply :: "proc_reply result"
  sw_killed :: "proc_reply result"
  sw_prompted :: "unit result"
  sw_meanwhile :: "nat \<Rightarrow> call_tables \<Rightarrow> call_tables"

datatype spawn_result = SpawnOk string "string option" string | SpawnError string

text \<open>The test of a response to \<open>proc.setidentity\<close> or \<open>proc.kill\<close>.\<close>

definition accepted :: "string \<Rightarrow> string \<Rightarrow> string \<Rightarrow> string \<Rightarrow> proc_reply result \<Rightarrow> unit result" where
  "accepted call doing reqId what reply =
     (case reply of
        Inl e \<Rightarrow> Inl e
      | Inr NoReply \<Rightarrow> throw (call @ '' returned no valid response'')
      | Inr (OkReply i data) \<Rightarrow>
          if i \<noteq> reqId then throw (call @ '' returned no valid response'')
          else if (case data of Some d \<Rightarrow> json_get d ''ok'' = Some (JBool True) | None \<Rightarrow> False) then Inr ()
          else throw (call @ '' rejected '' @ doing)
      | Inr (ErrReply i m) \<Rightarrow> if i \<noteq> reqId then throw (call @ '' returned no valid response'') else throw m)"


text \<open>A spawn that failed is undone: the process is killed, and only then its row goes.\<close>

definition rollbackSpawn :: "spawn_world \<Rightarrow> string \<Rightarrow> (call_tables, unit) action" where
  "rollbackSpawn w pid st =
     (let st' = sw_meanwhile w 3 st in
      case accepted ''proc.kill'' ''rollback'' (sw_killId w) ''proc.kill'' (sw_killed w) of
        Inl e \<Rightarrow> (st', Inl e)
      | Inr _ \<Rightarrow> (st'\<lparr>kt_procs := fst (process_kill pid (kt_procs st'))\<rparr>, Inr ()))"

definition spawn_label :: "spawn_args \<Rightarrow> string option" where
  "spawn_label args = (case sa_label args of Some l \<Rightarrow> if js_trim l \<noteq> [] then Some (js_trim l) else None | None \<Rightarrow> None)"

definition message_of :: "js_error \<Rightarrow> string" where
  "message_of e = (case e of Error m \<Rightarrow> m)"

definition spawn_row :: "spawn_world \<Rightarrow> spawn_args \<Rightarrow> string option \<Rightarrow> int \<Rightarrow> proc_identity \<Rightarrow> process_row list \<Rightarrow> process_row list" where
  "spawn_row w args parentPid ownerUid ident =
     process_spawn (sw_now w) (''proc:'' @ sw_uuid w) ident
       \<lparr>sp_parentPid = parentPid, sp_ownerUid = Some ownerUid, sp_interactive = Some (coalesce (sa_interactive args) True),
        sp_label = spawn_label args, sp_cwd = Some (pi_cwd ident)\<rparr>"

definition spawn_with :: "spawn_world \<Rightarrow> spawn_args \<Rightarrow> proc_ctx \<Rightarrow> string option \<Rightarrow> int \<Rightarrow> proc_identity \<Rightarrow> call_tables
    \<Rightarrow> call_tables \<times> spawn_result result \<times> proc_frame list" where
  "spawn_with w args ctx parentPid ownerUid base st =
     (let pid = ''proc:'' @ sw_uuid w;
          ident = base\<lparr>pi_cwd := resolveSpawnCwd (sa_cwd args) base\<rparr>;
          interactive = coalesce (sa_interactive args) True;
          started = SetIdentity pid ident interactive (spawn_label args);
          st1 = sw_meanwhile w 1 (st\<lparr>kt_procs := spawn_row w args parentPid ownerUid ident (kt_procs st)\<rparr>)
      in case accepted ''proc.setidentity'' ''initialization'' (sw_requestId w) ''proc.setidentity'' (sw_reply w) of
           Inl e \<Rightarrow>
             (case rollbackSpawn w pid st1 of
                (st2, Inl e2) \<Rightarrow>
                  (st2, Inr (SpawnError (''Failed to initialize process: '' @ message_of e @ ''; rollback failed: '' @ message_of e2)),
                   [started, KillProcess pid])
              | (st2, Inr _) \<Rightarrow>
                  (st2, Inr (SpawnError (''Failed to initialize process: '' @ message_of e)), [started, KillProcess pid]))
         | Inr _ \<Rightarrow>
             if truthy (sa_prompt args)
             then (sw_meanwhile w 2 st1,
                   bind_result (sw_prompted w) (\<lambda>_. Inr (SpawnOk pid (spawn_label args) (pi_cwd ident))),
                   [started, SendMessage pid (the (sa_prompt args)) (interactionOriginForContext ctx)])
             else (st1, Inr (SpawnOk pid (spawn_label args) (pi_cwd ident)), [started]))"

definition handleProcSpawn :: "spawn_world \<Rightarrow> spawn_args \<Rightarrow> proc_ctx \<Rightarrow> call_tables
    \<Rightarrow> call_tables \<times> spawn_result result \<times> proc_frame list" where
  "handleProcSpawn w args ctx st =
     (let parentPid = spawn_parentPid args ctx; ownerUid = spawn_ownerUid args ctx (kt_procs st) in
      case spawn_check args ctx st of
        SpawnRefused m \<Rightarrow> (st, Inr (SpawnError m), [])
      | SpawnAs i \<Rightarrow> spawn_with w args ctx parentPid ownerUid i st
      | SpawnAgent me \<Rightarrow>
          (case ensurePersonalAgent (sw_agents w) me None (kt_accounts st) of
             (a, Inl e) \<Rightarrow> (sw_meanwhile w 0 (st\<lparr>kt_accounts := a\<rparr>), Inl e, [])
           | (a, Inr (i, _)) \<Rightarrow>
               spawn_with w args ctx parentPid ownerUid i (sw_meanwhile w 0 (st\<lparr>kt_accounts := a\<rparr>))))"

section \<open>Forking\<close>

text \<open>The answer of a process to one call.\<close>

definition requestProcessSyscall :: "string \<Rightarrow> string \<Rightarrow> proc_reply result \<Rightarrow> json result" where
  "requestProcessSyscall call reqId reply =
     (case reply of
        Inl e \<Rightarrow> Inl e
      | Inr NoReply \<Rightarrow> throw (call @ '' returned no valid response'')
      | Inr (OkReply i data) \<Rightarrow>
          if i \<noteq> reqId then throw (call @ '' returned no valid response'')
          else (case data of None \<Rightarrow> throw (call @ '' returned no data'')
                | Some JNull \<Rightarrow> throw ''Cannot read properties of null'' | Some d \<Rightarrow> Inr d)
      | Inr (ErrReply i m) \<Rightarrow> if i \<noteq> reqId then throw (call @ '' returned no valid response'') else throw m)"

record fork_args =
  fa_pid :: "string option"
  fa_label :: "json option"
  fa_export :: json

record fork_world =
  fw_exportId :: string
  fw_exported :: "proc_reply result"
  fw_importId :: string
  fw_imported :: "proc_reply result"
  fw_spawn :: spawn_world
  fw_meanwhile :: "nat \<Rightarrow> call_tables \<Rightarrow> call_tables"

datatype fork_result = ForkError string | ForkAnswer json | ForkOk string string string json json

definition strip_slashes :: "string \<Rightarrow> string" where
  "strip_slashes s = dropWhile (\<lambda>c. c = CHR ''/'') s"

definition temporary_keys :: "json \<Rightarrow> string list" where
  "temporary_keys exported =
     (case json_get exported ''temporaryArchivePaths'' of
        Some (JArr ps) \<Rightarrow> map strip_slashes (List.map_filter (\<lambda>p. json_string (Some p)) ps) | _ \<Rightarrow> [])"

definition import_args :: "json \<Rightarrow> json" where
  "import_args exported = JObj [(''archivePaths'', coalesce (json_get exported ''archivePaths'') JNull)]"

text \<open>The handler gives, beside the tables, the result and the frames, the keys of the temporary archives it deletes.\<close>

definition fork_into :: "fork_world \<Rightarrow> fork_args \<Rightarrow> proc_ctx \<Rightarrow> string \<Rightarrow> process_record \<Rightarrow> json \<Rightarrow> call_tables
    \<Rightarrow> call_tables \<times> fork_result \<times> proc_frame list" where
  "fork_into w args ctx sourcePid source exported st =
     (let label = coalesce (normalizeRequiredString (fa_label args))
                    (''Branch of '' @ coalesce (rc_label source) (rc_username source))
      in case handleProcSpawn (fw_spawn w) \<lparr>sa_runAs = Some (rc_username source), sa_label = Some label,
                sa_parentPid = Some sourcePid, sa_cwd = Some (rc_cwd source),
                sa_interactive = Some (rc_interactive source), sa_prompt = None\<rparr> ctx st of
           (st1, Inl e, frames) \<Rightarrow> (st1, ForkError (message_of e), frames)
         | (st1, Inr (SpawnError m), frames) \<Rightarrow> (st1, ForkError m, frames)
         | (st1, Inr (SpawnOk pid spawnedLabel cwd), frames) \<Rightarrow>
             (let st2 = fw_meanwhile w 1 st1;
                  sent = frames @ [ImportHistory pid (import_args exported)]
              in case bind_result (requestProcessSyscall ''proc.history.import'' (fw_importId w) (fw_imported w)) (\<lambda>d.
                        if json_truthy (json_get d ''ok'') then Inr d
                        else throw (coalesce (json_string (json_get d ''error'')) ''undefined'')) of
                   Inr d \<Rightarrow> (st2, ForkOk pid (coalesce spawnedLabel label) sourcePid exported d, sent)
                 | Inl e \<Rightarrow>
                     (case rollbackSpawn (fw_spawn w) pid st2 of
                        (st3, Inr _) \<Rightarrow> (st3, ForkError (message_of e), sent @ [KillProcess pid])
                      | (st3, Inl e2) \<Rightarrow>
                          (st3, ForkError (message_of e @ ''; rollback failed: '' @ message_of e2), sent @ [KillProcess pid]))))"

definition handleProcFork :: "fork_world \<Rightarrow> fork_args \<Rightarrow> proc_ctx \<Rightarrow> call_tables
    \<Rightarrow> call_tables \<times> fork_result \<times> proc_frame list \<times> string list" where
  "handleProcFork w args ctx st =
     (let sourcePid = (case fa_pid args of Some p \<Rightarrow> Some p | None \<Rightarrow> cx_processId (px_call ctx)) in
      if \<not> truthy sourcePid then (st, ForkError ''proc.fork requires pid outside a process'', [], [])
      else case process_get (kt_procs st) (the sourcePid) of
        None \<Rightarrow> (st, ForkError (''Process not found: '' @ the sourcePid), [], [])
      | Some source \<Rightarrow>
          if rc_ownerUid source \<noteq> px_owner ctx (kt_procs st) \<and> pi_uid (px_process ctx) \<noteq> 0
          then (st, ForkError (''Permission denied: cannot access process '' @ the sourcePid), [], [])
          else
            (let st1 = fw_meanwhile w 0 st; asked = ExportHistory (the sourcePid) (fa_export args) in
             case requestProcessSyscall ''proc.history.export'' (fw_exportId w) (fw_exported w) of
               Inl e \<Rightarrow> (st1, ForkError (message_of e), [asked], [])
             | Inr exported \<Rightarrow>
                 if \<not> json_truthy (json_get exported ''ok'') then (st1, ForkAnswer exported, [asked], [])
                 else (case fork_into w args ctx (the sourcePid) source exported st1 of
                         (st2, r, frames) \<Rightarrow> (st2, r, asked # frames, temporary_keys exported))))"

section \<open>Calls between processes\<close>

record ipc_args =
  ia_pid :: string
  ia_message :: string
  ia_metadata :: "json option"

definition normalizeIpcSendArgs :: "json option \<Rightarrow> string \<Rightarrow> ipc_args result" where
  "normalizeIpcSendArgs args syscall =
     (if \<not> (case args of Some (JObj _) \<Rightarrow> True | Some (JArr _) \<Rightarrow> True | _ \<Rightarrow> False)
      then throw (syscall @ '' requires arguments'')
      else case normalizeRequiredString (json_get (the args) ''pid'') of
        None \<Rightarrow> throw (syscall @ '' requires pid'')
      | Some pid \<Rightarrow>
          (case normalizeRequiredString (json_get (the args) ''message'') of
             None \<Rightarrow> throw (syscall @ '' requires message'')
           | Some message \<Rightarrow>
               (case json_get (the args) ''metadata'' of
                  None \<Rightarrow> Inr \<lparr>ia_pid = pid, ia_message = message, ia_metadata = None\<rparr>
                | Some (JObj kvs) \<Rightarrow> Inr \<lparr>ia_pid = pid, ia_message = message, ia_metadata = Some (JObj kvs)\<rparr>
                | Some _ \<Rightarrow> throw (syscall @ '' metadata must be an object''))))"

record same_owner_ipc =
  so_sourcePid :: string
  so_source :: process_record
  so_target :: process_record
  so_args :: ipc_args

definition resolveSameOwnerIpc :: "json option \<Rightarrow> proc_ctx \<Rightarrow> process_row list \<Rightarrow> string \<Rightarrow> same_owner_ipc result" where
  "resolveSameOwnerIpc args ctx procs syscall =
     (if \<not> truthy (cx_processId (px_call ctx)) then throw (syscall @ '' requires a process caller'')
      else
        (let sourcePid = the (cx_processId (px_call ctx)) in
         bind_result (normalizeIpcSendArgs args syscall) (\<lambda>validated.
         case process_get procs sourcePid of
           None \<Rightarrow> throw (''Source process not found: '' @ sourcePid)
         | Some source \<Rightarrow>
             (case process_get procs (ia_pid validated) of
                None \<Rightarrow> throw (''Process not found: '' @ ia_pid validated)
              | Some target \<Rightarrow>
                  if rc_uid source \<noteq> pi_uid (px_process ctx) then throw (''Source process identity mismatch: '' @ sourcePid)
                  else if rc_ownerUid target \<noteq> rc_ownerUid source
                  then throw ''Permission denied: target process belongs to another user''
                  else Inr \<lparr>so_sourcePid = sourcePid, so_source = source, so_target = target, so_args = validated\<rparr>))))"

definition clampIpcCallTimeout :: "json option \<Rightarrow> int" where
  "clampIpcCallTimeout v =
     (case v of
        Some (JNum (IntNum i)) \<Rightarrow> max MIN_IPC_CALL_TIMEOUT_MS (min MAX_IPC_CALL_TIMEOUT_MS i)
      | Some (JNum (FracNum i)) \<Rightarrow> max MIN_IPC_CALL_TIMEOUT_MS (min MAX_IPC_CALL_TIMEOUT_MS i)
      | _ \<Rightarrow> DEFAULT_IPC_CALL_TIMEOUT_MS)"

datatype ipc_result = IpcError string | IpcDelivered json | IpcStarted string string string string int bool

definition ipc_frame :: "proc_ctx \<Rightarrow> same_owner_ipc \<Rightarrow> string \<Rightarrow> int \<Rightarrow> (string \<times> int) option \<Rightarrow> proc_frame" where
  "ipc_frame ctx r runId sentAt call =
     DeliverIpc (ia_pid (so_args r)) runId (so_sourcePid r) (px_process ctx) (ia_message (so_args r))
       (ia_metadata (so_args r)) (OriginProcess (so_sourcePid r) (Some (rc_uid (so_source r)))) sentAt call"

definition data_null :: "'a result" where
  "data_null = throw ''Cannot read properties of undefined''"

text \<open>What the target's answer amounts to: a run that was started or queued under the id that was drawn, or a refusal.\<close>

definition delivered_run :: "string \<Rightarrow> json option \<Rightarrow> (string + json) result" where
  "delivered_run runId data =
     (case data of
        None \<Rightarrow> data_null | Some JNull \<Rightarrow> data_null
      | Some d \<Rightarrow>
          if json_truthy (json_get d ''ok'') \<and> json_get d ''runId'' \<noteq> Some (JStr runId)
          then Inr (Inl ''proc.ipc.deliver returned an unexpected runId'') else Inr (Inr d))"

definition handleProcIpcSend :: "proc_ctx \<Rightarrow> string \<Rightarrow> int \<Rightarrow> proc_reply result \<Rightarrow> json option \<Rightarrow> process_row list
    \<Rightarrow> ipc_result result \<times> proc_frame list" where
  "handleProcIpcSend ctx runId now reply args procs =
     (case resolveSameOwnerIpc args ctx procs ''proc.ipc.send'' of
        Inl e \<Rightarrow> (Inr (IpcError (message_of e)), [])
      | Inr r \<Rightarrow>
          (case reply of
             Inl e \<Rightarrow> Inl e
           | Inr NoReply \<Rightarrow> Inr (IpcError ''proc.ipc.deliver did not return a response'')
           | Inr (ErrReply _ m) \<Rightarrow> Inr (IpcError m)
           | Inr (OkReply _ data) \<Rightarrow>
               bind_result (delivered_run runId data) (\<lambda>d.
                 Inr (case d of Inl m \<Rightarrow> IpcError m | Inr d \<Rightarrow> IpcDelivered d)),
           [ipc_frame ctx r runId now None]))"

record ipc_world =
  iw_now :: int
  iw_later :: int
  iw_callId :: string
  iw_runId :: string
  iw_sentAt :: int
  iw_scheduled :: "unit result"
  iw_reply :: "proc_reply result"
  iw_meanwhile :: "nat \<Rightarrow> call_tables \<Rightarrow> call_tables"

definition drop_call :: "ipc_world \<Rightarrow> call_tables \<Rightarrow> call_tables" where
  "drop_call w st = st\<lparr>kt_ipc := ipc_remove (iw_callId w) (kt_ipc st)\<rparr>"

definition handleProcIpcCall :: "ipc_world \<Rightarrow> proc_ctx \<Rightarrow> json option \<Rightarrow> call_tables
    \<Rightarrow> call_tables \<times> ipc_result result \<times> proc_frame list" where
  "handleProcIpcCall w ctx args st =
     (case resolveSameOwnerIpc args ctx (kt_procs st) ''proc.ipc.call'' of
        Inl e \<Rightarrow> (st, Inr (IpcError (message_of e)), [])
      | Inr r \<Rightarrow>
          (let deadlineAt = iw_now w + clampIpcCallTimeout (json_get (the args) ''timeoutMs'') in
           case ipc_create (iw_now w) (iw_callId w) (rc_ownerUid (so_source r)) (so_sourcePid r) (px_processRunId ctx)
                  (ia_pid (so_args r)) (iw_runId w) deadlineAt (kt_ipc st) of
             Inl e \<Rightarrow> (st, Inl e, [])
           | Inr calls \<Rightarrow>
               (let st1 = iw_meanwhile w 0 (st\<lparr>kt_ipc := calls\<rparr>) in
                case iw_scheduled w of
                  Inl e \<Rightarrow> (drop_call w st1, Inr (IpcError (message_of e)), [])
                | Inr _ \<Rightarrow>
                    (let st2 = iw_meanwhile w 1 st1;
                         sent = [ipc_frame ctx r (iw_runId w) (iw_sentAt w) (Some (iw_callId w, deadlineAt))]
                     in case iw_reply w of
                          Inl e \<Rightarrow> (drop_call w st2, Inr (IpcError (message_of e)), sent)
                        | Inr NoReply \<Rightarrow> (drop_call w st2, Inr (IpcError ''proc.ipc.deliver did not return a response''), sent)
                        | Inr (ErrReply _ m) \<Rightarrow> (drop_call w st2, Inr (IpcError m), sent)
                        | Inr (OkReply _ data) \<Rightarrow>
                            (case delivered_run (iw_runId w) data of
                               Inl e \<Rightarrow> (st2, Inl e, sent)
                             | Inr (Inl m) \<Rightarrow> (drop_call w st2, Inr (IpcError m), sent)
                             | Inr (Inr d) \<Rightarrow>
                                 if \<not> json_truthy (json_get d ''ok'') then (drop_call w st2, Inr (IpcDelivered d), sent)
                                 else
                                   (case ipc_get (kt_ipc st2) (iw_callId w) of
                                      call \<Rightarrow>
                                        if iw_later w \<ge> deadlineAt
                                           \<or> (case call of Some c \<Rightarrow> ic_status c = IpcTimedOut | None \<Rightarrow> False)
                                        then (st2, Inr (IpcError (case call of Some c \<Rightarrow> coalesce (ic_error c) ''IPC call timed out''
                                                                    | None \<Rightarrow> ''IPC call timed out'')), sent)
                                        else (st2, Inr (IpcStarted (iw_callId w)
                                                  (coalesce (json_string (json_get d ''pid'')) ''undefined'') (so_sourcePid r)
                                                  (iw_runId w) deadlineAt
                                                  (json_truthy (json_get d ''queued''))), sent)))))))"

section \<open>Forwarding\<close>

definition json_put :: "string \<Rightarrow> json \<Rightarrow> json \<Rightarrow> json" where
  "json_put k v j =
     (case j of
        JObj kvs \<Rightarrow> JObj (if list_ex (\<lambda>(x, _). x = k) kvs then map (\<lambda>(x, w). (x, if x = k then v else w)) kvs
                          else kvs @ [(k, v)])
      | _ \<Rightarrow> JObj [(k, v)])"

definition json_drop :: "string \<Rightarrow> json \<Rightarrow> json" where
  "json_drop k j = (case j of JObj kvs \<Rightarrow> JObj (filter (\<lambda>(x, _). x \<noteq> k) kvs) | _ \<Rightarrow> JObj [])"

definition text_field :: "string \<Rightarrow> string option \<Rightarrow> (string \<times> json) list" where
  "text_field k v = (case v of Some s \<Rightarrow> [(k, JStr s)] | None \<Rightarrow> [])"

fun origin_json :: "origin \<Rightarrow> json" where
  "origin_json (OriginProcess pid uid) =
     JObj ([(''kind'', JStr ''process''), (''sourcePid'', JStr pid)]
        @ (case uid of Some u \<Rightarrow> [(''uid'', JNum (IntNum u))] | None \<Rightarrow> []))"
| "origin_json (OriginDevice dev cwd) =
     JObj ([(''kind'', JStr ''device''), (''deviceId'', JStr dev)] @ text_field ''cwd'' cwd)"
| "origin_json (OriginClient c clientId platform) =
     JObj ([(''kind'', JStr ''client''), (''connectionId'', JStr c)] @ text_field ''clientId'' clientId
        @ text_field ''platform'' platform)"

definition withProcSendOrigin :: "proc_ctx \<Rightarrow> json \<Rightarrow> json" where
  "withProcSendOrigin ctx args =
     (case interactionOriginForContext ctx of
        Some orig \<Rightarrow> json_put ''origin'' (origin_json orig) args
      | None \<Rightarrow> json_drop ''origin'' args)"

definition withRedactedProcAiConfigGet :: "json \<Rightarrow> json" where
  "withRedactedProcAiConfigGet args = json_put ''redacted'' (JBool True) args"

record profile_reader =
  pr_as_text :: "json \<Rightarrow> string"
  pr_parse :: "string \<Rightarrow> json result"
  pr_collate :: "string \<Rightarrow> string"
  pr_config :: "string \<Rightarrow> string option"

definition withProcAiConfigProfile :: "profile_reader \<Rightarrow> int \<Rightarrow> json \<Rightarrow> json result" where
  "withProcAiConfigProfile pr ownerUid args =
     (if list_ex (\<lambda>k. json_get args k \<noteq> None) [''clear'', ''values'', ''key''] then Inr args
      else
        (let profileId = js_trim (js_text (pr_as_text pr) (json_get args ''profileId''));
             profileName = js_trim (js_text (pr_as_text pr) (json_get args ''profileName''));
             selector = (if profileId \<noteq> [] then profileId else profileName)
         in if selector = [] then Inr args
            else case findProcessAiModelProfile (pr_as_text pr) (pr_parse pr) (pr_collate pr)
                        (pr_config pr (''users/'' @ show_int ownerUid @ ''/ai/model_profiles'')) ownerUid selector None of
              None \<Rightarrow> throw (''AI model profile not found: '' @ selector)
            | Some p \<Rightarrow>
                Inr (JObj [(''values'', JObj (map (\<lambda>(k, v). (k, JStr v)) (omitProcessAiConfigSecrets (mp_values p)))),
                           (''profile'', JObj [(''id'', JStr (mp_id p)), (''name'', JStr (mp_name p))])])))"

definition process_frame :: "profile_reader \<Rightarrow> proc_ctx \<Rightarrow> int \<Rightarrow> string \<Rightarrow> json \<Rightarrow> json result" where
  "process_frame pr ctx ownerUid call args =
     (if call = ''proc.send'' then Inr (withProcSendOrigin ctx args)
      else if call = ''proc.ai.config.get'' then Inr (withRedactedProcAiConfigGet args)
      else if call = ''proc.ai.config.set'' then withProcAiConfigProfile pr ownerUid args
      else Inr args)"

definition failIpcCallsByTarget :: "int \<Rightarrow> int \<Rightarrow> string \<Rightarrow> string \<Rightarrow> call_tables \<Rightarrow> call_tables \<times> string list" where
  "failIpcCallsByTarget now uid pid err st =
     (let (calls, ids) = failByTargetPid now uid pid err (kt_ipc st) in (st\<lparr>kt_ipc := calls\<rparr>, ids))"

text \<open>What a process's answer does to the tables, first when it was reset or killed, with the calls whose failure is to
  be delivered, then when it took a message of a client.\<close>

definition forget_process :: "string \<Rightarrow> int \<Rightarrow> call_tables \<Rightarrow> call_tables" where
  "forget_process pid ownerUid st =
     st\<lparr>kt_ipc := cancelBySourcePid ownerUid pid (kt_ipc st), kt_routes := clearForProcess pid (kt_routes st)\<rparr>"

definition ended_process :: "int \<Rightarrow> string \<Rightarrow> string \<Rightarrow> int \<Rightarrow> call_tables \<Rightarrow> call_tables \<times> string list" where
  "ended_process now call pid ownerUid st =
     (if call = ''proc.reset''
      then failIpcCallsByTarget now ownerUid pid ''Target process was reset'' (forget_process pid ownerUid st)
      else if call = ''proc.kill''
      then (case failIpcCallsByTarget now ownerUid pid ''Target process was killed'' (forget_process pid ownerUid st) of
              (st', ids) \<Rightarrow> (st'\<lparr>kt_procs := fst (process_kill pid (kt_procs st'))\<rparr>, ids))
      else (st, []))"

definition route_answer :: "int \<Rightarrow> proc_ctx \<Rightarrow> string \<Rightarrow> string \<Rightarrow> int \<Rightarrow> json option \<Rightarrow> call_tables \<Rightarrow> call_tables" where
  "route_answer now ctx call pid ownerUid data st =
     (case (cx_identity (px_call ctx), px_connection ctx, json_string (case data of Some d \<Rightarrow> json_get d ''runId'' | None \<Rightarrow> None)) of
        (ConnUser _ _, Some (c, _), Some run) \<Rightarrow>
          if call = ''proc.send''
          then st\<lparr>kt_routes := fst (setConnectionRoute now RUN_ROUTE_TTL_MS run pid ownerUid c (kt_routes st))\<rparr>
          else st
      | _ \<Rightarrow> st)"

definition forwarded_effects :: "int \<Rightarrow> proc_ctx \<Rightarrow> string \<Rightarrow> string \<Rightarrow> int \<Rightarrow> json option \<Rightarrow> call_tables \<Rightarrow> call_tables \<times> string list" where
  "forwarded_effects now ctx call pid ownerUid data st =
     (case ended_process now call pid ownerUid st of
        (st', ids) \<Rightarrow> (route_answer now ctx call pid ownerUid data st', ids))"

record forward_world =
  fd_now :: int
  fd_profiles :: profile_reader
  fd_reply :: "proc_reply result"
  fd_meanwhile :: "call_tables \<Rightarrow> call_tables"

definition forwardToProcess :: "forward_world \<Rightarrow> proc_ctx \<Rightarrow> string \<Rightarrow> json \<Rightarrow> call_tables
    \<Rightarrow> call_tables \<times> json option result \<times> proc_frame list \<times> string list" where
  "forwardToProcess w ctx call args st =
     (let pid = (case json_string (json_get args ''pid'') of Some p \<Rightarrow> Some p | None \<Rightarrow> cx_processId (px_call ctx)) in
      if \<not> truthy pid then (st, throw (call @ '' requires pid outside a process''), [], [])
      else case process_get (kt_procs st) (the pid) of
        None \<Rightarrow> (st, throw (''Process not found: '' @ the pid), [], [])
      | Some p \<Rightarrow>
          if rc_ownerUid p \<noteq> px_owner ctx (kt_procs st) \<and> pi_uid (px_process ctx) \<noteq> 0
          then (st, throw (''Permission denied: cannot access process '' @ the pid), [], [])
          else case process_frame (fd_profiles w) ctx (rc_ownerUid p) call args of
            Inl e \<Rightarrow> (st, Inl e, [], [])
          | Inr args' \<Rightarrow>
              (let st1 = fd_meanwhile w st; sent = [Forwarded (the pid) call args'] in
               case fd_reply w of
                 Inl e \<Rightarrow> (st1, Inl e, sent, [])
               | Inr (ErrReply _ m) \<Rightarrow> (st1, throw m, sent, [])
               | Inr NoReply \<Rightarrow> (st1, Inr (Some (JObj [(''ok'', JBool True), (''status'', JStr ''delivered'')])), sent, [])
               | Inr (OkReply _ data) \<Rightarrow>
                   (case forwarded_effects (fd_now w) ctx call (the pid) (rc_ownerUid p) data st1 of
                      (st2, ids) \<Rightarrow> (st2, Inr data, sent, ids))))"


section \<open>Who a spawned process runs as\<close>

lemma reconciled_uid:
  assumes "reconcilePersonalAgentDisplayName upper entry human a = (a', Inr r)"
  shows "db_agents a' = db_agents a" and "pw_uid (coalesce r entry) = pw_uid entry"
proof -
  have up: "db_agents b = db_agents a" if "updateUser u p a = Inr (b, ok)" for u p b ok
    using that by (auto simp: updateUser_def Let_def split: option.splits if_splits)
  show "db_agents a' = db_agents a"
    using assms up by (auto simp: reconcilePersonalAgentDisplayName_def split: if_splits sum.splits)
  have "r = getPasswdByUid a' (pw_uid entry)"
    using assms by (auto simp: reconcilePersonalAgentDisplayName_def split: if_splits sum.splits)
  then show "pw_uid (coalesce r entry) = pw_uid entry"
    by (cases "getPasswdByUid a' (pw_uid entry)") (auto simp: getPasswdByUid_def dest: lookup_Some)
qed

lemma created_mapping:
  assumes "createAccount kdf now salt (ac_auth s) inp s = (s', Inr (ident, g))"
    and "ca_accessGroupName inp = None" and "ca_personalAgentOf inp = Some h"
  shows "getPersonalAgentUid (ac_auth s') h = Some (pi_uid ident)"
proof -
  obtain plan where prep: "createAccount_prepare kdf salt (ac_auth s) inp = Inr plan"
    and run: "createAccount_commit now inp plan s = (s', Inr (ident, g))"
    using assms(1) by (auto simp: createAccount_def split: sum.splits)
  have none: "getPasswdByUsername (ac_auth s) (ca_username inp) = None"
    using prep by (auto simp: createAccount_prepare_def Let_def split: if_splits)
  obtain pw where rows: "db_passwd (account_joins (nextUid (ac_auth s)) inp plan (account_rows now (nextUid (ac_auth s)) inp plan (ac_auth s)))
      = db_passwd (ac_auth s) @ [pw]" and pw: "pw_uid pw = nextUid (ac_auth s)"
    by (simp add: account_rows_def)
  have a': "ac_auth s' = account_joins (nextUid (ac_auth s)) inp plan (account_rows now (nextUid (ac_auth s)) inp plan (ac_auth s))"
    and ident: "ident = accountIdentity (ac_auth s') (the (getPasswdByUid (ac_auth s') (nextUid (ac_auth s))))"
    using commit_run [OF none, of now plan] assms(2) run by (auto simp: truthy_def add_access_group_def)
  have "\<forall>x \<in> set (db_passwd (ac_auth s)). pw_uid x \<noteq> pw_uid pw" using fresh_uid(1) [of "ac_auth s"] by (auto simp: pw image_iff)
  then have "getPasswdByUid (ac_auth s') (nextUid (ac_auth s)) = Some pw"
    using find_last [of "db_passwd (ac_auth s)" pw_uid pw] rows by (simp add: a' getPasswdByUid_def pw)
  then have "pi_uid ident = nextUid (ac_auth s)" using ident pw by (simp add: accountIdentity_def)
  then show ?thesis
    using assms(3) by (simp add: a' account_joins_def Let_def setPersonalAgent_def getPersonalAgentUid_def lookup_replace)
qed

lemma ensured_identity:
  assumes "ensurePersonalAgent pf me preferred s = (s', Inr (ident, c))"
  shows "ident = me \<or> getPersonalAgentUid (ac_auth s') (pi_uid me) = Some (pi_uid ident)"
proof (cases "pi_uid me < 1000 \<or> isPersonalAgentUid (ac_auth s) (pi_uid me)")
  case True
  then show ?thesis using assms by (simp add: ensurePersonalAgent_def)
next
  case no: False
  show ?thesis
  proof (cases "case getPersonalAgentUid (ac_auth s) (pi_uid me) of Some u \<Rightarrow> getPasswdByUid (ac_auth s) u | None \<Rightarrow> None")
    case (Some entry)
    then obtain u where u: "getPersonalAgentUid (ac_auth s) (pi_uid me) = Some u" "getPasswdByUid (ac_auth s) u = Some entry"
      by (auto split: option.splits)
    have uid: "pw_uid entry = u" using lookup_Some [of pw_uid "db_passwd (ac_auth s)" u entry] u(2) by (simp add: getPasswdByUid_def)
    obtain a r where rec: "reconcilePersonalAgentDisplayName (ap_upper pf) entry me (ac_auth s) = (a, Inr r)"
      using assms no Some by (auto simp: ensurePersonalAgent_def split: prod.splits sum.splits)
    then have "s' = s\<lparr>ac_auth := a\<rparr>" "ident = accountIdentity a (coalesce r entry)"
      using assms no Some by (auto simp: ensurePersonalAgent_def Let_def)
    with reconciled_uid [OF rec] u(1) uid show ?thesis by (simp add: getPersonalAgentUid_def accountIdentity_def)
  next
    case None
    then have "\<exists>g. createAccount (ap_kdf pf) (ap_now pf) (ap_salt pf) (ac_auth s)
        (personal_agent_input pf (pickAgentName (ac_auth s) preferred) (pi_uid me)) s = (s', Inr (ident, g))"
      using assms no
      by (auto simp: ensurePersonalAgent_def create_with_home_def act_bind_def act_return_def Let_def split: prod.splits sum.splits)
    then show ?thesis by (auto simp: personal_agent_input_def dest: created_mapping)
  qed
qed

text \<open>The account a caller may start a process as.\<close>

definition may_run_as :: "proc_ctx \<Rightarrow> call_tables \<Rightarrow> int \<Rightarrow> bool" where
  "may_run_as ctx st u \<longleftrightarrow>
     pi_uid (px_process ctx) = 0 \<or> u = pi_uid (px_process ctx)
     \<or> (\<exists>self p. cx_processId (px_call ctx) = Some self \<and> process_get (kt_procs st) self = Some p \<and> rc_uid p = u)
     \<or> (\<exists>e. pw_uid e = u \<and> e \<in> set (db_passwd (ac_auth (kt_accounts st)))
            \<and> canOwnerDelegateRunAs (ac_auth (kt_accounts st)) (px_owner ctx (kt_procs st)) e)"

lemma run_as_allowed:
  assumes "resolveRunAsIdentity db ctx runAs ownerUid = Inr i"
  shows "pi_uid (px_process ctx) = 0 \<or> pi_uid i = pi_uid (px_process ctx)
    \<or> (\<exists>e. pw_uid e = pi_uid i \<and> e \<in> set (db_passwd db) \<and> canOwnerDelegateRunAs db ownerUid e)"
  using assms
  by (fastforce simp: resolveRunAsIdentity_def Let_def accountIdentity_def getPasswdByUid_def getPasswdByUsername_def
      split: option.splits if_splits dest: lookup_Some)

lemma spawn_with_identity:
  assumes "spawn_with w args ctx parentPid ownerUid base st = (st', r, frames)" and "SetIdentity pid ident isInter title \<in> set frames"
  shows "pid = ''proc:'' @ sw_uuid w \<and> ident = base\<lparr>pi_cwd := resolveSpawnCwd (sa_cwd args) base\<rparr>"
  using assms by (auto simp: spawn_with_def Let_def split: sum.splits prod.splits if_splits)

lemma spawn_owner:
  assumes "spawn_check args ctx st \<noteq> SpawnRefused m" and "pi_uid (px_process ctx) \<noteq> 0" and "\<And>m. spawn_check args ctx st \<noteq> SpawnRefused m"
  shows "spawn_ownerUid args ctx (kt_procs st) = px_owner ctx (kt_procs st)"
proof (cases "spawn_parent args ctx (kt_procs st)")
  case None
  then show ?thesis by (simp add: spawn_ownerUid_def)
next
  case (Some p)
  then have "truthy (spawn_parentPid args ctx)" by (auto simp: spawn_parent_def split: if_splits)
  then have "rc_ownerUid p = px_owner ctx (kt_procs st)"
    using assms(2) assms(3) [of "''Cannot spawn under foreign process: '' @ the (spawn_parentPid args ctx)"] Some
    by (auto simp: spawn_check_def Let_def split: if_splits)
  then show ?thesis using Some by (simp add: spawn_ownerUid_def)
qed

lemma spawn_as_allowed:
  assumes "spawn_check args ctx st = SpawnAs i"
  shows "may_run_as ctx st (pi_uid i)"
proof (cases "pi_uid (px_process ctx) = 0")
  case True
  then show ?thesis by (simp add: may_run_as_def)
next
  case False
  have owner: "spawn_ownerUid args ctx (kt_procs st) = px_owner ctx (kt_procs st)"
    by (rule spawn_owner [OF _ False]) (simp_all add: assms)
  show ?thesis
  proof (cases "explicit_run_as args")
    case True
    then have "resolveRunAsIdentity (ac_auth (kt_accounts st)) ctx (the (sa_runAs args)) (spawn_ownerUid args ctx (kt_procs st)) = Inr i"
      using assms by (auto simp: spawn_check_def Let_def split: if_splits sum.splits js_error.splits)
    from run_as_allowed [OF this] owner show ?thesis by (auto simp: may_run_as_def)
  next
    case no: False
    show ?thesis
    proof (cases "spawn_parent args ctx (kt_procs st)")
      case None
      then show ?thesis using assms no by (auto simp: spawn_check_def Let_def split: if_splits)
    next
      case (Some p)
      then have pp: "truthy (spawn_parentPid args ctx)" and get: "process_get (kt_procs st) (the (spawn_parentPid args ctx)) = Some p"
        by (auto simp: spawn_parent_def split: if_splits)
      have i: "i = record_identity p \<or> i = px_process ctx"
        and self: "i = px_process ctx \<or> spawn_parentPid args ctx = cx_processId (px_call ctx) \<or> rc_uid p = pi_uid (px_process ctx)
          \<or> \<not> truthy (sa_parentPid args)"
        using assms no Some False by (auto simp: spawn_check_def Let_def split: if_splits)
      have "spawn_parentPid args ctx = cx_processId (px_call ctx)" if "\<not> truthy (sa_parentPid args)"
        using that pp by (auto simp: spawn_parentPid_def truthy_def split: option.splits)
      then consider "i = px_process ctx" | "i = record_identity p" "rc_uid p = pi_uid (px_process ctx)"
        | "i = record_identity p" "spawn_parentPid args ctx = cx_processId (px_call ctx)"
        using i self by blast
      then show ?thesis
      proof cases
        case 3
        then obtain self where "cx_processId (px_call ctx) = Some self" using pp by (auto simp: truthy_def)
        then show ?thesis using 3 get by (auto simp: may_run_as_def record_identity_def)
      qed (simp_all add: may_run_as_def record_identity_def)
    qed
  qed
qed

text \<open>
  C12. A process is never started as an account its caller may not be: the identity it is given is the caller's own,
  that of the calling process, an account the caller's owner may run as, or the caller's own personal agent; only root
  may choose freely. And its owner is the caller's owner, or, for root, that of the parent.
\<close>

theorem spawned_process_is_authorised:
  assumes "handleProcSpawn w args ctx st = (st', r, frames)" and "SetIdentity pid ident isInter title \<in> set frames"
  shows "(may_run_as ctx st (pi_uid ident)
      \<or> getPersonalAgentUid (ac_auth (fst (ensurePersonalAgent (sw_agents w) (px_process ctx) None (kt_accounts st)))) (pi_uid (px_process ctx))
          = Some (pi_uid ident))
    \<and> (pi_uid (px_process ctx) = 0 \<or> spawn_ownerUid args ctx (kt_procs st) = px_owner ctx (kt_procs st))"
proof (cases "spawn_check args ctx st")
  case (SpawnRefused m)
  then show ?thesis using assms by (simp add: handleProcSpawn_def)
next
  case (SpawnAs i)
  then have sw: "spawn_with w args ctx (spawn_parentPid args ctx) (spawn_ownerUid args ctx (kt_procs st)) i st = (st', r, frames)"
    using assms(1) by (simp add: handleProcSpawn_def Let_def)
  have "pi_uid ident = pi_uid i" using spawn_with_identity [OF sw assms(2)] by simp
  moreover have "pi_uid (px_process ctx) \<noteq> 0 \<Longrightarrow> spawn_ownerUid args ctx (kt_procs st) = px_owner ctx (kt_procs st)"
    by (rule spawn_owner) (simp_all add: SpawnAs)
  ultimately show ?thesis using spawn_as_allowed [OF SpawnAs] by auto
next
  case (SpawnAgent me)
  then have me: "me = px_process ctx"
    by (auto simp: spawn_check_def Let_def split: if_splits option.splits sum.splits js_error.splits)
  obtain a i c where ens: "ensurePersonalAgent (sw_agents w) me None (kt_accounts st) = (a, Inr (i, c))"
    and sw: "spawn_with w args ctx (spawn_parentPid args ctx) (spawn_ownerUid args ctx (kt_procs st)) i
               (sw_meanwhile w 0 (st\<lparr>kt_accounts := a\<rparr>)) = (st', r, frames)"
    using assms SpawnAgent by (auto simp: handleProcSpawn_def Let_def split: prod.splits sum.splits)
  have "pi_uid ident = pi_uid i" using spawn_with_identity [OF sw assms(2)] by simp
  moreover have "pi_uid (px_process ctx) \<noteq> 0 \<Longrightarrow> spawn_ownerUid args ctx (kt_procs st) = px_owner ctx (kt_procs st)"
    by (rule spawn_owner) (simp_all add: SpawnAgent)
  ultimately show ?thesis using ensured_identity [OF ens] ens me by (auto simp: may_run_as_def)
qed

section \<open>Spawning is all or nothing\<close>

lemma spawned_row: "getOwnerUid (spawn_row w args parentPid ownerUid ident procs) (''proc:'' @ sw_uuid w) = Some ownerUid"
  by (simp add: spawn_row_def process_spawn_def getOwnerUid_def lookup_replace)

text \<open>What other operations may do while a spawn waits: anything but end or take over the process it makes.\<close>

definition lets_live :: "string \<Rightarrow> (call_tables \<Rightarrow> call_tables) \<Rightarrow> bool" where
  "lets_live pid f \<longleftrightarrow> (\<forall>s. getOwnerUid (kt_procs (f s)) pid = getOwnerUid (kt_procs s) pid)"


section \<open>Only the owner reaches a process\<close>

lemma json_get_put [simp]: "json_get (json_put k v j) k = Some v"
proof -
  have "map_of (map (\<lambda>(x, w). (x, if x = k then v else w)) kvs) k = Some v" if "list_ex (\<lambda>(x, _). x = k) kvs" for kvs
    using that by (induction kvs) auto
  moreover have "map_of (kvs @ [(k, v)]) k = Some v" if "\<not> list_ex (\<lambda>(x, _). x = k) kvs" for kvs
    using that by (induction kvs) auto
  ultimately show ?thesis by (cases j) (simp_all add: json_get_def json_put_def del: map_of_append)
qed

lemma json_get_drop [simp]: "json_get (json_drop k j) k = None"
  by (auto simp: json_get_def json_drop_def map_of_eq_None_iff split: json.splits)

lemma profile_values:
  assumes "withProcAiConfigProfile pr ownerUid args = Inr args'" and "json_get args ''values'' = None"
  shows "args' = args \<or> (\<exists>vs p. args' = JObj [(''values'', JObj vs), p] \<and> (\<forall>k v. (k, v) \<in> set vs \<longrightarrow> k \<notin> set PROCESS_AI_CONFIG_SECRET_KEYS))"
  using assms
  by (auto simp: withProcAiConfigProfile_def Let_def omitProcessAiConfigSecrets_def split: if_splits option.splits)

lemma fail_rest [simp]: "kt_procs (fst (failIpcCallsByTarget now u pid e st)) = kt_procs st"
  by (simp add: failIpcCallsByTarget_def split: prod.splits)

lemma forget_rest [simp]: "kt_procs (forget_process pid u st) = kt_procs st"
  by (simp add: forget_process_def)

lemma forwarded_kill: "kt_procs (fst (forwarded_effects now ctx call pid ownerUid data st))
    = (if call = ''proc.kill'' then fst (process_kill pid (kt_procs st)) else kt_procs st)"
proof -
  have "kt_procs (route_answer now ctx call pid ownerUid data s) = kt_procs s" for s
    by (auto simp: route_answer_def split: prod.splits connection_identity.splits option.splits)
  moreover have "kt_procs (fst (ended_process now call pid ownerUid st))
      = (if call = ''proc.kill'' then fst (process_kill pid (kt_procs st)) else kt_procs st)"
  proof -
    obtain s ids where "failIpcCallsByTarget now ownerUid pid ''Target process was killed'' (forget_process pid ownerUid st) = (s, ids)"
      by fastforce
    moreover from this have "kt_procs s = kt_procs st"
      by (metis fail_rest forget_rest fst_conv)
    ultimately show ?thesis by (simp add: ended_process_def)
  qed
  ultimately show ?thesis by (simp add: forwarded_effects_def split: prod.splits) (metis fst_conv)
qed

lemma forwarded_procs:
  "process_get (kt_procs (fst (forwarded_effects now ctx call pid ownerUid data st))) q
     = (if call = ''proc.kill'' \<and> q = pid then None else process_get (kt_procs st) q)"
  by (auto simp: forwarded_kill process_get_def process_kill_def lookup_delete_key split: option.splits)



section \<open>Calls between processes stay with their owner\<close>

definition same_owner_frame :: "proc_ctx \<Rightarrow> process_row list \<Rightarrow> proc_frame \<Rightarrow> bool" where
  "same_owner_frame ctx procs f \<longleftrightarrow>
     (case f of
        DeliverIpc target runId source i message metadata orig sentAt call \<Rightarrow>
          cx_processId (px_call ctx) = Some source \<and> i = px_process ctx
          \<and> (\<exists>s t. process_get procs source = Some s \<and> process_get procs target = Some t
               \<and> rc_uid s = pi_uid (px_process ctx) \<and> rc_ownerUid t = rc_ownerUid s
               \<and> orig = OriginProcess source (Some (rc_uid s)))
      | _ \<Rightarrow> False)"

lemma resolved_ipc:
  assumes "resolveSameOwnerIpc args ctx procs syscall = Inr r"
  shows "same_owner_frame ctx procs (ipc_frame ctx r runId now call)"
proof -
  obtain self where self: "cx_processId (px_call ctx) = Some self"
    using assms by (auto simp: resolveSameOwnerIpc_def truthy_def split: if_splits)
  obtain v where v: "normalizeIpcSendArgs args syscall = Inr v"
    using assms by (cases "normalizeIpcSendArgs args syscall") (auto simp: resolveSameOwnerIpc_def split: if_splits)
  obtain source target where "process_get procs self = Some source" "process_get procs (ia_pid v) = Some target"
    and "rc_uid source = pi_uid (px_process ctx)" "rc_ownerUid target = rc_ownerUid source"
    and "r = \<lparr>so_sourcePid = self, so_source = source, so_target = target, so_args = v\<rparr>"
    using assms unfolding resolveSameOwnerIpc_def Let_def self v bind_result.simps option.sel
    by (auto split: if_splits option.splits)
  then show ?thesis using self by (simp add: same_owner_frame_def ipc_frame_def)
qed

text \<open>
  C40. Through calls between processes a process reaches only processes of its own owner, and the message names it and
  the account it runs as.
\<close>

theorem ipc_stays_with_owner:
  "list_all (same_owner_frame ctx (kt_procs st)) (snd (handleProcIpcSend ctx runId now reply args (kt_procs st)))
   \<and> list_all (same_owner_frame ctx (kt_procs st)) (snd (snd (handleProcIpcCall w ctx args st)))"
proof (rule conjI)
  show "list_all (same_owner_frame ctx (kt_procs st)) (snd (handleProcIpcSend ctx runId now reply args (kt_procs st)))"
    using resolved_ipc by (auto simp: handleProcIpcSend_def split: sum.splits)
  show "list_all (same_owner_frame ctx (kt_procs st)) (snd (snd (handleProcIpcCall w ctx args st)))"
    using resolved_ipc
    by (auto simp: handleProcIpcCall_def Let_def split: sum.splits proc_reply.splits if_splits)
qed

fun ipc_started :: "ipc_result \<Rightarrow> bool" where
  "ipc_started (IpcStarted callId pid sourcePid runId deadlineAt queued) \<longleftrightarrow> True"
| "ipc_started _ \<longleftrightarrow> False"

lemma dropped [simp]: "ipc_get (kt_ipc (drop_call w s)) (iw_callId w) = None"
  by (simp add: drop_call_def ipc_get_def ipc_remove_def lookup_delete_key)

text \<open>
  A call that is answered with an error or a refusal before its deadline leaves no row behind, so nothing is
  delivered for it later; a call that is answered as started has its row unless it was settled meanwhile.
\<close>

theorem failed_ipc_call_leaves_no_row:
  assumes "ipc_get (kt_ipc st) (iw_callId w) = None"
    and "handleProcIpcCall w ctx args st = (st', Inr res, frames)" and "\<not> ipc_started res"
  shows "ipc_get (kt_ipc st') (iw_callId w) = None
    \<or> iw_later w \<ge> iw_now w + clampIpcCallTimeout (json_get (the args) ''timeoutMs'')
    \<or> (\<exists>c. ipc_get (kt_ipc st') (iw_callId w) = Some c \<and> ic_status c = IpcTimedOut)"
  using assms
  by (auto simp: handleProcIpcCall_def Let_def split: sum.splits proc_reply.splits if_splits option.splits)

section \<open>The accounts a caller is shown and those it may run as\<close>

lemma digits_name: "ACCOUNT_USERNAME_RE name \<Longrightarrow> js_trim name = name \<and> \<not> (name \<noteq> [] \<and> list_all is_digit name)"
proof -
  assume re: "ACCOUNT_USERNAME_RE name"
  have ws: "\<not> js_ws c" if "c \<in> set name" for c
    using re that by (auto simp: ACCOUNT_USERNAME_RE_def js_ws_def is_lower_az_def is_digit_def Let_def list_all_iff split: list.splits)
  obtain c cs where name: "name = c # cs" using re by (auto simp: ACCOUNT_USERNAME_RE_def split: list.splits)
  have "\<not> js_ws (hd name)" "\<not> js_ws (last name)" using ws name by auto
  moreover have "\<not> is_digit c" using re name by (auto simp: ACCOUNT_USERNAME_RE_def is_lower_az_def is_digit_def Let_def)
  ultimately show ?thesis using js_trim_eq_self name by auto
qed

lemma listed_account:
  assumes "a \<in> set (handleAccountList collate procs call uid s)"
  shows "\<exists>e \<in> set (db_passwd (ac_auth s)). sm_uid a = pw_uid e \<and> sm_username a = pw_username e
    \<and> canOwnerRunAsAccount (ac_auth s) (account_list_owner procs call uid) e
        (pi_uid (identity_process (cx_identity call)) = 0 \<and> account_list_owner procs call uid = pi_uid (identity_process (cx_identity call)))"
  using assms by (auto simp: handleAccountList_def Let_def getPasswdEntries_def intro!: bexI)

text \<open>
  Whatever account a caller is shown as one it may run as, other than its owner's own, it may name as the account
  of a process it spawns, and the process then runs as exactly that account.
\<close>

theorem listed_accounts_can_be_run_as:
  assumes "auth_inv (ac_auth s)" and "a \<in> set (handleAccountList collate procs (px_call ctx) None s)"
    and "ACCOUNT_USERNAME_RE (sm_username a)" and "sm_uid a \<noteq> px_owner ctx procs \<or> sm_uid a = pi_uid (px_process ctx)"
  shows "\<exists>ident. resolveRunAsIdentity (ac_auth s) ctx (sm_username a) (px_owner ctx procs) = Inr ident
    \<and> pi_uid ident = sm_uid a \<and> pi_username ident = sm_username a"
proof -
  have own: "account_list_owner procs (px_call ctx) None = px_owner ctx procs"
    by (simp add: account_list_owner_def px_owner_def)
  obtain e where e: "e \<in> set (db_passwd (ac_auth s))" "sm_uid a = pw_uid e" "sm_username a = pw_username e"
    and can: "canOwnerRunAsAccount (ac_auth s) (px_owner ctx procs) e (pi_uid (px_process ctx) = 0 \<and> px_owner ctx procs = pi_uid (px_process ctx))"
    using listed_account [OF assms(2)] unfolding own by (auto simp: px_process_def)
  have "getPasswdByUsername (ac_auth s) (sm_username a) = Some e"
    using assms(1) e by (simp add: getPasswdByUsername_def auth_inv_def lookup_iff)
  moreover have "pi_uid (px_process ctx) = 0 \<or> pw_uid e = pi_uid (px_process ctx) \<or> canOwnerDelegateRunAs (ac_auth s) (px_owner ctx procs) e"
    using can assms(4) e(2) by (auto simp: canOwnerRunAsAccount_def split: if_splits)
  ultimately show ?thesis
    using digits_name [OF assms(3)] e(2,3) by (auto simp: resolveRunAsIdentity_def Let_def accountIdentity_def)
qed

section \<open>Witnesses\<close>

definition no_ctx :: proc_ctx where
  "no_ctx = \<lparr>px_call = \<lparr>cx_identity = ConnUser (accountIdentity demo_auth demo_user) [], cx_processId = None, cx_callerOwnerUid = None\<rparr>,
     px_connection = Some (''c1'', None, None), px_processRunId = None\<rparr>"

definition demo_tables :: call_tables where
  "demo_tables = \<lparr>kt_accounts = demo_accounts, kt_procs = process_spawn 0 ''p1'' (accountIdentity demo_auth demo_user)
        \<lparr>sp_parentPid = None, sp_ownerUid = None, sp_interactive = None, sp_label = None, sp_cwd = None\<rparr> [],
     kt_ipc = [], kt_routes = []\<rparr>"

definition self_ctx :: proc_ctx where
  "self_ctx = no_ctx\<lparr>px_call := (px_call no_ctx)\<lparr>cx_processId := Some ''p1''\<rparr>\<rparr>"

definition plain_spawn :: spawn_args where
  "plain_spawn = \<lparr>sa_runAs = None, sa_label = None, sa_parentPid = None, sa_cwd = None, sa_interactive = None, sa_prompt = None\<rparr>"

definition good_world :: spawn_world where
  "good_world = \<lparr>sw_now = 1, sw_uuid = ''u'', sw_requestId = ''r'', sw_killId = ''k'', sw_agents = demo_pf,
     sw_reply = Inr (OkReply ''r'' (Some (JObj [(''ok'', JBool True)]))), sw_killed = Inr NoReply, sw_prompted = Inr (),
     sw_meanwhile = (\<lambda>_ s. s)\<rparr>"

text \<open>A process that spawns another runs it as itself; one that does not answer is removed.\<close>

lemma demo_spawn: "(case handleProcSpawn good_world plain_spawn self_ctx demo_tables of
     (st, r, frames) \<Rightarrow> r = Inr (SpawnOk ''proc:u'' None (pi_cwd (px_process self_ctx)))
       \<and> frames = [SetIdentity ''proc:u'' (px_process self_ctx) True None])"
  by code_simp

lemma spawned_process_is_authorised_witness:
  "may_run_as self_ctx demo_tables (pi_uid (px_process self_ctx))
     \<or> getPersonalAgentUid (ac_auth (fst (ensurePersonalAgent demo_pf (px_process self_ctx) None demo_accounts))) 1000 = Some 1000"
proof -
  obtain st' r frames where h: "handleProcSpawn good_world plain_spawn self_ctx demo_tables = (st', r, frames)" by (metis prod_cases3)
  have "SetIdentity ''proc:u'' (px_process self_ctx) True None \<in> set frames" using demo_spawn h by simp
  moreover have "pi_uid (px_process self_ctx) = 1000" by code_simp
  moreover have "sw_agents good_world = demo_pf" "kt_accounts demo_tables = demo_accounts"
    by (simp_all add: good_world_def demo_tables_def)
  ultimately show ?thesis using spawned_process_is_authorised [OF h] by metis
qed



lemma failed_ipc_call_leaves_no_row_witness:
  "\<exists>w st' frames. handleProcIpcCall w self_ctx (Some (JObj [(''pid'', JStr ''p1''), (''message'', JStr ''hi'')])) demo_tables
       = (st', Inr (IpcError ''busy''), frames) \<and> ipc_get (kt_ipc st') ''call'' = None"
proof -
  define w where "w = \<lparr>iw_now = 0, iw_later = 1, iw_callId = ''call'', iw_runId = ''run'', iw_sentAt = 0, iw_scheduled = Inr (),
     iw_reply = Inr (ErrReply ''x'' ''busy''), iw_meanwhile = (\<lambda>_ s. s)\<rparr>"
  let ?args = "Some (JObj [(''pid'', JStr ''p1''), (''message'', JStr ''hi'')])"
  have r: "fst (snd (handleProcIpcCall w self_ctx ?args demo_tables)) = Inr (IpcError ''busy'')"
    unfolding w_def by code_simp
  then obtain st' frames where h: "handleProcIpcCall w self_ctx ?args demo_tables = (st', Inr (IpcError ''busy''), frames)"
    by (metis prod.collapse)
  have none: "ipc_get (kt_ipc demo_tables) (iw_callId w) = None" by (simp add: demo_tables_def ipc_get_def)
  have call: "iw_callId w = ''call''" "iw_later w = 1" "iw_now w = 0" by (simp_all add: w_def)
  have "ipc_get (kt_ipc (fst (handleProcIpcCall w self_ctx ?args demo_tables))) ''call'' = None"
    unfolding w_def by code_simp
  moreover have "clampIpcCallTimeout (json_get (the ?args) ''timeoutMs'') = 60000" by code_simp
  ultimately show ?thesis
    using failed_ipc_call_leaves_no_row [OF none h] h call by auto
qed

text \<open>An agent's process is shown its owner's own account as one it may run as, but may not run as it.\<close>

definition agent_row :: "int passwd_entry" where
  "agent_row = demo_user\<lparr>pw_username := ''bot'', pw_uid := 1001, pw_gid := 1001\<rparr>"

definition agent_accounts :: account_state where
  "agent_accounts = demo_accounts\<lparr>ac_auth := (ac_auth demo_accounts)\<lparr>db_passwd := [demo_user, agent_row], db_agents := [(1000, 1001)]\<rparr>\<rparr>"

definition agent_ctx :: proc_ctx where
  "agent_ctx = no_ctx\<lparr>px_call := \<lparr>cx_identity = ConnUser (accountIdentity demo_auth agent_row) [], cx_processId = None, cx_callerOwnerUid = Some 1000\<rparr>\<rparr>"

lemma owner_is_listed_but_not_runnable:
  "map sm_username (handleAccountList (\<lambda>s. s) [] (px_call agent_ctx) None agent_accounts) = [''sam'', ''bot'']
   \<and> resolveRunAsIdentity (ac_auth agent_accounts) agent_ctx ''sam'' (px_owner agent_ctx []) = throw ''Permission denied: cannot run as sam''"
  by code_simp

lemma listed_accounts_can_be_run_as_witness:
  "\<exists>ident. resolveRunAsIdentity (ac_auth agent_accounts) agent_ctx ''bot'' (px_owner agent_ctx []) = Inr ident \<and> pi_uid ident = 1001"
proof -
  have inv: "auth_inv (ac_auth agent_accounts)"
    by (simp add: agent_accounts_def agent_row_def demo_user_def demo_accounts_def demo_auth_def auth_inv_def keyed_def)
  obtain a where a: "a \<in> set (handleAccountList (\<lambda>s. s) [] (px_call agent_ctx) None agent_accounts)" "sm_username a = ''bot'' \<and> sm_uid a = 1001"
  proof -
    have "list_ex (\<lambda>a. sm_username a = ''bot'' \<and> sm_uid a = 1001) (handleAccountList (\<lambda>s. s) [] (px_call agent_ctx) None agent_accounts)"
      by code_simp
    then show thesis using that by (auto simp: list_ex_iff)
  qed
  have re: "ACCOUNT_USERNAME_RE (sm_username a)" unfolding a(2) [THEN conjunct1] by code_simp
  have "px_owner agent_ctx [] = 1000" by code_simp
  then have "sm_uid a \<noteq> px_owner agent_ctx [] \<or> sm_uid a = pi_uid (px_process agent_ctx)" using a(2) by simp
  from listed_accounts_can_be_run_as [OF inv a(1) re this] a(2) show ?thesis by auto
qed

text \<open>Any caller may list the processes of any owner by naming him.\<close>

lemma anyone_lists_anyones_processes:
  "set (handleProcList ctx (Some u) procs) = set (handleProcList ctx2 (Some u) procs)
   \<and> (\<forall>r \<in> set procs. pr_owner_uid r = Some u \<longrightarrow> pr_id r \<in> le_pid ` set (handleProcList ctx (Some u) procs))"
  by (force simp: handleProcList_def process_list_def Let_def toProcessRecord_def image_iff)

end
