(* ===== verification/Spec2Isabelle.thy ===== *)
theory Spec2Isabelle
  imports Routing Approval Connect DeliveryLedger IpcCalls IngressReceipts Scheduler ProcessSignals
    Compaction RunHistory FileTree Crontab ProcCalls
begin

text \<open>
  GSV is a personal operating system for agents on Cloudflare Workers. One durable object, the
  kernel (\<open>gateway/src/kernel\<close>), holds the accounts, the permissions, the devices, the schedules and the
  tables of every call in flight; one durable object per agent process (\<open>gateway/src/process\<close>) holds its
  history and runs the loop that asks a model and carries out the tool calls of its answers. Machines
  (drivers), user clients and chat adapters (\<open>adapters/*\<close>) connect to the kernel; a tool call goes from a
  process through the kernel to a native handler or to a machine, and an answer goes from a process
  through the kernel to a client or to a chat.

  This development is a shallow embedding of that core: state is a record or a table of rows passed
  through the operations, one operation is one definition named like its method, a throw is an
  \<open>Inl\<close> of the result type of \<open>Prelude\<close>, and everything the sources await or call outside the
  repository (digests, random values, clocks, the model, an adapter's service, JSON.parse) is an
  argument. All definitions are executable.

  \<^bold>\<open>Foundations.\<close>
  \<^item> \<open>Prelude\<close>: strings as lists of UTF-16 code units with the library functions the sources use (split,
    trim, join, startsWith, decimal integers), results, JSON values.
  \<^item> \<open>Tables\<close>: SQLite tables as row lists, with INSERT, INSERT OR REPLACE or IGNORE, upsert, UPDATE and
    DELETE, and the locale \<open>keyed\<close> of a table with a unique key.
  \<^item> \<open>Delivery\<close>: the locale of an at-most-once hand-over, whose laws the ledger, the receipts and the
    IPC calls discharge.

  \<^bold>\<open>Accounts and permissions.\<close>
  \<^item> \<open>Base64\<close> (\<open>shared/base64.ts\<close>): the codec and the data-URL reader; the round trip.
  \<^item> \<open>AuthFiles\<close> (\<open>auth/passwd.ts\<close>, \<open>group.ts\<close>, \<open>shadow.ts\<close>): parsers and serializers of the account
    files, credentials; the round trips.
  \<^item> \<open>AuthStore\<close> (\<open>kernel/auth-store.ts\<close>): the account tables and the tokens; the uniqueness invariant
    over every operation, with an await as two states, and the exact condition under which a token
    authenticates.
  \<^item> \<open>Accounts\<close> (\<open>kernel/accounts.ts\<close>, \<open>account-access.ts\<close>): creation and the run-as rule.
  \<^item> \<open>Capabilities\<close> (\<open>kernel/capabilities.ts\<close>): the matcher, equal to a reading by segments, and the
    store, which refines a set of grants.
  \<^item> \<open>Config\<close> (\<open>kernel/config.ts\<close>, \<open>config-access.ts\<close>, \<open>sys/config.ts\<close>): the store refines a map of overrides
    over live defaults; what a caller reads and writes is confined.
  \<^item> \<open>Connect\<close> (\<open>kernel/connect.ts\<close>, \<open>sys/token.ts\<close>): who is let in, in which role.
  \<^item> \<open>Links\<close>, \<open>Destinations\<close> (\<open>identity-links.ts\<close>, \<open>link-challenges.ts\<close>, \<open>sys/link.ts\<close>, \<open>surface-routes.ts\<close>,
    \<open>adapter-status.ts\<close>, \<open>adapter-destinations.ts\<close>): who an outside actor is, and which chats a
    user may send to.

  \<^bold>\<open>Calls, schedules and messages in the kernel.\<close>
  \<^item> \<open>Devices\<close> (\<open>kernel/devices.ts\<close>, \<open>targets.ts\<close>), \<open>Routing\<close> (\<open>routing.ts\<close>, \<open>shell-sessions.ts\<close>,
    \<open>dispatch.ts\<close>, \<open>do.ts\<close>): which machine a call goes to, that only a caller with access reaches it and
    that it is answered at most once, to the origin it came from.
  \<^item> \<open>IpcCalls\<close> (\<open>ipc-calls.ts\<close>), \<open>IngressReceipts\<close> (\<open>adapter-ingress-receipts.ts\<close>), \<open>DeliveryLedger\<close>
    (\<open>adapters/shared/src/delivery-ledger.ts\<close>): the outcome of a call is decided once; a superseded owner
    is fenced; a delivery is not handed out twice, and a settled outcome is replayed.
  \<^item> \<open>Cron\<close>, \<open>Scheduler\<close> (\<open>kernel/scheduler.ts\<close>): the next run of an expression is the first instant it
    fires; runs of a schedule do not overlap; a one-shot ends. \<open>Crontab\<close> (\<open>crontab.ts\<close>): what a crontab may run,
    that an installed one is in force, and what a failed installation leaves.
  \<^item> \<open>Processes\<close>, \<open>SignalWatches\<close>, \<open>RunRoutes\<close>, \<open>ProcessSignals\<close> (\<open>processes.ts\<close>, \<open>signal-watches.ts\<close>,
    \<open>signals.ts\<close>, \<open>run-routes.ts\<close>, \<open>do.ts\<close>): the signals of a process stay with its owner, its runtime
    state follows its runs, and its answer is delivered or reported.
  \<^item> \<open>Agents\<close> (\<open>kernel/agents.ts\<close>), \<open>ProcCalls\<close> (\<open>proc-handlers.ts\<close>): the calls on processes. Who a process may be
    started as, that a spawn leaves a whole process or none, and that calls stay with the owner.
  \<^item> \<open>AdapterSend\<close> (\<open>adapter-handlers.ts\<close>): only authorised messages leave, and the result is faithful.

  \<^bold>\<open>The agent process.\<close>
  \<^item> \<open>Approval\<close> (\<open>process/approval.ts\<close>): the policy, its normal form and the choice of a rule.
  \<^item> \<open>AiConfig\<close> (\<open>process/ai-config.ts\<close>): the AI settings of a process, what a snapshot keeps and hides.
  \<^item> \<open>ProcessStore\<close>, \<open>ProcessHistory\<close>, \<open>Compaction\<close> (\<open>process/store.ts\<close>, \<open>do.ts\<close>): the tables of a process,
    the messages the model reads, and the conditional installation of a summary, which loses nothing.
  \<^item> \<open>ProcessRuns\<close> (\<open>process/do.ts\<close>): the process as a state machine. A handler is cut at its awaits into
    atomic parts; what waits is a thread, what arrives is an event, and \<open>proc_step\<close> carries out one
    part, so a sequence of events is an interleaving the runtime allows. A tick may come whenever its
    generation is current, which allows more sequences than the alarms of the runtime. A log records
    what the process asked, decided, sent and showed to the model; no operation reads it.
  \<^item> \<open>RunFrames\<close> (what each part leaves alone), \<open>RunAdmission\<close> (a message is admitted once), \<open>RunApproval\<close> (what
    is sent is allowed or approved), \<open>RunOnce\<close> (and sent once), \<open>RunHistory\<close> (every prompt answers every
    call): the invariants over all sequences.

  \<^bold>\<open>Files.\<close>
  \<^item> \<open>Paths\<close> (\<open>fs/utils.ts\<close>, \<open>shared/process-media-path.ts\<close>): normal paths, modes, the paths of process media.
  \<^item> \<open>ObjectFiles\<close> (\<open>fs/backends/r2.ts\<close>): files over an object store given by its laws. Reads and searches respect
    the modes, a protected file stays, a written one reads back, and a recursive removal asks no modes.
  \<^item> \<open>FileTree\<close> (\<open>fs/gsv-fs.ts\<close>, \<open>backends/process-media.ts\<close>, \<open>backends/account-home.ts\<close>): the backend of a path and the
    resolution of links, which ends after at most seventeen walks, each along the components of its path. A
    closed home is not reached and the media of a process stay with its owner. What a home serves, the kernel's files
    and the source trees are backends given as arguments.

  \<^bold>\<open>Bounds.\<close> The cron scan visits at most five years of minutes, the bound of the source, and ends by its
  measure; no other definition needs fuel. The eleven timers of the scheduler, the ten attempts of a
  delivery, the 256 tombstones and the capacity of the ledger are the constants of the sources.

  \<^bold>\<open>Not modelled.\<close> The web and extension clients, the native shell commands, the platform side of the
  adapters and the inference providers are I/O around services whose code is not in the repository.
  The command line tool and ripgit are written in Rust. The manifest lists every part left out, and
  for every part modelled what of it is missing.
\<close>

end
